(* ===== verification/Prelude.thy ===== *)
theory Prelude
  imports
    Main
    "HOL-Library.Multiset"
    "HOL-Library.List_Lexorder"
    "HOL-Library.Product_Lexorder"
    "HOL-Library.Char_ord"
    "HOL-Library.Signed_Division"
begin

text \<open>
  Prelude of the development: the parts of Go that every component uses.

  \<^item> 64-bit integers. A Go \<open>int64\<close> is an \<^typ>\<open>int\<close> in range, and every arithmetic
    operation that can leave the range wraps explicitly (\<open>wrap64\<close>, \<open>add64\<close>); a
    \<open>uint64\<close> is a \<^typ>\<open>nat\<close> below \<open>2 ^ 64\<close> (\<open>wrapu64\<close>, \<open>addu64\<close>).
  \<^item> Maps. A Go \<open>map[K]V\<close> is the type \<open>gomap\<close>: an association list sorted by key, so
    that two maps are equal exactly when every lookup agrees. \<open>range\<close> over a map reads
    \<open>entries\<close>; where the code's result could depend on Go's unspecified order, a lemma
    shows that it does not.
  \<^item> \<open>sort.Slice\<close>. \<open>sort_slice\<close> sorts by a comparison function; the locale
    \<open>sort_order\<close> is the contract under which the result is the same for every sorting
    algorithm and every input order.
  \<^item> Loops that can fail: \<open>fold_result\<close>.
\<close>

named_theorems int64_simps \<open>rewriting of wrapping 64-bit arithmetic\<close>

section \<open>64-bit integers\<close>

definition minInt64 :: int where "minInt64 = - (2 ^ 63)"
definition maxInt64 :: int where "maxInt64 = 2 ^ 63 - 1"
definition maxUint64 :: nat where "maxUint64 = 2 ^ 64 - 1"

definition int64 :: "int \<Rightarrow> bool" where
  "int64 x \<longleftrightarrow> minInt64 \<le> x \<and> x \<le> maxInt64"

definition wrap64 :: "int \<Rightarrow> int" where
  "wrap64 x = (x + 2 ^ 63) mod 2 ^ 64 - 2 ^ 63"

definition add64 :: "int \<Rightarrow> int \<Rightarrow> int" where
  "add64 a b = wrap64 (a + b)"

definition clamp64 :: "int \<Rightarrow> int" where
  "clamp64 x = max minInt64 (min maxInt64 x)"

definition sub64 :: "int \<Rightarrow> int \<Rightarrow> int" where
  "sub64 a b = wrap64 (a - b)"

definition wrapu64 :: "nat \<Rightarrow> nat" where
  "wrapu64 n = n mod 2 ^ 64"

definition addu64 :: "nat \<Rightarrow> nat \<Rightarrow> nat" where
  "addu64 a b = wrapu64 (a + b)"

text \<open>
  \<open>bits.Mul64\<close> and \<open>bits.Div64\<close>: the 128-bit product of two \<open>uint64\<close> as its two halves, and
  the quotient and remainder of a 128-bit dividend (its callers ensure that the divisor is
  above the high half, where the quotient fits and the call does not panic).
\<close>

definition Mul64 :: "nat \<Rightarrow> nat \<Rightarrow> nat \<times> nat" where
  "Mul64 a b = (a * b div 2 ^ 64, a * b mod 2 ^ 64)"

definition Div64 :: "nat \<Rightarrow> nat \<Rightarrow> nat \<Rightarrow> nat \<times> nat" where
  "Div64 hi lo y = ((hi * 2 ^ 64 + lo) div y, (hi * 2 ^ 64 + lo) mod y)"

lemma wrap64_int64 [simp]: "int64 (wrap64 x)"
proof -
  have "0 \<le> (x + 2 ^ 63) mod 2 ^ 64" and "(x + 2 ^ 63) mod 2 ^ 64 < 2 ^ 64"
    by simp_all
  then show ?thesis
    by (simp add: int64_def wrap64_def minInt64_def maxInt64_def)
qed

lemma wrap64_id: "int64 x \<Longrightarrow> wrap64 x = x"
  unfolding int64_def wrap64_def minInt64_def maxInt64_def
  by (subst mod_pos_pos_trivial) auto

lemma wrap64_mod: "wrap64 x mod 2 ^ 64 = x mod 2 ^ 64"
  unfolding wrap64_def by (metis add_diff_cancel_right' mod_diff_left_eq)

lemma wrap64_cong: "x mod 2 ^ 64 = y mod 2 ^ 64 \<Longrightarrow> wrap64 x = wrap64 y"
  unfolding wrap64_def by (metis mod_add_left_eq)

lemma wrap64_add_left [int64_simps]: "wrap64 (wrap64 x + y) = wrap64 (x + y)"
  by (rule wrap64_cong) (metis mod_add_left_eq wrap64_mod)

lemma wrap64_add_right [int64_simps]: "wrap64 (x + wrap64 y) = wrap64 (x + y)"
  using wrap64_add_left [of y x] by (simp add: add.commute)

lemma wrap64_wrap64 [simp]: "wrap64 (wrap64 x) = wrap64 x"
  by (simp add: wrap64_id)

lemma add64_int64 [simp]: "int64 (add64 a b)"
  by (simp add: add64_def)

lemma add64_exact: "int64 (a + b) \<Longrightarrow> add64 a b = a + b"
  by (simp add: add64_def wrap64_id)

lemma add64_nonneg: "0 \<le> a \<Longrightarrow> 0 \<le> b \<Longrightarrow> a + b \<le> maxInt64 \<Longrightarrow> add64 a b = a + b"
  by (rule add64_exact) (simp add: int64_def minInt64_def)

lemma sub64_exact: "int64 (a - b) \<Longrightarrow> sub64 a b = a - b"
  by (simp add: sub64_def wrap64_id)

lemma Div64_Mul64: "Div64 (fst (Mul64 a b)) (snd (Mul64 a b)) y = (a * b div y, a * b mod y)"
  unfolding Div64_def Mul64_def fst_conv snd_conv by (simp only: div_mult_mod_eq)

lemma add64_commute: "add64 a b = add64 b a"
  by (simp add: add64_def add.commute)

lemma add64_assoc: "add64 (add64 a b) c = add64 a (add64 b c)"
  by (simp add: add64_def int64_simps add.assoc)

lemma add64_left_commute: "add64 a (add64 b c) = add64 b (add64 a c)"
  by (metis add64_assoc add64_commute)

lemmas add64_ac = add64_assoc add64_commute add64_left_commute

lemma add64_0 [simp]: "int64 a \<Longrightarrow> add64 a 0 = a" "int64 a \<Longrightarrow> add64 0 a = a"
  by (simp_all add: add64_def wrap64_id)

lemma int64_0 [simp]: "int64 0" and int64_1 [simp]: "int64 1"
  by (simp_all add: int64_def minInt64_def maxInt64_def)

lemma wrap64_0 [simp]: "wrap64 0 = 0" and wrap64_1 [simp]: "wrap64 1 = 1"
  by (simp_all add: wrap64_id)

lemma add64_one_neq: "add64 n 1 \<noteq> n"
proof
  assume "add64 n 1 = n"
  then have "(n + 1) mod 2 ^ 64 = n mod 2 ^ 64" by (metis add64_def wrap64_mod)
  then have "(2 ^ 64 :: int) dvd 1" by (simp add: mod_eq_dvd_iff)
  then show False by simp
qed

lemma clamp64_int64 [simp]: "int64 (clamp64 x)"
  by (auto simp: int64_def clamp64_def minInt64_def maxInt64_def)

lemma clamp64_id: "int64 x \<Longrightarrow> clamp64 x = x"
  by (simp add: int64_def clamp64_def)

lemma clamp64_pos: "0 < clamp64 x \<longleftrightarrow> 0 < x"
  by (auto simp: clamp64_def minInt64_def maxInt64_def)

lemma clamp64_nonneg: "0 \<le> clamp64 x \<longleftrightarrow> 0 \<le> x"
  by (auto simp: clamp64_def minInt64_def maxInt64_def)

lemma clamp64_le: "0 \<le> x \<Longrightarrow> clamp64 x \<le> x"
  by (auto simp: clamp64_def minInt64_def maxInt64_def)

lemma wrapu64_less [simp]: "wrapu64 n < 2 ^ 64"
  by (simp add: wrapu64_def)

lemma wrapu64_less_numeral [simp]: "wrapu64 n < 18446744073709551616"
  using wrapu64_less [of n] by simp

lemma wrapu64_id: "n < 2 ^ 64 \<Longrightarrow> wrapu64 n = n"
  by (simp add: wrapu64_def)

lemma wrapu64_code [code]: "wrapu64 n = (if int n < 2 ^ 64 then n else nat (int n mod 2 ^ 64))"
  by (auto simp: wrapu64_def nat_mod_distrib)

lemma wrapu64_add_left [int64_simps]: "wrapu64 (wrapu64 x + y) = wrapu64 (x + y)"
  by (simp add: wrapu64_def mod_add_left_eq)

lemma wrapu64_add_right [int64_simps]: "wrapu64 (x + wrapu64 y) = wrapu64 (x + y)"
  by (simp add: wrapu64_def mod_add_right_eq)

lemma wrapu64_Suc [int64_simps]: "wrapu64 (Suc (wrapu64 x)) = wrapu64 (Suc x)"
  using wrapu64_add_left [of x 1] by simp

lemma addu64_assoc: "addu64 (addu64 a b) c = addu64 a (addu64 b c)"
  by (simp add: addu64_def int64_simps add.assoc)

lemma addu64_commute: "addu64 a b = addu64 b a"
  by (simp add: addu64_def add.commute)

lemma addu64_0 [simp]: "n < 2 ^ 64 \<Longrightarrow> addu64 n 0 = n" "n < 2 ^ 64 \<Longrightarrow> addu64 0 n = n"
  by (simp_all add: addu64_def wrapu64_id)

section \<open>Go maps\<close>

subsection \<open>Sorted association lists\<close>

fun upd_sorted :: "'k::linorder \<Rightarrow> 'v \<Rightarrow> ('k \<times> 'v) list \<Rightarrow> ('k \<times> 'v) list" where
  "upd_sorted k v [] = [(k, v)]"
| "upd_sorted k v ((k', v') # m) =
     (if k < k' then (k, v) # (k', v') # m
      else if k = k' then (k, v) # m
      else (k', v') # upd_sorted k v m)"

abbreviation sorted_keys :: "('k::linorder \<times> 'v) list \<Rightarrow> bool" where
  "sorted_keys m \<equiv> sorted_wrt (<) (map fst m)"

lemma set_keys_upd_sorted: "set (map fst (upd_sorted k v m)) = insert k (set (map fst m))"
  by (induction k v m rule: upd_sorted.induct) auto

lemma sorted_keys_upd: "sorted_keys m \<Longrightarrow> sorted_keys (upd_sorted k v m)"
proof (induction k v m rule: upd_sorted.induct)
  case (2 k v k' v' m)
  then show ?case
    using set_keys_upd_sorted [of k v m] by (auto simp del: set_map)
qed simp

lemma map_of_upd_sorted: "map_of (upd_sorted k v m) = (map_of m)(k \<mapsto> v)"
  by (induction k v m rule: upd_sorted.induct) (auto simp: fun_eq_iff)

lemma sorted_keys_filter: "sorted_keys m \<Longrightarrow> sorted_keys (filter P m)"
  by (induction m) auto

lemma sorted_keys_distinct: "sorted_keys m \<Longrightarrow> distinct (map fst m)"
  by (rule strict_sorted_iff [THEN iffD1, THEN conjunct2])

lemma map_of_filter_key:
  "map_of (filter (\<lambda>e. fst e \<noteq> k) m) = (map_of m)(k := None)"
  by (induction m) (auto simp: fun_eq_iff)

lemma map_of_filter_sorted:
  "sorted_keys m \<Longrightarrow> map_of (filter P m) k =
     (case map_of m k of None \<Rightarrow> None | Some v \<Rightarrow> if P (k, v) then Some v else None)"
proof (induction m)
  case (Cons e m)
  obtain k' v' where e: "e = (k', v')" by force
  have "k' \<notin> set (map fst m)" using Cons.prems e by auto
  then have none: "map_of m k' = None" by (simp add: map_of_eq_None_iff)
  show ?case using Cons e none by (auto split: option.splits)
qed simp

lemma sorted_keys_ext:
  assumes "sorted_keys m" and "sorted_keys m'" and "map_of m = map_of m'"
  shows "m = m'"
proof -
  have keys: "map fst m = map fst m'"
  proof (rule strict_sorted_equal [OF assms(2,1)])
    show "set (map fst m) = set (map fst m')"
      using arg_cong [OF assms(3), of dom] by (simp add: dom_map_of_conv_image_fst)
  qed
  have rebuild: "n = map (\<lambda>k. (k, the (map_of n k))) (map fst n)"
    if "sorted_keys n" for n :: "('a \<times> 'b) list"
    using sorted_keys_distinct [OF that] by (auto intro!: map_idI [symmetric])
  show ?thesis
    using rebuild [OF assms(1)] rebuild [OF assms(2)] keys assms(3) by simp
qed

subsection \<open>The map type\<close>

typedef (overloaded) ('k::linorder, 'v) gomap = "{m :: ('k \<times> 'v) list. sorted_keys m}"
  morphisms entries Gomap
  by (rule exI [of _ "[]"]) simp

setup_lifting type_definition_gomap

lift_definition mempty :: "('k::linorder, 'v) gomap" is "[]" by simp

lift_definition mget :: "('k::linorder, 'v) gomap \<Rightarrow> 'k \<Rightarrow> 'v option" is map_of .

lift_definition mput :: "'k::linorder \<Rightarrow> 'v \<Rightarrow> ('k, 'v) gomap \<Rightarrow> ('k, 'v) gomap" is upd_sorted
  by (rule sorted_keys_upd)

lift_definition mfilter :: "('k::linorder \<Rightarrow> 'v \<Rightarrow> bool) \<Rightarrow> ('k, 'v) gomap \<Rightarrow> ('k, 'v) gomap"
  is "\<lambda>P. filter (\<lambda>(k, v). P k v)"
  by (rule sorted_keys_filter)

definition mdel :: "'k::linorder \<Rightarrow> ('k, 'v) gomap \<Rightarrow> ('k, 'v) gomap" where
  "mdel k m = mfilter (\<lambda>k' _. k' \<noteq> k) m"

definition mvalues :: "('k::linorder, 'v) gomap \<Rightarrow> 'v list" where
  "mvalues m = map snd (entries m)"

definition mkeys :: "('k::linorder, 'v) gomap \<Rightarrow> 'k list" where
  "mkeys m = map fst (entries m)"

definition mlen :: "('k::linorder, 'v) gomap \<Rightarrow> nat" where
  "mlen m = length (entries m)"

text \<open>\<open>m[k] op= v\<close> on a map whose missing entries read as a zero value.\<close>

definition mget_or :: "'v \<Rightarrow> ('k::linorder, 'v) gomap \<Rightarrow> 'k \<Rightarrow> 'v" where
  "mget_or z m k = (case mget m k of None \<Rightarrow> z | Some v \<Rightarrow> v)"

definition mupd :: "'v \<Rightarrow> ('v \<Rightarrow> 'v) \<Rightarrow> 'k::linorder \<Rightarrow> ('k, 'v) gomap \<Rightarrow> ('k, 'v) gomap" where
  "mupd z f k m = mput k (f (mget_or z m k)) m"

instantiation gomap :: (linorder, equal) equal
begin

definition equal_gomap :: "('a, 'b) gomap \<Rightarrow> ('a, 'b) gomap \<Rightarrow> bool" where
  "equal_gomap m m' \<longleftrightarrow> entries m = entries m'"

instance
  by standard (simp add: equal_gomap_def entries_inject)

end

lemma entries_sorted [simp]: "sorted_keys (entries m)"
  using entries [of m] by simp

lemma entries_distinct [simp]: "distinct (map fst (entries m))"
  by (rule sorted_keys_distinct) simp

lemma entries_distinct_pairs [simp]: "distinct (entries m)"
  using entries_distinct distinct_map by blast

lemma entries_mempty [simp]: "entries mempty = []"
  by (rule mempty.rep_eq)

lemma entries_mput [simp]: "entries (mput k v m) = upd_sorted k v (entries m)"
  by (rule mput.rep_eq)

lemma entries_mfilter [simp]: "entries (mfilter P m) = filter (\<lambda>(k, v). P k v) (entries m)"
  by (rule mfilter.rep_eq)

lemma mget_entries: "mget m k = Some v \<longleftrightarrow> (k, v) \<in> set (entries m)"
  by (simp add: mget.rep_eq)

lemma mget_None_iff: "mget m k = None \<longleftrightarrow> k \<notin> set (map fst (entries m))"
  by (simp add: mget.rep_eq map_of_eq_None_iff)

lemma mget_mempty [simp]: "mget mempty k = None"
  by (simp add: mget.rep_eq)

lemma mget_mput [simp]: "mget (mput k v m) k' = (if k' = k then Some v else mget m k')"
  by (simp add: mget.rep_eq map_of_upd_sorted)

lemma mget_mfilter:
  "mget (mfilter P m) k = (case mget m k of None \<Rightarrow> None | Some v \<Rightarrow> if P k v then Some v else None)"
  by (simp add: mget.rep_eq map_of_filter_sorted split: option.splits)

lemma mget_mdel [simp]: "mget (mdel k m) k' = (if k' = k then None else mget m k')"
  by (auto simp: mdel_def mget_mfilter split: option.splits)

lemma gomap_eqI: "(\<And>k. mget m k = mget m' k) \<Longrightarrow> m = m'"
  by (metis entries_inject entries_sorted ext mget.rep_eq sorted_keys_ext)

lemma gomap_eq_iff: "m = m' \<longleftrightarrow> (\<forall>k. mget m k = mget m' k)"
  by (auto intro: gomap_eqI)

lemma gomap_eqI_or:
  "(\<And>k. mget m k = None \<longleftrightarrow> mget m' k = None) \<Longrightarrow> (\<And>k. mget_or z m k = mget_or z m' k) \<Longrightarrow> m = m'"
proof (rule gomap_eqI)
  fix k
  assume none: "\<And>k. mget m k = None \<longleftrightarrow> mget m' k = None"
    and val: "\<And>k. mget_or z m k = mget_or z m' k"
  show "mget m k = mget m' k"
    using none [of k] val [of k] by (auto simp: mget_or_def split: option.splits)
qed

lemma mget_or_mempty [simp]: "mget_or z mempty k = z"
  by (simp add: mget_or_def)

lemma mget_or_mput [simp]: "mget_or z (mput k v m) k' = (if k' = k then v else mget_or z m k')"
  by (simp add: mget_or_def)

lemma mget_mupd [simp]:
  "mget (mupd z f k m) k' = (if k' = k then Some (f (mget_or z m k)) else mget m k')"
  by (simp add: mupd_def)

lemma mget_or_mupd [simp]:
  "mget_or z (mupd z f k m) k' = (if k' = k then f (mget_or z m k) else mget_or z m k')"
  by (simp add: mupd_def)

lemma mupd_commute:
  "(\<And>x. f (g x) = g (f x)) \<Longrightarrow> mupd z f k (mupd z g k' m) = mupd z g k' (mupd z f k m)"
  by (rule gomap_eqI) (simp add: mget_or_def)

lemma mdel_mempty [simp]: "mdel k mempty = mempty"
  by (rule gomap_eqI) simp

lemma mkeys_iff: "k \<in> set (mkeys m) \<longleftrightarrow> mget m k \<noteq> None"
  by (force simp: mkeys_def mget.rep_eq map_of_eq_None_iff)

lemma mvalues_iff: "v \<in> set (mvalues m) \<longleftrightarrow> (\<exists>k. mget m k = Some v)"
  by (force simp: mvalues_def mget_entries)

lemma finite_dom_mget: "finite {k. mget m k \<noteq> None}"
proof -
  have "{k. mget m k \<noteq> None} = set (mkeys m)" by (auto simp: mkeys_iff)
  then show ?thesis by simp
qed

lemma mput_mput [simp]: "mput k v (mput k v' m) = mput k v m"
  by (rule gomap_eqI) simp

lemma mget_mput_same: "mget m k = Some v \<Longrightarrow> mput k v m = m"
  by (rule gomap_eqI) simp

text \<open>Copying a map entry by entry, \<open>maps.Copy\<close> into an empty map, gives the map.\<close>

lemma mget_fold_mput:
  "distinct (map fst ps) \<Longrightarrow> mget (fold (\<lambda>(k, v) m. mput k v m) ps m) k =
     (case map_of ps k of None \<Rightarrow> mget m k | Some v \<Rightarrow> Some v)"
  by (induction ps arbitrary: m) (auto split: option.splits, force dest: map_of_SomeD)

lemma fold_mput_entries [simp]: "fold (\<lambda>(k, v) m. mput k v m) (entries m) mempty = m"
  by (rule gomap_eqI, simp add: mget_fold_mput) (simp add: mget.rep_eq split: option.splits)

text \<open>Adding a list of amounts into the entries of a map of \<open>uint64\<close> counters.\<close>

definition add_counts :: "('k::linorder \<times> nat) list \<Rightarrow> ('k, nat) gomap \<Rightarrow> ('k, nat) gomap" where
  "add_counts ps m = fold (\<lambda>(k, c). mupd 0 (\<lambda>x. addu64 x c) k) ps m"

lemma mget_add_counts_None:
  "mget (add_counts ps m) k = None \<longleftrightarrow> mget m k = None \<and> k \<notin> set (map fst ps)"
  unfolding add_counts_def by (induction ps arbitrary: m) (auto simp: case_prod_beta)

lemma mget_or_add_counts:
  "mget_or 0 m k < 2 ^ 64 \<Longrightarrow>
   mget_or 0 (add_counts ps m) k =
     wrapu64 (mget_or 0 m k + sum_list (map snd (filter (\<lambda>p. fst p = k) ps)))"
  unfolding add_counts_def
  by (induction ps arbitrary: m)
    (auto simp: case_prod_beta wrapu64_id addu64_def int64_simps add.assoc)

lemma sum_filter_entries:
  fixes m :: "('k::linorder, nat) gomap"
  shows "sum_list (map snd (filter (\<lambda>p. fst p = k) (entries m))) = mget_or 0 m k"
proof -
  have "sum_list (map snd (filter (\<lambda>p. fst p = k) xs)) =
      (case map_of xs k of None \<Rightarrow> 0 | Some v \<Rightarrow> v)"
    if "distinct (map fst xs)" for xs :: "('k \<times> nat) list"
    using that
    by (induction xs) (auto simp: filter_empty_conv split: option.splits, (force dest: map_of_SomeD)+)
  then show ?thesis by (simp add: mget_or_def mget.rep_eq)
qed

lemma nonzero_entries:
  "k \<in> set (map fst (filter (\<lambda>p. snd p \<noteq> 0) (entries m))) \<longleftrightarrow> mget_or 0 m k \<noteq> 0"
proof -
  have "k \<in> set (map fst (filter (\<lambda>p. snd p \<noteq> 0) (entries m))) \<longleftrightarrow> (\<exists>v. mget m k = Some v \<and> v \<noteq> 0)"
    by (force simp: mget_entries)
  then show ?thesis by (auto simp: mget_or_def split: option.splits)
qed

lemma add_counts_mset:
  assumes "mset ps = mset qs" and "\<And>k. mget_or 0 m k < 2 ^ 64"
  shows "add_counts ps m = add_counts qs m"
proof (rule gomap_eqI_or [where z = 0])
  fix k
  have "set ps = set qs" using assms(1) by (metis set_mset_mset)
  then show "mget (add_counts ps m) k = None \<longleftrightarrow> mget (add_counts qs m) k = None"
    by (simp add: mget_add_counts_None)
  have "mset (map snd (filter (\<lambda>p. fst p = k) ps)) = mset (map snd (filter (\<lambda>p. fst p = k) qs))"
    by (simp only: mset_map mset_filter assms(1))
  then have "sum_list (map snd (filter (\<lambda>p. fst p = k) ps)) = sum_list (map snd (filter (\<lambda>p. fst p = k) qs))"
    by (metis sum_mset_sum_list)
  then show "mget_or 0 (add_counts ps m) k = mget_or 0 (add_counts qs m) k"
    using assms(2) by (simp add: mget_or_add_counts)
qed

lemma add_counts_entries:
  assumes "\<And>k c. mget m k = Some c \<Longrightarrow> c < 2 ^ 64"
  shows "add_counts (entries m) mempty = m"
proof (rule gomap_eqI_or [where z = 0])
  fix k
  show "mget (add_counts (entries m) mempty) k = None \<longleftrightarrow> mget m k = None"
    unfolding mget_add_counts_None by (simp add: mget_None_iff)
  have "mget_or 0 m k < 2 ^ 64"
    using assms [of k] by (auto simp: mget_or_def split: option.splits)
  then show "mget_or 0 (add_counts (entries m) mempty) k = mget_or 0 m k"
    by (simp add: mget_or_add_counts sum_filter_entries wrapu64_id)
qed

lemma sum_upd_sorted:
  fixes v :: nat
  shows "sorted_keys m \<Longrightarrow> sum_list (map snd (upd_sorted k v m)) +
      (case map_of m k of None \<Rightarrow> 0 | Some x \<Rightarrow> x) = sum_list (map snd m) + v"
proof (induction k v m rule: upd_sorted.induct)
  case (2 k v k' v' m)
  have "map_of m k = None" if "k < k'"
    using 2(2) that by (force simp: map_of_eq_None_iff)
  then show ?case using 2 by (auto split: option.splits)
qed simp

lemma sum_list_upd_sorted:
  fixes h :: "'k::linorder \<times> 'v \<Rightarrow> int"
  shows "sorted_keys m \<Longrightarrow> sum_list (map h (upd_sorted k v m)) =
      sum_list (map h m) + h (k, v) - (case map_of m k of None \<Rightarrow> 0 | Some x \<Rightarrow> h (k, x))"
proof (induction k v m rule: upd_sorted.induct)
  case (2 k v k' v' m)
  have "map_of m k = None" if "k < k'"
    using 2(2) that by (force simp: map_of_eq_None_iff)
  then show ?case using 2 by (auto split: option.splits)
qed simp

lemma mkeys_sorted [simp]: "sorted (mkeys m)"
  by (simp add: mkeys_def strict_sorted_imp_sorted)

lemma mkeys_distinct [simp]: "distinct (mkeys m)"
  by (simp add: mkeys_def)

lemma map_mkeys_entries: "map (\<lambda>k. (k, mget_or z m k)) (mkeys m) = entries m"
  by (auto simp: mkeys_def mget_or_def mget.rep_eq intro!: map_idI)

section \<open>Sorting\<close>

text \<open>\<open>sort.Slice(xs, less)\<close>, as an insertion sort.\<close>

fun insert_by :: "('a \<Rightarrow> 'a \<Rightarrow> bool) \<Rightarrow> 'a \<Rightarrow> 'a list \<Rightarrow> 'a list" where
  "insert_by lt x [] = [x]"
| "insert_by lt x (y # ys) = (if lt y x then y # insert_by lt x ys else x # y # ys)"

fun sort_slice :: "('a \<Rightarrow> 'a \<Rightarrow> bool) \<Rightarrow> 'a list \<Rightarrow> 'a list" where
  "sort_slice lt [] = []"
| "sort_slice lt (x # xs) = insert_by lt x (sort_slice lt xs)"

lemma mset_insert_by [simp]: "mset (insert_by lt x xs) = add_mset x (mset xs)"
  by (induction xs) auto

lemma mset_sort_slice [simp]: "mset (sort_slice lt xs) = mset xs"
  by (induction xs) auto

lemma set_sort_slice [simp]: "set (sort_slice lt xs) = set xs"
  by (metis mset_sort_slice set_mset_mset)

lemma length_sort_slice [simp]: "length (sort_slice lt xs) = length xs"
  by (metis mset_sort_slice size_mset)

text \<open>
  The contract of a comparison function: it is the strict order of some key. The result
  of \<open>sort.Slice\<close> is then ordered, and where the keys are pairwise distinct it is the only
  ordered permutation of its input: no sorting algorithm and no iteration order of the map
  the input was read from can change it.
\<close>

locale sort_order =
  fixes lt :: "'a \<Rightarrow> 'a \<Rightarrow> bool"
    and key :: "'a \<Rightarrow> 'k::linorder"
  assumes lt_key: "lt a b \<longleftrightarrow> key a < key b"
begin

lemma insert_by_insort: "insert_by lt x xs = insort_key key x xs"
  by (induction xs) (auto simp: lt_key)

lemma sort_slice_sort_key: "sort_slice lt xs = sort_key key xs"
  by (induction xs) (simp_all add: insert_by_insort)

lemma sorted_sort_slice: "sorted (map key (sort_slice lt xs))"
  by (simp add: sort_slice_sort_key)

lemma sort_slice_perm:
  "mset xs = mset ys \<Longrightarrow> inj_on key (set xs) \<Longrightarrow> sort_slice lt xs = sort_slice lt ys"
  by (simp add: sort_slice_sort_key sort_key_eq_sort_key)

lemma sort_slice_unique:
  assumes "mset ys = mset xs" and "sorted_wrt (\<lambda>a b. \<not> lt b a) ys" and "inj_on key (set xs)"
  shows "ys = sort_slice lt xs"
proof -
  have "sorted (map key ys)"
    using assms(2) by (simp add: lt_key sorted_wrt_map not_less)
  then have "sort_key key ys = ys" by (rule sort_key_id_if_sorted)
  then show ?thesis
    using sort_slice_perm [OF assms(1)[symmetric]] assms(3) by (simp add: sort_slice_sort_key)
qed

end

section \<open>Loops that can fail\<close>

text \<open>
  A \<open>for\<close> loop whose body returns the error of its first failing iteration: the state
  reached so far is kept beside the error, because the writes made before it stay made.
\<close>

fun fold_result :: "('x \<Rightarrow> 's \<Rightarrow> 's \<times> 'e option) \<Rightarrow> 'x list \<Rightarrow> 's \<Rightarrow> 's \<times> 'e option" where
  "fold_result f [] s = (s, None)"
| "fold_result f (x # xs) s =
     (case f x s of (s', None) \<Rightarrow> fold_result f xs s' | (s', Some e) \<Rightarrow> (s', Some e))"

lemma fold_result_append:
  "fold_result f (xs @ ys) s =
     (case fold_result f xs s of (s', None) \<Rightarrow> fold_result f ys s' | (s', Some e) \<Rightarrow> (s', Some e))"
  by (induction xs arbitrary: s) (auto split: prod.splits option.splits)

lemma fold_result_invariant:
  assumes "\<And>x s. x \<in> set xs \<Longrightarrow> P s \<Longrightarrow> P (fst (f x s))" and "P s"
  shows "P (fst (fold_result f xs s))"
  using assms
proof (induction xs arbitrary: s)
  case (Cons x xs)
  obtain s' r where step: "f x s = (s', r)" by force
  then have "P s'" using Cons.prems(1) [of x s] Cons.prems(2) by simp
  then show ?case
    using Cons.IH [of s'] Cons.prems(1) step by (cases r) auto
qed simp

lemma fold_invariant_list:
  assumes "\<And>x s. x \<in> set xs \<Longrightarrow> P s \<Longrightarrow> P (f x s)" and "P s"
  shows "P (fold f xs s)"
  using assms by (induction xs arbitrary: s) auto

end
