(* ===== verification/GoTime.thy ===== *)
theory GoTime
  imports Prelude
begin

text \<open>
  Instants and durations as Go's package \<open>time\<close> has them.

  An instant is the number of nanoseconds since Go's zero time (1 January of year 1,
  UTC), so \<open>time.Time{}\<close> is \<^term>\<open>0 :: int\<close> and \<open>IsZero\<close> compares with it. The location a
  \<open>time.Time\<close> carries does not change which instant it is, so \<open>UTC()\<close> is the identity and
  \<open>Equal\<close>, \<open>Before\<close> and \<open>After\<close> are the order of the integers. Go's instants have a range
  of hundreds of billions of years; their overflow is not modelled. The two places where
  64 bits do matter are kept: \<open>Sub\<close> saturates and \<open>UnixNano\<close> wraps.
\<close>

type_synonym time = int
type_synonym duration = int

definition nanosecond :: duration where "nanosecond = 1"
definition second :: duration where "second = 1000000000"
definition minute :: duration where "minute = 60 * second"
definition hour :: duration where "hour = 60 * minute"

text \<open>Seconds between Go's zero time and the Unix epoch.\<close>

definition unixToInternal :: int where
  "unixToInternal = (1969 * 365 + 1969 div 4 - 1969 div 100 + 1969 div 400) * 86400"

definition epoch :: time where "epoch = unixToInternal * second"

abbreviation (input) IsZero :: "time \<Rightarrow> bool" where "IsZero t \<equiv> t = 0"

text \<open>\<open>t.Truncate(d)\<close>: down to a multiple of \<open>d\<close> since the zero time; \<open>d \<le> 0\<close> leaves \<open>t\<close>.\<close>

definition Truncate :: "time \<Rightarrow> duration \<Rightarrow> time" where
  "Truncate t d = (if d \<le> 0 then t else t - t mod d)"

text \<open>\<open>t.Sub(u)\<close>: the difference, saturated to the range of \<open>Duration\<close>.\<close>

definition Sub :: "time \<Rightarrow> time \<Rightarrow> duration" where
  "Sub t u = clamp64 (t - u)"

text \<open>\<open>t.Unix()\<close> and \<open>t.UnixNano()\<close>; the second wraps outside the years 1678 to 2262.\<close>

definition Unix :: "time \<Rightarrow> int" where
  "Unix t = t div second - unixToInternal"

definition UnixNano :: "time \<Rightarrow> int" where
  "UnixNano t = wrap64 (t - epoch)"

text \<open>\<open>time.Unix(s, 0)\<close>.\<close>

definition time_Unix :: "int \<Rightarrow> time" where
  "time_Unix s = (s + unixToInternal) * second"

lemma second_pos [simp]: "0 < second"
  by (simp add: second_def)

lemma second_nonzero [simp]: "second \<noteq> 0"
  by (simp add: second_def)

lemma Truncate_le: "Truncate t d \<le> t"
  by (simp add: Truncate_def)

lemma less_Truncate_add: "0 < d \<Longrightarrow> t < Truncate t d + d"
  by (simp add: Truncate_def algebra_simps)

lemma Truncate_dvd: "0 < d \<Longrightarrow> d dvd Truncate t d"
  by (simp add: Truncate_def)

lemma Truncate_idem [simp]: "Truncate (Truncate t d) d = Truncate t d"
  by (simp add: Truncate_def mod_diff_eq)

lemma Truncate_of_dvd: "d dvd t \<Longrightarrow> Truncate t d = t"
  by (simp add: Truncate_def)

lemma Truncate_mono: "0 < d \<Longrightarrow> t \<le> u \<Longrightarrow> Truncate t d \<le> Truncate u d"
  by (simp add: Truncate_def minus_mod_eq_mult_div zdiv_mono1)

text \<open>The window of an instant is characterised by its two edges.\<close>

lemma Truncate_unique:
  assumes "0 < d" and "d dvd s" and "s \<le> t" and "t < s + d"
  shows "Truncate t d = s"
proof -
  obtain q where s: "s = d * q" using assms(2) by (elim dvdE)
  have "t div d = q"
    using assms(1,3,4) s by (intro int_div_pos_eq [of _ _ _ "t - s"]) auto
  then show ?thesis
    using assms(1) s by (simp add: Truncate_def minus_mod_eq_mult_div)
qed

lemma Truncate_in_window:
  "0 < d \<Longrightarrow> Truncate t d \<le> u \<Longrightarrow> u < Truncate t d + d \<Longrightarrow> Truncate u d = Truncate t d"
  by (rule Truncate_unique) (simp_all add: Truncate_dvd)

lemma aligned_unique:
  assumes "0 < (d :: int)" and "d dvd s" and "d dvd u" and "s < u + d" and "u < s + d"
  shows "s = u"
  using assms Truncate_unique [of d s u] Truncate_unique [of d u s] Truncate_of_dvd
  by (metis linorder_le_cases)

lemma Sub_exact: "int64 (t - u) \<Longrightarrow> Sub t u = t - u"
  by (simp add: Sub_def clamp64_id)

lemma Sub_pos [simp]: "0 < Sub t u \<longleftrightarrow> u < t"
  by (simp add: Sub_def clamp64_pos)

lemma Sub_nonneg [simp]: "0 \<le> Sub t u \<longleftrightarrow> u \<le> t"
  by (simp add: Sub_def clamp64_nonneg)

lemma Sub_nonpos [simp]: "Sub t u \<le> 0 \<longleftrightarrow> t \<le> u"
  using Sub_pos [of t u] by linarith

lemma Sub_int64 [simp]: "int64 (Sub t u)"
  by (simp add: Sub_def)

lemma Sub_le: "u \<le> t \<Longrightarrow> Sub t u \<le> t - u"
  by (simp add: Sub_def clamp64_le)

lemma Unix_time_Unix [simp]: "Unix (time_Unix s) = s"
  by (simp add: Unix_def time_Unix_def)

lemma time_Unix_Unix: "second dvd t \<Longrightarrow> time_Unix (Unix t) = t"
  by (auto simp: Unix_def time_Unix_def algebra_simps)

lemma UnixNano_inj:
  assumes "int64 (t - epoch)" and "int64 (u - epoch)" and "UnixNano t = UnixNano u"
  shows "t = u"
  using assms by (simp add: UnixNano_def wrap64_id)

end
