(* ===== verification/Registry.thy ===== *)
theory Registry
  imports GoTime
begin

text \<open>
  The payload registry of \<open>internal/sink/registry.go\<close>, with the provenance classes of
  \<open>spool.go\<close> and the cadences of \<open>cadence.go\<close> it refers to: the fixed list of payload kinds
  the agent ships, how each is keyed and delivered, and when it is written.
\<close>

section \<open>Definitions\<close>

definition SourceStructural :: string where "SourceStructural = ''structural''"
definition SourceMeasured :: string where "SourceMeasured = ''measured''"
definition SourceJournal :: string where "SourceJournal = ''journal''"
definition SourceSampled :: string where "SourceSampled = ''sampled''"
definition SourceAgent :: string where "SourceAgent = ''agent''"

datatype Trigger = TriggerAlways | TriggerChanged | TriggerEvent

datatype Delivery = DeliverySupersedes | DeliveryAccumulates | DeliveryWriteOnce

record Cadence =
  Floor :: duration
  Ceiling :: duration
  Cad_Trigger :: Trigger

record PayloadKind =
  PK_Kind :: string
  PK_Source :: string
  PK_NaturalKey :: string
  PK_Delivery :: Delivery
  PK_Cadence :: Cadence
  PK_ADR :: string

definition everyPass :: Cadence where
  "everyPass = \<lparr>Floor = minute, Ceiling = minute, Cad_Trigger = TriggerAlways\<rparr>"

definition onChange :: Cadence where
  "onChange = \<lparr>Floor = minute, Ceiling = 15 * minute, Cad_Trigger = TriggerChanged\<rparr>"

definition onChangeDebounced :: Cadence where
  "onChangeDebounced = \<lparr>Floor = 5 * minute, Ceiling = 15 * minute, Cad_Trigger = TriggerChanged\<rparr>"

definition onEvent :: Cadence where
  "onEvent = \<lparr>Floor = 0, Ceiling = 0, Cad_Trigger = TriggerEvent\<rparr>"

definition registry :: "PayloadKind list" where
  "registry = [
     \<lparr>PK_Kind = ''collection_coverage'', PK_Source = SourceAgent, PK_NaturalKey = ''the kind itself (one per cluster)'',
      PK_Delivery = DeliverySupersedes, PK_Cadence = everyPass, PK_ADR = ''0054''\<rparr>,
     \<lparr>PK_Kind = ''agent_states'', PK_Source = SourceAgent, PK_NaturalKey = ''(window start, window length)'',
      PK_Delivery = DeliverySupersedes, PK_Cadence = everyPass, PK_ADR = ''0088''\<rparr>,
     \<lparr>PK_Kind = ''agent_counters'', PK_Source = SourceAgent, PK_NaturalKey = ''(window start, window length)'',
      PK_Delivery = DeliverySupersedes, PK_Cadence = everyPass, PK_ADR = ''0089''\<rparr>,
     \<lparr>PK_Kind = ''usage_snapshot'', PK_Source = SourceMeasured, PK_NaturalKey = ''(window start, window length)'',
      PK_Delivery = DeliverySupersedes, PK_Cadence = everyPass, PK_ADR = ''0006, 0013''\<rparr>,
     \<lparr>PK_Kind = ''usage_window'', PK_Source = SourceMeasured, PK_NaturalKey = ''(window start, window length)'',
      PK_Delivery = DeliverySupersedes, PK_Cadence = onEvent, PK_ADR = ''0006, 0013''\<rparr>,
     \<lparr>PK_Kind = ''network_window'', PK_Source = SourceMeasured, PK_NaturalKey = ''(window start, window length)'',
      PK_Delivery = DeliverySupersedes, PK_Cadence = onEvent, PK_ADR = ''0053''\<rparr>,
     \<lparr>PK_Kind = ''oom_kill'', PK_Source = SourceJournal, PK_NaturalKey = ''(finished-at, namespace, pod, container, restart count)'',
      PK_Delivery = DeliveryAccumulates, PK_Cadence = onEvent, PK_ADR = ''0006, 0013''\<rparr>,
     \<lparr>PK_Kind = ''goroutine_counts'', PK_Source = SourceMeasured, PK_NaturalKey = ''(window start, window length)'',
      PK_Delivery = DeliverySupersedes, PK_Cadence = everyPass, PK_ADR = ''0080''\<rparr>,
     \<lparr>PK_Kind = ''container_restarts'', PK_Source = SourceJournal, PK_NaturalKey = ''(window start, window length)'',
      PK_Delivery = DeliverySupersedes, PK_Cadence = everyPass, PK_ADR = ''0020''\<rparr>,
     \<lparr>PK_Kind = ''restart_counters'', PK_Source = SourceJournal, PK_NaturalKey = ''the kind itself (one per cluster)'',
      PK_Delivery = DeliverySupersedes, PK_Cadence = onChangeDebounced, PK_ADR = ''0034''\<rparr>,
     \<lparr>PK_Kind = ''pod_disruptions'', PK_Source = SourceJournal, PK_NaturalKey = ''(window start, window length)'',
      PK_Delivery = DeliverySupersedes, PK_Cadence = everyPass, PK_ADR = ''0021''\<rparr>,
     \<lparr>PK_Kind = ''node_lifecycle'', PK_Source = SourceJournal, PK_NaturalKey = ''(window start, window length)'',
      PK_Delivery = DeliverySupersedes, PK_Cadence = everyPass, PK_ADR = ''0064''\<rparr>,
     \<lparr>PK_Kind = ''job_runs'', PK_Source = SourceJournal, PK_NaturalKey = ''(window start, window length)'',
      PK_Delivery = DeliverySupersedes, PK_Cadence = everyPass, PK_ADR = ''0029''\<rparr>,
     \<lparr>PK_Kind = ''go_inventory'', PK_Source = SourceStructural, PK_NaturalKey = ''the kind itself (one per cluster)'',
      PK_Delivery = DeliverySupersedes, PK_Cadence = onChangeDebounced, PK_ADR = ''0010, 0017, 0018''\<rparr>,
     \<lparr>PK_Kind = ''process_peaks'', PK_Source = SourceMeasured, PK_NaturalKey = ''the kind itself (one per cluster)'',
      PK_Delivery = DeliverySupersedes, PK_Cadence = onChangeDebounced, PK_ADR = ''0052''\<rparr>,
     \<lparr>PK_Kind = ''process_counters'', PK_Source = SourceMeasured, PK_NaturalKey = ''the kind itself (one per cluster)'',
      PK_Delivery = DeliverySupersedes, PK_Cadence = everyPass, PK_ADR = ''0062''\<rparr>,
     \<lparr>PK_Kind = ''listening_ports'', PK_Source = SourceStructural, PK_NaturalKey = ''the kind itself (one per cluster)'',
      PK_Delivery = DeliverySupersedes, PK_Cadence = onChangeDebounced, PK_ADR = ''0056''\<rparr>,
     \<lparr>PK_Kind = ''go_build'', PK_Source = SourceStructural, PK_NaturalKey = ''image digest'',
      PK_Delivery = DeliveryWriteOnce, PK_Cadence = onEvent, PK_ADR = ''0017, 0019''\<rparr>,
     \<lparr>PK_Kind = ''workload_metadata'', PK_Source = SourceStructural, PK_NaturalKey = ''the kind itself (one per cluster)'',
      PK_Delivery = DeliverySupersedes, PK_Cadence = onChangeDebounced, PK_ADR = ''0012, 0014, 0021, 0031''\<rparr>,
     \<lparr>PK_Kind = ''workload_revisions'', PK_Source = SourceStructural, PK_NaturalKey = ''the kind itself (one per cluster)'',
      PK_Delivery = DeliverySupersedes, PK_Cadence = onChangeDebounced, PK_ADR = ''0030, 0049''\<rparr>,
     \<lparr>PK_Kind = ''workload_policy'', PK_Source = SourceStructural, PK_NaturalKey = ''the kind itself (one per cluster)'',
      PK_Delivery = DeliverySupersedes, PK_Cadence = onChangeDebounced, PK_ADR = ''0032, 0033''\<rparr>,
     \<lparr>PK_Kind = ''cluster_policy'', PK_Source = SourceStructural, PK_NaturalKey = ''the kind itself (one per cluster)'',
      PK_Delivery = DeliverySupersedes, PK_Cadence = onChangeDebounced, PK_ADR = ''0032, 0033''\<rparr>,
     \<lparr>PK_Kind = ''node_metadata'', PK_Source = SourceStructural, PK_NaturalKey = ''the kind itself (one per cluster)'',
      PK_Delivery = DeliverySupersedes, PK_Cadence = onChange, PK_ADR = ''0012, 0019''\<rparr>,
     \<lparr>PK_Kind = ''ebpf_profile'', PK_Source = SourceSampled, PK_NaturalKey = ''(namespace, workload, container, image digest, capture start'' @ [CHR 0xE2, CHR 0x80, CHR 0x93] @ ''end)'',
      PK_Delivery = DeliveryAccumulates, PK_Cadence = onEvent, PK_ADR = ''0011, 0023''\<rparr>,
     \<lparr>PK_Kind = ''pprof_profile'', PK_Source = SourceSampled, PK_NaturalKey = ''(namespace, workload, container, image digest, capture start'' @ [CHR 0xE2, CHR 0x80, CHR 0x93] @ ''end)'',
      PK_Delivery = DeliveryAccumulates, PK_Cadence = onEvent, PK_ADR = ''0058''\<rparr>]"

definition less_kind :: "PayloadKind \<Rightarrow> PayloadKind \<Rightarrow> bool" where
  "less_kind a b \<longleftrightarrow> PK_Kind a < PK_Kind b"

definition SortedRegistry :: "PayloadKind list" where
  "SortedRegistry = sort_slice less_kind registry"

text \<open>\<open>Lookup\<close>; \<^const>\<open>None\<close> is its \<open>false\<close>.\<close>

definition Lookup :: "string \<Rightarrow> PayloadKind option" where
  "Lookup kind = List.find (\<lambda>p. PK_Kind p = kind) registry"

section \<open>Properties\<close>

interpretation kind_order: sort_order less_kind PK_Kind
  by unfold_locales (simp add: less_kind_def)

definition kind_names :: "string list" where
  "kind_names = map PK_Kind registry"

lemma kinds_distinct: "distinct (map PK_Kind registry)"
  by code_simp

lemma Lookup_iff: "Lookup kind = Some p \<longleftrightarrow> p \<in> set registry \<and> PK_Kind p = kind"
proof -
  have uniq: "List.find (\<lambda>p. PK_Kind p = kind) ps = Some p \<longleftrightarrow> p \<in> set ps \<and> PK_Kind p = kind"
    if "distinct (map PK_Kind ps)" for ps
    using that by (induction ps) auto
  show ?thesis unfolding Lookup_def by (rule uniq [OF kinds_distinct])
qed

lemma Lookup_None: "Lookup kind = None \<longleftrightarrow> kind \<notin> set kind_names"
  by (auto simp: Lookup_def find_None_iff kind_names_def)

definition cadence_ok :: "Cadence \<Rightarrow> bool" where
  "cadence_ok c \<longleftrightarrow> (case Cad_Trigger c of
      TriggerEvent \<Rightarrow> Floor c = 0 \<and> Ceiling c = 0
    | TriggerAlways \<Rightarrow> 0 < Floor c \<and> Ceiling c = Floor c
    | TriggerChanged \<Rightarrow> 0 < Floor c \<and> Floor c < Ceiling c)"

text \<open>
  The registry is a function of the kind: no kind has two rows, \<open>Lookup\<close> finds exactly the
  rows of the list, the sorted registry lists every row once in the order of the kinds, and
  every row's cadence has the shape its trigger promises. Kinds that accumulate or are
  written once are never gated by the clock.
\<close>

theorem registry_wellformed:
  "distinct (map PK_Kind registry) \<and>
   (\<forall>kind p. Lookup kind = Some p \<longleftrightarrow> p \<in> set registry \<and> PK_Kind p = kind) \<and>
   mset SortedRegistry = mset registry \<and> sorted (map PK_Kind SortedRegistry) \<and>
   list_all (\<lambda>p. cadence_ok (PK_Cadence p)) registry \<and>
   list_all (\<lambda>p. PK_Delivery p = DeliverySupersedes \<or> Cad_Trigger (PK_Cadence p) = TriggerEvent) registry"
proof -
  have "list_all (\<lambda>p. cadence_ok (PK_Cadence p)) registry"
    "list_all (\<lambda>p. PK_Delivery p = DeliverySupersedes \<or> Cad_Trigger (PK_Cadence p) = TriggerEvent) registry"
    by code_simp+
  then show ?thesis
    using kinds_distinct Lookup_iff kind_order.sorted_sort_slice by (simp add: SortedRegistry_def)
qed

end
