(* ===== verification/GoStrings.thy ===== *)
theory GoStrings
  imports Prelude
begin

text \<open>
  Strings and numbers as text: \<open>strconv.FormatUint\<close>, \<open>FormatInt\<close>, \<open>ParseUint\<close> and
  \<open>ParseInt\<close> in base ten, the prefix, suffix and cut operations of package \<open>strings\<close>, and the
  decoding of UTF-8 that \<open>range\<close> over a string performs. A Go string is its list of bytes.
\<close>

section \<open>Decimal numbers\<close>

text \<open>A byte as a character, by its bits: what evaluation uses for the generic conversion.\<close>

definition byte_char :: "nat \<Rightarrow> char" where
  "byte_char n = Char (n mod 2 = 1) (n div 2 mod 2 = 1) (n div 4 mod 2 = 1) (n div 8 mod 2 = 1) (n div 16 mod 2 = 1) (n div 32 mod 2 = 1)
     (n div 64 mod 2 = 1) (n div 128 mod 2 = 1)"

lemma char_of_byte [code_unfold]: "(char_of :: nat \<Rightarrow> char) = byte_char"
  by (simp add: fun_eq_iff char_of_def byte_char_def bit_iff_odd odd_iff_mod_2_eq_one)

definition digit :: "nat \<Rightarrow> char" where
  "digit d = char_of (48 + d)"

definition digit_value :: "char \<Rightarrow> nat option" where
  "digit_value c = (if 48 \<le> (of_char c :: nat) \<and> (of_char c :: nat) \<le> 57
     then Some (of_char c - 48) else None)"

fun FormatUint :: "nat \<Rightarrow> string" where
  "FormatUint n = (if n < 10 then [digit n] else FormatUint (n div 10) @ [digit (n mod 10)])"

declare FormatUint.simps [simp del]

definition FormatInt :: "int \<Rightarrow> string" where
  "FormatInt i = (if i < 0 then CHR ''-'' # FormatUint (nat (- i)) else FormatUint (nat i))"

text \<open>The digits of a base-ten number; \<^const>\<open>None\<close> at the first byte that is not one.\<close>

fun parse_digits :: "nat \<Rightarrow> string \<Rightarrow> nat option" where
  "parse_digits acc [] = Some acc"
| "parse_digits acc (c # cs) =
     (case digit_value c of None \<Rightarrow> None | Some d \<Rightarrow> parse_digits (10 * acc + d) cs)"

definition ParseUint :: "string \<Rightarrow> nat option" where
  "ParseUint s = (if s = [] then None
     else case parse_digits 0 s of
       None \<Rightarrow> None
     | Some n \<Rightarrow> if n \<le> maxUint64 then Some n else None)"

definition ParseInt :: "string \<Rightarrow> int option" where
  "ParseInt s =
     (case s of
        [] \<Rightarrow> None
      | c # cs \<Rightarrow>
          let neg = (c = CHR ''-''); body = (if c = CHR ''-'' \<or> c = CHR ''+'' then cs else s) in
          case ParseUint body of
            None \<Rightarrow> None
          | Some n \<Rightarrow>
              if \<not> neg \<and> int n > maxInt64 then None
              else if neg \<and> int n > - minInt64 then None
              else Some (if neg then - int n else int n))"

text \<open>The bound compared as an integer, for evaluation.\<close>

lemma ParseUint_code [code]:
  "ParseUint s = (if s = [] then None
     else case parse_digits 0 s of None \<Rightarrow> None | Some n \<Rightarrow> if int n \<le> 18446744073709551615 then Some n else None)"
  by (auto simp: ParseUint_def maxUint64_def split: option.splits)

lemma of_char_digit: "d < 10 \<Longrightarrow> (of_char (digit d) :: nat) = 48 + d"
  by (simp add: digit_def of_char_of)

lemma digit_value_digit [simp]: "d < 10 \<Longrightarrow> digit_value (digit d) = Some d"
  by (simp add: digit_value_def of_char_digit)

lemma digit_not_sign: "d < 10 \<Longrightarrow> digit d \<noteq> CHR ''-''" "d < 10 \<Longrightarrow> digit d \<noteq> CHR ''+''"
  using of_char_digit [of d] by auto

lemma parse_digits_append:
  "parse_digits acc (xs @ ys) =
     (case parse_digits acc xs of None \<Rightarrow> None | Some n \<Rightarrow> parse_digits n ys)"
  by (induction xs arbitrary: acc) (auto split: option.splits)

lemma parse_digits_FormatUint: "parse_digits 0 (FormatUint n) = Some n"
proof (induction n rule: FormatUint.induct)
  case (1 n)
  show ?case
  proof (cases "n < 10")
    case True
    then show ?thesis by (simp add: FormatUint.simps [of n])
  next
    case False
    then show ?thesis
      using 1 by (simp add: FormatUint.simps [of n] parse_digits_append)
  qed
qed

lemma FormatUint_nonempty [simp]: "FormatUint n \<noteq> []"
  by (subst FormatUint.simps) simp

lemma FormatUint_digits: "c \<in> set (FormatUint n) \<Longrightarrow> \<exists>d<10. c = digit d"
proof (induction n rule: FormatUint.induct)
  case (1 n)
  then show ?case
    by (cases "n < 10") (auto simp: FormatUint.simps [of n] intro: exI [of _ "n mod 10"])
qed

lemma ParseUint_FormatUint: "n < 2 ^ 64 \<Longrightarrow> ParseUint (FormatUint n) = Some n"
  by (simp add: ParseUint_def parse_digits_FormatUint maxUint64_def)

lemma FormatUint_inj: "FormatUint m = FormatUint n \<Longrightarrow> m = n"
  using parse_digits_FormatUint by (metis option.inject)

lemma FormatUint_no_dash: "CHR ''-'' \<notin> set (FormatUint n)"
  using FormatUint_digits digit_not_sign by metis

lemma ParseInt_FormatInt:
  assumes "int64 i"
  shows "ParseInt (FormatInt i) = Some i"
proof (cases "i < 0")
  case True
  have "nat (- i) < 2 ^ 64"
    using True assms by (simp add: int64_def minInt64_def nat_less_iff)
  then show ?thesis
    using True assms ParseUint_FormatUint [of "nat (- i)"]
    by (simp add: FormatInt_def ParseInt_def int64_def Let_def)
next
  case False
  obtain c cs where f: "FormatUint (nat i) = c # cs"
    by (cases "FormatUint (nat i)") simp_all
  then have "c \<noteq> CHR ''-''" "c \<noteq> CHR ''+''"
    using FormatUint_digits [of c "nat i"] digit_not_sign by auto
  moreover have "nat i < 2 ^ 64"
    using False assms by (simp add: int64_def maxInt64_def nat_less_iff)
  ultimately show ?thesis
    using False f assms ParseUint_FormatUint [of "nat i"]
    by (simp add: FormatInt_def ParseInt_def int64_def Let_def)
qed

section \<open>Package strings\<close>

definition HasPrefix :: "string \<Rightarrow> string \<Rightarrow> bool" where
  "HasPrefix s p \<longleftrightarrow> take (length p) s = p"

definition HasSuffix :: "string \<Rightarrow> string \<Rightarrow> bool" where
  "HasSuffix s p \<longleftrightarrow> length p \<le> length s \<and> drop (length s - length p) s = p"

definition CutPrefix :: "string \<Rightarrow> string \<Rightarrow> string option" where
  "CutPrefix s p = (if HasPrefix s p then Some (drop (length p) s) else None)"

definition TrimSuffix :: "string \<Rightarrow> string \<Rightarrow> string" where
  "TrimSuffix s p = (if HasSuffix s p then take (length s - length p) s else s)"

text \<open>\<open>strings.Cut(s, sep)\<close> for a separator of one byte: around its first occurrence.\<close>

definition Cut :: "string \<Rightarrow> char \<Rightarrow> (string \<times> string) option" where
  "Cut s sep = (if sep \<in> set s
     then Some (takeWhile (\<lambda>c. c \<noteq> sep) s, tl (dropWhile (\<lambda>c. c \<noteq> sep) s)) else None)"

lemma HasPrefix_append [simp]: "HasPrefix (p @ s) p"
  by (simp add: HasPrefix_def)

lemma HasSuffix_append [simp]: "HasSuffix (s @ p) p"
  by (simp add: HasSuffix_def)

lemma CutPrefix_append [simp]: "CutPrefix (p @ s) p = Some s"
  by (simp add: CutPrefix_def)

lemma TrimSuffix_append [simp]: "TrimSuffix (s @ p) p = s"
  by (simp add: TrimSuffix_def)

lemma Cut_append: "sep \<notin> set a \<Longrightarrow> Cut (a @ sep # b) sep = Some (a, b)"
  by (simp add: Cut_def takeWhile_append dropWhile_append)

text \<open>\<open>strings.Split\<close> at a separator of one byte, and \<open>strings.Index\<close>.\<close>

fun Split :: "string \<Rightarrow> char \<Rightarrow> string list" where
  "Split [] sep = [[]]"
| "Split (c # s) sep =
     (if c = sep then [] # Split s sep
      else case Split s sep of [] \<Rightarrow> [[c]] | p # ps \<Rightarrow> (c # p) # ps)"

fun strings_Index :: "string \<Rightarrow> string \<Rightarrow> nat option" where
  "strings_Index [] sub = (if sub = [] then Some 0 else None)"
| "strings_Index (c # s) sub = (if HasPrefix (c # s) sub then Some 0 else map_option Suc (strings_Index s sub))"

lemma Split_nonempty [simp]: "Split s sep \<noteq> []"
  by (cases s) (auto split: list.splits)

lemma HasPrefix_iff: "HasPrefix s p \<longleftrightarrow> (\<exists>t. s = p @ t)"
  by (metis HasPrefix_append HasPrefix_def append_take_drop_id)

lemma HasSuffix_iff: "HasSuffix s p \<longleftrightarrow> (\<exists>t. s = t @ p)"
  by (metis HasSuffix_append HasSuffix_def append_take_drop_id)

text \<open>\<open>Index\<close> finds the leftmost occurrence.\<close>

lemma strings_Index_Some: "strings_Index s sub = Some i \<Longrightarrow> s = take i s @ sub @ drop (i + length sub) s"
proof (induction s sub arbitrary: i rule: strings_Index.induct)
  case (2 c s sub)
  show ?case
  proof (cases "HasPrefix (c # s) sub")
    case True
    then show ?thesis using "2.prems" by (auto simp: HasPrefix_iff)
  next
    case False
    then obtain j where "strings_Index s sub = Some j" "i = Suc j" using "2.prems" by auto
    then show ?thesis using "2.IH" [OF False] by simp
  qed
qed (auto split: if_splits)

lemma strings_Index_least: "\<exists>i. strings_Index (t @ sub @ u) sub = Some i \<and> i \<le> length t"
proof (induction t)
  case Nil
  then show ?case by (cases sub; cases u) (simp_all add: HasPrefix_def)
qed auto

section \<open>White space, case and lines\<close>

text \<open>
  \<open>strings.TrimSpace\<close>, \<open>strings.ToLower\<close> and \<open>strings.Fields\<close> on ASCII text: the bytes of other
  runes are neither spaces nor letters here.
\<close>

definition is_space :: "char \<Rightarrow> bool" where
  "is_space c \<longleftrightarrow> (of_char c :: nat) \<in> {9, 10, 11, 12, 13, 32}"

definition TrimSpace :: "string \<Rightarrow> string" where
  "TrimSpace s = rev (dropWhile is_space (rev (dropWhile is_space s)))"

definition lower :: "char \<Rightarrow> char" where
  "lower c = (if 65 \<le> (of_char c :: nat) \<and> (of_char c :: nat) \<le> 90 then char_of ((of_char c :: nat) + 32) else c)"

definition ToLower :: "string \<Rightarrow> string" where
  "ToLower s = map lower s"

text \<open>The maximal runs of bytes that are not spaces.\<close>

fun fields_from :: "string \<Rightarrow> string \<Rightarrow> string list" where
  "fields_from cur [] = (if cur = [] then [] else [rev cur])"
| "fields_from cur (c # s) =
     (if is_space c then (if cur = [] then fields_from [] s else rev cur # fields_from [] s)
      else fields_from (c # cur) s)"

definition Fields :: "string \<Rightarrow> string list" where
  "Fields s = fields_from [] s"

abbreviation newline :: char where "newline \<equiv> CHR 0x0A"

text \<open>
  The lines a \<open>bufio.Scanner\<close> delivers: without the newline and one carriage return before it, a
  last line without newline included, and nothing from the first line on that its buffer of
  \<open>bufio.MaxScanTokenSize\<close> bytes cannot hold.
\<close>

definition MaxScanTokenSize :: int where "MaxScanTokenSize = 65536"

definition drop_cr :: "string \<Rightarrow> string" where
  "drop_cr s = (if s \<noteq> [] \<and> last s = CHR 0x0D then butlast s else s)"

definition Lines :: "string \<Rightarrow> string list" where
  "Lines s =
     (let ps = Split s newline; ps = (if last ps = [] then butlast ps else ps)
      in map drop_cr (takeWhile (\<lambda>l. int (length l) < MaxScanTokenSize) ps))"

text \<open>\<open>strings.CutSuffix\<close>, and \<open>strings.LastIndexByte\<close> with what follows the byte.\<close>

definition CutSuffix :: "string \<Rightarrow> string \<Rightarrow> string option" where
  "CutSuffix s p = (if HasSuffix s p then Some (take (length s - length p) s) else None)"

definition after_last :: "char \<Rightarrow> string \<Rightarrow> string option" where
  "after_last c s = (if c \<in> set s then Some (rev (takeWhile (\<lambda>x. x \<noteq> c) (rev s))) else None)"

text \<open>Splitting text that was joined gives its parts back.\<close>

lemma Split_plain: "sep \<notin> set s \<Longrightarrow> Split s sep = [s]"
  by (induction s) auto

lemma Split_append: "sep \<notin> set a \<Longrightarrow> Split (a @ sep # s) sep = a # Split s sep"
  by (induction a) auto

section \<open>Runes\<close>

text \<open>
  \<open>for _, r := range s\<close> decodes UTF-8: a well-formed sequence is one rune, and every byte
  that starts no well-formed sequence is the replacement rune and one byte wide.
\<close>

definition RuneError :: nat where "RuneError = 65533"

definition cont :: "char \<Rightarrow> nat \<Rightarrow> nat \<Rightarrow> bool" where
  "cont c lo hi \<longleftrightarrow> lo \<le> of_char c \<and> of_char c \<le> hi"

definition low6 :: "char \<Rightarrow> nat" where "low6 c = of_char c mod 64"

text \<open>The range of the second byte, by the first: overlong forms and surrogates are refused.\<close>

definition second_range :: "nat \<Rightarrow> nat \<times> nat" where
  "second_range b = (if b = 224 then (160, 191) else if b = 237 then (128, 159)
     else if b = 240 then (144, 191) else if b = 244 then (128, 143) else (128, 191))"

definition decode_rune :: "string \<Rightarrow> nat \<times> nat" where
  "decode_rune s =
     (case s of [] \<Rightarrow> (RuneError, 0) | c0 # r \<Rightarrow>
        let b = of_char c0; (lo, hi) = second_range b in
        if b < 128 then (b, 1)
        else if 194 \<le> b \<and> b \<le> 223 then
          (case r of c1 # _ \<Rightarrow> if cont c1 lo hi then ((b mod 32) * 64 + low6 c1, 2) else (RuneError, 1)
           | _ \<Rightarrow> (RuneError, 1))
        else if 224 \<le> b \<and> b \<le> 239 then
          (case r of c1 # c2 # _ \<Rightarrow>
             if cont c1 lo hi \<and> cont c2 128 191
             then ((b mod 16) * 4096 + low6 c1 * 64 + low6 c2, 3) else (RuneError, 1)
           | _ \<Rightarrow> (RuneError, 1))
        else if 240 \<le> b \<and> b \<le> 244 then
          (case r of c1 # c2 # c3 # _ \<Rightarrow>
             if cont c1 lo hi \<and> cont c2 128 191 \<and> cont c3 128 191
             then ((b mod 8) * 262144 + low6 c1 * 4096 + low6 c2 * 64 + low6 c3, 4) else (RuneError, 1)
           | _ \<Rightarrow> (RuneError, 1))
        else (RuneError, 1))"

lemma decode_rune_width: "s \<noteq> [] \<Longrightarrow> 0 < snd (decode_rune s)"
  by (auto simp: decode_rune_def Let_def split: list.splits prod.splits)

function runes :: "string \<Rightarrow> nat list" where
  "runes s = (if s = [] then [] else fst (decode_rune s) # runes (drop (snd (decode_rune s)) s))"
  by pat_completeness auto
termination
  by (relation "measure length") (auto dest: decode_rune_width intro: diff_less)

declare runes.simps [simp del]

lemma runes_ascii: "(\<forall>c \<in> set s. (of_char c :: nat) < 128) \<Longrightarrow> runes s = map of_char s"
proof (induction s)
  case Nil
  then show ?case by (simp add: runes.simps)
next
  case (Cons c s)
  then have "decode_rune (c # s) = (of_char c, 1)"
    by (simp add: decode_rune_def Let_def split: prod.splits)
  with Cons show ?case by (simp add: runes.simps [of "c # s"])
qed

end
