(* ===== verification/CadenceGate.thy ===== *)
theory CadenceGate
  imports Registry GoStrings
begin

text \<open>
  The write gate of \<open>internal/sink/cadence.go\<close>: when a payload of a change-triggered kind is
  written, from the instant and the fingerprint of the last one written under its name.

  \<open>sha\<close> stands for \<open>crypto/sha256\<close>: a function of the bytes written to it. Nothing is assumed
  of it; where a property compares payloads it compares their fingerprints, as the code does.
  The zero fingerprint that \<open>due\<close> returns for other triggers, which \<open>wrote\<close> ignores, is
  \<^const>\<open>None\<close>.
\<close>

section \<open>Definitions\<close>

definition capturedAtField :: string where
  "capturedAtField = ''  '' @ [CHR 0x22] @ ''captured_at'' @ [CHR 0x22] @ '': ''"

text \<open>The lines of a payload, each with the newline that ends it.\<close>

fun lines_of :: "string \<Rightarrow> string list" where
  "lines_of [] = []"
| "lines_of (c # cs) =
     (if c = CHR 0x0A then [c] # lines_of cs
      else case lines_of cs of [] \<Rightarrow> [[c]] | l # ls \<Rightarrow> (c # l) # ls)"

definition fingerprint :: "(string \<Rightarrow> 'fp) \<Rightarrow> string \<Rightarrow> 'fp" where
  "fingerprint sha data = sha (concat (filter (\<lambda>line. \<not> HasPrefix line capturedAtField) (lines_of data)))"

record 'fp written =
  written_at :: time
  written_fp :: "'fp option"

type_synonym 'fp gate = "(string, 'fp written) gomap"

definition due ::
    "(string \<Rightarrow> 'fp) \<Rightarrow> string \<Rightarrow> Cadence \<Rightarrow> string \<Rightarrow> time \<Rightarrow> 'fp gate \<Rightarrow> 'fp option \<times> bool" where
  "due sha key c data now g =
     (if Cad_Trigger c \<noteq> TriggerChanged then (None, True)
      else
        let fp = Some (fingerprint sha data) in
        case mget g key of
          None \<Rightarrow> (fp, True)
        | Some prev \<Rightarrow>
            if Sub now (written_at prev) \<ge> Ceiling c then (fp, True)
            else if Sub now (written_at prev) < Floor c then (fp, False)
            else (fp, fp \<noteq> written_fp prev))"

definition wrote :: "string \<Rightarrow> Cadence \<Rightarrow> 'fp option \<Rightarrow> time \<Rightarrow> 'fp gate \<Rightarrow> 'fp gate" where
  "wrote key c fp now g =
     (if Cad_Trigger c \<noteq> TriggerChanged then g
      else mput key \<lparr>written_at = now, written_fp = fp\<rparr> g)"

definition prune :: "time \<Rightarrow> 'fp gate \<Rightarrow> 'fp gate" where
  "prune cutoff g = mfilter (\<lambda>_ w. \<not> written_at w < cutoff) g"

section \<open>Fingerprints\<close>

lemma concat_lines_of [simp]: "concat (lines_of s) = s"
  by (induction s rule: lines_of.induct) (auto split: list.splits)

section \<open>A sequence of passes over one name\<close>

text \<open>
  One pass: the payload it assembled, the instant of the decision, and whether a write that
  was due landed. \<open>run_pass\<close> is what \<open>Spool.write\<close> does with the gate, where both clock
  readings of a pass are one instant; its second component says whether the payload landed.
\<close>

record pass =
  pass_now :: time
  pass_data :: string
  pass_lands :: bool

definition run_pass ::
    "(string \<Rightarrow> 'fp) \<Rightarrow> string \<Rightarrow> Cadence \<Rightarrow> pass \<Rightarrow> 'fp gate \<Rightarrow> 'fp gate \<times> bool" where
  "run_pass sha key c p g =
     (let (fp, d) = due sha key c (pass_data p) (pass_now p) g in
      if d \<and> pass_lands p then (wrote key c fp (pass_now p) g, True) else (g, False))"

fun run_passes ::
    "(string \<Rightarrow> 'fp) \<Rightarrow> string \<Rightarrow> Cadence \<Rightarrow> pass list \<Rightarrow> 'fp gate \<Rightarrow> 'fp gate \<times> pass list" where
  "run_passes sha key c [] g = (g, [])"
| "run_passes sha key c (p # ps) g =
     (let (g, landed) = run_pass sha key c p g; (g, out) = run_passes sha key c ps g
      in (g, if landed then p # out else out))"

text \<open>The gate remembers the last pass that landed.\<close>

definition remembers :: "(string \<Rightarrow> 'fp) \<Rightarrow> string \<Rightarrow> 'fp gate \<Rightarrow> pass option \<Rightarrow> bool" where
  "remembers sha key g prev0 = (mget g key =
     map_option (\<lambda>p. \<lparr>written_at = pass_now p, written_fp = Some (fingerprint sha (pass_data p))\<rparr>) prev0)"

lemma run_pass_remembers:
  assumes "Cad_Trigger c = TriggerChanged" and "remembers sha key g prev0"
    and "run_pass sha key c p g = (g', landed)"
  shows "remembers sha key g' (if landed then Some p else prev0)"
  using assms
  by (auto simp: run_pass_def wrote_def due_def remembers_def Let_def split: option.splits if_splits)

text \<open>When a pass lands, and what it means that it did not.\<close>

lemma run_pass_spec:
  assumes "Cad_Trigger c = TriggerChanged" and "Floor c \<le> Ceiling c" and "remembers sha key g prev0"
    and "pass_lands p" and "run_pass sha key c p g = (g', landed)"
  shows "landed \<longleftrightarrow> (case prev0 of None \<Rightarrow> True | Some q \<Rightarrow>
      Ceiling c \<le> Sub (pass_now p) (pass_now q) \<or>
      Floor c \<le> Sub (pass_now p) (pass_now q) \<and> fingerprint sha (pass_data p) \<noteq> fingerprint sha (pass_data q))"
  using assms
  by (auto simp: run_pass_def due_def remembers_def Let_def split: option.splits if_splits)

lemma run_passes_floor:
  assumes "Cad_Trigger c = TriggerChanged" and "Floor c \<le> Ceiling c" and "remembers sha key g prev0"
    and "run_passes sha key c ps g = (g', out)"
  shows "case prev0 of None \<Rightarrow> True | Some q \<Rightarrow> out = [] \<or> Floor c \<le> Sub (pass_now (hd out)) (pass_now q)"
  using assms
proof (induction ps arbitrary: g prev0 out g')
  case (Cons p ps)
  obtain g1 landed where step: "run_pass sha key c p g = (g1, landed)" by force
  obtain g2 out2 where rest: "run_passes sha key c ps g1 = (g2, out2)" by force
  have mem: "remembers sha key g1 (if landed then Some p else prev0)"
    using run_pass_remembers [OF Cons.prems(1,3) step] .
  show ?case
  proof (cases landed)
    case True
    then have "out = p # out2" using Cons.prems(4) step rest by simp
    then show ?thesis
      using True Cons.prems(1-3) step
      by (auto simp: run_pass_def due_def remembers_def Let_def split: option.splits if_splits)
  next
    case False
    then have "out = out2" using Cons.prems(4) step rest by simp
    then show ?thesis using Cons.IH [OF Cons.prems(1,2) mem rest] False by (simp split: option.splits)
  qed
qed (simp split: option.splits)

section \<open>Properties\<close>

text \<open>
  Two writes of one name are never closer than the floor: of the passes of a
  change-triggered kind that land, each is at least \<open>Floor\<close> after the one before it, however
  often the payload changes, for any sequence of passes and of write failures.
\<close>

theorem cadence_floor:
  assumes "Cad_Trigger c = TriggerChanged" and "Floor c \<le> Ceiling c"
    and "run_passes sha key c ps g = (g', out)" and "Suc i < length out" and "mget g key = None"
  shows "Floor c \<le> Sub (pass_now (out ! Suc i)) (pass_now (out ! i))"
proof -
  have gen: "Floor c \<le> Sub (pass_now (out ! Suc i)) (pass_now (out ! i))"
    if "remembers sha key g prev0" "run_passes sha key c ps g = (g', out)" "Suc i < length out" for ps g g' out prev0 i
    using that
  proof (induction ps arbitrary: g prev0 out i)
    case (Cons p ps)
    obtain g1 landed where step: "run_pass sha key c p g = (g1, landed)" by force
    obtain g2 out2 where rest: "run_passes sha key c ps g1 = (g2, out2)" by force
    have mem: "remembers sha key g1 (if landed then Some p else prev0)"
      using run_pass_remembers [OF assms(1) Cons.prems(1) step] .
    have g2: "g2 = g'" and out: "out = (if landed then p # out2 else out2)"
      using Cons.prems(2) step rest by (auto split: if_splits)
    show ?case
    proof (cases "landed \<and> i = 0")
      case True
      then have "out2 \<noteq> []" using Cons.prems(3) out by auto
      then show ?thesis
        using True run_passes_floor [OF assms(1,2) mem rest] out by (simp add: hd_conv_nth)
    next
      case False
      then show ?thesis
        using Cons.IH [OF mem rest [unfolded g2], of "if landed then i - 1 else i"] Cons.prems(3) out
        by (auto simp: nth_Cons' split: if_splits)
    qed
  qed simp
  have "remembers sha key g None" using assms(5) by (simp add: remembers_def)
  then show ?thesis by (rule gen [OF _ assms(3,4)])
qed

theorem cadence_floor_witness:
  "snd (run_passes (\<lambda>s. s) ''k'' \<lparr>Floor = 5, Ceiling = 15, Cad_Trigger = TriggerChanged\<rparr>
     [\<lparr>pass_now = 0, pass_data = ''a'', pass_lands = True\<rparr>, \<lparr>pass_now = 3, pass_data = ''b'', pass_lands = True\<rparr>,
      \<lparr>pass_now = 6, pass_data = ''b'', pass_lands = True\<rparr>] mempty) =
     [\<lparr>pass_now = 0, pass_data = ''a'', pass_lands = True\<rparr>, \<lparr>pass_now = 6, pass_data = ''b'', pass_lands = True\<rparr>] \<and>
   5 \<le> Sub 6 0"
proof -
  let ?c = "\<lparr>Floor = 5, Ceiling = 15, Cad_Trigger = TriggerChanged\<rparr>"
  let ?ps = "[\<lparr>pass_now = 0, pass_data = ''a'', pass_lands = True\<rparr>, \<lparr>pass_now = 3, pass_data = ''b'', pass_lands = True\<rparr>,
    \<lparr>pass_now = 6, pass_data = ''b'', pass_lands = True\<rparr>]"
  have out: "snd (run_passes (\<lambda>s. s) ''k'' ?c ?ps mempty) =
      [\<lparr>pass_now = 0, pass_data = ''a'', pass_lands = True\<rparr>, \<lparr>pass_now = 6, pass_data = ''b'', pass_lands = True\<rparr>]"
    by code_simp
  show ?thesis
    using cadence_floor [of ?c "\<lambda>s. s" "''k''" ?ps mempty "fst (run_passes (\<lambda>s. s) ''k'' ?c ?ps mempty)"
        "snd (run_passes (\<lambda>s. s) ''k'' ?c ?ps mempty)" 0] out by simp
qed

text \<open>
  What the spool holds under a name answers for the current state: after any pass whose
  write lands when it is due, the last payload written has the fingerprint of the payload
  the pass assembled, unless less than the floor has passed since it was written; and it is
  never as old as the ceiling.
\<close>

theorem cadence_answers:
  assumes "Cad_Trigger c = TriggerChanged" and "Floor c \<le> Ceiling c" and "0 < Ceiling c" and "remembers sha key g prev0"
    and "pass_lands p" and "run_pass sha key c p g = (g', landed)"
  shows "\<exists>q. remembers sha key g' (Some q) \<and> Sub (pass_now p) (pass_now q) < Ceiling c \<and>
    (fingerprint sha (pass_data q) = fingerprint sha (pass_data p) \<or> Sub (pass_now p) (pass_now q) < Floor c)"
proof (cases landed)
  case True
  then have "remembers sha key g' (Some p)" using run_pass_remembers [OF assms(1,4,6)] by simp
  moreover have "Sub (pass_now p) (pass_now p) = 0" by (simp add: Sub_def clamp64_id)
  ultimately show ?thesis using assms(3) by auto
next
  case False
  then have spec: "\<not> (case prev0 of None \<Rightarrow> True | Some q \<Rightarrow>
      Ceiling c \<le> Sub (pass_now p) (pass_now q) \<or>
      Floor c \<le> Sub (pass_now p) (pass_now q) \<and> fingerprint sha (pass_data p) \<noteq> fingerprint sha (pass_data q))"
    using run_pass_spec [OF assms(1,2,4,5,6)] by blast
  then obtain q where q: "prev0 = Some q" by (cases prev0) auto
  then have "remembers sha key g' (Some q)" using run_pass_remembers [OF assms(1,4,6)] False by simp
  then show ?thesis using spec q by (auto simp: not_le)
qed

theorem cadence_answers_witness:
  "\<exists>q. remembers (\<lambda>s. s) ''k'' (fst (run_pass (\<lambda>s. s) ''k'' onChange \<lparr>pass_now = 3, pass_data = ''a'', pass_lands = True\<rparr> mempty)) (Some q) \<and>
     Sub 3 (pass_now q) < Ceiling onChange"
  using cadence_answers [of onChange "\<lambda>s. s" "''k''" mempty None "\<lparr>pass_now = 3, pass_data = ''a'', pass_lands = True\<rparr>"
      "fst (run_pass (\<lambda>s. s) ''k'' onChange \<lparr>pass_now = 3, pass_data = ''a'', pass_lands = True\<rparr> mempty)"
      "snd (run_pass (\<lambda>s. s) ''k'' onChange \<lparr>pass_now = 3, pass_data = ''a'', pass_lands = True\<rparr> mempty)"]
  by (auto simp: onChange_def minute_def second_def remembers_def)

end
