(* ===== verification/WindowStore.thy ===== *)
theory WindowStore
  imports GoTime
begin

text \<open>
  The store of open windows that the usage accumulators of \<open>internal/rollup\<close> and the seven
  journals of \<open>internal/journal\<close> share: a map from a key that ends in a window start to the
  record of that window, from which finished windows are taken, which is read as sorted
  snapshots, and which a restarted agent seeds from its spool.

  The three loops are written once, over the record's own accessors, and every accumulator
  is defined by them. The locale \<open>window_store\<close> is their contract: a comparison function
  that orders records by a key, and a store key that this sort key determines. Its lemmas
  are the facts every accumulator needs of its store.
\<close>

section \<open>Operations\<close>

text \<open>\<open>!rec.WindowStart.Add(length).After(now)\<close>: the window ended at or before \<open>now\<close>.\<close>

definition ended :: "('r \<Rightarrow> time) \<Rightarrow> duration \<Rightarrow> time \<Rightarrow> 'r \<Rightarrow> bool" where
  "ended wstart len now r \<longleftrightarrow> \<not> wstart r + len > now"

lemma ended_iff: "ended wstart len now r \<longleftrightarrow> wstart r + len \<le> now"
  by (simp add: ended_def not_less)

text \<open>The loop of \<open>CloseBefore\<close>: what it returns, sorted, and the map it leaves.\<close>

definition close_before ::
    "('r \<Rightarrow> 'r \<Rightarrow> bool) \<Rightarrow> ('r \<Rightarrow> 'r) \<Rightarrow> ('r \<Rightarrow> time) \<Rightarrow> duration \<Rightarrow> time \<Rightarrow>
     ('k::linorder, 'r) gomap \<Rightarrow> 'r list \<times> ('k, 'r) gomap" where
  "close_before lt clone wstart len now m =
     (sort_slice lt (map clone (filter (ended wstart len now) (mvalues m))),
      mfilter (\<lambda>_ r. \<not> ended wstart len now r) m)"

text \<open>The loop of \<open>Snapshots\<close>: a copy of every record, sorted.\<close>

definition snapshots ::
    "('r \<Rightarrow> 'r \<Rightarrow> bool) \<Rightarrow> ('r \<Rightarrow> 'r) \<Rightarrow> ('k::linorder, 'r) gomap \<Rightarrow> 'r list" where
  "snapshots lt clone m = sort_slice lt (map clone (mvalues m))"

text \<open>
  The loop of \<open>Resume\<close>: a record whose key is already present is left alone, any other is
  adopted as \<open>prepare\<close> makes it, and the number adopted is returned.
\<close>

fun resume ::
    "('r \<Rightarrow> 'k::linorder) \<Rightarrow> ('r \<Rightarrow> 'r) \<Rightarrow> 'r list \<Rightarrow> ('k, 'r) gomap \<Rightarrow> ('k, 'r) gomap \<times> nat" where
  "resume keyOf prepare [] m = (m, 0)"
| "resume keyOf prepare (rec # recs) m =
     (if mget m (keyOf rec) \<noteq> None then resume keyOf prepare recs m
      else let (m', n) = resume keyOf prepare recs (mput (keyOf rec) (prepare rec) m) in (m', Suc n))"

text \<open>Every record is stored under its own key.\<close>

definition keyed :: "('r \<Rightarrow> 'k::linorder) \<Rightarrow> ('k, 'r) gomap \<Rightarrow> bool" where
  "keyed keyOf m \<longleftrightarrow> (\<forall>(k, r) \<in> set (entries m). keyOf r = k)"

lemma keyed_iff: "keyed keyOf m \<longleftrightarrow> (\<forall>k r. mget m k = Some r \<longrightarrow> keyOf r = k)"
  by (auto simp: keyed_def mget_entries)

lemma keyed_mempty [simp]: "keyed keyOf mempty"
  by (simp add: keyed_iff)

lemma keyed_mput [simp]: "keyed keyOf m \<Longrightarrow> keyOf r = k \<Longrightarrow> keyed keyOf (mput k r m)"
  by (simp add: keyed_iff)

lemma keyed_mfilter [simp]: "keyed keyOf m \<Longrightarrow> keyed keyOf (mfilter P m)"
  by (auto simp: keyed_iff mget_mfilter split: option.splits if_splits)

lemma mvalues_mfilter: "mvalues (mfilter (\<lambda>_. P) m) = filter P (mvalues m)"
  by (simp add: mvalues_def filter_map comp_def case_prod_unfold)

lemma mget_resume:
  assumes "\<And>r. keyOf (prepare r) = keyOf r"
  shows "mget (fst (resume keyOf prepare recs m)) k =
    (case mget m k of
       Some r \<Rightarrow> Some r
     | None \<Rightarrow> map_option prepare (List.find (\<lambda>r. keyOf r = k) recs))"
proof (induction recs arbitrary: m)
  case (Cons rec recs)
  then show ?case by (auto split: option.splits prod.splits simp: case_prod_beta Let_def)
qed (simp split: option.splits)

lemma keyed_resume:
  "(\<And>r. keyOf (prepare r) = keyOf r) \<Longrightarrow> keyed keyOf m \<Longrightarrow> keyed keyOf (fst (resume keyOf prepare recs m))"
  by (induction recs arbitrary: m) (simp_all add: Let_def case_prod_beta)

section \<open>The contract of a store\<close>

locale window_store = sort_order lt skey
  for lt :: "'r \<Rightarrow> 'r \<Rightarrow> bool" and skey :: "'r \<Rightarrow> 's::linorder" +
  fixes wstart :: "'r \<Rightarrow> time"
    and keyOf :: "'r \<Rightarrow> 'k::linorder"
    and clone :: "'r \<Rightarrow> 'r"
  assumes skey_keyOf: "skey a = skey b \<Longrightarrow> keyOf a = keyOf b"
    and skey_clone: "skey (clone r) = skey r"
    and wstart_clone: "wstart (clone r) = wstart r"
begin

lemma keyOf_clone: "keyOf (clone r) = keyOf r"
  by (rule skey_keyOf) (rule skey_clone)

lemma inj_skey_values: "keyed keyOf m \<Longrightarrow> inj_on skey (set (mvalues m))"
  by (rule inj_onI) (metis keyed_iff mvalues_iff option.inject skey_keyOf)

lemma inj_skey_clones:
  "keyed keyOf m \<Longrightarrow> set rs \<subseteq> set (mvalues m) \<Longrightarrow> inj_on skey (set (map clone rs))"
  using inj_skey_values [of m] by (auto simp: inj_on_def skey_clone subset_iff)

text \<open>What is closed has ended and what stays has not; together they are the store.\<close>

lemma close_before_ended:
  "close_before lt clone wstart len now m = (out, m') \<Longrightarrow>
   (\<forall>r \<in> set out. ended wstart len now r) \<and> (\<forall>r \<in> set (mvalues m'). \<not> ended wstart len now r)"
  by (auto simp: close_before_def mvalues_mfilter ended_def wstart_clone)

lemma close_before_partition:
  "close_before lt clone wstart len now m = (out, m') \<Longrightarrow>
   mset out + image_mset clone (mset (mvalues m')) = image_mset clone (mset (mvalues m))"
  by (auto simp: close_before_def mvalues_mfilter mset_filter
      simp flip: image_mset_union intro!: arg_cong [where f = "image_mset clone"])

lemma close_before_get:
  "close_before lt clone wstart len now m = (out, m') \<Longrightarrow>
   mget m' k = (case mget m k of None \<Rightarrow> None | Some r \<Rightarrow> if ended wstart len now r then None else Some r)"
  by (auto simp: close_before_def mget_mfilter split: option.splits)

lemma close_before_keyed:
  "keyed keyOf m \<Longrightarrow> close_before lt clone wstart len now m = (out, m') \<Longrightarrow> keyed keyOf m'"
  by (auto simp: close_before_def)

lemma close_before_again:
  "close_before lt clone wstart len now m = (out, m') \<Longrightarrow> now' \<le> now \<Longrightarrow>
   close_before lt clone wstart len now' m' = ([], m')"
proof -
  assume c: "close_before lt clone wstart len now m = (out, m')" and le: "now' \<le> now"
  have keep: "\<not> ended wstart len now' r" if "r \<in> set (mvalues m')" for r
    using close_before_ended [OF c] that le by (auto simp: ended_def)
  have "mfilter (\<lambda>_ r. \<not> ended wstart len now' r) m' = m'"
    using keep by (intro gomap_eqI) (auto simp: mget_mfilter mvalues_iff split: option.splits)
  then show ?thesis using keep by (simp add: close_before_def)
qed

text \<open>The order in which the map was iterated and the sorting algorithm do not matter.\<close>

lemma close_before_deterministic:
  assumes "keyed keyOf m" and "close_before lt clone wstart len now m = (out, m')"
    and "mset ys = mset (map clone (filter (ended wstart len now) (mvalues m)))"
    and "sorted_wrt (\<lambda>a b. \<not> lt b a) ys"
  shows "ys = out"
proof -
  let ?xs = "map clone (filter (ended wstart len now) (mvalues m))"
  have "out = sort_slice lt ?xs" using assms(2) by (simp add: close_before_def)
  moreover have "inj_on skey (set ?xs)"
    using assms(1) by (rule inj_skey_clones) auto
  ultimately show ?thesis using sort_slice_unique [OF assms(3,4)] by simp
qed

lemma snapshots_deterministic:
  assumes "keyed keyOf m" and "mset ys = mset (map clone (mvalues m))"
    and "sorted_wrt (\<lambda>a b. \<not> lt b a) ys"
  shows "ys = snapshots lt clone m"
  unfolding snapshots_def using assms(2,3)
  by (rule sort_slice_unique) (rule inj_skey_clones [OF assms(1)], simp)

lemma snapshots_sorted: "sorted (map skey (snapshots lt clone m))"
  unfolding snapshots_def by (rule sorted_sort_slice)

text \<open>A key the store already has is left alone; any other takes the first record offered.\<close>

lemma resume_get:
  "(\<And>r. keyOf (prepare r) = keyOf r) \<Longrightarrow> mget (fst (resume keyOf prepare recs m)) k =
    (case mget m k of
       Some r \<Rightarrow> Some r
     | None \<Rightarrow> map_option prepare (List.find (\<lambda>r. keyOf r = k) recs))"
  by (rule mget_resume)

text \<open>
  A restart: seeding an empty store with those snapshots of a store that satisfy \<open>P\<close>, in any
  order, gives exactly these records back, up to what \<open>clone\<close> and \<open>prepare\<close> do to a record.
\<close>

lemma resume_kept:
  assumes "keyed keyOf m" and prep: "\<And>r. keyOf (prepare r) = keyOf r"
    and "mset recs = mset (filter P (snapshots lt clone m))"
  shows "mget (fst (resume keyOf prepare recs mempty)) k =
    (case mget m k of None \<Rightarrow> None | Some r \<Rightarrow> if P (clone r) then Some (prepare (clone r)) else None)"
proof -
  have mem: "r \<in> set recs \<longleftrightarrow> (\<exists>k r0. mget m k = Some r0 \<and> r = clone r0 \<and> P r)" for r
    using arg_cong [OF assms(3), of set_mset] by (simp add: snapshots_def image_iff Bex_def mvalues_iff set_eq_iff) blast
  have key: "keyOf (clone r0) = k0" if "mget m k0 = Some r0" for r0 k0
    using assms(1) that keyOf_clone by (simp add: keyed_iff)
  have "List.find (\<lambda>r. keyOf r = k) recs =
      (case mget m k of None \<Rightarrow> None | Some r \<Rightarrow> if P (clone r) then Some (clone r) else None)"
  proof (cases "List.find (\<lambda>r. keyOf r = k) recs")
    case None
    then show ?thesis using mem key by (auto simp: find_None_iff split: option.splits)
  next
    case (Some r)
    then have "r \<in> set recs" "keyOf r = k" by (auto simp: find_Some_iff)
    then obtain r0 where "mget m k = Some r0" "r = clone r0" "P r" using mem key by metis
    then show ?thesis using Some by simp
  qed
  then show ?thesis by (simp add: mget_resume prep split: option.splits)
qed

lemma resume_snapshots:
  assumes "keyed keyOf m" and "\<And>r. keyOf (prepare r) = keyOf r"
  shows "mget (fst (resume keyOf prepare (snapshots lt clone m) mempty)) k =
    map_option (prepare \<circ> clone) (mget m k)"
  using resume_kept [OF assms, of "snapshots lt clone m" "\<lambda>_. True"] by (simp split: option.splits)

text \<open>Where preparing a snapshot gives the record back, resuming restores the store, cut to what was kept.\<close>

lemma resume_carries:
  assumes "keyed keyOf m" and "\<And>r. keyOf (prepare r) = keyOf r" and "mset recs = mset (filter P (snapshots lt clone m))"
    and undo: "\<And>k r. mget m k = Some r \<Longrightarrow> P (clone r) = P r \<and> prepare (clone r) = r"
  shows "fst (resume keyOf prepare recs mempty) = mfilter (\<lambda>_. P) m"
  by (rule gomap_eqI) (auto simp: resume_kept [OF assms(1-3)] mget_mfilter undo split: option.splits)

end

end
