(* ===== verification/JournalBase.thy ===== *)
theory JournalBase
  imports WindowStore
begin

text \<open>
  What the journals of \<open>internal/journal\<close> share: the key of a container of a pod, the
  reference to a workload (\<open>internal/model/workload.go\<close>) and the cut of an interval at window
  boundaries. The store operations they share are in \<open>WindowStore\<close>.
\<close>

section \<open>Definitions\<close>

datatype PodKey = PodKey (PK_Namespace: string) (PK_Pod: string) (PK_Container: string)

datatype WorkloadRef = WorkloadRef (Ref_Kind: string) (Ref_Name: string)

fun podkey_tuple :: "PodKey \<Rightarrow> string \<times> string \<times> string" where
  "podkey_tuple (PodKey n p c) = (n, p, c)"

lemma podkey_tuple_inj [simp]: "podkey_tuple a = podkey_tuple b \<longleftrightarrow> a = b"
  by (cases a; cases b) simp

instantiation PodKey :: linorder
begin

definition less_eq_PodKey :: "PodKey \<Rightarrow> PodKey \<Rightarrow> bool" where
  "less_eq_PodKey a b \<longleftrightarrow> podkey_tuple a \<le> podkey_tuple b"

definition less_PodKey :: "PodKey \<Rightarrow> PodKey \<Rightarrow> bool" where
  "less_PodKey a b \<longleftrightarrow> podkey_tuple a < podkey_tuple b"

instance
  by standard (auto simp: less_eq_PodKey_def less_PodKey_def order.strict_iff_order)

end

text \<open>\<open>int64(windowLength / time.Second)\<close>.\<close>

definition windowSeconds :: "duration \<Rightarrow> int" where
  "windowSeconds len = len sdiv second"

text \<open>
  The \<open>split\<close> of \<open>States\<close> and \<open>Counters\<close>: the loop as written, \<^const>\<open>None\<close> for a run that does
  not end, and the total function the model uses.
\<close>

partial_function (option) spans_loop :: "duration \<Rightarrow> time \<Rightarrow> time \<Rightarrow> (time \<times> time) list option" where
  "spans_loop len from to =
     (if from < to then
        (let end' = Truncate from len + len; end' = (if end' > to then to else end')
         in Option.bind (spans_loop len end' to) (\<lambda>out. Some ((from, end') # out)))
      else Some [])"

function spans :: "duration \<Rightarrow> time \<Rightarrow> time \<Rightarrow> (time \<times> time) list" where
  "spans len from to =
     (if 0 < len \<and> from < to then
        (let end' = Truncate from len + len; end' = (if end' > to then to else end')
         in (from, end') # spans len end' to)
      else [])"
  by pat_completeness auto
termination
  by (relation "measure (\<lambda>(len, from, to). nat (to - from))")
    (use less_Truncate_add in \<open>auto simp: Let_def\<close>)

declare spans.simps [simp del]

section \<open>Spans\<close>

lemma spans_done [simp]: "\<not> from < to \<Longrightarrow> spans len from to = []"
  by (simp add: spans.simps)

lemma if_min: "(if to < e then to else e) = min to (e :: int)"
  by simp

lemma spans_step:
  assumes "0 < len" and "from < to"
  shows "spans len from to = (from, min to (Truncate from len + len)) # spans len (min to (Truncate from len + len)) to"
  using assms by (simp add: spans.simps [of len "from" to] Let_def min_def)

lemma spans_induct [consumes 1, case_names stop step]:
  assumes "0 < len"
    and stop: "\<And>from. \<not> from < to \<Longrightarrow> P from"
    and step: "\<And>from. from < to \<Longrightarrow> P (min to (Truncate from len + len)) \<Longrightarrow> P from"
  shows "P from"
proof (induction "nat (to - from)" arbitrary: "from" rule: less_induct)
  case less
  show ?case
  proof (cases "from < to")
    case True
    have "from < Truncate from len + len" using less_Truncate_add [OF assms(1)] .
    then have "P (min to (Truncate from len + len))" using less True by simp
    then show ?thesis using step True by blast
  qed (use stop in auto)
qed

lemma spans_loop_ends:
  assumes "0 < len"
  shows "spans_loop len from to = Some (spans len from to)"
  using assms
proof (induction "from" rule: spans_induct [where to = to])
  case (stop "from")
  then show ?case by (simp add: spans_loop.simps [of len "from" to])
next
  case (step "from")
  then show ?case
    using assms spans_step [OF assms, of "from" to]
    by (simp add: spans_loop.simps [of len "from" to] Let_def if_min)
qed

text \<open>Each span lies in the window of its start, and their lengths add up to the interval.\<close>

lemma spans_sound:
  assumes "0 < len"
  shows "(\<forall>(s, e) \<in> set (spans len from to). from \<le> s \<and> s < e \<and> e \<le> to \<and> e \<le> Truncate s len + len) \<and>
    sum_list (map (\<lambda>(s, e). e - s) (spans len from to)) = max 0 (to - from)"
  using assms
proof (induction "from" rule: spans_induct [where to = to])
  case (step "from")
  have "from < Truncate from len + len" using less_Truncate_add [OF assms] .
  with step show ?case by (auto simp: spans_step [OF assms step.hyps])
qed simp

lemma spans_head: "0 < len \<Longrightarrow> from < to \<Longrightarrow> fst (hd (spans len from to)) = from"
  by (simp add: spans_step)

text \<open>Every span after the first starts on a window boundary.\<close>

lemma spans_tail_aligned:
  assumes "0 < len"
  shows "\<forall>(s, e) \<in> set (tl (spans len from to)). Truncate s len = s"
  using assms
proof (induction "from" rule: spans_induct [where to = to])
  case (step "from")
  let ?e = "min to (Truncate from len + len)"
  show ?case
  proof (cases "?e < to")
    case True
    then have e: "?e = Truncate from len + len" by (simp add: min_def split: if_splits)
    have "Truncate ?e len = ?e" unfolding e by (rule Truncate_of_dvd) (simp add: Truncate_dvd assms)
    moreover obtain e' rest where rest: "spans len ?e to = (?e, e') # rest"
      using spans_step [OF assms True] by blast
    ultimately have "\<forall>(s, e) \<in> set (spans len ?e to). Truncate s len = s"
      using step.IH by (simp only: rest list.sel set_simps) auto
    then show ?thesis by (simp add: spans_step [OF assms step.hyps])
  qed (simp add: spans_step [OF assms step.hyps])
qed simp

end
