(* ===== verification/SpoolNames.thy ===== *)
theory SpoolNames
  imports JournalBase GoStrings
begin

text \<open>
  The filenames of the spool, after \<open>internal/sink/spool.go\<close> and \<open>recover.go\<close>: the reduction
  of strings the cluster chose to filename components, the check that a payload name is a
  plain filename, and the names of window files with the parser that reads them back.
\<close>

section \<open>Definitions\<close>

definition fileTokenMax :: nat where "fileTokenMax = 63"
definition unnamed :: string where "unnamed = ''unnamed''"
definition shortDigestLen :: nat where "shortDigestLen = 12"
definition noDigest :: string where "noDigest = ''nodigest''"

definition between :: "nat \<Rightarrow> nat \<Rightarrow> nat \<Rightarrow> bool" where
  "between lo r hi \<longleftrightarrow> lo \<le> r \<and> r \<le> hi"

definition token_rune :: "nat \<Rightarrow> bool" where
  "token_rune r \<longleftrightarrow> between 48 r 57 \<or> between 97 r 122 \<or> between 65 r 90 \<or> r = 45 \<or> r = 95"

text \<open>The loop of \<open>fileToken\<close>: the bytes written so far, and whether they are all dots.\<close>

fun token_loop :: "nat list \<Rightarrow> string \<Rightarrow> bool \<Rightarrow> string \<times> bool" where
  "token_loop [] b allDots = (b, allDots)"
| "token_loop (r # rs) b allDots =
     (let (b, allDots) =
        (if token_rune r then (b @ [char_of r], False)
         else if r = 46 then (b @ ''.'', allDots)
         else (b @ ''-'', False))
      in if length b \<ge> fileTokenMax then (b, allDots) else token_loop rs b allDots)"

definition fileToken :: "string \<Rightarrow> string" where
  "fileToken s =
     (let (b, allDots) = token_loop (runes s) [] True
      in if b = [] \<or> allDots then unnamed else b)"

definition digestFileToken :: "string \<Rightarrow> string" where
  "digestFileToken digest =
     map (\<lambda>r. if between 97 r 122 \<or> between 65 r 90 \<or> between 48 r 57 \<or> r = 45 \<or> r = 95
              then char_of r else CHR ''-'') (runes digest)"

text \<open>\<open>digest[strings.LastIndex(digest, ":")+1:]\<close>.\<close>

definition after_last :: "char \<Rightarrow> string \<Rightarrow> string" where
  "after_last sep s = rev (takeWhile (\<lambda>c. c \<noteq> sep) (rev s))"

fun short_loop :: "nat list \<Rightarrow> string \<Rightarrow> string" where
  "short_loop [] short = short"
| "short_loop (r # rs) short =
     (let short = (if between 48 r 57 \<or> between 97 r 102 then short @ [char_of r] else short)
      in if length short = shortDigestLen then short else short_loop rs short)"

definition shortDigest :: "string \<Rightarrow> string" where
  "shortDigest digest =
     (let short = short_loop (runes (after_last (CHR '':'') digest)) []
      in if short = [] then noDigest else short)"

text \<open>\<open>filepath.Base\<close>, and the check \<open>encodePayload\<close> makes of a name.\<close>

definition Base :: "string \<Rightarrow> string" where
  "Base path =
     (if path = [] then ''.''
      else let p = rev (dropWhile (\<lambda>c. c = CHR ''/'') (rev path)); p = after_last (CHR ''/'') p
           in if p = [] then ''/'' else p)"

definition plain_name :: "string \<Rightarrow> bool" where
  "plain_name name \<longleftrightarrow> \<not> (name \<noteq> Base name \<or> CHR ''/'' \<in> set name \<or> CHR 0x5C \<in> set name
     \<or> name = ''.'' \<or> name = ''..'')"

record windowKey =
  wk_start :: time
  wk_seconds :: int

definition usageNamePrefix :: string where "usageNamePrefix = ''usage-''"
definition usageSnapshotSuffix :: string where "usageSnapshotSuffix = ''.snapshot.json''"
definition restartsNamePrefix :: string where "restartsNamePrefix = ''restarts-''"
definition disruptionsNamePrefix :: string where "disruptionsNamePrefix = ''disruptions-''"
definition nodeLifecycleNamePrefix :: string where "nodeLifecycleNamePrefix = ''node-lifecycle-''"
definition jobRunsNamePrefix :: string where "jobRunsNamePrefix = ''job-runs-''"
definition goroutineCountsNamePrefix :: string where "goroutineCountsNamePrefix = ''goroutine-counts-''"
definition agentStatesNamePrefix :: string where "agentStatesNamePrefix = ''agent-states-''"
definition agentCountersNamePrefix :: string where "agentCountersNamePrefix = ''agent-counters-''"

definition window_digits :: "windowKey \<Rightarrow> string" where
  "window_digits k = FormatInt (Unix (wk_start k)) @ ''-'' @ FormatInt (wk_seconds k)"

definition journalWindowName :: "string \<Rightarrow> windowKey \<Rightarrow> string" where
  "journalWindowName prefix k = prefix @ window_digits k @ ''.json''"

definition windowKey_end :: "windowKey \<Rightarrow> time" where
  "windowKey_end k = wk_start k + wrap64 (wk_seconds k * second)"

definition windowKey_name :: "windowKey \<Rightarrow> string" where
  "windowKey_name k = usageNamePrefix @ window_digits k"

definition parseWindowName :: "string \<Rightarrow> string \<Rightarrow> windowKey option" where
  "parseWindowName name prefix =
     (case CutPrefix name prefix of
        None \<Rightarrow> None
      | Some rest \<Rightarrow>
          case Cut rest (CHR ''-'') of
            None \<Rightarrow> None
          | Some (unix, secs) \<Rightarrow>
              case ParseInt unix of
                None \<Rightarrow> None
              | Some start \<Rightarrow>
                  case ParseInt secs of
                    None \<Rightarrow> None
                  | Some len \<Rightarrow>
                      if len \<le> 0 then None
                      else Some \<lparr>wk_start = time_Unix start, wk_seconds = len\<rparr>)"

text \<open>The names of the payloads that carry their key in the filename.\<close>

record OOMKill =
  OOM_Namespace :: string
  OOM_Pod :: string
  OOM_Container :: string
  OOM_Workload :: WorkloadRef
  OOM_FinishedAt :: time
  OOM_ExitCode :: int
  OOM_RestartCount :: int
  OOM_MemoryLimitBytes :: "int option"

definition oom_name :: "OOMKill \<Rightarrow> string" where
  "oom_name e = ''oom-'' @ FormatInt (Unix (OOM_FinishedAt e)) @ ''-'' @ fileToken (OOM_Namespace e) @ ''-'' @
     fileToken (OOM_Pod e) @ ''-'' @ fileToken (OOM_Container e) @ ''-'' @ FormatInt (OOM_RestartCount e) @ ''.json''"

record ProfileKey =
  Prof_Namespace :: string
  Prof_Workload :: string
  Prof_Container :: string
  Prof_ImageDigest :: string
  Prof_CaptureStart :: time
  Prof_CaptureEnd :: time

text \<open>The name \<open>WriteProfile\<close> and \<open>WritePulledProfile\<close> build, under their two prefixes.\<close>

definition profile_name :: "string \<Rightarrow> ProfileKey \<Rightarrow> string" where
  "profile_name prefix key = prefix @ fileToken (Prof_Namespace key) @ ''-'' @ fileToken (Prof_Workload key) @ ''-'' @
     fileToken (Prof_Container key) @ ''-'' @ shortDigest (Prof_ImageDigest key) @ ''-'' @
     FormatInt (Unix (Prof_CaptureStart key)) @ ''-'' @ FormatInt (Unix (Prof_CaptureEnd key)) @ ''.json''"

section \<open>Safe components\<close>

definition safe_char :: "char \<Rightarrow> bool" where
  "safe_char c \<longleftrightarrow> token_rune (of_char c) \<or> c = CHR ''.''"

lemma safe_char_rune:
  assumes "token_rune r"
  shows "safe_char (char_of r) \<and> char_of r \<noteq> CHR ''.''"
proof -
  have r: "of_char (char_of r :: char) = r"
    using assms by (auto simp: token_rune_def between_def of_char_of)
  have "\<not> token_rune (of_char CHR ''.'')" by code_simp
  then show ?thesis using assms r by (metis safe_char_def)
qed

lemma safe_char_literals:
  "list_all safe_char ''oom-''" "list_all safe_char ''profile-''" "list_all safe_char ''pprof-''"
  "list_all safe_char ''.json''" "list_all safe_char ''-''" "list_all safe_char ''.''"
  "list_all safe_char unnamed" "list_all safe_char noDigest"
  "\<not> safe_char CHR ''/''" "\<not> safe_char CHR 0x5C"
  by code_simp+

lemma token_loop_safe:
  assumes "\<forall>c \<in> set b. safe_char c" and "allDots \<longleftrightarrow> (\<forall>c \<in> set b. c = CHR ''.'')" and "length b < fileTokenMax"
    and "token_loop rs b allDots = (b', allDots')"
  shows "(\<forall>c \<in> set b'. safe_char c) \<and> (allDots' \<longleftrightarrow> (\<forall>c \<in> set b'. c = CHR ''.'')) \<and> length b' \<le> fileTokenMax"
  using assms
proof (induction rs b allDots rule: token_loop.induct)
  case (2 r rs b allDots)
  obtain b1 d1 where step: "(b1, d1) = (if token_rune r then (b @ [char_of r], False)
      else if r = 46 then (b @ ''.'', allDots) else (b @ ''-'', False))"
    by (metis surj_pair)
  have inv: "(\<forall>c \<in> set b1. safe_char c)" "d1 \<longleftrightarrow> (\<forall>c \<in> set b1. c = CHR ''.'')" "length b1 = Suc (length b)"
    using step 2(2,3) safe_char_rune [of r] safe_char_literals(5,6) by (auto split: if_splits)
  show ?case
  proof (cases "length b1 \<ge> fileTokenMax")
    case True
    then have "(b', d1) = (b1, allDots')" using 2(5) step [symmetric] by (auto simp: Let_def)
    then show ?thesis using inv 2(4) by auto
  next
    case False
    then have "token_loop rs b1 d1 = (b', allDots')" using 2(5) step [symmetric] by (simp add: Let_def)
    then show ?thesis using 2(1) [OF refl step _ inv(1,2)] False by simp
  qed
qed auto

lemma fileToken_chars: "\<forall>c \<in> set (fileToken s). safe_char c"
  and fileToken_length: "0 < length (fileToken s) \<and> length (fileToken s) \<le> fileTokenMax"
  and fileToken_not_dots: "\<exists>c \<in> set (fileToken s). c \<noteq> CHR ''.''"
proof -
  obtain b d where loop: "token_loop (runes s) [] True = (b, d)" by force
  have inv: "(\<forall>c \<in> set b. safe_char c) \<and> (d \<longleftrightarrow> (\<forall>c \<in> set b. c = CHR ''.'')) \<and> length b \<le> fileTokenMax"
    using token_loop_safe [OF _ _ _ loop] by (simp add: fileTokenMax_def)
  have un: "\<forall>c \<in> set unnamed. safe_char c" "length unnamed = 7" "CHR ''u'' \<in> set unnamed"
    using safe_char_literals(7) by (simp_all add: unnamed_def)
  show "\<forall>c \<in> set (fileToken s). safe_char c" "0 < length (fileToken s) \<and> length (fileToken s) \<le> fileTokenMax"
    using inv un loop by (auto simp: fileToken_def fileTokenMax_def)
  show "\<exists>c \<in> set (fileToken s). c \<noteq> CHR ''.''"
    using inv un(3) loop by (auto simp: fileToken_def intro: bexI [of _ "CHR ''u''"])
qed

lemma shortDigest_chars: "\<forall>c \<in> set (shortDigest s). safe_char c"
proof -
  have "\<forall>c \<in> set (short_loop rs b). safe_char c" if "\<forall>c \<in> set b. safe_char c" for rs b
    using that
  proof (induction rs b rule: short_loop.induct)
    case (2 r rs b)
    have "safe_char (char_of r)" if "between 48 r 57 \<or> between 97 r 102"
      using safe_char_rune [of r] that by (auto simp: token_rune_def between_def)
    then show ?case using 2 by (auto simp: Let_def)
  qed simp
  from this [of "[]"] show ?thesis
    using safe_char_literals(8) by (simp add: shortDigest_def Let_def list_all_iff)
qed

lemma FormatInt_chars: "\<forall>c \<in> set (FormatInt i). safe_char c"
proof -
  have "safe_char (digit d)" if "d < 10" for d
    using safe_char_rune [of "48 + d"] that by (simp add: digit_def token_rune_def between_def)
  then have "\<forall>c \<in> set (FormatUint n). safe_char c" for n using FormatUint_digits by blast
  then show ?thesis using safe_char_literals(5) by (simp add: FormatInt_def)
qed

section \<open>Plain names\<close>

lemma after_last_id: "sep \<notin> set s \<Longrightarrow> after_last sep s = s"
proof -
  assume "sep \<notin> set s"
  then have "\<forall>c \<in> set (rev s). c \<noteq> sep" by auto
  then have "takeWhile (\<lambda>c. c \<noteq> sep) (rev s) = rev s" by (simp only: takeWhile_eq_all_conv)
  then show ?thesis unfolding after_last_def by (simp only: rev_rev_ident)
qed

lemma plain_name_iff:
  "plain_name name \<longleftrightarrow> name \<noteq> [] \<and> CHR ''/'' \<notin> set name \<and> CHR 0x5C \<notin> set name \<and> name \<noteq> ''.'' \<and> name \<noteq> ''..''"
proof (cases "name = [] \<or> CHR ''/'' \<in> set name")
  case False
  then obtain c cs where c: "rev name = c # cs" by (metis neq_Nil_conv rev_is_Nil_conv)
  then have "c \<noteq> CHR ''/''" using False by (metis list.set_intros(1) set_rev)
  then have "dropWhile (\<lambda>c. c = CHR ''/'') (rev name) = rev name" using c by simp
  then have "Base name = name" using False by (simp add: Base_def after_last_id)
  then show ?thesis using False by (auto simp: plain_name_def)
qed (auto simp: plain_name_def Base_def)

lemma plain_name_safe:
  "\<forall>c \<in> set name. safe_char c \<Longrightarrow> 2 < length name \<Longrightarrow> plain_name name"
  using safe_char_literals(9,10) unfolding plain_name_iff by fastforce

lemma oom_name_plain: "plain_name (oom_name e)"
proof (rule plain_name_safe)
  show "\<forall>c \<in> set (oom_name e). safe_char c"
    using fileToken_chars FormatInt_chars safe_char_literals(1,4,5)
    unfolding oom_name_def list_all_iff set_append ball_Un by blast
qed (simp add: oom_name_def)

lemma profile_name_plain:
  assumes "prefix \<in> {''profile-'', ''pprof-''}"
  shows "plain_name (profile_name prefix key)"
proof (rule plain_name_safe)
  have "list_all safe_char prefix" using assms safe_char_literals(2,3) by blast
  then show "\<forall>c \<in> set (profile_name prefix key). safe_char c"
    using fileToken_chars shortDigest_chars FormatInt_chars safe_char_literals(4,5)
    unfolding profile_name_def list_all_iff set_append ball_Un by blast
qed (simp add: profile_name_def)

section \<open>Window names\<close>

lemma parse_window_digits:
  assumes "0 \<le> Unix (wk_start k)" and "Unix (wk_start k) \<le> maxInt64" and "second dvd wk_start k"
    and "0 < wk_seconds k" and "wk_seconds k \<le> maxInt64"
  shows "parseWindowName (prefix @ window_digits k) prefix = Some k"
proof -
  have i: "int64 (Unix (wk_start k))" "int64 (wk_seconds k)"
    using assms by (auto simp: int64_def minInt64_def)
  have "CHR ''-'' \<notin> set (FormatInt (Unix (wk_start k)))"
    using assms(1) FormatUint_no_dash by (simp add: FormatInt_def)
  then have "Cut (window_digits k) (CHR ''-'') = Some (FormatInt (Unix (wk_start k)), FormatInt (wk_seconds k))"
    unfolding window_digits_def using Cut_append by simp
  then show ?thesis
    using assms(3,4) by (simp add: parseWindowName_def ParseInt_FormatInt i time_Unix_Unix)
qed

section \<open>Properties\<close>

text \<open>
  Whatever the cluster puts in a name, its filename component is not empty, has at most 63
  bytes, all of them letters, digits, dashes, underscores or dots and not all of them dots;
  and the names of OOM and profile payloads built from such components are plain filenames,
  so no object name can make a payload leave the spool directory or be refused.
\<close>

theorem fileToken_safe:
  "fileToken s \<noteq> [] \<and> length (fileToken s) \<le> 63 \<and> (\<forall>c \<in> set (fileToken s). safe_char c) \<and>
   (\<exists>c \<in> set (fileToken s). c \<noteq> CHR ''.'') \<and>
   plain_name (oom_name e) \<and> plain_name (profile_name ''profile-'' key) \<and> plain_name (profile_name ''pprof-'' key)"
  using fileToken_chars fileToken_length [of s] fileToken_not_dots oom_name_plain profile_name_plain
  by (auto simp: fileTokenMax_def)

theorem fileToken_safe_witness:
  "fileToken ''x/../etc/evil'' \<noteq> [] \<and> fileToken ''x/../etc/evil'' = ''x-..-etc-evil''"
  using fileToken_safe [of "''x/../etc/evil''"] by (auto, code_simp)

text \<open>
  A window file's name is read back as the window it was written for, under any prefix,
  for windows that start at a whole second at or after the Unix epoch; names of windows
  that start before it are not recognised.
\<close>

theorem parseWindowName_inverse:
  assumes "second dvd wk_start k" and "int64 (Unix (wk_start k))" and "0 < wk_seconds k" and "wk_seconds k \<le> maxInt64"
  shows "parseWindowName (TrimSuffix (journalWindowName prefix k) ''.json'') prefix =
      (if 0 \<le> Unix (wk_start k) then Some k else None) \<and>
    parseWindowName (TrimSuffix (windowKey_name k @ usageSnapshotSuffix) usageSnapshotSuffix) usageNamePrefix =
      (if 0 \<le> Unix (wk_start k) then Some k else None)"
proof -
  have neg: "parseWindowName (p @ window_digits k) p = None" if "Unix (wk_start k) < 0" for p
  proof -
    have "window_digits k = [] @ CHR ''-'' # (FormatUint (nat (- Unix (wk_start k))) @ ''-'' @ FormatInt (wk_seconds k))"
      using that by (simp add: window_digits_def FormatInt_def)
    then have "Cut (window_digits k) (CHR ''-'') =
        Some ([], FormatUint (nat (- Unix (wk_start k))) @ ''-'' @ FormatInt (wk_seconds k))"
      using Cut_append [of "CHR ''-''" "[]"] by (metis empty_iff empty_set)
    then show ?thesis by (simp add: parseWindowName_def ParseInt_def)
  qed
  have "parseWindowName (p @ window_digits k) p = (if 0 \<le> Unix (wk_start k) then Some k else None)" for p
    using assms parse_window_digits [of k p] neg by (auto simp: int64_def)
  moreover have "TrimSuffix (journalWindowName prefix k) ''.json'' = prefix @ window_digits k"
    using TrimSuffix_append [of "prefix @ window_digits k" "''.json''"] by (simp add: journalWindowName_def)
  moreover have "TrimSuffix (windowKey_name k @ usageSnapshotSuffix) usageSnapshotSuffix = usageNamePrefix @ window_digits k"
    unfolding windowKey_name_def by (rule TrimSuffix_append)
  ultimately show ?thesis by (simp only:)
qed

theorem parseWindowName_inverse_witness:
  "parseWindowName (TrimSuffix (journalWindowName restartsNamePrefix \<lparr>wk_start = epoch, wk_seconds = 60\<rparr>) ''.json'')
     restartsNamePrefix = Some \<lparr>wk_start = epoch, wk_seconds = 60\<rparr>"
  using parseWindowName_inverse [of "\<lparr>wk_start = epoch, wk_seconds = 60\<rparr>" restartsNamePrefix]
  by (simp add: epoch_def Unix_def maxInt64_def)

section \<open>Divergences\<close>

text \<open>
  Two different kills under one filename: the components of a name are joined by a character
  they may contain, so the file of one event replaces the file of the other. Components are
  also cut at 63 bytes, where pods of one long-named workload still agree.
\<close>

lemma oom_names_collide:
  "oom_name (e\<lparr>OOM_Namespace := ''a-b'', OOM_Pod := ''c''\<rparr>) = oom_name (e\<lparr>OOM_Namespace := ''a'', OOM_Pod := ''b-c''\<rparr>)"
proof -
  have "fileToken ''a-b'' = ''a-b''" "fileToken ''a'' = ''a''" "fileToken ''b-c'' = ''b-c''" "fileToken ''c'' = ''c''"
    by code_simp+
  then show ?thesis by (simp add: oom_name_def)
qed

end
