(* ===== verification/Spool.thy ===== *)
theory Spool
  imports CadenceGate SpoolNames
begin

text \<open>
  The spool of \<open>internal/sink/spool.go\<close> with the counters of \<open>counters.go\<close>: the directory of
  payload files, the write of one payload (registry, encoding, cadence, atomic publication),
  and the sweep that bounds what the directory holds.

  The directory is a map from names to files. What the operating system may answer is an
  argument, \<open>io\<close>: which writes, renames, removals and listings fail, and what a failed write
  leaves behind. The bytes \<open>json.MarshalIndent\<close> produced for a payload are an argument too,
  \<^const>\<open>None\<close> where it reported an error. Sizes are exact integers: they are sizes of files
  on one volume.
\<close>

section \<open>Definitions\<close>

record sfile =
  F_data :: string
  F_modTime :: time
  F_isDir :: bool

type_synonym spool_dir = "(string, sfile) gomap"

record io =
  io_mkdir_fails :: bool
  io_list_fails :: bool
  io_info_fails :: "string \<Rightarrow> bool"
  io_write_fails :: "string \<Rightarrow> string option option"
  io_rename_fails :: "string \<Rightarrow> bool"
  io_remove_fails :: "string \<Rightarrow> bool"
  io_mtime :: time

datatype spool_error =
    CreatingSpool
  | UnknownKind string
  | NotPlainName string
  | EncodingFailed string
  | WritingFailed string
  | PublishingFailed string
  | ListingFailed
  | SweepingFailed
  | RemovingSnapshot
  | NoImageDigest

definition DefaultMaxAge :: duration where "DefaultMaxAge = 24 * hour"
definition DefaultMaxBytes :: int where "DefaultMaxBytes = 512 * 2 ^ 20"
definition DefaultMaxFiles :: int where "DefaultMaxFiles = 20000"

definition EvictedAge :: string where "EvictedAge = ''age''"
definition EvictedOrphanTemp :: string where "EvictedOrphanTemp = ''orphan_temp''"
definition EvictedBytes :: string where "EvictedBytes = ''bytes''"
definition EvictedFiles :: string where "EvictedFiles = ''files''"

definition EvictionReasons :: "string list" where
  "EvictionReasons = [EvictedAge, EvictedOrphanTemp, EvictedBytes, EvictedFiles]"

record Recovered =
  Rcv_Windows :: int
  Rcv_Records :: int
  Rcv_Skipped :: int
  Rcv_JournalWindows :: int
  Rcv_JournalRecords :: int

type_synonym counts = "(string, int) gomap"

record 'fp Spool =
  Sp_maxAge :: duration
  Sp_maxBytes :: int
  Sp_maxFiles :: int
  Sp_cadence :: "'fp gate"
  Sp_dir :: spool_dir
  Sp_written :: counts
  Sp_writeFailures :: counts
  Sp_suppressed :: counts
  Sp_evicted :: counts
  Sp_bytes :: int
  Sp_files :: int
  Sp_recovered :: Recovered

record Counters =
  C_Written :: counts
  C_WriteFailures :: counts
  C_Suppressed :: counts
  C_Evicted :: counts
  C_Bytes :: int
  C_Files :: int
  C_Recovered :: Recovered

definition newKindCounts :: counts where
  "newKindCounts = fold (\<lambda>k. mput (PK_Kind k) 0) registry mempty"

definition newReasonCounts :: counts where
  "newReasonCounts = fold (\<lambda>r. mput r 0) EvictionReasons mempty"

definition zeroRecovered :: Recovered where
  "zeroRecovered = \<lparr>Rcv_Windows = 0, Rcv_Records = 0, Rcv_Skipped = 0, Rcv_JournalWindows = 0, Rcv_JournalRecords = 0\<rparr>"

text \<open>The directory \<open>os.MkdirAll\<close> found or made is an argument.\<close>

definition NewSpool :: "io \<Rightarrow> spool_dir \<Rightarrow> duration \<Rightarrow> spool_error + 'fp Spool" where
  "NewSpool io dir maxAge =
     (let maxAge = (if maxAge \<le> 0 then DefaultMaxAge else maxAge) in
      if io_mkdir_fails io then Inl CreatingSpool
      else Inr \<lparr>Sp_maxAge = maxAge, Sp_maxBytes = DefaultMaxBytes, Sp_maxFiles = DefaultMaxFiles,
        Sp_cadence = mempty, Sp_dir = dir, Sp_written = newKindCounts, Sp_writeFailures = newKindCounts,
        Sp_suppressed = newKindCounts, Sp_evicted = newReasonCounts, Sp_bytes = 0, Sp_files = 0,
        Sp_recovered = zeroRecovered\<rparr>)"

definition incr :: "string \<Rightarrow> counts \<Rightarrow> counts" where
  "incr k m = mupd 0 (\<lambda>n. add64 n 1) k m"

definition countSuppressed :: "string \<Rightarrow> 'fp Spool \<Rightarrow> 'fp Spool" where
  "countSuppressed kind s = s\<lparr>Sp_suppressed := incr kind (Sp_suppressed s)\<rparr>"

definition countWrite :: "string \<Rightarrow> bool \<Rightarrow> 'fp Spool \<Rightarrow> 'fp Spool" where
  "countWrite kind failed s =
     (if failed then s\<lparr>Sp_writeFailures := incr kind (Sp_writeFailures s)\<rparr>
      else s\<lparr>Sp_written := incr kind (Sp_written s)\<rparr>)"

definition countRecovery :: "int \<Rightarrow> int \<Rightarrow> int \<Rightarrow> int \<Rightarrow> int \<Rightarrow> 'fp Spool \<Rightarrow> 'fp Spool" where
  "countRecovery records windows skipped journalRecords journalWindows s =
     s\<lparr>Sp_recovered := \<lparr>Rcv_Windows = windows, Rcv_Records = records, Rcv_Skipped = skipped,
        Rcv_JournalWindows = journalWindows, Rcv_JournalRecords = journalRecords\<rparr>\<rparr>"

definition countEviction :: "string \<Rightarrow> 'fp Spool \<Rightarrow> 'fp Spool" where
  "countEviction reason s = s\<lparr>Sp_evicted := incr reason (Sp_evicted s)\<rparr>"

definition recordSweep :: "int \<Rightarrow> int \<Rightarrow> 'fp Spool \<Rightarrow> 'fp Spool" where
  "recordSweep bytes files s = s\<lparr>Sp_bytes := bytes, Sp_files := files\<rparr>"

definition copyCounts :: "counts \<Rightarrow> counts" where
  "copyCounts m = fold (\<lambda>(k, v). mput k v) (entries m) mempty"

text \<open>\<open>Counters\<close>; \<^const>\<open>None\<close> is the nil spool of the log-only mode.\<close>

definition Spool_Counters :: "'fp Spool option \<Rightarrow> Counters" where
  "Spool_Counters sp =
     (case sp of
        None \<Rightarrow> \<lparr>C_Written = newKindCounts, C_WriteFailures = newKindCounts, C_Suppressed = newKindCounts,
          C_Evicted = newReasonCounts, C_Bytes = 0, C_Files = 0, C_Recovered = zeroRecovered\<rparr>
      | Some s \<Rightarrow> \<lparr>C_Written = copyCounts (Sp_written s), C_WriteFailures = copyCounts (Sp_writeFailures s),
          C_Suppressed = copyCounts (Sp_suppressed s), C_Evicted = copyCounts (Sp_evicted s),
          C_Bytes = Sp_bytes s, C_Files = Sp_files s, C_Recovered = Sp_recovered s\<rparr>)"

definition SortedKeys :: "counts \<Rightarrow> string list" where
  "SortedKeys m = sort_slice (<) (mkeys m)"

definition encodePayload :: "string \<Rightarrow> string option \<Rightarrow> spool_error + string" where
  "encodePayload name marshalled =
     (if \<not> plain_name name then Inl (NotPlainName name)
      else case marshalled of
        None \<Rightarrow> Inl (EncodingFailed name)
      | Some data \<Rightarrow> Inr (data @ [CHR 0x0A]))"

definition tmp_name :: "string \<Rightarrow> string" where
  "tmp_name name = name @ ''.tmp''"

definition publish :: "io \<Rightarrow> string \<Rightarrow> string \<Rightarrow> 'fp Spool \<Rightarrow> 'fp Spool \<times> spool_error option" where
  "publish io name data s =
     (let tmp = tmp_name name; file = (\<lambda>bytes. \<lparr>F_data = bytes, F_modTime = io_mtime io, F_isDir = False\<rparr>) in
      case io_write_fails io tmp of
        Some left \<Rightarrow>
          (case left of None \<Rightarrow> s | Some part \<Rightarrow> s\<lparr>Sp_dir := mput tmp (file part) (Sp_dir s)\<rparr>,
           Some (WritingFailed name))
      | None \<Rightarrow>
          let s = s\<lparr>Sp_dir := mput tmp (file data) (Sp_dir s)\<rparr> in
          if io_rename_fails io tmp then (s, Some (PublishingFailed name))
          else (s\<lparr>Sp_dir := mput name (file data) (mdel tmp (Sp_dir s))\<rparr>, None))"

text \<open>\<open>now\<close> and \<open>now'\<close> are the two readings of the clock.\<close>

definition Spool_write ::
    "(string \<Rightarrow> 'fp) \<Rightarrow> io \<Rightarrow> time \<Rightarrow> time \<Rightarrow> string \<Rightarrow> string \<Rightarrow> string option \<Rightarrow> 'fp Spool \<Rightarrow>
     'fp Spool \<times> spool_error option" where
  "Spool_write sha io now now' kind name marshalled s =
     (case Lookup kind of
        None \<Rightarrow> (s, Some (UnknownKind kind))
      | Some entry \<Rightarrow>
          case encodePayload name marshalled of
            Inl err \<Rightarrow> (countWrite kind True s, Some err)
          | Inr data \<Rightarrow>
              let (fp, d) = due sha name (PK_Cadence entry) data now (Sp_cadence s) in
              if \<not> d then (countSuppressed kind s, None)
              else
                case publish io name data s of
                  (s, Some err) \<Rightarrow> (countWrite kind True s, Some err)
                | (s, None) \<Rightarrow>
                    let s = s\<lparr>Sp_cadence := wrote name (PK_Cadence entry) fp now' (Sp_cadence s)\<rparr>
                    in (countWrite kind False s, None))"

definition Spool_remove :: "io \<Rightarrow> string \<Rightarrow> 'fp Spool \<Rightarrow> 'fp Spool \<times> spool_error option" where
  "Spool_remove io name s =
     (if io_remove_fails io name then (s, Some SweepingFailed)
      else (s\<lparr>Sp_dir := mdel name (Sp_dir s)\<rparr>, None))"

record kept_file =
  K_name :: string
  K_size :: int
  K_modTime :: time

record 'fp scan =
  scan_spool :: "'fp Spool"
  scan_kept :: "kept_file list"
  scan_total :: int

text \<open>One iteration of the first loop of \<open>Sweep\<close>, over the listing of the directory.\<close>

definition sweep_entry ::
    "io \<Rightarrow> time \<Rightarrow> time \<Rightarrow> string \<times> sfile \<Rightarrow> 'fp scan \<Rightarrow> 'fp scan \<times> spool_error option" where
  "sweep_entry io now cutoff entry st =
     (let name = fst entry; info = snd entry in
      if F_isDir info then (st, None)
      else if io_info_fails io name then (st, None)
      else
        let expired = F_modTime info < cutoff;
            orphanTmp = (HasSuffix name ''.tmp'' \<and> F_modTime info < now - minute) in
        if expired \<or> orphanTmp then
          (case Spool_remove io name (scan_spool st) of
             (s, Some err) \<Rightarrow> (st\<lparr>scan_spool := s\<rparr>, Some err)
           | (s, None) \<Rightarrow> (st\<lparr>scan_spool := countEviction (if expired then EvictedAge else EvictedOrphanTemp) s\<rparr>, None))
        else
          (st\<lparr>scan_kept := scan_kept st @ [\<lparr>K_name = name, K_size = int (length (F_data info)), K_modTime = F_modTime info\<rparr>],
              scan_total := scan_total st + int (length (F_data info))\<rparr>, None))"

definition less_kept :: "kept_file \<Rightarrow> kept_file \<Rightarrow> bool" where
  "less_kept a b = (if K_modTime a = K_modTime b then K_name a < K_name b else K_modTime a < K_modTime b)"

text \<open>The second loop: the oldest files go until both budgets hold.\<close>

fun evict :: "io \<Rightarrow> kept_file list \<Rightarrow> int \<Rightarrow> int \<Rightarrow> 'fp Spool \<Rightarrow> ('fp Spool \<times> int \<times> int) \<times> spool_error option" where
  "evict io [] tot cnt s = ((s, tot, cnt), None)"
| "evict io (f # fs) tot cnt s =
     (if tot \<le> Sp_maxBytes s \<and> cnt \<le> Sp_maxFiles s then ((s, tot, cnt), None)
      else
        let reason = (if tot > Sp_maxBytes s then EvictedBytes else EvictedFiles) in
        case Spool_remove io (K_name f) s of
          (s, Some err) \<Rightarrow> ((s, tot, cnt), Some err)
        | (s, None) \<Rightarrow> evict io fs (tot - K_size f) (cnt - 1) (countEviction reason s))"

definition Sweep :: "io \<Rightarrow> time \<Rightarrow> 'fp Spool \<Rightarrow> 'fp Spool \<times> spool_error option" where
  "Sweep io now s =
     (if io_list_fails io then (s, Some ListingFailed)
      else
        let cutoff = now - Sp_maxAge s; listing = entries (Sp_dir s);
            s = s\<lparr>Sp_cadence := prune cutoff (Sp_cadence s)\<rparr> in
        case fold_result (sweep_entry io now cutoff) listing \<lparr>scan_spool = s, scan_kept = [], scan_total = 0\<rparr> of
          (st, Some err) \<Rightarrow> (scan_spool st, Some err)
        | (st, None) \<Rightarrow>
            let s = scan_spool st; kept = scan_kept st; tot = scan_total st in
            if tot \<le> Sp_maxBytes s \<and> int (length kept) \<le> Sp_maxFiles s
            then (recordSweep tot (int (length kept)) s, None)
            else
              case evict io (sort_slice less_kept kept) tot (int (length kept)) s of
                ((s, _, _), Some err) \<Rightarrow> (s, Some err)
              | ((s, tot, cnt), None) \<Rightarrow> (recordSweep tot cnt s, None))"

section \<open>Writing\<close>

lemma tmp_name_suffix [simp]: "HasSuffix (tmp_name name) ''.tmp''"
  by (simp add: tmp_name_def)

lemma tmp_name_neq [simp]: "tmp_name name \<noteq> name" "name \<noteq> tmp_name name"
  by (simp_all add: tmp_name_def)

lemma count_frame [simp]:
  "Sp_dir (countWrite kind b s) = Sp_dir s" "Sp_dir (countSuppressed kind s) = Sp_dir s"
  "Sp_cadence (countWrite kind b s) = Sp_cadence s" "Sp_cadence (countSuppressed kind s) = Sp_cadence s"
  "Sp_dir (countEviction r s) = Sp_dir s" "Sp_maxBytes (countEviction r s) = Sp_maxBytes s"
  "Sp_maxFiles (countEviction r s) = Sp_maxFiles s"
  by (simp_all add: countWrite_def countSuppressed_def countEviction_def)

text \<open>What a payload looks like once it has landed.\<close>

definition landed :: "io \<Rightarrow> string \<Rightarrow> sfile" where
  "landed io bytes = \<lparr>F_data = bytes @ [CHR 0x0A], F_modTime = io_mtime io, F_isDir = False\<rparr>"

lemma publish_dir:
  assumes "publish io name data s = (s', err)"
  shows "n \<noteq> tmp_name name \<Longrightarrow> mget (Sp_dir s') n =
      (if n = name \<and> err = None then Some \<lparr>F_data = data, F_modTime = io_mtime io, F_isDir = False\<rparr> else mget (Sp_dir s) n)"
    and "err = None \<Longrightarrow> mget (Sp_dir s') (tmp_name name) = None"
    and "err = None \<longleftrightarrow> io_write_fails io (tmp_name name) = None \<and> \<not> io_rename_fails io (tmp_name name)"
    and "Sp_cadence s' = Sp_cadence s \<and> Sp_written s' = Sp_written s \<and> Sp_suppressed s' = Sp_suppressed s \<and>
      Sp_writeFailures s' = Sp_writeFailures s"
  using assms tmp_name_neq [of name]
  by (auto simp: publish_def Let_def split: option.splits if_splits)

section \<open>Properties of a write\<close>

text \<open>
  C2. A write is atomic whatever the operating system answers: after it, every file under a
  name other than a temporary one is either exactly what it was, or is the file of the
  payload's own name and holds the whole encoded payload; and a write that reports success
  without being suppressed has left its payload there and no temporary file.
\<close>

theorem Spool_write_atomic:
  assumes "Spool_write sha io now now' kind name marshalled s = (s', err)"
  shows "(\<forall>n. \<not> HasSuffix n ''.tmp'' \<longrightarrow> mget (Sp_dir s') n = mget (Sp_dir s) n \<or>
      (n = name \<and> (\<exists>bytes. marshalled = Some bytes \<and> mget (Sp_dir s') n = Some (landed io bytes)))) \<and>
    (err = None \<and> Sp_suppressed s' = Sp_suppressed s \<longrightarrow>
      (\<exists>bytes. marshalled = Some bytes \<and> plain_name name \<and>
        mget (Sp_dir s') name = Some (landed io bytes) \<and> mget (Sp_dir s') (tmp_name name) = None))"
proof -
  have sup: "Sp_suppressed (countSuppressed kind s) \<noteq> Sp_suppressed s"
  proof
    assume "Sp_suppressed (countSuppressed kind s) = Sp_suppressed s"
    then have "incr kind (Sp_suppressed s) = Sp_suppressed s" by (simp add: countSuppressed_def)
    then have "mget_or 0 (incr kind (Sp_suppressed s)) kind = mget_or 0 (Sp_suppressed s) kind" by simp
    then have "add64 (mget_or 0 (Sp_suppressed s) kind) 1 = mget_or 0 (Sp_suppressed s) kind" by (simp add: incr_def)
    then show False by (simp add: add64_one_neq)
  qed
  show ?thesis
  proof (cases "Lookup kind")
    case None
    then show ?thesis using assms by (auto simp: Spool_write_def)
  next
    case (Some entry)
    show ?thesis
    proof (cases "encodePayload name marshalled")
      case (Inl e)
      then show ?thesis using assms Some by (auto simp: Spool_write_def)
    next
      case (Inr data)
      then obtain bytes where b: "marshalled = Some bytes" "data = bytes @ [CHR 0x0A]" "plain_name name"
        by (auto simp: encodePayload_def split: if_splits option.splits)
      obtain fp d where d: "due sha name (PK_Cadence entry) data now (Sp_cadence s) = (fp, d)" by force
      obtain t e where p: "publish io name data s = (t, e)" by force
      have tmp: "n \<noteq> tmp_name name" if "\<not> HasSuffix n ''.tmp''" for n using that by auto
      show ?thesis
        using assms Some Inr b d p sup publish_dir [OF p] tmp tmp_name_neq(2) [of name]
        by (auto simp: Spool_write_def Let_def landed_def split: if_splits option.splits)
    qed
  qed
qed

text \<open>An environment in which every call succeeds.\<close>

definition no_faults :: "time \<Rightarrow> io" where
  "no_faults t = \<lparr>io_mkdir_fails = False, io_list_fails = False, io_info_fails = (\<lambda>_. False),
     io_write_fails = (\<lambda>_. None), io_rename_fails = (\<lambda>_. False), io_remove_fails = (\<lambda>_. False), io_mtime = t\<rparr>"

definition empty_spool :: "'fp Spool" where
  "empty_spool = (case NewSpool (no_faults 0) mempty 0 of Inr s \<Rightarrow> s)"

lemma empty_spool_sel [simp]:
  "Sp_dir empty_spool = mempty" "Sp_cadence empty_spool = mempty" "Sp_maxBytes empty_spool = DefaultMaxBytes"
  "Sp_maxFiles empty_spool = DefaultMaxFiles" "Sp_maxAge empty_spool = DefaultMaxAge"
  by (simp_all add: empty_spool_def NewSpool_def no_faults_def)

lemma Lookup_node_metadata:
  "\<exists>p. Lookup ''node_metadata'' = Some p \<and> PK_Cadence p = onChange"
  by (rule exI [of _ "the (Lookup ''node_metadata'')"]) code_simp

theorem Spool_write_atomic_witness:
  "mget (Sp_dir (fst (Spool_write (\<lambda>x. x) (no_faults 5) 5 5 ''node_metadata'' ''node-metadata.json'' (Some ''{}'') empty_spool)))
     ''node-metadata.json'' = Some (landed (no_faults 5) ''{}'')"
proof -
  obtain p where p: "Lookup ''node_metadata'' = Some p" "PK_Cadence p = onChange" using Lookup_node_metadata by blast
  have plain: "plain_name ''node-metadata.json''" by code_simp
  let ?w = "Spool_write (\<lambda>x. x) (no_faults 5) 5 5 ''node_metadata'' ''node-metadata.json'' (Some ''{}'') empty_spool"
  have "snd ?w = None \<and> Sp_suppressed (fst ?w) = Sp_suppressed (empty_spool :: string Spool)"
    by (simp add: Spool_write_def p encodePayload_def plain due_def onChange_def publish_def no_faults_def Let_def countWrite_def)
  then obtain s' where w: "?w = (s', None)" and sup: "Sp_suppressed s' = Sp_suppressed (empty_spool :: string Spool)"
    by (metis prod.collapse)
  show ?thesis using Spool_write_atomic [OF w] sup w by simp
qed

text \<open>
  Every payload offered under a registered kind is accounted for exactly once: it is
  written, or suppressed by the cadence without touching the directory, or counted as a
  failure with the error returned; and a kind without a row in the registry is refused and
  changes nothing.
\<close>

theorem Spool_write_accounts:
  assumes "Spool_write sha io now now' kind name marshalled s = (s', err)"
  shows "if Lookup kind = None then s' = s \<and> err = Some (UnknownKind kind)
    else (err = None \<and> Sp_written s' = incr kind (Sp_written s) \<and> Sp_suppressed s' = Sp_suppressed s
          \<and> Sp_writeFailures s' = Sp_writeFailures s)
       \<or> (err = None \<and> Sp_suppressed s' = incr kind (Sp_suppressed s) \<and> Sp_written s' = Sp_written s
          \<and> Sp_writeFailures s' = Sp_writeFailures s \<and> Sp_dir s' = Sp_dir s \<and> Sp_cadence s' = Sp_cadence s)
       \<or> (err \<noteq> None \<and> Sp_writeFailures s' = incr kind (Sp_writeFailures s) \<and> Sp_written s' = Sp_written s
          \<and> Sp_suppressed s' = Sp_suppressed s \<and> Sp_cadence s' = Sp_cadence s)"
proof (cases "Lookup kind")
  case None
  then show ?thesis using assms by (simp add: Spool_write_def)
next
  case (Some entry)
  show ?thesis
  proof (cases "encodePayload name marshalled")
    case (Inl e)
    then show ?thesis using assms Some by (auto simp: Spool_write_def countWrite_def)
  next
    case (Inr data)
    obtain fp d where d: "due sha name (PK_Cadence entry) data now (Sp_cadence s) = (fp, d)" by force
    obtain t e where p: "publish io name data s = (t, e)" by force
    show ?thesis
      using assms Some Inr d p publish_dir(4) [OF p]
      by (auto simp: Spool_write_def Let_def countWrite_def countSuppressed_def split: if_splits option.splits)
  qed
qed

theorem Spool_write_accounts_witness:
  "Spool_write (\<lambda>x. x) (no_faults 5) 5 5 ''nope'' ''nope.json'' (Some ''{}'') empty_spool = (empty_spool, Some (UnknownKind ''nope''))"
proof -
  have "Lookup ''nope'' = None" by code_simp
  then show ?thesis
    using Spool_write_accounts [of "\<lambda>x. x" "no_faults 5" 5 5 "''nope''" "''nope.json''" "Some ''{}''" empty_spool
        "fst (Spool_write (\<lambda>x. x) (no_faults 5) 5 5 ''nope'' ''nope.json'' (Some ''{}'') empty_spool)"
        "snd (Spool_write (\<lambda>x. x) (no_faults 5) 5 5 ''nope'' ''nope.json'' (Some ''{}'') empty_spool)"]
    by (auto simp: prod_eq_iff)
qed

end
