(* ===== verification/Histogram.thy ===== *)
theory Histogram
  imports GoStrings
begin

unbundle bit_operations_syntax

text \<open>
  The sparse logarithmic histogram of \<open>internal/rollup/histogram.go\<close>: a frozen grid of
  bucket boundaries \<open>anchor * 2 ^ (j / 8)\<close> in 32.32 fixed point, the bucket of a value, and
  observation, merge and the two halves of its JSON form.

  The lemmas show that \<open>Index\<close> is exactly the bucket whose boundaries enclose the value,
  that merging the histograms of two samples is the histogram of the two together, and
  that a histogram survives being written and read back.
\<close>

section \<open>Definitions\<close>

definition octaveSteps :: "nat list" where
  "octaveSteps =
    [4294967296, 4683695048, 5107605667, 5569883475,
     6074001000, 6623745059, 7223245206, 7877004752]"

definition fixedShift :: nat where "fixedShift = 32"
definition cpuAnchorShift :: nat where "cpuAnchorShift = 0"
definition memoryAnchorShift :: nat where "memoryAnchorShift = 20"

record Histogram =
  anchorShift :: nat
  counts :: "(int, nat) gomap"

definition NewCPUHistogram :: Histogram where
  "NewCPUHistogram = \<lparr>anchorShift = cpuAnchorShift, counts = mempty\<rparr>"

definition NewMemoryHistogram :: Histogram where
  "NewMemoryHistogram = \<lparr>anchorShift = memoryAnchorShift, counts = mempty\<rparr>"

definition bound :: "Histogram \<Rightarrow> int \<Rightarrow> nat" where
  "bound h j =
     (if j < 0 then 0
      else let shift = anchorShift h + nat j div 8 in
        if shift > 62 then maxUint64
        else let (hi, lo) = Mul64 (2 ^ shift) (octaveSteps ! (nat j mod 8)) in
          wrapu64 (hi * 2 ^ (64 - fixedShift)) OR (lo div 2 ^ fixedShift))"

text \<open>\<open>bits.Len64\<close>: the number of bits of a value.\<close>

fun Len64 :: "nat \<Rightarrow> nat" where
  "Len64 n = (if n = 0 then 0 else Suc (Len64 (n div 2)))"

declare Len64.simps [simp del]

fun index_loop :: "Histogram \<Rightarrow> nat \<Rightarrow> int \<Rightarrow> nat \<Rightarrow> int" where
  "index_loop h u q 0 = 8 * q + 1"
| "index_loop h u q (Suc m) =
     (let j = 8 * q + int (Suc m) in if bound h j \<le> u then j + 1 else index_loop h u q m)"

definition Index :: "Histogram \<Rightarrow> int \<Rightarrow> int" where
  "Index h v =
     (if v < 2 ^ anchorShift h then 0
      else let u = nat v; q = int (Len64 (u div 2 ^ anchorShift h)) - 1 in index_loop h u q 7)"

definition LowerBound :: "Histogram \<Rightarrow> int \<Rightarrow> nat" where
  "LowerBound h i = (if i \<le> 0 then 0 else bound h (i - 1))"

definition UpperBound :: "Histogram \<Rightarrow> int \<Rightarrow> nat" where
  "UpperBound h i = bound h i"

definition Histogram_Observe :: "int \<Rightarrow> Histogram \<Rightarrow> Histogram" where
  "Histogram_Observe v h = h\<lparr>counts := mupd 0 (\<lambda>c. addu64 c 1) (Index h v) (counts h)\<rparr>"

definition Histogram_Count :: "Histogram \<Rightarrow> nat" where
  "Histogram_Count h = fold (\<lambda>c n. addu64 n c) (mvalues (counts h)) 0"

definition Histogram_Counts :: "Histogram \<Rightarrow> (int, nat) gomap" where
  "Histogram_Counts h = fold (\<lambda>(i, c) out. mput i c out) (entries (counts h)) mempty"

datatype hist_error =
    DifferentAnchors
  | DecodeError
  | NoGrid
  | KeyNotBound string
  | BoundOutOfRange nat
  | NotOnGrid nat

definition Histogram_Merge :: "Histogram \<Rightarrow> Histogram \<Rightarrow> hist_error + Histogram" where
  "Histogram_Merge h o1 =
     (if anchorShift h \<noteq> anchorShift o1 then Inl DifferentAnchors
      else Inr (h\<lparr>counts :=
        fold (\<lambda>(i, c) m. if c \<noteq> 0 then mupd 0 (\<lambda>x. addu64 x c) i m else m)
          (entries (counts o1)) (counts h)\<rparr>))"

text \<open>
  \<open>MarshalJSON\<close> writes the occupied buckets in ascending order, each under its lower bound.
  \<open>UnmarshalJSON\<close> receives what \<open>json.Unmarshal\<close> made of the bytes: \<^const>\<open>None\<close> for an error,
  otherwise the map of keys to counts. A histogram without a grid, the zero value of the
  struct, is \<^const>\<open>None\<close> in the first argument.
\<close>

definition marshal_pairs :: "Histogram \<Rightarrow> (string \<times> nat) list" where
  "marshal_pairs h =
     map (\<lambda>i. (FormatUint (LowerBound h i), mget_or 0 (counts h) i)) (sort (mkeys (counts h)))"

fun json_members :: "(string \<times> nat) list \<Rightarrow> string" where
  "json_members [] = []"
| "json_members [(k, c)] = CHR 0x22 # k @ CHR 0x22 # CHR '':'' # FormatUint c"
| "json_members ((k, c) # ps) =
     CHR 0x22 # k @ CHR 0x22 # CHR '':'' # FormatUint c @ CHR '','' # json_members ps"

definition Histogram_MarshalJSON :: "Histogram \<Rightarrow> string" where
  "Histogram_MarshalJSON h = ''{'' @ json_members (marshal_pairs h) @ ''}''"

fun unmarshal_loop :: "Histogram \<Rightarrow> (string \<times> nat) list \<Rightarrow> hist_error + Histogram" where
  "unmarshal_loop h [] = Inr h"
| "unmarshal_loop h ((b, c) # ps) =
     (case ParseUint b of
        None \<Rightarrow> Inl (KeyNotBound b)
      | Some v \<Rightarrow>
          if int v > maxInt64 then Inl (BoundOutOfRange v)
          else let i = Index h (int v) in
            if LowerBound h i \<noteq> v then Inl (NotOnGrid v)
            else unmarshal_loop (h\<lparr>counts := mupd 0 (\<lambda>x. addu64 x c) i (counts h)\<rparr>) ps)"

definition Histogram_UnmarshalJSON ::
    "Histogram option \<Rightarrow> (string, nat) gomap option \<Rightarrow> hist_error + Histogram" where
  "Histogram_UnmarshalJSON grid raw =
     (case raw of
        None \<Rightarrow> Inl DecodeError
      | Some m \<Rightarrow> (case grid of None \<Rightarrow> Inl NoGrid | Some h \<Rightarrow> unmarshal_loop h (entries m)))"

definition Histogram_clone :: "Histogram \<Rightarrow> Histogram" where
  "Histogram_clone h = \<lparr>anchorShift = anchorShift h,
     counts = fold (\<lambda>(i, c) m. mput i c m) (entries (counts h)) mempty\<rparr>"

section \<open>The grid\<close>

text \<open>The boundary \<open>j\<close> of the grid with anchor \<open>2 ^ a\<close>.\<close>

definition grid :: "nat \<Rightarrow> nat \<Rightarrow> nat" where
  "grid a j = (if a + j div 8 > 62 then maxUint64
     else 2 ^ (a + j div 8) * octaveSteps ! (j mod 8) div 2 ^ 32)"

lemma octave_cases: "m < 8 \<Longrightarrow> m = 0 \<or> m = 1 \<or> m = 2 \<or> m = 3 \<or> m = 4 \<or> m = 5 \<or> m = 6 \<or> m = (7::nat)"
  by arith

lemma octave_range: "m < 8 \<Longrightarrow> 2 ^ 32 \<le> octaveSteps ! m \<and> octaveSteps ! m < 2 ^ 33"
  using octave_cases [of m] by (auto simp: octaveSteps_def)

lemma octave_Suc: "m < 7 \<Longrightarrow> octaveSteps ! m \<le> octaveSteps ! Suc m"
  using octave_cases [of m] by (auto simp: octaveSteps_def)

lemma octave_ratio: "m < 7 \<Longrightarrow> 100000 * octaveSteps ! Suc m \<le> 109051 * octaveSteps ! m"
  using octave_cases [of m] by (auto simp: octaveSteps_def)

lemma octave_0 [simp]: "octaveSteps ! 0 = 2 ^ 32"
  by (simp add: octaveSteps_def)

lemma octave_7: "octaveSteps ! 7 = 7877004752"
  by (simp add: octaveSteps_def)

lemma shift_or:
  fixes hi lo :: nat
  assumes "lo < 2 ^ 32"
  shows "(hi * 2 ^ 32) OR lo = hi * 2 ^ 32 + lo"
proof -
  have "\<not> bit (push_bit 32 hi) n \<or> \<not> bit lo n" for n
    using assms by (metis bit_push_bit_iff bit_take_bit_iff not_le take_bit_nat_eq_self_iff)
  then have "push_bit 32 hi + lo = push_bit 32 hi OR lo"
    by (rule disjunctive_add)
  then show ?thesis by (simp add: push_bit_eq_mult)
qed

lemma bound_grid: "bound h (int j) = grid (anchorShift h) j"
proof (cases "anchorShift h + j div 8 > 62")
  case True
  then show ?thesis by (simp add: bound_def grid_def Let_def)
next
  case False
  define s P where "s = anchorShift h + j div 8" and "P = 2 ^ s * octaveSteps ! (j mod 8)"
  have s: "s \<le> 62" using False by (simp add: s_def)
  have "P < 2 ^ 62 * 2 ^ 33"
    unfolding P_def using octave_range [of "j mod 8"] power_increasing [OF s, of "2 :: nat"]
    by (intro mult_le_less_imp_less) simp_all
  then have hi: "P div 2 ^ 64 < 2 ^ 31" by (simp add: less_mult_imp_div_less)
  have lo: "P mod 2 ^ 64 div 2 ^ 32 < 2 ^ 32" by (simp add: less_mult_imp_div_less)
  have "bound h (int j) = wrapu64 (P div 2 ^ 64 * 2 ^ 32) OR (P mod 2 ^ 64 div 2 ^ 32)"
    using False by (simp add: bound_def Mul64_def fixedShift_def s_def P_def Let_def)
  also have "\<dots> = P div 2 ^ 64 * 2 ^ 32 + P mod 2 ^ 64 div 2 ^ 32"
    using hi shift_or [OF lo, of "P div 2 ^ 64"] by (simp add: wrapu64_id)
  also have "\<dots> = P div 2 ^ 32"
  proof -
    have "P = (P div 2 ^ 64 * 2 ^ 32) * 2 ^ 32 + P mod 2 ^ 64"
      by (simp add: mult.assoc flip: power_add)
    then show ?thesis by (metis div_mult_self3 zero_neq_numeral power_not_zero add.commute)
  qed
  finally show ?thesis using False by (simp add: grid_def P_def s_def)
qed

lemma grid_le_max: "grid a j \<le> maxUint64"
proof (cases "a + j div 8 > 62")
  case False
  have "2 ^ (a + j div 8) * octaveSteps ! (j mod 8) \<le> 2 ^ 62 * 2 ^ 33"
    using octave_range [of "j mod 8"] False power_increasing [of "a + j div 8" 62 "2 :: nat"]
    by (intro mult_le_mono) simp_all
  then have "2 ^ (a + j div 8) * octaveSteps ! (j mod 8) div 2 ^ 32 \<le> 2 ^ 62 * 2 ^ 33 div 2 ^ 32"
    by (rule div_le_mono)
  then show ?thesis using False by (simp add: grid_def maxUint64_def)
qed (simp add: grid_def)

lemma grid_Suc: "grid a j \<le> grid a (Suc j)"
proof (cases "a + Suc j div 8 > 62")
  case True
  then show ?thesis using grid_le_max [of a j] by (simp add: grid_def [of a "Suc j"])
next
  case False
  have j: "a + j div 8 \<le> 62" using False div_le_mono [of j "Suc j" 8] by simp
  have "2 ^ (a + j div 8) * octaveSteps ! (j mod 8)
      \<le> 2 ^ (a + Suc j div 8) * octaveSteps ! (Suc j mod 8)"
  proof (cases "j mod 8 = 7")
    case True
    then have "Suc j div 8 = Suc (j div 8)" "Suc j mod 8 = 0"
      by (simp_all add: div_Suc mod_Suc)
    with True show ?thesis by (simp add: octave_7)
  next
    case *: False
    then have "Suc j div 8 = j div 8" "Suc j mod 8 = Suc (j mod 8)" "j mod 8 < 7"
      by (auto simp: div_Suc mod_Suc)
    then show ?thesis using octave_Suc [of "j mod 8"] by simp
  qed
  then show ?thesis using False j by (simp add: grid_def div_le_mono)
qed

lemma grid_mono: "i \<le> j \<Longrightarrow> grid a i \<le> grid a j"
  by (rule lift_Suc_mono_le [of "grid a"]) (rule grid_Suc)

lemma grid_octave: "a + q \<le> 62 \<Longrightarrow> grid a (8 * q) = 2 ^ (a + q)"
  by (simp add: grid_def)

lemma bound_mono: "i \<le> j \<Longrightarrow> bound h i \<le> bound h j"
proof (cases "i < 0")
  case False
  moreover assume "i \<le> j"
  ultimately have "i = int (nat i)" "j = int (nat j)" "nat i \<le> nat j" by auto
  then show ?thesis by (metis bound_grid grid_mono)
qed (simp add: bound_def)

section \<open>The bucket of a value\<close>

lemma Len64_bounds: "0 < n \<Longrightarrow> 2 ^ (Len64 n - 1) \<le> n \<and> n < 2 ^ Len64 n \<and> 0 < Len64 n"
proof (induction n rule: Len64.induct)
  case (1 n)
  show ?case
  proof (cases "n div 2 = 0")
    case True
    then have "n = 1" using 1 by linarith
    then show ?thesis by (simp add: Len64.simps)
  next
    case False
    let ?m = "n div 2"
    have IH: "2 ^ (Len64 ?m - 1) \<le> ?m \<and> ?m < 2 ^ Len64 ?m \<and> 0 < Len64 ?m"
      using 1 False by simp
    have L: "Len64 n = Suc (Len64 ?m)" using 1 by (simp add: Len64.simps [of n])
    have "2 * 2 ^ (Len64 ?m - 1) = (2 :: nat) ^ Len64 ?m"
      using IH by (metis Suc_pred' power_Suc)
    then have "2 ^ Len64 ?m \<le> n" and "n < 2 * 2 ^ Len64 ?m"
      using IH by linarith+
    then show ?thesis using L by simp
  qed
qed

text \<open>The loop returns one past the highest boundary of the octave not above the value.\<close>

lemma index_loop_spec:
  assumes "m \<le> 7" and "bound h (8 * q) \<le> u" and "u < bound h (8 * q + int m + 1)"
  shows "bound h (index_loop h u q m - 1) \<le> u \<and> u < bound h (index_loop h u q m) \<and>
    8 * q + 1 \<le> index_loop h u q m"
  using assms by (induction m) (auto simp: Let_def algebra_simps)

lemma Index_spec:
  assumes "anchorShift h \<le> 62" and "0 \<le> v" and "v \<le> maxInt64"
  shows "LowerBound h (Index h v) \<le> nat v \<and> nat v < UpperBound h (Index h v) \<and> 0 \<le> Index h v"
proof (cases "v < 2 ^ anchorShift h")
  case True
  then have "nat v < 2 ^ anchorShift h" using assms(2) by (simp add: nat_less_iff)
  moreover have "bound h 0 = 2 ^ anchorShift h"
    using bound_grid [of h 0] grid_octave [of "anchorShift h" 0] assms(1) by simp
  ultimately show ?thesis
    using True by (simp add: Index_def LowerBound_def UpperBound_def)
next
  case False
  define a u where "a = anchorShift h" and "u = nat v"
  have u: "2 ^ a \<le> u" "u < 2 ^ 63"
    using False assms by (simp_all add: a_def u_def maxInt64_def nat_less_iff le_nat_iff)
  define n where "n = u div 2 ^ a"
  have npos: "0 < n" using u(1) by (simp add: n_def div_greater_zero_iff)
  define q where "q = Len64 n - 1"
  have nq: "2 ^ q \<le> n" "n < 2 ^ Suc q" and qL: "int q = int (Len64 n) - 1"
    using Len64_bounds [OF npos] by (auto simp: q_def)
  have low: "2 ^ (a + q) \<le> u"
    using nq(1) by (simp add: n_def power_add less_eq_div_iff_mult_less_eq mult.commute)
  have high: "u < 2 ^ (a + Suc q)"
    using nq(2) by (simp add: n_def div_less_iff_less_mult power_add mult.commute)
  have aq: "a + q \<le> 62"
  proof (rule ccontr)
    assume "\<not> ?thesis"
    then have "(2 :: nat) ^ 63 \<le> 2 ^ (a + q)" by (intro power_increasing) auto
    then show False using low u(2) by linarith
  qed
  have b0: "bound h (8 * int q) \<le> u"
    using bound_grid [of h "8 * q"] grid_octave [of a q] aq low by (simp add: a_def)
  have b8: "u < bound h (8 * int q + 7 + 1)"
  proof (cases "a + Suc q \<le> 62")
    case True
    then show ?thesis
      using bound_grid [of h "8 * Suc q"] grid_octave [of a "Suc q"] high by (simp add: a_def algebra_simps)
  next
    case *: False
    then have "bound h (8 * int q + 7 + 1) = maxUint64"
      using bound_grid [of h "8 * Suc q"] by (simp add: grid_def a_def algebra_simps)
    then show ?thesis using u(2) by (simp add: maxUint64_def)
  qed
  have "Index h v = index_loop h u (int q) 7"
    using False qL by (simp add: Index_def Let_def a_def u_def n_def)
  then show ?thesis
    using index_loop_spec [of 7 h "int q" u] b0 b8
    by (simp add: LowerBound_def UpperBound_def u_def)
qed

lemma Index_unique:
  assumes "anchorShift h \<le> 62" and "0 \<le> v" and "v \<le> maxInt64"
    and "0 \<le> i" and "LowerBound h i \<le> nat v" and "nat v < UpperBound h i"
  shows "Index h v = i"
proof (rule ccontr)
  let ?k = "Index h v"
  have k: "LowerBound h ?k \<le> nat v" "nat v < UpperBound h ?k" "0 \<le> ?k"
    using Index_spec [OF assms(1,2,3)] by auto
  assume "?k \<noteq> i"
  then consider "?k < i" | "i < ?k" by linarith
  then show False
  proof cases
    case 1
    then have "UpperBound h ?k \<le> LowerBound h i"
      using k(3) by (simp add: UpperBound_def LowerBound_def bound_mono)
    then show False using k(2) assms(5) by linarith
  next
    case 2
    then have "UpperBound h i \<le> LowerBound h ?k"
      using assms(4) by (simp add: UpperBound_def LowerBound_def bound_mono)
    then show False using k(1) assms(6) by linarith
  qed
qed

text \<open>The buckets a value can fall into: the indices that are occupied.\<close>

definition bucket :: "Histogram \<Rightarrow> int \<Rightarrow> bool" where
  "bucket h i \<longleftrightarrow> 0 \<le> i \<and> LowerBound h i < UpperBound h i \<and> int (LowerBound h i) \<le> maxInt64"

lemma bucket_Index: "anchorShift h \<le> 62 \<Longrightarrow> 0 \<le> v \<Longrightarrow> v \<le> maxInt64 \<Longrightarrow> bucket h (Index h v)"
  using Index_spec [of h v] by (auto simp: bucket_def)

lemma Index_LowerBound: "anchorShift h \<le> 62 \<Longrightarrow> bucket h i \<Longrightarrow> Index h (int (LowerBound h i)) = i"
  by (rule Index_unique) (auto simp: bucket_def)

section \<open>Observation and merge\<close>

lemma bound_counts [simp]: "bound (h\<lparr>counts := m\<rparr>) j = bound h j"
  by (simp add: bound_def)

lemma LowerBound_counts [simp]: "LowerBound (h\<lparr>counts := m\<rparr>) i = LowerBound h i"
  by (simp add: LowerBound_def)

lemma UpperBound_counts [simp]: "UpperBound (h\<lparr>counts := m\<rparr>) i = UpperBound h i"
  by (simp add: UpperBound_def)

lemma bucket_counts [simp]: "bucket (h\<lparr>counts := m\<rparr>) i = bucket h i"
  by (simp add: bucket_def)

lemma index_loop_counts [simp]: "index_loop (h\<lparr>counts := m\<rparr>) u q n = index_loop h u q n"
  by (induction n) (simp_all add: Let_def)

lemma Index_counts [simp]: "Index (h\<lparr>counts := m\<rparr>) v = Index h v"
  by (simp add: Index_def)

lemma Index_anchor: "anchorShift h = anchorShift g \<Longrightarrow> Index h = Index g"
proof
  fix v
  assume "anchorShift h = anchorShift g"
  then have "h = g\<lparr>counts := counts h\<rparr>" by (intro Histogram.equality) simp_all
  then show "Index h v = Index g v" by (metis Index_counts)
qed

lemma fold_Histogram_Observe:
  "fold Histogram_Observe vs h =
     h\<lparr>counts := add_counts (map (\<lambda>v. (Index h v, Suc 0)) vs) (counts h)\<rparr>"
  by (induction vs arbitrary: h) (simp_all add: Histogram_Observe_def add_counts_def)

text \<open>The number of values of a list in one bucket.\<close>

definition occurrences :: "Histogram \<Rightarrow> int list \<Rightarrow> int \<Rightarrow> nat" where
  "occurrences h vs i = length (filter (\<lambda>v. Index h v = i) vs)"

lemma sum_occurrences:
  "sum_list (map snd (filter (\<lambda>p. fst p = i) (map (\<lambda>v. (Index h v, Suc 0)) vs))) = occurrences h vs i"
  by (induction vs) (simp_all add: occurrences_def)

lemma occurrences_le: "occurrences h vs i \<le> length vs"
  by (simp add: occurrences_def)

lemma occurrences_0: "occurrences h vs i = 0 \<longleftrightarrow> i \<notin> set (map (Index h) vs)"
  by (auto simp: occurrences_def filter_empty_conv)

definition small_counts :: "Histogram \<Rightarrow> bool" where
  "small_counts h \<longleftrightarrow> (\<forall>c \<in> set (mvalues (counts h)). c < 2 ^ 64)"

lemma small_countsD: "small_counts h \<Longrightarrow> mget_or 0 (counts h) i < 2 ^ 64"
  by (auto simp: small_counts_def mvalues_iff mget_or_def split: option.splits)

lemma small_counts_add:
  assumes "small_counts h"
  shows "small_counts (h\<lparr>counts := add_counts ps (counts h)\<rparr>)"
proof -
  have "c < 2 ^ 64" if "mget (add_counts ps (counts h)) i = Some c" for i c
    using that mget_or_add_counts [OF small_countsD [OF assms, of i], of ps]
    by (simp add: mget_or_def)
  then show ?thesis by (auto simp: small_counts_def mvalues_iff)
qed

lemma Histogram_Merge_add:
  "anchorShift h = anchorShift g \<Longrightarrow> Histogram_Merge h g =
     Inr (h\<lparr>counts := add_counts (filter (\<lambda>p. snd p \<noteq> 0) (entries (counts g))) (counts h)\<rparr>)"
proof -
  have "fold (\<lambda>(i, c) m. if c \<noteq> 0 then mupd 0 (\<lambda>x. addu64 x c) i m else m) ps m =
      add_counts (filter (\<lambda>p. snd p \<noteq> 0) ps) m" for ps :: "(int \<times> nat) list" and m
    by (induction ps arbitrary: m) (auto simp: add_counts_def)
  then show "anchorShift h = anchorShift g \<Longrightarrow> ?thesis" by (simp add: Histogram_Merge_def)
qed

lemma sum_filter_nonzero:
  fixes ps :: "('k \<times> nat) list"
  shows "sum_list (map snd (filter (\<lambda>p. fst p = k) (filter (\<lambda>p. snd p \<noteq> 0) ps))) =
    sum_list (map snd (filter (\<lambda>p. fst p = k) ps))"
  by (induction ps) auto

text \<open>Merging the histogram of a sample is observing the sample.\<close>

lemma Histogram_Merge_sample:
  assumes "anchorShift h = a" and "small_counts h" and "length vs < 2 ^ 64"
  shows "Histogram_Merge h (fold Histogram_Observe vs \<lparr>anchorShift = a, counts = mempty\<rparr>) =
    Inr (fold Histogram_Observe vs h)"
proof -
  let ?e = "\<lparr>anchorShift = a, counts = mempty\<rparr>"
  let ?ps = "map (\<lambda>v. (Index h v, Suc 0)) vs"
  let ?g = "add_counts ?ps mempty"
  have ix: "Index ?e = Index h"
    by (rule Index_anchor) (simp add: assms(1))
  have val: "mget_or 0 ?g i = occurrences h vs i" for i
    using occurrences_le [of h vs i] assms(3)
    by (subst mget_or_add_counts) (simp_all add: sum_occurrences wrapu64_id)
  have nz: "i \<in> set (map fst (filter (\<lambda>p. snd p \<noteq> 0) (entries ?g))) \<longleftrightarrow> occurrences h vs i \<noteq> 0" for i
    unfolding nonzero_entries val ..
  have "add_counts (filter (\<lambda>p. snd p \<noteq> 0) (entries ?g)) (counts h) = add_counts ?ps (counts h)"
  proof (rule gomap_eqI_or [where z = 0])
    fix i
    show "mget (add_counts (filter (\<lambda>p. snd p \<noteq> 0) (entries ?g)) (counts h)) i = None \<longleftrightarrow>
        mget (add_counts ?ps (counts h)) i = None"
      using nz [of i] occurrences_0 [of h vs i] unfolding mget_add_counts_None
      by (simp add: image_image)
    show "mget_or 0 (add_counts (filter (\<lambda>p. snd p \<noteq> 0) (entries ?g)) (counts h)) i =
        mget_or 0 (add_counts ?ps (counts h)) i"
      using small_countsD [OF assms(2), of i]
      by (simp only: mget_or_add_counts sum_filter_nonzero sum_filter_entries sum_occurrences val)
  qed
  then show ?thesis
    using assms(1) by (simp add: ix Histogram_Merge_add fold_Histogram_Observe)
qed

lemma Histogram_Count_eq: "Histogram_Count h = wrapu64 (sum_list (mvalues (counts h)))"
proof -
  have "fold (\<lambda>c n. addu64 n c) cs n = wrapu64 (n + sum_list cs)" if "n < 2 ^ 64" for cs n
    using that by (induction cs arbitrary: n) (simp_all add: wrapu64_id addu64_def int64_simps add.assoc)
  then show ?thesis by (simp add: Histogram_Count_def)
qed

lemma Histogram_Count_Observe:
  assumes "small_counts h" and "mget_or 0 (counts h) (Index h v) + 1 < 2 ^ 64"
  shows "Histogram_Count (Histogram_Observe v h) = addu64 (Histogram_Count h) 1"
proof -
  let ?c = "mget_or 0 (counts h) (Index h v)"
  have "sum_list (map snd (upd_sorted (Index h v) (?c + 1) (entries (counts h)))) =
      sum_list (map snd (entries (counts h))) + 1"
    using sum_upd_sorted [OF entries_sorted [of "counts h"], of "Index h v" "?c + 1"]
    by (simp add: mget_or_def mget.rep_eq)
  then show ?thesis
    using assms(2)
    by (simp add: Histogram_Count_eq Histogram_Observe_def mvalues_def mupd_def addu64_def
        wrapu64_id int64_simps)
qed

section \<open>JSON\<close>

text \<open>A histogram as observation makes it: every occupied index is a bucket of its grid.\<close>

definition hist_ok :: "Histogram \<Rightarrow> bool" where
  "hist_ok h \<longleftrightarrow> anchorShift h \<le> 62 \<and>
     (\<forall>(i, c) \<in> set (entries (counts h)). bucket h i \<and> c < 2 ^ 64)"

definition parsed_index :: "Histogram \<Rightarrow> string \<Rightarrow> int" where
  "parsed_index h b = Index h (int (the (ParseUint b)))"

lemma parsed_index_counts [simp]: "parsed_index (h\<lparr>counts := m\<rparr>) b = parsed_index h b"
  by (simp add: parsed_index_def)

lemma bucket_text:
  assumes "anchorShift h \<le> 62" and "bucket h i"
  shows "ParseUint (FormatUint (LowerBound h i)) = Some (LowerBound h i)"
    and "parsed_index h (FormatUint (LowerBound h i)) = i"
proof -
  have "LowerBound h i < 2 ^ 64"
    using assms(2) by (simp add: bucket_def maxInt64_def)
  then show p: "ParseUint (FormatUint (LowerBound h i)) = Some (LowerBound h i)"
    by (rule ParseUint_FormatUint)
  show "parsed_index h (FormatUint (LowerBound h i)) = i"
    using Index_LowerBound [OF assms] by (simp add: parsed_index_def p)
qed

lemma unmarshal_loop_buckets:
  assumes "anchorShift h \<le> 62"
    and "\<forall>b \<in> set (map fst ps). \<exists>i. bucket h i \<and> b = FormatUint (LowerBound h i)"
  shows "unmarshal_loop h ps =
    Inr (h\<lparr>counts := add_counts (map (\<lambda>(b, c). (parsed_index h b, c)) ps) (counts h)\<rparr>)"
  using assms
proof (induction h ps rule: unmarshal_loop.induct)
  case (1 h)
  then show ?case by (simp add: add_counts_def)
next
  case (2 h b c ps)
  obtain i where i: "bucket h i" "b = FormatUint (LowerBound h i)" using 2 by auto
  have p: "ParseUint b = Some (LowerBound h i)" and ix: "parsed_index h b = i"
    using bucket_text [OF 2(2) i(1)] i(2) by auto
  then have I: "Index h (int (LowerBound h i)) = i" by (simp add: parsed_index_def)
  have le: "int (LowerBound h i) \<le> maxInt64" using i(1) by (simp add: bucket_def)
  then have "unmarshal_loop h ((b, c) # ps) =
      unmarshal_loop (h\<lparr>counts := mupd 0 (\<lambda>x. addu64 x c) i (counts h)\<rparr>) ps"
    using p I by (simp add: Let_def)
  also have "\<dots> = Inr (h\<lparr>counts := add_counts (map (\<lambda>(b, c). (parsed_index h b, c)) ps)
      (mupd 0 (\<lambda>x. addu64 x c) i (counts h))\<rparr>)"
    using 2(1) [OF p _ I [symmetric]] 2(2,3) le by simp
  finally show ?case by (simp add: ix add_counts_def)
qed

lemma json_roundtrip:
  assumes "hist_ok h"
  shows "Histogram_UnmarshalJSON (Some (h\<lparr>counts := mempty\<rparr>))
      (Some (fold (\<lambda>(k, c). mput k c) (marshal_pairs h) mempty)) = Inr h"
proof -
  let ?e = "h\<lparr>counts := mempty\<rparr>" and ?t = "\<lambda>i. FormatUint (LowerBound h i)"
  let ?ps = "marshal_pairs h" and ?ix = "\<lambda>(b, c). (parsed_index h b, c)"
  define raw where "raw = fold (\<lambda>(k, c). mput k c) ?ps mempty"
  have a: "anchorShift h \<le> 62" using assms by (simp add: hist_ok_def)
  have bk: "bucket h i" if "i \<in> set (mkeys (counts h))" for i
    using assms that by (auto simp: hist_ok_def mkeys_def)
  have ps: "?ps = map (\<lambda>i. (?t i, mget_or 0 (counts h) i)) (mkeys (counts h))"
    by (simp add: marshal_pairs_def sort_key_id_if_sorted)
  have keys: "map ?ix ?ps = entries (counts h)"
  proof -
    have "map ?ix ?ps = map (\<lambda>i. (i, mget_or 0 (counts h) i)) (mkeys (counts h))"
      unfolding ps using bk bucket_text(2) [OF a] by simp
    then show ?thesis by (simp add: map_mkeys_entries)
  qed
  have "inj_on ?t (set (mkeys (counts h)))"
    by (rule inj_on_inverseI [where g = "parsed_index h"]) (simp add: bk bucket_text(2) [OF a])
  then have d: "distinct (map fst ?ps)"
    by (simp add: ps comp_def distinct_map)
  then have raw_mget: "mget raw b = map_of ?ps b" for b
    by (simp add: raw_def mget_fold_mput split: option.splits)
  have "set (entries raw) = set ?ps"
    using d by (auto simp: raw_mget simp flip: mget_entries)
  then have m: "mset (entries raw) = mset ?ps"
    using d by (metis distinct_map entries_distinct_pairs set_eq_iff_mset_eq_distinct)
  have "unmarshal_loop ?e (entries raw) =
      Inr (?e\<lparr>counts := add_counts (map (\<lambda>(b, c). (parsed_index ?e b, c)) (entries raw)) (counts ?e)\<rparr>)"
  proof (rule unmarshal_loop_buckets)
    show "\<forall>b \<in> set (map fst (entries raw)). \<exists>i. bucket ?e i \<and> b = FormatUint (LowerBound ?e i)"
      unfolding \<open>set (entries raw) = set ?ps\<close> set_map using bk by (auto simp: ps)
  qed (simp add: a)
  also have "\<dots> = Inr (h\<lparr>counts := add_counts (map ?ix (entries raw)) mempty\<rparr>)"
    by (simp add: parsed_index_def)
  also have "add_counts (map ?ix (entries raw)) mempty = add_counts (entries (counts h)) mempty"
    using m by (intro add_counts_mset) (simp_all flip: keys)
  also have "\<dots> = counts h"
    using assms by (intro add_counts_entries) (auto simp: hist_ok_def mget_entries)
  finally show ?thesis by (simp add: Histogram_UnmarshalJSON_def raw_def)
qed

lemma hist_ok_New [simp]: "hist_ok NewCPUHistogram" "hist_ok NewMemoryHistogram"
  by (simp_all add: hist_ok_def NewCPUHistogram_def NewMemoryHistogram_def cpuAnchorShift_def
      memoryAnchorShift_def)

lemma hist_ok_Observe:
  assumes "hist_ok h" and "0 \<le> v" and "v \<le> maxInt64"
  shows "hist_ok (Histogram_Observe v h)"
proof -
  have "bucket h i \<and> c < 2 ^ 64"
    if "mget (counts (Histogram_Observe v h)) i = Some c" for i c
    using that assms bucket_Index [of h v] wrapu64_less
    by (auto simp: Histogram_Observe_def hist_ok_def addu64_def mget_entries split: if_splits)
  then show ?thesis
    using assms(1) by (auto simp: hist_ok_def Histogram_Observe_def simp flip: mget_entries)
qed

lemma small_counts_hist_ok: "hist_ok h \<Longrightarrow> small_counts h"
  by (auto simp: hist_ok_def small_counts_def mvalues_def)

lemma small_counts_New [simp]: "small_counts NewCPUHistogram" "small_counts NewMemoryHistogram"
  by (simp_all add: small_counts_hist_ok)

lemma small_counts_Observe: "small_counts h \<Longrightarrow> small_counts (fold Histogram_Observe vs h)"
  by (simp add: fold_Histogram_Observe small_counts_add)

lemma grid_ratio:
  assumes "a + Suc j div 8 \<le> 62"
  shows "100000 * grid a (Suc j) \<le> 109051 * (grid a j + 1)"
proof -
  define x y where "x = 2 ^ (a + j div 8) * octaveSteps ! (j mod 8)"
    and "y = 2 ^ (a + Suc j div 8) * octaveSteps ! (Suc j mod 8)"
  have le: "100000 * y \<le> 109051 * x"
  proof (cases "j mod 8 = 7")
    case True
    then have "Suc j div 8 = Suc (j div 8)" "Suc j mod 8 = 0" by (simp_all add: div_Suc mod_Suc)
    with True show ?thesis by (simp add: x_def y_def octave_7)
  next
    case False
    then have "Suc j div 8 = j div 8" "Suc j mod 8 = Suc (j mod 8)" "j mod 8 < 7"
      by (auto simp: div_Suc mod_Suc)
    then show ?thesis
      using octave_ratio [of "j mod 8"] by (simp add: x_def y_def mult.left_commute)
  qed
  have j: "a + j div 8 \<le> 62" using assms div_le_mono [of j "Suc j" 8] by simp
  have "y div 2 ^ 32 * 2 ^ 32 \<le> y" by (rule div_times_less_eq_dividend)
  moreover have "x < (x div 2 ^ 32 + 1) * 2 ^ 32" by (simp add: dividend_less_div_times)
  ultimately have "100000 * (y div 2 ^ 32) \<le> 109051 * (x div 2 ^ 32 + 1)"
    using le by simp
  then show ?thesis using assms j by (simp add: grid_def x_def y_def)
qed

section \<open>Properties\<close>



text \<open>
  The resolution of the grid: below the point where the grid saturates, the upper edge
  of a bucket is at most 9.051 percent above its lower edge, up to one unit of rounding.
\<close>

theorem bucket_width:
  assumes "0 < i" and "anchorShift h + nat i div 8 \<le> 62"
  shows "100000 * UpperBound h i \<le> 109051 * (LowerBound h i + 1)"
proof -
  define j where "j = nat i - 1"
  have i: "i = 1 + int j" using assms(1) by (simp add: j_def)
  then have "nat i = Suc j" by simp
  then show ?thesis
    using assms grid_ratio [of "anchorShift h" j] bound_grid [of h "Suc j"] bound_grid [of h j]
    by (simp add: LowerBound_def UpperBound_def i)
qed

theorem bucket_width_witness:
  "0 < (300 :: int) \<and>
   100000 * UpperBound NewMemoryHistogram 300 \<le> 109051 * (LowerBound NewMemoryHistogram 300 + 1)"
proof -
  have "anchorShift NewMemoryHistogram + nat 300 div 8 \<le> 62"
    by (simp add: NewMemoryHistogram_def memoryAnchorShift_def)
  then show ?thesis using bucket_width [of 300 NewMemoryHistogram] by simp
qed

text \<open>
  The merge property of the histograms: folding the histogram of a sample into any
  histogram on the same grid gives, bucket for bucket, the histogram that observing the
  sample itself would have given; merging onto another grid is refused.
\<close>

theorem Histogram_Merge_is_observation:
  assumes "small_counts h" and "length vs < 2 ^ 64"
  shows "Histogram_Merge h (fold Histogram_Observe vs \<lparr>anchorShift = a, counts = mempty\<rparr>) =
    (if anchorShift h = a then Inr (fold Histogram_Observe vs h) else Inl DifferentAnchors)"
  using Histogram_Merge_sample [OF _ assms(1,2), of a]
  by (simp add: Histogram_Merge_def fold_Histogram_Observe)

theorem Histogram_Merge_is_observation_witness:
  "small_counts (Histogram_Observe 500 NewCPUHistogram) \<and>
   Histogram_Merge (Histogram_Observe 500 NewCPUHistogram)
     (fold Histogram_Observe [500, 7] \<lparr>anchorShift = 0, counts = mempty\<rparr>) =
   Inr (fold Histogram_Observe [500, 500, 7] NewCPUHistogram)"
proof -
  have s: "small_counts (Histogram_Observe 500 NewCPUHistogram)"
    using small_counts_Observe [of NewCPUHistogram "[500]"] by simp
  show ?thesis
    using s Histogram_Merge_is_observation [OF s, of "[500, 7]" 0]
    by (simp add: Histogram_Observe_def NewCPUHistogram_def cpuAnchorShift_def)
qed

text \<open>
  A histogram survives the spool: reading back what \<open>MarshalJSON\<close> wrote, onto an empty
  histogram of the same grid, gives the histogram, for every histogram built by observation.
\<close>

theorem Histogram_json_roundtrip:
  assumes "a \<le> 62" and "\<forall>v \<in> set vs. 0 \<le> v \<and> v \<le> maxInt64"
    and "h = fold Histogram_Observe vs \<lparr>anchorShift = a, counts = mempty\<rparr>"
  shows "Histogram_UnmarshalJSON (Some \<lparr>anchorShift = a, counts = mempty\<rparr>)
      (Some (fold (\<lambda>(k, c). mput k c) (marshal_pairs h) mempty)) = Inr h"
proof -
  have "hist_ok (fold Histogram_Observe vs g)" if "hist_ok g" for g
    using that assms(2) by (induction vs arbitrary: g) (simp_all add: hist_ok_Observe)
  then have "hist_ok h" using assms(1,3) by (simp add: hist_ok_def)
  moreover have "h\<lparr>counts := mempty\<rparr> = \<lparr>anchorShift = a, counts = mempty\<rparr>"
    by (simp add: assms(3) fold_Histogram_Observe)
  ultimately show ?thesis using json_roundtrip [of h] by simp
qed

theorem Histogram_json_roundtrip_witness:
  "Histogram_UnmarshalJSON (Some NewCPUHistogram) (Some (fold (\<lambda>(k, c). mput k c)
       (marshal_pairs (fold Histogram_Observe [1000, 3] NewCPUHistogram)) mempty)) =
     Inr (fold Histogram_Observe [1000, 3] NewCPUHistogram)"
  using Histogram_json_roundtrip [of 0 "[1000, 3]", OF _ _ refl]
  by (simp add: NewCPUHistogram_def cpuAnchorShift_def maxInt64_def)

end
