(* ===== verification/RollupRecord.thy ===== *)
theory RollupRecord
  imports Histogram GoTime
begin

text \<open>
  The usage rollup of one container over one window, after \<open>internal/rollup/record.go\<close>:
  the CPU and memory sides of a record, the observation of one sample on each, and the
  merge of two records of one key and window.

  A record type is polymorphic in its histograms: a record the agent holds has
  \<^typ>\<open>Histogram\<close>s, and a record decoded from the spool, where a JSON \<open>null\<close> leaves a nil
  pointer, has \<^typ>\<open>Histogram option\<close>s. \<open>rec_op\<close> names the single writes the accumulator
  makes on a record, and the merge property is stated over lists of them.
\<close>

section \<open>Definitions\<close>

datatype Key = Key
  (Key_Namespace: string) (Key_WorkloadKind: string) (Key_WorkloadName: string)
  (Key_Container: string)

text \<open>The order of keys: field by field, as strings compare in Go.\<close>

fun key_tuple :: "Key \<Rightarrow> string \<times> string \<times> string \<times> string" where
  "key_tuple (Key n k w c) = (n, k, w, c)"

lemma key_tuple_inj [simp]: "key_tuple a = key_tuple b \<longleftrightarrow> a = b"
  by (cases a; cases b) simp

instantiation Key :: linorder
begin

definition less_eq_Key :: "Key \<Rightarrow> Key \<Rightarrow> bool" where
  "less_eq_Key a b \<longleftrightarrow> key_tuple a \<le> key_tuple b"

definition less_Key :: "Key \<Rightarrow> Key \<Rightarrow> bool" where
  "less_Key a b \<longleftrightarrow> key_tuple a < key_tuple b"

instance
  by standard (auto simp: less_eq_Key_def less_Key_def order.strict_iff_order)

end

record 'h CPUUsage =
  CoreNanoseconds :: int
  CoveredNanoseconds :: int
  ThrottledPeriods :: int
  TotalPeriods :: int
  ThrottlingSamples :: int
  CPU_PSIStallNanoseconds :: int
  CPU_PSISamples :: int
  CPU_Samples :: int
  MinMilli :: int
  MaxMilli :: int
  CPU_Hist :: 'h

record 'h MemoryUsage =
  Mem_Samples :: int
  MinBytes :: int
  MaxBytes :: int
  SumBytes :: int
  Mem_PSIStallNanoseconds :: int
  Mem_PSISamples :: int
  Mem_Hist :: 'h

record 'h Record =
  Record_Key :: Key
  Record_WindowStart :: time
  Record_WindowSeconds :: int
  CPU :: "'h CPUUsage"
  Memory :: "'h MemoryUsage"

definition observeRate :: "int \<Rightarrow> Histogram CPUUsage \<Rightarrow> Histogram CPUUsage" where
  "observeRate milli u =
     (let u = (if CPU_Samples u = 0 \<or> milli < MinMilli u then u\<lparr>MinMilli := milli\<rparr> else u);
          u = (if CPU_Samples u = 0 \<or> milli > MaxMilli u then u\<lparr>MaxMilli := milli\<rparr> else u);
          u = u\<lparr>CPU_Samples := add64 (CPU_Samples u) 1\<rparr>
      in u\<lparr>CPU_Hist := Histogram_Observe milli (CPU_Hist u)\<rparr>)"

definition observe :: "int \<Rightarrow> Histogram MemoryUsage \<Rightarrow> Histogram MemoryUsage" where
  "observe bytes u =
     (let u = (if Mem_Samples u = 0 \<or> bytes < MinBytes u then u\<lparr>MinBytes := bytes\<rparr> else u);
          u = (if Mem_Samples u = 0 \<or> bytes > MaxBytes u then u\<lparr>MaxBytes := bytes\<rparr> else u);
          u = u\<lparr>Mem_Samples := add64 (Mem_Samples u) 1\<rparr>;
          u = u\<lparr>SumBytes := add64 (SumBytes u) bytes\<rparr>
      in u\<lparr>Mem_Hist := Histogram_Observe bytes (Mem_Hist u)\<rparr>)"

definition newRecord :: "Key \<Rightarrow> time \<Rightarrow> int \<Rightarrow> Histogram Record" where
  "newRecord k start windowSeconds =
     \<lparr>Record_Key = k, Record_WindowStart = start, Record_WindowSeconds = windowSeconds,
      CPU = \<lparr>CoreNanoseconds = 0, CoveredNanoseconds = 0, ThrottledPeriods = 0, TotalPeriods = 0,
        ThrottlingSamples = 0, CPU_PSIStallNanoseconds = 0, CPU_PSISamples = 0, CPU_Samples = 0,
        MinMilli = 0, MaxMilli = 0, CPU_Hist = NewCPUHistogram\<rparr>,
      Memory = \<lparr>Mem_Samples = 0, MinBytes = 0, MaxBytes = 0, SumBytes = 0,
        Mem_PSIStallNanoseconds = 0, Mem_PSISamples = 0, Mem_Hist = NewMemoryHistogram\<rparr>\<rparr>"

datatype rollup_error =
    DifferentIdentities
  | HistogramError hist_error
  | ForeignWindowLength
  | OffGrid
  | NoHistogram

text \<open>The CPU and the memory half of \<open>Merge\<close>, up to the merge of their histograms.\<close>

definition merge_cpu :: "'h CPUUsage \<Rightarrow> 'g CPUUsage \<Rightarrow> 'h CPUUsage" where
  "merge_cpu r o1 =
     (let r = r\<lparr>CoreNanoseconds := add64 (CoreNanoseconds r) (CoreNanoseconds o1),
                CoveredNanoseconds := add64 (CoveredNanoseconds r) (CoveredNanoseconds o1),
                ThrottledPeriods := add64 (ThrottledPeriods r) (ThrottledPeriods o1),
                TotalPeriods := add64 (TotalPeriods r) (TotalPeriods o1),
                ThrottlingSamples := add64 (ThrottlingSamples r) (ThrottlingSamples o1),
                CPU_PSIStallNanoseconds := add64 (CPU_PSIStallNanoseconds r) (CPU_PSIStallNanoseconds o1),
                CPU_PSISamples := add64 (CPU_PSISamples r) (CPU_PSISamples o1)\<rparr>
      in if CPU_Samples o1 > 0 then
           (let r = (if CPU_Samples r = 0 \<or> MinMilli o1 < MinMilli r then r\<lparr>MinMilli := MinMilli o1\<rparr> else r);
                r = (if CPU_Samples r = 0 \<or> MaxMilli o1 > MaxMilli r then r\<lparr>MaxMilli := MaxMilli o1\<rparr> else r)
            in r\<lparr>CPU_Samples := add64 (CPU_Samples r) (CPU_Samples o1)\<rparr>)
         else r)"

definition merge_memory :: "'h MemoryUsage \<Rightarrow> 'g MemoryUsage \<Rightarrow> 'h MemoryUsage" where
  "merge_memory r o1 =
     (let r = r\<lparr>Mem_PSIStallNanoseconds := add64 (Mem_PSIStallNanoseconds r) (Mem_PSIStallNanoseconds o1),
                Mem_PSISamples := add64 (Mem_PSISamples r) (Mem_PSISamples o1)\<rparr>
      in if Mem_Samples o1 > 0 then
           (let r = (if Mem_Samples r = 0 \<or> MinBytes o1 < MinBytes r then r\<lparr>MinBytes := MinBytes o1\<rparr> else r);
                r = (if Mem_Samples r = 0 \<or> MaxBytes o1 > MaxBytes r then r\<lparr>MaxBytes := MaxBytes o1\<rparr> else r)
            in r\<lparr>Mem_Samples := add64 (Mem_Samples r) (Mem_Samples o1),
                 SumBytes := add64 (SumBytes r) (SumBytes o1)\<rparr>)
         else r)"

text \<open>
  \<open>Merge\<close> writes into \<open>r\<close> as it goes, so the record it returns beside an error is the one
  the failed call leaves behind.
\<close>

definition Record_Merge ::
    "Histogram Record \<Rightarrow> Histogram Record \<Rightarrow> Histogram Record \<times> rollup_error option" where
  "Record_Merge r o1 =
     (if Record_Key r \<noteq> Record_Key o1 \<or> Record_WindowStart r \<noteq> Record_WindowStart o1
         \<or> Record_WindowSeconds r \<noteq> Record_WindowSeconds o1
      then (r, Some DifferentIdentities)
      else
        let cpu = merge_cpu (CPU r) (CPU o1) in
        case Histogram_Merge (CPU_Hist cpu) (CPU_Hist (CPU o1)) of
          Inl e \<Rightarrow> (r\<lparr>CPU := cpu\<rparr>, Some (HistogramError e))
        | Inr h \<Rightarrow>
            let r = r\<lparr>CPU := cpu\<lparr>CPU_Hist := h\<rparr>\<rparr>; mem = merge_memory (Memory r) (Memory o1) in
            case Histogram_Merge (Mem_Hist mem) (Mem_Hist (Memory o1)) of
              Inl e \<Rightarrow> (r\<lparr>Memory := mem\<rparr>, Some (HistogramError e))
            | Inr h \<Rightarrow> (r\<lparr>Memory := mem\<lparr>Mem_Hist := h\<rparr>\<rparr>, None))"

definition Record_clone :: "Histogram Record \<Rightarrow> Histogram Record" where
  "Record_clone r = r\<lparr>CPU := (CPU r)\<lparr>CPU_Hist := Histogram_clone (CPU_Hist (CPU r))\<rparr>,
     Memory := (Memory r)\<lparr>Mem_Hist := Histogram_clone (Mem_Hist (Memory r))\<rparr>\<rparr>"

text \<open>
  \<open>Record.UnmarshalJSON\<close>, from what \<open>json.Unmarshal\<close> decoded over the prepared grids: a
  histogram decoded to nil is replaced by an empty one of the field's own grid.
\<close>

definition fill_cpu :: "(Histogram option) CPUUsage \<Rightarrow> Histogram CPUUsage" where
  "fill_cpu u =
     \<lparr>CoreNanoseconds = CoreNanoseconds u, CoveredNanoseconds = CoveredNanoseconds u,
      ThrottledPeriods = ThrottledPeriods u, TotalPeriods = TotalPeriods u,
      ThrottlingSamples = ThrottlingSamples u, CPU_PSIStallNanoseconds = CPU_PSIStallNanoseconds u,
      CPU_PSISamples = CPU_PSISamples u, CPU_Samples = CPU_Samples u, MinMilli = MinMilli u,
      MaxMilli = MaxMilli u,
      CPU_Hist = (case CPU_Hist u of None \<Rightarrow> NewCPUHistogram | Some h \<Rightarrow> h)\<rparr>"

definition fill_memory :: "(Histogram option) MemoryUsage \<Rightarrow> Histogram MemoryUsage" where
  "fill_memory u =
     \<lparr>Mem_Samples = Mem_Samples u, MinBytes = MinBytes u, MaxBytes = MaxBytes u,
      SumBytes = SumBytes u, Mem_PSIStallNanoseconds = Mem_PSIStallNanoseconds u,
      Mem_PSISamples = Mem_PSISamples u,
      Mem_Hist = (case Mem_Hist u of None \<Rightarrow> NewMemoryHistogram | Some h \<Rightarrow> h)\<rparr>"

definition fill_record :: "(Histogram option) Record \<Rightarrow> Histogram Record" where
  "fill_record r =
     \<lparr>Record_Key = Record_Key r, Record_WindowStart = Record_WindowStart r,
      Record_WindowSeconds = Record_WindowSeconds r,
      CPU = fill_cpu (CPU r), Memory = fill_memory (Memory r)\<rparr>"

definition Record_UnmarshalJSON :: "(Histogram option) Record option \<Rightarrow> Histogram Record option" where
  "Record_UnmarshalJSON decoded =
     (case decoded of None \<Rightarrow> None | Some r \<Rightarrow> Some (fill_record r))"

text \<open>The writes the accumulator makes on an open record.\<close>

datatype rec_op =
    AddCoreNanoseconds int
  | AddCoveredNanoseconds int
  | AddThrottledPeriods int
  | AddTotalPeriods int
  | CountThrottlingSample
  | AddCPUPSIStall int
  | CountCPUPSISample
  | ObserveRate int
  | AddMemoryPSIStall int
  | CountMemoryPSISample
  | ObserveMemorySample int

fun apply_op :: "rec_op \<Rightarrow> Histogram Record \<Rightarrow> Histogram Record" where
  "apply_op (AddCoreNanoseconds v) r = r\<lparr>CPU := (CPU r)\<lparr>CoreNanoseconds := add64 (CoreNanoseconds (CPU r)) v\<rparr>\<rparr>"
| "apply_op (AddCoveredNanoseconds v) r = r\<lparr>CPU := (CPU r)\<lparr>CoveredNanoseconds := add64 (CoveredNanoseconds (CPU r)) v\<rparr>\<rparr>"
| "apply_op (AddThrottledPeriods v) r = r\<lparr>CPU := (CPU r)\<lparr>ThrottledPeriods := add64 (ThrottledPeriods (CPU r)) v\<rparr>\<rparr>"
| "apply_op (AddTotalPeriods v) r = r\<lparr>CPU := (CPU r)\<lparr>TotalPeriods := add64 (TotalPeriods (CPU r)) v\<rparr>\<rparr>"
| "apply_op CountThrottlingSample r = r\<lparr>CPU := (CPU r)\<lparr>ThrottlingSamples := add64 (ThrottlingSamples (CPU r)) 1\<rparr>\<rparr>"
| "apply_op (AddCPUPSIStall v) r = r\<lparr>CPU := (CPU r)\<lparr>CPU_PSIStallNanoseconds := add64 (CPU_PSIStallNanoseconds (CPU r)) v\<rparr>\<rparr>"
| "apply_op CountCPUPSISample r = r\<lparr>CPU := (CPU r)\<lparr>CPU_PSISamples := add64 (CPU_PSISamples (CPU r)) 1\<rparr>\<rparr>"
| "apply_op (ObserveRate v) r = r\<lparr>CPU := observeRate v (CPU r)\<rparr>"
| "apply_op (AddMemoryPSIStall v) r = r\<lparr>Memory := (Memory r)\<lparr>Mem_PSIStallNanoseconds := add64 (Mem_PSIStallNanoseconds (Memory r)) v\<rparr>\<rparr>"
| "apply_op CountMemoryPSISample r = r\<lparr>Memory := (Memory r)\<lparr>Mem_PSISamples := add64 (Mem_PSISamples (Memory r)) 1\<rparr>\<rparr>"
| "apply_op (ObserveMemorySample v) r = r\<lparr>Memory := observe v (Memory r)\<rparr>"

section \<open>Well-formed records\<close>

text \<open>The two observations and the two merges, field by field.\<close>

lemma observeRate_sel [simp]:
  "CoreNanoseconds (observeRate v u) = CoreNanoseconds u"
  "CoveredNanoseconds (observeRate v u) = CoveredNanoseconds u"
  "ThrottledPeriods (observeRate v u) = ThrottledPeriods u"
  "TotalPeriods (observeRate v u) = TotalPeriods u"
  "ThrottlingSamples (observeRate v u) = ThrottlingSamples u"
  "CPU_PSIStallNanoseconds (observeRate v u) = CPU_PSIStallNanoseconds u"
  "CPU_PSISamples (observeRate v u) = CPU_PSISamples u"
  "CPU_Samples (observeRate v u) = add64 (CPU_Samples u) 1"
  "MinMilli (observeRate v u) = (if CPU_Samples u = 0 \<or> v < MinMilli u then v else MinMilli u)"
  "MaxMilli (observeRate v u) = (if CPU_Samples u = 0 \<or> v > MaxMilli u then v else MaxMilli u)"
  "CPU_Hist (observeRate v u) = Histogram_Observe v (CPU_Hist u)"
  by (simp_all add: observeRate_def Let_def)

lemma observe_sel [simp]:
  "Mem_PSIStallNanoseconds (observe v u) = Mem_PSIStallNanoseconds u"
  "Mem_PSISamples (observe v u) = Mem_PSISamples u"
  "Mem_Samples (observe v u) = add64 (Mem_Samples u) 1"
  "MinBytes (observe v u) = (if Mem_Samples u = 0 \<or> v < MinBytes u then v else MinBytes u)"
  "MaxBytes (observe v u) = (if Mem_Samples u = 0 \<or> v > MaxBytes u then v else MaxBytes u)"
  "SumBytes (observe v u) = add64 (SumBytes u) v"
  "Mem_Hist (observe v u) = Histogram_Observe v (Mem_Hist u)"
  by (simp_all add: observe_def Let_def)

lemma merge_cpu_sel [simp]:
  "CoreNanoseconds (merge_cpu a b) = add64 (CoreNanoseconds a) (CoreNanoseconds b)"
  "CoveredNanoseconds (merge_cpu a b) = add64 (CoveredNanoseconds a) (CoveredNanoseconds b)"
  "ThrottledPeriods (merge_cpu a b) = add64 (ThrottledPeriods a) (ThrottledPeriods b)"
  "TotalPeriods (merge_cpu a b) = add64 (TotalPeriods a) (TotalPeriods b)"
  "ThrottlingSamples (merge_cpu a b) = add64 (ThrottlingSamples a) (ThrottlingSamples b)"
  "CPU_PSIStallNanoseconds (merge_cpu a b) = add64 (CPU_PSIStallNanoseconds a) (CPU_PSIStallNanoseconds b)"
  "CPU_PSISamples (merge_cpu a b) = add64 (CPU_PSISamples a) (CPU_PSISamples b)"
  "CPU_Samples (merge_cpu a b) =
     (if CPU_Samples b > 0 then add64 (CPU_Samples a) (CPU_Samples b) else CPU_Samples a)"
  "MinMilli (merge_cpu a b) =
     (if CPU_Samples b > 0 \<and> (CPU_Samples a = 0 \<or> MinMilli b < MinMilli a) then MinMilli b else MinMilli a)"
  "MaxMilli (merge_cpu a b) =
     (if CPU_Samples b > 0 \<and> (CPU_Samples a = 0 \<or> MaxMilli b > MaxMilli a) then MaxMilli b else MaxMilli a)"
  "CPU_Hist (merge_cpu a b) = CPU_Hist a"
  by (simp_all add: merge_cpu_def Let_def)

lemma merge_memory_sel [simp]:
  "Mem_PSIStallNanoseconds (merge_memory a b) = add64 (Mem_PSIStallNanoseconds a) (Mem_PSIStallNanoseconds b)"
  "Mem_PSISamples (merge_memory a b) = add64 (Mem_PSISamples a) (Mem_PSISamples b)"
  "Mem_Samples (merge_memory a b) =
     (if Mem_Samples b > 0 then add64 (Mem_Samples a) (Mem_Samples b) else Mem_Samples a)"
  "MinBytes (merge_memory a b) =
     (if Mem_Samples b > 0 \<and> (Mem_Samples a = 0 \<or> MinBytes b < MinBytes a) then MinBytes b else MinBytes a)"
  "MaxBytes (merge_memory a b) =
     (if Mem_Samples b > 0 \<and> (Mem_Samples a = 0 \<or> MaxBytes b > MaxBytes a) then MaxBytes b else MaxBytes a)"
  "SumBytes (merge_memory a b) =
     (if Mem_Samples b > 0 then add64 (SumBytes a) (SumBytes b) else SumBytes a)"
  "Mem_Hist (merge_memory a b) = Mem_Hist a"
  by (simp_all add: merge_memory_def Let_def)


text \<open>
  What the accumulator keeps of every record it holds: each total is an \<open>int64\<close>, sample
  counts are not negative, and each histogram is on the grid of its field.
\<close>

definition cpu_ok :: "Histogram CPUUsage \<Rightarrow> bool" where
  "cpu_ok u \<longleftrightarrow> int64 (CoreNanoseconds u) \<and> int64 (CoveredNanoseconds u) \<and>
     int64 (ThrottledPeriods u) \<and> int64 (TotalPeriods u) \<and> int64 (ThrottlingSamples u) \<and>
     int64 (CPU_PSIStallNanoseconds u) \<and> int64 (CPU_PSISamples u) \<and>
     0 \<le> CPU_Samples u \<and> CPU_Samples u \<le> maxInt64 \<and>
     anchorShift (CPU_Hist u) = cpuAnchorShift \<and> small_counts (CPU_Hist u)"

definition memory_ok :: "Histogram MemoryUsage \<Rightarrow> bool" where
  "memory_ok u \<longleftrightarrow> int64 (SumBytes u) \<and> int64 (Mem_PSIStallNanoseconds u) \<and>
     int64 (Mem_PSISamples u) \<and> 0 \<le> Mem_Samples u \<and> Mem_Samples u \<le> maxInt64 \<and>
     anchorShift (Mem_Hist u) = memoryAnchorShift \<and> small_counts (Mem_Hist u)"

definition record_ok :: "Histogram Record \<Rightarrow> bool" where
  "record_ok r \<longleftrightarrow> cpu_ok (CPU r) \<and> memory_ok (Memory r)"

text \<open>The rates and the memory samples among a list of writes.\<close>

fun op_rates :: "rec_op list \<Rightarrow> int list" where
  "op_rates [] = []"
| "op_rates (ObserveRate v # ops) = v # op_rates ops"
| "op_rates (_ # ops) = op_rates ops"

fun op_memory :: "rec_op list \<Rightarrow> int list" where
  "op_memory [] = []"
| "op_memory (ObserveMemorySample v # ops) = v # op_memory ops"
| "op_memory (_ # ops) = op_memory ops"

text \<open>Room for the samples of a list of writes in a record's counts.\<close>

definition room_for :: "rec_op list \<Rightarrow> Histogram Record \<Rightarrow> bool" where
  "room_for ops r \<longleftrightarrow> CPU_Samples (CPU r) + int (length (op_rates ops)) \<le> maxInt64 \<and>
     Mem_Samples (Memory r) + int (length (op_memory ops)) \<le> maxInt64"

lemma small_counts_Observe1 [simp]: "small_counts h \<Longrightarrow> small_counts (Histogram_Observe v h)"
  using small_counts_Observe [of h "[v]"] by simp

lemma anchorShift_Observe [simp]: "anchorShift (Histogram_Observe v h) = anchorShift h"
  by (simp add: Histogram_Observe_def)

lemma cpu_ok_observeRate:
  "cpu_ok u \<Longrightarrow> CPU_Samples u < maxInt64 \<Longrightarrow> cpu_ok (observeRate v u)"
  by (simp add: cpu_ok_def add64_nonneg)

lemma memory_ok_observe:
  "memory_ok u \<Longrightarrow> Mem_Samples u < maxInt64 \<Longrightarrow> memory_ok (observe v u)"
  by (simp add: memory_ok_def add64_nonneg)

lemma record_ok_apply_op:
  assumes "record_ok r" and "room_for [op] r"
  shows "record_ok (apply_op op r)"
  using assms
  by (cases op) (auto simp: record_ok_def room_for_def intro: cpu_ok_observeRate memory_ok_observe,
      auto simp: cpu_ok_def memory_ok_def)

lemma record_ok_newRecord [simp]: "record_ok (newRecord k s n)"
  by (simp add: record_ok_def newRecord_def cpu_ok_def memory_ok_def maxInt64_def NewCPUHistogram_def
      NewMemoryHistogram_def small_counts_def mvalues_def)

lemma apply_op_identity [simp]:
  "Record_Key (apply_op op r) = Record_Key r"
  "Record_WindowStart (apply_op op r) = Record_WindowStart r"
  "Record_WindowSeconds (apply_op op r) = Record_WindowSeconds r"
  by (cases op; simp)+

lemma fold_apply_op_identity [simp]:
  "Record_Key (fold apply_op ops r) = Record_Key r"
  "Record_WindowStart (fold apply_op ops r) = Record_WindowStart r"
  "Record_WindowSeconds (fold apply_op ops r) = Record_WindowSeconds r"
  by (induction ops arbitrary: r; simp)+

section \<open>The merge property\<close>

text \<open>The samples of a record that a list of writes has built.\<close>

lemma CPU_Hist_fold:
  "CPU_Hist (CPU (fold apply_op ops r)) = fold Histogram_Observe (op_rates ops) (CPU_Hist (CPU r))"
  by (induction ops arbitrary: r rule: op_rates.induct) simp_all

lemma Mem_Hist_fold:
  "Mem_Hist (Memory (fold apply_op ops r)) = fold Histogram_Observe (op_memory ops) (Mem_Hist (Memory r))"
  by (induction ops arbitrary: r rule: op_memory.induct) simp_all

lemma room_for_Cons:
  "record_ok r \<Longrightarrow> room_for (op # ops) r \<Longrightarrow> room_for [op] r \<and> room_for ops (apply_op op r)"
  by (cases op) (auto simp: room_for_def record_ok_def cpu_ok_def memory_ok_def
      add64_nonneg)

lemma record_ok_fold:
  "record_ok r \<Longrightarrow> room_for ops r \<Longrightarrow> record_ok (fold apply_op ops r)"
proof (induction ops arbitrary: r)
  case (Cons op ops)
  then show ?case using room_for_Cons [of r op ops] record_ok_apply_op [of r op] by simp
qed simp

lemma CPU_Samples_fold:
  "record_ok r \<Longrightarrow> room_for ops r \<Longrightarrow>
   CPU_Samples (CPU (fold apply_op ops r)) = CPU_Samples (CPU r) + int (length (op_rates ops))"
proof (induction ops arbitrary: r)
  case (Cons op ops)
  then show ?case
    using room_for_Cons [of r op ops] record_ok_apply_op [of r op]
    by (cases op) (auto simp: room_for_def record_ok_def cpu_ok_def add64_nonneg)
qed simp

lemma Mem_Samples_fold:
  "record_ok r \<Longrightarrow> room_for ops r \<Longrightarrow>
   Mem_Samples (Memory (fold apply_op ops r)) = Mem_Samples (Memory r) + int (length (op_memory ops))"
proof (induction ops arbitrary: r)
  case (Cons op ops)
  then show ?case
    using room_for_Cons [of r op ops] record_ok_apply_op [of r op]
    by (cases op) (auto simp: room_for_def record_ok_def memory_ok_def add64_nonneg)
qed simp

text \<open>
  Merging commutes with one write on the record merged in, as far as the totals go; the
  histograms are merged by \<open>Histogram_Merge_sample\<close>.
\<close>

definition same_cpu_totals :: "'h CPUUsage \<Rightarrow> 'g CPUUsage \<Rightarrow> bool" where
  "same_cpu_totals a b \<longleftrightarrow> CoreNanoseconds a = CoreNanoseconds b \<and>
     CoveredNanoseconds a = CoveredNanoseconds b \<and>
     ThrottledPeriods a = ThrottledPeriods b \<and>
     TotalPeriods a = TotalPeriods b \<and>
     ThrottlingSamples a = ThrottlingSamples b \<and>
     CPU_PSIStallNanoseconds a = CPU_PSIStallNanoseconds b \<and>
     CPU_PSISamples a = CPU_PSISamples b \<and>
     CPU_Samples a = CPU_Samples b \<and>
     MinMilli a = MinMilli b \<and>
     MaxMilli a = MaxMilli b"

definition same_memory_totals :: "'h MemoryUsage \<Rightarrow> 'g MemoryUsage \<Rightarrow> bool" where
  "same_memory_totals a b \<longleftrightarrow> Mem_Samples a = Mem_Samples b \<and>
     MinBytes a = MinBytes b \<and>
     MaxBytes a = MaxBytes b \<and>
     SumBytes a = SumBytes b \<and>
     Mem_PSIStallNanoseconds a = Mem_PSIStallNanoseconds b \<and>
     Mem_PSISamples a = Mem_PSISamples b"

lemma op_rates_append [simp]: "op_rates (xs @ ys) = op_rates xs @ op_rates ys"
  by (induction xs rule: op_rates.induct) simp_all

lemma op_memory_append [simp]: "op_memory (xs @ ys) = op_memory xs @ op_memory ys"
  by (induction xs rule: op_memory.induct) simp_all

lemma SumBytes_fold_no_samples:
  "op_memory ops = [] \<Longrightarrow> SumBytes (Memory (fold apply_op ops r)) = SumBytes (Memory r)"
  by (induction ops arbitrary: r rule: op_memory.induct) simp_all

lemma same_cpu_totals_sym: "same_cpu_totals a b \<Longrightarrow> same_cpu_totals b a"
  unfolding same_cpu_totals_def by (elim conjE) (intro conjI; erule sym)

lemma same_memory_totals_sym: "same_memory_totals a b \<Longrightarrow> same_memory_totals b a"
  unfolding same_memory_totals_def by (elim conjE) (intro conjI; erule sym)

lemma same_cpu_rate:
  assumes "same_cpu_totals (merge_cpu a b) c"
    and "0 \<le> CPU_Samples a" and "0 \<le> CPU_Samples b" and "CPU_Samples a + CPU_Samples b < maxInt64"
  shows "same_cpu_totals (merge_cpu a (observeRate v b)) (observeRate v c)"
proof -
  note c = same_cpu_totals_sym [OF assms(1)]
  consider "CPU_Samples a = 0" "CPU_Samples b = 0" | "CPU_Samples a = 0" "0 < CPU_Samples b"
    | "0 < CPU_Samples a" "CPU_Samples b = 0" | "0 < CPU_Samples a" "0 < CPU_Samples b"
    using assms(2,3) by linarith
  then show ?thesis
    by cases (use c assms(4) in \<open>simp_all add: same_cpu_totals_def add64_nonneg\<close>)
qed

lemma same_memory_sample:
  assumes "same_memory_totals (merge_memory a b) c"
    and "0 \<le> Mem_Samples a" and "0 \<le> Mem_Samples b" and "Mem_Samples a + Mem_Samples b < maxInt64"
    and "Mem_Samples b = 0 \<longrightarrow> SumBytes b = 0"
  shows "same_memory_totals (merge_memory a (observe v b)) (observe v c)"
proof -
  note c = same_memory_totals_sym [OF assms(1)]
  have z: "add64 x (add64 0 v) = add64 x v" for x by (simp add: add64_def int64_simps)
  consider "Mem_Samples a = 0" "Mem_Samples b = 0" | "Mem_Samples a = 0" "0 < Mem_Samples b"
    | "0 < Mem_Samples a" "Mem_Samples b = 0" | "0 < Mem_Samples a" "0 < Mem_Samples b"
    using assms(2,3) by linarith
  then show ?thesis
    by cases (use c assms(4,5) z in \<open>simp_all add: same_memory_totals_def add64_nonneg add64_assoc\<close>)
qed

lemma merge_cpu_fold:
  assumes "record_ok r" and "room_for ops r"
  shows "same_cpu_totals (merge_cpu (CPU r) (CPU (fold apply_op ops (newRecord k s n)))) (CPU (fold apply_op ops r))"
  using assms(2)
proof (induction ops rule: rev_induct)
  case Nil
  then show ?case
    using assms(1) by (simp add: same_cpu_totals_def newRecord_def record_ok_def cpu_ok_def)
next
  case (snoc op ops)
  let ?o = "fold apply_op ops (newRecord k s n)"
  have room: "room_for ops r" using snoc.prems by (simp add: room_for_def)
  have pos: "0 \<le> CPU_Samples (CPU r)" using assms(1) by (simp add: record_ok_def cpu_ok_def)
  have new: "room_for ops (newRecord k s n)"
    using room assms(1)
    by (simp add: room_for_def newRecord_def record_ok_def cpu_ok_def memory_ok_def)
  have cnt: "CPU_Samples (CPU ?o) = int (length (op_rates ops))"
    using CPU_Samples_fold [OF record_ok_newRecord new] by (simp add: newRecord_def)
  have lim: "CPU_Samples (CPU r) + CPU_Samples (CPU ?o) + int (length (op_rates [op])) \<le> maxInt64"
    using snoc.prems cnt by (simp add: room_for_def)
  show ?case
  proof (cases op)
    case (ObserveRate v)
    then show ?thesis
      using same_cpu_rate [OF snoc.IH [OF room] pos, of v] lim cnt by simp
  qed (use same_cpu_totals_sym [OF snoc.IH [OF room]] in
      \<open>simp_all add: same_cpu_totals_def add64_assoc\<close>)
qed

lemma merge_memory_fold:
  assumes "record_ok r" and "room_for ops r"
  shows "same_memory_totals (merge_memory (Memory r) (Memory (fold apply_op ops (newRecord k s n))))
    (Memory (fold apply_op ops r))"
  using assms(2)
proof (induction ops rule: rev_induct)
  case Nil
  then show ?case
    using assms(1) by (simp add: same_memory_totals_def newRecord_def record_ok_def memory_ok_def)
next
  case (snoc op ops)
  let ?o = "fold apply_op ops (newRecord k s n)"
  have room: "room_for ops r" using snoc.prems by (simp add: room_for_def)
  have pos: "0 \<le> Mem_Samples (Memory r)" using assms(1) by (simp add: record_ok_def memory_ok_def)
  have new: "room_for ops (newRecord k s n)"
    using room assms(1)
    by (simp add: room_for_def newRecord_def record_ok_def cpu_ok_def memory_ok_def)
  have cnt: "Mem_Samples (Memory ?o) = int (length (op_memory ops))"
    using Mem_Samples_fold [OF record_ok_newRecord new] by (simp add: newRecord_def)
  have sum0: "op_memory ops = [] \<longrightarrow> SumBytes (Memory ?o) = 0"
    by (simp add: SumBytes_fold_no_samples newRecord_def)
  have lim: "Mem_Samples (Memory r) + Mem_Samples (Memory ?o) + int (length (op_memory [op])) \<le> maxInt64"
    using snoc.prems cnt by (simp add: room_for_def)
  show ?case
  proof (cases op)
    case (ObserveMemorySample v)
    then show ?thesis
      using same_memory_sample [OF snoc.IH [OF room] pos, of v] lim cnt sum0 by simp
  qed (use same_memory_totals_sym [OF snoc.IH [OF room]] in
      \<open>simp_all add: same_memory_totals_def add64_assoc\<close>)
qed

lemma Record_Merge_writes:
  assumes "record_ok r" and "room_for ops r" and "length ops < 2 ^ 64"
    and id: "Record_Key r = k" "Record_WindowStart r = s" "Record_WindowSeconds r = n"
  shows "Record_Merge r (fold apply_op ops (newRecord k s n)) = (fold apply_op ops r, None)"
proof -
  let ?o = "fold apply_op ops (newRecord k s n)" and ?r = "fold apply_op ops r"
  have len: "length (op_rates ops) \<le> length ops" "length (op_memory ops) \<le> length ops"
    by (induction ops rule: op_rates.induct; simp) (induction ops rule: op_memory.induct; simp)
  have c: "Histogram_Merge (CPU_Hist (CPU r)) (CPU_Hist (CPU ?o)) = Inr (CPU_Hist (CPU ?r))"
    using Histogram_Merge_sample [of "CPU_Hist (CPU r)" cpuAnchorShift "op_rates ops"] assms(1,3) len
    by (simp add: CPU_Hist_fold newRecord_def NewCPUHistogram_def record_ok_def cpu_ok_def)
  have m: "Histogram_Merge (Mem_Hist (Memory r)) (Mem_Hist (Memory ?o)) = Inr (Mem_Hist (Memory ?r))"
    using Histogram_Merge_sample [of "Mem_Hist (Memory r)" memoryAnchorShift "op_memory ops"] assms(1,3) len
    by (simp add: Mem_Hist_fold newRecord_def NewMemoryHistogram_def record_ok_def memory_ok_def)
  have "(merge_cpu (CPU r) (CPU ?o))\<lparr>CPU_Hist := CPU_Hist (CPU ?r)\<rparr> = CPU ?r"
    using merge_cpu_fold [OF assms(1,2), of k s n]
    by (intro CPUUsage.equality) (simp_all add: same_cpu_totals_def del: merge_cpu_sel)
  moreover have "(merge_memory (Memory r) (Memory ?o))\<lparr>Mem_Hist := Mem_Hist (Memory ?r)\<rparr> = Memory ?r"
    using merge_memory_fold [OF assms(1,2), of k s n]
    by (intro MemoryUsage.equality) (simp_all add: same_memory_totals_def del: merge_memory_sel)
  moreover have "Record_Key ?o = k" "Record_WindowStart ?o = s" "Record_WindowSeconds ?o = n"
    by (simp_all add: newRecord_def)
  ultimately show ?thesis
    using id by (simp add: Record_Merge_def Let_def c m)
qed

lemma Record_clone_id [simp]: "Record_clone r = r"
  by (simp add: Record_clone_def Histogram_clone_def)

text \<open>
  The merge property of rollup records: merging the record that a list of observations
  built into the record another list built, for the same key and window, gives the record
  that all the observations in sequence would have built, field by field and histograms
  included, as long as the sample counts fit in an \<open>int64\<close>.
\<close>

theorem Record_Merge_is_concatenation:
  assumes "room_for (xs @ ys) (newRecord k s n)" and "length ys < 2 ^ 64"
  shows "Record_Merge (fold apply_op xs (newRecord k s n)) (fold apply_op ys (newRecord k s n)) =
    (fold apply_op (xs @ ys) (newRecord k s n), None)"
proof -
  have room: "room_for xs (newRecord k s n)"
    using assms(1) by (simp add: room_for_def)
  have "room_for ys (fold apply_op xs (newRecord k s n))"
    using assms(1) CPU_Samples_fold [OF record_ok_newRecord room] Mem_Samples_fold [OF record_ok_newRecord room]
    by (simp add: room_for_def)
  then show ?thesis
    using Record_Merge_writes [OF record_ok_fold [OF record_ok_newRecord room], of ys k s n] assms(2)
    by (simp add: newRecord_def)
qed

theorem Record_Merge_is_concatenation_witness:
  "Record_Merge (fold apply_op [ObserveRate 5, AddCoreNanoseconds 9] (newRecord (Key ''ns'' ''Job'' ''j'' ''c'') 0 60))
     (fold apply_op [ObserveMemorySample 7] (newRecord (Key ''ns'' ''Job'' ''j'' ''c'') 0 60)) =
   (fold apply_op [ObserveRate 5, AddCoreNanoseconds 9, ObserveMemorySample 7]
     (newRecord (Key ''ns'' ''Job'' ''j'' ''c'') 0 60), None)"
  using Record_Merge_is_concatenation [of "[ObserveRate 5, AddCoreNanoseconds 9]" "[ObserveMemorySample 7]"
      "Key ''ns'' ''Job'' ''j'' ''c''" 0 60]
  by (simp add: room_for_def newRecord_def maxInt64_def)

end
