(* ===== verification/Windowing.thy ===== *)
theory Windowing
  imports GoTime
begin

text \<open>
  Wall-clock windows, after \<open>internal/rollup/window.go\<close>: the window of an instant, the
  pro-rata split of a counter delta over the windows its interval overlaps, and the
  overflow-free \<open>mulDiv\<close> the split rests on. \<open>yield\<close>, the callback of \<open>split\<close>, receives the
  pairs of the returned list in their order.
\<close>

section \<open>Definitions\<close>

record windowing =
  wlength :: duration

definition startOf :: "windowing \<Rightarrow> time \<Rightarrow> time" where
  "startOf w at = Truncate at (wlength w)"

definition seconds :: "windowing \<Rightarrow> int" where
  "seconds w = wlength w sdiv second"

definition mulDiv :: "int \<Rightarrow> int \<Rightarrow> int \<Rightarrow> int" where
  "mulDiv a b c =
     (if a < 0 \<or> b < 0 \<or> c \<le> 0 then 0
      else let (hi, lo) = Mul64 (nat a) (nat b) in
        if hi \<ge> nat c then maxInt64
        else let (q, _) = Div64 hi lo (nat c) in
          if int q > maxInt64 then maxInt64 else int q)"

text \<open>
  The loop of \<open>split\<close>. As written it ends only if the window length is positive, which
  the constructors enforce by panicking: \<open>split_loop\<close> is the loop itself, with \<^const>\<open>None\<close>
  for a run that does not end, and \<open>split_segs\<close> is the total function the model uses.
\<close>

partial_function (option) split_loop ::
    "windowing \<Rightarrow> int \<Rightarrow> duration \<Rightarrow> time \<Rightarrow> time \<Rightarrow> int \<Rightarrow> (time \<times> int) list option" where
  "split_loop w amount tot to segFrom remaining =
     (if segFrom < to then
        (let segTo = startOf w segFrom + wlength w in
         if segTo < to then
           (let part = mulDiv amount (Sub segTo segFrom) tot in
            Option.bind (split_loop w amount tot to segTo (sub64 remaining part))
              (\<lambda>ps. Some ((startOf w segFrom, part) # ps)))
         else Option.bind (split_loop w amount tot to to remaining)
              (\<lambda>ps. Some ((startOf w segFrom, remaining) # ps)))
      else Some [])"

function split_segs ::
    "windowing \<Rightarrow> int \<Rightarrow> duration \<Rightarrow> time \<Rightarrow> time \<Rightarrow> int \<Rightarrow> (time \<times> int) list" where
  "split_segs w amount tot to segFrom remaining =
     (if 0 < wlength w \<and> segFrom < to then
        (let segTo = startOf w segFrom + wlength w in
         if segTo < to then
           (let part = mulDiv amount (Sub segTo segFrom) tot in
            (startOf w segFrom, part)
              # split_segs w amount tot to segTo (sub64 remaining part))
         else (startOf w segFrom, remaining) # split_segs w amount tot to to remaining)
      else [])"
  by pat_completeness auto
termination
proof (relation "measure (\<lambda>(w, amount, tot, to, segFrom, remaining). nat (to - segFrom))")
  fix w :: windowing and segFrom to segTo :: int
  assume "0 < wlength w \<and> segFrom < to" and "segTo = startOf w segFrom + wlength w"
  then have "segFrom < segTo" by (simp add: startOf_def less_Truncate_add)
  then show "((w, amount, tot, to, segTo, r), (w, amount, tot, to, segFrom, remaining))
      \<in> measure (\<lambda>(w, amount, tot, to, segFrom, remaining). nat (to - segFrom))"
    if "segTo < to" for amount tot r remaining
    using that by simp
qed auto

declare split_segs.simps [simp del]

definition split :: "windowing \<Rightarrow> time \<Rightarrow> time \<Rightarrow> int \<Rightarrow> (time \<times> int) list" where
  "split w from to amount =
     (let tot = Sub to from in
      if tot \<le> 0 \<or> amount < 0 then []
      else split_segs w amount tot to from amount)"

section \<open>Lemmas\<close>

lemma startOf_le: "startOf w t \<le> t"
  by (simp add: startOf_def Truncate_le)

lemma startOf_end: "0 < wlength w \<Longrightarrow> t < startOf w t + wlength w"
  by (simp add: startOf_def less_Truncate_add)

lemma startOf_dvd: "0 < wlength w \<Longrightarrow> wlength w dvd startOf w t"
  by (simp add: startOf_def Truncate_dvd)

lemma startOf_idem [simp]: "startOf w (startOf w t) = startOf w t"
  by (simp add: startOf_def)

lemma startOf_next: "0 < wlength w \<Longrightarrow> startOf w (startOf w t + wlength w) = startOf w t + wlength w"
  unfolding startOf_def by (rule Truncate_of_dvd) (simp add: Truncate_dvd)

lemma mulDiv_eq:
  assumes "0 \<le> a" and "0 \<le> b" and "0 < c"
  shows "mulDiv a b c = min maxInt64 (a * b div c)"
proof -
  define A B C where "A = nat a" and "B = nat b" and "C = nat c"
  have ints: "a = int A" "b = int B" "c = int C" and C: "0 < C"
    using assms by (auto simp: A_def B_def C_def)
  have big: "maxInt64 < int (A * B div C)" if "A * B div 2 ^ 64 \<ge> C"
  proof -
    have "2 ^ 64 * C \<le> A * B"
      using that by (metis div_times_less_eq_dividend le_trans mult.commute mult_le_mono2)
    then have "2 ^ 64 \<le> A * B div C" using C by (simp add: less_eq_div_iff_mult_less_eq)
    then have "int (2 ^ 64) \<le> int (A * B div C)" by (rule of_nat_mono)
    then show ?thesis by (simp add: maxInt64_def)
  qed
  have "mulDiv a b c = (if A * B div 2 ^ 64 \<ge> C then maxInt64
      else if int (A * B div C) > maxInt64 then maxInt64 else int (A * B div C))"
    using assms Div64_Mul64 [of A B C]
    by (simp add: mulDiv_def ints Mul64_def split: prod.splits)
  also have "\<dots> = min maxInt64 (int (A * B div C))"
    using big by auto
  finally show ?thesis by (simp add: ints zdiv_int)
qed

lemma mulDiv_exact:
  assumes "0 \<le> a" and "0 \<le> b" and "b \<le> c" and "0 < c" and "int64 a"
  shows "mulDiv a b c = a * b div c"
proof -
  have "a * b div c \<le> a * c div c"
    using assms by (intro zdiv_mono1 mult_left_mono) auto
  then show ?thesis
    using assms by (simp add: mulDiv_eq int64_def)
qed

lemma mulDiv_nonneg: "0 \<le> mulDiv a b c"
  by (cases "a < 0 \<or> b < 0 \<or> c \<le> 0")
    (auto simp: mulDiv_eq pos_imp_zdiv_nonneg_iff maxInt64_def, auto simp: mulDiv_def)

lemma mulDiv_le_max: "mulDiv a b c \<le> maxInt64"
  by (cases "a < 0 \<or> b < 0 \<or> c \<le> 0") (auto simp: mulDiv_eq, auto simp: mulDiv_def maxInt64_def)

lemma split_segs_done: "\<not> segFrom < to \<Longrightarrow> split_segs w amount tot to segFrom r = []"
  by (simp add: split_segs.simps)

lemma split_segs_last:
  "0 < wlength w \<Longrightarrow> segFrom < to \<Longrightarrow> to \<le> startOf w segFrom + wlength w \<Longrightarrow>
   split_segs w amount tot to segFrom r = [(startOf w segFrom, r)]"
  by (simp add: split_segs.simps [of w amount tot to segFrom] split_segs_done)

lemma split_segs_step:
  "0 < wlength w \<Longrightarrow> startOf w segFrom + wlength w < to \<Longrightarrow>
   split_segs w amount tot to segFrom r =
     (startOf w segFrom, mulDiv amount (Sub (startOf w segFrom + wlength w) segFrom) tot)
     # split_segs w amount tot to (startOf w segFrom + wlength w)
         (sub64 r (mulDiv amount (Sub (startOf w segFrom + wlength w) segFrom) tot))"
  using startOf_end [of w segFrom]
  by (simp add: split_segs.simps [of w amount tot to segFrom] Let_def)

text \<open>Induction over the segments of an interval: the last one, or one and the rest.\<close>

lemma split_segs_induct [consumes 2, case_names last step]:
  assumes "0 < wlength w" and "segFrom < to"
    and last: "\<And>f r. f < to \<Longrightarrow> to \<le> startOf w f + wlength w \<Longrightarrow> P f r"
    and step: "\<And>f r. startOf w f + wlength w < to \<Longrightarrow>
      P (startOf w f + wlength w)
        (sub64 r (mulDiv amount (Sub (startOf w f + wlength w) f) tot)) \<Longrightarrow> P f r"
  shows "P segFrom (r :: int)"
  using assms(2)
proof (induction "nat (to - segFrom)" arbitrary: segFrom r rule: less_induct)
  case less
  let ?n = "startOf w segFrom + wlength w"
  show ?case
  proof (cases "?n < to")
    case True
    have "segFrom < ?n" using startOf_end [OF assms(1)] .
    then have "P ?n r'" for r'
      using less True by simp
    then show ?thesis using step True by blast
  qed (use less.prems last in auto)
qed

lemma split_loop_segs:
  assumes "0 < wlength w" and "segFrom < to"
  shows "split_loop w amount tot to segFrom r = Some (split_segs w amount tot to segFrom r)"
  using assms
proof (induction segFrom r rule: split_segs_induct [where amount = amount and tot = tot])
  case (last f r)
  then show ?case
    using assms(1) by (simp add: split_loop.simps [of w amount tot to f]
      split_loop.simps [of w amount tot to to] split_segs_last Let_def)
next
  case (step f r)
  then have "f < to" using startOf_end [OF assms(1), of f] by linarith
  with step show ?case
    using assms(1) by (simp add: split_loop.simps [of w amount tot to f] split_segs_step Let_def)
qed

text \<open>
  The accounting invariant of the loop: what remains is at least the share of the part of
  the interval that is still to come, so no segment takes more than there is.
\<close>

lemma split_segs_sound:
  assumes "0 < wlength w" and "segFrom < to" and "0 \<le> amount" and "int64 amount"
    and "tot = to - from" and "int64 (to - from)" and "from \<le> segFrom"
    and "amount * (to - segFrom) \<le> r * tot" and "r \<le> amount"
  shows "sum_list (map snd (split_segs w amount tot to segFrom r)) = r \<and>
    (\<forall>p \<in> set (split_segs w amount tot to segFrom r). 0 \<le> snd p \<and> snd p \<le> r)"
  using assms(1,2,7,8,9)
proof (induction segFrom r rule: split_segs_induct [where amount = amount and tot = tot])
  case (last f r)
  have "0 \<le> amount * (to - f)" using assms(3) last by simp
  with last have "0 \<le> r * tot" by linarith
  then have "0 \<le> r" using assms(2,5,7) by (simp add: zero_le_mult_iff)
  with last show ?case using assms(1) by (simp add: split_segs_last)
next
  case (step f r)
  let ?n = "startOf w f + wlength w"
  define part where "part = mulDiv amount (Sub ?n f) tot"
  have fn: "f < ?n" using startOf_end [OF assms(1)] .
  have "0 \<le> ?n - f" and "?n - f \<le> tot" and tot: "0 < tot"
    using fn step.hyps step.prems assms(5) by linarith+
  then have sub: "Sub ?n f = ?n - f"
    using assms(5,6) by (intro Sub_exact) (simp add: int64_def minInt64_def)
  have part: "part = amount * (?n - f) div tot"
    unfolding part_def sub using \<open>?n - f \<le> tot\<close> fn tot assms(3,4)
    by (intro mulDiv_exact) auto
  have le: "part * tot \<le> amount * (?n - f)"
    unfolding part using tot by (metis div_mult_mod_eq le_add_same_cancel1 mult.commute pos_mod_sign)
  have nonneg: "0 \<le> part" unfolding part_def by (rule mulDiv_nonneg)
  have "amount * (to - ?n) + amount * (?n - f) \<le> r * tot"
    using step.prems(2) by (simp add: algebra_simps)
  then have inv: "amount * (to - ?n) \<le> (r - part) * tot"
    using le by (simp add: algebra_simps)
  have "0 \<le> amount * (to - ?n)" using assms(3) step.hyps by simp
  with inv have rp: "0 \<le> r - part" using tot by (metis mult_neg_pos not_less order_trans linorder_not_le)
  then have s64: "sub64 r part = r - part"
    using step.prems(3) assms(4) nonneg by (intro sub64_exact) (simp add: int64_def minInt64_def)
  have "sum_list (map snd (split_segs w amount tot to ?n (r - part))) = r - part \<and>
     (\<forall>p \<in> set (split_segs w amount tot to ?n (r - part)). 0 \<le> snd p \<and> snd p \<le> r - part)"
    using step.IH inv fn step.prems nonneg s64 unfolding part_def [symmetric] by simp
  then show ?case
    using step.hyps nonneg rp s64 assms(1)
    by (auto simp: split_segs_step part_def [symmetric] dest!: bspec)
qed

text \<open>The windows of the segments are the consecutive windows from the first to the last.\<close>

lemma split_segs_starts:
  assumes "0 < wlength w" and "segFrom < to"
  shows "set (map fst (split_segs w amount tot to segFrom r)) =
      {s. wlength w dvd s \<and> s < to \<and> segFrom < s + wlength w} \<and>
    sorted_wrt (<) (map fst (split_segs w amount tot to segFrom r))"
  using assms
proof (induction segFrom r rule: split_segs_induct [where amount = amount and tot = tot])
  case (last f r)
  have "s = startOf w f" if "wlength w dvd s" "s < to" "f < s + wlength w" for s
    using that last startOf_le [of w f] startOf_dvd [OF assms(1), of f]
    by (intro aligned_unique [OF assms(1)]) linarith+
  moreover have "startOf w f < to" "f < startOf w f + wlength w" "wlength w dvd startOf w f"
    using last startOf_le [of w f] startOf_end [OF assms(1), of f] startOf_dvd [OF assms(1), of f]
    by simp_all
  ultimately have "{s. wlength w dvd s \<and> s < to \<and> f < s + wlength w} = {startOf w f}"
    by blast
  then show ?case
    using assms(1) last by (simp add: split_segs_last)
next
  case (step f r)
  let ?n = "startOf w f + wlength w"
  have "f < to" using step.hyps startOf_end [OF assms(1), of f] by linarith
  have mem: "s = startOf w f \<or> ?n < s + wlength w"
    if "wlength w dvd s" "f < s + wlength w" for s
    using that startOf_le [of w f] startOf_dvd [OF assms(1), of f] assms(1)
      aligned_unique [OF assms(1), of s "startOf w f"] by linarith
  have ext: "{s. wlength w dvd s \<and> s < to \<and> f < s + wlength w} =
      insert (startOf w f) {s. wlength w dvd s \<and> s < to \<and> ?n < s + wlength w}"
  proof (intro set_eqI iffI)
    fix s assume "s \<in> insert (startOf w f) {s. wlength w dvd s \<and> s < to \<and> ?n < s + wlength w}"
    then show "s \<in> {s. wlength w dvd s \<and> s < to \<and> f < s + wlength w}"
      using startOf_le [of w f] startOf_end [OF assms(1), of f] startOf_dvd [OF assms(1), of f]
        \<open>f < to\<close> by auto
  qed (use mem in auto)
  show ?case
    using step assms(1) ext by (simp add: split_segs_step)
qed

text \<open>The part of \<open>[from, to)\<close> that lies in the window starting at \<open>s\<close>.\<close>

definition overlap :: "windowing \<Rightarrow> time \<Rightarrow> time \<Rightarrow> time \<Rightarrow> int" where
  "overlap w from to s = min (s + wlength w) to - max s from"

lemma overlap_segment:
  assumes "0 < wlength w" and "f = from \<or> from \<le> f \<and> startOf w f = f"
  shows "overlap w from to (startOf w f) = min (startOf w f + wlength w) to - f"
  using assms startOf_le [of w f] by (auto simp: overlap_def max_def)

lemma split_segs_shares:
  assumes "0 < wlength w" and "segFrom < to" and "0 \<le> amount" and "int64 amount"
    and "tot = to - from" and "int64 (to - from)"
    and "segFrom = from \<or> from \<le> segFrom \<and> startOf w segFrom = segFrom"
  shows "\<forall>(s, p) \<in> set (butlast (split_segs w amount tot to segFrom r)).
    p = amount * overlap w from to s div tot"
  using assms(1,2,7)
proof (induction segFrom r rule: split_segs_induct [where amount = amount and tot = tot])
  case (last f r)
  then show ?case using assms(1) by (simp add: split_segs_last)
next
  case (step f r)
  let ?n = "startOf w f + wlength w"
  have fn: "f < ?n" using startOf_end [OF assms(1)] .
  have ov: "overlap w from to (startOf w f) = ?n - f"
    using overlap_segment [OF assms(1) step.prems] step.hyps by simp
  have le: "?n - f \<le> tot" and pos: "0 < tot" using fn step.hyps step.prems assms(5) by linarith+
  then have "Sub ?n f = ?n - f"
    using fn assms(5,6) by (intro Sub_exact) (simp add: int64_def minInt64_def)
  then have part: "mulDiv amount (Sub ?n f) tot = amount * overlap w from to (startOf w f) div tot"
    using le pos fn assms(3,4) ov by (simp add: mulDiv_exact)
  have "from \<le> ?n" using fn step.prems by linarith
  then show ?case
    using step assms(1) part startOf_next [OF assms(1)]
    by (cases "split_segs w amount tot to ?n (sub64 r (mulDiv amount (Sub ?n f) tot))")
      (auto simp: split_segs_step)
qed

lemma split_segs_duration:
  assumes "0 < wlength w" and "segFrom < to" and "tot = to - from" and "int64 (to - from)"
    and "segFrom = from \<or> from \<le> segFrom \<and> startOf w segFrom = segFrom"
    and "r = to - segFrom"
  shows "\<forall>(s, p) \<in> set (split_segs w tot tot to segFrom r). p = overlap w from to s"
  using assms(1,2,5,6)
proof (induction segFrom r rule: split_segs_induct [where amount = tot and tot = tot])
  case (last f r)
  then show ?case
    using assms(1) overlap_segment [OF assms(1) last.prems(1), of to] by (simp add: split_segs_last)
next
  case (step f r)
  let ?n = "startOf w f + wlength w"
  have fn: "f < ?n" using startOf_end [OF assms(1)] .
  have ov: "overlap w from to (startOf w f) = ?n - f"
    using overlap_segment [OF assms(1) step.prems(1)] step.hyps by simp
  have le: "?n - f \<le> tot" and pos: "0 < tot" using fn step.hyps step.prems assms(3) by linarith+
  then have "Sub ?n f = ?n - f"
    using fn assms(3,4) by (intro Sub_exact) (simp add: int64_def minInt64_def)
  then have part: "mulDiv tot (Sub ?n f) tot = ?n - f"
    using le pos fn assms(3,4) by (simp add: mulDiv_exact)
  have "from \<le> f" using step.prems by auto
  then have "int64 (to - ?n)"
    using step.hyps fn assms(4) by (simp add: int64_def minInt64_def)
  moreover have "r - (?n - f) = to - ?n" using step.prems(2) by linarith
  ultimately have "sub64 r (?n - f) = to - ?n" using sub64_exact by metis
  moreover have "from \<le> ?n" using fn \<open>from \<le> f\<close> by linarith
  ultimately show ?case
    using step assms(1) part ov startOf_next [OF assms(1)]
    by (auto simp: split_segs_step)
qed

text \<open>The same facts of \<open>split\<close> itself, in the form the accumulators use them.\<close>

lemma split_empty: "to \<le> from \<or> amount < 0 \<Longrightarrow> split w from to amount = []"
  by (auto simp: split_def Let_def)

lemma split_sum:
  assumes "0 < wlength w" and "from < to" and "int64 (to - from)" and "0 \<le> amount" and "int64 amount"
  shows "sum_list (map snd (split w from to amount)) = amount"
    and "\<forall>p \<in> set (split w from to amount). 0 \<le> snd p \<and> snd p \<le> amount"
  using assms split_segs_sound [of w "from" to amount "Sub to from" "from" amount]
  by (simp_all add: split_def Sub_exact)

lemma split_starts:
  assumes "0 < wlength w" and "from < to" and "0 \<le> amount"
  shows "set (map fst (split w from to amount)) =
      {s. wlength w dvd s \<and> s < to \<and> from < s + wlength w}"
    and "sorted_wrt (<) (map fst (split w from to amount))"
  using assms split_segs_starts [OF assms(1,2), of amount "Sub to from" amount]
  by (simp_all add: split_def not_less)

lemma split_aligned:
  "0 < wlength w \<Longrightarrow> (s, p) \<in> set (split w from to amount) \<Longrightarrow> wlength w dvd s \<and> s < to \<and> from < s + wlength w"
proof (cases "to \<le> from \<or> amount < 0")
  case False
  assume "0 < wlength w" and mem: "(s, p) \<in> set (split w from to amount)"
  have "s \<in> set (map fst (split w from to amount))" using mem by force
  then show ?thesis using split_starts(1) [of w "from" to amount] False \<open>0 < wlength w\<close> by (simp del: set_map)
qed (simp add: split_empty)

lemma split_duration:
  assumes "0 < wlength w" and "from < to" and "int64 (to - from)"
  shows "\<forall>(s, p) \<in> set (split w from to (to - from)). p = overlap w from to s"
  using assms split_segs_duration [OF assms(1,2), of "to - from" "from" "to - from"]
  by (simp add: split_def Sub_exact Let_def)

section \<open>Properties\<close>

text \<open>
  The parts of a split counter delta sum to exactly the delta, and none of them is
  negative or larger than it: for a positive window length, an interval that is not empty
  and a delta that is not negative, however the interval falls on the window grid.
\<close>

theorem split_conserves_amount:
  assumes "0 < wlength w" and "from < to" and "int64 (to - from)" and "0 \<le> amount" and "int64 amount"
  shows "sum_list (map snd (split w from to amount)) = amount \<and>
    (\<forall>p \<in> set (split w from to amount). 0 \<le> snd p \<and> snd p \<le> amount)"
  using split_sum [OF assms] by simp

theorem split_conserves_amount_witness:
  "0 < wlength \<lparr>wlength = 10\<rparr> \<and>
   sum_list (map snd (split \<lparr>wlength = 10\<rparr> 7 25 100)) = 100 \<and>
   map snd (split \<lparr>wlength = 10\<rparr> 7 25 100) = [16, 55, 29]"
proof -
  have "sum_list (map snd (split \<lparr>wlength = 10\<rparr> 7 25 100)) = 100"
    using split_conserves_amount [of "\<lparr>wlength = 10\<rparr>" 7 25 100]
    by (simp add: int64_def minInt64_def maxInt64_def)
  moreover have "map snd (split \<lparr>wlength = 10\<rparr> 7 25 100) = [16, 55, 29]"
    by (simp add: split_def split_segs.simps Sub_def clamp64_def minInt64_def maxInt64_def startOf_def
        Truncate_def mulDiv_eq sub64_def wrap64_def)
  ultimately show ?thesis by simp
qed

text \<open>
  The split yields exactly the windows that overlap the interval, each of them once and
  in ascending order; every part but the last is the pro-rata share of the delta rounded
  down, and when the delta is the duration of the interval every part is exactly the time
  the interval spends in its window.
\<close>

theorem split_windows_pro_rata:
  assumes "0 < wlength w" and "from < to" and "int64 (to - from)" and "0 \<le> amount" and "int64 amount"
  shows "set (map fst (split w from to amount)) =
      {s. wlength w dvd s \<and> s < to \<and> from < s + wlength w} \<and>
    sorted_wrt (<) (map fst (split w from to amount)) \<and>
    (\<forall>(s, p) \<in> set (butlast (split w from to amount)).
      p = amount * overlap w from to s div (to - from)) \<and>
    (\<forall>(s, p) \<in> set (split w from to (to - from)). p = overlap w from to s)"
  using assms split_starts [OF assms(1,2,4)] split_duration [OF assms(1,2,3)]
    split_segs_shares [OF assms(1,2,4,5), of "to - from" "from" amount]
  by (simp add: split_def Sub_exact Let_def)

theorem split_windows_pro_rata_witness:
  "set (map fst (split \<lparr>wlength = 10\<rparr> 7 25 100)) = {s. 10 dvd s \<and> s < 25 \<and> 7 < s + 10} \<and>
   20 \<in> set (map fst (split \<lparr>wlength = 10\<rparr> 7 25 100))"
proof -
  have "set (map fst (split \<lparr>wlength = 10\<rparr> 7 25 100)) = {s. 10 dvd s \<and> s < 25 \<and> 7 < s + 10}"
    using split_windows_pro_rata [of "\<lparr>wlength = 10\<rparr>" 7 25 100]
    by (simp add: int64_def minInt64_def maxInt64_def)
  then show ?thesis by (simp del: set_map)
qed

text \<open>
  C38. The loop of \<open>split\<close>, which walks from window edge to window edge, ends for every
  positive window length and computes the list the model uses.
\<close>

theorem split_loop_terminates:
  assumes "0 < wlength w" and "from < to" and "0 \<le> amount"
  shows "split_loop w amount (Sub to from) to from amount = Some (split w from to amount)"
  using assms split_loop_segs [OF assms(1,2)] by (simp add: split_def not_less)

theorem split_loop_terminates_witness:
  "split_loop \<lparr>wlength = 10\<rparr> 100 (Sub 25 7) 25 7 100 = Some (split \<lparr>wlength = 10\<rparr> 7 25 100) \<and>
   split \<lparr>wlength = 10\<rparr> 7 25 100 \<noteq> []"
proof -
  have "split_loop \<lparr>wlength = 10\<rparr> 100 (Sub 25 7) 25 7 100 = Some (split \<lparr>wlength = 10\<rparr> 7 25 100)"
    by (rule split_loop_terminates) simp_all
  then show ?thesis
    by (simp add: split_def split_segs.simps Sub_def clamp64_def maxInt64_def minInt64_def Let_def)
qed

text \<open>
  \<open>mulDiv\<close> is the exact quotient of the full product for operands that are not negative and
  a positive divisor, saturating at the largest \<open>int64\<close>, and zero for any other operands.
\<close>

theorem mulDiv_spec:
  "mulDiv a b c =
     (if a < 0 \<or> b < 0 \<or> c \<le> 0 then 0 else min maxInt64 (a * b div c))"
proof (cases "a < 0 \<or> b < 0 \<or> c \<le> 0")
  case True
  then show ?thesis unfolding mulDiv_def by simp
next
  case False
  then show ?thesis using mulDiv_eq [of a b c] by simp
qed

end
