(* ===== verification/SplitStore.thy ===== *)
theory SplitStore
  imports Windowing WindowStore
begin

text \<open>
  Counter deltas written into a store of open windows. Both accumulators of
  \<open>internal/rollup\<close> pass the parts of \<open>split\<close> to the record of their window, creating it on
  first touch; \<open>add_parts\<close> is that loop on a store keyed by a subject and a window start.
  The lemmas say what the loop does to a total over all windows of a subject and to one
  field of one window, and are used for every counter of both accumulators.
\<close>

section \<open>Operations\<close>

definition add_parts ::
    "('a::linorder \<Rightarrow> time \<Rightarrow> 'r) \<Rightarrow> (int \<Rightarrow> 'r \<Rightarrow> 'r) \<Rightarrow> 'a \<Rightarrow> (time \<times> int) list \<Rightarrow>
     ('a \<times> int, 'r) gomap \<Rightarrow> ('a \<times> int, 'r) gomap" where
  "add_parts new add k parts m =
     fold (\<lambda>(start, part). mupd (new k start) (add part) (k, UnixNano start)) parts m"

text \<open>A field summed over all the windows of a subject, and read in one window.\<close>

definition key_total :: "('r \<Rightarrow> int) \<Rightarrow> 'a \<Rightarrow> ('a::linorder \<times> int, 'r) gomap \<Rightarrow> int" where
  "key_total f k m = sum_list (map (\<lambda>e. if fst (fst e) = k then f (snd e) else 0) (entries m))"

definition window_value :: "('r \<Rightarrow> int) \<Rightarrow> 'a \<Rightarrow> time \<Rightarrow> ('a::linorder \<times> int, 'r) gomap \<Rightarrow> int" where
  "window_value f k start m = (case mget m (k, UnixNano start) of None \<Rightarrow> 0 | Some r \<Rightarrow> f r)"

section \<open>Totals\<close>

lemma key_total_mput:
  "key_total f k (mput (k', n) r m) =
     key_total f k m + (if k' = k then f r - (case mget m (k', n) of None \<Rightarrow> 0 | Some r \<Rightarrow> f r) else 0)"
  by (simp add: key_total_def sum_list_upd_sorted mget.rep_eq split: option.splits)

lemma key_total_mupd:
  "key_total f k (mupd z g (k', n) m) =
     key_total f k m + (if k' = k then f (g (mget_or z m (k', n)))
       - (case mget m (k', n) of None \<Rightarrow> 0 | Some r \<Rightarrow> f r) else 0)"
  by (simp add: mupd_def key_total_mput)

text \<open>A write that adds \<open>v\<close> to a field adds \<open>v\<close> to its total; one that keeps it keeps it.\<close>

lemma key_total_add:
  assumes "f z = 0" and "\<And>r. f (g r) = add64 (f r) v"
  shows "wrap64 (key_total f k (mupd z g (k, n) m)) = wrap64 (key_total f k m + v)"
proof -
  let ?old = "case mget m (k, n) of None \<Rightarrow> 0 | Some r \<Rightarrow> f r"
  have "key_total f k (mupd z g (k, n) m) = (key_total f k m - ?old) + wrap64 (?old + v)"
    using assms by (auto simp: key_total_mupd mget_or_def add64_def split: option.splits)
  then show ?thesis by (simp add: int64_simps)
qed

lemma key_total_keep:
  assumes "f z = 0" and "\<And>r. f (g r) = f r"
  shows "key_total f k (mupd z g (k', n) m) = key_total f k m"
  using assms by (auto simp: key_total_mupd mget_or_def split: option.splits)

lemma key_total_other: "k' \<noteq> k \<Longrightarrow> key_total f k (mupd z g (k', n) m) = key_total f k m"
  by (simp add: key_total_mupd)

lemma key_total_add_parts:
  assumes "\<And>s. f (new k s) = 0" and "\<And>v r. f (add v r) = add64 (f r) v"
  shows "wrap64 (key_total f k (add_parts new add k parts m)) =
    wrap64 (key_total f k m + sum_list (map snd parts))"
proof (induction parts arbitrary: m)
  case (Cons sp parts)
  have "wrap64 (key_total f k (mupd (new k (fst sp)) (add (snd sp)) (k, UnixNano (fst sp)) m)) =
      wrap64 (key_total f k m + snd sp)"
    using assms by (intro key_total_add) simp_all
  then show ?case
    using Cons [of "mupd (new k (fst sp)) (add (snd sp)) (k, UnixNano (fst sp)) m"]
    by (simp add: add_parts_def case_prod_beta) (metis add.assoc wrap64_add_left)
qed (simp add: add_parts_def)

lemma key_total_add_parts_keep:
  assumes "\<And>s. f (new k' s) = 0" and "\<And>v r. f (add v r) = f r"
  shows "key_total f k (add_parts new add k' parts m) = key_total f k m"
  using assms
  by (induction parts arbitrary: m) (simp_all add: add_parts_def case_prod_beta key_total_keep)

section \<open>One window\<close>

lemma window_value_add:
  assumes "f z = 0" and "\<And>r. f (g r) = add64 (f r) v" and "n = UnixNano start"
  shows "wrap64 (window_value f k start (mupd z g (k', n) m)) =
    wrap64 (window_value f k start m + (if k' = k then v else 0))"
  using assms by (auto simp: window_value_def mget_or_def add64_def split: option.splits)

lemma window_value_keep:
  assumes "f z = 0" and "\<And>r. f (g r) = f r"
  shows "window_value f k start (mupd z g key m) = window_value f k start m"
  using assms by (auto simp: window_value_def mget_or_def split: option.splits)

lemma window_value_elsewhere:
  "key \<noteq> (k, UnixNano start) \<Longrightarrow> window_value f k start (mupd z g key m) = window_value f k start m"
  by (simp add: window_value_def)

lemma window_value_add_parts:
  assumes "\<And>s. f (new k s) = 0" and "\<And>v r. f (add v r) = add64 (f r) v"
  shows "wrap64 (window_value f k start (add_parts new add k parts m)) =
    wrap64 (window_value f k start m +
      sum_list (map snd (filter (\<lambda>sp. UnixNano (fst sp) = UnixNano start) parts)))"
proof (induction parts arbitrary: m)
  case (Cons sp parts)
  let ?m = "mupd (new k (fst sp)) (add (snd sp)) (k, UnixNano (fst sp)) m"
  show ?case
  proof (cases "UnixNano (fst sp) = UnixNano start")
    case True
    then have "wrap64 (window_value f k start ?m) = wrap64 (window_value f k start m + snd sp)"
      using window_value_add [of f "new k (fst sp)" "add (snd sp)" "snd sp" "UnixNano (fst sp)" start k k m] assms
      by simp
    then have "wrap64 (window_value f k start ?m + x) = wrap64 (window_value f k start m + (snd sp + x))" for x
      by (metis add.assoc wrap64_add_left)
    moreover have "add_parts new add k (sp # parts) m = add_parts new add k parts ?m"
      by (simp add: add_parts_def case_prod_beta)
    ultimately show ?thesis using Cons [of ?m] True by simp
  next
    case False
    then have "window_value f k start ?m = window_value f k start m"
      by (intro window_value_elsewhere) auto
    then show ?thesis using Cons [of ?m] False by (simp add: add_parts_def case_prod_beta)
  qed
qed (simp add: add_parts_def)

lemma window_value_add_parts_keep:
  assumes "\<And>s. f (new k' s) = 0" and "\<And>v r. f (add v r) = f r"
  shows "window_value f k start (add_parts new add k' parts m) = window_value f k start m"
  using assms
  by (induction parts arbitrary: m) (simp_all add: add_parts_def case_prod_beta window_value_keep)

lemma mget_add_parts_other:
  "fst key \<noteq> k \<Longrightarrow> mget (add_parts new add k parts m) key = mget m key"
  by (induction parts arbitrary: m) (auto simp: add_parts_def case_prod_beta)

text \<open>
  The duration of an interval, split over its windows, credits each window with the time the
  interval spends in it, as far as window starts have distinct \<open>UnixNano\<close> values.
\<close>

lemma sum_filter_unique:
  assumes "distinct (map fst ps)" and "(s, p) \<in> set ps" and "\<And>s' p'. (s', p') \<in> set ps \<Longrightarrow> P s' \<longleftrightarrow> s' = s"
  shows "sum_list (map snd (filter (\<lambda>sp. P (fst sp)) ps)) = (p :: int)"
  using assms
proof (induction ps)
  case (Cons sp ps)
  obtain s0 p0 where sp: "sp = (s0, p0)" by force
  show ?case
  proof (cases "s0 = s")
    case True
    have out: "s \<notin> fst ` set ps" using Cons.prems(1) sp True by simp
    have "\<not> P (fst e)" if "e \<in> set ps" for e
    proof -
      have "(fst e, snd e) \<in> set (sp # ps)" using that by simp
      then have "P (fst e) \<longleftrightarrow> fst e = s" by (rule Cons.prems(3))
      then show ?thesis using out that by force
    qed
    then have "filter (\<lambda>sp. P (fst sp)) ps = []" by (simp add: filter_empty_conv)
    moreover have "P s" using Cons.prems(3) [of s0 p0] sp True by simp
    moreover have "p0 = p" using Cons.prems(2) sp out True by force
    ultimately show ?thesis using sp True by simp
  next
    case False
    have "\<not> P s0" using Cons.prems(3) [of s0 p0] sp False by simp
    moreover have "sum_list (map snd (filter (\<lambda>sp. P (fst sp)) ps)) = p"
      using Cons.prems sp False by (intro Cons.IH) auto
    ultimately show ?thesis using sp by simp
  qed
qed simp

lemma split_duration_at:
  assumes w: "0 < wlength w" and iv: "from < to" "int64 (to - from)" and s: "wlength w dvd s"
    and range: "\<And>t. t \<in> {startOf w from, to, s} \<Longrightarrow> int64 (t - epoch)"
  shows "sum_list (map snd (filter (\<lambda>sp. UnixNano (fst sp) = UnixNano s) (split w from to (to - from)))) =
    max 0 (overlap w from to s)"
proof -
  let ?ps = "split w from to (to - from)"
  note starts = split_starts [OF w iv(1), of "to - from"]
  have dist: "distinct (map fst ?ps)"
    using starts(2) iv(1) by (auto simp: strict_sorted_iff)
  have mem: "s' \<in> set (map fst ?ps) \<longleftrightarrow> wlength w dvd s' \<and> s' < to \<and> from < s' + wlength w" for s'
    using starts(1) iv(1) by (simp del: set_map)
  have eq: "UnixNano s' = UnixNano s \<longleftrightarrow> s' = s" if "s' \<in> set (map fst ?ps)" for s'
  proof -
    have "startOf w from \<le> s'"
    proof (rule ccontr)
      assume "\<not> startOf w from \<le> s'"
      then have "s' + wlength w \<le> startOf w from"
        using that mem startOf_dvd [OF w, of "from"]
        by (metis zdvd_imp_le dvd_diff zle_diff1_eq diff_gt_0_iff_gt add.commute le_diff_eq not_le)
      then show False using that mem startOf_le [of w "from"] by fastforce
    qed
    then have "int64 (s' - epoch)"
      using range [of "startOf w from"] range [of to] that mem by (auto simp: int64_def)
    then show ?thesis using range [of s] UnixNano_inj by auto
  qed
  show ?thesis
  proof (cases "s \<in> set (map fst ?ps)")
    case True
    then obtain p where p: "(s, p) \<in> set ?ps" by auto
    have "p = overlap w from to s" using split_duration [OF w iv] p by auto
    moreover have "0 \<le> overlap w from to s" using True mem w iv(1) by (auto simp: overlap_def)
    moreover have "sum_list (map snd (filter (\<lambda>sp. UnixNano (fst sp) = UnixNano s) ?ps)) = p"
      using dist p eq by (intro sum_filter_unique [where P = "\<lambda>t. UnixNano t = UnixNano s"]) force+
    ultimately show ?thesis by simp
  next
    case False
    then have "filter (\<lambda>sp. UnixNano (fst sp) = UnixNano s) ?ps = []"
      using eq by (force simp: filter_empty_conv)
    moreover have "overlap w from to s \<le> 0" using False mem s by (auto simp: overlap_def)
    ultimately show ?thesis by simp
  qed
qed

end
