(* ===== verification/Accumulator.thy ===== *)
theory Accumulator
  imports RollupRecord SplitStore
begin

text \<open>
  The usage accumulator of \<open>internal/rollup/accumulator.go\<close>: open records keyed by container
  and window, the observations that write into them, \<open>Seed\<close>, \<open>CloseBefore\<close> and
  \<open>Snapshots\<close>. A write through the pointer \<open>recordAt\<close> returns is \<open>write_at\<close>: it puts the
  changed record back under the key it was found at.

  The lemmas carry the split of a counter delta into the records: nothing of a delta is lost
  or counted twice, every window is credited with the time it was observed, and a record
  seeded from the spool continues as if the process had not stopped.
\<close>

section \<open>Definitions\<close>

type_synonym openKey = "Key \<times> int"

record Accumulator =
  Acc_win :: windowing
  Acc_open :: "(openKey, Histogram Record) gomap"

text \<open>\<^const>\<open>None\<close> is the panic on a window length that is not positive.\<close>

definition NewAccumulator :: "duration \<Rightarrow> Accumulator option" where
  "NewAccumulator windowLength =
     (if windowLength \<le> 0 then None
      else Some \<lparr>Acc_win = \<lparr>wlength = windowLength\<rparr>, Acc_open = mempty\<rparr>)"

definition recordAt :: "Key \<Rightarrow> time \<Rightarrow> Accumulator \<Rightarrow> Histogram Record \<times> Accumulator" where
  "recordAt k start a =
     (let ok = (k, UnixNano start) in
      case mget (Acc_open a) ok of
        Some r \<Rightarrow> (r, a)
      | None \<Rightarrow>
          let r = newRecord k start (seconds (Acc_win a))
          in (r, a\<lparr>Acc_open := mput ok r (Acc_open a)\<rparr>))"

definition write_at :: "Key \<Rightarrow> time \<Rightarrow> rec_op \<Rightarrow> Accumulator \<Rightarrow> Accumulator" where
  "write_at k start op a =
     (let (r, a) = recordAt k start a
      in a\<lparr>Acc_open := mput (k, UnixNano start) (apply_op op r) (Acc_open a)\<rparr>)"

text \<open>\<open>a.record(k, at)\<close>, written through: the record of the window containing \<open>at\<close>.\<close>

definition write_record :: "Key \<Rightarrow> time \<Rightarrow> rec_op \<Rightarrow> Accumulator \<Rightarrow> Accumulator" where
  "write_record k at op a = write_at k (startOf (Acc_win a) at) op a"

definition addProRata ::
    "Key \<Rightarrow> time \<Rightarrow> time \<Rightarrow> int \<Rightarrow> (int \<Rightarrow> rec_op) \<Rightarrow> Accumulator \<Rightarrow> Accumulator" where
  "addProRata k from to amount add a =
     fold (\<lambda>(start, part). write_at k start (add part)) (split (Acc_win a) from to amount) a"

definition ObserveCPUDelta :: "Key \<Rightarrow> time \<Rightarrow> time \<Rightarrow> int \<Rightarrow> Accumulator \<Rightarrow> Accumulator" where
  "ObserveCPUDelta k from to coreNanos a =
     (if Sub to from \<le> 0 \<or> coreNanos < 0 then a
      else
        let a = addProRata k from to coreNanos AddCoreNanoseconds a;
            a = addProRata k from to (Sub to from) AddCoveredNanoseconds a
        in write_record k (to - nanosecond) (ObserveRate (mulDiv coreNanos 1000 (Sub to from))) a)"

definition ObserveThrottling ::
    "Key \<Rightarrow> time \<Rightarrow> time \<Rightarrow> int \<Rightarrow> int \<Rightarrow> Accumulator \<Rightarrow> Accumulator" where
  "ObserveThrottling k from to throttledPeriods totalPeriods a =
     (let a = addProRata k from to throttledPeriods AddThrottledPeriods a;
          a = addProRata k from to totalPeriods AddTotalPeriods a
      in if to > from then write_record k (to - nanosecond) CountThrottlingSample a else a)"

definition ObserveCPUPSI :: "Key \<Rightarrow> time \<Rightarrow> time \<Rightarrow> int \<Rightarrow> Accumulator \<Rightarrow> Accumulator" where
  "ObserveCPUPSI k from to stallNanos a =
     (let a = addProRata k from to stallNanos AddCPUPSIStall a
      in if to > from then write_record k (to - nanosecond) CountCPUPSISample a else a)"

definition ObserveMemoryPSI :: "Key \<Rightarrow> time \<Rightarrow> time \<Rightarrow> int \<Rightarrow> Accumulator \<Rightarrow> Accumulator" where
  "ObserveMemoryPSI k from to stallNanos a =
     (let a = addProRata k from to stallNanos AddMemoryPSIStall a
      in if to > from then write_record k (to - nanosecond) CountMemoryPSISample a else a)"

definition ObserveMemory :: "Key \<Rightarrow> time \<Rightarrow> int \<Rightarrow> Accumulator \<Rightarrow> Accumulator" where
  "ObserveMemory k at workingSetBytes a =
     (if workingSetBytes < 0 then a else write_record k at (ObserveMemorySample workingSetBytes) a)"

definition Seed ::
    "(Histogram option) Record \<Rightarrow> Accumulator \<Rightarrow> Accumulator \<times> rollup_error option" where
  "Seed r a =
     (if Record_WindowSeconds r \<noteq> seconds (Acc_win a) then (a, Some ForeignWindowLength)
      else let start = Record_WindowStart r in
        if startOf (Acc_win a) start \<noteq> start then (a, Some OffGrid)
        else if CPU_Hist (CPU r) = None \<or> Mem_Hist (Memory r) = None then (a, Some NoHistogram)
        else
          let (held, a) = recordAt (Record_Key r) start a;
              (merged, err) = Record_Merge held (fill_record r)
          in (a\<lparr>Acc_open := mput (Record_Key r, UnixNano start) merged (Acc_open a)\<rparr>, err))"

text \<open>The comparison function of \<open>sortRecords\<close>.\<close>

definition less_record :: "Histogram Record \<Rightarrow> Histogram Record \<Rightarrow> bool" where
  "less_record a b =
     (if Record_WindowStart a \<noteq> Record_WindowStart b then Record_WindowStart a < Record_WindowStart b
      else if Key_Namespace (Record_Key a) \<noteq> Key_Namespace (Record_Key b)
        then Key_Namespace (Record_Key a) < Key_Namespace (Record_Key b)
      else if Key_WorkloadKind (Record_Key a) \<noteq> Key_WorkloadKind (Record_Key b)
        then Key_WorkloadKind (Record_Key a) < Key_WorkloadKind (Record_Key b)
      else if Key_WorkloadName (Record_Key a) \<noteq> Key_WorkloadName (Record_Key b)
        then Key_WorkloadName (Record_Key a) < Key_WorkloadName (Record_Key b)
      else Key_Container (Record_Key a) < Key_Container (Record_Key b))"

definition Accumulator_CloseBefore ::
    "time \<Rightarrow> Accumulator \<Rightarrow> Histogram Record list \<times> Accumulator" where
  "Accumulator_CloseBefore now a =
     (let (out, m) = close_before less_record (\<lambda>r. r) Record_WindowStart (wlength (Acc_win a)) now (Acc_open a)
      in (out, a\<lparr>Acc_open := m\<rparr>))"

definition Accumulator_Snapshots :: "Accumulator \<Rightarrow> Histogram Record list" where
  "Accumulator_Snapshots a = snapshots less_record Record_clone (Acc_open a)"

section \<open>The store of open records\<close>

definition record_skey :: "Histogram Record \<Rightarrow> time \<times> Key" where
  "record_skey r = (Record_WindowStart r, Record_Key r)"

definition record_key :: "Histogram Record \<Rightarrow> openKey" where
  "record_key r = (Record_Key r, UnixNano (Record_WindowStart r))"

lemma less_record_skey: "less_record a b \<longleftrightarrow> record_skey a < record_skey b"
  by (cases "Record_Key a"; cases "Record_Key b")
    (auto simp: less_record_def record_skey_def less_prod_def less_Key_def)

interpretation usage_store: window_store less_record record_skey Record_WindowStart record_key Record_clone
  by unfold_locales (auto simp: less_record_skey record_skey_def record_key_def)

interpretation usage_close: window_store less_record record_skey Record_WindowStart record_key "\<lambda>r. r"
  by unfold_locales (auto simp: record_skey_def record_key_def)

text \<open>
  The invariant: windows have a positive length, and every record is stored under its own
  key and describes one window of the grid.
\<close>

definition acc_ok :: "Accumulator \<Rightarrow> bool" where
  "acc_ok a \<longleftrightarrow> 0 < wlength (Acc_win a) \<and> keyed record_key (Acc_open a) \<and>
     (\<forall>r \<in> set (mvalues (Acc_open a)).
        wlength (Acc_win a) dvd Record_WindowStart r \<and> Record_WindowSeconds r = seconds (Acc_win a))"

lemma recordAt_eq:
  "recordAt k s a =
     (let r = mget_or (newRecord k s (seconds (Acc_win a))) (Acc_open a) (k, UnixNano s)
      in (r, a\<lparr>Acc_open := mput (k, UnixNano s) r (Acc_open a)\<rparr>))"
  by (cases "mget (Acc_open a) (k, UnixNano s)")
    (simp_all add: recordAt_def mget_or_def Let_def mget_mput_same)

text \<open>A write and a split are updates of the store of open records.\<close>

lemma write_at_eq:
  "write_at k s op a =
     a\<lparr>Acc_open := mupd (newRecord k s (seconds (Acc_win a))) (apply_op op) (k, UnixNano s) (Acc_open a)\<rparr>"
  by (simp add: write_at_def recordAt_eq Let_def mupd_def)

lemma addProRata_eq:
  "addProRata k from to v add a =
     a\<lparr>Acc_open := add_parts (\<lambda>k s. newRecord k s (seconds (Acc_win a))) (apply_op \<circ> add) k
       (split (Acc_win a) from to v) (Acc_open a)\<rparr>"
proof -
  have "fold (\<lambda>(start, part). write_at k start (add part)) ps a =
      a\<lparr>Acc_open := add_parts (\<lambda>k s. newRecord k s (seconds (Acc_win a))) (apply_op \<circ> add) k ps (Acc_open a)\<rparr>" for ps
    by (induction ps arbitrary: a) (simp_all add: add_parts_def write_at_eq case_prod_beta)
  then show ?thesis by (simp add: addProRata_def)
qed

lemmas acc_simps = write_record_def write_at_eq addProRata_eq

lemma Acc_win_simps [simp]:
  "Acc_win (write_at k s op a) = Acc_win a"
  "Acc_win (write_record k s op a) = Acc_win a"
  "Acc_win (addProRata k from to v add a) = Acc_win a"
  by (simp_all add: acc_simps)

section \<open>The invariant\<close>

lemma acc_ok_iff:
  "acc_ok a \<longleftrightarrow> 0 < wlength (Acc_win a) \<and>
     (\<forall>ok r. mget (Acc_open a) ok = Some r \<longrightarrow> record_key r = ok \<and>
        wlength (Acc_win a) dvd Record_WindowStart r \<and> Record_WindowSeconds r = seconds (Acc_win a))"
  unfolding acc_ok_def keyed_iff Ball_def mvalues_iff by metis

lemma newRecord_sel [simp]:
  "Record_Key (newRecord k s n) = k"
  "Record_WindowStart (newRecord k s n) = s"
  "Record_WindowSeconds (newRecord k s n) = n"
  by (simp_all add: newRecord_def)

text \<open>Replacing the record of an aligned window by one of the same identity keeps it.\<close>

lemma acc_ok_mput:
  assumes "acc_ok a" and "wlength (Acc_win a) dvd s"
    and r0: "r0 = mget_or (newRecord k s (seconds (Acc_win a))) (Acc_open a) (k, UnixNano s)"
    and "Record_Key r = Record_Key r0" and "Record_WindowStart r = Record_WindowStart r0"
    and "Record_WindowSeconds r = Record_WindowSeconds r0"
  shows "acc_ok (a\<lparr>Acc_open := mput (k, UnixNano s) r (Acc_open a)\<rparr>)"
proof -
  have "record_key r0 = (k, UnixNano s) \<and> wlength (Acc_win a) dvd Record_WindowStart r0 \<and>
      Record_WindowSeconds r0 = seconds (Acc_win a)"
  proof (cases "mget (Acc_open a) (k, UnixNano s)")
    case None
    then show ?thesis using assms(2) by (simp add: r0 mget_or_def record_key_def)
  next
    case (Some r')
    moreover have "r0 = r'" using Some by (simp add: r0 mget_or_def)
    ultimately show ?thesis using assms(1) unfolding acc_ok_iff by blast
  qed
  then show ?thesis
    using assms by (simp add: acc_ok_iff record_key_def)
qed

lemma acc_ok_write_at:
  "acc_ok a \<Longrightarrow> wlength (Acc_win a) dvd s \<Longrightarrow> acc_ok (write_at k s op a)"
  unfolding write_at_eq mupd_def by (rule acc_ok_mput) simp_all

lemma acc_ok_window: "acc_ok a \<Longrightarrow> 0 < wlength (Acc_win a)"
  by (simp add: acc_ok_def)

lemma acc_ok_write_record: "acc_ok a \<Longrightarrow> acc_ok (write_record k at op a)"
  unfolding write_record_def by (intro acc_ok_write_at startOf_dvd acc_ok_window)

lemma acc_ok_addProRata:
  assumes "acc_ok a"
  shows "acc_ok (addProRata k from to v add a)"
proof -
  let ?P = "\<lambda>b. acc_ok b \<and> Acc_win b = Acc_win a"
  have "?P (fold (\<lambda>(start, part). write_at k start (add part)) (split (Acc_win a) from to v) a)"
  proof (rule fold_invariant_list [where P = ?P])
    fix sp b assume "sp \<in> set (split (Acc_win a) from to v)" and "?P b"
    then show "?P ((\<lambda>(start, part). write_at k start (add part)) sp b)"
      using split_aligned [OF acc_ok_window [OF assms], of "fst sp" "snd sp" "from" to v]
      by (auto simp: case_prod_beta intro: acc_ok_write_at)
  qed (simp add: assms)
  then show ?thesis by (simp add: addProRata_def)
qed

lemma Record_Merge_identity:
  assumes "Record_Merge r o1 = (r', e)"
  shows "Record_Key r' = Record_Key r \<and> Record_WindowStart r' = Record_WindowStart r \<and>
    Record_WindowSeconds r' = Record_WindowSeconds r"
  using assms by (auto simp: Record_Merge_def Let_def split: if_splits sum.splits)

lemma acc_ok_Seed: "acc_ok a \<Longrightarrow> acc_ok (fst (Seed r a))"
proof -
  assume a: "acc_ok a"
  let ?s = "Record_WindowStart r"
  show ?thesis
  proof (cases "startOf (Acc_win a) ?s = ?s")
    case True
    then have "wlength (Acc_win a) dvd ?s" using startOf_dvd [OF acc_ok_window [OF a], of ?s] by simp
    then show ?thesis
      using a by (auto simp: Seed_def recordAt_eq Let_def split: prod.splits
          dest!: Record_Merge_identity intro!: acc_ok_mput)
  qed (use a in \<open>simp add: Seed_def\<close>)
qed

lemma Acc_win_Seed [simp]: "Acc_win (fst (Seed r a)) = Acc_win a"
  by (simp add: Seed_def recordAt_eq Let_def split: prod.splits)

lemmas acc_ok_intros = acc_ok_write_record acc_ok_addProRata acc_ok_Seed

text \<open>The accumulators a run of the agent can hold.\<close>

inductive acc_reachable :: "duration \<Rightarrow> Accumulator \<Rightarrow> bool" where
  init: "NewAccumulator len = Some a \<Longrightarrow> acc_reachable len a"
| cpu: "acc_reachable len a \<Longrightarrow> acc_reachable len (ObserveCPUDelta k from to n a)"
| throttling: "acc_reachable len a \<Longrightarrow> acc_reachable len (ObserveThrottling k from to n m a)"
| cpu_psi: "acc_reachable len a \<Longrightarrow> acc_reachable len (ObserveCPUPSI k from to n a)"
| memory_psi: "acc_reachable len a \<Longrightarrow> acc_reachable len (ObserveMemoryPSI k from to n a)"
| memory: "acc_reachable len a \<Longrightarrow> acc_reachable len (ObserveMemory k at n a)"
| seed: "acc_reachable len a \<Longrightarrow> acc_reachable len (fst (Seed r a))"
| close: "acc_reachable len a \<Longrightarrow> acc_reachable len (snd (Accumulator_CloseBefore now a))"

section \<open>Effects of the observations\<close>

text \<open>Every field of a new record that counts or adds starts at zero.\<close>

lemma newRecord_zero [simp]:
  "CoreNanoseconds (CPU (newRecord k s n)) = 0" "CoveredNanoseconds (CPU (newRecord k s n)) = 0"
  "ThrottledPeriods (CPU (newRecord k s n)) = 0" "TotalPeriods (CPU (newRecord k s n)) = 0"
  "ThrottlingSamples (CPU (newRecord k s n)) = 0" "CPU_PSIStallNanoseconds (CPU (newRecord k s n)) = 0"
  "CPU_PSISamples (CPU (newRecord k s n)) = 0" "CPU_Samples (CPU (newRecord k s n)) = 0"
  "Mem_PSIStallNanoseconds (Memory (newRecord k s n)) = 0" "Mem_PSISamples (Memory (newRecord k s n)) = 0"
  "Mem_Samples (Memory (newRecord k s n)) = 0" "SumBytes (Memory (newRecord k s n)) = 0"
  by (simp_all add: newRecord_def)

lemma total_addProRata:
  assumes "0 < wlength (Acc_win a)" and "from < to" and "int64 (to - from)" and "0 \<le> v" and "int64 v"
    and "\<And>s n. f (newRecord k s n) = 0" and "\<And>x r. f (apply_op (add x) r) = add64 (f r) x"
  shows "wrap64 (key_total f k (Acc_open (addProRata k from to v add a))) =
    wrap64 (key_total f k (Acc_open a) + v)"
  using assms split_sum [OF assms(1-5)] by (simp add: addProRata_eq key_total_add_parts)

lemma total_addProRata_keep:
  assumes "\<And>s n. f (newRecord k s n) = 0" and "\<And>x r. f (apply_op (add x) r) = f r"
  shows "key_total f k' (Acc_open (addProRata k from to v add a)) = key_total f k' (Acc_open a)"
  using assms by (simp add: addProRata_eq key_total_add_parts_keep)

lemma total_write:
  assumes "\<And>s n. f (newRecord k s n) = 0" and "\<And>r. f (apply_op op r) = add64 (f r) v"
  shows "wrap64 (key_total f k (Acc_open (write_record k at op a))) =
    wrap64 (key_total f k (Acc_open a) + v)"
  using assms by (simp add: write_record_def write_at_eq key_total_add)

lemma total_write_keep:
  assumes "\<And>s n. f (newRecord k s n) = 0" and "\<And>r. f (apply_op op r) = f r"
  shows "key_total f k' (Acc_open (write_record k at op a)) = key_total f k' (Acc_open a)"
  using assms by (simp add: write_record_def write_at_eq key_total_keep)

lemmas total_simps = total_addProRata total_addProRata_keep total_write total_write_keep

lemma value_write_keep:
  assumes "\<And>s n. f (newRecord k s n) = 0" and "\<And>r. f (apply_op op r) = f r"
  shows "window_value f k' s (Acc_open (write_record k at op a)) = window_value f k' s (Acc_open a)"
  using assms by (simp add: write_record_def write_at_eq window_value_keep)

lemma value_addProRata_keep:
  assumes "\<And>s n. f (newRecord k s n) = 0" and "\<And>x r. f (apply_op (add x) r) = f r"
  shows "window_value f k' s (Acc_open (addProRata k from to v add a)) = window_value f k' s (Acc_open a)"
  using assms by (simp add: addProRata_eq window_value_add_parts_keep)

lemma value_addProRata_duration:
  assumes "0 < wlength (Acc_win a)" and "from < to" and "int64 (to - from)" and "wlength (Acc_win a) dvd s"
    and "int64 (startOf (Acc_win a) from - epoch)" and "int64 (to - epoch)" and "int64 (s - epoch)"
    and "\<And>s n. f (newRecord k s n) = 0" and "\<And>x r. f (apply_op (add x) r) = add64 (f r) x"
  shows "wrap64 (window_value f k s (Acc_open (addProRata k from to (to - from) add a))) =
    wrap64 (window_value f k s (Acc_open a) + max 0 (overlap (Acc_win a) from to s))"
proof -
  have "sum_list (map snd (filter (\<lambda>sp. UnixNano (fst sp) = UnixNano s) (split (Acc_win a) from to (to - from)))) =
      max 0 (overlap (Acc_win a) from to s)"
    using assms(5-7) by (intro split_duration_at [OF assms(1-4)]) auto
  then show ?thesis using assms(8,9) by (simp add: addProRata_eq window_value_add_parts)
qed

lemma value_write:
  assumes "\<And>s n. f (newRecord k s n) = 0" and "\<And>r. f (apply_op op r) = add64 (f r) v"
    and "int64 (startOf (Acc_win a) at - epoch)" and "int64 (s - epoch)"
  shows "wrap64 (window_value f k s (Acc_open (write_record k at op a))) =
    wrap64 (window_value f k s (Acc_open a) + (if s = startOf (Acc_win a) at then v else 0))"
proof (cases "s = startOf (Acc_win a) at")
  case True
  then show ?thesis
    using assms(1,2) window_value_add [of f "newRecord k s (seconds (Acc_win a))" "apply_op op" v _ s k k]
    by (simp add: write_record_def write_at_eq)
next
  case False
  then have "UnixNano s \<noteq> UnixNano (startOf (Acc_win a) at)" using assms(3,4) UnixNano_inj by blast
  then show ?thesis using False by (simp add: write_record_def write_at_eq window_value_elsewhere)
qed

lemmas value_simps = value_write value_write_keep value_addProRata_keep value_addProRata_duration

lemma mget_addProRata_other:
  "fst ok \<noteq> k \<Longrightarrow> mget (Acc_open (addProRata k from to v add a)) ok = mget (Acc_open a) ok"
  by (simp add: addProRata_eq mget_add_parts_other)

lemma mget_write_other:
  "fst ok \<noteq> k \<Longrightarrow> mget (Acc_open (write_record k at op a)) ok = mget (Acc_open a) ok"
  by (auto simp: write_record_def write_at_eq)

section \<open>Properties\<close>

text \<open>
  Every accumulator a run can reach from \<open>NewAccumulator\<close> holds each record under its own
  key and window start, on the window grid and with the accumulator's window length.
\<close>

theorem Accumulator_invariant:
  assumes "acc_reachable len a"
  shows "acc_ok a \<and> wlength (Acc_win a) = len"
  using assms
proof induction
  case (init len a)
  then show ?case by (auto simp: NewAccumulator_def acc_ok_iff split: if_splits)
next
  case (seed len a r)
  then show ?case by (simp add: acc_ok_Seed)
next
  case (close len a now)
  then show ?case
    by (auto simp: Accumulator_CloseBefore_def close_before_def acc_ok_iff mget_mfilter
        split: option.splits if_splits)
qed (auto simp: ObserveCPUDelta_def ObserveThrottling_def ObserveCPUPSI_def ObserveMemoryPSI_def
    ObserveMemory_def Let_def intro!: acc_ok_intros)

theorem Accumulator_invariant_witness:
  "acc_ok (ObserveMemory (Key ''ns'' ''Deployment'' ''web'' ''app'') 15 7
     \<lparr>Acc_win = \<lparr>wlength = 10\<rparr>, Acc_open = mempty\<rparr>)"
proof -
  have "acc_reachable 10 (ObserveMemory (Key ''ns'' ''Deployment'' ''web'' ''app'') 15 7
      \<lparr>Acc_win = \<lparr>wlength = 10\<rparr>, Acc_open = mempty\<rparr>)"
    by (intro acc_reachable.memory acc_reachable.init) (simp add: NewAccumulator_def)
  then show ?thesis using Accumulator_invariant by blast
qed



text \<open>
  Coverage describes its own window: after a CPU delta over \<open>[from, to)\<close> the covered
  nanoseconds of every window grow by exactly the time the interval spends in it, as \<open>int64\<close>
  values. The rate sample is counted in one window, the one that holds the last instant of
  the interval, and that window is one the interval has covered.
\<close>

theorem ObserveCPUDelta_covers:
  assumes "acc_ok a" and "from < to" and "int64 (to - from)" and "0 \<le> coreNanos"
    and "wlength (Acc_win a) dvd s"
    and "int64 (startOf (Acc_win a) from - epoch)" and "int64 (to - epoch)" and "int64 (s - epoch)"
  shows "let a' = ObserveCPUDelta k from to coreNanos a; w = Acc_win a; last = startOf w (to - nanosecond);
             val = \<lambda>f a. wrap64 (window_value (f \<circ> CPU) k s (Acc_open a)) in
    val CoveredNanoseconds a' = add64 (val CoveredNanoseconds a) (max 0 (overlap w from to s)) \<and>
    val CPU_Samples a' = add64 (val CPU_Samples a) (if s = last then 1 else 0) \<and>
    0 < overlap w from to last"
proof -
  have w: "0 < wlength (Acc_win a)" using assms(1) by (rule acc_ok_window)
  let ?last = "startOf (Acc_win a) (to - nanosecond)"
  have le: "startOf (Acc_win a) from \<le> ?last" "?last < to"
    using assms(2) Truncate_mono [OF w] startOf_le [of "Acc_win a" "to - nanosecond"]
    by (auto simp: startOf_def nanosecond_def)
  then have range: "int64 (?last - epoch)" using assms(6,7) by (auto simp: int64_def)
  have "0 < overlap (Acc_win a) from to ?last"
    using startOf_end [OF w, of "to - nanosecond"] le assms(2) w
    by (auto simp: overlap_def nanosecond_def)
  then show ?thesis
    using assms w range
    by (simp add: ObserveCPUDelta_def Let_def Sub_exact value_simps add64_def int64_simps)
qed

theorem ObserveCPUDelta_covers_witness:
  "wrap64 (window_value (CoveredNanoseconds \<circ> CPU) (Key ''ns'' ''Deployment'' ''web'' ''app'') (epoch + 10)
     (Acc_open (ObserveCPUDelta (Key ''ns'' ''Deployment'' ''web'' ''app'') (epoch + 7) (epoch + 25) 100
       \<lparr>Acc_win = \<lparr>wlength = 10\<rparr>, Acc_open = mempty\<rparr>))) = 10"
  using ObserveCPUDelta_covers [of "\<lparr>Acc_win = \<lparr>wlength = 10\<rparr>, Acc_open = mempty\<rparr>"
      "epoch + 7" "epoch + 25" 100 "epoch + 10" "Key ''ns'' ''Deployment'' ''web'' ''app''"]
  by (simp add: Let_def acc_ok_iff int64_def minInt64_def maxInt64_def window_value_def add64_def wrap64_def
      overlap_def startOf_def Truncate_def epoch_def unixToInternal_def second_def)

text \<open>
  Throttling and pressure counters are credited in full: their totals over all windows of
  the container grow by exactly the deltas, and one observation is counted.
\<close>

theorem throttling_and_pressure_conserve:
  assumes "acc_ok a" and "from < to" and "int64 (to - from)"
    and "0 \<le> throttled" and "int64 throttled" and "0 \<le> periods" and "int64 periods"
  shows "let tot = \<lambda>f a. wrap64 (key_total f k (Acc_open a));
             t = ObserveThrottling k from to throttled periods a;
             p = ObserveCPUPSI k from to throttled a;
             m = ObserveMemoryPSI k from to throttled a in
    tot (ThrottledPeriods \<circ> CPU) t = add64 (tot (ThrottledPeriods \<circ> CPU) a) throttled \<and>
    tot (TotalPeriods \<circ> CPU) t = add64 (tot (TotalPeriods \<circ> CPU) a) periods \<and>
    tot (ThrottlingSamples \<circ> CPU) t = add64 (tot (ThrottlingSamples \<circ> CPU) a) 1 \<and>
    tot (CPU_PSIStallNanoseconds \<circ> CPU) p = add64 (tot (CPU_PSIStallNanoseconds \<circ> CPU) a) throttled \<and>
    tot (CPU_PSISamples \<circ> CPU) p = add64 (tot (CPU_PSISamples \<circ> CPU) a) 1 \<and>
    tot (Mem_PSIStallNanoseconds \<circ> Memory) m = add64 (tot (Mem_PSIStallNanoseconds \<circ> Memory) a) throttled \<and>
    tot (Mem_PSISamples \<circ> Memory) m = add64 (tot (Mem_PSISamples \<circ> Memory) a) 1"
  using assms acc_ok_window [OF assms(1)]
  by (simp add: ObserveThrottling_def ObserveCPUPSI_def ObserveMemoryPSI_def Let_def total_simps
      add64_def int64_simps)

theorem throttling_and_pressure_conserve_witness:
  "wrap64 (key_total (ThrottledPeriods \<circ> CPU) (Key ''ns'' ''Deployment'' ''web'' ''app'')
     (Acc_open (ObserveThrottling (Key ''ns'' ''Deployment'' ''web'' ''app'') 7 25 3 9
       \<lparr>Acc_win = \<lparr>wlength = 10\<rparr>, Acc_open = mempty\<rparr>))) = 3"
  using throttling_and_pressure_conserve [of "\<lparr>Acc_win = \<lparr>wlength = 10\<rparr>, Acc_open = mempty\<rparr>" 7 25 3 9
      "Key ''ns'' ''Deployment'' ''web'' ''app''"]
  by (simp add: Let_def acc_ok_iff int64_def minInt64_def maxInt64_def key_total_def add64_def wrap64_def)

text \<open>A record as it is decoded from the spool file it was written to.\<close>

definition as_decoded :: "Histogram Record \<Rightarrow> (Histogram option) Record" where
  "as_decoded r =
     \<lparr>Record_Key = Record_Key r, Record_WindowStart = Record_WindowStart r,
      Record_WindowSeconds = Record_WindowSeconds r,
      CPU = \<lparr>CoreNanoseconds = CoreNanoseconds (CPU r), CoveredNanoseconds = CoveredNanoseconds (CPU r),
        ThrottledPeriods = ThrottledPeriods (CPU r), TotalPeriods = TotalPeriods (CPU r),
        ThrottlingSamples = ThrottlingSamples (CPU r), CPU_PSIStallNanoseconds = CPU_PSIStallNanoseconds (CPU r),
        CPU_PSISamples = CPU_PSISamples (CPU r), CPU_Samples = CPU_Samples (CPU r),
        MinMilli = MinMilli (CPU r), MaxMilli = MaxMilli (CPU r), CPU_Hist = Some (CPU_Hist (CPU r))\<rparr>,
      Memory = \<lparr>Mem_Samples = Mem_Samples (Memory r), MinBytes = MinBytes (Memory r),
        MaxBytes = MaxBytes (Memory r), SumBytes = SumBytes (Memory r),
        Mem_PSIStallNanoseconds = Mem_PSIStallNanoseconds (Memory r),
        Mem_PSISamples = Mem_PSISamples (Memory r), Mem_Hist = Some (Mem_Hist (Memory r))\<rparr>\<rparr>"

lemma as_decoded_sel [simp]:
  "Record_Key (as_decoded r) = Record_Key r"
  "Record_WindowStart (as_decoded r) = Record_WindowStart r"
  "Record_WindowSeconds (as_decoded r) = Record_WindowSeconds r"
  "fill_record (as_decoded r) = r"
  "CPU_Hist (CPU (as_decoded r)) = Some (CPU_Hist (CPU r))"
  "Mem_Hist (Memory (as_decoded r)) = Some (Mem_Hist (Memory r))"
  by (simp_all add: as_decoded_def fill_record_def fill_cpu_def fill_memory_def)

text \<open>
  A restart resumes an open window: seeding the record that a list of writes built before
  the restart leaves the window as if those writes had been made on the record the
  accumulator holds for it now. Nothing else in the accumulator changes.
\<close>

theorem Seed_resumes:
  assumes "startOf (Acc_win a) s = s"
    and "held = mget_or (newRecord k s (seconds (Acc_win a))) (Acc_open a) (k, UnixNano s)"
    and "Record_Key held = k" and "Record_WindowStart held = s"
    and "Record_WindowSeconds held = seconds (Acc_win a)"
    and "record_ok held" and "room_for ops held" and "length ops < 2 ^ 64"
  shows "Seed (as_decoded (fold apply_op ops (newRecord k s (seconds (Acc_win a))))) a =
    (a\<lparr>Acc_open := mput (k, UnixNano s) (fold apply_op ops held) (Acc_open a)\<rparr>, None)"
  using assms Record_Merge_writes [OF assms(6-8,3-5)]
  by (simp add: Seed_def recordAt_eq Let_def)

theorem Seed_resumes_witness:
  "Seed (as_decoded (fold apply_op [AddCoreNanoseconds 4, ObserveRate 3]
      (newRecord (Key ''ns'' ''Deployment'' ''web'' ''app'') 10 0))) \<lparr>Acc_win = \<lparr>wlength = 10\<rparr>, Acc_open = mempty\<rparr> =
    (\<lparr>Acc_win = \<lparr>wlength = 10\<rparr>, Acc_open = mput (Key ''ns'' ''Deployment'' ''web'' ''app'', UnixNano 10)
      (fold apply_op [AddCoreNanoseconds 4, ObserveRate 3]
        (newRecord (Key ''ns'' ''Deployment'' ''web'' ''app'') 10 0)) mempty\<rparr>, None)"
  using Seed_resumes [of "\<lparr>Acc_win = \<lparr>wlength = 10\<rparr>, Acc_open = mempty\<rparr>" 10
      "newRecord (Key ''ns'' ''Deployment'' ''web'' ''app'') 10 0" "Key ''ns'' ''Deployment'' ''web'' ''app''"
      "[AddCoreNanoseconds 4, ObserveRate 3]"]
  by (simp add: startOf_def Truncate_def seconds_def second_def signed_divide_int_def room_for_def maxInt64_def)

text \<open>
  C33. \<open>CloseBefore\<close> takes exactly the windows that ended at or before \<open>now\<close>: what it returns
  has ended, what stays has not, together they are the records it started from, the order
  of the result does not depend on the iteration order of the map, and closing again at an
  earlier instant returns nothing.
\<close>

theorem Accumulator_CloseBefore_partition:
  assumes "acc_ok a" and "Accumulator_CloseBefore now a = (out, a')"
  shows "(\<forall>r \<in> set out. Record_WindowStart r + wlength (Acc_win a) \<le> now) \<and>
    (\<forall>r \<in> set (mvalues (Acc_open a')). now < Record_WindowStart r + wlength (Acc_win a)) \<and>
    mset out + mset (mvalues (Acc_open a')) = mset (mvalues (Acc_open a)) \<and>
    (\<forall>ys. mset ys = mset out \<and> sorted_wrt (\<lambda>x y. \<not> less_record y x) ys \<longrightarrow> ys = out) \<and>
    (\<forall>now' \<le> now. Accumulator_CloseBefore now' a' = ([], a')) \<and> acc_ok a'"
proof -
  let ?close = "close_before less_record (\<lambda>r. r) Record_WindowStart (wlength (Acc_win a))"
  obtain m where m: "?close now (Acc_open a) = (out, m)" and a': "a' = a\<lparr>Acc_open := m\<rparr>"
    using assms(2) by (auto simp: Accumulator_CloseBefore_def split: prod.splits)
  have keyed: "keyed record_key (Acc_open a)" using assms(1) by (simp add: acc_ok_def)
  have "\<forall>ys. mset ys = mset out \<and> sorted_wrt (\<lambda>x y. \<not> less_record y x) ys \<longrightarrow> ys = out"
    using usage_close.close_before_deterministic [OF keyed m] m by (auto simp: close_before_def)
  moreover have "\<forall>now' \<le> now. Accumulator_CloseBefore now' a' = ([], a')"
    using usage_close.close_before_again [OF m] by (simp add: Accumulator_CloseBefore_def a')
  moreover have "acc_ok a'"
    using assms(1) usage_close.close_before_get [OF m]
    by (auto simp: acc_ok_iff a' split: option.splits if_splits)
  ultimately show ?thesis
    using usage_close.close_before_ended [OF m] usage_close.close_before_partition [OF m]
    by (simp add: a' ended_iff not_le)
qed

theorem Accumulator_CloseBefore_partition_witness:
  "mset (fst (Accumulator_CloseBefore 25 (ObserveMemory (Key ''ns'' ''Deployment'' ''web'' ''app'') 15 7
       \<lparr>Acc_win = \<lparr>wlength = 10\<rparr>, Acc_open = mempty\<rparr>))) +
     mset (mvalues (Acc_open (snd (Accumulator_CloseBefore 25 (ObserveMemory (Key ''ns'' ''Deployment'' ''web'' ''app'') 15 7
       \<lparr>Acc_win = \<lparr>wlength = 10\<rparr>, Acc_open = mempty\<rparr>))))) =
   mset (mvalues (Acc_open (ObserveMemory (Key ''ns'' ''Deployment'' ''web'' ''app'') 15 7
       \<lparr>Acc_win = \<lparr>wlength = 10\<rparr>, Acc_open = mempty\<rparr>)))"
proof -
  let ?a = "ObserveMemory (Key ''ns'' ''Deployment'' ''web'' ''app'') 15 7 \<lparr>Acc_win = \<lparr>wlength = 10\<rparr>, Acc_open = mempty\<rparr>"
  have "acc_ok \<lparr>Acc_win = \<lparr>wlength = 10\<rparr>, Acc_open = mempty\<rparr>" by (simp add: acc_ok_iff)
  then have "acc_ok ?a" and "wlength (Acc_win ?a) = 10"
    by (simp_all add: ObserveMemory_def acc_ok_write_record)
  then show ?thesis
    using Accumulator_CloseBefore_partition [of ?a 25 "fst (Accumulator_CloseBefore 25 ?a)"
        "snd (Accumulator_CloseBefore 25 ?a)"] by simp
qed

end
