(* ===== verification/Network.thy ===== *)
theory Network
  imports SplitStore
begin

text \<open>
  The network accumulator of \<open>internal/rollup/network.go\<close>: per-workload byte and error
  counters assigned to windows, with their own key and record, sharing the split and the
  store of the usage accumulator.
\<close>

section \<open>Definitions\<close>

datatype NetworkKey = NetworkKey
  (Net_Namespace: string) (Net_WorkloadKind: string) (Net_WorkloadName: string)

fun network_tuple :: "NetworkKey \<Rightarrow> string \<times> string \<times> string" where
  "network_tuple (NetworkKey n k w) = (n, k, w)"

lemma network_tuple_inj [simp]: "network_tuple a = network_tuple b \<longleftrightarrow> a = b"
  by (cases a; cases b) simp

instantiation NetworkKey :: linorder
begin

definition less_eq_NetworkKey :: "NetworkKey \<Rightarrow> NetworkKey \<Rightarrow> bool" where
  "less_eq_NetworkKey a b \<longleftrightarrow> network_tuple a \<le> network_tuple b"

definition less_NetworkKey :: "NetworkKey \<Rightarrow> NetworkKey \<Rightarrow> bool" where
  "less_NetworkKey a b \<longleftrightarrow> network_tuple a < network_tuple b"

instance
  by standard (auto simp: less_eq_NetworkKey_def less_NetworkKey_def order.strict_iff_order)

end

record NetworkRecord =
  Net_Key :: NetworkKey
  Net_WindowStart :: time
  Net_WindowSeconds :: int
  RxBytes :: int
  TxBytes :: int
  RxErrors :: int
  TxErrors :: int
  Net_Samples :: int
  Net_CoveredNanoseconds :: int
  Net_Interfaces :: int
  HostNetwork :: bool

record NetworkDelta =
  Delta_RxBytes :: int
  Delta_TxBytes :: int
  Delta_RxErrors :: int
  Delta_TxErrors :: int
  Delta_Interfaces :: int

type_synonym networkOpenKey = "NetworkKey \<times> int"

record NetworkAccumulator =
  Net_win :: windowing
  Net_open :: "(networkOpenKey, NetworkRecord) gomap"

definition NewNetworkAccumulator :: "duration \<Rightarrow> NetworkAccumulator option" where
  "NewNetworkAccumulator windowLength =
     (if windowLength \<le> 0 then None
      else Some \<lparr>Net_win = \<lparr>wlength = windowLength\<rparr>, Net_open = mempty\<rparr>)"

definition newNetworkRecord :: "int \<Rightarrow> NetworkKey \<Rightarrow> time \<Rightarrow> NetworkRecord" where
  "newNetworkRecord secs k start =
     \<lparr>Net_Key = k, Net_WindowStart = start, Net_WindowSeconds = secs,
      RxBytes = 0, TxBytes = 0, RxErrors = 0, TxErrors = 0, Net_Samples = 0,
      Net_CoveredNanoseconds = 0, Net_Interfaces = 0, HostNetwork = False\<rparr>"

definition Net_recordAt ::
    "NetworkKey \<Rightarrow> time \<Rightarrow> NetworkAccumulator \<Rightarrow> NetworkRecord \<times> NetworkAccumulator" where
  "Net_recordAt k start a =
     (let ok = (k, UnixNano start) in
      case mget (Net_open a) ok of
        Some r \<Rightarrow> (r, a)
      | None \<Rightarrow>
          let r = newNetworkRecord (seconds (Net_win a)) k start
          in (r, a\<lparr>Net_open := mput ok r (Net_open a)\<rparr>))"

text \<open>A write through the pointer \<open>recordAt\<close> returns.\<close>

definition Net_write ::
    "NetworkKey \<Rightarrow> time \<Rightarrow> (NetworkRecord \<Rightarrow> NetworkRecord) \<Rightarrow> NetworkAccumulator \<Rightarrow> NetworkAccumulator" where
  "Net_write k start f a =
     (let (r, a) = Net_recordAt k start a
      in a\<lparr>Net_open := mput (k, UnixNano start) (f r) (Net_open a)\<rparr>)"

definition Net_split ::
    "NetworkKey \<Rightarrow> time \<Rightarrow> time \<Rightarrow> int \<Rightarrow> (int \<Rightarrow> NetworkRecord \<Rightarrow> NetworkRecord) \<Rightarrow>
     NetworkAccumulator \<Rightarrow> NetworkAccumulator" where
  "Net_split k from to amount add a =
     fold (\<lambda>(start, part). Net_write k start (add part)) (split (Net_win a) from to amount) a"

definition add_rx :: "int \<Rightarrow> NetworkRecord \<Rightarrow> NetworkRecord" where
  "add_rx v r = r\<lparr>RxBytes := add64 (RxBytes r) v\<rparr>"

definition add_tx :: "int \<Rightarrow> NetworkRecord \<Rightarrow> NetworkRecord" where
  "add_tx v r = r\<lparr>TxBytes := add64 (TxBytes r) v\<rparr>"

definition add_rx_errors :: "int \<Rightarrow> NetworkRecord \<Rightarrow> NetworkRecord" where
  "add_rx_errors v r = r\<lparr>RxErrors := add64 (RxErrors r) v\<rparr>"

definition add_tx_errors :: "int \<Rightarrow> NetworkRecord \<Rightarrow> NetworkRecord" where
  "add_tx_errors v r = r\<lparr>TxErrors := add64 (TxErrors r) v\<rparr>"

definition add_covered :: "int \<Rightarrow> bool \<Rightarrow> int \<Rightarrow> NetworkRecord \<Rightarrow> NetworkRecord" where
  "add_covered interfaces hostNetwork v r =
     r\<lparr>Net_CoveredNanoseconds := add64 (Net_CoveredNanoseconds r) v,
       Net_Interfaces := max (Net_Interfaces r) interfaces,
       HostNetwork := HostNetwork r \<or> hostNetwork\<rparr>"

definition count_sample :: "NetworkRecord \<Rightarrow> NetworkRecord" where
  "count_sample r = r\<lparr>Net_Samples := add64 (Net_Samples r) 1\<rparr>"

definition Network_Observe ::
    "NetworkKey \<Rightarrow> time \<Rightarrow> time \<Rightarrow> NetworkDelta \<Rightarrow> bool \<Rightarrow> NetworkAccumulator \<Rightarrow> NetworkAccumulator" where
  "Network_Observe k from to d hostNetwork a =
     (if \<not> to > from then a
      else
        let a = Net_split k from to (Delta_RxBytes d) add_rx a;
            a = Net_split k from to (Delta_TxBytes d) add_tx a;
            a = Net_split k from to (Delta_RxErrors d) add_rx_errors a;
            a = Net_split k from to (Delta_TxErrors d) add_tx_errors a;
            a = Net_split k from to (Sub to from) (add_covered (Delta_Interfaces d) hostNetwork) a
        in Net_write k (startOf (Net_win a) to) count_sample a)"

text \<open>The comparison function of \<open>sortNetworkRecords\<close>.\<close>

definition less_network :: "NetworkRecord \<Rightarrow> NetworkRecord \<Rightarrow> bool" where
  "less_network a b =
     (if Net_WindowStart a \<noteq> Net_WindowStart b then Net_WindowStart a < Net_WindowStart b
      else if Net_Namespace (Net_Key a) \<noteq> Net_Namespace (Net_Key b)
        then Net_Namespace (Net_Key a) < Net_Namespace (Net_Key b)
      else if Net_WorkloadKind (Net_Key a) \<noteq> Net_WorkloadKind (Net_Key b)
        then Net_WorkloadKind (Net_Key a) < Net_WorkloadKind (Net_Key b)
      else Net_WorkloadName (Net_Key a) < Net_WorkloadName (Net_Key b))"

definition Network_CloseBefore ::
    "time \<Rightarrow> NetworkAccumulator \<Rightarrow> NetworkRecord list \<times> NetworkAccumulator" where
  "Network_CloseBefore now a =
     (let (out, m) = close_before less_network (\<lambda>r. r) Net_WindowStart (wlength (Net_win a)) now (Net_open a)
      in (out, a\<lparr>Net_open := m\<rparr>))"

definition Network_Snapshots :: "NetworkAccumulator \<Rightarrow> NetworkRecord list" where
  "Network_Snapshots a = snapshots less_network (\<lambda>r. r) (Net_open a)"

text \<open>\<^const>\<open>None\<close> is the error for records with different identities.\<close>

definition NetworkRecord_Merge :: "NetworkRecord \<Rightarrow> NetworkRecord \<Rightarrow> NetworkRecord option" where
  "NetworkRecord_Merge r o1 =
     (if Net_Key r \<noteq> Net_Key o1 \<or> Net_WindowStart r \<noteq> Net_WindowStart o1
         \<or> Net_WindowSeconds r \<noteq> Net_WindowSeconds o1
      then None
      else Some (r\<lparr>RxBytes := add64 (RxBytes r) (RxBytes o1), TxBytes := add64 (TxBytes r) (TxBytes o1),
        RxErrors := add64 (RxErrors r) (RxErrors o1), TxErrors := add64 (TxErrors r) (TxErrors o1),
        Net_Samples := add64 (Net_Samples r) (Net_Samples o1),
        Net_CoveredNanoseconds := add64 (Net_CoveredNanoseconds r) (Net_CoveredNanoseconds o1),
        Net_Interfaces := max (Net_Interfaces r) (Net_Interfaces o1),
        HostNetwork := HostNetwork r \<or> HostNetwork o1\<rparr>))"

section \<open>The store of open records\<close>

definition network_skey :: "NetworkRecord \<Rightarrow> time \<times> NetworkKey" where
  "network_skey r = (Net_WindowStart r, Net_Key r)"

definition network_key :: "NetworkRecord \<Rightarrow> networkOpenKey" where
  "network_key r = (Net_Key r, UnixNano (Net_WindowStart r))"

lemma less_network_skey: "less_network a b \<longleftrightarrow> network_skey a < network_skey b"
  by (cases "Net_Key a"; cases "Net_Key b")
    (auto simp: less_network_def network_skey_def less_prod_def less_NetworkKey_def)

interpretation network_store: window_store less_network network_skey Net_WindowStart network_key "\<lambda>r. r"
  by unfold_locales (auto simp: less_network_skey network_skey_def network_key_def)

lemma Net_write_eq:
  "Net_write k s f a =
     a\<lparr>Net_open := mupd (newNetworkRecord (seconds (Net_win a)) k s) f (k, UnixNano s) (Net_open a)\<rparr>"
  by (cases "mget (Net_open a) (k, UnixNano s)")
    (simp_all add: Net_write_def Net_recordAt_def Let_def mupd_def mget_or_def)

lemma Net_split_eq:
  "Net_split k from to v add a =
     a\<lparr>Net_open := add_parts (newNetworkRecord (seconds (Net_win a))) add k
       (split (Net_win a) from to v) (Net_open a)\<rparr>"
proof -
  have "fold (\<lambda>(start, part). Net_write k start (add part)) ps a =
      a\<lparr>Net_open := add_parts (newNetworkRecord (seconds (Net_win a))) add k ps (Net_open a)\<rparr>" for ps
    by (induction ps arbitrary: a) (simp_all add: add_parts_def Net_write_eq case_prod_beta)
  then show ?thesis by (simp add: Net_split_def)
qed

lemmas add_defs = add_rx_def add_tx_def add_rx_errors_def add_tx_errors_def add_covered_def count_sample_def

lemma newNetworkRecord_zero [simp]:
  "RxBytes (newNetworkRecord n k s) = 0" "TxBytes (newNetworkRecord n k s) = 0"
  "RxErrors (newNetworkRecord n k s) = 0" "TxErrors (newNetworkRecord n k s) = 0"
  "Net_Samples (newNetworkRecord n k s) = 0" "Net_CoveredNanoseconds (newNetworkRecord n k s) = 0"
  "Net_Interfaces (newNetworkRecord n k s) = 0" "\<not> HostNetwork (newNetworkRecord n k s)"
  "Net_Key (newNetworkRecord n k s) = k" "Net_WindowStart (newNetworkRecord n k s) = s"
  "Net_WindowSeconds (newNetworkRecord n k s) = n"
  by (simp_all add: newNetworkRecord_def)

text \<open>\<open>Observe\<close> as one update of the store after another.\<close>

lemma Network_Observe_open:
  assumes "from < to"
  shows "Network_Observe k from to d host a = a\<lparr>Net_open :=
    (let new = newNetworkRecord (seconds (Net_win a)); parts = split (Net_win a) from to in
      mupd (new k (startOf (Net_win a) to)) count_sample (k, UnixNano (startOf (Net_win a) to))
       (add_parts new (add_covered (Delta_Interfaces d) host) k (parts (Sub to from))
        (add_parts new add_tx_errors k (parts (Delta_TxErrors d))
         (add_parts new add_rx_errors k (parts (Delta_RxErrors d))
          (add_parts new add_tx k (parts (Delta_TxBytes d))
           (add_parts new add_rx k (parts (Delta_RxBytes d)) (Net_open a)))))))\<rparr>"
  using assms by (simp add: Network_Observe_def Let_def Net_split_eq Net_write_eq)

definition delta_ok :: "NetworkDelta \<Rightarrow> bool" where
  "delta_ok d \<longleftrightarrow> (\<forall>v \<in> {Delta_RxBytes d, Delta_TxBytes d, Delta_RxErrors d, Delta_TxErrors d}.
     0 \<le> v \<and> v \<le> maxInt64)"

lemma delta_ok_split:
  assumes "delta_ok d" and "0 < wlength w" and "from < to" and "int64 (to - from)"
    and "v \<in> {Delta_RxBytes d, Delta_TxBytes d, Delta_RxErrors d, Delta_TxErrors d}"
  shows "sum_list (map snd (split w from to v)) = v"
  using assms by (intro split_sum) (auto simp: delta_ok_def int64_def minInt64_def)

definition same_identity :: "NetworkRecord \<Rightarrow> NetworkRecord \<Rightarrow> bool" where
  "same_identity r o1 \<longleftrightarrow> Net_Key r = Net_Key o1 \<and> Net_WindowStart r = Net_WindowStart o1 \<and>
     Net_WindowSeconds r = Net_WindowSeconds o1"

section \<open>Properties\<close>

text \<open>
  An observation of network counters is credited in full and once: over all windows of
  the workload the four counters grow by exactly the deltas, the covered time by exactly the
  length of the interval and the samples by one, as \<open>int64\<close> sums; no other workload's record
  changes.
\<close>

theorem Network_Observe_conserves:
  assumes "0 < wlength (Net_win a)" and "from < to" and "int64 (to - from)" and "delta_ok d"
  shows "let a' = Network_Observe k from to d host a;
             tot = \<lambda>f a. wrap64 (key_total f k (Net_open a)) in
    tot RxBytes a' = add64 (tot RxBytes a) (Delta_RxBytes d) \<and>
    tot TxBytes a' = add64 (tot TxBytes a) (Delta_TxBytes d) \<and>
    tot RxErrors a' = add64 (tot RxErrors a) (Delta_RxErrors d) \<and>
    tot TxErrors a' = add64 (tot TxErrors a) (Delta_TxErrors d) \<and>
    tot Net_CoveredNanoseconds a' = add64 (tot Net_CoveredNanoseconds a) (to - from) \<and>
    tot Net_Samples a' = add64 (tot Net_Samples a) 1 \<and>
    (\<forall>ok. fst ok \<noteq> k \<longrightarrow> mget (Net_open a') ok = mget (Net_open a) ok)"
  using assms delta_ok_split [OF assms(4,1,2,3)] split_sum(1) [OF assms(1-3), of "to - from"]
  by (auto simp: Network_Observe_open Let_def Sub_exact add_defs key_total_add_parts key_total_keep
      key_total_add key_total_add_parts_keep mget_add_parts_other add64_def int64_simps)

theorem Network_Observe_conserves_witness:
  "wrap64 (key_total RxBytes (NetworkKey ''ns'' ''Deployment'' ''web'')
     (Net_open (Network_Observe (NetworkKey ''ns'' ''Deployment'' ''web'') 7 25
       \<lparr>Delta_RxBytes = 100, Delta_TxBytes = 5, Delta_RxErrors = 0, Delta_TxErrors = 0, Delta_Interfaces = 1\<rparr> False
       \<lparr>Net_win = \<lparr>wlength = 10\<rparr>, Net_open = mempty\<rparr>))) = 100"
  using Network_Observe_conserves [of "\<lparr>Net_win = \<lparr>wlength = 10\<rparr>, Net_open = mempty\<rparr>" 7 25
      "\<lparr>Delta_RxBytes = 100, Delta_TxBytes = 5, Delta_RxErrors = 0, Delta_TxErrors = 0, Delta_Interfaces = 1\<rparr>"
      "NetworkKey ''ns'' ''Deployment'' ''web''" False]
  by (simp add: Let_def delta_ok_def int64_def minInt64_def maxInt64_def key_total_def add64_def wrap64_def)

text \<open>
  An observation whose interval ends exactly on a window boundary, inside one window, is
  counted in the next one: the window the interval covers gets its bytes and its covered
  time and no sample, and the next window gets a sample with no covered time, although a
  record without samples is documented to have never been observed.
\<close>

theorem Network_Observe_boundary_sample:
  assumes "0 < wlength (Net_win a)" and "wlength (Net_win a) dvd to" and "to - wlength (Net_win a) \<le> from"
    and "from < to" and "int64 (to - from)" and "delta_ok d" and "Net_open a = mempty"
    and "int64 (to - wlength (Net_win a) - epoch)" and "int64 (to - epoch)"
  shows "let a' = Network_Observe k from to d host a; prev = to - wlength (Net_win a);
             val = \<lambda>f s. wrap64 (window_value f k s (Net_open a')) in
    val RxBytes prev = Delta_RxBytes d \<and> val Net_CoveredNanoseconds prev = to - from \<and>
    val Net_Samples prev = 0 \<and>
    val Net_Samples to = 1 \<and> val Net_CoveredNanoseconds to = 0"
proof -
  let ?w = "Net_win a" and ?prev = "to - wlength (Net_win a)"
  have start: "startOf ?w to = to" using assms(2) by (simp add: startOf_def Truncate_of_dvd)
  have prev: "startOf ?w from = ?prev"
    unfolding startOf_def using assms(1-4) by (intro Truncate_unique) auto
  have one: "split ?w from to v = [(?prev, v)]" if "0 \<le> v" for v
    using that assms(1,4) prev by (simp add: split_def split_segs_last not_less)
  have ne: "UnixNano to \<noteq> UnixNano ?prev"
    using assms(1,8,9) UnixNano_inj [of to ?prev] by auto
  have parts: "split ?w from to (Delta_RxBytes d) = [(?prev, Delta_RxBytes d)]"
    "split ?w from to (Delta_TxBytes d) = [(?prev, Delta_TxBytes d)]"
    "split ?w from to (Delta_RxErrors d) = [(?prev, Delta_RxErrors d)]"
    "split ?w from to (Delta_TxErrors d) = [(?prev, Delta_TxErrors d)]"
    "split ?w from to (to - from) = [(?prev, to - from)]"
    using one assms(4,6) by (auto simp: delta_ok_def)
  have id: "wrap64 (Delta_RxBytes d) = Delta_RxBytes d" "wrap64 (to - from) = to - from"
    using assms(5,6) by (auto simp: delta_ok_def int64_def minInt64_def intro!: wrap64_id)
  show ?thesis
    using assms(4,5,7) ne ne [symmetric] id
    by (simp add: Network_Observe_open Let_def Sub_exact start parts add_parts_def window_value_def
        add_defs mget_or_def add64_def newNetworkRecord_def)
qed

theorem Network_Observe_boundary_sample_witness:
  "wrap64 (window_value Net_Samples (NetworkKey ''ns'' ''Deployment'' ''web'') epoch
     (Net_open (Network_Observe (NetworkKey ''ns'' ''Deployment'' ''web'') (epoch + 4) (epoch + 10)
       \<lparr>Delta_RxBytes = 100, Delta_TxBytes = 5, Delta_RxErrors = 0, Delta_TxErrors = 0, Delta_Interfaces = 1\<rparr> False
       \<lparr>Net_win = \<lparr>wlength = 10\<rparr>, Net_open = mempty\<rparr>))) = 0"
  using Network_Observe_boundary_sample [of "\<lparr>Net_win = \<lparr>wlength = 10\<rparr>, Net_open = mempty\<rparr>" "epoch + 10" "epoch + 4"
      "\<lparr>Delta_RxBytes = 100, Delta_TxBytes = 5, Delta_RxErrors = 0, Delta_TxErrors = 0, Delta_Interfaces = 1\<rparr>"
      "NetworkKey ''ns'' ''Deployment'' ''web''" False]
  by (simp add: Let_def delta_ok_def int64_def minInt64_def maxInt64_def epoch_def unixToInternal_def second_def)

text \<open>
  Merging network records of one identity is commutative in its totals and associative,
  and records of different identities are refused.
\<close>

theorem NetworkRecord_Merge_laws:
  "(NetworkRecord_Merge r o1 = None \<longleftrightarrow>
      (Net_Key r, Net_WindowStart r, Net_WindowSeconds r) \<noteq> (Net_Key o1, Net_WindowStart o1, Net_WindowSeconds o1)) \<and>
   NetworkRecord_Merge r o1 = NetworkRecord_Merge o1 r \<and>
   Option.bind (NetworkRecord_Merge r o1) (\<lambda>x. NetworkRecord_Merge x p) =
     Option.bind (NetworkRecord_Merge o1 p) (NetworkRecord_Merge r)"
proof -
  have comm: "NetworkRecord_Merge r o1 = NetworkRecord_Merge o1 r"
    by (auto simp: NetworkRecord_Merge_def add64_commute max.commute disj_commute
        intro!: NetworkRecord.equality)
  have "Option.bind (NetworkRecord_Merge r o1) (\<lambda>x. NetworkRecord_Merge x p) =
      Option.bind (NetworkRecord_Merge o1 p) (NetworkRecord_Merge r)"
    by (cases "same_identity r o1"; cases "same_identity o1 p")
      (simp_all add: NetworkRecord_Merge_def same_identity_def add64_assoc max.assoc)
  moreover have "NetworkRecord_Merge r o1 = None \<longleftrightarrow>
      (Net_Key r, Net_WindowStart r, Net_WindowSeconds r) \<noteq> (Net_Key o1, Net_WindowStart o1, Net_WindowSeconds o1)"
    by (auto simp: NetworkRecord_Merge_def)
  ultimately show ?thesis using comm by blast
qed

end
