(* ===== verification/RestartJournal.thy ===== *)
theory RestartJournal
  imports JournalBase
begin

text \<open>
  The restart journal of \<open>internal/journal/restarts.go\<close>: advances of restart counters, filed
  whole in the window they were observed in, with the reasons that were seen. \<open>Reasons\<close> is
  an optional map because a Go map may be nil, and a write to a nil map panics: an
  operation that could panic returns \<^const>\<open>None\<close> for it.
\<close>

section \<open>Definitions\<close>

definition UnknownReason :: string where "UnknownReason = ''other''"

definition knownReasons :: "string list" where
  "knownReasons = [''OOMKilled'', ''Error'', ''Completed'', ''ContainerCannotRun'',
     ''ContainerStatusUnknown'', ''DeadlineExceeded'', ''StartError'', ''Evicted'']"

record ContainerRestart =
  CR_Namespace :: string
  CR_Pod :: string
  CR_Container :: string
  CR_Workload :: WorkloadRef
  CR_ObservedAt :: time
  CR_Restarts :: int
  CR_Reason :: string
  CR_ExitCode :: "int option"

record RestartRecord =
  RR_Key :: PodKey
  RR_Workload :: WorkloadRef
  RR_WindowStart :: time
  RR_WindowSeconds :: int
  RR_Restarts :: int
  RR_Reasons :: "(string, int) gomap option"
  RR_ReasonsUnobserved :: int
  RR_LastExitCode :: "int option"

record Restarts =
  Restarts_windowLength :: duration
  Restarts_open :: "(PodKey \<times> int, RestartRecord) gomap"

definition NewRestarts :: "duration \<Rightarrow> Restarts option" where
  "NewRestarts windowLength =
     (if windowLength \<le> 0 then None
      else Some \<lparr>Restarts_windowLength = windowLength, Restarts_open = mempty\<rparr>)"

definition bucket :: "string \<Rightarrow> string" where
  "bucket reason = (if reason \<in> set knownReasons then reason else UnknownReason)"

definition newRestartRecord :: "ContainerRestart \<Rightarrow> PodKey \<Rightarrow> time \<Rightarrow> duration \<Rightarrow> RestartRecord" where
  "newRestartRecord e key start len =
     \<lparr>RR_Key = key, RR_Workload = CR_Workload e, RR_WindowStart = start,
      RR_WindowSeconds = windowSeconds len, RR_Restarts = 0, RR_Reasons = Some mempty,
      RR_ReasonsUnobserved = 0, RR_LastExitCode = None\<rparr>"

text \<open>What \<open>Observe\<close> writes into the record it found or created.\<close>

definition fold_restart :: "ContainerRestart \<Rightarrow> RestartRecord \<Rightarrow> RestartRecord option" where
  "fold_restart e rec =
     (let rec = rec\<lparr>RR_Restarts := add64 (RR_Restarts rec) (CR_Restarts e)\<rparr> in
      if CR_Reason e = '''' then
        Some (rec\<lparr>RR_ReasonsUnobserved := add64 (RR_ReasonsUnobserved rec) (CR_Restarts e)\<rparr>)
      else case RR_Reasons rec of None \<Rightarrow> None
        | Some reasons \<Rightarrow>
            let rec = rec\<lparr>RR_Reasons := Some (mupd 0 (\<lambda>n. add64 n 1) (bucket (CR_Reason e)) reasons),
                  RR_ReasonsUnobserved := add64 (RR_ReasonsUnobserved rec) (CR_Restarts e - 1)\<rparr>
            in Some (case CR_ExitCode e of None \<Rightarrow> rec | Some code \<Rightarrow> rec\<lparr>RR_LastExitCode := Some code\<rparr>))"

definition Restarts_Observe :: "ContainerRestart \<Rightarrow> Restarts \<Rightarrow> Restarts option" where
  "Restarts_Observe e r =
     (if CR_Restarts e \<le> 0 then Some r
      else
        let start = Truncate (CR_ObservedAt e) (Restarts_windowLength r);
            key = (PodKey (CR_Namespace e) (CR_Pod e) (CR_Container e), UnixNano start);
            rec = mget_or (newRestartRecord e (fst key) start (Restarts_windowLength r)) (Restarts_open r) key
        in map_option (\<lambda>rec. r\<lparr>Restarts_open := mput key rec (Restarts_open r)\<rparr>) (fold_restart e rec))"

definition RestartRecord_clone :: "RestartRecord \<Rightarrow> RestartRecord" where
  "RestartRecord_clone r = r\<lparr>RR_Reasons := map_option (\<lambda>m. fold (\<lambda>(k, v). mput k v) (entries m) mempty) (RR_Reasons r)\<rparr>"

definition less_restart :: "RestartRecord \<Rightarrow> RestartRecord \<Rightarrow> bool" where
  "less_restart a b =
     (if RR_WindowStart a \<noteq> RR_WindowStart b then RR_WindowStart a < RR_WindowStart b
      else if PK_Namespace (RR_Key a) \<noteq> PK_Namespace (RR_Key b)
        then PK_Namespace (RR_Key a) < PK_Namespace (RR_Key b)
      else if PK_Pod (RR_Key a) \<noteq> PK_Pod (RR_Key b) then PK_Pod (RR_Key a) < PK_Pod (RR_Key b)
      else PK_Container (RR_Key a) < PK_Container (RR_Key b))"

definition restart_key :: "RestartRecord \<Rightarrow> PodKey \<times> int" where
  "restart_key r = (RR_Key r, UnixNano (RR_WindowStart r))"

definition Restarts_Snapshots :: "Restarts \<Rightarrow> RestartRecord list" where
  "Restarts_Snapshots r = snapshots less_restart RestartRecord_clone (Restarts_open r)"

text \<open>What \<open>Resume\<close> makes of a record before it adopts it.\<close>

definition resume_restart :: "RestartRecord \<Rightarrow> RestartRecord" where
  "resume_restart rec =
     (let resumed = RestartRecord_clone rec
      in if RR_Reasons resumed = None then resumed\<lparr>RR_Reasons := Some mempty\<rparr> else resumed)"

definition Restarts_Resume :: "RestartRecord list \<Rightarrow> Restarts \<Rightarrow> Restarts \<times> nat" where
  "Restarts_Resume records r =
     (let (m, seeded) = resume restart_key resume_restart records (Restarts_open r)
      in (r\<lparr>Restarts_open := m\<rparr>, seeded))"

definition Restarts_CloseBefore :: "time \<Rightarrow> Restarts \<Rightarrow> RestartRecord list \<times> Restarts" where
  "Restarts_CloseBefore now r =
     (let (out, m) = close_before less_restart RestartRecord_clone RR_WindowStart
            (Restarts_windowLength r) now (Restarts_open r)
      in (out, r\<lparr>Restarts_open := m\<rparr>))"

section \<open>The store of open records\<close>

definition restart_skey :: "RestartRecord \<Rightarrow> time \<times> PodKey" where
  "restart_skey r = (RR_WindowStart r, RR_Key r)"

lemma less_restart_skey: "less_restart a b \<longleftrightarrow> restart_skey a < restart_skey b"
  by (cases "RR_Key a"; cases "RR_Key b")
    (auto simp: less_restart_def restart_skey_def less_prod_def less_PodKey_def)

lemma RestartRecord_clone_id [simp]: "RestartRecord_clone r = r"
  by (cases "RR_Reasons r") (simp_all add: RestartRecord_clone_def)

interpretation restart_store: window_store less_restart restart_skey RR_WindowStart restart_key RestartRecord_clone
  by unfold_locales (auto simp: less_restart_skey restart_skey_def restart_key_def)

section \<open>The invariant\<close>

text \<open>
  The reasons of a record and the restarts whose reason went unseen make up its restarts, as
  \<open>int64\<close> sums, and every reason is one of the nine keys of the fixed vocabulary.
\<close>

definition reasons_sum :: "(string, int) gomap \<Rightarrow> int" where
  "reasons_sum m = sum_list (mvalues m)"

definition restart_ok :: "RestartRecord \<Rightarrow> bool" where
  "restart_ok rec \<longleftrightarrow> (case RR_Reasons rec of None \<Rightarrow> False
     | Some m \<Rightarrow> wrap64 (RR_Restarts rec) = wrap64 (reasons_sum m + RR_ReasonsUnobserved rec) \<and>
         set (mkeys m) \<subseteq> insert UnknownReason (set knownReasons))"

lemma reasons_sum_mupd:
  "reasons_sum (mupd 0 f k m) = reasons_sum m + f (mget_or 0 m k) - mget_or 0 m k"
  unfolding reasons_sum_def mvalues_def mupd_def entries_mput
  by (simp add: sum_list_upd_sorted mget_or_def mget.rep_eq split: option.splits)

lemma bucket_known: "bucket reason \<in> insert UnknownReason (set knownReasons)"
  by (simp add: bucket_def)

lemma mkeys_mupd: "set (mkeys (mupd z f k m)) = insert k (set (mkeys m))"
  by (auto simp: mkeys_iff split: if_splits)

lemma fold_restart_ok:
  assumes "restart_ok rec"
  shows "\<exists>rec'. fold_restart e rec = Some rec' \<and> restart_ok rec' \<and> restart_key rec' = restart_key rec"
proof -
  obtain m where m: "RR_Reasons rec = Some m" using assms by (auto simp: restart_ok_def split: option.splits)
  have inv: "wrap64 (RR_Restarts rec) = wrap64 (reasons_sum m + RR_ReasonsUnobserved rec)"
    and keys: "set (mkeys m) \<subseteq> insert UnknownReason (set knownReasons)"
    using assms m by (auto simp: restart_ok_def)
  have step: "wrap64 (RR_Restarts rec + n) = wrap64 (reasons_sum m + RR_ReasonsUnobserved rec + n)" for n
    using inv by (metis wrap64_add_left)
  show ?thesis
  proof (cases "CR_Reason e = ''''")
    case True
    then show ?thesis
      using m keys step [of "CR_Restarts e"]
      by (simp add: fold_restart_def Let_def restart_ok_def restart_key_def add64_def int64_simps add.assoc)
  next
    case False
    let ?b = "bucket (CR_Reason e)" and ?n = "CR_Restarts e"
    let ?m' = "mupd 0 (\<lambda>n. add64 n 1) ?b m"
    have "wrap64 (reasons_sum ?m' + (RR_ReasonsUnobserved rec + (?n - 1))) =
        wrap64 (wrap64 (mget_or 0 m ?b + 1) + (reasons_sum m - mget_or 0 m ?b + RR_ReasonsUnobserved rec + ?n - 1))"
      by (simp add: reasons_sum_mupd add64_def algebra_simps)
    also have "\<dots> = wrap64 (reasons_sum m + RR_ReasonsUnobserved rec + ?n)"
      unfolding wrap64_add_left by (simp add: algebra_simps)
    finally have "wrap64 (RR_Restarts rec + ?n) =
        wrap64 (reasons_sum ?m' + (RR_ReasonsUnobserved rec + (?n - 1)))"
      using step by simp
    then show ?thesis
      using False m keys bucket_known [of "CR_Reason e"]
      by (cases "CR_ExitCode e")
        (simp_all add: fold_restart_def Let_def restart_ok_def restart_key_def add64_def int64_simps mkeys_mupd)
  qed
qed

lemma restart_ok_new: "restart_ok (newRestartRecord e key start len)"
  by (simp add: newRestartRecord_def restart_ok_def reasons_sum_def mvalues_def mkeys_def)

definition restarts_ok :: "Restarts \<Rightarrow> bool" where
  "restarts_ok r \<longleftrightarrow> 0 < Restarts_windowLength r \<and> keyed restart_key (Restarts_open r) \<and>
     (\<forall>rec \<in> set (mvalues (Restarts_open r)). restart_ok rec)"

lemma restarts_ok_iff:
  "restarts_ok r \<longleftrightarrow> 0 < Restarts_windowLength r \<and>
     (\<forall>k rec. mget (Restarts_open r) k = Some rec \<longrightarrow> restart_key rec = k \<and> restart_ok rec)"
  unfolding restarts_ok_def keyed_iff Ball_def mvalues_iff by metis

lemma Restarts_Observe_ok:
  assumes "restarts_ok r"
  shows "\<exists>r'. Restarts_Observe e r = Some r' \<and> restarts_ok r' \<and>
    Restarts_windowLength r' = Restarts_windowLength r"
proof (cases "CR_Restarts e \<le> 0")
  case False
  let ?start = "Truncate (CR_ObservedAt e) (Restarts_windowLength r)"
  let ?key = "(PodKey (CR_Namespace e) (CR_Pod e) (CR_Container e), UnixNano ?start)"
  let ?rec = "mget_or (newRestartRecord e (fst ?key) ?start (Restarts_windowLength r)) (Restarts_open r) ?key"
  have "restart_ok ?rec" and key: "restart_key ?rec = ?key"
    using assms restart_ok_new
    by (cases "mget (Restarts_open r) ?key"; auto simp: restarts_ok_iff mget_or_def restart_key_def newRestartRecord_def)+
  then obtain rec' where "fold_restart e ?rec = Some rec'" "restart_ok rec'" "restart_key rec' = ?key"
    using fold_restart_ok [of ?rec e] by auto
  then show ?thesis
    using False assms by (simp add: Restarts_Observe_def Let_def restarts_ok_iff)
qed (use assms in \<open>simp add: Restarts_Observe_def\<close>)

inductive restarts_reachable :: "duration \<Rightarrow> Restarts \<Rightarrow> bool" where
  init: "NewRestarts len = Some r \<Longrightarrow> restarts_reachable len r"
| observe: "restarts_reachable len r \<Longrightarrow> Restarts_Observe e r = Some r' \<Longrightarrow> restarts_reachable len r'"
| resume: "restarts_reachable len r \<Longrightarrow> \<forall>rec \<in> set records. restart_ok (resume_restart rec) \<Longrightarrow>
    restarts_reachable len (fst (Restarts_Resume records r))"
| close: "restarts_reachable len r \<Longrightarrow> restarts_reachable len (snd (Restarts_CloseBefore now r))"

lemma resume_restart_key [simp]: "restart_key (resume_restart rec) = restart_key rec"
  by (simp add: resume_restart_def restart_key_def Let_def)

section \<open>Properties\<close>

text \<open>
  In every restart journal a run can reach, each record is filed under its own key, its
  reasons and the unobserved ones add up to its restarts, and its reasons stay within the
  fixed vocabulary, so an observation never fails on a nil map, whatever restart it reports
  and whatever records the journal was resumed with.
\<close>

theorem Restarts_invariant:
  assumes "restarts_reachable len r"
  shows "restarts_ok r \<and> Restarts_windowLength r = len \<and> (\<forall>e. Restarts_Observe e r \<noteq> None)"
proof -
  have "restarts_ok r \<and> Restarts_windowLength r = len"
    using assms
  proof induction
    case (init len r)
    then show ?case by (auto simp: NewRestarts_def restarts_ok_iff split: if_splits)
  next
    case (observe len r e r')
    then show ?case using Restarts_Observe_ok [of r e] by auto
  next
    case (resume len r records)
    then show ?case
      by (auto simp: Restarts_Resume_def restarts_ok_iff restart_store.resume_get case_prod_beta
          find_Some_iff split: option.splits)
  next
    case (close len r now)
    then show ?case
      by (auto simp: Restarts_CloseBefore_def close_before_def restarts_ok_iff mget_mfilter
          split: option.splits if_splits)
  qed
  then show ?thesis using Restarts_Observe_ok [of r] by fastforce
qed

theorem Restarts_invariant_witness:
  "restarts_ok \<lparr>Restarts_windowLength = 10, Restarts_open = mempty\<rparr> \<and>
   Restarts_Observe \<lparr>CR_Namespace = ''ns'', CR_Pod = ''p'', CR_Container = ''c'', CR_Workload = WorkloadRef ''Job'' ''j'',
     CR_ObservedAt = 15, CR_Restarts = 3, CR_Reason = ''OOMKilled'', CR_ExitCode = Some 137\<rparr>
     \<lparr>Restarts_windowLength = 10, Restarts_open = mempty\<rparr> \<noteq> None"
proof -
  have "restarts_reachable 10 \<lparr>Restarts_windowLength = 10, Restarts_open = mempty\<rparr>"
    by (rule restarts_reachable.init) (simp add: NewRestarts_def)
  from Restarts_invariant [OF this] show ?thesis by blast
qed

text \<open>
  An advance is filed whole, in the window of the instant it was observed: that window's
  restarts grow by the whole advance, its unobserved reasons by the restarts whose reason
  was not visible, and no other record of the journal changes.
\<close>

theorem Restarts_Observe_whole:
  assumes "restarts_ok r" and "0 < CR_Restarts e"
    and "start = Truncate (CR_ObservedAt e) (Restarts_windowLength r)"
    and "key = (PodKey (CR_Namespace e) (CR_Pod e) (CR_Container e), UnixNano start)"
    and "old = mget_or (newRestartRecord e (fst key) start (Restarts_windowLength r)) (Restarts_open r) key"
  shows "\<exists>rec. Restarts_Observe e r = Some (r\<lparr>Restarts_open := mput key rec (Restarts_open r)\<rparr>) \<and>
    RR_Restarts rec = add64 (RR_Restarts old) (CR_Restarts e) \<and>
    RR_ReasonsUnobserved rec = add64 (RR_ReasonsUnobserved old)
      (if CR_Reason e = '''' then CR_Restarts e else CR_Restarts e - 1) \<and>
    (CR_Reason e \<noteq> '''' \<longrightarrow> mget_or 0 (the (RR_Reasons rec)) (bucket (CR_Reason e)) =
      add64 (mget_or 0 (the (RR_Reasons old)) (bucket (CR_Reason e))) 1)"
proof -
  have "restart_ok old"
    using assms restart_ok_new by (auto simp: restarts_ok_iff mget_or_def split: option.splits)
  then obtain m where "RR_Reasons old = Some m" by (auto simp: restart_ok_def split: option.splits)
  then show ?thesis
    using assms(2-) by (cases "CR_ExitCode e") (auto simp: Restarts_Observe_def Let_def fold_restart_def)
qed

theorem Restarts_Observe_whole_witness:
  "\<exists>rec. Restarts_Observe \<lparr>CR_Namespace = ''ns'', CR_Pod = ''p'', CR_Container = ''c'', CR_Workload = WorkloadRef ''Job'' ''j'',
     CR_ObservedAt = 15, CR_Restarts = 3, CR_Reason = ''OOMKilled'', CR_ExitCode = None\<rparr>
     \<lparr>Restarts_windowLength = 10, Restarts_open = mempty\<rparr> =
       Some \<lparr>Restarts_windowLength = 10, Restarts_open = mput (PodKey ''ns'' ''p'' ''c'', UnixNano 10) rec mempty\<rparr> \<and>
     RR_Restarts rec = add64 0 3"
proof -
  let ?e = "\<lparr>CR_Namespace = ''ns'', CR_Pod = ''p'', CR_Container = ''c'', CR_Workload = WorkloadRef ''Job'' ''j'',
     CR_ObservedAt = 15, CR_Restarts = 3, CR_Reason = ''OOMKilled'', CR_ExitCode = None\<rparr>"
  have "restarts_ok \<lparr>Restarts_windowLength = 10, Restarts_open = mempty\<rparr>" by (simp add: restarts_ok_iff)
  from Restarts_Observe_whole [OF this, of ?e 10 "(PodKey ''ns'' ''p'' ''c'', UnixNano 10)"
      "newRestartRecord ?e (PodKey ''ns'' ''p'' ''c'') 10 10"]
  show ?thesis by (auto simp: Truncate_def newRestartRecord_def)
qed

end
