(* ===== verification/EventJournals.thy ===== *)
theory EventJournals
  imports JournalBase
begin

text \<open>
  The three journals that file timestamped events rather than count: pod disruptions
  (\<open>internal/journal/disruptions.go\<close>), finished Job runs (\<open>jobs.go\<close>) and nodes joining and
  leaving (\<open>nodes.go\<close>). Each files an event in the window holding its own instant, under a
  key that makes a second report of the same event rewrite its own record.

  The locale \<open>event_journal\<close> states that contract once: reporting a history twice changes
  nothing, so the collectors' in-memory dedup may be lost in a restart without harm.
\<close>

section \<open>Definitions\<close>

text \<open>\<open>open[key] = record\<close>, the write every \<open>Observe\<close> of these journals ends in.\<close>

definition file_event ::
    "('r \<Rightarrow> 'k::linorder) \<Rightarrow> ('e \<Rightarrow> bool) \<Rightarrow> ('e \<Rightarrow> 'r) \<Rightarrow> 'e \<Rightarrow> ('k, 'r) gomap \<Rightarrow> ('k, 'r) gomap" where
  "file_event keyOf valid mk e m = (if valid e then mput (keyOf (mk e)) (mk e) m else m)"

subsection \<open>Disruptions\<close>

record PodDisruption =
  PD_Namespace :: string
  PD_Pod :: string
  PD_Workload :: WorkloadRef
  PD_Node :: string
  PD_Reason :: string
  PD_DisruptedAt :: time

record DisruptionRecord =
  DR_Namespace :: string
  DR_Pod :: string
  DR_Workload :: WorkloadRef
  DR_Node :: string
  DR_Reason :: string
  DR_DisruptedAt :: time
  DR_WindowStart :: time
  DR_WindowSeconds :: int

record Disruptions =
  Disruptions_windowLength :: duration
  Disruptions_open :: "(string \<times> string \<times> int, DisruptionRecord) gomap"

definition NewDisruptions :: "duration \<Rightarrow> Disruptions option" where
  "NewDisruptions windowLength =
     (if windowLength \<le> 0 then None
      else Some \<lparr>Disruptions_windowLength = windowLength, Disruptions_open = mempty\<rparr>)"

definition disruption_record :: "duration \<Rightarrow> PodDisruption \<Rightarrow> DisruptionRecord" where
  "disruption_record len e =
     \<lparr>DR_Namespace = PD_Namespace e, DR_Pod = PD_Pod e, DR_Workload = PD_Workload e,
      DR_Node = PD_Node e, DR_Reason = PD_Reason e, DR_DisruptedAt = PD_DisruptedAt e,
      DR_WindowStart = Truncate (PD_DisruptedAt e) len, DR_WindowSeconds = windowSeconds len\<rparr>"

definition disruption_key :: "DisruptionRecord \<Rightarrow> string \<times> string \<times> int" where
  "disruption_key r = (DR_Namespace r, DR_Pod r, UnixNano (DR_WindowStart r))"

definition Disruptions_Observe :: "PodDisruption \<Rightarrow> Disruptions \<Rightarrow> Disruptions" where
  "Disruptions_Observe e d = d\<lparr>Disruptions_open :=
     file_event disruption_key (\<lambda>e. \<not> IsZero (PD_DisruptedAt e))
       (disruption_record (Disruptions_windowLength d)) e (Disruptions_open d)\<rparr>"

definition less_disruption :: "DisruptionRecord \<Rightarrow> DisruptionRecord \<Rightarrow> bool" where
  "less_disruption a b =
     (if DR_WindowStart a \<noteq> DR_WindowStart b then DR_WindowStart a < DR_WindowStart b
      else if DR_Namespace a \<noteq> DR_Namespace b then DR_Namespace a < DR_Namespace b
      else DR_Pod a < DR_Pod b)"

definition Disruptions_Snapshots :: "Disruptions \<Rightarrow> DisruptionRecord list" where
  "Disruptions_Snapshots d = snapshots less_disruption (\<lambda>r. r) (Disruptions_open d)"

definition Disruptions_Resume :: "DisruptionRecord list \<Rightarrow> Disruptions \<Rightarrow> Disruptions \<times> nat" where
  "Disruptions_Resume records d =
     (let (m, seeded) = resume disruption_key (\<lambda>r. r) records (Disruptions_open d)
      in (d\<lparr>Disruptions_open := m\<rparr>, seeded))"

definition Disruptions_CloseBefore :: "time \<Rightarrow> Disruptions \<Rightarrow> DisruptionRecord list \<times> Disruptions" where
  "Disruptions_CloseBefore now d =
     (let (out, m) = close_before less_disruption (\<lambda>r. r) DR_WindowStart
            (Disruptions_windowLength d) now (Disruptions_open d)
      in (out, d\<lparr>Disruptions_open := m\<rparr>))"

subsection \<open>Job runs\<close>

record JobRun =
  JR_Namespace :: string
  JR_Workload :: WorkloadRef
  JR_Name :: string
  JR_StartedAt :: time
  JR_FinishedAt :: time
  JR_Result :: string
  JR_FailReason :: string
  JR_Succeeded :: int
  JR_Failed :: int
  JR_Parallelism :: "int option"
  JR_Completions :: "int option"
  JR_BackoffLimit :: "int option"

record JobRunRecord =
  JRR_Namespace :: string
  JRR_Workload :: WorkloadRef
  JRR_Name :: string
  JRR_StartedAt :: time
  JRR_FinishedAt :: time
  JRR_Result :: string
  JRR_FailReason :: string
  JRR_Succeeded :: int
  JRR_Failed :: int
  JRR_Parallelism :: "int option"
  JRR_Completions :: "int option"
  JRR_BackoffLimit :: "int option"
  JRR_WindowStart :: time
  JRR_WindowSeconds :: int

record JobRuns =
  JobRuns_windowLength :: duration
  JobRuns_open :: "(string \<times> string \<times> int, JobRunRecord) gomap"

definition NewJobRuns :: "duration \<Rightarrow> JobRuns option" where
  "NewJobRuns windowLength =
     (if windowLength \<le> 0 then None
      else Some \<lparr>JobRuns_windowLength = windowLength, JobRuns_open = mempty\<rparr>)"

definition job_record :: "duration \<Rightarrow> JobRun \<Rightarrow> JobRunRecord" where
  "job_record len run =
     \<lparr>JRR_Namespace = JR_Namespace run, JRR_Workload = JR_Workload run, JRR_Name = JR_Name run,
      JRR_StartedAt = JR_StartedAt run, JRR_FinishedAt = JR_FinishedAt run, JRR_Result = JR_Result run,
      JRR_FailReason = JR_FailReason run, JRR_Succeeded = JR_Succeeded run, JRR_Failed = JR_Failed run,
      JRR_Parallelism = JR_Parallelism run, JRR_Completions = JR_Completions run,
      JRR_BackoffLimit = JR_BackoffLimit run,
      JRR_WindowStart = Truncate (JR_FinishedAt run) len, JRR_WindowSeconds = windowSeconds len\<rparr>"

definition job_key :: "JobRunRecord \<Rightarrow> string \<times> string \<times> int" where
  "job_key r = (JRR_Namespace r, JRR_Name r, UnixNano (JRR_WindowStart r))"

definition JobRuns_Observe :: "JobRun \<Rightarrow> JobRuns \<Rightarrow> JobRuns" where
  "JobRuns_Observe run j = j\<lparr>JobRuns_open :=
     file_event job_key (\<lambda>run. \<not> IsZero (JR_FinishedAt run))
       (job_record (JobRuns_windowLength j)) run (JobRuns_open j)\<rparr>"

definition less_job :: "JobRunRecord \<Rightarrow> JobRunRecord \<Rightarrow> bool" where
  "less_job a b =
     (if JRR_WindowStart a \<noteq> JRR_WindowStart b then JRR_WindowStart a < JRR_WindowStart b
      else if JRR_Namespace a \<noteq> JRR_Namespace b then JRR_Namespace a < JRR_Namespace b
      else JRR_Name a < JRR_Name b)"

definition JobRuns_Snapshots :: "JobRuns \<Rightarrow> JobRunRecord list" where
  "JobRuns_Snapshots j = snapshots less_job (\<lambda>r. r) (JobRuns_open j)"

definition JobRuns_Resume :: "JobRunRecord list \<Rightarrow> JobRuns \<Rightarrow> JobRuns \<times> nat" where
  "JobRuns_Resume records j =
     (let (m, seeded) = resume job_key (\<lambda>r. r) records (JobRuns_open j)
      in (j\<lparr>JobRuns_open := m\<rparr>, seeded))"

definition JobRuns_CloseBefore :: "time \<Rightarrow> JobRuns \<Rightarrow> JobRunRecord list \<times> JobRuns" where
  "JobRuns_CloseBefore now j =
     (let (out, m) = close_before less_job (\<lambda>r. r) JRR_WindowStart (JobRuns_windowLength j) now (JobRuns_open j)
      in (out, j\<lparr>JobRuns_open := m\<rparr>))"

subsection \<open>Node events\<close>

record NodeDevice =
  Device_Name :: string
  Device_Capacity :: int
  Device_Allocatable :: int

text \<open>The fields of a node's collected view that a lifecycle event carries on.\<close>

record NodeView =
  Node_Name :: string
  Node_InstanceType :: string
  Node_CapacityType :: string
  Node_Zone :: string
  Node_CapacityCPUMilli :: int
  Node_CapacityMemoryBytes :: int
  Node_Devices :: "NodeDevice list"

record NodeLifecycle =
  NL_Node :: NodeView
  NL_Joined :: bool
  NL_At :: time
  NL_Observed :: bool

record NodeEventRecord =
  NE_Node :: string
  NE_Event :: string
  NE_At :: time
  NE_AtObserved :: bool
  NE_InstanceType :: string
  NE_CapacityType :: string
  NE_Zone :: string
  NE_CapacityCPUMilli :: int
  NE_CapacityMemoryBytes :: int
  NE_Devices :: "NodeDevice list"
  NE_WindowStart :: time
  NE_WindowSeconds :: int

record NodeEvents =
  NodeEvents_windowLength :: duration
  NodeEvents_open :: "(string \<times> string \<times> int, NodeEventRecord) gomap"

definition eventJoined :: string where "eventJoined = ''joined''"
definition eventLeft :: string where "eventLeft = ''left''"

definition NewNodeEvents :: "duration \<Rightarrow> NodeEvents option" where
  "NewNodeEvents windowLength =
     (if windowLength \<le> 0 then None
      else Some \<lparr>NodeEvents_windowLength = windowLength, NodeEvents_open = mempty\<rparr>)"

definition node_event_record :: "duration \<Rightarrow> NodeLifecycle \<Rightarrow> NodeEventRecord" where
  "node_event_record len ev =
     (let event = (if NL_Joined ev then eventJoined else eventLeft); node = NL_Node ev in
      \<lparr>NE_Node = Node_Name node, NE_Event = event, NE_At = NL_At ev, NE_AtObserved = NL_Observed ev,
       NE_InstanceType = Node_InstanceType node, NE_CapacityType = Node_CapacityType node,
       NE_Zone = Node_Zone node, NE_CapacityCPUMilli = Node_CapacityCPUMilli node,
       NE_CapacityMemoryBytes = Node_CapacityMemoryBytes node, NE_Devices = Node_Devices node,
       NE_WindowStart = Truncate (NL_At ev) len, NE_WindowSeconds = windowSeconds len\<rparr>)"

definition node_event_key :: "NodeEventRecord \<Rightarrow> string \<times> string \<times> int" where
  "node_event_key r = (NE_Node r, NE_Event r, UnixNano (NE_WindowStart r))"

definition NodeEvents_Observe :: "NodeLifecycle \<Rightarrow> NodeEvents \<Rightarrow> NodeEvents" where
  "NodeEvents_Observe ev e = e\<lparr>NodeEvents_open :=
     file_event node_event_key (\<lambda>ev. \<not> (IsZero (NL_At ev) \<or> Node_Name (NL_Node ev) = ''''))
       (node_event_record (NodeEvents_windowLength e)) ev (NodeEvents_open e)\<rparr>"

definition less_node_event :: "NodeEventRecord \<Rightarrow> NodeEventRecord \<Rightarrow> bool" where
  "less_node_event a b =
     (if NE_WindowStart a \<noteq> NE_WindowStart b then NE_WindowStart a < NE_WindowStart b
      else if NE_Node a \<noteq> NE_Node b then NE_Node a < NE_Node b
      else NE_Event a < NE_Event b)"

definition NodeEvents_Snapshots :: "NodeEvents \<Rightarrow> NodeEventRecord list" where
  "NodeEvents_Snapshots e = snapshots less_node_event (\<lambda>r. r) (NodeEvents_open e)"

definition NodeEvents_Resume :: "NodeEventRecord list \<Rightarrow> NodeEvents \<Rightarrow> NodeEvents \<times> nat" where
  "NodeEvents_Resume records e =
     (let (m, seeded) = resume node_event_key (\<lambda>r. r) records (NodeEvents_open e)
      in (e\<lparr>NodeEvents_open := m\<rparr>, seeded))"

definition NodeEvents_CloseBefore :: "time \<Rightarrow> NodeEvents \<Rightarrow> NodeEventRecord list \<times> NodeEvents" where
  "NodeEvents_CloseBefore now e =
     (let (out, m) = close_before less_node_event (\<lambda>r. r) NE_WindowStart (NodeEvents_windowLength e) now (NodeEvents_open e)
      in (out, e\<lparr>NodeEvents_open := m\<rparr>))"

section \<open>The contract of an event journal\<close>

locale event_journal = window_store lt skey wstart keyOf "\<lambda>r. r"
  for lt :: "'r \<Rightarrow> 'r \<Rightarrow> bool" and skey :: "'r \<Rightarrow> 's::linorder"
    and wstart :: "'r \<Rightarrow> time" and keyOf :: "'r \<Rightarrow> 'k::linorder" +
  fixes valid :: "'e \<Rightarrow> bool"
    and mk :: "duration \<Rightarrow> 'e \<Rightarrow> 'r"
    and at :: "'e \<Rightarrow> time"
  assumes wstart_mk: "wstart (mk len e) = Truncate (at e) len"
begin

lemma filed_in_window:
  "0 < len \<Longrightarrow> wstart (mk len e) \<le> at e \<and> at e < wstart (mk len e) + len"
  by (simp add: wstart_mk Truncate_le less_Truncate_add)

text \<open>After a history, a key holds the record of the last event filed under it.\<close>

lemma mget_history:
  "mget (fold (file_event keyOf valid (mk len)) es m) k =
     (case List.find (\<lambda>e. valid e \<and> keyOf (mk len e) = k) (rev es) of
        Some e \<Rightarrow> Some (mk len e) | None \<Rightarrow> mget m k)"
  by (induction es rule: rev_induct) (auto simp: file_event_def)

lemma replay:
  "fold (file_event keyOf valid (mk len)) (es @ es) m = fold (file_event keyOf valid (mk len)) es m"
  by (rule gomap_eqI) (simp only: fold_append comp_def mget_history split: option.splits, auto)

lemma keyed_history:
  "keyed keyOf m \<Longrightarrow> keyed keyOf (fold (file_event keyOf valid (mk len)) es m)"
  by (auto simp: keyed_iff mget_history find_Some_iff split: option.splits)

text \<open>A restart in the middle of a window, with the whole history reported again.\<close>

lemma restart_replay:
  "fold (file_event keyOf valid (mk len)) es
     (fst (resume keyOf (\<lambda>r. r) (snapshots lt (\<lambda>r. r) (fold (file_event keyOf valid (mk len)) es mempty)) mempty)) =
   fold (file_event keyOf valid (mk len)) es mempty"
proof -
  let ?m = "fold (file_event keyOf valid (mk len)) es mempty"
  have "fst (resume keyOf (\<lambda>r. r) (snapshots lt (\<lambda>r. r) ?m) mempty) = ?m"
    using keyed_history [OF keyed_mempty]
    by (intro gomap_eqI) (subst resume_snapshots, simp_all add: option.map_ident comp_def)
  then show ?thesis using replay [of len es mempty] by simp
qed

end

definition disruption_skey :: "DisruptionRecord \<Rightarrow> time \<times> string \<times> string" where
  "disruption_skey r = (DR_WindowStart r, DR_Namespace r, DR_Pod r)"

definition job_skey :: "JobRunRecord \<Rightarrow> time \<times> string \<times> string" where
  "job_skey r = (JRR_WindowStart r, JRR_Namespace r, JRR_Name r)"

definition node_event_skey :: "NodeEventRecord \<Rightarrow> time \<times> string \<times> string" where
  "node_event_skey r = (NE_WindowStart r, NE_Node r, NE_Event r)"

interpretation disruption_store: event_journal less_disruption disruption_skey DR_WindowStart disruption_key
    "\<lambda>e. \<not> IsZero (PD_DisruptedAt e)" disruption_record PD_DisruptedAt
  by unfold_locales
    (auto simp: less_disruption_def disruption_skey_def disruption_key_def disruption_record_def less_prod_def)

interpretation job_store: event_journal less_job job_skey JRR_WindowStart job_key
    "\<lambda>run. \<not> IsZero (JR_FinishedAt run)" job_record JR_FinishedAt
  by unfold_locales (auto simp: less_job_def job_skey_def job_key_def job_record_def less_prod_def)

interpretation node_event_store: event_journal less_node_event node_event_skey NE_WindowStart node_event_key
    "\<lambda>ev. \<not> (IsZero (NL_At ev) \<or> Node_Name (NL_Node ev) = '''')" node_event_record NL_At
  by unfold_locales
    (auto simp: less_node_event_def node_event_skey_def node_event_key_def node_event_record_def less_prod_def Let_def)

section \<open>Histories\<close>

lemma Disruptions_history:
  "fold Disruptions_Observe es d = d\<lparr>Disruptions_open :=
     fold (file_event disruption_key (\<lambda>e. \<not> IsZero (PD_DisruptedAt e))
       (disruption_record (Disruptions_windowLength d))) es (Disruptions_open d)\<rparr>"
  by (induction es arbitrary: d) (simp_all add: Disruptions_Observe_def)

lemma JobRuns_history:
  "fold JobRuns_Observe es j = j\<lparr>JobRuns_open :=
     fold (file_event job_key (\<lambda>run. \<not> IsZero (JR_FinishedAt run))
       (job_record (JobRuns_windowLength j))) es (JobRuns_open j)\<rparr>"
  by (induction es arbitrary: j) (simp_all add: JobRuns_Observe_def)

lemma NodeEvents_history:
  "fold NodeEvents_Observe es n = n\<lparr>NodeEvents_open :=
     fold (file_event node_event_key (\<lambda>ev. \<not> (IsZero (NL_At ev) \<or> Node_Name (NL_Node ev) = ''''))
       (node_event_record (NodeEvents_windowLength n))) es (NodeEvents_open n)\<rparr>"
  by (induction es arbitrary: n) (simp_all add: NodeEvents_Observe_def)

section \<open>Properties\<close>

text \<open>
  Reporting is idempotent in the three event journals: an agent that is restarted, resumes
  its journal from the snapshots it had written and is then told the whole history again
  holds exactly the records it held before, none lost and none doubled.
\<close>

theorem event_journals_restart_replay:
  "let d = fold Disruptions_Observe des \<lparr>Disruptions_windowLength = len, Disruptions_open = mempty\<rparr>;
       j = fold JobRuns_Observe jobs \<lparr>JobRuns_windowLength = len, JobRuns_open = mempty\<rparr>;
       n = fold NodeEvents_Observe evs \<lparr>NodeEvents_windowLength = len, NodeEvents_open = mempty\<rparr> in
   fold Disruptions_Observe des (fst (Disruptions_Resume (Disruptions_Snapshots d)
     \<lparr>Disruptions_windowLength = len, Disruptions_open = mempty\<rparr>)) = d \<and>
   fold JobRuns_Observe jobs (fst (JobRuns_Resume (JobRuns_Snapshots j)
     \<lparr>JobRuns_windowLength = len, JobRuns_open = mempty\<rparr>)) = j \<and>
   fold NodeEvents_Observe evs (fst (NodeEvents_Resume (NodeEvents_Snapshots n)
     \<lparr>NodeEvents_windowLength = len, NodeEvents_open = mempty\<rparr>)) = n"
  unfolding Let_def Disruptions_history JobRuns_history NodeEvents_history
    Disruptions_Resume_def JobRuns_Resume_def NodeEvents_Resume_def
    Disruptions_Snapshots_def JobRuns_Snapshots_def NodeEvents_Snapshots_def
  by (simp add: case_prod_beta disruption_store.restart_replay job_store.restart_replay
      node_event_store.restart_replay [simplified])

text \<open>
  An event is filed in the window that holds its own instant: after a disruption with a
  timestamp is observed, the journal holds its record, the window contains the instant, and
  the record is not closed before that window has ended.
\<close>

theorem Disruptions_Observe_filed:
  assumes "0 < Disruptions_windowLength d" and "PD_DisruptedAt e \<noteq> 0"
    and "rec = disruption_record (Disruptions_windowLength d) e"
  shows "mget (Disruptions_open (Disruptions_Observe e d)) (disruption_key rec) = Some rec \<and>
    DR_WindowStart rec \<le> PD_DisruptedAt e \<and> PD_DisruptedAt e < DR_WindowStart rec + Disruptions_windowLength d \<and>
    (\<forall>now \<le> PD_DisruptedAt e.
      mget (Disruptions_open (snd (Disruptions_CloseBefore now (Disruptions_Observe e d)))) (disruption_key rec) = Some rec)"
proof -
  have win: "DR_WindowStart rec \<le> PD_DisruptedAt e" "PD_DisruptedAt e < DR_WindowStart rec + Disruptions_windowLength d"
    using disruption_store.filed_in_window [OF assms(1), of e] assms(3) by simp_all
  have got: "mget (Disruptions_open (Disruptions_Observe e d)) (disruption_key rec) = Some rec"
    using assms(2,3) by (simp add: Disruptions_Observe_def file_event_def)
  then have "mget (Disruptions_open (snd (Disruptions_CloseBefore now (Disruptions_Observe e d)))) (disruption_key rec) = Some rec"
    if "now \<le> PD_DisruptedAt e" for now
    using that win
    by (simp add: Disruptions_CloseBefore_def close_before_def mget_mfilter ended_iff Disruptions_Observe_def)
  then show ?thesis using win got by blast
qed

theorem Disruptions_Observe_filed_witness:
  "mget (Disruptions_open (Disruptions_Observe
      \<lparr>PD_Namespace = ''ns'', PD_Pod = ''p'', PD_Workload = WorkloadRef ''Job'' ''j'', PD_Node = ''n'', PD_Reason = ''Evicted'', PD_DisruptedAt = 15\<rparr>
      \<lparr>Disruptions_windowLength = 10, Disruptions_open = mempty\<rparr>)) (''ns'', ''p'', UnixNano 10) \<noteq> None"
  using Disruptions_Observe_filed [of "\<lparr>Disruptions_windowLength = 10, Disruptions_open = mempty\<rparr>"
      "\<lparr>PD_Namespace = ''ns'', PD_Pod = ''p'', PD_Workload = WorkloadRef ''Job'' ''j'', PD_Node = ''n'', PD_Reason = ''Evicted'', PD_DisruptedAt = 15\<rparr>"]
  by (simp add: disruption_key_def disruption_record_def Truncate_def)

end
