(* ===== verification/GoroutineJournal.thy ===== *)
theory GoroutineJournal
  imports JournalBase
begin

text \<open>
  The goroutine journal of \<open>internal/journal/goroutines.go\<close>: a bounded series of readings per
  container and window. Samples past the cap are counted, never silently lost.
\<close>

section \<open>Definitions\<close>

definition maxSamplesPerWindow :: nat where "maxSamplesPerWindow = 120"

record GoroutineCount =
  GC_Namespace :: string
  GC_Pod :: string
  GC_Container :: string
  GC_Workload :: WorkloadRef
  GC_ImageDigest :: string
  GC_ObservedAt :: time
  GC_Goroutines :: int

record GoroutineSample =
  GS_At :: time
  GS_Goroutines :: int

record GoroutineRecord =
  GR_Key :: PodKey
  GR_Workload :: WorkloadRef
  GR_ImageDigest :: string
  GR_WindowStart :: time
  GR_WindowSeconds :: int
  GR_Samples :: "GoroutineSample list"
  GR_SamplesDropped :: int

record Goroutines =
  Goroutines_windowLength :: duration
  Goroutines_open :: "(PodKey \<times> int, GoroutineRecord) gomap"

definition NewGoroutines :: "duration \<Rightarrow> Goroutines option" where
  "NewGoroutines windowLength =
     (if windowLength \<le> 0 then None
      else Some \<lparr>Goroutines_windowLength = windowLength, Goroutines_open = mempty\<rparr>)"

definition newGoroutineRecord :: "GoroutineCount \<Rightarrow> PodKey \<Rightarrow> time \<Rightarrow> duration \<Rightarrow> GoroutineRecord" where
  "newGoroutineRecord c key start len =
     \<lparr>GR_Key = key, GR_Workload = GC_Workload c, GR_ImageDigest = GC_ImageDigest c,
      GR_WindowStart = start, GR_WindowSeconds = windowSeconds len, GR_Samples = [], GR_SamplesDropped = 0\<rparr>"

definition add_sample :: "GoroutineCount \<Rightarrow> GoroutineRecord \<Rightarrow> GoroutineRecord" where
  "add_sample c rec =
     (if length (GR_Samples rec) \<ge> maxSamplesPerWindow
      then rec\<lparr>GR_SamplesDropped := add64 (GR_SamplesDropped rec) 1\<rparr>
      else rec\<lparr>GR_Samples := GR_Samples rec @ [\<lparr>GS_At = GC_ObservedAt c, GS_Goroutines = GC_Goroutines c\<rparr>]\<rparr>)"

definition Goroutines_Observe :: "GoroutineCount \<Rightarrow> Goroutines \<Rightarrow> Goroutines" where
  "Goroutines_Observe c g =
     (if GC_Goroutines c \<le> 0 then g
      else
        let start = Truncate (GC_ObservedAt c) (Goroutines_windowLength g);
            key = (PodKey (GC_Namespace c) (GC_Pod c) (GC_Container c), UnixNano start)
        in g\<lparr>Goroutines_open := mupd (newGoroutineRecord c (fst key) start (Goroutines_windowLength g))
             (add_sample c) key (Goroutines_open g)\<rparr>)"

text \<open>
  \<open>clone\<close> sorts the copied samples by instant. \<open>sort.Slice\<close> is not stable; of two samples of
  one instant the model keeps the first read first.
\<close>

definition less_sample :: "GoroutineSample \<Rightarrow> GoroutineSample \<Rightarrow> bool" where
  "less_sample a b \<longleftrightarrow> GS_At a < GS_At b"

definition GoroutineRecord_clone :: "GoroutineRecord \<Rightarrow> GoroutineRecord" where
  "GoroutineRecord_clone r = r\<lparr>GR_Samples := sort_slice less_sample (GR_Samples r)\<rparr>"

definition less_goroutine :: "GoroutineRecord \<Rightarrow> GoroutineRecord \<Rightarrow> bool" where
  "less_goroutine a b =
     (if GR_WindowStart a \<noteq> GR_WindowStart b then GR_WindowStart a < GR_WindowStart b
      else if PK_Namespace (GR_Key a) \<noteq> PK_Namespace (GR_Key b)
        then PK_Namespace (GR_Key a) < PK_Namespace (GR_Key b)
      else if PK_Pod (GR_Key a) \<noteq> PK_Pod (GR_Key b) then PK_Pod (GR_Key a) < PK_Pod (GR_Key b)
      else PK_Container (GR_Key a) < PK_Container (GR_Key b))"

definition goroutine_key :: "GoroutineRecord \<Rightarrow> PodKey \<times> int" where
  "goroutine_key r = (GR_Key r, UnixNano (GR_WindowStart r))"

definition Goroutines_Snapshots :: "Goroutines \<Rightarrow> GoroutineRecord list" where
  "Goroutines_Snapshots g = snapshots less_goroutine GoroutineRecord_clone (Goroutines_open g)"

definition resume_goroutine :: "GoroutineRecord \<Rightarrow> GoroutineRecord" where
  "resume_goroutine rec =
     (let resumed = GoroutineRecord_clone rec in
      if length (GR_Samples resumed) > maxSamplesPerWindow then
        resumed\<lparr>GR_SamplesDropped := add64 (GR_SamplesDropped resumed)
                  (int (length (GR_Samples resumed) - maxSamplesPerWindow)),
                GR_Samples := take maxSamplesPerWindow (GR_Samples resumed)\<rparr>
      else resumed)"

definition Goroutines_Resume :: "GoroutineRecord list \<Rightarrow> Goroutines \<Rightarrow> Goroutines \<times> nat" where
  "Goroutines_Resume records g =
     (let (m, seeded) = resume goroutine_key resume_goroutine records (Goroutines_open g)
      in (g\<lparr>Goroutines_open := m\<rparr>, seeded))"

definition Goroutines_CloseBefore :: "time \<Rightarrow> Goroutines \<Rightarrow> GoroutineRecord list \<times> Goroutines" where
  "Goroutines_CloseBefore now g =
     (let (out, m) = close_before less_goroutine GoroutineRecord_clone GR_WindowStart
            (Goroutines_windowLength g) now (Goroutines_open g)
      in (out, g\<lparr>Goroutines_open := m\<rparr>))"

section \<open>The store of open records\<close>

definition goroutine_skey :: "GoroutineRecord \<Rightarrow> time \<times> PodKey" where
  "goroutine_skey r = (GR_WindowStart r, GR_Key r)"

lemma less_goroutine_skey: "less_goroutine a b \<longleftrightarrow> goroutine_skey a < goroutine_skey b"
  by (cases "GR_Key a"; cases "GR_Key b")
    (auto simp: less_goroutine_def goroutine_skey_def less_prod_def less_PodKey_def)

interpretation goroutine_store: window_store less_goroutine goroutine_skey GR_WindowStart goroutine_key GoroutineRecord_clone
  by unfold_locales
    (auto simp: less_goroutine_skey goroutine_skey_def goroutine_key_def GoroutineRecord_clone_def)

interpretation sample_order: sort_order less_sample GS_At
  by unfold_locales (simp add: less_sample_def)

section \<open>The invariant\<close>

text \<open>
  A record's samples are within the cap, in the record's own window and of at least one
  goroutine each.
\<close>

definition goroutine_ok :: "duration \<Rightarrow> GoroutineRecord \<Rightarrow> bool" where
  "goroutine_ok len rec \<longleftrightarrow> length (GR_Samples rec) \<le> maxSamplesPerWindow \<and>
     (\<forall>s \<in> set (GR_Samples rec). 0 < GS_Goroutines s \<and> UnixNano (Truncate (GS_At s) len) = UnixNano (GR_WindowStart rec))"

definition goroutines_ok :: "Goroutines \<Rightarrow> bool" where
  "goroutines_ok g \<longleftrightarrow> 0 < Goroutines_windowLength g \<and>
     (\<forall>(k, rec) \<in> set (entries (Goroutines_open g)). goroutine_key rec = k \<and> goroutine_ok (Goroutines_windowLength g) rec)"

lemma goroutines_ok_iff:
  "goroutines_ok g \<longleftrightarrow> 0 < Goroutines_windowLength g \<and>
     (\<forall>k rec. mget (Goroutines_open g) k = Some rec \<longrightarrow> goroutine_key rec = k \<and> goroutine_ok (Goroutines_windowLength g) rec)"
  by (auto simp: goroutines_ok_def mget_entries)

lemma add_sample_ok:
  assumes "goroutine_ok len rec" and "0 < GC_Goroutines c"
    and "UnixNano (Truncate (GC_ObservedAt c) len) = UnixNano (GR_WindowStart rec)"
  shows "goroutine_ok len (add_sample c rec) \<and> goroutine_key (add_sample c rec) = goroutine_key rec"
  using assms by (auto simp: goroutine_ok_def add_sample_def goroutine_key_def)

lemma goroutine_ok_clone: "goroutine_ok len (GoroutineRecord_clone rec) = goroutine_ok len rec"
  by (simp add: goroutine_ok_def GoroutineRecord_clone_def)

lemma resume_goroutine_key [simp]: "goroutine_key (resume_goroutine rec) = goroutine_key rec"
  by (simp add: resume_goroutine_def goroutine_key_def GoroutineRecord_clone_def Let_def)

lemma Goroutines_Observe_ok: "goroutines_ok g \<Longrightarrow> goroutines_ok (Goroutines_Observe c g)"
proof (cases "GC_Goroutines c \<le> 0")
  case False
  assume ok: "goroutines_ok g"
  let ?start = "Truncate (GC_ObservedAt c) (Goroutines_windowLength g)"
  let ?key = "(PodKey (GC_Namespace c) (GC_Pod c) (GC_Container c), UnixNano ?start)"
  let ?rec = "mget_or (newGoroutineRecord c (fst ?key) ?start (Goroutines_windowLength g)) (Goroutines_open g) ?key"
  have "goroutine_ok (Goroutines_windowLength g) ?rec" and "goroutine_key ?rec = ?key"
    using ok by (cases "mget (Goroutines_open g) ?key";
        auto simp: goroutines_ok_iff mget_or_def goroutine_key_def newGoroutineRecord_def goroutine_ok_def)+
  then have "goroutine_ok (Goroutines_windowLength g) (add_sample c ?rec) \<and> goroutine_key (add_sample c ?rec) = ?key"
    using False add_sample_ok [of "Goroutines_windowLength g" ?rec c] by (auto simp: goroutine_key_def)
  then show ?thesis using ok False by (simp add: Goroutines_Observe_def Let_def goroutines_ok_iff)
qed (simp add: Goroutines_Observe_def)

section \<open>A series of readings\<close>

lemma add_samples:
  assumes "int (length (GR_Samples rec) + length cs) \<le> maxInt64" and "GR_SamplesDropped rec = 0"
    and "length (GR_Samples rec) \<le> maxSamplesPerWindow"
  shows "GR_Samples (fold add_sample cs rec) = take maxSamplesPerWindow
      (GR_Samples rec @ map (\<lambda>c. \<lparr>GS_At = GC_ObservedAt c, GS_Goroutines = GC_Goroutines c\<rparr>) cs) \<and>
    GR_SamplesDropped (fold add_sample cs rec) =
      int (length (GR_Samples rec) + length cs - maxSamplesPerWindow)"
  using assms(1)
proof (induction cs rule: rev_induct)
  case (snoc c cs)
  let ?r = "fold add_sample cs rec"
  have IH: "GR_Samples ?r = take maxSamplesPerWindow
      (GR_Samples rec @ map (\<lambda>c. \<lparr>GS_At = GC_ObservedAt c, GS_Goroutines = GC_Goroutines c\<rparr>) cs)"
    "GR_SamplesDropped ?r = int (length (GR_Samples rec) + length cs - maxSamplesPerWindow)"
    using snoc by simp_all
  have len: "length (GR_Samples ?r) = min maxSamplesPerWindow (length (GR_Samples rec) + length cs)"
    by (simp add: IH(1))
  show ?case
  proof (cases "maxSamplesPerWindow \<le> length (GR_Samples rec) + length cs")
    case True
    then have "add64 (GR_SamplesDropped ?r) 1 = GR_SamplesDropped ?r + 1"
      using snoc.prems by (intro add64_nonneg) (auto simp: IH(2))
    moreover have "fold add_sample (cs @ [c]) rec = ?r\<lparr>GR_SamplesDropped := add64 (GR_SamplesDropped ?r) 1\<rparr>"
      using True len by (simp add: add_sample_def [of c])
    ultimately show ?thesis using True IH by (simp add: of_nat_diff)
  next
    case False
    then show ?thesis using len IH by (simp add: add_sample_def [of c])
  qed
qed (use assms in simp)

lemma Goroutines_Observe_same_window:
  assumes "\<forall>c \<in> set cs. 0 < GC_Goroutines c \<and> PodKey (GC_Namespace c) (GC_Pod c) (GC_Container c) = k \<and>
      Truncate (GC_ObservedAt c) (Goroutines_windowLength g) = start"
    and "mget (Goroutines_open g) (k, UnixNano start) = Some rec"
  shows "fold Goroutines_Observe cs g =
    g\<lparr>Goroutines_open := mput (k, UnixNano start) (fold add_sample cs rec) (Goroutines_open g)\<rparr>"
  using assms
proof (induction cs arbitrary: g rec)
  case (Cons c cs)
  have "Goroutines_Observe c g = g\<lparr>Goroutines_open := mput (k, UnixNano start) (add_sample c rec) (Goroutines_open g)\<rparr>"
    using Cons.prems by (auto simp: Goroutines_Observe_def Let_def mupd_def mget_or_def)
  then show ?case
    using Cons.prems Cons.IH [of "Goroutines_Observe c g" "add_sample c rec"] by simp
qed (simp add: mget_mput_same)

section \<open>Properties\<close>

text \<open>
  The series of a container and window never exceeds the cap, and every valid reading is
  either in the series or counted as dropped: starting from an empty journal, a list of
  readings of one container in one window leaves the first \<^const>\<open>maxSamplesPerWindow\<close> of the
  valid ones in order and the number of the rest in \<open>SamplesDropped\<close>.
\<close>

theorem Goroutines_samples_bounded:
  assumes "cs \<noteq> []" and "int (length cs) \<le> maxInt64"
    and "\<forall>c \<in> set cs. 0 < GC_Goroutines c \<and> PodKey (GC_Namespace c) (GC_Pod c) (GC_Container c) = k \<and>
      Truncate (GC_ObservedAt c) len = start"
  shows "\<exists>rec. mget (Goroutines_open (fold Goroutines_Observe cs
        \<lparr>Goroutines_windowLength = len, Goroutines_open = mempty\<rparr>)) (k, UnixNano start) = Some rec \<and>
    GR_Samples rec = take maxSamplesPerWindow
      (map (\<lambda>c. \<lparr>GS_At = GC_ObservedAt c, GS_Goroutines = GC_Goroutines c\<rparr>) cs) \<and>
    GR_SamplesDropped rec = int (length cs - maxSamplesPerWindow)"
proof -
  obtain c cs' where cs: "cs = c # cs'" using assms(1) by (cases cs) auto
  let ?init = "\<lparr>Goroutines_windowLength = len, Goroutines_open = mempty\<rparr>"
  let ?new = "newGoroutineRecord c k start len"
  let ?g = "\<lparr>Goroutines_windowLength = len, Goroutines_open = mput (k, UnixNano start) (add_sample c ?new) mempty\<rparr>"
  have "Goroutines_Observe c ?init = ?g"
    using assms(3) cs by (auto simp: Goroutines_Observe_def Let_def mupd_def)
  then have "fold Goroutines_Observe cs ?init =
      ?g\<lparr>Goroutines_open := mput (k, UnixNano start) (fold add_sample cs ?new) mempty\<rparr>"
    using Goroutines_Observe_same_window [of cs' k ?g start "add_sample c ?new"] assms(3) cs by simp
  moreover have "GR_Samples ?new = []" "GR_SamplesDropped ?new = 0" by (simp_all add: newGoroutineRecord_def)
  ultimately show ?thesis using add_samples [of ?new cs] assms(2) by simp
qed

theorem Goroutines_samples_bounded_witness:
  "\<exists>rec. mget (Goroutines_open (fold Goroutines_Observe
      [\<lparr>GC_Namespace = ''ns'', GC_Pod = ''p'', GC_Container = ''c'', GC_Workload = WorkloadRef ''Job'' ''j'',
        GC_ImageDigest = '''', GC_ObservedAt = 15, GC_Goroutines = 8\<rparr>]
      \<lparr>Goroutines_windowLength = 10, Goroutines_open = mempty\<rparr>)) (PodKey ''ns'' ''p'' ''c'', UnixNano 10) = Some rec \<and>
    GR_SamplesDropped rec = 0"
  using Goroutines_samples_bounded [of "[\<lparr>GC_Namespace = ''ns'', GC_Pod = ''p'', GC_Container = ''c'', GC_Workload = WorkloadRef ''Job'' ''j'',
        GC_ImageDigest = '''', GC_ObservedAt = 15, GC_Goroutines = 8\<rparr>]" "PodKey ''ns'' ''p'' ''c''" 10 10]
  by (auto simp: maxInt64_def Truncate_def maxSamplesPerWindow_def)

text \<open>
  The journal keeps its invariant under every operation: samples within the cap, of at
  least one goroutine, and in the window of their record. Resuming a record that holds more
  samples than the cap keeps the earliest and counts the others as dropped.
\<close>

theorem Goroutines_invariant:
  assumes "goroutines_ok g" and "\<forall>rec \<in> set records. goroutine_ok (Goroutines_windowLength g) (resume_goroutine rec)"
  shows "goroutines_ok (Goroutines_Observe c g) \<and>
    goroutines_ok (fst (Goroutines_Resume records g)) \<and>
    goroutines_ok (snd (Goroutines_CloseBefore now g)) \<and>
    (\<forall>rec. length (GR_Samples (resume_goroutine rec)) \<le> maxSamplesPerWindow \<and>
      sorted (map GS_At (GR_Samples (resume_goroutine rec))))"
proof (intro conjI allI)
  show "goroutines_ok (fst (Goroutines_Resume records g))"
    using assms
    by (auto simp: Goroutines_Resume_def goroutines_ok_iff goroutine_store.resume_get case_prod_beta
        find_Some_iff split: option.splits)
  show "goroutines_ok (snd (Goroutines_CloseBefore now g))"
    using assms(1)
    by (auto simp: Goroutines_CloseBefore_def close_before_def goroutines_ok_iff mget_mfilter
        split: option.splits if_splits)
  fix rec
  show "length (GR_Samples (resume_goroutine rec)) \<le> maxSamplesPerWindow"
    by (simp add: resume_goroutine_def Let_def)
  have "sorted (map GS_At (GR_Samples (GoroutineRecord_clone rec)))"
    by (simp add: GoroutineRecord_clone_def sample_order.sorted_sort_slice)
  then show "sorted (map GS_At (GR_Samples (resume_goroutine rec)))"
    by (simp add: resume_goroutine_def Let_def sorted_wrt_take flip: take_map)
qed (rule Goroutines_Observe_ok [OF assms(1)])

theorem Goroutines_invariant_witness:
  "goroutines_ok (Goroutines_Observe
     \<lparr>GC_Namespace = ''ns'', GC_Pod = ''p'', GC_Container = ''c'', GC_Workload = WorkloadRef ''Job'' ''j'',
      GC_ImageDigest = '''', GC_ObservedAt = 15, GC_Goroutines = 8\<rparr> \<lparr>Goroutines_windowLength = 10, Goroutines_open = mempty\<rparr>)"
proof -
  have "goroutines_ok \<lparr>Goroutines_windowLength = 10, Goroutines_open = mempty\<rparr>" by (simp add: goroutines_ok_iff)
  from Goroutines_invariant [OF this, of "[]"] show ?thesis by simp
qed

end
