(* ===== verification/StateJournal.thy ===== *)
theory StateJournal
  imports JournalBase SplitStore
begin

text \<open>
  The journal of the agent's own states, \<open>internal/journal/states.go\<close>: how much of each window
  a state occupied, how much of it was observed at all, and how many episodes began in it.
  The key of the store is \<open>stateKey\<close>, its two names paired so that the totals of \<open>SplitStore\<close>
  apply. The instants of a pass come from the caller's clock, as an argument.
\<close>

section \<open>Definitions\<close>

definition StateFailing :: string where "StateFailing = ''failing''"
definition StateHalted :: string where "StateHalted = ''halted''"
definition SubjectShip :: string where "SubjectShip = ''shipping''"
definition subjectKeySep :: string where "subjectKeySep = [CHR 0x00]"

record AgentState =
  AS_State :: string
  AS_Subject :: string
  AS_Since :: "time option"

record StateRecord =
  SR_State :: string
  SR_Subject :: string
  SR_WindowStart :: time
  SR_WindowSeconds :: int
  SR_OccupiedNanos :: int
  SR_ObservedNanos :: int
  SR_Entries :: int
  SR_AccruedTo :: time
  SR_OpenSince :: "time option"

type_synonym stateKey = "(string \<times> string) \<times> int"

record lastSeen =
  LS_accruedTo :: time
  LS_since :: "time option"

record States =
  States_windowLength :: duration
  States_open :: "(stateKey, StateRecord) gomap"
  States_seen :: "(string, lastSeen) gomap"

definition NewStates :: "duration \<Rightarrow> States option" where
  "NewStates windowLength =
     (if windowLength \<le> 0 then None
      else Some \<lparr>States_windowLength = windowLength, States_open = mempty, States_seen = mempty\<rparr>)"

definition newStateRecord :: "duration \<Rightarrow> string \<times> string \<Rightarrow> time \<Rightarrow> StateRecord" where
  "newStateRecord len k start =
     \<lparr>SR_State = fst k, SR_Subject = snd k, SR_WindowStart = start, SR_WindowSeconds = windowSeconds len,
      SR_OccupiedNanos = 0, SR_ObservedNanos = 0, SR_Entries = 0, SR_AccruedTo = 0, SR_OpenSince = None\<rparr>"

definition state_subject :: "AgentState \<Rightarrow> string \<times> string" where
  "state_subject st = (AS_State st, AS_Subject st)"

text \<open>\<open>s.record(st, at)\<close>: the record, and the journal after it was created if it was missing.\<close>

definition States_record :: "AgentState \<Rightarrow> time \<Rightarrow> States \<Rightarrow> StateRecord \<times> States" where
  "States_record st at s =
     (let start = Truncate at (States_windowLength s); key = (state_subject st, UnixNano start) in
      case mget (States_open s) key of
        Some rec \<Rightarrow> (rec, s)
      | None \<Rightarrow>
          let rec = newStateRecord (States_windowLength s) (state_subject st) start
          in (rec, s\<lparr>States_open := mput key rec (States_open s)\<rparr>))"

text \<open>A write through the pointer it returns.\<close>

definition States_write :: "AgentState \<Rightarrow> time \<Rightarrow> (StateRecord \<Rightarrow> StateRecord) \<Rightarrow> States \<Rightarrow> States" where
  "States_write st at f s =
     (let (rec, s) = States_record st at s
      in s\<lparr>States_open := mput (state_subject st, UnixNano (Truncate at (States_windowLength s))) (f rec) (States_open s)\<rparr>)"

definition maxTime :: "time \<Rightarrow> time \<Rightarrow> time" where
  "maxTime a b = (if a > b then a else b)"

definition occupied_from :: "AgentState \<Rightarrow> lastSeen \<Rightarrow> time" where
  "occupied_from st prev =
     (case AS_Since st of None \<Rightarrow> 0
      | Some since \<Rightarrow> if LS_since prev \<noteq> None then LS_accruedTo prev else maxTime since (LS_accruedTo prev))"

definition accrue_span :: "time option \<Rightarrow> time \<Rightarrow> time \<times> time \<Rightarrow> StateRecord \<Rightarrow> StateRecord" where
  "accrue_span since occupiedFrom span rec =
     (let rec = rec\<lparr>SR_ObservedNanos := add64 (SR_ObservedNanos rec) (Sub (snd span) (fst span)),
                    SR_AccruedTo := snd span, SR_OpenSince := since\<rparr> in
      if IsZero occupiedFrom then rec
      else
        let start = maxTime occupiedFrom (fst span) in
        if start < snd span
        then rec\<lparr>SR_OccupiedNanos := add64 (SR_OccupiedNanos rec) (Sub (snd span) start)\<rparr>
        else rec)"

definition States_accrue :: "AgentState \<Rightarrow> lastSeen \<Rightarrow> time \<Rightarrow> States \<Rightarrow> States" where
  "States_accrue st prev at s =
     fold (\<lambda>span. States_write st (fst span) (accrue_span (AS_Since st) (occupied_from st prev) span))
       (spans (States_windowLength s) (LS_accruedTo prev) at) s"

text \<open>\<open>enter\<close>, called for a state that is open; \<open>prev\<close> is \<^const>\<open>None\<close> for a subject not known yet.\<close>

definition States_enter :: "AgentState \<Rightarrow> time \<Rightarrow> lastSeen option \<Rightarrow> time \<Rightarrow> States \<Rightarrow> States" where
  "States_enter st since prev at s =
     (if (case prev of None \<Rightarrow> False | Some p \<Rightarrow> LS_since p = Some since) then s
      else
        let (rec, s) = States_record st at s in
        if prev = None \<and> SR_OpenSince rec = Some since then s
        else States_write st at (\<lambda>rec. rec\<lparr>SR_Entries := add64 (SR_Entries rec) 1\<rparr>) s)"

definition stamp_record :: "time \<Rightarrow> time option \<Rightarrow> StateRecord \<Rightarrow> StateRecord" where
  "stamp_record at since rec = rec\<lparr>SR_AccruedTo := at, SR_OpenSince := since\<rparr>"

definition States_stamp :: "AgentState \<Rightarrow> time \<Rightarrow> States \<Rightarrow> States" where
  "States_stamp st at s = States_write st at (stamp_record at (AS_Since st)) s"

definition seen_key :: "AgentState \<Rightarrow> string" where
  "seen_key st = AS_State st @ subjectKeySep @ AS_Subject st"

text \<open>One iteration of the loop of \<open>Observe\<close>, and \<open>Observe\<close>.\<close>

definition observe_state :: "time \<Rightarrow> AgentState \<Rightarrow> States \<Rightarrow> States" where
  "observe_state at st s =
     (if AS_State st = '''' \<or> AS_Subject st = '''' then s
      else
        let prev = mget (States_seen s) (seen_key st);
            s = (case prev of Some p \<Rightarrow> if at > LS_accruedTo p then States_accrue st p at s else s | None \<Rightarrow> s);
            s = (case AS_Since st of Some since \<Rightarrow> States_enter st since prev at s | None \<Rightarrow> s);
            s = States_stamp st at s
        in s\<lparr>States_seen := mput (seen_key st) \<lparr>LS_accruedTo = at, LS_since = AS_Since st\<rparr> (States_seen s)\<rparr>)"

definition States_Observe :: "time \<Rightarrow> AgentState list \<Rightarrow> States \<Rightarrow> States" where
  "States_Observe at states s = fold (observe_state at) states s"

definition less_state :: "StateRecord \<Rightarrow> StateRecord \<Rightarrow> bool" where
  "less_state a b =
     (if SR_WindowStart a \<noteq> SR_WindowStart b then SR_WindowStart a < SR_WindowStart b
      else if SR_State a \<noteq> SR_State b then SR_State a < SR_State b
      else SR_Subject a < SR_Subject b)"

definition state_key :: "StateRecord \<Rightarrow> stateKey" where
  "state_key r = ((SR_State r, SR_Subject r), UnixNano (SR_WindowStart r))"

definition States_Snapshots :: "States \<Rightarrow> StateRecord list" where
  "States_Snapshots s = snapshots less_state (\<lambda>r. r) (States_open s)"

definition States_Resume :: "StateRecord list \<Rightarrow> States \<Rightarrow> States \<times> nat" where
  "States_Resume records s =
     (let (m, seeded) = resume state_key (\<lambda>r. r) records (States_open s)
      in (s\<lparr>States_open := m\<rparr>, seeded))"

definition States_CloseBefore :: "time \<Rightarrow> States \<Rightarrow> StateRecord list \<times> States" where
  "States_CloseBefore now s =
     (let (out, m) = close_before less_state (\<lambda>r. r) SR_WindowStart (States_windowLength s) now (States_open s)
      in (out, s\<lparr>States_open := m\<rparr>))"

section \<open>The store of open records\<close>

definition state_skey :: "StateRecord \<Rightarrow> time \<times> string \<times> string" where
  "state_skey r = (SR_WindowStart r, SR_State r, SR_Subject r)"

interpretation state_store: window_store less_state state_skey SR_WindowStart state_key "\<lambda>r. r"
  by unfold_locales (auto simp: less_state_def state_skey_def state_key_def less_prod_def)

lemma newStateRecord_sel [simp]:
  "SR_OccupiedNanos (newStateRecord len k s) = 0" "SR_ObservedNanos (newStateRecord len k s) = 0"
  "SR_Entries (newStateRecord len k s) = 0" "SR_OpenSince (newStateRecord len k s) = None"
  "SR_WindowStart (newStateRecord len k s) = s" "SR_State (newStateRecord len k s) = fst k"
  "SR_Subject (newStateRecord len k s) = snd k" "SR_AccruedTo (newStateRecord len k s) = 0"
  by (simp_all add: newStateRecord_def)

definition state_slot :: "AgentState \<Rightarrow> time \<Rightarrow> States \<Rightarrow> StateRecord" where
  "state_slot st at s = mget_or (newStateRecord (States_windowLength s) (state_subject st) (Truncate at (States_windowLength s)))
     (States_open s) (state_subject st, UnixNano (Truncate at (States_windowLength s)))"

lemma States_record_eq:
  "States_record st at s = (state_slot st at s,
     s\<lparr>States_open := mput (state_subject st, UnixNano (Truncate at (States_windowLength s))) (state_slot st at s) (States_open s)\<rparr>)"
  by (cases "mget (States_open s) (state_subject st, UnixNano (Truncate at (States_windowLength s)))")
    (simp_all add: States_record_def state_slot_def mget_or_def Let_def mget_mput_same)

lemma States_write_eq:
  "States_write st at f s = s\<lparr>States_open :=
     mupd (newStateRecord (States_windowLength s) (state_subject st) (Truncate at (States_windowLength s))) f
       (state_subject st, UnixNano (Truncate at (States_windowLength s))) (States_open s)\<rparr>"
  by (simp add: States_write_def States_record_eq state_slot_def mupd_def)

lemma States_write_frame [simp]:
  "States_windowLength (States_write st at f s) = States_windowLength s"
  "States_seen (States_write st at f s) = States_seen s"
  by (simp_all add: States_write_eq)

lemma States_accrue_frame [simp]:
  "States_windowLength (States_accrue st p at s) = States_windowLength s"
  "States_seen (States_accrue st p at s) = States_seen s"
proof -
  have "States_windowLength (fold (\<lambda>span. States_write st (fst span) (f span)) ps s) = States_windowLength s \<and>
      States_seen (fold (\<lambda>span. States_write st (fst span) (f span)) ps s) = States_seen s"
    for f and ps :: "(time \<times> time) list"
    by (induction ps arbitrary: s) simp_all
  then show "States_windowLength (States_accrue st p at s) = States_windowLength s"
    "States_seen (States_accrue st p at s) = States_seen s"
    by (simp_all add: States_accrue_def)
qed

text \<open>Counting an episode, as a write that adds one or nothing.\<close>

definition counts_entry :: "AgentState \<Rightarrow> time \<Rightarrow> lastSeen option \<Rightarrow> time \<Rightarrow> States \<Rightarrow> bool" where
  "counts_entry st since prev at s \<longleftrightarrow>
     (case prev of None \<Rightarrow> SR_OpenSince (state_slot st at s) \<noteq> Some since
      | Some p \<Rightarrow> LS_since p \<noteq> Some since)"

lemma stamp_after_enter:
  "States_stamp st at (States_enter st since prev at s) =
     States_write st at (\<lambda>rec. stamp_record at (AS_Since st)
       (if counts_entry st since prev at s then rec\<lparr>SR_Entries := add64 (SR_Entries rec) 1\<rparr> else rec)) s"
  by (auto simp: States_stamp_def States_enter_def counts_entry_def States_record_eq States_write_eq
      state_slot_def mupd_def Let_def split: option.splits)

section \<open>The invariant\<close>

text \<open>
  Time in a state never exceeds the time it was observed, and neither exceeds the window or
  the part of it that accrual has reached. Instants are required to lie in the range of
  \<open>UnixNano\<close>, where distinct windows have distinct keys.
\<close>

definition tick_ok :: "duration \<Rightarrow> time \<Rightarrow> bool" where
  "tick_ok len at \<longleftrightarrow> int64 (at - epoch) \<and> int64 (Truncate at len - epoch)"

definition state_ok :: "duration \<Rightarrow> StateRecord \<Rightarrow> bool" where
  "state_ok len r \<longleftrightarrow> 0 \<le> SR_OccupiedNanos r \<and> SR_OccupiedNanos r \<le> SR_ObservedNanos r \<and>
     SR_ObservedNanos r \<le> len \<and> SR_ObservedNanos r \<le> max 0 (SR_AccruedTo r - SR_WindowStart r) \<and>
     int64 (SR_WindowStart r - epoch)"

definition recs_ok :: "States \<Rightarrow> bool" where
  "recs_ok s \<longleftrightarrow> 0 < States_windowLength s \<and> int64 (States_windowLength s) \<and>
     (\<forall>k rec. mget (States_open s) k = Some rec \<longrightarrow>
        state_key rec = k \<and> state_ok (States_windowLength s) rec)"

text \<open>Every record of a subject has been accrued up to \<open>t\<close> at most.\<close>

definition accrued_by :: "string \<times> string \<Rightarrow> time \<Rightarrow> States \<Rightarrow> bool" where
  "accrued_by k t s \<longleftrightarrow> (\<forall>n rec. mget (States_open s) (k, n) = Some rec \<longrightarrow> SR_AccruedTo rec \<le> t)"

lemma tick_ok_pos: "tick_ok len t \<Longrightarrow> 0 < t"
  by (auto simp: tick_ok_def int64_def minInt64_def epoch_def unixToInternal_def second_def)

lemma tick_ok_between:
  "0 < len \<Longrightarrow> tick_ok len a \<Longrightarrow> tick_ok len b \<Longrightarrow> a \<le> t \<Longrightarrow> t \<le> b \<Longrightarrow> tick_ok len t"
  using Truncate_mono [of len a t] Truncate_mono [of len t b] by (auto simp: tick_ok_def int64_def)

lemma state_slot_ok:
  assumes "recs_ok s" and "tick_ok (States_windowLength s) t" and "accrued_by (state_subject st) b s" and "0 \<le> b"
  shows "state_ok (States_windowLength s) (state_slot st t s)"
    and "SR_WindowStart (state_slot st t s) = Truncate t (States_windowLength s)"
    and "state_key (state_slot st t s) = (state_subject st, UnixNano (Truncate t (States_windowLength s)))"
    and "SR_AccruedTo (state_slot st t s) \<le> b"
proof -
  let ?k = "(state_subject st, UnixNano (Truncate t (States_windowLength s)))"
  have "state_ok (States_windowLength s) (state_slot st t s) \<and>
    SR_WindowStart (state_slot st t s) = Truncate t (States_windowLength s) \<and>
    state_key (state_slot st t s) = ?k \<and> SR_AccruedTo (state_slot st t s) \<le> b"
  proof (cases "mget (States_open s) ?k")
    case None
    then show ?thesis
      using assms by (simp add: state_slot_def mget_or_def state_ok_def recs_ok_def tick_ok_def state_key_def)
  next
    case (Some rec)
    have slot: "state_slot st t s = rec" using Some by (simp add: state_slot_def mget_or_def)
    have ok: "state_key rec = ?k" "state_ok (States_windowLength s) rec" "SR_AccruedTo rec \<le> b"
      using assms(1,3) Some unfolding recs_ok_def accrued_by_def by blast+
    have same: "UnixNano (SR_WindowStart rec) = UnixNano (Truncate t (States_windowLength s))"
      using ok(1) by (simp add: state_key_def)
    have "SR_WindowStart rec = Truncate t (States_windowLength s)"
      using ok(2) assms(2) by (intro UnixNano_inj [OF _ _ same]) (simp_all add: state_ok_def tick_ok_def)
    with ok show ?thesis by (simp add: slot)
  qed
  then show "state_ok (States_windowLength s) (state_slot st t s)"
    "SR_WindowStart (state_slot st t s) = Truncate t (States_windowLength s)"
    "state_key (state_slot st t s) = (state_subject st, UnixNano (Truncate t (States_windowLength s)))"
    "SR_AccruedTo (state_slot st t s) \<le> b" by auto
qed

lemma States_write_ok:
  assumes "recs_ok s" and "accrued_by (state_subject st) b s"
    and "state_ok (States_windowLength s) (f (state_slot st t s))"
    and "state_key (f (state_slot st t s)) = (state_subject st, UnixNano (Truncate t (States_windowLength s)))"
    and "SR_AccruedTo (f (state_slot st t s)) \<le> c" and "b \<le> c"
  shows "recs_ok (States_write st t f s) \<and> accrued_by (state_subject st) c (States_write st t f s)"
proof -
  have slot: "mget_or (newStateRecord (States_windowLength s) (state_subject st) (Truncate t (States_windowLength s)))
      (States_open s) (state_subject st, UnixNano (Truncate t (States_windowLength s))) = state_slot st t s"
    by (simp add: state_slot_def)
  show ?thesis
    using assms unfolding recs_ok_def accrued_by_def States_write_eq
    by (auto simp: slot split: if_splits) (meson order_trans)
qed

lemma accrue_span_ok:
  assumes "state_ok len r" and "0 < len" and "int64 len" and "SR_AccruedTo r \<le> a"
    and "SR_WindowStart r \<le> a" and "a < e" and "e \<le> SR_WindowStart r + len"
  shows "state_ok len (accrue_span since from (a, e) r) \<and> SR_AccruedTo (accrue_span since from (a, e) r) = e \<and>
    state_key (accrue_span since from (a, e) r) = state_key r"
proof -
  have le: "e - x \<le> len" "int64 (e - x)" if "a \<le> x" "x < e" for x
    using that assms by (auto simp: int64_def minInt64_def)
  have obs: "SR_ObservedNanos r + (e - a) \<le> e - SR_WindowStart r"
    using assms by (auto simp: state_ok_def)
  have nn: "0 \<le> SR_ObservedNanos r" "0 \<le> SR_OccupiedNanos r" "SR_OccupiedNanos r \<le> SR_ObservedNanos r"
    using assms(1) by (auto simp: state_ok_def)
  have max: "e - SR_WindowStart r \<le> len" "len \<le> maxInt64" using assms by (auto simp: int64_def)
  have o: "add64 (SR_ObservedNanos r) (Sub e a) = SR_ObservedNanos r + (e - a)"
    using le(2) [of a] assms(6) nn obs max by (simp add: Sub_exact add64_nonneg)
  have c: "add64 (SR_OccupiedNanos r) (Sub e x) = SR_OccupiedNanos r + (e - x)" if "a \<le> x" "x < e" for x
    using le(2) [OF that] that nn obs max by (simp add: Sub_exact add64_nonneg)
  have "a \<le> maxTime from a" by (simp add: maxTime_def)
  with o c [of "maxTime from a"] nn obs max assms(1,6) show ?thesis
    unfolding accrue_span_def Let_def by (auto simp: state_ok_def state_key_def)
qed

lemma States_accrue_ok:
  assumes "recs_ok s" and "accrued_by (state_subject st) from s" and "tick_ok (States_windowLength s) from"
    and "tick_ok (States_windowLength s) at" and "from \<le> at"
  shows "recs_ok (fold (\<lambda>span. States_write st (fst span) (accrue_span since occ span)) (spans (States_windowLength s) from at) s) \<and>
    accrued_by (state_subject st) at
      (fold (\<lambda>span. States_write st (fst span) (accrue_span since occ span)) (spans (States_windowLength s) from at) s)"
proof -
  define len where "len = States_windowLength s"
  have len: "0 < len" using assms(1) by (simp add: recs_ok_def len_def)
  have "recs_ok s \<Longrightarrow> accrued_by (state_subject st) from s \<Longrightarrow> tick_ok len from \<Longrightarrow> from \<le> at \<Longrightarrow>
      States_windowLength s = len \<Longrightarrow>
      recs_ok (fold (\<lambda>span. States_write st (fst span) (accrue_span since occ span)) (spans len from at) s) \<and>
      accrued_by (state_subject st) at
        (fold (\<lambda>span. States_write st (fst span) (accrue_span since occ span)) (spans len from at) s)"
    using len
  proof (induction "from" arbitrary: s rule: spans_induct [where to = at])
    case (stop "from")
    then show ?case by simp
  next
    case (step "from")
    define e where "e = min at (Truncate from len + len)"
    let ?s = "States_write st from (accrue_span since occ (from, e)) s"
    have e: "from < e" "e \<le> at" "e \<le> Truncate from len + len"
      using step.hyps less_Truncate_add [OF len, of "from"] by (auto simp: e_def)
    have pos: "0 \<le> from" using tick_ok_pos [OF step.prems(3)] by simp
    note slot = state_slot_ok [OF step.prems(1) _ step.prems(2) pos, of "from", unfolded step.prems(5), OF step.prems(3)]
    have "int64 len" using step.prems(1,5) by (simp add: recs_ok_def)
    then have span: "state_ok len (accrue_span since occ (from, e) (state_slot st from s))"
      "SR_AccruedTo (accrue_span since occ (from, e) (state_slot st from s)) = e"
      "state_key (accrue_span since occ (from, e) (state_slot st from s)) = (state_subject st, UnixNano (Truncate from len))"
      using accrue_span_ok [OF slot(1) len, of "from" e since occ] slot e Truncate_le [of "from" len] by auto
    have "recs_ok ?s \<and> accrued_by (state_subject st) e ?s"
      using step.prems e span by (intro States_write_ok [where b = "from"]) auto
    moreover have "tick_ok len e"
      using tick_ok_between [OF len step.prems(3), of at e] assms(4) e by (simp add: len_def)
    ultimately show ?case
      using step.IH [of ?s, folded e_def] step.prems(5) e(2)
      by (simp add: spans_step [OF len step.hyps, folded e_def])
  qed
  then show ?thesis using assms(1,2,3,5) unfolding len_def by blast
qed

text \<open>One iteration of a pass: the accrual, and one write that counts and stamps.\<close>

definition accrued :: "time \<Rightarrow> AgentState \<Rightarrow> States \<Rightarrow> States" where
  "accrued at st s = (case mget (States_seen s) (seen_key st) of
     Some p \<Rightarrow> if at > LS_accruedTo p then States_accrue st p at s else s | None \<Rightarrow> s)"

definition new_entry :: "time \<Rightarrow> AgentState \<Rightarrow> States \<Rightarrow> bool" where
  "new_entry at st s = (case AS_Since st of None \<Rightarrow> False
     | Some since \<Rightarrow> counts_entry st since (mget (States_seen s) (seen_key st)) at (accrued at st s))"

definition close_pass :: "time \<Rightarrow> time option \<Rightarrow> bool \<Rightarrow> StateRecord \<Rightarrow> StateRecord" where
  "close_pass at since entry rec =
     stamp_record at since (if entry then rec\<lparr>SR_Entries := add64 (SR_Entries rec) 1\<rparr> else rec)"

lemma accrued_frame [simp]:
  "States_windowLength (accrued at st s) = States_windowLength s" "States_seen (accrued at st s) = States_seen s"
  by (simp_all add: accrued_def split: option.splits)

lemma observe_state_eq:
  "observe_state at st s =
     (if AS_State st = '''' \<or> AS_Subject st = '''' then s
      else (States_write st at (close_pass at (AS_Since st) (new_entry at st s)) (accrued at st s))
        \<lparr>States_seen := mput (seen_key st) \<lparr>LS_accruedTo = at, LS_since = AS_Since st\<rparr> (States_seen s)\<rparr>)"
proof (cases "AS_Since st")
  case None
  then show ?thesis
    by (simp add: observe_state_def Let_def new_entry_def close_pass_def [abs_def] States_stamp_def
        accrued_def [symmetric] stamp_record_def [abs_def])
next
  case (Some since)
  then show ?thesis
    using stamp_after_enter [of st at since "mget (States_seen s) (seen_key st)" "accrued at st s"]
    by (simp add: observe_state_def Let_def new_entry_def close_pass_def [abs_def] accrued_def [symmetric])
qed

lemma mget_state_write_other:
  "fst k \<noteq> state_subject st \<Longrightarrow> mget (States_open (States_write st at f s)) k = mget (States_open s) k"
  by (auto simp: States_write_eq)

lemma mget_accrued_other:
  assumes "fst k \<noteq> state_subject st"
  shows "mget (States_open (accrued at st s)) k = mget (States_open s) k"
proof -
  have "mget (States_open (fold (\<lambda>span. States_write st (fst span) (f span)) ps s)) k = mget (States_open s) k"
    for f and ps :: "(time \<times> time) list"
    using assms by (induction ps arbitrary: s) (simp_all add: mget_state_write_other)
  then show ?thesis by (simp add: accrued_def States_accrue_def split: option.splits)
qed

definition states_ok :: "States \<Rightarrow> bool" where
  "states_ok s \<longleftrightarrow> recs_ok s \<and>
     (\<forall>k p. mget (States_seen s) (fst k @ subjectKeySep @ snd k) = Some p \<longrightarrow> accrued_by k (LS_accruedTo p) s) \<and>
     (\<forall>k p. mget (States_seen s) k = Some p \<longrightarrow> tick_ok (States_windowLength s) (LS_accruedTo p))"

text \<open>Nothing in the journal lies after \<open>at\<close>.\<close>

definition behind :: "time \<Rightarrow> States \<Rightarrow> bool" where
  "behind at s \<longleftrightarrow> (\<forall>k. accrued_by k at s) \<and> (\<forall>k p. mget (States_seen s) k = Some p \<longrightarrow> LS_accruedTo p \<le> at)"

lemma states_okD:
  "states_ok s \<Longrightarrow> recs_ok s"
  "states_ok s \<Longrightarrow> mget (States_seen s) (fst k @ subjectKeySep @ snd k) = Some p \<Longrightarrow> accrued_by k (LS_accruedTo p) s"
  "states_ok s \<Longrightarrow> mget (States_seen s) n = Some p \<Longrightarrow> tick_ok (States_windowLength s) (LS_accruedTo p)"
  unfolding states_ok_def by blast+

lemma behindD:
  "behind at s \<Longrightarrow> accrued_by k at s"
  "behind at s \<Longrightarrow> mget (States_seen s) n = Some p \<Longrightarrow> LS_accruedTo p \<le> at"
  unfolding behind_def by blast+

lemma accrued_ok:
  assumes "states_ok s" and "behind at s" and "tick_ok (States_windowLength s) at"
  shows "recs_ok (accrued at st s) \<and> accrued_by (state_subject st) at (accrued at st s)"
proof (cases "mget (States_seen s) (seen_key st)")
  case None
  then show ?thesis
    using states_okD(1) [OF assms(1)] behindD(1) [OF assms(2)] by (simp add: accrued_def)
next
  case (Some p)
  have "mget (States_seen s) (fst (state_subject st) @ subjectKeySep @ snd (state_subject st)) = Some p"
    using Some by (simp add: seen_key_def state_subject_def)
  then have "accrued_by (state_subject st) (LS_accruedTo p) s" by (rule states_okD(2) [OF assms(1)])
  then show ?thesis
    using States_accrue_ok [OF states_okD(1) [OF assms(1)] _ states_okD(3) [OF assms(1) Some] assms(3)
        behindD(2) [OF assms(2) Some], of st] Some states_okD(1) [OF assms(1)] behindD(1) [OF assms(2)]
    by (simp add: accrued_def States_accrue_def)
qed

lemma observe_state_ok:
  assumes "states_ok s" and "behind at s" and "tick_ok (States_windowLength s) at"
  shows "states_ok (observe_state at st s) \<and> behind at (observe_state at st s) \<and>
    States_windowLength (observe_state at st s) = States_windowLength s"
proof (cases "AS_State st = '''' \<or> AS_Subject st = ''''")
  case False
  define t where "t = accrued at st s"
  let ?f = "close_pass at (AS_Since st) (new_entry at st s)"
  let ?s = "States_write st at ?f t"
  have t: "recs_ok t" "accrued_by (state_subject st) at t" "States_windowLength t = States_windowLength s"
    using accrued_ok [OF assms, of st] by (simp_all add: t_def)
  note slot = state_slot_ok [OF t(1) _ t(2), unfolded t(3), OF assms(3) less_imp_le [OF tick_ok_pos [OF assms(3)]]]
  have recs: "recs_ok ?s" and own: "accrued_by (state_subject st) at ?s"
    using States_write_ok [OF t(1,2), of ?f at at] slot t(3)
    by (auto simp: close_pass_def stamp_record_def state_ok_def state_key_def)
  have other: "accrued_by k b ?s" if "k \<noteq> state_subject st" "accrued_by k b s" for k b
    using that mget_state_write_other [of _ st at ?f t] mget_accrued_other [of _ st at s]
    by (simp add: accrued_by_def t_def)
  have all: "accrued_by k at ?s" for k
    using own other behindD(1) [OF assms(2)] by (cases "k = state_subject st") auto
  let ?u = "?s\<lparr>States_seen := mput (seen_key st) \<lparr>LS_accruedTo = at, LS_since = AS_Since st\<rparr> (States_seen s)\<rparr>"
  have "accrued_by k (LS_accruedTo p) ?s"
    if "mget (States_seen ?u) (fst k @ subjectKeySep @ snd k) = Some p" for k p
  proof (cases "fst k @ subjectKeySep @ snd k = seen_key st")
    case False
    then have "k \<noteq> state_subject st" by (auto simp: seen_key_def state_subject_def)
    then show ?thesis using other states_okD(2) [OF assms(1), of k p] that False by simp
  qed (use that all [of k] in \<open>auto simp: accrued_by_def\<close>)
  then have "states_ok ?u"
    using recs assms(3) states_okD(3) [OF assms(1)] t(3)
    unfolding states_ok_def recs_ok_def accrued_by_def by (auto split: if_splits)
  moreover have "behind at ?u"
    using all behindD(2) [OF assms(2)] unfolding behind_def accrued_by_def by (auto split: if_splits)
  ultimately show ?thesis
    using False t(3) by (simp add: observe_state_eq t_def [symmetric])
qed (use assms in \<open>simp add: observe_state_def\<close>)

text \<open>A run of the journal: passes at instants that do not go back, and a resumption at its start.\<close>

inductive states_run :: "duration \<Rightarrow> time \<Rightarrow> States \<Rightarrow> bool" where
  init: "NewStates len = Some s \<Longrightarrow> int64 len \<Longrightarrow> states_run len 0 s"
| resume: "states_run len clock s \<Longrightarrow> States_seen s = mempty \<Longrightarrow> clock \<le> clock' \<Longrightarrow>
    \<forall>rec \<in> set records. state_ok len rec \<and> SR_AccruedTo rec \<le> clock' \<Longrightarrow>
    states_run len clock' (fst (States_Resume records s))"
| pass: "states_run len clock s \<Longrightarrow> clock \<le> at \<Longrightarrow> tick_ok len at \<Longrightarrow>
    states_run len at (States_Observe at sts s)"
| close: "states_run len clock s \<Longrightarrow> states_run len clock (snd (States_CloseBefore now s))"

lemma states_run_ok:
  assumes "states_run len clock s"
  shows "states_ok s \<and> behind clock s \<and> States_windowLength s = len"
  using assms
proof induction
  case (init len s)
  then show ?case
    by (auto simp: NewStates_def states_ok_def behind_def recs_ok_def accrued_by_def split: if_splits)
next
  case (resume len clock s clock' records)
  then show ?case
    by (auto simp: States_Resume_def states_ok_def behind_def recs_ok_def accrued_by_def
        state_store.resume_get case_prod_beta find_Some_iff split: option.splits) (meson order_trans)
next
  case (pass len clock s at sts)
  then have "behind clock s" and "clock \<le> at" by auto
  then have "behind at s" unfolding behind_def accrued_by_def by (meson order_trans)
  let ?P = "\<lambda>s. states_ok s \<and> behind at s \<and> States_windowLength s = len"
  have "?P (fold (observe_state at) sts s)"
  proof (rule fold_invariant_list [where P = ?P])
    fix st s assume "?P s"
    then show "?P (observe_state at st s)" using observe_state_ok [of s at st] pass.hyps by blast
  qed (use pass \<open>behind at s\<close> in blast)
  then show ?case by (simp add: States_Observe_def)
next
  case (close len clock s now)
  then show ?case
    by (auto simp: States_CloseBefore_def close_before_def states_ok_def behind_def recs_ok_def accrued_by_def
        mget_mfilter split: option.splits if_splits)
qed

section \<open>One pass, in numbers\<close>

lemma accrue_span_sel [simp]:
  "SR_ObservedNanos (accrue_span since from sp r) = add64 (SR_ObservedNanos r) (Sub (snd sp) (fst sp))"
  "SR_OccupiedNanos (accrue_span since from sp r) =
     (if from \<noteq> 0 \<and> maxTime from (fst sp) < snd sp
      then add64 (SR_OccupiedNanos r) (Sub (snd sp) (maxTime from (fst sp))) else SR_OccupiedNanos r)"
  "SR_Entries (accrue_span since from sp r) = SR_Entries r"
  by (simp_all add: accrue_span_def Let_def)

lemma close_pass_sel [simp]:
  "SR_ObservedNanos (close_pass at since e r) = SR_ObservedNanos r"
  "SR_OccupiedNanos (close_pass at since e r) = SR_OccupiedNanos r"
  "SR_Entries (close_pass at since e r) = (if e then add64 (SR_Entries r) 1 else SR_Entries r)"
  by (simp_all add: close_pass_def stamp_record_def)

text \<open>What a list of writes adds to a total, when each write adds \<open>v\<close> of its span.\<close>

lemma total_spans:
  assumes "\<And>k t. f (newStateRecord (States_windowLength s) k t) = 0"
    and "\<And>sp r. sp \<in> set ps \<Longrightarrow> wrap64 (f (g sp r)) = wrap64 (f r + v sp)"
  shows "wrap64 (key_total f (state_subject st) (States_open (fold (\<lambda>sp. States_write st (fst sp) (g sp)) ps s))) =
    wrap64 (key_total f (state_subject st) (States_open s) + sum_list (map v (ps :: (time \<times> time) list)))"
  using assms
proof (induction ps arbitrary: s)
  case (Cons sp ps)
  let ?s = "States_write st (fst sp) (g sp) s" and ?k = "state_subject st"
  let ?slot = "state_slot st (fst sp) s"
  have "key_total f ?k (States_open ?s) = (key_total f ?k (States_open s) - f ?slot) + f (g sp ?slot)"
    using Cons.prems(1)
    by (auto simp: States_write_eq key_total_mupd state_slot_def mget_or_def split: option.splits)
  moreover have "wrap64 (f (g sp ?slot)) = wrap64 (f ?slot + v sp)" using Cons.prems(2) by simp
  ultimately have one: "wrap64 (key_total f ?k (States_open ?s)) = wrap64 (key_total f ?k (States_open s) + v sp)"
    by (metis add.assoc diff_add_cancel wrap64_add_right)
  have "wrap64 (key_total f ?k (States_open (fold (\<lambda>sp. States_write st (fst sp) (g sp)) ps ?s))) =
      wrap64 (key_total f ?k (States_open ?s) + sum_list (map v ps))"
    using Cons.prems by (intro Cons.IH) simp_all
  also have "\<dots> = wrap64 (key_total f ?k (States_open s) + v sp + sum_list (map v ps))"
    using one by (metis wrap64_add_left)
  finally show ?case by (simp add: add.assoc)
qed simp

text \<open>The occupied parts of the spans of an interval add up to the occupied part of it.\<close>

lemma occupied_spans:
  assumes "0 < len"
  shows "from \<le> to \<Longrightarrow> sum_list (map (\<lambda>(a, e). max 0 (e - max occ a)) (spans len from to)) = max 0 (to - max occ from)"
  using assms
proof (induction "from" rule: spans_induct [where to = to])
  case (stop "from")
  then show ?case by simp
next
  case (step "from")
  define e where "e = min to (Truncate from len + len)"
  have e: "from < e" "e \<le> to" using less_Truncate_add [OF assms, of "from"] step.hyps by (auto simp: e_def)
  have "max 0 (e - max occ from) + max 0 (to - max occ e) = max 0 (to - max occ from)"
    using e by (auto simp: max_def)
  then show ?case
    using step.IH [folded e_def] step.prems e by (simp add: spans_step [OF assms step.hyps, folded e_def])
qed

lemma total_write_one:
  assumes "\<And>k t. f (newStateRecord (States_windowLength s) k t) = 0" and "\<And>r. wrap64 (f (g r)) = wrap64 (f r + v)"
  shows "wrap64 (key_total f (state_subject st) (States_open (States_write st at g s))) =
    wrap64 (key_total f (state_subject st) (States_open s) + v)"
  using assms total_spans [of f s "[(at, at)]" "\<lambda>_. g" "\<lambda>_. v" st] by simp

definition named :: "AgentState \<Rightarrow> bool" where
  "named st \<longleftrightarrow> AS_State st \<noteq> '''' \<and> AS_Subject st \<noteq> ''''"

text \<open>How long a state is taken to have been open between two passes.\<close>

definition open_time :: "AgentState \<Rightarrow> lastSeen \<Rightarrow> time \<Rightarrow> int" where
  "open_time st p at = (case AS_Since st of None \<Rightarrow> 0
     | Some since \<Rightarrow> if LS_since p \<noteq> None then at - LS_accruedTo p else max 0 (at - max since (LS_accruedTo p)))"

lemma accrue_totals:
  assumes "0 < States_windowLength s" and "LS_accruedTo p < at" and "0 < LS_accruedTo p" and "int64 (at - LS_accruedTo p)"
  shows "wrap64 (key_total SR_ObservedNanos (state_subject st) (States_open (States_accrue st p at s))) =
      wrap64 (key_total SR_ObservedNanos (state_subject st) (States_open s) + (at - LS_accruedTo p))"
    and "wrap64 (key_total SR_OccupiedNanos (state_subject st) (States_open (States_accrue st p at s))) =
      wrap64 (key_total SR_OccupiedNanos (state_subject st) (States_open s) + open_time st p at)"
    and "wrap64 (key_total SR_Entries (state_subject st) (States_open (States_accrue st p at s))) =
      wrap64 (key_total SR_Entries (state_subject st) (States_open s))"
proof -
  let ?ps = "spans (States_windowLength s) (LS_accruedTo p) at"
  have sound: "LS_accruedTo p \<le> a \<and> a < e \<and> e \<le> at" if "(a, e) \<in> set ?ps" for a e
    using spans_sound [OF assms(1), of "LS_accruedTo p" at] that by fastforce
  have ex: "Sub e x = e - x" if "(a, e) \<in> set ?ps" "a \<le> x" "x \<le> e" for a e x
    using sound [OF that(1)] that assms(2,4) by (intro Sub_exact) (auto simp: int64_def minInt64_def)
  have "sum_list (map (\<lambda>sp. snd sp - fst sp) ?ps) = at - LS_accruedTo p"
    using spans_sound [OF assms(1), of "LS_accruedTo p" at] assms(2) by (simp add: case_prod_unfold)
  moreover have "wrap64 (SR_ObservedNanos (accrue_span since from sp r)) = wrap64 (SR_ObservedNanos r + (snd sp - fst sp))"
    if "sp \<in> set ?ps" for since "from" sp r
    using that ex [of "fst sp" "snd sp" "fst sp"] sound [of "fst sp" "snd sp"] by (simp add: add64_def)
  ultimately show "wrap64 (key_total SR_ObservedNanos (state_subject st) (States_open (States_accrue st p at s))) =
      wrap64 (key_total SR_ObservedNanos (state_subject st) (States_open s) + (at - LS_accruedTo p))"
    unfolding States_accrue_def by (subst total_spans [where v = "\<lambda>sp. snd sp - fst sp"]) simp_all
  let ?occ = "occupied_from st p"
  let ?v = "\<lambda>sp. if ?occ = 0 then 0 else max 0 (snd sp - max ?occ (fst sp))"
  have "sum_list (map ?v ?ps) = open_time st p at"
  proof (cases "AS_Since st")
    case None
    then show ?thesis by (simp add: occupied_from_def open_time_def)
  next
    case (Some since)
    have occ: "?occ = (if LS_since p \<noteq> None then LS_accruedTo p else max since (LS_accruedTo p))"
      using Some by (simp add: occupied_from_def maxTime_def max_def)
    then have "?occ \<noteq> 0" using assms(3) by (auto simp: max_def)
    then show ?thesis
      using occupied_spans [OF assms(1), of "LS_accruedTo p" at ?occ] assms(2) Some occ
      by (auto simp: open_time_def case_prod_unfold max.assoc)
  qed
  moreover have "wrap64 (SR_OccupiedNanos (accrue_span since ?occ sp r)) = wrap64 (SR_OccupiedNanos r + ?v sp)"
    if "sp \<in> set ?ps" for since sp r
    using that ex [of "fst sp" "snd sp" "max ?occ (fst sp)"] sound [of "fst sp" "snd sp"]
    by (auto simp: add64_def maxTime_def max_def)
  ultimately show "wrap64 (key_total SR_OccupiedNanos (state_subject st) (States_open (States_accrue st p at s))) =
      wrap64 (key_total SR_OccupiedNanos (state_subject st) (States_open s) + open_time st p at)"
    unfolding States_accrue_def by (subst total_spans [where v = ?v]) simp_all
  show "wrap64 (key_total SR_Entries (state_subject st) (States_open (States_accrue st p at s))) =
      wrap64 (key_total SR_Entries (state_subject st) (States_open s))"
    unfolding States_accrue_def using total_spans [where f = SR_Entries and v = "\<lambda>_. 0"] by simp
qed

section \<open>Properties\<close>



text \<open>
  What one pass adds for a subject seen before: over all its windows the observed time
  grows by exactly the interval since the last pass, the time in the state by all of the
  interval if it was open at both ends, by the part since it opened if it opened in
  between, and by nothing if it is closed now; as \<open>int64\<close> sums.
\<close>

theorem States_pass_accounts:
  assumes "named st" and "mget (States_seen s) (seen_key st) = Some p" and "0 < States_windowLength s"
    and "0 < LS_accruedTo p" and "LS_accruedTo p < at" and "int64 (at - LS_accruedTo p)"
  shows "let tot = \<lambda>f s. wrap64 (key_total f (state_subject st) (States_open s)); s' = States_Observe at [st] s in
    tot SR_ObservedNanos s' = add64 (tot SR_ObservedNanos s) (at - LS_accruedTo p) \<and>
    tot SR_OccupiedNanos s' = add64 (tot SR_OccupiedNanos s) (case AS_Since st of None \<Rightarrow> 0
      | Some since \<Rightarrow> if LS_since p \<noteq> None then at - LS_accruedTo p else max 0 (at - max since (LS_accruedTo p)))"
proof -
  have acc: "accrued at st s = States_accrue st p at s" using assms(2,5) by (simp add: accrued_def)
  note tot = accrue_totals [OF assms(3,5,4,6), of st]
  have keep: "wrap64 (key_total f (state_subject st) (States_open (States_write st at (close_pass at a b) t))) =
      wrap64 (key_total f (state_subject st) (States_open t))"
    if "f \<in> {SR_ObservedNanos, SR_OccupiedNanos}" for a b t f
    using that total_write_one [where v = 0 and f = f] by (auto simp: total_write_one [where v = 0])
  show ?thesis
    using assms(1) tot(1,2) unfolding named_def
    by (simp add: States_Observe_def observe_state_eq acc keep Let_def add64_def int64_simps open_time_def)
qed

theorem States_pass_accounts_witness:
  "wrap64 (key_total SR_ObservedNanos (''failing'', ''pods'') (States_open (States_Observe 25
     [\<lparr>AS_State = ''failing'', AS_Subject = ''pods'', AS_Since = None\<rparr>]
     \<lparr>States_windowLength = 10, States_open = mempty, States_seen = mput [CHR ''f'', CHR ''a'', CHR ''i'', CHR ''l'', CHR ''i'', CHR ''n'', CHR ''g'', CHR 0x00, CHR ''p'', CHR ''o'', CHR ''d'', CHR ''s''] \<lparr>LS_accruedTo = 7, LS_since = None\<rparr> mempty\<rparr>))) = 18"
  using States_pass_accounts [of "\<lparr>AS_State = ''failing'', AS_Subject = ''pods'', AS_Since = None\<rparr>"
     "\<lparr>States_windowLength = 10, States_open = mempty, States_seen = mput [CHR ''f'', CHR ''a'', CHR ''i'', CHR ''l'', CHR ''i'', CHR ''n'', CHR ''g'', CHR 0x00, CHR ''p'', CHR ''o'', CHR ''d'', CHR ''s''] \<lparr>LS_accruedTo = 7, LS_since = None\<rparr> mempty\<rparr>"
     "\<lparr>LS_accruedTo = 7, LS_since = None\<rparr>" 25]
  by (simp add: named_def seen_key_def subjectKeySep_def Let_def int64_def minInt64_def maxInt64_def state_subject_def
      key_total_def add64_def wrap64_def)

text \<open>Instants from the Unix epoch to the year 2262, where differences are exact durations.\<close>

definition unix_range :: "time \<Rightarrow> bool" where
  "unix_range t \<longleftrightarrow> epoch \<le> t \<and> t - epoch \<le> maxInt64"

lemma unix_range_diff: "unix_range a \<Longrightarrow> unix_range b \<Longrightarrow> int64 (a - b) \<and> 0 < a"
  by (auto simp: unix_range_def int64_def minInt64_def maxInt64_def epoch_def unixToInternal_def second_def)

text \<open>An episode that was already open under the same start is not counted again.\<close>

lemma observe_entries:
  assumes "named st" and "\<And>p. mget (States_seen s) (seen_key st) = Some p \<Longrightarrow> 0 < LS_accruedTo p"
    and "0 < States_windowLength s"
    and "\<And>p. mget (States_seen s) (seen_key st) = Some p \<Longrightarrow> int64 (at - LS_accruedTo p)"
  shows "wrap64 (key_total SR_Entries (state_subject st) (States_open (observe_state at st s))) =
    wrap64 (key_total SR_Entries (state_subject st) (States_open s) + (if new_entry at st s then 1 else 0))"
proof -
  have "wrap64 (key_total SR_Entries (state_subject st) (States_open (accrued at st s))) =
      wrap64 (key_total SR_Entries (state_subject st) (States_open s))"
    using assms accrue_totals(3) [OF assms(3), of _ at st]
    by (auto simp: accrued_def split: option.splits)
  moreover have "wrap64 (key_total SR_Entries (state_subject st) (States_open
        (States_write st at (close_pass at (AS_Since st) (new_entry at st s)) (accrued at st s)))) =
      wrap64 (key_total SR_Entries (state_subject st) (States_open (accrued at st s)) + (if new_entry at st s then 1 else 0))"
    by (rule total_write_one) (simp_all add: add64_def)
  ultimately show ?thesis
    using assms(1) unfolding named_def by (simp add: observe_state_eq) (metis wrap64_add_left)
qed

lemma observe_seen:
  "named st \<Longrightarrow> mget (States_seen (observe_state at st s)) (seen_key st) =
    Some \<lparr>LS_accruedTo = at, LS_since = AS_Since st\<rparr>"
  by (simp add: observe_state_eq named_def)

lemma observe_length [simp]: "States_windowLength (observe_state at st s) = States_windowLength s"
  by (simp add: observe_state_eq)

lemma repeat_entries:
  assumes "named st" and "AS_Since st = Some since" and "0 < States_windowLength s"
    and "mget (States_seen s) (seen_key st) = Some \<lparr>LS_accruedTo = t, LS_since = Some since\<rparr>"
    and "\<forall>at \<in> set (t # ats). unix_range at"
  shows "wrap64 (key_total SR_Entries (state_subject st) (States_open (fold (\<lambda>at. observe_state at st) ats s))) =
    wrap64 (key_total SR_Entries (state_subject st) (States_open s))"
  using assms
proof (induction ats arbitrary: s t)
  case (Cons at ats)
  have "\<not> new_entry at st s" using Cons.prems by (simp add: new_entry_def counts_entry_def)
  moreover have "int64 (at - t)" "0 < t" using Cons.prems(5) unix_range_diff by auto
  ultimately have "wrap64 (key_total SR_Entries (state_subject st) (States_open (observe_state at st s))) =
      wrap64 (key_total SR_Entries (state_subject st) (States_open s))"
    using observe_entries [of st s at] Cons.prems by simp
  then show ?case
    using Cons.IH [of "observe_state at st s" at] Cons.prems observe_seen [of st at s] by simp
qed simp

text \<open>
  An episode is counted once however many passes find it open: after a first pass that
  counts it, any number of further passes that find it open since the same instant leave
  the number of episodes, summed over all windows, one higher than before.
\<close>

theorem States_episode_counted_once:
  assumes "named st" and "AS_Since st = Some since" and "0 < States_windowLength s"
    and "\<forall>p. mget (States_seen s) (seen_key st) = Some p \<longrightarrow>
      LS_since p \<noteq> Some since \<and> unix_range (LS_accruedTo p)"
    and "mget (States_seen s) (seen_key st) = None \<longrightarrow> States_open s = mempty"
    and "\<forall>t \<in> set (at # ats). unix_range t"
  shows "wrap64 (key_total SR_Entries (state_subject st) (States_open (fold (\<lambda>at. observe_state at st) (at # ats) s))) =
    add64 (wrap64 (key_total SR_Entries (state_subject st) (States_open s))) 1"
proof -
  have "new_entry at st s"
  proof (cases "mget (States_seen s) (seen_key st)")
    case None
    then have "States_open s = mempty" using assms(5) by simp
    then show ?thesis
      using None assms(2) by (simp add: new_entry_def counts_entry_def accrued_def state_slot_def)
  next
    case (Some p)
    then show ?thesis using assms(2,4) by (simp add: new_entry_def counts_entry_def)
  qed
  moreover have "int64 (at - LS_accruedTo p)" "0 < LS_accruedTo p" if "mget (States_seen s) (seen_key st) = Some p" for p
    using assms(4,6) that unix_range_diff by auto
  ultimately have "wrap64 (key_total SR_Entries (state_subject st) (States_open (observe_state at st s))) =
      wrap64 (key_total SR_Entries (state_subject st) (States_open s) + 1)"
    using observe_entries [OF assms(1) _ assms(3), of at] by simp
  then show ?thesis
    using repeat_entries [OF assms(1,2), of "observe_state at st s" at ats] assms(2,3,6) observe_seen [OF assms(1), of at s]
    by (simp add: add64_def int64_simps)
qed

theorem States_episode_counted_once_witness:
  "wrap64 (key_total SR_Entries (''failing'', ''pods'') (States_open (fold (\<lambda>at. observe_state at
     \<lparr>AS_State = ''failing'', AS_Subject = ''pods'', AS_Since = Some epoch\<rparr>) [epoch + 5, epoch + 15, epoch + 25]
     \<lparr>States_windowLength = 10, States_open = mempty, States_seen = mempty\<rparr>))) = 1"
  using States_episode_counted_once [of "\<lparr>AS_State = ''failing'', AS_Subject = ''pods'', AS_Since = Some epoch\<rparr>" epoch
      "\<lparr>States_windowLength = 10, States_open = mempty, States_seen = mempty\<rparr>" "epoch + 5" "[epoch + 15, epoch + 25]"]
  by (simp add: named_def unix_range_def maxInt64_def state_subject_def key_total_def add64_def)

section \<open>Divergences\<close>

text \<open>
  A process that resumes a journal and makes its first pass in a later window counts an
  episode a second time: the record that says the episode was counted is in the window
  before, and \<open>enter\<close> looks only at the window of the pass.
\<close>

lemma States_restart_recounts:
  assumes "named st" and "AS_Since st = Some since" and "States_seen s = mempty"
    and "mget (States_open s) (state_subject st, UnixNano (Truncate at (States_windowLength s))) = None"
    and "mget (States_open s) (state_subject st, n) = Some counted" and "SR_OpenSince counted = Some since"
    and "0 < States_windowLength s"
  shows "wrap64 (key_total SR_Entries (state_subject st) (States_open (observe_state at st s))) =
    wrap64 (key_total SR_Entries (state_subject st) (States_open s) + 1)"
proof -
  have "new_entry at st s"
    using assms(2-4) by (simp add: new_entry_def counts_entry_def accrued_def state_slot_def mget_or_def)
  then show ?thesis using observe_entries [OF assms(1) _ assms(7), of at] assms(3) by simp
qed

text \<open>
  A state that opens after a window boundary is written into the window before it as open:
  the record of the window that ended at \<open>epoch + 20\<close>, true up to that instant, names an
  episode that began at \<open>epoch + 23\<close>.
\<close>

lemma States_open_since_after_accrued_to:
  "let s = States_Observe (epoch + 15) [\<lparr>AS_State = ''failing'', AS_Subject = ''pods'', AS_Since = None\<rparr>]
         \<lparr>States_windowLength = 10, States_open = mempty, States_seen = mempty\<rparr>;
       s' = States_Observe (epoch + 25) [\<lparr>AS_State = ''failing'', AS_Subject = ''pods'', AS_Since = Some (epoch + 23)\<rparr>] s
   in map_option (\<lambda>rec. (SR_AccruedTo rec, SR_OpenSince rec)) (mget (States_open s') ((''failing'', ''pods''), 10)) =
     Some (epoch + 20, Some (epoch + 23))"
  by code_simp

end
