(* ===== verification/CounterJournal.thy ===== *)
theory CounterJournal
  imports JournalBase SplitStore
begin

text \<open>
  The journal of the agent's own counters, \<open>internal/journal/counters.go\<close>: the change of each
  counter within each window, taken from totals read at every pass. Ranging over the map of
  readings writes to a different record for each name, so the order in which Go visits them
  does not matter; the model visits them in the order of their names.
\<close>

section \<open>Definitions\<close>

record CounterRecord =
  CT_Counter :: string
  CT_WindowStart :: time
  CT_WindowSeconds :: int
  CT_Delta :: int
  CT_ObservedNanos :: int
  CT_AccruedTo :: time

type_synonym counterKey = "string \<times> int"

record Counters =
  Counters_windowLength :: duration
  Counters_open :: "(counterKey, CounterRecord) gomap"
  Counters_prev :: "(string, int) gomap"
  Counters_prevSince :: time
  Counters_prevAt :: time

definition NewCounters :: "duration \<Rightarrow> Counters option" where
  "NewCounters windowLength =
     (if windowLength \<le> 0 then None
      else Some \<lparr>Counters_windowLength = windowLength, Counters_open = mempty, Counters_prev = mempty,
        Counters_prevSince = 0, Counters_prevAt = 0\<rparr>)"

definition newCounterRecord :: "duration \<Rightarrow> string \<Rightarrow> time \<Rightarrow> CounterRecord" where
  "newCounterRecord len name start =
     \<lparr>CT_Counter = name, CT_WindowStart = start, CT_WindowSeconds = windowSeconds len,
      CT_Delta = 0, CT_ObservedNanos = 0, CT_AccruedTo = 0\<rparr>"

definition Counters_record :: "string \<Rightarrow> time \<Rightarrow> Counters \<Rightarrow> CounterRecord \<times> Counters" where
  "Counters_record name at c =
     (let start = Truncate at (Counters_windowLength c); key = (name, UnixNano start) in
      case mget (Counters_open c) key of
        Some rec \<Rightarrow> (rec, c)
      | None \<Rightarrow>
          let rec = newCounterRecord (Counters_windowLength c) name start
          in (rec, c\<lparr>Counters_open := mput key rec (Counters_open c)\<rparr>))"

text \<open>A write through the pointer it returns.\<close>

definition Counters_write :: "string \<Rightarrow> time \<Rightarrow> (CounterRecord \<Rightarrow> CounterRecord) \<Rightarrow> Counters \<Rightarrow> Counters" where
  "Counters_write name at f c =
     (let (rec, c) = Counters_record name at c
      in c\<lparr>Counters_open := mput (name, UnixNano (Truncate at (Counters_windowLength c))) (f rec) (Counters_open c)\<rparr>)"

definition add_observed :: "time \<times> time \<Rightarrow> CounterRecord \<Rightarrow> CounterRecord" where
  "add_observed span rec = rec\<lparr>CT_ObservedNanos := add64 (CT_ObservedNanos rec) (Sub (snd span) (fst span))\<rparr>"

definition add_delta :: "int \<Rightarrow> CounterRecord \<Rightarrow> CounterRecord" where
  "add_delta v rec = rec\<lparr>CT_Delta := add64 (CT_Delta rec) v\<rparr>"

definition rise :: "(string, int) gomap \<Rightarrow> time \<Rightarrow> string \<times> int \<Rightarrow> Counters \<Rightarrow> Counters" where
  "rise prev at reading c =
     (case mget prev (fst reading) of
        None \<Rightarrow> c
      | Some was \<Rightarrow>
          if snd reading < was then c
          else Counters_write (fst reading) at (add_delta (sub64 (snd reading) was)) c)"

definition Counters_accrue :: "time \<Rightarrow> (string, int) gomap \<Rightarrow> Counters \<Rightarrow> Counters" where
  "Counters_accrue at readings c =
     (let c = fold (\<lambda>s c. fold (\<lambda>name. Counters_write name (fst s) (add_observed s)) (mkeys readings) c)
            (spans (Counters_windowLength c) (Counters_prevAt c) at) c
      in fold (rise (Counters_prev c) at) (entries readings) c)"

definition Counters_Observe :: "time \<Rightarrow> time \<Rightarrow> (string, int) gomap \<Rightarrow> Counters \<Rightarrow> Counters" where
  "Counters_Observe at since readings c =
     (let sameBase = (\<not> IsZero (Counters_prevSince c) \<and> Counters_prevSince c = since);
          c = (if sameBase \<and> at > Counters_prevAt c then Counters_accrue at readings c else c);
          c = fold (\<lambda>name. Counters_write name at (\<lambda>rec. rec\<lparr>CT_AccruedTo := at\<rparr>)) (mkeys readings) c
      in c\<lparr>Counters_prev := fold (\<lambda>(k, v). mput k v) (entries readings) mempty,
           Counters_prevSince := since, Counters_prevAt := at\<rparr>)"

definition less_counter :: "CounterRecord \<Rightarrow> CounterRecord \<Rightarrow> bool" where
  "less_counter a b =
     (if CT_WindowStart a \<noteq> CT_WindowStart b then CT_WindowStart a < CT_WindowStart b
      else CT_Counter a < CT_Counter b)"

definition counter_key :: "CounterRecord \<Rightarrow> counterKey" where
  "counter_key r = (CT_Counter r, UnixNano (CT_WindowStart r))"

definition Counters_Snapshots :: "Counters \<Rightarrow> CounterRecord list" where
  "Counters_Snapshots c = snapshots less_counter (\<lambda>r. r) (Counters_open c)"

definition Counters_Resume :: "CounterRecord list \<Rightarrow> Counters \<Rightarrow> Counters \<times> nat" where
  "Counters_Resume records c =
     (let (m, seeded) = resume counter_key (\<lambda>r. r) records (Counters_open c)
      in (c\<lparr>Counters_open := m\<rparr>, seeded))"

definition Counters_CloseBefore :: "time \<Rightarrow> Counters \<Rightarrow> CounterRecord list \<times> Counters" where
  "Counters_CloseBefore now c =
     (let (out, m) = close_before less_counter (\<lambda>r. r) CT_WindowStart (Counters_windowLength c) now (Counters_open c)
      in (out, c\<lparr>Counters_open := m\<rparr>))"

section \<open>The store of open records\<close>

definition counter_skey :: "CounterRecord \<Rightarrow> time \<times> string" where
  "counter_skey r = (CT_WindowStart r, CT_Counter r)"

interpretation counter_store: window_store less_counter counter_skey CT_WindowStart counter_key "\<lambda>r. r"
  by unfold_locales (auto simp: less_counter_def counter_skey_def counter_key_def less_prod_def)

lemma Counters_write_eq:
  "Counters_write name at f c = c\<lparr>Counters_open :=
     mupd (newCounterRecord (Counters_windowLength c) name (Truncate at (Counters_windowLength c))) f
       (name, UnixNano (Truncate at (Counters_windowLength c))) (Counters_open c)\<rparr>"
  by (cases "mget (Counters_open c) (name, UnixNano (Truncate at (Counters_windowLength c)))")
    (simp_all add: Counters_write_def Counters_record_def Let_def mupd_def mget_or_def)

lemma newCounterRecord_zero [simp]:
  "CT_Delta (newCounterRecord len name s) = 0" "CT_ObservedNanos (newCounterRecord len name s) = 0"
  by (simp_all add: newCounterRecord_def)

lemma Counters_write_frame [simp]:
  "Counters_windowLength (Counters_write n at f c) = Counters_windowLength c"
  "Counters_prev (Counters_write n at f c) = Counters_prev c"
  "Counters_prevSince (Counters_write n at f c) = Counters_prevSince c"
  "Counters_prevAt (Counters_write n at f c) = Counters_prevAt c"
  by (simp_all add: Counters_write_eq)

section \<open>What a pass adds\<close>

text \<open>A write to one counter's record, seen from the total of any counter.\<close>

definition total_of :: "(CounterRecord \<Rightarrow> int) \<Rightarrow> string \<Rightarrow> Counters \<Rightarrow> int" where
  "total_of f name c = wrap64 (key_total f name (Counters_open c))"

lemma counter_total_write:
  assumes "\<And>len s. f (newCounterRecord len n s) = 0" and "\<And>r. f (g r) = add64 (f r) v"
  shows "total_of f name (Counters_write n at g c) = add64 (total_of f name c) (if n = name then v else 0)"
  using assms by (auto simp: total_of_def Counters_write_eq key_total_add key_total_other add64_def int64_simps)

lemma counter_total_keep:
  assumes "\<And>len s. f (newCounterRecord len n s) = 0" and "\<And>r. f (g r) = f r"
  shows "total_of f name (Counters_write n at g c) = total_of f name c"
  using assms by (simp add: total_of_def Counters_write_eq key_total_keep)

lemma total_fold_names:
  assumes "distinct names" and "\<And>n c. n \<in> set names \<Longrightarrow>
    total_of f name (w n c) = add64 (total_of f name c) (if n = name then v else 0)"
  shows "total_of f name (fold w names c) = add64 (total_of f name c) (if name \<in> set names then v else 0)"
  using assms
proof (induction names arbitrary: c)
  case Nil
  then show ?case by (simp add: total_of_def)
next
  case (Cons n names)
  have "total_of f name (w n c) = add64 (total_of f name c) (if n = name then v else 0)"
    using Cons.prems(2) by simp
  moreover have "total_of f name (fold w names (w n c)) = add64 (total_of f name (w n c)) (if name \<in> set names then v else 0)"
    using Cons by simp
  moreover have "int64 (total_of f name c)" by (simp add: total_of_def)
  ultimately show ?case using Cons.prems(1) by auto
qed

lemma total_fold_keep:
  assumes "\<And>x c. x \<in> set xs \<Longrightarrow> total_of f name (w x c) = total_of f name c"
  shows "total_of f name (fold w xs c) = total_of f name c"
  using assms by (induction xs arbitrary: c) simp_all

lemma fold_frame:
  assumes "\<And>x c. p (w x c) = p c"
  shows "p (fold w xs c) = p c"
  using assms by (induction xs arbitrary: c) simp_all

lemma rise_frame [simp]:
  "Counters_windowLength (rise prev at r c) = Counters_windowLength c"
  by (simp add: rise_def split: option.splits)

lemma total_rise_other: "fst r \<noteq> name \<Longrightarrow> total_of CT_Delta name (rise prev at r c) = total_of CT_Delta name c"
  by (auto simp: rise_def total_of_def Counters_write_eq key_total_other split: option.splits)

definition risen :: "(string, int) gomap \<Rightarrow> (string, int) gomap \<Rightarrow> string \<Rightarrow> int" where
  "risen prev readings name = (case (mget prev name, mget readings name) of
     (Some was, Some now) \<Rightarrow> if now < was then 0 else now - was | _ \<Rightarrow> 0)"

lemma total_rises:
  assumes "distinct (map fst rs)"
  shows "total_of CT_Delta name (fold (rise prev at) rs c) =
    add64 (total_of CT_Delta name c) (case (mget prev name, map_of rs name) of
      (Some was, Some now) \<Rightarrow> if now < was then 0 else now - was | _ \<Rightarrow> 0)"
  using assms
proof (induction rs arbitrary: c)
  case Nil
  then show ?case by (simp add: total_of_def split: option.splits)
next
  case (Cons r rs)
  obtain n now where r: "r = (n, now)" by force
  show ?case
  proof (cases "n = name")
    case True
    have "map_of rs name = None" using Cons.prems r True by (simp add: map_of_eq_None_iff)
    moreover have "total_of CT_Delta name (rise prev at r c) = add64 (total_of CT_Delta name c)
        (case mget prev name of Some was \<Rightarrow> if now < was then 0 else now - was | None \<Rightarrow> 0)"
      using True r counter_total_write [where f = CT_Delta and n = name and g = "add_delta (sub64 now v)" and v = "sub64 now v" for v]
      by (auto simp: rise_def add_delta_def total_of_def add64_def sub64_def int64_simps split: option.splits)
    moreover have "int64 (total_of CT_Delta name (rise prev at r c))" by (simp add: total_of_def)
    ultimately show ?thesis
      using Cons.IH [of "rise prev at r c"] Cons.prems r True by (auto split: option.splits)
  next
    case False
    then show ?thesis
      using Cons.IH [of "rise prev at r c"] Cons.prems r total_rise_other [of r name prev at c] by simp
  qed
qed

lemma total_Delta_Observe:
  "total_of CT_Delta name (Counters_Observe at since readings c) =
    add64 (total_of CT_Delta name c)
      (if Counters_prevSince c \<noteq> 0 \<and> Counters_prevSince c = since \<and> Counters_prevAt c < at
       then risen (Counters_prev c) readings name else 0)"
proof -
  have obs: "total_of CT_Delta name (fold (\<lambda>s c. fold (\<lambda>name. Counters_write name (fst s) (add_observed s)) names c) ss c) =
      total_of CT_Delta name c" for ss and names :: "string list" and c
    by (intro total_fold_keep) (simp add: counter_total_keep add_observed_def)
  have prev: "Counters_prev (fold (\<lambda>s c. fold (\<lambda>name. Counters_write name (fst s) (add_observed s)) names c) ss c) =
      Counters_prev c" for ss and names :: "string list" and c
    by (intro fold_frame) simp
  have stamp: "total_of CT_Delta name (fold (\<lambda>name. Counters_write name at (\<lambda>rec. rec\<lparr>CT_AccruedTo := at\<rparr>)) names c) =
      total_of CT_Delta name c" for names c
    by (intro total_fold_keep counter_total_keep) simp_all
  have upd: "total_of f name (c\<lparr>Counters_prev := x, Counters_prevSince := y, Counters_prevAt := z\<rparr>) = total_of f name c" for f c x y z
    by (simp add: total_of_def)
  have "int64 (total_of CT_Delta name c)" by (simp add: total_of_def)
  then show ?thesis
    unfolding Counters_Observe_def Let_def upd stamp
    by (auto simp: Counters_accrue_def Let_def obs prev total_rises risen_def mget.rep_eq)
qed

lemma total_Observed_Observe:
  assumes "0 < Counters_windowLength c" and "int64 (at - Counters_prevAt c)"
  shows "total_of CT_ObservedNanos name (Counters_Observe at since readings c) =
    add64 (total_of CT_ObservedNanos name c)
      (if Counters_prevSince c \<noteq> 0 \<and> Counters_prevSince c = since \<and> Counters_prevAt c < at \<and> mget readings name \<noteq> None
       then at - Counters_prevAt c else 0)"
proof -
  let ?v = "\<lambda>s. if name \<in> set (mkeys readings) then Sub (snd s) (fst s) else 0"
  have one: "total_of CT_ObservedNanos name (fold (\<lambda>n. Counters_write n (fst s) (add_observed s)) (mkeys readings) c) =
      add64 (total_of CT_ObservedNanos name c) (?v s)" for s c
    by (intro total_fold_names) (simp_all add: counter_total_write add_observed_def)
  have all: "total_of CT_ObservedNanos name (fold (\<lambda>s c. fold (\<lambda>n. Counters_write n (fst s) (add_observed s)) (mkeys readings) c) ss c) =
      add64 (total_of CT_ObservedNanos name c) (sum_list (map ?v ss))" for ss c
  proof (induction ss arbitrary: c)
    case Nil
    then show ?case by (simp add: total_of_def)
  next
    case (Cons s ss)
    then show ?case unfolding fold_simps comp_def by (simp only: one) (simp add: add64_def int64_simps add.assoc)
  qed
  have "sum_list (map ?v (spans (Counters_windowLength c) (Counters_prevAt c) at)) =
      (if mget readings name \<noteq> None then at - Counters_prevAt c else 0)" if lt: "Counters_prevAt c < at"
  proof -
    have "Sub e a = e - a" if "(a, e) \<in> set (spans (Counters_windowLength c) (Counters_prevAt c) at)" for a e
      using spans_sound [OF assms(1), of "Counters_prevAt c" at] that assms(2) lt
      by (intro Sub_exact) (fastforce simp: int64_def minInt64_def)
    then have "map (\<lambda>s. Sub (snd s) (fst s)) (spans (Counters_windowLength c) (Counters_prevAt c) at) =
        map (\<lambda>(a, e). e - a) (spans (Counters_windowLength c) (Counters_prevAt c) at)"
      by auto
    then have "sum_list (map (\<lambda>s. Sub (snd s) (fst s)) (spans (Counters_windowLength c) (Counters_prevAt c) at)) =
        max 0 (at - Counters_prevAt c)"
      using spans_sound [OF assms(1), of "Counters_prevAt c" at] by (simp only:)
    then show ?thesis using lt by (simp add: mkeys_iff)
  qed
  moreover have "total_of CT_ObservedNanos name (fold (rise prev at) rs c) = total_of CT_ObservedNanos name c" for prev rs c
    by (intro total_fold_keep) (simp add: rise_def counter_total_keep add_delta_def split: option.splits)
  moreover have stamp: "total_of CT_ObservedNanos name (fold (\<lambda>name. Counters_write name at (\<lambda>rec. rec\<lparr>CT_AccruedTo := at\<rparr>)) names c) =
      total_of CT_ObservedNanos name c" for names c
    by (intro total_fold_keep counter_total_keep) simp_all
  moreover have upd: "total_of f name (c\<lparr>Counters_prev := x, Counters_prevSince := y, Counters_prevAt := z\<rparr>) = total_of f name c" for f c x y z
    by (simp add: total_of_def)
  moreover have "int64 (total_of CT_ObservedNanos name c)" by (simp add: total_of_def)
  ultimately show ?thesis
    unfolding Counters_Observe_def Let_def upd stamp by (auto simp: Counters_accrue_def Let_def all)
qed

section \<open>Properties\<close>

text \<open>
  What one pass adds to a counter, over all its windows: the rise since the previous pass
  if both passes read it on the same base and it did not fall, and nothing otherwise; and
  the interval between the passes as observed time, under the same base. As \<open>int64\<close> sums.
\<close>

theorem Counters_Observe_adds_rise:
  assumes "0 < Counters_windowLength c" and "int64 (at - Counters_prevAt c)"
  shows "let c' = Counters_Observe at since readings c;
             same = (Counters_prevSince c \<noteq> 0 \<and> Counters_prevSince c = since \<and> Counters_prevAt c < at) in
    total_of CT_Delta name c' = add64 (total_of CT_Delta name c)
      (if same then risen (Counters_prev c) readings name else 0) \<and>
    total_of CT_ObservedNanos name c' = add64 (total_of CT_ObservedNanos name c)
      (if same \<and> mget readings name \<noteq> None then at - Counters_prevAt c else 0)"
  using total_Delta_Observe total_Observed_Observe [OF assms] by (simp add: Let_def conj_assoc)

theorem Counters_Observe_adds_rise_witness:
  "total_of CT_Delta ''x'' (Counters_Observe 25 3 (mput ''x'' 9 mempty)
     \<lparr>Counters_windowLength = 10, Counters_open = mempty, Counters_prev = mput ''x'' 4 mempty,
      Counters_prevSince = 3, Counters_prevAt = 7\<rparr>) = 5"
  using Counters_Observe_adds_rise [of "\<lparr>Counters_windowLength = 10, Counters_open = mempty, Counters_prev = mput ''x'' 4 mempty,
      Counters_prevSince = 3, Counters_prevAt = 7\<rparr>" 25 3 "mput ''x'' 9 mempty" "''x''"]
  by (simp add: Let_def int64_def minInt64_def maxInt64_def risen_def total_of_def key_total_def add64_def wrap64_def)

lemma Counters_Observe_prev [simp]:
  "Counters_prev (Counters_Observe at since readings c) = readings"
  "Counters_prevSince (Counters_Observe at since readings c) = since"
  "Counters_prevAt (Counters_Observe at since readings c) = at"
  by (simp_all add: Counters_Observe_def Let_def)

text \<open>
  The deltas of a counter that does not fall telescope: over any number of passes on one
  base, the deltas of all its windows add up to its last reading less the reading the
  sequence started from, however the passes fall on the windows.
\<close>

theorem Counters_deltas_telescope:
  assumes "since \<noteq> 0" and "Counters_prevSince c = since" and "mget (Counters_prev c) name = Some was"
    and "sorted_wrt (<) (Counters_prevAt c # map fst passes)"
    and "\<forall>p \<in> set passes. mget (snd p) name \<noteq> None"
    and "sorted (was # map (\<lambda>p. the (mget (snd p) name)) passes)"
  shows "total_of CT_Delta name (fold (\<lambda>(at, readings). Counters_Observe at since readings) passes c) =
    add64 (total_of CT_Delta name c) (last (was # map (\<lambda>p. the (mget (snd p) name)) passes) - was)"
  using assms
proof (induction passes arbitrary: c was)
  case Nil
  then show ?case by (simp add: total_of_def)
next
  case (Cons p passes)
  obtain at readings where p: "p = (at, readings)" by force
  obtain now where now: "mget readings name = Some now" using Cons.prems(5) p by auto
  let ?c = "Counters_Observe at since readings c"
  have "total_of CT_Delta name ?c = add64 (total_of CT_Delta name c) (now - was)"
    using Cons.prems p now by (simp add: total_Delta_Observe risen_def)
  moreover have "total_of CT_Delta name (fold (\<lambda>(at, readings). Counters_Observe at since readings) passes ?c) =
      add64 (total_of CT_Delta name ?c) (last (now # map (\<lambda>p. the (mget (snd p) name)) passes) - now)"
    using Cons.prems p now by (intro Cons.IH) auto
  ultimately have "total_of CT_Delta name (fold (\<lambda>(at, readings). Counters_Observe at since readings) passes ?c) =
      add64 (total_of CT_Delta name c) ((now - was) + (last (now # map (\<lambda>p. the (mget (snd p) name)) passes) - now))"
    by (simp add: add64_assoc add64_def int64_simps add.assoc del: last.simps)
  then show ?case using p now by simp
qed

theorem Counters_deltas_telescope_witness:
  "total_of CT_Delta ''x'' (fold (\<lambda>(at, readings). Counters_Observe at 3 readings)
     [(25, mput ''x'' 9 mempty), (47, mput ''x'' 30 mempty)]
     \<lparr>Counters_windowLength = 10, Counters_open = mempty, Counters_prev = mput ''x'' 4 mempty,
      Counters_prevSince = 3, Counters_prevAt = 7\<rparr>) = 26"
  using Counters_deltas_telescope [of 3 "\<lparr>Counters_windowLength = 10, Counters_open = mempty, Counters_prev = mput ''x'' 4 mempty,
      Counters_prevSince = 3, Counters_prevAt = 7\<rparr>" "''x''" 4 "[(25, mput ''x'' 9 mempty), (47, mput ''x'' 30 mempty)]"]
  by (simp add: total_of_def key_total_def add64_def wrap64_def)

end
