(* ===== verification/SpoolWriters.thy ===== *)
theory SpoolWriters
  imports Spool Accumulator Network RestartJournal EventJournals GoroutineJournal StateJournal CounterJournal
begin

text \<open>
  The payload writers of \<open>internal/sink/spool.go\<close>: the envelope each kind is shipped in, the
  grouping of records by window, one file per window for the windowed kinds, one superseding
  file for the snapshots, one file per event, capture or build for the rest.

  What surrounds the writers is the argument \<open>world\<close>: \<open>sha256\<close> and \<open>marshalIndent\<close> stand for
  \<open>crypto/sha256\<close> and \<open>json.MarshalIndent\<close>, \<open>visit\<close> is the order in which Go visits the keys
  of a map, and \<open>at_write\<close> gives, for the write of one file, the answers of the operating
  system and the two clock readings. The observation a usage payload carries and the records
  of packages outside this model are the type parameters \<open>'o\<close> and \<open>'x\<close>.
\<close>

section \<open>Payloads\<close>

text \<open>\<open>usagePayload\<close> and \<open>networkPayload\<close>.\<close>

record ('o, 'r) usagePayload =
  UP_Kind :: string
  UP_Source :: string
  UP_WindowStart :: time
  UP_WindowSeconds :: int
  UP_Observation :: 'o
  UP_Records :: "'r list"

text \<open>The envelope the seven journal payloads share.\<close>

record 'r journalPayload =
  JP_Kind :: string
  JP_Source :: string
  JP_CapturedAt :: time
  JP_WindowStart :: time
  JP_WindowSeconds :: int
  JP_Records :: "'r list"

text \<open>
  The snapshot payloads: a capture instant, the sources that could not be read, and the
  blocks and records the caller assembled (\<^const>\<open>None\<close> is a nil slice).
\<close>

record 'x snapshotPayload =
  SP_Kind :: string
  SP_Source :: string
  SP_CapturedAt :: time
  SP_UnavailableSources :: "string list"
  SP_Fields :: "'x list"
  SP_Records :: "'x list option"

record oomPayload =
  OP_Kind :: string
  OP_Source :: string
  OP_Event :: OOMKill

record profilePayload =
  PP_Kind :: string
  PP_Namespace :: string
  PP_Workload :: string
  PP_Container :: string
  PP_ImageDigest :: string
  PP_CaptureStart :: time
  PP_CaptureEnd :: time
  PP_Source :: string
  PP_Pprof :: string

record ProfileDrops =
  ThirdPartyFrames :: int
  UnsymbolizedFrames :: int
  SamplesTouched :: int

record pulledProfilePayload = profilePayload +
  PP_Dropped :: ProfileDrops

record 'x BuildFacts =
  BF_ImageDigest :: string
  BF_GoVersion :: string
  BF_MainModule :: string
  BF_Modules :: "'x list option"
  BF_Settings :: "(string, string) gomap"
  BF_GoDebug :: "(string, string) gomap"
  BF_HasPprof :: bool

record 'x goBuildPayload =
  GB_Kind :: string
  GB_Source :: string
  GB_ImageDigest :: string
  GB_GoVersion :: string
  GB_MainModule :: string
  GB_Modules :: "'x list"
  GB_Settings :: "(string, string) gomap"
  GB_GoDebug :: "(string, string) gomap"
  GB_PprofEndpoint :: bool

datatype ('o, 'x) payload =
    UsagePayload "('o, Histogram Record) usagePayload"
  | NetworkPayload "('o, NetworkRecord) usagePayload"
  | ContainerRestartsPayload "RestartRecord journalPayload"
  | PodDisruptionsPayload "DisruptionRecord journalPayload"
  | NodeLifecyclePayload "NodeEventRecord journalPayload"
  | JobRunsPayload "JobRunRecord journalPayload"
  | GoroutineCountsPayload "GoroutineRecord journalPayload"
  | AgentStatesPayload "StateRecord journalPayload"
  | AgentCountersPayload "CounterRecord journalPayload"
  | OOMPayload oomPayload
  | ProfilePayload profilePayload
  | PulledProfilePayload pulledProfilePayload
  | GoBuildPayload "'x goBuildPayload"
  | SnapshotPayload "'x snapshotPayload"

section \<open>The world of a writer\<close>

record write_env =
  W_io :: io
  W_now :: time
  W_later :: time

record ('fp, 'p) world =
  sha256 :: "string \<Rightarrow> 'fp"
  marshalIndent :: "'p \<Rightarrow> string option"
  visit :: "windowKey list \<Rightarrow> windowKey list"
  at_write :: "string \<Rightarrow> write_env"

definition write_payload ::
    "('fp, 'p) world \<Rightarrow> string \<Rightarrow> string \<Rightarrow> 'p \<Rightarrow> 'fp Spool \<Rightarrow> 'fp Spool \<times> spool_error option" where
  "write_payload w kind name payload s =
     (let e = at_write w name
      in Spool_write (sha256 w) (W_io e) (W_now e) (W_later e) kind name (marshalIndent w payload) s)"

section \<open>Windows\<close>

definition groupByWindow :: "('r \<Rightarrow> windowKey) \<Rightarrow> 'r list \<Rightarrow> (time \<times> int, 'r list) gomap" where
  "groupByWindow windowOf records =
     fold (\<lambda>r. mupd [] (\<lambda>recs. recs @ [r]) (wk_start (windowOf r), wk_seconds (windowOf r))) records mempty"

definition group_keys :: "(time \<times> int, 'r list) gomap \<Rightarrow> windowKey list" where
  "group_keys grouped = map (\<lambda>(start, secs). \<lparr>wk_start = start, wk_seconds = secs\<rparr>) (mkeys grouped)"

definition group_of :: "(time \<times> int, 'r list) gomap \<Rightarrow> windowKey \<Rightarrow> 'r list" where
  "group_of grouped k = mget_or [] grouped (wk_start k, wk_seconds k)"

text \<open>The loop every windowed writer runs over its groups, stopping at the first error.\<close>

definition each_window ::
    "('fp, 'p) world \<Rightarrow> ('r \<Rightarrow> windowKey) \<Rightarrow> 'r list \<Rightarrow>
     (windowKey \<Rightarrow> 'r list \<Rightarrow> 'fp Spool \<Rightarrow> 'fp Spool \<times> spool_error option) \<Rightarrow>
     'fp Spool \<Rightarrow> 'fp Spool \<times> spool_error option" where
  "each_window w windowOf records body s =
     (let grouped = groupByWindow windowOf records
      in fold_result (\<lambda>k. body k (group_of grouped k)) (visit w (group_keys grouped)) s)"

definition record_window :: "'h Record \<Rightarrow> windowKey" where
  "record_window r = \<lparr>wk_start = Record_WindowStart r, wk_seconds = Record_WindowSeconds r\<rparr>"

definition usage_payload :: "string \<Rightarrow> 'o \<Rightarrow> windowKey \<Rightarrow> 'r list \<Rightarrow> ('o, 'r) usagePayload" where
  "usage_payload kind obs k recs =
     \<lparr>UP_Kind = kind, UP_Source = SourceMeasured, UP_WindowStart = wk_start k, UP_WindowSeconds = wk_seconds k,
      UP_Observation = obs, UP_Records = recs\<rparr>"

definition kindUsageSnapshot :: string where "kindUsageSnapshot = ''usage_snapshot''"

definition snapshot_name :: "windowKey \<Rightarrow> string" where
  "snapshot_name k = windowKey_name k @ usageSnapshotSuffix"

definition closed_name :: "windowKey \<Rightarrow> string" where
  "closed_name k = windowKey_name k @ ''.json''"

definition WriteUsageSnapshot ::
    "('fp, ('o, 'x) payload) world \<Rightarrow> Histogram Record list \<Rightarrow> 'o \<Rightarrow> 'fp Spool \<Rightarrow> 'fp Spool \<times> spool_error option" where
  "WriteUsageSnapshot w records obs =
     each_window w record_window records (\<lambda>k recs.
       write_payload w kindUsageSnapshot (snapshot_name k) (UsagePayload (usage_payload kindUsageSnapshot obs k recs)))"

definition remove_superseded :: "('fp, 'p) world \<Rightarrow> windowKey \<Rightarrow> 'fp Spool \<Rightarrow> 'fp Spool \<times> spool_error option" where
  "remove_superseded w k s =
     (if io_remove_fails (W_io (at_write w (closed_name k))) (snapshot_name k) then (s, Some RemovingSnapshot)
      else (s\<lparr>Sp_dir := mdel (snapshot_name k) (Sp_dir s)\<rparr>, None))"

definition WriteClosedWindows ::
    "('fp, ('o, 'x) payload) world \<Rightarrow> Histogram Record list \<Rightarrow> 'o \<Rightarrow> 'fp Spool \<Rightarrow> 'fp Spool \<times> spool_error option" where
  "WriteClosedWindows w records obs =
     each_window w record_window records (\<lambda>k recs s.
       case write_payload w ''usage_window'' (closed_name k) (UsagePayload (usage_payload ''usage_window'' obs k recs)) s of
         (s, Some err) \<Rightarrow> (s, Some err)
       | (s, None) \<Rightarrow> remove_superseded w k s)"

definition network_window :: "NetworkRecord \<Rightarrow> windowKey" where
  "network_window r = \<lparr>wk_start = Net_WindowStart r, wk_seconds = Net_WindowSeconds r\<rparr>"

definition WriteNetworkWindows ::
    "('fp, ('o, 'x) payload) world \<Rightarrow> NetworkRecord list \<Rightarrow> 'o \<Rightarrow> 'fp Spool \<Rightarrow> 'fp Spool \<times> spool_error option" where
  "WriteNetworkWindows w records obs =
     each_window w network_window records (\<lambda>k recs.
       write_payload w ''network_window'' (journalWindowName ''network-'' k)
         (NetworkPayload (usage_payload ''network_window'' obs k recs)))"

section \<open>Journal windows\<close>

definition kindContainerRestarts :: string where "kindContainerRestarts = ''container_restarts''"
definition kindPodDisruptions :: string where "kindPodDisruptions = ''pod_disruptions''"
definition kindAgentStates :: string where "kindAgentStates = ''agent_states''"
definition kindAgentCounters :: string where "kindAgentCounters = ''agent_counters''"
definition kindNodeLifecycle :: string where "kindNodeLifecycle = ''node_lifecycle''"
definition kindJobRuns :: string where "kindJobRuns = ''job_runs''"
definition kindGoroutineCounts :: string where "kindGoroutineCounts = ''goroutine_counts''"

definition journal_payload :: "string \<Rightarrow> string \<Rightarrow> time \<Rightarrow> windowKey \<Rightarrow> 'r list \<Rightarrow> 'r journalPayload" where
  "journal_payload kind source capturedAt k recs =
     \<lparr>JP_Kind = kind, JP_Source = source, JP_CapturedAt = capturedAt, JP_WindowStart = wk_start k,
      JP_WindowSeconds = wk_seconds k, JP_Records = recs\<rparr>"

definition restart_window :: "RestartRecord \<Rightarrow> windowKey" where
  "restart_window r = \<lparr>wk_start = RR_WindowStart r, wk_seconds = RR_WindowSeconds r\<rparr>"

definition WriteContainerRestarts ::
    "('fp, ('o, 'x) payload) world \<Rightarrow> time \<Rightarrow> RestartRecord list \<Rightarrow> 'fp Spool \<Rightarrow> 'fp Spool \<times> spool_error option" where
  "WriteContainerRestarts w capturedAt records =
     each_window w restart_window records (\<lambda>k recs.
       write_payload w kindContainerRestarts (journalWindowName restartsNamePrefix k)
         (ContainerRestartsPayload (journal_payload kindContainerRestarts SourceJournal capturedAt k recs)))"

definition disruption_window :: "DisruptionRecord \<Rightarrow> windowKey" where
  "disruption_window r = \<lparr>wk_start = DR_WindowStart r, wk_seconds = DR_WindowSeconds r\<rparr>"

definition WritePodDisruptions ::
    "('fp, ('o, 'x) payload) world \<Rightarrow> time \<Rightarrow> DisruptionRecord list \<Rightarrow> 'fp Spool \<Rightarrow> 'fp Spool \<times> spool_error option" where
  "WritePodDisruptions w capturedAt records =
     each_window w disruption_window records (\<lambda>k recs.
       write_payload w kindPodDisruptions (journalWindowName disruptionsNamePrefix k)
         (PodDisruptionsPayload (journal_payload kindPodDisruptions SourceJournal capturedAt k recs)))"

definition state_window :: "StateRecord \<Rightarrow> windowKey" where
  "state_window r = \<lparr>wk_start = SR_WindowStart r, wk_seconds = SR_WindowSeconds r\<rparr>"

definition WriteAgentStates ::
    "('fp, ('o, 'x) payload) world \<Rightarrow> time \<Rightarrow> StateRecord list \<Rightarrow> 'fp Spool \<Rightarrow> 'fp Spool \<times> spool_error option" where
  "WriteAgentStates w capturedAt records =
     each_window w state_window records (\<lambda>k recs.
       write_payload w kindAgentStates (journalWindowName agentStatesNamePrefix k)
         (AgentStatesPayload (journal_payload kindAgentStates SourceAgent capturedAt k recs)))"

definition counter_window :: "CounterRecord \<Rightarrow> windowKey" where
  "counter_window r = \<lparr>wk_start = CT_WindowStart r, wk_seconds = CT_WindowSeconds r\<rparr>"

definition WriteAgentCounters ::
    "('fp, ('o, 'x) payload) world \<Rightarrow> time \<Rightarrow> CounterRecord list \<Rightarrow> 'fp Spool \<Rightarrow> 'fp Spool \<times> spool_error option" where
  "WriteAgentCounters w capturedAt records =
     each_window w counter_window records (\<lambda>k recs.
       write_payload w kindAgentCounters (journalWindowName agentCountersNamePrefix k)
         (AgentCountersPayload (journal_payload kindAgentCounters SourceAgent capturedAt k recs)))"

definition node_event_window :: "NodeEventRecord \<Rightarrow> windowKey" where
  "node_event_window r = \<lparr>wk_start = NE_WindowStart r, wk_seconds = NE_WindowSeconds r\<rparr>"

definition WriteNodeLifecycle ::
    "('fp, ('o, 'x) payload) world \<Rightarrow> time \<Rightarrow> NodeEventRecord list \<Rightarrow> 'fp Spool \<Rightarrow> 'fp Spool \<times> spool_error option" where
  "WriteNodeLifecycle w capturedAt records =
     each_window w node_event_window records (\<lambda>k recs.
       write_payload w kindNodeLifecycle (journalWindowName nodeLifecycleNamePrefix k)
         (NodeLifecyclePayload (journal_payload kindNodeLifecycle SourceJournal capturedAt k recs)))"

definition job_window :: "JobRunRecord \<Rightarrow> windowKey" where
  "job_window r = \<lparr>wk_start = JRR_WindowStart r, wk_seconds = JRR_WindowSeconds r\<rparr>"

definition WriteJobRuns ::
    "('fp, ('o, 'x) payload) world \<Rightarrow> time \<Rightarrow> JobRunRecord list \<Rightarrow> 'fp Spool \<Rightarrow> 'fp Spool \<times> spool_error option" where
  "WriteJobRuns w capturedAt records =
     each_window w job_window records (\<lambda>k recs.
       write_payload w kindJobRuns (journalWindowName jobRunsNamePrefix k)
         (JobRunsPayload (journal_payload kindJobRuns SourceJournal capturedAt k recs)))"

definition goroutine_window :: "GoroutineRecord \<Rightarrow> windowKey" where
  "goroutine_window r = \<lparr>wk_start = GR_WindowStart r, wk_seconds = GR_WindowSeconds r\<rparr>"

definition WriteGoroutineCounts ::
    "('fp, ('o, 'x) payload) world \<Rightarrow> time \<Rightarrow> GoroutineRecord list \<Rightarrow> 'fp Spool \<Rightarrow> 'fp Spool \<times> spool_error option" where
  "WriteGoroutineCounts w capturedAt records =
     each_window w goroutine_window records (\<lambda>k recs.
       write_payload w kindGoroutineCounts (journalWindowName goroutineCountsNamePrefix k)
         (GoroutineCountsPayload (journal_payload kindGoroutineCounts SourceMeasured capturedAt k recs)))"

section \<open>Events, captures and builds\<close>

definition WriteOOMKill ::
    "('fp, ('o, 'x) payload) world \<Rightarrow> OOMKill \<Rightarrow> 'fp Spool \<Rightarrow> 'fp Spool \<times> spool_error option" where
  "WriteOOMKill w e =
     write_payload w ''oom_kill'' (oom_name e)
       (OOMPayload \<lparr>OP_Kind = ''oom_kill'', OP_Source = SourceJournal, OP_Event = e\<rparr>)"

definition WriteProfile ::
    "('fp, ('o, 'x) payload) world \<Rightarrow> ProfileKey \<Rightarrow> string \<Rightarrow> 'fp Spool \<Rightarrow> 'fp Spool \<times> spool_error option" where
  "WriteProfile w key pprof =
     write_payload w ''ebpf_profile'' (profile_name ''profile-'' key)
       (ProfilePayload \<lparr>PP_Kind = ''ebpf_profile'', PP_Namespace = Prof_Namespace key, PP_Workload = Prof_Workload key,
          PP_Container = Prof_Container key, PP_ImageDigest = Prof_ImageDigest key,
          PP_CaptureStart = Prof_CaptureStart key, PP_CaptureEnd = Prof_CaptureEnd key,
          PP_Source = SourceSampled, PP_Pprof = pprof\<rparr>)"

definition WritePulledProfile ::
    "('fp, ('o, 'x) payload) world \<Rightarrow> ProfileKey \<Rightarrow> string \<Rightarrow> ProfileDrops \<Rightarrow> 'fp Spool \<Rightarrow>
     'fp Spool \<times> spool_error option" where
  "WritePulledProfile w key pprof dropped =
     write_payload w ''pprof_profile'' (profile_name ''pprof-'' key)
       (PulledProfilePayload \<lparr>PP_Kind = ''pprof_profile'', PP_Namespace = Prof_Namespace key,
          PP_Workload = Prof_Workload key, PP_Container = Prof_Container key, PP_ImageDigest = Prof_ImageDigest key,
          PP_CaptureStart = Prof_CaptureStart key, PP_CaptureEnd = Prof_CaptureEnd key,
          PP_Source = SourceSampled, PP_Pprof = pprof, PP_Dropped = dropped\<rparr>)"

definition WriteGoBuild ::
    "('fp, ('o, 'x) payload) world \<Rightarrow> 'x BuildFacts \<Rightarrow> 'fp Spool \<Rightarrow> 'fp Spool \<times> spool_error option" where
  "WriteGoBuild w b s =
     (if BF_ImageDigest b = [] then (s, Some NoImageDigest)
      else
        let modules = (case BF_Modules b of None \<Rightarrow> [] | Some ms \<Rightarrow> ms) in
        write_payload w ''go_build'' (''go-build-'' @ digestFileToken (BF_ImageDigest b) @ ''.json'')
          (GoBuildPayload \<lparr>GB_Kind = ''go_build'', GB_Source = SourceStructural, GB_ImageDigest = BF_ImageDigest b,
             GB_GoVersion = BF_GoVersion b, GB_MainModule = BF_MainModule b, GB_Modules = modules,
             GB_Settings = BF_Settings b, GB_GoDebug = BF_GoDebug b, GB_PprofEndpoint = BF_HasPprof b\<rparr>) s)"

section \<open>Superseding snapshots\<close>

definition snapshot_payload ::
    "string \<Rightarrow> string \<Rightarrow> time \<Rightarrow> string list \<Rightarrow> 'x list \<Rightarrow> 'x list option \<Rightarrow> 'x snapshotPayload" where
  "snapshot_payload kind source capturedAt unavailable blocks records =
     \<lparr>SP_Kind = kind, SP_Source = source, SP_CapturedAt = capturedAt, SP_UnavailableSources = unavailable,
      SP_Fields = blocks, SP_Records = records\<rparr>"

text \<open>
  \<open>blocks\<close> are the blocks of the coverage payload, the coverage of the inventory, and the
  policy of the cluster.
\<close>

definition WriteCollectionCoverage ::
    "('fp, ('o, 'x) payload) world \<Rightarrow> time \<Rightarrow> 'x list \<Rightarrow> 'fp Spool \<Rightarrow> 'fp Spool \<times> spool_error option" where
  "WriteCollectionCoverage w capturedAt blocks =
     write_payload w ''collection_coverage'' ''collection-coverage.json''
       (SnapshotPayload (snapshot_payload ''collection_coverage'' SourceAgent capturedAt [] blocks None))"

definition WriteRestartCounters ::
    "('fp, ('o, 'x) payload) world \<Rightarrow> time \<Rightarrow> 'x list option \<Rightarrow> 'fp Spool \<Rightarrow> 'fp Spool \<times> spool_error option" where
  "WriteRestartCounters w capturedAt records =
     write_payload w ''restart_counters'' ''restart-counters.json''
       (SnapshotPayload (snapshot_payload ''restart_counters'' SourceJournal capturedAt [] [] (Some (case records of None \<Rightarrow> [] | Some rs \<Rightarrow> rs))))"

definition WriteGoInventory ::
    "('fp, ('o, 'x) payload) world \<Rightarrow> time \<Rightarrow> 'x list \<Rightarrow> 'x list option \<Rightarrow> 'fp Spool \<Rightarrow> 'fp Spool \<times> spool_error option" where
  "WriteGoInventory w capturedAt blocks records =
     write_payload w ''go_inventory'' ''go-inventory.json''
       (SnapshotPayload (snapshot_payload ''go_inventory'' SourceStructural capturedAt [] blocks records))"

definition WriteProcessPeaks ::
    "('fp, ('o, 'x) payload) world \<Rightarrow> time \<Rightarrow> 'x list option \<Rightarrow> 'fp Spool \<Rightarrow> 'fp Spool \<times> spool_error option" where
  "WriteProcessPeaks w capturedAt records =
     write_payload w ''process_peaks'' ''process-peaks.json''
       (SnapshotPayload (snapshot_payload ''process_peaks'' SourceMeasured capturedAt [] [] records))"

definition WriteProcessCounters ::
    "('fp, ('o, 'x) payload) world \<Rightarrow> time \<Rightarrow> 'x list option \<Rightarrow> 'fp Spool \<Rightarrow> 'fp Spool \<times> spool_error option" where
  "WriteProcessCounters w capturedAt records =
     write_payload w ''process_counters'' ''process-counters.json''
       (SnapshotPayload (snapshot_payload ''process_counters'' SourceMeasured capturedAt [] [] records))"

definition WriteListeningPorts ::
    "('fp, ('o, 'x) payload) world \<Rightarrow> time \<Rightarrow> 'x list option \<Rightarrow> 'fp Spool \<Rightarrow> 'fp Spool \<times> spool_error option" where
  "WriteListeningPorts w capturedAt records =
     write_payload w ''listening_ports'' ''listening-ports.json''
       (SnapshotPayload (snapshot_payload ''listening_ports'' SourceStructural capturedAt [] [] records))"

definition WriteWorkloadMetadata ::
    "('fp, ('o, 'x) payload) world \<Rightarrow> time \<Rightarrow> 'x list option \<Rightarrow> 'fp Spool \<Rightarrow> 'fp Spool \<times> spool_error option" where
  "WriteWorkloadMetadata w capturedAt records =
     write_payload w ''workload_metadata'' ''workload-metadata.json''
       (SnapshotPayload (snapshot_payload ''workload_metadata'' SourceStructural capturedAt [] [] records))"

definition WriteNodeMetadata ::
    "('fp, ('o, 'x) payload) world \<Rightarrow> time \<Rightarrow> 'x list option \<Rightarrow> 'fp Spool \<Rightarrow> 'fp Spool \<times> spool_error option" where
  "WriteNodeMetadata w capturedAt records =
     write_payload w ''node_metadata'' ''node-metadata.json''
       (SnapshotPayload (snapshot_payload ''node_metadata'' SourceStructural capturedAt [] [] records))"

definition WriteWorkloadRevisions ::
    "('fp, ('o, 'x) payload) world \<Rightarrow> time \<Rightarrow> 'x list option \<Rightarrow> 'fp Spool \<Rightarrow> 'fp Spool \<times> spool_error option" where
  "WriteWorkloadRevisions w capturedAt records =
     write_payload w ''workload_revisions'' ''workload-revisions.json''
       (SnapshotPayload (snapshot_payload ''workload_revisions'' SourceStructural capturedAt [] [] records))"

definition WriteWorkloadPolicy ::
    "('fp, ('o, 'x) payload) world \<Rightarrow> time \<Rightarrow> 'x list option \<Rightarrow> string list \<Rightarrow> 'fp Spool \<Rightarrow> 'fp Spool \<times> spool_error option" where
  "WriteWorkloadPolicy w capturedAt records unavailable =
     write_payload w ''workload_policy'' ''workload-policy.json''
       (SnapshotPayload (snapshot_payload ''workload_policy'' SourceStructural capturedAt unavailable [] records))"

definition WriteClusterPolicy ::
    "('fp, ('o, 'x) payload) world \<Rightarrow> time \<Rightarrow> 'x list \<Rightarrow> string list \<Rightarrow> 'fp Spool \<Rightarrow> 'fp Spool \<times> spool_error option" where
  "WriteClusterPolicy w capturedAt blocks unavailable =
     write_payload w ''cluster_policy'' ''cluster-policy.json''
       (SnapshotPayload (snapshot_payload ''cluster_policy'' SourceStructural capturedAt unavailable blocks None))"

end
