(* ===== verification/WindowFiles.thy ===== *)
theory WindowFiles
  imports SpoolWriters
begin

text \<open>
  What the windowed writers of \<open>internal/sink/spool.go\<close> leave in the spool. The locale
  \<open>window_kind\<close> is what a windowed kind promises the loop that writes it: a row of the
  registry that is not gated by change, and a plain name per window that no two windows
  share. Its lemmas say which file every window has after the loop.
\<close>

section \<open>Groups\<close>

lemma windowKey_eta: "\<lparr>wk_start = wk_start k, wk_seconds = wk_seconds k\<rparr> = k"
  by simp

lemma windowKey_eq: "wk_start (k :: windowKey) = wk_start k' \<Longrightarrow> wk_seconds k = wk_seconds k' \<Longrightarrow> k = k'"
  by (metis windowKey_eta)

lemma group_fold:
  fixes f :: "'r \<Rightarrow> windowKey"
  shows "mget_or [] (fold (\<lambda>r. mupd [] (\<lambda>recs. recs @ [r]) (wk_start (f r), wk_seconds (f r))) rs m) (wk_start k, wk_seconds k) =
   mget_or [] m (wk_start k, wk_seconds k) @ filter (\<lambda>r. f r = k) rs"
  by (induction rs arbitrary: m) (auto dest: windowKey_eq)

lemma group_of_filter: "group_of (groupByWindow f rs) k = filter (\<lambda>r. f r = k) rs"
  by (simp add: group_of_def groupByWindow_def group_fold)

lemma group_fold_keys:
  "mget (fold (\<lambda>r. mupd [] (\<lambda>recs. recs @ [r]) (wk_start (f r), wk_seconds (f r))) rs m) p \<noteq> None \<longleftrightarrow>
   mget m p \<noteq> None \<or> (\<exists>r \<in> set rs. p = (wk_start (f r), wk_seconds (f r)))"
  by (induction rs arbitrary: m) auto

lemma set_group_keys: "set (group_keys (groupByWindow f rs)) = f ` set rs"
proof -
  have "set (mkeys (groupByWindow f rs)) = (\<lambda>r. (wk_start (f r), wk_seconds (f r))) ` set rs"
    by (auto simp: mkeys_iff groupByWindow_def group_fold_keys simp del: not_None_eq)
  then show ?thesis by (simp only: group_keys_def image_image set_map prod.case windowKey_eta)
qed

lemma distinct_group_keys: "distinct (group_keys grouped)"
  by (auto simp: group_keys_def distinct_map inj_on_def)

section \<open>One write\<close>

definition faultless :: "('fp, 'p) world \<Rightarrow> bool" where
  "faultless w \<longleftrightarrow> (\<forall>name n. io_write_fails (W_io (at_write w name)) n = None \<and>
     \<not> io_rename_fails (W_io (at_write w name)) n \<and> \<not> io_remove_fails (W_io (at_write w name)) n)"

definition file_at :: "('fp, 'p) world \<Rightarrow> string \<Rightarrow> 'p \<Rightarrow> sfile" where
  "file_at w name p = landed (W_io (at_write w name)) (the (marshalIndent w p))"

lemma write_payload_lands:
  assumes "faultless w" and "Lookup kind = Some e" and "Cad_Trigger (PK_Cadence e) \<noteq> TriggerChanged"
    and "plain_name name" and "marshalIndent w p \<noteq> None"
  shows "\<exists>s'. write_payload w kind name p s = (s', None) \<and>
    (\<forall>n. mget (Sp_dir s') n = (if n = name then Some (file_at w name p) else if n = tmp_name name then None
       else mget (Sp_dir s) n))"
proof -
  let ?io = "W_io (at_write w name)"
  obtain bytes where b: "marshalIndent w p = Some bytes" using assms(5) by auto
  obtain t err where pub: "publish ?io name (bytes @ [CHR 0x0A]) s = (t, err)" by force
  have ok: "err = None" using publish_dir(3) [OF pub] assms(1) by (simp add: faultless_def)
  have "write_payload w kind name p s = (countWrite kind False (t\<lparr>Sp_cadence := Sp_cadence t\<rparr>), None)"
    using assms(2-4) b pub ok
    by (simp add: write_payload_def Spool_write_def encodePayload_def due_def wrote_def Let_def)
  then show ?thesis
    using publish_dir(1,2) [OF pub] ok b by (auto simp: file_at_def landed_def)
qed

section \<open>A loop of writes\<close>

text \<open>Steps that each settle their own names and leave the others settle all of them together.\<close>

lemma fold_result_touches:
  assumes "\<And>k s. k \<in> set ks \<Longrightarrow>
      \<exists>s'. body k s = (s', None) \<and> (\<forall>n. mget (Sp_dir s') n = (if n \<in> N k then V k n else mget (Sp_dir s) n))"
    and "distinct ks" and "\<And>k k'. k \<in> set ks \<Longrightarrow> k' \<in> set ks \<Longrightarrow> k \<noteq> k' \<Longrightarrow> N k \<inter> N k' = {}"
  shows "\<exists>s'. fold_result body ks s = (s', None) \<and>
    (\<forall>k \<in> set ks. \<forall>n \<in> N k. mget (Sp_dir s') n = V k n) \<and>
    (\<forall>n. n \<notin> \<Union> (N ` set ks) \<longrightarrow> mget (Sp_dir s') n = mget (Sp_dir s) n)"
  using assms
proof (induction ks arbitrary: s)
  case (Cons k ks)
  obtain t where t: "body k s = (t, None)"
    "\<forall>n. mget (Sp_dir t) n = (if n \<in> N k then V k n else mget (Sp_dir s) n)"
    using Cons.prems(1) [of k s] by auto
  obtain s' where s': "fold_result body ks t = (s', None)"
    "\<forall>k \<in> set ks. \<forall>n \<in> N k. mget (Sp_dir s') n = V k n"
    "\<forall>n. n \<notin> \<Union> (N ` set ks) \<longrightarrow> mget (Sp_dir s') n = mget (Sp_dir t) n"
    using Cons.IH [of t] Cons.prems by auto
  have "n \<notin> \<Union> (N ` set ks)" if "n \<in> N k" for n
    using that Cons.prems(2,3) by (metis UN_E disjoint_iff distinct.simps(2) list.set_intros)
  then show ?case using t s' by auto
qed simp

section \<open>The contract of a windowed kind\<close>

text \<open>Windows whose names the startup read recognises.\<close>

definition nameable :: "windowKey \<Rightarrow> bool" where
  "nameable k \<longleftrightarrow> second dvd wk_start k \<and> 0 \<le> Unix (wk_start k) \<and> Unix (wk_start k) \<le> maxInt64 \<and>
     0 < wk_seconds k \<and> wk_seconds k \<le> maxInt64"

lemma parse_nameable: "nameable k \<Longrightarrow> parseWindowName (prefix @ window_digits k) prefix = Some k"
  by (simp add: nameable_def parse_window_digits)

lemma window_digits_inj: "nameable k \<Longrightarrow> nameable k' \<Longrightarrow> window_digits k = window_digits k' \<Longrightarrow> k = k'"
  using parse_nameable [of k "[]"] parse_nameable [of k' "[]"] by simp

definition permutes_keys :: "('fp, 'p) world \<Rightarrow> bool" where
  "permutes_keys w \<longleftrightarrow> (\<forall>ks. mset (visit w ks) = mset ks)"

lemma visited_keys:
  assumes "permutes_keys w"
  shows "set (visit w (group_keys (groupByWindow windowOf records))) = windowOf ` set records"
    and "distinct (visit w (group_keys (groupByWindow windowOf records)))"
  using assms set_group_keys distinct_group_keys unfolding permutes_keys_def
  by (metis set_mset_mset, metis mset_eq_imp_distinct_iff)

locale window_kind =
  fixes kind :: string and nm :: "windowKey \<Rightarrow> string"
  assumes ungated: "\<exists>e. Lookup kind = Some e \<and> Cad_Trigger (PK_Cadence e) \<noteq> TriggerChanged"
    and plain: "plain_name (nm k)"
    and published: "\<not> HasSuffix (nm k) ''.tmp''"
    and injective: "nameable k \<Longrightarrow> nameable k' \<Longrightarrow> nm k = nm k' \<Longrightarrow> k = k'"
begin

lemma tmp_name_other: "tmp_name (nm k) \<noteq> nm k'"
  using published [of k'] tmp_name_suffix by metis

lemma write_lands:
  assumes "faultless w" and "marshalIndent w p \<noteq> None"
  shows "\<exists>s'. write_payload w kind (nm k) p s = (s', None) \<and>
    (\<forall>n. mget (Sp_dir s') n = (if n \<in> {nm k, tmp_name (nm k)} then (if n = nm k then Some (file_at w (nm k) p) else None)
       else mget (Sp_dir s) n))"
proof -
  obtain e where e: "Lookup kind = Some e" "Cad_Trigger (PK_Cadence e) \<noteq> TriggerChanged" using ungated by blast
  show ?thesis using write_payload_lands [OF assms(1) e plain assms(2), of k s] by (auto cong: if_cong)
qed

lemma names_disjoint:
  "nameable k \<Longrightarrow> nameable k' \<Longrightarrow> k \<noteq> k' \<Longrightarrow> {nm k, tmp_name (nm k)} \<inter> {nm k', tmp_name (nm k')} = {}"
  using injective [of k k'] tmp_name_other [of k k'] tmp_name_other [of k' k] by (auto simp: tmp_name_def)

lemma windows_written:
  assumes "faultless w" and "permutes_keys w" and "\<And>p. marshalIndent w p \<noteq> None"
    and "\<And>r. r \<in> set records \<Longrightarrow> nameable (windowOf r)"
  shows "\<exists>s'. each_window w windowOf records (\<lambda>k recs. write_payload w kind (nm k) (mk k recs)) s = (s', None) \<and>
    (\<forall>k \<in> windowOf ` set records.
       mget (Sp_dir s') (nm k) = Some (file_at w (nm k) (mk k (filter (\<lambda>r. windowOf r = k) records)))) \<and>
    (\<forall>n. (\<forall>k \<in> windowOf ` set records. n \<noteq> nm k \<and> n \<noteq> tmp_name (nm k)) \<longrightarrow> mget (Sp_dir s') n = mget (Sp_dir s) n)"
proof -
  let ?ks = "visit w (group_keys (groupByWindow windowOf records))"
  let ?mk = "\<lambda>k. mk k (filter (\<lambda>r. windowOf r = k) records)"
  let ?N = "\<lambda>k. {nm k, tmp_name (nm k)}"
  let ?V = "\<lambda>k n. if n = nm k then Some (file_at w (nm k) (?mk k)) else None"
  have ks: "set ?ks = windowOf ` set records" "distinct ?ks"
    by (rule visited_keys [OF assms(2)])+
  have "\<exists>s'. fold_result (\<lambda>k. write_payload w kind (nm k) (?mk k)) ?ks s = (s', None) \<and>
    (\<forall>k \<in> set ?ks. \<forall>n \<in> ?N k. mget (Sp_dir s') n = ?V k n) \<and>
    (\<forall>n. n \<notin> \<Union> (?N ` set ?ks) \<longrightarrow> mget (Sp_dir s') n = mget (Sp_dir s) n)"
  proof (rule fold_result_touches [OF _ ks(2)])
    fix k s assume "k \<in> set ?ks"
    show "\<exists>s'. write_payload w kind (nm k) (?mk k) s = (s', None) \<and>
      (\<forall>n. mget (Sp_dir s') n = (if n \<in> ?N k then ?V k n else mget (Sp_dir s) n))"
      by (rule write_lands [OF assms(1,3)])
  next
    fix k k' assume "k \<in> set ?ks" "k' \<in> set ?ks" "k \<noteq> k'"
    then show "?N k \<inter> ?N k' = {}" using assms(4) unfolding ks(1) by (intro names_disjoint) auto
  qed
  then show ?thesis unfolding each_window_def group_of_filter Let_def ks(1) by auto
qed

end

section \<open>The windowed kinds\<close>

lemma json_not_tmp: "\<not> HasSuffix (s @ ''.json'') ''.tmp''"
  by (simp add: HasSuffix_def)

lemma window_digits_chars: "\<forall>c \<in> set (window_digits k). safe_char c"
  using FormatInt_chars safe_char_literals(5) unfolding window_digits_def list_all_iff set_append ball_Un by blast

lemma journal_window_kind:
  assumes "\<exists>e. Lookup kind = Some e \<and> Cad_Trigger (PK_Cadence e) \<noteq> TriggerChanged" and "list_all safe_char prefix"
  shows "window_kind kind (journalWindowName prefix)"
proof
  show "plain_name (journalWindowName prefix k)" for k
  proof (rule plain_name_safe)
    show "\<forall>c \<in> set (journalWindowName prefix k). safe_char c"
      using window_digits_chars assms(2) safe_char_literals(4)
      unfolding journalWindowName_def list_all_iff set_append ball_Un by blast
  qed (simp add: journalWindowName_def)
  show "\<not> HasSuffix (journalWindowName prefix k) ''.tmp''" for k
    using json_not_tmp [of "prefix @ window_digits k"] by (simp add: journalWindowName_def)
  show "nameable k \<Longrightarrow> nameable k' \<Longrightarrow> journalWindowName prefix k = journalWindowName prefix k' \<Longrightarrow> k = k'" for k k'
    by (simp add: journalWindowName_def window_digits_inj)
qed (rule assms(1))

lemma closed_name_journal: "closed_name k = journalWindowName usageNamePrefix k"
  by (simp add: closed_name_def windowKey_name_def journalWindowName_def)

lemma snapshot_name_journal: "snapshot_name k = usageNamePrefix @ window_digits k @ ''.snapshot'' @ ''.json''"
  by (simp add: snapshot_name_def windowKey_name_def usageSnapshotSuffix_def)

lemma ungated_kinds:
  assumes "kind \<in> {kindContainerRestarts, kindPodDisruptions, kindNodeLifecycle, kindJobRuns, kindGoroutineCounts,
      kindAgentStates, kindAgentCounters, kindUsageSnapshot, ''usage_window'', ''network_window''}"
  shows "\<exists>e. Lookup kind = Some e \<and> Cad_Trigger (PK_Cadence e) \<noteq> TriggerChanged"
proof -
  have "list_all (\<lambda>kind. case Lookup kind of None \<Rightarrow> False | Some e \<Rightarrow> Cad_Trigger (PK_Cadence e) \<noteq> TriggerChanged)
    [kindContainerRestarts, kindPodDisruptions, kindNodeLifecycle, kindJobRuns, kindGoroutineCounts,
      kindAgentStates, kindAgentCounters, kindUsageSnapshot, ''usage_window'', ''network_window'']" by code_simp
  then show ?thesis using assms by (auto split: option.splits)
qed

lemma safe_prefixes:
  "list_all (list_all safe_char) [restartsNamePrefix, disruptionsNamePrefix, nodeLifecycleNamePrefix, jobRunsNamePrefix,
     goroutineCountsNamePrefix, agentStatesNamePrefix, agentCountersNamePrefix, usageNamePrefix, ''network-'',
     ''.snapshot'' @ ''.json'']"
  by code_simp

interpretation restarts_kind: window_kind kindContainerRestarts "journalWindowName restartsNamePrefix"
  by (rule journal_window_kind) (use safe_prefixes in \<open>auto intro: ungated_kinds\<close>)

interpretation disruptions_kind: window_kind kindPodDisruptions "journalWindowName disruptionsNamePrefix"
  by (rule journal_window_kind) (use safe_prefixes in \<open>auto intro: ungated_kinds\<close>)

interpretation node_lifecycle_kind: window_kind kindNodeLifecycle "journalWindowName nodeLifecycleNamePrefix"
  by (rule journal_window_kind) (use safe_prefixes in \<open>auto intro: ungated_kinds\<close>)

interpretation job_runs_kind: window_kind kindJobRuns "journalWindowName jobRunsNamePrefix"
  by (rule journal_window_kind) (use safe_prefixes in \<open>auto intro: ungated_kinds\<close>)

interpretation goroutine_kind: window_kind kindGoroutineCounts "journalWindowName goroutineCountsNamePrefix"
  by (rule journal_window_kind) (use safe_prefixes in \<open>auto intro: ungated_kinds\<close>)

interpretation agent_states_kind: window_kind kindAgentStates "journalWindowName agentStatesNamePrefix"
  by (rule journal_window_kind) (use safe_prefixes in \<open>auto intro: ungated_kinds\<close>)

interpretation agent_counters_kind: window_kind kindAgentCounters "journalWindowName agentCountersNamePrefix"
  by (rule journal_window_kind) (use safe_prefixes in \<open>auto intro: ungated_kinds\<close>)

interpretation network_kind: window_kind "''network_window''" "journalWindowName ''network-''"
  by (rule journal_window_kind) (use safe_prefixes in \<open>auto intro: ungated_kinds\<close>)

interpretation usage_kind: window_kind "''usage_window''" closed_name
  unfolding closed_name_journal
  by (rule journal_window_kind) (use safe_prefixes in \<open>auto intro: ungated_kinds\<close>)

interpretation snapshot_kind: window_kind kindUsageSnapshot snapshot_name
proof
  show "plain_name (snapshot_name k)" for k
  proof (rule plain_name_safe)
    show "\<forall>c \<in> set (snapshot_name k). safe_char c"
      using window_digits_chars safe_prefixes
      unfolding snapshot_name_journal list_all_iff set_append ball_Un by auto
  qed (simp add: snapshot_name_journal)
  show "\<not> HasSuffix (snapshot_name k) ''.tmp''" for k
    using json_not_tmp [of "usageNamePrefix @ window_digits k @ ''.snapshot''"] by (simp add: snapshot_name_journal)
  show "nameable k \<Longrightarrow> nameable k' \<Longrightarrow> snapshot_name k = snapshot_name k' \<Longrightarrow> k = k'" for k k'
    by (simp add: snapshot_name_journal window_digits_inj)
qed (rule ungated_kinds, simp)

section \<open>Closed windows\<close>

lemma window_digits_no_dot: "CHR ''.'' \<notin> set (window_digits k)"
proof -
  have "CHR ''.'' \<noteq> digit d" if "d < 10" for d
  proof
    assume "CHR ''.'' = digit d"
    then have "digit_value (CHR ''.'') = Some d" using that by simp
    then show False by (simp add: digit_value_def)
  qed
  then have "CHR ''.'' \<notin> set (FormatUint n)" for n using FormatUint_digits by metis
  then show ?thesis by (simp add: window_digits_def FormatInt_def)
qed

lemma closed_not_snapshot: "closed_name k \<noteq> snapshot_name k'"
proof
  assume "closed_name k = snapshot_name k'"
  then have "window_digits k @ ''.json'' = (window_digits k' @ ''.snapshot'') @ ''.json''"
    by (simp add: closed_name_journal snapshot_name_journal journalWindowName_def)
  then have "window_digits k = window_digits k' @ ''.snapshot''" by (simp only: append_same_eq)
  then show False using window_digits_no_dot [of k] by simp
qed

lemma snapshot_not_tmp: "snapshot_name k \<noteq> tmp_name (closed_name k')" "snapshot_name k \<noteq> tmp_name (snapshot_name k')"
  using snapshot_kind.published [of k] tmp_name_suffix by metis+

definition closed_names :: "windowKey \<Rightarrow> string set" where
  "closed_names k = {closed_name k, tmp_name (closed_name k), snapshot_name k}"

lemma closed_names_disjoint:
  assumes "nameable k" and "nameable k'" and "k \<noteq> k'"
  shows "closed_names k \<inter> closed_names k' = {}"
proof -
  have "snapshot_name k \<noteq> snapshot_name k'" using snapshot_kind.injective assms by metis
  moreover have "{closed_name k, tmp_name (closed_name k)} \<inter> {closed_name k', tmp_name (closed_name k')} = {}"
    using usage_kind.names_disjoint assms by blast
  ultimately show ?thesis
    using closed_not_snapshot [of k k'] closed_not_snapshot [of k' k] snapshot_not_tmp(1) [of k k'] snapshot_not_tmp(1) [of k' k]
    by (auto simp: closed_names_def)
qed

lemma close_one:
  assumes "faultless w" and "marshalIndent w p \<noteq> None"
  shows "\<exists>s'. (case write_payload w ''usage_window'' (closed_name k) p s of
      (s, Some err) \<Rightarrow> (s, Some err) | (s, None) \<Rightarrow> remove_superseded w k s) = (s', None) \<and>
    (\<forall>n. mget (Sp_dir s') n = (if n \<in> closed_names k then (if n = closed_name k then Some (file_at w (closed_name k) p) else None)
       else mget (Sp_dir s) n))"
proof -
  obtain t where t: "write_payload w ''usage_window'' (closed_name k) p s = (t, None)"
    "\<forall>n. mget (Sp_dir t) n = (if n \<in> {closed_name k, tmp_name (closed_name k)}
       then (if n = closed_name k then Some (file_at w (closed_name k) p) else None) else mget (Sp_dir s) n)"
    using usage_kind.write_lands [OF assms] by blast
  have "remove_superseded w k t = (t\<lparr>Sp_dir := mdel (snapshot_name k) (Sp_dir t)\<rparr>, None)"
    using assms(1) by (simp add: remove_superseded_def faultless_def)
  then show ?thesis using t closed_not_snapshot [of k k] by (auto simp: closed_names_def)
qed

section \<open>Properties\<close>

text \<open>
  C32. Closing windows: with no I/O fault and every payload encodable, whatever order the map of
  groups is visited in, each window of the records handed over has its own file, which holds
  the whole payload of exactly that window's records in their order, and its superseded
  snapshot is gone; no other file changes.
\<close>

theorem WriteClosedWindows_supersedes:
  fixes w :: "('fp, ('o, 'x) payload) world"
  assumes "faultless w" and "permutes_keys w" and "\<And>p. marshalIndent w p \<noteq> None"
    and "\<forall>r \<in> set records. nameable (record_window r)"
  shows "\<exists>s'. WriteClosedWindows w records obs s = (s', None) \<and>
    (\<forall>k \<in> record_window ` set records.
       mget (Sp_dir s') (closed_name k) = Some (file_at w (closed_name k) (UsagePayload
         (usage_payload ''usage_window'' obs k (filter (\<lambda>r. record_window r = k) records)))) \<and>
       mget (Sp_dir s') (snapshot_name k) = None) \<and>
    (\<forall>n. (\<forall>k \<in> record_window ` set records. n \<notin> closed_names k) \<longrightarrow> mget (Sp_dir s') n = mget (Sp_dir s) n)"
proof -
  let ?ks = "visit w (group_keys (groupByWindow record_window records))"
  let ?mk = "\<lambda>k. UsagePayload (usage_payload ''usage_window'' obs k (filter (\<lambda>r. record_window r = k) records))"
  let ?body = "\<lambda>k s. case write_payload w ''usage_window'' (closed_name k) (?mk k) s of
      (s, Some err) \<Rightarrow> (s, Some err) | (s, None) \<Rightarrow> remove_superseded w k s"
  let ?V = "\<lambda>k n. if n = closed_name k then Some (file_at w (closed_name k) (?mk k)) else None"
  have ks: "set ?ks = record_window ` set records" "distinct ?ks"
    by (rule visited_keys [OF assms(2)])+
  have "\<exists>s'. fold_result ?body ?ks s = (s', None) \<and>
    (\<forall>k \<in> set ?ks. \<forall>n \<in> closed_names k. mget (Sp_dir s') n = ?V k n) \<and>
    (\<forall>n. n \<notin> \<Union> (closed_names ` set ?ks) \<longrightarrow> mget (Sp_dir s') n = mget (Sp_dir s) n)"
  proof (rule fold_result_touches [OF _ ks(2)])
    fix k s
    show "\<exists>s'. ?body k s = (s', None) \<and>
      (\<forall>n. mget (Sp_dir s') n = (if n \<in> closed_names k then ?V k n else mget (Sp_dir s) n))"
      by (rule close_one [OF assms(1,3)])
  next
    fix k k' assume "k \<in> set ?ks" "k' \<in> set ?ks" "k \<noteq> k'"
    then show "closed_names k \<inter> closed_names k' = {}" using assms(4) unfolding ks(1) by (intro closed_names_disjoint) auto
  qed
  then obtain s' where s': "fold_result ?body ?ks s = (s', None)"
    "\<forall>k \<in> set ?ks. \<forall>n \<in> closed_names k. mget (Sp_dir s') n = ?V k n"
    "\<forall>n. n \<notin> \<Union> (closed_names ` set ?ks) \<longrightarrow> mget (Sp_dir s') n = mget (Sp_dir s) n" by blast
  have "WriteClosedWindows w records obs s = (s', None)"
    using s'(1) by (simp add: WriteClosedWindows_def each_window_def group_of_filter)
  moreover have "mget (Sp_dir s') (closed_name k) = ?V k (closed_name k)" "mget (Sp_dir s') (snapshot_name k) = ?V k (snapshot_name k)"
    if "k \<in> record_window ` set records" for k
    using s'(2) that ks(1) by (auto simp: closed_names_def)
  ultimately show ?thesis using s'(3) closed_not_snapshot [symmetric] unfolding ks(1) by auto
qed

text \<open>A world in which nothing fails and every payload is encoded as \<open>{}\<close>.\<close>

definition calm :: "(string, (unit, unit) payload) world" where
  "calm = \<lparr>sha256 = (\<lambda>data. data), marshalIndent = (\<lambda>_. Some ''{}''), visit = rev,
     at_write = (\<lambda>_. \<lparr>W_io = no_faults 7, W_now = 7, W_later = 7\<rparr>)\<rparr>"

lemma calm_world: "faultless calm" "permutes_keys calm" "marshalIndent calm p \<noteq> None"
  by (simp_all add: faultless_def permutes_keys_def calm_def no_faults_def)

lemma nameable_epoch: "nameable \<lparr>wk_start = epoch, wk_seconds = 3600\<rparr>"
  by (simp add: nameable_def epoch_def Unix_def maxInt64_def)

theorem WriteClosedWindows_supersedes_witness:
  "\<exists>s'. WriteClosedWindows calm [newRecord (Key ''ns'' ''Deployment'' ''web'' ''app'') epoch 3600] ()
      (empty_spool\<lparr>Sp_dir := mput (snapshot_name \<lparr>wk_start = epoch, wk_seconds = 3600\<rparr>)
         \<lparr>F_data = ''x'', F_modTime = 0, F_isDir = False\<rparr> mempty\<rparr>) = (s', None) \<and>
    mget (Sp_dir s') (closed_name \<lparr>wk_start = epoch, wk_seconds = 3600\<rparr>) = Some (landed (no_faults 7) ''{}'') \<and>
    mget (Sp_dir s') (snapshot_name \<lparr>wk_start = epoch, wk_seconds = 3600\<rparr>) = None"
proof -
  let ?k = "\<lparr>wk_start = epoch, wk_seconds = 3600\<rparr>"
  let ?rs = "[newRecord (Key ''ns'' ''Deployment'' ''web'' ''app'') epoch 3600]"
  have k: "record_window (newRecord (Key ''ns'' ''Deployment'' ''web'' ''app'') epoch 3600) = ?k"
    by (simp add: record_window_def newRecord_def)
  have "\<forall>r \<in> set ?rs. nameable (record_window r)" using k nameable_epoch by simp
  from WriteClosedWindows_supersedes [OF calm_world this, of "()" "empty_spool\<lparr>Sp_dir := mput (snapshot_name ?k)
         \<lparr>F_data = ''x'', F_modTime = 0, F_isDir = False\<rparr> mempty\<rparr>"]
  show ?thesis by (auto simp: k file_at_def) (simp add: calm_def)
qed

text \<open>What a journal writer leaves: the outcome of the loop as a predicate.\<close>

definition filed ::
    "('fp, 'p) world \<Rightarrow> ('r \<Rightarrow> windowKey) \<Rightarrow> string \<Rightarrow> (windowKey \<Rightarrow> 'r list \<Rightarrow> 'p) \<Rightarrow> 'r list \<Rightarrow>
     'fp Spool \<Rightarrow> 'fp Spool \<times> spool_error option \<Rightarrow> bool" where
  "filed w windowOf prefix mk records s result \<longleftrightarrow> snd result = None \<and>
     (\<forall>k \<in> windowOf ` set records. mget (Sp_dir (fst result)) (journalWindowName prefix k) =
        Some (file_at w (journalWindowName prefix k) (mk k (filter (\<lambda>r. windowOf r = k) records)))) \<and>
     (\<forall>n. (\<forall>k \<in> windowOf ` set records. n \<noteq> journalWindowName prefix k \<and> n \<noteq> tmp_name (journalWindowName prefix k)) \<longrightarrow>
        mget (Sp_dir (fst result)) n = mget (Sp_dir s) n)"

lemma filedI:
  "\<exists>s'. result = (s', None) \<and>
    (\<forall>k \<in> windowOf ` set records. mget (Sp_dir s') (journalWindowName prefix k) =
       Some (file_at w (journalWindowName prefix k) (mk k (filter (\<lambda>r. windowOf r = k) records)))) \<and>
    (\<forall>n. (\<forall>k \<in> windowOf ` set records. n \<noteq> journalWindowName prefix k \<and> n \<noteq> tmp_name (journalWindowName prefix k)) \<longrightarrow>
       mget (Sp_dir s') n = mget (Sp_dir s) n) \<Longrightarrow>
   filed w windowOf prefix mk records s result"
  by (auto simp: filed_def)

text \<open>
  The journals' windows: with no I/O fault and every payload encodable, each of the seven
  journal writers leaves, for every window of the records handed to it, one file whose
  payload holds exactly that window's records in their order, and changes no other file.
\<close>

theorem journal_windows_filed:
  fixes w :: "('fp, ('o, 'x) payload) world"
  assumes "faultless w" and "permutes_keys w" and "\<And>p. marshalIndent w p \<noteq> None"
    and "\<forall>r \<in> set rs. nameable (restart_window r)"
    and "\<forall>r \<in> set ds. nameable (disruption_window r)"
    and "\<forall>r \<in> set ns. nameable (node_event_window r)"
    and "\<forall>r \<in> set js. nameable (job_window r)"
    and "\<forall>r \<in> set gs. nameable (goroutine_window r)"
    and "\<forall>r \<in> set ss. nameable (state_window r)"
    and "\<forall>r \<in> set cs. nameable (counter_window r)"
  shows "filed w restart_window restartsNamePrefix
      (\<lambda>k recs. ContainerRestartsPayload (journal_payload kindContainerRestarts SourceJournal t k recs)) rs s (WriteContainerRestarts w t rs s) \<and>
    filed w disruption_window disruptionsNamePrefix
      (\<lambda>k recs. PodDisruptionsPayload (journal_payload kindPodDisruptions SourceJournal t k recs)) ds s (WritePodDisruptions w t ds s) \<and>
    filed w node_event_window nodeLifecycleNamePrefix
      (\<lambda>k recs. NodeLifecyclePayload (journal_payload kindNodeLifecycle SourceJournal t k recs)) ns s (WriteNodeLifecycle w t ns s) \<and>
    filed w job_window jobRunsNamePrefix
      (\<lambda>k recs. JobRunsPayload (journal_payload kindJobRuns SourceJournal t k recs)) js s (WriteJobRuns w t js s) \<and>
    filed w goroutine_window goroutineCountsNamePrefix
      (\<lambda>k recs. GoroutineCountsPayload (journal_payload kindGoroutineCounts SourceMeasured t k recs)) gs s (WriteGoroutineCounts w t gs s) \<and>
    filed w state_window agentStatesNamePrefix
      (\<lambda>k recs. AgentStatesPayload (journal_payload kindAgentStates SourceAgent t k recs)) ss s (WriteAgentStates w t ss s) \<and>
    filed w counter_window agentCountersNamePrefix
      (\<lambda>k recs. AgentCountersPayload (journal_payload kindAgentCounters SourceAgent t k recs)) cs s (WriteAgentCounters w t cs s)"
  unfolding WriteContainerRestarts_def WritePodDisruptions_def WriteNodeLifecycle_def WriteJobRuns_def WriteGoroutineCounts_def WriteAgentStates_def WriteAgentCounters_def
  using assms(4-10)
  by (intro conjI filedI restarts_kind.windows_written disruptions_kind.windows_written node_lifecycle_kind.windows_written job_runs_kind.windows_written goroutine_kind.windows_written agent_states_kind.windows_written agent_counters_kind.windows_written assms(1-3)) simp_all

definition one_counter :: CounterRecord where
  "one_counter = \<lparr>CT_Counter = ''filter.pods_observed'', CT_WindowStart = epoch, CT_WindowSeconds = 3600,
     CT_Delta = 4, CT_ObservedNanos = 60, CT_AccruedTo = epoch + 60\<rparr>"

theorem journal_windows_filed_witness:
  "mget (Sp_dir (fst (WriteAgentCounters calm 9 [one_counter] empty_spool)))
     (journalWindowName agentCountersNamePrefix \<lparr>wk_start = epoch, wk_seconds = 3600\<rparr>) = Some (landed (no_faults 7) ''{}'')"
proof -
  have k: "counter_window one_counter = \<lparr>wk_start = epoch, wk_seconds = 3600\<rparr>"
    by (simp add: counter_window_def one_counter_def)
  have "filed calm counter_window agentCountersNamePrefix
      (\<lambda>k recs. AgentCountersPayload (journal_payload kindAgentCounters SourceAgent 9 k recs)) [one_counter] empty_spool
      (WriteAgentCounters calm 9 [one_counter] empty_spool)"
    using journal_windows_filed [OF calm_world, of "[]" "[]" "[]" "[]" "[]" "[]" "[one_counter]" 9 empty_spool]
      nameable_epoch k by simp
  then show ?thesis by (simp add: filed_def k file_at_def) (simp add: calm_def)
qed

end
