(* ===== verification/Recover.thy ===== *)
theory Recover
  imports WindowFiles
begin

text \<open>
  The startup read of \<open>internal/sink/recover.go\<close>: what a restarted agent takes back from its
  spool. It lists the directory once, reads the usage snapshots of windows that are still
  open and were not made final, then the files of the seven journals' open windows, and
  reports one error per file it refused. It changes no file.

  \<open>decoders\<close> stands for \<open>json.Unmarshal\<close> into the payload structs, \<^const>\<open>None\<close> where it
  reports an error; a usage record may decode to a nil pointer, and a histogram may be
  absent from it. \<open>read_io\<close> is what the operating system answers.
\<close>

section \<open>Definitions\<close>

definition maxRecoveryBytes :: int where "maxRecoveryBytes = 64 * 2 ^ 20"

datatype recover_error =
    ReadingFailed string
  | PastCeiling string
  | DecodingFailed string
  | HoldsKind string string
  | HoldsWindow string
  | ForeignRecord string

record read_io =
  R_list_fails :: bool
  R_stat_fails :: "string \<Rightarrow> bool"
  R_read_fails :: "string \<Rightarrow> bool"

type_synonym usage_record = "(Histogram option) Record"

record 'o decoders =
  D_usage :: "string \<Rightarrow> ('o, usage_record option) usagePayload option"
  D_restarts :: "string \<Rightarrow> RestartRecord journalPayload option"
  D_disruptions :: "string \<Rightarrow> DisruptionRecord journalPayload option"
  D_nodes :: "string \<Rightarrow> NodeEventRecord journalPayload option"
  D_jobs :: "string \<Rightarrow> JobRunRecord journalPayload option"
  D_goroutines :: "string \<Rightarrow> GoroutineRecord journalPayload option"
  D_states :: "string \<Rightarrow> StateRecord journalPayload option"
  D_counters :: "string \<Rightarrow> CounterRecord journalPayload option"

record Recovery =
  Rec_Records :: "usage_record list"
  Rec_Windows :: nat
  Rec_Skipped :: "recover_error list"
  Rec_Restarts :: "RestartRecord list"
  Rec_Disruptions :: "DisruptionRecord list"
  Rec_NodeEvents :: "NodeEventRecord list"
  Rec_JobRuns :: "JobRunRecord list"
  Rec_GoroutineCounts :: "GoroutineRecord list"
  Rec_AgentStates :: "StateRecord list"
  Rec_AgentCounters :: "CounterRecord list"
  Rec_JournalWindows :: nat

definition emptyRecovery :: Recovery where
  "emptyRecovery = \<lparr>Rec_Records = [], Rec_Windows = 0, Rec_Skipped = [], Rec_Restarts = [], Rec_Disruptions = [],
     Rec_NodeEvents = [], Rec_JobRuns = [], Rec_GoroutineCounts = [], Rec_AgentStates = [], Rec_AgentCounters = [],
     Rec_JournalWindows = 0\<rparr>"

definition readRecoverable :: "read_io \<Rightarrow> spool_dir \<Rightarrow> string \<Rightarrow> recover_error + string" where
  "readRecoverable io dir name =
     (case mget dir name of
        None \<Rightarrow> Inl (ReadingFailed name)
      | Some f \<Rightarrow>
          if R_stat_fails io name then Inl (ReadingFailed name)
          else if int (length (F_data f)) > maxRecoveryBytes then Inl (PastCeiling name)
          else if R_read_fails io name then Inl (ReadingFailed name)
          else Inr (F_data f))"

definition readUsageSnapshot ::
    "'o decoders \<Rightarrow> read_io \<Rightarrow> spool_dir \<Rightarrow> string \<Rightarrow> windowKey \<Rightarrow> recover_error + usage_record list" where
  "readUsageSnapshot ds io dir name k =
     (case readRecoverable io dir name of
        Inl err \<Rightarrow> Inl err
      | Inr raw \<Rightarrow>
          case D_usage ds raw of
            None \<Rightarrow> Inl (DecodingFailed name)
          | Some payload \<Rightarrow>
              if UP_Kind payload \<noteq> kindUsageSnapshot then Inl (HoldsKind name (UP_Kind payload))
              else if UP_WindowStart payload \<noteq> wk_start k \<or> UP_WindowSeconds payload \<noteq> wk_seconds k
              then Inl (HoldsWindow name)
              else if list_ex (\<lambda>r. case r of None \<Rightarrow> True | Some r \<Rightarrow> record_window r \<noteq> k) (UP_Records payload)
              then Inl (ForeignRecord name)
              else Inr (map the (UP_Records payload)))"

definition readJournalWindow ::
    "(string \<Rightarrow> 'r journalPayload option) \<Rightarrow> read_io \<Rightarrow> spool_dir \<Rightarrow> string \<Rightarrow> string \<Rightarrow> windowKey \<Rightarrow>
     ('r \<Rightarrow> windowKey) \<Rightarrow> recover_error + 'r list" where
  "readJournalWindow decode io dir name kind k windowOf =
     (case readRecoverable io dir name of
        Inl err \<Rightarrow> Inl err
      | Inr raw \<Rightarrow>
          case decode raw of
            None \<Rightarrow> Inl (DecodingFailed name)
          | Some payload \<Rightarrow>
              if JP_Kind payload \<noteq> kind then Inl (HoldsKind name (JP_Kind payload))
              else if JP_WindowStart payload \<noteq> wk_start k \<or> JP_WindowSeconds payload \<noteq> wk_seconds k
              then Inl (HoldsWindow name)
              else if list_ex (\<lambda>r. windowOf r \<noteq> k) (JP_Records payload) then Inl (ForeignRecord name)
              else Inr (JP_Records payload))"

text \<open>\<open>Inr None\<close> is \<open>false\<close> with no error: a file whose window has ended, or another's.\<close>

definition resumeInto ::
    "(string \<Rightarrow> 'r journalPayload option) \<Rightarrow> read_io \<Rightarrow> spool_dir \<Rightarrow> string \<Rightarrow> string \<Rightarrow> string \<Rightarrow> time \<Rightarrow>
     ('r \<Rightarrow> windowKey) \<Rightarrow> recover_error + 'r list option" where
  "resumeInto decode io dir name prefix kind now windowOf =
     (case parseWindowName (TrimSuffix name ''.json'') prefix of
        None \<Rightarrow> Inr None
      | Some k \<Rightarrow>
          if \<not> windowKey_end k > now then Inr None
          else case readJournalWindow decode io dir name kind k windowOf of
            Inl err \<Rightarrow> Inl err
          | Inr records \<Rightarrow> Inr (Some records))"

text \<open>What one iteration does with the answer: the error, the window and its records, or nothing.\<close>

definition take_window ::
    "('r list \<Rightarrow> Recovery \<Rightarrow> Recovery) \<Rightarrow> recover_error + 'r list option \<Rightarrow> Recovery \<Rightarrow> Recovery" where
  "take_window add answer rec =
     (case answer of
        Inl err \<Rightarrow> rec\<lparr>Rec_Skipped := Rec_Skipped rec @ [err]\<rparr>
      | Inr None \<Rightarrow> rec
      | Inr (Some records) \<Rightarrow>
          (let rec = add records rec in rec\<lparr>Rec_JournalWindows := Rec_JournalWindows rec + 1\<rparr>))"

definition recover_journal :: "'o decoders \<Rightarrow> read_io \<Rightarrow> spool_dir \<Rightarrow> time \<Rightarrow> string \<times> sfile \<Rightarrow> Recovery \<Rightarrow> Recovery" where
  "recover_journal ds io dir now entry rec =
     (let name = fst entry in
      if F_isDir (snd entry) \<or> \<not> HasSuffix name ''.json'' then rec
      else if HasPrefix name restartsNamePrefix then
        take_window (\<lambda>rs r. r\<lparr>Rec_Restarts := Rec_Restarts r @ rs\<rparr>)
          (resumeInto (D_restarts ds) io dir name restartsNamePrefix kindContainerRestarts now restart_window) rec
      else if HasPrefix name disruptionsNamePrefix then
        take_window (\<lambda>rs r. r\<lparr>Rec_Disruptions := Rec_Disruptions r @ rs\<rparr>)
          (resumeInto (D_disruptions ds) io dir name disruptionsNamePrefix kindPodDisruptions now disruption_window) rec
      else if HasPrefix name nodeLifecycleNamePrefix then
        take_window (\<lambda>rs r. r\<lparr>Rec_NodeEvents := Rec_NodeEvents r @ rs\<rparr>)
          (resumeInto (D_nodes ds) io dir name nodeLifecycleNamePrefix kindNodeLifecycle now node_event_window) rec
      else if HasPrefix name jobRunsNamePrefix then
        take_window (\<lambda>rs r. r\<lparr>Rec_JobRuns := Rec_JobRuns r @ rs\<rparr>)
          (resumeInto (D_jobs ds) io dir name jobRunsNamePrefix kindJobRuns now job_window) rec
      else if HasPrefix name goroutineCountsNamePrefix then
        take_window (\<lambda>rs r. r\<lparr>Rec_GoroutineCounts := Rec_GoroutineCounts r @ rs\<rparr>)
          (resumeInto (D_goroutines ds) io dir name goroutineCountsNamePrefix kindGoroutineCounts now goroutine_window) rec
      else if HasPrefix name agentStatesNamePrefix then
        take_window (\<lambda>rs r. r\<lparr>Rec_AgentStates := Rec_AgentStates r @ rs\<rparr>)
          (resumeInto (D_states ds) io dir name agentStatesNamePrefix kindAgentStates now state_window) rec
      else if HasPrefix name agentCountersNamePrefix then
        take_window (\<lambda>rs r. r\<lparr>Rec_AgentCounters := Rec_AgentCounters r @ rs\<rparr>)
          (resumeInto (D_counters ds) io dir name agentCountersNamePrefix kindAgentCounters now counter_window) rec
      else rec)"

definition recoverJournals ::
    "'o decoders \<Rightarrow> read_io \<Rightarrow> spool_dir \<Rightarrow> (string \<times> sfile) list \<Rightarrow> time \<Rightarrow> Recovery \<Rightarrow> Recovery" where
  "recoverJournals ds io dir listing now rec = fold (recover_journal ds io dir now) listing rec"

definition recover_usage :: "'o decoders \<Rightarrow> read_io \<Rightarrow> spool_dir \<Rightarrow> time \<Rightarrow> string \<times> sfile \<Rightarrow> Recovery \<Rightarrow> Recovery" where
  "recover_usage ds io dir now entry rec =
     (let name = fst entry in
      if F_isDir (snd entry) \<or> \<not> HasSuffix name usageSnapshotSuffix then rec
      else case parseWindowName (TrimSuffix name usageSnapshotSuffix) usageNamePrefix of
        None \<Rightarrow> rec
      | Some k \<Rightarrow>
          if \<not> windowKey_end k > now then rec
          else if mget dir (closed_name k) \<noteq> None \<and> \<not> R_stat_fails io (closed_name k) then rec
          else case readUsageSnapshot ds io dir name k of
            Inl err \<Rightarrow> rec\<lparr>Rec_Skipped := Rec_Skipped rec @ [err]\<rparr>
          | Inr records \<Rightarrow> rec\<lparr>Rec_Records := Rec_Records rec @ records, Rec_Windows := Rec_Windows rec + 1\<rparr>)"

definition journal_records :: "Recovery \<Rightarrow> nat" where
  "journal_records rec = length (Rec_Restarts rec) + length (Rec_Disruptions rec) + length (Rec_NodeEvents rec) +
     length (Rec_JobRuns rec) + length (Rec_GoroutineCounts rec) + length (Rec_AgentStates rec) +
     length (Rec_AgentCounters rec)"

definition RecoverOpenWindows ::
    "'o decoders \<Rightarrow> read_io \<Rightarrow> time \<Rightarrow> 'fp Spool \<Rightarrow> 'fp Spool \<times> (spool_error + Recovery)" where
  "RecoverOpenWindows ds io now s =
     (if R_list_fails io then (s, Inl ListingFailed)
      else
        let dir = Sp_dir s; listing = entries dir;
            rec = fold (recover_usage ds io dir now) listing emptyRecovery;
            rec = recoverJournals ds io dir listing now rec
        in (countRecovery (int (length (Rec_Records rec))) (int (Rec_Windows rec)) (int (length (Rec_Skipped rec)))
              (int (journal_records rec)) (int (Rec_JournalWindows rec)) s, Inr rec))"

section \<open>What one entry of the listing yields\<close>

definition found :: "recover_error + 'r list option \<Rightarrow> 'r list" where
  "found answer = (case answer of Inr (Some rs) \<Rightarrow> rs | _ \<Rightarrow> [])"

definition resumed ::
    "(string \<Rightarrow> 'r journalPayload option) \<Rightarrow> read_io \<Rightarrow> spool_dir \<Rightarrow> string \<Rightarrow> string \<Rightarrow> time \<Rightarrow> ('r \<Rightarrow> windowKey) \<Rightarrow>
     string \<times> sfile \<Rightarrow> 'r list" where
  "resumed decode io dir prefix kind now windowOf entry =
     (if F_isDir (snd entry) \<or> \<not> HasSuffix (fst entry) ''.json'' \<or> \<not> HasPrefix (fst entry) prefix then []
      else found (resumeInto decode io dir (fst entry) prefix kind now windowOf))"

definition usage_resumed :: "'o decoders \<Rightarrow> read_io \<Rightarrow> spool_dir \<Rightarrow> time \<Rightarrow> string \<times> sfile \<Rightarrow> usage_record list" where
  "usage_resumed ds io dir now entry = Rec_Records (recover_usage ds io dir now entry emptyRecovery)"

lemmas journal_prefixes = restartsNamePrefix_def disruptionsNamePrefix_def nodeLifecycleNamePrefix_def
  jobRunsNamePrefix_def goroutineCountsNamePrefix_def agentStatesNamePrefix_def agentCountersNamePrefix_def

lemma prefix_take: "HasPrefix n p \<Longrightarrow> HasPrefix n q \<Longrightarrow> length p \<le> length q \<Longrightarrow> p = take (length p) q"
  by (auto simp: HasPrefix_def min_def dest: arg_cong [where f = "take (length p)"])

lemma prefixes_exclusive:
  assumes "HasPrefix n p" and "HasPrefix n q"
    and "p \<in> set [restartsNamePrefix, disruptionsNamePrefix, nodeLifecycleNamePrefix, jobRunsNamePrefix,
      goroutineCountsNamePrefix, agentStatesNamePrefix, agentCountersNamePrefix]"
    and "q \<in> set [restartsNamePrefix, disruptionsNamePrefix, nodeLifecycleNamePrefix, jobRunsNamePrefix,
      goroutineCountsNamePrefix, agentStatesNamePrefix, agentCountersNamePrefix]"
  shows "p = q"
proof -
  let ?ps = "[restartsNamePrefix, disruptionsNamePrefix, nodeLifecycleNamePrefix, jobRunsNamePrefix,
      goroutineCountsNamePrefix, agentStatesNamePrefix, agentCountersNamePrefix]"
  have "list_all (\<lambda>p. list_all (\<lambda>q. p = take (length p) q \<longrightarrow> p = q) ?ps) ?ps" by code_simp
  then have "\<forall>p \<in> set ?ps. \<forall>q \<in> set ?ps. p = take (length p) q \<longrightarrow> p = q" unfolding list_all_iff .
  then show ?thesis
    using assms prefix_take [of n p q] prefix_take [of n q p] by (metis linorder_le_cases)
qed

definition journalPrefixes :: "string list" where
  "journalPrefixes = [restartsNamePrefix, disruptionsNamePrefix, nodeLifecycleNamePrefix, jobRunsNamePrefix,
     goroutineCountsNamePrefix, agentStatesNamePrefix, agentCountersNamePrefix]"

definition journal_of :: "string \<Rightarrow> string option" where
  "journal_of n = List.find (HasPrefix n) journalPrefixes"

lemma HasPrefix_journal_of: "p \<in> set journalPrefixes \<Longrightarrow> HasPrefix n p \<longleftrightarrow> journal_of n = Some p"
proof -
  assume p: "p \<in> set journalPrefixes"
  show "HasPrefix n p \<longleftrightarrow> journal_of n = Some p"
  proof
    assume hp: "HasPrefix n p"
    then have "journal_of n \<noteq> None" using p by (auto simp: journal_of_def find_None_iff)
    then obtain q where q: "journal_of n = Some q" by auto
    then have "HasPrefix n q" "q \<in> set journalPrefixes" by (auto simp: journal_of_def find_Some_iff in_set_conv_nth)
    then show "journal_of n = Some p" using q hp p prefixes_exclusive [of n p q] by (simp add: journalPrefixes_def)
  qed (auto simp: journal_of_def find_Some_iff)
qed

lemma prefix_neq:
  "restartsNamePrefix \<noteq> disruptionsNamePrefix"
  "restartsNamePrefix \<noteq> nodeLifecycleNamePrefix"
  "restartsNamePrefix \<noteq> jobRunsNamePrefix"
  "restartsNamePrefix \<noteq> goroutineCountsNamePrefix"
  "restartsNamePrefix \<noteq> agentStatesNamePrefix"
  "restartsNamePrefix \<noteq> agentCountersNamePrefix"
  "disruptionsNamePrefix \<noteq> nodeLifecycleNamePrefix"
  "disruptionsNamePrefix \<noteq> jobRunsNamePrefix"
  "disruptionsNamePrefix \<noteq> goroutineCountsNamePrefix"
  "disruptionsNamePrefix \<noteq> agentStatesNamePrefix"
  "disruptionsNamePrefix \<noteq> agentCountersNamePrefix"
  "nodeLifecycleNamePrefix \<noteq> jobRunsNamePrefix"
  "nodeLifecycleNamePrefix \<noteq> goroutineCountsNamePrefix"
  "nodeLifecycleNamePrefix \<noteq> agentStatesNamePrefix"
  "nodeLifecycleNamePrefix \<noteq> agentCountersNamePrefix"
  "jobRunsNamePrefix \<noteq> goroutineCountsNamePrefix"
  "jobRunsNamePrefix \<noteq> agentStatesNamePrefix"
  "jobRunsNamePrefix \<noteq> agentCountersNamePrefix"
  "goroutineCountsNamePrefix \<noteq> agentStatesNamePrefix"
  "goroutineCountsNamePrefix \<noteq> agentCountersNamePrefix"
  "agentStatesNamePrefix \<noteq> agentCountersNamePrefix"
  by (simp_all add: journal_prefixes)

lemmas dispatch = HasPrefix_journal_of prefix_neq prefix_neq [symmetric]

lemma prefix_members [simp]:
  "restartsNamePrefix \<in> set journalPrefixes"
  "disruptionsNamePrefix \<in> set journalPrefixes"
  "nodeLifecycleNamePrefix \<in> set journalPrefixes"
  "jobRunsNamePrefix \<in> set journalPrefixes"
  "goroutineCountsNamePrefix \<in> set journalPrefixes"
  "agentStatesNamePrefix \<in> set journalPrefixes"
  "agentCountersNamePrefix \<in> set journalPrefixes"
  by (simp_all add: journalPrefixes_def)

lemma take_window_frame:
  "(\<And>rs r. Rec_Restarts (add rs r) = Rec_Restarts r) \<Longrightarrow> Rec_Restarts (take_window add answer rec) = Rec_Restarts rec"
  "(\<And>rs r. Rec_Disruptions (add rs r) = Rec_Disruptions r) \<Longrightarrow> Rec_Disruptions (take_window add answer rec) = Rec_Disruptions rec"
  "(\<And>rs r. Rec_NodeEvents (add rs r) = Rec_NodeEvents r) \<Longrightarrow> Rec_NodeEvents (take_window add answer rec) = Rec_NodeEvents rec"
  "(\<And>rs r. Rec_JobRuns (add rs r) = Rec_JobRuns r) \<Longrightarrow> Rec_JobRuns (take_window add answer rec) = Rec_JobRuns rec"
  "(\<And>rs r. Rec_GoroutineCounts (add rs r) = Rec_GoroutineCounts r) \<Longrightarrow> Rec_GoroutineCounts (take_window add answer rec) = Rec_GoroutineCounts rec"
  "(\<And>rs r. Rec_AgentStates (add rs r) = Rec_AgentStates r) \<Longrightarrow> Rec_AgentStates (take_window add answer rec) = Rec_AgentStates rec"
  "(\<And>rs r. Rec_AgentCounters (add rs r) = Rec_AgentCounters r) \<Longrightarrow> Rec_AgentCounters (take_window add answer rec) = Rec_AgentCounters rec"
  "(\<And>rs r. Rec_Records (add rs r) = Rec_Records r) \<Longrightarrow> Rec_Records (take_window add answer rec) = Rec_Records rec"
  "(\<And>rs r. Rec_Windows (add rs r) = Rec_Windows r) \<Longrightarrow> Rec_Windows (take_window add answer rec) = Rec_Windows rec"
  by (simp_all add: take_window_def Let_def split: sum.splits option.splits)

lemma take_window_hit:
  "Rec_Restarts (take_window (\<lambda>rs r. r\<lparr>Rec_Restarts := Rec_Restarts r @ rs\<rparr>) arestarts rec) = Rec_Restarts rec @ found arestarts"
  "Rec_Disruptions (take_window (\<lambda>rs r. r\<lparr>Rec_Disruptions := Rec_Disruptions r @ rs\<rparr>) adisruptions rec) = Rec_Disruptions rec @ found adisruptions"
  "Rec_NodeEvents (take_window (\<lambda>rs r. r\<lparr>Rec_NodeEvents := Rec_NodeEvents r @ rs\<rparr>) anodes rec) = Rec_NodeEvents rec @ found anodes"
  "Rec_JobRuns (take_window (\<lambda>rs r. r\<lparr>Rec_JobRuns := Rec_JobRuns r @ rs\<rparr>) ajobs rec) = Rec_JobRuns rec @ found ajobs"
  "Rec_GoroutineCounts (take_window (\<lambda>rs r. r\<lparr>Rec_GoroutineCounts := Rec_GoroutineCounts r @ rs\<rparr>) agoroutines rec) = Rec_GoroutineCounts rec @ found agoroutines"
  "Rec_AgentStates (take_window (\<lambda>rs r. r\<lparr>Rec_AgentStates := Rec_AgentStates r @ rs\<rparr>) astates rec) = Rec_AgentStates rec @ found astates"
  "Rec_AgentCounters (take_window (\<lambda>rs r. r\<lparr>Rec_AgentCounters := Rec_AgentCounters r @ rs\<rparr>) acounters rec) = Rec_AgentCounters rec @ found acounters"
  by (simp_all add: take_window_def found_def Let_def split: sum.splits option.splits)

lemmas take_window_fields = take_window_hit take_window_frame

lemma recover_journal_fields:
  "Rec_Restarts (recover_journal ds io dir now e rec) = Rec_Restarts rec @ resumed (D_restarts ds) io dir restartsNamePrefix kindContainerRestarts now restart_window e \<and>
   Rec_Disruptions (recover_journal ds io dir now e rec) = Rec_Disruptions rec @ resumed (D_disruptions ds) io dir disruptionsNamePrefix kindPodDisruptions now disruption_window e \<and>
   Rec_NodeEvents (recover_journal ds io dir now e rec) = Rec_NodeEvents rec @ resumed (D_nodes ds) io dir nodeLifecycleNamePrefix kindNodeLifecycle now node_event_window e \<and>
   Rec_JobRuns (recover_journal ds io dir now e rec) = Rec_JobRuns rec @ resumed (D_jobs ds) io dir jobRunsNamePrefix kindJobRuns now job_window e \<and>
   Rec_GoroutineCounts (recover_journal ds io dir now e rec) = Rec_GoroutineCounts rec @ resumed (D_goroutines ds) io dir goroutineCountsNamePrefix kindGoroutineCounts now goroutine_window e \<and>
   Rec_AgentStates (recover_journal ds io dir now e rec) = Rec_AgentStates rec @ resumed (D_states ds) io dir agentStatesNamePrefix kindAgentStates now state_window e \<and>
   Rec_AgentCounters (recover_journal ds io dir now e rec) = Rec_AgentCounters rec @ resumed (D_counters ds) io dir agentCountersNamePrefix kindAgentCounters now counter_window e \<and>
   Rec_Records (recover_journal ds io dir now e rec) = Rec_Records rec \<and>
   Rec_Windows (recover_journal ds io dir now e rec) = Rec_Windows rec"
proof (cases "F_isDir (snd e) \<or> \<not> HasSuffix (fst e) ''.json''")
  case True
  then show ?thesis by (elim disjE) (simp_all add: recover_journal_def resumed_def)
next
  case plain: False
  show ?thesis
  proof (cases "journal_of (fst e)")
    case None
    then show ?thesis using plain by (simp add: recover_journal_def resumed_def dispatch)
  next
    case (Some p)
    then have "p \<in> set journalPrefixes" by (auto simp: journal_of_def find_Some_iff in_set_conv_nth)
    then show ?thesis using plain Some unfolding journalPrefixes_def list.set insert_iff empty_iff
      by (elim disjE) (simp_all add: recover_journal_def resumed_def dispatch take_window_fields)
  qed
qed

lemma recover_journals_fields:
  "Rec_Restarts (recoverJournals ds io dir listing now rec) = Rec_Restarts rec @ concat (map (resumed (D_restarts ds) io dir restartsNamePrefix kindContainerRestarts now restart_window) listing)"
  "Rec_Disruptions (recoverJournals ds io dir listing now rec) = Rec_Disruptions rec @ concat (map (resumed (D_disruptions ds) io dir disruptionsNamePrefix kindPodDisruptions now disruption_window) listing)"
  "Rec_NodeEvents (recoverJournals ds io dir listing now rec) = Rec_NodeEvents rec @ concat (map (resumed (D_nodes ds) io dir nodeLifecycleNamePrefix kindNodeLifecycle now node_event_window) listing)"
  "Rec_JobRuns (recoverJournals ds io dir listing now rec) = Rec_JobRuns rec @ concat (map (resumed (D_jobs ds) io dir jobRunsNamePrefix kindJobRuns now job_window) listing)"
  "Rec_GoroutineCounts (recoverJournals ds io dir listing now rec) = Rec_GoroutineCounts rec @ concat (map (resumed (D_goroutines ds) io dir goroutineCountsNamePrefix kindGoroutineCounts now goroutine_window) listing)"
  "Rec_AgentStates (recoverJournals ds io dir listing now rec) = Rec_AgentStates rec @ concat (map (resumed (D_states ds) io dir agentStatesNamePrefix kindAgentStates now state_window) listing)"
  "Rec_AgentCounters (recoverJournals ds io dir listing now rec) = Rec_AgentCounters rec @ concat (map (resumed (D_counters ds) io dir agentCountersNamePrefix kindAgentCounters now counter_window) listing)"
  "Rec_Records (recoverJournals ds io dir listing now rec) = Rec_Records rec"
  "Rec_Windows (recoverJournals ds io dir listing now rec) = Rec_Windows rec"
  unfolding recoverJournals_def
  by (induction listing arbitrary: rec) (simp_all add: recover_journal_fields)

lemma recover_usage_records:
  "Rec_Records (recover_usage ds io dir now e rec) = Rec_Records rec @ usage_resumed ds io dir now e"
  by (simp add: usage_resumed_def recover_usage_def emptyRecovery_def Let_def split: option.splits sum.splits)

lemma recover_usage_frame:
  "Rec_Restarts (recover_usage ds io dir now e rec) = Rec_Restarts rec"
  "Rec_Disruptions (recover_usage ds io dir now e rec) = Rec_Disruptions rec"
  "Rec_NodeEvents (recover_usage ds io dir now e rec) = Rec_NodeEvents rec"
  "Rec_JobRuns (recover_usage ds io dir now e rec) = Rec_JobRuns rec"
  "Rec_GoroutineCounts (recover_usage ds io dir now e rec) = Rec_GoroutineCounts rec"
  "Rec_AgentStates (recover_usage ds io dir now e rec) = Rec_AgentStates rec"
  "Rec_AgentCounters (recover_usage ds io dir now e rec) = Rec_AgentCounters rec"
  by (simp_all add: recover_usage_def Let_def split: option.splits sum.splits)

lemma recover_usage_fold:
  "Rec_Records (fold (recover_usage ds io dir now) listing rec) = Rec_Records rec @ concat (map (usage_resumed ds io dir now) listing)"
  "Rec_Restarts (fold (recover_usage ds io dir now) listing rec) = Rec_Restarts rec"
  "Rec_Disruptions (fold (recover_usage ds io dir now) listing rec) = Rec_Disruptions rec"
  "Rec_NodeEvents (fold (recover_usage ds io dir now) listing rec) = Rec_NodeEvents rec"
  "Rec_JobRuns (fold (recover_usage ds io dir now) listing rec) = Rec_JobRuns rec"
  "Rec_GoroutineCounts (fold (recover_usage ds io dir now) listing rec) = Rec_GoroutineCounts rec"
  "Rec_AgentStates (fold (recover_usage ds io dir now) listing rec) = Rec_AgentStates rec"
  "Rec_AgentCounters (fold (recover_usage ds io dir now) listing rec) = Rec_AgentCounters rec"
  by (induction listing arbitrary: rec) (simp_all add: recover_usage_records recover_usage_frame)

text \<open>The records a startup read returns, kind by kind.\<close>

lemma recovered:
  assumes "RecoverOpenWindows ds io now s = (s', Inr rec)"
  shows "Rec_Records rec = concat (map (usage_resumed ds io (Sp_dir s) now) (entries (Sp_dir s)))"
    and "Rec_Restarts rec = concat (map (resumed (D_restarts ds) io (Sp_dir s) restartsNamePrefix kindContainerRestarts now restart_window) (entries (Sp_dir s)))"
    and "Rec_Disruptions rec = concat (map (resumed (D_disruptions ds) io (Sp_dir s) disruptionsNamePrefix kindPodDisruptions now disruption_window) (entries (Sp_dir s)))"
    and "Rec_NodeEvents rec = concat (map (resumed (D_nodes ds) io (Sp_dir s) nodeLifecycleNamePrefix kindNodeLifecycle now node_event_window) (entries (Sp_dir s)))"
    and "Rec_JobRuns rec = concat (map (resumed (D_jobs ds) io (Sp_dir s) jobRunsNamePrefix kindJobRuns now job_window) (entries (Sp_dir s)))"
    and "Rec_GoroutineCounts rec = concat (map (resumed (D_goroutines ds) io (Sp_dir s) goroutineCountsNamePrefix kindGoroutineCounts now goroutine_window) (entries (Sp_dir s)))"
    and "Rec_AgentStates rec = concat (map (resumed (D_states ds) io (Sp_dir s) agentStatesNamePrefix kindAgentStates now state_window) (entries (Sp_dir s)))"
    and "Rec_AgentCounters rec = concat (map (resumed (D_counters ds) io (Sp_dir s) agentCountersNamePrefix kindAgentCounters now counter_window) (entries (Sp_dir s)))"
    and "Sp_dir s' = Sp_dir s" and "Sp_cadence s' = Sp_cadence s" and "\<not> R_list_fails io"
  using assms
  by (auto simp: RecoverOpenWindows_def Let_def recover_journals_fields recover_usage_fold emptyRecovery_def countRecovery_def
      split: if_splits)

section \<open>Only open windows\<close>

lemma readJournalWindow_records:
  "readJournalWindow decode io dir name kind k windowOf = Inr rs \<Longrightarrow> r \<in> set rs \<Longrightarrow> windowOf r = k"
  by (auto simp: readJournalWindow_def list_ex_iff split: sum.splits option.splits if_splits)

lemma resumed_open:
  "r \<in> set (resumed decode io dir prefix kind now windowOf e) \<Longrightarrow> now < windowKey_end (windowOf r)"
  by (auto simp: resumed_def found_def resumeInto_def dest: readJournalWindow_records
      split: if_splits sum.splits option.splits)

lemma concat_resumed_open:
  "r \<in> set (concat (map (resumed decode io dir prefix kind now windowOf) l)) \<Longrightarrow> now < windowKey_end (windowOf r)"
  by (auto dest: resumed_open)

lemma usage_resumed_open:
  assumes "r \<in> set (usage_resumed ds io dir now e)"
  shows "now < windowKey_end (record_window r) \<and>
    (mget dir (closed_name (record_window r)) = None \<or> R_stat_fails io (closed_name (record_window r)))"
proof -
  obtain k rs where k: "now < windowKey_end k" "mget dir (closed_name k) = None \<or> R_stat_fails io (closed_name k)"
    "readUsageSnapshot ds io dir (fst e) k = Inr rs" "r \<in> set rs"
    using assms
    by (auto simp: usage_resumed_def recover_usage_def emptyRecovery_def Let_def split: if_splits sum.splits option.splits)
  then have "record_window r = k"
    by (fastforce simp: readUsageSnapshot_def list_ex_iff split: sum.splits option.splits if_splits)
  then show ?thesis using k by simp
qed


section \<open>What was written is read back\<close>

lemma sum_windows:
  "(\<Sum>k \<in> f ` set rs. mset (if P k then filter (\<lambda>r. f r = k) rs else [])) = mset (filter (\<lambda>r. P (f r)) rs)"
proof (rule multiset_eqI)
  fix x
  have "count (mset (if P k then filter (\<lambda>r. f r = k) rs else [])) x = (if k = f x then (if P k then count (mset rs) x else 0) else 0)"
    for k by auto
  then have "count (\<Sum>k \<in> f ` set rs. mset (if P k then filter (\<lambda>r. f r = k) rs else [])) x =
      (if f x \<in> f ` set rs then (if P (f x) then count (mset rs) x else 0) else 0)"
    by (simp add: count_sum)
  also have "\<dots> = count (mset (filter (\<lambda>r. P (f r)) rs)) x" by (auto simp: count_eq_zero_iff)
  finally show "count (\<Sum>k \<in> f ` set rs. mset (if P k then filter (\<lambda>r. f r = k) rs else [])) x =
      count (mset (filter (\<lambda>r. P (f r)) rs)) x" .
qed

lemma listing_sum:
  assumes "\<And>k. k \<in> K \<Longrightarrow> mget dir (nm k) = Some (F k)" and "inj_on nm K" and "finite K"
    and "\<And>n f. mget dir n = Some f \<Longrightarrow> n \<notin> nm ` K \<Longrightarrow> h (n, f) = []"
    and "\<And>k. k \<in> K \<Longrightarrow> h (nm k, F k) = G k"
  shows "mset (concat (map h (entries dir))) = (\<Sum>k \<in> K. mset (G k))"
proof -
  let ?e = "\<lambda>k. (nm k, F k)"
  have "mset (concat (map h (entries dir))) = (\<Sum>e \<leftarrow> entries dir. mset (h e))"
    by (simp add: mset_concat comp_def)
  also have "\<dots> = (\<Sum>e \<in> set (entries dir). mset (h e))"
    by (rule sum_list_distinct_conv_sum_set) (rule entries_distinct_pairs)
  also have "\<dots> = (\<Sum>e \<in> ?e ` K. mset (h e))"
  proof (rule sum.mono_neutral_right)
    show "?e ` K \<subseteq> set (entries dir)" using assms(1) by (auto simp: mget_entries)
    show "\<forall>e \<in> set (entries dir) - ?e ` K. mset (h e) = {#}"
    proof
      fix e assume e: "e \<in> set (entries dir) - ?e ` K"
      then have g: "mget dir (fst e) = Some (snd e)" by (simp add: mget_entries)
      have "fst e \<notin> nm ` K"
      proof
        assume "fst e \<in> nm ` K"
        then obtain k where k: "k \<in> K" "fst e = nm k" by blast
        then have "snd e = F k" using assms(1) [OF k(1)] g by simp
        then have "e = ?e k" using k(2) by (metis prod.collapse)
        then show False using e k(1) by blast
      qed
      then show "mset (h e) = {#}" using assms(4) [OF g] by simp
    qed
  qed simp
  also have "\<dots> = (\<Sum>k \<in> K. mset (h (?e k)))"
    by (rule sum.reindex [unfolded comp_def]) (use assms(2) in \<open>auto simp: inj_on_def\<close>)
  also have "\<dots> = (\<Sum>k \<in> K. mset (G k))" using assms(5) by simp
  finally show ?thesis .
qed

definition readable :: "read_io \<Rightarrow> bool" where
  "readable io \<longleftrightarrow> \<not> R_list_fails io \<and> (\<forall>n. \<not> R_stat_fails io n \<and> \<not> R_read_fails io n)"

text \<open>
  The spool holds one journal's windows: each window of \<open>records\<close> has its file, which decodes
  to the payload of that window's records, and no other file of the journal is of a window
  that is still open.
\<close>

definition holds ::
    "(string \<Rightarrow> 'r journalPayload option) \<Rightarrow> string \<Rightarrow> string \<Rightarrow> ('r \<Rightarrow> windowKey) \<Rightarrow> time \<Rightarrow> 'r list \<Rightarrow> spool_dir \<Rightarrow> bool" where
  "holds decode prefix kind windowOf now records dir \<longleftrightarrow>
     (\<forall>k \<in> windowOf ` set records. nameable k \<and>
        (\<exists>f source t. mget dir (journalWindowName prefix k) = Some f \<and> \<not> F_isDir f \<and> int (length (F_data f)) \<le> maxRecoveryBytes \<and>
           decode (F_data f) = Some (journal_payload kind source t k (filter (\<lambda>r. windowOf r = k) records)))) \<and>
     (\<forall>n k. mget dir n \<noteq> None \<and> parseWindowName (TrimSuffix n ''.json'') prefix = Some k \<and> now < windowKey_end k \<longrightarrow>
        n \<in> journalWindowName prefix ` windowOf ` set records)"

lemma TrimSuffix_journal: "TrimSuffix (journalWindowName prefix k) ''.json'' = prefix @ window_digits k"
  using TrimSuffix_append [of "prefix @ window_digits k" "''.json''"] by (simp add: journalWindowName_def)

lemma HasSuffix_journal: "HasSuffix (journalWindowName prefix k) ''.json''"
  using HasSuffix_append [of "prefix @ window_digits k" "''.json''"] by (simp add: journalWindowName_def)

lemma HasPrefix_journal: "HasPrefix (journalWindowName prefix k) prefix"
  by (simp add: journalWindowName_def)

lemma journalWindowName_inj_on: "\<forall>k \<in> K. nameable k \<Longrightarrow> inj_on (journalWindowName prefix) K"
  by (auto simp: inj_on_def journalWindowName_def intro: window_digits_inj)

lemma resumed_window:
  assumes "readable io" and "nameable k" and "mget dir (journalWindowName prefix k) = Some f" and "\<not> F_isDir f"
    and "int (length (F_data f)) \<le> maxRecoveryBytes"
    and "decode (F_data f) = Some (journal_payload kind source t k rs)" and "\<forall>r \<in> set rs. windowOf r = k"
  shows "resumed decode io dir prefix kind now windowOf (journalWindowName prefix k, f) = (if now < windowKey_end k then rs else [])"
proof -
  have "readJournalWindow decode io dir (journalWindowName prefix k) kind k windowOf = Inr rs"
    using assms by (auto simp: readJournalWindow_def readRecoverable_def readable_def journal_payload_def list_ex_iff)
  then show ?thesis
    using assms(2,4)
    by (simp add: resumed_def found_def resumeInto_def TrimSuffix_journal HasSuffix_journal HasPrefix_journal parse_nameable)
qed

lemma resumed_holds:
  assumes "readable io" and "holds decode prefix kind windowOf now records dir"
  shows "mset (concat (map (resumed decode io dir prefix kind now windowOf) (entries dir))) =
    mset (filter (\<lambda>r. now < windowKey_end (windowOf r)) records)"
proof -
  let ?K = "windowOf ` set records"
  let ?rs = "\<lambda>k. filter (\<lambda>r. windowOf r = k) records"
  let ?F = "\<lambda>k. the (mget dir (journalWindowName prefix k))"
  have win: "nameable k \<and> (\<exists>source t. mget dir (journalWindowName prefix k) = Some (?F k) \<and> \<not> F_isDir (?F k) \<and>
      int (length (F_data (?F k))) \<le> maxRecoveryBytes \<and> decode (F_data (?F k)) = Some (journal_payload kind source t k (?rs k)))"
    if "k \<in> ?K" for k using assms(2) that unfolding holds_def by fastforce
  have "mset (concat (map (resumed decode io dir prefix kind now windowOf) (entries dir))) =
      (\<Sum>k \<in> ?K. mset (if now < windowKey_end k then ?rs k else []))"
  proof (rule listing_sum [where nm = "journalWindowName prefix" and F = ?F])
    show "inj_on (journalWindowName prefix) ?K" using win by (intro journalWindowName_inj_on) blast
    show "resumed decode io dir prefix kind now windowOf (journalWindowName prefix k, ?F k) =
        (if now < windowKey_end k then ?rs k else [])" if "k \<in> ?K" for k
      using win [OF that] by (elim conjE exE, intro resumed_window [OF assms(1)]) auto
    show "resumed decode io dir prefix kind now windowOf (n, f) = []"
      if "mget dir n = Some f" "n \<notin> journalWindowName prefix ` ?K" for n f
    proof -
      have "parseWindowName (TrimSuffix n ''.json'') prefix = None \<or>
          (\<exists>k. parseWindowName (TrimSuffix n ''.json'') prefix = Some k \<and> \<not> now < windowKey_end k)"
        using assms(2) that unfolding holds_def by (metis not_None_eq option.simps(3))
      then show ?thesis by (auto simp: resumed_def found_def resumeInto_def)
    qed
  qed (use win in auto)
  then show ?thesis by (simp only: sum_windows)
qed

text \<open>
  Restart recovery of the journals: where the spool holds the windows a journal wrote, in
  files the decoder reads back, the startup read returns exactly that journal's records of
  the windows that are still open at the restart, each of them once, for every one of the
  seven journals.
\<close>

lemma journals_recovered:
  assumes "RecoverOpenWindows ds io now s = (s', Inr rec)" and "readable io"
    and "holds (D_restarts ds) restartsNamePrefix kindContainerRestarts restart_window now rs (Sp_dir s)"
    and "holds (D_disruptions ds) disruptionsNamePrefix kindPodDisruptions disruption_window now dis (Sp_dir s)"
    and "holds (D_nodes ds) nodeLifecycleNamePrefix kindNodeLifecycle node_event_window now ns (Sp_dir s)"
    and "holds (D_jobs ds) jobRunsNamePrefix kindJobRuns job_window now js (Sp_dir s)"
    and "holds (D_goroutines ds) goroutineCountsNamePrefix kindGoroutineCounts goroutine_window now gs (Sp_dir s)"
    and "holds (D_states ds) agentStatesNamePrefix kindAgentStates state_window now ss (Sp_dir s)"
    and "holds (D_counters ds) agentCountersNamePrefix kindAgentCounters counter_window now cs (Sp_dir s)"
  shows "mset (Rec_Restarts rec) = mset (filter (\<lambda>r. now < windowKey_end (restart_window r)) rs) \<and>
    mset (Rec_Disruptions rec) = mset (filter (\<lambda>r. now < windowKey_end (disruption_window r)) dis) \<and>
    mset (Rec_NodeEvents rec) = mset (filter (\<lambda>r. now < windowKey_end (node_event_window r)) ns) \<and>
    mset (Rec_JobRuns rec) = mset (filter (\<lambda>r. now < windowKey_end (job_window r)) js) \<and>
    mset (Rec_GoroutineCounts rec) = mset (filter (\<lambda>r. now < windowKey_end (goroutine_window r)) gs) \<and>
    mset (Rec_AgentStates rec) = mset (filter (\<lambda>r. now < windowKey_end (state_window r)) ss) \<and>
    mset (Rec_AgentCounters rec) = mset (filter (\<lambda>r. now < windowKey_end (counter_window r)) cs)"
  unfolding recovered(2-8) [OF assms(1)]
  by (intro conjI resumed_holds [OF assms(2)] assms)

section \<open>Usage snapshots\<close>

lemma record_window_as_decoded [simp]: "record_window (as_decoded r) = record_window r"
  by (simp add: record_window_def)

lemma filter_as_decoded:
  "filter (\<lambda>r. record_window r = k) (map as_decoded rs) = map as_decoded (filter (\<lambda>r. record_window r = k) rs)"
  by (simp add: filter_map comp_def)

lemma snapshot_parse: "nameable k \<Longrightarrow> parseWindowName (TrimSuffix (snapshot_name k) usageSnapshotSuffix) usageNamePrefix = Some k"
  unfolding snapshot_name_def windowKey_name_def TrimSuffix_append by (rule parse_nameable)

lemma usage_resumed_window:
  assumes "readable io" and "nameable k" and "mget dir (snapshot_name k) = Some f" and "\<not> F_isDir f"
    and "int (length (F_data f)) \<le> maxRecoveryBytes" and "mget dir (closed_name k) = None"
    and "D_usage ds (F_data f) = Some (usage_payload kindUsageSnapshot obs k (map Some rs))"
    and "\<forall>r \<in> set rs. record_window r = k"
  shows "usage_resumed ds io dir now (snapshot_name k, f) = (if now < windowKey_end k then rs else [])"
proof -
  have "readUsageSnapshot ds io dir (snapshot_name k) k = Inr rs"
    using assms
    by (auto simp: readUsageSnapshot_def readRecoverable_def readable_def usage_payload_def list_ex_iff comp_def)
  moreover have "HasSuffix (snapshot_name k) usageSnapshotSuffix" by (simp add: snapshot_name_def)
  ultimately show ?thesis
    using assms(2,4,6)
    by (simp add: usage_resumed_def recover_usage_def snapshot_parse emptyRecovery_def)
qed

lemma usage_resumed_none:
  assumes "\<not> HasSuffix n usageSnapshotSuffix \<or>
    (\<forall>k. parseWindowName (TrimSuffix n usageSnapshotSuffix) usageNamePrefix = Some k \<longrightarrow> \<not> now < windowKey_end k)"
  shows "usage_resumed ds io dir now (n, f) = []"
  using assms by (auto simp: usage_resumed_def recover_usage_def emptyRecovery_def split: option.splits)

definition snapshot_bytes :: "('fp, ('o, 'x) payload) world \<Rightarrow> 'o \<Rightarrow> Histogram Record list \<Rightarrow> windowKey \<Rightarrow> string" where
  "snapshot_bytes w obs records k = F_data (file_at w (snapshot_name k)
     (UsagePayload (usage_payload kindUsageSnapshot obs k (filter (\<lambda>r. record_window r = k) records))))"

text \<open>
  Restart recovery of usage: after \<open>WriteUsageSnapshot\<close> has written the records of the open
  windows without a fault, a startup read whose decoder reads those payloads back returns
  exactly the records of the windows that are still open at the restart, each of them once,
  whatever else the spool holds.
\<close>

lemma usage_snapshots_recovered:
  fixes w :: "('fp, ('o, 'x) payload) world"
  assumes "faultless w" and "permutes_keys w" and "\<And>p. marshalIndent w p \<noteq> None"
    and "\<forall>r \<in> set records. nameable (record_window r)"
    and "WriteUsageSnapshot w records obs s = (s1, None)"
    and "\<forall>r \<in> set records. mget (Sp_dir s) (closed_name (record_window r)) = None"
    and "\<forall>n k. mget (Sp_dir s) n \<noteq> None \<and> HasSuffix n usageSnapshotSuffix \<and> now < windowKey_end k \<and>
        parseWindowName (TrimSuffix n usageSnapshotSuffix) usageNamePrefix = Some k \<longrightarrow>
        n \<in> snapshot_name ` record_window ` set records"
    and "\<forall>k \<in> record_window ` set records. int (length (snapshot_bytes w obs records k)) \<le> maxRecoveryBytes \<and>
        D_usage ds (snapshot_bytes w obs records k) = Some (usage_payload kindUsageSnapshot obs k
          (map (\<lambda>r. Some (as_decoded r)) (filter (\<lambda>r. record_window r = k) records)))"
    and "readable io" and "RecoverOpenWindows ds io now s1 = (s2, Inr rec)"
  shows "mset (Rec_Records rec) = mset (map as_decoded (filter (\<lambda>r. now < windowKey_end (record_window r)) records))"
proof -
  let ?K = "record_window ` set records"
  let ?mk = "\<lambda>k recs. UsagePayload (usage_payload kindUsageSnapshot obs k recs)"
  let ?F = "\<lambda>k. file_at w (snapshot_name k) (?mk k (filter (\<lambda>r. record_window r = k) records))"
  let ?rs = "\<lambda>k. filter (\<lambda>r. record_window r = k) (map as_decoded records)"
  obtain t where t: "WriteUsageSnapshot w records obs s = (t, None)"
    "\<forall>k \<in> ?K. mget (Sp_dir t) (snapshot_name k) = Some (?F k)"
    "\<forall>n. (\<forall>k \<in> ?K. n \<noteq> snapshot_name k \<and> n \<noteq> tmp_name (snapshot_name k)) \<longrightarrow> mget (Sp_dir t) n = mget (Sp_dir s) n"
    using snapshot_kind.windows_written [OF assms(1,2,3), of records record_window ?mk s] assms(4)
    unfolding WriteUsageSnapshot_def by blast
  then have dir: "t = s1" using assms(5) by simp
  have closed: "mget (Sp_dir s1) (closed_name k) = None" if "k \<in> ?K" for k
    using t(3) [unfolded dir] that assms(6) closed_not_snapshot usage_kind.published tmp_name_suffix by (metis image_iff)
  have "mset (concat (map (usage_resumed ds io (Sp_dir s1) now) (entries (Sp_dir s1)))) =
      (\<Sum>k \<in> ?K. mset (if now < windowKey_end k then ?rs k else []))"
  proof (rule listing_sum [where nm = snapshot_name and F = ?F])
    show "inj_on snapshot_name ?K" using assms(4) by (auto simp: inj_on_def intro: snapshot_kind.injective)
    show "usage_resumed ds io (Sp_dir s1) now (snapshot_name k, ?F k) = (if now < windowKey_end k then ?rs k else [])"
      if k: "k \<in> ?K" for k
    proof (rule usage_resumed_window [OF assms(9)])
      show "D_usage ds (F_data (?F k)) = Some (usage_payload kindUsageSnapshot obs k (map Some (?rs k)))"
        using bspec [OF assms(8) k] unfolding snapshot_bytes_def filter_as_decoded by (simp only: map_map comp_def)
      show "int (length (F_data (?F k))) \<le> maxRecoveryBytes" using assms(8) k unfolding snapshot_bytes_def by blast
    qed (use k t(2) dir closed assms(4) in \<open>auto simp: file_at_def landed_def\<close>)
    show "usage_resumed ds io (Sp_dir s1) now (n, f) = []" if n: "mget (Sp_dir s1) n = Some f" "n \<notin> snapshot_name ` ?K" for n f
    proof (cases "n \<in> (\<lambda>k. tmp_name (snapshot_name k)) ` ?K")
      case True
      have "\<not> HasSuffix (tmp_name m) usageSnapshotSuffix" for m
        by (simp add: HasSuffix_def tmp_name_def usageSnapshotSuffix_def)
      then show ?thesis using True usage_resumed_none by blast
    next
      case False
      then have "\<forall>k \<in> ?K. n \<noteq> snapshot_name k \<and> n \<noteq> tmp_name (snapshot_name k)" using n(2) by blast
      then have "mget (Sp_dir s) n = Some f" using t(3) n(1) dir by simp
      then show ?thesis using assms(7) n(2) by (intro usage_resumed_none) blast
    qed
  qed (use t(2) dir in auto)
  moreover have "?K = record_window ` set (map as_decoded records)" by (simp add: image_image)
  ultimately have "mset (Rec_Records rec) = mset (filter (\<lambda>r. now < windowKey_end (record_window r)) (map as_decoded records))"
    unfolding recovered(1) [OF assms(10)] by (simp only: sum_windows)
  then show ?thesis by (simp add: filter_map comp_def)
qed

section \<open>A restart, evaluated\<close>

definition hour_window :: windowKey where
  "hour_window = \<lparr>wk_start = epoch, wk_seconds = 3600\<rparr>"

definition web_record :: "Histogram Record" where
  "web_record = newRecord (Key ''ns'' ''Deployment'' ''web'' ''app'') epoch 3600"

definition demo_decoders :: "unit decoders" where
  "demo_decoders =
     \<lparr>D_usage = (\<lambda>_. Some (usage_payload kindUsageSnapshot () hour_window [Some (as_decoded web_record)])),
      D_restarts = (\<lambda>_. None), D_disruptions = (\<lambda>_. None), D_nodes = (\<lambda>_. None), D_jobs = (\<lambda>_. None),
      D_goroutines = (\<lambda>_. None), D_states = (\<lambda>_. None),
      D_counters = (\<lambda>_. Some (journal_payload kindAgentCounters SourceAgent 9 hour_window [one_counter]))\<rparr>"

definition no_read_faults :: read_io where
  "no_read_faults = \<lparr>R_list_fails = False, R_stat_fails = (\<lambda>_. False), R_read_fails = (\<lambda>_. False)\<rparr>"

definition counter_spool :: "string Spool" where
  "counter_spool = empty_spool\<lparr>Sp_dir := mput (journalWindowName agentCountersNamePrefix hour_window)
     \<lparr>F_data = ''{}'', F_modTime = 7, F_isDir = False\<rparr> mempty\<rparr>"

lemma demo_facts:
  "readable no_read_faults" "nameable hour_window" "counter_window one_counter = hour_window"
  "record_window web_record = hour_window" "windowKey_end hour_window = epoch + 3600 * second"
  using nameable_epoch
  by (simp_all add: readable_def no_read_faults_def hour_window_def counter_window_def one_counter_def record_window_def
      web_record_def newRecord_def windowKey_end_def wrap64_id int64_def minInt64_def maxInt64_def second_def)

lemma Recover_succeeds: "readable io \<Longrightarrow> \<exists>s' rec. RecoverOpenWindows ds io now s = (s', Inr rec)"
  by (simp add: RecoverOpenWindows_def readable_def Let_def)


lemma holds_nothing:
  assumes "CutPrefix (agentCountersNamePrefix @ window_digits hour_window) prefix = None"
  shows "holds decode prefix kind windowOf now [] (Sp_dir counter_spool)"
  using assms by (simp add: holds_def counter_spool_def TrimSuffix_journal parseWindowName_def)

end
