(* ===== verification/UsagePoller.thy ===== *)
theory UsagePoller
  imports Accumulator Network JournalBase GoStrings
begin

text \<open>
  The usage poller of \<open>internal/collector/usage.go\<close> and \<open>cadvisor.go\<close>: the counter baselines of
  containers and pods, the rules that turn cumulative readings into deltas, the resumption of
  windows after a restart, and the flush of closed and open windows.

  What a kubelet answered is an argument: the fields of a stats summary the agent reads, with
  absent ones as \<^const>\<open>None\<close>, and the throttling samples parsed from the cAdvisor exposition.
  \<open>uint64\<close> counters are natural numbers below \<open>2 ^ 64\<close>. The pod watcher behind \<open>PodResolver\<close>
  is an argument too. What the callbacks are handed is the result of \<open>flush\<close>.
\<close>

section \<open>Definitions\<close>

definition usagePollInterval :: duration where "usagePollInterval = 30 * second"
definition UsageWindowLength :: duration where "UsageWindowLength = hour"
definition staleTrackerAfter :: duration where "staleTrackerAfter = 5 * minute"

type_synonym uid = string
type_synonym trackerKey = "uid \<times> string"

record PodResolver =
  LookupPod :: "uid \<Rightarrow> (string \<times> WorkloadRef) option"
  HostNetworkOf :: "uid \<Rightarrow> bool"
  LookupPodByName :: "string \<Rightarrow> string \<Rightarrow> (uid \<times> WorkloadRef) option"

text \<open>The parts of the kubelet's stats the poller reads.\<close>

record CPUStats =
  St_UsageCoreNanoSeconds :: "nat option"
  St_CPUTime :: time
  St_CPUPSI :: "nat option"

record MemoryStats =
  St_WorkingSetBytes :: "nat option"
  St_MemTime :: time
  St_MemPSI :: "nat option"

record ContainerStats =
  St_Name :: string
  St_StartTime :: time
  St_CPU :: "CPUStats option"
  St_Memory :: "MemoryStats option"

record InterfaceStats =
  If_RxBytes :: "nat option"
  If_TxBytes :: "nat option"
  If_RxErrors :: "nat option"
  If_TxErrors :: "nat option"

record NetworkStats =
  Ns_Time :: time
  Ns_Default :: InterfaceStats
  Ns_Interfaces :: "InterfaceStats list"

record PodStats =
  Ps_UID :: uid
  Ps_Containers :: "ContainerStats list"
  Ps_Network :: "NetworkStats option"

record counterState =
  cs_cpuTime :: time
  cs_cpuCounter :: nat
  cs_cpuPSI :: nat
  cs_memTime :: time
  cs_memPSI :: nat
  cs_lastSeen :: time

record throttleState =
  th_ts :: time
  th_throttled :: nat
  th_periods :: nat
  th_lastSeen :: time

record netCounterState =
  nc_at :: time
  nc_rxBytes :: nat
  nc_txBytes :: nat
  nc_rxErrors :: nat
  nc_txErrors :: nat
  nc_lastSeen :: time

definition zeroCounterState :: counterState where
  "zeroCounterState = \<lparr>cs_cpuTime = 0, cs_cpuCounter = 0, cs_cpuPSI = 0, cs_memTime = 0, cs_memPSI = 0, cs_lastSeen = 0\<rparr>"

definition zeroThrottleState :: throttleState where
  "zeroThrottleState = \<lparr>th_ts = 0, th_throttled = 0, th_periods = 0, th_lastSeen = 0\<rparr>"

definition zeroNetState :: netCounterState where
  "zeroNetState = \<lparr>nc_at = 0, nc_rxBytes = 0, nc_txBytes = 0, nc_rxErrors = 0, nc_txErrors = 0, nc_lastSeen = 0\<rparr>"

record cadvisorKey =
  Ck_namespace :: string
  Ck_pod :: string
  Ck_container :: string

record cadvisorSample =
  Cs_throttled :: nat
  Cs_periods :: nat
  Cs_hasThrottled :: bool
  Cs_hasPeriods :: bool
  Cs_ts :: time
  Cs_start :: time

datatype KubeletPath = PathStatsSummary | PathMetricsCadvisor

record pathCounts =
  Pc_attempted :: int
  Pc_failed :: int

record UsagePoller =
  P_acc :: Accumulator
  P_netAcc :: NetworkAccumulator
  P_tracker :: "(trackerKey, counterState) gomap"
  P_throttle :: "(trackerKey, throttleState) gomap"
  P_netTracker :: "(uid, netCounterState) gomap"
  P_resumedKeys :: "(Key, unit) gomap"
  P_resumedUntil :: time
  P_signals :: "(string, bool) gomap"
  P_polls :: "KubeletPath \<Rightarrow> pathCounts"

definition NewUsagePoller :: UsagePoller where
  "NewUsagePoller =
     \<lparr>P_acc = the (NewAccumulator UsageWindowLength), P_netAcc = the (NewNetworkAccumulator UsageWindowLength),
      P_tracker = mempty, P_throttle = mempty, P_netTracker = mempty, P_resumedKeys = mempty, P_resumedUntil = 0,
      P_signals = mempty, P_polls = (\<lambda>_. \<lparr>Pc_attempted = 0, Pc_failed = 0\<rparr>)\<rparr>"

definition clampToInt64 :: "nat \<Rightarrow> int" where
  "clampToInt64 v = (if int v > maxInt64 then maxInt64 else int v)"

text \<open>\<open>Seed\<close>; the errors of the records the accumulator refused are its second result.\<close>

definition seed_record ::
    "(Histogram option) Record \<Rightarrow> UsagePoller \<times> rollup_error list \<Rightarrow> UsagePoller \<times> rollup_error list" where
  "seed_record r st =
     (let p = fst st; errs = snd st in
      case Seed r (P_acc p) of
        (a, Some err) \<Rightarrow> (p\<lparr>P_acc := a\<rparr>, errs @ [err])
      | (a, None) \<Rightarrow>
          let p = p\<lparr>P_acc := a, P_resumedKeys := mput (Record_Key r) () (P_resumedKeys p)\<rparr>;
              fin = Record_WindowStart r + wrap64 (Record_WindowSeconds r * second)
          in (if fin > P_resumedUntil p then p\<lparr>P_resumedUntil := fin\<rparr> else p, errs))"

definition Poller_Seed :: "(Histogram option) Record list \<Rightarrow> UsagePoller \<Rightarrow> UsagePoller \<times> rollup_error list" where
  "Poller_Seed records p = fold seed_record records (p, [])"

definition attributableFromStart :: "Key \<Rightarrow> UsagePoller \<Rightarrow> bool" where
  "attributableFromStart k p \<longleftrightarrow> mget (P_resumedKeys p) k = None"

definition signalsLocked :: "UsagePoller \<Rightarrow> string list" where
  "signalsLocked p = sort_slice (<) (map fst (filter snd (entries (P_signals p))))"

record Observation =
  Ob_PollIntervalSeconds :: int
  Ob_PollsAttempted :: int
  Ob_PollsFailed :: int
  Ob_Signals :: "string list"

definition KubeletPaths :: "KubeletPath list" where
  "KubeletPaths = [PathStatsSummary, PathMetricsCadvisor]"

definition Poller_Observation :: "UsagePoller \<Rightarrow> Observation" where
  "Poller_Observation p =
     \<lparr>Ob_PollIntervalSeconds = usagePollInterval sdiv second,
      Ob_PollsAttempted = fold (\<lambda>path n. add64 n (Pc_attempted (P_polls p path))) KubeletPaths 0,
      Ob_PollsFailed = fold (\<lambda>path n. add64 n (Pc_failed (P_polls p path))) KubeletPaths 0,
      Ob_Signals = signalsLocked p\<rparr>"

record PathReads =
  Pr_Path :: KubeletPath
  Pr_Attempted :: int
  Pr_Failed :: int

definition Poller_PathReads :: "UsagePoller \<Rightarrow> PathReads list" where
  "Poller_PathReads p =
     map (\<lambda>path. \<lparr>Pr_Path = path, Pr_Attempted = Pc_attempted (P_polls p path), Pr_Failed = Pc_failed (P_polls p path)\<rparr>) KubeletPaths"

definition markSignal :: "string \<Rightarrow> UsagePoller \<Rightarrow> UsagePoller" where
  "markSignal name p = p\<lparr>P_signals := mput name True (P_signals p)\<rparr>"

definition countPoll :: "KubeletPath \<Rightarrow> bool \<Rightarrow> UsagePoller \<Rightarrow> UsagePoller" where
  "countPoll path failed p =
     (let c = P_polls p path; c = c\<lparr>Pc_attempted := add64 (Pc_attempted c) 1\<rparr>;
          c = (if failed then c\<lparr>Pc_failed := add64 (Pc_failed c) 1\<rparr> else c)
      in p\<lparr>P_polls := (P_polls p)(path := c)\<rparr>)"

definition observeCPU :: "Key \<Rightarrow> time \<Rightarrow> time \<Rightarrow> nat \<Rightarrow> UsagePoller \<Rightarrow> UsagePoller" where
  "observeCPU key from to coreNanos p =
     (if \<not> to > from then p else p\<lparr>P_acc := ObserveCPUDelta key from to (clampToInt64 coreNanos) (P_acc p)\<rparr>)"

definition observeCPUPSI :: "nat option \<Rightarrow> Key \<Rightarrow> time \<Rightarrow> time \<Rightarrow> nat \<Rightarrow> UsagePoller \<Rightarrow> UsagePoller" where
  "observeCPUPSI psi key from to stallNanos p =
     (if psi = None \<or> \<not> to > from then p
      else p\<lparr>P_acc := ObserveCPUPSI key from to (clampToInt64 stallNanos) (P_acc p)\<rparr>)"

text \<open>The two halves of \<open>ingestContainer\<close>: the state is read, and written back at the end.\<close>

definition ingest_cpu ::
    "Key \<Rightarrow> ContainerStats \<Rightarrow> counterState \<Rightarrow> UsagePoller \<Rightarrow> counterState \<times> UsagePoller" where
  "ingest_cpu key c st p =
     (case St_CPU c of
        None \<Rightarrow> (st, p)
      | Some cpu \<Rightarrow>
          case St_UsageCoreNanoSeconds cpu of
            None \<Rightarrow> (st, p)
          | Some counter \<Rightarrow>
              let p = markSignal ''cpu'' p; at = St_CPUTime cpu;
                  p = (if St_CPUPSI cpu \<noteq> None then markSignal ''psi'' p else p);
                  psi = (case St_CPUPSI cpu of None \<Rightarrow> 0 | Some n \<Rightarrow> n);
                  rebased = st\<lparr>cs_cpuTime := at, cs_cpuCounter := counter, cs_cpuPSI := psi\<rparr> in
              if IsZero (cs_cpuTime st) then
                (rebased,
                 if attributableFromStart key p then
                   observeCPUPSI (St_CPUPSI cpu) key (St_StartTime c) at psi (observeCPU key (St_StartTime c) at counter p)
                 else p)
              else if \<not> at > cs_cpuTime st then (st, p)
              else if counter < cs_cpuCounter st \<or> psi < cs_cpuPSI st then (rebased, p)
              else
                (rebased,
                 observeCPUPSI (St_CPUPSI cpu) key (cs_cpuTime st) at (psi - cs_cpuPSI st)
                   (observeCPU key (cs_cpuTime st) at (counter - cs_cpuCounter st) p)))"

definition ingest_memory ::
    "Key \<Rightarrow> ContainerStats \<Rightarrow> counterState \<Rightarrow> UsagePoller \<Rightarrow> counterState \<times> UsagePoller" where
  "ingest_memory key c st p =
     (case St_Memory c of
        None \<Rightarrow> (st, p)
      | Some mem \<Rightarrow>
          case St_WorkingSetBytes mem of
            None \<Rightarrow> (st, p)
          | Some bytes \<Rightarrow>
              let p = markSignal ''memory'' p; at = St_MemTime mem;
                  p = (if St_MemPSI mem \<noteq> None then markSignal ''psi'' p else p);
                  psi = (case St_MemPSI mem of None \<Rightarrow> 0 | Some n \<Rightarrow> n) in
              if \<not> at > cs_memTime st then (st, p)
              else
                let p = p\<lparr>P_acc := ObserveMemory key at (clampToInt64 bytes) (P_acc p)\<rparr>;
                    first = IsZero (cs_memTime st);
                    from = (if first then St_StartTime c else cs_memTime st);
                    delta = (if first then psi else psi - cs_memPSI st);
                    p = (if St_MemPSI mem \<noteq> None \<and> psi \<ge> cs_memPSI st \<and> (\<not> first \<or> attributableFromStart key p) \<and> at > from
                         then p\<lparr>P_acc := ObserveMemoryPSI key from at (clampToInt64 delta) (P_acc p)\<rparr> else p)
                in (st\<lparr>cs_memTime := at, cs_memPSI := psi\<rparr>, p))"

definition ingestContainer :: "trackerKey \<Rightarrow> Key \<Rightarrow> ContainerStats \<Rightarrow> time \<Rightarrow> UsagePoller \<Rightarrow> UsagePoller" where
  "ingestContainer tk key c now p =
     (let st = mget_or zeroCounterState (P_tracker p) tk; st = st\<lparr>cs_lastSeen := now\<rparr>;
          (st, p) = ingest_cpu key c st p;
          (st, p) = ingest_memory key c st p
      in p\<lparr>P_tracker := mput tk st (P_tracker p)\<rparr>)"

definition interfacesOf :: "NetworkStats \<Rightarrow> InterfaceStats list" where
  "interfacesOf net = (if Ns_Interfaces net \<noteq> [] then Ns_Interfaces net else [Ns_Default net])"

definition deref :: "nat option \<Rightarrow> nat" where
  "deref v = (case v of None \<Rightarrow> 0 | Some n \<Rightarrow> n)"

definition sum_field :: "(InterfaceStats \<Rightarrow> nat option) \<Rightarrow> InterfaceStats list \<Rightarrow> nat" where
  "sum_field f ifaces = fold (\<lambda>i n. addu64 n (deref (f i))) ifaces 0"

definition ingestNetwork ::
    "PodResolver \<Rightarrow> uid \<Rightarrow> NetworkKey \<Rightarrow> NetworkStats option \<Rightarrow> time \<Rightarrow> UsagePoller \<Rightarrow> UsagePoller" where
  "ingestNetwork pods u key network now p =
     (case network of
        None \<Rightarrow> p
      | Some net \<Rightarrow>
          let p = markSignal ''network'' p;
              ifaces = filter (\<lambda>i. \<not> (If_RxBytes i = None \<and> If_TxBytes i = None)) (interfacesOf net);
              rx = sum_field If_RxBytes ifaces; tx = sum_field If_TxBytes ifaces;
              rxErr = sum_field If_RxErrors ifaces; txErr = sum_field If_TxErrors ifaces in
          if ifaces = [] then p
          else
            let at = Ns_Time net; st = (mget_or zeroNetState (P_netTracker p) u)\<lparr>nc_lastSeen := now\<rparr>;
                rebase = (\<lambda>p. p\<lparr>P_netTracker := mput u (st\<lparr>nc_at := at, nc_rxBytes := rx, nc_txBytes := tx,
                  nc_rxErrors := rxErr, nc_txErrors := txErr\<rparr>) (P_netTracker p)\<rparr>) in
            if IsZero (nc_at st) then rebase p
            else if \<not> at > nc_at st then p\<lparr>P_netTracker := mput u st (P_netTracker p)\<rparr>
            else if rx < nc_rxBytes st \<or> tx < nc_txBytes st \<or> rxErr < nc_rxErrors st \<or> txErr < nc_txErrors st then rebase p
            else rebase (p\<lparr>P_netAcc := Network_Observe key (nc_at st) at
              \<lparr>Delta_RxBytes = clampToInt64 (rx - nc_rxBytes st), Delta_TxBytes = clampToInt64 (tx - nc_txBytes st),
               Delta_RxErrors = clampToInt64 (rxErr - nc_rxErrors st), Delta_TxErrors = clampToInt64 (txErr - nc_txErrors st),
               Delta_Interfaces = int (length ifaces)\<rparr> (HostNetworkOf pods u) (P_netAcc p)\<rparr>))"

definition ingest_pod :: "PodResolver \<Rightarrow> time \<Rightarrow> PodStats \<Rightarrow> UsagePoller \<Rightarrow> UsagePoller" where
  "ingest_pod pods now pod p =
     (case LookupPod pods (Ps_UID pod) of
        None \<Rightarrow> p
      | Some (namespace, workload) \<Rightarrow>
          let p = fold (\<lambda>c. ingestContainer (Ps_UID pod, St_Name c)
                    (Key namespace (Ref_Kind workload) (Ref_Name workload) (St_Name c)) c now) (Ps_Containers pod) p
          in ingestNetwork pods (Ps_UID pod) (NetworkKey namespace (Ref_Kind workload) (Ref_Name workload)) (Ps_Network pod) now p)"

definition ingest :: "PodResolver \<Rightarrow> PodStats list \<Rightarrow> time \<Rightarrow> UsagePoller \<Rightarrow> UsagePoller" where
  "ingest pods summary now p = fold (ingest_pod pods now) summary p"

text \<open>One sample of \<open>ingestCadvisor\<close>; the samples come in the order the map is visited in.\<close>

definition ingest_sample :: "PodResolver \<Rightarrow> time \<Rightarrow> cadvisorKey \<times> cadvisorSample \<Rightarrow> UsagePoller \<Rightarrow> UsagePoller" where
  "ingest_sample pods now ks p =
     (let key = fst ks; sample = snd ks in
      if \<not> Cs_hasThrottled sample \<or> \<not> Cs_hasPeriods sample then p
      else case LookupPodByName pods (Ck_namespace key) (Ck_pod key) of
        None \<Rightarrow> p
      | Some (u, workload) \<Rightarrow>
          let p = markSignal ''throttling'' p;
              at = (if IsZero (Cs_ts sample) then now else Cs_ts sample);
              rk = Key (Ck_namespace key) (Ref_Kind workload) (Ref_Name workload) (Ck_container key);
              tk = (u, Ck_container key);
              st = (mget_or zeroThrottleState (P_throttle p) tk)\<lparr>th_lastSeen := now\<rparr>;
              rebase = (\<lambda>p. p\<lparr>P_throttle := mput tk (st\<lparr>th_ts := at, th_throttled := Cs_throttled sample,
                th_periods := Cs_periods sample\<rparr>) (P_throttle p)\<rparr>) in
          if IsZero (th_ts st) then
            rebase (if \<not> IsZero (Cs_start sample) \<and> at > Cs_start sample \<and> attributableFromStart rk p
              then p\<lparr>P_acc := ObserveThrottling rk (Cs_start sample) at (clampToInt64 (Cs_throttled sample))
                (clampToInt64 (Cs_periods sample)) (P_acc p)\<rparr> else p)
          else if \<not> at > th_ts st then p\<lparr>P_throttle := mput tk st (P_throttle p)\<rparr>
          else if Cs_throttled sample < th_throttled st \<or> Cs_periods sample < th_periods st then rebase p
          else rebase (p\<lparr>P_acc := ObserveThrottling rk (th_ts st) at (clampToInt64 (Cs_throttled sample - th_throttled st))
            (clampToInt64 (Cs_periods sample - th_periods st)) (P_acc p)\<rparr>))"

definition ingestCadvisor :: "PodResolver \<Rightarrow> (cadvisorKey \<times> cadvisorSample) list \<Rightarrow> time \<Rightarrow> UsagePoller \<Rightarrow> UsagePoller" where
  "ingestCadvisor pods samples now p = fold (ingest_sample pods now) samples p"

definition poller_sweep :: "time \<Rightarrow> UsagePoller \<Rightarrow> UsagePoller" where
  "poller_sweep now p =
     (let cutoff = now - staleTrackerAfter;
          p = p\<lparr>P_tracker := mfilter (\<lambda>_ st. \<not> cs_lastSeen st < cutoff) (P_tracker p),
                P_throttle := mfilter (\<lambda>_ st. \<not> th_lastSeen st < cutoff) (P_throttle p),
                P_netTracker := mfilter (\<lambda>_ st. \<not> nc_lastSeen st < cutoff) (P_netTracker p)\<rparr>
      in if P_resumedKeys p \<noteq> mempty \<and> \<not> now < P_resumedUntil p then p\<lparr>P_resumedKeys := mempty\<rparr> else p)"

text \<open>What one node's two kubelet paths returned, \<^const>\<open>None\<close> for an error.\<close>

record nodeReads =
  Nr_node :: string
  Nr_summary :: "PodStats list option"
  Nr_samples :: "(cadvisorKey \<times> cadvisorSample) list option"

definition ingest_reads :: "PodResolver \<Rightarrow> time \<Rightarrow> nodeReads \<Rightarrow> UsagePoller \<Rightarrow> UsagePoller" where
  "ingest_reads pods now r p =
     (let p = countPoll PathStatsSummary (Nr_summary r = None) p;
          p = (case Nr_summary r of None \<Rightarrow> p | Some summary \<Rightarrow> ingest pods summary now p);
          p = countPoll PathMetricsCadvisor (Nr_samples r = None) p
      in case Nr_samples r of None \<Rightarrow> p | Some samples \<Rightarrow> ingestCadvisor pods samples now p)"

definition pollOnce :: "PodResolver \<Rightarrow> nodeReads list \<Rightarrow> bool \<Rightarrow> time \<Rightarrow> UsagePoller \<Rightarrow> UsagePoller" where
  "pollOnce pods reads cancelled now p =
     (if cancelled then p else poller_sweep now (fold (ingest_reads pods now) reads p))"

record flushed =
  Fl_closed :: "Histogram Record list"
  Fl_snapshots :: "Histogram Record list"
  Fl_network :: "NetworkRecord list"

definition poller_flush :: "time \<Rightarrow> UsagePoller \<Rightarrow> flushed \<times> UsagePoller" where
  "poller_flush now p =
     (let (closed, a) = Accumulator_CloseBefore now (P_acc p);
          snaps = Accumulator_Snapshots a;
          (net, n) = Network_CloseBefore now (P_netAcc p)
      in (\<lparr>Fl_closed = closed, Fl_snapshots = snaps, Fl_network = net\<rparr>, p\<lparr>P_acc := a, P_netAcc := n\<rparr>))"

section \<open>What a reading credits\<close>

lemma markSignal_sel [simp]:
  "P_acc (markSignal s p) = P_acc p" "P_tracker (markSignal s p) = P_tracker p"
  "P_throttle (markSignal s p) = P_throttle p" "P_netTracker (markSignal s p) = P_netTracker p"
  "P_netAcc (markSignal s p) = P_netAcc p" "P_resumedKeys (markSignal s p) = P_resumedKeys p"
  by (simp_all add: markSignal_def)

lemma clampToInt64_nonneg [simp]: "0 \<le> clampToInt64 n" and clampToInt64_int64 [simp]: "int64 (clampToInt64 n)"
  by (auto simp: clampToInt64_def int64_def maxInt64_def minInt64_def)

lemma clampToInt64_id: "int n \<le> maxInt64 \<Longrightarrow> clampToInt64 n = int n"
  by (simp add: clampToInt64_def)

lemma int64_int: "int n \<le> maxInt64 \<Longrightarrow> int64 (int n)"
  by (simp add: int64_def minInt64_def)

text \<open>A counter of the CPU part of a container's records, over all open windows.\<close>

definition cpu_total :: "(Histogram CPUUsage \<Rightarrow> int) \<Rightarrow> Key \<Rightarrow> UsagePoller \<Rightarrow> int" where
  "cpu_total f key p = wrap64 (key_total (f \<circ> CPU) key (Acc_open (P_acc p)))"

text \<open>
  Between two states, \<open>n\<close> core nanoseconds, \<open>d\<close> nanoseconds of coverage and \<open>s\<close> nanoseconds of
  stall were credited to a container.
\<close>

definition credits :: "Key \<Rightarrow> int \<Rightarrow> int \<Rightarrow> int \<Rightarrow> UsagePoller \<Rightarrow> UsagePoller \<Rightarrow> bool" where
  "credits key n d s p p' \<longleftrightarrow>
     cpu_total CoreNanoseconds key p' = add64 (cpu_total CoreNanoseconds key p) n \<and>
     cpu_total CoveredNanoseconds key p' = add64 (cpu_total CoveredNanoseconds key p) d \<and>
     cpu_total CPU_PSIStallNanoseconds key p' = add64 (cpu_total CPU_PSIStallNanoseconds key p) s \<and>
     (acc_ok (P_acc p) \<longrightarrow> acc_ok (P_acc p'))"

lemma cpu_total_int64 [simp]: "int64 (cpu_total f key p)"
  by (simp add: cpu_total_def)

lemma credits_refl: "P_acc p' = P_acc p \<Longrightarrow> credits key 0 0 0 p p'"
  by (simp add: credits_def cpu_total_def)

lemma credits_trans:
  "credits key n d s p p' \<Longrightarrow> credits key n' d' s' p' p'' \<Longrightarrow> credits key (n + n') (d + d') (s + s') p p''"
  by (auto simp: credits_def add64_def int64_simps add.assoc)

lemma credits_cong: "P_acc q = P_acc p \<Longrightarrow> P_acc q' = P_acc p' \<Longrightarrow> credits key n d s p p' = credits key n d s q q'"
  by (simp add: credits_def cpu_total_def)

lemma observeCPU_credits:
  assumes "acc_ok (P_acc p)" and "from < to" and "int64 (to - from)" and "int n \<le> maxInt64"
  shows "credits key (int n) (to - from) 0 p (observeCPU key from to n p)"
  using assms acc_ok_window [OF assms(1)]
  by (simp add: credits_def cpu_total_def observeCPU_def ObserveCPUDelta_def Let_def Sub_exact total_simps
      clampToInt64_id int64_int add64_def int64_simps acc_ok_intros)

lemma observeCPUPSI_credits:
  assumes "acc_ok (P_acc p)" and "from < to" and "int64 (to - from)" and "int s \<le> maxInt64"
  shows "credits key 0 0 (if psi = None then 0 else int s) p (observeCPUPSI psi key from to s p)"
  using assms acc_ok_window [OF assms(1)]
  by (simp add: credits_def cpu_total_def observeCPUPSI_def ObserveCPUPSI_def Let_def total_simps
      clampToInt64_id int64_int add64_def int64_simps acc_ok_intros)

lemma ObserveMemory_credits: "acc_ok (P_acc p) \<Longrightarrow> credits key 0 0 0 p (p\<lparr>P_acc := ObserveMemory key at n (P_acc p)\<rparr>)"
  by (simp add: credits_def cpu_total_def ObserveMemory_def total_simps acc_ok_intros)

lemma ObserveMemoryPSI_credits:
  "acc_ok (P_acc p) \<Longrightarrow> credits key 0 0 0 p (p\<lparr>P_acc := ObserveMemoryPSI key from at n (P_acc p)\<rparr>)"
  by (simp add: credits_def cpu_total_def ObserveMemoryPSI_def Let_def total_simps acc_ok_intros)

section \<open>A container observed over several polls\<close>

text \<open>
  Reports of one container instance: started at \<open>start\<close>, its cumulative CPU counter and, where
  the kernel has PSI, its stall counter are functions of the time of the reading.
\<close>

definition stall_at :: "(time \<Rightarrow> nat) option \<Rightarrow> time \<Rightarrow> nat" where
  "stall_at stall t = (case stall of None \<Rightarrow> 0 | Some f \<Rightarrow> f t)"

definition cpu_at :: "ContainerStats \<Rightarrow> time" where
  "cpu_at c = (case St_CPU c of None \<Rightarrow> 0 | Some cpu \<Rightarrow> St_CPUTime cpu)"

definition cpu_report :: "time \<Rightarrow> (time \<Rightarrow> nat) \<Rightarrow> (time \<Rightarrow> nat) option \<Rightarrow> ContainerStats \<Rightarrow> bool" where
  "cpu_report start cnt stall c \<longleftrightarrow> St_StartTime c = start \<and> start < cpu_at c \<and> int64 (cpu_at c - start) \<and>
     int (cnt (cpu_at c)) \<le> maxInt64 \<and> int (stall_at stall (cpu_at c)) \<le> maxInt64 \<and>
     St_CPU c = Some \<lparr>St_UsageCoreNanoSeconds = Some (cnt (cpu_at c)), St_CPUTime = cpu_at c,
       St_CPUPSI = map_option (\<lambda>f. f (cpu_at c)) stall\<rparr>"

definition baseline :: "(time \<Rightarrow> nat) \<Rightarrow> (time \<Rightarrow> nat) option \<Rightarrow> time \<Rightarrow> counterState \<Rightarrow> bool" where
  "baseline cnt stall b st \<longleftrightarrow>
     cs_cpuTime st = b \<and> cs_cpuCounter st = cnt b \<and> cs_cpuPSI st = stall_at stall b"

lemma baseline_lastSeen [simp]: "baseline cnt stall b (st\<lparr>cs_lastSeen := n\<rparr>) = baseline cnt stall b st"
  by (simp add: baseline_def)

lemma stall_psi [simp]:
  "(case map_option (\<lambda>f. f t) stall of None \<Rightarrow> 0 | Some n \<Rightarrow> n) = stall_at stall t"
  by (simp add: stall_at_def split: option.splits)

lemma poll_observe_sel [simp]:
  "P_tracker (observeCPU key from to n p) = P_tracker p" "P_tracker (observeCPUPSI psi key from to s p) = P_tracker p"
  "P_resumedKeys (observeCPU key from to n p) = P_resumedKeys p"
  "P_resumedKeys (observeCPUPSI psi key from to s p) = P_resumedKeys p"
  by (simp_all add: observeCPU_def observeCPUPSI_def)

text \<open>The two observations of one reading together.\<close>

lemma observe_credits:
  assumes "acc_ok (P_acc p)" and "from < to" and "int64 (to - from)" and "int n \<le> maxInt64" and "int s \<le> maxInt64"
    and "psi = None \<Longrightarrow> s = 0" and "P_acc p0 = P_acc p"
  shows "credits key (int n) (to - from) (int s) p0 (observeCPUPSI psi key from to s (observeCPU key from to n p))"
proof -
  have c: "credits key (int n) (to - from) 0 p (observeCPU key from to n p)"
    by (rule observeCPU_credits) fact+
  have "acc_ok (P_acc (observeCPU key from to n p))" using c assms(1) by (simp add: credits_def)
  then have d: "credits key 0 0 (if psi = None then 0 else int s) (observeCPU key from to n p)
      (observeCPUPSI psi key from to s (observeCPU key from to n p))"
    by (rule observeCPUPSI_credits) fact+
  have "credits key (int n) (to - from) (int s) p
      (observeCPUPSI psi key from to s (observeCPU key from to n p))"
    using credits_trans [OF c d] assms(6) by (simp split: if_splits)
  then show ?thesis using credits_cong [OF assms(7) refl] by blast
qed

lemma ingest_cpu_report:
  assumes "cpu_report start cnt stall c"
  obtains p1 where "P_acc p1 = P_acc p" and "P_tracker p1 = P_tracker p" and
    "ingest_cpu key c st p =
      (let t = cpu_at c; psi = map_option (\<lambda>f. f t) stall; s = stall_at stall t;
           new = st\<lparr>cs_cpuTime := t, cs_cpuCounter := cnt t, cs_cpuPSI := s\<rparr> in
       if IsZero (cs_cpuTime st) then
         (new, if attributableFromStart key p then observeCPUPSI psi key start t s (observeCPU key start t (cnt t) p1) else p1)
       else if \<not> t > cs_cpuTime st then (st, p1)
       else if cnt t < cs_cpuCounter st \<or> s < cs_cpuPSI st then (new, p1)
       else (new, observeCPUPSI psi key (cs_cpuTime st) t (s - cs_cpuPSI st)
         (observeCPU key (cs_cpuTime st) t (cnt t - cs_cpuCounter st) p1)))"
  using assms
  by (rule_tac that [of "if stall = None then markSignal ''cpu'' p else markSignal ''psi'' (markSignal ''cpu'' p)"])
    (simp_all add: cpu_report_def ingest_cpu_def Let_def attributableFromStart_def stall_at_def split: option.splits)

text \<open>A first reading credits the whole counter, or nothing for a resumed key.\<close>

lemma ingest_cpu_first:
  assumes "cpu_report start cnt stall c" and "IsZero (cs_cpuTime st)" and "acc_ok (P_acc p)"
    and "ingest_cpu key c st p = (st', p')"
  shows "baseline cnt stall (cpu_at c) st' \<and> P_tracker p' = P_tracker p \<and>
    (if attributableFromStart key p
     then credits key (int (cnt (cpu_at c))) (cpu_at c - start) (int (stall_at stall (cpu_at c))) p p'
     else credits key 0 0 0 p p')"
proof -
  let ?t = "cpu_at c"
  obtain p1 where p1: "P_acc p1 = P_acc p" "P_tracker p1 = P_tracker p"
    and eq: "baseline cnt stall ?t st'" "p' = (if attributableFromStart key p
      then observeCPUPSI (map_option (\<lambda>f. f ?t) stall) key start ?t (stall_at stall ?t) (observeCPU key start ?t (cnt ?t) p1)
      else p1)"
    using assms(2,4) by (rule_tac ingest_cpu_report [OF assms(1), of p key st]) (auto simp: Let_def baseline_def)
  have "credits key (int (cnt ?t)) (?t - start) (int (stall_at stall ?t)) p
      (observeCPUPSI (map_option (\<lambda>f. f ?t) stall) key start ?t (stall_at stall ?t) (observeCPU key start ?t (cnt ?t) p1))"
    using assms(1,3) p1 by (intro observe_credits) (auto simp: cpu_report_def stall_at_def)
  then show ?thesis using eq p1 by (simp add: credits_refl)
qed

text \<open>
  A later reading credits what the counters gained since the baseline, and a re-served or late
  one credits nothing and leaves the baseline.
\<close>

lemma ingest_cpu_next:
  assumes "cpu_report start cnt stall c" and "mono cnt" and "\<forall>f. stall = Some f \<longrightarrow> mono f"
    and "baseline cnt stall b st" and "start < b" and "\<not> IsZero b" and "acc_ok (P_acc p)"
    and "ingest_cpu key c st p = (st', p')"
  shows "let t = max b (cpu_at c) in baseline cnt stall t st' \<and> P_tracker p' = P_tracker p \<and>
    credits key (int (cnt t) - int (cnt b)) (t - b) (int (stall_at stall t) - int (stall_at stall b)) p p'"
proof (cases "b < cpu_at c")
  case True
  let ?t = "cpu_at c"
  have ranges: "int (cnt ?t) \<le> maxInt64" "int (stall_at stall ?t) \<le> maxInt64" "int64 (?t - b)"
    using assms(1,5) True by (auto simp: cpu_report_def int64_def minInt64_def)
  have grow: "cnt b \<le> cnt ?t" "stall_at stall b \<le> stall_at stall ?t"
    using assms(2,3) True by (auto simp: stall_at_def mono_def split: option.splits)
  obtain p1 where p1: "P_acc p1 = P_acc p" "P_tracker p1 = P_tracker p"
    and eq: "baseline cnt stall ?t st'"
      "p' = observeCPUPSI (map_option (\<lambda>f. f ?t) stall) key b ?t (stall_at stall ?t - stall_at stall b)
        (observeCPU key b ?t (cnt ?t - cnt b) p1)"
    using assms(4,6,8) True grow
    by (rule_tac ingest_cpu_report [OF assms(1), of p key st]) (auto simp: Let_def baseline_def)
  have "credits key (int (cnt ?t - cnt b)) (?t - b) (int (stall_at stall ?t - stall_at stall b)) p p'"
    unfolding eq using True assms(7) ranges p1 by (intro observe_credits) (auto simp: stall_at_def)
  then show ?thesis using True grow p1 eq by (simp add: Let_def of_nat_diff)
next
  case False
  obtain p1 where "P_acc p1 = P_acc p" "P_tracker p1 = P_tracker p" "st' = st" "p' = p1"
    using assms(4,6,8) False
    by (rule_tac ingest_cpu_report [OF assms(1), of p key st]) (auto simp: Let_def baseline_def)
  then show ?thesis using False assms(4) by (simp add: credits_refl max_def)
qed

text \<open>The memory half of a reading leaves the CPU counters and the CPU baseline alone.\<close>

lemma ingest_memory_frame:
  assumes "acc_ok (P_acc p)" and "ingest_memory key c st p = (st', p')"
  shows "baseline cnt stall b st' = baseline cnt stall b st \<and> P_tracker p' = P_tracker p \<and> credits key 0 0 0 p p'"
proof -
  have mem: "credits key 0 0 0 p q" if "P_acc q = ObserveMemory key at n (P_acc p)" for q at n
    using ObserveMemory_credits [OF assms(1), of key at n] that by (simp add: credits_def cpu_total_def)
  have both: "credits key 0 0 0 p q" if "P_acc q = ObserveMemoryPSI key from at m (ObserveMemory key at n (P_acc p))"
    for q "from" at n m
  proof -
    let ?p = "p\<lparr>P_acc := ObserveMemory key at n (P_acc p)\<rparr>"
    have m: "credits key 0 0 0 p ?p" by (rule mem) simp
    then have "acc_ok (P_acc ?p)" using assms(1) by (simp add: credits_def)
    from ObserveMemoryPSI_credits [OF this, of key "from" at m] have "credits key 0 0 0 ?p q"
      using that by (simp add: credits_def cpu_total_def)
    then show ?thesis using credits_trans [OF m] by fastforce
  qed
  have frame: "P_tracker p' = P_tracker p \<and> baseline cnt stall b st' = baseline cnt stall b st"
    using assms(2) by (simp add: ingest_memory_def Let_def baseline_def split: option.splits if_splits) auto
  have "P_acc p' = P_acc p \<or> (\<exists>at n. P_acc p' = ObserveMemory key at n (P_acc p)) \<or>
      (\<exists>from at m n. P_acc p' = ObserveMemoryPSI key from at m (ObserveMemory key at n (P_acc p)))"
    using assms(2) by (auto simp: ingest_memory_def Let_def split: option.splits if_splits) blast+
  then show ?thesis using frame mem both credits_refl by blast
qed

text \<open>One poll of a container that is known, and of one that is not.\<close>

lemma ingestContainer_eq:
  "ingestContainer tk key c now p =
     (let (st, p1) = ingest_cpu key c ((mget_or zeroCounterState (P_tracker p) tk)\<lparr>cs_lastSeen := now\<rparr>) p;
          (st, p2) = ingest_memory key c st p1
      in p2\<lparr>P_tracker := mput tk st (P_tracker p2)\<rparr>)"
  by (simp add: ingestContainer_def Let_def)

lemma ingestContainer_first:
  assumes "cpu_report start cnt stall c" and "mget (P_tracker p) tk = None" and "acc_ok (P_acc p)"
  shows "let p' = ingestContainer tk key c now p; t = cpu_at c in
    (\<exists>st. mget (P_tracker p') tk = Some st \<and> baseline cnt stall t st) \<and>
    (if attributableFromStart key p
     then credits key (int (cnt t)) (t - start) (int (stall_at stall t)) p p' else credits key 0 0 0 p p')"
proof -
  let ?st = "zeroCounterState\<lparr>cs_lastSeen := now\<rparr>"
  obtain st1 p1 where cpu: "ingest_cpu key c ?st p = (st1, p1)" by force
  obtain st2 p2 where mem: "ingest_memory key c st1 p1 = (st2, p2)" by force
  note first = ingest_cpu_first [OF assms(1) _ assms(3) cpu]
  have ok: "acc_ok (P_acc p1)"
    using first assms(3) by (auto simp: zeroCounterState_def credits_def split: if_splits)
  have "credits key n d s p p2" if "credits key n d s p p1" for n d s
    using credits_trans [OF that conjunct2 [OF conjunct2 [OF ingest_memory_frame [OF ok mem, of cnt stall 0]]]] by simp
  moreover have "credits key n d s p (p2\<lparr>P_tracker := m\<rparr>) = credits key n d s p p2" for n d s m
    by (rule credits_cong) simp_all
  moreover have "ingestContainer tk key c now p = p2\<lparr>P_tracker := mput tk st2 (P_tracker p2)\<rparr>"
    using assms(2) cpu mem by (simp add: ingestContainer_eq mget_or_def)
  ultimately show ?thesis
    using first ingest_memory_frame [OF ok mem, of cnt stall "cpu_at c"]
    by (auto simp: Let_def zeroCounterState_def)
qed

lemma ingestContainer_next:
  assumes "cpu_report start cnt stall c" and "mono cnt" and "\<forall>f. stall = Some f \<longrightarrow> mono f"
    and "mget (P_tracker p) tk = Some st" and "baseline cnt stall b st" and "start < b" and "\<not> IsZero b" and "acc_ok (P_acc p)"
  shows "let p' = ingestContainer tk key c now p; t = max b (cpu_at c) in
    (\<exists>st. mget (P_tracker p') tk = Some st \<and> baseline cnt stall t st) \<and>
    credits key (int (cnt t) - int (cnt b)) (t - b) (int (stall_at stall t) - int (stall_at stall b)) p p'"
proof -
  let ?st = "st\<lparr>cs_lastSeen := now\<rparr>"
  obtain st1 p1 where cpu: "ingest_cpu key c ?st p = (st1, p1)" by force
  obtain st2 p2 where mem: "ingest_memory key c st1 p1 = (st2, p2)" by force
  have b: "baseline cnt stall b ?st" using assms(5) by simp
  note nxt = ingest_cpu_next [OF assms(1-3) b assms(6-8) cpu, unfolded Let_def]
  have ok: "acc_ok (P_acc p1)" using nxt assms(8) by (simp add: credits_def)
  note frame = ingest_memory_frame [OF ok mem, of cnt stall "max b (cpu_at c)"]
  have "credits key n d s p p2" if "credits key n d s p p1" for n d s
    using credits_trans [OF that conjunct2 [OF conjunct2 [OF frame]]] by simp
  moreover have "credits key n d s p (p2\<lparr>P_tracker := m\<rparr>) = credits key n d s p p2" for n d s m
    by (rule credits_cong) simp_all
  moreover have "ingestContainer tk key c now p = p2\<lparr>P_tracker := mput tk st2 (P_tracker p2)\<rparr>"
    using assms(4) cpu mem by (simp add: ingestContainer_eq mget_or_def)
  ultimately show ?thesis using nxt frame by (simp add: Let_def)
qed

text \<open>A container polled any number of times, at the instants of the second components.\<close>

definition poll_container :: "trackerKey \<Rightarrow> Key \<Rightarrow> (ContainerStats \<times> time) list \<Rightarrow> UsagePoller \<Rightarrow> UsagePoller" where
  "poll_container tk key reports p = fold (\<lambda>(c, now). ingestContainer tk key c now) reports p"

definition latest :: "time \<Rightarrow> (ContainerStats \<times> time) list \<Rightarrow> time" where
  "latest b reports = fold (\<lambda>(c, now). max (cpu_at c)) reports b"

lemma poll_container_next:
  assumes "\<forall>r \<in> set reports. cpu_report start cnt stall (fst r)" and "mono cnt" and "\<forall>f. stall = Some f \<longrightarrow> mono f"
    and "mget (P_tracker p) tk = Some st" and "baseline cnt stall b st" and "0 \<le> start" and "start < b" and "acc_ok (P_acc p)"
  shows "let p' = poll_container tk key reports p; t = latest b reports in
    (\<exists>st. mget (P_tracker p') tk = Some st \<and> baseline cnt stall t st) \<and>
    credits key (int (cnt t) - int (cnt b)) (t - b) (int (stall_at stall t) - int (stall_at stall b)) p p'"
  using assms(1,4,5,7,8)
proof (induction reports arbitrary: p st b)
  case Nil
  then show ?case by (simp add: poll_container_def latest_def credits_refl Let_def)
next
  case (Cons r rs)
  obtain c now where r: "r = (c, now)" by force
  let ?p = "ingestContainer tk key c now p" and ?b = "max b (cpu_at c)"
  have rep: "cpu_report start cnt stall c" using Cons.prems(1) r by simp
  have nz: "\<not> IsZero b" using Cons.prems(4) assms(6) by simp
  obtain st' where st': "mget (P_tracker ?p) tk = Some st'" "baseline cnt stall ?b st'"
    and c1: "credits key (int (cnt ?b) - int (cnt b)) (?b - b) (int (stall_at stall ?b) - int (stall_at stall b)) p ?p"
    using ingestContainer_next [OF rep assms(2,3) Cons.prems(2,3,4) nz Cons.prems(5), of key now]
    by (auto simp: Let_def)
  have ok: "acc_ok (P_acc ?p)" using c1 Cons.prems(5) by (simp add: credits_def)
  have lt: "start < ?b" using Cons.prems(4) by simp
  have all: "\<forall>r \<in> set rs. cpu_report start cnt stall (fst r)" using Cons.prems(1) by simp
  have unf: "poll_container tk key (r # rs) p = poll_container tk key rs ?p"
    "latest b (r # rs) = latest ?b rs"
    by (simp_all add: poll_container_def latest_def r max.commute)
  have c2: "credits key (int (cnt (latest ?b rs)) - int (cnt ?b)) (latest ?b rs - ?b)
      (int (stall_at stall (latest ?b rs)) - int (stall_at stall ?b)) ?p (poll_container tk key rs ?p)"
    and fin: "\<exists>st. mget (P_tracker (poll_container tk key rs ?p)) tk = Some st \<and> baseline cnt stall (latest ?b rs) st"
    using Cons.IH [OF all st' lt ok] by (simp_all add: Let_def)
  show ?case using credits_trans [OF c1 c2] fin unfolding unf Let_def by simp
qed

text \<open>A poll stamps the baseline with its instant and leaves the resumed keys alone.\<close>

lemma ingest_halves_keep:
  "ingest_cpu key c st p = (st', p') \<Longrightarrow> cs_lastSeen st' = cs_lastSeen st \<and> P_resumedKeys p' = P_resumedKeys p"
  "ingest_memory key c st p = (st', p') \<Longrightarrow> cs_lastSeen st' = cs_lastSeen st \<and> P_resumedKeys p' = P_resumedKeys p"
  by (auto simp: ingest_cpu_def ingest_memory_def Let_def split: option.splits if_splits)

lemma ingestContainer_keeps:
  "P_resumedKeys (ingestContainer tk key c now p) = P_resumedKeys p"
  "mget (P_tracker (ingestContainer tk key c now p)) tk = Some st \<Longrightarrow> cs_lastSeen st = now"
  by (auto simp: ingestContainer_eq Let_def split: prod.splits dest!: ingest_halves_keep)

lemma poller_sweep_sel:
  "P_acc (poller_sweep now p) = P_acc p"
  "mget (P_tracker (poller_sweep now p)) tk =
     (case mget (P_tracker p) tk of None \<Rightarrow> None
      | Some st \<Rightarrow> if cs_lastSeen st < now - staleTrackerAfter then None else Some st)"
  "attributableFromStart key p \<Longrightarrow> attributableFromStart key (poller_sweep now p)"
  by (simp_all add: poller_sweep_def Let_def mget_mfilter attributableFromStart_def split: option.splits)

section \<open>What a poll may touch\<close>

text \<open>
  What the poller relies on in the pod watcher: a pod found by its name is one that is found by its
  UID, with the same workload.
\<close>

locale pod_resolver =
  fixes R :: PodResolver
  assumes by_name: "LookupPodByName R ns name = Some (u, wl) \<Longrightarrow> \<exists>ns'. LookupPod R u = Some (ns', wl)"

text \<open>The records of one container, and of one workload's network, are the same in two states.\<close>

definition key_kept :: "Key \<Rightarrow> UsagePoller \<Rightarrow> UsagePoller \<Rightarrow> bool" where
  "key_kept k p p' \<longleftrightarrow> (\<forall>n. mget (Acc_open (P_acc p')) (k, n) = mget (Acc_open (P_acc p)) (k, n))"

definition net_kept :: "NetworkKey \<Rightarrow> UsagePoller \<Rightarrow> UsagePoller \<Rightarrow> bool" where
  "net_kept k p p' \<longleftrightarrow> (\<forall>n. mget (Net_open (P_netAcc p')) (k, n) = mget (Net_open (P_netAcc p)) (k, n))"

lemma kept_refl: "P_acc p' = P_acc p \<Longrightarrow> key_kept k p p'" "P_netAcc p' = P_netAcc p \<Longrightarrow> net_kept nk p p'"
  by (simp_all add: key_kept_def net_kept_def)

lemma kept_trans:
  "key_kept k p p' \<Longrightarrow> key_kept k p' p'' \<Longrightarrow> key_kept k p p''" "net_kept nk p p' \<Longrightarrow> net_kept nk p' p'' \<Longrightarrow> net_kept nk p p''"
  by (simp_all add: key_kept_def net_kept_def)

lemma kept_fold:
  assumes "\<And>x p. x \<in> set xs \<Longrightarrow> key_kept k p (f x p) \<and> net_kept nk p (f x p)"
  shows "key_kept k p (fold f xs p) \<and> net_kept nk p (fold f xs p)"
  using assms
proof (induction xs arbitrary: p)
  case (Cons x xs)
  have "key_kept k p (f x p) \<and> net_kept nk p (f x p)" using Cons.prems by simp
  moreover have "key_kept k (f x p) (fold f xs (f x p)) \<and> net_kept nk (f x p) (fold f xs (f x p))"
    using Cons by simp
  ultimately show ?case using kept_trans by fastforce
qed (simp add: kept_refl)

lemma observe_other:
  assumes "k' \<noteq> k"
  shows "mget (Acc_open (ObserveCPUDelta k' from to c a)) (k, n) = mget (Acc_open a) (k, n)"
    and "mget (Acc_open (ObserveCPUPSI k' from to c a)) (k, n) = mget (Acc_open a) (k, n)"
    and "mget (Acc_open (ObserveMemoryPSI k' from to c a)) (k, n) = mget (Acc_open a) (k, n)"
    and "mget (Acc_open (ObserveMemory k' at c a)) (k, n) = mget (Acc_open a) (k, n)"
    and "mget (Acc_open (ObserveThrottling k' from to c d a)) (k, n) = mget (Acc_open a) (k, n)"
  using assms
  by (simp_all add: ObserveCPUDelta_def ObserveCPUPSI_def ObserveMemoryPSI_def ObserveMemory_def ObserveThrottling_def Let_def
      mget_addProRata_other mget_write_other)

lemma ingestContainer_kept:
  assumes "key \<noteq> k"
  shows "key_kept k p (ingestContainer tk key c now p) \<and> net_kept nk p (ingestContainer tk key c now p)"
proof -
  have "key_kept k p p' \<and> net_kept nk p p'" if "ingest_cpu key c st p = (st', p')" for st st' p p'
    using that assms by (auto simp: ingest_cpu_def Let_def key_kept_def net_kept_def observeCPU_def observeCPUPSI_def observe_other
        split: option.splits if_splits)
  moreover have "key_kept k p p' \<and> net_kept nk p p'" if "ingest_memory key c st p = (st', p')" for st st' p p'
    using that assms by (auto simp: ingest_memory_def Let_def key_kept_def net_kept_def observe_other
        split: option.splits if_splits)
  ultimately show ?thesis
    by (auto simp: ingestContainer_eq Let_def key_kept_def net_kept_def split: prod.splits)
qed

lemma ingestNetwork_kept:
  assumes "key \<noteq> nk"
  shows "key_kept k p (ingestNetwork R u key net now p) \<and> net_kept nk p (ingestNetwork R u key net now p)"
  using assms
  by (auto simp: ingestNetwork_def Let_def key_kept_def net_kept_def Network_Observe_open mget_add_parts_other split: option.splits)

context pod_resolver
begin

text \<open>A workload no known pod belongs to is not measured.\<close>

lemma unknown_unmeasured:
  assumes no: "\<And>u ns. LookupPod R u \<noteq> Some (ns, wl)"
  shows "key_kept (Key ns (Ref_Kind wl) (Ref_Name wl) c) p (pollOnce R reads cancelled now p) \<and>
    net_kept (NetworkKey ns (Ref_Kind wl) (Ref_Name wl)) p (pollOnce R reads cancelled now p)"
proof -
  let ?k = "Key ns (Ref_Kind wl) (Ref_Name wl) c" and ?nk = "NetworkKey ns (Ref_Kind wl) (Ref_Name wl)"
  let ?kept = "\<lambda>p p'. key_kept ?k p p' \<and> net_kept ?nk p p'"
  have differs: "wl' \<noteq> wl \<Longrightarrow> Key a (Ref_Kind wl') (Ref_Name wl') b \<noteq> ?k \<and> NetworkKey a (Ref_Kind wl') (Ref_Name wl') \<noteq> ?nk" for a b wl'
    by (cases wl; cases wl') auto
  have pod: "?kept p (ingest_pod R now pod p)" for pod p
  proof (cases "LookupPod R (Ps_UID pod)")
    case (Some e)
    obtain a wl' where e: "e = (a, wl')" by force
    then have d: "wl' \<noteq> wl" using no Some by blast
    let ?p = "fold (\<lambda>c. ingestContainer (Ps_UID pod, St_Name c) (Key a (Ref_Kind wl') (Ref_Name wl') (St_Name c)) c now) (Ps_Containers pod) p"
    have "?kept p ?p" by (rule kept_fold) (intro ingestContainer_kept, use differs [OF d] in blast)
    moreover have "?kept ?p (ingest_pod R now pod p)"
      using ingestNetwork_kept [OF conjunct2 [OF differs [OF d]]] Some e by (simp add: ingest_pod_def Let_def)
    ultimately show ?thesis using kept_trans by blast
  qed (simp add: ingest_pod_def kept_refl)
  have sample: "?kept p (ingest_sample R now ks p)" for ks p
  proof (cases "LookupPodByName R (Ck_namespace (fst ks)) (Ck_pod (fst ks))")
    case (Some e)
    obtain u wl' where e: "e = (u, wl')" by force
    then have "wl' \<noteq> wl" using by_name no Some by blast
    then have "Key (Ck_namespace (fst ks)) (Ref_Kind wl') (Ref_Name wl') (Ck_container (fst ks)) \<noteq> ?k" using differs by blast
    then show ?thesis
      using Some e by (auto simp: ingest_sample_def Let_def key_kept_def net_kept_def observe_other)
  qed (simp add: ingest_sample_def kept_refl Let_def)
  have reads: "?kept p (ingest_reads R now r p)" for r p
  proof -
    have "?kept p (ingest R xs now p)" and "?kept p (ingestCadvisor R ys now p)" for xs ys p
      unfolding ingest_def ingestCadvisor_def by (intro kept_fold pod sample)+
    then show ?thesis
      by (auto simp: ingest_reads_def Let_def countPoll_def key_kept_def net_kept_def split: option.splits)
  qed
  show ?thesis
  proof (cases cancelled)
    case False
    have "?kept p (fold (ingest_reads R now) reads p)" by (rule kept_fold) (rule reads)
    then show ?thesis using False by (simp add: pollOnce_def key_kept_def net_kept_def poller_sweep_def Let_def)
  qed (simp add: pollOnce_def kept_refl)
qed

end

section \<open>Properties\<close>


text \<open>A concrete container for the examples: it uses one core from its start on.\<close>

definition busy_report :: "time \<Rightarrow> ContainerStats" where
  "busy_report t =
     \<lparr>St_Name = ''app'', St_StartTime = 5,
      St_CPU = Some \<lparr>St_UsageCoreNanoSeconds = Some (nat (t - 5)), St_CPUTime = t, St_CPUPSI = None\<rparr>,
      St_Memory = Some \<lparr>St_WorkingSetBytes = Some 4096, St_MemTime = t, St_MemPSI = None\<rparr>\<rparr>"

lemma busy_report:
  "5 < t \<Longrightarrow> t < 1000 \<Longrightarrow> cpu_report 5 (\<lambda>t. nat (t - 5)) None (busy_report t)" "cpu_at (busy_report t) = t"
  by (simp_all add: cpu_report_def cpu_at_def busy_report_def stall_at_def int64_def minInt64_def maxInt64_def)

lemma busy_mono: "mono (\<lambda>t :: int. nat (t - 5))"
  by (auto simp: mono_def)

lemma NewUsagePoller_sel [simp]:
  "acc_ok (P_acc NewUsagePoller)" "mget (P_tracker NewUsagePoller) tk = None" "attributableFromStart key NewUsagePoller"
  "cpu_total f key NewUsagePoller = 0"
  by (simp_all add: NewUsagePoller_def acc_ok_iff NewAccumulator_def UsageWindowLength_def hour_def minute_def second_def
      attributableFromStart_def cpu_total_def key_total_def)


text \<open>
  C39. A baseline that is swept is not merely a longer next delta. When no kubelet reports a container
  for longer than \<open>staleTrackerAfter\<close>, \<open>sweep\<close> forgets its baseline, and the next reading of the
  same running container is a first observation again: its whole counter is credited from the
  container's start, on top of what had been credited before.
\<close>

theorem swept_baseline_recounts:
  assumes "cpu_report start cnt stall c" and "cpu_report start cnt stall c'"
    and "mget (P_tracker p) tk = None" and "attributableFromStart key p" and "acc_ok (P_acc p)"
    and "now < later - staleTrackerAfter"
  shows "let seen = ingestContainer tk key c now p; swept = poller_sweep later seen;
             p' = ingestContainer tk key c' later swept in
    mget (P_tracker swept) tk = None \<and>
    cpu_total CoreNanoseconds key p' =
      add64 (cpu_total CoreNanoseconds key p) (int (cnt (cpu_at c)) + int (cnt (cpu_at c'))) \<and>
    cpu_total CoveredNanoseconds key p' =
      add64 (cpu_total CoveredNanoseconds key p) ((cpu_at c - start) + (cpu_at c' - start))"
proof -
  let ?seen = "ingestContainer tk key c now p"
  let ?swept = "poller_sweep later ?seen"
  note one = ingestContainer_first [OF assms(1,3,5), of key now, unfolded Let_def]
  have "credits key (int (cnt (cpu_at c))) (cpu_at c - start) (int (stall_at stall (cpu_at c))) p ?seen"
    using one assms(4) by simp
  then have c1: "credits key (int (cnt (cpu_at c))) (cpu_at c - start) (int (stall_at stall (cpu_at c))) p ?swept"
    using credits_cong [OF refl poller_sweep_sel(1)] by blast
  have gone: "mget (P_tracker ?swept) tk = None"
    using assms(6) ingestContainer_keeps(2) [of tk key c now p]
    by (cases "mget (P_tracker ?seen) tk") (simp_all add: poller_sweep_sel)
  have fresh: "attributableFromStart key ?swept"
    using assms(4) by (intro poller_sweep_sel(3)) (simp add: attributableFromStart_def ingestContainer_keeps(1))
  have ok: "acc_ok (P_acc ?swept)" using c1 assms(5) by (simp add: credits_def)
  have c2: "credits key (int (cnt (cpu_at c'))) (cpu_at c' - start) (int (stall_at stall (cpu_at c'))) ?swept
      (ingestContainer tk key c' later ?swept)"
    using ingestContainer_first [OF assms(2) gone ok, of key later] fresh by (simp add: Let_def)
  show ?thesis using credits_trans [OF c1 c2] gone by (simp add: Let_def credits_def)
qed

theorem swept_baseline_recounts_witness:
  "let key = Key ''ns'' ''Deployment'' ''web'' ''app''; tk = (''uid'', ''app'');
       seen = ingestContainer tk key (busy_report 10) 12 NewUsagePoller;
       swept = poller_sweep (12 + 6 * minute) seen;
       p' = ingestContainer tk key (busy_report 40) (12 + 6 * minute) swept
   in cpu_total CoreNanoseconds key p' = 40"
  using swept_baseline_recounts [OF busy_report(1) busy_report(1), of 10 40 NewUsagePoller "(''uid'', ''app'')"
      "Key ''ns'' ''Deployment'' ''web'' ''app''" 12 "12 + 6 * minute"]
  by (simp add: Let_def busy_report(2) staleTrackerAfter_def minute_def second_def add64_def wrap64_def)

end
