(* ===== verification/PolicyFilter.thy ===== *)
theory PolicyFilter
  imports GoStrings
begin

text \<open>
  The opt-out controls of \<open>internal/collector/filter.go\<close>: the configured namespace lists with
  their wildcard patterns, the collection and the profiling annotation, the admission of pods,
  namespaces and Jobs, and the counters of what was excluded.

  Annotations are maps from keys to values; a missing entry reads as the empty string, which is
  not the opt-out. Counters are \<open>int64\<close>.
\<close>

section \<open>Definitions\<close>

definition CollectAnnotation :: string where "CollectAnnotation = ''rebuildstack.co/collect''"
definition ProfileAnnotation :: string where "ProfileAnnotation = ''rebuildstack.co/profile''"

type_synonym annotations = "(string, string) gomap"

datatype ExclusionReason =
    ExcludedByNamespaceFilter
  | ExcludedByNamespaceAnnotation
  | ExcludedByWorkloadAnnotation
  | ExcludedByPodAnnotation
  | ExcludedByObjectAnnotation

datatype UnresolvedWorkload = WorkloadKindUnknown | WorkloadNotCached

record WorkloadLookup =
  WL_Annotations :: annotations
  WL_Unresolved :: "UnresolvedWorkload option"

text \<open>The counters of \<open>Filter\<close> are the fields of \<open>model.Coverage\<close>, which \<open>Snapshot\<close> copies.\<close>

record FilterCoverage =
  PodsObserved :: int
  ExcludedNamespaceFilter :: int
  ExcludedNamespaceAnnotation :: int
  ExcludedWorkloadAnnotation :: int
  ExcludedPodAnnotation :: int
  ExcludedProfilingAnnotation :: int
  CovWorkloadUnknownKind :: int
  CovWorkloadNotCached :: int
  JobsObserved :: int
  JobsExcludedNamespaceFilter :: int
  JobsExcludedNamespaceAnnotation :: int
  JobsExcludedWorkloadAnnotation :: int
  JobsExcludedAnnotation :: int

record Filter =
  F_allow :: "string list"
  F_deny :: "string list"
  F_counts :: FilterCoverage

definition zeroCoverage :: FilterCoverage where
  "zeroCoverage = \<lparr>PodsObserved = 0, ExcludedNamespaceFilter = 0, ExcludedNamespaceAnnotation = 0,
     ExcludedWorkloadAnnotation = 0, ExcludedPodAnnotation = 0, ExcludedProfilingAnnotation = 0,
     CovWorkloadUnknownKind = 0, CovWorkloadNotCached = 0, JobsObserved = 0, JobsExcludedNamespaceFilter = 0,
     JobsExcludedNamespaceAnnotation = 0, JobsExcludedWorkloadAnnotation = 0, JobsExcludedAnnotation = 0\<rparr>"

definition NewFilter :: "string list \<Rightarrow> string list \<Rightarrow> Filter" where
  "NewFilter allowNamespaces denyNamespaces = \<lparr>F_allow = allowNamespaces, F_deny = denyNamespaces, F_counts = zeroCoverage\<rparr>"

text \<open>The loop over the middle parts: each is cut at its leftmost occurrence.\<close>

fun match_middle :: "string list \<Rightarrow> string \<Rightarrow> string option" where
  "match_middle [] s = Some s"
| "match_middle (part # parts) s =
     (case strings_Index s part of
        None \<Rightarrow> None
      | Some idx \<Rightarrow> match_middle parts (drop (idx + length part) s))"

definition matchGlob :: "string \<Rightarrow> string \<Rightarrow> bool" where
  "matchGlob pattern s =
     (let parts = Split pattern (CHR ''*'') in
      if length parts = 1 then pattern = s
      else if \<not> HasPrefix s (hd parts) then False
      else case match_middle (butlast (tl parts)) (drop (length (hd parts)) s) of
        None \<Rightarrow> False
      | Some s \<Rightarrow> HasSuffix s (last parts) \<and> length s \<ge> length (last parts))"

definition matchAny :: "string list \<Rightarrow> string \<Rightarrow> bool" where
  "matchAny patterns s = list_ex (\<lambda>p. matchGlob p s) patterns"

definition namespaceAllowed :: "Filter \<Rightarrow> string \<Rightarrow> bool" where
  "namespaceAllowed f namespace =
     (if F_allow f \<noteq> [] \<and> \<not> matchAny (F_allow f) namespace then False
      else \<not> matchAny (F_deny f) namespace)"

definition opted_out :: "string \<Rightarrow> annotations \<Rightarrow> bool" where
  "opted_out annotation m \<longleftrightarrow> mget m annotation = Some ''false''"

text \<open>The admission decisions; \<^const>\<open>None\<close> is an admission, otherwise the first filter that rejected.\<close>

definition AdmitPod :: "Filter \<Rightarrow> string \<Rightarrow> annotations \<Rightarrow> annotations \<Rightarrow> WorkloadLookup \<Rightarrow> ExclusionReason option" where
  "AdmitPod f namespace podAnnotations nsAnnotations workload =
     (if \<not> namespaceAllowed f namespace then Some ExcludedByNamespaceFilter
      else if opted_out CollectAnnotation nsAnnotations then Some ExcludedByNamespaceAnnotation
      else if opted_out CollectAnnotation (WL_Annotations workload) then Some ExcludedByWorkloadAnnotation
      else if opted_out CollectAnnotation podAnnotations then Some ExcludedByPodAnnotation
      else None)"

definition AdmitNamespace :: "Filter \<Rightarrow> string \<Rightarrow> annotations \<Rightarrow> ExclusionReason option" where
  "AdmitNamespace f name nsAnnotations =
     (if \<not> namespaceAllowed f name then Some ExcludedByNamespaceFilter
      else if opted_out CollectAnnotation nsAnnotations then Some ExcludedByNamespaceAnnotation
      else None)"

definition AdmitProfiling :: "annotations \<Rightarrow> annotations \<Rightarrow> WorkloadLookup \<Rightarrow> bool" where
  "AdmitProfiling podAnnotations nsAnnotations workload \<longleftrightarrow>
     \<not> opted_out ProfileAnnotation nsAnnotations \<and> \<not> opted_out ProfileAnnotation (WL_Annotations workload) \<and>
     \<not> opted_out ProfileAnnotation podAnnotations"

definition AdmitJob ::
    "Filter \<Rightarrow> string \<Rightarrow> annotations \<Rightarrow> annotations \<Rightarrow> annotations \<Rightarrow> WorkloadLookup \<Rightarrow> ExclusionReason option" where
  "AdmitJob f namespace jobAnnotations templateAnnotations nsAnnotations workload =
     (if \<not> namespaceAllowed f namespace then Some ExcludedByNamespaceFilter
      else if opted_out CollectAnnotation nsAnnotations then Some ExcludedByNamespaceAnnotation
      else if opted_out CollectAnnotation (WL_Annotations workload) then Some ExcludedByWorkloadAnnotation
      else if opted_out CollectAnnotation jobAnnotations \<or> opted_out CollectAnnotation templateAnnotations
      then Some ExcludedByObjectAnnotation
      else None)"

definition countObserved :: "Filter \<Rightarrow> Filter" where
  "countObserved f = f\<lparr>F_counts := (F_counts f)\<lparr>PodsObserved := add64 (PodsObserved (F_counts f)) 1\<rparr>\<rparr>"

definition countExcluded :: "ExclusionReason \<Rightarrow> Filter \<Rightarrow> Filter" where
  "countExcluded reason f =
     (let c = F_counts f in
      case reason of
        ExcludedByNamespaceFilter \<Rightarrow> f\<lparr>F_counts := c\<lparr>ExcludedNamespaceFilter := add64 (ExcludedNamespaceFilter c) 1\<rparr>\<rparr>
      | ExcludedByNamespaceAnnotation \<Rightarrow> f\<lparr>F_counts := c\<lparr>ExcludedNamespaceAnnotation := add64 (ExcludedNamespaceAnnotation c) 1\<rparr>\<rparr>
      | ExcludedByWorkloadAnnotation \<Rightarrow> f\<lparr>F_counts := c\<lparr>ExcludedWorkloadAnnotation := add64 (ExcludedWorkloadAnnotation c) 1\<rparr>\<rparr>
      | ExcludedByPodAnnotation \<Rightarrow> f\<lparr>F_counts := c\<lparr>ExcludedPodAnnotation := add64 (ExcludedPodAnnotation c) 1\<rparr>\<rparr>
      | ExcludedByObjectAnnotation \<Rightarrow> f)"

definition countExcludedProfiling :: "Filter \<Rightarrow> Filter" where
  "countExcludedProfiling f =
     f\<lparr>F_counts := (F_counts f)\<lparr>ExcludedProfilingAnnotation := add64 (ExcludedProfilingAnnotation (F_counts f)) 1\<rparr>\<rparr>"

definition countJobObserved :: "Filter \<Rightarrow> Filter" where
  "countJobObserved f = f\<lparr>F_counts := (F_counts f)\<lparr>JobsObserved := add64 (JobsObserved (F_counts f)) 1\<rparr>\<rparr>"

definition countJobExcluded :: "ExclusionReason \<Rightarrow> Filter \<Rightarrow> Filter" where
  "countJobExcluded reason f =
     (let c = F_counts f in
      case reason of
        ExcludedByNamespaceFilter \<Rightarrow> f\<lparr>F_counts := c\<lparr>JobsExcludedNamespaceFilter := add64 (JobsExcludedNamespaceFilter c) 1\<rparr>\<rparr>
      | ExcludedByNamespaceAnnotation \<Rightarrow> f\<lparr>F_counts := c\<lparr>JobsExcludedNamespaceAnnotation := add64 (JobsExcludedNamespaceAnnotation c) 1\<rparr>\<rparr>
      | ExcludedByWorkloadAnnotation \<Rightarrow> f\<lparr>F_counts := c\<lparr>JobsExcludedWorkloadAnnotation := add64 (JobsExcludedWorkloadAnnotation c) 1\<rparr>\<rparr>
      | ExcludedByPodAnnotation \<Rightarrow> f
      | ExcludedByObjectAnnotation \<Rightarrow> f\<lparr>F_counts := c\<lparr>JobsExcludedAnnotation := add64 (JobsExcludedAnnotation c) 1\<rparr>\<rparr>)"

definition countUnresolvedWorkload :: "UnresolvedWorkload \<Rightarrow> Filter \<Rightarrow> Filter" where
  "countUnresolvedWorkload reason f =
     (let c = F_counts f in
      case reason of
        WorkloadKindUnknown \<Rightarrow> f\<lparr>F_counts := c\<lparr>CovWorkloadUnknownKind := add64 (CovWorkloadUnknownKind c) 1\<rparr>\<rparr>
      | WorkloadNotCached \<Rightarrow> f\<lparr>F_counts := c\<lparr>CovWorkloadNotCached := add64 (CovWorkloadNotCached c) 1\<rparr>\<rparr>)"

definition Filter_Snapshot :: "Filter \<Rightarrow> FilterCoverage" where
  "Filter_Snapshot f = F_counts f"

section \<open>Wildcards\<close>

text \<open>What a pattern means: \<open>*\<close> stands for any run of characters, every other byte for itself.\<close>

fun glob :: "string \<Rightarrow> string \<Rightarrow> bool" where
  "glob [] s \<longleftrightarrow> s = []"
| "glob (c # p) s \<longleftrightarrow>
     (if c = CHR ''*'' then (\<exists>n \<le> length s. glob p (drop n s))
      else case s of [] \<Rightarrow> False | d # t \<Rightarrow> d = c \<and> glob p t)"

text \<open>The same on the parts between the wildcards.\<close>

fun fits_parts :: "string list \<Rightarrow> string \<Rightarrow> bool" where
  "fits_parts [] s \<longleftrightarrow> False"
| "fits_parts [p] s \<longleftrightarrow> s = p"
| "fits_parts (p # q # ps) s \<longleftrightarrow> (\<exists>t u. s = p @ t @ u \<and> fits_parts (q # ps) u)"

lemma fits_parts_Cons:
  "fits_parts ((c # p) # ps) s \<longleftrightarrow> (\<exists>t. s = c # t \<and> fits_parts (p # ps) t)"
  by (cases ps) auto

lemma glob_fits: "glob p s \<longleftrightarrow> fits_parts (Split p (CHR ''*'')) s"
proof (induction p arbitrary: s)
  case (Cons c p)
  show ?case
  proof (cases "c = CHR ''*''")
    case True
    have "(\<exists>n \<le> length s. glob p (drop n s)) \<longleftrightarrow> (\<exists>t u. s = t @ u \<and> fits_parts (Split p (CHR ''*'')) u)"
      unfolding Cons by (metis append_eq_conv_conj append_take_drop_id drop_all length_append le_add1 nat_le_linear)
    then show ?thesis
      using True by (cases "Split p (CHR ''*'')") simp_all
  next
    case False
    then obtain q qs where q: "Split p (CHR ''*'') = q # qs" by (meson Split_nonempty neq_Nil_conv)
    then show ?thesis using False Cons by (auto simp: fits_parts_Cons split: list.splits)
  qed
qed simp

text \<open>Cutting at the leftmost occurrence loses no match.\<close>

lemma match_middle_fits:
  "(case match_middle ps s of None \<Rightarrow> False | Some r \<Rightarrow> HasSuffix r l) \<longleftrightarrow> (\<exists>t u. s = t @ u \<and> fits_parts (ps @ [l]) u)"
proof (induction ps arbitrary: s)
  case Nil
  then show ?case by (simp add: HasSuffix_iff)
next
  case (Cons p ps)
  let ?rest = "\<lambda>s. \<exists>t u. s = t @ u \<and> fits_parts (ps @ [l]) u"
  have unfold: "fits_parts ((p # ps) @ [l]) u \<longleftrightarrow> (\<exists>t v. u = p @ t @ v \<and> fits_parts (ps @ [l]) v)" for u
    by (cases "ps @ [l]") simp_all
  have "(\<exists>t u. s = t @ u \<and> fits_parts ((p # ps) @ [l]) u) \<longleftrightarrow>
      (case strings_Index s p of None \<Rightarrow> False | Some i \<Rightarrow> ?rest (drop (i + length p) s))"
  proof
    assume "\<exists>t u. s = t @ u \<and> fits_parts ((p # ps) @ [l]) u"
    then obtain t t' v where s: "s = t @ p @ t' @ v" and v: "fits_parts (ps @ [l]) v" unfolding unfold by blast
    obtain i where i: "strings_Index s p = Some i" "i \<le> length t"
      using strings_Index_least [of t p "t' @ v"] s by auto
    have "drop (i + length p) s = drop (i + length p) (t @ p @ t') @ v" using i(2) s by simp
    then have "?rest (drop (i + length p) s)" using v by blast
    then show "case strings_Index s p of None \<Rightarrow> False | Some i \<Rightarrow> ?rest (drop (i + length p) s)"
      by (simp only: i(1) option.case)
  next
    assume "case strings_Index s p of None \<Rightarrow> False | Some i \<Rightarrow> ?rest (drop (i + length p) s)"
    then obtain i t u where i: "strings_Index s p = Some i" and "drop (i + length p) s = t @ u" "fits_parts (ps @ [l]) u"
      by (auto split: option.splits)
    then show "\<exists>t u. s = t @ u \<and> fits_parts ((p # ps) @ [l]) u"
      unfolding unfold using strings_Index_Some [OF i] by metis
  qed
  then show ?case by (simp add: Cons split: option.splits)
qed

section \<open>Properties\<close>

text \<open>
  A namespace pattern means what it says: the greedy matcher, which cuts every part between two
  wildcards at its leftmost occurrence, accepts exactly the names of the pattern's language.
\<close>

theorem matchGlob_is_glob: "matchGlob pattern s \<longleftrightarrow> glob pattern s"
proof (cases "tl (Split pattern (CHR ''*''))" rule: rev_cases)
  case Nil
  then obtain p where "Split pattern (CHR ''*'') = [p]" by (metis Split_nonempty list.exhaust_sel)
  moreover have "Split q c = [p] \<Longrightarrow> p = q" for q c
    by (induction q arbitrary: p) (auto split: if_splits list.splits)
  ultimately show ?thesis by (auto simp: matchGlob_def glob_fits)
next
  case (snoc ms l)
  then obtain p where parts: "Split pattern (CHR ''*'') = p # ms @ [l]" by (metis Split_nonempty list.collapse)
  have len: "length r \<ge> length l" if "HasSuffix r l" for r using that by (simp add: HasSuffix_def)
  have "matchGlob pattern s \<longleftrightarrow> HasPrefix s p \<and>
      (case match_middle ms (drop (length p) s) of None \<Rightarrow> False | Some r \<Rightarrow> HasSuffix r l)"
    using len by (auto simp: matchGlob_def parts Let_def butlast_append split: option.splits)
  also have "\<dots> \<longleftrightarrow> (\<exists>t u. s = p @ t @ u \<and> fits_parts (ms @ [l]) u)"
    unfolding match_middle_fits by (auto simp: HasPrefix_iff) blast+
  also have "\<dots> \<longleftrightarrow> fits_parts (p # ms @ [l]) s" by (cases "ms @ [l]") simp_all
  finally show ?thesis by (simp add: glob_fits parts)
qed

end
