(* ===== verification/Shipper.thy ===== *)
theory Shipper
  imports Registry SpoolNames "HOL-Library.Sublist"
begin

text \<open>
  The shipper of \<open>internal/shipper\<close>: rounds over the spool that offer every payload to the
  backend, oldest first, and remove a file only once the backend has acknowledged it.

  The spool is a map from names to files with an identity (\<open>F_ino\<close>, what \<open>os.SameFile\<close>
  compares). What happens outside the shipper while one payload is offered is the argument
  \<open>offer_env\<close>: which system calls fail, what the backend answers, and how the writers and the
  sweep change the directory while the request is in flight. \<open>kind_of\<close> stands for the decoding
  of the payload's \<open>kind\<close> field by \<open>json.Unmarshal\<close>, \<open>gzip\<close> for \<open>compress/gzip\<close>.
  The requests a round makes are its last result, so that properties can speak of them.
\<close>

section \<open>Definitions\<close>

definition MaxPayloadBytes :: int where "MaxPayloadBytes = 4 * 2 ^ 20"
definition DefaultInterval :: duration where "DefaultInterval = 30 * second"
definition FinalRoundBudget :: duration where "FinalRoundBudget = 4 * second"
definition minBackoff :: duration where "minBackoff = 5 * second"
definition maxBackoff :: duration where "maxBackoff = 5 * minute"

definition product :: string where "product = ''runtime-agent''"
definition maxVersion :: nat where "maxVersion = 64"

definition plainVersion :: "string \<Rightarrow> bool" where
  "plainVersion version = list_all (\<lambda>r. between 48 r 57 \<or> between 97 r 122 \<or> between 65 r 90 \<or>
     r = 46 \<or> r = 45 \<or> r = 43 \<or> r = 95) (runes version)"

definition userAgent :: "string \<Rightarrow> string" where
  "userAgent version =
     (if version = [] \<or> length version > maxVersion \<or> \<not> plainVersion version then product
      else product @ ''/'' @ version)"

record ifile =
  I_ino :: nat
  I_data :: string
  I_modTime :: time
  I_isDir :: bool

type_synonym idir = "(string, ifile) gomap"

definition SameFile :: "ifile \<Rightarrow> ifile \<Rightarrow> bool" where
  "SameFile a b \<longleftrightarrow> I_ino a = I_ino b"

record ShippingRejections =
  Rej_Unauthorized :: nat
  Rej_TooLarge :: nat
  Rej_Malformed :: nat

record Shipping =
  Ship_Delivered :: nat
  Ship_Deferred :: nat
  Ship_Unreadable :: nat
  Ship_HaltedSince :: "time option"
  Ship_Rejected :: ShippingRejections
  Ship_PayloadBytes :: nat
  Ship_TransmittedBytes :: nat

record Shipper =
  Sh_base :: string
  Sh_agent :: string
  Sh_haltedAt :: int
  Sh_held :: "(string, ifile) gomap"
  Sh_failures :: nat
  Sh_counts :: Shipping
  Sh_interval :: duration

definition zeroShipping :: Shipping where
  "zeroShipping = \<lparr>Ship_Delivered = 0, Ship_Deferred = 0, Ship_Unreadable = 0, Ship_HaltedSince = None,
     Ship_Rejected = \<lparr>Rej_Unauthorized = 0, Rej_TooLarge = 0, Rej_Malformed = 0\<rparr>,
     Ship_PayloadBytes = 0, Ship_TransmittedBytes = 0\<rparr>"

text \<open>\<open>New\<close>; \<^const>\<open>None\<close> is the nil shipper of an agent with no backend.\<close>

definition NewShipper :: "string \<Rightarrow> string \<Rightarrow> Shipper option" where
  "NewShipper base version =
     (if base = [] then None
      else Some \<lparr>Sh_base = rev (dropWhile (\<lambda>c. c = CHR ''/'') (rev base)), Sh_agent = userAgent version, Sh_haltedAt = 0,
        Sh_held = mempty, Sh_failures = 0, Sh_counts = zeroShipping, Sh_interval = DefaultInterval\<rparr>)"

definition halted :: "Shipper \<Rightarrow> bool" where
  "halted s \<longleftrightarrow> Sh_haltedAt s \<noteq> 0"

text \<open>\<open>time.Unix(0, at)\<close>.\<close>

definition Coverage :: "Shipper \<Rightarrow> Shipping" where
  "Coverage s = (if halted s then (Sh_counts s)\<lparr>Ship_HaltedSince := Some (epoch + Sh_haltedAt s)\<rparr> else Sh_counts s)"

record spooled =
  Sd_name :: string
  Sd_modTime :: time

definition less_spooled :: "spooled \<Rightarrow> spooled \<Rightarrow> bool" where
  "less_spooled a b = (if Sd_modTime a = Sd_modTime b then Sd_name a < Sd_name b else Sd_modTime a < Sd_modTime b)"

record pending_env =
  Pe_list_fails :: bool
  Pe_info_fails :: "string \<Rightarrow> bool"

text \<open>One entry of the listing: the marks that stay and the payloads to offer.\<close>

definition pending_entry ::
    "pending_env \<Rightarrow> (string, ifile) gomap \<Rightarrow> string \<times> ifile \<Rightarrow> (string, ifile) gomap \<times> spooled list \<Rightarrow>
     (string, ifile) gomap \<times> spooled list" where
  "pending_entry env held entry st =
     (let name = fst entry; info = snd entry; still = fst st; out = snd st in
      if I_isDir info \<or> HasSuffix name ''.tmp'' then st
      else if Pe_info_fails env name then st
      else case mget held name of
        Some prev \<Rightarrow>
          if SameFile prev info then (mput name prev still, out)
          else (still, out @ [\<lparr>Sd_name = name, Sd_modTime = I_modTime info\<rparr>])
      | None \<Rightarrow> (still, out @ [\<lparr>Sd_name = name, Sd_modTime = I_modTime info\<rparr>]))"

definition pending :: "pending_env \<Rightarrow> idir \<Rightarrow> Shipper \<Rightarrow> Shipper \<times> spooled list" where
  "pending env dir s =
     (if Pe_list_fails env then (s, [])
      else
        let (still, out) = fold (pending_entry env (Sh_held s)) (entries dir) (mempty, [])
        in (s\<lparr>Sh_held := still\<rparr>, sort_slice less_spooled out))"

definition bump :: "(Shipping \<Rightarrow> Shipping) \<Rightarrow> Shipper \<Rightarrow> Shipper" where
  "bump f s = s\<lparr>Sh_counts := f (Sh_counts s)\<rparr>"

definition count_unreadable :: "Shipping \<Rightarrow> Shipping" where
  "count_unreadable c = c\<lparr>Ship_Unreadable := addu64 (Ship_Unreadable c) 1\<rparr>"

definition count_too_large :: "Shipping \<Rightarrow> Shipping" where
  "count_too_large c = c\<lparr>Ship_Rejected := (Ship_Rejected c)\<lparr>Rej_TooLarge := addu64 (Rej_TooLarge (Ship_Rejected c)) 1\<rparr>\<rparr>"

definition count_malformed :: "Shipping \<Rightarrow> Shipping" where
  "count_malformed c = c\<lparr>Ship_Rejected := (Ship_Rejected c)\<lparr>Rej_Malformed := addu64 (Rej_Malformed (Ship_Rejected c)) 1\<rparr>\<rparr>"

definition count_unauthorized :: "Shipping \<Rightarrow> Shipping" where
  "count_unauthorized c =
     c\<lparr>Ship_Rejected := (Ship_Rejected c)\<lparr>Rej_Unauthorized := addu64 (Rej_Unauthorized (Ship_Rejected c)) 1\<rparr>\<rparr>"

definition hold :: "string \<Rightarrow> ifile \<Rightarrow> (Shipping \<Rightarrow> Shipping) \<Rightarrow> Shipper \<Rightarrow> Shipper" where
  "hold name info cnt s = bump cnt (s\<lparr>Sh_held := mput name info (Sh_held s)\<rparr>)"

definition deferred :: "Shipper \<Rightarrow> Shipper" where
  "deferred s = (let s = bump (\<lambda>c. c\<lparr>Ship_Deferred := addu64 (Ship_Deferred c) 1\<rparr>) s in s\<lparr>Sh_failures := Sh_failures s + 1\<rparr>)"

text \<open>\<open>url.PathEscape\<close>: the bytes a path segment may hold as they are, and the others in hex.\<close>

definition hex_digit :: "nat \<Rightarrow> char" where
  "hex_digit n = (if n < 10 then char_of (48 + n) else char_of (55 + n))"

definition PathEscape :: "string \<Rightarrow> string" where
  "PathEscape s = concat (map (\<lambda>c. let b = of_char c in
     if between 48 b 57 \<or> between 97 b 122 \<or> between 65 b 90 \<or> c \<in> set ''-_.~$&+:=@'' then [c]
     else [CHR ''%'', hex_digit (b div 16), hex_digit (b mod 16)]) s)"

datatype answer = PostFails | Status int

record request =
  Rq_endpoint :: string
  Rq_agent :: string
  Rq_body :: string
  Rq_file :: string

record offer_env =
  Oe_cancelled_before :: bool
  Oe_open_fails :: bool
  Oe_read_fails :: bool
  Oe_answer :: answer
  Oe_cancelled :: bool
  Oe_during :: "idir \<Rightarrow> idir"
  Oe_now :: time
  Oe_stat_fails :: bool
  Oe_remove_fails :: bool

datatype read_result = ReadError | ReadInfo ifile | ReadData string ifile

text \<open>\<open>io.LimitReader\<close>, and \<open>read\<close> with the stat of the open descriptor.\<close>

definition LimitReader :: "int \<Rightarrow> string \<Rightarrow> string" where
  "LimitReader n s = (if int (length s) \<le> n then s else take (nat n) s)"

definition read :: "offer_env \<Rightarrow> idir \<Rightarrow> string \<Rightarrow> read_result" where
  "read env dir name =
     (case mget dir name of
        None \<Rightarrow> ReadError
      | Some info \<Rightarrow>
          if Oe_open_fails env then ReadError
          else if int (length (I_data info)) > MaxPayloadBytes then ReadInfo info
          else if Oe_read_fails env then ReadError
          else ReadData (LimitReader (MaxPayloadBytes + 1) (I_data info)) info)"

definition payloadKind :: "(string \<Rightarrow> string option) \<Rightarrow> string \<Rightarrow> string option" where
  "payloadKind kind_of data =
     (case kind_of data of
        None \<Rightarrow> None
      | Some kind \<Rightarrow> if kind = [] then None else if Lookup kind = None then None else Some kind)"

text \<open>\<open>post\<close>: the request it made, if it came to that, and the status or the error.\<close>

definition post ::
    "(string \<Rightarrow> string option) \<Rightarrow> offer_env \<Rightarrow> string \<Rightarrow> string \<Rightarrow> string \<Rightarrow> Shipper \<Rightarrow> Shipper \<times> request list \<times> answer" where
  "post gzip env file kind body s =
     (case gzip body of
        None \<Rightarrow> (s, [], PostFails)
      | Some encoded \<Rightarrow>
          (bump (\<lambda>c. c\<lparr>Ship_PayloadBytes := addu64 (Ship_PayloadBytes c) (length body),
                       Ship_TransmittedBytes := addu64 (Ship_TransmittedBytes c) (length encoded)\<rparr>) s,
           [\<lparr>Rq_endpoint = Sh_base s @ ''/v1/kubernetes/'' @ PathEscape kind, Rq_agent = Sh_agent s, Rq_body = encoded,
             Rq_file = file\<rparr>],
           Oe_answer env))"

definition acknowledged :: "offer_env \<Rightarrow> string \<Rightarrow> ifile \<Rightarrow> Shipper \<Rightarrow> idir \<Rightarrow> Shipper \<times> idir" where
  "acknowledged env name sent s dir =
     (let s = (bump (\<lambda>c. c\<lparr>Ship_Delivered := addu64 (Ship_Delivered c) 1\<rparr>) s)\<lparr>Sh_failures := 0\<rparr> in
      case mget dir name of
        None \<Rightarrow> (s, dir)
      | Some current \<Rightarrow>
          if Oe_stat_fails env then (s, dir)
          else if \<not> SameFile sent current then (s, dir)
          else if Oe_remove_fails env then (s, dir)
          else (s, mdel name dir))"

record delivery =
  Dv_shipper :: Shipper
  Dv_dir :: idir
  Dv_requests :: "request list"
  Dv_continue :: bool

definition deliver ::
    "(string \<Rightarrow> string option) \<Rightarrow> (string \<Rightarrow> string option) \<Rightarrow> offer_env \<Rightarrow> string \<Rightarrow> Shipper \<Rightarrow> idir \<Rightarrow> delivery" where
  "deliver kind_of gzip env name s dir =
     (let result = (\<lambda>s dir rqs cont. \<lparr>Dv_shipper = s, Dv_dir = dir, Dv_requests = rqs, Dv_continue = cont\<rparr>) in
      case read env dir name of
        ReadError \<Rightarrow> result (bump count_unreadable s) dir [] True
      | ReadInfo info \<Rightarrow> result (hold name info count_too_large s) dir [] True
      | ReadData data info \<Rightarrow>
          if int (length data) > MaxPayloadBytes then result (hold name info count_too_large s) dir [] True
          else case payloadKind kind_of data of
            None \<Rightarrow> result (bump count_unreadable s) dir [] True
          | Some kind \<Rightarrow>
              let (s, rqs, ans) = post gzip env name kind data s; dir = Oe_during env dir in
              case ans of
                PostFails \<Rightarrow> if Oe_cancelled env then result s dir rqs False else result (deferred s) dir rqs False
              | Status status \<Rightarrow>
                  if status \<ge> 200 \<and> status < 300 then
                    (let (s, dir) = acknowledged env name info s dir in result s dir rqs True)
                  else if status = 401 \<or> status = 403 then
                    result ((bump count_unauthorized s)\<lparr>Sh_haltedAt := UnixNano (Oe_now env)\<rparr>) dir rqs False
                  else if status = 400 then result (hold name info count_malformed s) dir rqs True
                  else if status = 413 then result (hold name info count_too_large s) dir rqs True
                  else result (deferred s) dir rqs False)"

text \<open>The loop of \<open>Round\<close>; the environment of one offer is found by the payload's name.\<close>

fun round_loop ::
    "(string \<Rightarrow> string option) \<Rightarrow> (string \<Rightarrow> string option) \<Rightarrow> (string \<Rightarrow> offer_env) \<Rightarrow> spooled list \<Rightarrow> Shipper \<Rightarrow> idir \<Rightarrow>
     Shipper \<times> idir \<times> request list" where
  "round_loop kind_of gzip env [] s dir = (s, dir, [])"
| "round_loop kind_of gzip env (f # fs) s dir =
     (if Oe_cancelled_before (env (Sd_name f)) then (s, dir, [])
      else
        let d = deliver kind_of gzip (env (Sd_name f)) (Sd_name f) s dir in
        if \<not> Dv_continue d then (Dv_shipper d, Dv_dir d, Dv_requests d)
        else let (s, dir, rqs) = round_loop kind_of gzip env fs (Dv_shipper d) (Dv_dir d) in (s, dir, Dv_requests d @ rqs))"

definition Round ::
    "(string \<Rightarrow> string option) \<Rightarrow> (string \<Rightarrow> string option) \<Rightarrow> pending_env \<Rightarrow> (string \<Rightarrow> offer_env) \<Rightarrow> Shipper \<Rightarrow> idir \<Rightarrow>
     Shipper \<times> idir \<times> request list" where
  "Round kind_of gzip penv env s dir =
     (if halted s then (s, dir, [])
      else let (s, files) = pending penv dir s in round_loop kind_of gzip env files s dir)"

text \<open>\<open>FinalRound\<close>: what its budget does to the requests is in the environment of the round.\<close>

definition FinalRound ::
    "(string \<Rightarrow> string option) \<Rightarrow> (string \<Rightarrow> string option) \<Rightarrow> pending_env \<Rightarrow> (string \<Rightarrow> offer_env) \<Rightarrow> Shipper \<Rightarrow> idir \<Rightarrow>
     Shipper \<times> idir \<times> request list" where
  "FinalRound kind_of gzip penv env s dir =
     (if halted s then (s, dir, []) else Round kind_of gzip penv env s dir)"

text \<open>
  \<open>Run\<close>, round after round until the context is cancelled, which ends the list, or shipping has
  halted. \<open>Re_before\<close> is what the writers and the sweep did to the spool since the last round. The
  last result pairs every request with its answer.
\<close>

record round_env =
  Re_before :: "idir \<Rightarrow> idir"
  Re_pending :: pending_env
  Re_offer :: "string \<Rightarrow> offer_env"

fun Run ::
    "(string \<Rightarrow> string option) \<Rightarrow> (string \<Rightarrow> string option) \<Rightarrow> round_env list \<Rightarrow> Shipper \<Rightarrow> idir \<Rightarrow>
     Shipper \<times> idir \<times> (request \<times> answer) list" where
  "Run kind_of gzip [] s dir = (s, dir, [])"
| "Run kind_of gzip (r # rs) s dir =
     (let (s, dir, rqs) = Round kind_of gzip (Re_pending r) (Re_offer r) s (Re_before r dir);
          answers = map (\<lambda>rq. (rq, Oe_answer (Re_offer r (Rq_file rq)))) rqs
      in if halted s then (s, dir, answers)
         else let (s, dir, later) = Run kind_of gzip rs s dir in (s, dir, answers @ later))"

text \<open>The loop of \<open>nextDelay\<close>, from \<open>i = 1\<close>.\<close>

function backoff_loop :: "nat \<Rightarrow> nat \<Rightarrow> duration \<Rightarrow> duration" where
  "backoff_loop failures i d = (if i < failures \<and> d < maxBackoff then backoff_loop failures (i + 1) (d * 2) else d)"
  by pat_completeness auto
termination
  by (relation "measure (\<lambda>(failures, i, d). failures - i)") auto

text \<open>\<open>jitter\<close> is \<open>rand.Int64N\<close>: its answer is an argument, below the bound it is asked for.\<close>

definition nextDelay :: "(int \<Rightarrow> int) \<Rightarrow> Shipper \<Rightarrow> duration" where
  "nextDelay jitter s =
     (if Sh_failures s = 0 then Sh_interval s
      else
        let d = backoff_loop (Sh_failures s) 1 minBackoff;
            d = (if d > maxBackoff then maxBackoff else d)
        in d div 2 + jitter (d div 2))"

section \<open>One offer\<close>

lemma acknowledged_sel:
  "acknowledged env name sent s dir = (s', dir') \<Longrightarrow> dir' = dir \<or>
     (dir' = mdel name dir \<and> (\<exists>current. mget dir name = Some current \<and> SameFile sent current))"
  by (auto simp: acknowledged_def Let_def split: option.splits if_splits)

lemma acknowledged_frame:
  assumes "acknowledged env name sent s dir = (s', dir')"
  shows "Sh_haltedAt s' = Sh_haltedAt s" "Sh_held s' = Sh_held s" "Sh_base s' = Sh_base s" "Sh_agent s' = Sh_agent s"
    "Sh_failures s' = 0"
  using assms by (auto simp: acknowledged_def bump_def Let_def split: option.splits if_splits)

lemma post_frame:
  assumes "post gzip env file kind body s = (s', rqs, ans)"
  shows "Sh_haltedAt s' = Sh_haltedAt s" "Sh_held s' = Sh_held s" "Sh_failures s' = Sh_failures s"
    and "Sh_base s' = Sh_base s" "Sh_agent s' = Sh_agent s"
  using assms by (auto simp: post_def bump_def split: option.splits)

text \<open>
  C11. A file leaves the spool only on the strength of an acknowledgment of its own bytes: what
  offering one payload does to the directory, beside what others do to it while the request
  is in flight, is nothing, or the removal of that payload, and then the backend answered a
  status of the 200s to a request that carried the bytes of the file, and the file removed is
  the one that was read: a newer payload under the same name is left.
\<close>

theorem deliver_removes_acknowledged:
  "Dv_dir (deliver kind_of gzip env name s dir) \<in> {dir, Oe_during env dir} \<or>
   (\<exists>info current status encoded rq. mget dir name = Some info \<and> mget (Oe_during env dir) name = Some current \<and>
      I_ino current = I_ino info \<and> Oe_answer env = Status status \<and> 200 \<le> status \<and> status < 300 \<and>
      gzip (I_data info) = Some encoded \<and> Dv_requests (deliver kind_of gzip env name s dir) = [rq] \<and>
      Rq_body rq = encoded \<and> Dv_dir (deliver kind_of gzip env name s dir) = mdel name (Oe_during env dir))"
proof (cases "read env dir name")
  case (ReadData data info)
  then have info: "mget dir name = Some info" "data = I_data info"
    by (auto simp: read_def LimitReader_def split: option.splits if_splits)
  show ?thesis
  proof (cases "payloadKind kind_of data")
    case (Some kind)
    obtain t rqs ans where p: "post gzip env name kind data s = (t, rqs, ans)" by (metis prod_cases3)
    obtain u dir' where a: "acknowledged env name info t (Oe_during env dir) = (u, dir')" by force
    show ?thesis
      using ReadData Some p a info acknowledged_sel [OF a]
      by (auto simp: deliver_def Let_def post_def SameFile_def split: answer.splits option.splits)
  qed (use ReadData in \<open>simp add: deliver_def\<close>)
qed (simp_all add: deliver_def)

section \<open>Backoff\<close>

declare backoff_loop.simps [simp del]

lemma backoff_loop_min:
  "0 < d \<Longrightarrow> i \<le> failures \<Longrightarrow>
   min maxBackoff (backoff_loop failures i d) = min maxBackoff (d * 2 ^ (failures - i))"
proof (induction failures i d rule: backoff_loop.induct)
  case (1 failures i d)
  show ?case
  proof (cases "i < failures \<and> d < maxBackoff")
    case True
    then have "failures - i = Suc (failures - (i + 1))" by (simp add: Suc_diff_Suc)
    moreover have "backoff_loop failures i d = backoff_loop failures (i + 1) (d * 2)" using True by (subst backoff_loop.simps) simp
    ultimately show ?thesis using "1.IH" [OF True] "1.prems" True by (simp add: mult.assoc)
  next
    case False
    have "d * 1 \<le> d * 2 ^ (failures - i)" using "1.prems"(1) by (intro mult_left_mono) auto
    moreover have "backoff_loop failures i d = d" using False by (subst backoff_loop.simps) auto
    ultimately show ?thesis using False "1.prems"(2) by (auto simp: min_def not_less)
  qed
qed

text \<open>
  The delay before a round: the fixed interval while deliveries land; after \<open>n\<close> consecutive
  failures, between half of the backoff and the whole of it, where the backoff doubles from
  five seconds with each failure and stays at five minutes, whatever the jitter draws.
\<close>

theorem nextDelay_bounds:
  assumes "\<And>n. 0 < n \<Longrightarrow> 0 \<le> jitter n \<and> jitter n < n"
  shows "if Sh_failures s = 0 then nextDelay jitter s = Sh_interval s
    else min (5 * minute) (5 * second * 2 ^ (Sh_failures s - 1)) \<le> 2 * nextDelay jitter s \<and>
      nextDelay jitter s < min (5 * minute) (5 * second * 2 ^ (Sh_failures s - 1))"
proof (cases "Sh_failures s = 0")
  case False
  define D where "D = min (5 * minute) (5 * second * 2 ^ (Sh_failures s - 1))"
  have "D = min maxBackoff (backoff_loop (Sh_failures s) 1 minBackoff)"
    using backoff_loop_min [of minBackoff 1 "Sh_failures s"] False
    by (simp add: D_def maxBackoff_def minBackoff_def)
  then have delay: "nextDelay jitter s = D div 2 + jitter (D div 2)"
    using False by (simp add: nextDelay_def Let_def min_def)
  have "even D" "0 < D" by (auto simp: D_def min_def minute_def second_def)
  then have "2 * (D div 2) = D" "0 < D div 2" by auto
  then show ?thesis using False assms [of "D div 2"] delay unfolding D_def [symmetric] by auto
qed (simp add: nextDelay_def)

theorem nextDelay_bounds_witness:
  "nextDelay (\<lambda>n. n - 1) (the (NewShipper ''https://b'' ''1''))= 30 * second \<and>
   nextDelay (\<lambda>n. n - 1) ((the (NewShipper ''https://b'' ''1''))\<lparr>Sh_failures := 3\<rparr>) < 20 * second"
proof -
  have j: "0 \<le> n - 1 \<and> n - 1 < n" if "0 < n" for n :: int using that by simp
  show ?thesis
    using nextDelay_bounds [OF j, of "the (NewShipper ''https://b'' ''1'')"]
      nextDelay_bounds [OF j, of "(the (NewShipper ''https://b'' ''1''))\<lparr>Sh_failures := 3\<rparr>"]
    by (simp add: NewShipper_def DefaultInterval_def minute_def second_def)
qed

section \<open>The list of a round\<close>

definition shippable :: "pending_env \<Rightarrow> string \<times> ifile \<Rightarrow> bool" where
  "shippable env e \<longleftrightarrow> \<not> I_isDir (snd e) \<and> \<not> HasSuffix (fst e) ''.tmp'' \<and> \<not> Pe_info_fails env (fst e)"

definition is_held :: "(string, ifile) gomap \<Rightarrow> string \<times> ifile \<Rightarrow> bool" where
  "is_held held e \<longleftrightarrow> (\<exists>prev. mget held (fst e) = Some prev \<and> SameFile prev (snd e))"

definition mk_spooled :: "string \<times> ifile \<Rightarrow> spooled" where
  "mk_spooled e = \<lparr>Sd_name = fst e, Sd_modTime = I_modTime (snd e)\<rparr>"

lemma pending_fold:
  "fold (pending_entry env held) es (still, out) =
   (fold (\<lambda>e. mput (fst e) (the (mget held (fst e)))) (filter (\<lambda>e. shippable env e \<and> is_held held e) es) still,
    out @ map mk_spooled (filter (\<lambda>e. shippable env e \<and> \<not> is_held held e) es))"
  by (induction es arbitrary: still out)
    (auto simp: pending_entry_def shippable_def is_held_def mk_spooled_def Let_def split: option.splits)

lemma mget_fold_marks:
  "mget (fold (\<lambda>e. mput (fst e) (v (fst e))) es m) n = (if n \<in> fst ` set es then Some (v n) else mget m n)"
  by (induction es arbitrary: m) auto

interpretation spooled_order: sort_order less_spooled "\<lambda>f. (Sd_modTime f, Sd_name f)"
  by unfold_locales (auto simp: less_spooled_def)

lemma pending_eq:
  assumes "pending env dir s = (s', files)" and "\<not> Pe_list_fails env"
  shows "files = sort_slice less_spooled (map mk_spooled (filter (\<lambda>e. shippable env e \<and> \<not> is_held (Sh_held s) e) (entries dir)))"
    and "s' = s\<lparr>Sh_held := Sh_held s'\<rparr>"
    and "mget (Sh_held s') n = (case mget dir n of None \<Rightarrow> None
      | Some f \<Rightarrow> if shippable env (n, f) \<and> is_held (Sh_held s) (n, f) then mget (Sh_held s) n else None)"
proof -
  show "files = sort_slice less_spooled (map mk_spooled (filter (\<lambda>e. shippable env e \<and> \<not> is_held (Sh_held s) e) (entries dir)))"
    "s' = s\<lparr>Sh_held := Sh_held s'\<rparr>"
    using assms by (auto simp: pending_def pending_fold)
  let ?held = "filter (\<lambda>e. shippable env e \<and> is_held (Sh_held s) e) (entries dir)"
  have held: "mget (Sh_held s') n = (if n \<in> fst ` set ?held then Some (the (mget (Sh_held s) n)) else None)"
  proof -
    have "Sh_held s' = fold (\<lambda>e. mput (fst e) (the (mget (Sh_held s) (fst e)))) ?held mempty"
      using assms by (auto simp: pending_def pending_fold)
    then show ?thesis using mget_fold_marks [of "\<lambda>n. the (mget (Sh_held s) n)" ?held mempty n] by (simp only: mget_mempty)
  qed
  have "n \<in> fst ` set ?held \<longleftrightarrow> (\<exists>f. mget dir n = Some f \<and> shippable env (n, f) \<and> is_held (Sh_held s) (n, f))"
    by (force simp: mget_entries)
  then show "mget (Sh_held s') n = (case mget dir n of None \<Rightarrow> None
      | Some f \<Rightarrow> if shippable env (n, f) \<and> is_held (Sh_held s) (n, f) then mget (Sh_held s) n else None)"
    unfolding held by (auto simp: is_held_def split: option.splits)
qed

lemma spooled_distinct:
  "distinct (map Sd_name (map mk_spooled (filter P (entries dir))))"
  using distinct_map_filter [OF entries_distinct, of P dir] by (simp add: mk_spooled_def comp_def)

lemma pending_distinct:
  assumes "pending env dir s = (s', files)" and "\<not> Pe_list_fails env"
  shows "distinct (map Sd_name files)"
proof -
  have "mset (map Sd_name files) =
      mset (map Sd_name (map mk_spooled (filter (\<lambda>e. shippable env e \<and> \<not> is_held (Sh_held s) e) (entries dir))))"
    unfolding pending_eq(1) [OF assms] mset_map mset_sort_slice ..
  then show ?thesis using spooled_distinct mset_eq_imp_distinct_iff by blast
qed

text \<open>
  What a round offers: every complete payload of the spool exactly once, except those this
  process holds back, and a payload is held back only while the file is the one that was
  refused: when a writer has replaced it, the mark is forgotten and the new version is
  offered. Older payloads come first.
\<close>

theorem pending_offers:
  assumes "pending env dir s = (s', files)" and "\<not> Pe_list_fails env"
  shows "set files = {\<lparr>Sd_name = n, Sd_modTime = I_modTime f\<rparr> | n f. mget dir n = Some f \<and> shippable env (n, f) \<and>
      (\<forall>prev. mget (Sh_held s) n = Some prev \<longrightarrow> I_ino prev \<noteq> I_ino f)} \<and>
    distinct (map Sd_name files) \<and> sorted (map (\<lambda>f. (Sd_modTime f, Sd_name f)) files) \<and>
    (\<forall>n f prev. mget dir n = Some f \<and> mget (Sh_held s) n = Some prev \<and> I_ino prev \<noteq> I_ino f \<longrightarrow> mget (Sh_held s') n = None)"
proof -
  note eq = pending_eq [OF assms]
  have "set files = mk_spooled ` {e \<in> set (entries dir). shippable env e \<and> \<not> is_held (Sh_held s) e}"
    by (simp add: eq(1))
  also have "\<dots> = {\<lparr>Sd_name = n, Sd_modTime = I_modTime f\<rparr> | n f. mget dir n = Some f \<and> shippable env (n, f) \<and>
      (\<forall>prev. mget (Sh_held s) n = Some prev \<longrightarrow> I_ino prev \<noteq> I_ino f)}"
    by (auto simp: image_iff Bex_def split_paired_Ex mk_spooled_def is_held_def SameFile_def mget_entries)
  finally have set: "set files = \<dots>" .
  have "distinct (map Sd_name files)" by (rule pending_distinct [OF assms(1,2)])
  moreover have "sorted (map (\<lambda>f. (Sd_modTime f, Sd_name f)) files)"
    unfolding eq(1) by (rule spooled_order.sorted_sort_slice)
  ultimately show ?thesis using set eq(3) by (auto simp: is_held_def SameFile_def)
qed

definition demo_file :: "nat \<Rightarrow> time \<Rightarrow> ifile" where
  "demo_file ino t = \<lparr>I_ino = ino, I_data = ''node_metadata'', I_modTime = t, I_isDir = False\<rparr>"

definition demo_dir :: idir where
  "demo_dir = mput ''a.json'' (demo_file 1 9) (mput ''b.json'' (demo_file 2 4) (mput ''c.tmp'' (demo_file 3 1) mempty))"

definition demo_shipper :: Shipper where
  "demo_shipper = (the (NewShipper ''https://backend/'' ''1.2.0''))\<lparr>Sh_held := mput ''a.json'' (demo_file 7 0) mempty\<rparr>"

definition open_env :: pending_env where
  "open_env = \<lparr>Pe_list_fails = False, Pe_info_fails = (\<lambda>_. False)\<rparr>"

theorem pending_offers_witness:
  "\<exists>s' files. pending open_env demo_dir demo_shipper = (s', files) \<and> distinct (map Sd_name files) \<and>
    \<lparr>Sd_name = ''a.json'', Sd_modTime = 9\<rparr> \<in> set files \<and> mget (Sh_held s') ''a.json'' = None"
proof -
  obtain s' files where p: "pending open_env demo_dir demo_shipper = (s', files)" by force
  have a: "mget demo_dir ''a.json'' = Some (demo_file 1 9)" "mget (Sh_held demo_shipper) ''a.json'' = Some (demo_file 7 0)"
    by (simp_all add: demo_dir_def demo_shipper_def)
  have "shippable open_env (''a.json'', demo_file 1 9)" by (simp add: shippable_def open_env_def demo_file_def HasSuffix_def)
  then show ?thesis
    using pending_offers [OF p] a p by (auto simp: open_env_def demo_file_def)
qed

section \<open>The requests of a round\<close>

definition settled :: "answer \<Rightarrow> bool" where
  "settled ans = (case ans of PostFails \<Rightarrow> False | Status st \<Rightarrow> 200 \<le> st \<and> st < 300 \<or> st = 400 \<or> st = 413)"

definition refused_identity :: "answer \<Rightarrow> bool" where
  "refused_identity ans = (case ans of PostFails \<Rightarrow> False | Status st \<Rightarrow> st = 401 \<or> st = 403)"

lemma bump_frame [simp]:
  "Sh_haltedAt (bump f s) = Sh_haltedAt s" "Sh_held (bump f s) = Sh_held s" "Sh_failures (bump f s) = Sh_failures s"
  "Sh_haltedAt (hold n i f s) = Sh_haltedAt s" "Sh_haltedAt (deferred s) = Sh_haltedAt s"
  by (simp_all add: bump_def hold_def deferred_def Let_def)

lemma post_requests:
  "post gzip env file kind body s = (s', rqs, ans) \<Longrightarrow>
   rqs = [] \<and> ans = PostFails \<or> (\<exists>rq. rqs = [rq] \<and> Rq_file rq = file \<and> ans = Oe_answer env)"
  by (auto simp: post_def split: option.splits)

text \<open>Either nothing was asked of the backend, or one request was made and its answer decides.\<close>

lemma deliver_outcome:
  assumes "d = deliver kind_of gzip env name s dir"
  shows "(Dv_requests d = [] \<and> Sh_haltedAt (Dv_shipper d) = Sh_haltedAt s) \<or>
    (\<exists>rq. Dv_requests d = [rq] \<and> Rq_file rq = name \<and> Dv_continue d = settled (Oe_answer env) \<and>
      Sh_haltedAt (Dv_shipper d) = (if refused_identity (Oe_answer env) then UnixNano (Oe_now env) else Sh_haltedAt s))"
proof (cases "read env dir name")
  case (ReadData data info)
  show ?thesis
  proof (cases "int (length data) \<le> MaxPayloadBytes \<and> payloadKind kind_of data \<noteq> None")
    case True
    then obtain kind where kind: "payloadKind kind_of data = Some kind" "\<not> int (length data) > MaxPayloadBytes" by auto
    obtain t rqs ans where p: "post gzip env name kind data s = (t, rqs, ans)" by (metis prod_cases3)
    obtain u dir' where a: "acknowledged env name info t (Oe_during env dir) = (u, dir')" by force
    note unf = deliver_def Let_def settled_def refused_identity_def
    consider (none) "rqs = []" "ans = PostFails" | (one) rq where "rqs = [rq]" "Rq_file rq = name" "ans = Oe_answer env"
      using post_requests [OF p] by blast
    then show ?thesis
    proof cases
      case none
      then show ?thesis using ReadData kind p post_frame(1) [OF p] unfolding assms by (simp add: unf)
    next
      case (one rq)
      then show ?thesis
        using ReadData kind p a post_frame(1) [OF p] acknowledged_frame(1) [OF a]
        unfolding assms by (cases "Oe_answer env") (simp_all add: unf)
    qed
  qed (use ReadData in \<open>auto simp: deliver_def assms\<close>)
qed (simp_all add: deliver_def assms)

lemma deliver_requests:
  "Dv_requests (deliver kind_of gzip env name s dir) = [] \<or> (\<exists>rq. Dv_requests (deliver kind_of gzip env name s dir) = [rq] \<and> Rq_file rq = name)"
  using deliver_outcome [OF refl, of kind_of gzip env name s dir] by auto

lemma round_loop_requests:
  "round_loop kind_of gzip env fs s dir = (s', dir', rqs) \<Longrightarrow>
   (\<exists>gs. subseq gs fs \<and> map Rq_file rqs = map Sd_name gs) \<and> (\<forall>rq \<in> set (butlast rqs). settled (Oe_answer (env (Rq_file rq))))"
proof (induction fs arbitrary: s dir rqs)
  case (Cons f fs)
  define d where "d = deliver kind_of gzip (env (Sd_name f)) (Sd_name f) s dir"
  consider (cancelled) "rqs = []" | (stop) "\<not> Dv_continue d" "rqs = Dv_requests d"
    | (more) rest where "Dv_continue d" "round_loop kind_of gzip env fs (Dv_shipper d) (Dv_dir d) = (s', dir', rest)"
        "rqs = Dv_requests d @ rest"
    using Cons.prems by (auto simp: d_def [symmetric] Let_def split: if_splits prod.splits)
  then show ?case
  proof cases
    case cancelled
    then show ?thesis by (auto intro: exI [of _ "[]"])
  next
    case stop
    then show ?thesis
      using deliver_requests [of kind_of gzip "env (Sd_name f)" "Sd_name f" s dir]
      by (auto simp: d_def intro: exI [of _ "[]"] exI [of _ "[f]"])
  next
    case more
    obtain gs where gs: "subseq gs fs" "map Rq_file rest = map Sd_name gs" using Cons.IH [OF more(2)] by blast
    consider "Dv_requests d = []" | rq where "Dv_requests d = [rq]" "Rq_file rq = Sd_name f" "settled (Oe_answer (env (Rq_file rq)))"
      using deliver_outcome [OF d_def] more(1) by auto
    then show ?thesis
    proof cases
      case 1
      then show ?thesis using Cons.IH [OF more(2)] more(3) gs by (auto intro: list_emb_Cons)
    next
      case (2 rq)
      then have "subseq (f # gs) (f # fs)" "map Rq_file rqs = map Sd_name (f # gs)" using gs more(3) by auto
      moreover have "\<forall>rq \<in> set (butlast rqs). settled (Oe_answer (env (Rq_file rq)))"
        using 2 more(3) Cons.IH [OF more(2)] by (auto simp: butlast_append split: if_splits)
      ultimately show ?thesis by blast
    qed
  qed
qed (auto intro: exI [of _ "[]"])

lemma subseq_members: "subseq xs ys \<Longrightarrow> x \<in> set xs \<Longrightarrow> x \<in> set ys"
  by (auto dest: list_emb_set)

lemma sorted_wrt_subseq: "subseq xs ys \<Longrightarrow> sorted_wrt R ys \<Longrightarrow> sorted_wrt R xs"
proof (induction rule: list_emb.induct)
  case (list_emb_Cons2 x y xs ys)
  then show ?case using subseq_members by fastforce
qed auto

text \<open>
  A round is one pass over the spool in the order of age: its requests are made one after
  another, each payload at most once and an older one always before a newer one, and the
  round ends with the first answer that does not settle its payload, so every request but
  the last was answered with a status of the 200s, a 400 or a 413.
\<close>

theorem Round_oldest_first:
  assumes "Round kind_of gzip penv env s dir = (s', dir', rqs)"
  shows "sorted_wrt (\<lambda>a b. \<exists>f g. mget dir (Rq_file a) = Some f \<and> mget dir (Rq_file b) = Some g \<and>
      (I_modTime f, Rq_file a) < (I_modTime g, Rq_file b)) rqs \<and>
    (\<forall>rq \<in> set (butlast rqs). settled (Oe_answer (env (Rq_file rq))))"
proof (cases "halted s \<or> Pe_list_fails penv")
  case True
  then have "rqs = []" using assms by (cases "halted s") (auto simp: Round_def pending_def)
  then show ?thesis by simp
next
  case False
  obtain t files where p: "pending penv dir s = (t, files)" by force
  have loop: "round_loop kind_of gzip env files t dir = (s', dir', rqs)" using assms False p by (simp add: Round_def)
  have nl: "\<not> Pe_list_fails penv" using False by blast
  let ?R = "\<lambda>x y. (Sd_modTime x, Sd_name x) < (Sd_modTime y, Sd_name y)"
  obtain gs where gs: "subseq gs files" "map Rq_file rqs = map Sd_name gs" "\<forall>rq \<in> set (butlast rqs). settled (Oe_answer (env (Rq_file rq)))"
    using round_loop_requests [OF loop] by blast
  have files: "files = sort_slice less_spooled (map mk_spooled (filter (\<lambda>e. shippable penv e \<and> \<not> is_held (Sh_held s) e) (entries dir)))"
    by (rule pending_eq(1) [OF p nl])
  have "distinct (map Sd_name files)" by (rule pending_distinct [OF p nl])
  then have "distinct (map (\<lambda>f. (Sd_modTime f, Sd_name f)) files)" by (auto simp: distinct_map inj_on_def)
  moreover have "sorted (map (\<lambda>f. (Sd_modTime f, Sd_name f)) files)" unfolding files by (rule spooled_order.sorted_sort_slice)
  ultimately have "sorted_wrt (<) (map (\<lambda>f. (Sd_modTime f, Sd_name f)) files)" by (simp only: strict_sorted_iff)
  then have "sorted_wrt ?R files" unfolding sorted_wrt_map .
  then have sg: "sorted_wrt ?R gs" by (rule sorted_wrt_subseq [OF gs(1)])
  have time: "\<exists>h. mget dir (Sd_name g) = Some h \<and> I_modTime h = Sd_modTime g" if "g \<in> set gs" for g
  proof -
    have "g \<in> set files" using subseq_members [OF gs(1) that] .
    then show ?thesis unfolding files by (auto simp: mk_spooled_def mget_entries)
  qed
  have "sorted_wrt (\<lambda>x y. \<exists>f g. mget dir (Sd_name x) = Some f \<and> mget dir (Sd_name y) = Some g \<and>
      (I_modTime f, Sd_name x) < (I_modTime g, Sd_name y)) gs"
    by (rule sorted_wrt_mono_rel [OF _ sg]) (metis time)
  then have "sorted_wrt (\<lambda>a b. \<exists>f g. mget dir a = Some f \<and> mget dir b = Some g \<and> (I_modTime f, a) < (I_modTime g, b)) (map Rq_file rqs)"
    unfolding gs(2) sorted_wrt_map .
  then show ?thesis using gs(3) unfolding sorted_wrt_map by blast
qed

definition calm_offer :: "answer \<Rightarrow> offer_env" where
  "calm_offer ans = \<lparr>Oe_cancelled_before = False, Oe_open_fails = False, Oe_read_fails = False, Oe_answer = ans,
     Oe_cancelled = False, Oe_during = (\<lambda>dir. dir), Oe_now = epoch + 5, Oe_stat_fails = False, Oe_remove_fails = False\<rparr>"

theorem Round_oldest_first_witness:
  "\<exists>s' dir' rqs. Round Some Some open_env (\<lambda>_. calm_offer (Status 204)) demo_shipper demo_dir = (s', dir', rqs) \<and>
    map Rq_file rqs = [''b.json'', ''a.json''] \<and> I_modTime (the (mget demo_dir ''b.json'')) < I_modTime (the (mget demo_dir ''a.json''))"
proof -
  obtain s' dir' rqs where r: "Round Some Some open_env (\<lambda>_. calm_offer (Status 204)) demo_shipper demo_dir = (s', dir', rqs)"
    by (metis prod_cases3)
  have "map Rq_file (snd (snd (Round Some Some open_env (\<lambda>_. calm_offer (Status 204)) demo_shipper demo_dir))) = [''b.json'', ''a.json'']"
    by code_simp
  then have "map Rq_file rqs = [''b.json'', ''a.json'']" using r by simp
  then show ?thesis using Round_oldest_first [OF r] r by (auto simp: map_eq_Cons_conv demo_dir_def demo_file_def)
qed

section \<open>Halting\<close>

lemma round_loop_halts:
  assumes "\<And>n. UnixNano (Oe_now (env n)) \<noteq> 0"
  shows "round_loop kind_of gzip env fs s dir = (s', dir', rqs) \<Longrightarrow> \<not> halted s \<Longrightarrow>
    halted s' \<longleftrightarrow> rqs \<noteq> [] \<and> refused_identity (Oe_answer (env (Rq_file (last rqs))))"
proof (induction fs arbitrary: s dir rqs)
  case (Cons f fs)
  define d where "d = deliver kind_of gzip (env (Sd_name f)) (Sd_name f) s dir"
  note out = deliver_outcome [OF d_def]
  consider (cancelled) "rqs = []" "s' = s" | (stop) "\<not> Dv_continue d" "rqs = Dv_requests d" "s' = Dv_shipper d"
    | (more) rest where "Dv_continue d" "round_loop kind_of gzip env fs (Dv_shipper d) (Dv_dir d) = (s', dir', rest)"
        "rqs = Dv_requests d @ rest"
    using Cons.prems(1) by (auto simp: d_def [symmetric] Let_def split: if_splits prod.splits)
  then show ?case
  proof cases
    case stop
    then show ?thesis using out assms Cons.prems(2) by (auto simp: halted_def split: if_splits)
  next
    case more
    have no: "\<not> refused_identity ans" if "settled ans" for ans
      using that by (auto simp: settled_def refused_identity_def split: answer.splits)
    have "\<not> halted (Dv_shipper d)" using out more(1) Cons.prems(2) no by (auto simp: halted_def)
    then have ih: "halted s' \<longleftrightarrow> rest \<noteq> [] \<and> refused_identity (Oe_answer (env (Rq_file (last rest))))"
      by (rule Cons.IH [OF more(2)])
    show ?thesis
    proof (cases "rest = []")
      case True
      then show ?thesis using ih out more(1,3) no by auto
    next
      case False
      then show ?thesis using ih more(3) by simp
    qed
  qed (use Cons.prems in auto)
qed simp

lemma Round_halts:
  assumes "Round kind_of gzip penv env s dir = (s', dir', rqs)" and "\<And>n. UnixNano (Oe_now (env n)) \<noteq> 0" and "\<not> halted s"
  shows "halted s' \<longleftrightarrow> rqs \<noteq> [] \<and> refused_identity (Oe_answer (env (Rq_file (last rqs))))"
    and "\<forall>rq \<in> set (butlast rqs). \<not> refused_identity (Oe_answer (env (Rq_file rq)))"
proof -
  obtain t files where p: "pending penv dir s = (t, files)" by force
  have loop: "round_loop kind_of gzip env files t dir = (s', dir', rqs)" using assms(1,3) p by (simp add: Round_def)
  have "\<not> halted t" using p assms(3) by (auto simp: pending_def halted_def split: if_splits prod.splits)
  then show "halted s' \<longleftrightarrow> rqs \<noteq> [] \<and> refused_identity (Oe_answer (env (Rq_file (last rqs))))"
    by (rule round_loop_halts [OF assms(2) loop])
  show "\<forall>rq \<in> set (butlast rqs). \<not> refused_identity (Oe_answer (env (Rq_file rq)))"
    using round_loop_requests [OF loop] by (auto simp: settled_def refused_identity_def split: answer.splits)
qed

lemma FinalRound_halted: "halted s \<Longrightarrow> FinalRound kind_of gzip penv env s dir = (s, dir, [])"
  by (simp add: FinalRound_def)

text \<open>
  Nothing retries into a rejected credential: over any run of rounds, whatever the writers do
  between them, the first answer that refuses the agent's identity is the answer to the last
  request of the run; shipping has then halted, and the final round of a shutdown makes no
  request and changes nothing. Without such an answer the run never halts.
\<close>

theorem shipping_halts:
  assumes "\<forall>r \<in> set rs. \<forall>n. UnixNano (Oe_now (Re_offer r n)) \<noteq> 0" and "\<not> halted s"
    and "Run kind_of gzip rs s dir = (s', dir', answers)"
  shows "(\<forall>e \<in> set (butlast answers). \<not> refused_identity (snd e)) \<and>
    (halted s' \<longleftrightarrow> answers \<noteq> [] \<and> refused_identity (snd (last answers))) \<and>
    (halted s' \<longrightarrow> (\<forall>penv env dir. FinalRound kind_of gzip penv env s' dir = (s', dir, [])))"
  using assms
proof (induction rs arbitrary: s dir answers)
  case (Cons r rs)
  obtain t tdir rqs where round: "Round kind_of gzip (Re_pending r) (Re_offer r) s (Re_before r dir) = (t, tdir, rqs)"
    by (metis prod_cases3)
  define first where "first = map (\<lambda>rq. (rq, Oe_answer (Re_offer r (Rq_file rq)))) rqs"
  have clock: "UnixNano (Oe_now (Re_offer r n)) \<noteq> 0" for n using Cons.prems(1) by simp
  have h: "halted t \<longleftrightarrow> first \<noteq> [] \<and> refused_identity (snd (last first))"
    "\<forall>e \<in> set (butlast first). \<not> refused_identity (snd e)"
    using Round_halts [OF round clock Cons.prems(2)] by (auto simp: first_def last_map map_butlast [symmetric])
  show ?case
  proof (cases "halted t")
    case True
    then have "answers = first" "s' = t" using Cons.prems(3) round by (auto simp: first_def)
    then show ?thesis using h True FinalRound_halted by blast
  next
    case False
    then obtain later where later: "Run kind_of gzip rs t tdir = (s', dir', later)" "answers = first @ later"
      using Cons.prems(3) round by (auto simp: first_def Let_def split: prod.splits)
    have none: "\<forall>e \<in> set first. \<not> refused_identity (snd e)"
      using h False by (metis append_butlast_last_id in_set_butlastD in_set_conv_decomp set_ConsD split_list_last append_Nil2 Un_iff set_append list.set(1) list.set(2) insert_iff empty_iff)
    have ih: "(\<forall>e \<in> set (butlast later). \<not> refused_identity (snd e)) \<and>
      (halted s' \<longleftrightarrow> later \<noteq> [] \<and> refused_identity (snd (last later))) \<and>
      (halted s' \<longrightarrow> (\<forall>penv env dir. FinalRound kind_of gzip penv env s' dir = (s', dir, [])))"
      using Cons.IH [OF _ False later(1)] Cons.prems(1) by simp
    show ?thesis
    proof (cases "later = []")
      case True
      then show ?thesis using ih none later(2) by (auto dest: in_set_butlastD)
    next
      case False
      then show ?thesis using ih none later(2) by (auto simp: butlast_append)
    qed
  qed
qed (simp add: FinalRound_halted)

definition refusing_round :: round_env where
  "refusing_round = \<lparr>Re_before = (\<lambda>dir. dir), Re_pending = open_env, Re_offer = (\<lambda>_. calm_offer (Status 401))\<rparr>"

theorem shipping_halts_witness:
  "\<exists>s' dir' answers. Run Some Some [refusing_round, refusing_round] demo_shipper demo_dir = (s', dir', answers) \<and>
    map snd answers = [Status 401] \<and> halted s'"
proof -
  obtain s' dir' answers where r: "Run Some Some [refusing_round, refusing_round] demo_shipper demo_dir = (s', dir', answers)"
    by (metis prod_cases3)
  have "map snd (snd (snd (Run Some Some [refusing_round, refusing_round] demo_shipper demo_dir))) = [Status 401]" by code_simp
  then have a: "map snd answers = [Status 401]" using r by simp
  have "\<not> halted demo_shipper" by (simp add: halted_def demo_shipper_def NewShipper_def)
  then have "halted s' \<longleftrightarrow> answers \<noteq> [] \<and> refused_identity (snd (last answers))"
    using shipping_halts [OF _ _ r] by (simp add: refusing_round_def calm_offer_def UnixNano_def wrap64_id int64_def minInt64_def maxInt64_def)
  moreover have "snd (last answers) = Status 401" using a by (auto simp: map_eq_Cons_conv)
  ultimately show ?thesis using r a by (auto simp: refused_identity_def)
qed

section \<open>Draining\<close>

text \<open>A payload this build can ship, and an offer in which nothing fails and the backend acknowledges.\<close>

definition deliverable :: "(string \<Rightarrow> string option) \<Rightarrow> (string \<Rightarrow> string option) \<Rightarrow> ifile \<Rightarrow> bool" where
  "deliverable kind_of gzip f \<longleftrightarrow> int (length (I_data f)) \<le> MaxPayloadBytes \<and> payloadKind kind_of (I_data f) \<noteq> None \<and>
     gzip (I_data f) \<noteq> None"

definition acknowledging :: "offer_env \<Rightarrow> bool" where
  "acknowledging env \<longleftrightarrow> \<not> Oe_cancelled_before env \<and> \<not> Oe_open_fails env \<and> \<not> Oe_read_fails env \<and> Oe_during env = (\<lambda>dir. dir) \<and>
     \<not> Oe_stat_fails env \<and> \<not> Oe_remove_fails env \<and>
     (case Oe_answer env of PostFails \<Rightarrow> False | Status st \<Rightarrow> 200 \<le> st \<and> st < 300)"

lemma deliver_acknowledged:
  assumes "acknowledging env" and "deliverable kind_of gzip f" and "mget dir name = Some f"
  shows "Dv_continue (deliver kind_of gzip env name s dir)"
    and "Dv_dir (deliver kind_of gzip env name s dir) = mdel name dir"
    and "Sh_failures (Dv_shipper (deliver kind_of gzip env name s dir)) = 0"
proof -
  obtain st where st: "Oe_answer env = Status st" "200 \<le> st" "st < 300"
    using assms(1) by (auto simp: acknowledging_def split: answer.splits)
  obtain kind enc where k: "payloadKind kind_of (I_data f) = Some kind" "gzip (I_data f) = Some enc"
    "\<not> int (length (I_data f)) > MaxPayloadBytes" using assms(2) by (auto simp: deliverable_def)
  have "read env dir name = ReadData (I_data f) f"
    using assms k(3) by (simp add: read_def LimitReader_def acknowledging_def)
  then show "Dv_continue (deliver kind_of gzip env name s dir)" "Dv_dir (deliver kind_of gzip env name s dir) = mdel name dir"
    "Sh_failures (Dv_shipper (deliver kind_of gzip env name s dir)) = 0"
    using st k assms(1,3) by (simp_all add: deliver_def post_def acknowledged_def SameFile_def acknowledging_def)
qed

lemma round_loop_drains:
  assumes "\<And>n. acknowledging (env n)"
  shows "distinct (map Sd_name fs) \<Longrightarrow> (\<And>f. f \<in> set fs \<Longrightarrow> \<exists>g. mget dir (Sd_name f) = Some g \<and> deliverable kind_of gzip g) \<Longrightarrow>
    round_loop kind_of gzip env fs s dir = (s', dir', rqs) \<Longrightarrow>
    (\<forall>n. mget dir' n = (if n \<in> Sd_name ` set fs then None else mget dir n)) \<and> (fs \<noteq> [] \<longrightarrow> Sh_failures s' = 0)"
proof (induction fs arbitrary: s dir rqs)
  case (Cons f fs)
  define d where "d = deliver kind_of gzip (env (Sd_name f)) (Sd_name f) s dir"
  obtain g where g: "mget dir (Sd_name f) = Some g" "deliverable kind_of gzip g" using Cons.prems(2) by auto
  have d: "Dv_continue d" "Dv_dir d = mdel (Sd_name f) dir" "Sh_failures (Dv_shipper d) = 0"
    using deliver_acknowledged [OF assms g(2,1)] by (simp_all add: d_def)
  have "\<not> Oe_cancelled_before (env (Sd_name f))" using assms by (simp add: acknowledging_def)
  then obtain rest where rest: "round_loop kind_of gzip env fs (Dv_shipper d) (Dv_dir d) = (s', dir', rest)"
    using Cons.prems(3) d(1) by (auto simp: d_def [symmetric] Let_def split: prod.splits)
  have "\<exists>g. mget (Dv_dir d) (Sd_name h) = Some g \<and> deliverable kind_of gzip g" if "h \<in> set fs" for h
  proof -
    have "Sd_name h \<in> Sd_name ` set fs" using that by simp
    then have "Sd_name h \<noteq> Sd_name f" using Cons.prems(1) by auto
    then show ?thesis using Cons.prems(2) [of h] that d(2) by simp
  qed
  then have ih: "(\<forall>n. mget dir' n = (if n \<in> Sd_name ` set fs then None else mget (Dv_dir d) n)) \<and> (fs \<noteq> [] \<longrightarrow> Sh_failures s' = 0)"
    using Cons.IH [OF _ _ rest] Cons.prems(1) by simp
  have "Sh_failures s' = 0" using ih rest d(3) by (cases "fs = []") auto
  then show ?case using ih d(2) by auto
qed simp

text \<open>
  C10. A backend that answers drains the spool: a round in which nothing fails, every payload is
  acknowledged and every file this build can ship, removes every payload it offered and
  nothing else, and clears the backoff.
\<close>

theorem Round_drains:
  assumes "Round kind_of gzip penv env s dir = (s', dir', rqs)" and "\<not> halted s" and "\<not> Pe_list_fails penv"
    and "\<forall>n. acknowledging (env n)" and "\<forall>n f. mget dir n = Some f \<and> shippable penv (n, f) \<longrightarrow> deliverable kind_of gzip f"
  shows "(\<forall>n. mget dir' n = (case mget dir n of None \<Rightarrow> None
      | Some f \<Rightarrow> if shippable penv (n, f) \<and> \<not> is_held (Sh_held s) (n, f) then None else Some f)) \<and>
    ((\<exists>n f. mget dir n = Some f \<and> shippable penv (n, f) \<and> \<not> is_held (Sh_held s) (n, f)) \<longrightarrow> nextDelay jitter s' = Sh_interval s')"
proof -
  obtain t files where p: "pending penv dir s = (t, files)" by force
  have loop: "round_loop kind_of gzip env files t dir = (s', dir', rqs)" using assms(1,2) p by (simp add: Round_def)
  note files = pending_eq(1) [OF p assms(3)]
  have "distinct (map Sd_name files)" by (rule pending_distinct [OF p assms(3)])
  moreover have "\<exists>g. mget dir (Sd_name f) = Some g \<and> deliverable kind_of gzip g" if "f \<in> set files" for f
    using that assms(5) unfolding files by (auto simp: mk_spooled_def mget_entries)
  ultimately have drained: "\<forall>n. mget dir' n = (if n \<in> Sd_name ` set files then None else mget dir n)"
    "files \<noteq> [] \<longrightarrow> Sh_failures s' = 0"
    using round_loop_drains [OF _ _ _ loop] assms(4) by blast+
  have names: "n \<in> Sd_name ` set files \<longleftrightarrow> (\<exists>f. mget dir n = Some f \<and> shippable penv (n, f) \<and> \<not> is_held (Sh_held s) (n, f))" for n
    unfolding files by (force simp: mk_spooled_def mget_entries)
  have "files \<noteq> []" if "\<exists>n f. mget dir n = Some f \<and> shippable penv (n, f) \<and> \<not> is_held (Sh_held s) (n, f)"
    using that names by (metis empty_iff empty_set image_empty)
  then show ?thesis using drained names by (auto simp: nextDelay_def split: option.splits)
qed

theorem Round_drains_witness:
  "\<exists>s' dir' rqs. Round Some Some open_env (\<lambda>_. calm_offer (Status 204)) demo_shipper demo_dir = (s', dir', rqs) \<and>
    mget dir' ''a.json'' = None \<and> mget dir' ''c.tmp'' = Some (demo_file 3 1)"
proof -
  obtain s' dir' rqs where r: "Round Some Some open_env (\<lambda>_. calm_offer (Status 204)) demo_shipper demo_dir = (s', dir', rqs)"
    by (metis prod_cases3)
  have ok: "deliverable Some Some (demo_file i t)" for i t
  proof -
    have "Lookup ''node_metadata'' \<noteq> None" by code_simp
    then show ?thesis by (simp add: deliverable_def demo_file_def payloadKind_def MaxPayloadBytes_def)
  qed
  have "mget dir' n = (case mget demo_dir n of None \<Rightarrow> None
      | Some f \<Rightarrow> if shippable open_env (n, f) \<and> \<not> is_held (Sh_held demo_shipper) (n, f) then None else Some f)" for n
    using Round_drains [OF r] ok
    by (auto simp: halted_def demo_shipper_def NewShipper_def open_env_def acknowledging_def calm_offer_def demo_dir_def split: if_splits)
  then show ?thesis
    using r by (auto simp: demo_dir_def shippable_def open_env_def demo_file_def is_held_def demo_shipper_def SameFile_def HasSuffix_def)
qed

end
