(* ===== verification/WatchHealth.thy ===== *)
theory WatchHealth
  imports GoTime JournalBase GoStrings
begin

text \<open>
  The watch-health machinery of \<open>internal/collector/watchhealth.go\<close>: the record of one cache's
  failures, the streak it is judged by, the watchdog that stops the agent when a gating cache has
  failed too long, and the two readings of the policy sources in \<open>pods.go\<close>.

  What the informers do is a list of failed \<open>ListAndWatch\<close> calls. The watchdog sees the gating
  records as they are at each of its ticks, so its argument is the list of ticks, each with the
  instant and the records.
\<close>

section \<open>Definitions\<close>

definition watchStreakGap :: duration where "watchStreakGap = 2 * minute"
definition watchFatalStreak :: duration where "watchFatalStreak = 5 * minute"
definition watchUnavailableFor :: duration where "watchUnavailableFor = 3 * minute"
definition watchCheckInterval :: duration where "watchCheckInterval = 30 * second"

record watchLimits =
  Lim_streakGap :: duration
  Lim_fatalStreak :: duration
  Lim_unavailableFor :: duration
  Lim_checkInterval :: duration

definition defaultWatchLimits :: watchLimits where
  "defaultWatchLimits = \<lparr>Lim_streakGap = watchStreakGap, Lim_fatalStreak = watchFatalStreak,
     Lim_unavailableFor = watchUnavailableFor, Lim_checkInterval = watchCheckInterval\<rparr>"

record watchHealth =
  Wh_gap :: duration
  Wh_first :: time
  Wh_last :: time
  Wh_lastErr :: string

definition newWatchHealth :: "duration \<Rightarrow> watchHealth" where
  "newWatchHealth gap = \<lparr>Wh_gap = gap, Wh_first = 0, Wh_last = 0, Wh_lastErr = []\<rparr>"

definition setGap :: "duration \<Rightarrow> watchHealth \<Rightarrow> watchHealth" where
  "setGap gap h = h\<lparr>Wh_gap := gap\<rparr>"

definition recordFailure :: "time \<Rightarrow> string option \<Rightarrow> watchHealth \<Rightarrow> watchHealth" where
  "recordFailure now err h =
     (let h = (if IsZero (Wh_last h) \<or> Sub now (Wh_last h) > Wh_gap h then h\<lparr>Wh_first := now\<rparr> else h);
          h = h\<lparr>Wh_last := now\<rparr>
      in case err of None \<Rightarrow> h | Some text \<Rightarrow> h\<lparr>Wh_lastErr := text\<rparr>)"

text \<open>\<^const>\<open>None\<close> is the nil record of a source that is not tracked.\<close>

definition failingFor :: "time \<Rightarrow> watchHealth option \<Rightarrow> duration \<times> string" where
  "failingFor now h =
     (case h of
        None \<Rightarrow> (0, [])
      | Some h \<Rightarrow>
          if IsZero (Wh_last h) \<or> Sub now (Wh_last h) > Wh_gap h then (0, [])
          else (Sub (Wh_last h) (Wh_first h), Wh_lastErr h))"

definition failingSince :: "time \<Rightarrow> duration \<Rightarrow> watchHealth option \<Rightarrow> time option" where
  "failingSince now d h =
     (case h of
        None \<Rightarrow> None
      | Some h \<Rightarrow> if IsZero (Wh_last h) \<or> Sub now (Wh_last h) > d then None else Some (Wh_first h))"

definition failedWithin :: "time \<Rightarrow> duration \<Rightarrow> watchHealth option \<Rightarrow> bool" where
  "failedWithin now d h \<longleftrightarrow> failingSince now d h \<noteq> None"

text \<open>\<open>watchdog\<close>: the first cache, of the first tick that finds one, to have failed too long.\<close>

definition check_names :: "watchLimits \<Rightarrow> time \<Rightarrow> string list \<Rightarrow> (string, watchHealth) gomap \<Rightarrow> (string \<times> duration \<times> string) option" where
  "check_names limits at names gating =
     map_option (\<lambda>name. (name, failingFor at (mget gating name)))
       (List.find (\<lambda>name. fst (failingFor at (mget gating name)) \<ge> Lim_fatalStreak limits) names)"

fun watchdog_loop ::
    "watchLimits \<Rightarrow> string list \<Rightarrow> (time \<times> (string, watchHealth) gomap) list \<Rightarrow> (string \<times> duration \<times> string) option" where
  "watchdog_loop limits names [] = None"
| "watchdog_loop limits names ((at, gating) # ticks) =
     (case check_names limits at names gating of
        Some verdict \<Rightarrow> Some verdict
      | None \<Rightarrow> watchdog_loop limits names ticks)"

definition watchdog ::
    "watchLimits \<Rightarrow> string list \<Rightarrow> (time \<times> (string, watchHealth) gomap) list \<Rightarrow> (string \<times> duration \<times> string) option" where
  "watchdog limits names ticks = (if names = [] then None else watchdog_loop limits (sort_slice (<) names) ticks)"

text \<open>\<open>takeWatchFailure\<close> and \<open>registrationFailure\<close>, of the verdict waiting in the channel.\<close>

datatype 'v run_error = WatchFailed 'v | RegisterFailed string

definition registrationFailure :: "bool \<Rightarrow> 'v option \<Rightarrow> string \<Rightarrow> 'v run_error option" where
  "registrationFailure cancelled fatal resource =
     (case fatal of
        Some verdict \<Rightarrow> Some (WatchFailed verdict)
      | None \<Rightarrow> if cancelled then None else Some (RegisterFailed resource))"

record policySource =
  Ps_name :: string
  Ps_synced :: "bool option"
  Ps_health :: "watchHealth option"

record SourceHealth =
  Src_Name :: string
  Src_Synced :: bool
  Src_Failing :: bool
  Src_FailingSince :: "time option"

text \<open>The window both readings use: the limit, or the default where it is zero.\<close>

definition unavailable_window :: "watchLimits \<Rightarrow> duration" where
  "unavailable_window limits = (if Lim_unavailableFor limits = 0 then watchUnavailableFor else Lim_unavailableFor limits)"

definition source_health :: "watchLimits \<Rightarrow> time \<Rightarrow> policySource \<Rightarrow> SourceHealth" where
  "source_health limits now s =
     (let since = failingSince now (unavailable_window limits) (Ps_health s) in
      \<lparr>Src_Name = Ps_name s, Src_Synced = (Ps_synced s = Some True), Src_Failing = (since \<noteq> None), Src_FailingSince = since\<rparr>)"

definition SourceHealths :: "watchLimits \<Rightarrow> time \<Rightarrow> policySource list \<Rightarrow> SourceHealth list" where
  "SourceHealths limits now sources =
     sort_slice (\<lambda>a b. Src_Name a < Src_Name b) (map (source_health limits now) sources)"

definition unavailablePolicySources :: "watchLimits \<Rightarrow> time \<Rightarrow> string list \<Rightarrow> policySource list \<Rightarrow> string list" where
  "unavailablePolicySources limits now want sources =
     sort_slice (<) (map Ps_name (filter (\<lambda>s. Ps_name s \<in> set want \<and>
       (Ps_synced s \<noteq> Some True \<or> failedWithin now (unavailable_window limits) (Ps_health s))) sources))"

section \<open>Streaks\<close>

text \<open>A cache that failed at the given instants, the latest last.\<close>

definition failed_at :: "duration \<Rightarrow> (time \<times> string option) list \<Rightarrow> watchHealth" where
  "failed_at gap fs = fold (\<lambda>(t, err). recordFailure t err) fs (newWatchHealth gap)"

text \<open>
  Instants in order that are all differences of representable durations, none of them the zero
  time; failures no further apart than \<open>gap\<close>.
\<close>

definition times_ok :: "time list \<Rightarrow> bool" where
  "times_ok ts \<longleftrightarrow> sorted ts \<and> (\<forall>t \<in> set ts. 0 < t \<and> t \<le> maxInt64)"

definition unbroken :: "duration \<Rightarrow> time list \<Rightarrow> bool" where
  "unbroken gap ts \<longleftrightarrow> (\<forall>i. Suc i < length ts \<longrightarrow> ts ! Suc i - ts ! i \<le> gap)"

lemma Sub_of_ok: "0 < a \<Longrightarrow> a \<le> maxInt64 \<Longrightarrow> 0 < b \<Longrightarrow> b \<le> maxInt64 \<Longrightarrow> Sub a b = a - b"
  by (rule Sub_exact) (simp add: int64_def maxInt64_def minInt64_def)

lemma times_ok_Sub: "times_ok ts \<Longrightarrow> a \<in> set ts \<Longrightarrow> b \<in> set ts \<Longrightarrow> Sub a b = a - b \<and> \<not> IsZero a"
  using Sub_of_ok [of a b] unfolding times_ok_def by fastforce

lemma failed_at_snoc:
  "failed_at gap (fs @ [(t, err)]) = recordFailure t err (failed_at gap fs)"
  by (simp add: failed_at_def)

lemma failed_at_last:
  "Wh_last (failed_at gap fs) = (if fs = [] then 0 else fst (last fs))" "Wh_gap (failed_at gap fs) = gap"
  by (induction fs rule: rev_induct)
    (auto simp: failed_at_def newWatchHealth_def recordFailure_def Let_def split: option.splits)

lemma unbroken_snoc: "ts \<noteq> [] \<Longrightarrow> unbroken gap (ts @ [t]) \<longleftrightarrow> unbroken gap ts \<and> t - last ts \<le> gap"
proof -
  assume ne: "ts \<noteq> []"
  then have last: "(ts @ [t]) ! (length ts - 1) = last ts" "(ts @ [t]) ! length ts = t" by (simp_all add: nth_append last_conv_nth)
  have "unbroken gap (ts @ [t]) \<longleftrightarrow> (\<forall>i < length ts. (ts @ [t]) ! Suc i - (ts @ [t]) ! i \<le> gap)"
    by (simp add: unbroken_def)
  also have "\<dots> \<longleftrightarrow> (\<forall>i < length ts - 1. (ts @ [t]) ! Suc i - (ts @ [t]) ! i \<le> gap) \<and> t - last ts \<le> gap"
    using ne last by (cases ts) (auto simp: less_Suc_eq)
  finally show ?thesis using ne by (auto simp: unbroken_def nth_append)
qed

text \<open>The first instant of the record is that of the longest unbroken run of failures at the end.\<close>

lemma failed_at_first:
  assumes "times_ok (map fst fs)" and "fs \<noteq> []"
  shows "\<exists>pre run. map fst fs = pre @ run \<and> run \<noteq> [] \<and> unbroken gap run \<and> Wh_first (failed_at gap fs) = hd run \<and>
    (pre \<noteq> [] \<longrightarrow> hd run - last pre > gap)"
  using assms
proof (induction fs rule: rev_induct)
  case (snoc f fs)
  obtain t err where f: "f = (t, err)" by force
  show ?case
  proof (cases "fs = []")
    case True
    then show ?thesis
      using f by (intro exI [of _ "[]"] exI [of _ "[t]"])
        (simp add: failed_at_def recordFailure_def newWatchHealth_def unbroken_def Let_def split: option.splits)
  next
    case False
    have ok: "times_ok (map fst fs)" using snoc.prems(1) by (auto simp: times_ok_def sorted_append)
    obtain pre run where ih: "map fst fs = pre @ run" "run \<noteq> []" "unbroken gap run" "Wh_first (failed_at gap fs) = hd run"
      "pre \<noteq> [] \<longrightarrow> hd run - last pre > gap" using snoc.IH [OF ok False] by blast
    have l: "fst (last fs) = last run" using ih(1,2) False by (metis last_appendR last_map)
    have mem: "last run \<in> set (map fst fs)" using ih(1,2) by simp
    have sub: "Sub t (last run) = t - last run" and nz: "\<not> IsZero (last run)"
      using times_ok_Sub [OF snoc.prems(1), of t "last run"] times_ok_Sub [OF snoc.prems(1), of "last run" t] mem f by simp_all
    have first: "Wh_first (failed_at gap (fs @ [f])) = (if t - last run > gap then t else hd run)"
      using False nz by (simp add: f failed_at_snoc recordFailure_def Let_def failed_at_last l sub ih(4) split: option.splits)
    show ?thesis
    proof (cases "t - last run > gap")
      case True
      then show ?thesis using ih(1,2) f first
        by (intro exI [of _ "map fst fs"] exI [of _ "[t]"]) (simp add: unbroken_def)
    next
      case False
      then show ?thesis using ih f first
        by (intro exI [of _ pre] exI [of _ "run @ [t]"]) (simp add: unbroken_snoc hd_append)
    qed
  qed
qed simp

lemma failingFor_failed_at:
  assumes "times_ok (map fst fs @ [now])" and "fs \<noteq> []"
  shows "\<exists>pre run. map fst fs = pre @ run \<and> run \<noteq> [] \<and> unbroken gap run \<and> (pre \<noteq> [] \<longrightarrow> hd run - last pre > gap) \<and>
    fst (failingFor now (Some (failed_at gap fs))) = (if now - last run > gap then 0 else last run - hd run)"
proof -
  have ok: "times_ok (map fst fs)" using assms(1) by (auto simp: times_ok_def sorted_append)
  obtain pre run where r: "map fst fs = pre @ run" "run \<noteq> []" "unbroken gap run" "Wh_first (failed_at gap fs) = hd run"
    "pre \<noteq> [] \<longrightarrow> hd run - last pre > gap" using failed_at_first [OF ok assms(2)] by blast
  have l: "fst (last fs) = last run" using r(1,2) assms(2) by (metis last_appendR last_map)
  have mem: "last run \<in> set (map fst fs)" "hd run \<in> set (map fst fs)" using r(1,2) by simp_all
  have sub: "Sub now (last run) = now - last run" "Sub (last run) (hd run) = last run - hd run" and nz: "\<not> IsZero (last run)"
    using times_ok_Sub [OF assms(1), of now "last run"] times_ok_Sub [OF assms(1), of "last run" "hd run"] mem by simp_all
  then show ?thesis
    using r assms(2) by (intro exI [of _ pre] exI [of _ run]) (simp add: failingFor_def failed_at_last l)
qed

text \<open>An unbroken run that reaches the last failure is within the longest one.\<close>

lemma run_within:
  assumes "sorted (pre @ run)" and "pre \<noteq> [] \<longrightarrow> hd run - last pre > gap" and "run \<noteq> []"
    and "pre @ run = qs @ rs" and "rs \<noteq> []" and "unbroken gap rs"
  shows "hd run \<le> hd rs"
proof (cases "length qs < length pre")
  case True
  define m where "m = length pre - length qs"
  have "length pre + length run = length qs + length rs" using arg_cong [OF assms(4), of length] by simp
  moreover have "0 < length run" using assms(3) by simp
  ultimately have m: "0 < m" "m < length rs" using True unfolding m_def by arith+
  have at: "rs ! (m - 1) = last pre" "rs ! m = hd run"
  proof -
    have "rs ! i = (pre @ run) ! (length qs + i)" for i unfolding assms(4) by (simp add: nth_append)
    then show "rs ! (m - 1) = last pre" "rs ! m = hd run"
      using True assms(3) by (cases "pre = []"; simp add: m_def nth_append last_conv_nth hd_conv_nth)+
  qed
  then have "hd run - last pre \<le> gap" using spec [OF assms(6) [unfolded unbroken_def], of "m - 1"] m by simp
  then show ?thesis using assms(2) True by fastforce
next
  case False
  then have "rs = drop (length qs - length pre) run" using arg_cong [OF assms(4), of "drop (length qs)"] by simp
  moreover have "sorted run" using assms(1) by (simp add: sorted_append)
  ultimately show ?thesis using assms(3,5) by (simp add: hd_drop_conv_nth hd_conv_nth sorted_nth_mono)
qed

section \<open>Properties\<close>

text \<open>
  The streak test is exact. A cache counts as failing for at least \<open>limit\<close> at the instant \<open>now\<close>
  precisely when its last failure is no older than the gap and some run of its failures, ending
  with the last one and never broken by more than the gap, spans at least that long. So one failure
  is never a streak, and an outage is not forgotten while retries go on failing.
\<close>

theorem failing_streak_exact:
  assumes "times_ok (map fst fs @ [now])" and "0 < limit"
  shows "limit \<le> fst (failingFor now (Some (failed_at gap fs))) \<longleftrightarrow>
    (\<exists>qs rs. map fst fs = qs @ rs \<and> rs \<noteq> [] \<and> unbroken gap rs \<and> now - last rs \<le> gap \<and> limit \<le> last rs - hd rs)"
proof (cases "fs = []")
  case True
  then show ?thesis using assms(2) by (simp add: failingFor_def failed_at_last)
next
  case False
  obtain pre run where r: "map fst fs = pre @ run" "run \<noteq> []" "unbroken gap run" "pre \<noteq> [] \<longrightarrow> hd run - last pre > gap"
    "fst (failingFor now (Some (failed_at gap fs))) = (if now - last run > gap then 0 else last run - hd run)"
    using failingFor_failed_at [OF assms(1) False] by blast
  have sorted: "sorted (pre @ run)" using assms(1) r(1) by (auto simp: times_ok_def sorted_append)
  show ?thesis
  proof
    assume "limit \<le> fst (failingFor now (Some (failed_at gap fs)))"
    then have "now - last run \<le> gap" "limit \<le> last run - hd run" using r(5) assms(2) by (auto split: if_splits)
    then show "\<exists>qs rs. map fst fs = qs @ rs \<and> rs \<noteq> [] \<and> unbroken gap rs \<and> now - last rs \<le> gap \<and> limit \<le> last rs - hd rs"
      using r(1-3) by blast
  next
    assume "\<exists>qs rs. map fst fs = qs @ rs \<and> rs \<noteq> [] \<and> unbroken gap rs \<and> now - last rs \<le> gap \<and> limit \<le> last rs - hd rs"
    then obtain qs rs where q: "map fst fs = qs @ rs" "rs \<noteq> []" "unbroken gap rs" "now - last rs \<le> gap" "limit \<le> last rs - hd rs"
      by blast
    have "last rs = last run" using q(1,2) r(1,2) by (metis last_appendR)
    moreover have "hd run \<le> hd rs" using run_within [OF sorted r(4,2) _ q(2,3)] q(1) r(1) by simp
    ultimately show "limit \<le> fst (failingFor now (Some (failed_at gap fs)))" using q(4,5) r(5) by simp
  qed
qed

theorem failing_streak_exact_witness:
  "watchFatalStreak \<le> fst (failingFor (7 * minute) (Some (failed_at watchStreakGap
     [(1 * minute, None), (2 * minute, Some ''forbidden''), (4 * minute, Some ''forbidden''), (6 * minute, Some ''forbidden'')])))"
proof -
  let ?fs = "[(1 * minute, None), (2 * minute, Some ''forbidden''), (4 * minute, Some ''forbidden''), (6 * minute, Some ''forbidden'')]"
  have ok: "times_ok (map fst ?fs @ [7 * minute])" by (simp add: times_ok_def minute_def second_def maxInt64_def)
  have "unbroken watchStreakGap (map fst ?fs)"
    by (auto simp: unbroken_def watchStreakGap_def minute_def second_def less_Suc_eq numeral_eq_Suc)
  then have "\<exists>qs rs. map fst ?fs = qs @ rs \<and> rs \<noteq> [] \<and> unbroken watchStreakGap rs \<and> 7 * minute - last rs \<le> watchStreakGap \<and>
      watchFatalStreak \<le> last rs - hd rs"
    by (intro exI [of _ "[]"] exI [of _ "map fst ?fs"]) (simp add: watchFatalStreak_def watchStreakGap_def minute_def second_def)
  moreover have "0 < watchFatalStreak" by (simp add: watchFatalStreak_def minute_def second_def)
  ultimately show ?thesis using failing_streak_exact [OF ok] by blast
qed

text \<open>What a payload declares unavailable and what the coverage report calls failing are one reading.\<close>

lemma unavailable_iff:
  "name \<in> set (unavailablePolicySources limits now want sources) \<longleftrightarrow> name \<in> set want \<and>
     (\<exists>h \<in> set (SourceHealths limits now sources). Src_Name h = name \<and> (\<not> Src_Synced h \<or> Src_Failing h))"
  by (auto simp: unavailablePolicySources_def SourceHealths_def source_health_def failedWithin_def Let_def image_iff)

lemma check_names_iff:
  "check_names limits at names gating \<noteq> None \<longleftrightarrow>
     (\<exists>name \<in> set names. Lim_fatalStreak limits \<le> fst (failingFor at (mget gating name)))"
  by (auto simp: check_names_def find_None_iff)

text \<open>
  The watchdog stops the agent at the first tick at which one of the gating caches has a streak as
  long as the limit, it names such a cache, and it never stops the agent otherwise.
\<close>

theorem watchdog_verdict:
  "(case watchdog limits names ticks of
      None \<Rightarrow> \<forall>(at, gating) \<in> set ticks. \<forall>name \<in> set names. fst (failingFor at (mget gating name)) < Lim_fatalStreak limits
    | Some (name, failing, err) \<Rightarrow>
        (\<exists>pre at gating post. ticks = pre @ (at, gating) # post \<and> name \<in> set names \<and>
           failingFor at (mget gating name) = (failing, err) \<and> Lim_fatalStreak limits \<le> failing \<and>
           (\<forall>(at, gating) \<in> set pre. \<forall>name \<in> set names. fst (failingFor at (mget gating name)) < Lim_fatalStreak limits)))"
proof -
  have loop: "case watchdog_loop limits ns ticks of
      None \<Rightarrow> \<forall>(at, gating) \<in> set ticks. \<forall>name \<in> set ns. fst (failingFor at (mget gating name)) < Lim_fatalStreak limits
    | Some (name, failing, err) \<Rightarrow>
        (\<exists>pre at gating post. ticks = pre @ (at, gating) # post \<and> name \<in> set ns \<and>
           failingFor at (mget gating name) = (failing, err) \<and> Lim_fatalStreak limits \<le> failing \<and>
           (\<forall>(at, gating) \<in> set pre. \<forall>name \<in> set ns. fst (failingFor at (mget gating name)) < Lim_fatalStreak limits))" for ns
  proof (induction ticks)
    case (Cons tick ticks)
    obtain at gating where tick: "tick = (at, gating)" by force
    show ?case
    proof (cases "check_names limits at ns gating")
      case None
      then have quiet: "\<forall>name \<in> set ns. fst (failingFor at (mget gating name)) < Lim_fatalStreak limits"
        using check_names_iff [of limits at ns gating] by auto
      show ?thesis
      proof (cases "watchdog_loop limits ns ticks")
        case (Some v)
        obtain name failing err where v: "v = (name, failing, err)" by (metis prod_cases3)
        obtain pre at' gating' post where "ticks = pre @ (at', gating') # post" "name \<in> set ns"
          "failingFor at' (mget gating' name) = (failing, err)" "Lim_fatalStreak limits \<le> failing"
          "\<forall>(at, gating) \<in> set pre. \<forall>name \<in> set ns. fst (failingFor at (mget gating name)) < Lim_fatalStreak limits"
          using Cons.IH Some v by auto
        then have "\<exists>pre at gating post. tick # ticks = pre @ (at, gating) # post \<and> name \<in> set ns \<and>
           failingFor at (mget gating name) = (failing, err) \<and> Lim_fatalStreak limits \<le> failing \<and>
           (\<forall>(at, gating) \<in> set pre. \<forall>name \<in> set ns. fst (failingFor at (mget gating name)) < Lim_fatalStreak limits)"
          using quiet tick by (intro exI [of _ "tick # pre"] exI [of _ at'] exI [of _ gating'] exI [of _ post]) simp
        then show ?thesis using None Some v tick by simp
      qed (use Cons.IH None quiet tick in simp)
    next
      case (Some v)
      then obtain name where n: "v = (name, failingFor at (mget gating name))" "name \<in> set ns"
        "Lim_fatalStreak limits \<le> fst (failingFor at (mget gating name))"
        by (auto simp: check_names_def find_Some_iff)
      then show ?thesis using Some tick by (cases "failingFor at (mget gating name)") (force intro: exI [of _ "[]"])
    qed
  qed simp
  show ?thesis using loop [of "sort_slice (<) names", unfolded set_sort_slice] by (simp add: watchdog_def)
qed

definition refused_pods :: "(string, watchHealth) gomap" where
  "refused_pods = mput ''pods'' (failed_at watchStreakGap
     [(1 * minute, None), (2 * minute, Some ''forbidden''), (4 * minute, Some ''forbidden''), (6 * minute, Some ''forbidden'')]) mempty"

theorem watchdog_verdict_witness:
  "watchdog defaultWatchLimits [''pods'', ''nodes''] [(3 * minute, mempty), (7 * minute, refused_pods)] = Some (''pods'', 5 * minute, ''forbidden'') \<and>
   (\<exists>pre at gating post. [(3 * minute, mempty), (7 * minute, refused_pods)] = pre @ (at, gating) # post \<and>
      failingFor at (mget gating ''pods'') = (5 * minute, ''forbidden'') \<and> Lim_fatalStreak defaultWatchLimits \<le> 5 * minute)"
proof -
  have v: "watchdog defaultWatchLimits [''pods'', ''nodes''] [(3 * minute, mempty), (7 * minute, refused_pods)] =
      Some (''pods'', 5 * minute, ''forbidden'')" by code_simp
  show ?thesis
    using watchdog_verdict [where limits = defaultWatchLimits and names = "[''pods'', ''nodes'']" and ticks = "[(3 * minute, mempty), (7 * minute, refused_pods)]",
        unfolded v option.case prod.case] v by blast
qed

end
