(* ===== verification/AgentFlow.thy ===== *)
theory AgentFlow
  imports Recover UsagePoller PolicyFilter Shipper WatchHealth
begin

text \<open>
  The agent's own flow around its accumulators, after \<open>cmd/agent\<close>: the seeding of the usage
  poller and the seven journals from the spool (\<open>recover.go\<close>), the passes over the payload
  writers and the order of a shutdown (\<open>flush.go\<close>), and the readings of the agent's own states
  and counters (\<open>states.go\<close>).

  The properties are about whole restarts: what the process that died had in memory, written to
  the spool, read back and adopted by its successor.
\<close>

section \<open>Seeding after a restart\<close>

record journals =
  J_restarts :: Restarts
  J_disruptions :: Disruptions
  J_nodes :: NodeEvents
  J_states :: States
  J_counters :: Counters
  J_jobs :: JobRuns
  J_goroutines :: Goroutines

text \<open>What \<open>seedOpenWindows\<close> logs.\<close>

datatype seed_log =
    ReadingSpool spool_error
  | LeftPayload recover_error
  | NotAdopted "rollup_error list"
  | ResumedUsage nat nat
  | ResumedJournals nat nat

definition seedOpenWindows ::
    "'o decoders \<Rightarrow> read_io \<Rightarrow> time \<Rightarrow> 'fp Spool \<Rightarrow> UsagePoller \<Rightarrow> journals \<Rightarrow>
     'fp Spool \<times> UsagePoller \<times> journals \<times> seed_log list" where
  "seedOpenWindows ds io now spool poller j =
     (case RecoverOpenWindows ds io now spool of
        (spool, Inl err) \<Rightarrow> (spool, poller, j, [ReadingSpool err])
      | (spool, Inr recovery) \<Rightarrow>
          let (poller, errs) = Poller_Seed (Rec_Records recovery) poller;
              (restarts, n1) = Restarts_Resume (Rec_Restarts recovery) (J_restarts j);
              (disruptions, n2) = Disruptions_Resume (Rec_Disruptions recovery) (J_disruptions j);
              (nodes, n3) = NodeEvents_Resume (Rec_NodeEvents recovery) (J_nodes j);
              (jobs, n4) = JobRuns_Resume (Rec_JobRuns recovery) (J_jobs j);
              (goroutines, n5) = Goroutines_Resume (Rec_GoroutineCounts recovery) (J_goroutines j);
              (states, n6) = States_Resume (Rec_AgentStates recovery) (J_states j);
              (counters, n7) = Counters_Resume (Rec_AgentCounters recovery) (J_counters j);
              seeded = n1 + n2 + n3 + n4 + n5 + n6 + n7
          in (spool, poller,
              \<lparr>J_restarts = restarts, J_disruptions = disruptions, J_nodes = nodes, J_states = states,
               J_counters = counters, J_jobs = jobs, J_goroutines = goroutines\<rparr>,
              map LeftPayload (Rec_Skipped recovery) @ (if errs \<noteq> [] then [NotAdopted errs] else []) @
              (if Rec_Windows recovery > 0 then [ResumedUsage (Rec_Windows recovery) (length (Rec_Records recovery))] else []) @
              (if Rec_JournalWindows recovery > 0 then [ResumedJournals (Rec_JournalWindows recovery) seeded] else [])))"

section \<open>The passes over the writers\<close>

record 'w flusher =
  Flush_run :: "'w \<Rightarrow> 'w"
  Flush_onShutdown :: bool

definition runFlushers :: "'w flusher list \<Rightarrow> bool \<Rightarrow> 'w \<Rightarrow> 'w" where
  "runFlushers flushers shutdown w =
     fold (\<lambda>f w. if shutdown \<and> \<not> Flush_onShutdown f then w else Flush_run f w) flushers w"

definition runShutdown :: "'w flusher list \<Rightarrow> ('w \<Rightarrow> 'w) option \<Rightarrow> 'w \<Rightarrow> 'w" where
  "runShutdown flushers ship w =
     (let w = runFlushers flushers True w in
      case ship of None \<Rightarrow> w | Some finalRound \<Rightarrow> finalRound w)"

section \<open>The agent's own states and counters\<close>

text \<open>\<open>agentStates\<close>; \<open>shipping\<close> is the shipper's coverage, absent when the agent has no backend.\<close>

definition agentStates :: "SourceHealth list \<Rightarrow> Shipping option \<Rightarrow> AgentState list" where
  "agentStates sources shipping =
     map (\<lambda>src. \<lparr>AS_State = StateFailing, AS_Subject = Src_Name src, AS_Since = Src_FailingSince src\<rparr>) sources @
     (case shipping of
        None \<Rightarrow> []
      | Some sh \<Rightarrow> [\<lparr>AS_State = StateHalted, AS_Subject = SubjectShip, AS_Since = Ship_HaltedSince sh\<rparr>])"

definition asCount :: "nat \<Rightarrow> int" where
  "asCount n = (if int n > maxInt64 then maxInt64 else int n)"

text \<open>The counters of the components that may be absent, as \<open>agentCounters\<close> reads them.\<close>

record pullCoverage =
  Pull_Shipped :: int
  Pull_Refused :: int
  Pull_Unreachable :: int
  Pull_Invalid :: int

record IntakeRejections =
  Intake_Unauthorized :: nat
  Intake_TooLarge :: nat
  Intake_Malformed :: nat

definition agentCounters ::
    "FilterCoverage \<Rightarrow> Observation \<Rightarrow> pullCoverage option \<Rightarrow> IntakeRejections option \<Rightarrow> (string, int) gomap" where
  "agentCounters filt obs pull intake =
     fold (\<lambda>(k, v). mput k v)
       ([(''filter.pods_observed'', PodsObserved filt),
         (''filter.excluded_namespace_filter'', ExcludedNamespaceFilter filt),
         (''filter.excluded_namespace_annotation'', ExcludedNamespaceAnnotation filt),
         (''filter.excluded_workload_annotation'', ExcludedWorkloadAnnotation filt),
         (''filter.excluded_pod_annotation'', ExcludedPodAnnotation filt),
         (''filter.excluded_profiling_annotation'', ExcludedProfilingAnnotation filt),
         (''filter.workload_unknown_kind'', CovWorkloadUnknownKind filt),
         (''filter.workload_not_cached'', CovWorkloadNotCached filt),
         (''filter.jobs_observed'', JobsObserved filt),
         (''filter.jobs_excluded_namespace_filter'', JobsExcludedNamespaceFilter filt),
         (''filter.jobs_excluded_namespace_annotation'', JobsExcludedNamespaceAnnotation filt),
         (''filter.jobs_excluded_workload_annotation'', JobsExcludedWorkloadAnnotation filt),
         (''filter.jobs_excluded_annotation'', JobsExcludedAnnotation filt),
         (''observation.polls_attempted'', Ob_PollsAttempted obs),
         (''observation.polls_failed'', Ob_PollsFailed obs)] @
        (case pull of
           None \<Rightarrow> []
         | Some p \<Rightarrow> [(''pprof_pull.shipped'', Pull_Shipped p), (''pprof_pull.refused'', Pull_Refused p),
             (''pprof_pull.unreachable'', Pull_Unreachable p), (''pprof_pull.invalid'', Pull_Invalid p)]) @
        (case intake of
           None \<Rightarrow> []
         | Some i \<Rightarrow> [(''intake_rejections.unauthorized'', asCount (Intake_Unauthorized i)),
             (''intake_rejections.too_large'', asCount (Intake_TooLarge i)),
             (''intake_rejections.malformed'', asCount (Intake_Malformed i))]))
       mempty"

section \<open>A restart of the journals\<close>

text \<open>What the journals of a running agent satisfy, and journals that have observed nothing.\<close>

definition journals_ok :: "journals \<Rightarrow> bool" where
  "journals_ok j \<longleftrightarrow> restarts_ok (J_restarts j) \<and> goroutines_ok (J_goroutines j) \<and>
     keyed disruption_key (Disruptions_open (J_disruptions j)) \<and> keyed node_event_key (NodeEvents_open (J_nodes j)) \<and>
     keyed state_key (States_open (J_states j)) \<and> keyed counter_key (Counters_open (J_counters j)) \<and>
     keyed job_key (JobRuns_open (J_jobs j))"

definition journals_new :: "journals \<Rightarrow> bool" where
  "journals_new j \<longleftrightarrow> Restarts_open (J_restarts j) = mempty \<and> Goroutines_open (J_goroutines j) = mempty \<and>
     Disruptions_open (J_disruptions j) = mempty \<and> NodeEvents_open (J_nodes j) = mempty \<and> States_open (J_states j) = mempty \<and>
     Counters_open (J_counters j) = mempty \<and> JobRuns_open (J_jobs j) = mempty"

text \<open>The spool holds the snapshots of all seven journals.\<close>

definition journals_held :: "'o decoders \<Rightarrow> time \<Rightarrow> journals \<Rightarrow> spool_dir \<Rightarrow> bool" where
  "journals_held ds now j dir \<longleftrightarrow>
     holds (D_restarts ds) restartsNamePrefix kindContainerRestarts restart_window now (Restarts_Snapshots (J_restarts j)) dir \<and>
     holds (D_disruptions ds) disruptionsNamePrefix kindPodDisruptions disruption_window now (Disruptions_Snapshots (J_disruptions j)) dir \<and>
     holds (D_nodes ds) nodeLifecycleNamePrefix kindNodeLifecycle node_event_window now (NodeEvents_Snapshots (J_nodes j)) dir \<and>
     holds (D_jobs ds) jobRunsNamePrefix kindJobRuns job_window now (JobRuns_Snapshots (J_jobs j)) dir \<and>
     holds (D_goroutines ds) goroutineCountsNamePrefix kindGoroutineCounts goroutine_window now (Goroutines_Snapshots (J_goroutines j)) dir \<and>
     holds (D_states ds) agentStatesNamePrefix kindAgentStates state_window now (States_Snapshots (J_states j)) dir \<and>
     holds (D_counters ds) agentCountersNamePrefix kindAgentCounters counter_window now (Counters_Snapshots (J_counters j)) dir"

text \<open>The windows that have not ended.\<close>

definition unended :: "('r \<Rightarrow> windowKey) \<Rightarrow> time \<Rightarrow> ('k::linorder, 'r) gomap \<Rightarrow> ('k, 'r) gomap" where
  "unended windowOf now m = mfilter (\<lambda>_ r. now < windowKey_end (windowOf r)) m"

lemma restarts_carried:
  assumes "restarts_ok old" and "mset recs = mset (filter (\<lambda>r. now < windowKey_end (restart_window r)) (Restarts_Snapshots old))"
    and "Restarts_open j = mempty"
  shows "Restarts_open (fst (Restarts_Resume recs j)) = unended restart_window now (Restarts_open old)"
proof -
  let ?P = "\<lambda>r. now < windowKey_end (restart_window r)"
  have "fst (resume restart_key resume_restart recs mempty) = mfilter (\<lambda>_. ?P) (Restarts_open old)"
  proof (rule restart_store.resume_carries)
    show "mset recs = mset (filter ?P (snapshots less_restart RestartRecord_clone (Restarts_open old)))"
      using assms(2) unfolding Restarts_Snapshots_def .
    show "keyed restart_key (Restarts_open old)" using assms(1) by (simp add: restarts_ok_def)
    show "restart_key (resume_restart r) = restart_key r" for r
      by (simp add: resume_restart_def RestartRecord_clone_def restart_key_def Let_def)
    fix k r assume "mget (Restarts_open old) k = Some r"
    then have "r \<in> set (mvalues (Restarts_open old))" unfolding mvalues_iff by blast
    then have "restart_ok r" using assms(1) by (simp add: restarts_ok_def)
    then show "?P (RestartRecord_clone r) = ?P r \<and> resume_restart (RestartRecord_clone r) = r"
      by (cases "RR_Reasons r") (auto simp: restart_ok_def resume_restart_def Let_def restart_window_def)
  qed
  then show ?thesis using assms(3) by (simp add: Restarts_Resume_def unended_def case_prod_beta Let_def)
qed

lemma sort_samples_idem: "sort_slice less_sample (sort_slice less_sample xs) = sort_slice less_sample xs"
  by (simp add: sample_order.sort_slice_sort_key sort_key_id_if_sorted)

lemma goroutines_carried:
  assumes "goroutines_ok old" and "mset recs = mset (filter (\<lambda>r. now < windowKey_end (goroutine_window r)) (Goroutines_Snapshots old))"
    and "Goroutines_open j = mempty"
  shows "mget (Goroutines_open (fst (Goroutines_Resume recs j))) k =
    map_option GoroutineRecord_clone (mget (unended goroutine_window now (Goroutines_open old)) k)"
proof -
  let ?P = "\<lambda>r. now < windowKey_end (goroutine_window r)"
  have key: "goroutine_key (resume_goroutine r) = goroutine_key r" for r
    by (simp add: resume_goroutine_def GoroutineRecord_clone_def goroutine_key_def Let_def)
  have ok: "keyed goroutine_key (Goroutines_open old)" using assms(1) by (auto simp: goroutines_ok_def keyed_def)
  have undo: "resume_goroutine (GoroutineRecord_clone r) = GoroutineRecord_clone r" if "mget (Goroutines_open old) k = Some r" for r
    using that assms(1) by (auto simp: goroutines_ok_def mget_entries goroutine_ok_def resume_goroutine_def Let_def
        GoroutineRecord_clone_def sort_samples_idem)
  have same: "?P (GoroutineRecord_clone r) = ?P r" for r by (simp add: goroutine_window_def GoroutineRecord_clone_def)
  have "mget (fst (resume goroutine_key resume_goroutine recs mempty)) k =
      map_option GoroutineRecord_clone (mget (unended goroutine_window now (Goroutines_open old)) k)"
    using goroutine_store.resume_kept [OF ok key assms(2) [unfolded Goroutines_Snapshots_def], of k] undo same
    by (simp add: unended_def mget_mfilter split: option.splits)
  then show ?thesis using assms(3) by (simp add: Goroutines_Resume_def case_prod_beta Let_def)
qed

lemma seedOpenWindows_eq:
  assumes "RecoverOpenWindows ds io now s = (s1, Inr rec)" and "seedOpenWindows ds io now s p j = (s', p', j', log)"
  shows "p' = fst (Poller_Seed (Rec_Records rec) p)"
    and "j' = \<lparr>J_restarts = fst (Restarts_Resume (Rec_Restarts rec) (J_restarts j)),
      J_disruptions = fst (Disruptions_Resume (Rec_Disruptions rec) (J_disruptions j)),
      J_nodes = fst (NodeEvents_Resume (Rec_NodeEvents rec) (J_nodes j)),
      J_states = fst (States_Resume (Rec_AgentStates rec) (J_states j)),
      J_counters = fst (Counters_Resume (Rec_AgentCounters rec) (J_counters j)),
      J_jobs = fst (JobRuns_Resume (Rec_JobRuns rec) (J_jobs j)),
      J_goroutines = fst (Goroutines_Resume (Rec_GoroutineCounts rec) (J_goroutines j))\<rparr>"
    and "\<forall>e. e \<in> set log \<longrightarrow> e = NotAdopted errs \<longrightarrow> snd (Poller_Seed (Rec_Records rec) p) = errs \<and> errs \<noteq> []"
  using assms by (auto simp: seedOpenWindows_def Let_def case_prod_beta split: if_splits)

section \<open>Journals to try things on\<close>

definition new_journals :: journals where
  "new_journals = \<lparr>J_restarts = the (NewRestarts hour), J_disruptions = the (NewDisruptions hour), J_nodes = the (NewNodeEvents hour),
     J_states = the (NewStates hour), J_counters = the (NewCounters hour), J_jobs = the (NewJobRuns hour),
     J_goroutines = the (NewGoroutines hour)\<rparr>"

definition counting_journals :: journals where
  "counting_journals = new_journals\<lparr>J_counters := (J_counters new_journals)\<lparr>Counters_open := mput (counter_key one_counter) one_counter mempty\<rparr>\<rparr>"

lemmas new_journal_defs = new_journals_def NewRestarts_def NewDisruptions_def NewNodeEvents_def NewStates_def NewCounters_def
  NewJobRuns_def NewGoroutines_def hour_def minute_def second_def

lemma new_journals_new: "journals_new new_journals"
  by (simp add: journals_new_def new_journal_defs)

lemma counting_journals_ok: "journals_ok counting_journals"
  by (simp add: journals_ok_def counting_journals_def new_journal_defs restarts_ok_def goroutines_ok_def mvalues_def)

lemma counting_journals_held: "journals_held demo_decoders epoch counting_journals (Sp_dir counter_spool)"
proof -
  have none: "Restarts_Snapshots (J_restarts counting_journals) = []" "Disruptions_Snapshots (J_disruptions counting_journals) = []"
    "NodeEvents_Snapshots (J_nodes counting_journals) = []" "States_Snapshots (J_states counting_journals) = []"
    "JobRuns_Snapshots (J_jobs counting_journals) = []" "Goroutines_Snapshots (J_goroutines counting_journals) = []"
    by (simp_all add: counting_journals_def new_journal_defs Restarts_Snapshots_def Disruptions_Snapshots_def NodeEvents_Snapshots_def
        States_Snapshots_def JobRuns_Snapshots_def Goroutines_Snapshots_def snapshots_def mvalues_def)
  have one: "Counters_Snapshots (J_counters counting_journals) = [one_counter]" by code_simp
  have cut: "CutPrefix (agentCountersNamePrefix @ window_digits hour_window) prefix = None"
    if "prefix \<in> {restartsNamePrefix, disruptionsNamePrefix, nodeLifecycleNamePrefix, jobRunsNamePrefix, goroutineCountsNamePrefix,
      agentStatesNamePrefix}" for prefix
    using that by (auto simp: CutPrefix_def restartsNamePrefix_def disruptionsNamePrefix_def nodeLifecycleNamePrefix_def
        jobRunsNamePrefix_def goroutineCountsNamePrefix_def agentStatesNamePrefix_def agentCountersNamePrefix_def HasPrefix_def)
  have "holds (D_counters demo_decoders) agentCountersNamePrefix kindAgentCounters counter_window epoch [one_counter] (Sp_dir counter_spool)"
    by (auto simp: holds_def demo_facts counter_spool_def demo_decoders_def maxRecoveryBytes_def split: if_splits)
  then show ?thesis unfolding journals_held_def none one by (intro conjI holds_nothing cut) simp_all
qed

text \<open>
  C4. No journal loses or repeats an open window across a restart. Where the spool holds, readably, the
  snapshots a process left of its seven journals, a new process that seeds its empty journals at the
  instant \<open>now\<close> has exactly the old one's records of the windows that have not ended: six of them
  are the old stores cut to those windows, and the goroutine counts are the same with their samples
  in order.
\<close>

theorem restart_resumes_journals:
  assumes "journals_ok old" and "journals_new j" and "readable io" and "journals_held ds now old (Sp_dir s)"
    and "seedOpenWindows ds io now s p j = (s', p', j', log)"
  shows "Restarts_open (J_restarts j') = unended restart_window now (Restarts_open (J_restarts old)) \<and>
    Disruptions_open (J_disruptions j') = unended disruption_window now (Disruptions_open (J_disruptions old)) \<and>
    NodeEvents_open (J_nodes j') = unended node_event_window now (NodeEvents_open (J_nodes old)) \<and>
    States_open (J_states j') = unended state_window now (States_open (J_states old)) \<and>
    Counters_open (J_counters j') = unended counter_window now (Counters_open (J_counters old)) \<and>
    JobRuns_open (J_jobs j') = unended job_window now (JobRuns_open (J_jobs old)) \<and>
    (\<forall>k. mget (Goroutines_open (J_goroutines j')) k =
      map_option GoroutineRecord_clone (mget (unended goroutine_window now (Goroutines_open (J_goroutines old))) k))"
proof -
  obtain s1 rec where r: "RecoverOpenWindows ds io now s = (s1, Inr rec)" using Recover_succeeds [OF assms(3)] by blast
  note held = assms(4) [unfolded journals_held_def]
  note recs = journals_recovered [OF r assms(3) conjunct1 [OF held] conjunct1 [OF conjunct2 [OF held]]
      conjunct1 [OF conjunct2 [OF conjunct2 [OF held]]] conjunct1 [OF conjunct2 [OF conjunct2 [OF conjunct2 [OF held]]]]
      conjunct1 [OF conjunct2 [OF conjunct2 [OF conjunct2 [OF conjunct2 [OF held]]]]]
      conjunct1 [OF conjunct2 [OF conjunct2 [OF conjunct2 [OF conjunct2 [OF conjunct2 [OF held]]]]]]
      conjunct2 [OF conjunct2 [OF conjunct2 [OF conjunct2 [OF conjunct2 [OF conjunct2 [OF held]]]]]]]
  note ok = assms(1) [unfolded journals_ok_def] and new = assms(2) [unfolded journals_new_def]
  note j' = seedOpenWindows_eq(2) [OF r assms(5)]
  have dis: "fst (resume disruption_key (\<lambda>r. r) (Rec_Disruptions rec) mempty) = unended disruption_window now (Disruptions_open (J_disruptions old))"
    unfolding unended_def using ok recs by (intro disruption_store.resume_carries) (simp_all add: Disruptions_Snapshots_def)
  have nod: "fst (resume node_event_key (\<lambda>r. r) (Rec_NodeEvents rec) mempty) = unended node_event_window now (NodeEvents_open (J_nodes old))"
    unfolding unended_def using ok recs by (intro node_event_store.resume_carries) (simp_all add: NodeEvents_Snapshots_def)
  have sta: "fst (resume state_key (\<lambda>r. r) (Rec_AgentStates rec) mempty) = unended state_window now (States_open (J_states old))"
    unfolding unended_def using ok recs by (intro state_store.resume_carries) (simp_all add: States_Snapshots_def)
  have cnt: "fst (resume counter_key (\<lambda>r. r) (Rec_AgentCounters rec) mempty) = unended counter_window now (Counters_open (J_counters old))"
    unfolding unended_def using ok recs by (intro counter_store.resume_carries) (simp_all add: Counters_Snapshots_def)
  have job: "fst (resume job_key (\<lambda>r. r) (Rec_JobRuns rec) mempty) = unended job_window now (JobRuns_open (J_jobs old))"
    unfolding unended_def using ok recs by (intro job_store.resume_carries) (simp_all add: JobRuns_Snapshots_def)
  have res: "Restarts_open (fst (Restarts_Resume (Rec_Restarts rec) (J_restarts j))) = unended restart_window now (Restarts_open (J_restarts old))"
    using ok recs new by (intro restarts_carried) blast+
  have gor: "mget (Goroutines_open (fst (Goroutines_Resume (Rec_GoroutineCounts rec) (J_goroutines j)))) k =
      map_option GoroutineRecord_clone (mget (unended goroutine_window now (Goroutines_open (J_goroutines old))) k)" for k
    using ok recs new by (intro goroutines_carried) blast+
  show ?thesis
    using new dis nod sta cnt job res gor
    by (simp add: j' Disruptions_Resume_def NodeEvents_Resume_def States_Resume_def Counters_Resume_def JobRuns_Resume_def
        case_prod_beta Let_def)
qed

theorem restart_resumes_journals_witness:
  "let (s', p', j', log) = seedOpenWindows demo_decoders no_read_faults epoch counter_spool NewUsagePoller new_journals
   in Counters_open (J_counters j') = mput (counter_key one_counter) one_counter mempty"
proof -
  obtain s' p' j' log where r: "seedOpenWindows demo_decoders no_read_faults epoch counter_spool NewUsagePoller new_journals = (s', p', j', log)"
    by (metis prod_cases4)
  have "unended counter_window epoch (mput (counter_key one_counter) one_counter mempty) = mput (counter_key one_counter) one_counter mempty"
    by (rule gomap_eqI) (simp add: unended_def mget_mfilter demo_facts second_def)
  then show ?thesis
    using restart_resumes_journals [OF counting_journals_ok new_journals_new demo_facts(1) counting_journals_held r] r
    by (simp add: counting_journals_def)
qed

section \<open>A restart of the usage poller\<close>

text \<open>A record built by fewer writes than a counter can hold.\<close>

definition built :: "Histogram Record \<Rightarrow> bool" where
  "built r \<longleftrightarrow> (\<exists>ops. length ops < 2 ^ 64 \<and> room_for ops (newRecord (Record_Key r) (Record_WindowStart r) (Record_WindowSeconds r)) \<and>
     r = fold apply_op ops (newRecord (Record_Key r) (Record_WindowStart r) (Record_WindowSeconds r)))"

lemma Seed_built:
  assumes "built r" and "startOf (Acc_win a) (Record_WindowStart r) = Record_WindowStart r"
    and "Record_WindowSeconds r = seconds (Acc_win a)" and "mget (Acc_open a) (record_key r) = None"
  shows "Seed (as_decoded r) a = (a\<lparr>Acc_open := mput (record_key r) r (Acc_open a)\<rparr>, None)"
proof -
  let ?new = "newRecord (Record_Key r) (Record_WindowStart r) (Record_WindowSeconds r)"
  obtain ops where ops: "length ops < 2 ^ 64" "room_for ops ?new" "r = fold apply_op ops ?new" using assms(1) by (auto simp: built_def)
  have "Record_Merge ?new r = (r, None)"
    using Record_Merge_writes [OF record_ok_newRecord ops(2,1) newRecord_sel] ops(3) [symmetric] by simp
  then show ?thesis
    using assms(2-4) by (simp add: Seed_def recordAt_eq Let_def mget_or_def record_key_def) 
qed

lemma Poller_Seed_built:
  assumes "distinct (map record_key rs)"
    and "\<forall>r \<in> set rs. built r \<and> startOf (Acc_win (P_acc p)) (Record_WindowStart r) = Record_WindowStart r \<and>
      Record_WindowSeconds r = seconds (Acc_win (P_acc p)) \<and> mget (Acc_open (P_acc p)) (record_key r) = None"
  shows "let (p', errs') = fold seed_record (map as_decoded rs) (p, errs) in
    errs' = errs \<and>
    Acc_open (P_acc p') = fold (\<lambda>r. mput (record_key r) r) rs (Acc_open (P_acc p)) \<and>
    P_resumedKeys p' = fold (\<lambda>r. mput (Record_Key r) ()) rs (P_resumedKeys p)"
  using assms
proof (induction rs arbitrary: p)
  case (Cons r rs)
  define q where "q = fst (seed_record (as_decoded r) (p, errs))"
  have seed: "Seed (as_decoded r) (P_acc p) = ((P_acc p)\<lparr>Acc_open := mput (record_key r) r (Acc_open (P_acc p))\<rparr>, None)"
    using Cons.prems(2) by (intro Seed_built) simp_all
  have step: "seed_record (as_decoded r) (p, errs) = (q, errs)" "P_acc q = (P_acc p)\<lparr>Acc_open := mput (record_key r) r (Acc_open (P_acc p))\<rparr>"
    "P_resumedKeys q = mput (Record_Key r) () (P_resumedKeys p)"
    by (simp_all add: q_def seed_record_def seed Let_def)
  have "\<forall>x \<in> set rs. built x \<and> startOf (Acc_win (P_acc q)) (Record_WindowStart x) = Record_WindowStart x \<and>
      Record_WindowSeconds x = seconds (Acc_win (P_acc q)) \<and> mget (Acc_open (P_acc q)) (record_key x) = None"
    using Cons.prems by (auto simp: step(2) image_iff)
  from Cons.IH [OF _ this] show ?case
    using Cons.prems(1) unfolding list.map fold_Cons o_apply step(1) by (simp add: case_prod_beta step(2,3))
qed simp

lemma fold_mput_values:
  assumes "distinct (map f rs)"
  shows "mget (fold (\<lambda>r. mput (f r) (g r)) rs m) k = (case List.find (\<lambda>r. f r = k) rs of None \<Rightarrow> mget m k | Some r \<Rightarrow> Some (g r))"
  using assms
proof (induction rs arbitrary: m)
  case (Cons r rs)
  have "List.find (\<lambda>x. f x = k) rs = None" if "f r = k" using Cons.prems that by (auto simp: find_None_iff image_iff)
  then show ?case using Cons by (auto split: option.splits)
qed simp

text \<open>The records of a store, some of them, in any order, put back into an empty store.\<close>

lemma store_rebuilt:
  assumes "keyed record_key m" and "mset rs = mset (filter P (mvalues m))"
  shows "distinct (map record_key rs)" and "fold (\<lambda>r. mput (record_key r) r) rs mempty = mfilter (\<lambda>_. P) m"
proof -
  have keys: "map record_key (mvalues m) = mkeys m"
    using assms(1) by (auto simp: mvalues_def mkeys_def keyed_def comp_def)
  have "distinct (map record_key (mvalues m))" by (simp add: keys)
  then have "distinct (map record_key (filter P (mvalues m)))" by (rule distinct_map_filter)
  moreover have "mset (map record_key rs) = mset (map record_key (filter P (mvalues m)))" using assms(2) by (metis mset_map)
  ultimately show d: "distinct (map record_key rs)" by (metis mset_eq_imp_distinct_iff)
  have mem: "r \<in> set rs \<longleftrightarrow> (\<exists>k. mget m k = Some r) \<and> P r" for r
    using arg_cong [OF assms(2), of set_mset] by (auto simp: mvalues_iff set_eq_iff)
  show "fold (\<lambda>r. mput (record_key r) r) rs mempty = mfilter (\<lambda>_. P) m"
  proof (rule gomap_eqI)
    fix k
    have "List.find (\<lambda>r. record_key r = k) rs = mget (mfilter (\<lambda>_. P) m) k"
    proof (cases "List.find (\<lambda>r. record_key r = k) rs")
      case None
      then have "\<not> P r" if "mget m k = Some r" for r
        using that assms(1) mem [of r] unfolding find_None_iff keyed_iff by metis
      then show ?thesis unfolding None by (simp add: mget_mfilter split: option.splits)
    next
      case (Some r)
      then have "r \<in> set rs" "record_key r = k" by (auto simp: find_Some_iff)
      then have "mget m k = Some r" "P r" using assms(1) mem [of r] unfolding keyed_iff by metis+
      then show ?thesis unfolding Some by (simp add: mget_mfilter)
    qed
    then show "mget (fold (\<lambda>r. mput (record_key r) r) rs mempty) k = mget (mfilter (\<lambda>_. P) m) k"
      unfolding fold_mput_values [OF d, of "\<lambda>r. r"] by (simp split: option.splits)
  qed
qed

text \<open>The keys a seeded poller must not credit from their start are those it resumed.\<close>

lemma mget_fold_keys:
  "mget (fold (\<lambda>r. mput (f r) (g r)) rs m) k = None \<longleftrightarrow> mget m k = None \<and> k \<notin> f ` set rs"
  by (induction rs arbitrary: m) auto

lemma mset_snapshots_usage: "mset (Accumulator_Snapshots a) = mset (mvalues (Acc_open a))"
  by (simp add: Accumulator_Snapshots_def snapshots_def multiset.map_ident_strong)

text \<open>
  C3. Usage is neither lost nor counted twice across a restart. A process flushes its poller and writes
  the snapshots of the open windows without a fault; its successor seeds a new poller at the instant
  \<open>now\<close>. Then no record is refused, the new accumulator holds exactly the old one's records of the
  windows that have not ended, and the containers whose first counter reading will be credited from
  their start are exactly those that have no resumed record.
\<close>

theorem restart_resumes_usage:
  fixes w :: "('fp, ('o, 'x) payload) world"
  assumes flush: "poller_flush t old = (fl, old')" "acc_ok (P_acc old')" "Acc_win (P_acc old') = Acc_win (P_acc NewUsagePoller)"
      "\<forall>k r. mget (Acc_open (P_acc old')) k = Some r \<longrightarrow> built r \<and> nameable (record_window r) \<and>
        mget (Sp_dir s) (closed_name (record_window r)) = None"
    and wr: "faultless w" "permutes_keys w" "\<And>p. marshalIndent w p \<noteq> None"
      "WriteUsageSnapshot w (Fl_snapshots fl) obs s = (s1, None)"
      "\<forall>n k. mget (Sp_dir s) n \<noteq> None \<and> HasSuffix n usageSnapshotSuffix \<and> now < windowKey_end k \<and>
        parseWindowName (TrimSuffix n usageSnapshotSuffix) usageNamePrefix = Some k \<longrightarrow>
        n \<in> snapshot_name ` record_window ` set (Fl_snapshots fl)"
    and decode: "\<forall>k \<in> record_window ` set (Fl_snapshots fl). int (length (snapshot_bytes w obs (Fl_snapshots fl) k)) \<le> maxRecoveryBytes \<and>
        D_usage ds (snapshot_bytes w obs (Fl_snapshots fl) k) = Some (usage_payload kindUsageSnapshot obs k
          (map (\<lambda>r. Some (as_decoded r)) (filter (\<lambda>r. record_window r = k) (Fl_snapshots fl))))"
    and seed: "readable io" "seedOpenWindows ds io now s1 NewUsagePoller j = (s2, p', j', log)"
  shows "Acc_open (P_acc p') = unended record_window now (Acc_open (P_acc old')) \<and>
    (\<forall>key. attributableFromStart key p' \<longleftrightarrow> (\<forall>n. mget (Acc_open (P_acc p')) (key, n) = None)) \<and>
    (\<forall>errs. NotAdopted errs \<notin> set log)"
proof -
  let ?P = "\<lambda>r. now < windowKey_end (record_window r)" and ?m = "Acc_open (P_acc old')"
  obtain s3 rec where r: "RecoverOpenWindows ds io now s1 = (s3, Inr rec)" using Recover_succeeds [OF seed(1)] by blast
  have snaps: "mset (Fl_snapshots fl) = mset (mvalues ?m)"
    using flush(1) by (auto simp: poller_flush_def Let_def case_prod_beta mset_snapshots_usage)
  have mem: "r \<in> set (Fl_snapshots fl) \<longleftrightarrow> (\<exists>k. mget ?m k = Some r)" for r
    using arg_cong [OF snaps, of set_mset] by (simp add: set_eq_iff mvalues_iff)
  have all: "\<forall>r \<in> set (Fl_snapshots fl). nameable (record_window r)"
    "\<forall>r \<in> set (Fl_snapshots fl). mget (Sp_dir s) (closed_name (record_window r)) = None"
    using flush(4) mem by blast+
  have recs: "mset (Rec_Records rec) = mset (map as_decoded (filter ?P (Fl_snapshots fl)))"
    by (rule usage_snapshots_recovered [OF wr(1-3) all(1) wr(4) all(2) wr(5) decode seed(1) r])
  define rs where "rs = map fill_record (Rec_Records rec)"
  have dec: "Rec_Records rec = map as_decoded rs"
    using arg_cong [OF recs, of set_mset] by (auto simp: rs_def comp_def intro!: map_idI [symmetric])
  have "mset rs = image_mset fill_record (mset (Rec_Records rec))" by (simp add: rs_def)
  also have "\<dots> = mset (filter ?P (Fl_snapshots fl))" unfolding recs by (simp add: multiset.map_comp comp_def)
  also have "\<dots> = mset (filter ?P (mvalues ?m))" using snaps by (simp add: mset_filter)
  finally have rs: "mset rs = mset (filter ?P (mvalues ?m))" .
  have keyed: "keyed record_key ?m" using flush(2) by (simp add: acc_ok_def)
  note built = store_rebuilt [OF keyed rs]
  have inrs: "\<exists>k. mget ?m k = Some r" if "r \<in> set rs" for r
    using that arg_cong [OF rs, of set_mset] by (auto simp: set_eq_iff mvalues_iff)
  have fits: "built r \<and> startOf (Acc_win (P_acc NewUsagePoller)) (Record_WindowStart r) = Record_WindowStart r \<and>
      Record_WindowSeconds r = seconds (Acc_win (P_acc NewUsagePoller)) \<and> mget (Acc_open (P_acc NewUsagePoller)) (record_key r) = None"
    if "r \<in> set rs" for r
  proof -
    obtain k where k: "mget ?m k = Some r" using inrs [OF \<open>r \<in> set rs\<close>] by blast
    then have "wlength (Acc_win (P_acc old')) dvd Record_WindowStart r" "Record_WindowSeconds r = seconds (Acc_win (P_acc old'))"
      using flush(2) unfolding acc_ok_iff by blast+
    moreover have "built r" using flush(4) k by blast
    ultimately show ?thesis using acc_ok_window [OF flush(2)] flush(3) Truncate_of_dvd
      by (simp add: startOf_def NewUsagePoller_def NewAccumulator_def UsageWindowLength_def hour_def minute_def second_def)
  qed
  have out: "snd (Poller_Seed (Rec_Records rec) NewUsagePoller) = []" "Acc_open (P_acc p') = mfilter (\<lambda>_. ?P) ?m"
    "P_resumedKeys p' = fold (\<lambda>r. mput (Record_Key r) ()) rs mempty"
    using Poller_Seed_built [OF built(1), of NewUsagePoller "[]"] fits seedOpenWindows_eq(1) [OF r seed(2)] built(2)
    by (simp_all add: Poller_Seed_def dec case_prod_beta)
      (simp_all add: NewUsagePoller_def NewAccumulator_def UsageWindowLength_def hour_def minute_def second_def)
  have "attributableFromStart key p' \<longleftrightarrow> (\<forall>n. mget (Acc_open (P_acc p')) (key, n) = None)" for key
  proof -
    have "mget (mfilter (\<lambda>_. ?P) ?m) (key, n) = None \<longleftrightarrow> (key, n) \<notin> record_key ` set rs" for n
      unfolding built(2) [symmetric] mget_fold_keys by simp
    then show ?thesis unfolding attributableFromStart_def out mget_fold_keys by (auto simp: record_key_def image_iff)
  qed
  then show ?thesis using out(1,2) seedOpenWindows_eq(3) [OF r seed(2)] by (auto simp: unended_def)
qed

definition polled :: UsagePoller where
  "polled = NewUsagePoller\<lparr>P_acc := \<lparr>Acc_win = \<lparr>wlength = hour\<rparr>, Acc_open = mput (record_key web_record) web_record mempty\<rparr>\<rparr>"

theorem restart_resumes_usage_witness:
  "\<exists>s1. WriteUsageSnapshot calm (Fl_snapshots (fst (poller_flush epoch polled))) () empty_spool = (s1, None) \<and>
    (let (s2, p', j', log) = seedOpenWindows demo_decoders no_read_faults epoch s1 NewUsagePoller new_journals
     in Acc_open (P_acc p') = mput (record_key web_record) web_record mempty)"
proof -
  let ?snap = "WriteUsageSnapshot calm [web_record] () empty_spool"
  have fl: "Fl_snapshots (fst (poller_flush epoch polled)) = [web_record]"
    "P_acc (snd (poller_flush epoch polled)) = P_acc polled" by code_simp+
  obtain fl p1 where flush: "poller_flush epoch polled = (fl, p1)" by force
  then have snaps: "Fl_snapshots fl = [web_record]" and acc: "P_acc p1 = P_acc polled" using fl by simp_all
  obtain s1 where s1: "?snap = (s1, None)"
    using snapshot_kind.windows_written [OF calm_world, of "[web_record]" record_window
        "\<lambda>k recs. UsagePayload (usage_payload kindUsageSnapshot () k recs)" empty_spool] demo_facts
    unfolding WriteUsageSnapshot_def by auto
  obtain s2 p' j' log where seed: "seedOpenWindows demo_decoders no_read_faults epoch s1 NewUsagePoller new_journals = (s2, p', j', log)"
    by (metis prod_cases4)
  have built: "built web_record"
    unfolding built_def by (rule exI [of _ "[]"]) (simp add: web_record_def room_for_def maxInt64_def)
  have ok: "acc_ok (P_acc p1)" "Acc_win (P_acc p1) = Acc_win (P_acc NewUsagePoller)"
    unfolding acc by (simp_all add: acc_ok_iff polled_def NewUsagePoller_def NewAccumulator_def UsageWindowLength_def web_record_def
        hour_def minute_def second_def seconds_def epoch_def unixToInternal_def signed_divide_int_def)
  have recs: "\<forall>k r. mget (Acc_open (P_acc p1)) k = Some r \<longrightarrow> built r \<and> nameable (record_window r) \<and>
      mget (Sp_dir empty_spool) (closed_name (record_window r)) = None"
    unfolding acc by (auto simp: polled_def built demo_facts split: if_splits)
  have bytes: "\<forall>k \<in> record_window ` set (Fl_snapshots fl). int (length (snapshot_bytes calm () (Fl_snapshots fl) k)) \<le> maxRecoveryBytes \<and>
      D_usage demo_decoders (snapshot_bytes calm () (Fl_snapshots fl) k) = Some (usage_payload kindUsageSnapshot () k
        (map (\<lambda>r. Some (as_decoded r)) (filter (\<lambda>r. record_window r = k) (Fl_snapshots fl))))"
    by (simp add: snaps demo_facts demo_decoders_def snapshot_bytes_def file_at_def landed_def maxRecoveryBytes_def)
      (simp add: calm_def)
  have "Acc_open (P_acc p') = unended record_window epoch (Acc_open (P_acc p1))"
    using restart_resumes_usage [OF flush ok recs calm_world _ _ bytes demo_facts(1) seed] s1 snaps by simp
  moreover have "unended record_window epoch (Acc_open (P_acc p1)) = mput (record_key web_record) web_record mempty"
    unfolding acc by (rule gomap_eqI) (simp add: unended_def mget_mfilter polled_def demo_facts second_def)
  ultimately show ?thesis using s1 fl(1) seed by auto
qed

end
