(* ===== verification/ProcFiles.thy ===== *)
theory ProcFiles
  imports GoStrings
begin

text \<open>
  The readers of \<open>/proc\<close> in \<open>internal/nodescan\<close>: the pod binding in a process's cgroup
  (\<open>cgroup.go\<close>), its status, memory and descriptor files (\<open>procstatus.go\<close>, \<open>procmem.go\<close>,
  \<open>procfiles.go\<close>), its counters (\<open>proccounters.go\<close>), its listening sockets (\<open>listeners.go\<close>) and the
  search for a marker in its executable (\<open>pprofmark.go\<close>).

  A file is its text, \<^const>\<open>None\<close> where it cannot be opened; the readers parse the text exactly. The
  two regular expressions of \<open>cgroup.go\<close> have a fixed length, so their leftmost match is a search for
  the first position at which a predicate on the next bytes holds. \<open>int\<close> and \<open>int64\<close> values are
  integers, wrapped where the code can exceed them.
\<close>

section \<open>The cgroup\<close>

record PodBinding =
  PodUID :: string
  ContainerID :: string

definition is_hex :: "char \<Rightarrow> bool" where
  "is_hex c \<longleftrightarrow> (let n = (of_char c :: nat) in 48 \<le> n \<and> n \<le> 57 \<or> 97 \<le> n \<and> n \<le> 102 \<or> 65 \<le> n \<and> n \<le> 70)"

text \<open>The 36 bytes \<open>podUIDPattern\<close> captures: five groups of hexadecimal digits, separated by dashes or underscores.\<close>

definition uid_separators :: "nat list" where "uid_separators = [8, 13, 18, 23]"

definition uid_shape :: "string \<Rightarrow> bool" where
  "uid_shape u \<longleftrightarrow> length u = 36 \<and>
     (\<forall>i < 36. if i \<in> set uid_separators then u ! i = CHR ''-'' \<or> u ! i = CHR ''_'' else is_hex (u ! i))"

fun find_uid :: "string \<Rightarrow> string option" where
  "find_uid [] = None"
| "find_uid (c # s) =
     (if HasPrefix (c # s) ''pod'' \<and> uid_shape (take 36 (drop 3 (c # s))) then Some (take 36 (drop 3 (c # s))) else find_uid s)"

text \<open>All matches of \<open>containerIDPattern\<close>, leftmost and not overlapping.\<close>

function hex_ids :: "string \<Rightarrow> string list" where
  "hex_ids s =
     (if length s < 64 then []
      else if list_all is_hex (take 64 s) then take 64 s # hex_ids (drop 64 s)
      else hex_ids (tl s))"
  by pat_completeness auto
termination
  by (relation "measure length") auto

declare hex_ids.simps [simp del]

definition cgroup_line :: "string \<Rightarrow> PodBinding \<Rightarrow> PodBinding" where
  "cgroup_line line b =
     (case Cut line (CHR '':'') of
        None \<Rightarrow> b
      | Some (_, rest) \<Rightarrow>
          case Cut rest (CHR '':'') of
            None \<Rightarrow> b
          | Some (_, path) \<Rightarrow>
              let b = (if PodUID b = [] then
                         (case find_uid path of
                            None \<Rightarrow> b
                          | Some u \<Rightarrow> b\<lparr>PodUID := map (\<lambda>c. if c = CHR ''_'' then CHR ''-'' else c) u\<rparr>)
                       else b);
                  all = hex_ids path
              in if all = [] then b else b\<lparr>ContainerID := ToLower (last all)\<rparr>)"

definition parseCgroup :: "string \<Rightarrow> PodBinding" where
  "parseCgroup content = fold cgroup_line (Split content newline) \<lparr>PodUID = [], ContainerID = []\<rparr>"

definition ReadBinding :: "string option \<Rightarrow> PodBinding" where
  "ReadBinding raw = (case raw of None \<Rightarrow> \<lparr>PodUID = [], ContainerID = []\<rparr> | Some content \<Rightarrow> parseCgroup content)"

section \<open>Status, memory and descriptors\<close>

record ProcessStatus =
  PS_PeakRSSBytes :: int
  PS_CPUsAllowed :: int
  PS_RSSAnonBytes :: int
  PS_RSSFileBytes :: int
  PS_Threads :: int
  PS_VoluntarySwitches :: int
  PS_NonvoluntarySwitches :: int

definition zeroStatus :: ProcessStatus where
  "zeroStatus = \<lparr>PS_PeakRSSBytes = 0, PS_CPUsAllowed = 0, PS_RSSAnonBytes = 0, PS_RSSFileBytes = 0, PS_Threads = 0,
     PS_VoluntarySwitches = 0, PS_NonvoluntarySwitches = 0\<rparr>"

definition maxStatusBytes :: int where "maxStatusBytes = 65536"

text \<open>\<open>io.LimitReader\<close> over the text of a file.\<close>

definition limited :: "int \<Rightarrow> string \<Rightarrow> string" where
  "limited n s = (if int (length s) \<le> n then s else take (nat n) s)"

definition countOf :: "string \<Rightarrow> int" where
  "countOf v = (case ParseInt v of None \<Rightarrow> 0 | Some n \<Rightarrow> if n < 0 then 0 else n)"

definition peakBytes :: "string \<Rightarrow> int" where
  "peakBytes v =
     (case Cut v (CHR '' '') of
        None \<Rightarrow> 0
      | Some (number, unit) \<Rightarrow>
          if TrimSpace unit \<noteq> ''kB'' then 0
          else case ParseInt number of
            None \<Rightarrow> 0
          | Some kb \<Rightarrow> if kb < 0 \<or> kb > 2 ^ 53 div 1024 then 0 else kb * 1024)"

text \<open>\<open>countCPUList\<close>: \<^const>\<open>None\<close> is the early return of 0.\<close>

fun count_spans :: "int \<Rightarrow> string list \<Rightarrow> int option" where
  "count_spans tot [] = Some tot"
| "count_spans tot (span # spans) =
     (if span = [] then count_spans tot spans
      else
        let (lo, hi) = (case Cut span (CHR ''-'') of None \<Rightarrow> (span, None) | Some (l, h) \<Rightarrow> (l, Some h)) in
        case ParseInt (TrimSpace lo) of
          None \<Rightarrow> None
        | Some first \<Rightarrow>
            if first < 0 then None
            else case hi of
              None \<Rightarrow> count_spans (add64 tot 1) spans
            | Some h \<Rightarrow>
                case ParseInt (TrimSpace h) of
                  None \<Rightarrow> None
                | Some lst \<Rightarrow> if lst < first then None else count_spans (add64 tot (wrap64 (lst - first + 1))) spans)"

definition countCPUList :: "string \<Rightarrow> int" where
  "countCPUList v = (case count_spans 0 (Split v (CHR '','')) of None \<Rightarrow> 0 | Some n \<Rightarrow> n)"

definition status_line :: "string \<Rightarrow> ProcessStatus \<Rightarrow> ProcessStatus" where
  "status_line line out =
     (case Cut line (CHR '':'') of
        None \<Rightarrow> out
      | Some (key, v) \<Rightarrow>
          let v = TrimSpace v in
          if key = ''VmHWM'' then out\<lparr>PS_PeakRSSBytes := peakBytes v\<rparr>
          else if key = ''Cpus_allowed_list'' then out\<lparr>PS_CPUsAllowed := countCPUList v\<rparr>
          else if key = ''RssAnon'' then out\<lparr>PS_RSSAnonBytes := peakBytes v\<rparr>
          else if key = ''RssFile'' then out\<lparr>PS_RSSFileBytes := peakBytes v\<rparr>
          else if key = ''Threads'' then
            (case ParseInt v of None \<Rightarrow> out | Some n \<Rightarrow> if n > 0 then out\<lparr>PS_Threads := n\<rparr> else out)
          else if key = ''voluntary_ctxt_switches'' then out\<lparr>PS_VoluntarySwitches := countOf v\<rparr>
          else if key = ''nonvoluntary_ctxt_switches'' then out\<lparr>PS_NonvoluntarySwitches := countOf v\<rparr>
          else out)"

definition parseProcessStatus :: "string \<Rightarrow> ProcessStatus" where
  "parseProcessStatus content = fold status_line (Lines content) zeroStatus"

definition ReadProcessStatus :: "string option \<Rightarrow> ProcessStatus" where
  "ReadProcessStatus f = (case f of None \<Rightarrow> zeroStatus | Some content \<Rightarrow> parseProcessStatus (limited maxStatusBytes content))"

record ProcessMemory =
  PM_PSSBytes :: int
  PM_PrivateDirtyBytes :: int

definition maxSmapsBytes :: int where "maxSmapsBytes = 16384"

definition memory_line :: "string \<Rightarrow> ProcessMemory \<Rightarrow> ProcessMemory" where
  "memory_line line out =
     (case Cut line (CHR '':'') of
        None \<Rightarrow> out
      | Some (key, v) \<Rightarrow>
          let v = TrimSpace v in
          if key = ''Pss'' then out\<lparr>PM_PSSBytes := peakBytes v\<rparr>
          else if key = ''Private_Dirty'' then out\<lparr>PM_PrivateDirtyBytes := peakBytes v\<rparr>
          else out)"

definition parseProcessMemory :: "string \<Rightarrow> ProcessMemory" where
  "parseProcessMemory content = fold memory_line (Lines content) \<lparr>PM_PSSBytes = 0, PM_PrivateDirtyBytes = 0\<rparr>"

definition ReadProcessMemory :: "string option \<Rightarrow> ProcessMemory" where
  "ReadProcessMemory f =
     (case f of None \<Rightarrow> \<lparr>PM_PSSBytes = 0, PM_PrivateDirtyBytes = 0\<rparr> | Some content \<Rightarrow> parseProcessMemory (limited maxSmapsBytes content))"

record ProcessFiles =
  PF_Open :: int
  PF_Limit :: int

definition maxLimitsBytes :: int where "maxLimitsBytes = 16384"
definition maxProcessFDs :: int where "maxProcessFDs = 65536"
definition maxSocketBytes :: int where "maxSocketBytes = 4194304"

text \<open>The names in the \<open>fd\<close> directory, read in batches until they end or the bound is reached.\<close>

definition countOpenFiles :: "'n list option \<Rightarrow> int" where
  "countOpenFiles names = (case names of None \<Rightarrow> 0 | Some ns \<Rightarrow> min (int (length ns)) maxProcessFDs)"

fun limit_lines :: "string list \<Rightarrow> int" where
  "limit_lines [] = 0"
| "limit_lines (line # rest) =
     (case CutPrefix line ''Max open files'' of
        None \<Rightarrow> limit_lines rest
      | Some columns \<Rightarrow>
          let columns = TrimSpace columns;
              soft = (case Cut columns (CHR '' '') of None \<Rightarrow> columns | Some (s, _) \<Rightarrow> s) in
          case ParseInt soft of None \<Rightarrow> 0 | Some n \<Rightarrow> if n \<le> 0 then 0 else n)"

definition readFileLimit :: "string option \<Rightarrow> int" where
  "readFileLimit f = (case f of None \<Rightarrow> 0 | Some content \<Rightarrow> limit_lines (Lines (limited maxLimitsBytes content)))"

definition ReadProcessFiles :: "'n list option \<Rightarrow> string option \<Rightarrow> ProcessFiles" where
  "ReadProcessFiles names limits = \<lparr>PF_Open = countOpenFiles names, PF_Limit = readFileLimit limits\<rparr>"

section \<open>Counters\<close>

record ProcessCounters =
  Cn_OnCPUNanos :: int
  Cn_RunDelayNanos :: int
  Cn_CPUUserNanos :: int
  Cn_CPUSystemNanos :: int
  Cn_MajorFaults :: int
  Cn_VoluntarySwitches :: int
  Cn_NonvoluntarySwitches :: int
  Cn_ReadBytes :: int
  Cn_WriteBytes :: int

definition userHZ :: int where "userHZ = 100"
definition nanosPerTick :: int where "nanosPerTick = 10000000"
definition maxCounterFileBytes :: int where "maxCounterFileBytes = 16384"

text \<open>The field of \<open>/proc/<pid>/stat\<close> with the given number, counted from the name in parentheses.\<close>

definition stat_field :: "string list \<Rightarrow> nat \<Rightarrow> int option" where
  "stat_field fs n =
     (if n < 3 \<or> length fs \<le> n - 3 then None
      else case ParseInt (fs ! (n - 3)) of None \<Rightarrow> None | Some i \<Rightarrow> if i < 0 then None else Some i)"

definition readProcStat :: "string option \<Rightarrow> (int \<times> int \<times> int \<times> int) option" where
  "readProcStat f =
     (case f of
        None \<Rightarrow> None
      | Some body \<Rightarrow>
          case after_last (CHR '')'') (limited maxCounterFileBytes body) of
            None \<Rightarrow> None
          | Some rest \<Rightarrow>
              let fs = Fields rest in
              case (stat_field fs 12, stat_field fs 14, stat_field fs 15, stat_field fs 22) of
                (Some majflt, Some utime, Some stime, Some startTicks) \<Rightarrow> Some (utime, stime, majflt, startTicks)
              | _ \<Rightarrow> None)"

definition readSchedStat :: "string option \<Rightarrow> int \<times> int" where
  "readSchedStat f =
     (case f of
        None \<Rightarrow> (0, 0)
      | Some body \<Rightarrow>
          case Fields (limited maxCounterFileBytes body) of
            x # y # _ \<Rightarrow>
              (case (ParseInt x, ParseInt y) of
                 (Some a, Some b) \<Rightarrow> if a < 0 \<or> b < 0 then (0, 0) else (a, b)
               | _ \<Rightarrow> (0, 0))
          | _ \<Rightarrow> (0, 0))"

definition io_line :: "string \<Rightarrow> int \<times> int \<Rightarrow> int \<times> int" where
  "io_line line rw =
     (case Cut line (CHR '':'') of
        None \<Rightarrow> rw
      | Some (key, v) \<Rightarrow>
          case ParseInt (TrimSpace v) of
            None \<Rightarrow> rw
          | Some n \<Rightarrow>
              if n < 0 then rw
              else if key = ''read_bytes'' then (n, snd rw)
              else if key = ''write_bytes'' then (fst rw, n)
              else rw)"

definition readProcIO :: "string option \<Rightarrow> int \<times> int" where
  "readProcIO f = (case f of None \<Rightarrow> (0, 0) | Some content \<Rightarrow> fold io_line (Lines (limited maxCounterFileBytes content)) (0, 0))"

definition readProcessCounters ::
    "string option \<Rightarrow> string option \<Rightarrow> string option \<Rightarrow> ProcessStatus \<Rightarrow> (ProcessCounters \<times> int) option" where
  "readProcessCounters stat schedstat procio status =
     (case readProcStat stat of
        None \<Rightarrow> None
      | Some (utime, stime, majflt, startTicks) \<Rightarrow>
          let (onCPU, runDelay) = readSchedStat schedstat; (rd, wr) = readProcIO procio in
          Some (\<lparr>Cn_OnCPUNanos = onCPU, Cn_RunDelayNanos = runDelay, Cn_CPUUserNanos = wrap64 (utime * nanosPerTick),
                 Cn_CPUSystemNanos = wrap64 (stime * nanosPerTick), Cn_MajorFaults = majflt,
                 Cn_VoluntarySwitches = PS_VoluntarySwitches status, Cn_NonvoluntarySwitches = PS_NonvoluntarySwitches status,
                 Cn_ReadBytes = rd, Cn_WriteBytes = wr\<rparr>, startTicks))"

section \<open>Listening sockets\<close>

record ListeningPort =
  LP_Port :: int
  LP_Loopback :: bool

definition tcpStateListen :: string where "tcpStateListen = ''0A''"

definition merge_port :: "ListeningPort \<Rightarrow> (int, bool) gomap \<Rightarrow> (int, bool) gomap" where
  "merge_port lp byPort =
     (case mget byPort (LP_Port lp) of
        Some prev \<Rightarrow> mput (LP_Port lp) (prev \<and> LP_Loopback lp) byPort
      | None \<Rightarrow> mput (LP_Port lp) (LP_Loopback lp) byPort)"

definition MergeListeningPorts :: "ListeningPort list list \<Rightarrow> ListeningPort list" where
  "MergeListeningPorts pls =
     (let byPort = fold merge_port (concat pls) mempty
      in sort_slice (\<lambda>a b. LP_Port a < LP_Port b) (map (\<lambda>(p, l). \<lparr>LP_Port = p, LP_Loopback = l\<rparr>) (entries byPort)))"

definition hex_value :: "char \<Rightarrow> nat" where
  "hex_value c = (let n = of_char c in if n \<le> 57 then n - 48 else if n \<le> 70 then n - 55 else n - 87)"

text \<open>\<open>strconv.ParseUint(s, 16, 32)\<close> and \<open>hex.DecodeString\<close>.\<close>

definition parse_hex32 :: "string \<Rightarrow> nat option" where
  "parse_hex32 s =
     (if s = [] \<or> \<not> list_all is_hex s then None
      else let n = fold (\<lambda>c n. 16 * n + hex_value c) s 0 in if n < 2 ^ 32 then Some n else None)"

fun hex_bytes :: "string \<Rightarrow> nat list option" where
  "hex_bytes [] = Some []"
| "hex_bytes [c] = None"
| "hex_bytes (c # d # s) =
     (if is_hex c \<and> is_hex d then map_option (\<lambda>bs. (16 * hex_value c + hex_value d) # bs) (hex_bytes s) else None)"

text \<open>The bytes of every 32-bit word reversed; an address is four or sixteen bytes.\<close>

fun swap_words :: "nat list \<Rightarrow> nat list" where
  "swap_words (a # b # c # d # rest) = d # c # b # a # swap_words rest"
| "swap_words bs = bs"

text \<open>\<open>net.IP.IsLoopback\<close>: an IPv4 address, possibly in its IPv6 form, in 127.0.0.0/8, or \<open>::1\<close>.\<close>

definition v4InV6Prefix :: "nat list" where "v4InV6Prefix = [0, 0, 0, 0, 0, 0, 0, 0, 0, 0, 255, 255]"

definition IsLoopback :: "nat list \<Rightarrow> bool" where
  "IsLoopback ip =
     (if length ip = 4 then ip ! 0 = 127
      else if length ip = 16 \<and> take 12 ip = v4InV6Prefix then ip ! 12 = 127
      else ip = replicate 15 0 @ [1])"

definition parseLocalAddress :: "string \<Rightarrow> (int \<times> bool) option" where
  "parseLocalAddress field =
     (case Cut field (CHR '':'') of
        None \<Rightarrow> None
      | Some (addrHex, portHex) \<Rightarrow>
          case parse_hex32 portHex of
            None \<Rightarrow> None
          | Some p \<Rightarrow>
              if p = 0 \<or> p > 65535 then None
              else case hex_bytes addrHex of
                None \<Rightarrow> None
              | Some raw \<Rightarrow>
                  if length raw \<noteq> 4 \<and> length raw \<noteq> 16 then None else Some (int p, IsLoopback (swap_words raw)))"

definition listen_row :: "string \<Rightarrow> (nat, ListeningPort) gomap \<Rightarrow> (nat, ListeningPort) gomap" where
  "listen_row line byInode =
     (let fs = Fields line in
      if length fs < 10 \<or> fs ! 3 \<noteq> tcpStateListen then byInode
      else case parseLocalAddress (fs ! 1) of
        None \<Rightarrow> byInode
      | Some (port, loopback) \<Rightarrow>
          case ParseUint (fs ! 9) of
            None \<Rightarrow> byInode
          | Some inode \<Rightarrow> mput inode \<lparr>LP_Port = port, LP_Loopback = loopback\<rparr> byInode)"

definition parseListenRows :: "string \<Rightarrow> (nat, ListeningPort) gomap \<Rightarrow> (nat, ListeningPort) gomap" where
  "parseListenRows content byInode = fold listen_row (Lines content) byInode"

definition readListenRows :: "string option \<Rightarrow> (nat, ListeningPort) gomap \<Rightarrow> (nat, ListeningPort) gomap" where
  "readListenRows f byInode = (case f of None \<Rightarrow> byInode | Some content \<Rightarrow> parseListenRows (limited maxSocketBytes content) byInode)"

definition socketInode :: "string \<Rightarrow> nat option" where
  "socketInode target =
     (case CutPrefix target ''socket:['' of
        None \<Rightarrow> None
      | Some rest \<Rightarrow> case CutSuffix rest '']'' of None \<Rightarrow> None | Some digits \<Rightarrow> ParseUint digits)"

text \<open>The descriptors of a process are the targets of the links in its \<open>fd\<close> directory, \<^const>\<open>None\<close> where unreadable.\<close>

definition processSocketInodes :: "string option list option \<Rightarrow> nat list" where
  "processSocketInodes fds =
     (case fds of
        None \<Rightarrow> []
      | Some targets \<Rightarrow>
          if int (length targets) > maxProcessFDs then []
          else List.map_filter (\<lambda>t. case t of None \<Rightarrow> None | Some target \<Rightarrow> socketInode target) targets)"

definition ReadListeningPorts :: "string option \<Rightarrow> string option \<Rightarrow> string option list option \<Rightarrow> ListeningPort list" where
  "ReadListeningPorts tcp tcp6 fds =
     (let byInode = readListenRows tcp6 (readListenRows tcp mempty) in
      if mlen byInode = 0 then []
      else
        let owned = processSocketInodes fds;
            found = map snd (filter (\<lambda>e. fst e \<in> set owned) (entries byInode))
        in MergeListeningPorts [found])"

section \<open>The marker search\<close>

definition pprofMarker :: string where "pprofMarker = ''net/http/pprof.Index''"

definition contains :: "string \<Rightarrow> string \<Rightarrow> bool" where
  "contains s sub \<longleftrightarrow> strings_Index s sub \<noteq> None"

text \<open>\<open>scanForMarker\<close> over the chunks the reader delivers until it ends or fails.\<close>

fun scan_chunks :: "string \<Rightarrow> string \<Rightarrow> string list \<Rightarrow> bool" where
  "scan_chunks marker buf [] = False"
| "scan_chunks marker buf (chunk # chunks) =
     (if chunk = [] then scan_chunks marker buf chunks
      else
        let buf = buf @ chunk; overlap = length marker - 1 in
        contains buf marker \<or>
        scan_chunks marker (if length buf > overlap then drop (length buf - overlap) buf else buf) chunks)"

definition scanForMarker :: "string list \<Rightarrow> bool" where
  "scanForMarker chunks = scan_chunks pprofMarker [] chunks"

section \<open>Searching in chunks\<close>

lemma contains_iff: "contains s sub \<longleftrightarrow> (\<exists>a b. s = a @ sub @ b)"
proof
  assume "contains s sub"
  then obtain i where "strings_Index s sub = Some i" by (auto simp: contains_def)
  from strings_Index_Some [OF this] show "\<exists>a b. s = a @ sub @ b" by blast
next
  assume "\<exists>a b. s = a @ sub @ b"
  then show "contains s sub" using strings_Index_least by (fastforce simp: contains_def)
qed

lemma contains_suffix: "contains t m \<Longrightarrow> contains (p @ t) m"
  unfolding contains_iff by (metis append.assoc)

text \<open>An occurrence that begins before a tail of at least all but one byte of the marker ends in it.\<close>

lemma contains_tail:
  assumes "\<not> contains (p @ t) m" and "length m - 1 \<le> length t"
  shows "contains (p @ t @ x) m \<longleftrightarrow> contains (t @ x) m"
proof
  assume "contains (p @ t @ x) m"
  then obtain a b where e: "p @ t @ x = a @ m @ b" by (auto simp: contains_iff)
  show "contains (t @ x) m"
  proof (cases "length p \<le> length a")
    case True
    then have "t @ x = drop (length p) a @ m @ b" using arg_cong [OF e, of "drop (length p)"] by simp
    then show ?thesis unfolding contains_iff by blast
  next
    case False
    then have "length (a @ m) \<le> length (p @ t)" using assms(2) by auto
    moreover have "(p @ t) @ x = (a @ m) @ b" using e by simp
    ultimately obtain u where "p @ t = (a @ m) @ u" by (metis append_eq_append_conv2 append_eq_append_conv_if append_take_drop_id)
    then have "contains (p @ t) m" unfolding contains_iff by auto
    then show ?thesis using assms(1) by blast
  qed
qed (rule contains_suffix)

lemma scan_chunks_contains:
  assumes "\<not> contains buf m"
  shows "scan_chunks m buf chunks \<longleftrightarrow> contains (buf @ concat chunks) m"
  using assms
proof (induction chunks arbitrary: buf)
  case (Cons chunk chunks)
  define b where "b = buf @ chunk"
  define r where "r = concat chunks"
  define k where "k = (if length b > length m - 1 then length b - (length m - 1) else 0)"
  have goal: "contains (buf @ concat (chunk # chunks)) m \<longleftrightarrow> contains (b @ r) m" by (simp add: b_def r_def)
  have step: "scan_chunks m buf (chunk # chunks) \<longleftrightarrow> contains b m \<or> scan_chunks m (drop k b) chunks" if "chunk \<noteq> []"
    using that by (auto simp: b_def Let_def k_def)
  show ?case
  proof (cases "contains b m")
    case True
    then have "contains (b @ r) m" unfolding contains_iff by force
    then show ?thesis using True goal step Cons.prems by (cases "chunk = []") (auto simp: b_def)
  next
    case False
    have tail: "\<not> contains (drop k b) m"
      using False contains_suffix [of "drop k b" m "take k b"] by (metis append_take_drop_id)
    have "contains (take k b @ drop k b @ r) m \<longleftrightarrow> contains (drop k b @ r) m"
    proof (cases "k = 0")
      case False
      then have "length m - 1 \<le> length (drop k b)" by (auto simp: k_def split: if_splits)
      then show ?thesis using contains_tail [of "take k b" "drop k b" m r] \<open>\<not> contains b m\<close> by simp
    qed simp
    then have "contains (b @ r) m \<longleftrightarrow> contains (drop k b @ r) m" by (metis append.assoc append_take_drop_id)
    then have "contains (b @ r) m \<longleftrightarrow> scan_chunks m (drop k b) chunks" using Cons.IH [OF tail] by (simp add: r_def)
    then show ?thesis using Cons.IH [OF Cons.prems] Cons.prems step goal False
      by (cases "chunk = []") (simp_all add: b_def r_def)
  qed
qed simp

text \<open>
  The search of an executable for the pprof marker in chunks, which keeps only the last bytes of
  what it has read, answers whether the whole file contains the marker, however the reader splits it.
\<close>

theorem scanForMarker_contains: "scanForMarker chunks \<longleftrightarrow> (\<exists>a b. concat chunks = a @ pprofMarker @ b)"
proof -
  have "\<not> contains [] pprofMarker" by (simp add: contains_iff pprofMarker_def)
  then show ?thesis using scan_chunks_contains [of "[]" pprofMarker chunks] by (simp add: scanForMarker_def contains_iff)
qed

section \<open>Paths of the kubelet\<close>

definition canonical_uid :: "string \<Rightarrow> bool" where
  "canonical_uid u \<longleftrightarrow> uid_shape u \<and> (\<forall>i \<in> set uid_separators. u ! i = CHR ''-'')"

definition container_id :: "string \<Rightarrow> bool" where
  "container_id c \<longleftrightarrow> length c = 64 \<and> list_all is_hex c \<and> ToLower c = c"

definition underscored :: "string \<Rightarrow> string" where
  "underscored u = map (\<lambda>c. if c = CHR ''-'' then CHR ''_'' else c) u"

datatype qos = Guaranteed | Burstable | BestEffort

text \<open>The path the kubelet gives a container under either cgroup driver, after \<open>cgroup.go\<close>'s own description.\<close>

fun cgroupfs_path :: "qos \<Rightarrow> string \<Rightarrow> string \<Rightarrow> string" where
  "cgroupfs_path Guaranteed u c = ''/kubepods/pod'' @ u @ ''/'' @ c"
| "cgroupfs_path Burstable u c = ''/kubepods/burstable/pod'' @ u @ ''/'' @ c"
| "cgroupfs_path BestEffort u c = ''/kubepods/besteffort/pod'' @ u @ ''/'' @ c"

fun systemd_slice :: "qos \<Rightarrow> string" where
  "systemd_slice Guaranteed = ''/kubepods.slice/kubepods-pod''"
| "systemd_slice Burstable = ''/kubepods.slice/kubepods-burstable.slice/kubepods-burstable-pod''"
| "systemd_slice BestEffort = ''/kubepods.slice/kubepods-besteffort.slice/kubepods-besteffort-pod''"

definition systemd_path :: "qos \<Rightarrow> string \<Rightarrow> string \<Rightarrow> string" where
  "systemd_path q u c = systemd_slice q @ underscored u @ ''.slice/cri-containerd-'' @ c @ ''.scope''"

lemma is_hex_simps [simp]:
  "\<not> is_hex (CHR ''/'')" "\<not> is_hex (CHR ''.'')" "\<not> is_hex (CHR ''-'')" "\<not> is_hex (CHR ''_'')" "\<not> is_hex (CHR ''s'')"
  "\<not> is_hex (CHR '':'')" "\<not> is_hex newline"
  by (simp_all add: is_hex_def)

lemma hex_ids_short: "length s < 64 \<Longrightarrow> hex_ids s = []"
  by (simp add: hex_ids.simps)

lemma hex_ids_split: "\<not> is_hex c \<Longrightarrow> hex_ids (xs @ c # ys) = hex_ids xs @ hex_ids ys"
proof (induction "length xs" arbitrary: xs rule: less_induct)
  case less
  show ?case
  proof (cases "64 \<le> length xs")
    case True
    have short: "hex_ids (xs @ c # ys) = (if list_all is_hex (take 64 xs) then take 64 xs # hex_ids (drop 64 xs @ c # ys) else hex_ids (tl xs @ c # ys))"
      using True by (subst hex_ids.simps) (auto simp: tl_append split: list.splits)
    have "hex_ids xs = (if list_all is_hex (take 64 xs) then take 64 xs # hex_ids (drop 64 xs) else hex_ids (tl xs))"
      using True by (subst hex_ids.simps) simp
    moreover have "length (tl xs) < length xs" "length (drop 64 xs) < length xs" using True by (cases xs; simp)+
    ultimately show ?thesis using short less by simp
  next
    case False
    have "hex_ids (xs @ c # ys) = hex_ids ys"
    proof (cases xs)
      case Nil
      then show ?thesis using less.prems
        by (cases "length ys < 63"; subst hex_ids.simps) (simp_all add: hex_ids_short)
    next
      case (Cons x xs')
      have "\<not> list_all is_hex (take 64 (xs @ c # ys))"
        using False less.prems by (auto simp: take_Cons' list_all_iff)
      moreover have "hex_ids (xs' @ c # ys) = hex_ids xs' @ hex_ids ys" using less Cons by simp
      moreover have "hex_ids xs' = []" using False Cons by (simp add: hex_ids_short)
      ultimately show ?thesis using Cons by (subst hex_ids.simps) (auto simp: hex_ids_short)
    qed
    then show ?thesis using False by (simp add: hex_ids_short)
  qed
qed

lemma hex_ids_id: "container_id c \<Longrightarrow> hex_ids c = [c]"
  by (subst hex_ids.simps) (simp add: container_id_def hex_ids_short)

lemma uid_shape_underscored: "uid_shape u \<Longrightarrow> uid_shape (underscored u)"
  by (auto simp: uid_shape_def underscored_def split: if_splits)

lemma dashes_back: "canonical_uid u \<Longrightarrow> map (\<lambda>c. if c = CHR ''_'' then CHR ''-'' else c) u = u"
  "canonical_uid u \<Longrightarrow> map (\<lambda>c. if c = CHR ''_'' then CHR ''-'' else c) (underscored u) = u"
proof -
  assume u: "canonical_uid u"
  have "u ! i \<noteq> CHR ''_''" if "i < 36" for i
    using u that by (cases "i \<in> set uid_separators") (auto simp: canonical_uid_def uid_shape_def)
  then have "CHR ''_'' \<notin> set u" using u by (auto simp: canonical_uid_def uid_shape_def in_set_conv_nth)
  then show "map (\<lambda>c. if c = CHR ''_'' then CHR ''-'' else c) u = u"
    "map (\<lambda>c. if c = CHR ''_'' then CHR ''-'' else c) (underscored u) = u"
    by (auto simp: underscored_def intro!: map_idI)
qed

text \<open>The \<open>pod\<close> of \<open>kubepods\<close> is followed by an \<open>s\<close>, so it starts no match.\<close>

lemma uid_shape_first: "uid_shape (CHR ''s'' # s) = False"
proof -
  have "(CHR ''s'' # s) ! 0 = CHR ''s''" "0 \<notin> set uid_separators" by (simp_all add: uid_separators_def)
  then show ?thesis unfolding uid_shape_def by (metis is_hex_simps(5) zero_less_numeral)
qed

lemma find_uid_here: "uid_shape u \<Longrightarrow> find_uid (''pod'' @ u @ s) = Some u"
proof -
  assume u: "uid_shape u"
  then have "take 36 (u @ s) = u" by (simp add: uid_shape_def)
  then show ?thesis using u by (simp add: HasPrefix_def)
qed

lemma find_uid_skip: "c \<noteq> CHR ''p'' \<Longrightarrow> find_uid (c # s) = find_uid s"
  by (auto simp: HasPrefix_def)

lemma find_uid_pods: "find_uid (CHR ''p'' # CHR ''o'' # CHR ''d'' # CHR ''s'' # s) = find_uid s"
  by (simp add: HasPrefix_def uid_shape_first)

lemmas find_uid_walk = find_uid_skip find_uid_pods find_uid_here [unfolded append.simps]

lemma uid_of_path:
  assumes "canonical_uid u"
  shows "find_uid (cgroupfs_path q u c) = Some u" "find_uid (systemd_path q u c) = Some (underscored u)"
proof -
  have u: "uid_shape u" using assms by (simp add: canonical_uid_def)
  show "find_uid (cgroupfs_path q u c) = Some u"
    using u by (cases q) (simp_all add: find_uid_walk del: find_uid.simps(2))
  show "find_uid (systemd_path q u c) = Some (underscored u)"
    using uid_shape_underscored [OF u] by (cases q) (simp_all add: systemd_path_def find_uid_walk del: find_uid.simps(2))
qed

text \<open>The identifier of a pod is too short to hold a container's.\<close>

lemma uid_no_id: "uid_shape u \<Longrightarrow> hex_ids u = []"
  by (simp add: uid_shape_def hex_ids_short)

lemma hex_ids_lead: "\<not> is_hex d \<Longrightarrow> length xs < 64 \<Longrightarrow> hex_ids (xs @ d # ys) = hex_ids ys"
  by (simp add: hex_ids_split hex_ids_short)

lemma ids_of_path:
  assumes "canonical_uid u" and "container_id c"
  shows "hex_ids (cgroupfs_path q u c) = [c]" "hex_ids (systemd_path q u c) = [c]"
proof -
  note id = hex_ids_id [OF assms(2)]
  have lengths: "length u = 36" "length (underscored u) = 36" using assms(1) by (simp_all add: canonical_uid_def uid_shape_def underscored_def)
  have leaf: "hex_ids (c @ ''.scope'') = [c]" using hex_ids_split [of "CHR ''.''" c "''scope''"] id by (simp add: hex_ids_short)
  show "hex_ids (cgroupfs_path q u c) = [c]"
  proof (cases q)
    case Guaranteed
    then show ?thesis using hex_ids_lead [of "CHR ''/''" "''/kubepods/pod'' @ u" c] lengths id by simp
  next
    case Burstable
    then show ?thesis using hex_ids_lead [of "CHR ''/''" "''/kubepods/burstable/pod'' @ u" c] lengths id by simp
  next
    case BestEffort
    then show ?thesis using hex_ids_lead [of "CHR ''/''" "''/kubepods/besteffort/pod'' @ u" c] lengths id by simp
  qed
  have slice: "hex_ids (systemd_slice q @ x) = hex_ids (''pod'' @ x)" for x
    using hex_ids_lead [of "CHR ''-''" "''/kubepods.slice/kubepods''" "''pod'' @ x"]
      hex_ids_lead [of "CHR ''-''" "''/kubepods.slice/kubepods-burstable.slice/kubepods-burstable''" "''pod'' @ x"]
      hex_ids_lead [of "CHR ''-''" "''/kubepods.slice/kubepods-besteffort.slice/kubepods-besteffort''" "''pod'' @ x"]
    by (cases q) simp_all
  have "hex_ids (systemd_path q u c) = hex_ids (''slice/cri-containerd-'' @ c @ ''.scope'')"
    unfolding systemd_path_def slice
    using hex_ids_lead [of "CHR ''.''" "''pod'' @ underscored u" "''slice/cri-containerd-'' @ c @ ''.scope''"] lengths by simp
  also have "\<dots> = [c]" using hex_ids_lead [of "CHR ''-''" "''slice/cri-containerd''" "c @ ''.scope''"] leaf by simp
  finally show "hex_ids (systemd_path q u c) = [c]" .
qed

text \<open>One line of the file, \<open>hierarchy:controllers:path\<close>.\<close>

definition cgroup_entry :: "string \<Rightarrow> string \<times> string \<Rightarrow> string" where
  "cgroup_entry path hk = fst hk @ '':'' @ snd hk @ '':'' @ path @ [newline]"

lemma hex_not_break: "is_hex x \<Longrightarrow> x \<noteq> newline" by auto

lemma path_plain:
  assumes "canonical_uid u" and "container_id c" and "path \<in> {cgroupfs_path q u c, systemd_path q u c}"
  shows "newline \<notin> set path"
proof -
  have u: "newline \<notin> set u"
  proof
    assume "newline \<in> set u"
    then obtain i where "i < length u" "u ! i = newline" by (auto simp: in_set_conv_nth)
    then show False using assms(1)
      by (cases "i \<in> set uid_separators") (auto simp: canonical_uid_def uid_shape_def dest: hex_not_break)
  qed
  then have "newline \<notin> set (underscored u)" by (auto simp: underscored_def)
  moreover have "newline \<notin> set c" using assms(2) by (auto simp: container_id_def list_all_iff)
  ultimately show ?thesis using u assms(3) by (cases q) (auto simp: systemd_path_def)
qed

lemma cgroup_line_binds:
  assumes "canonical_uid u" and "container_id c" and "path \<in> {cgroupfs_path q u c, systemd_path q u c}"
    and "CHR '':'' \<notin> set h" and "CHR '':'' \<notin> set k" and "PodUID b = [] \<or> PodUID b = u"
  shows "cgroup_line (h @ '':'' @ k @ '':'' @ path) b = \<lparr>PodUID = u, ContainerID = c\<rparr>"
proof -
  have cuts: "Cut (h @ '':'' @ k @ '':'' @ path) (CHR '':'') = Some (h, k @ '':'' @ path)"
    "Cut (k @ '':'' @ path) (CHR '':'') = Some (k, path)"
    using Cut_append assms(4,5) by simp_all
  have ids: "hex_ids path = [c]" using ids_of_path [OF assms(1,2)] assms(3) by auto
  obtain v where uid: "find_uid path = Some v" "map (\<lambda>c. if c = CHR ''_'' then CHR ''-'' else c) v = u"
    using uid_of_path [OF assms(1)] dashes_back [OF assms(1)] assms(3) by blast
  have low: "ToLower c = c" using assms(2) by (simp add: container_id_def)
  show ?thesis
    unfolding cgroup_line_def cuts option.case prod.case ids uid
    using assms(6) low by (cases b) (auto simp: Let_def uid)
qed

lemma parse_entries:
  assumes "canonical_uid u" and "container_id c" and "path \<in> {cgroupfs_path q u c, systemd_path q u c}"
    and "\<forall>hk \<in> set hks. CHR '':'' \<notin> set (fst hk @ snd hk) \<and> newline \<notin> set (fst hk @ snd hk)"
    and "PodUID b = u \<and> ContainerID b = c \<or> hks \<noteq> [] \<and> PodUID b = []"
  shows "fold cgroup_line (Split (concat (map (cgroup_entry path) hks)) newline) b = \<lparr>PodUID = u, ContainerID = c\<rparr>"
  using assms(4,5)
proof (induction hks arbitrary: b)
  case Nil
  then show ?case by (cases b) (simp add: cgroup_line_def Cut_def)
next
  case (Cons hk hks)
  define line where "line = fst hk @ '':'' @ snd hk @ '':'' @ path"
  have "newline \<notin> set line" using Cons.prems path_plain [OF assms(1-3)] by (auto simp: line_def)
  then have split: "Split (concat (map (cgroup_entry path) (hk # hks))) newline = line # Split (concat (map (cgroup_entry path) hks)) newline"
    using Split_append [of newline line] by (simp add: cgroup_entry_def line_def)
  have "cgroup_line line b = \<lparr>PodUID = u, ContainerID = c\<rparr>"
    unfolding line_def using Cons.prems by (intro cgroup_line_binds [OF assms(1-3)]) auto
  then show ?case using Cons.IH [of "\<lparr>PodUID = u, ContainerID = c\<rparr>"] Cons.prems(1) unfolding split by simp
qed

text \<open>
  A process the kubelet placed is bound to its pod and container: from a cgroup file whose lines all
  carry the container's path, one hierarchy per line or the single line of version 2, in any quality of
  service class and under either cgroup driver, the parser recovers the pod's canonical identifier and
  the container's, the underscores of the systemd driver included.
\<close>

theorem parseCgroup_binds:
  assumes "canonical_uid u" and "container_id c" and "path \<in> {cgroupfs_path q u c, systemd_path q u c}" and "hks \<noteq> []"
    and "\<forall>hk \<in> set hks. CHR '':'' \<notin> set (fst hk @ snd hk) \<and> newline \<notin> set (fst hk @ snd hk)"
  shows "parseCgroup (concat (map (cgroup_entry path) hks)) = \<lparr>PodUID = u, ContainerID = c\<rparr>"
  unfolding parseCgroup_def by (rule parse_entries) (use assms in auto)

theorem parseCgroup_binds_witness:
  "parseCgroup (concat (map (cgroup_entry (systemd_path Burstable ''0a1b2c3d-1111-2222-3333-444455556666'' (replicate 64 (CHR ''f''))))
     [(''12'', ''pids''), (''0'', '''')]))
   = \<lparr>PodUID = ''0a1b2c3d-1111-2222-3333-444455556666'', ContainerID = replicate 64 (CHR ''f'')\<rparr>"
proof (rule parseCgroup_binds)
  show "canonical_uid ''0a1b2c3d-1111-2222-3333-444455556666''" by code_simp
  show "container_id (replicate 64 (CHR ''f''))" by code_simp
qed auto

section \<open>What the readers can return\<close>

lemma peakBytes_bounds: "0 \<le> peakBytes v \<and> peakBytes v \<le> 2 ^ 53"
proof -
  have "0 \<le> kb \<Longrightarrow> \<not> kb > 2 ^ 53 div 1024 \<Longrightarrow> 0 \<le> kb * 1024 \<and> kb * 1024 \<le> (2 :: int) ^ 53" for kb by simp
  then show ?thesis unfolding peakBytes_def by (auto split: option.splits simp del: power_numeral)
qed

lemma countOf_nonneg: "0 \<le> countOf v"
  by (simp add: countOf_def split: option.splits)

definition status_ok :: "ProcessStatus \<Rightarrow> bool" where
  "status_ok s \<longleftrightarrow> 0 \<le> PS_PeakRSSBytes s \<and> PS_PeakRSSBytes s \<le> 2 ^ 53 \<and> 0 \<le> PS_RSSAnonBytes s \<and> PS_RSSAnonBytes s \<le> 2 ^ 53 \<and>
     0 \<le> PS_RSSFileBytes s \<and> PS_RSSFileBytes s \<le> 2 ^ 53 \<and> 0 \<le> PS_Threads s \<and>
     0 \<le> PS_VoluntarySwitches s \<and> 0 \<le> PS_NonvoluntarySwitches s"

lemma status_line_ok: "status_ok s \<Longrightarrow> status_ok (status_line line s)"
  using peakBytes_bounds countOf_nonneg
  by (simp add: status_line_def Let_def status_ok_def split: option.splits prod.splits)

lemma ReadProcessStatus_ok: "status_ok (ReadProcessStatus f)"
proof -
  have "status_ok s \<Longrightarrow> status_ok (fold status_line ls s)" for ls s by (induction ls arbitrary: s) (auto intro: status_line_ok)
  moreover have "status_ok zeroStatus" by (simp add: status_ok_def zeroStatus_def)
  ultimately show ?thesis by (auto simp: ReadProcessStatus_def parseProcessStatus_def split: option.splits)
qed

definition memory_ok :: "ProcessMemory \<Rightarrow> bool" where
  "memory_ok m \<longleftrightarrow> 0 \<le> PM_PSSBytes m \<and> PM_PSSBytes m \<le> 2 ^ 53 \<and> 0 \<le> PM_PrivateDirtyBytes m \<and> PM_PrivateDirtyBytes m \<le> 2 ^ 53"

lemma ReadProcessMemory_ok: "memory_ok (ReadProcessMemory f)"
proof -
  have "memory_ok m \<Longrightarrow> memory_ok (memory_line l m)" for l m
    using peakBytes_bounds by (simp add: memory_line_def Let_def memory_ok_def split: option.splits prod.splits)
  then have "memory_ok m \<Longrightarrow> memory_ok (fold memory_line ls m)" for ls m by (induction ls arbitrary: m) auto
  moreover have "memory_ok \<lparr>PM_PSSBytes = 0, PM_PrivateDirtyBytes = 0\<rparr>" by (simp add: memory_ok_def)
  ultimately show ?thesis by (auto simp: ReadProcessMemory_def parseProcessMemory_def split: option.splits)
qed

lemma ReadProcessFiles_ok: "0 \<le> PF_Open (ReadProcessFiles ns l) \<and> PF_Open (ReadProcessFiles ns l) \<le> maxProcessFDs \<and> 0 \<le> PF_Limit (ReadProcessFiles ns l)"
proof -
  have "0 \<le> limit_lines ls" for ls by (induction ls) (simp_all add: Let_def split: option.splits)
  then show ?thesis by (simp add: ReadProcessFiles_def countOpenFiles_def readFileLimit_def maxProcessFDs_def split: option.splits)
qed

section \<open>Ports of several sockets\<close>

interpretation port_order: sort_order "\<lambda>a b. LP_Port a < LP_Port b" LP_Port
  by unfold_locales simp

lemma mget_merge_ports:
  "mget (fold merge_port lps m) p =
     (if \<exists>lp \<in> set lps. LP_Port lp = p
      then Some ((\<forall>b. mget m p = Some b \<longrightarrow> b) \<and> (\<forall>lp \<in> set lps. LP_Port lp = p \<longrightarrow> LP_Loopback lp))
      else mget m p)"
  by (induction lps arbitrary: m) (auto simp: merge_port_def split: option.splits)

lemma merge_mem:
  "lp \<in> set (MergeListeningPorts pls) \<longleftrightarrow>
     (\<exists>l \<in> set (concat pls). LP_Port l = LP_Port lp) \<and>
     (LP_Loopback lp \<longleftrightarrow> (\<forall>l \<in> set (concat pls). LP_Port l = LP_Port lp \<longrightarrow> LP_Loopback l))"
proof -
  define m where "m = fold merge_port (concat pls) mempty"
  have "lp \<in> set (MergeListeningPorts pls) \<longleftrightarrow> (LP_Port lp, LP_Loopback lp) \<in> set (entries m)"
    by (cases lp) (force simp: MergeListeningPorts_def m_def image_iff)
  also have "\<dots> \<longleftrightarrow> mget m (LP_Port lp) = Some (LP_Loopback lp)" by (simp only: mget_entries)
  finally show ?thesis unfolding m_def mget_merge_ports by auto
qed

lemma merge_strict: "sorted_wrt (<) (map LP_Port (MergeListeningPorts pls))"
proof -
  define es where "es = entries (fold merge_port (concat pls) mempty)"
  have s: "MergeListeningPorts pls = sort_slice (\<lambda>a b. LP_Port a < LP_Port b) (map (\<lambda>(p, l). \<lparr>LP_Port = p, LP_Loopback = l\<rparr>) es)"
    by (simp add: MergeListeningPorts_def es_def)
  have "map LP_Port (map (\<lambda>(p, l). \<lparr>LP_Port = p, LP_Loopback = l\<rparr>) es) = map fst es" by (induction es) auto
  moreover have "distinct (map fst es)" unfolding es_def by (rule entries_distinct)
  ultimately have "distinct (map LP_Port (map (\<lambda>(p, l). \<lparr>LP_Port = p, LP_Loopback = l\<rparr>) es))" by metis
  then have "distinct (map LP_Port (MergeListeningPorts pls))"
    unfolding s by (metis distinct_map mset_eq_imp_distinct_iff mset_map mset_sort_slice)
  moreover have "sorted (map LP_Port (MergeListeningPorts pls))" unfolding s by (rule port_order.sorted_sort_slice)
  ultimately show ?thesis by (simp add: strict_sorted_iff)
qed

text \<open>
  The ports of a workload's processes are merged into one list in increasing order without
  repetition: a port is in it exactly when some process listens on it, and it is called loopback-only
  exactly when every one of its sockets is.
\<close>

theorem MergeListeningPorts_exact:
  "sorted_wrt (<) (map LP_Port (MergeListeningPorts pls)) \<and>
   (\<lparr>LP_Port = p, LP_Loopback = l\<rparr> \<in> set (MergeListeningPorts pls) \<longleftrightarrow>
     p \<in> LP_Port ` set (concat pls) \<and> l = (\<not> \<lparr>LP_Port = p, LP_Loopback = False\<rparr> \<in> set (concat pls)))"
proof -
  have inner: "(\<forall>q \<in> A. LP_Port q = p \<longrightarrow> LP_Loopback q) \<longleftrightarrow> \<lparr>LP_Port = p, LP_Loopback = False\<rparr> \<notin> A" for A
  proof
    assume none: "\<lparr>LP_Port = p, LP_Loopback = False\<rparr> \<notin> A"
    show "\<forall>q \<in> A. LP_Port q = p \<longrightarrow> LP_Loopback q"
    proof (intro ballI impI)
      fix q assume "q \<in> A" "LP_Port q = p"
      then show "LP_Loopback q" using none by (cases q; cases "LP_Loopback q") auto
    qed
  qed force
  have outer: "(\<exists>q \<in> A. LP_Port q = p) \<longleftrightarrow> p \<in> LP_Port ` A" for A by blast
  show ?thesis
    using merge_strict merge_mem [of "\<lparr>LP_Port = p, LP_Loopback = l\<rparr>" pls]
    unfolding ListeningPort.select_convs inner outer by blast
qed

lemma ReadListeningPorts_ports:
  assumes "lp \<in> set (ReadListeningPorts tcp tcp6 fds)"
  shows "1 \<le> LP_Port lp \<and> LP_Port lp \<le> 65535"
proof -
  define ok where "ok = (\<lambda>m :: (nat, ListeningPort) gomap. \<forall>i q. mget m i = Some q \<longrightarrow> 1 \<le> LP_Port q \<and> LP_Port q \<le> 65535)"
  have row: "ok m \<Longrightarrow> ok (listen_row l m)" for l m
    by (auto simp: ok_def listen_row_def parseLocalAddress_def Let_def split: option.splits if_splits)
  have rows: "ok m \<Longrightarrow> ok (fold listen_row ls m)" for ls m
    by (induction ls arbitrary: m) (auto intro: row)
  have reads: "ok m \<Longrightarrow> ok (readListenRows f m)" for f m
    by (simp add: readListenRows_def parseListenRows_def rows split: option.splits)
  define m where "m = readListenRows tcp6 (readListenRows tcp mempty)"
  have "ok mempty" by (simp add: ok_def)
  then have "ok m" unfolding m_def by (intro reads)
  have "lp \<in> set (MergeListeningPorts [map snd (filter (\<lambda>e. fst e \<in> set (processSocketInodes fds)) (entries m))])"
    using assms by (simp add: ReadListeningPorts_def m_def [symmetric] Let_def split: if_splits)
  then obtain i q where "(i, q) \<in> set (entries m)" "LP_Port q = LP_Port lp" unfolding merge_mem by auto
  then have "mget m i = Some q" "LP_Port q = LP_Port lp" by (simp_all only: mget_entries)
  then show ?thesis using \<open>ok m\<close> unfolding ok_def by metis
qed

end
