(* ===== verification/NodeScan.thy ===== *)
theory NodeScan
  imports ProcFiles GoTime
begin

text \<open>
  The scan pass of the node role, \<open>internal/nodescan\<close>: the scope the controller grants (\<open>scope.go\<close>),
  the deny-list of infrastructure modules (\<open>filter.go\<close>), the counter and marker caches carried between
  passes (\<open>proccounters.go\<close>, \<open>pprofmark.go\<close>), the facts taken from a build (\<open>scan.go\<close>) and the report that
  leaves the node (\<open>report.go\<close>).

  A process is a record of the files the scanner may open under its directory; \<^const>\<open>None\<close> is a file
  that cannot be read. The scanner threads its two caches explicitly, so that what a pass reads of a
  process is visible in the definitions: \<open>scan_sees_only_scope\<close> states that a process outside the scope
  contributes its cgroup and nothing else.
\<close>

section \<open>Scope and filter\<close>

record Scope =
  Scope_uids :: "(string, unit) gomap"

definition NewScope :: "string list \<Rightarrow> Scope" where
  "NewScope podUIDs = \<lparr>Scope_uids = fold (\<lambda>uid uids. if uid \<noteq> [] then mput uid () uids else uids) podUIDs mempty\<rparr>"

definition DenyAll :: Scope where "DenyAll = \<lparr>Scope_uids = mempty\<rparr>"

definition Scope_Admits :: "Scope \<Rightarrow> string \<Rightarrow> bool" where
  "Scope_Admits s podUID = (if podUID = [] then False else mget (Scope_uids s) podUID \<noteq> None)"

definition Scope_Size :: "Scope \<Rightarrow> nat" where "Scope_Size s = mlen (Scope_uids s)"

definition DefaultInfraModulePrefixes :: "string list" where
  "DefaultInfraModulePrefixes =
     [''github.com/RebuildStackCo/'', ''k8s.io/'', ''sigs.k8s.io/'', ''github.com/containerd/'', ''github.com/opencontainers/'',
      ''github.com/cri-o/'', ''github.com/coredns/'', ''github.com/containernetworking/'', ''github.com/cilium/'',
      ''github.com/projectcalico/'', ''github.com/tigera/'', ''istio.io/'', ''github.com/envoyproxy/'', ''go.etcd.io/'',
      ''github.com/prometheus/'', ''github.com/prometheus-operator/'', ''github.com/grafana/'', ''github.com/open-telemetry/'',
      ''github.com/fluent/'']"

text \<open>
  \<open>strings.EqualFold\<close> against a prefix of plain characters: a slice of the same number of bytes can equal
  it only byte by byte, so the folding is that of the plain letters.
\<close>

definition prefixOnBoundary :: "string \<Rightarrow> string \<Rightarrow> bool" where
  "prefixOnBoundary path prefix =
     (if length path < length prefix then False else ToLower (take (length prefix) path) = ToLower prefix)"

record ModuleFilter =
  MF_prefixes :: "string list"

definition NewModuleFilter :: "string list \<Rightarrow> ModuleFilter" where
  "NewModuleFilter dropPrefixes = \<lparr>MF_prefixes = dropPrefixes\<rparr>"

definition IsInfra :: "ModuleFilter \<Rightarrow> string \<Rightarrow> bool" where
  "IsInfra f modulePath = list_ex (\<lambda>p. prefixOnBoundary modulePath p) (MF_prefixes f)"

section \<open>Builds\<close>

text \<open>What \<open>debug/buildinfo\<close> reads from an executable; a dependency may be a nil pointer.\<close>

record DepModule =
  Dep_Path :: string
  Dep_Version :: string
  Dep_Replace :: bool

record BuildInfo =
  BI_GoVersion :: string
  BI_Path :: string
  BI_MainPath :: string
  BI_Deps :: "DepModule option list"
  BI_Settings :: "(string \<times> string) list"

record Module =
  Mod_Path :: string
  Mod_Version :: string
  Mod_Replaced :: bool

definition dependencyModules :: "BuildInfo \<Rightarrow> Module list" where
  "dependencyModules info =
     List.map_filter (map_option (\<lambda>d. \<lparr>Mod_Path = Dep_Path d, Mod_Version = Dep_Version d, Mod_Replaced = Dep_Replace d\<rparr>)) (BI_Deps info)"

definition OwnModules :: "string \<Rightarrow> Module list \<Rightarrow> string list" where
  "OwnModules mainModule deps =
     (if mainModule \<noteq> [] then [mainModule] else []) @
     map Mod_Path (filter (\<lambda>m. Mod_Replaced m \<and> Mod_Path m \<noteq> []) deps)"

definition buildSettingsAllowList :: "string list" where
  "buildSettingsAllowList =
     [''CGO_ENABLED'', ''GOARCH'', ''GOAMD64'', ''GOARM64'', ''GOARM'', ''-race'', ''-trimpath'', ''vcs'', ''vcs.revision'',
      ''vcs.time'', ''vcs.modified'']"

definition maxSettingValue :: int where "maxSettingValue = 128"

definition keep_setting :: "string \<times> string \<Rightarrow> (string, string) gomap \<Rightarrow> (string, string) gomap" where
  "keep_setting kv out =
     (if fst kv \<notin> set buildSettingsAllowList then out
      else if snd kv = [] \<or> int (length (snd kv)) > maxSettingValue then out
      else mput (fst kv) (snd kv) out)"

definition buildSettings :: "BuildInfo \<Rightarrow> (string, string) gomap" where
  "buildSettings info = fold keep_setting (BI_Settings info) mempty"

definition goDebugAllowList :: "string list" where
  "goDebugAllowList =
     [''containermaxprocs'', ''updatemaxprocs'', ''tls10server'', ''tls3des'', ''tlsrsakex'', ''tlssha1'', ''tlsunsafeekm'',
      ''x509negativeserial'', ''fips140ems'', ''rsa1024min'', ''cryptocustomrand'', ''httplaxcontentlength'', ''tarinsecurepath'',
      ''zipinsecurepath'', ''execerrdot'']"

definition maxGoDebugValue :: int where "maxGoDebugValue = 8"

definition keep_godebug :: "string \<Rightarrow> (string, string) gomap \<Rightarrow> (string, string) gomap" where
  "keep_godebug pair out =
     (case Cut pair (CHR ''='') of
        None \<Rightarrow> out
      | Some (name, v) \<Rightarrow>
          if name \<notin> set goDebugAllowList then out
          else if v = [] \<or> int (length v) > maxGoDebugValue then out
          else mput name v out)"

definition goDebugDefaults :: "BuildInfo \<Rightarrow> (string, string) gomap" where
  "goDebugDefaults info =
     (let raw = (case map_of (BI_Settings info) ''DefaultGODEBUG'' of None \<Rightarrow> [] | Some v \<Rightarrow> v)
      in fold keep_godebug (Split raw (CHR '','')) mempty)"

definition hasPGO :: "BuildInfo \<Rightarrow> bool" where
  "hasPGO info = (case map_of (BI_Settings info) ''-pgo'' of None \<Rightarrow> False | Some v \<Rightarrow> v \<noteq> [] \<and> v \<noteq> ''off'')"

definition pidFromName :: "string \<Rightarrow> int option" where
  "pidFromName name = (case ParseInt name of None \<Rightarrow> None | Some pid \<Rightarrow> if pid \<le> 0 then None else Some pid)"

text \<open>The error of \<open>buildinfo.ReadFile\<close>: whether it is \<open>fs.ErrNotExist\<close>, and its text.\<close>

record exe_error =
  Err_NotExist :: bool
  Err_Text :: string

definition isTransientProcError :: "exe_error \<Rightarrow> bool" where
  "isTransientProcError err \<longleftrightarrow> Err_NotExist err \<or> contains (Err_Text err) ''no such process''"

section \<open>A process\<close>

text \<open>
  The files of \<open>/proc/<pid>\<close>: the entry's name, the cgroup, the executable as \<open>buildinfo\<close> reads it, the
  executable as a file (its device and inode where the platform tells them, and its bytes as the reader
  delivers them), the links of the descriptor directory, and the text files.
\<close>

record Proc =
  Pr_name :: string
  Pr_cgroup :: "string option"
  Pr_buildinfo :: "exe_error + BuildInfo"
  Pr_exe :: "((nat \<times> nat) option \<times> string list) option"
  Pr_status :: "string option"
  Pr_smaps :: "string option"
  Pr_fd :: "string option list option"
  Pr_limits :: "string option"
  Pr_stat :: "string option"
  Pr_schedstat :: "string option"
  Pr_io :: "string option"
  Pr_tcp :: "string option"
  Pr_tcp6 :: "string option"

section \<open>Counters between passes\<close>

record CounterDelta =
  CD_ObservedNanos :: int
  CD_OnCPUNanos :: int
  CD_RunDelayNanos :: int
  CD_CPUUserNanos :: int
  CD_CPUSystemNanos :: int
  CD_MajorFaults :: int
  CD_VoluntarySwitches :: int
  CD_NonvoluntarySwitches :: int
  CD_ReadBytes :: int
  CD_WriteBytes :: int

record reading =
  rd_at :: time
  rd_startTicks :: int
  rd_counters :: ProcessCounters

record counterCache =
  cc_last :: "(int, reading) gomap"
  cc_seen :: "(int, unit) gomap"

definition newCounterCache :: counterCache where
  "newCounterCache = \<lparr>cc_last = mempty, cc_seen = mempty\<rparr>"

definition negative :: "CounterDelta \<Rightarrow> bool" where
  "negative d \<longleftrightarrow> CD_OnCPUNanos d < 0 \<or> CD_RunDelayNanos d < 0 \<or> CD_CPUUserNanos d < 0 \<or>
     CD_CPUSystemNanos d < 0 \<or> CD_MajorFaults d < 0 \<or> CD_VoluntarySwitches d < 0 \<or>
     CD_NonvoluntarySwitches d < 0 \<or> CD_ReadBytes d < 0 \<or> CD_WriteBytes d < 0"

definition counters_minus :: "duration \<Rightarrow> ProcessCounters \<Rightarrow> ProcessCounters \<Rightarrow> CounterDelta" where
  "counters_minus elapsed cur prev =
     \<lparr>CD_ObservedNanos = elapsed,
      CD_OnCPUNanos = sub64 (Cn_OnCPUNanos cur) (Cn_OnCPUNanos prev),
      CD_RunDelayNanos = sub64 (Cn_RunDelayNanos cur) (Cn_RunDelayNanos prev),
      CD_CPUUserNanos = sub64 (Cn_CPUUserNanos cur) (Cn_CPUUserNanos prev),
      CD_CPUSystemNanos = sub64 (Cn_CPUSystemNanos cur) (Cn_CPUSystemNanos prev),
      CD_MajorFaults = sub64 (Cn_MajorFaults cur) (Cn_MajorFaults prev),
      CD_VoluntarySwitches = sub64 (Cn_VoluntarySwitches cur) (Cn_VoluntarySwitches prev),
      CD_NonvoluntarySwitches = sub64 (Cn_NonvoluntarySwitches cur) (Cn_NonvoluntarySwitches prev),
      CD_ReadBytes = sub64 (Cn_ReadBytes cur) (Cn_ReadBytes prev),
      CD_WriteBytes = sub64 (Cn_WriteBytes cur) (Cn_WriteBytes prev)\<rparr>"

definition counters_delta :: "Proc \<Rightarrow> int \<Rightarrow> time \<Rightarrow> ProcessStatus \<Rightarrow> counterCache \<Rightarrow> CounterDelta option \<times> counterCache" where
  "counters_delta p pid now status c =
     (case readProcessCounters (Pr_stat p) (Pr_schedstat p) (Pr_io p) status of
        None \<Rightarrow> (None, c)
      | Some (cur, startTicks) \<Rightarrow>
          let prev = mget (cc_last c) pid;
              c = \<lparr>cc_last = mput pid \<lparr>rd_at = now, rd_startTicks = startTicks, rd_counters = cur\<rparr> (cc_last c),
                   cc_seen = mput pid () (cc_seen c)\<rparr>
          in case prev of
               None \<Rightarrow> (None, c)
             | Some prev \<Rightarrow>
                 if rd_startTicks prev \<noteq> startTicks then (None, c)
                 else
                   let elapsed = Sub now (rd_at prev) in
                   if elapsed \<le> 0 then (None, c)
                   else
                     let d = counters_minus elapsed cur (rd_counters prev) in
                     if negative d then (None, c) else (Some d, c))"

definition counters_startPass :: "counterCache \<Rightarrow> counterCache" where
  "counters_startPass c = c\<lparr>cc_seen := mempty\<rparr>"

definition counters_endPass :: "counterCache \<Rightarrow> counterCache" where
  "counters_endPass c = c\<lparr>cc_last := mfilter (\<lambda>pid _. mget (cc_seen c) pid \<noteq> None) (cc_last c)\<rparr>"

section \<open>The marker cache\<close>

record markCache =
  mc_answers :: "(nat \<times> nat, bool) gomap"
  mc_seen :: "(nat \<times> nat, unit) gomap"

definition newMarkCache :: markCache where
  "newMarkCache = \<lparr>mc_answers = mempty, mc_seen = mempty\<rparr>"

definition maxBinaryScanBytes :: int where "maxBinaryScanBytes = 536870912"

text \<open>\<open>io.LimitReader\<close> over the chunks of a stream.\<close>

fun limit_chunks :: "int \<Rightarrow> string list \<Rightarrow> string list" where
  "limit_chunks n [] = []"
| "limit_chunks n (chunk # chunks) =
     (if n \<le> 0 then [] else take (nat n) chunk # limit_chunks (n - int (length chunk)) chunks)"

definition marks_lookup :: "Proc \<Rightarrow> markCache \<Rightarrow> bool \<times> markCache" where
  "marks_lookup p c =
     (case Pr_exe p of
        None \<Rightarrow> (False, c)
      | Some (key, chunks) \<Rightarrow>
          let answer = scanForMarker (limit_chunks maxBinaryScanBytes chunks) in
          case key of
            None \<Rightarrow> (answer, c)
          | Some k \<Rightarrow>
              case mget (mc_answers c) k of
                Some a \<Rightarrow> (a, c\<lparr>mc_seen := mput k () (mc_seen c)\<rparr>)
              | None \<Rightarrow> (answer, \<lparr>mc_answers = mput k answer (mc_answers c), mc_seen = mput k () (mc_seen c)\<rparr>))"

definition marks_startPass :: "markCache \<Rightarrow> markCache" where
  "marks_startPass c = c\<lparr>mc_seen := mempty\<rparr>"

definition marks_endPass :: "markCache \<Rightarrow> markCache" where
  "marks_endPass c = c\<lparr>mc_answers := mfilter (\<lambda>k _. mget (mc_seen c) k \<noteq> None) (mc_answers c)\<rparr>"

section \<open>The pass\<close>

record Footprint =
  Fp_RSSAnonBytes :: int
  Fp_RSSFileBytes :: int
  Fp_PSSBytes :: int
  Fp_PrivateDirtyBytes :: int
  Fp_Threads :: int
  Fp_OpenFiles :: int
  Fp_OpenFilesLimit :: int

record BinaryInfo =
  Bin_PID :: int
  Bin_GoVersion :: string
  Bin_MainModule :: string
  Bin_Dependencies :: "Module list"
  Bin_Settings :: "(string, string) gomap"
  Bin_GoDebug :: "(string, string) gomap"
  Bin_PGO :: bool
  Bin_HasPprof :: bool
  Bin_ListeningPorts :: "ListeningPort list"
  Bin_PeakRSSBytes :: int
  Bin_CPUsAllowed :: int
  Bin_Footprint :: Footprint
  Bin_Counters :: "CounterDelta option"
  Bin_PodUID :: string
  Bin_ContainerID :: string

record ScanCounters =
  SC_ProcessesScanned :: int
  SC_GoFound :: int
  SC_FilteredScope :: int
  SC_FilteredInfra :: int
  SC_Unreadable :: int

definition zeroScanCounters :: ScanCounters where
  "zeroScanCounters = \<lparr>SC_ProcessesScanned = 0, SC_GoFound = 0, SC_FilteredScope = 0, SC_FilteredInfra = 0, SC_Unreadable = 0\<rparr>"

record Result =
  Res_Binaries :: "BinaryInfo list"
  Res_Counters :: ScanCounters

record Scanner =
  Scn_filter :: ModuleFilter
  Scn_marks :: markCache
  Scn_counters :: counterCache

definition NewScanner :: "ModuleFilter \<Rightarrow> Scanner" where
  "NewScanner f = \<lparr>Scn_filter = f, Scn_marks = newMarkCache, Scn_counters = newCounterCache\<rparr>"

definition main_module :: "BuildInfo \<Rightarrow> string" where
  "main_module info = (if BI_MainPath info \<noteq> [] then BI_MainPath info else BI_Path info)"

definition bump :: "((int \<Rightarrow> int) \<Rightarrow> ScanCounters \<Rightarrow> ScanCounters) \<Rightarrow> Result \<Rightarrow> Result" where
  "bump field res = res\<lparr>Res_Counters := field (\<lambda>n. n + 1) (Res_Counters res)\<rparr>"

text \<open>The tail of \<open>scanPID\<close>: a process whose binary is kept.\<close>

definition keep_binary :: "Proc \<Rightarrow> int \<Rightarrow> PodBinding \<Rightarrow> BuildInfo \<Rightarrow> time \<Rightarrow> Scanner \<times> Result \<Rightarrow> Scanner \<times> Result" where
  "keep_binary p pid binding info now sr =
     (let s = fst sr; res = snd sr;
          status = ReadProcessStatus (Pr_status p);
          memory = ReadProcessMemory (Pr_smaps p);
          files = ReadProcessFiles (Pr_fd p) (Pr_limits p);
          cs = counters_delta p pid now status (Scn_counters s);
          ms = marks_lookup p (Scn_marks s);
          ports = ReadListeningPorts (Pr_tcp p) (Pr_tcp6 p) (Pr_fd p);
          res = bump SC_GoFound_update res;
          b = \<lparr>Bin_PID = pid, Bin_GoVersion = BI_GoVersion info, Bin_MainModule = main_module info,
               Bin_Dependencies = dependencyModules info, Bin_Settings = buildSettings info, Bin_GoDebug = goDebugDefaults info,
               Bin_PGO = hasPGO info, Bin_HasPprof = fst ms, Bin_ListeningPorts = ports,
               Bin_PeakRSSBytes = PS_PeakRSSBytes status, Bin_CPUsAllowed = PS_CPUsAllowed status,
               Bin_Footprint = \<lparr>Fp_RSSAnonBytes = PS_RSSAnonBytes status, Fp_RSSFileBytes = PS_RSSFileBytes status,
                 Fp_PSSBytes = PM_PSSBytes memory, Fp_PrivateDirtyBytes = PM_PrivateDirtyBytes memory,
                 Fp_Threads = PS_Threads status, Fp_OpenFiles = PF_Open files, Fp_OpenFilesLimit = PF_Limit files\<rparr>,
               Bin_Counters = fst cs, Bin_PodUID = PodUID binding, Bin_ContainerID = ContainerID binding\<rparr>
      in (s\<lparr>Scn_counters := snd cs, Scn_marks := snd ms\<rparr>, res\<lparr>Res_Binaries := Res_Binaries res @ [b]\<rparr>))"

definition scanPID :: "Proc \<Rightarrow> int \<Rightarrow> Scope \<Rightarrow> time \<Rightarrow> Scanner \<times> Result \<Rightarrow> Scanner \<times> Result" where
  "scanPID p pid scope now sr =
     (let s = fst sr; res = snd sr; binding = ReadBinding (Pr_cgroup p) in
      if \<not> Scope_Admits scope (PodUID binding) then (s, bump SC_FilteredScope_update res)
      else case Pr_buildinfo p of
        Inl err \<Rightarrow> if isTransientProcError err then (s, res) else (s, bump SC_Unreadable_update res)
      | Inr info \<Rightarrow>
          if IsInfra (Scn_filter s) (main_module info) then (s, bump SC_FilteredInfra_update res)
          else keep_binary p pid binding info now (s, res))"

definition scan_entry :: "Scope \<Rightarrow> time \<Rightarrow> Proc \<Rightarrow> Scanner \<times> Result \<Rightarrow> Scanner \<times> Result" where
  "scan_entry scope now p sr =
     (case pidFromName (Pr_name p) of
        None \<Rightarrow> sr
      | Some pid \<Rightarrow> scanPID p pid scope now (fst sr, bump SC_ProcessesScanned_update (snd sr)))"

definition start_pass :: "Scanner \<Rightarrow> Scanner" where
  "start_pass s = s\<lparr>Scn_marks := marks_startPass (Scn_marks s), Scn_counters := counters_startPass (Scn_counters s)\<rparr>"

definition end_pass :: "Scanner \<Rightarrow> Scanner" where
  "end_pass s = s\<lparr>Scn_marks := marks_endPass (Scn_marks s), Scn_counters := counters_endPass (Scn_counters s)\<rparr>"

text \<open>One pass over the entries of the process tree; \<^const>\<open>None\<close> is a tree that cannot be listed.\<close>

definition Scan :: "Scope \<Rightarrow> time \<Rightarrow> Proc list option \<Rightarrow> Scanner \<Rightarrow> Scanner \<times> Result option" where
  "Scan scope now listing s =
     (case listing of
        None \<Rightarrow> (s, None)
      | Some ps \<Rightarrow>
          let sr = fold (scan_entry scope now) ps (start_pass s, \<lparr>Res_Binaries = [], Res_Counters = zeroScanCounters\<rparr>)
          in (end_pass (fst sr), Some (snd sr)))"

section \<open>The report\<close>

record ProfilingCoverage =
  PC_State :: string
  PC_Windows :: int
  PC_WindowsNoScope :: int
  PC_WindowsNoTargets :: int
  PC_WindowsNoSamples :: int
  PC_ProfilesShipped :: int
  PC_ProfilesInvalid :: int
  PC_ProfilesUnshipped :: int
  PC_SamplesOutOfScope :: int
  PC_ThirdPartyDropped :: nat
  PC_UnsymbolizedDropped :: nat
  PC_SamplesFiltered :: nat

record Report =
  Rep_Node :: string
  Rep_Binaries :: "BinaryInfo list"
  Rep_Counters :: ScanCounters
  Rep_Profiling :: "ProfilingCoverage option"

section \<open>What a pass sees\<close>

definition admitted_proc :: "Scope \<Rightarrow> Proc \<Rightarrow> bool" where
  "admitted_proc scope p \<longleftrightarrow> Scope_Admits scope (PodUID (ReadBinding (Pr_cgroup p)))"

definition same_view :: "Scope \<Rightarrow> ModuleFilter \<Rightarrow> Proc \<Rightarrow> Proc \<Rightarrow> bool" where
  "same_view scope f p q \<longleftrightarrow>
     Pr_name p = Pr_name q \<and> Pr_cgroup p = Pr_cgroup q \<and>
     (admitted_proc scope p \<longrightarrow>
        (case (Pr_buildinfo p, Pr_buildinfo q) of
           (Inl e, Inl e') \<Rightarrow> isTransientProcError e = isTransientProcError e'
         | (Inr i, Inr j) \<Rightarrow> IsInfra f (main_module i) \<and> IsInfra f (main_module j) \<or> p = q
         | _ \<Rightarrow> False))"

lemma scanPID_filter [simp]: "Scn_filter (fst (scanPID p pid scope now sr)) = Scn_filter (fst sr)"
  by (simp add: scanPID_def keep_binary_def Let_def split: sum.splits)

lemma scan_entry_filter [simp]: "Scn_filter (fst (scan_entry scope now p sr)) = Scn_filter (fst sr)"
  by (simp add: scan_entry_def split: option.splits)

lemma scanPID_same_view:
  assumes "same_view scope (Scn_filter (fst sr)) p q"
  shows "scanPID p pid scope now sr = scanPID q pid scope now sr"
proof (cases "admitted_proc scope p")
  case True
  then show ?thesis using assms
    by (cases "Pr_buildinfo p"; cases "Pr_buildinfo q") (auto simp: same_view_def scanPID_def admitted_proc_def Let_def)
next
  case False
  then show ?thesis using assms by (simp add: same_view_def scanPID_def admitted_proc_def Let_def)
qed

lemma scan_entry_same_view:
  assumes "same_view scope (Scn_filter (fst sr)) p q"
  shows "scan_entry scope now p sr = scan_entry scope now q sr"
proof -
  have "scanPID p pid scope now (fst sr, r) = scanPID q pid scope now (fst sr, r)" for pid r
    using assms by (intro scanPID_same_view) simp
  moreover have "Pr_name p = Pr_name q" using assms by (simp add: same_view_def)
  ultimately show ?thesis by (simp add: scan_entry_def split: option.splits)
qed

lemma scan_fold_same_view:
  "list_all2 (same_view scope (Scn_filter (fst sr))) ps qs \<Longrightarrow>
     fold (scan_entry scope now) ps sr = fold (scan_entry scope now) qs sr"
proof (induction ps arbitrary: qs sr)
  case (Cons p ps)
  then obtain q qs' where qs: "qs = q # qs'" "same_view scope (Scn_filter (fst sr)) p q"
    "list_all2 (same_view scope (Scn_filter (fst sr))) ps qs'" by (auto simp: list_all2_Cons1)
  then show ?case using Cons.IH [of "scan_entry scope now q sr" qs'] scan_entry_same_view [OF qs(2)] by simp
qed simp

text \<open>
  C15. A scan pass is blind outside its scope. Two process tables that agree on the names and cgroups of
  all processes, on the whole of every process the scope admits whose module is not infrastructure, and
  on nothing else of the others (not their executables, their memory, their descriptors or their
  sockets) give the same report, the same counts and the same caches. Of an executable of
  infrastructure only that it is one counts.
\<close>

theorem scan_sees_only_scope:
  assumes "list_all2 (same_view scope (Scn_filter s)) ps qs"
  shows "Scan scope now (Some ps) s = Scan scope now (Some qs) s"
proof -
  have "Scn_filter (start_pass s) = Scn_filter s" by (simp add: start_pass_def)
  then show ?thesis using scan_fold_same_view [of scope "(start_pass s, _)" ps qs] assms by (simp add: Scan_def)
qed

definition witness_proc :: "string \<Rightarrow> string \<Rightarrow> Proc" where
  "witness_proc uid module =
     \<lparr>Pr_name = ''7'', Pr_cgroup = Some (''0::/kubepods/pod'' @ uid), Pr_buildinfo = Inr \<lparr>BI_GoVersion = ''go1.24'', BI_Path = module,
       BI_MainPath = [], BI_Deps = [], BI_Settings = []\<rparr>, Pr_exe = None, Pr_status = None, Pr_smaps = None, Pr_fd = None,
       Pr_limits = None, Pr_stat = None, Pr_schedstat = None, Pr_io = None, Pr_tcp = None, Pr_tcp6 = None\<rparr>"

theorem scan_sees_only_scope_witness:
  "Scan DenyAll 0 (Some [witness_proc ''0a1b2c3d-1111-2222-3333-444455556666'' ''shop'']) (NewScanner (NewModuleFilter []))
   = Scan DenyAll 0 (Some [witness_proc ''0a1b2c3d-1111-2222-3333-444455556666'' ''bank'']) (NewScanner (NewModuleFilter []))"
  by (rule scan_sees_only_scope) (simp add: same_view_def witness_proc_def admitted_proc_def Scope_Admits_def DenyAll_def)

section \<open>Accounting of a pass\<close>

definition is_proc :: "Proc \<Rightarrow> bool" where "is_proc p \<longleftrightarrow> pidFromName (Pr_name p) \<noteq> None"

definition transient_proc :: "Scope \<Rightarrow> Proc \<Rightarrow> bool" where
  "transient_proc scope p \<longleftrightarrow> admitted_proc scope p \<and> (case Pr_buildinfo p of Inl e \<Rightarrow> isTransientProcError e | Inr _ \<Rightarrow> False)"

definition tally :: "(Proc \<Rightarrow> bool) \<Rightarrow> Proc list \<Rightarrow> int" where
  "tally P ps = int (length (filter P ps))"

lemma tally_simps [simp]: "tally P [] = 0" "tally P (p # ps) = (if P p then 1 else 0) + tally P ps"
  by (simp_all add: tally_def)

definition accounted :: "Scope \<Rightarrow> Proc list \<Rightarrow> Result \<Rightarrow> Result \<Rightarrow> bool" where
  "accounted scope ps r r' \<longleftrightarrow>
     SC_ProcessesScanned (Res_Counters r') = SC_ProcessesScanned (Res_Counters r) + tally is_proc ps \<and>
     SC_FilteredScope (Res_Counters r') = SC_FilteredScope (Res_Counters r) + tally (\<lambda>p. is_proc p \<and> \<not> admitted_proc scope p) ps \<and>
     SC_GoFound (Res_Counters r') - int (length (Res_Binaries r')) = SC_GoFound (Res_Counters r) - int (length (Res_Binaries r)) \<and>
     SC_GoFound (Res_Counters r') + SC_FilteredInfra (Res_Counters r') + SC_Unreadable (Res_Counters r') =
       SC_GoFound (Res_Counters r) + SC_FilteredInfra (Res_Counters r) + SC_Unreadable (Res_Counters r) +
       tally (\<lambda>p. is_proc p \<and> admitted_proc scope p \<and> \<not> transient_proc scope p) ps"

lemma scan_entry_accounted: "accounted scope [p] (snd sr) (snd (scan_entry scope now p sr))"
  by (cases "pidFromName (Pr_name p)"; cases "Pr_buildinfo p")
    (auto simp: accounted_def scan_entry_def scanPID_def keep_binary_def bump_def Let_def is_proc_def admitted_proc_def transient_proc_def)

lemma accounted_trans:
  "accounted scope [p] r r' \<Longrightarrow> accounted scope ps r' r'' \<Longrightarrow> accounted scope (p # ps) r r''"
  unfolding accounted_def by simp

lemma scan_fold_accounted: "accounted scope ps (snd sr) (snd (fold (scan_entry scope now) ps sr))"
proof (induction ps arbitrary: sr)
  case Nil
  show ?case by (simp add: accounted_def)
next
  case (Cons p ps)
  show ?case using accounted_trans [OF scan_entry_accounted Cons.IH] by simp
qed

text \<open>
  Every process of a pass is accounted for: the processes counted are the entries of the tree that
  name one, those dropped for the scope are exactly the ones outside it, the binaries reported are
  counted one by one, and the processes in scope are the binaries, the infrastructure and the unreadable
  executables, except those that vanished while they were read.
\<close>

theorem scan_accounts_processes:
  "\<exists>r. snd (Scan scope now (Some ps) s) = Some r \<and>
     SC_ProcessesScanned (Res_Counters r) = tally is_proc ps \<and>
     SC_FilteredScope (Res_Counters r) = tally (\<lambda>p. is_proc p \<and> \<not> admitted_proc scope p) ps \<and>
     SC_GoFound (Res_Counters r) = int (length (Res_Binaries r)) \<and>
     SC_GoFound (Res_Counters r) + SC_FilteredInfra (Res_Counters r) + SC_Unreadable (Res_Counters r) =
       tally (\<lambda>p. is_proc p \<and> admitted_proc scope p \<and> \<not> transient_proc scope p) ps"
  using scan_fold_accounted [of scope ps "(start_pass s, \<lparr>Res_Binaries = [], Res_Counters = zeroScanCounters\<rparr>)" now]
  by (simp add: Scan_def Let_def accounted_def zeroScanCounters_def)

section \<open>The shape of a report\<close>

definition tokens_ok :: "string list \<Rightarrow> int \<Rightarrow> (string, string) gomap \<Rightarrow> bool" where
  "tokens_ok allowed bound m \<longleftrightarrow> list_all (\<lambda>e. fst e \<in> set allowed \<and> snd e \<noteq> [] \<and> int (length (snd e)) \<le> bound) (entries m)"

definition delta_ok :: "CounterDelta option \<Rightarrow> bool" where
  "delta_ok d = (case d of None \<Rightarrow> True | Some d \<Rightarrow> 0 < CD_ObservedNanos d \<and> \<not> negative d)"

definition footprint_ok :: "Footprint \<Rightarrow> bool" where
  "footprint_ok f \<longleftrightarrow> 0 \<le> Fp_RSSAnonBytes f \<and> Fp_RSSAnonBytes f \<le> 2 ^ 53 \<and> 0 \<le> Fp_RSSFileBytes f \<and> Fp_RSSFileBytes f \<le> 2 ^ 53 \<and>
     0 \<le> Fp_PSSBytes f \<and> Fp_PSSBytes f \<le> 2 ^ 53 \<and> 0 \<le> Fp_PrivateDirtyBytes f \<and> Fp_PrivateDirtyBytes f \<le> 2 ^ 53 \<and>
     0 \<le> Fp_Threads f \<and> 0 \<le> Fp_OpenFiles f \<and> Fp_OpenFiles f \<le> maxProcessFDs \<and> 0 \<le> Fp_OpenFilesLimit f"

definition binary_ok :: "Scope \<Rightarrow> ModuleFilter \<Rightarrow> BinaryInfo \<Rightarrow> bool" where
  "binary_ok scope f b \<longleftrightarrow>
     0 < Bin_PID b \<and> Scope_Admits scope (Bin_PodUID b) \<and> \<not> IsInfra f (Bin_MainModule b) \<and>
     tokens_ok buildSettingsAllowList maxSettingValue (Bin_Settings b) \<and>
     tokens_ok goDebugAllowList maxGoDebugValue (Bin_GoDebug b) \<and>
     sorted_wrt (<) (map LP_Port (Bin_ListeningPorts b)) \<and>
     list_all (\<lambda>lp. 1 \<le> LP_Port lp \<and> LP_Port lp \<le> 65535) (Bin_ListeningPorts b) \<and>
     0 \<le> Bin_PeakRSSBytes b \<and> Bin_PeakRSSBytes b \<le> 2 ^ 53 \<and> footprint_ok (Bin_Footprint b) \<and> delta_ok (Bin_Counters b)"

lemma tokens_ok_mput:
  "tokens_ok allowed bound m \<Longrightarrow> k \<in> set allowed \<Longrightarrow> v \<noteq> [] \<Longrightarrow> int (length v) \<le> bound \<Longrightarrow> tokens_ok allowed bound (mput k v m)"
  unfolding tokens_ok_def list_all_iff by (auto simp: mget_entries [symmetric] split: if_splits simp del: entries_mput)

lemma tokens_ok_mempty: "tokens_ok allowed bound mempty"
  by (simp add: tokens_ok_def)

lemma buildSettings_ok: "tokens_ok buildSettingsAllowList maxSettingValue (buildSettings info)"
  unfolding buildSettings_def
  by (rule fold_invariant [where Q = "\<lambda>_. True"]) (auto simp: keep_setting_def tokens_ok_mempty intro: tokens_ok_mput)

lemma goDebugDefaults_ok: "tokens_ok goDebugAllowList maxGoDebugValue (goDebugDefaults info)"
  unfolding goDebugDefaults_def Let_def
  by (rule fold_invariant [where Q = "\<lambda>_. True"])
    (auto simp: keep_godebug_def tokens_ok_mempty intro: tokens_ok_mput split: option.splits)

lemma counters_delta_ok: "delta_ok (fst (counters_delta p pid now status c))"
  unfolding counters_delta_def delta_ok_def Let_def
  by (auto simp: counters_minus_def split: option.splits if_splits)

lemma ports_ok:
  "sorted_wrt (<) (map LP_Port (ReadListeningPorts tcp tcp6 fds)) \<and>
   list_all (\<lambda>lp. 1 \<le> LP_Port lp \<and> LP_Port lp \<le> 65535) (ReadListeningPorts tcp tcp6 fds)"
proof
  show "sorted_wrt (<) (map LP_Port (ReadListeningPorts tcp tcp6 fds))"
    by (simp add: ReadListeningPorts_def Let_def merge_strict)
  show "list_all (\<lambda>lp. 1 \<le> LP_Port lp \<and> LP_Port lp \<le> 65535) (ReadListeningPorts tcp tcp6 fds)"
    unfolding list_all_iff using ReadListeningPorts_ports by blast
qed

lemma keep_binary_ok:
  assumes "Scope_Admits scope (PodUID binding)" and "\<not> IsInfra (Scn_filter (fst sr)) (main_module info)" and "0 < pid"
  shows "\<exists>b. Res_Binaries (snd (keep_binary p pid binding info now sr)) = Res_Binaries (snd sr) @ [b] \<and>
    binary_ok scope (Scn_filter (fst sr)) b"
proof (intro exI conjI)
  define b where "b = last (Res_Binaries (snd (keep_binary p pid binding info now sr)))"
  show "Res_Binaries (snd (keep_binary p pid binding info now sr)) = Res_Binaries (snd sr) @ [b]"
    by (simp add: b_def keep_binary_def Let_def bump_def)
  have fields: "Bin_PID b = pid" "Bin_MainModule b = main_module info" "Bin_Settings b = buildSettings info"
    "Bin_GoDebug b = goDebugDefaults info" "Bin_ListeningPorts b = ReadListeningPorts (Pr_tcp p) (Pr_tcp6 p) (Pr_fd p)"
    "Bin_PeakRSSBytes b = PS_PeakRSSBytes (ReadProcessStatus (Pr_status p))" "Bin_PodUID b = PodUID binding"
    "Bin_Counters b = fst (counters_delta p pid now (ReadProcessStatus (Pr_status p)) (Scn_counters (fst sr)))"
    by (simp_all add: b_def keep_binary_def Let_def)
  have "footprint_ok (Bin_Footprint b)"
    using ReadProcessStatus_ok [of "Pr_status p"] ReadProcessMemory_ok [of "Pr_smaps p"] ReadProcessFiles_ok [of "Pr_fd p" "Pr_limits p"]
    by (simp add: b_def keep_binary_def Let_def footprint_ok_def status_ok_def memory_ok_def)
  moreover have "0 \<le> Bin_PeakRSSBytes b \<and> Bin_PeakRSSBytes b \<le> 2 ^ 53"
    unfolding fields using ReadProcessStatus_ok [of "Pr_status p"] unfolding status_ok_def by blast
  ultimately show "binary_ok scope (Scn_filter (fst sr)) b"
    unfolding binary_ok_def fields using assms buildSettings_ok goDebugDefaults_ok ports_ok counters_delta_ok by blast
qed

lemma scanPID_ok:
  assumes "list_all (binary_ok scope (Scn_filter (fst sr))) (Res_Binaries (snd sr))" and "0 < pid"
  shows "list_all (binary_ok scope (Scn_filter (fst sr))) (Res_Binaries (snd (scanPID p pid scope now sr)))"
proof (cases "\<exists>info. Pr_buildinfo p = Inr info \<and> Scope_Admits scope (PodUID (ReadBinding (Pr_cgroup p))) \<and>
    \<not> IsInfra (Scn_filter (fst sr)) (main_module info)")
  case True
  then obtain info where kept: "Pr_buildinfo p = Inr info" "Scope_Admits scope (PodUID (ReadBinding (Pr_cgroup p)))"
    "\<not> IsInfra (Scn_filter (fst sr)) (main_module info)" by blast
  then have "scanPID p pid scope now sr = keep_binary p pid (ReadBinding (Pr_cgroup p)) info now sr"
    by (simp add: scanPID_def)
  then show ?thesis using keep_binary_ok [OF kept(2,3) assms(2), of p now] assms(1) by auto
next
  case False
  then have "Res_Binaries (snd (scanPID p pid scope now sr)) = Res_Binaries (snd sr)"
    by (auto simp: scanPID_def bump_def Let_def split: sum.splits)
  then show ?thesis using assms(1) by simp
qed

lemma scan_entry_ok:
  assumes "list_all (binary_ok scope (Scn_filter (fst sr))) (Res_Binaries (snd sr))"
  shows "list_all (binary_ok scope (Scn_filter (fst sr))) (Res_Binaries (snd (scan_entry scope now p sr)))"
proof (cases "pidFromName (Pr_name p)")
  case None
  then show ?thesis using assms by (simp add: scan_entry_def)
next
  case (Some pid)
  then have "0 < pid" by (auto simp: pidFromName_def split: option.splits if_splits)
  then show ?thesis using Some scanPID_ok [of scope "(fst sr, bump SC_ProcessesScanned_update (snd sr))" pid p now] assms
    by (simp add: scan_entry_def bump_def)
qed

lemma scan_fold_ok:
  "list_all (binary_ok scope (Scn_filter (fst sr))) (Res_Binaries (snd sr)) \<Longrightarrow>
     list_all (binary_ok scope (Scn_filter (fst sr))) (Res_Binaries (snd (fold (scan_entry scope now) ps sr)))"
proof (induction ps arbitrary: sr)
  case (Cons p ps)
  show ?case using Cons.IH [of "scan_entry scope now p sr"] scan_entry_ok [OF Cons.prems] by simp
qed simp

lemma scan_report_shape:
  "\<exists>r. snd (Scan scope now (Some ps) s) = Some r \<and> list_all (binary_ok scope (Scn_filter s)) (Res_Binaries r)"
proof -
  have "Scn_filter (start_pass s) = Scn_filter s" by (simp add: start_pass_def)
  then show ?thesis
    using scan_fold_ok [of scope "(start_pass s, \<lparr>Res_Binaries = [], Res_Counters = zeroScanCounters\<rparr>)" now ps]
    by (simp add: Scan_def Let_def)
qed


section \<open>Counters across two passes\<close>

text \<open>What a pass at a given time read of the process with a given identifier.\<close>

definition read_in :: "time \<Rightarrow> Proc list \<Rightarrow> int \<Rightarrow> reading \<Rightarrow> bool" where
  "read_in now ps pid rd \<longleftrightarrow> rd_at rd = now \<and>
     (\<exists>p \<in> set ps. pidFromName (Pr_name p) = Some pid \<and>
        readProcessCounters (Pr_stat p) (Pr_schedstat p) (Pr_io p) (ReadProcessStatus (Pr_status p)) = Some (rd_counters rd, rd_startTicks rd))"

text \<open>In the middle of a pass the cache holds the readings of the pass so far and, of the processes not yet seen, the old ones.\<close>

definition cache_of :: "(int, reading) gomap \<Rightarrow> time \<Rightarrow> Proc list \<Rightarrow> counterCache \<Rightarrow> bool" where
  "cache_of old now ps c \<longleftrightarrow>
     (\<forall>pid. if mget (cc_seen c) pid = None then mget (cc_last c) pid = mget old pid
            else \<exists>rd. mget (cc_last c) pid = Some rd \<and> read_in now ps pid rd)"

definition delta_of :: "(int, reading) gomap \<Rightarrow> time \<Rightarrow> Proc list \<Rightarrow> BinaryInfo \<Rightarrow> bool" where
  "delta_of old now ps b \<longleftrightarrow>
     (\<forall>d. Bin_Counters b = Some d \<longrightarrow>
        (\<exists>prev cur. mget old (Bin_PID b) = Some prev \<and> read_in now ps (Bin_PID b) cur \<and> rd_startTicks prev = rd_startTicks cur \<and>
           rd_at prev < now \<and> d = counters_minus (Sub now (rd_at prev)) (rd_counters cur) (rd_counters prev)))"

lemma counters_delta_cache:
  assumes "cache_of old now ps c" and "p \<in> set ps" and "pidFromName (Pr_name p) = Some pid"
  shows "cache_of old now ps (snd (counters_delta p pid now (ReadProcessStatus (Pr_status p)) c))"
proof (cases "readProcessCounters (Pr_stat p) (Pr_schedstat p) (Pr_io p) (ReadProcessStatus (Pr_status p))")
  case None
  then show ?thesis using assms(1) by (simp add: counters_delta_def)
next
  case (Some r)
  define rd where "rd = \<lparr>rd_at = now, rd_startTicks = snd r, rd_counters = fst r\<rparr>"
  have "read_in now ps pid rd" using Some assms(2,3) by (auto simp: read_in_def rd_def)
  moreover have "snd (counters_delta p pid now (ReadProcessStatus (Pr_status p)) c) =
      \<lparr>cc_last = mput pid rd (cc_last c), cc_seen = mput pid () (cc_seen c)\<rparr>"
    using Some by (cases r) (simp add: counters_delta_def rd_def Let_def split: option.splits)
  ultimately show ?thesis using assms(1) by (simp add: cache_of_def)
qed

lemma counters_delta_of:
  assumes "cache_of old now ps c" and "p \<in> set ps" and "pidFromName (Pr_name p) = Some pid"
    and "fst (counters_delta p pid now (ReadProcessStatus (Pr_status p)) c) = Some d"
  shows "\<exists>prev cur. mget old pid = Some prev \<and> read_in now ps pid cur \<and> rd_startTicks prev = rd_startTicks cur \<and>
    rd_at prev < now \<and> d = counters_minus (Sub now (rd_at prev)) (rd_counters cur) (rd_counters prev)"
proof -
  obtain cur ticks prev where r:
    "readProcessCounters (Pr_stat p) (Pr_schedstat p) (Pr_io p) (ReadProcessStatus (Pr_status p)) = Some (cur, ticks)"
    "mget (cc_last c) pid = Some prev" "rd_startTicks prev = ticks" "0 < Sub now (rd_at prev)"
    "d = counters_minus (Sub now (rd_at prev)) cur (rd_counters prev)"
    using assms(4) by (auto simp: counters_delta_def Let_def split: option.splits if_splits)
  have late: "rd_at prev < now" using r(4) by simp
  have "mget (cc_seen c) pid = None"
    using assms(1) late r(2) unfolding cache_of_def read_in_def by (metis less_irrefl option.inject)
  then have "mget old pid = Some prev" using assms(1) r(2) unfolding cache_of_def by metis
  moreover have "read_in now ps pid \<lparr>rd_at = now, rd_startTicks = ticks, rd_counters = cur\<rparr>"
    using r(1) assms(2,3) by (auto simp: read_in_def)
  ultimately show ?thesis using r(3,5) late
    by (intro exI [of _ prev] exI [of _ "\<lparr>rd_at = now, rd_startTicks = ticks, rd_counters = cur\<rparr>"]) simp
qed

lemma keep_binary_delta:
  assumes "cache_of old now ps (Scn_counters (fst sr))" and "p \<in> set ps" and "pidFromName (Pr_name p) = Some pid"
  shows "\<exists>b. Res_Binaries (snd (keep_binary p pid binding info now sr)) = Res_Binaries (snd sr) @ [b] \<and> delta_of old now ps b"
proof (intro exI conjI)
  define b where "b = last (Res_Binaries (snd (keep_binary p pid binding info now sr)))"
  show "Res_Binaries (snd (keep_binary p pid binding info now sr)) = Res_Binaries (snd sr) @ [b]"
    by (simp add: b_def keep_binary_def Let_def bump_def)
  have "Bin_PID b = pid" "Bin_Counters b = fst (counters_delta p pid now (ReadProcessStatus (Pr_status p)) (Scn_counters (fst sr)))"
    by (simp_all add: b_def keep_binary_def Let_def)
  then show "delta_of old now ps b" unfolding delta_of_def using counters_delta_of [OF assms] by simp
qed

lemma scan_entry_counters:
  assumes "cache_of old now ps (Scn_counters (fst sr))" and "list_all (delta_of old now ps) (Res_Binaries (snd sr))" and "p \<in> set ps"
  shows "cache_of old now ps (Scn_counters (fst (scan_entry scope now p sr))) \<and>
    list_all (delta_of old now ps) (Res_Binaries (snd (scan_entry scope now p sr)))"
proof (cases "\<exists>pid info. pidFromName (Pr_name p) = Some pid \<and> Pr_buildinfo p = Inr info \<and>
    Scope_Admits scope (PodUID (ReadBinding (Pr_cgroup p))) \<and> \<not> IsInfra (Scn_filter (fst sr)) (main_module info)")
  case True
  then obtain pid info where pid: "pidFromName (Pr_name p) = Some pid" and
    kept: "Pr_buildinfo p = Inr info" "Scope_Admits scope (PodUID (ReadBinding (Pr_cgroup p)))"
    "\<not> IsInfra (Scn_filter (fst sr)) (main_module info)" by blast
  define sr' where "sr' = (fst sr, bump SC_ProcessesScanned_update (snd sr))"
  have e: "scan_entry scope now p sr = keep_binary p pid (ReadBinding (Pr_cgroup p)) info now sr'"
    using pid kept by (simp add: scan_entry_def scanPID_def sr'_def)
  have c: "cache_of old now ps (Scn_counters (fst sr'))" using assms(1) by (simp add: sr'_def)
  have "Scn_counters (fst (keep_binary p pid (ReadBinding (Pr_cgroup p)) info now sr')) =
      snd (counters_delta p pid now (ReadProcessStatus (Pr_status p)) (Scn_counters (fst sr')))"
    by (simp add: keep_binary_def Let_def)
  then have "cache_of old now ps (Scn_counters (fst (scan_entry scope now p sr)))"
    using counters_delta_cache [OF c assms(3) pid] unfolding e by simp
  moreover have "Res_Binaries (snd sr') = Res_Binaries (snd sr)" by (simp add: sr'_def bump_def)
  ultimately show ?thesis
    using keep_binary_delta [OF c assms(3) pid, of "ReadBinding (Pr_cgroup p)" info] assms(2) unfolding e by auto
next
  case False
  then have "Scn_counters (fst (scan_entry scope now p sr)) = Scn_counters (fst sr) \<and>
      Res_Binaries (snd (scan_entry scope now p sr)) = Res_Binaries (snd sr)"
    by (auto simp: scan_entry_def scanPID_def bump_def Let_def split: sum.splits option.splits)
  then show ?thesis using assms by simp
qed

lemma scan_fold_counters:
  assumes "cache_of old now ps (Scn_counters (fst sr))" and "list_all (delta_of old now ps) (Res_Binaries (snd sr))" and "set qs \<subseteq> set ps"
  shows "cache_of old now ps (Scn_counters (fst (fold (scan_entry scope now) qs sr))) \<and>
    list_all (delta_of old now ps) (Res_Binaries (snd (fold (scan_entry scope now) qs sr)))"
  using assms
proof (induction qs arbitrary: sr)
  case (Cons q qs)
  have "q \<in> set ps" using Cons.prems(3) by simp
  from scan_entry_counters [OF Cons.prems(1,2) this, of scope] show ?case using Cons by simp
qed simp

lemma Scan_counters:
  assumes "Scan scope now (Some ps) s = (s', Some r)"
  shows "list_all (delta_of (cc_last (Scn_counters s)) now ps) (Res_Binaries r)"
    and "mget (cc_last (Scn_counters s')) pid = Some rd \<Longrightarrow> read_in now ps pid rd"
proof -
  define old where "old = cc_last (Scn_counters s)"
  define start where "start = (start_pass s, \<lparr>Res_Binaries = [], Res_Counters = zeroScanCounters\<rparr>)"
  define sr where "sr = fold (scan_entry scope now) ps start"
  have r: "r = snd sr" and s': "s' = end_pass (fst sr)" using assms by (simp_all add: Scan_def Let_def sr_def start_def)
  have "cache_of old now ps (Scn_counters (fst start))"
    by (simp add: cache_of_def start_def start_pass_def counters_startPass_def old_def)
  moreover have "list_all (delta_of old now ps) (Res_Binaries (snd start))" by (simp add: start_def)
  ultimately have inv: "cache_of old now ps (Scn_counters (fst sr))" "list_all (delta_of old now ps) (Res_Binaries (snd sr))"
    unfolding sr_def by (metis order_refl scan_fold_counters)+
  then show "list_all (delta_of (cc_last (Scn_counters s)) now ps) (Res_Binaries r)" by (simp add: r old_def)
  assume "mget (cc_last (Scn_counters s')) pid = Some rd"
  then have "mget (cc_last (Scn_counters (fst sr))) pid = Some rd" "mget (cc_seen (Scn_counters (fst sr))) pid \<noteq> None"
    unfolding s' by (auto simp: end_pass_def counters_endPass_def mget_mfilter split: option.splits if_splits)
  then show "read_in now ps pid rd" using inv(1) unfolding cache_of_def by (metis option.inject)
qed

text \<open>
  A counter delta compares one process with itself over exactly the time between two passes. In the
  second of two consecutive passes, a binary reports a delta only if the first pass read the same
  identifier with the same start time; the delta is then the difference of those two readings, never of
  an earlier one, and the interval it names is the time between the passes.
\<close>

theorem counter_delta_between_passes:
  assumes "Scan scope t (Some ps) s = (s1, Some r1)" and "Scan scope' t' (Some qs) s1 = (s2, Some r2)"
    and "b \<in> set (Res_Binaries r2)" and "Bin_Counters b = Some d"
  shows "t < t' \<and> CD_ObservedNanos d = Sub t' t \<and>
    (\<exists>prev cur. read_in t ps (Bin_PID b) prev \<and> read_in t' qs (Bin_PID b) cur \<and> rd_startTicks prev = rd_startTicks cur \<and>
       d = counters_minus (Sub t' t) (rd_counters cur) (rd_counters prev))"
proof -
  have "delta_of (cc_last (Scn_counters s1)) t' qs b" using Scan_counters(1) [OF assms(2)] assms(3) by (simp add: list_all_iff)
  then obtain prev cur where pc: "mget (cc_last (Scn_counters s1)) (Bin_PID b) = Some prev" "read_in t' qs (Bin_PID b) cur"
    "rd_startTicks prev = rd_startTicks cur" "rd_at prev < t'"
    "d = counters_minus (Sub t' (rd_at prev)) (rd_counters cur) (rd_counters prev)"
    using assms(4) unfolding delta_of_def by metis
  have "read_in t ps (Bin_PID b) prev" using Scan_counters(2) [OF assms(1) pc(1)] .
  moreover from this have "rd_at prev = t" by (simp add: read_in_def)
  ultimately show ?thesis using pc by (auto simp: counters_minus_def)
qed

definition witness_stat :: "string \<Rightarrow> Proc" where
  "witness_stat utime = (witness_proc ''0a1b2c3d-1111-2222-3333-444455556666'' ''shop'')
     \<lparr>Pr_stat := Some (''7 (shop) S 1 1 1 0 -1 0 0 0 3 0 '' @ utime @ '' 2 0 0 20 0 9 0 55''),
      Pr_schedstat := Some ''400 10 2'', Pr_io := Some ''read_bytes: 5''\<rparr>"

definition witness_scope :: Scope where "witness_scope = NewScope [''0a1b2c3d-1111-2222-3333-444455556666'']"

definition witness_passes :: "(Scanner \<times> Result option) \<times> (Scanner \<times> Result option)" where
  "witness_passes =
     (let first = Scan witness_scope 1000 (Some [witness_stat ''4'']) (NewScanner (NewModuleFilter DefaultInfraModulePrefixes))
      in (first, Scan witness_scope 61000 (Some [witness_stat ''9'']) (fst first)))"

definition witness_binary :: BinaryInfo where
  "witness_binary = hd (Res_Binaries (the (snd (snd witness_passes))))"

theorem counter_delta_between_passes_witness:
  "CD_ObservedNanos (the (Bin_Counters witness_binary)) = Sub 61000 1000"
proof -
  have "Scan witness_scope 1000 (Some [witness_stat ''4'']) (NewScanner (NewModuleFilter DefaultInfraModulePrefixes))
      = (fst (fst witness_passes), Some (the (snd (fst witness_passes))))"
    by (simp add: witness_passes_def Let_def) (simp add: Scan_def Let_def)
  moreover have "Scan witness_scope 61000 (Some [witness_stat ''9'']) (fst (fst witness_passes))
      = (fst (snd witness_passes), Some (the (snd (snd witness_passes))))"
    by (simp add: witness_passes_def Let_def) (simp add: Scan_def Let_def)
  moreover have "\<not> List.null (Res_Binaries (the (snd (snd witness_passes))))" by code_simp
  then have "witness_binary \<in> set (Res_Binaries (the (snd (snd witness_passes))))" by (simp add: witness_binary_def)
  moreover have "\<not> Option.is_none (Bin_Counters witness_binary)" by code_simp
  then have "Bin_Counters witness_binary = Some (the (Bin_Counters witness_binary))" by (cases "Bin_Counters witness_binary") simp_all
  ultimately show ?thesis by (rule counter_delta_between_passes [THEN conjunct2, THEN conjunct1])
qed

end
