(* ===== verification/Placement.thy ===== *)
theory Placement
  imports GoStrings
begin

text \<open>
  The reduction of a pod's placement, \<open>internal/collector/placement.go\<close>: which constraints on
  scheduling leave the cluster, with every operator-written string and every list bounded, and
  the count of what did not fit.

  The pod spec is the part of the Kubernetes object the reduction reads. The drop counters are
  small \<open>int\<close>s counted up from zero, here natural numbers. A nil slice and an empty one are both
  the empty list, as the payload's \<open>omitempty\<close> makes them.
\<close>

section \<open>Definitions\<close>

definition maxPlacementValue :: nat where "maxPlacementValue = 128"
definition maxPlacementTerms :: nat where "maxPlacementTerms = 32"
definition maxPlacementValues :: nat where "maxPlacementValues = 16"
definition defaultTerminationGrace :: int where "defaultTerminationGrace = 30"
definition defaultSchedulerName :: string where "defaultSchedulerName = ''default-scheduler''"
definition defaultTolerationSeconds :: int where "defaultTolerationSeconds = 300"

subsection \<open>The part of the pod spec that is read\<close>

record selectorRequirement =
  Rq_Key :: string
  Rq_Operator :: string
  Rq_Values :: "string list"

record selectorTerm =
  Tm_MatchExpressions :: "selectorRequirement list"
  Tm_MatchFields :: "selectorRequirement list"

record nodeAffinitySpec =
  Na_Required :: "selectorTerm list option"
  Na_Preferred :: "(int \<times> selectorTerm) list"

record podAffinitySpec =
  Pa_Required :: "string list"
  Pa_Preferred :: "(int \<times> string) list"

record affinitySpec =
  Af_Node :: "nodeAffinitySpec option"
  Af_Pod :: "podAffinitySpec option"
  Af_PodAnti :: "podAffinitySpec option"

record spreadConstraint =
  Sc_TopologyKey :: string
  Sc_MaxSkew :: int
  Sc_WhenUnsatisfiable :: string
  Sc_MinDomains :: "int option"

record tolerationSpec =
  To_Key :: string
  To_Operator :: string
  To_Value :: string
  To_Effect :: string
  To_Seconds :: "int option"

record placementSpec =
  Pl_NodeSelector :: "(string, string) gomap"
  Pl_Affinity :: "affinitySpec option"
  Pl_Spread :: "spreadConstraint list"
  Pl_Tolerations :: "tolerationSpec list"
  Pl_PriorityClassName :: string
  Pl_GraceSeconds :: "int option"
  Pl_HostNetwork :: bool
  Pl_SchedulerName :: string

subsection \<open>The reduced view\<close>

record NodeAffinityTerm =
  NAT_Key :: string
  NAT_Operator :: string
  NAT_Values :: "string list"
  NAT_Required :: bool
  NAT_Weight :: int

record TopologyTerm =
  TT_TopologyKey :: string
  TT_Required :: bool
  TT_Weight :: int

record SpreadTerm =
  SpT_TopologyKey :: string
  SpT_MaxSkew :: int
  SpT_WhenUnsatisfiable :: string
  SpT_MinDomains :: "int option"

record Toleration =
  Tol_Key :: string
  Tol_Operator :: string
  Tol_Value :: string
  Tol_Effect :: string
  Tol_Seconds :: "int option"

record Placement =
  NodeSelector :: "(string, string) gomap"
  NodeAffinity :: "NodeAffinityTerm list"
  PodAffinity :: "TopologyTerm list"
  PodAntiAffinity :: "TopologyTerm list"
  TopologySpread :: "SpreadTerm list"
  Tolerations :: "Toleration list"
  PriorityClass :: string
  TerminationGraceSeconds :: "int option"
  HostNetwork :: bool
  SchedulerName :: string

record placementDrops =
  Drop_Values :: nat
  Drop_Terms :: nat

definition drops_empty :: "placementDrops \<Rightarrow> bool" where
  "drops_empty d \<longleftrightarrow> Drop_Values d = 0 \<and> Drop_Terms d = 0"

definition drop_value :: "placementDrops \<Rightarrow> placementDrops" where
  "drop_value d = d\<lparr>Drop_Values := Drop_Values d + 1\<rparr>"

definition fits :: "string \<Rightarrow> bool" where
  "fits s \<longleftrightarrow> length s \<le> maxPlacementValue"

definition capTerms :: "'t list \<Rightarrow> placementDrops \<Rightarrow> 't list \<times> placementDrops" where
  "capTerms terms d =
     (if length terms \<le> maxPlacementTerms then (terms, d)
      else (take maxPlacementTerms terms, d\<lparr>Drop_Terms := Drop_Terms d + (length terms - maxPlacementTerms)\<rparr>))"

fun keep_each :: "string list \<Rightarrow> placementDrops \<Rightarrow> string list \<Rightarrow> string list \<times> placementDrops" where
  "keep_each out d [] = (out, d)"
| "keep_each out d (v # vs) = (if \<not> fits v then ([], drop_value d) else keep_each (out @ [v]) d vs)"

definition keepValues :: "string list \<Rightarrow> placementDrops \<Rightarrow> string list \<times> placementDrops" where
  "keepValues values d =
     (if values = [] then ([], d)
      else if length values > maxPlacementValues then ([], drop_value d)
      else keep_each [] d values)"

text \<open>The loop the four term lists share: a term whose strings do not fit is counted and skipped.\<close>

fun append_terms ::
    "('a \<Rightarrow> bool) \<Rightarrow> ('a \<Rightarrow> placementDrops \<Rightarrow> 't \<times> placementDrops) \<Rightarrow> 'a list \<Rightarrow> 't list \<times> placementDrops \<Rightarrow> 't list \<times> placementDrops" where
  "append_terms ok mk [] st = st"
| "append_terms ok mk (e # es) (out, d) =
     (if \<not> ok e then append_terms ok mk es (out, drop_value d)
      else let (t, d) = mk e d in append_terms ok mk es (out @ [t], d))"

definition affinity_term :: "bool \<Rightarrow> int \<Rightarrow> selectorRequirement \<Rightarrow> placementDrops \<Rightarrow> NodeAffinityTerm \<times> placementDrops" where
  "affinity_term required weight e d =
     (let (values, d) = keepValues (Rq_Values e) d
      in (\<lparr>NAT_Key = Rq_Key e, NAT_Operator = Rq_Operator e, NAT_Values = values, NAT_Required = required, NAT_Weight = weight\<rparr>, d))"

definition appendSelectorTerm ::
    "selectorTerm \<Rightarrow> bool \<Rightarrow> int \<Rightarrow> NodeAffinityTerm list \<times> placementDrops \<Rightarrow> NodeAffinityTerm list \<times> placementDrops" where
  "appendSelectorTerm trm required weight st =
     append_terms (fits \<circ> Rq_Key) (affinity_term required weight) (Tm_MatchFields trm)
       (append_terms (fits \<circ> Rq_Key) (affinity_term required weight) (Tm_MatchExpressions trm) st)"

definition reduceNodeAffinity :: "nodeAffinitySpec option \<Rightarrow> placementDrops \<Rightarrow> NodeAffinityTerm list \<times> placementDrops" where
  "reduceNodeAffinity na d =
     (case na of
        None \<Rightarrow> ([], d)
      | Some na \<Rightarrow>
          let st = (case Na_Required na of None \<Rightarrow> ([], d)
                | Some terms \<Rightarrow> fold (\<lambda>trm. appendSelectorTerm trm True 0) terms ([], d));
              (out, d) = fold (\<lambda>(weight, trm). appendSelectorTerm trm False weight) (Na_Preferred na) st
          in capTerms out d)"

definition appendTopologyTerms :: "string list \<Rightarrow> TopologyTerm list \<times> placementDrops \<Rightarrow> TopologyTerm list \<times> placementDrops" where
  "appendTopologyTerms terms st =
     append_terms fits (\<lambda>key d. (\<lparr>TT_TopologyKey = key, TT_Required = True, TT_Weight = 0\<rparr>, d)) terms st"

definition appendWeightedTopologyTerms ::
    "(int \<times> string) list \<Rightarrow> TopologyTerm list \<times> placementDrops \<Rightarrow> TopologyTerm list \<times> placementDrops" where
  "appendWeightedTopologyTerms terms st =
     append_terms (fits \<circ> snd) (\<lambda>(weight, key) d. (\<lparr>TT_TopologyKey = key, TT_Required = False, TT_Weight = weight\<rparr>, d)) terms st"

definition reducePodAffinity :: "podAffinitySpec option \<Rightarrow> placementDrops \<Rightarrow> TopologyTerm list \<times> placementDrops" where
  "reducePodAffinity pa d =
     (case pa of
        None \<Rightarrow> ([], d)
      | Some pa \<Rightarrow>
          let (out, d) = appendWeightedTopologyTerms (Pa_Preferred pa) (appendTopologyTerms (Pa_Required pa) ([], d))
          in capTerms out d)"

definition reduceSpread :: "spreadConstraint list \<Rightarrow> placementDrops \<Rightarrow> SpreadTerm list \<times> placementDrops" where
  "reduceSpread constraints d =
     (let (out, d) = append_terms (fits \<circ> Sc_TopologyKey)
            (\<lambda>c d. (\<lparr>SpT_TopologyKey = Sc_TopologyKey c, SpT_MaxSkew = Sc_MaxSkew c,
              SpT_WhenUnsatisfiable = Sc_WhenUnsatisfiable c, SpT_MinDomains = Sc_MinDomains c\<rparr>, d)) constraints ([], d)
      in capTerms out d)"

definition tolerationIsClusterDefault :: "tolerationSpec \<Rightarrow> bool" where
  "tolerationIsClusterDefault t =
     (if To_Key t \<noteq> ''node.kubernetes.io/not-ready'' \<and> To_Key t \<noteq> ''node.kubernetes.io/unreachable'' then False
      else if To_Operator t \<noteq> ''Exists'' \<or> To_Effect t \<noteq> ''NoExecute'' then False
      else To_Seconds t = Some defaultTolerationSeconds)"

definition reduceTolerations :: "tolerationSpec list \<Rightarrow> placementDrops \<Rightarrow> Toleration list \<times> placementDrops" where
  "reduceTolerations ts d =
     (let (out, d) = append_terms (\<lambda>t. fits (To_Key t) \<and> fits (To_Value t))
            (\<lambda>t d. (\<lparr>Tol_Key = To_Key t, Tol_Operator = To_Operator t, Tol_Value = To_Value t, Tol_Effect = To_Effect t,
              Tol_Seconds = To_Seconds t\<rparr>, d)) (filter (\<lambda>t. \<not> tolerationIsClusterDefault t) ts) ([], d)
      in capTerms out d)"

definition reduceSelector :: "(string, string) gomap \<Rightarrow> placementDrops \<Rightarrow> (string, string) gomap \<times> placementDrops" where
  "reduceSelector m d =
     fold (\<lambda>(k, v) (sel, d). if \<not> fits k \<or> \<not> fits v then (sel, drop_value d) else (mput k v sel, d)) (entries m) (mempty, d)"

definition reducePriority :: "string \<Rightarrow> placementDrops \<Rightarrow> string \<times> placementDrops" where
  "reducePriority name d =
     (if fits name then (name, d) else if name \<noteq> [] then ([], drop_value d) else ([], d))"

definition reduceScheduler :: "string \<Rightarrow> placementDrops \<Rightarrow> string \<times> placementDrops" where
  "reduceScheduler name d =
     (if name \<noteq> [] \<and> name \<noteq> defaultSchedulerName then if fits name then (name, d) else ([], drop_value d) else ([], d))"

definition reducePlacement :: "placementSpec \<Rightarrow> Placement \<times> placementDrops" where
  "reducePlacement spec =
     (let d = \<lparr>Drop_Values = 0, Drop_Terms = 0\<rparr>;
          (selector, d) = reduceSelector (Pl_NodeSelector spec) d;
          (node, d) = (case Pl_Affinity spec of None \<Rightarrow> ([], d) | Some a \<Rightarrow> reduceNodeAffinity (Af_Node a) d);
          (pod, d) = (case Pl_Affinity spec of None \<Rightarrow> ([], d) | Some a \<Rightarrow> reducePodAffinity (Af_Pod a) d);
          (anti, d) = (case Pl_Affinity spec of None \<Rightarrow> ([], d) | Some a \<Rightarrow> reducePodAffinity (Af_PodAnti a) d);
          (spread, d) = reduceSpread (Pl_Spread spec) d;
          (tols, d) = reduceTolerations (Pl_Tolerations spec) d;
          (priority, d) = reducePriority (Pl_PriorityClassName spec) d;
          grace = (case Pl_GraceSeconds spec of None \<Rightarrow> None | Some g \<Rightarrow> if g \<noteq> defaultTerminationGrace then Some g else None);
          (scheduler, d) = reduceScheduler (Pl_SchedulerName spec) d
      in (\<lparr>NodeSelector = selector, NodeAffinity = node, PodAffinity = pod, PodAntiAffinity = anti, TopologySpread = spread,
           Tolerations = tols, PriorityClass = priority, TerminationGraceSeconds = grace, HostNetwork = Pl_HostNetwork spec,
           SchedulerName = scheduler\<rparr>, d))"

section \<open>The contract of a reduction\<close>

definition dropped :: "placementDrops \<Rightarrow> nat" where
  "dropped d = Drop_Values d + Drop_Terms d"

lemma dropped_drop_value [simp]: "dropped (drop_value d) = Suc (dropped d)"
  by (simp add: dropped_def drop_value_def)

lemma drops_empty_iff: "drops_empty d \<longleftrightarrow> dropped d = 0"
  by (simp add: drops_empty_def dropped_def)

text \<open>
  A reduction passes what fits through as \<open>whole\<close> and leaves the counters alone; whatever does
  not fit moves a counter.
\<close>

locale reduction =
  fixes reduce :: "'a \<Rightarrow> placementDrops \<Rightarrow> 'b \<times> placementDrops"
    and whole :: "'a \<Rightarrow> 'b"
    and fitting :: "'a \<Rightarrow> bool"
  assumes exact: "fitting a \<Longrightarrow> reduce a d = (whole a, d)"
    and counted: "\<not> fitting a \<Longrightarrow> dropped d < dropped (snd (reduce a d))"
begin

lemma grows: "dropped d \<le> dropped (snd (reduce a d))"
  using exact [of a d] counted [of a d] by (cases "fitting a") simp_all

lemma quiet_iff: "dropped (snd (reduce a d)) = dropped d \<longleftrightarrow> fitting a"
  using exact [of a d] counted [of a d] by (cases "fitting a") simp_all

lemma append_exact:
  "\<forall>e \<in> set es. ok e \<and> fitting e \<Longrightarrow> append_terms ok reduce es (out, d) = (out @ map whole es, d)"
  by (induction es arbitrary: out) (simp_all add: exact)

lemma append_grows: "dropped d \<le> dropped (snd (append_terms ok reduce es (out, d)))"
proof (induction es arbitrary: out d)
  case (Cons e es)
  obtain t d1 where t: "reduce e d = (t, d1)" by force
  then have "dropped d \<le> dropped d1" using grows [of d e] by simp
  then show ?case
    using Cons.IH [of d1 "out @ [t]"] Cons.IH [of "drop_value d" out] t by (simp add: Let_def)
qed simp

lemma append_counted:
  "\<not> (\<forall>e \<in> set es. ok e \<and> fitting e) \<Longrightarrow> dropped d < dropped (snd (append_terms ok reduce es (out, d)))"
proof (induction es arbitrary: out d)
  case (Cons e es)
  obtain t d1 where t: "reduce e d = (t, d1)" by force
  then have g: "dropped d \<le> dropped d1" using grows [of d e] by simp
  show ?case
  proof (cases "ok e \<and> fitting e")
    case True
    then have "\<not> (\<forall>e \<in> set es. ok e \<and> fitting e)" using Cons.prems by simp
    then have "dropped d1 < dropped (snd (append_terms ok reduce es (out @ [t], d1)))" by (rule Cons.IH)
    then show ?thesis using True t g by simp
  next
    case False
    then show ?thesis
      using append_grows [of "drop_value d" ok es out] append_grows [of d1 ok es "out @ [t]"] counted [of e d] t by auto
  qed
qed simp

end

text \<open>The cap on a list of terms, after any reduction that makes one.\<close>

lemma cap_exact: "length ts \<le> maxPlacementTerms \<Longrightarrow> capTerms ts d = (ts, d)"
  and cap_counted: "\<not> length ts \<le> maxPlacementTerms \<Longrightarrow> dropped d < dropped (snd (capTerms ts d))"
  and cap_grows: "dropped d \<le> dropped (snd (capTerms ts d))"
  by (auto simp: capTerms_def dropped_def)

lemma capped:
  assumes "reduction f w fit"
  shows "reduction (\<lambda>a d. case f a d of (out, d) \<Rightarrow> capTerms out d) w (\<lambda>a. fit a \<and> length (w a) \<le> maxPlacementTerms)"
proof
  fix a and d :: placementDrops
  show "fit a \<and> length (w a) \<le> maxPlacementTerms \<Longrightarrow> (case f a d of (out, d) \<Rightarrow> capTerms out d) = (w a, d)"
    using reduction.exact [OF assms] by (simp add: cap_exact)
  assume no: "\<not> (fit a \<and> length (w a) \<le> maxPlacementTerms)"
  show "dropped d < dropped (snd (case f a d of (out, d) \<Rightarrow> capTerms out d))"
  proof (cases "fit a")
    case True
    then show ?thesis using reduction.exact [OF assms] no cap_counted by simp
  next
    case False
    then have "dropped d < dropped (snd (f a d))" by (rule reduction.counted [OF assms])
    then show ?thesis using cap_grows [of "snd (f a d)" "fst (f a d)"] by (simp add: case_prod_beta)
  qed
qed

lemma keep_each_exact: "\<forall>v \<in> set vs. fits v \<Longrightarrow> keep_each out d vs = (out @ vs, d)"
  by (induction vs arbitrary: out) simp_all

lemma keep_each_counted: "\<not> (\<forall>v \<in> set vs. fits v) \<Longrightarrow> dropped d < dropped (snd (keep_each out d vs))"
  by (induction vs arbitrary: out) auto

interpretation values_kept: reduction keepValues "\<lambda>vs. vs" "\<lambda>vs. length vs \<le> maxPlacementValues \<and> (\<forall>v \<in> set vs. fits v)"
  by unfold_locales (auto simp: keepValues_def keep_each_exact keep_each_counted)

definition whole_term :: "bool \<Rightarrow> int \<Rightarrow> selectorRequirement \<Rightarrow> NodeAffinityTerm" where
  "whole_term required weight e = \<lparr>NAT_Key = Rq_Key e, NAT_Operator = Rq_Operator e, NAT_Values = Rq_Values e,
     NAT_Required = required, NAT_Weight = weight\<rparr>"

interpretation affinity_kept: reduction "affinity_term required weight" "whole_term required weight"
    "\<lambda>e. length (Rq_Values e) \<le> maxPlacementValues \<and> (\<forall>v \<in> set (Rq_Values e). fits v)" for required weight
  by unfold_locales
    (use values_kept.exact values_kept.counted in \<open>simp_all add: affinity_term_def whole_term_def case_prod_beta Let_def\<close>)

text \<open>The term lists of a pod spec, as one list of terms each.\<close>

lemma append_terms_append: "append_terms ok mk (xs @ ys) st = append_terms ok mk ys (append_terms ok mk xs st)"
proof (induction xs arbitrary: st)
  case (Cons x xs)
  then show ?case by (cases st) (simp add: Let_def case_prod_beta)
qed simp

lemma append_terms_map: "append_terms ok mk (map g xs) st = append_terms (ok \<circ> g) (mk \<circ> g) xs st"
proof (induction xs arbitrary: st)
  case (Cons x xs)
  then show ?case by (cases st) (simp add: Let_def case_prod_beta)
qed simp

definition selector_requirements :: "selectorTerm \<Rightarrow> selectorRequirement list" where
  "selector_requirements trm = Tm_MatchExpressions trm @ Tm_MatchFields trm"

definition affinity_list :: "nodeAffinitySpec option \<Rightarrow> (bool \<times> int \<times> selectorRequirement) list" where
  "affinity_list na =
     (case na of None \<Rightarrow> [] | Some na \<Rightarrow>
        concat (map (\<lambda>trm. map (\<lambda>e. (True, 0, e)) (selector_requirements trm)) (case Na_Required na of None \<Rightarrow> [] | Some ts \<Rightarrow> ts)) @
        concat (map (\<lambda>p. map (\<lambda>e. (False, fst p, e)) (selector_requirements (snd p))) (Na_Preferred na)))"

definition entry_fits :: "bool \<times> int \<times> selectorRequirement \<Rightarrow> bool" where
  "entry_fits x = fits (Rq_Key (snd (snd x)))"

definition entry_term :: "bool \<times> int \<times> selectorRequirement \<Rightarrow> placementDrops \<Rightarrow> NodeAffinityTerm \<times> placementDrops" where
  "entry_term x = affinity_term (fst x) (fst (snd x)) (snd (snd x))"

definition topology_list :: "podAffinitySpec option \<Rightarrow> TopologyTerm list" where
  "topology_list pa =
     (case pa of None \<Rightarrow> [] | Some pa \<Rightarrow>
        map (\<lambda>key. \<lparr>TT_TopologyKey = key, TT_Required = True, TT_Weight = 0\<rparr>) (Pa_Required pa) @
        map (\<lambda>(weight, key). \<lparr>TT_TopologyKey = key, TT_Required = False, TT_Weight = weight\<rparr>) (Pa_Preferred pa))"

lemma appendSelectorTerm_eq:
  "appendSelectorTerm trm r w = append_terms entry_fits entry_term (map (\<lambda>e. (r, w, e)) (selector_requirements trm))"
  by (rule ext) (simp add: appendSelectorTerm_def selector_requirements_def append_terms_append append_terms_map comp_def
      entry_fits_def entry_term_def)

lemma fold_append_terms:
  "fold (\<lambda>x. append_terms ok mk (g x)) xs st = append_terms ok mk (concat (map g xs)) st"
  by (induction xs arbitrary: st) (simp_all add: append_terms_append)

lemma reduceNodeAffinity_eq:
  "reduceNodeAffinity na d =
     (case append_terms entry_fits entry_term (affinity_list na) ([], d) of (out, d) \<Rightarrow> capTerms out d)"
proof (cases na)
  case (Some n)
  have "fold (\<lambda>(weight, trm). appendSelectorTerm trm False weight) (Na_Preferred n) =
      fold (\<lambda>p. append_terms entry_fits entry_term (map (\<lambda>e. (False, fst p, e)) (selector_requirements (snd p)))) (Na_Preferred n)"
    by (rule arg_cong [where f = "\<lambda>f. fold f (Na_Preferred n)"]) (auto simp: appendSelectorTerm_eq)
  then show ?thesis
    using Some by (cases "Na_Required n") (simp_all add: reduceNodeAffinity_def affinity_list_def appendSelectorTerm_eq
        fold_append_terms append_terms_append)
qed (simp add: reduceNodeAffinity_def affinity_list_def capTerms_def)

lemma reducePodAffinity_eq:
  "reducePodAffinity pa d =
     (case append_terms (fits \<circ> TT_TopologyKey) Pair (topology_list pa) ([], d) of (out, d) \<Rightarrow> capTerms out d)"
proof (cases pa)
  case (Some a)
  have "append_terms (fits \<circ> TT_TopologyKey) Pair (topology_list pa) ([], d) =
      appendWeightedTopologyTerms (Pa_Preferred a) (appendTopologyTerms (Pa_Required a) ([], d))"
    using Some by (simp add: topology_list_def appendTopologyTerms_def appendWeightedTopologyTerms_def append_terms_append
        append_terms_map comp_def case_prod_beta')
  then show ?thesis using Some by (simp add: reducePodAffinity_def)
qed (simp add: reducePodAffinity_def topology_list_def capTerms_def)

text \<open>Each part of the placement is a reduction.\<close>

lemma append_reduction:
  assumes "reduction mk w fit"
  shows "reduction (\<lambda>es d. append_terms ok mk es ([], d)) (map w) (\<lambda>es. \<forall>e \<in> set es. ok e \<and> fit e)"
  using reduction.append_exact [OF assms, of _ ok "[]"] reduction.append_counted [OF assms, of _ ok _ "[]"]
  by unfold_locales auto

lemma reduction_on:
  assumes "reduction f w fit"
  shows "reduction (\<lambda>a. f (g a)) (\<lambda>a. w (g a)) (\<lambda>a. fit (g a))"
  using reduction.exact [OF assms] reduction.counted [OF assms] by unfold_locales auto

lemma Pair_reduction: "reduction Pair (\<lambda>t. t) (\<lambda>_. True)"
  by unfold_locales simp_all

definition values_fit :: "string list \<Rightarrow> bool" where
  "values_fit vs \<longleftrightarrow> length vs \<le> maxPlacementValues \<and> (\<forall>v \<in> set vs. fits v)"

lemma entry_reduction:
  "reduction entry_term (\<lambda>x. whole_term (fst x) (fst (snd x)) (snd (snd x))) (\<lambda>x. values_fit (Rq_Values (snd (snd x))))"
  unfolding entry_term_def values_fit_def
  by unfold_locales (use affinity_kept.exact affinity_kept.counted in auto)

definition affinity_whole :: "nodeAffinitySpec option \<Rightarrow> NodeAffinityTerm list" where
  "affinity_whole na = map (\<lambda>x. whole_term (fst x) (fst (snd x)) (snd (snd x))) (affinity_list na)"

definition affinity_fits :: "nodeAffinitySpec option \<Rightarrow> bool" where
  "affinity_fits na \<longleftrightarrow> (\<forall>x \<in> set (affinity_list na). entry_fits x \<and> values_fit (Rq_Values (snd (snd x)))) \<and>
     length (affinity_list na) \<le> maxPlacementTerms"

interpretation node_affinity: reduction reduceNodeAffinity affinity_whole affinity_fits
proof -
  have "reduction (\<lambda>na d. reduceNodeAffinity na d) affinity_whole
      (\<lambda>na. (\<forall>x \<in> set (affinity_list na). entry_fits x \<and> values_fit (Rq_Values (snd (snd x)))) \<and> length (affinity_whole na) \<le> maxPlacementTerms)"
    unfolding reduceNodeAffinity_eq affinity_whole_def
    by (rule capped [OF reduction_on [OF append_reduction [OF entry_reduction]]])
  then show "reduction reduceNodeAffinity affinity_whole affinity_fits"
    by (simp add: affinity_fits_def affinity_whole_def reduction_def)
qed

definition topology_fits :: "podAffinitySpec option \<Rightarrow> bool" where
  "topology_fits pa \<longleftrightarrow> (\<forall>t \<in> set (topology_list pa). fits (TT_TopologyKey t)) \<and> length (topology_list pa) \<le> maxPlacementTerms"

interpretation pod_affinity: reduction reducePodAffinity topology_list topology_fits
proof -
  have "reduction (\<lambda>pa d. reducePodAffinity pa d) (\<lambda>pa. map (\<lambda>t. t) (topology_list pa))
      (\<lambda>pa. (\<forall>t \<in> set (topology_list pa). (fits \<circ> TT_TopologyKey) t \<and> True) \<and> length (map (\<lambda>t. t) (topology_list pa)) \<le> maxPlacementTerms)"
    unfolding reducePodAffinity_eq by (rule capped [OF reduction_on [OF append_reduction [OF Pair_reduction]]])
  then show "reduction reducePodAffinity topology_list topology_fits"
    by (simp add: topology_fits_def reduction_def)
qed

definition spread_whole :: "spreadConstraint \<Rightarrow> SpreadTerm" where
  "spread_whole c = \<lparr>SpT_TopologyKey = Sc_TopologyKey c, SpT_MaxSkew = Sc_MaxSkew c,
     SpT_WhenUnsatisfiable = Sc_WhenUnsatisfiable c, SpT_MinDomains = Sc_MinDomains c\<rparr>"

definition spread_fits :: "spreadConstraint list \<Rightarrow> bool" where
  "spread_fits cs \<longleftrightarrow> (\<forall>c \<in> set cs. fits (Sc_TopologyKey c)) \<and> length cs \<le> maxPlacementTerms"

interpretation spread: reduction reduceSpread "map spread_whole" spread_fits
proof -
  have "reduction (\<lambda>c d. (spread_whole c, d)) spread_whole (\<lambda>_. True)" by unfold_locales simp_all
  from capped [OF append_reduction [OF this, of "fits \<circ> Sc_TopologyKey"]]
  show "reduction reduceSpread (map spread_whole) spread_fits"
    by (simp add: spread_fits_def reduceSpread_def spread_whole_def reduction_def)
qed

definition tolerations_written :: "tolerationSpec list \<Rightarrow> tolerationSpec list" where
  "tolerations_written ts = filter (\<lambda>t. \<not> tolerationIsClusterDefault t) ts"

definition toleration_whole :: "tolerationSpec \<Rightarrow> Toleration" where
  "toleration_whole t = \<lparr>Tol_Key = To_Key t, Tol_Operator = To_Operator t, Tol_Value = To_Value t, Tol_Effect = To_Effect t,
     Tol_Seconds = To_Seconds t\<rparr>"

definition tolerations_fit :: "tolerationSpec list \<Rightarrow> bool" where
  "tolerations_fit ts \<longleftrightarrow> (\<forall>t \<in> set (tolerations_written ts). fits (To_Key t) \<and> fits (To_Value t)) \<and>
     length (tolerations_written ts) \<le> maxPlacementTerms"

interpretation tolerations: reduction reduceTolerations "\<lambda>ts. map toleration_whole (tolerations_written ts)" tolerations_fit
proof -
  have "reduction (\<lambda>t d. (toleration_whole t, d)) toleration_whole (\<lambda>_. True)" by unfold_locales simp_all
  from capped [OF reduction_on [OF append_reduction [OF this, of "\<lambda>t. fits (To_Key t) \<and> fits (To_Value t)"], of tolerations_written]]
  show "reduction reduceTolerations (\<lambda>ts. map toleration_whole (tolerations_written ts)) tolerations_fit"
    by (simp add: tolerations_fit_def reduceTolerations_def toleration_whole_def tolerations_written_def reduction_def)
qed

definition selector_fits :: "(string, string) gomap \<Rightarrow> bool" where
  "selector_fits m \<longleftrightarrow> (\<forall>(k, v) \<in> set (entries m). fits k \<and> fits v)"

interpretation selector: reduction reduceSelector "\<lambda>m. m" selector_fits
proof
  let ?step = "\<lambda>(k, v) (sel, d). if \<not> fits k \<or> \<not> fits v then (sel, drop_value d) else (mput k v sel, d)"
  fix m :: "(string, string) gomap" and d :: placementDrops
  have all: "fold ?step es (sel, d) = (fold (\<lambda>(k, v). mput k v) es sel, d)" if "\<forall>(k, v) \<in> set es. fits k \<and> fits v" for es sel d
    using that by (induction es arbitrary: sel) auto
  have grow: "dropped d \<le> dropped (snd (fold ?step es (sel, d)))" for es sel d
  proof (induction es arbitrary: sel d)
    case (Cons e es)
    then show ?case
      using Cons [of "drop_value d" sel] by (cases e) auto
  qed simp
  have some: "dropped d < dropped (snd (fold ?step es (sel, d)))" if "\<not> (\<forall>(k, v) \<in> set es. fits k \<and> fits v)" for es sel d
    using that
  proof (induction es arbitrary: sel d)
    case (Cons e es)
    then show ?case using grow [where d = "drop_value d" and es = es and sel = sel] by (cases e) auto
  qed simp
  show "selector_fits m \<Longrightarrow> reduceSelector m d = (m, d)"
    using all [of "entries m"] by (simp add: reduceSelector_def selector_fits_def)
  show "\<not> selector_fits m \<Longrightarrow> dropped d < dropped (snd (reduceSelector m d))"
    using some [of "entries m"] by (simp add: reduceSelector_def selector_fits_def)
qed

interpretation priority: reduction reducePriority "\<lambda>n. n" fits
  by unfold_locales (auto simp: reducePriority_def fits_def)

definition scheduler_whole :: "string \<Rightarrow> string" where
  "scheduler_whole n = (if n = defaultSchedulerName then [] else n)"

interpretation scheduler: reduction reduceScheduler scheduler_whole "\<lambda>n. n = defaultSchedulerName \<or> fits n"
  by unfold_locales (auto simp: reduceScheduler_def scheduler_whole_def fits_def)

section \<open>Properties\<close>

text \<open>The placement of a spec without any bound, and when a spec is within the bounds.\<close>

definition affinity_part :: "(affinitySpec \<Rightarrow> 'a option) \<Rightarrow> placementSpec \<Rightarrow> 'a option" where
  "affinity_part part spec = Option.bind (Pl_Affinity spec) part"

definition whole_placement :: "placementSpec \<Rightarrow> Placement" where
  "whole_placement spec =
     \<lparr>NodeSelector = Pl_NodeSelector spec, NodeAffinity = affinity_whole (affinity_part Af_Node spec),
      PodAffinity = topology_list (affinity_part Af_Pod spec), PodAntiAffinity = topology_list (affinity_part Af_PodAnti spec),
      TopologySpread = map spread_whole (Pl_Spread spec),
      Tolerations = map toleration_whole (tolerations_written (Pl_Tolerations spec)), PriorityClass = Pl_PriorityClassName spec,
      TerminationGraceSeconds = (if Pl_GraceSeconds spec = Some defaultTerminationGrace then None else Pl_GraceSeconds spec),
      HostNetwork = Pl_HostNetwork spec, SchedulerName = scheduler_whole (Pl_SchedulerName spec)\<rparr>"

definition within_bounds :: "placementSpec \<Rightarrow> bool" where
  "within_bounds spec \<longleftrightarrow> selector_fits (Pl_NodeSelector spec) \<and> affinity_fits (affinity_part Af_Node spec) \<and>
     topology_fits (affinity_part Af_Pod spec) \<and> topology_fits (affinity_part Af_PodAnti spec) \<and>
     spread_fits (Pl_Spread spec) \<and> tolerations_fit (Pl_Tolerations spec) \<and> fits (Pl_PriorityClassName spec) \<and>
     (Pl_SchedulerName spec = defaultSchedulerName \<or> fits (Pl_SchedulerName spec))"

lemma absent_parts:
  "(case a of None \<Rightarrow> ([], d) | Some a \<Rightarrow> reduceNodeAffinity (part a) d) = reduceNodeAffinity (Option.bind a part) d"
  "(case a of None \<Rightarrow> ([], d) | Some a \<Rightarrow> reducePodAffinity (pod_part a) d) = reducePodAffinity (Option.bind a pod_part) d"
  by (cases a; simp add: reduceNodeAffinity_def reducePodAffinity_def)+

lemmas reduction_parts = selector.quiet_iff node_affinity.quiet_iff pod_affinity.quiet_iff spread.quiet_iff
  tolerations.quiet_iff priority.quiet_iff scheduler.quiet_iff
lemmas parts_grow = selector.grows node_affinity.grows pod_affinity.grows spread.grows tolerations.grows priority.grows
  scheduler.grows
lemmas parts_exact = selector.exact node_affinity.exact pod_affinity.exact spread.exact tolerations.exact priority.exact
  scheduler.exact

text \<open>
  The placement reduction is honest about what it left out: the drop counters stay at zero exactly
  when the whole spec is within the bounds, and then the reduced placement holds every constraint
  of the spec, in order, except the cluster's own defaults.
\<close>

theorem placement_drops_honest:
  assumes "reducePlacement spec = (p, d)"
  shows "(drops_empty d \<longleftrightarrow> within_bounds spec) \<and> (drops_empty d \<longrightarrow> p = whole_placement spec)"
proof -
  define d0 where "d0 = \<lparr>Drop_Values = 0, Drop_Terms = 0\<rparr>"
  define d1 where "d1 = snd (reduceSelector (Pl_NodeSelector spec) d0)"
  define d2 where "d2 = snd (reduceNodeAffinity (affinity_part Af_Node spec) d1)"
  define d3 where "d3 = snd (reducePodAffinity (affinity_part Af_Pod spec) d2)"
  define d4 where "d4 = snd (reducePodAffinity (affinity_part Af_PodAnti spec) d3)"
  define d5 where "d5 = snd (reduceSpread (Pl_Spread spec) d4)"
  define d6 where "d6 = snd (reduceTolerations (Pl_Tolerations spec) d5)"
  define d7 where "d7 = snd (reducePriority (Pl_PriorityClassName spec) d6)"
  have chain: "d = snd (reduceScheduler (Pl_SchedulerName spec) d7)"
    using assms unfolding d0_def d1_def d2_def d3_def d4_def d5_def d6_def d7_def
    by (simp add: reducePlacement_def absent_parts affinity_part_def case_prod_beta Let_def)
  have zero: "dropped d0 = 0" by (simp add: d0_def dropped_def)
  have le: "dropped d0 \<le> dropped d1" "dropped d1 \<le> dropped d2" "dropped d2 \<le> dropped d3" "dropped d3 \<le> dropped d4"
    "dropped d4 \<le> dropped d5" "dropped d5 \<le> dropped d6" "dropped d6 \<le> dropped d7" "dropped d7 \<le> dropped d"
    unfolding chain d7_def d6_def d5_def d4_def d3_def d2_def d1_def by (rule parts_grow)+
  have quiet: "dropped d1 = dropped d0 \<longleftrightarrow> selector_fits (Pl_NodeSelector spec)"
    "dropped d2 = dropped d1 \<longleftrightarrow> affinity_fits (affinity_part Af_Node spec)"
    "dropped d3 = dropped d2 \<longleftrightarrow> topology_fits (affinity_part Af_Pod spec)"
    "dropped d4 = dropped d3 \<longleftrightarrow> topology_fits (affinity_part Af_PodAnti spec)"
    "dropped d5 = dropped d4 \<longleftrightarrow> spread_fits (Pl_Spread spec)"
    "dropped d6 = dropped d5 \<longleftrightarrow> tolerations_fit (Pl_Tolerations spec)"
    "dropped d7 = dropped d6 \<longleftrightarrow> fits (Pl_PriorityClassName spec)"
    "dropped d = dropped d7 \<longleftrightarrow> Pl_SchedulerName spec = defaultSchedulerName \<or> fits (Pl_SchedulerName spec)"
    unfolding chain d7_def d6_def d5_def d4_def d3_def d2_def d1_def by (rule reduction_parts)+
  have "dropped d = 0 \<longleftrightarrow> dropped d1 = dropped d0 \<and> dropped d2 = dropped d1 \<and> dropped d3 = dropped d2 \<and>
      dropped d4 = dropped d3 \<and> dropped d5 = dropped d4 \<and> dropped d6 = dropped d5 \<and> dropped d7 = dropped d6 \<and> dropped d = dropped d7"
    using le zero by linarith
  then have iff: "drops_empty d \<longleftrightarrow> within_bounds spec"
    unfolding drops_empty_iff within_bounds_def quiet by simp
  have "p = whole_placement spec" if "within_bounds spec"
    using assms that
    by (auto simp: reducePlacement_def absent_parts affinity_part_def [symmetric] within_bounds_def whole_placement_def parts_exact
        split: option.splits)
  then show ?thesis using iff by blast
qed

text \<open>A small spec for the examples: pinned to an architecture, with one default toleration.\<close>

definition arm_spec :: placementSpec where
  "arm_spec = \<lparr>Pl_NodeSelector = mput ''kubernetes.io/arch'' ''arm64'' mempty, Pl_Affinity = None, Pl_Spread = [],
     Pl_Tolerations = [\<lparr>To_Key = ''node.kubernetes.io/not-ready'', To_Operator = ''Exists'', To_Value = [],
       To_Effect = ''NoExecute'', To_Seconds = Some 300\<rparr>],
     Pl_PriorityClassName = ''high'', Pl_GraceSeconds = Some 30, Pl_HostNetwork = False,
     Pl_SchedulerName = ''default-scheduler''\<rparr>"

theorem placement_drops_honest_witness:
  "\<exists>p d. reducePlacement arm_spec = (p, d) \<and> drops_empty d \<and> p = whole_placement arm_spec"
proof -
  obtain p d where r: "reducePlacement arm_spec = (p, d)" by force
  have "drops_empty (snd (reducePlacement arm_spec))" by code_simp
  then show ?thesis using placement_drops_honest [OF r] r by simp
qed

subsection \<open>Bounds\<close>

lemma append_terms_all:
  assumes "\<And>e d. ok e \<Longrightarrow> P (fst (mk e d))"
  shows "\<forall>t \<in> set out. P t \<Longrightarrow> \<forall>t \<in> set (fst (append_terms ok mk es (out, d))). P t"
proof (induction es arbitrary: out d)
  case (Cons e es)
  obtain t d1 where t: "mk e d = (t, d1)" by force
  show ?case
  proof (cases "ok e")
    case True
    then have "\<forall>t \<in> set (out @ [t]). P t" using assms [of e d] t Cons.prems by auto
    from Cons.IH [OF this, of d1] show ?thesis using True t by simp
  qed (use Cons in simp)
qed simp

lemma capTerms_all:
  "\<forall>t \<in> set ts. P t \<Longrightarrow> (\<forall>t \<in> set (fst (capTerms ts d)). P t) \<and> length (fst (capTerms ts d)) \<le> maxPlacementTerms"
  by (auto simp: capTerms_def dest: in_set_takeD)

lemma capped_terms_all:
  assumes "\<And>e d. ok e \<Longrightarrow> P (fst (mk e d))"
  shows "(\<forall>t \<in> set (fst (case append_terms ok mk es ([], d) of (out, d) \<Rightarrow> capTerms out d)). P t) \<and>
    length (fst (case append_terms ok mk es ([], d) of (out, d) \<Rightarrow> capTerms out d)) \<le> maxPlacementTerms"
  using capTerms_all [OF append_terms_all [of ok P mk "[]" es d, OF assms]] by (simp add: case_prod_beta)

lemma keepValues_fit: "values_fit (fst (keepValues vs d))"
proof -
  have "fst (keep_each out d vs) = [] \<or> fst (keep_each out d vs) = out @ vs \<and> (\<forall>v \<in> set vs. fits v)" for out
  proof (induction vs arbitrary: out)
    case (Cons a vs)
    then show ?case using Cons [of "out @ [a]"] by auto
  qed simp
  from this [of "[]"] show ?thesis by (auto simp: keepValues_def values_fit_def)
qed

lemma reduceNodeAffinity_bounded:
  "(\<forall>t \<in> set (fst (reduceNodeAffinity na d)). fits (NAT_Key t) \<and> values_fit (NAT_Values t)) \<and>
   length (fst (reduceNodeAffinity na d)) \<le> maxPlacementTerms"
  unfolding reduceNodeAffinity_eq
  by (rule capped_terms_all) (simp add: entry_fits_def entry_term_def affinity_term_def Let_def case_prod_beta keepValues_fit)

lemma reducePodAffinity_bounded:
  "(\<forall>t \<in> set (fst (reducePodAffinity pa d)). fits (TT_TopologyKey t)) \<and> length (fst (reducePodAffinity pa d)) \<le> maxPlacementTerms"
  unfolding reducePodAffinity_eq by (rule capped_terms_all) simp

lemma reduceSpread_bounded:
  "(\<forall>t \<in> set (fst (reduceSpread cs d)). fits (SpT_TopologyKey t)) \<and> length (fst (reduceSpread cs d)) \<le> maxPlacementTerms"
  unfolding reduceSpread_def Let_def by (rule capped_terms_all) simp

lemma reduceTolerations_bounded:
  "(\<forall>t \<in> set (fst (reduceTolerations ts d)). fits (Tol_Key t) \<and> fits (Tol_Value t)) \<and>
   length (fst (reduceTolerations ts d)) \<le> maxPlacementTerms"
  unfolding reduceTolerations_def Let_def by (rule capped_terms_all) simp

lemma selector_fits_mput: "selector_fits m \<Longrightarrow> fits k \<Longrightarrow> fits v \<Longrightarrow> selector_fits (mput k v m)"
proof -
  have iff: "selector_fits m \<longleftrightarrow> (\<forall>k v. mget m k = Some v \<longrightarrow> fits k \<and> fits v)" for m
    by (auto simp: selector_fits_def mget_entries)
  show "selector_fits m \<Longrightarrow> fits k \<Longrightarrow> fits v \<Longrightarrow> selector_fits (mput k v m)" by (simp add: iff)
qed

lemma reduceSelector_bounded: "selector_fits (fst (reduceSelector m d))"
proof -
  have "selector_fits sel \<Longrightarrow>
      selector_fits (fst (fold (\<lambda>(k, v) (sel, d). if \<not> fits k \<or> \<not> fits v then (sel, drop_value d) else (mput k v sel, d)) es (sel, d)))"
    for es sel d
    by (induction es arbitrary: sel d) (auto simp: selector_fits_mput)
  moreover have "selector_fits mempty" by (simp add: selector_fits_def)
  ultimately show ?thesis by (simp add: reduceSelector_def)
qed

text \<open>
  Whatever a manifest holds, what leaves the cluster is bounded: every string of the reduced
  placement is at most 128 bytes long, every list has at most 32 terms and every value list at
  most 16 values.
\<close>

theorem placement_bounded:
  assumes "reducePlacement spec = (p, d)"
  shows "selector_fits (NodeSelector p) \<and>
    (\<forall>t \<in> set (NodeAffinity p). fits (NAT_Key t) \<and> values_fit (NAT_Values t)) \<and>
    (\<forall>t \<in> set (PodAffinity p @ PodAntiAffinity p). fits (TT_TopologyKey t)) \<and>
    (\<forall>t \<in> set (TopologySpread p). fits (SpT_TopologyKey t)) \<and>
    (\<forall>t \<in> set (Tolerations p). fits (Tol_Key t) \<and> fits (Tol_Value t)) \<and>
    fits (PriorityClass p) \<and> fits (SchedulerName p) \<and>
    length (NodeAffinity p) \<le> maxPlacementTerms \<and> length (PodAffinity p) \<le> maxPlacementTerms \<and>
    length (PodAntiAffinity p) \<le> maxPlacementTerms \<and> length (TopologySpread p) \<le> maxPlacementTerms \<and>
    length (Tolerations p) \<le> maxPlacementTerms"
proof -
  note eqs = assms [symmetric, unfolded reducePlacement_def absent_parts, simplified case_prod_beta Let_def, simplified]
  show ?thesis
    using eqs reduceSelector_bounded reduceNodeAffinity_bounded reducePodAffinity_bounded reduceSpread_bounded
      reduceTolerations_bounded
    by (auto simp: reducePriority_def reduceScheduler_def fits_def)
qed

theorem placement_bounded_witness:
  "\<exists>p d. reducePlacement arm_spec = (p, d) \<and> fits (PriorityClass p) \<and> length (Tolerations p) \<le> maxPlacementTerms"
proof -
  obtain p d where r: "reducePlacement arm_spec = (p, d)" by force
  then show ?thesis using placement_bounded [OF r] by blast
qed

end
