(* ===== verification/PodView.thy ===== *)
theory PodView
  imports Placement PolicyFilter JournalBase
begin

text \<open>
  From a Kubernetes pod to what the agent collects of it: the transform every object passes on its
  way into an informer cache (\<open>internal/collector/cachetransform.go\<close>), and the description of a
  cached pod (\<open>describe\<close> and its helpers in \<open>pods.go\<close>, \<open>claimNames\<close> in \<open>policy.go\<close>).

  The records of the first section are the Kubernetes objects with the fields this code reads or
  clears. Quantities are given by the values \<open>MilliValue\<close> and \<open>Value\<close> return for them. A nil and an
  empty slice or map are the same value, as in the payload.
\<close>

section \<open>Kubernetes objects\<close>

record envSource =
  Es_SecretKeyRef :: "string option"
  Es_ConfigMapKeyRef :: "string option"
  Es_ResourceFieldRef :: "string option"
  Es_FieldRef :: "string option"

record envVar =
  Env_Name :: string
  Env_Value :: string
  Env_ValueFrom :: "envSource option"

record httpGet =
  Http_Path :: string
  Http_Host :: string
  Http_Headers :: "(string \<times> string) list"
  Http_Port :: string

record probeSpec =
  Pb_Exec :: "string list option"
  Pb_HTTPGet :: "httpGet option"
  Pb_TCPSocket :: "(string \<times> string) option"
  Pb_GRPC :: "(string option \<times> int) option"
  Pb_InitialDelaySeconds :: int
  Pb_PeriodSeconds :: int
  Pb_TimeoutSeconds :: int
  Pb_FailureThreshold :: int
  Pb_SuccessThreshold :: int

record containerPort =
  CP_Name :: string
  CP_ContainerPort :: int
  CP_Protocol :: string

record resourceQuantities =
  Q_CPURequest :: "int option"
  Q_CPULimit :: "int option"
  Q_MemoryRequest :: "int option"
  Q_MemoryLimit :: "int option"

record containerSpec =
  Ct_Name :: string
  Ct_Image :: string
  Ct_Command :: "string list"
  Ct_Args :: "string list"
  Ct_Env :: "envVar list"
  Ct_EnvFrom :: "string list"
  Ct_LivenessProbe :: "probeSpec option"
  Ct_ReadinessProbe :: "probeSpec option"
  Ct_StartupProbe :: "probeSpec option"
  Ct_Lifecycle :: "string option"
  Ct_Resources :: resourceQuantities
  Ct_Ports :: "containerPort list"

record terminatedState =
  Term_Reason :: string
  Term_ExitCode :: int
  Term_FinishedAt :: time

record containerStatus =
  Cst_Name :: string
  Cst_ContainerID :: string
  Cst_ImageID :: string
  Cst_RestartCount :: int
  Cst_LastTerminated :: "terminatedState option"
  Cst_Terminated :: "terminatedState option"
  Cst_RunningSince :: "time option"

record podCondition =
  Cond_Type :: string
  Cond_Status :: string
  Cond_Reason :: string
  Cond_LastTransition :: time

text \<open>\<open>Pod_Controller\<close> is what \<open>metav1.GetControllerOf\<close> returns: kind and name of the controller.\<close>

record Pod =
  Pod_UID :: string
  Pod_Namespace :: string
  Pod_Name :: string
  Pod_Annotations :: annotations
  Pod_ManagedFields :: "string list"
  Pod_Controller :: "WorkloadRef option"
  Pod_CreatedAt :: time
  Pod_NodeName :: string
  Pod_Placement :: placementSpec
  Pod_Claims :: "string option list"
  Pod_InitContainers :: "containerSpec list"
  Pod_Containers :: "containerSpec list"
  Pod_EphemeralContainers :: "containerSpec list"
  Pod_Phase :: string
  Pod_Reason :: string
  Pod_QOSClass :: string
  Pod_IP :: string
  Pod_Conditions :: "podCondition list"
  Pod_InitStatuses :: "containerStatus list"
  Pod_Statuses :: "containerStatus list"

section \<open>The cache transform\<close>

definition lastAppliedAnnotation :: string where
  "lastAppliedAnnotation = ''kubectl.kubernetes.io/last-applied-configuration''"

definition runtimeEnvNames :: "string list" where
  "runtimeEnvNames = [''GOMAXPROCS'', ''GOGC'', ''GOMEMLIMIT'', ''GODEBUG'', ''GOTRACEBACK'']"

fun keptEnv :: "envVar list \<Rightarrow> envVar list" where
  "keptEnv [] = []"
| "keptEnv (v # env) =
     (if Env_Name v \<notin> set runtimeEnvNames then keptEnv env
      else case Env_ValueFrom v of
        Some src \<Rightarrow> if Es_SecretKeyRef src = None \<and> Es_ConfigMapKeyRef src = None then v # keptEnv env else keptEnv env
      | None \<Rightarrow> v # keptEnv env)"

definition reduceProbe :: "probeSpec \<Rightarrow> probeSpec" where
  "reduceProbe p =
     p\<lparr>Pb_Exec := map_option (\<lambda>_. []) (Pb_Exec p),
       Pb_HTTPGet := map_option (\<lambda>h. h\<lparr>Http_Path := [], Http_Host := [], Http_Headers := []\<rparr>) (Pb_HTTPGet p),
       Pb_TCPSocket := map_option (\<lambda>h. ([], snd h)) (Pb_TCPSocket p),
       Pb_GRPC := map_option (\<lambda>h. (None, snd h)) (Pb_GRPC p)\<rparr>"

definition dropContainerFields :: "containerSpec \<Rightarrow> containerSpec" where
  "dropContainerFields c =
     c\<lparr>Ct_Env := keptEnv (Ct_Env c), Ct_EnvFrom := [], Ct_Command := [], Ct_Args := [],
       Ct_LivenessProbe := map_option reduceProbe (Ct_LivenessProbe c),
       Ct_ReadinessProbe := map_option reduceProbe (Ct_ReadinessProbe c),
       Ct_StartupProbe := map_option reduceProbe (Ct_StartupProbe c), Ct_Lifecycle := None\<rparr>"

definition dropPodSpecFields :: "Pod \<Rightarrow> Pod" where
  "dropPodSpecFields pod =
     pod\<lparr>Pod_Containers := map dropContainerFields (Pod_Containers pod),
         Pod_InitContainers := map dropContainerFields (Pod_InitContainers pod),
         Pod_EphemeralContainers := map dropContainerFields (Pod_EphemeralContainers pod)\<rparr>"

text \<open>\<open>dropUncollectedFields\<close> on a pod.\<close>

definition dropUncollectedFields :: "Pod \<Rightarrow> Pod" where
  "dropUncollectedFields pod =
     dropPodSpecFields (pod\<lparr>Pod_ManagedFields := [], Pod_Annotations := mdel lastAppliedAnnotation (Pod_Annotations pod)\<rparr>)"

section \<open>The collected view\<close>

record Probe =
  Probe_Kind :: string
  Probe_InitialDelaySeconds :: int
  Probe_PeriodSeconds :: int
  Probe_TimeoutSeconds :: int
  Probe_FailureThreshold :: int
  Probe_SuccessThreshold :: int

record Probes =
  Probes_Liveness :: "Probe option"
  Probes_Readiness :: "Probe option"
  Probes_Startup :: "Probe option"

record Resources =
  CPURequestMilli :: "int option"
  CPULimitMilli :: "int option"
  MemoryRequestBytes :: "int option"
  MemoryLimitBytes :: "int option"

record ContainerPort =
  Port_Name :: string
  Port_Port :: int
  Port_Protocol :: string

record Container =
  C_Name :: string
  C_Image :: string
  C_ImageDigest :: string
  C_Init :: bool
  C_Resources :: Resources
  C_Ports :: "ContainerPort list"
  C_Probes :: Probes
  C_RuntimeEnv :: "(string, string) gomap"

record PodInfo =
  PI_Namespace :: string
  PI_Name :: string
  PI_Node :: string
  PI_Phase :: string
  PI_Unscheduled :: string
  PI_QOSClass :: string
  PI_Workload :: WorkloadRef
  PI_Placement :: Placement
  PI_Claims :: "string list"
  PI_Containers :: "Container list"

definition OtherReason :: string where "OtherReason = ''other''"
definition knownSchedulingReasons :: "string list" where
  "knownSchedulingReasons = [''Unschedulable'', ''SchedulingGated'', ''SchedulerError'']"
definition knownDisruptionReasons :: "string list" where
  "knownDisruptionReasons = [''TerminationByKubelet'', ''PreemptionByScheduler'', ''DeletionByTaintManager'',
     ''DeletionByPodGC'', ''EvictionByEvictionAPI'']"

definition bucketReason :: "string \<Rightarrow> string list \<Rightarrow> string" where
  "bucketReason reason known = (if reason \<in> set known then reason else OtherReason)"

definition podCondition_of :: "Pod \<Rightarrow> string \<Rightarrow> podCondition option" where
  "podCondition_of pod want = List.find (\<lambda>c. Cond_Type c = want) (Pod_Conditions pod)"

definition unscheduledReason :: "Pod \<Rightarrow> string" where
  "unscheduledReason pod =
     (case podCondition_of pod ''PodScheduled'' of
        None \<Rightarrow> []
      | Some cond \<Rightarrow>
          if Cond_Status cond \<noteq> ''False'' then []
          else if Cond_Reason cond = [] then OtherReason
          else bucketReason (Cond_Reason cond) knownSchedulingReasons)"

text \<open>\<open>strings.LastIndex(imageID, "@")\<close> and what follows it.\<close>

definition parseImageDigest :: "string \<Rightarrow> string" where
  "parseImageDigest imageID =
     (if CHR ''@'' \<in> set imageID then rev (takeWhile (\<lambda>c. c \<noteq> CHR ''@'') (rev imageID))
      else if HasPrefix imageID ''sha256:'' then imageID else [])"

definition containerDigests :: "Pod \<Rightarrow> (string, string) gomap" where
  "containerDigests pod =
     fold (\<lambda>s digests. let digest = parseImageDigest (Cst_ImageID s) in
       if digest = [] then digests else mput (Cst_Name s) digest digests) (Pod_InitStatuses pod @ Pod_Statuses pod) mempty"

definition resourcesOf :: "containerSpec \<Rightarrow> Resources" where
  "resourcesOf c =
     \<lparr>CPURequestMilli = Q_CPURequest (Ct_Resources c), CPULimitMilli = Q_CPULimit (Ct_Resources c),
      MemoryRequestBytes = Q_MemoryRequest (Ct_Resources c), MemoryLimitBytes = Q_MemoryLimit (Ct_Resources c)\<rparr>"

definition portsOf :: "containerSpec \<Rightarrow> ContainerPort list" where
  "portsOf c = map (\<lambda>p. \<lparr>Port_Name = CP_Name p, Port_Port = CP_ContainerPort p, Port_Protocol = CP_Protocol p\<rparr>) (Ct_Ports c)"

definition probeKind :: "probeSpec \<Rightarrow> string" where
  "probeKind p =
     (if Pb_Exec p \<noteq> None then ''exec'' else if Pb_HTTPGet p \<noteq> None then ''httpGet''
      else if Pb_TCPSocket p \<noteq> None then ''tcpSocket'' else if Pb_GRPC p \<noteq> None then ''grpc'' else [])"

definition describeProbe :: "probeSpec option \<Rightarrow> Probe option" where
  "describeProbe p =
     map_option (\<lambda>p. \<lparr>Probe_Kind = probeKind p, Probe_InitialDelaySeconds = Pb_InitialDelaySeconds p,
       Probe_PeriodSeconds = Pb_PeriodSeconds p, Probe_TimeoutSeconds = Pb_TimeoutSeconds p,
       Probe_FailureThreshold = Pb_FailureThreshold p, Probe_SuccessThreshold = Pb_SuccessThreshold p\<rparr>) p"

definition probesOf :: "containerSpec \<Rightarrow> Probes" where
  "probesOf c = \<lparr>Probes_Liveness = describeProbe (Ct_LivenessProbe c), Probes_Readiness = describeProbe (Ct_ReadinessProbe c),
     Probes_Startup = describeProbe (Ct_StartupProbe c)\<rparr>"

text \<open>The value a variable is recorded with; \<^const>\<open>None\<close> where the loop continues without it.\<close>

definition runtime_value :: "envVar \<Rightarrow> string option" where
  "runtime_value v =
     (case Env_ValueFrom v of
        None \<Rightarrow> Some (Env_Value v)
      | Some src \<Rightarrow>
          case Es_ResourceFieldRef src of
            Some resource \<Rightarrow> Some (''resource:'' @ resource)
          | None \<Rightarrow> case Es_FieldRef src of Some path \<Rightarrow> Some (''field:'' @ path) | None \<Rightarrow> None)"

definition runtimeEnvOf :: "containerSpec \<Rightarrow> (string, string) gomap" where
  "runtimeEnvOf c =
     fold (\<lambda>v env. case runtime_value v of None \<Rightarrow> env | Some value \<Rightarrow> mput (Env_Name v) value env) (Ct_Env c) mempty"

definition claimNames :: "Pod \<Rightarrow> string list" where
  "claimNames pod = filter fits (List.map_filter (\<lambda>v. v) (Pod_Claims pod))"

definition describe_container :: "(string, string) gomap \<Rightarrow> bool \<Rightarrow> containerSpec \<Rightarrow> Container" where
  "describe_container digests init c =
     \<lparr>C_Name = Ct_Name c, C_Image = Ct_Image c, C_ImageDigest = mget_or [] digests (Ct_Name c), C_Init = init,
      C_Resources = resourcesOf c, C_Ports = portsOf c, C_Probes = probesOf c, C_RuntimeEnv = runtimeEnvOf c\<rparr>"

text \<open>\<open>describe\<close>, with the workload \<open>resolveWorkload\<close> found; the second result is what placement dropped.\<close>

definition describe :: "WorkloadRef \<Rightarrow> Pod \<Rightarrow> PodInfo \<times> placementDrops" where
  "describe workload pod =
     (let (placement, drops) = reducePlacement (Pod_Placement pod); digests = containerDigests pod
      in (\<lparr>PI_Namespace = Pod_Namespace pod, PI_Name = Pod_Name pod, PI_Node = Pod_NodeName pod, PI_Phase = Pod_Phase pod,
           PI_Unscheduled = unscheduledReason pod, PI_QOSClass = Pod_QOSClass pod, PI_Workload = workload,
           PI_Placement = placement, PI_Claims = claimNames pod,
           PI_Containers = map (describe_container digests True) (Pod_InitContainers pod) @
             map (describe_container digests False) (Pod_Containers pod)\<rparr>, drops))"

definition digestSignature :: "Container list \<Rightarrow> string" where
  "digestSignature cs = concat (map (\<lambda>c. C_Name c @ ''='' @ C_ImageDigest c @ [CHR 0x0A]) cs)"

section \<open>What the view depends on\<close>

text \<open>
  What may be learned of a container: its name, image, resources and ports, the kind and the timing
  of its probes, and the runtime knobs that are written inline or read from the container's own
  fields.
\<close>

definition public_env :: "envVar list \<Rightarrow> (string \<times> string) list" where
  "public_env env = List.map_filter (\<lambda>v. map_option (Pair (Env_Name v)) (runtime_value v)) (keptEnv env)"

definition public_container ::
    "containerSpec \<Rightarrow> string \<times> string \<times> Resources \<times> ContainerPort list \<times> Probes \<times> (string \<times> string) list" where
  "public_container c = (Ct_Name c, Ct_Image c, resourcesOf c, portsOf c, probesOf c, public_env (Ct_Env c))"

definition public_pod where
  "public_pod pod =
     ((Pod_Namespace pod, Pod_Name pod, Pod_NodeName pod, Pod_Phase pod, Pod_QOSClass pod, Pod_Placement pod, Pod_Claims pod),
      (Pod_Conditions pod, Pod_InitStatuses pod, Pod_Statuses pod),
      map public_container (Pod_InitContainers pod), map public_container (Pod_Containers pod))"

lemma probeKind_reduce [simp]: "probeKind (reduceProbe p) = probeKind p"
  by (simp add: probeKind_def reduceProbe_def)

lemma describeProbe_reduce [simp]: "describeProbe (map_option reduceProbe p) = describeProbe p"
  by (cases p) (simp_all add: describeProbe_def, simp_all add: reduceProbe_def)

lemma runtimeEnvOf_eq: "runtimeEnvOf c = fold (\<lambda>(k, v). mput k v) (List.map_filter (\<lambda>v. map_option (Pair (Env_Name v)) (runtime_value v)) (Ct_Env c)) mempty"
proof -
  have "fold (\<lambda>v env. case runtime_value v of None \<Rightarrow> env | Some value \<Rightarrow> mput (Env_Name v) value env) env m =
      fold (\<lambda>(k, v). mput k v) (List.map_filter (\<lambda>v. map_option (Pair (Env_Name v)) (runtime_value v)) env) m" for env m
    by (induction env arbitrary: m) (simp_all add: List.map_filter_simps split: option.splits)
  then show ?thesis by (simp add: runtimeEnvOf_def)
qed

definition public_view :: "(string, string) gomap \<Rightarrow> bool \<Rightarrow>
    string \<times> string \<times> Resources \<times> ContainerPort list \<times> Probes \<times> (string \<times> string) list \<Rightarrow> Container" where
  "public_view digests init c =
     (case c of (name, img, res, ports, probes, env) \<Rightarrow>
       \<lparr>C_Name = name, C_Image = img, C_ImageDigest = mget_or [] digests name, C_Init = init, C_Resources = res,
        C_Ports = ports, C_Probes = probes, C_RuntimeEnv = fold (\<lambda>(k, v). mput k v) env mempty\<rparr>)"

lemma describe_dropped:
  "describe_container digests init (dropContainerFields c) = public_view digests init (public_container c)"
  by (simp add: describe_container_def public_container_def public_view_def runtimeEnvOf_eq public_env_def dropContainerFields_def
      resourcesOf_def portsOf_def probesOf_def)

lemma keptEnv_allowed:
  "v \<in> set (keptEnv env) \<Longrightarrow> Env_Name v \<in> set runtimeEnvNames \<and>
     (\<forall>src. Env_ValueFrom v = Some src \<longrightarrow> Es_SecretKeyRef src = None \<and> Es_ConfigMapKeyRef src = None)"
  by (induction env) (auto split: if_splits option.splits)

lemma mkeys_mempty: "mkeys mempty = []"
  by (simp add: mkeys_def)

lemma mkeys_fold_mput: "set (mkeys (fold (\<lambda>(k, v). mput k v) ps m)) = fst ` set ps \<union> set (mkeys m)"
proof (induction ps arbitrary: m)
  case (Cons e ps)
  have "set (mkeys (mput k v m)) = insert k (set (mkeys m))" for k v
    by (auto simp: mkeys_iff split: if_splits)
  then show ?case using Cons by (cases e) auto
qed simp

section \<open>Properties\<close>

text \<open>
  C22. What the agent collects of a pod cannot reveal its configuration. The cached copy of a pod holds
  no command, no arguments, no imported environment and no applied-configuration annotation; the
  description is a function of the public part alone, so two pods that differ only in commands,
  arguments, secrets, other variables, probe targets or hooks are described alike; and the only
  variables in it are the five runtime knobs.
\<close>

theorem description_hides_configuration:
  assumes "public_pod p = public_pod q"
  shows "describe wl (dropUncollectedFields p) = describe wl (dropUncollectedFields q) \<and>
    (\<forall>c \<in> set (Pod_InitContainers (dropUncollectedFields p) @ Pod_Containers (dropUncollectedFields p) @
        Pod_EphemeralContainers (dropUncollectedFields p)).
      Ct_Command c = [] \<and> Ct_Args c = [] \<and> Ct_EnvFrom c = [] \<and> Ct_Lifecycle c = None \<and>
      (\<forall>v \<in> set (Ct_Env c). Env_Name v \<in> set runtimeEnvNames)) \<and>
    mget (Pod_Annotations (dropUncollectedFields p)) lastAppliedAnnotation = None \<and>
    (\<forall>c \<in> set (PI_Containers (fst (describe wl (dropUncollectedFields p)))).
      set (mkeys (C_RuntimeEnv c)) \<subseteq> set runtimeEnvNames)"
proof -
  note drop = dropUncollectedFields_def dropPodSpecFields_def
  have cs: "map (describe_container d i \<circ> dropContainerFields) cs =
      map (describe_container d i \<circ> dropContainerFields) cs'" if "map public_container cs = map public_container cs'" for d i cs cs'
    using arg_cong [OF that, of "map (public_view d i)"] by (simp add: comp_def describe_dropped)
  let ?ds = "containerDigests (dropUncollectedFields p)"
  have same: "map public_container (Pod_InitContainers p) = map public_container (Pod_InitContainers q)"
    "map public_container (Pod_Containers p) = map public_container (Pod_Containers q)"
    using assms by (simp_all add: public_pod_def)
  have "containerDigests (dropUncollectedFields q) = ?ds"
    using assms by (simp add: containerDigests_def drop public_pod_def)
  then have 1: "describe wl (dropUncollectedFields p) = describe wl (dropUncollectedFields q)"
    using assms cs [OF same(1), of ?ds True] cs [OF same(2), of ?ds False]
    by (simp add: describe_def drop public_pod_def case_prod_beta unscheduledReason_def podCondition_of_def claimNames_def)
  have 2: "\<forall>c \<in> set (Pod_InitContainers (dropUncollectedFields p) @ Pod_Containers (dropUncollectedFields p) @
        Pod_EphemeralContainers (dropUncollectedFields p)).
      Ct_Command c = [] \<and> Ct_Args c = [] \<and> Ct_EnvFrom c = [] \<and> Ct_Lifecycle c = None \<and>
      (\<forall>v \<in> set (Ct_Env c). Env_Name v \<in> set runtimeEnvNames)"
    using keptEnv_allowed by (auto simp: drop dropContainerFields_def)
  have "set (mkeys (C_RuntimeEnv (describe_container d i (dropContainerFields c)))) \<subseteq> set runtimeEnvNames" for d i c
    using keptEnv_allowed [of _ "Ct_Env c"]
    by (auto simp: describe_dropped public_view_def public_container_def mkeys_fold_mput mkeys_mempty public_env_def List.map_filter_def)
  then have 3: "\<forall>c \<in> set (PI_Containers (fst (describe wl (dropUncollectedFields p)))). set (mkeys (C_RuntimeEnv c)) \<subseteq> set runtimeEnvNames"
    by (simp add: drop describe_def Let_def case_prod_beta ball_Un)
  have "mget (Pod_Annotations (dropUncollectedFields p)) lastAppliedAnnotation = None" by (simp add: drop)
  then show ?thesis using 1 2 3 by blast
qed

text \<open>Two pods that differ in a command and in a secret.\<close>

definition plain_container :: containerSpec where
  "plain_container = \<lparr>Ct_Name = ''app'', Ct_Image = ''web:1'', Ct_Command = [], Ct_Args = [],
     Ct_Env = [\<lparr>Env_Name = ''GOMAXPROCS'', Env_Value = ''4'', Env_ValueFrom = None\<rparr>], Ct_EnvFrom = [],
     Ct_LivenessProbe = None, Ct_ReadinessProbe = None, Ct_StartupProbe = None, Ct_Lifecycle = None,
     Ct_Resources = \<lparr>Q_CPURequest = None, Q_CPULimit = None, Q_MemoryRequest = None, Q_MemoryLimit = Some 1024\<rparr>, Ct_Ports = []\<rparr>"

definition secretive_container :: containerSpec where
  "secretive_container = plain_container\<lparr>Ct_Command := [''serve'', ''--token=abc''],
     Ct_Env := \<lparr>Env_Name = ''PASSWORD'', Env_Value = ''hunter2'', Env_ValueFrom = None\<rparr> # Ct_Env plain_container\<rparr>"

definition web_pod :: "containerSpec \<Rightarrow> Pod" where
  "web_pod c = \<lparr>Pod_UID = ''u1'', Pod_Namespace = ''shop'', Pod_Name = ''web-1'', Pod_Annotations = mempty, Pod_ManagedFields = [],
     Pod_Controller = Some (WorkloadRef ''StatefulSet'' ''web''), Pod_CreatedAt = 1, Pod_NodeName = ''n1'', Pod_Placement = arm_spec,
     Pod_Claims = [], Pod_InitContainers = [], Pod_Containers = [c], Pod_EphemeralContainers = [], Pod_Phase = ''Running'',
     Pod_Reason = [], Pod_QOSClass = ''Burstable'', Pod_IP = ''10.0.0.1'', Pod_Conditions = [], Pod_InitStatuses = [],
     Pod_Statuses = [\<lparr>Cst_Name = ''app'', Cst_ContainerID = ''containerd://AB12'', Cst_ImageID = ''web@sha256:0f'',
       Cst_RestartCount = 0, Cst_LastTerminated = None, Cst_Terminated = None, Cst_RunningSince = Some 2\<rparr>]\<rparr>"

theorem description_hides_configuration_witness:
  "describe (WorkloadRef ''StatefulSet'' ''web'') (dropUncollectedFields (web_pod secretive_container)) =
   describe (WorkloadRef ''StatefulSet'' ''web'') (dropUncollectedFields (web_pod plain_container))"
proof -
  have "public_pod (web_pod secretive_container) = public_pod (web_pod plain_container)"
    by (simp add: public_pod_def web_pod_def public_container_def secretive_container_def plain_container_def public_env_def
        runtimeEnvNames_def resourcesOf_def portsOf_def probesOf_def)
  from description_hides_configuration [OF this] show ?thesis by blast
qed

end
