(* ===== verification/PodWatcher.thy ===== *)
theory PodWatcher
  imports PodView UsagePoller RestartJournal EventJournals SpoolNames
begin

text \<open>
  The pod watcher of \<open>internal/collector\<close>: the index of admitted pods every other signal is gated by
  (\<open>pods.go\<close>), the admission of pods and Jobs through the owner chain, and the facts it reports from
  status updates, each deduplicated or measured against a baseline (\<open>oom.go\<close>, \<open>restarts.go\<close>,
  \<open>restart_counters.go\<close>, \<open>lifecycle.go\<close>, \<open>jobs.go\<close>), and the named decisions (\<open>decisions.go\<close>).

  The informer caches are the argument \<open>listers\<close>: what a lister answers, \<^const>\<open>None\<close> for a miss. What
  the registered callbacks are handed is a list of \<open>emission\<close>s. An event handler is one function of the
  state, the caches and the instant, as the informer calls it; the mutexes make it atomic.
\<close>

section \<open>State\<close>

record listers =
  L_replicaSets :: "string \<Rightarrow> string \<Rightarrow> (annotations \<times> WorkloadRef option) option"
  L_jobs :: "string \<Rightarrow> string \<Rightarrow> (annotations \<times> WorkloadRef option) option"
  L_deployments :: "string \<Rightarrow> string \<Rightarrow> annotations option"
  L_statefulSets :: "string \<Rightarrow> string \<Rightarrow> annotations option"
  L_daemonSets :: "string \<Rightarrow> string \<Rightarrow> annotations option"
  L_cronJobs :: "string \<Rightarrow> string \<Rightarrow> annotations option"
  L_namespaces :: "string \<Rightarrow> annotations option"

record containerIdentity =
  Id_name :: string
  Id_imageDigest :: string

record podIndexEntry =
  E_namespace :: string
  E_name :: string
  E_node :: string
  E_workload :: WorkloadRef
  E_containers :: "(string, containerIdentity) gomap"
  E_info :: PodInfo
  E_profilable :: bool

record restartBaseline =
  B_last :: int
  B_atFirstSight :: int
  B_firstSeen :: time

record callbacks =
  Cb_oom :: bool
  Cb_restart :: bool
  Cb_disruption :: bool
  Cb_job :: bool

record PodWatcher =
  W_callbacks :: callbacks
  W_filter :: Filter
  W_index :: "(string, podIndexEntry) gomap"
  W_nameIndex :: "(string, string) gomap"
  W_reportedOOMs :: "(string \<times> time, unit) gomap"
  W_restartCounts :: "(string, restartBaseline) gomap"
  W_reportedDisruptions :: "(string, unit) gomap"
  W_reportedJobs :: "(string, unit) gomap"
  W_reportedSig :: "(string, string) gomap"
  W_valuesDropped :: int
  W_termsDropped :: int

datatype emission =
    OnPod PodInfo
  | OnOOM OOMKill
  | OnRestart ContainerRestart
  | OnDisruption PodDisruption
  | OnJobFinished JobRun

definition NewPodWatcher :: "Filter \<Rightarrow> callbacks \<Rightarrow> PodWatcher" where
  "NewPodWatcher filt cbs =
     \<lparr>W_callbacks = cbs, W_filter = filt, W_index = mempty, W_nameIndex = mempty, W_reportedOOMs = mempty,
      W_restartCounts = mempty, W_reportedDisruptions = mempty, W_reportedJobs = mempty, W_reportedSig = mempty,
      W_valuesDropped = 0, W_termsDropped = 0\<rparr>"

section \<open>The owner chain\<close>

definition resolved :: "annotations \<Rightarrow> WorkloadLookup" where
  "resolved m = \<lparr>WL_Annotations = m, WL_Unresolved = None\<rparr>"

definition unresolved :: "UnresolvedWorkload \<Rightarrow> WorkloadLookup" where
  "unresolved u = \<lparr>WL_Annotations = mempty, WL_Unresolved = Some u\<rparr>"

definition found_annotations :: "annotations option \<Rightarrow> WorkloadLookup" where
  "found_annotations a = (case a of None \<Rightarrow> unresolved WorkloadNotCached | Some m \<Rightarrow> resolved m)"

definition workloadAnnotations :: "listers \<Rightarrow> Pod \<Rightarrow> WorkloadLookup" where
  "workloadAnnotations L pod =
     (let ns = Pod_Namespace pod in
      case Pod_Controller pod of
        None \<Rightarrow> resolved mempty
      | Some owner \<Rightarrow>
          if Ref_Kind owner = ''ReplicaSet'' then
            (case L_replicaSets L ns (Ref_Name owner) of
               None \<Rightarrow> unresolved WorkloadNotCached
             | Some (ann, None) \<Rightarrow> resolved ann
             | Some (ann, Some parent) \<Rightarrow>
                 if Ref_Kind parent \<noteq> ''Deployment'' then unresolved WorkloadKindUnknown
                 else found_annotations (L_deployments L ns (Ref_Name parent)))
          else if Ref_Kind owner = ''Job'' then
            (case L_jobs L ns (Ref_Name owner) of
               None \<Rightarrow> unresolved WorkloadNotCached
             | Some (ann, None) \<Rightarrow> resolved ann
             | Some (ann, Some parent) \<Rightarrow>
                 if Ref_Kind parent \<noteq> ''CronJob'' then unresolved WorkloadKindUnknown
                 else found_annotations (L_cronJobs L ns (Ref_Name parent)))
          else if Ref_Kind owner = ''StatefulSet'' then found_annotations (L_statefulSets L ns (Ref_Name owner))
          else if Ref_Kind owner = ''DaemonSet'' then found_annotations (L_daemonSets L ns (Ref_Name owner))
          else unresolved WorkloadKindUnknown)"

definition resolveWorkload :: "listers \<Rightarrow> Pod \<Rightarrow> WorkloadRef" where
  "resolveWorkload L pod =
     (let ns = Pod_Namespace pod in
      case Pod_Controller pod of
        None \<Rightarrow> WorkloadRef ''none'' []
      | Some owner \<Rightarrow>
          if Ref_Kind owner = ''ReplicaSet'' then
            (case L_replicaSets L ns (Ref_Name owner) of Some (_, Some parent) \<Rightarrow> parent | _ \<Rightarrow> owner)
          else if Ref_Kind owner = ''Job'' then
            (case L_jobs L ns (Ref_Name owner) of Some (_, Some parent) \<Rightarrow> parent | _ \<Rightarrow> owner)
          else owner)"

definition namespaceAnnotations :: "listers \<Rightarrow> string \<Rightarrow> annotations" where
  "namespaceAnnotations L ns = (case L_namespaces L ns of None \<Rightarrow> mempty | Some m \<Rightarrow> m)"

section \<open>Admission\<close>

record admission =
  A_collect :: bool
  A_profile :: bool
  A_reason :: "ExclusionReason option"

definition on_filter :: "(Filter \<Rightarrow> Filter) \<Rightarrow> PodWatcher \<Rightarrow> PodWatcher" where
  "on_filter f w = w\<lparr>W_filter := f (W_filter w)\<rparr>"

definition decide :: "listers \<Rightarrow> Filter \<Rightarrow> Pod \<Rightarrow> admission" where
  "decide L filt pod =
     (let nsAnnotations = namespaceAnnotations L (Pod_Namespace pod); workload = workloadAnnotations L pod;
          reason = AdmitPod filt (Pod_Namespace pod) (Pod_Annotations pod) nsAnnotations workload
      in \<lparr>A_collect = (reason = None), A_profile = (reason = None \<and> AdmitProfiling (Pod_Annotations pod) nsAnnotations workload),
          A_reason = reason\<rparr>)"

definition count_unresolved :: "WorkloadLookup \<Rightarrow> PodWatcher \<Rightarrow> PodWatcher" where
  "count_unresolved workload w =
     (case WL_Unresolved workload of None \<Rightarrow> w | Some u \<Rightarrow> on_filter (countUnresolvedWorkload u) w)"

text \<open>\<open>admit\<close>: the decision, and the counting of a pod that appears.\<close>

definition admit :: "listers \<Rightarrow> Pod \<Rightarrow> bool \<Rightarrow> PodWatcher \<Rightarrow> admission \<times> PodWatcher" where
  "admit L pod cnt w =
     (let d = decide L (W_filter w) pod in
      (d,
       if \<not> cnt then w
       else
         let w = (case A_reason d of
                Some reason \<Rightarrow> on_filter (countExcluded reason) w
              | None \<Rightarrow>
                  let w = on_filter countObserved w in if \<not> A_profile d then on_filter countExcludedProfiling w else w)
         in count_unresolved (workloadAnnotations L pod) w))"

definition decisionFor :: "string \<Rightarrow> PodWatcher \<Rightarrow> admission option" where
  "decisionFor uid w =
     map_option (\<lambda>e. \<lparr>A_collect = True, A_profile = E_profilable e, A_reason = None\<rparr>) (mget (W_index w) uid)"

definition countTransition :: "admission option \<Rightarrow> admission \<Rightarrow> PodWatcher \<Rightarrow> PodWatcher" where
  "countTransition was now w =
     (case was of
        Some d \<Rightarrow>
          if \<not> A_collect now then (case A_reason now of None \<Rightarrow> w | Some reason \<Rightarrow> on_filter (countExcluded reason) w)
          else if A_profile d \<and> \<not> A_profile now then on_filter countExcludedProfiling w else w
      | None \<Rightarrow>
          if A_collect now then
            (let w = on_filter countObserved w in if \<not> A_profile now then on_filter countExcludedProfiling w else w)
          else w)"

section \<open>The index\<close>

definition normalizeContainerID :: "string \<Rightarrow> string" where
  "normalizeContainerID raw =
     (let raw = (case strings_Index raw ''://'' of None \<Rightarrow> raw | Some i \<Rightarrow> drop (i + 3) raw)
      in ToLower (TrimSpace raw))"

definition containerIndex :: "Pod \<Rightarrow> (string, containerIdentity) gomap" where
  "containerIndex pod =
     fold (\<lambda>s idx. let cid = normalizeContainerID (Cst_ContainerID s) in
       if cid = [] then idx else mput cid \<lparr>Id_name = Cst_Name s, Id_imageDigest = parseImageDigest (Cst_ImageID s)\<rparr> idx)
       (Pod_InitStatuses pod @ Pod_Statuses pod) mempty"

definition name_key :: "string \<Rightarrow> string \<Rightarrow> string" where
  "name_key ns name = ns @ ''/'' @ name"

definition indexPod :: "Pod \<Rightarrow> PodInfo \<Rightarrow> bool \<Rightarrow> PodWatcher \<Rightarrow> PodWatcher" where
  "indexPod pod info profilable w =
     w\<lparr>W_index := mput (Pod_UID pod)
         \<lparr>E_namespace = PI_Namespace info, E_name = PI_Name info, E_node = PI_Node info, E_workload = PI_Workload info,
          E_containers = containerIndex pod, E_info = info, E_profilable = profilable\<rparr> (W_index w),
       W_nameIndex := mput (name_key (PI_Namespace info) (PI_Name info)) (Pod_UID pod) (W_nameIndex w)\<rparr>"

definition dropPod :: "string \<Rightarrow> PodWatcher \<Rightarrow> PodWatcher" where
  "dropPod uid w =
     (let w = (case mget (W_index w) uid of
            None \<Rightarrow> w
          | Some entry \<Rightarrow>
              let nameKey = name_key (E_namespace entry) (E_name entry);
                  w = (if mget_or [] (W_nameIndex w) nameKey = uid then w\<lparr>W_nameIndex := mdel nameKey (W_nameIndex w)\<rparr> else w)
              in w\<lparr>W_index := mdel uid (W_index w)\<rparr>)
      in w\<lparr>W_reportedSig := mdel uid (W_reportedSig w)\<rparr>)"

definition Watcher_LookupPod :: "PodWatcher \<Rightarrow> string \<Rightarrow> (string \<times> WorkloadRef) option" where
  "Watcher_LookupPod w uid = map_option (\<lambda>e. (E_namespace e, E_workload e)) (mget (W_index w) uid)"

definition Watcher_HostNetwork :: "PodWatcher \<Rightarrow> string \<Rightarrow> bool" where
  "Watcher_HostNetwork w uid = (case mget (W_index w) uid of None \<Rightarrow> False | Some e \<Rightarrow> Placement.HostNetwork (PI_Placement (E_info e)))"

definition Watcher_LookupPodByName :: "PodWatcher \<Rightarrow> string \<Rightarrow> string \<Rightarrow> (string \<times> WorkloadRef) option" where
  "Watcher_LookupPodByName w namespace name =
     (case mget (W_nameIndex w) (name_key namespace name) of
        None \<Rightarrow> None
      | Some uid \<Rightarrow> map_option (\<lambda>e. (uid, E_workload e)) (mget (W_index w) uid))"

definition LookupContainerOnNode ::
    "PodWatcher \<Rightarrow> string \<Rightarrow> string \<Rightarrow> string \<Rightarrow> (string \<times> WorkloadRef \<times> string \<times> string) option" where
  "LookupContainerOnNode w podUID containerID node =
     (case mget (W_index w) podUID of
        None \<Rightarrow> None
      | Some entry \<Rightarrow>
          if node = [] \<or> E_node entry \<noteq> node then None
          else map_option (\<lambda>ci. (E_namespace entry, E_workload entry, Id_name ci, Id_imageDigest ci))
            (mget (E_containers entry) (normalizeContainerID containerID)))"

record ContainerOnNode =
  CN_Namespace :: string
  CN_Workload :: WorkloadRef
  CN_ContainerID :: string

definition ContainersOnNode :: "PodWatcher \<Rightarrow> string \<Rightarrow> ContainerOnNode list" where
  "ContainersOnNode w node =
     concat (map (\<lambda>entry. map (\<lambda>cid. \<lparr>CN_Namespace = E_namespace entry, CN_Workload = E_workload entry, CN_ContainerID = cid\<rparr>)
         (mkeys (E_containers entry)))
       (filter (\<lambda>entry. E_node entry = node \<and> E_profilable entry) (mvalues (W_index w))))"

definition AdmittedPodsOnNode :: "PodWatcher \<Rightarrow> string \<Rightarrow> string list" where
  "AdmittedPodsOnNode w node = sort_slice (<) (map fst (filter (\<lambda>e. E_node (snd e) = node) (entries (W_index w))))"

text \<open>\<open>ProfilingOptOuts\<close>: the workloads none of whose indexed pods may be profiled.\<close>

definition ProfilingOptOuts :: "PodWatcher \<Rightarrow> (string \<times> WorkloadRef) list" where
  "ProfilingOptOuts w =
     (let es = mvalues (W_index w); key = (\<lambda>e. (E_namespace e, E_workload e)) in
      remdups (filter (\<lambda>k. \<not> list_ex (\<lambda>e. key e = k \<and> E_profilable e) es) (map key es)))"

definition runsBuild :: "podIndexEntry \<Rightarrow> string \<Rightarrow> string \<Rightarrow> bool" where
  "runsBuild entry container imageDigest =
     list_ex (\<lambda>ci. Id_name ci = container \<and> Id_imageDigest ci = imageDigest) (mvalues (E_containers entry))"

text \<open>\<open>PodReplica\<close>; \<open>podIP\<close> is what the pod lister knows of a pod of the namespace, by name.\<close>

definition PodReplica ::
    "(string \<Rightarrow> string option) \<Rightarrow> PodWatcher \<Rightarrow> string \<Rightarrow> WorkloadRef \<Rightarrow> string \<Rightarrow> string \<Rightarrow> (string \<times> string) option" where
  "PodReplica podIP w namespace workload container imageDigest =
     (let names = sort_slice (<) (map E_name (filter (\<lambda>entry. E_namespace entry = namespace \<and> E_workload entry = workload \<and>
            E_profilable entry \<and> PI_Phase (E_info entry) = ''Running'' \<and> runsBuild entry container imageDigest)
            (mvalues (W_index w))))
      in case List.find (\<lambda>name. case podIP name of None \<Rightarrow> False | Some ip \<Rightarrow> ip \<noteq> []) names of
           None \<Rightarrow> None | Some name \<Rightarrow> Some (the (podIP name), name))"

definition less_info :: "PodInfo \<Rightarrow> PodInfo \<Rightarrow> bool" where
  "less_info a b = (if PI_Namespace a \<noteq> PI_Namespace b then PI_Namespace a < PI_Namespace b else PI_Name a < PI_Name b)"

definition Pods :: "PodWatcher \<Rightarrow> PodInfo list" where
  "Pods w = sort_slice less_info (map E_info (mvalues (W_index w)))"

section \<open>Reports\<close>

definition reportPodIfChanged :: "string \<Rightarrow> PodInfo \<Rightarrow> PodWatcher \<Rightarrow> PodWatcher \<times> emission list" where
  "reportPodIfChanged uid info w =
     (let sig = digestSignature (PI_Containers info) in
      if mget (W_reportedSig w) uid = Some sig then (w, [])
      else (w\<lparr>W_reportedSig := mput uid sig (W_reportedSig w)\<rparr>, [OnPod info]))"

definition statuses :: "Pod \<Rightarrow> containerStatus list" where
  "statuses pod = Pod_InitStatuses pod @ Pod_Statuses pod"

definition oomKilledReason :: string where "oomKilledReason = ''OOMKilled''"

text \<open>
  \<open>oomKey\<close>, kept as the pair of the part before the \<open>@\<close> and the instant that is formatted after it:
  instants and their RFC 3339 text determine each other, and the prefix test of \<open>forgetOOMKills\<close> ends
  before the \<open>@\<close>.
\<close>

definition container_key :: "Pod \<Rightarrow> string \<Rightarrow> string" where
  "container_key pod container = Pod_Namespace pod @ ''/'' @ Pod_Name pod @ ''/'' @ container"

definition oomKey :: "Pod \<Rightarrow> string \<Rightarrow> terminatedState \<Rightarrow> string \<times> time" where
  "oomKey pod container trm = (container_key pod container, Term_FinishedAt trm)"

definition pod_prefix :: "Pod \<Rightarrow> string" where
  "pod_prefix pod = Pod_Namespace pod @ ''/'' @ Pod_Name pod @ ''/''"

definition memoryLimitOf :: "Pod \<Rightarrow> string \<Rightarrow> int option" where
  "memoryLimitOf pod container =
     (case List.find (\<lambda>c. Ct_Name c = container) (Pod_InitContainers pod @ Pod_Containers pod) of
        None \<Rightarrow> None | Some c \<Rightarrow> MemoryLimitBytes (resourcesOf c))"

text \<open>The terminations of a pod in the order they are looked at: the last one before the current one.\<close>

definition terminations :: "Pod \<Rightarrow> (containerStatus \<times> terminatedState) list" where
  "terminations pod = concat (map (\<lambda>st. List.map_filter (map_option (Pair st)) [Cst_LastTerminated st, Cst_Terminated st]) (statuses pod))"

definition oom_kill :: "listers \<Rightarrow> Pod \<Rightarrow> containerStatus \<Rightarrow> terminatedState \<Rightarrow> OOMKill" where
  "oom_kill L pod status trm =
     \<lparr>OOM_Namespace = Pod_Namespace pod, OOM_Pod = Pod_Name pod, OOM_Container = Cst_Name status,
      OOM_Workload = resolveWorkload L pod, OOM_FinishedAt = Term_FinishedAt trm, OOM_ExitCode = Term_ExitCode trm,
      OOM_RestartCount = Cst_RestartCount status, OOM_MemoryLimitBytes = memoryLimitOf pod (Cst_Name status)\<rparr>"

definition report_termination ::
    "listers \<Rightarrow> Pod \<Rightarrow> containerStatus \<times> terminatedState \<Rightarrow> PodWatcher \<times> emission list \<Rightarrow> PodWatcher \<times> emission list" where
  "report_termination L pod t st =
     (let (status, trm) = t; (w, out) = st in
      if Term_Reason trm \<noteq> oomKilledReason then st
      else
        let key = oomKey pod (Cst_Name status) trm in
        if mget (W_reportedOOMs w) key \<noteq> None then st
        else (w\<lparr>W_reportedOOMs := mput key () (W_reportedOOMs w)\<rparr>, out @ [OnOOM (oom_kill L pod status trm)]))"

definition reportOOMKills :: "listers \<Rightarrow> Pod \<Rightarrow> PodWatcher \<Rightarrow> PodWatcher \<times> emission list" where
  "reportOOMKills L pod w =
     (if \<not> Cb_oom (W_callbacks w) then (w, []) else fold (report_termination L pod) (terminations pod) (w, []))"

definition forgetOOMKills :: "Pod \<Rightarrow> PodWatcher \<Rightarrow> PodWatcher" where
  "forgetOOMKills pod w =
     w\<lparr>W_reportedOOMs := mfilter (\<lambda>key _. \<not> HasPrefix (fst key) (pod_prefix pod)) (W_reportedOOMs w)\<rparr>"

definition lastTerminationState :: "containerStatus \<Rightarrow> terminatedState option" where
  "lastTerminationState status = (case Cst_LastTerminated status of Some trm \<Rightarrow> Some trm | None \<Rightarrow> Cst_Terminated status)"

definition lastTermination :: "containerStatus \<Rightarrow> string \<times> int option" where
  "lastTermination status =
     (case lastTerminationState status of None \<Rightarrow> ([], None) | Some trm \<Rightarrow> (Term_Reason trm, Some (Term_ExitCode trm)))"

definition report_restart ::
    "listers \<Rightarrow> time \<Rightarrow> Pod \<Rightarrow> containerStatus \<Rightarrow> PodWatcher \<times> emission list \<Rightarrow> PodWatcher \<times> emission list" where
  "report_restart L observedAt pod status st =
     (let (w, out) = st; key = container_key pod (Cst_Name status);
          fresh = (w\<lparr>W_restartCounts := mput key \<lparr>B_last = Cst_RestartCount status, B_atFirstSight = Cst_RestartCount status,
            B_firstSeen = observedAt\<rparr> (W_restartCounts w)\<rparr>, out) in
      case mget (W_restartCounts w) key of
        None \<Rightarrow> fresh
      | Some base \<Rightarrow>
          if Cst_RestartCount status < B_last base then fresh
          else
            let previous = B_last base;
                w = w\<lparr>W_restartCounts := mput key (base\<lparr>B_last := Cst_RestartCount status\<rparr>) (W_restartCounts w)\<rparr> in
            if Cst_RestartCount status = previous \<or> \<not> Cb_restart (W_callbacks w) then (w, out)
            else
              let (reason, exitCode) = lastTermination status
              in (w, out @ [OnRestart \<lparr>CR_Namespace = Pod_Namespace pod, CR_Pod = Pod_Name pod, CR_Container = Cst_Name status,
                   CR_Workload = resolveWorkload L pod, CR_ObservedAt = observedAt,
                   CR_Restarts = Cst_RestartCount status - previous, CR_Reason = reason, CR_ExitCode = exitCode\<rparr>]))"

definition reportRestarts :: "listers \<Rightarrow> time \<Rightarrow> Pod \<Rightarrow> PodWatcher \<Rightarrow> PodWatcher \<times> emission list" where
  "reportRestarts L observedAt pod w = fold (report_restart L observedAt pod) (statuses pod) (w, [])"

definition forgetRestarts :: "Pod \<Rightarrow> PodWatcher \<Rightarrow> PodWatcher" where
  "forgetRestarts pod w =
     w\<lparr>W_restartCounts := mfilter (\<lambda>key _. \<not> HasPrefix key (pod_prefix pod)) (W_restartCounts w)\<rparr>"

definition evictedPodReason :: string where "evictedPodReason = ''Evicted''"

definition disruptionOf :: "time \<Rightarrow> Pod \<Rightarrow> (string \<times> time) option" where
  "disruptionOf now pod =
     (let evicted = (if Pod_Phase pod = ''Failed'' \<and> Pod_Reason pod = evictedPodReason then Some (evictedPodReason, now) else None) in
      case podCondition_of pod ''DisruptionTarget'' of
        None \<Rightarrow> evicted
      | Some cond \<Rightarrow>
          if Cond_Status cond = ''True''
          then Some (Cond_Reason cond, if IsZero (Cond_LastTransition cond) then now else Cond_LastTransition cond)
          else evicted)"

definition reportDisruptions :: "listers \<Rightarrow> time \<Rightarrow> Pod \<Rightarrow> PodWatcher \<Rightarrow> PodWatcher \<times> emission list" where
  "reportDisruptions L now pod w =
     (if \<not> Cb_disruption (W_callbacks w) then (w, [])
      else case disruptionOf now pod of
        None \<Rightarrow> (w, [])
      | Some (reason, at) \<Rightarrow>
          let key = name_key (Pod_Namespace pod) (Pod_Name pod) in
          if mget (W_reportedDisruptions w) key \<noteq> None then (w, [])
          else (w\<lparr>W_reportedDisruptions := mput key () (W_reportedDisruptions w)\<rparr>,
                [OnDisruption \<lparr>PD_Namespace = Pod_Namespace pod, PD_Pod = Pod_Name pod, PD_Workload = resolveWorkload L pod,
                  PD_Node = Pod_NodeName pod, PD_Reason = bucketReason reason knownDisruptionReasons, PD_DisruptedAt = at\<rparr>]))"

definition forgetDisruptions :: "Pod \<Rightarrow> PodWatcher \<Rightarrow> PodWatcher" where
  "forgetDisruptions pod w =
     w\<lparr>W_reportedDisruptions := mdel (name_key (Pod_Namespace pod) (Pod_Name pod)) (W_reportedDisruptions w)\<rparr>"

section \<open>Events of pods\<close>

definition describePod :: "listers \<Rightarrow> Pod \<Rightarrow> PodWatcher \<Rightarrow> PodInfo \<times> PodWatcher" where
  "describePod L pod w =
     (let (info, drops) = describe (resolveWorkload L pod) pod
      in (info, if drops_empty drops then w
          else w\<lparr>W_valuesDropped := add64 (W_valuesDropped w) (int (Drop_Values drops)),
                 W_termsDropped := add64 (W_termsDropped w) (int (Drop_Terms drops))\<rparr>))"

text \<open>What both handlers do with an admitted pod.\<close>

definition collectPod :: "listers \<Rightarrow> time \<Rightarrow> Pod \<Rightarrow> bool \<Rightarrow> PodWatcher \<Rightarrow> PodWatcher \<times> emission list" where
  "collectPod L now pod profile w =
     (let (info, w) = describePod L pod w;
          w = indexPod pod info profile w;
          (w, e1) = reportPodIfChanged (Pod_UID pod) info w;
          (w, e2) = reportOOMKills L pod w;
          (w, e3) = reportRestarts L now pod w;
          (w, e4) = reportDisruptions L now pod w
      in (w, e1 @ e2 @ e3 @ e4))"

datatype pod_event = PodAdded Pod | PodUpdated Pod | PodDeleted Pod

fun handlePod :: "listers \<Rightarrow> time \<Rightarrow> pod_event \<Rightarrow> PodWatcher \<Rightarrow> PodWatcher \<times> emission list" where
  "handlePod L now (PodAdded pod) w =
     (let (d, w) = admit L pod True w in if A_collect d then collectPod L now pod (A_profile d) w else (w, []))"
| "handlePod L now (PodUpdated pod) w =
     (let (d, w) = admit L pod False w;
          was = decisionFor (Pod_UID pod) w;
          (w, out) = (if A_collect d then collectPod L now pod (A_profile d) w else (dropPod (Pod_UID pod) w, []))
      in (countTransition was d w, out))"
| "handlePod L now (PodDeleted pod) w =
     (forgetDisruptions pod (forgetRestarts pod (forgetOOMKills pod (dropPod (Pod_UID pod) w))), [])"

section \<open>Events of Jobs\<close>

record jobCondition =
  JC_Type :: string
  JC_Status :: string
  JC_Reason :: string
  JC_LastTransition :: time

record Job =
  Job_UID :: string
  Job_Namespace :: string
  Job_Name :: string
  Job_Annotations :: annotations
  Job_TemplateAnnotations :: annotations
  Job_Controller :: "WorkloadRef option"
  Job_Parallelism :: "int option"
  Job_Completions :: "int option"
  Job_BackoffLimit :: "int option"
  Job_StartTime :: "time option"
  Job_CompletionTime :: "time option"
  Job_Succeeded :: int
  Job_Failed :: int
  Job_Conditions :: "jobCondition list"

definition conditionTime :: "time \<Rightarrow> jobCondition \<Rightarrow> time" where
  "conditionTime now cond = (if IsZero (JC_LastTransition cond) then now else JC_LastTransition cond)"

fun job_outcome_loop :: "time \<Rightarrow> time option \<Rightarrow> jobCondition list \<Rightarrow> (string \<times> string \<times> time) option" where
  "job_outcome_loop now completion [] = None"
| "job_outcome_loop now completion (cond # conds) =
     (if JC_Status cond \<noteq> ''True'' then job_outcome_loop now completion conds
      else if JC_Type cond = ''Complete'' then
        (case completion of
           Some at \<Rightarrow> if \<not> IsZero at then Some (''succeeded'', [], at) else Some (''succeeded'', [], conditionTime now cond)
         | None \<Rightarrow> Some (''succeeded'', [], conditionTime now cond))
      else if JC_Type cond = ''Failed'' then Some (''failed'', JC_Reason cond, conditionTime now cond)
      else job_outcome_loop now completion conds)"

definition jobOutcomeOf :: "time \<Rightarrow> Job \<Rightarrow> (string \<times> string \<times> time) option" where
  "jobOutcomeOf now job = job_outcome_loop now (Job_CompletionTime job) (Job_Conditions job)"

definition jobWorkloadAnnotations :: "listers \<Rightarrow> Job \<Rightarrow> WorkloadLookup" where
  "jobWorkloadAnnotations L job =
     (case Job_Controller job of
        None \<Rightarrow> resolved mempty
      | Some owner \<Rightarrow>
          if Ref_Kind owner \<noteq> ''CronJob'' then unresolved WorkloadKindUnknown
          else found_annotations (L_cronJobs L (Job_Namespace job) (Ref_Name owner)))"

definition resolveJobWorkload :: "Job \<Rightarrow> WorkloadRef" where
  "resolveJobWorkload job = (case Job_Controller job of Some owner \<Rightarrow> owner | None \<Rightarrow> WorkloadRef ''Job'' (Job_Name job))"

definition admitJob :: "listers \<Rightarrow> Job \<Rightarrow> bool \<Rightarrow> PodWatcher \<Rightarrow> bool \<times> PodWatcher" where
  "admitJob L job cnt w =
     (let workload = jobWorkloadAnnotations L job;
          reason = AdmitJob (W_filter w) (Job_Namespace job) (Job_Annotations job) (Job_TemplateAnnotations job)
            (namespaceAnnotations L (Job_Namespace job)) workload in
      (reason = None,
       if \<not> cnt then w
       else count_unresolved workload
         (case reason of None \<Rightarrow> on_filter countJobObserved w | Some r \<Rightarrow> on_filter (countJobExcluded r) w)))"

definition reportJobRun :: "listers \<Rightarrow> time \<Rightarrow> Job \<Rightarrow> PodWatcher \<Rightarrow> PodWatcher \<times> emission list" where
  "reportJobRun L now job w =
     (if \<not> Cb_job (W_callbacks w) then (w, [])
      else case jobOutcomeOf now job of
        None \<Rightarrow> (w, [])
      | Some (result, reason, finishedAt) \<Rightarrow>
          let (allowed, w) = admitJob L job True w in
          if \<not> allowed then (w, [])
          else if mget (W_reportedJobs w) (Job_UID job) \<noteq> None then (w, [])
          else (w\<lparr>W_reportedJobs := mput (Job_UID job) () (W_reportedJobs w)\<rparr>,
            [OnJobFinished \<lparr>JR_Namespace = Job_Namespace job, JR_Workload = resolveJobWorkload job, JR_Name = Job_Name job,
               JR_StartedAt = (case Job_StartTime job of None \<Rightarrow> 0 | Some t \<Rightarrow> t), JR_FinishedAt = finishedAt, JR_Result = result,
               JR_FailReason = reason, JR_Succeeded = Job_Succeeded job, JR_Failed = Job_Failed job,
               JR_Parallelism = Job_Parallelism job, JR_Completions = Job_Completions job, JR_BackoffLimit = Job_BackoffLimit job\<rparr>]))"

definition forgetJobRun :: "Job \<Rightarrow> PodWatcher \<Rightarrow> PodWatcher" where
  "forgetJobRun job w = w\<lparr>W_reportedJobs := mdel (Job_UID job) (W_reportedJobs w)\<rparr>"

datatype job_event = JobSeen Job | JobDeleted Job

fun handleJob :: "listers \<Rightarrow> time \<Rightarrow> job_event \<Rightarrow> PodWatcher \<Rightarrow> PodWatcher \<times> emission list" where
  "handleJob L now (JobSeen job) w = reportJobRun L now job w"
| "handleJob L now (JobDeleted job) w = (forgetJobRun job w, [])"

section \<open>Readings and decisions\<close>

record RestartTermination =
  RT_Reason :: string
  RT_ExitCode :: int
  RT_FinishedAt :: time

record RestartCounter =
  RC_Namespace :: string
  RC_Pod :: string
  RC_Container :: string
  RC_Workload :: WorkloadRef
  RC_Restarts :: int
  RC_RestartsBeforeObservation :: int
  RC_ObservedSince :: time
  RC_PodCreatedAt :: time
  RC_ContainerStartedAt :: "time option"
  RC_LastTermination :: "RestartTermination option"

definition runningSince :: "containerStatus \<Rightarrow> time option" where
  "runningSince status = (case Cst_RunningSince status of None \<Rightarrow> None | Some t \<Rightarrow> if IsZero t then None else Some t)"

definition terminationOf :: "containerStatus \<Rightarrow> RestartTermination option" where
  "terminationOf status =
     map_option (\<lambda>trm. \<lparr>RT_Reason = Term_Reason trm, RT_ExitCode = Term_ExitCode trm, RT_FinishedAt = Term_FinishedAt trm\<rparr>)
       (lastTerminationState status)"

definition pod_counters :: "PodWatcher \<Rightarrow> Pod \<Rightarrow> RestartCounter list" where
  "pod_counters w pod =
     (case Watcher_LookupPod w (Pod_UID pod) of
        None \<Rightarrow> []
      | Some (_, workload) \<Rightarrow>
          List.map_filter (\<lambda>status.
            if Cst_RestartCount status \<le> 0 then None
            else map_option (\<lambda>base.
              \<lparr>RC_Namespace = Pod_Namespace pod, RC_Pod = Pod_Name pod, RC_Container = Cst_Name status, RC_Workload = workload,
               RC_Restarts = B_last base, RC_RestartsBeforeObservation = B_atFirstSight base, RC_ObservedSince = B_firstSeen base,
               RC_PodCreatedAt = Pod_CreatedAt pod, RC_ContainerStartedAt = runningSince status,
               RC_LastTermination = terminationOf status\<rparr>) (mget (W_restartCounts w) (container_key pod (Cst_Name status))))
            (statuses pod))"

definition less_restart_counter :: "RestartCounter \<Rightarrow> RestartCounter \<Rightarrow> bool" where
  "less_restart_counter a b =
     (if RC_Namespace a \<noteq> RC_Namespace b then RC_Namespace a < RC_Namespace b
      else if RC_Pod a \<noteq> RC_Pod b then RC_Pod a < RC_Pod b
      else RC_Container a < RC_Container b)"

text \<open>\<open>RestartCounters\<close>, over the pods the lister returns; \<^const>\<open>None\<close> is a lister that fails.\<close>

definition RestartCounters :: "Pod list option \<Rightarrow> PodWatcher \<Rightarrow> RestartCounter list" where
  "RestartCounters pods w =
     (case pods of None \<Rightarrow> [] | Some pods \<Rightarrow> sort_slice less_restart_counter (concat (map (pod_counters w) pods)))"

record Decision =
  De_Kind :: string
  De_Namespace :: string
  De_Name :: string
  De_Collected :: bool
  De_Profiled :: bool
  De_Reason :: "ExclusionReason option"
  De_Workload :: "UnresolvedWorkload option"

definition namespaceDecisions :: "(string \<times> annotations) list \<Rightarrow> PodWatcher \<Rightarrow> Decision list" where
  "namespaceDecisions namespaces w =
     map (\<lambda>(name, ann). let reason = AdmitNamespace (W_filter w) name ann in
       \<lparr>De_Kind = ''Namespace'', De_Namespace = [], De_Name = name, De_Collected = (reason = None),
        De_Profiled = (reason = None \<and> \<not> opted_out ProfileAnnotation ann), De_Reason = reason, De_Workload = None\<rparr>) namespaces"

definition podDecisions :: "listers \<Rightarrow> Pod list \<Rightarrow> PodWatcher \<Rightarrow> Decision list" where
  "podDecisions L pods w =
     map (\<lambda>pod. let d = decide L (W_filter w) pod in
       \<lparr>De_Kind = ''Pod'', De_Namespace = Pod_Namespace pod, De_Name = Pod_Name pod, De_Collected = A_collect d,
        De_Profiled = A_profile d, De_Reason = A_reason d, De_Workload = WL_Unresolved (workloadAnnotations L pod)\<rparr>) pods"

definition jobDecisions :: "listers \<Rightarrow> Job list \<Rightarrow> PodWatcher \<Rightarrow> Decision list" where
  "jobDecisions L jobs w =
     map (\<lambda>job. let workload = jobWorkloadAnnotations L job;
         reason = AdmitJob (W_filter w) (Job_Namespace job) (Job_Annotations job) (Job_TemplateAnnotations job)
           (namespaceAnnotations L (Job_Namespace job)) workload in
       \<lparr>De_Kind = ''Job'', De_Namespace = Job_Namespace job, De_Name = Job_Name job, De_Collected = (reason = None),
        De_Profiled = False, De_Reason = reason, De_Workload = WL_Unresolved workload\<rparr>) jobs"

definition less_decision :: "Decision \<Rightarrow> Decision \<Rightarrow> bool" where
  "less_decision a b =
     (if De_Kind a \<noteq> De_Kind b then De_Kind a < De_Kind b
      else if De_Namespace a \<noteq> De_Namespace b then De_Namespace a < De_Namespace b
      else De_Name a < De_Name b)"

definition Decisions :: "listers \<Rightarrow> (string \<times> annotations) list \<Rightarrow> Pod list \<Rightarrow> Job list \<Rightarrow> PodWatcher \<Rightarrow> Decision list" where
  "Decisions L namespaces pods jobs w =
     sort_slice less_decision (namespaceDecisions namespaces w @ podDecisions L pods w @ jobDecisions L jobs w)"

section \<open>What a report leaves alone\<close>

text \<open>The parts of the state the admission decisions and the index live in.\<close>

definition core :: "PodWatcher \<Rightarrow> (string, podIndexEntry) gomap \<times> (string, string) gomap \<times> string list \<times> string list" where
  "core w = (W_index w, W_nameIndex w, F_allow (W_filter w), F_deny (W_filter w))"

lemma core_updates [simp]:
  "core (w\<lparr>W_reportedOOMs := a\<rparr>) = core w" "core (w\<lparr>W_restartCounts := b\<rparr>) = core w"
  "core (w\<lparr>W_reportedDisruptions := c\<rparr>) = core w" "core (w\<lparr>W_reportedSig := e\<rparr>) = core w"
  "core (w\<lparr>W_valuesDropped := m, W_termsDropped := n\<rparr>) = core w"
  by (simp_all add: core_def)

lemma filter_counts_sel [simp]:
  "F_allow (countObserved f) = F_allow f" "F_deny (countObserved f) = F_deny f"
  "F_allow (countExcludedProfiling f) = F_allow f" "F_deny (countExcludedProfiling f) = F_deny f"
  "F_allow (countExcluded r f) = F_allow f" "F_deny (countExcluded r f) = F_deny f"
  "F_allow (countUnresolvedWorkload u f) = F_allow f" "F_deny (countUnresolvedWorkload u f) = F_deny f"
  by (simp_all add: countObserved_def countExcludedProfiling_def countExcluded_def countUnresolvedWorkload_def Let_def
      split: ExclusionReason.splits UnresolvedWorkload.splits)

lemma core_on_filter [simp]:
  "core (on_filter countObserved w) = core w" "core (on_filter countExcludedProfiling w) = core w"
  "core (on_filter (countExcluded r) w) = core w" "core (on_filter (countUnresolvedWorkload u) w) = core w"
  by (simp_all add: core_def on_filter_def)

lemma core_fold_reports:
  assumes "\<And>x w out. core (fst (f x (w, out))) = core w"
  shows "core (fst (fold f xs (w, out))) = core w"
proof (induction xs arbitrary: w out)
  case (Cons x xs)
  then show ?case using assms [of x w out] by (cases "f x (w, out)") simp
qed simp

lemma core_reports [simp]:
  "core (fst (reportPodIfChanged u i w)) = core w"
  "core (fst (reportOOMKills L pod w)) = core w"
  "core (fst (reportRestarts L now pod w)) = core w"
  "core (fst (reportDisruptions L now pod w)) = core w"
  "core (snd (describePod L pod w)) = core w"
  "core (forgetOOMKills pod w) = core w" "core (forgetRestarts pod w) = core w" "core (forgetDisruptions pod w) = core w"
  "core (countTransition was d w) = core w"
  "core (snd (admit L pod b w)) = core w"
  by (simp_all add: reportPodIfChanged_def reportOOMKills_def reportRestarts_def reportDisruptions_def describePod_def
      forgetOOMKills_def forgetRestarts_def forgetDisruptions_def countTransition_def admit_def count_unresolved_def Let_def
      split: option.splits prod.splits)
    (auto simp: report_termination_def report_restart_def Let_def split: option.splits prod.splits intro!: core_fold_reports)

section \<open>The index after a run of events\<close>

definition entry_of :: "listers \<Rightarrow> Pod \<Rightarrow> bool \<Rightarrow> podIndexEntry" where
  "entry_of L pod profile =
     (let info = fst (describe (resolveWorkload L pod) pod) in
      \<lparr>E_namespace = Pod_Namespace pod, E_name = Pod_Name pod, E_node = Pod_NodeName pod, E_workload = resolveWorkload L pod,
       E_containers = containerIndex pod, E_info = info, E_profilable = profile\<rparr>)"

lemma describe_sel:
  "PI_Namespace (fst (describe wl pod)) = Pod_Namespace pod" "PI_Name (fst (describe wl pod)) = Pod_Name pod"
  "PI_Node (fst (describe wl pod)) = Pod_NodeName pod" "PI_Workload (fst (describe wl pod)) = wl"
  by (simp_all add: describe_def Let_def case_prod_beta)

lemma fst_describePod: "fst (describePod L pod w) = fst (describe (resolveWorkload L pod) pod)"
  by (simp add: describePod_def case_prod_beta Let_def)

lemma core_indexPod:
  "core (indexPod pod (fst (describe (resolveWorkload L pod) pod)) profile w) =
     (mput (Pod_UID pod) (entry_of L pod profile) (W_index w),
      mput (name_key (Pod_Namespace pod) (Pod_Name pod)) (Pod_UID pod) (W_nameIndex w), F_allow (W_filter w), F_deny (W_filter w))"
  by (simp add: core_def indexPod_def entry_of_def describe_sel Let_def)

lemma core_eqD:
  "core w = core w' \<Longrightarrow> W_index w = W_index w' \<and> W_nameIndex w = W_nameIndex w' \<and>
     F_allow (W_filter w) = F_allow (W_filter w') \<and> F_deny (W_filter w) = F_deny (W_filter w')"
  by (simp add: core_def)

lemma core_collectPod:
  "core (fst (collectPod L now pod profile w)) =
     (mput (Pod_UID pod) (entry_of L pod profile) (W_index w),
      mput (name_key (Pod_Namespace pod) (Pod_Name pod)) (Pod_UID pod) (W_nameIndex w), F_allow (W_filter w), F_deny (W_filter w))"
proof -
  have "core (snd (describePod L pod w)) = core w" by simp
  from core_eqD [OF this] show ?thesis
    by (simp add: collectPod_def case_prod_beta Let_def fst_describePod core_indexPod)
qed

lemma core_dropPod:
  "core (dropPod uid w) =
     (mdel uid (W_index w),
      (case mget (W_index w) uid of None \<Rightarrow> W_nameIndex w
       | Some e \<Rightarrow> if mget_or [] (W_nameIndex w) (name_key (E_namespace e) (E_name e)) = uid
                   then mdel (name_key (E_namespace e) (E_name e)) (W_nameIndex w) else W_nameIndex w),
      F_allow (W_filter w), F_deny (W_filter w))"
  by (auto simp: dropPod_def core_def Let_def gomap_eq_iff split: option.splits)

text \<open>A decision depends on the lists of the filter, not on what it has counted.\<close>

lemma decide_cong: "F_allow f = F_allow g \<Longrightarrow> F_deny f = F_deny g \<Longrightarrow> decide L f pod = decide L g pod"
  by (simp add: decide_def AdmitPod_def namespaceAllowed_def)

fun event_pod :: "pod_event \<Rightarrow> Pod" where
  "event_pod (PodAdded pod) = pod"
| "event_pod (PodUpdated pod) = pod"
| "event_pod (PodDeleted pod) = pod"

type_synonym seen_event = "listers \<times> time \<times> pod_event"

abbreviation event_of :: "seen_event \<Rightarrow> pod_event" where "event_of e \<equiv> snd (snd e)"

text \<open>
  The events that speak about a pod: every one but the appearance of a pod that is not admitted.
  What the last of them leaves in the index.
\<close>

definition speaks_of :: "Filter \<Rightarrow> string \<Rightarrow> seen_event \<Rightarrow> bool" where
  "speaks_of f uid e \<longleftrightarrow> Pod_UID (event_pod (event_of e)) = uid \<and>
     (case event_of e of PodAdded pod \<Rightarrow> A_collect (decide (fst e) f pod) | _ \<Rightarrow> True)"

definition left_by :: "Filter \<Rightarrow> seen_event \<Rightarrow> podIndexEntry option" where
  "left_by f e =
     (case event_of e of
        PodDeleted _ \<Rightarrow> None
      | ev \<Rightarrow> let d = decide (fst e) f (event_pod ev) in if A_collect d then Some (entry_of (fst e) (event_pod ev) (A_profile d)) else None)"

definition runPods :: "seen_event list \<Rightarrow> PodWatcher \<Rightarrow> PodWatcher" where
  "runPods tr w = fold (\<lambda>e w. fst (handlePod (fst e) (fst (snd e)) (event_of e) w)) tr w"

lemma core_handlePod:
  "core (fst (handlePod L now ev w)) =
     (let pod = event_pod ev; d = decide L (W_filter w) pod in
      case ev of
        PodAdded _ \<Rightarrow> if A_collect d then core (fst (collectPod L now pod (A_profile d) w)) else core w
      | PodUpdated _ \<Rightarrow> if A_collect d then core (fst (collectPod L now pod (A_profile d) w)) else core (dropPod (Pod_UID pod) w)
      | PodDeleted _ \<Rightarrow> core (dropPod (Pod_UID pod) w))"
proof (cases ev)
  case (PodAdded pod)
  have d: "fst (admit L pod True w) = decide L (W_filter w) pod" by (simp add: admit_def Let_def)
  have c: "core (snd (admit L pod True w)) = core w" by simp
  show ?thesis using PodAdded core_eqD [OF c] by (simp add: case_prod_beta d core_collectPod Let_def)
next
  case (PodUpdated pod)
  have "admit L pod False w = (decide L (W_filter w) pod, w)" by (simp add: admit_def Let_def)
  then show ?thesis using PodUpdated by (simp add: case_prod_beta Let_def)
qed simp

lemma runPods_lists: "F_allow (W_filter (runPods tr w)) = F_allow (W_filter w) \<and> F_deny (W_filter (runPods tr w)) = F_deny (W_filter w)"
proof (induction tr arbitrary: w)
  case (Cons e tr)
  have "F_allow (W_filter (fst (handlePod (fst e) (fst (snd e)) (event_of e) w))) = F_allow (W_filter w) \<and>
      F_deny (W_filter (fst (handlePod (fst e) (fst (snd e)) (event_of e) w))) = F_deny (W_filter w)"
    using core_handlePod [of "fst e" "fst (snd e)" "event_of e" w]
    by (auto simp: core_def core_collectPod [unfolded core_def] core_dropPod [unfolded core_def] Let_def split: pod_event.splits if_splits)
  then show ?case using Cons [of "fst (handlePod (fst e) (fst (snd e)) (event_of e) w)"] by (simp add: runPods_def)
qed (simp add: runPods_def)

lemma index_handlePod:
  "mget (W_index (fst (handlePod L now ev w))) uid =
     (if speaks_of (W_filter w) uid (L, now, ev) then left_by (W_filter w) (L, now, ev) else mget (W_index w) uid)"
  using core_handlePod [of L now ev w]
  by (cases ev) (auto simp: core_def core_collectPod [unfolded core_def] core_dropPod [unfolded core_def] speaks_of_def left_by_def Let_def
      split: if_splits)

lemma index_after_run:
  "mget (W_index (runPods tr (NewPodWatcher f cbs))) uid =
     (case List.find (speaks_of f uid) (rev tr) of None \<Rightarrow> None | Some e \<Rightarrow> left_by f e)"
proof (induction tr rule: rev_induct)
  case (snoc e tr)
  let ?w = "runPods tr (NewPodWatcher f cbs)"
  have lists: "F_allow (W_filter ?w) = F_allow f" "F_deny (W_filter ?w) = F_deny f"
    using runPods_lists [of tr "NewPodWatcher f cbs"] by (simp_all add: NewPodWatcher_def)
  have "decide L (W_filter ?w) pod = decide L f pod" for L pod by (rule decide_cong) fact+
  then have "speaks_of (W_filter ?w) uid e = speaks_of f uid e" "left_by (W_filter ?w) e = left_by f e"
    by (simp_all add: speaks_of_def left_by_def split: pod_event.splits)
  then show ?case
    using snoc index_handlePod [of "fst e" "fst (snd e)" "event_of e" ?w uid] by (simp add: runPods_def)
qed (simp add: runPods_def NewPodWatcher_def)

section \<open>A pod to try things on\<close>

text \<open>An entry that the last word on its pod left in the index.\<close>

definition admitted_by :: "Filter \<Rightarrow> seen_event list \<Rightarrow> podIndexEntry \<Rightarrow> bool" where
  "admitted_by f tr entry \<longleftrightarrow> (\<exists>uid e. List.find (speaks_of f uid) (rev tr) = Some e \<and> left_by f e = Some entry)"

lemma indexed_admitted: "mget (W_index (runPods tr (NewPodWatcher f cbs))) uid = Some entry \<Longrightarrow> admitted_by f tr entry"
  unfolding index_after_run admitted_by_def by (auto split: option.splits)

definition no_caches :: listers where
  "no_caches = \<lparr>L_replicaSets = \<lambda>_ _. None, L_jobs = \<lambda>_ _. None, L_deployments = \<lambda>_ _. None, L_statefulSets = \<lambda>_ _. None,
     L_daemonSets = \<lambda>_ _. None, L_cronJobs = \<lambda>_ _. None, L_namespaces = \<lambda>_. None\<rparr>"

definition new_watcher :: PodWatcher where
  "new_watcher = NewPodWatcher (NewFilter [] []) \<lparr>Cb_oom = True, Cb_restart = True, Cb_disruption = True, Cb_job = True\<rparr>"

text \<open>The pod after its container was OOM killed, the restarts it counts then being the argument.\<close>

definition killed_pod :: "int \<Rightarrow> Pod" where
  "killed_pod n = (web_pod plain_container)\<lparr>Pod_Statuses := [\<lparr>Cst_Name = ''app'', Cst_ContainerID = ''containerd://cd34'',
     Cst_ImageID = ''web@sha256:0f'', Cst_RestartCount = n,
     Cst_LastTerminated = Some \<lparr>Term_Reason = ''OOMKilled'', Term_ExitCode = 137, Term_FinishedAt = 7\<rparr>, Cst_Terminated = None,
     Cst_RunningSince = Some 8\<rparr>]\<rparr>"

section \<open>Properties\<close>

text \<open>
  C7. The index is exactly the pods the filter admits. After any run of informer events, a pod is in the
  index precisely when the last event that spoke about it admitted it under the annotations of its
  namespace, its workload and itself as the caches had them then, and its entry is that event's
  description of it. An opted-out or deleted pod has no entry; the appearance of a pod that is not
  admitted leaves the index as it was.
\<close>

theorem index_tracks_admission:
  "mget (W_index (runPods tr (NewPodWatcher f cbs))) uid =
     (case List.find (speaks_of f uid) (rev tr) of None \<Rightarrow> None | Some e \<Rightarrow> left_by f e)"
  by (rule index_after_run)

definition names_ok :: "(string \<Rightarrow> string) \<Rightarrow> PodWatcher \<Rightarrow> bool" where
  "names_ok nm w \<longleftrightarrow> (\<forall>uid e. mget (W_index w) uid = Some e \<longrightarrow> name_key (E_namespace e) (E_name e) = nm uid) \<and>
     (\<forall>k uid. mget (W_nameIndex w) k = Some uid \<longrightarrow> mget (W_index w) uid \<noteq> None \<and> nm uid = k)"

lemma names_ok_handlePod:
  assumes "names_ok nm w" and pod: "name_key (Pod_Namespace (event_pod ev)) (Pod_Name (event_pod ev)) = nm (Pod_UID (event_pod ev))"
  shows "names_ok nm (fst (handlePod L now ev w))"
proof -
  have coll: "names_ok nm v" if "core v = core (fst (collectPod L now (event_pod ev) b w))" for v b
    using that [unfolded core_collectPod] assms by (auto simp: names_ok_def core_def entry_of_def Let_def split: if_splits)
  have drop: "names_ok nm v" if c: "core v = core (dropPod (Pod_UID (event_pod ev)) w)" for v
  proof -
    let ?u = "Pod_UID (event_pod ev)"
    have idx: "W_index v = mdel ?u (W_index w)"
      and nms: "W_nameIndex v = (case mget (W_index w) ?u of None \<Rightarrow> W_nameIndex w
        | Some e \<Rightarrow> if mget_or [] (W_nameIndex w) (nm ?u) = ?u then mdel (nm ?u) (W_nameIndex w) else W_nameIndex w)"
      using c [unfolded core_dropPod] assms(1) by (auto simp: core_def names_ok_def split: option.splits)
    have gone: "mget (W_nameIndex v) k \<noteq> Some ?u" for k
    proof
      assume k: "mget (W_nameIndex v) k = Some ?u"
      then have "mget (W_nameIndex w) k = Some ?u" unfolding nms by (auto split: option.splits if_splits)
      then have "mget (W_index w) ?u \<noteq> None" "nm ?u = k" using assms(1) by (simp_all add: names_ok_def)
      then show False using k \<open>mget (W_nameIndex w) k = Some ?u\<close> unfolding nms by (auto simp: mget_or_def split: if_splits)
    qed
    have old: "mget (W_nameIndex v) k = Some uid \<Longrightarrow> mget (W_nameIndex w) k = Some uid" for k uid
      unfolding nms by (auto split: option.splits if_splits)
    show ?thesis using assms(1) gone old unfolding names_ok_def idx by (auto split: if_splits) metis+
  qed
  have same: "names_ok nm v" if "core v = core w" for v
    using that assms(1) by (simp add: core_def names_ok_def)
  show ?thesis using core_handlePod [of L now ev w] coll drop same by (cases ev) (auto simp: Let_def split: if_splits)
qed

lemma names_ok_runPods:
  "names_ok nm w \<Longrightarrow> (\<forall>e \<in> set tr. name_key (Pod_Namespace (event_pod (event_of e))) (Pod_Name (event_pod (event_of e))) =
     nm (Pod_UID (event_pod (event_of e)))) \<Longrightarrow> names_ok nm (runPods tr w)"
  by (induction tr arbitrary: w) (simp_all add: runPods_def names_ok_handlePod)

text \<open>
  A name leads to the pod that bears it. In a run in which a UID never changes its namespace and
  name, whatever a lookup by name returns is the UID of a pod that is in the index under that very
  name, with the workload a lookup by UID returns: both kubelet sources attribute to the same pod.
\<close>

theorem names_lead_to_their_pods:
  assumes "\<forall>e \<in> set tr. name_key (Pod_Namespace (event_pod (event_of e))) (Pod_Name (event_pod (event_of e))) =
      nm (Pod_UID (event_pod (event_of e)))"
    and "w = runPods tr (NewPodWatcher f cbs)" and "Watcher_LookupPodByName w namespace name = Some (uid, workload)"
  shows "\<exists>ns. Watcher_LookupPod w uid = Some (ns, workload) \<and> nm uid = name_key namespace name \<and>
    (\<exists>e. mget (W_index w) uid = Some e \<and> name_key (E_namespace e) (E_name e) = name_key namespace name)"
proof -
  have "names_ok nm (NewPodWatcher f cbs)" by (simp add: names_ok_def NewPodWatcher_def)
  then have "names_ok nm w" unfolding assms(2) by (rule names_ok_runPods) fact
  then show ?thesis
    using assms(3) by (auto simp: Watcher_LookupPodByName_def Watcher_LookupPod_def names_ok_def split: option.splits)
qed

theorem names_lead_to_their_pods_witness:
  "let w = runPods [(no_caches, 5, PodAdded (web_pod plain_container)), (no_caches, 9, PodUpdated (killed_pod 2))]
       (NewPodWatcher (NewFilter [] []) \<lparr>Cb_oom = True, Cb_restart = True, Cb_disruption = True, Cb_job = True\<rparr>)
   in \<exists>ns. Watcher_LookupPod w ''u1'' = Some (ns, WorkloadRef ''StatefulSet'' ''web'')"
proof -
  let ?tr = "[(no_caches, 5, PodAdded (web_pod plain_container)), (no_caches, 9, PodUpdated (killed_pod 2))]"
  have all: "\<forall>e \<in> set ?tr. name_key (Pod_Namespace (event_pod (event_of e))) (Pod_Name (event_pod (event_of e))) =
      (\<lambda>_. ''shop/web-1'') (Pod_UID (event_pod (event_of e)))"
    by (simp add: web_pod_def killed_pod_def name_key_def)
  have "Watcher_LookupPodByName (runPods ?tr (NewPodWatcher (NewFilter [] []) \<lparr>Cb_oom = True, Cb_restart = True,
      Cb_disruption = True, Cb_job = True\<rparr>)) ''shop'' ''web-1'' = Some (''u1'', WorkloadRef ''StatefulSet'' ''web'')"
    by code_simp
  from names_lead_to_their_pods [OF all refl this] show ?thesis unfolding Let_def by blast
qed

subsection \<open>What the poller measures\<close>

definition resolver_of :: "PodWatcher \<Rightarrow> PodResolver" where
  "resolver_of w = \<lparr>LookupPod = Watcher_LookupPod w, HostNetworkOf = Watcher_HostNetwork w, LookupPodByName = Watcher_LookupPodByName w\<rparr>"

interpretation watcher_resolver: pod_resolver "resolver_of w" for w
  by unfold_locales (auto simp: resolver_of_def Watcher_LookupPodByName_def Watcher_LookupPod_def split: option.splits)


text \<open>The pod of the example opts out in an update, and the kubelet goes on reporting it.\<close>

definition opted_out_pod :: Pod where
  "opted_out_pod = (web_pod plain_container)\<lparr>Pod_Annotations := mput CollectAnnotation ''false'' mempty\<rparr>"

definition busy_node :: nodeReads where
  "busy_node = \<lparr>Nr_node = ''n1'', Nr_summary = Some [\<lparr>Ps_UID = ''u1'', Ps_Containers = [busy_report 10], Ps_Network = None\<rparr>],
     Nr_samples = None\<rparr>"


subsection \<open>Restarts\<close>

text \<open>The restarts a list of emissions reports of one container.\<close>

fun restarts_in :: "string \<Rightarrow> emission \<Rightarrow> int" where
  "restarts_in key (OnRestart r) =
     (if CR_Namespace r @ ''/'' @ CR_Pod r @ ''/'' @ CR_Container r = key then CR_Restarts r else 0)"
| "restarts_in key _ = 0"

definition restarts_of :: "string \<Rightarrow> emission list \<Rightarrow> int" where
  "restarts_of key out = sum_list (map (restarts_in key) out)"

lemma container_key_inj [simp]: "container_key pod c = container_key pod c' \<longleftrightarrow> c = c'"
  by (simp add: container_key_def)

lemma report_restart_sel [simp]: "W_callbacks (fst (report_restart L now pod s st)) = W_callbacks (fst st)"
  by (auto simp: report_restart_def Let_def case_prod_beta split: option.splits prod.splits)

lemma report_restart_other:
  assumes "Cst_Name s \<noteq> c"
  shows "mget (W_restartCounts (fst (report_restart L now pod s st))) (container_key pod c) =
      mget (W_restartCounts (fst st)) (container_key pod c)"
    and "restarts_of (container_key pod c) (snd (report_restart L now pod s st)) = restarts_of (container_key pod c) (snd st)"
proof -
  have "container_key pod (Cst_Name s) \<noteq> container_key pod c" using assms by simp
  then show "mget (W_restartCounts (fst (report_restart L now pod s st))) (container_key pod c) =
      mget (W_restartCounts (fst st)) (container_key pod c)"
    and "restarts_of (container_key pod c) (snd (report_restart L now pod s st)) = restarts_of (container_key pod c) (snd st)"
    by (auto simp: report_restart_def Let_def case_prod_beta restarts_of_def container_key_def split: option.splits)
qed

lemma report_restart_others:
  assumes "\<forall>s \<in> set ss. Cst_Name s \<noteq> c"
  shows "mget (W_restartCounts (fst (fold (report_restart L now pod) ss st))) (container_key pod c) =
      mget (W_restartCounts (fst st)) (container_key pod c) \<and>
    restarts_of (container_key pod c) (snd (fold (report_restart L now pod) ss st)) = restarts_of (container_key pod c) (snd st) \<and>
    W_callbacks (fst (fold (report_restart L now pod) ss st)) = W_callbacks (fst st)"
  using assms by (induction ss arbitrary: st) (simp_all add: report_restart_other)

text \<open>The effect of one poll on the one status of a container.\<close>

lemma report_restart_this:
  assumes "Cb_restart (W_callbacks (fst st))" and "Cst_Name s = c"
  shows "let st' = report_restart L now pod s st; k = container_key pod c; n = Cst_RestartCount s in
    case mget (W_restartCounts (fst st)) k of
      Some b \<Rightarrow> B_last b \<le> n \<longrightarrow> mget (W_restartCounts (fst st')) k = Some (b\<lparr>B_last := n\<rparr>) \<and>
        restarts_of k (snd st') = restarts_of k (snd st) + (n - B_last b)
    | None \<Rightarrow> mget (W_restartCounts (fst st')) k = Some \<lparr>B_last = n, B_atFirstSight = n, B_firstSeen = now\<rparr> \<and>
        restarts_of k (snd st') = restarts_of k (snd st)"
  using assms
  by (auto simp: report_restart_def Let_def case_prod_beta restarts_of_def container_key_def split: option.splits)

definition one_status :: "Pod \<Rightarrow> string \<Rightarrow> int \<Rightarrow> bool" where
  "one_status pod c n \<longleftrightarrow> (\<exists>xs s ys. statuses pod = xs @ s # ys \<and> Cst_Name s = c \<and> Cst_RestartCount s = n \<and>
     (\<forall>t \<in> set (xs @ ys). Cst_Name t \<noteq> c))"

lemma report_restarts_one:
  assumes "one_status pod c n" and "Cb_restart (W_callbacks w)"
  shows "let (w', out) = reportRestarts L now pod w; k = container_key pod c in
    Cb_restart (W_callbacks w') \<and>
    (case mget (W_restartCounts w) k of
      Some b \<Rightarrow> B_last b \<le> n \<longrightarrow> mget (W_restartCounts w') k = Some (b\<lparr>B_last := n\<rparr>) \<and> restarts_of k out = n - B_last b
    | None \<Rightarrow> mget (W_restartCounts w') k = Some \<lparr>B_last = n, B_atFirstSight = n, B_firstSeen = now\<rparr> \<and> restarts_of k out = 0)"
proof -
  obtain xs s ys where st: "statuses pod = xs @ s # ys" "Cst_Name s = c" "Cst_RestartCount s = n"
    and no: "\<forall>t \<in> set xs. Cst_Name t \<noteq> c" "\<forall>t \<in> set ys. Cst_Name t \<noteq> c"
    using assms(1) by (auto simp: one_status_def)
  let ?st1 = "fold (report_restart L now pod) xs (w, [])"
  let ?st2 = "report_restart L now pod s ?st1"
  have one: "restarts_of (container_key pod c) [] = 0" by (simp add: restarts_of_def)
  have cb: "Cb_restart (W_callbacks (fst ?st1))" using report_restart_others [OF no(1)] assms(2) by simp
  have "reportRestarts L now pod w = fold (report_restart L now pod) ys ?st2"
    by (simp add: reportRestarts_def st(1))
  then show ?thesis
    using report_restart_others [OF no(1), of L now pod "(w, [])"] report_restart_others [OF no(2), of L now pod ?st2]
      report_restart_this [OF cb st(2), of L now pod] one st(3) cb
    by (auto simp: Let_def case_prod_beta split: option.splits)
qed

text \<open>A pod watched over several updates.\<close>

fun watch_restarts :: "(listers \<times> time \<times> Pod) list \<Rightarrow> PodWatcher \<Rightarrow> PodWatcher \<times> emission list" where
  "watch_restarts [] w = (w, [])"
| "watch_restarts ((L, now, pod) # us) w =
     (let (w, e) = reportRestarts L now pod w; (w, es) = watch_restarts us w in (w, e @ es))"

lemma watch_restarts_next:
  assumes "list_all2 (\<lambda>u n. Pod_Namespace (snd (snd u)) = ns \<and> Pod_Name (snd (snd u)) = name \<and> one_status (snd (snd u)) c n) us seen"
    and "sorted (B_last b # seen)" and "Cb_restart (W_callbacks w)"
    and "mget (W_restartCounts w) (ns @ ''/'' @ name @ ''/'' @ c) = Some b"
  shows "let (w', out) = watch_restarts us w; k = ns @ ''/'' @ name @ ''/'' @ c in
    mget (W_restartCounts w') k = Some (b\<lparr>B_last := last (B_last b # seen)\<rparr>) \<and>
    restarts_of k out = last (B_last b # seen) - B_last b"
  using assms
proof (induction us arbitrary: seen b w)
  case Nil
  then show ?case by (simp add: restarts_of_def)
next
  case (Cons u us)
  obtain L now pod where u: "u = (L, now, pod)" by (metis prod_cases3)
  obtain n rest where seen: "seen = n # rest" using Cons.prems(1) by (cases seen) auto
  let ?k = "ns @ ''/'' @ name @ ''/'' @ c"
  have k: "container_key pod c = ?k" and one: "one_status pod c n"
    using Cons.prems(1) u seen by (simp_all add: container_key_def)
  obtain w1 e1 where r: "reportRestarts L now pod w = (w1, e1)" by force
  have step: "Cb_restart (W_callbacks w1)" "mget (W_restartCounts w1) ?k = Some (b\<lparr>B_last := n\<rparr>)" "restarts_of ?k e1 = n - B_last b"
    using report_restarts_one [OF one Cons.prems(3), of L now] r Cons.prems(2,4) seen k by (auto simp: Let_def)
  have "list_all2 (\<lambda>u n. Pod_Namespace (snd (snd u)) = ns \<and> Pod_Name (snd (snd u)) = name \<and> one_status (snd (snd u)) c n) us rest"
    "sorted (B_last (b\<lparr>B_last := n\<rparr>) # rest)" using Cons.prems(1,2) seen by auto
  from Cons.IH [OF this step(1,2)] show ?case
    using u r step(3) seen by (auto simp: Let_def case_prod_beta restarts_of_def)
qed

text \<open>
  The counter payload and the windows of restarts tell one story. While a container is watched and
  its restart counter does not fall, the restarts reported to the windows add up to the difference
  between its current counter and the counter at first sight, and these two are what
  \<open>restart_counters\<close> ships: what stood before the first sight is never reported as a restart, and
  nothing after it is missed.
\<close>

theorem restarts_reported_since_first_sight:
  assumes "list_all2 (\<lambda>u n. Pod_Namespace (snd (snd u)) = ns \<and> Pod_Name (snd (snd u)) = name \<and> one_status (snd (snd u)) c n) us seen"
    and "seen \<noteq> []" and "sorted seen" and "Cb_restart (W_callbacks w)"
    and "mget (W_restartCounts w) (ns @ ''/'' @ name @ ''/'' @ c) = None"
    and "watch_restarts us w = (w', out)"
  shows "\<exists>b. mget (W_restartCounts w') (ns @ ''/'' @ name @ ''/'' @ c) = Some b \<and>
    B_last b = last seen \<and> B_atFirstSight b = hd seen \<and>
    restarts_of (ns @ ''/'' @ name @ ''/'' @ c) out = B_last b - B_atFirstSight b"
proof -
  let ?k = "ns @ ''/'' @ name @ ''/'' @ c"
  obtain n rest where seen: "seen = n # rest" using assms(2) by (cases seen) auto
  then obtain L now pod us' where us: "us = (L, now, pod) # us'" using assms(1) by (cases us) auto
  have k: "container_key pod c = ?k" and one: "one_status pod c n"
    using assms(1) us seen by (simp_all add: container_key_def)
  obtain w1 e1 where r: "reportRestarts L now pod w = (w1, e1)" by force
  let ?b = "\<lparr>B_last = n, B_atFirstSight = n, B_firstSeen = now\<rparr>"
  have step: "Cb_restart (W_callbacks w1)" "mget (W_restartCounts w1) ?k = Some ?b" "restarts_of ?k e1 = 0"
    using report_restarts_one [OF one assms(4), of L now] r assms(5) k by (auto simp: Let_def)
  have "list_all2 (\<lambda>u n. Pod_Namespace (snd (snd u)) = ns \<and> Pod_Name (snd (snd u)) = name \<and> one_status (snd (snd u)) c n) us' rest"
    "sorted (B_last ?b # rest)" using assms(1,3) us seen by auto
  from watch_restarts_next [OF this step(1,2)] show ?thesis
    using assms(6) us r step(3) seen by (auto simp: Let_def case_prod_beta restarts_of_def)
qed

theorem restarts_reported_since_first_sight_witness:
  "let (w, out) = watch_restarts [(no_caches, 5, killed_pod 1), (no_caches, 9, killed_pod 2), (no_caches, 12, killed_pod 4)] new_watcher
   in restarts_of ''shop/web-1/app'' out = 3"
proof -
  let ?us = "[(no_caches, 5, killed_pod 1), (no_caches, 9, killed_pod 2), (no_caches, 12, killed_pod 4)]"
  obtain w out where r: "watch_restarts ?us new_watcher = (w, out)" by force
  have one: "one_status (killed_pod n) ''app'' n" for n
    unfolding one_status_def by (rule exI [of _ "[]"], rule exI [of _ "hd (statuses (killed_pod n))"], rule exI [of _ "[]"])
      (simp add: statuses_def killed_pod_def web_pod_def)
  have "list_all2 (\<lambda>u n. Pod_Namespace (snd (snd u)) = ''shop'' \<and> Pod_Name (snd (snd u)) = ''web-1'' \<and>
      one_status (snd (snd u)) ''app'' n) ?us [1, 2, 4]"
    using one by (simp add: killed_pod_def web_pod_def)
  from restarts_reported_since_first_sight [OF this _ _ _ _ r] show ?thesis
    unfolding r by (auto simp: new_watcher_def NewPodWatcher_def)
qed

subsection \<open>OOM kills\<close>

fun oom_id :: "emission \<Rightarrow> (string \<times> time) option" where
  "oom_id (OnOOM k) = Some (OOM_Namespace k @ ''/'' @ OOM_Pod k @ ''/'' @ OOM_Container k, OOM_FinishedAt k)"
| "oom_id _ = None"

definition oom_ids :: "emission list \<Rightarrow> (string \<times> time) list" where
  "oom_ids out = List.map_filter oom_id out"

text \<open>The OOM kills a pod's statuses show.\<close>

definition kills_shown :: "Pod \<Rightarrow> (string \<times> time) list" where
  "kills_shown pod = map (\<lambda>(st, trm). oomKey pod (Cst_Name st) trm)
     (filter (\<lambda>(st, trm). Term_Reason trm = oomKilledReason) (terminations pod))"

fun watch_ooms :: "(listers \<times> Pod) list \<Rightarrow> PodWatcher \<Rightarrow> PodWatcher \<times> emission list" where
  "watch_ooms [] w = (w, [])"
| "watch_ooms ((L, pod) # us) w =
     (let (w, e) = reportOOMKills L pod w; (w, es) = watch_ooms us w in (w, e @ es))"

lemma oom_ids_append [simp]: "oom_ids (a @ b) = oom_ids a @ oom_ids b" "oom_ids [] = []"
  by (simp_all add: oom_ids_def List.map_filter_def)

lemma oom_ids_kill: "oom_ids [OnOOM (oom_kill L pod st trm)] = [oomKey pod (Cst_Name st) trm]"
  by (simp add: oom_ids_def List.map_filter_simps oom_kill_def oomKey_def container_key_def)

lemma report_termination_fold:
  "fold (report_termination L pod) ts (w, out) = (w', out') \<Longrightarrow>
   distinct (oom_ids out) \<and> (\<forall>k \<in> set (oom_ids out). mget (W_reportedOOMs w) k \<noteq> None) \<Longrightarrow>
   let shown = map (\<lambda>(st, trm). oomKey pod (Cst_Name st) trm) (filter (\<lambda>(st, trm). Term_Reason trm = oomKilledReason) ts) in
   distinct (oom_ids out') \<and> W_callbacks w' = W_callbacks w \<and>
   (\<forall>k. mget (W_reportedOOMs w') k \<noteq> None \<longleftrightarrow> mget (W_reportedOOMs w) k \<noteq> None \<or> k \<in> set shown) \<and>
   (\<forall>k. k \<in> set (oom_ids out') \<longleftrightarrow> k \<in> set (oom_ids out) \<or> k \<in> set shown \<and> mget (W_reportedOOMs w) k = None)"
proof (induction ts arbitrary: w out)
  case (Cons t ts)
  obtain st trm where t: "t = (st, trm)" by force
  let ?k = "oomKey pod (Cst_Name st) trm"
  show ?case
  proof (cases "Term_Reason trm = oomKilledReason \<and> mget (W_reportedOOMs w) ?k = None")
    case True
    let ?w = "w\<lparr>W_reportedOOMs := mput ?k () (W_reportedOOMs w)\<rparr>" and ?out = "out @ [OnOOM (oom_kill L pod st trm)]"
    have step: "report_termination L pod t (w, out) = (?w, ?out)" using True t by (simp add: report_termination_def Let_def)
    have fresh: "?k \<notin> set (oom_ids out)" using Cons.prems(2) True by auto
    have "fold (report_termination L pod) ts (?w, ?out) = (w', out')" using Cons.prems(1) step by simp
    from Cons.IH [OF this] show ?thesis
      using Cons.prems(2) fresh True t by (auto simp: oom_ids_kill Let_def split: if_splits)
  next
    case False
    then have "report_termination L pod t (w, out) = (w, out)" using t by (auto simp: report_termination_def Let_def)
    then have "fold (report_termination L pod) ts (w, out) = (w', out')" using Cons.prems(1) by simp
    from Cons.IH [OF this Cons.prems(2)] show ?thesis using False t by (auto simp: Let_def)
  qed
qed simp

lemma reportOOMKills_once:
  assumes "Cb_oom (W_callbacks w)" and "reportOOMKills L pod w = (w', out)"
  shows "distinct (oom_ids out)" and "W_callbacks w' = W_callbacks w"
    and "mget (W_reportedOOMs w') k \<noteq> None \<longleftrightarrow> mget (W_reportedOOMs w) k \<noteq> None \<or> k \<in> set (kills_shown pod)"
    and "k \<in> set (oom_ids out) \<longleftrightarrow> k \<in> set (kills_shown pod) \<and> mget (W_reportedOOMs w) k = None"
proof -
  have run: "fold (report_termination L pod) (terminations pod) (w, []) = (w', out)" using assms by (simp add: reportOOMKills_def)
  note all = report_termination_fold [OF run, unfolded Let_def kills_shown_def [symmetric] oom_ids_append, simplified]
  show "distinct (oom_ids out)" "W_callbacks w' = W_callbacks w" using all by blast+
  show "mget (W_reportedOOMs w') k \<noteq> None \<longleftrightarrow> mget (W_reportedOOMs w) k \<noteq> None \<or> k \<in> set (kills_shown pod)"
    "k \<in> set (oom_ids out) \<longleftrightarrow> k \<in> set (kills_shown pod) \<and> mget (W_reportedOOMs w) k = None"
    using all by (cases k, simp)+
qed

text \<open>
  An OOM kill is reported exactly once while its pod exists: over any sequence of status updates, in
  which a kill moves from the current to the last state of its container and is shown again and
  again, the reported kills are pairwise different and are exactly those shown that had not been
  reported before.
\<close>

theorem oom_kills_reported_once:
  assumes "Cb_oom (W_callbacks w)" and "watch_ooms us w = (w', out)"
  shows "distinct (oom_ids out) \<and>
    (\<forall>k. k \<in> set (oom_ids out) \<longleftrightarrow> (\<exists>u \<in> set us. k \<in> set (kills_shown (snd u))) \<and> mget (W_reportedOOMs w) k = None)"
  using assms
proof (induction us arbitrary: w out)
  case (Cons u us)
  obtain L pod where u: "u = (L, pod)" by force
  obtain w1 e1 where r: "reportOOMKills L pod w = (w1, e1)" by force
  obtain es where es: "watch_ooms us w1 = (w', es)" "out = e1 @ es"
    using Cons.prems(2) u r by (auto split: prod.splits)
  note once = reportOOMKills_once [OF Cons.prems(1) r]
  have "Cb_oom (W_callbacks w1)" using once(2) Cons.prems(1) by simp
  from Cons.IH [OF this es(1)]
  have ih: "distinct (oom_ids es)"
    "k \<in> set (oom_ids es) \<longleftrightarrow> (\<exists>u \<in> set us. k \<in> set (kills_shown (snd u))) \<and> mget (W_reportedOOMs w1) k = None" for k
    by blast+
  have "k \<notin> set (oom_ids e1)" if "k \<in> set (oom_ids es)" for k
    using that ih(2) [of k] once(3,4) [of k] by blast
  then have "distinct (oom_ids out)" using once(1) ih(1) es(2) by auto
  moreover have "k \<in> set (oom_ids out) \<longleftrightarrow> (\<exists>v \<in> set (u # us). k \<in> set (kills_shown (snd v))) \<and> mget (W_reportedOOMs w) k = None" for k
    unfolding es(2) u oom_ids_append set_append list.set Un_iff bex_simps(5) snd_conv ih(2) [of k] once(4) [of k]
    using once(3) [of k] by blast
  ultimately show ?case by blast
qed simp

theorem oom_kills_reported_once_witness:
  "let (w, out) = watch_ooms [(no_caches, killed_pod 1), (no_caches, killed_pod 1), (no_caches, killed_pod 2)] new_watcher
   in distinct (oom_ids out) \<and> (''shop/web-1/app'', 7) \<in> set (oom_ids out)"
proof -
  let ?us = "[(no_caches, killed_pod 1), (no_caches, killed_pod 1), (no_caches, killed_pod 2)]"
  obtain w out where r: "watch_ooms ?us new_watcher = (w, out)" by force
  have "(''shop/web-1/app'', 7) \<in> set (kills_shown (killed_pod 1))"
    by (simp add: kills_shown_def terminations_def statuses_def killed_pod_def web_pod_def oomKey_def container_key_def
        oomKilledReason_def List.map_filter_simps)
  then show ?thesis using oom_kills_reported_once [OF _ r] unfolding r by (auto simp: new_watcher_def NewPodWatcher_def)
qed

subsection \<open>Finished Jobs\<close>

lemma handleJob_again:
  assumes "Cb_job (W_callbacks w)" and "jobOutcomeOf now job \<noteq> None" and "fst (admitJob L job True w)"
    and "handleJob L now (JobSeen job) w = (w', e)"
  shows "JobsObserved (F_counts (W_filter w')) = add64 (JobsObserved (F_counts (W_filter w))) 1"
    and "Cb_job (W_callbacks w')" and "fst (admitJob L job True w')" and "mget (W_reportedJobs w') (Job_UID job) \<noteq> None"
    and "length e = (if mget (W_reportedJobs w) (Job_UID job) = None then 1 else 0)"
proof -
  define w1 where "w1 = snd (admitJob L job True w)"
  have adm: "admitJob L job True w = (True, w1)" using assms(3) by (cases "admitJob L job True w") (simp add: w1_def)
  have c: "JobsObserved (F_counts (W_filter w1)) = add64 (JobsObserved (F_counts (W_filter w))) 1"
    "W_reportedJobs w1 = W_reportedJobs w" "W_callbacks w1 = W_callbacks w"
    "F_allow (W_filter w1) = F_allow (W_filter w)" "F_deny (W_filter w1) = F_deny (W_filter w)"
    using adm by (auto simp: admitJob_def Let_def count_unresolved_def on_filter_def countJobObserved_def countUnresolvedWorkload_def
        split: option.splits UnresolvedWorkload.splits)
  have w': "W_filter w' = W_filter w1" "W_callbacks w' = W_callbacks w1" "mget (W_reportedJobs w') (Job_UID job) \<noteq> None"
    "length e = (if mget (W_reportedJobs w) (Job_UID job) = None then 1 else 0)"
    using assms(1,2,4) adm c(2) by (auto simp: reportJobRun_def Let_def split: option.splits if_splits)
  show "JobsObserved (F_counts (W_filter w')) = add64 (JobsObserved (F_counts (W_filter w))) 1" "Cb_job (W_callbacks w')"
    "mget (W_reportedJobs w') (Job_UID job) \<noteq> None" "length e = (if mget (W_reportedJobs w) (Job_UID job) = None then 1 else 0)"
    using c w' assms(1) by simp_all
  have same: "AdmitJob (W_filter w') = AdmitJob (W_filter w)"
    using c(4,5) w'(1) by (intro ext) (simp add: AdmitJob_def namespaceAllowed_def)
  show "fst (admitJob L job True w')"
    using assms(3) unfolding admitJob_def Let_def same by simp
qed

text \<open>
  A finished Job is reported once, however many updates it receives, but every one of these updates
  counts it again: the admission is counted before the report is deduplicated, so \<open>jobs_observed\<close>
  grows by the number of updates and not by one.
\<close>

theorem finished_job_counted_per_update:
  assumes "Cb_job (W_callbacks w)" and "jobOutcomeOf now job \<noteq> None" and "fst (admitJob L job True w)"
    and "mget (W_reportedJobs w) (Job_UID job) = None"
  shows "let handle = (\<lambda>st. let (w', e) = handleJob L now (JobSeen job) (fst st) in (w', snd st @ e));
             st = (handle ^^ Suc n) (w, []) in
    length (snd st) = 1 \<and>
    JobsObserved (F_counts (W_filter (fst st))) = wrap64 (JobsObserved (F_counts (W_filter w)) + int (Suc n))"
proof -
  define handle where "handle = (\<lambda>st. let (w', e) = handleJob L now (JobSeen job) (fst st) in (w', snd st @ e))"
  have "let st = (handle ^^ Suc n) (w, []) in
    length (snd st) = 1 \<and> Cb_job (W_callbacks (fst st)) \<and> fst (admitJob L job True (fst st)) \<and>
    mget (W_reportedJobs (fst st)) (Job_UID job) \<noteq> None \<and>
    JobsObserved (F_counts (W_filter (fst st))) = wrap64 (JobsObserved (F_counts (W_filter w)) + int (Suc n))"
  proof (induction n)
    case 0
    obtain w' e where r: "handleJob L now (JobSeen job) w = (w', e)" by force
    then show ?case
      using handleJob_again [OF assms(1-3) r] assms(4) by (simp add: handle_def Let_def add64_def)
  next
    case (Suc n)
    let ?st = "(handle ^^ Suc n) (w, [])"
    obtain w' e where r: "handleJob L now (JobSeen job) (fst ?st) = (w', e)" by force
    have hyp: "Cb_job (W_callbacks (fst ?st))" "fst (admitJob L job True (fst ?st))" using Suc by (simp_all add: Let_def)
    have "handle ?st = (w', snd ?st @ e)" using r by (simp add: handle_def)
    then show ?case
      using handleJob_again [OF hyp(1) assms(2) hyp(2) r] Suc by (simp add: Let_def add64_def int64_simps algebra_simps)
  qed
  then show ?thesis unfolding handle_def [symmetric] by (simp add: Let_def)
qed

definition done_job :: Job where
  "done_job = \<lparr>Job_UID = ''j1'', Job_Namespace = ''shop'', Job_Name = ''nightly'', Job_Annotations = mempty,
     Job_TemplateAnnotations = mempty, Job_Controller = None, Job_Parallelism = Some 1, Job_Completions = Some 1,
     Job_BackoffLimit = None, Job_StartTime = Some 3, Job_CompletionTime = Some 6, Job_Succeeded = 1, Job_Failed = 0,
     Job_Conditions = [\<lparr>JC_Type = ''Complete'', JC_Status = ''True'', JC_Reason = [], JC_LastTransition = 6\<rparr>]\<rparr>"

theorem finished_job_counted_per_update_witness:
  "let handle = (\<lambda>st. let (w', e) = handleJob no_caches 9 (JobSeen done_job) (fst st) in (w', snd st @ e));
       st = (handle ^^ Suc 2) (new_watcher, []) in
   length (snd st) = 1 \<and> JobsObserved (F_counts (W_filter (fst st))) = 3"
proof -
  have "jobOutcomeOf 9 done_job \<noteq> None" "fst (admitJob no_caches done_job True new_watcher)" by code_simp+
  from finished_job_counted_per_update [OF _ this, of 2] show ?thesis
    by (simp add: new_watcher_def NewPodWatcher_def NewFilter_def zeroCoverage_def Let_def wrap64_def)
qed

end
