(* ===== verification/Inventory.thy ===== *)
theory Inventory
  imports NodeScan PodWatcher SpoolWriters
begin

text \<open>
  The join of the nodes' reports with the controller's pods, \<open>internal/inventory/store.go\<close>: one record per
  container of a workload, the facts of each build, and the measurements of the processes (peaks, ports
  and counters), which are kept per reporting node.

  The mutex makes every method atomic, so a history of the store is a sequence of its operations. The
  resolver of \<open>Ingest\<close> is a function argument; the controller passes the pod watcher's lookup
  restricted to the reporting node, \<open>podContainerResolver\<close> of \<open>cmd/agent/main.go\<close>. The instant a report is
  ingested at is an argument too, the clock of the code.
\<close>

section \<open>Records\<close>

text \<open>A key is namespace, workload kind, workload name and container, ordered as \<open>lessKey\<close> does.\<close>

type_synonym InvKey = "string \<times> string \<times> string \<times> string"
type_synonym BuildKey = "InvKey \<times> string"

record GoRecord =
  Go_Key :: InvKey
  Go_GoVersion :: string
  Go_ModulePath :: string
  Go_ImageDigest :: string
  Go_PGO :: bool
  Go_AssertedAt :: time

record nodePeaks =
  np_peakRSSBytes :: int
  np_processes :: int
  np_cpusMin :: int
  np_cpusMax :: int
  np_footprint :: Footprint
  np_filesLimitMin :: int

record PeakRecord =
  Pk_Key :: BuildKey
  Pk_PeakRSSBytes :: int
  Pk_Processes :: int
  Pk_CPUsAllowedMin :: int
  Pk_CPUsAllowedMax :: int
  Pk_RSSAnonBytesMax :: int
  Pk_RSSFileBytesMax :: int
  Pk_PSSBytesMax :: int
  Pk_PrivateDirtyBytesMax :: int
  Pk_AssertedAt :: time
  Pk_ThreadsMax :: int
  Pk_OpenFilesMax :: int
  Pk_OpenFilesLimitMin :: int

record nodeCounters =
  nc_processes :: int
  nc_delta :: CounterDelta

record ProcCounterRecord =
  Pc_Key :: BuildKey
  Pc_Processes :: int
  Pc_Delta :: CounterDelta
  Pc_AssertedAt :: time

record Port =
  Port_Port :: int
  Port_Loopback :: bool
  Port_Pprof :: string

record PortRecord =
  Pt_Key :: BuildKey
  Pt_Ports :: "Port list"
  Pt_AssertedAt :: time

record Resolved =
  Rs_Namespace :: string
  Rs_WorkloadKind :: string
  Rs_WorkloadName :: string
  Rs_Container :: string
  Rs_ImageDigest :: string

definition resolved_key :: "Resolved \<Rightarrow> InvKey" where
  "resolved_key res = (Rs_Namespace res, Rs_WorkloadKind res, Rs_WorkloadName res, Rs_Container res)"

type_synonym 'c contributions = "(BuildKey, (string, 'c) gomap) gomap"

record Store =
  St_records :: "(InvKey, GoRecord) gomap"
  St_builds :: "(string, Module BuildFacts) gomap"
  St_written :: "(string, unit) gomap"
  St_peaks :: "nodePeaks contributions"
  St_ports :: "ListeningPort list contributions"
  St_counters :: "nodeCounters contributions"
  St_scans :: "(string, ScanCounters) gomap"
  St_profiling :: "(string, ProfilingCoverage) gomap"
  St_nodesReported :: "(string, time) gomap"
  St_since :: time
  St_factsReceived :: int
  St_factsJoined :: int
  St_factsUnjoined :: int
  St_factsUndigested :: int

definition NewStore :: "time \<Rightarrow> Store" where
  "NewStore since =
     \<lparr>St_records = mempty, St_builds = mempty, St_written = mempty, St_peaks = mempty, St_ports = mempty, St_counters = mempty,
      St_scans = mempty, St_profiling = mempty, St_nodesReported = mempty, St_since = since, St_factsReceived = 0,
      St_factsJoined = 0, St_factsUnjoined = 0, St_factsUndigested = 0\<rparr>"

section \<open>Contributions\<close>

text \<open>
  \<open>ingestPeaks\<close>, \<open>ingestPorts\<close> and \<open>ingestCounters\<close> have one shape: the first binary of a key in a report
  starts the node's contribution over, the others are folded into it.
\<close>

definition ingest_contribution ::
    "'c \<Rightarrow> ('c \<Rightarrow> 'c) \<Rightarrow> BuildKey \<Rightarrow> string \<Rightarrow> 'c contributions \<times> (BuildKey, unit) gomap \<Rightarrow> 'c contributions \<times> (BuildKey, unit) gomap" where
  "ingest_contribution zero add pk node ms =
     (let m = fst ms; seen = snd ms;
          byNode = mget_or mempty m pk;
          n = (if mget seen pk \<noteq> None then mget_or zero byNode node else zero)
      in (mput pk (mput node (add n) byNode) m, mput pk () seen))"

definition zeroFootprint :: Footprint where
  "zeroFootprint = \<lparr>Fp_RSSAnonBytes = 0, Fp_RSSFileBytes = 0, Fp_PSSBytes = 0, Fp_PrivateDirtyBytes = 0, Fp_Threads = 0,
     Fp_OpenFiles = 0, Fp_OpenFilesLimit = 0\<rparr>"

definition zeroPeaks :: nodePeaks where
  "zeroPeaks = \<lparr>np_peakRSSBytes = 0, np_processes = 0, np_cpusMin = 0, np_cpusMax = 0, np_footprint = zeroFootprint, np_filesLimitMin = 0\<rparr>"

definition add_peaks :: "BinaryInfo \<Rightarrow> nodePeaks \<Rightarrow> nodePeaks" where
  "add_peaks b n =
     (let c = Bin_CPUsAllowed b; f = Bin_Footprint b; g = np_footprint n; l = Fp_OpenFilesLimit f in
      \<lparr>np_peakRSSBytes = max (np_peakRSSBytes n) (Bin_PeakRSSBytes b),
       np_processes = np_processes n + 1,
       np_cpusMin = (if c > 0 \<and> (np_cpusMin n = 0 \<or> c < np_cpusMin n) then c else np_cpusMin n),
       np_cpusMax = (if c > 0 then max (np_cpusMax n) c else np_cpusMax n),
       np_footprint = \<lparr>Fp_RSSAnonBytes = max (Fp_RSSAnonBytes g) (Fp_RSSAnonBytes f),
         Fp_RSSFileBytes = max (Fp_RSSFileBytes g) (Fp_RSSFileBytes f), Fp_PSSBytes = max (Fp_PSSBytes g) (Fp_PSSBytes f),
         Fp_PrivateDirtyBytes = max (Fp_PrivateDirtyBytes g) (Fp_PrivateDirtyBytes f), Fp_Threads = max (Fp_Threads g) (Fp_Threads f),
         Fp_OpenFiles = max (Fp_OpenFiles g) (Fp_OpenFiles f), Fp_OpenFilesLimit = Fp_OpenFilesLimit g\<rparr>,
       np_filesLimitMin = (if l > 0 \<and> (np_filesLimitMin n = 0 \<or> l < np_filesLimitMin n) then l else np_filesLimitMin n)\<rparr>)"

definition has_peaks :: "BinaryInfo \<Rightarrow> bool" where
  "has_peaks b \<longleftrightarrow> \<not> (Bin_PeakRSSBytes b = 0 \<and> Bin_CPUsAllowed b = 0 \<and> Bin_Footprint b = zeroFootprint)"

definition ingestPeaks ::
    "BinaryInfo \<Rightarrow> InvKey \<Rightarrow> string \<Rightarrow> string \<Rightarrow> nodePeaks contributions \<times> (BuildKey, unit) gomap \<Rightarrow> nodePeaks contributions \<times> (BuildKey, unit) gomap" where
  "ingestPeaks b key digest node ms =
     (if \<not> has_peaks b then ms else ingest_contribution zeroPeaks (add_peaks b) (key, digest) node ms)"

definition ingestPorts ::
    "BinaryInfo \<Rightarrow> InvKey \<Rightarrow> string \<Rightarrow> string \<Rightarrow> ListeningPort list contributions \<times> (BuildKey, unit) gomap \<Rightarrow> ListeningPort list contributions \<times> (BuildKey, unit) gomap" where
  "ingestPorts b key digest node ms =
     (if Bin_ListeningPorts b = [] then ms
      else ingest_contribution [] (\<lambda>acc. MergeListeningPorts [acc, Bin_ListeningPorts b]) (key, digest) node ms)"

definition zeroDelta :: CounterDelta where
  "zeroDelta = \<lparr>CD_ObservedNanos = 0, CD_OnCPUNanos = 0, CD_RunDelayNanos = 0, CD_CPUUserNanos = 0, CD_CPUSystemNanos = 0,
     CD_MajorFaults = 0, CD_VoluntarySwitches = 0, CD_NonvoluntarySwitches = 0, CD_ReadBytes = 0, CD_WriteBytes = 0\<rparr>"

definition plus_delta :: "CounterDelta \<Rightarrow> CounterDelta \<Rightarrow> CounterDelta" where
  "plus_delta n d =
     \<lparr>CD_ObservedNanos = add64 (CD_ObservedNanos n) (CD_ObservedNanos d), CD_OnCPUNanos = add64 (CD_OnCPUNanos n) (CD_OnCPUNanos d),
      CD_RunDelayNanos = add64 (CD_RunDelayNanos n) (CD_RunDelayNanos d), CD_CPUUserNanos = add64 (CD_CPUUserNanos n) (CD_CPUUserNanos d),
      CD_CPUSystemNanos = add64 (CD_CPUSystemNanos n) (CD_CPUSystemNanos d), CD_MajorFaults = add64 (CD_MajorFaults n) (CD_MajorFaults d),
      CD_VoluntarySwitches = add64 (CD_VoluntarySwitches n) (CD_VoluntarySwitches d),
      CD_NonvoluntarySwitches = add64 (CD_NonvoluntarySwitches n) (CD_NonvoluntarySwitches d),
      CD_ReadBytes = add64 (CD_ReadBytes n) (CD_ReadBytes d), CD_WriteBytes = add64 (CD_WriteBytes n) (CD_WriteBytes d)\<rparr>"

definition zeroCounters :: nodeCounters where "zeroCounters = \<lparr>nc_processes = 0, nc_delta = zeroDelta\<rparr>"

definition add_counters :: "CounterDelta \<Rightarrow> nodeCounters \<Rightarrow> nodeCounters" where
  "add_counters d n = \<lparr>nc_processes = nc_processes n + 1, nc_delta = plus_delta (nc_delta n) d\<rparr>"

definition ingestCounters ::
    "BinaryInfo \<Rightarrow> InvKey \<Rightarrow> string \<Rightarrow> string \<Rightarrow> nodeCounters contributions \<times> (BuildKey, unit) gomap \<Rightarrow> nodeCounters contributions \<times> (BuildKey, unit) gomap" where
  "ingestCounters b key digest node ms =
     (case Bin_Counters b of
        None \<Rightarrow> ms
      | Some d \<Rightarrow> ingest_contribution zeroCounters (add_counters d) (key, digest) node ms)"

text \<open>A loop over a map of contributions that shortens or deletes each of its entries.\<close>

definition prune :: "('k::linorder \<Rightarrow> 'b \<Rightarrow> 'b option) \<Rightarrow> ('k, 'b) gomap \<Rightarrow> ('k, 'b) gomap" where
  "prune keep m =
     fold (\<lambda>e out. case keep (fst e) (snd e) of None \<Rightarrow> out | Some byNode \<Rightarrow> mput (fst e) byNode out) (entries m) mempty"

definition nonempty :: "(string, 'c) gomap \<Rightarrow> (string, 'c) gomap option" where
  "nonempty byNode = (if mlen byNode = 0 then None else Some byNode)"

text \<open>\<open>forgetUnreported\<close>, \<open>forgetUnreportedPorts\<close> and \<open>forgetUnreportedCounters\<close>.\<close>

definition forgetUnreported :: "string \<Rightarrow> (BuildKey, unit) gomap \<Rightarrow> 'c contributions \<Rightarrow> 'c contributions" where
  "forgetUnreported node seen m =
     prune (\<lambda>pk byNode. if mget seen pk \<noteq> None then Some byNode else nonempty (mdel node byNode)) m"

section \<open>Ingest\<close>

definition compareModules_less :: "Module \<Rightarrow> Module \<Rightarrow> bool" where
  "compareModules_less a b = (if Mod_Path a \<noteq> Mod_Path b then Mod_Path a < Mod_Path b else Mod_Version a < Mod_Version b)"

definition ingestBuild :: "BinaryInfo \<Rightarrow> string \<Rightarrow> Store \<Rightarrow> Store" where
  "ingestBuild b digest s =
     (if digest = [] then s\<lparr>St_factsUndigested := St_factsUndigested s + 1\<rparr>
      else if mget (St_builds s) digest \<noteq> None then s
      else
        let modules = remdups_adj (sort_slice compareModules_less (Bin_Dependencies b)) in
        s\<lparr>St_builds := mput digest
            \<lparr>BF_ImageDigest = digest, BF_GoVersion = Bin_GoVersion b, BF_MainModule = Bin_MainModule b,
             BF_Modules = (if Bin_Dependencies b = [] then None else Some modules),
             BF_Settings = Bin_Settings b, BF_GoDebug = Bin_GoDebug b, BF_HasPprof = Bin_HasPprof b\<rparr> (St_builds s)\<rparr>)"

record seen_keys =
  seenPeaks :: "(BuildKey, unit) gomap"
  seenPorts :: "(BuildKey, unit) gomap"
  seenCounters :: "(BuildKey, unit) gomap"

type_synonym resolver = "string \<Rightarrow> string \<Rightarrow> Resolved option"

definition ingest_binary ::
    "resolver \<Rightarrow> time \<Rightarrow> string \<Rightarrow> BinaryInfo \<Rightarrow> Store \<times> seen_keys \<Rightarrow> Store \<times> seen_keys" where
  "ingest_binary resolve at node b ss =
     (let s = fst ss; k = snd ss; s = s\<lparr>St_factsReceived := St_factsReceived s + 1\<rparr> in
      case resolve (Bin_PodUID b) (Bin_ContainerID b) of
        None \<Rightarrow> (s\<lparr>St_factsUnjoined := St_factsUnjoined s + 1\<rparr>, k)
      | Some res \<Rightarrow>
          let s = s\<lparr>St_factsJoined := St_factsJoined s + 1\<rparr>;
              key = resolved_key res;
              s = s\<lparr>St_records := mput key
                     \<lparr>Go_Key = key, Go_GoVersion = Bin_GoVersion b, Go_ModulePath = Bin_MainModule b,
                      Go_ImageDigest = Rs_ImageDigest res, Go_PGO = Bin_PGO b, Go_AssertedAt = at\<rparr> (St_records s)\<rparr>;
              s = ingestBuild b (Rs_ImageDigest res) s;
              peaks = ingestPeaks b key (Rs_ImageDigest res) node (St_peaks s, seenPeaks k);
              ports = ingestPorts b key (Rs_ImageDigest res) node (St_ports s, seenPorts k);
              counters = ingestCounters b key (Rs_ImageDigest res) node (St_counters s, seenCounters k)
          in (s\<lparr>St_peaks := fst peaks, St_ports := fst ports, St_counters := fst counters\<rparr>,
              \<lparr>seenPeaks = snd peaks, seenPorts = snd ports, seenCounters = snd counters\<rparr>))"

definition note_node :: "time \<Rightarrow> Report \<Rightarrow> Store \<Rightarrow> Store" where
  "note_node at report s =
     (if Rep_Node report \<noteq> [] then
        s\<lparr>St_nodesReported := mput (Rep_Node report) at (St_nodesReported s),
          St_scans := mput (Rep_Node report) (Rep_Counters report) (St_scans s),
          St_profiling := (case Rep_Profiling report of None \<Rightarrow> St_profiling s | Some p \<Rightarrow> mput (Rep_Node report) p (St_profiling s))\<rparr>
      else s)"

definition Ingest :: "time \<Rightarrow> Report \<Rightarrow> resolver \<Rightarrow> Store \<Rightarrow> Store" where
  "Ingest at report resolve s =
     (let ss = fold (ingest_binary resolve at (Rep_Node report)) (Rep_Binaries report)
                 (note_node at report s, \<lparr>seenPeaks = mempty, seenPorts = mempty, seenCounters = mempty\<rparr>);
          s = fst ss; k = snd ss
      in s\<lparr>St_peaks := forgetUnreported (Rep_Node report) (seenPeaks k) (St_peaks s),
           St_ports := forgetUnreported (Rep_Node report) (seenPorts k) (St_ports s),
           St_counters := forgetUnreported (Rep_Node report) (seenCounters k) (St_counters s)\<rparr>)"

text \<open>The controller's resolver of a report, built on the watcher and the node of the verified token.\<close>

definition podContainerResolver :: "PodWatcher \<Rightarrow> string \<Rightarrow> resolver" where
  "podContainerResolver w node podUID containerID =
     map_option (\<lambda>(ns, wl, container, digest).
         \<lparr>Rs_Namespace = ns, Rs_WorkloadKind = Ref_Kind wl, Rs_WorkloadName = Ref_Name wl, Rs_Container = container, Rs_ImageDigest = digest\<rparr>)
       (LookupContainerOnNode w podUID containerID node)"

section \<open>Retention\<close>

definition LiveKeys :: "PodInfo list \<Rightarrow> InvKey list" where
  "LiveKeys pods =
     concat (map (\<lambda>p. map (\<lambda>c. (PI_Namespace p, Ref_Kind (PI_Workload p), Ref_Name (PI_Workload p), C_Name c)) (PI_Containers p)) pods)"

record Evicted =
  Ev_Records :: nat
  Ev_Builds :: nat
  Ev_Peaks :: nat
  Ev_Ports :: nat
  Ev_Counters :: nat

definition referenced_digests :: "(InvKey, GoRecord) gomap \<Rightarrow> string list" where
  "referenced_digests records = filter (\<lambda>d. d \<noteq> []) (map Go_ImageDigest (mvalues records))"

definition Retain :: "InvKey list \<Rightarrow> Store \<Rightarrow> Store \<times> Evicted" where
  "Retain live s =
     (let records = mfilter (\<lambda>k _. k \<in> set live) (St_records s);
          peaks = mfilter (\<lambda>pk _. fst pk \<in> set live) (St_peaks s);
          ports = mfilter (\<lambda>pk _. fst pk \<in> set live) (St_ports s);
          counters = mfilter (\<lambda>ck _. fst ck \<in> set live) (St_counters s);
          referenced = referenced_digests records;
          builds = mfilter (\<lambda>d _. d \<in> set referenced) (St_builds s);
          written = mfilter (\<lambda>d _. d \<in> set referenced \<or> mget (St_builds s) d = None) (St_written s)
      in (s\<lparr>St_records := records, St_peaks := peaks, St_ports := ports, St_counters := counters,
            St_builds := builds, St_written := written\<rparr>,
          \<lparr>Ev_Records = mlen (St_records s) - mlen records, Ev_Builds = mlen (St_builds s) - mlen builds,
           Ev_Peaks = mlen (St_peaks s) - mlen peaks, Ev_Ports = mlen (St_ports s) - mlen ports,
           Ev_Counters = mlen (St_counters s) - mlen counters\<rparr>))"

definition retain_contributions :: "string list \<Rightarrow> 'c contributions \<Rightarrow> 'c contributions" where
  "retain_contributions live m = prune (\<lambda>_ byNode. nonempty (mfilter (\<lambda>n _. n \<in> set live) byNode)) m"

definition RetainNodes :: "string list \<Rightarrow> Store \<Rightarrow> Store" where
  "RetainNodes live s =
     (let gone = (\<lambda>n. mget (St_nodesReported s) n \<noteq> None \<and> n \<notin> set live) in
      s\<lparr>St_nodesReported := mfilter (\<lambda>n _. \<not> gone n) (St_nodesReported s),
        St_scans := mfilter (\<lambda>n _. \<not> gone n) (St_scans s),
        St_profiling := mfilter (\<lambda>n _. \<not> gone n) (St_profiling s),
        St_peaks := retain_contributions live (St_peaks s),
        St_ports := retain_contributions live (St_ports s),
        St_counters := retain_contributions live (St_counters s)\<rparr>)"

definition MarkBuildWritten :: "string \<Rightarrow> Store \<Rightarrow> Store" where
  "MarkBuildWritten digest s = s\<lparr>St_written := mput digest () (St_written s)\<rparr>"

section \<open>Snapshots\<close>

definition lessKey :: "InvKey \<Rightarrow> InvKey \<Rightarrow> bool" where
  "lessKey a b =
     (case (a, b) of ((ns, kind, name, c), (ns', kind', name', c')) \<Rightarrow>
        if ns \<noteq> ns' then ns < ns' else if kind \<noteq> kind' then kind < kind' else if name \<noteq> name' then name < name' else c < c')"

definition less_build :: "BuildKey \<Rightarrow> BuildKey \<Rightarrow> bool" where
  "less_build a b = (if fst a \<noteq> fst b then lessKey (fst a) (fst b) else snd a < snd b)"

definition oldest :: "time \<Rightarrow> time \<Rightarrow> time" where
  "oldest a b = (if IsZero a \<or> \<not> IsZero b \<and> b < a then b else a)"

definition assertedAt :: "Store \<Rightarrow> string \<Rightarrow> time" where
  "assertedAt s node = mget_or 0 (St_nodesReported s) node"

definition asserted_by :: "Store \<Rightarrow> string list \<Rightarrow> time" where
  "asserted_by s nodes = fold (\<lambda>n asserted. oldest asserted (assertedAt s n)) nodes 0"

definition PendingBuilds :: "Store \<Rightarrow> Module BuildFacts list" where
  "PendingBuilds s =
     sort_slice (\<lambda>a b. BF_ImageDigest a < BF_ImageDigest b)
       (map snd (filter (\<lambda>e. mget (St_written s) (fst e) = None) (entries (St_builds s))))"

definition Snapshot :: "Store \<Rightarrow> GoRecord list" where
  "Snapshot s = sort_slice (\<lambda>a b. lessKey (Go_Key a) (Go_Key b)) (mvalues (St_records s))"

definition merge_peaks :: "nodePeaks \<Rightarrow> PeakRecord \<Rightarrow> PeakRecord" where
  "merge_peaks n rec =
     (let f = np_footprint n; l = np_filesLimitMin n in
      rec\<lparr>Pk_PeakRSSBytes := max (Pk_PeakRSSBytes rec) (np_peakRSSBytes n),
          Pk_Processes := Pk_Processes rec + np_processes n,
          Pk_CPUsAllowedMin := (if np_cpusMin n > 0 \<and> (Pk_CPUsAllowedMin rec = 0 \<or> np_cpusMin n < Pk_CPUsAllowedMin rec)
                               then np_cpusMin n else Pk_CPUsAllowedMin rec),
          Pk_CPUsAllowedMax := max (Pk_CPUsAllowedMax rec) (np_cpusMax n),
          Pk_RSSAnonBytesMax := max (Pk_RSSAnonBytesMax rec) (Fp_RSSAnonBytes f),
          Pk_RSSFileBytesMax := max (Pk_RSSFileBytesMax rec) (Fp_RSSFileBytes f),
          Pk_PSSBytesMax := max (Pk_PSSBytesMax rec) (Fp_PSSBytes f),
          Pk_PrivateDirtyBytesMax := max (Pk_PrivateDirtyBytesMax rec) (Fp_PrivateDirtyBytes f),
          Pk_ThreadsMax := max (Pk_ThreadsMax rec) (Fp_Threads f),
          Pk_OpenFilesMax := max (Pk_OpenFilesMax rec) (Fp_OpenFiles f),
          Pk_OpenFilesLimitMin := (if l > 0 \<and> (Pk_OpenFilesLimitMin rec = 0 \<or> l < Pk_OpenFilesLimitMin rec) then l else Pk_OpenFilesLimitMin rec)\<rparr>)"

definition peak_record :: "Store \<Rightarrow> BuildKey \<Rightarrow> (string, nodePeaks) gomap \<Rightarrow> PeakRecord" where
  "peak_record s pk byNode =
     fold merge_peaks (mvalues byNode)
       \<lparr>Pk_Key = pk, Pk_PeakRSSBytes = 0, Pk_Processes = 0, Pk_CPUsAllowedMin = 0, Pk_CPUsAllowedMax = 0, Pk_RSSAnonBytesMax = 0,
        Pk_RSSFileBytesMax = 0, Pk_PSSBytesMax = 0, Pk_PrivateDirtyBytesMax = 0, Pk_AssertedAt = asserted_by s (mkeys byNode),
        Pk_ThreadsMax = 0, Pk_OpenFilesMax = 0, Pk_OpenFilesLimitMin = 0\<rparr>"

definition PeakSnapshot :: "Store \<Rightarrow> PeakRecord list" where
  "PeakSnapshot s =
     sort_slice (\<lambda>a b. less_build (Pk_Key a) (Pk_Key b))
       (filter (\<lambda>rec. Pk_Processes rec \<noteq> 0) (map (\<lambda>e. peak_record s (fst e) (snd e)) (entries (St_peaks s))))"

definition merge_counters :: "nodeCounters \<Rightarrow> ProcCounterRecord \<Rightarrow> ProcCounterRecord" where
  "merge_counters n rec = rec\<lparr>Pc_Processes := Pc_Processes rec + nc_processes n, Pc_Delta := plus_delta (Pc_Delta rec) (nc_delta n)\<rparr>"

definition counter_record :: "Store \<Rightarrow> BuildKey \<Rightarrow> (string, nodeCounters) gomap \<Rightarrow> ProcCounterRecord" where
  "counter_record s ck byNode =
     fold merge_counters (mvalues byNode)
       \<lparr>Pc_Key = ck, Pc_Processes = 0, Pc_Delta = zeroDelta, Pc_AssertedAt = asserted_by s (mkeys byNode)\<rparr>"

definition CounterSnapshot :: "Store \<Rightarrow> ProcCounterRecord list" where
  "CounterSnapshot s =
     sort_slice (\<lambda>a b. less_build (Pc_Key a) (Pc_Key b))
       (filter (\<lambda>rec. Pc_Processes rec \<noteq> 0) (map (\<lambda>e. counter_record s (fst e) (snd e)) (entries (St_counters s))))"

definition port_record :: "Store \<Rightarrow> BuildKey \<Rightarrow> (string, ListeningPort list) gomap \<Rightarrow> PortRecord option" where
  "port_record s pk byNode =
     (let merged = MergeListeningPorts (mvalues byNode) in
      if merged = [] then None
      else Some \<lparr>Pt_Key = pk, Pt_Ports = map (\<lambda>m. \<lparr>Port_Port = LP_Port m, Port_Loopback = LP_Loopback m, Port_Pprof = []\<rparr>) merged,
                 Pt_AssertedAt = asserted_by s (mkeys byNode)\<rparr>)"

definition PortSnapshot :: "Store \<Rightarrow> PortRecord list" where
  "PortSnapshot s =
     sort_slice (\<lambda>a b. less_build (Pt_Key a) (Pt_Key b)) (List.map_filter (\<lambda>e. port_record s (fst e) (snd e)) (entries (St_ports s)))"

definition PprofBuilds :: "Store \<Rightarrow> (string, string list) gomap" where
  "PprofBuilds s =
     fold (\<lambda>e out. if BF_HasPprof (snd e)
                   then mput (fst e) (OwnModules (BF_MainModule (snd e)) (case BF_Modules (snd e) of None \<Rightarrow> [] | Some ms \<Rightarrow> ms)) out
                   else out) (entries (St_builds s)) mempty"

section \<open>Coverage\<close>

record ScanCoverage =
  SCv_Nodes :: nat
  SCv_OldestAssertedAt :: time
  SCv_ProcessesScanned :: int
  SCv_GoFound :: int
  SCv_FilteredScope :: int
  SCv_FilteredInfra :: int
  SCv_Unreadable :: int

definition Store_ScanCoverage :: "Store \<Rightarrow> ScanCoverage" where
  "Store_ScanCoverage s =
     fold (\<lambda>c out. out\<lparr>SCv_ProcessesScanned := SCv_ProcessesScanned out + SC_ProcessesScanned c, SCv_GoFound := SCv_GoFound out + SC_GoFound c,
              SCv_FilteredScope := SCv_FilteredScope out + SC_FilteredScope c, SCv_FilteredInfra := SCv_FilteredInfra out + SC_FilteredInfra c,
              SCv_Unreadable := SCv_Unreadable out + SC_Unreadable c\<rparr>) (mvalues (St_scans s))
       \<lparr>SCv_Nodes = mlen (St_scans s), SCv_OldestAssertedAt = asserted_by s (mkeys (St_scans s)), SCv_ProcessesScanned = 0, SCv_GoFound = 0,
        SCv_FilteredScope = 0, SCv_FilteredInfra = 0, SCv_Unreadable = 0\<rparr>"

record ProfileCoverage =
  PCv_Nodes :: nat
  PCv_States :: "(string, int) gomap"
  PCv_Sums :: ProfilingCoverage
  PCv_ProfilesReceived :: nat
  PCv_ProfilesUnjoined :: nat

definition zeroCoverage :: ProfilingCoverage where
  "zeroCoverage = \<lparr>PC_State = [], PC_Windows = 0, PC_WindowsNoScope = 0, PC_WindowsNoTargets = 0, PC_WindowsNoSamples = 0,
     PC_ProfilesShipped = 0, PC_ProfilesInvalid = 0, PC_ProfilesUnshipped = 0, PC_SamplesOutOfScope = 0, PC_ThirdPartyDropped = 0,
     PC_UnsymbolizedDropped = 0, PC_SamplesFiltered = 0\<rparr>"

definition add_coverage :: "ProfilingCoverage \<Rightarrow> ProfilingCoverage \<Rightarrow> ProfilingCoverage" where
  "add_coverage c out =
     out\<lparr>PC_Windows := PC_Windows out + PC_Windows c, PC_WindowsNoScope := PC_WindowsNoScope out + PC_WindowsNoScope c,
         PC_WindowsNoTargets := PC_WindowsNoTargets out + PC_WindowsNoTargets c,
         PC_WindowsNoSamples := PC_WindowsNoSamples out + PC_WindowsNoSamples c,
         PC_ProfilesShipped := PC_ProfilesShipped out + PC_ProfilesShipped c,
         PC_ProfilesInvalid := PC_ProfilesInvalid out + PC_ProfilesInvalid c,
         PC_ProfilesUnshipped := PC_ProfilesUnshipped out + PC_ProfilesUnshipped c,
         PC_SamplesOutOfScope := PC_SamplesOutOfScope out + PC_SamplesOutOfScope c,
         PC_ThirdPartyDropped := addu64 (PC_ThirdPartyDropped out) (PC_ThirdPartyDropped c),
         PC_UnsymbolizedDropped := addu64 (PC_UnsymbolizedDropped out) (PC_UnsymbolizedDropped c),
         PC_SamplesFiltered := addu64 (PC_SamplesFiltered out) (PC_SamplesFiltered c)\<rparr>"

definition Store_ProfileCoverage :: "Store \<Rightarrow> ProfileCoverage" where
  "Store_ProfileCoverage s =
     \<lparr>PCv_Nodes = mlen (St_profiling s),
      PCv_States = fold (\<lambda>c. mupd 0 (\<lambda>n. n + 1) (PC_State c)) (mvalues (St_profiling s)) mempty,
      PCv_Sums = fold add_coverage (mvalues (St_profiling s)) zeroCoverage, PCv_ProfilesReceived = 0, PCv_ProfilesUnjoined = 0\<rparr>"

record InventoryCounters =
  IC_Records :: nat
  IC_GoVersions :: nat
  IC_PGOBuilds :: nat
  IC_Builds :: nat
  IC_FactsReceived :: int
  IC_FactsJoined :: int
  IC_FactsUnjoined :: int
  IC_FactsUndigested :: int
  IC_NodesReported :: nat

definition Store_Counters :: "Store \<Rightarrow> InventoryCounters" where
  "Store_Counters s =
     \<lparr>IC_Records = mlen (St_records s), IC_GoVersions = length (remdups (map Go_GoVersion (mvalues (St_records s)))),
      IC_PGOBuilds = length (filter Go_PGO (mvalues (St_records s))), IC_Builds = mlen (St_builds s),
      IC_FactsReceived = St_factsReceived s, IC_FactsJoined = St_factsJoined s, IC_FactsUnjoined = St_factsUnjoined s,
      IC_FactsUndigested = St_factsUndigested s, IC_NodesReported = mlen (St_nodesReported s)\<rparr>"

record NodeAssertion =
  NA_Node :: string
  NA_AssertedAt :: time

definition nodeAssertionsLocked :: "Store \<Rightarrow> NodeAssertion list" where
  "nodeAssertionsLocked s =
     sort_slice (\<lambda>a b. NA_Node a < NA_Node b) (map (\<lambda>e. \<lparr>NA_Node = fst e, NA_AssertedAt = snd e\<rparr>) (entries (St_nodesReported s)))"

record Coverage =
  Cv_Since :: time
  Cv_NodesReported :: nat
  Cv_Nodes :: "NodeAssertion list"
  Cv_FactsReceived :: int
  Cv_FactsJoined :: int
  Cv_FactsUnjoined :: int
  Cv_FactsUndigested :: int

definition Store_Coverage :: "Store \<Rightarrow> Coverage" where
  "Store_Coverage s =
     \<lparr>Cv_Since = St_since s, Cv_NodesReported = mlen (St_nodesReported s), Cv_Nodes = nodeAssertionsLocked s,
      Cv_FactsReceived = St_factsReceived s, Cv_FactsJoined = St_factsJoined s, Cv_FactsUnjoined = St_factsUnjoined s,
      Cv_FactsUndigested = St_factsUndigested s\<rparr>"

section \<open>What a node contributes\<close>

definition look :: "'c contributions \<Rightarrow> BuildKey \<Rightarrow> string \<Rightarrow> 'c option" where
  "look m pk node = (case mget m pk of None \<Rightarrow> None | Some byNode \<Rightarrow> mget byNode node)"

lemma mget_prune_list:
  fixes out :: "('k::linorder, 'b) gomap"
  assumes "distinct (map fst es)" and "\<And>e. e \<in> set es \<Longrightarrow> mget out (fst e) = None"
  shows "mget (fold (\<lambda>e out. case keep (fst e) (snd e) of None \<Rightarrow> out | Some b \<Rightarrow> mput (fst e) b out) es out) pk =
    (case map_of es pk of None \<Rightarrow> mget out pk | Some b \<Rightarrow> keep pk b)"
  using assms
proof (induction es arbitrary: out)
  case (Cons e es)
  define out' where "out' = (case keep (fst e) (snd e) of None \<Rightarrow> out | Some b \<Rightarrow> mput (fst e) b out)"
  have new: "mget out' x = (if x = fst e then keep x (snd e) else mget out x)" for x
    using Cons.prems(2) [of e] by (simp add: out'_def split: option.splits)
  have fresh: "fst e \<notin> fst ` set es" "distinct (map fst es)" using Cons.prems(1) by simp_all
  then have "mget out' (fst e') = None" if "e' \<in> set es" for e'
  proof -
    have "fst e' \<noteq> fst e" using that fresh(1) by (metis imageI)
    then show ?thesis using Cons.prems(2) [of e'] that new by simp
  qed
  from Cons.IH [OF fresh(2) this] have
    "mget (fold (\<lambda>e out. case keep (fst e) (snd e) of None \<Rightarrow> out | Some b \<Rightarrow> mput (fst e) b out) (e # es) out) pk =
      (case map_of es pk of None \<Rightarrow> mget out' pk | Some b \<Rightarrow> keep pk b)" by (simp add: out'_def)
  moreover have "map_of es (fst e) = None" using fresh(1) by (simp add: map_of_eq_None_iff)
  ultimately show ?case by (cases e) (simp add: new split: option.splits)
qed simp

lemma mget_prune: "mget (prune keep m) pk = Option.bind (mget m pk) (keep pk)"
proof -
  have "mget m pk = map_of (entries m) pk" by (simp add: mget.rep_eq)
  moreover have "mget (prune keep m) pk = (case map_of (entries m) pk of None \<Rightarrow> None | Some b \<Rightarrow> keep pk b)"
    unfolding prune_def by (subst mget_prune_list) (simp_all split: option.splits)
  ultimately show ?thesis by (simp split: option.splits)
qed

lemma mget_nonempty: "(case nonempty b of None \<Rightarrow> None | Some b \<Rightarrow> mget b n) = mget b n"
  by (auto simp: nonempty_def mlen_def mget.rep_eq)

lemma look_mempty [simp]: "look mempty pk n = None"
  by (simp add: look_def)

lemma look_forget: "look (forgetUnreported node seen m) pk n = (if n = node \<and> mget seen pk = None then None else look m pk n)"
  unfolding look_def forgetUnreported_def mget_prune
  by (cases "mget m pk"; cases "mget seen pk = None") (simp_all add: mget_nonempty)

lemma look_retain_nodes: "look (retain_contributions live m) pk n = (if n \<in> set live then look m pk n else None)"
  unfolding look_def retain_contributions_def mget_prune
  by (cases "mget m pk") (auto simp: mget_nonempty mget_mfilter split: option.splits)

lemma look_mfilter: "look (mfilter (\<lambda>pk _. P pk) m) pk n = (if P pk then look m pk n else None)"
  by (simp add: look_def mget_mfilter split: option.splits)

lemma look_ingest:
  "look (fst (ingest_contribution zero add pk node ms)) pk' n =
     (if pk' = pk \<and> n = node
      then Some (add (if mget (snd ms) pk \<noteq> None then (case look (fst ms) pk node of None \<Rightarrow> zero | Some c \<Rightarrow> c) else zero))
      else look (fst ms) pk' n)"
  "snd (ingest_contribution zero add pk node ms) = mput pk () (snd ms)"
  by (auto simp: ingest_contribution_def look_def Let_def mget_or_def split: option.splits)

section \<open>A contribution is a function of the latest report\<close>

text \<open>The facts of a report that the resolver joins, with the build each belongs to.\<close>

definition joined :: "resolver \<Rightarrow> BinaryInfo list \<Rightarrow> (BuildKey \<times> BinaryInfo) list" where
  "joined resolve bs =
     List.map_filter (\<lambda>b. map_option (\<lambda>res. ((resolved_key res, Rs_ImageDigest res), b)) (resolve (Bin_PodUID b) (Bin_ContainerID b))) bs"

definition contribution_of :: "(BinaryInfo \<Rightarrow> bool) \<Rightarrow> 'c \<Rightarrow> (BinaryInfo \<Rightarrow> 'c \<Rightarrow> 'c) \<Rightarrow> (BuildKey \<times> BinaryInfo) list \<Rightarrow> BuildKey \<Rightarrow> 'c option" where
  "contribution_of has zero add facts pk =
     (let bs = filter has (map snd (filter (\<lambda>f. fst f = pk) facts)) in if bs = [] then None else Some (fold add bs zero))"

lemma joined_snoc:
  "joined resolve (bs @ [b]) = joined resolve bs @
     (case resolve (Bin_PodUID b) (Bin_ContainerID b) of None \<Rightarrow> [] | Some res \<Rightarrow> [((resolved_key res, Rs_ImageDigest res), b)])"
  by (simp add: joined_def map_filter_def split: option.splits)

lemma contribution_snoc:
  "contribution_of has zero add (facts @ [(pk, b)]) pk' =
     (if pk' = pk \<and> has b
      then Some (add b (case contribution_of has zero add facts pk of None \<Rightarrow> zero | Some c \<Rightarrow> c))
      else contribution_of has zero add facts pk')"
  by (auto simp: contribution_of_def Let_def)

text \<open>
  What the three measurements share: which binaries carry one, where a contribution starts, how a binary
  is added to it, and the operation of the store that does so.
\<close>

locale measurement =
  fixes ingest :: "BinaryInfo \<Rightarrow> InvKey \<Rightarrow> string \<Rightarrow> string \<Rightarrow> 'c contributions \<times> (BuildKey, unit) gomap \<Rightarrow> 'c contributions \<times> (BuildKey, unit) gomap"
    and has :: "BinaryInfo \<Rightarrow> bool"
    and zero :: 'c
    and add :: "BinaryInfo \<Rightarrow> 'c \<Rightarrow> 'c"
  assumes ingest_is: "ingest b key digest node ms = (if has b then ingest_contribution zero (add b) (key, digest) node ms else ms)"
begin

definition ingest_all :: "resolver \<Rightarrow> string \<Rightarrow> BinaryInfo list \<Rightarrow> 'c contributions \<times> (BuildKey, unit) gomap \<Rightarrow> 'c contributions \<times> (BuildKey, unit) gomap" where
  "ingest_all resolve node bs ms =
     fold (\<lambda>b ms. case resolve (Bin_PodUID b) (Bin_ContainerID b) of
                    None \<Rightarrow> ms | Some res \<Rightarrow> ingest b (resolved_key res) (Rs_ImageDigest res) node ms) bs ms"

abbreviation contribution where "contribution \<equiv> contribution_of has zero add"

lemma ingest_all_look:
  fixes m :: "'c contributions" and resolve :: resolver and node :: string
  defines "after \<equiv> \<lambda>bs. ingest_all resolve node bs (m, mempty)"
  shows "(mget (snd (after bs)) pk \<noteq> None \<longleftrightarrow> contribution (joined resolve bs) pk \<noteq> None) \<and>
    look (fst (after bs)) pk n =
      (case if n = node then contribution (joined resolve bs) pk else None of None \<Rightarrow> look m pk n | Some c \<Rightarrow> Some c)"
proof (induction bs arbitrary: pk n rule: rev_induct)
  case Nil
  show ?case by (simp add: after_def ingest_all_def joined_def contribution_of_def)
next
  case (snoc b bs)
  show ?case
  proof (cases "resolve (Bin_PodUID b) (Bin_ContainerID b)")
    case None
    then show ?thesis using snoc by (simp add: after_def ingest_all_def joined_snoc)
  next
    case (Some res)
    define bk where "bk = (resolved_key res, Rs_ImageDigest res)"
    have step: "after (bs @ [b]) = (if has b then ingest_contribution zero (add b) bk node (after bs) else after bs)"
      using Some by (simp add: after_def ingest_all_def ingest_is bk_def)
    have facts: "joined resolve (bs @ [b]) = joined resolve bs @ [(bk, b)]" using Some by (simp add: joined_snoc bk_def)
    show ?thesis
    proof (cases "has b")
      case True
      have c: "contribution (joined resolve (bs @ [b])) pk =
          (if pk = bk then Some (add b (case contribution (joined resolve bs) bk of None \<Rightarrow> zero | Some c \<Rightarrow> c))
           else contribution (joined resolve bs) pk)" unfolding facts contribution_snoc using True by simp
      have l: "look (fst (after (bs @ [b]))) pk n =
          (if pk = bk \<and> n = node
           then Some (add b (if mget (snd (after bs)) bk \<noteq> None then (case look (fst (after bs)) bk node of None \<Rightarrow> zero | Some c \<Rightarrow> c) else zero))
           else look (fst (after bs)) pk n)" unfolding step look_ingest using True by (simp add: look_ingest)
      have m: "mget (snd (after (bs @ [b]))) pk = (if pk = bk then Some () else mget (snd (after bs)) pk)"
        unfolding step using True by (simp add: look_ingest)
      have "(if mget (snd (after bs)) bk \<noteq> None then (case look (fst (after bs)) bk node of None \<Rightarrow> zero | Some c \<Rightarrow> c) else zero)
          = (case contribution (joined resolve bs) bk of None \<Rightarrow> zero | Some c \<Rightarrow> c)"
        using snoc [of bk node] by (auto split: option.splits)
      then show ?thesis using snoc [of pk n] c l m by (cases "pk = bk") simp_all
    next
      case False
      then show ?thesis using snoc [of pk n] unfolding facts contribution_snoc step by simp
    qed
  qed
qed

text \<open>After the report, the node contributes what the report says and no other node is touched.\<close>

lemma contribution_replaced:
  fixes m :: "'c contributions" and resolve :: resolver and node :: string and bs :: "BinaryInfo list"
  defines "ms \<equiv> ingest_all resolve node bs (m, mempty)"
  shows "look (forgetUnreported node (snd ms) (fst ms)) pk n =
    (if n = node then contribution (joined resolve bs) pk else look m pk n)"
  using ingest_all_look [of resolve node bs m pk n] unfolding look_forget ms_def
  by (auto split: option.splits)

lemma contribution_retained:
  "contribution (filter (\<lambda>f. fst (fst f) \<in> set live) facts) pk = (if fst pk \<in> set live then contribution facts pk else None)"
proof -
  have "filter (\<lambda>f. fst f = pk) (filter (\<lambda>f. fst (fst f) \<in> set live) facts) = (if fst pk \<in> set live then filter (\<lambda>f. fst f = pk) facts else [])"
    by (induction facts) auto
  then show ?thesis by (simp add: contribution_of_def)
qed

end

definition add_ports :: "BinaryInfo \<Rightarrow> ListeningPort list \<Rightarrow> ListeningPort list" where
  "add_ports b acc = MergeListeningPorts [acc, Bin_ListeningPorts b]"

definition add_counter_delta :: "BinaryInfo \<Rightarrow> nodeCounters \<Rightarrow> nodeCounters" where
  "add_counter_delta b n = (case Bin_Counters b of None \<Rightarrow> n | Some d \<Rightarrow> add_counters d n)"

definition has_ports :: "BinaryInfo \<Rightarrow> bool" where "has_ports b \<longleftrightarrow> Bin_ListeningPorts b \<noteq> []"

definition has_counters :: "BinaryInfo \<Rightarrow> bool" where "has_counters b \<longleftrightarrow> Bin_Counters b \<noteq> None"

interpretation peaks: measurement ingestPeaks has_peaks zeroPeaks add_peaks
  by unfold_locales (simp add: ingestPeaks_def)

interpretation ports: measurement ingestPorts has_ports "[]" add_ports
  by unfold_locales (simp add: ingestPorts_def add_ports_def [abs_def] has_ports_def)

interpretation counters: measurement ingestCounters has_counters zeroCounters add_counter_delta
  by unfold_locales (auto simp: ingestCounters_def add_counter_delta_def [abs_def] has_counters_def split: option.splits)

section \<open>Refinement\<close>

text \<open>
  The operations on the store as a history, and the specification: for each node, the facts of its
  latest report that were joined and whose container is still wanted.
\<close>

datatype operation =
    OpIngest time Report resolver
  | OpRetain "InvKey list"
  | OpRetainNodes "string list"
  | OpMarkBuildWritten string

fun perform :: "operation \<Rightarrow> Store \<Rightarrow> Store" where
  "perform (OpIngest at report resolve) s = Ingest at report resolve s"
| "perform (OpRetain live) s = fst (Retain live s)"
| "perform (OpRetainNodes live) s = RetainNodes live s"
| "perform (OpMarkBuildWritten digest) s = MarkBuildWritten digest s"

type_synonym latest = "string \<Rightarrow> (BuildKey \<times> BinaryInfo) list"

fun specify :: "operation \<Rightarrow> latest \<Rightarrow> latest" where
  "specify (OpIngest at report resolve) \<sigma> = \<sigma>(Rep_Node report := joined resolve (Rep_Binaries report))"
| "specify (OpRetain live) \<sigma> = (\<lambda>n. filter (\<lambda>f. fst (fst f) \<in> set live) (\<sigma> n))"
| "specify (OpRetainNodes live) \<sigma> = (\<lambda>n. if n \<in> set live then \<sigma> n else [])"
| "specify (OpMarkBuildWritten digest) \<sigma> = \<sigma>"

definition represents :: "Store \<Rightarrow> latest \<Rightarrow> bool" where
  "represents s \<sigma> \<longleftrightarrow>
     (\<forall>pk n. look (St_peaks s) pk n = contribution_of has_peaks zeroPeaks add_peaks (\<sigma> n) pk) \<and>
     (\<forall>pk n. look (St_ports s) pk n = contribution_of has_ports [] add_ports (\<sigma> n) pk) \<and>
     (\<forall>pk n. look (St_counters s) pk n = contribution_of has_counters zeroCounters add_counter_delta (\<sigma> n) pk)"

lemma ingestBuild_keeps [simp]:
  "St_peaks (ingestBuild b d s) = St_peaks s" "St_ports (ingestBuild b d s) = St_ports s" "St_counters (ingestBuild b d s) = St_counters s"
  "St_records (ingestBuild b d s) = St_records s" "St_written (ingestBuild b d s) = St_written s"
  "St_factsReceived (ingestBuild b d s) = St_factsReceived s" "St_factsJoined (ingestBuild b d s) = St_factsJoined s"
  "St_factsUnjoined (ingestBuild b d s) = St_factsUnjoined s"
  by (simp_all add: ingestBuild_def Let_def)

lemma note_node_keeps [simp]:
  "St_peaks (note_node at r s) = St_peaks s" "St_ports (note_node at r s) = St_ports s" "St_counters (note_node at r s) = St_counters s"
  "St_records (note_node at r s) = St_records s" "St_builds (note_node at r s) = St_builds s" "St_written (note_node at r s) = St_written s"
  by (simp_all add: note_node_def)

text \<open>The loop of \<open>Ingest\<close> is three independent loops over the measurements.\<close>

lemma ingest_loop:
  "(St_peaks (fst (fold (ingest_binary resolve at node) bs ss)), seenPeaks (snd (fold (ingest_binary resolve at node) bs ss))) =
     peaks.ingest_all resolve node bs (St_peaks (fst ss), seenPeaks (snd ss))"
  "(St_ports (fst (fold (ingest_binary resolve at node) bs ss)), seenPorts (snd (fold (ingest_binary resolve at node) bs ss))) =
     ports.ingest_all resolve node bs (St_ports (fst ss), seenPorts (snd ss))"
  "(St_counters (fst (fold (ingest_binary resolve at node) bs ss)), seenCounters (snd (fold (ingest_binary resolve at node) bs ss))) =
     counters.ingest_all resolve node bs (St_counters (fst ss), seenCounters (snd ss))"
  by (induction bs arbitrary: ss)
    (simp_all add: peaks.ingest_all_def ports.ingest_all_def counters.ingest_all_def ingest_binary_def Let_def split: option.split)

lemma Ingest_contributions:
  "look (St_peaks (Ingest at r resolve s)) pk n =
     (if n = Rep_Node r then peaks.contribution (joined resolve (Rep_Binaries r)) pk else look (St_peaks s) pk n)"
  "look (St_ports (Ingest at r resolve s)) pk n =
     (if n = Rep_Node r then ports.contribution (joined resolve (Rep_Binaries r)) pk else look (St_ports s) pk n)"
  "look (St_counters (Ingest at r resolve s)) pk n =
     (if n = Rep_Node r then counters.contribution (joined resolve (Rep_Binaries r)) pk else look (St_counters s) pk n)"
proof -
  define ss where "ss = fold (ingest_binary resolve at (Rep_Node r)) (Rep_Binaries r)
    (note_node at r s, \<lparr>seenPeaks = mempty, seenPorts = mempty, seenCounters = mempty\<rparr>)"
  note loop = ingest_loop [of resolve at "Rep_Node r" "Rep_Binaries r"
      "(note_node at r s, \<lparr>seenPeaks = mempty, seenPorts = mempty, seenCounters = mempty\<rparr>)", folded ss_def, simplified]
  have I: "Ingest at r resolve s = (fst ss)\<lparr>St_peaks := forgetUnreported (Rep_Node r) (seenPeaks (snd ss)) (St_peaks (fst ss)),
      St_ports := forgetUnreported (Rep_Node r) (seenPorts (snd ss)) (St_ports (fst ss)),
      St_counters := forgetUnreported (Rep_Node r) (seenCounters (snd ss)) (St_counters (fst ss))\<rparr>"
    by (simp add: Ingest_def ss_def Let_def)
  show "look (St_peaks (Ingest at r resolve s)) pk n =
      (if n = Rep_Node r then peaks.contribution (joined resolve (Rep_Binaries r)) pk else look (St_peaks s) pk n)"
    unfolding I using peaks.contribution_replaced [of "Rep_Node r" resolve "Rep_Binaries r" "St_peaks s" pk n, folded loop(1)] by simp
  show "look (St_ports (Ingest at r resolve s)) pk n =
      (if n = Rep_Node r then ports.contribution (joined resolve (Rep_Binaries r)) pk else look (St_ports s) pk n)"
    unfolding I using ports.contribution_replaced [of "Rep_Node r" resolve "Rep_Binaries r" "St_ports s" pk n, folded loop(2)] by simp
  show "look (St_counters (Ingest at r resolve s)) pk n =
      (if n = Rep_Node r then counters.contribution (joined resolve (Rep_Binaries r)) pk else look (St_counters s) pk n)"
    unfolding I using counters.contribution_replaced [of "Rep_Node r" resolve "Rep_Binaries r" "St_counters s" pk n, folded loop(3)] by simp
qed

lemma represents_perform: "represents s \<sigma> \<Longrightarrow> represents (perform op s) (specify op \<sigma>)"
proof (cases op)
  case (OpIngest at r resolve)
  then show "represents s \<sigma> \<Longrightarrow> ?thesis" by (simp add: represents_def Ingest_contributions)
next
  case (OpRetain live)
  then show "represents s \<sigma> \<Longrightarrow> ?thesis"
    by (simp add: represents_def Retain_def Let_def look_mfilter peaks.contribution_retained ports.contribution_retained counters.contribution_retained)
next
  case (OpRetainNodes live)
  then show "represents s \<sigma> \<Longrightarrow> ?thesis"
    by (simp add: represents_def RetainNodes_def Let_def look_retain_nodes contribution_of_def)
next
  case (OpMarkBuildWritten d)
  then show "represents s \<sigma> \<Longrightarrow> ?thesis" by (simp add: represents_def MarkBuildWritten_def)
qed

lemma represents_run: "represents (fold perform ops (NewStore since)) (fold specify ops (\<lambda>_. []))"
proof -
  have "represents (NewStore since) (\<lambda>_. [])" by (simp add: represents_def NewStore_def contribution_of_def)
  then have "represents s \<sigma> \<Longrightarrow> represents (fold perform ops s) (fold specify ops \<sigma>)" for s \<sigma>
    by (induction ops arbitrary: s \<sigma>) (simp_all add: represents_perform)
  then show ?thesis using \<open>represents (NewStore since) (\<lambda>_. [])\<close> by blast
qed

text \<open>
  C14. The measurements refine the nodes' latest reports. Whatever reports are ingested, in whatever order
  they arrive from the nodes, and whatever is retained in between: a node contributes to a build
  exactly the processes of that build in its own latest report that were joined (their peaks, the union
  of their ports, the sum of their counters), as long as the node is in the cluster and the
  container in use. No contribution outlives the report that replaces it, and none is counted twice.
\<close>

theorem store_refines_latest_reports:
  "represents (fold perform ops (NewStore since)) (fold specify ops (\<lambda>_. []))"
  by (rule represents_run)

section \<open>Accounting of the facts\<close>

fun facts_in :: "operation \<Rightarrow> int" where
  "facts_in (OpIngest at report resolve) = int (length (Rep_Binaries report))"
| "facts_in _ = 0"

definition facts_ok :: "int \<Rightarrow> Store \<Rightarrow> bool" where
  "facts_ok n s \<longleftrightarrow> St_factsReceived s = n \<and> St_factsReceived s = St_factsJoined s + St_factsUnjoined s \<and>
     0 \<le> St_factsUndigested s \<and> St_factsUndigested s \<le> St_factsJoined s"

lemma facts_ok_binary: "facts_ok n (fst ss) \<Longrightarrow> facts_ok (n + 1) (fst (ingest_binary resolve at node b ss))"
  by (auto simp: facts_ok_def ingest_binary_def ingestBuild_def Let_def split: option.splits)

lemma facts_ok_binaries:
  "facts_ok n (fst ss) \<Longrightarrow> facts_ok (n + int (length bs)) (fst (fold (ingest_binary resolve at node) bs ss))"
proof (induction bs arbitrary: n ss)
  case (Cons b bs)
  from Cons.IH [OF facts_ok_binary [OF Cons.prems]] show ?case by (simp add: algebra_simps)
qed simp

lemma facts_ok_perform: "facts_ok n s \<Longrightarrow> facts_ok (n + facts_in op) (perform op s)"
proof (cases op)
  case (OpIngest at r resolve)
  assume "facts_ok n s"
  then have "facts_ok n (note_node at r s)" by (simp add: facts_ok_def note_node_def)
  then have "facts_ok (n + int (length (Rep_Binaries r))) (fst (fold (ingest_binary resolve at (Rep_Node r)) (Rep_Binaries r)
      (note_node at r s, \<lparr>seenPeaks = mempty, seenPorts = mempty, seenCounters = mempty\<rparr>)))"
    by (intro facts_ok_binaries) simp
  then show ?thesis unfolding OpIngest perform.simps facts_in.simps Ingest_def Let_def facts_ok_def by simp
qed (simp_all add: facts_ok_def Retain_def RetainNodes_def MarkBuildWritten_def Let_def)


section \<open>Only admitted workloads\<close>

lemma peak_record_key: "Pk_Key (peak_record s pk byNode) = pk"
proof -
  have "Pk_Key (fold merge_peaks ns r) = Pk_Key r" for ns r by (induction ns arbitrary: r) (simp_all add: merge_peaks_def Let_def)
  then show ?thesis by (simp add: peak_record_def)
qed

lemma counter_record_key: "Pc_Key (counter_record s pk byNode) = pk"
proof -
  have "Pc_Key (fold merge_counters ns r) = Pc_Key r" for ns r by (induction ns arbitrary: r) (simp_all add: merge_counters_def)
  then show ?thesis by (simp add: counter_record_def)
qed

lemma PeakSnapshot_keys:
  assumes "r \<in> set (PeakSnapshot s)"
  shows "\<exists>byNode. mget (St_peaks s) (Pk_Key r) = Some byNode \<and> r = peak_record s (Pk_Key r) byNode"
proof -
  obtain e where "e \<in> set (entries (St_peaks s))" "r = peak_record s (fst e) (snd e)" using assms by (auto simp: PeakSnapshot_def)
  then show ?thesis unfolding mget_entries by (metis peak_record_key prod.collapse)
qed

lemma CounterSnapshot_keys:
  assumes "r \<in> set (CounterSnapshot s)"
  shows "\<exists>byNode. mget (St_counters s) (Pc_Key r) = Some byNode \<and> r = counter_record s (Pc_Key r) byNode"
proof -
  obtain e where "e \<in> set (entries (St_counters s))" "r = counter_record s (fst e) (snd e)" using assms by (auto simp: CounterSnapshot_def)
  then show ?thesis unfolding mget_entries by (metis counter_record_key prod.collapse)
qed

lemma PortSnapshot_keys:
  assumes "r \<in> set (PortSnapshot s)"
  shows "\<exists>byNode. mget (St_ports s) (Pt_Key r) = Some byNode \<and> port_record s (Pt_Key r) byNode = Some r"
proof -
  obtain e where "e \<in> set (entries (St_ports s))" "port_record s (fst e) (snd e) = Some r"
    using assms by (auto simp: PortSnapshot_def map_filter_def)
  moreover then have "Pt_Key r = fst e" by (auto simp: port_record_def Let_def split: if_splits)
  ultimately show ?thesis unfolding mget_entries by (metis prod.collapse)
qed

definition of_workload :: "WorkloadRef \<Rightarrow> InvKey \<Rightarrow> bool" where
  "of_workload wl k \<longleftrightarrow> fst (snd k) = Ref_Kind wl \<and> fst (snd (snd k)) = Ref_Name wl"

definition records_keyed :: "Store \<Rightarrow> bool" where
  "records_keyed s \<longleftrightarrow> (\<forall>k r. mget (St_records s) k = Some r \<longrightarrow> Go_Key r = k)"

lemma records_keyed_binary: "records_keyed (fst ss) \<Longrightarrow> records_keyed (fst (ingest_binary resolve at node b ss))"
  unfolding records_keyed_def by (simp add: ingest_binary_def Let_def split: option.splits)

lemma records_keyed_binaries: "records_keyed (fst ss) \<Longrightarrow> records_keyed (fst (fold (ingest_binary resolve at node) bs ss))"
  by (induction bs arbitrary: ss) (simp_all add: records_keyed_binary)

lemma records_keyed_perform: "records_keyed s \<Longrightarrow> records_keyed (perform op s)"
proof (cases op)
  case (OpIngest at r resolve)
  assume "records_keyed s"
  then have "records_keyed (note_node at r s)" by (simp add: records_keyed_def)
  then have "records_keyed (fst (fold (ingest_binary resolve at (Rep_Node r)) (Rep_Binaries r)
      (note_node at r s, \<lparr>seenPeaks = mempty, seenPorts = mempty, seenCounters = mempty\<rparr>)))"
    by (intro records_keyed_binaries) simp
  then show ?thesis unfolding OpIngest perform.simps Ingest_def Let_def records_keyed_def by simp
qed (simp_all add: records_keyed_def Retain_def RetainNodes_def MarkBuildWritten_def Let_def mget_mfilter split: option.splits if_splits)

lemma records_keyed_run: "records_keyed (fold perform ops (NewStore since))"
proof -
  have "records_keyed s \<Longrightarrow> records_keyed (fold perform ops s)" for s by (induction ops arbitrary: s) (simp_all add: records_keyed_perform)
  moreover have "records_keyed (NewStore since)" by (simp add: records_keyed_def NewStore_def)
  ultimately show ?thesis by blast
qed

lemma live_keys_workload:
  assumes "\<And>uid entry. mget (W_index w) uid = Some entry \<Longrightarrow> PI_Workload (E_info entry) \<noteq> wl" and "k \<in> set (LiveKeys (Pods w))"
  shows "\<not> of_workload wl k"
proof -
  obtain p where p: "p \<in> set (Pods w)" "fst (snd k) = Ref_Kind (PI_Workload p)" "fst (snd (snd k)) = Ref_Name (PI_Workload p)"
    using assms(2) by (auto simp: LiveKeys_def)
  from p(1) obtain entry where "entry \<in> set (mvalues (W_index w))" "p = E_info entry" by (auto simp: Pods_def)
  then obtain uid where "mget (W_index w) uid = Some entry" unfolding mvalues_iff by blast
  with assms(1) \<open>p = E_info entry\<close> have "PI_Workload p \<noteq> wl" by simp
  then show ?thesis using p(2,3) by (cases wl; cases "PI_Workload p") (auto simp: of_workload_def)
qed


definition witness_report :: Report where
  "witness_report = \<lparr>Rep_Node = ''n1'', Rep_Binaries = [witness_binary\<lparr>Bin_PodUID := ''u1'', Bin_ContainerID := ''ab12''\<rparr>],
     Rep_Counters = zeroScanCounters, Rep_Profiling = None\<rparr>"

definition admitting_watcher :: PodWatcher where
  "admitting_watcher = runPods [(no_caches, 5, PodAdded (web_pod plain_container))] new_watcher"


section \<open>Builds\<close>

text \<open>What a pass of \<open>flushInventory\<close> does to the store: the departed are forgotten, then each pending build is written, and marked where the write succeeded; the payloads themselves are the spool's.\<close>

definition write_builds :: "(Module BuildFacts \<Rightarrow> bool) \<Rightarrow> Store \<Rightarrow> Store" where
  "write_builds ok s = fold (\<lambda>b s. if ok b then MarkBuildWritten (BF_ImageDigest b) s else s) (PendingBuilds s) s"

definition flush_store :: "PodInfo list \<Rightarrow> string list \<Rightarrow> (Module BuildFacts \<Rightarrow> bool) \<Rightarrow> Store \<Rightarrow> Store" where
  "flush_store pods nodes ok s = write_builds ok (RetainNodes nodes (fst (Retain (LiveKeys pods) s)))"

inductive reached :: "Store \<Rightarrow> bool" where
  init: "reached (NewStore since)"
| ingest: "reached s \<Longrightarrow> reached (Ingest at report resolve s)"
| flush: "reached s \<Longrightarrow> reached (flush_store pods nodes ok s)"

definition builds_ok :: "Store \<Rightarrow> bool" where
  "builds_ok s \<longleftrightarrow> (\<forall>d b. mget (St_builds s) d = Some b \<longrightarrow> BF_ImageDigest b = d) \<and>
     (\<forall>d. mget (St_written s) d \<noteq> None \<longrightarrow> mget (St_builds s) d \<noteq> None)"

lemma pending_iff: "b \<in> set (PendingBuilds s) \<longleftrightarrow> (\<exists>d. mget (St_builds s) d = Some b \<and> mget (St_written s) d = None)"
  unfolding PendingBuilds_def set_sort_slice set_map set_filter mget_entries [of _ _ "_ :: Module BuildFacts"]
  by (auto simp: image_iff)

lemma builds_ok_binary: "builds_ok (fst ss) \<Longrightarrow> builds_ok (fst (ingest_binary resolve at node b ss))"
  by (cases "resolve (Bin_PodUID b) (Bin_ContainerID b)") (simp_all add: builds_ok_def ingest_binary_def ingestBuild_def Let_def)

lemma builds_ok_mark: "builds_ok s \<Longrightarrow> mget (St_builds s) d \<noteq> None \<Longrightarrow> builds_ok (MarkBuildWritten d s)"
  by (auto simp: builds_ok_def MarkBuildWritten_def)

lemma write_builds_written:
  "St_builds (write_builds ok s) = St_builds s"
  "mget (St_written (write_builds ok s)) d \<noteq> None \<longleftrightarrow>
     mget (St_written s) d \<noteq> None \<or> (\<exists>b \<in> set (PendingBuilds s). ok b \<and> BF_ImageDigest b = d)"
proof -
  have "St_builds (fold (\<lambda>b s. if ok b then MarkBuildWritten (BF_ImageDigest b) s else s) bs t) = St_builds t" for bs t
    by (induction bs arbitrary: t) (simp_all add: MarkBuildWritten_def)
  then show "St_builds (write_builds ok s) = St_builds s" by (simp add: write_builds_def)
  have "mget (St_written (fold (\<lambda>b s. if ok b then MarkBuildWritten (BF_ImageDigest b) s else s) bs t)) d \<noteq> None \<longleftrightarrow>
      mget (St_written t) d \<noteq> None \<or> (\<exists>b \<in> set bs. ok b \<and> BF_ImageDigest b = d)" for bs t
    by (induction bs arbitrary: t) (auto simp: MarkBuildWritten_def)
  then show "mget (St_written (write_builds ok s)) d \<noteq> None \<longleftrightarrow>
     mget (St_written s) d \<noteq> None \<or> (\<exists>b \<in> set (PendingBuilds s). ok b \<and> BF_ImageDigest b = d)" by (simp add: write_builds_def)
qed

lemma builds_ok_flush:
  assumes "builds_ok s"
  shows "builds_ok (flush_store pods nodes ok s)"
proof -
  define t where "t = RetainNodes nodes (fst (Retain (LiveKeys pods) s))"
  define ref where "ref = set (referenced_digests (St_records t))"
  have b: "mget (St_builds t) d = (if d \<in> ref then mget (St_builds s) d else None)" for d
    by (simp add: t_def ref_def RetainNodes_def Retain_def Let_def mget_mfilter split: option.splits)
  have w: "mget (St_written t) d = (if d \<in> ref \<or> mget (St_builds s) d = None then mget (St_written s) d else None)" for d
    by (simp add: t_def ref_def RetainNodes_def Retain_def Let_def mget_mfilter split: option.splits)
  have t: "builds_ok t"
    unfolding builds_ok_def b w using assms unfolding builds_ok_def by (metis option.distinct(1))
  have "mget (St_builds t) d \<noteq> None" if "b \<in> set (PendingBuilds t)" "BF_ImageDigest b = d" for b d
    using that t unfolding pending_iff builds_ok_def by force
  then show ?thesis
    using t unfolding flush_store_def t_def [symmetric] builds_ok_def write_builds_written by blast
qed

lemma builds_ok_reached: "reached s \<Longrightarrow> builds_ok s"
proof (induction rule: reached.induct)
  case (init since)
  show ?case by (simp add: builds_ok_def NewStore_def)
next
  case (ingest s at report resolve)
  then have "builds_ok (note_node at report s)" by (simp add: builds_ok_def)
  moreover have "builds_ok (fst ss) \<Longrightarrow> builds_ok (fst (fold (ingest_binary resolve at (Rep_Node report)) bs ss))" for bs ss
    by (induction bs arbitrary: ss) (simp_all add: builds_ok_binary)
  ultimately have "builds_ok (fst (fold (ingest_binary resolve at (Rep_Node report)) (Rep_Binaries report)
      (note_node at report s, \<lparr>seenPeaks = mempty, seenPorts = mempty, seenCounters = mempty\<rparr>)))" by simp
  then show ?case by (simp add: builds_ok_def Ingest_def Let_def)
next
  case (flush s pods nodes ok)
  then show ?case by (simp add: builds_ok_flush)
qed

lemma ingest_binary_builds:
  "St_written (fst (ingest_binary resolve at node b ss)) = St_written (fst ss)"
  "mget (St_builds (fst (ingest_binary resolve at node b ss))) d \<noteq> None \<longleftrightarrow>
     mget (St_builds (fst ss)) d \<noteq> None \<or> d \<noteq> [] \<and> (\<exists>res. resolve (Bin_PodUID b) (Bin_ContainerID b) = Some res \<and> Rs_ImageDigest res = d)"
  by (cases "resolve (Bin_PodUID b) (Bin_ContainerID b)"; auto simp: ingest_binary_def ingestBuild_def Let_def)+

lemma Ingest_builds:
  "St_written (Ingest at r resolve s) = St_written s"
  "mget (St_builds (Ingest at r resolve s)) d \<noteq> None \<longleftrightarrow>
     mget (St_builds s) d \<noteq> None \<or>
     d \<noteq> [] \<and> (\<exists>b \<in> set (Rep_Binaries r). \<exists>res. resolve (Bin_PodUID b) (Bin_ContainerID b) = Some res \<and> Rs_ImageDigest res = d)"
proof -
  have w: "St_written (fst (fold (ingest_binary resolve at node) bs ss)) = St_written (fst ss)" for node bs ss
    by (induction bs arbitrary: ss) (simp_all add: ingest_binary_builds)
  then show "St_written (Ingest at r resolve s) = St_written s" by (simp add: Ingest_def Let_def)
  have "mget (St_builds (fst (fold (ingest_binary resolve at node) bs ss))) d \<noteq> None \<longleftrightarrow> mget (St_builds (fst ss)) d \<noteq> None \<or>
      d \<noteq> [] \<and> (\<exists>b \<in> set bs. \<exists>res. resolve (Bin_PodUID b) (Bin_ContainerID b) = Some res \<and> Rs_ImageDigest res = d)" for node bs ss
  proof (induction bs arbitrary: ss)
    case (Cons b bs)
    show ?case unfolding fold_Cons comp_apply Cons.IH ingest_binary_builds(2) by auto
  qed simp
  then show "mget (St_builds (Ingest at r resolve s)) d \<noteq> None \<longleftrightarrow> mget (St_builds s) d \<noteq> None \<or>
     d \<noteq> [] \<and> (\<exists>b \<in> set (Rep_Binaries r). \<exists>res. resolve (Bin_PodUID b) (Bin_ContainerID b) = Some res \<and> Rs_ImageDigest res = d)"
    by (simp add: Ingest_def Let_def)
qed

text \<open>
  The facts of a build are sent once for as long as it stays, and again when it comes back. In every
  state the controller reaches by reports and flushes, after a report joins a binary to an image
  digest the facts of that digest are pending exactly unless they were already held and written:
  in particular a digest that was forgotten with its last workload, its mark included, and is seen
  again is pending again.
\<close>

theorem build_facts_pending_again:
  assumes "reached s" and "b \<in> set (Rep_Binaries r)" and "resolve (Bin_PodUID b) (Bin_ContainerID b) = Some res" and "Rs_ImageDigest res \<noteq> []"
  shows "Rs_ImageDigest res \<in> BF_ImageDigest ` set (PendingBuilds (Ingest at r resolve s)) \<longleftrightarrow>
    \<not> (mget (St_builds s) (Rs_ImageDigest res) \<noteq> None \<and> mget (St_written s) (Rs_ImageDigest res) \<noteq> None)"
proof -
  define d where "d = Rs_ImageDigest res"
  define s' where "s' = Ingest at r resolve s"
  have ok: "builds_ok s'" unfolding s'_def using builds_ok_reached reached.ingest [OF assms(1)] by blast
  have "mget (St_builds s') d \<noteq> None" unfolding s'_def Ingest_builds d_def using assms(2-4) by blast
  then obtain f where f: "mget (St_builds s') d = Some f" by blast
  then have fd: "BF_ImageDigest f = d" using ok unfolding builds_ok_def by blast
  have "d \<in> BF_ImageDigest ` set (PendingBuilds s') \<longleftrightarrow> mget (St_written s') d = None"
  proof
    assume "d \<in> BF_ImageDigest ` set (PendingBuilds s')"
    then obtain g e where "mget (St_builds s') e = Some g" "mget (St_written s') e = None" "BF_ImageDigest g = d"
      unfolding image_iff Bex_def pending_iff by metis
    moreover then have "e = d" using ok unfolding builds_ok_def by metis
    ultimately show "mget (St_written s') d = None" by simp
  next
    assume "mget (St_written s') d = None"
    then have "f \<in> set (PendingBuilds s')" unfolding pending_iff using f by blast
    then show "d \<in> BF_ImageDigest ` set (PendingBuilds s')" using fd by (metis imageI)
  qed
  moreover have "St_written s' = St_written s" by (simp add: s'_def Ingest_builds)
  moreover have "mget (St_written s) d \<noteq> None \<Longrightarrow> mget (St_builds s) d \<noteq> None"
    using builds_ok_reached [OF assms(1)] unfolding builds_ok_def by blast
  ultimately show ?thesis unfolding d_def s'_def by metis
qed

definition one_image :: resolver where
  "one_image uid cid = Some \<lparr>Rs_Namespace = ''shop'', Rs_WorkloadKind = ''Deployment'', Rs_WorkloadName = ''web'', Rs_Container = ''app'',
     Rs_ImageDigest = ''sha256:0f''\<rparr>"

theorem build_facts_pending_again_witness:
  "''sha256:0f'' \<in> BF_ImageDigest ` set (PendingBuilds (Ingest 9 witness_report one_image
     (flush_store [] [] (\<lambda>_. True) (flush_store [] [] (\<lambda>_. True) (Ingest 7 witness_report one_image (NewStore 1))))))"
proof -
  define s where "s = flush_store [] [] (\<lambda>_. True) (flush_store [] [] (\<lambda>_. True) (Ingest 7 witness_report one_image (NewStore 1)))"
  define b where "b = hd (Rep_Binaries witness_report)"
  define res where "res = the (one_image [] [])"
  have "reached s" unfolding s_def by (intro reached.intros)
  moreover have "b \<in> set (Rep_Binaries witness_report)" by (simp add: b_def witness_report_def)
  moreover have "one_image (Bin_PodUID b) (Bin_ContainerID b) = Some res" by (simp add: res_def one_image_def)
  moreover have d: "Rs_ImageDigest res = ''sha256:0f''" by (simp add: res_def one_image_def)
  moreover have "mget (St_builds s) d = None" for d
    by (simp add: s_def flush_store_def write_builds_written RetainNodes_def Retain_def LiveKeys_def referenced_digests_def mvalues_def
        mfilter.rep_eq mget_mfilter Let_def split: option.splits)
  ultimately show ?thesis using build_facts_pending_again [of s b witness_report one_image res 9] unfolding s_def by simp
qed

section \<open>Peaks of a build\<close>

lemma fold_max:
  fixes f :: "'a \<Rightarrow> int"
  shows "fold (\<lambda>a acc. max acc (f a)) xs x = Max (insert x (f ` set xs))"
proof (induction xs arbitrary: x)
  case (Cons a xs)
  have "Max (insert (max x (f a)) (f ` set xs)) = Max (insert x (insert (f a) (f ` set xs)))"
    by (cases "xs = []") (simp_all add: max.assoc)
  then show ?case using Cons by simp
qed simp

lemma contribution_peak: "np_peakRSSBytes (fold add_peaks bs n) = Max (insert (np_peakRSSBytes n) (Bin_PeakRSSBytes ` set bs))"
proof -
  have "np_peakRSSBytes (fold add_peaks bs n) = fold (\<lambda>b acc. max acc (Bin_PeakRSSBytes b)) bs (np_peakRSSBytes n)"
    by (induction bs arbitrary: n) (simp_all add: add_peaks_def Let_def)
  then show ?thesis by (simp only: fold_max)
qed

lemma record_peak: "Pk_PeakRSSBytes (peak_record s pk byNode) = Max (insert 0 (np_peakRSSBytes ` set (mvalues byNode)))"
proof -
  have "Pk_PeakRSSBytes (fold merge_peaks ns r) = fold (\<lambda>n acc. max acc (np_peakRSSBytes n)) ns (Pk_PeakRSSBytes r)" for ns r
    by (induction ns arbitrary: r) (simp_all add: merge_peaks_def Let_def)
  then show ?thesis by (simp add: peak_record_def fold_max)
qed

lemma finite_marks: "finite (Bin_PeakRSSBytes ` {b. (pk, b) \<in> set facts})"
proof -
  have "{b. (pk, b) \<in> set facts} \<subseteq> snd ` set facts" by force
  then have "finite {b. (pk, b) \<in> set facts}" by (rule finite_subset) simp
  then show ?thesis by (rule finite_imageI)
qed

text \<open>The processes of a build in the latest reports.\<close>

definition running :: "latest \<Rightarrow> BuildKey \<Rightarrow> BinaryInfo set" where
  "running \<sigma> pk = {b. \<exists>n. (pk, b) \<in> set (\<sigma> n)}"

lemma contribution_max:
  assumes "contribution_of has_peaks zeroPeaks add_peaks facts pk = Some c"
  shows "np_peakRSSBytes c = Max (insert 0 (Bin_PeakRSSBytes ` {b. (pk, b) \<in> set facts}))"
proof -
  define bs where "bs = filter has_peaks (map snd (filter (\<lambda>f. fst f = pk) facts))"
  have c: "c = fold add_peaks bs zeroPeaks" using assms by (simp add: contribution_of_def bs_def Let_def split: if_splits)
  have bs: "b \<in> set bs \<longleftrightarrow> (pk, b) \<in> set facts \<and> has_peaks b" for b by (force simp: bs_def)
  have "insert 0 (Bin_PeakRSSBytes ` set bs) = insert 0 (Bin_PeakRSSBytes ` {b. (pk, b) \<in> set facts})"
    using bs by (auto simp: has_peaks_def image_iff)
  then show ?thesis by (simp add: c contribution_peak zeroPeaks_def)
qed

text \<open>
  The published peak of a build is the largest high-water mark among its running processes. In every
  record of the peaks payload, after any history of reports and retentions, the peak bounds the mark
  of every process of that build in the latest report of its node, and where it is positive one of
  those processes reached it: no peak of a pod that is gone is published.
\<close>

theorem published_peak_is_reached:
  assumes "s = fold perform ops (NewStore since)" and "\<sigma> = fold specify ops (\<lambda>_. [])" and "r \<in> set (PeakSnapshot s)"
  shows "(\<forall>b \<in> running \<sigma> (Pk_Key r). Bin_PeakRSSBytes b \<le> Pk_PeakRSSBytes r) \<and>
    (0 < Pk_PeakRSSBytes r \<longrightarrow> (\<exists>b \<in> running \<sigma> (Pk_Key r). Bin_PeakRSSBytes b = Pk_PeakRSSBytes r))"
proof -
  have rep: "look (St_peaks s) (Pk_Key r) n = contribution_of has_peaks zeroPeaks add_peaks (\<sigma> n) (Pk_Key r)" for n
    using represents_run [of ops since] unfolding assms(1,2) represents_def by blast
  obtain byNode where bn: "mget (St_peaks s) (Pk_Key r) = Some byNode" "r = peak_record s (Pk_Key r) byNode"
    using PeakSnapshot_keys [OF assms(3)] by blast
  have cn: "mget byNode n = contribution_of has_peaks zeroPeaks add_peaks (\<sigma> n) (Pk_Key r)" for n
    using rep [of n] bn(1) by (simp add: look_def)
  have top: "Pk_PeakRSSBytes r = Max (insert 0 (np_peakRSSBytes ` set (mvalues byNode)))" using record_peak bn(2) by metis
  have upper: "Bin_PeakRSSBytes b \<le> Pk_PeakRSSBytes r" if b: "(Pk_Key r, b) \<in> set (\<sigma> n)" for b n
  proof (cases "mget byNode n")
    case None
    then have none: "filter has_peaks (map snd (filter (\<lambda>f. fst f = Pk_Key r) (\<sigma> n))) = []"
      using cn [of n] by (simp add: contribution_of_def Let_def split: if_splits)
    have "b \<in> set (map snd (filter (\<lambda>f. fst f = Pk_Key r) (\<sigma> n)))" using b by force
    then have "\<not> has_peaks b" using none unfolding filter_empty_conv by blast
    then show ?thesis unfolding top by (simp add: has_peaks_def)
  next
    case (Some c)
    have "Bin_PeakRSSBytes b \<le> np_peakRSSBytes c"
      unfolding contribution_max [OF trans [OF cn [symmetric] Some]] using b finite_marks by (intro Max_ge) auto
    moreover have "c \<in> set (mvalues byNode)" using Some mvalues_iff by metis
    ultimately show ?thesis unfolding top by (meson Max_ge finite_imageI finite_insert finite_set image_eqI insertI2 order_trans)
  qed
  have "\<exists>b \<in> running \<sigma> (Pk_Key r). Bin_PeakRSSBytes b = Pk_PeakRSSBytes r" if pos: "0 < Pk_PeakRSSBytes r"
  proof -
    have "Pk_PeakRSSBytes r \<in> insert 0 (np_peakRSSBytes ` set (mvalues byNode))" unfolding top by (intro Max_in) auto
    then obtain c n where c: "mget byNode n = Some c" "np_peakRSSBytes c = Pk_PeakRSSBytes r"
      using pos mvalues_iff by fastforce
    have "np_peakRSSBytes c \<in> insert 0 (Bin_PeakRSSBytes ` {b. (Pk_Key r, b) \<in> set (\<sigma> n)})"
      unfolding contribution_max [OF trans [OF cn [symmetric] c(1)]] using finite_marks by (intro Max_in) auto
    then show ?thesis using c(2) pos by (auto simp: running_def)
  qed
  then show ?thesis using upper unfolding running_def by blast
qed

definition witness_ops :: "operation list" where
  "witness_ops = [OpIngest 7 (witness_report\<lparr>Rep_Binaries := [witness_binary\<lparr>Bin_PeakRSSBytes := 4096\<rparr>]\<rparr>) one_image]"

definition witness_peak :: PeakRecord where
  "witness_peak = hd (PeakSnapshot (fold perform witness_ops (NewStore 1)))"

theorem published_peak_is_reached_witness:
  "\<exists>b \<in> running (fold specify witness_ops (\<lambda>_. [])) (Pk_Key witness_peak). Bin_PeakRSSBytes b = Pk_PeakRSSBytes witness_peak"
proof -
  have "\<not> List.null (PeakSnapshot (fold perform witness_ops (NewStore 1)))" by code_simp
  then have "witness_peak \<in> set (PeakSnapshot (fold perform witness_ops (NewStore 1)))" by (simp add: witness_peak_def)
  moreover have "0 < Pk_PeakRSSBytes witness_peak" by code_simp
  ultimately show ?thesis using published_peak_is_reached [OF refl refl] by blast
qed

end
