(* ===== verification/NodeIntake.thy ===== *)
theory NodeIntake
  imports Inventory
begin

text \<open>
  The channel from the nodes to the controller: the verification of a node's token
  (\<open>internal/nodeauth/verifier.go\<close> and the key cache of \<open>jwks.go\<close>), the receiver's handlers
  (\<open>internal/nodeintake\<close>), and what \<open>cmd/agent/main.go\<close> does with an accepted report or profile.

  The JWT library is a parameter: it extracts the key identifier of a token whose algorithm is among
  the methods allowed, and validates the token with a key, an audience and a leeway at a given time. A
  request is its method, its authorization header and its body as the JSON decoder sees it: over the
  bound, undecodable (a field the schema does not have included), or a value with or without trailing
  data.
\<close>

section \<open>Keys\<close>

record 'k KeySet =
  KS_keys :: "(string, 'k) gomap"

definition KeySet_Key :: "'k KeySet \<Rightarrow> string \<Rightarrow> 'k option" where
  "KeySet_Key ks kid =
     (if kid = [] then (case entries (KS_keys ks) of [e] \<Rightarrow> Some (snd e) | _ \<Rightarrow> None)
      else mget (KS_keys ks) kid)"

definition defaultRefetchInterval :: duration where "defaultRefetchInterval = 30 * second"

record 'k CachingKeySource =
  CK_RefetchInterval :: duration
  CK_cached :: "'k KeySet option"
  CK_lastFetch :: time

definition refetch_interval :: "'k CachingKeySource \<Rightarrow> duration" where
  "refetch_interval c = (if CK_RefetchInterval c \<le> 0 then defaultRefetchInterval else CK_RefetchInterval c)"

text \<open>
  The outcome of a refresh, should one be made now, is an argument: \<^const>\<open>None\<close> is a refresh that fails.
  The last component of the result says whether it was made.
\<close>

definition CachingKeySource_Key ::
    "'k KeySet option \<Rightarrow> time \<Rightarrow> string \<Rightarrow> 'k CachingKeySource \<Rightarrow> 'k option \<times> 'k CachingKeySource \<times> bool" where
  "CachingKeySource_Key fetch at kid c =
     (case (case CK_cached c of None \<Rightarrow> None | Some ks \<Rightarrow> KeySet_Key ks kid) of
        Some key \<Rightarrow> (Some key, c, False)
      | None \<Rightarrow>
          if \<not> IsZero (CK_lastFetch c) \<and> Sub at (CK_lastFetch c) < refetch_interval c then (None, c, False)
          else
            let c = c\<lparr>CK_lastFetch := at\<rparr> in
            case fetch of
              None \<Rightarrow> (None, c, True)
            | Some ks \<Rightarrow> (KeySet_Key ks kid, c\<lparr>CK_cached := Some ks\<rparr>, True))"

section \<open>The verifier\<close>

definition asymmetricMethods :: "string list" where
  "asymmetricMethods = [''RS256'', ''RS384'', ''RS512'', ''ES256'', ''ES384'', ''ES512'', ''PS256'', ''PS384'', ''PS512'']"

record Identity =
  Ident_Subject :: string
  Ident_Namespace :: string
  Ident_ServiceAccount :: string
  Ident_Node :: string
  Ident_NodeUID :: string
  Ident_Audience :: "string list"
  Ident_ExpiresAt :: time

record nodeBoundClaims =
  Cl_Subject :: string
  Cl_Audience :: "string list"
  Cl_ExpiresAt :: "time option"
  Cl_NodeName :: string
  Cl_NodeUID :: string

record 'k jwt_library =
  jwt_kid :: "string list \<Rightarrow> string \<Rightarrow> string option"
  jwt_validate :: "'k \<Rightarrow> string \<Rightarrow> duration \<Rightarrow> time \<Rightarrow> string \<Rightarrow> nodeBoundClaims option"

record Verifier =
  V_audience :: string
  V_expectedSubject :: string
  V_leeway :: duration

definition NewVerifier :: "string \<Rightarrow> string \<Rightarrow> Verifier" where
  "NewVerifier audience expectedSubject = \<lparr>V_audience = audience, V_expectedSubject = expectedSubject, V_leeway = minute\<rparr>"

definition splitServiceAccountSubject :: "string \<Rightarrow> string \<times> string" where
  "splitServiceAccountSubject sub =
     (case CutPrefix sub ''system:serviceaccount:'' of
        None \<Rightarrow> ([], [])
      | Some rest \<Rightarrow> case Cut rest (CHR '':'') of None \<Rightarrow> ([], []) | Some (ns, sa) \<Rightarrow> (ns, sa))"

definition identity_of :: "nodeBoundClaims \<Rightarrow> Identity" where
  "identity_of claims =
     \<lparr>Ident_Subject = Cl_Subject claims,
      Ident_Namespace = fst (splitServiceAccountSubject (Cl_Subject claims)),
      Ident_ServiceAccount = snd (splitServiceAccountSubject (Cl_Subject claims)),
      Ident_Node = Cl_NodeName claims, Ident_NodeUID = Cl_NodeUID claims, Ident_Audience = Cl_Audience claims,
      Ident_ExpiresAt = (case Cl_ExpiresAt claims of None \<Rightarrow> 0 | Some t \<Rightarrow> t)\<rparr>"

definition Verify ::
    "'k jwt_library \<Rightarrow> Verifier \<Rightarrow> 'k KeySet option \<Rightarrow> time \<Rightarrow> string \<Rightarrow> 'k CachingKeySource \<Rightarrow> Identity option \<times> 'k CachingKeySource" where
  "Verify jwt v fetch now token keys =
     (case jwt_kid jwt asymmetricMethods token of
        None \<Rightarrow> (None, keys)
      | Some kid \<Rightarrow>
          let kc = CachingKeySource_Key fetch now kid keys; keys = fst (snd kc) in
          case fst kc of
            None \<Rightarrow> (None, keys)
          | Some key \<Rightarrow>
              case jwt_validate jwt key (V_audience v) (V_leeway v) now token of
                None \<Rightarrow> (None, keys)
              | Some claims \<Rightarrow>
                  if V_expectedSubject v \<noteq> [] \<and> Cl_Subject claims \<noteq> V_expectedSubject v then (None, keys)
                  else if Cl_NodeName claims = [] then (None, keys)
                  else (Some (identity_of claims), keys))"

section \<open>Rejections\<close>

record Rejections =
  Rj_unauthorized :: nat
  Rj_tooLarge :: nat
  Rj_malformed :: nat

definition noRejections :: Rejections where
  "noRejections = \<lparr>Rj_unauthorized = 0, Rj_tooLarge = 0, Rj_malformed = 0\<rparr>"

text \<open>The methods of a \<open>*Rejections\<close>, which may be nil.\<close>

definition unauthorizedAdd :: "Rejections option \<Rightarrow> Rejections option" where
  "unauthorizedAdd r = map_option (\<lambda>r. r\<lparr>Rj_unauthorized := addu64 (Rj_unauthorized r) 1\<rparr>) r"

definition tooLargeAdd :: "Rejections option \<Rightarrow> Rejections option" where
  "tooLargeAdd r = map_option (\<lambda>r. r\<lparr>Rj_tooLarge := addu64 (Rj_tooLarge r) 1\<rparr>) r"

definition malformedAdd :: "Rejections option \<Rightarrow> Rejections option" where
  "malformedAdd r = map_option (\<lambda>r. r\<lparr>Rj_malformed := addu64 (Rj_malformed r) 1\<rparr>) r"

definition Rejections_Snapshot :: "Rejections option \<Rightarrow> Rejections" where
  "Rejections_Snapshot r = (case r of None \<Rightarrow> noRejections | Some r \<Rightarrow> r)"

definition Rejections_Plus :: "Rejections \<Rightarrow> Rejections \<Rightarrow> Rejections" where
  "Rejections_Plus r q =
     \<lparr>Rj_unauthorized = addu64 (Rj_unauthorized r) (Rj_unauthorized q), Rj_tooLarge = addu64 (Rj_tooLarge r) (Rj_tooLarge q),
      Rj_malformed = addu64 (Rj_malformed r) (Rj_malformed q)\<rparr>"

section \<open>Requests\<close>

datatype 'r body = BodyTooLarge | BodyMalformed | Body 'r bool

record 'r request =
  Rq_Method :: string
  Rq_Authorization :: string
  Rq_Body :: "'r body"

definition bearerToken :: "string \<Rightarrow> string option" where
  "bearerToken h =
     (if h = [] then None
      else if length h < length ''bearer '' \<or> ToLower (take (length ''bearer '') h) \<noteq> ''bearer '' then None
      else let token = TrimSpace (drop (length ''bearer '') h) in if token = [] then None else Some token)"

type_synonym response = "int \<times> string"

definition MethodNotAllowed :: response where "MethodNotAllowed = (405, ''method not allowed'')"
definition MissingToken :: response where "MissingToken = (401, ''missing bearer token'')"
definition Unauthorized :: response where "Unauthorized = (401, ''unauthorized'')"
definition Accepted :: response where "Accepted = (202, ''accepted'')"

text \<open>\<^const>\<open>None\<close> is a caller that speaks for its own node.\<close>

definition authorizeNode :: "Rejections option \<Rightarrow> Identity \<Rightarrow> string \<Rightarrow> response option \<times> Rejections option" where
  "authorizeNode rej ident claimed =
     (if claimed = [] then (Some (400, ''node required''), malformedAdd rej)
      else if claimed \<noteq> Ident_Node ident then (Some (403, ''node does not match the token''), unauthorizedAdd rej)
      else (None, rej))"

type_synonym 'v verify = "string \<Rightarrow> 'v \<Rightarrow> Identity option \<times> 'v"

record ('r, 'v) served =
  Sv_response :: response
  Sv_accepted :: "(Identity \<times> 'r) option"
  Sv_verifier :: 'v
  Sv_rejections :: "Rejections option"

text \<open>The two push handlers differ in what they decode and in the name their messages use.\<close>

definition serve_push :: "string \<Rightarrow> ('r \<Rightarrow> string) \<Rightarrow> 'v verify \<Rightarrow> 'r request \<Rightarrow> 'v \<Rightarrow> Rejections option \<Rightarrow> ('r, 'v) served" where
  "serve_push what node_of verify rq v rej =
     (if Rq_Method rq \<noteq> ''POST'' then \<lparr>Sv_response = MethodNotAllowed, Sv_accepted = None, Sv_verifier = v, Sv_rejections = rej\<rparr>
      else case bearerToken (Rq_Authorization rq) of
        None \<Rightarrow> \<lparr>Sv_response = MissingToken, Sv_accepted = None, Sv_verifier = v, Sv_rejections = unauthorizedAdd rej\<rparr>
      | Some token \<Rightarrow>
          let (ident, v) = verify token v in
          case ident of
            None \<Rightarrow> \<lparr>Sv_response = Unauthorized, Sv_accepted = None, Sv_verifier = v, Sv_rejections = unauthorizedAdd rej\<rparr>
          | Some ident \<Rightarrow>
              case Rq_Body rq of
                BodyTooLarge \<Rightarrow> \<lparr>Sv_response = (413, what @ '' too large''), Sv_accepted = None, Sv_verifier = v, Sv_rejections = tooLargeAdd rej\<rparr>
              | BodyMalformed \<Rightarrow> \<lparr>Sv_response = (400, ''malformed '' @ what), Sv_accepted = None, Sv_verifier = v, Sv_rejections = malformedAdd rej\<rparr>
              | Body report trailing \<Rightarrow>
                  if trailing then \<lparr>Sv_response = (400, ''malformed '' @ what), Sv_accepted = None, Sv_verifier = v, Sv_rejections = malformedAdd rej\<rparr>
                  else case authorizeNode rej ident (node_of report) of
                    (Some refusal, rej) \<Rightarrow> \<lparr>Sv_response = refusal, Sv_accepted = None, Sv_verifier = v, Sv_rejections = rej\<rparr>
                  | (None, rej) \<Rightarrow> \<lparr>Sv_response = Accepted, Sv_accepted = Some (ident, report), Sv_verifier = v, Sv_rejections = rej\<rparr>)"

definition Handler_ServeHTTP :: "'v verify \<Rightarrow> Report request \<Rightarrow> 'v \<Rightarrow> Rejections option \<Rightarrow> (Report, 'v) served" where
  "Handler_ServeHTTP = serve_push ''report'' Rep_Node"

record ProfileReport =
  PR_Node :: string
  PR_PodUID :: string
  PR_ContainerID :: string
  PR_PID :: int
  PR_CaptureStart :: time
  PR_CaptureEnd :: time
  PR_Pprof :: string

definition ProfileHandler_ServeHTTP :: "'v verify \<Rightarrow> ProfileReport request \<Rightarrow> 'v \<Rightarrow> Rejections option \<Rightarrow> (ProfileReport, 'v) served" where
  "ProfileHandler_ServeHTTP = serve_push ''profile'' PR_Node"

text \<open>The rejections the two constructors give their handlers.\<close>

definition NewHandler_rejections :: "Rejections option" where "NewHandler_rejections = Some noRejections"

definition NewProfileHandler_rejections :: "Rejections option" where "NewProfileHandler_rejections = None"

text \<open>The two queries: a refusal, or the answer for the node of the token.\<close>

definition serve_query :: "(string \<Rightarrow> 'a) \<Rightarrow> 'v verify \<Rightarrow> string request \<Rightarrow> 'v \<Rightarrow> (response + 'a) \<times> 'v" where
  "serve_query answer verify rq v =
     (if Rq_Method rq \<noteq> ''POST'' then (Inl MethodNotAllowed, v)
      else case bearerToken (Rq_Authorization rq) of
        None \<Rightarrow> (Inl MissingToken, v)
      | Some token \<Rightarrow>
          let (ident, v) = verify token v in
          case ident of
            None \<Rightarrow> (Inl Unauthorized, v)
          | Some ident \<Rightarrow>
              case Rq_Body rq of
                BodyTooLarge \<Rightarrow> (Inl (413, ''query too large''), v)
              | BodyMalformed \<Rightarrow> (Inl (400, ''malformed query''), v)
              | Body node _ \<Rightarrow>
                  case fst (authorizeNode None ident node) of
                    Some refusal \<Rightarrow> (Inl refusal, v)
                  | None \<Rightarrow> (Inr (answer (Ident_Node ident)), v))"

definition ScopeHandler_ServeHTTP :: "PodWatcher \<Rightarrow> 'v verify \<Rightarrow> string request \<Rightarrow> 'v \<Rightarrow> (response + string list) \<times> 'v" where
  "ScopeHandler_ServeHTTP w = serve_query (AdmittedPodsOnNode w)"

definition TargetsHandler_ServeHTTP :: "(string \<Rightarrow> string list) \<Rightarrow> 'v verify \<Rightarrow> string request \<Rightarrow> 'v \<Rightarrow> (response + string list) \<times> 'v" where
  "TargetsHandler_ServeHTTP targeter = serve_query targeter"

section \<open>The controller's side\<close>

definition onReport :: "PodWatcher \<Rightarrow> time \<Rightarrow> Identity \<Rightarrow> Report \<Rightarrow> Store \<Rightarrow> Store" where
  "onReport w at ident report s = Ingest at report (podContainerResolver w (Ident_Node ident)) s"

text \<open>A report that arrives: the handler, and the join where it was accepted.\<close>

definition receive_report :: "PodWatcher \<Rightarrow> time \<Rightarrow> 'v verify \<Rightarrow> Report request \<Rightarrow> 'v \<times> Rejections option \<times> Store \<Rightarrow> 'v \<times> Rejections option \<times> Store" where
  "receive_report w at verify rq st =
     (let out = Handler_ServeHTTP verify rq (fst st) (fst (snd st)) in
      (Sv_verifier out, Sv_rejections out,
       case Sv_accepted out of None \<Rightarrow> snd (snd st) | Some (ident, report) \<Rightarrow> onReport w at ident report (snd (snd st))))"

record profile_counts =
  Pf_received :: nat
  Pf_unjoined :: nat

text \<open>
  \<open>onProfile\<close>: the profile is joined and handed to the spool, whose write is an argument (\<^const>\<open>None\<close> with
  no spool); the result of the write decides whether it counts as received.
\<close>

definition onProfile ::
    "PodWatcher \<Rightarrow> (ProfileKey \<Rightarrow> string \<Rightarrow> 's \<Rightarrow> 's \<times> 'e option) option \<Rightarrow> Identity \<Rightarrow> ProfileReport \<Rightarrow> profile_counts \<times> 's \<Rightarrow> profile_counts \<times> 's" where
  "onProfile w spool ident report st =
     (case LookupContainerOnNode w (PR_PodUID report) (PR_ContainerID report) (Ident_Node ident) of
        None \<Rightarrow> ((fst st)\<lparr>Pf_unjoined := addu64 (Pf_unjoined (fst st)) 1\<rparr>, snd st)
      | Some (ns, workload, container, digest) \<Rightarrow>
          let key = \<lparr>Prof_Namespace = ns, Prof_Workload = Ref_Name workload, Prof_Container = container, Prof_ImageDigest = digest,
                     Prof_CaptureStart = PR_CaptureStart report, Prof_CaptureEnd = PR_CaptureEnd report\<rparr>;
              wr = (case spool of None \<Rightarrow> (snd st, None) | Some f \<Rightarrow> f key (PR_Pprof report) (snd st))
          in case snd wr of
               Some _ \<Rightarrow> (fst st, fst wr)
             | None \<Rightarrow> ((fst st)\<lparr>Pf_received := addu64 (Pf_received (fst st)) 1\<rparr>, fst wr))"

section \<open>The node's side\<close>

definition readProjectedToken :: "string option \<Rightarrow> string option" where
  "readProjectedToken raw =
     (case raw of None \<Rightarrow> None | Some t \<Rightarrow> let token = TrimSpace t in if token = [] then None else Some token)"

text \<open>\<open>scopeClient.fetch\<close> and \<open>targetsClient.fetch\<close>: the request a node makes of itself, and its answer.\<close>

definition node_query :: "string \<Rightarrow> string \<Rightarrow> string request" where
  "node_query token node = \<lparr>Rq_Method = ''POST'', Rq_Authorization = ''Bearer '' @ token, Rq_Body = Body node False\<rparr>"

definition client_fetch :: "string option \<Rightarrow> (string request \<Rightarrow> (response + string list) option) \<Rightarrow> string \<Rightarrow> string list option" where
  "client_fetch tokenFile transport node =
     (case readProjectedToken tokenFile of
        None \<Rightarrow> None
      | Some token \<Rightarrow>
          case transport (node_query token node) of
            None \<Rightarrow> None
          | Some (Inl _) \<Rightarrow> None
          | Some (Inr uids) \<Rightarrow> Some uids)"

text \<open>\<open>scanScope\<close> of the node role; the first argument is whether an endpoint is configured.\<close>

definition scanScope :: "bool \<Rightarrow> string list option \<Rightarrow> Scope" where
  "scanScope configured fetched =
     (if \<not> configured then DenyAll else case fetched of None \<Rightarrow> DenyAll | Some uids \<Rightarrow> NewScope uids)"

text \<open>\<open>reportShipper.ship\<close>: the report built, and the count of what became of it.\<close>

record reportShipper =
  Rs_node :: string
  Rs_shipped :: nat
  Rs_failures :: nat

definition make_report :: "reportShipper \<Rightarrow> Result \<Rightarrow> ProfilingCoverage \<Rightarrow> Report" where
  "make_report s res prof = \<lparr>Rep_Node = Rs_node s, Rep_Binaries = Res_Binaries res, Rep_Counters = Res_Counters res, Rep_Profiling = Some prof\<rparr>"

definition ship_report ::
    "string option \<Rightarrow> (Report request \<Rightarrow> int option) \<Rightarrow> Result \<Rightarrow> ProfilingCoverage \<Rightarrow> reportShipper \<Rightarrow> bool \<times> reportShipper" where
  "ship_report tokenFile transport res prof s =
     (let delivered =
        (case readProjectedToken tokenFile of
           None \<Rightarrow> False
         | Some token \<Rightarrow>
             case transport \<lparr>Rq_Method = ''POST'', Rq_Authorization = ''Bearer '' @ token, Rq_Body = Body (make_report s res prof) False\<rparr> of
               None \<Rightarrow> False
             | Some status \<Rightarrow> \<not> (status < 200 \<or> status \<ge> 300))
      in (delivered,
          if delivered then s\<lparr>Rs_shipped := addu64 (Rs_shipped s) 1\<rparr> else s\<lparr>Rs_failures := addu64 (Rs_failures s) 1\<rparr>))"

section \<open>Refreshing the keys\<close>

text \<open>
  A sequence of key lookups, each at its time, with the identifier the caller chose and the outcome a
  refresh would have; the instants at which one was made.
\<close>

fun refreshes :: "(time \<times> string \<times> 'k KeySet option) list \<Rightarrow> 'k CachingKeySource \<Rightarrow> time list" where
  "refreshes [] c = []"
| "refreshes ((at, kid, fetch) # calls) c =
     (let r = CachingKeySource_Key fetch at kid c in (if snd (snd r) then [at] else []) @ refreshes calls (fst (snd r)))"

lemma Key_step:
  assumes "0 < at"
  shows "CK_RefetchInterval (fst (snd (CachingKeySource_Key fetch at kid c))) = CK_RefetchInterval c"
    and "snd (snd (CachingKeySource_Key fetch at kid c)) \<Longrightarrow> CK_lastFetch c \<noteq> 0 \<Longrightarrow> CK_lastFetch c + refetch_interval c \<le> at"
    and "CK_lastFetch (fst (snd (CachingKeySource_Key fetch at kid c))) =
      (if snd (snd (CachingKeySource_Key fetch at kid c)) then at else CK_lastFetch c)"
proof -
  have sub: "\<not> Sub at l < i \<Longrightarrow> 0 < i \<Longrightarrow> l + i \<le> at" for l i
    by (auto simp: Sub_def clamp64_def minInt64_def maxInt64_def split: if_splits)
  have pos: "0 < refetch_interval c" by (simp add: refetch_interval_def defaultRefetchInterval_def second_def)
  show "CK_RefetchInterval (fst (snd (CachingKeySource_Key fetch at kid c))) = CK_RefetchInterval c"
    "CK_lastFetch (fst (snd (CachingKeySource_Key fetch at kid c))) =
      (if snd (snd (CachingKeySource_Key fetch at kid c)) then at else CK_lastFetch c)"
    by (auto simp: CachingKeySource_Key_def Let_def split: option.splits)
  show "snd (snd (CachingKeySource_Key fetch at kid c)) \<Longrightarrow> CK_lastFetch c \<noteq> 0 \<Longrightarrow> CK_lastFetch c + refetch_interval c \<le> at"
    using sub [of "CK_lastFetch c" "refetch_interval c"] pos
    by (auto simp: CachingKeySource_Key_def Let_def split: option.splits if_splits)
qed

lemma refreshes_after:
  assumes "\<forall>call \<in> set calls. 0 < fst call" and "CK_lastFetch c \<noteq> 0" and "t \<in> set (refreshes calls c)"
  shows "CK_lastFetch c + refetch_interval c \<le> t"
  using assms
proof (induction calls arbitrary: c)
  case (Cons call calls)
  obtain at kid fetch where call: "call = (at, kid, fetch)" by (cases call) auto
  have at: "0 < at" using Cons.prems(1) call by simp
  define r where "r = CachingKeySource_Key fetch at kid c"
  note step = Key_step [OF at, of fetch kid c, folded r_def]
  have interval: "refetch_interval (fst (snd r)) = refetch_interval c" using step(1) by (simp add: refetch_interval_def)
  have pos: "0 < refetch_interval c" by (simp add: refetch_interval_def defaultRefetchInterval_def second_def)
  consider "t = at" "snd (snd r)" | "t \<in> set (refreshes calls (fst (snd r)))"
    using Cons.prems(3) call by (auto simp: r_def Let_def split: if_splits)
  then show ?case
  proof cases
    case 1
    then show ?thesis using step(2) Cons.prems(2) by simp
  next
    case 2
    have "CK_lastFetch (fst (snd r)) \<noteq> 0" using step(3) at Cons.prems(2) by simp
    from Cons.IH [OF _ this 2] Cons.prems(1)
    have "CK_lastFetch (fst (snd r)) + refetch_interval c \<le> t" by (simp add: interval)
    then show ?thesis using step(2,3) Cons.prems(2) pos by (cases "snd (snd r)") simp_all
  qed
qed simp

text \<open>
  Unverified callers cannot make the controller refresh its signing keys at will. Whatever sequence
  of key identifiers arrives, read from tokens whose signature has not been checked, and whether the
  refreshes succeed or fail, two refreshes are at least the configured interval apart (thirty seconds by
  default).
\<close>

theorem key_refreshes_rate_limited:
  assumes "\<forall>call \<in> set calls. 0 < fst call"
  shows "sorted_wrt (\<lambda>t t'. t + refetch_interval c \<le> t') (refreshes calls c)"
  using assms
proof (induction calls arbitrary: c)
  case (Cons call calls)
  obtain at kid fetch where call: "call = (at, kid, fetch)" by (cases call) auto
  have at: "0 < at" using Cons.prems call by simp
  define r where "r = CachingKeySource_Key fetch at kid c"
  note step = Key_step [OF at, of fetch kid c, folded r_def]
  have interval: "refetch_interval (fst (snd r)) = refetch_interval c" using step(1) by (simp add: refetch_interval_def)
  have "sorted_wrt (\<lambda>t t'. t + refetch_interval c \<le> t') (refreshes calls (fst (snd r)))"
    using Cons.IH [of "fst (snd r)"] Cons.prems by (simp add: interval)
  moreover have "at + refetch_interval c \<le> t" if "snd (snd r)" "t \<in> set (refreshes calls (fst (snd r)))" for t
    using refreshes_after [OF _ _ that(2)] Cons.prems step(3) that(1) at by (simp add: interval)
  ultimately show ?case by (simp add: call r_def [symmetric] Let_def)
qed simp

definition idle_source :: "nat CachingKeySource" where
  "idle_source = \<lparr>CK_RefetchInterval = 5, CK_cached = None, CK_lastFetch = 0\<rparr>"

theorem key_refreshes_rate_limited_witness:
  "sorted_wrt (\<lambda>t t'. t + refetch_interval idle_source \<le> t')
     (refreshes [(10, ''a'', None), (11, ''b'', None), (15, ''c'', None)] idle_source)"
  by (rule key_refreshes_rate_limited) simp

section \<open>What a verified token establishes\<close>

lemma Verify_identity:
  assumes "Verify jwt v fetch now token keys = (Some ident, keys')"
  shows "Ident_Node ident \<noteq> [] \<and> (V_expectedSubject v = [] \<or> Ident_Subject ident = V_expectedSubject v)"
  using assms by (auto simp: Verify_def identity_of_def Let_def split: option.splits if_splits)

lemma push_accepted:
  assumes "Sv_accepted (serve_push what node_of verify rq v rej) = Some (ident, report)"
  shows "\<exists>token. bearerToken (Rq_Authorization rq) = Some token \<and> fst (verify token v) = Some ident \<and>
    node_of report = Ident_Node ident \<and> node_of report \<noteq> []"
  using assms
  by (auto simp: serve_push_def authorizeNode_def split: if_splits option.splits prod.splits body.splits)

text \<open>What joins a report of a node: a container of an admitted pod on that node.\<close>

lemma resolver_key:
  assumes "podContainerResolver w node uid cid = Some res"
  shows "\<exists>entry. mget (W_index w) uid = Some entry \<and> E_node entry = node \<and> node \<noteq> [] \<and> fst (resolved_key res) = E_namespace entry \<and>
    of_workload (E_workload entry) (resolved_key res)"
  using assms
  by (auto simp: podContainerResolver_def LookupContainerOnNode_def resolved_key_def of_workload_def split: option.splits if_splits)

lemma ingest_records:
  assumes "mget (St_records (fst (fold (ingest_binary resolve at node) bs ss))) k \<noteq> mget (St_records (fst ss)) k"
  shows "\<exists>uid cid res. resolve uid cid = Some res \<and> resolved_key res = k"
  using assms
proof (induction bs arbitrary: ss)
  case (Cons b bs)
  show ?case
  proof (cases "mget (St_records (fst (ingest_binary resolve at node b ss))) k = mget (St_records (fst ss)) k")
    case True
    then show ?thesis using Cons.IH [of "ingest_binary resolve at node b ss"] Cons.prems by simp
  next
    case False
    then obtain res where "resolve (Bin_PodUID b) (Bin_ContainerID b) = Some res" "resolved_key res = k"
      by (cases "resolve (Bin_PodUID b) (Bin_ContainerID b)") (auto simp: ingest_binary_def Let_def split: if_splits)
    then show ?thesis by blast
  qed
qed simp

lemma Ingest_records:
  assumes "mget (St_records (Ingest at r resolve s)) k \<noteq> mget (St_records s) k"
  shows "\<exists>uid cid res. resolve uid cid = Some res \<and> resolved_key res = k"
  using ingest_records [of resolve at "Rep_Node r" "Rep_Binaries r"
      "(note_node at r s, \<lparr>seenPeaks = mempty, seenPorts = mempty, seenCounters = mempty\<rparr>)" k] assms
  by (simp add: Ingest_def Let_def)


text \<open>A library that accepts every token for the node \<open>n1\<close>, and a key set that holds its key.\<close>

definition trusting_jwt :: "nat jwt_library" where
  "trusting_jwt = \<lparr>jwt_kid = (\<lambda>_ _. Some ''k''), jwt_validate = (\<lambda>_ aud _ now _. Some \<lparr>Cl_Subject = ''system:serviceaccount:ra:node'',
     Cl_Audience = [aud], Cl_ExpiresAt = Some (now + 1), Cl_NodeName = ''n1'', Cl_NodeUID = ''x''\<rparr>)\<rparr>"

definition held_keys :: "nat CachingKeySource" where
  "held_keys = \<lparr>CK_RefetchInterval = 0, CK_cached = Some \<lparr>KS_keys = mput ''k'' 1 mempty\<rparr>, CK_lastFetch = 3\<rparr>"

definition witness_verify :: "nat CachingKeySource verify" where
  "witness_verify = (\<lambda>token. Verify trusting_jwt (NewVerifier ''ra'' ''system:serviceaccount:ra:node'') None 9 token)"

definition witness_request :: "Report request" where
  "witness_request = \<lparr>Rq_Method = ''POST'', Rq_Authorization = ''Bearer t'', Rq_Body = Body witness_report False\<rparr>"


section \<open>Refusals are counted\<close>

text \<open>The responses of a handler to a sequence of requests, with the verifier's state threaded through.\<close>

fun serve_all :: "('r request \<Rightarrow> 'v \<Rightarrow> Rejections option \<Rightarrow> ('r, 'v) served) \<Rightarrow> 'r request list \<Rightarrow> 'v \<Rightarrow> Rejections option \<Rightarrow> int list \<times> Rejections option" where
  "serve_all h [] v rej = ([], rej)"
| "serve_all h (rq # rqs) v rej =
     (let out = h rq v rej; rest = serve_all h rqs (Sv_verifier out) (Sv_rejections out)
      in (fst (Sv_response out) # fst rest, snd rest))"

definition tally_of :: "(int \<Rightarrow> bool) \<Rightarrow> int list \<Rightarrow> nat" where
  "tally_of P cs = length (filter P cs)"

lemma push_counts:
  "Sv_rejections (serve_push what node_of verify rq v (Some r)) =
     Some (let code = fst (Sv_response (serve_push what node_of verify rq v (Some r))) in
       \<lparr>Rj_unauthorized = (if code = 401 \<or> code = 403 then addu64 (Rj_unauthorized r) 1 else Rj_unauthorized r),
        Rj_tooLarge = (if code = 413 then addu64 (Rj_tooLarge r) 1 else Rj_tooLarge r),
        Rj_malformed = (if code = 400 then addu64 (Rj_malformed r) 1 else Rj_malformed r)\<rparr>)"
  by (auto simp: serve_push_def authorizeNode_def unauthorizedAdd_def tooLargeAdd_def malformedAdd_def
      MethodNotAllowed_def MissingToken_def Unauthorized_def Accepted_def split: option.splits prod.splits body.splits)

lemma addu64_add: "addu64 (addu64 a b) c = addu64 a (b + c)"
  by (simp add: addu64_def wrapu64_def mod_simps add.assoc)

lemma push_all_counts:
  "snd (serve_all (serve_push what node_of verify) rqs v (Some r)) =
     Some (let codes = fst (serve_all (serve_push what node_of verify) rqs v (Some r)) in
       r\<lparr>Rj_unauthorized := if tally_of (\<lambda>c. c = 401 \<or> c = 403) codes = 0 then Rj_unauthorized r else addu64 (Rj_unauthorized r) (tally_of (\<lambda>c. c = 401 \<or> c = 403) codes),
         Rj_tooLarge := if tally_of (\<lambda>c. c = 413) codes = 0 then Rj_tooLarge r else addu64 (Rj_tooLarge r) (tally_of (\<lambda>c. c = 413) codes),
         Rj_malformed := if tally_of (\<lambda>c. c = 400) codes = 0 then Rj_malformed r else addu64 (Rj_malformed r) (tally_of (\<lambda>c. c = 400) codes)\<rparr>)"
proof (induction rqs arbitrary: v r)
  case Nil
  show ?case by (simp add: tally_of_def)
next
  case (Cons rq rqs)
  define out where "out = serve_push what node_of verify rq v (Some r)"
  define code where "code = fst (Sv_response out)"
  have rej: "Sv_rejections out = Some
      \<lparr>Rj_unauthorized = (if code = 401 \<or> code = 403 then addu64 (Rj_unauthorized r) 1 else Rj_unauthorized r),
        Rj_tooLarge = (if code = 413 then addu64 (Rj_tooLarge r) 1 else Rj_tooLarge r),
        Rj_malformed = (if code = 400 then addu64 (Rj_malformed r) 1 else Rj_malformed r)\<rparr>"
    using push_counts [of what node_of verify rq v r] unfolding out_def code_def by (simp add: Let_def)
  show ?case
    unfolding serve_all.simps Let_def out_def [symmetric] code_def [symmetric] rej fst_conv snd_conv Cons.IH
    by (auto simp: tally_of_def addu64_add)
qed

lemma push_uncounted: "Sv_rejections (serve_push what node_of verify rq v None) = None"
  by (auto simp: serve_push_def authorizeNode_def unauthorizedAdd_def tooLargeAdd_def malformedAdd_def split: option.splits prod.splits body.splits)

lemma push_all_uncounted: "snd (serve_all (serve_push what node_of verify) rqs v None) = None"
  by (induction rqs arbitrary: v) (simp_all add: Let_def push_uncounted)

text \<open>
  The receiver of reports accounts for what it refuses: after any sequence of requests, the counts of
  its coverage are the numbers of its 401 and 403 responses, of its 413 and of its 400 responses.
\<close>

theorem report_refusals_counted:
  "let out = serve_all (Handler_ServeHTTP verify) rqs v NewHandler_rejections; rej = Rejections_Snapshot (snd out) in
   Rj_unauthorized rej = wrapu64 (tally_of (\<lambda>c. c = 401 \<or> c = 403) (fst out)) \<and>
   Rj_tooLarge rej = wrapu64 (tally_of (\<lambda>c. c = 413) (fst out)) \<and> Rj_malformed rej = wrapu64 (tally_of (\<lambda>c. c = 400) (fst out))"
  unfolding Let_def Handler_ServeHTTP_def NewHandler_rejections_def push_all_counts
  by (simp add: Rejections_Snapshot_def noRejections_def addu64_def wrapu64_def)


section \<open>The scope of a node\<close>

lemma NewScope_admits: "Scope_Admits (NewScope uids) u \<longleftrightarrow> u \<noteq> [] \<and> u \<in> set uids"
proof -
  have "mget (fold (\<lambda>uid m. if uid \<noteq> [] then mput uid () m else m) uids m) u \<noteq> None \<longleftrightarrow> mget m u \<noteq> None \<or> u \<noteq> [] \<and> u \<in> set uids" for m
    by (induction uids arbitrary: m) auto
  from this [of mempty] show ?thesis by (simp add: Scope_Admits_def NewScope_def)
qed

lemma admitted_pods: "uid \<in> set (AdmittedPodsOnNode w node) \<longleftrightarrow> (\<exists>entry. mget (W_index w) uid = Some entry \<and> E_node entry = node)"
  unfolding AdmittedPodsOnNode_def set_sort_slice mget_entries by force

text \<open>
  C13. A node scans only what the controller admits on that node. If the scope of a pass is what a node made
  of the controller's answer to its own query, however the query fared, then every binary the pass
  reports belongs to a pod that the controller's index holds as running on that node, and whose
  executable it therefore may open; without an answer nothing is reported.
\<close>

theorem scan_follows_controller_scope:
  assumes "transport = (\<lambda>rq. if reachable then Some (fst (ScopeHandler_ServeHTTP w verify rq v)) else None)"
    and "scope = scanScope configured (client_fetch tokenFile transport node)"
    and "snd (Scan scope now (Some ps) s) = Some r" and "b \<in> set (Res_Binaries r)"
  shows "\<exists>entry. mget (W_index w) (Bin_PodUID b) = Some entry \<and> E_node entry = node"
proof -
  have admits: "Scope_Admits scope (Bin_PodUID b)"
    using scan_report_shape [of scope now ps s] assms(3,4) by (auto simp: list_all_iff binary_ok_def)
  have "\<not> Scope_Admits DenyAll u" for u by (simp add: Scope_Admits_def DenyAll_def)
  with admits obtain uids where uids: "client_fetch tokenFile transport node = Some uids" "scope = NewScope uids"
    unfolding assms(2) scanScope_def by (cases configured; cases "client_fetch tokenFile transport node") auto
  then obtain token where "fst (ScopeHandler_ServeHTTP w verify (node_query token node) v) = Inr uids"
    unfolding assms(1) client_fetch_def by (auto split: option.splits sum.splits if_splits)
  then have "uids = AdmittedPodsOnNode w node"
    by (auto simp: ScopeHandler_ServeHTTP_def serve_query_def node_query_def authorizeNode_def split: option.splits prod.splits if_splits)
  then show ?thesis using admits uids(2) by (simp add: NewScope_admits admitted_pods)
qed

definition scoped_watcher :: PodWatcher where
  "scoped_watcher = runPods [(no_caches, 5, PodAdded ((web_pod plain_container)\<lparr>Pod_UID := ''0a1b2c3d-1111-2222-3333-444455556666''\<rparr>))] new_watcher"

definition answered_scope :: Scope where
  "answered_scope = scanScope True (client_fetch (Some ''t'')
     (\<lambda>rq. if True then Some (fst (ScopeHandler_ServeHTTP scoped_watcher witness_verify rq held_keys)) else None) ''n1'')"

definition scoped_result :: Result where
  "scoped_result = the (snd (Scan answered_scope 9 (Some [witness_stat ''4'']) (NewScanner (NewModuleFilter DefaultInfraModulePrefixes))))"

theorem scan_follows_controller_scope_witness:
  "\<exists>entry. mget (W_index scoped_watcher) (Bin_PodUID (hd (Res_Binaries scoped_result))) = Some entry \<and> E_node entry = ''n1''"
proof -
  have "snd (Scan answered_scope 9 (Some [witness_stat ''4'']) (NewScanner (NewModuleFilter DefaultInfraModulePrefixes))) = Some scoped_result"
    unfolding scoped_result_def using scan_report_shape by (metis option.sel)
  moreover have "\<not> List.null (Res_Binaries scoped_result)" by code_simp
  then have "hd (Res_Binaries scoped_result) \<in> set (Res_Binaries scoped_result)" by simp
  ultimately show ?thesis by (rule scan_follows_controller_scope [OF refl answered_scope_def])
qed

end
