(* ===== verification/NodeProfile.thy ===== *)
theory NodeProfile
  imports NodeIntake
begin

text \<open>
  The node's profiler, \<open>internal/nodeprofile\<close>: the samples of a window (\<open>types.go\<close>, \<open>reporter.go\<close>), the filter of
  their symbols (\<open>filter.go\<close>, \<open>moduleindex.go\<close>), the profile built from them (\<open>pprof.go\<close>, \<open>validate.go\<close>), the same
  filter on a profile that a service serves itself (\<open>pulledprofile.go\<close>), and the window pipeline of
  \<open>cmd/agent/pipeline.go\<close> with its coverage (\<open>cmd/agent/nodecoverage.go\<close>).

  The pprof library is a parameter: its encoder and its parser are functions between profiles and
  bytes. A profile's pointers to functions and locations are indices into its tables.
\<close>

section \<open>Samples\<close>

record Frame =
  Fr_Function :: string
  Fr_File :: string
  Fr_Line :: int
  Fr_Kind :: string

record Sample =
  Sm_Frames :: "Frame list"
  Sm_Value :: int
  Sm_PID :: int
  Sm_Comm :: string
  Sm_ContainerID :: string

record Buffer =
  Bf_samples :: "Sample list"
  Bf_frames :: nat

definition Buffer_Add :: "Sample \<Rightarrow> Buffer \<Rightarrow> Buffer" where
  "Buffer_Add s b = \<lparr>Bf_samples = Bf_samples b @ [s], Bf_frames = addu64 (Bf_frames b) (length (Sm_Frames s))\<rparr>"

definition Buffer_Counters :: "Buffer \<Rightarrow> nat \<times> nat" where
  "Buffer_Counters b = (length (Bf_samples b), Bf_frames b)"

definition Buffer_Drain :: "Buffer \<Rightarrow> Sample list \<times> Buffer" where
  "Buffer_Drain b = (Bf_samples b, \<lparr>Bf_samples = [], Bf_frames = 0\<rparr>)"

definition sourceFileBase :: "string \<Rightarrow> string" where
  "sourceFileBase path = rev (takeWhile (\<lambda>c. c \<noteq> CHR ''/'' \<and> c \<noteq> CHR 0x5C) (rev path))"

text \<open>A frame as the tracer reports it: function, source file, line and type.\<close>

definition ReportTraceEvent :: "(string \<times> string \<times> int \<times> string) list \<Rightarrow> int \<Rightarrow> int \<Rightarrow> string \<Rightarrow> string \<Rightarrow> Buffer \<Rightarrow> Buffer" where
  "ReportTraceEvent frames val pid comm containerID b =
     Buffer_Add \<lparr>Sm_Frames = map (\<lambda>(fn, src, line, kind). \<lparr>Fr_Function = fn, Fr_File = sourceFileBase src, Fr_Line = line, Fr_Kind = kind\<rparr>) frames,
       Sm_Value = val, Sm_PID = pid, Sm_Comm = comm, Sm_ContainerID = containerID\<rparr> b"

section \<open>The symbol filter\<close>

definition RedactedFrame :: string where "RedactedFrame = ''[filtered]''"

datatype ThirdPartyPolicy = ThirdPartyDrop | ThirdPartyKeep

definition ValidModulePrefix :: "string \<Rightarrow> bool" where
  "ValidModulePrefix prefix =
     (case Cut (TrimSuffix prefix ''/'') (CHR ''/'') of
        None \<Rightarrow> False
      | Some (first, rest) \<Rightarrow> if rest = [] then False else CHR ''.'' \<in> set first)"

record SymbolFilter =
  SF_allowed :: "string list"
  SF_thirdParty :: ThirdPartyPolicy

definition NewSymbolFilter :: "string list \<Rightarrow> ThirdPartyPolicy \<Rightarrow> SymbolFilter" where
  "NewSymbolFilter allowedModulePrefixes thirdParty = \<lparr>SF_allowed = filter ValidModulePrefix allowedModulePrefixes, SF_thirdParty = thirdParty\<rparr>"

record FilterCounters =
  FC_ThirdPartyDropped :: nat
  FC_UnsymbolizedDropped :: nat
  FC_SamplesFiltered :: nat

definition noDrops :: FilterCounters where
  "noDrops = \<lparr>FC_ThirdPartyDropped = 0, FC_UnsymbolizedDropped = 0, FC_SamplesFiltered = 0\<rparr>"

definition packagePath :: "string \<Rightarrow> string" where
  "packagePath fn =
     (if CHR ''/'' \<in> set fn
      then rev (dropWhile (\<lambda>c. c \<noteq> CHR ''/'') (rev fn)) @ takeWhile (\<lambda>c. c \<noteq> CHR ''.'') (rev (takeWhile (\<lambda>c. c \<noteq> CHR ''/'') (rev fn)))
      else takeWhile (\<lambda>c. c \<noteq> CHR ''.'') fn)"

definition hasDomain :: "string \<Rightarrow> bool" where
  "hasDomain pkg \<longleftrightarrow> CHR ''.'' \<in> set (takeWhile (\<lambda>c. c \<noteq> CHR ''/'') pkg)"

definition isAllowed :: "SymbolFilter \<Rightarrow> string \<Rightarrow> bool" where
  "isAllowed f pkg = list_ex (\<lambda>prefix. pkg = prefix \<or> HasPrefix pkg (prefix @ ''/'')) (SF_allowed f)"

text \<open>Whether a frame is kept, and the counter that moves when it is not.\<close>

definition keep :: "SymbolFilter \<Rightarrow> Frame \<Rightarrow> FilterCounters \<Rightarrow> bool \<times> FilterCounters" where
  "keep f fr c =
     (if Fr_Kind fr = ''kernel'' then (True, c)
      else if Fr_Function fr = [] then (False, c\<lparr>FC_UnsymbolizedDropped := addu64 (FC_UnsymbolizedDropped c) 1\<rparr>)
      else
        let pkg = packagePath (Fr_Function fr) in
        if \<not> hasDomain pkg then (True, c)
        else if isAllowed f pkg then (True, c)
        else if SF_thirdParty f = ThirdPartyKeep then (True, c)
        else (False, c\<lparr>FC_ThirdPartyDropped := addu64 (FC_ThirdPartyDropped c) 1\<rparr>))"

definition placeholder_frame :: Frame where
  "placeholder_frame = \<lparr>Fr_Function = RedactedFrame, Fr_File = [], Fr_Line = 0, Fr_Kind = ''filtered''\<rparr>"

text \<open>The loop of \<open>filterFrames\<close>: the frames kept, whether any was redacted, and the counters.\<close>

fun filter_frames :: "SymbolFilter \<Rightarrow> bool \<Rightarrow> Frame list \<Rightarrow> FilterCounters \<Rightarrow> Frame list \<times> bool \<times> FilterCounters" where
  "filter_frames f prevRedacted [] c = ([], False, c)"
| "filter_frames f prevRedacted (fr # frs) c =
     (let (kept, c) = keep f fr c in
      if kept then (let (out, any, c) = filter_frames f False frs c in (fr # out, any, c))
      else (let (out, any, c) = filter_frames f True frs c
            in (if prevRedacted then out else placeholder_frame # out, True, c)))"

definition filterFrames :: "SymbolFilter \<Rightarrow> Frame list \<Rightarrow> FilterCounters \<Rightarrow> Frame list \<times> bool \<times> FilterCounters" where
  "filterFrames f frames c = filter_frames f False frames c"

definition filter_sample :: "SymbolFilter \<Rightarrow> Sample \<Rightarrow> Sample list \<times> FilterCounters \<Rightarrow> Sample list \<times> FilterCounters" where
  "filter_sample f s oc =
     (let (fs, redacted, c) = filterFrames f (Sm_Frames s) (snd oc);
          c = (if redacted then c\<lparr>FC_SamplesFiltered := addu64 (FC_SamplesFiltered c) 1\<rparr> else c)
      in (fst oc @ [s\<lparr>Sm_Frames := fs\<rparr>], c))"

definition Filter_samples :: "SymbolFilter \<Rightarrow> Sample list \<Rightarrow> Sample list \<times> FilterCounters" where
  "Filter_samples f samples = fold (filter_sample f) samples ([], noDrops)"

section \<open>The module index\<close>

record ModuleIndex =
  MI_current :: "(string, string list) gomap option"

definition ModuleIndex_Publish :: "(string, string list) gomap \<Rightarrow> ModuleIndex \<Rightarrow> ModuleIndex" where
  "ModuleIndex_Publish byContainer i = i\<lparr>MI_current := Some byContainer\<rparr>"

definition ModuleIndex_Modules :: "ModuleIndex \<Rightarrow> string \<Rightarrow> string list" where
  "ModuleIndex_Modules i containerID = (case MI_current i of None \<Rightarrow> [] | Some m \<Rightarrow> mget_or [] m containerID)"

definition ModuleIndex_Size :: "ModuleIndex \<Rightarrow> nat" where
  "ModuleIndex_Size i = (case MI_current i of None \<Rightarrow> 0 | Some m \<Rightarrow> mlen m)"

definition ModuleIndex_Snapshot :: "ModuleIndex \<Rightarrow> (string, string list) gomap" where
  "ModuleIndex_Snapshot i = (case MI_current i of None \<Rightarrow> mempty | Some m \<Rightarrow> m)"

text \<open>What a scan pass publishes: the own modules of the binaries of each container.\<close>

definition modules_by_container :: "BinaryInfo list \<Rightarrow> (string, string list) gomap" where
  "modules_by_container bs =
     fold (\<lambda>b m. if Bin_ContainerID b = [] then m
                 else mupd [] (\<lambda>ms. ms @ OwnModules (Bin_MainModule b) (Bin_Dependencies b)) (Bin_ContainerID b) m) bs mempty"

section \<open>Profiles\<close>

record pfunction =
  Fn_ID :: nat
  Fn_Name :: string
  Fn_Filename :: string

text \<open>A line points to a function by its identifier; a location has the lines inlined at its address.\<close>

record plocation =
  Lc_ID :: nat
  Lc_Lines :: "(nat option \<times> int) list"
  Lc_Mapping :: "nat option"
  Lc_Address :: nat

record psample =
  Ps_Locations :: "nat list"
  Ps_Values :: "int list"
  Ps_Labels :: "(string \<times> string) list"

record profile =
  Pr_SampleType :: "(string \<times> string) list"
  Pr_Period :: int
  Pr_Functions :: "pfunction list"
  Pr_Locations :: "plocation list"
  Pr_Samples :: "psample list"
  Pr_Mappings :: "string list"
  Pr_Comments :: "string list"

type_synonym frame_key = "string \<times> string \<times> int \<times> string"

definition frame_key :: "Frame \<Rightarrow> frame_key" where
  "frame_key fr = (Fr_Function fr, Fr_File fr, Fr_Line fr, Fr_Kind fr)"

record serializer =
  Ser_funcs :: "(string \<times> string, nat) gomap"
  Ser_locs :: "(frame_key, nat) gomap"
  Ser_functions :: "pfunction list"
  Ser_locations :: "plocation list"

definition functionFor :: "Frame \<Rightarrow> serializer \<Rightarrow> nat \<times> serializer" where
  "functionFor fr z =
     (case mget (Ser_funcs z) (Fr_Function fr, Fr_File fr) of
        Some n \<Rightarrow> (n, z)
      | None \<Rightarrow>
          let n = length (Ser_functions z) + 1 in
          (n, z\<lparr>Ser_funcs := mput (Fr_Function fr, Fr_File fr) n (Ser_funcs z),
                Ser_functions := Ser_functions z @ [\<lparr>Fn_ID = n, Fn_Name = Fr_Function fr, Fn_Filename = Fr_File fr\<rparr>]\<rparr>))"

definition locationFor :: "Frame \<Rightarrow> serializer \<Rightarrow> nat \<times> serializer" where
  "locationFor fr z =
     (case mget (Ser_locs z) (frame_key fr) of
        Some n \<Rightarrow> (n, z)
      | None \<Rightarrow>
          let (fn, z) = functionFor fr z; n = length (Ser_locations z) + 1 in
          (n, z\<lparr>Ser_locs := mput (frame_key fr) n (Ser_locs z),
                Ser_locations := Ser_locations z @ [\<lparr>Lc_ID = n, Lc_Lines = [(Some fn, Fr_Line fr)], Lc_Mapping = None, Lc_Address = 0\<rparr>]\<rparr>))"

fun locationsFor :: "Frame list \<Rightarrow> serializer \<Rightarrow> nat list \<times> serializer" where
  "locationsFor [] z = ([], z)"
| "locationsFor (fr # frs) z = (let (n, z) = locationFor fr z; (ns, z) = locationsFor frs z in (n # ns, z))"

definition sample_value :: "int \<Rightarrow> Sample \<Rightarrow> int" where
  "sample_value periodNs s = (let v = wrap64 (Sm_Value s * periodNs) in if v \<le> 0 then periodNs else v)"

fun serialize_samples :: "int \<Rightarrow> Sample list \<Rightarrow> serializer \<Rightarrow> psample list \<times> serializer" where
  "serialize_samples periodNs [] z = ([], z)"
| "serialize_samples periodNs (s # ss) z =
     (let (ns, z) = locationsFor (Sm_Frames s) z; (rest, z) = serialize_samples periodNs ss z
      in (\<lparr>Ps_Locations = ns, Ps_Values = [sample_value periodNs s], Ps_Labels = []\<rparr> # rest, z))"

definition empty_serializer :: serializer where
  "empty_serializer = \<lparr>Ser_funcs = mempty, Ser_locs = mempty, Ser_functions = [], Ser_locations = []\<rparr>"

definition build_profile :: "Sample list \<Rightarrow> int \<Rightarrow> profile" where
  "build_profile samples samplesPerSecond =
     (let sps = (if samplesPerSecond \<le> 0 then 20 else samplesPerSecond);
          periodNs = 1000000000 div sps;
          out = serialize_samples periodNs samples empty_serializer
      in \<lparr>Pr_SampleType = [(''cpu'', ''nanoseconds'')], Pr_Period = periodNs, Pr_Functions = Ser_functions (snd out),
          Pr_Locations = Ser_locations (snd out), Pr_Samples = fst out, Pr_Mappings = [], Pr_Comments = []\<rparr>)"

record pprof_library =
  pp_encode :: "profile \<Rightarrow> string option"
  pp_parse :: "string \<Rightarrow> profile option"

definition Serialize :: "pprof_library \<Rightarrow> Sample list \<Rightarrow> int \<Rightarrow> string option" where
  "Serialize pp samples samplesPerSecond = pp_encode pp (build_profile samples samplesPerSecond)"

definition hasCPUNanos :: "profile \<Rightarrow> bool" where
  "hasCPUNanos p = list_ex (\<lambda>st. fst st = ''cpu'' \<and> snd st = ''nanoseconds'') (Pr_SampleType p)"

definition isServiceFunc :: "string \<Rightarrow> bool" where
  "isServiceFunc name =
     (if name = [] \<or> name = RedactedFrame then False
      else if name = ''runtime'' \<or> HasPrefix name ''runtime.'' then False
      else True)"

definition find_function :: "profile \<Rightarrow> nat \<Rightarrow> pfunction option" where
  "find_function p n = List.find (\<lambda>f. Fn_ID f = n) (Pr_Functions p)"

definition find_location :: "profile \<Rightarrow> nat \<Rightarrow> plocation option" where
  "find_location p n = List.find (\<lambda>l. Lc_ID l = n) (Pr_Locations p)"

definition hasServiceFunction :: "profile \<Rightarrow> bool" where
  "hasServiceFunction p =
     list_ex (\<lambda>s. list_ex (\<lambda>n. case find_location p n of
         None \<Rightarrow> False
       | Some l \<Rightarrow> list_ex (\<lambda>ln. case fst ln of
             None \<Rightarrow> False
           | Some fn \<Rightarrow> (case find_function p fn of None \<Rightarrow> False | Some f \<Rightarrow> isServiceFunc (Fn_Name f))) (Lc_Lines l))
       (Ps_Locations s)) (Pr_Samples p)"

definition Validate :: "pprof_library \<Rightarrow> string \<Rightarrow> bool" where
  "Validate pp gz = (case pp_parse pp gz of None \<Rightarrow> False | Some p \<Rightarrow> hasCPUNanos p \<and> hasServiceFunction p)"

section \<open>A pulled profile\<close>

definition maxPulledFrames :: nat where "maxPulledFrames = 256"

text \<open>A line after redaction: the shared placeholder, or a kept line with its function's identifier.\<close>

datatype redacted_line = Placeholder | KeptLine nat int

definition keep_line :: "SymbolFilter \<Rightarrow> profile \<Rightarrow> nat option \<Rightarrow> FilterCounters \<Rightarrow> bool \<times> FilterCounters" where
  "keep_line f p fn c =
     (case (case fn of None \<Rightarrow> None | Some n \<Rightarrow> find_function p n) of
        None \<Rightarrow> (False, c\<lparr>FC_UnsymbolizedDropped := addu64 (FC_UnsymbolizedDropped c) 1\<rparr>)
      | Some fn \<Rightarrow> keep f \<lparr>Fr_Function = Fn_Name fn, Fr_File = [], Fr_Line = 0, Fr_Kind = []\<rparr> c)"

fun redact_lines :: "SymbolFilter \<Rightarrow> profile \<Rightarrow> bool \<Rightarrow> (nat option \<times> int) list \<Rightarrow> FilterCounters \<Rightarrow> redacted_line list \<times> FilterCounters" where
  "redact_lines f p prevRedacted [] c = ([], c)"
| "redact_lines f p prevRedacted ((fn, line) # lns) c =
     (let (kept, c) = keep_line f p fn c in
      if kept then (let (out, c) = redact_lines f p False lns c in (KeptLine (the fn) line # out, c))
      else (let (out, c) = redact_lines f p True lns c in (if prevRedacted then out else Placeholder # out, c)))"

fun redact_locations :: "SymbolFilter \<Rightarrow> profile \<Rightarrow> plocation list \<Rightarrow> FilterCounters \<Rightarrow> (nat \<times> redacted_line list) list \<times> FilterCounters" where
  "redact_locations f p [] c = ([], c)"
| "redact_locations f p (loc # locs) c =
     (let (lns, c) = redact_lines f p False (Lc_Lines loc) c; (rest, c) = redact_locations f p locs c
      in ((Lc_ID loc, lns) # rest, c))"

definition kept_functions :: "(nat \<times> redacted_line list) list \<Rightarrow> nat list" where
  "kept_functions rls = List.map_filter (\<lambda>l. case l of Placeholder \<Rightarrow> None | KeptLine n _ \<Rightarrow> Some n) (concat (map snd rls))"

text \<open>Consecutive locations that were redacted whole collapse into the first of them.\<close>

fun collapse :: "(nat \<Rightarrow> bool) \<Rightarrow> bool \<Rightarrow> nat list \<Rightarrow> nat list" where
  "collapse whole prevRedacted [] = []"
| "collapse whole prevRedacted (n # ns) =
     (if \<not> whole n then n # collapse whole False ns
      else if prevRedacted then collapse whole True ns
      else n # collapse whole True ns)"

definition filepath_Base :: "string \<Rightarrow> string" where
  "filepath_Base path =
     (if path = [] then ''.''
      else
        let s = rev (dropWhile (\<lambda>c. c = CHR ''/'') (rev path));
            b = rev (takeWhile (\<lambda>c. c \<noteq> CHR ''/'') (rev s))
        in if b = [] then ''/'' else b)"

definition new_line :: "nat list \<Rightarrow> redacted_line \<Rightarrow> nat option \<times> int" where
  "new_line kept l =
     (case l of
        Placeholder \<Rightarrow> (Some 1, 0)
      | KeptLine n line \<Rightarrow> (Some (2 + length (takeWhile (\<lambda>m. m \<noteq> n) kept)), line))"

definition redact_sample :: "(nat \<Rightarrow> bool) \<Rightarrow> psample \<Rightarrow> psample list \<times> FilterCounters \<Rightarrow> psample list \<times> FilterCounters" where
  "redact_sample whole s oc =
     (let locs = take maxPulledFrames (Ps_Locations s); c = snd oc;
          c = (if list_ex whole locs then c\<lparr>FC_SamplesFiltered := addu64 (FC_SamplesFiltered c) 1\<rparr> else c)
      in (fst oc @ [s\<lparr>Ps_Locations := collapse whole False locs\<rparr>], c))"

definition redactProfile :: "SymbolFilter \<Rightarrow> profile \<Rightarrow> profile \<times> FilterCounters" where
  "redactProfile f p =
     (let (rls, c) = redact_locations f p (Pr_Locations p) noDrops;
          whole = (\<lambda>n. case map_of rls n of None \<Rightarrow> False | Some lns \<Rightarrow> lns = [Placeholder]);
          (samples, c) = fold (redact_sample whole) (Pr_Samples p) ([], c);
          keptFns = filter (\<lambda>fn. Fn_ID fn \<in> set (kept_functions rls)) (Pr_Functions p);
          kept = map Fn_ID keptFns
      in (p\<lparr>Pr_Functions := \<lparr>Fn_ID = 1, Fn_Name = RedactedFrame, Fn_Filename = []\<rparr> #
              map (\<lambda>(i, fn). \<lparr>Fn_ID = 2 + i, Fn_Name = Fn_Name fn, Fn_Filename = filepath_Base (Fn_Filename fn)\<rparr>) (enumerate 0 keptFns),
            Pr_Locations := map (\<lambda>(loc, rl). loc\<lparr>Lc_Lines := map (new_line kept) (snd rl)\<rparr>) (zip (Pr_Locations p) rls),
            Pr_Samples := samples\<rparr>, c))"

definition stripNonSymbolIdentity :: "profile \<Rightarrow> profile" where
  "stripNonSymbolIdentity p =
     p\<lparr>Pr_Mappings := [], Pr_Locations := map (\<lambda>l. l\<lparr>Lc_Mapping := None, Lc_Address := 0\<rparr>) (Pr_Locations p),
       Pr_Samples := map (\<lambda>s. s\<lparr>Ps_Labels := []\<rparr>) (Pr_Samples p), Pr_Comments := []\<rparr>"

definition FilterPulled :: "pprof_library \<Rightarrow> SymbolFilter \<Rightarrow> string \<Rightarrow> (string \<times> FilterCounters) option" where
  "FilterPulled pp f gz =
     (case pp_parse pp gz of
        None \<Rightarrow> None
      | Some p \<Rightarrow>
          let (q, c) = redactProfile f p in
          case pp_encode pp (stripNonSymbolIdentity q) of None \<Rightarrow> None | Some bytes \<Rightarrow> Some (bytes, c))"

section \<open>Coverage of the profiler\<close>

definition stateDisabled :: string where "stateDisabled = ''disabled''"

definition newProfilingMetrics :: ProfilingCoverage where
  "newProfilingMetrics = zeroCoverage\<lparr>PC_State := stateDisabled\<rparr>"

definition metrics_setState :: "string \<Rightarrow> ProfilingCoverage \<Rightarrow> ProfilingCoverage" where
  "metrics_setState st m = m\<lparr>PC_State := st\<rparr>"

definition metrics_window :: "ProfilingCoverage \<Rightarrow> ProfilingCoverage" where "metrics_window m = m\<lparr>PC_Windows := PC_Windows m + 1\<rparr>"
definition metrics_noScope :: "ProfilingCoverage \<Rightarrow> ProfilingCoverage" where "metrics_noScope m = m\<lparr>PC_WindowsNoScope := PC_WindowsNoScope m + 1\<rparr>"
definition metrics_noTargets :: "ProfilingCoverage \<Rightarrow> ProfilingCoverage" where "metrics_noTargets m = m\<lparr>PC_WindowsNoTargets := PC_WindowsNoTargets m + 1\<rparr>"
definition metrics_noSamples :: "ProfilingCoverage \<Rightarrow> ProfilingCoverage" where "metrics_noSamples m = m\<lparr>PC_WindowsNoSamples := PC_WindowsNoSamples m + 1\<rparr>"
definition metrics_shipped :: "ProfilingCoverage \<Rightarrow> ProfilingCoverage" where "metrics_shipped m = m\<lparr>PC_ProfilesShipped := PC_ProfilesShipped m + 1\<rparr>"
definition metrics_invalid :: "ProfilingCoverage \<Rightarrow> ProfilingCoverage" where "metrics_invalid m = m\<lparr>PC_ProfilesInvalid := PC_ProfilesInvalid m + 1\<rparr>"
definition metrics_unshipped :: "ProfilingCoverage \<Rightarrow> ProfilingCoverage" where "metrics_unshipped m = m\<lparr>PC_ProfilesUnshipped := PC_ProfilesUnshipped m + 1\<rparr>"

definition metrics_outOfScope :: "int \<Rightarrow> ProfilingCoverage \<Rightarrow> ProfilingCoverage" where
  "metrics_outOfScope samples m = m\<lparr>PC_SamplesOutOfScope := PC_SamplesOutOfScope m + samples\<rparr>"

definition metrics_redacted :: "FilterCounters \<Rightarrow> ProfilingCoverage \<Rightarrow> ProfilingCoverage" where
  "metrics_redacted f m =
     m\<lparr>PC_ThirdPartyDropped := addu64 (PC_ThirdPartyDropped m) (FC_ThirdPartyDropped f),
       PC_UnsymbolizedDropped := addu64 (PC_UnsymbolizedDropped m) (FC_UnsymbolizedDropped f),
       PC_SamplesFiltered := addu64 (PC_SamplesFiltered m) (FC_SamplesFiltered f)\<rparr>"

section \<open>The window pipeline\<close>

definition samplesPerSecond :: "int \<Rightarrow> int" where
  "samplesPerSecond overheadCeilingPercent =
     (let sps = overheadCeilingPercent * 4; sps = (if sps < 1 then 1 else sps) in if sps > 99 then 99 else sps)"

definition filterFor :: "string list \<Rightarrow> ThirdPartyPolicy \<Rightarrow> ModuleIndex \<Rightarrow> string \<Rightarrow> SymbolFilter" where
  "filterFor allowed thirdParty modules containerID =
     (let own = ModuleIndex_Modules modules containerID in
      if own = [] then NewSymbolFilter allowed thirdParty else NewSymbolFilter (allowed @ own) thirdParty)"

record group =
  Gr_podUID :: string
  Gr_samples :: "Sample list"

text \<open>The samples of a window by container, and how many were targeted but outside the scope.\<close>

definition group_sample :: "(int \<Rightarrow> PodBinding) \<Rightarrow> string list \<Rightarrow> Scope \<Rightarrow> Sample \<Rightarrow> (string, group) gomap \<times> int \<Rightarrow> (string, group) gomap \<times> int" where
  "group_sample binding targetSet scope s go =
     (let b = binding (Sm_PID s) in
      if ContainerID b = [] then go
      else if ContainerID b \<notin> set targetSet then go
      else if \<not> Scope_Admits scope (PodUID b) then (fst go, snd go + 1)
      else
        let g = mget_or \<lparr>Gr_podUID = PodUID b, Gr_samples = []\<rparr> (fst go) (ContainerID b)
        in (mput (ContainerID b) (g\<lparr>Gr_samples := Gr_samples g @ [s]\<rparr>) (fst go), snd go))"

text \<open>One container's profile: the coverage after it, and what was offered to the shipper.\<close>

definition ship_group ::
    "pprof_library \<Rightarrow> (string \<Rightarrow> SymbolFilter) \<Rightarrow> int \<Rightarrow> string \<Rightarrow> time \<Rightarrow> time \<Rightarrow> (ProfileReport \<Rightarrow> bool) option \<Rightarrow>
     string \<times> group \<Rightarrow> ProfilingCoverage \<times> ProfileReport list \<Rightarrow> ProfilingCoverage \<times> ProfileReport list" where
  "ship_group pp ff sps node start finish shipper cg mo =
     (let (filtered, drops) = Filter_samples (ff (fst cg)) (Gr_samples (snd cg));
          m = metrics_redacted drops (fst mo) in
      case Serialize pp filtered sps of
        None \<Rightarrow> (metrics_invalid m, snd mo)
      | Some pprof \<Rightarrow>
          if \<not> Validate pp pprof then (metrics_invalid m, snd mo)
          else case shipper of
            None \<Rightarrow> (m, snd mo)
          | Some ship \<Rightarrow>
              let report = \<lparr>PR_Node = node, PR_PodUID = Gr_podUID (snd cg), PR_ContainerID = fst cg, PR_PID = 0,
                            PR_CaptureStart = start, PR_CaptureEnd = finish, PR_Pprof = pprof\<rparr>
              in (if ship report then metrics_shipped m else metrics_unshipped m, snd mo @ [report]))"

definition processWindow ::
    "pprof_library \<Rightarrow> (string \<Rightarrow> SymbolFilter) \<Rightarrow> int \<Rightarrow> (int \<Rightarrow> PodBinding) \<Rightarrow> string \<Rightarrow> time \<Rightarrow> time \<Rightarrow> Sample list \<Rightarrow> string list \<Rightarrow> Scope \<Rightarrow>
     (ProfileReport \<Rightarrow> bool) option \<Rightarrow> ProfilingCoverage \<Rightarrow> ProfilingCoverage \<times> ProfileReport list" where
  "processWindow pp ff sps binding node start finish samples targetSet scope shipper m =
     (let m = metrics_window m in
      if Scope_Size scope = 0 then (metrics_noScope m, [])
      else if targetSet = [] then (metrics_noTargets m, [])
      else if samples = [] then (metrics_noSamples m, [])
      else
        let go = fold (group_sample binding targetSet scope) samples (mempty, 0);
            m = (if snd go > 0 then metrics_outOfScope (snd go) m else m)
        in fold (ship_group pp ff sps node start finish shipper) (entries (fst go)) (m, []))"

text \<open>
  One turn of \<open>runProfilingPipeline\<close> that finds the capture alive: the targets, refreshed where they are
  due and kept where the query fails, and the scope, which fails closed.
\<close>

record pipeline =
  Pl_targetSet :: "string list option"
  Pl_lastFetch :: time

definition refresh_targets :: "duration \<Rightarrow> time \<Rightarrow> string list option option \<Rightarrow> pipeline \<Rightarrow> pipeline" where
  "refresh_targets refresh now fetched p =
     (case fetched of
        None \<Rightarrow> p
      | Some answer \<Rightarrow>
          if Pl_targetSet p = None \<or> Sub now (Pl_lastFetch p) \<ge> refresh
          then (case answer of None \<Rightarrow> p | Some ids \<Rightarrow> \<lparr>Pl_targetSet = Some ids, Pl_lastFetch = now\<rparr>)
          else p)"

section \<open>Targets\<close>

type_synonym Target = "string \<times> string \<times> string"

record Publisher =
  Pub_topN :: int
  Pub_current :: "Target list option"

definition NewPublisher :: "int \<Rightarrow> Publisher" where
  "NewPublisher topN = \<lparr>Pub_topN = (if topN \<le> 0 then 1 else topN), Pub_current = None\<rparr>"

definition record_target :: "'h Record \<Rightarrow> Target" where
  "record_target r = (case Record_Key r of Key ns kind name _ \<Rightarrow> (ns, kind, name))"

definition less_ranked :: "Target \<times> int \<Rightarrow> Target \<times> int \<Rightarrow> bool" where
  "less_ranked a b =
     (if snd a \<noteq> snd b then snd a > snd b
      else if fst (fst a) \<noteq> fst (fst b) then fst (fst a) < fst (fst b)
      else snd (snd (fst a)) < snd (snd (fst b)))"

definition consumption :: "Target list \<Rightarrow> 'h Record list \<Rightarrow> (Target, int) gomap" where
  "consumption excluded records =
     fold (\<lambda>r m. if record_target r \<in> set excluded then m
                 else mupd 0 (\<lambda>v. add64 v (CoreNanoseconds (CPU r))) (record_target r) m) records mempty"

definition Publish :: "Target list \<Rightarrow> 'h Record list \<Rightarrow> Publisher \<Rightarrow> Publisher" where
  "Publish excluded records p =
     p\<lparr>Pub_current := Some (map fst (take (nat (Pub_topN p)) (sort_slice less_ranked (entries (consumption excluded records)))))\<rparr>"

definition Publisher_Snapshot :: "Publisher \<Rightarrow> Target list" where
  "Publisher_Snapshot p = (case Pub_current p of None \<Rightarrow> [] | Some ts \<Rightarrow> ts)"

text \<open>\<open>nodeTargeter.ContainersForNode\<close> of \<open>cmd/agent/main.go\<close>.\<close>

definition ContainersForNode :: "Publisher \<Rightarrow> PodWatcher \<Rightarrow> string \<Rightarrow> string list" where
  "ContainersForNode p w node =
     (let top = Publisher_Snapshot p in
      if top = [] then []
      else map CN_ContainerID
        (filter (\<lambda>c. (CN_Namespace c, Ref_Kind (CN_Workload c), Ref_Name (CN_Workload c)) \<in> set top) (ContainersOnNode w node)))"

section \<open>What the filter hides\<close>

datatype frame_view = Shown Frame | HiddenThirdParty | HiddenUnsymbolized

definition view :: "SymbolFilter \<Rightarrow> Frame \<Rightarrow> frame_view" where
  "view f fr =
     (if fst (keep f fr noDrops) then Shown fr else if Fr_Function fr = [] then HiddenUnsymbolized else HiddenThirdParty)"

lemma keep_counters: "fst (keep f fr c) = fst (keep f fr c')"
  by (simp add: keep_def Let_def)

lemma keep_view:
  assumes "view f x = view f y"
  shows "keep f x c = keep f y c" and "fst (keep f x c) \<Longrightarrow> x = y"
proof -
  show "fst (keep f x c) \<Longrightarrow> x = y"
    using assms keep_counters [of f x c noDrops] keep_counters [of f y c noDrops] by (auto simp: view_def split: if_splits)
  then show "keep f x c = keep f y c"
    using assms keep_counters [of f x c noDrops] keep_counters [of f y c noDrops]
    by (auto simp: view_def keep_def Let_def split: if_splits)
qed

lemma filter_frames_view: "map (view f) xs = map (view f) ys \<Longrightarrow> filter_frames f prev xs c = filter_frames f prev ys c"
proof (induction xs arbitrary: ys prev c)
  case (Cons x xs)
  then obtain y ys' where ys: "ys = y # ys'" and v: "view f x = view f y" "map (view f) xs = map (view f) ys'" by (cases ys) auto
  obtain kept c' where k: "keep f y c = (kept, c')" by fastforce
  have "kept \<Longrightarrow> x = y" using keep_view(2) [OF v(1), of c] keep_view(1) [OF v(1), of c] k by simp
  then show ?case using Cons.IH [OF v(2)] keep_view(1) [OF v(1), of c] k by (simp add: ys Let_def)
qed simp

definition same_shown :: "SymbolFilter \<Rightarrow> Sample \<Rightarrow> Sample \<Rightarrow> bool" where
  "same_shown f s t \<longleftrightarrow> s\<lparr>Sm_Frames := []\<rparr> = t\<lparr>Sm_Frames := []\<rparr> \<and> map (view f) (Sm_Frames s) = map (view f) (Sm_Frames t)"

lemma filter_sample_shown:
  assumes "same_shown f s t"
  shows "filter_sample f s = filter_sample f t"
proof -
  have rest: "s\<lparr>Sm_Frames := fs\<rparr> = t\<lparr>Sm_Frames := fs\<rparr>" for fs
    using assms by (cases s; cases t) (simp add: same_shown_def)
  have "map (view f) (Sm_Frames s) = map (view f) (Sm_Frames t)" using assms by (simp add: same_shown_def)
  from filter_frames_view [OF this] show ?thesis by (auto simp: filter_sample_def filterFrames_def rest)
qed

text \<open>
  C19. No identity of a redacted frame leaves the node. Two captures that agree on the frames the filter
  shows, and on the rest only in how many frames are hidden and whether they had a symbol, give the
  same filtered samples and the same counts, whatever the hidden functions, files and lines are;
  so everything built from them, the shipped profile included, is the same.
\<close>

theorem redaction_hides_identity:
  assumes "list_all2 (same_shown f) xs ys"
  shows "Filter_samples f xs = Filter_samples f ys \<and> Serialize pp (fst (Filter_samples f xs)) sps = Serialize pp (fst (Filter_samples f ys)) sps"
proof -
  have "list_all2 (same_shown f) xs ys \<Longrightarrow> fold (filter_sample f) xs oc = fold (filter_sample f) ys oc" for oc
  proof (induction xs arbitrary: ys oc)
    case (Cons x xs)
    then obtain y ys' where "ys = y # ys'" "same_shown f x y" "list_all2 (same_shown f) xs ys'" by (auto simp: list_all2_Cons1)
    then show ?case using Cons.IH filter_sample_shown by simp
  qed simp
  then have "Filter_samples f xs = Filter_samples f ys" using assms by (simp add: Filter_samples_def)
  then show ?thesis by simp
qed

definition hidden_sample :: "string \<Rightarrow> Sample" where
  "hidden_sample fn =
     \<lparr>Sm_Frames = [\<lparr>Fr_Function = ''main.main'', Fr_File = ''main.go'', Fr_Line = 3, Fr_Kind = ''native''\<rparr>,
        \<lparr>Fr_Function = fn, Fr_File = ''x.go'', Fr_Line = 9, Fr_Kind = ''native''\<rparr>],
      Sm_Value = 1, Sm_PID = 7, Sm_Comm = ''app'', Sm_ContainerID = []\<rparr>"

theorem redaction_hides_identity_witness:
  "Filter_samples (NewSymbolFilter [] ThirdPartyDrop) [hidden_sample ''github.com/a/b.F''] =
   Filter_samples (NewSymbolFilter [] ThirdPartyDrop) [hidden_sample ''gopkg.in/c.(*T).G'']"
proof -
  have "map (view (NewSymbolFilter [] ThirdPartyDrop)) (Sm_Frames (hidden_sample ''github.com/a/b.F'')) =
      map (view (NewSymbolFilter [] ThirdPartyDrop)) (Sm_Frames (hidden_sample ''gopkg.in/c.(*T).G''))" by code_simp
  then have "list_all2 (same_shown (NewSymbolFilter [] ThirdPartyDrop)) [hidden_sample ''github.com/a/b.F''] [hidden_sample ''gopkg.in/c.(*T).G'']"
    by (simp add: same_shown_def) (simp add: hidden_sample_def)
  from redaction_hides_identity [OF this] show ?thesis by (rule conjunct1)
qed

section \<open>Prefixes that end in a slash\<close>

text \<open>
  A module prefix written with a slash at its end passes the validity check, which ignores that
  slash, and then allows no package: only a package path with two slashes in a row or the prefix
  itself, neither of which names a package, would match it.
\<close>

theorem slash_prefix_allows_nothing:
  assumes "HasSuffix prefix ''/''" and "ValidModulePrefix prefix" and "isAllowed (NewSymbolFilter [prefix] policy) pkg"
  shows "HasSuffix pkg ''/'' \<or> contains pkg ''//''"
proof -
  have slash: "\<exists>p. prefix = p @ ''/''" using assms(1) unfolding HasSuffix_def by (metis append_take_drop_id)
  have "pkg = prefix \<or> HasPrefix pkg (prefix @ ''/'')" using assms(2,3) by (simp add: isAllowed_def NewSymbolFilter_def)
  then show ?thesis
  proof
    assume "pkg = prefix"
    then show ?thesis using assms(1) by simp
  next
    assume "HasPrefix pkg (prefix @ ''/'')"
    then obtain b where "pkg = (prefix @ ''/'') @ b" unfolding HasPrefix_def by (metis append_take_drop_id)
    moreover obtain p where "prefix = p @ ''/''" using slash by blast
    ultimately have "pkg = p @ ''//'' @ b" by simp
    then show ?thesis unfolding contains_iff by blast
  qed
qed

theorem slash_prefix_allows_nothing_witness:
  "ValidModulePrefix ''github.com/acme/'' \<and> \<not> isAllowed (NewSymbolFilter [''github.com/acme/''] ThirdPartyDrop) ''github.com/acme/app''"
proof -
  have "ValidModulePrefix ''github.com/acme/''" "HasSuffix ''github.com/acme/'' ''/''" by code_simp+
  moreover have "\<not> (HasSuffix ''github.com/acme/app'' ''/'' \<or> contains ''github.com/acme/app'' ''//'')" by code_simp
  ultimately show ?thesis using slash_prefix_allows_nothing by blast
qed

section \<open>A profile reads back\<close>

text \<open>A frame as the tables of a profile hold it: the function's name and file, and the line.\<close>

definition read_frame :: "profile \<Rightarrow> nat \<Rightarrow> (string \<times> string \<times> int) option" where
  "read_frame p n =
     (case find_location p n of
        Some loc \<Rightarrow>
          (case Lc_Lines loc of
             [(Some fn, line)] \<Rightarrow> map_option (\<lambda>f. (Fn_Name f, Fn_Filename f, line)) (find_function p fn)
           | _ \<Rightarrow> None)
      | None \<Rightarrow> None)"

definition reads :: "serializer \<Rightarrow> nat \<Rightarrow> string \<times> string \<times> int \<Rightarrow> bool" where
  "reads z n x \<longleftrightarrow> (\<exists>fn. 1 \<le> n \<and> n \<le> length (Ser_locations z) \<and> 1 \<le> fn \<and> fn \<le> length (Ser_functions z) \<and>
     Lc_Lines (Ser_locations z ! (n - 1)) = [(Some fn, snd (snd x))] \<and>
     Fn_Name (Ser_functions z ! (fn - 1)) = fst x \<and> Fn_Filename (Ser_functions z ! (fn - 1)) = fst (snd x))"

definition grows :: "serializer \<Rightarrow> serializer \<Rightarrow> bool" where
  "grows z z' \<longleftrightarrow> (\<exists>fs ls. Ser_functions z' = Ser_functions z @ fs \<and> Ser_locations z' = Ser_locations z @ ls)"

definition key_frame :: "frame_key \<Rightarrow> string \<times> string \<times> int" where
  "key_frame k = (fst k, fst (snd k), fst (snd (snd k)))"

definition fn_key :: "pfunction \<Rightarrow> string \<times> string" where "fn_key f = (Fn_Name f, Fn_Filename f)"

definition funcs_ok :: "(string \<times> string, nat) gomap \<Rightarrow> pfunction list \<Rightarrow> bool" where
  "funcs_ok m fs \<longleftrightarrow> map Fn_ID fs = [1..<length fs + 1] \<and> distinct (map fn_key fs) \<and>
     (\<forall>k fn. mget m k = Some fn \<longrightarrow> 1 \<le> fn \<and> fn \<le> length fs \<and> fn_key (fs ! (fn - 1)) = k) \<and>
     (\<forall>k. k \<in> fn_key ` set fs \<longrightarrow> mget m k \<noteq> None)"

definition locs_ok :: "serializer \<Rightarrow> bool" where
  "locs_ok z \<longleftrightarrow> map Lc_ID (Ser_locations z) = [1..<length (Ser_locations z) + 1] \<and>
     (\<forall>k n. mget (Ser_locs z) k = Some n \<longrightarrow> reads z n (key_frame k))"

definition numbered :: "serializer \<Rightarrow> bool" where
  "numbered z \<longleftrightarrow> funcs_ok (Ser_funcs z) (Ser_functions z) \<and> locs_ok z"

lemma grows_refl: "grows z z" by (simp add: grows_def)

lemma grows_trans: "grows z z' \<Longrightarrow> grows z' z'' \<Longrightarrow> grows z z''" by (auto simp: grows_def)

lemma reads_grows: "grows z z' \<Longrightarrow> reads z n x \<Longrightarrow> reads z' n x"
  by (auto simp: grows_def reads_def nth_append)

lemma funcs_ok_add:
  assumes "funcs_ok m fs" and "mget m (fn_key f) = None" and "Fn_ID f = length fs + 1"
  shows "funcs_ok (mput (fn_key f) (length fs + 1) m) (fs @ [f])"
proof -
  have old: "1 \<le> fn \<and> fn \<le> length fs \<and> fn_key (fs ! (fn - 1)) = k" if "mget m k = Some fn" for k fn
    using assms(1) that unfolding funcs_ok_def by blast
  have fresh: "fn_key f \<notin> fn_key ` set fs" using assms(1,2) unfolding funcs_ok_def by blast
  have ids: "map Fn_ID (fs @ [f]) = [1..<length (fs @ [f]) + 1]" using assms(1,3) by (simp add: funcs_ok_def)
  have dist: "distinct (map fn_key (fs @ [f]))" using assms(1) fresh by (simp add: funcs_ok_def)
  have maps: "1 \<le> fn \<and> fn \<le> length (fs @ [f]) \<and> fn_key ((fs @ [f]) ! (fn - 1)) = k"
    if "mget (mput (fn_key f) (length fs + 1) m) k = Some fn" for k fn
  proof (cases "k = fn_key f")
    case True
    then show ?thesis using that by auto
  next
    case False
    then show ?thesis using that old [of k fn] by (auto simp: nth_append)
  qed
  have "mget (mput (fn_key f) (length fs + 1) m) k \<noteq> None" if "k \<in> fn_key ` set (fs @ [f])" for k
  proof (cases "k = fn_key f")
    case False
    then have "k \<in> fn_key ` set fs" using that by auto
    then have "mget m k \<noteq> None" using assms(1) unfolding funcs_ok_def by blast
    then show ?thesis using False by simp
  qed simp
  then show ?thesis unfolding funcs_ok_def using ids dist maps by blast
qed

lemma functionFor_ok:
  assumes "numbered z" and "functionFor fr z = (fn, z')"
  shows "numbered z' \<and> grows z z' \<and> 1 \<le> fn \<and> fn \<le> length (Ser_functions z') \<and> fn_key (Ser_functions z' ! (fn - 1)) = (Fr_Function fr, Fr_File fr)"
proof (cases "mget (Ser_funcs z) (Fr_Function fr, Fr_File fr)")
  case (Some n)
  then have "fn = n" "z' = z" using assms(2) by (simp_all add: functionFor_def)
  then show ?thesis using Some assms(1) unfolding numbered_def funcs_ok_def using grows_refl by blast
next
  case None
  define f where "f = \<lparr>Fn_ID = length (Ser_functions z) + 1, Fn_Name = Fr_Function fr, Fn_Filename = Fr_File fr\<rparr>"
  have key: "fn_key f = (Fr_Function fr, Fr_File fr)" by (simp add: f_def fn_key_def)
  have z': "fn = length (Ser_functions z) + 1"
    "z' = z\<lparr>Ser_funcs := mput (fn_key f) (length (Ser_functions z) + 1) (Ser_funcs z), Ser_functions := Ser_functions z @ [f]\<rparr>"
    using None assms(2) by (auto simp: functionFor_def Let_def f_def fn_key_def)
  have grow: "grows z z'" by (simp add: z' grows_def)
  have "funcs_ok (Ser_funcs z') (Ser_functions z')"
    unfolding z' using funcs_ok_add [of "Ser_funcs z" "Ser_functions z" f] assms(1) None key by (simp add: numbered_def f_def)
  moreover have "locs_ok z'"
  proof -
    have z: "locs_ok z" using assms(1) by (simp add: numbered_def)
    have same: "Ser_locs z' = Ser_locs z" "Ser_locations z' = Ser_locations z" by (simp_all add: z')
    have "reads z n (key_frame k) \<Longrightarrow> reads z' n (key_frame k)" for n k by (rule reads_grows [OF grow])
    then show ?thesis using z unfolding locs_ok_def same by blast
  qed
  ultimately show ?thesis using grow key by (simp add: numbered_def z')
qed

lemma locationFor_ok:
  assumes "numbered z" and "locationFor fr z = (n, z')"
  shows "numbered z' \<and> grows z z' \<and> reads z' n (Fr_Function fr, Fr_File fr, Fr_Line fr)"
proof (cases "mget (Ser_locs z) (frame_key fr)")
  case (Some m)
  then have "n = m" "z' = z" using assms(2) by (simp_all add: locationFor_def)
  moreover have "reads z m (key_frame (frame_key fr))" using Some assms(1) unfolding numbered_def locs_ok_def by blast
  ultimately show ?thesis using assms(1) grows_refl by (simp add: key_frame_def frame_key_def)
next
  case None
  obtain fn y where y: "functionFor fr z = (fn, y)" by fastforce
  note ok = functionFor_ok [OF assms(1) y]
  define l where "l = \<lparr>Lc_ID = length (Ser_locations y) + 1, Lc_Lines = [(Some fn, Fr_Line fr)], Lc_Mapping = None, Lc_Address = 0\<rparr>"
  have z': "n = length (Ser_locations y) + 1"
    "z' = y\<lparr>Ser_locs := mput (frame_key fr) (length (Ser_locations y) + 1) (Ser_locs y), Ser_locations := Ser_locations y @ [l]\<rparr>"
    using None assms(2) y by (auto simp: locationFor_def Let_def l_def)
  have grow: "grows y z'" by (simp add: z' grows_def)
  have new: "reads z' n (Fr_Function fr, Fr_File fr, Fr_Line fr)"
    using ok by (auto simp: reads_def z' l_def fn_key_def intro!: exI [of _ fn])
  have "locs_ok y" using ok by (simp add: numbered_def)
  have "reads z' m (key_frame k)" if "mget (Ser_locs z') k = Some m" for k m
  proof (cases "k = frame_key fr")
    case True
    then show ?thesis using that new by (simp add: z' key_frame_def frame_key_def)
  next
    case False
    then have "mget (Ser_locs y) k = Some m" using that by (simp add: z')
    then show ?thesis using \<open>locs_ok y\<close> reads_grows [OF grow] unfolding locs_ok_def by blast
  qed
  then have "locs_ok z'" using \<open>locs_ok y\<close> unfolding locs_ok_def by (simp add: z' l_def)
  then have "numbered z'" using ok by (simp add: numbered_def z')
  then show ?thesis using new grow ok grows_trans by blast
qed

lemma locationsFor_ok:
  assumes "numbered z" and "locationsFor frs z = (ns, z')"
  shows "numbered z' \<and> grows z z' \<and> list_all2 (\<lambda>n fr. reads z' n (Fr_Function fr, Fr_File fr, Fr_Line fr)) ns frs"
  using assms
proof (induction frs arbitrary: z ns)
  case (Cons fr frs)
  obtain n y where y: "locationFor fr z = (n, y)" by fastforce
  obtain ms where ms: "locationsFor frs y = (ms, z')" "ns = n # ms" using Cons.prems(2) y by (auto simp: Let_def split: prod.splits)
  note one = locationFor_ok [OF Cons.prems(1) y]
  then have rest: "numbered z' \<and> grows y z' \<and> list_all2 (\<lambda>n fr. reads z' n (Fr_Function fr, Fr_File fr, Fr_Line fr)) ms frs"
    using Cons.IH ms(1) by blast
  have "grows z z'" using one rest grows_trans by blast
  moreover have "reads z' n (Fr_Function fr, Fr_File fr, Fr_Line fr)" using one rest reads_grows by blast
  ultimately show ?case using rest by (simp add: ms(2))
qed (simp add: grows_refl)

lemma serialize_samples_ok:
  assumes "numbered z" and "serialize_samples period ss z = (ps, z')"
  shows "numbered z' \<and> grows z z' \<and>
    list_all2 (\<lambda>p s. list_all2 (\<lambda>n fr. reads z' n (Fr_Function fr, Fr_File fr, Fr_Line fr)) (Ps_Locations p) (Sm_Frames s)) ps ss"
  using assms
proof (induction ss arbitrary: z ps)
  case (Cons s ss)
  obtain ns y where y: "locationsFor (Sm_Frames s) z = (ns, y)" by fastforce
  obtain qs where qs: "serialize_samples period ss y = (qs, z')"
    "ps = \<lparr>Ps_Locations = ns, Ps_Values = [sample_value period s], Ps_Labels = []\<rparr> # qs"
    using Cons.prems(2) y by (auto simp: Let_def split: prod.splits)
  note one = locationsFor_ok [OF Cons.prems(1) y]
  then have rest: "numbered z' \<and> grows y z' \<and>
      list_all2 (\<lambda>p s. list_all2 (\<lambda>n fr. reads z' n (Fr_Function fr, Fr_File fr, Fr_Line fr)) (Ps_Locations p) (Sm_Frames s)) qs ss"
    using Cons.IH qs(1) by blast
  have "reads y n x \<Longrightarrow> reads z' n x" for n x using rest reads_grows by blast
  then have "list_all2 (\<lambda>n fr. reads z' n (Fr_Function fr, Fr_File fr, Fr_Line fr)) ns (Sm_Frames s)"
    using one by (auto elim: list_all2_mono)
  moreover have "grows z z'" using one rest grows_trans by blast
  ultimately show ?case using rest by (simp add: qs(2))
qed (simp add: grows_refl)

lemma map_eq_rel: "list_all2 R xs ys \<Longrightarrow> (\<And>x y. R x y \<Longrightarrow> f x = g y) \<Longrightarrow> map f xs = map g ys"
  by (induction rule: list_all2_induct) simp_all

lemma find_numbered:
  assumes "map key xs = [1..<length xs + 1]" and "1 \<le> n" and "n \<le> length xs"
  shows "List.find (\<lambda>x. key x = n) xs = Some (xs ! (n - 1))"
proof -
  have k: "key (xs ! i) = i + 1" if "i < length xs" for i
    using arg_cong [OF assms(1), of "\<lambda>l. l ! i"] that by (simp del: upt_Suc)
  show ?thesis unfolding find_Some_iff using k assms(2,3) by (intro exI [of _ "n - 1"]) auto
qed

lemma read_frame_reads:
  assumes "numbered z" and "reads z n x" and "Pr_Functions p = Ser_functions z" and "Pr_Locations p = Ser_locations z"
  shows "read_frame p n = Some x"
proof -
  from assms(2) obtain fn where fn: "1 \<le> n" "n \<le> length (Ser_locations z)" "1 \<le> fn" "fn \<le> length (Ser_functions z)"
    "Lc_Lines (Ser_locations z ! (n - 1)) = [(Some fn, snd (snd x))]"
    "Fn_Name (Ser_functions z ! (fn - 1)) = fst x" "Fn_Filename (Ser_functions z ! (fn - 1)) = fst (snd x)"
    unfolding reads_def by blast
  have "find_location p n = Some (Ser_locations z ! (n - 1))" "find_function p fn = Some (Ser_functions z ! (fn - 1))"
    unfolding find_location_def find_function_def assms(3,4)
    by (rule find_numbered [OF _ fn(1,2)], use assms(1) in \<open>simp only: numbered_def locs_ok_def\<close>,
        rule find_numbered [OF _ fn(3,4)], use assms(1) in \<open>simp only: numbered_def funcs_ok_def\<close>)
  then show ?thesis unfolding read_frame_def using fn(5-7) by simp
qed

text \<open>
  C21. The profile that is shipped says what was sampled. From the tables of the profile built from a
  window's filtered samples, every sample's stack reads back as the functions, files and lines of its
  frames in order, and the function table names each function once.
\<close>

theorem profile_reads_back:
  "map (\<lambda>s. map (read_frame (build_profile samples sps)) (Ps_Locations s)) (Pr_Samples (build_profile samples sps)) =
     map (\<lambda>s. map (\<lambda>fr. Some (Fr_Function fr, Fr_File fr, Fr_Line fr)) (Sm_Frames s)) samples \<and>
   distinct (map (\<lambda>f. (Fn_Name f, Fn_Filename f)) (Pr_Functions (build_profile samples sps)))"
proof -
  define p where "p = build_profile samples sps"
  define period where "period = 1000000000 div (if sps \<le> 0 then 20 else sps)"
  obtain ps z where out: "serialize_samples period samples empty_serializer = (ps, z)" by fastforce
  have p: "Pr_Functions p = Ser_functions z" "Pr_Locations p = Ser_locations z" "Pr_Samples p = ps"
    using out by (simp_all add: p_def build_profile_def period_def Let_def)
  have "numbered empty_serializer" by (simp add: numbered_def funcs_ok_def locs_ok_def empty_serializer_def)
  from serialize_samples_ok [OF this out] have ok: "numbered z"
    "list_all2 (\<lambda>p s. list_all2 (\<lambda>n fr. reads z n (Fr_Function fr, Fr_File fr, Fr_Line fr)) (Ps_Locations p) (Sm_Frames s)) ps samples" by auto
  have "map (read_frame p) ns = map (\<lambda>fr. Some (Fr_Function fr, Fr_File fr, Fr_Line fr)) frs"
    if "list_all2 (\<lambda>n fr. reads z n (Fr_Function fr, Fr_File fr, Fr_Line fr)) ns frs" for ns frs
    using that by (rule map_eq_rel) (rule read_frame_reads [OF ok(1) _ p(1,2)])
  then have "map (\<lambda>s. map (read_frame p) (Ps_Locations s)) ps = map (\<lambda>s. map (\<lambda>fr. Some (Fr_Function fr, Fr_File fr, Fr_Line fr)) (Sm_Frames s)) samples"
    by (rule map_eq_rel [OF ok(2)])
  moreover have "distinct (map (\<lambda>f. (Fn_Name f, Fn_Filename f)) (Ser_functions z))"
    using ok(1) by (simp add: numbered_def funcs_ok_def fn_key_def [abs_def])
  ultimately show ?thesis by (simp add: p_def [symmetric] p)
qed

section \<open>What a pulled profile discloses\<close>

definition admits_name :: "SymbolFilter \<Rightarrow> string \<Rightarrow> bool" where
  "admits_name f name \<longleftrightarrow> name \<noteq> [] \<and> (\<not> hasDomain (packagePath name) \<or> isAllowed f (packagePath name) \<or> SF_thirdParty f = ThirdPartyKeep)"

lemma keep_admits: "fst (keep f \<lparr>Fr_Function = name, Fr_File = [], Fr_Line = 0, Fr_Kind = []\<rparr> c) = admits_name f name"
  by (simp add: keep_def admits_name_def Let_def)

lemma redact_lines_kept:
  "KeptLine n line \<in> set (fst (redact_lines f p prev lns c)) \<Longrightarrow> \<exists>fn. find_function p n = Some fn \<and> admits_name f (Fn_Name fn)"
proof (induction f p prev lns c rule: redact_lines.induct)
  case (2 f p prev fn l lns c)
  obtain kept c' where k: "keep_line f p fn c = (kept, c')" by fastforce
  show ?case
  proof (cases kept)
    case True
    then have "\<exists>g. find_function p (the fn) = Some g \<and> admits_name f (Fn_Name g)"
      using k keep_admits [of f] by (auto simp: keep_line_def split: option.splits) (metis fst_conv)
    then show ?thesis using 2 k True by (auto simp: Let_def split: prod.splits)
  next
    case False
    then show ?thesis using 2 k by (auto simp: Let_def split: prod.splits if_splits)
  qed
qed simp

lemma redact_locations_kept:
  "lns \<in> snd ` set (fst (redact_locations f p locs c)) \<Longrightarrow> KeptLine n line \<in> set lns \<Longrightarrow>
     \<exists>fn. find_function p n = Some fn \<and> admits_name f (Fn_Name fn)"
proof (induction f p locs c rule: redact_locations.induct)
  case (2 f p loc locs c)
  obtain ls c' where k: "redact_lines f p False (Lc_Lines loc) c = (ls, c')" by fastforce
  have "lns = ls \<or> lns \<in> snd ` set (fst (redact_locations f p locs c'))"
    using "2.prems"(1) k by (auto simp: Let_def split: prod.splits)
  then show ?case using "2.IH" [OF k [symmetric] refl _ "2.prems"(2)] redact_lines_kept [of n line f p False "Lc_Lines loc" c] "2.prems"(2) k by auto
qed simp

lemma kept_functions_admitted:
  assumes "n \<in> set (kept_functions (fst (redact_locations f p locs c)))"
  shows "\<exists>fn. find_function p n = Some fn \<and> admits_name f (Fn_Name fn)"
proof -
  have "\<exists>lns \<in> snd ` set (fst (redact_locations f p locs c)). \<exists>line. KeptLine n line \<in> set lns"
    using assms by (auto simp: kept_functions_def map_filter_def split: redacted_line.splits) force
  then show ?thesis using redact_locations_kept by blast
qed

lemma find_function_unique:
  assumes "distinct (map Fn_ID (Pr_Functions p))" and "fn \<in> set (Pr_Functions p)"
  shows "find_function p (Fn_ID fn) = Some fn"
proof -
  have "List.find (\<lambda>f. Fn_ID f = Fn_ID fn) fs = Some fn" if "distinct (map Fn_ID fs)" "fn \<in> set fs" for fs
    using that by (induction fs) (auto simp: image_iff)
  then show ?thesis using assms by (simp add: find_function_def)
qed

lemma redact_sample_labels:
  "map Ps_Labels (fst (fold (redact_sample whole) ss oc)) = map Ps_Labels (fst oc) @ map Ps_Labels ss"
  by (induction ss arbitrary: oc) (simp_all add: redact_sample_def Let_def)


definition served_profile :: profile where
  "served_profile = \<lparr>Pr_SampleType = [(''cpu'', ''nanoseconds'')], Pr_Period = 10000000,
     Pr_Functions = [\<lparr>Fn_ID = 1, Fn_Name = ''main.main'', Fn_Filename = ''/build/main.go''\<rparr>, \<lparr>Fn_ID = 2, Fn_Name = ''github.com/a/b.F'', Fn_Filename = ''b.go''\<rparr>],
     Pr_Locations = [\<lparr>Lc_ID = 1, Lc_Lines = [(Some 1, 3)], Lc_Mapping = Some 1, Lc_Address = 4096\<rparr>,
       \<lparr>Lc_ID = 2, Lc_Lines = [(Some 2, 8)], Lc_Mapping = Some 1, Lc_Address = 8192\<rparr>],
     Pr_Samples = [\<lparr>Ps_Locations = [2, 1], Ps_Values = [1], Ps_Labels = [(''user'', ''alice'')]\<rparr>],
     Pr_Mappings = [''/app''], Pr_Comments = [''x'']\<rparr>"


section \<open>What a window ships\<close>

definition group_ok :: "(int \<Rightarrow> PodBinding) \<Rightarrow> string list \<Rightarrow> Scope \<Rightarrow> Sample list \<Rightarrow> string \<Rightarrow> group \<Rightarrow> bool" where
  "group_ok binding targetSet scope samples cid g \<longleftrightarrow>
     cid \<in> set targetSet \<and> Scope_Admits scope (Gr_podUID g) \<and> Gr_samples g \<noteq> [] \<and>
     list_all (\<lambda>s. s \<in> set samples \<and> ContainerID (binding (Sm_PID s)) = cid \<and> Scope_Admits scope (PodUID (binding (Sm_PID s)))) (Gr_samples g)"

lemma group_sample_ok:
  assumes "\<forall>cid g. mget (fst go) cid = Some g \<longrightarrow> group_ok binding targetSet scope samples cid g" and "s \<in> set samples"
  shows "\<forall>cid g. mget (fst (group_sample binding targetSet scope s go)) cid = Some g \<longrightarrow> group_ok binding targetSet scope samples cid g"
proof (intro allI impI)
  fix cid g assume g: "mget (fst (group_sample binding targetSet scope s go)) cid = Some g"
  show "group_ok binding targetSet scope samples cid g"
  proof (cases "ContainerID (binding (Sm_PID s)) = cid \<and> cid \<noteq> [] \<and> cid \<in> set targetSet \<and> Scope_Admits scope (PodUID (binding (Sm_PID s)))")
    case True
    then have "g = (let h = mget_or \<lparr>Gr_podUID = PodUID (binding (Sm_PID s)), Gr_samples = []\<rparr> (fst go) cid in h\<lparr>Gr_samples := Gr_samples h @ [s]\<rparr>)"
      using g by (auto simp: group_sample_def Let_def)
    then show ?thesis using True assms by (auto simp: mget_or_def group_ok_def Let_def split: option.splits)
  next
    case False
    then have "mget (fst go) cid = Some g" using g by (auto simp: group_sample_def Let_def split: if_splits)
    then show ?thesis using assms(1) by blast
  qed
qed

lemma groups_ok:
  "set ss \<subseteq> set samples \<Longrightarrow> \<forall>cid g. mget (fst go) cid = Some g \<longrightarrow> group_ok binding targetSet scope samples cid g \<Longrightarrow>
   \<forall>cid g. mget (fst (fold (group_sample binding targetSet scope) ss go)) cid = Some g \<longrightarrow> group_ok binding targetSet scope samples cid g"
proof (induction ss arbitrary: go)
  case (Cons s ss)
  have "s \<in> set samples" "set ss \<subseteq> set samples" using Cons.prems(1) by simp_all
  then show ?case using Cons.IH [OF _ group_sample_ok [OF Cons.prems(2)]] by simp
qed simp

lemma shipped_of_groups:
  "r \<in> set (snd (fold (ship_group pp ff sps node start finish shipper) cgs mo)) \<Longrightarrow> r \<notin> set (snd mo) \<Longrightarrow>
   \<exists>cg \<in> set cgs. PR_Node r = node \<and> PR_ContainerID r = fst cg \<and> PR_PodUID r = Gr_podUID (snd cg) \<and>
     Serialize pp (fst (Filter_samples (ff (fst cg)) (Gr_samples (snd cg)))) sps = Some (PR_Pprof r) \<and> Validate pp (PR_Pprof r)"
proof (induction cgs arbitrary: mo)
  case (Cons cg cgs)
  show ?case
  proof (cases "r \<in> set (snd (ship_group pp ff sps node start finish shipper cg mo))")
    case False
    from Cons.IH [OF _ this] Cons.prems(1) show ?thesis by (metis fold_simps(2) list.set_intros(2))
  next
    case True
    then show ?thesis using Cons.prems(2)
      by (auto simp: ship_group_def Let_def split: prod.splits option.splits if_splits)
  qed
qed simp

text \<open>
  C20. A window ships a profile only of containers that the controller targeted and the scope admits. Every
  report offered to the shipper is of this node, of a container in the target set and of a pod in
  scope; its bytes are the filtered serialization of samples of the window, all taken in processes
  whose own cgroup binds them to that container and to a pod in scope, and they passed the
  validation.
\<close>

theorem window_ships_targeted_in_scope:
  assumes "r \<in> set (snd (processWindow pp ff sps binding node start finish samples targetSet scope shipper m))"
  shows "PR_Node r = node \<and> PR_ContainerID r \<in> set targetSet \<and> Scope_Admits scope (PR_PodUID r) \<and> Validate pp (PR_Pprof r) \<and>
    (\<exists>ss. ss \<noteq> [] \<and> set ss \<subseteq> set samples \<and> Serialize pp (fst (Filter_samples (ff (PR_ContainerID r)) ss)) sps = Some (PR_Pprof r) \<and>
       list_all (\<lambda>s. ContainerID (binding (Sm_PID s)) = PR_ContainerID r \<and> Scope_Admits scope (PodUID (binding (Sm_PID s)))) ss)"
proof -
  define go where "go = fold (group_sample binding targetSet scope) samples (mempty, 0)"
  obtain m' where "r \<in> set (snd (fold (ship_group pp ff sps node start finish shipper) (entries (fst go)) (m', [])))"
    using assms by (auto simp: processWindow_def Let_def go_def split: if_splits)
  then obtain cg where cg: "cg \<in> set (entries (fst go))" "PR_Node r = node" "PR_ContainerID r = fst cg" "PR_PodUID r = Gr_podUID (snd cg)"
    "Serialize pp (fst (Filter_samples (ff (fst cg)) (Gr_samples (snd cg)))) sps = Some (PR_Pprof r)" "Validate pp (PR_Pprof r)"
    using shipped_of_groups [of r pp ff sps node start finish shipper "entries (fst go)" "(m', [])"] by auto
  have "mget (fst go) (fst cg) = Some (snd cg)" using cg(1) unfolding mget_entries by simp
  then have "group_ok binding targetSet scope samples (fst cg) (snd cg)"
    using groups_ok [of samples samples "(mempty, 0)" binding targetSet scope] unfolding go_def by simp
  then show ?thesis using cg(2-6) unfolding group_ok_def
    by (intro conjI exI [of _ "Gr_samples (snd cg)"]) (auto simp: list_all_iff)
qed

definition plain_pprof :: pprof_library where
  "plain_pprof = \<lparr>pp_encode = (\<lambda>p. Some ''x''), pp_parse = (\<lambda>_. Some (build_profile [hidden_sample ''main.f''] 20))\<rparr>"

theorem window_ships_targeted_in_scope_witness:
  "let rs = snd (processWindow plain_pprof (\<lambda>_. NewSymbolFilter [] ThirdPartyDrop) 20 (\<lambda>_. \<lparr>PodUID = ''u1'', ContainerID = ''c1''\<rparr>) ''n1'' 1 9
     [hidden_sample ''main.f''] [''c1''] (NewScope [''u1'']) (Some (\<lambda>_. True)) newProfilingMetrics)
   in PR_ContainerID (hd rs) \<in> set [''c1'']"
proof -
  let ?rs = "snd (processWindow plain_pprof (\<lambda>_. NewSymbolFilter [] ThirdPartyDrop) 20 (\<lambda>_. \<lparr>PodUID = ''u1'', ContainerID = ''c1''\<rparr>) ''n1'' 1 9
     [hidden_sample ''main.f''] [''c1''] (NewScope [''u1'']) (Some (\<lambda>_. True)) newProfilingMetrics)"
  have "\<not> List.null ?rs" by code_simp
  then have "hd ?rs \<in> set ?rs" by simp
  from window_ships_targeted_in_scope [OF this] show ?thesis unfolding Let_def by blast
qed

section \<open>The published targets\<close>

definition rank_key :: "Target \<times> int \<Rightarrow> int \<times> string \<times> string" where
  "rank_key a = (- snd a, fst (fst a), snd (snd (fst a)))"

interpretation ranking: sort_order less_ranked rank_key
  by unfold_locales (auto simp: less_ranked_def rank_key_def less_prod_def)

lemma sorted_take_drop:
  assumes "sorted (map k xs)" and "a \<in> set (take n xs)" and "b \<in> set (drop n xs)"
  shows "(k a :: 'k::linorder) \<le> k b"
proof -
  have "sorted (map k (take n xs) @ map k (drop n xs))" using assms(1) by (metis append_take_drop_id map_append)
  then show ?thesis using assms(2,3) by (auto simp: sorted_append)
qed

text \<open>
  The published targets are the workloads that consume most. At most the configured number is
  published, never an excluded workload, and no workload left out consumed more than one that was
  published.
\<close>

theorem published_targets_consume_most:
  assumes "p' = Publish excluded records p" and "mget (consumption excluded records) t' = Some v'" and "t' \<notin> set (Publisher_Snapshot p')"
    and "t \<in> set (Publisher_Snapshot p')"
  shows "int (length (Publisher_Snapshot p')) \<le> max 0 (Pub_topN p) \<and> t \<notin> set excluded \<and>
    (\<exists>v. mget (consumption excluded records) t = Some v \<and> v' \<le> v)"
proof -
  define rs where "rs = sort_slice less_ranked (entries (consumption excluded records))"
  define n where "n = nat (Pub_topN p)"
  have snap: "Publisher_Snapshot p' = map fst (take n rs)" unfolding assms(1) by (simp add: Publish_def Publisher_Snapshot_def rs_def n_def)
  have mem: "e \<in> set rs \<longleftrightarrow> mget (consumption excluded records) (fst e) = Some (snd e)" for e
    unfolding rs_def set_sort_slice mget_entries by simp
  obtain v where v: "(t, v) \<in> set (take n rs)" using assms(4) unfolding snap by auto
  then have tv: "mget (consumption excluded records) t = Some v" using mem [of "(t, v)"] in_set_takeD by fastforce
  have "(t', v') \<in> set rs" using assms(2) mem [of "(t', v')"] by simp
  moreover have "(t', v') \<notin> set (take n rs)" using assms(3) unfolding snap by force
  ultimately have "(t', v') \<in> set (drop n rs)" by (metis Un_iff append_take_drop_id set_append)
  then have "rank_key (t, v) \<le> rank_key (t', v')"
    using sorted_take_drop [OF _ v] ranking.sorted_sort_slice unfolding rs_def by blast
  then have "v' \<le> v" by (auto simp: rank_key_def less_eq_prod_def)
  moreover have "t \<notin> set excluded"
  proof -
    have "mget m t \<noteq> None \<or> t \<notin> set excluded"
      if "mget (fold (\<lambda>r m. if record_target r \<in> set excluded then m else mupd 0 (\<lambda>v. add64 v (CoreNanoseconds (CPU r))) (record_target r) m) records m) t \<noteq> None" for m
      using that by (induction records arbitrary: m) (fastforce split: if_splits)+
    from this [of mempty] show ?thesis using tv by (simp add: consumption_def)
  qed
  ultimately show ?thesis using tv by (simp add: snap n_def)
qed

definition busy_record :: "string \<Rightarrow> int \<Rightarrow> Histogram Record" where
  "busy_record name v = (newRecord (Key ''shop'' ''Deployment'' name ''app'') 0 60)\<lparr>CPU := (CPU (newRecord (Key ''shop'' ''Deployment'' name ''app'') 0 60))\<lparr>CoreNanoseconds := v\<rparr>\<rparr>"

definition two_busy :: "Histogram Record list" where "two_busy = [busy_record ''web'' 5, busy_record ''api'' 9]"

theorem published_targets_consume_most_witness:
  "\<exists>v. mget (consumption [] two_busy) (''shop'', ''Deployment'', ''api'') = Some v \<and> 5 \<le> v"
proof -
  have "mget (consumption [] two_busy) (''shop'', ''Deployment'', ''web'') = Some 5" by code_simp
  moreover have "(''shop'', ''Deployment'', ''web'') \<notin> set (Publisher_Snapshot (Publish [] two_busy (NewPublisher 1)))" by code_simp
  moreover have "(''shop'', ''Deployment'', ''api'') \<in> set (Publisher_Snapshot (Publish [] two_busy (NewPublisher 1)))" by code_simp
  ultimately show ?thesis using published_targets_consume_most [OF refl, of "[]" two_busy "(''shop'', ''Deployment'', ''web'')" 5 "NewPublisher 1"] by blast
qed

end
