(* ===== verification/Policies.thy ===== *)
theory Policies
  imports PodWatcher WatchHealth
begin

text \<open>
  The policy payloads of \<open>internal/collector/policy.go\<close>: what bounds a workload from outside its own
  spec (budgets, autoscalers, claims and services, joined to the workloads with admitted pods), and the
  policy of the collected namespaces with the two catalogs of the cluster.

  The informer caches are the record \<open>policyListers\<close>; a lister is \<^const>\<open>None\<close> where the code finds it
  nil or its call fails, which are the same early return. Label selectors, quantities and
  \<open>IntOrString\<close> values are those of the Kubernetes libraries: a selector is of any type, with the three
  operations the code calls as fields of the record, and a quantity is what its three accessors return.
\<close>

section \<open>Objects\<close>

record Quantity =
  Q_Value :: int
  Q_MilliValue :: int
  Q_String :: string

type_synonym ResourceList = "(string, Quantity) gomap"

record 's PodDisruptionBudget =
  Pdb_Namespace :: string
  Pdb_Name :: string
  Pdb_Selector :: "'s option"
  Pdb_MinAvailable :: "string option"
  Pdb_MaxUnavailable :: "string option"
  Pdb_DisruptionsAllowed :: int
  Pdb_CurrentHealthy :: int
  Pdb_DesiredHealthy :: int
  Pdb_ExpectedPods :: int

record Service =
  Svc_Namespace :: string
  Svc_Name :: string
  Svc_Annotations :: annotations
  Svc_Selector :: "(string, string) gomap"
  Svc_Type :: string
  Svc_ClusterIP :: string
  Svc_InternalTrafficPolicy :: "string option"
  Svc_ExternalTrafficPolicy :: string
  Svc_TrafficDistribution :: "string option"

record Endpoint =
  Ep_Ready :: "bool option"
  Ep_Zone :: "string option"
  Ep_ForZones :: "string list option"

record EndpointSlice =
  Es_AddressType :: string
  Es_Endpoints :: "Endpoint list"

record MetricTarget =
  Mt_Type :: string
  Mt_AverageUtilization :: "int option"
  Mt_AverageValue :: "Quantity option"
  Mt_Value :: "Quantity option"

record MetricSpec =
  Ms_Type :: string
  Ms_Resource :: "(string \<times> MetricTarget) option"
  Ms_ContainerResource :: "(string \<times> MetricTarget) option"
  Ms_Pods :: "(string \<times> MetricTarget) option"
  Ms_Object :: "(string \<times> MetricTarget) option"
  Ms_External :: "(string \<times> MetricTarget) option"

record HPACondition =
  Hc_Type :: string
  Hc_Status :: string
  Hc_Reason :: string

record HorizontalPodAutoscaler =
  Hpa_Namespace :: string
  Hpa_Name :: string
  Hpa_Target :: WorkloadRef
  Hpa_MinReplicas :: "int option"
  Hpa_MaxReplicas :: int
  Hpa_CurrentReplicas :: int
  Hpa_DesiredReplicas :: int
  Hpa_Conditions :: "HPACondition list"
  Hpa_Metrics :: "MetricSpec list"

record PersistentVolumeClaim =
  Pvc_Name :: string
  Pvc_Phase :: string
  Pvc_StorageClassName :: "string option"
  Pvc_AccessModes :: "string list"
  Pvc_Requests :: ResourceList

record LimitRangeLimit =
  Ll_Type :: string
  Ll_DefaultRequest :: ResourceList
  Ll_Default :: ResourceList
  Ll_Min :: ResourceList
  Ll_Max :: ResourceList

record LimitRange =
  Lr_Name :: string
  Lr_Limits :: "LimitRangeLimit list"

record ResourceQuota =
  Rq_Name :: string
  Rq_SpecHard :: ResourceList
  Rq_StatusHard :: ResourceList
  Rq_StatusUsed :: ResourceList
  Rq_Scopes :: "string list"

record PriorityClass =
  Pcl_Name :: string
  Pcl_Value :: int
  Pcl_GlobalDefault :: bool
  Pcl_PreemptionPolicy :: "string option"

record StorageClass =
  Scl_Name :: string
  Scl_Provisioner :: string
  Scl_Parameters :: "(string, string) gomap"
  Scl_ReclaimPolicy :: "string option"
  Scl_VolumeBindingMode :: "string option"
  Scl_AllowVolumeExpansion :: "bool option"

text \<open>
  \<open>Pl_pods\<close> answers the names of the pods of a namespace that a selector matches, \<open>Pl_endpointSlices\<close>
  the slices of a namespace that carry a service's name as their label.
\<close>

record 's policyListers =
  Pl_selectorEmpty :: "'s \<Rightarrow> bool"
  Pl_selectorFromSet :: "(string, string) gomap \<Rightarrow> 's"
  Pl_pods :: "string \<Rightarrow> 's \<Rightarrow> string list option"
  Pl_pdbs :: "'s PodDisruptionBudget list option"
  Pl_services :: "Service list option"
  Pl_endpointSlices :: "string \<Rightarrow> string \<Rightarrow> EndpointSlice list option"
  Pl_hpas :: "HorizontalPodAutoscaler list option"
  Pl_pvcs :: "(string \<Rightarrow> string \<Rightarrow> PersistentVolumeClaim option) option"
  Pl_limitRanges :: "string \<Rightarrow> LimitRange list option"
  Pl_quotas :: "string \<Rightarrow> ResourceQuota list option"
  Pl_priorityClasses :: "PriorityClass list option"
  Pl_storageClasses :: "StorageClass list option"

section \<open>What is reported\<close>

record DisruptionBudget =
  Db_Name :: string
  Db_MinAvailable :: string
  Db_MaxUnavailable :: string
  Db_DisruptionsAllowed :: int
  Db_CurrentHealthy :: int
  Db_DesiredHealthy :: int
  Db_ExpectedPods :: int

record AutoscalerMetric =
  Am_Type :: string
  Am_Name :: string
  Am_TargetType :: string
  Am_TargetValue :: string

record Autoscaler =
  As_Name :: string
  As_MinReplicas :: "int option"
  As_MaxReplicas :: int
  As_CurrentReplicas :: int
  As_DesiredReplicas :: int
  As_Metrics :: "AutoscalerMetric list"
  As_LimitedReason :: string

record VolumeClaim =
  Vc_Name :: string
  Vc_StorageClass :: string
  Vc_AccessModes :: "string list"
  Vc_RequestedBytes :: int
  Vc_Phase :: string

record EndpointZones =
  Ez_AddressType :: string
  Ez_Ready :: nat
  Ez_Zones :: "(string, nat) gomap"
  Ez_Unzoned :: nat
  Ez_Hinted :: nat

record ServiceExposure =
  Se_Name :: string
  Se_Type :: string
  Se_Headless :: bool
  Se_InternalTrafficPolicy :: string
  Se_ExternalTrafficPolicy :: string
  Se_TrafficDistribution :: string
  Se_TopologyMode :: string
  Se_Endpoints :: "EndpointZones list"

record WorkloadPolicy =
  WP_Namespace :: string
  WP_Workload :: WorkloadRef
  WP_Budgets :: "DisruptionBudget list"
  WP_Autoscalers :: "Autoscaler list"
  WP_Claims :: "VolumeClaim list"
  WP_Services :: "ServiceExposure list"

record ResourceAmounts =
  Ra_CPUMilli :: "int option"
  Ra_MemoryBytes :: "int option"
  Ra_StorageBytes :: "int option"

record LimitRangeItem =
  Li_Type :: string
  Li_DefaultRequest :: ResourceAmounts
  Li_Default :: ResourceAmounts
  Li_Min :: ResourceAmounts
  Li_Max :: ResourceAmounts

record LimitRangeInfo =
  Lri_Name :: string
  Lri_Items :: "LimitRangeItem list"

record ResourceQuotaInfo =
  Rqi_Name :: string
  Rqi_Hard :: "(string, string) gomap"
  Rqi_Used :: "(string, string) gomap"
  Rqi_Scopes :: "string list"

record NamespacePolicy =
  Np_Namespace :: string
  Np_LimitRanges :: "LimitRangeInfo list"
  Np_Quotas :: "ResourceQuotaInfo list"

record PriorityClassInfo =
  Pci_Name :: string
  Pci_Value :: int
  Pci_GlobalDefault :: bool
  Pci_PreemptionPolicy :: string

record StorageClassInfo =
  Sci_Name :: string
  Sci_Provisioner :: string
  Sci_ReclaimPolicy :: string
  Sci_VolumeBindingMode :: string
  Sci_AllowVolumeExpansion :: bool

record ClusterPolicy =
  Cp_Namespaces :: "NamespacePolicy list"
  Cp_PriorityClasses :: "PriorityClassInfo list"
  Cp_StorageClasses :: "StorageClassInfo list"

section \<open>The reductions\<close>

definition Deref :: "'a \<Rightarrow> 'a option \<Rightarrow> 'a" where
  "Deref d p = (case p of None \<Rightarrow> d | Some v \<Rightarrow> v)"

definition describeBudget :: "'s PodDisruptionBudget \<Rightarrow> DisruptionBudget" where
  "describeBudget pdb =
     \<lparr>Db_Name = Pdb_Name pdb, Db_MinAvailable = Deref [] (Pdb_MinAvailable pdb), Db_MaxUnavailable = Deref [] (Pdb_MaxUnavailable pdb),
      Db_DisruptionsAllowed = Pdb_DisruptionsAllowed pdb, Db_CurrentHealthy = Pdb_CurrentHealthy pdb,
      Db_DesiredHealthy = Pdb_DesiredHealthy pdb, Db_ExpectedPods = Pdb_ExpectedPods pdb\<rparr>"

text \<open>The source of a metric, by the metric's type; \<^const>\<open>None\<close> for a type or a source that is not there.\<close>

definition metric_source :: "MetricSpec \<Rightarrow> (string \<times> MetricTarget) option" where
  "metric_source m =
     (if Ms_Type m = ''Resource'' then Ms_Resource m
      else if Ms_Type m = ''ContainerResource'' then Ms_ContainerResource m
      else if Ms_Type m = ''Pods'' then Ms_Pods m
      else if Ms_Type m = ''Object'' then Ms_Object m
      else if Ms_Type m = ''External'' then Ms_External m
      else None)"

definition describeMetric :: "MetricSpec \<Rightarrow> AutoscalerMetric option" where
  "describeMetric m =
     (case metric_source m of
        None \<Rightarrow> None
      | Some (name, target) \<Rightarrow>
          if \<not> fits name then None
          else Some \<lparr>Am_Type = Ms_Type m, Am_Name = name, Am_TargetType = Mt_Type target,
            Am_TargetValue = (case Mt_AverageUtilization target of
               Some n \<Rightarrow> FormatInt n
             | None \<Rightarrow> case Mt_AverageValue target of Some q \<Rightarrow> Q_String q
               | None \<Rightarrow> case Mt_Value target of Some q \<Rightarrow> Q_String q | None \<Rightarrow> [])\<rparr>)"

definition describeAutoscaler :: "HorizontalPodAutoscaler \<Rightarrow> Autoscaler" where
  "describeAutoscaler hpa =
     \<lparr>As_Name = Hpa_Name hpa, As_MinReplicas = Hpa_MinReplicas hpa, As_MaxReplicas = Hpa_MaxReplicas hpa,
      As_CurrentReplicas = Hpa_CurrentReplicas hpa, As_DesiredReplicas = Hpa_DesiredReplicas hpa,
      As_Metrics = List.map_filter describeMetric (Hpa_Metrics hpa),
      As_LimitedReason = fold (\<lambda>c r. if Hc_Type c = ''ScalingLimited'' \<and> Hc_Status c = ''True'' then Hc_Reason c else r)
        (Hpa_Conditions hpa) []\<rparr>"

definition describeClaim :: "PersistentVolumeClaim \<Rightarrow> VolumeClaim" where
  "describeClaim pvc =
     \<lparr>Vc_Name = Pvc_Name pvc,
      Vc_StorageClass = (case Pvc_StorageClassName pvc of None \<Rightarrow> [] | Some c \<Rightarrow> if fits c then c else []),
      Vc_AccessModes = Pvc_AccessModes pvc,
      Vc_RequestedBytes = (case mget (Pvc_Requests pvc) ''storage'' of None \<Rightarrow> 0 | Some q \<Rightarrow> Q_Value q),
      Vc_Phase = Pvc_Phase pvc\<rparr>"

definition topologyModeAnnotations :: "string list" where
  "topologyModeAnnotations = [''service.kubernetes.io/topology-mode'', ''service.kubernetes.io/topology-aware-hints'']"

definition maxTopologyModeValue :: nat where "maxTopologyModeValue = 32"

definition topologyMode :: "Service \<Rightarrow> string" where
  "topologyMode svc =
     (case List.find (\<lambda>v. v \<noteq> [] \<and> length v \<le> maxTopologyModeValue)
         (List.map_filter (mget (Svc_Annotations svc)) topologyModeAnnotations) of None \<Rightarrow> [] | Some v \<Rightarrow> v)"

definition internalTrafficPolicy :: "Service \<Rightarrow> string" where
  "internalTrafficPolicy svc = (case Svc_InternalTrafficPolicy svc of None \<Rightarrow> [] | Some p \<Rightarrow> p)"

definition describeService :: "Service \<Rightarrow> ServiceExposure" where
  "describeService svc =
     \<lparr>Se_Name = Svc_Name svc, Se_Type = Svc_Type svc, Se_Headless = (Svc_ClusterIP svc = ''None''),
      Se_InternalTrafficPolicy = internalTrafficPolicy svc, Se_ExternalTrafficPolicy = Svc_ExternalTrafficPolicy svc,
      Se_TrafficDistribution = Deref [] (Svc_TrafficDistribution svc), Se_TopologyMode = topologyMode svc, Se_Endpoints = []\<rparr>"

definition emptyZones :: "string \<Rightarrow> EndpointZones" where
  "emptyZones family = \<lparr>Ez_AddressType = family, Ez_Ready = 0, Ez_Zones = mempty, Ez_Unzoned = 0, Ez_Hinted = 0\<rparr>"

definition count_endpoint :: "Endpoint \<Rightarrow> EndpointZones \<Rightarrow> EndpointZones" where
  "count_endpoint e z =
     (if \<not> Deref True (Ep_Ready e) then z
      else
        let z = z\<lparr>Ez_Ready := Ez_Ready z + 1\<rparr>;
            zone = Deref [] (Ep_Zone e);
            z = (if zone \<noteq> [] then z\<lparr>Ez_Zones := mupd 0 Suc zone (Ez_Zones z)\<rparr> else z\<lparr>Ez_Unzoned := Ez_Unzoned z + 1\<rparr>)
        in case Ep_ForZones e of Some (_ # _) \<Rightarrow> z\<lparr>Ez_Hinted := Ez_Hinted z + 1\<rparr> | _ \<Rightarrow> z)"

definition count_slice :: "EndpointSlice \<Rightarrow> (string, EndpointZones) gomap \<Rightarrow> (string, EndpointZones) gomap" where
  "count_slice sl m =
     (let family = Es_AddressType sl
      in mput family (fold count_endpoint (Es_Endpoints sl) (mget_or (emptyZones family) m family)) m)"

definition endpointZones :: "'s policyListers \<Rightarrow> string \<Rightarrow> string \<Rightarrow> EndpointZones list" where
  "endpointZones L namespace service =
     (case Pl_endpointSlices L namespace service of
        None \<Rightarrow> []
      | Some slices \<Rightarrow>
          sort_slice (\<lambda>a b. Ez_AddressType a < Ez_AddressType b) (mvalues (fold count_slice slices mempty)))"
section \<open>Joining policy to workloads\<close>

type_synonym workloadKey = "string \<times> string"

definition entry_key :: "podIndexEntry \<Rightarrow> workloadKey" where
  "entry_key e = (E_namespace e, Ref_Name (E_workload e))"

definition add_claim :: "string \<Rightarrow> string list \<Rightarrow> string list" where
  "add_claim c cs = (if c \<in> set cs then cs else cs @ [c])"

definition collect_entry ::
    "podIndexEntry \<Rightarrow> (workloadKey, WorkloadRef) gomap \<times> (workloadKey, string list) gomap \<Rightarrow>
     (workloadKey, WorkloadRef) gomap \<times> (workloadKey, string list) gomap" where
  "collect_entry e wc =
     (mput (entry_key e) (E_workload e) (fst wc),
      fold (\<lambda>c. mupd [] (add_claim c) (entry_key e)) (PI_Claims (E_info e)) (snd wc))"

definition collectedWorkloads :: "PodWatcher \<Rightarrow> (workloadKey, WorkloadRef) gomap \<times> (workloadKey, string list) gomap" where
  "collectedWorkloads w = fold collect_entry (mvalues (W_index w)) (mempty, mempty)"

text \<open>The workloads of the admitted pods a selector matches, each once.\<close>

definition workloadsSelecting :: "'s policyListers \<Rightarrow> PodWatcher \<Rightarrow> string \<Rightarrow> 's \<Rightarrow> workloadKey list" where
  "workloadsSelecting L w namespace selector =
     (case Pl_pods L namespace selector of
        None \<Rightarrow> []
      | Some pods \<Rightarrow>
          fold (\<lambda>pod out.
            case mget (W_nameIndex w) (name_key namespace pod) of
              None \<Rightarrow> out
            | Some uid \<Rightarrow>
                case mget (W_index w) uid of
                  None \<Rightarrow> out
                | Some entry \<Rightarrow> if entry_key entry \<in> set out then out else out @ [entry_key entry]) pods [])"

text \<open>
  The loops of the four \<open>attach\<close> methods: every object is appended to the records of the keys it
  names, where there is one, and the appended lists are sorted by name at the end.
\<close>

type_synonym policies = "(workloadKey, WorkloadPolicy) gomap"

definition attach_to :: "(WorkloadPolicy \<Rightarrow> WorkloadPolicy) \<Rightarrow> workloadKey \<Rightarrow> policies \<Rightarrow> policies" where
  "attach_to add k m = (case mget m k of None \<Rightarrow> m | Some p \<Rightarrow> mput k (add p) m)"

definition each_policy :: "(WorkloadPolicy \<Rightarrow> WorkloadPolicy) \<Rightarrow> policies \<Rightarrow> policies" where
  "each_policy f m = fold (\<lambda>(k, p). mput k (f p)) (entries m) m"

definition attach_each ::
    "('o \<Rightarrow> workloadKey list) \<Rightarrow> ('o \<Rightarrow> WorkloadPolicy \<Rightarrow> WorkloadPolicy) \<Rightarrow> 'o list \<Rightarrow> policies \<Rightarrow> policies" where
  "attach_each keys add os m = fold (\<lambda>obj. fold (attach_to (add obj)) (keys obj)) os m"

definition add_budget :: "'s PodDisruptionBudget \<Rightarrow> WorkloadPolicy \<Rightarrow> WorkloadPolicy" where
  "add_budget pdb p = p\<lparr>WP_Budgets := WP_Budgets p @ [describeBudget pdb]\<rparr>"

definition budget_keys :: "'s policyListers \<Rightarrow> PodWatcher \<Rightarrow> 's PodDisruptionBudget \<Rightarrow> workloadKey list" where
  "budget_keys L w pdb =
     (case Pdb_Selector pdb of
        None \<Rightarrow> []
      | Some selector \<Rightarrow> if Pl_selectorEmpty L selector then [] else workloadsSelecting L w (Pdb_Namespace pdb) selector)"

definition attachBudgets :: "'s policyListers \<Rightarrow> PodWatcher \<Rightarrow> policies \<Rightarrow> policies" where
  "attachBudgets L w byKey =
     (case Pl_pdbs L of
        None \<Rightarrow> byKey
      | Some budgets \<Rightarrow>
          each_policy (\<lambda>p. p\<lparr>WP_Budgets := sort_slice (\<lambda>a b. Db_Name a < Db_Name b) (WP_Budgets p)\<rparr>)
            (attach_each (budget_keys L w) add_budget budgets byKey))"

definition expose :: "'s policyListers \<Rightarrow> Service \<Rightarrow> ServiceExposure" where
  "expose L svc = (describeService svc)\<lparr>Se_Endpoints := endpointZones L (Svc_Namespace svc) (Svc_Name svc)\<rparr>"

definition add_service :: "'s policyListers \<Rightarrow> Service \<Rightarrow> WorkloadPolicy \<Rightarrow> WorkloadPolicy" where
  "add_service L svc p = p\<lparr>WP_Services := WP_Services p @ [expose L svc]\<rparr>"

definition service_keys :: "'s policyListers \<Rightarrow> PodWatcher \<Rightarrow> Service \<Rightarrow> workloadKey list" where
  "service_keys L w svc =
     (if mlen (Svc_Selector svc) = 0 then []
      else workloadsSelecting L w (Svc_Namespace svc) (Pl_selectorFromSet L (Svc_Selector svc)))"

definition attachServices :: "'s policyListers \<Rightarrow> PodWatcher \<Rightarrow> policies \<Rightarrow> policies" where
  "attachServices L w byKey =
     (case Pl_services L of
        None \<Rightarrow> byKey
      | Some services \<Rightarrow>
          each_policy (\<lambda>p. p\<lparr>WP_Services := sort_slice (\<lambda>a b. Se_Name a < Se_Name b) (WP_Services p)\<rparr>)
            (attach_each (service_keys L w) (add_service L) services byKey))"

text \<open>An autoscaler is kept where its target's kind is the kind of the record under the target's name.\<close>

definition add_autoscaler :: "HorizontalPodAutoscaler \<Rightarrow> WorkloadPolicy \<Rightarrow> WorkloadPolicy" where
  "add_autoscaler hpa p =
     (if Ref_Kind (WP_Workload p) \<noteq> Ref_Kind (Hpa_Target hpa) then p
      else p\<lparr>WP_Autoscalers := WP_Autoscalers p @ [describeAutoscaler hpa]\<rparr>)"

definition attachAutoscalers :: "'s policyListers \<Rightarrow> policies \<Rightarrow> policies" where
  "attachAutoscalers L byKey =
     (case Pl_hpas L of
        None \<Rightarrow> byKey
      | Some scalers \<Rightarrow>
          each_policy (\<lambda>p. p\<lparr>WP_Autoscalers := sort_slice (\<lambda>a b. As_Name a < As_Name b) (WP_Autoscalers p)\<rparr>)
            (attach_each (\<lambda>hpa. [(Hpa_Namespace hpa, Ref_Name (Hpa_Target hpa))]) add_autoscaler scalers byKey))"

definition claims_of :: "(string \<Rightarrow> string \<Rightarrow> PersistentVolumeClaim option) \<Rightarrow> workloadKey \<Rightarrow> string list \<Rightarrow> VolumeClaim list" where
  "claims_of pvcs k names = List.map_filter (\<lambda>name. map_option describeClaim (pvcs (fst k) name)) names"

definition attachClaims :: "'s policyListers \<Rightarrow> (workloadKey, string list) gomap \<Rightarrow> policies \<Rightarrow> policies" where
  "attachClaims L claimsByWorkload byKey =
     (case Pl_pvcs L of
        None \<Rightarrow> byKey
      | Some pvcs \<Rightarrow>
          fold (\<lambda>(k, names). attach_to (\<lambda>p. p\<lparr>WP_Claims := sort_slice (\<lambda>a b. Vc_Name a < Vc_Name b)
                 (WP_Claims p @ claims_of pvcs k names)\<rparr>) k) (entries claimsByWorkload) byKey)"

definition workloadPolicySources :: "string list" where
  "workloadPolicySources = [''services'', ''endpoint_slices'', ''pod_disruption_budgets'', ''horizontal_pod_autoscalers'', ''persistent_volume_claims'']"

definition clusterPolicySources :: "string list" where
  "clusterPolicySources = [''limit_ranges'', ''resource_quotas'', ''priority_classes'', ''storage_classes'']"

definition bare_policy :: "workloadKey \<Rightarrow> WorkloadRef \<Rightarrow> WorkloadPolicy" where
  "bare_policy k ref = \<lparr>WP_Namespace = fst k, WP_Workload = ref, WP_Budgets = [], WP_Autoscalers = [], WP_Claims = [], WP_Services = []\<rparr>"

definition less_policy :: "WorkloadPolicy \<Rightarrow> WorkloadPolicy \<Rightarrow> bool" where
  "less_policy a b =
     (if WP_Namespace a \<noteq> WP_Namespace b then WP_Namespace a < WP_Namespace b
      else if Ref_Kind (WP_Workload a) \<noteq> Ref_Kind (WP_Workload b) then Ref_Kind (WP_Workload a) < Ref_Kind (WP_Workload b)
      else Ref_Name (WP_Workload a) < Ref_Name (WP_Workload b))"

definition unconstrained :: "WorkloadPolicy \<Rightarrow> bool" where
  "unconstrained p \<longleftrightarrow> WP_Budgets p = [] \<and> WP_Autoscalers p = [] \<and> WP_Claims p = [] \<and> WP_Services p = []"

definition attached :: "'s policyListers \<Rightarrow> PodWatcher \<Rightarrow> policies" where
  "attached L w =
     (let (workloads, claims) = collectedWorkloads w;
          byKey = fold (\<lambda>(k, ref). mput k (bare_policy k ref)) (entries workloads) mempty
      in attachServices L w (attachClaims L claims (attachAutoscalers L (attachBudgets L w byKey))))"

definition WorkloadPolicies :: "'s policyListers \<Rightarrow> watchLimits \<Rightarrow> time \<Rightarrow> policySource list \<Rightarrow> PodWatcher \<Rightarrow> WorkloadPolicy list \<times> string list" where
  "WorkloadPolicies L limits now sources w =
     (let unavailable = unavailablePolicySources limits now workloadPolicySources sources in
      if mlen (fst (collectedWorkloads w)) = 0 then ([], unavailable)
      else (sort_slice less_policy (filter (\<lambda>p. \<not> unconstrained p) (mvalues (attached L w))), unavailable))"

section \<open>The policy of the cluster\<close>

definition collectedNamespaces :: "PodWatcher \<Rightarrow> string list" where
  "collectedNamespaces w = sort_slice (<) (remdups (map E_namespace (mvalues (W_index w))))"

definition amountsOf :: "ResourceList \<Rightarrow> ResourceAmounts" where
  "amountsOf list =
     \<lparr>Ra_CPUMilli = map_option Q_MilliValue (mget list ''cpu''), Ra_MemoryBytes = map_option Q_Value (mget list ''memory''),
      Ra_StorageBytes = map_option Q_Value (mget list ''storage'')\<rparr>"

definition amountsEmpty :: "ResourceAmounts \<Rightarrow> bool" where
  "amountsEmpty r \<longleftrightarrow> Ra_CPUMilli r = None \<and> Ra_MemoryBytes r = None \<and> Ra_StorageBytes r = None"

definition describe_limit :: "LimitRangeLimit \<Rightarrow> LimitRangeItem option" where
  "describe_limit item =
     (let reduced = \<lparr>Li_Type = Ll_Type item, Li_DefaultRequest = amountsOf (Ll_DefaultRequest item), Li_Default = amountsOf (Ll_Default item),
                     Li_Min = amountsOf (Ll_Min item), Li_Max = amountsOf (Ll_Max item)\<rparr> in
      if amountsEmpty (Li_DefaultRequest reduced) \<and> amountsEmpty (Li_Default reduced) \<and>
         amountsEmpty (Li_Min reduced) \<and> amountsEmpty (Li_Max reduced) then None else Some reduced)"

definition describeLimitRange :: "LimitRange \<Rightarrow> LimitRangeInfo" where
  "describeLimitRange lr = \<lparr>Lri_Name = Lr_Name lr, Lri_Items = List.map_filter describe_limit (Lr_Limits lr)\<rparr>"

definition quantityMap :: "ResourceList \<Rightarrow> (string, string) gomap" where
  "quantityMap list = fold (\<lambda>(name, q) out. if \<not> fits name then out else mput name (Q_String q) out) (entries list) mempty"

definition describeQuota :: "ResourceQuota \<Rightarrow> ResourceQuotaInfo" where
  "describeQuota q =
     \<lparr>Rqi_Name = Rq_Name q,
      Rqi_Hard = (if mlen (Rq_StatusHard q) > 0 then quantityMap (Rq_StatusHard q) else quantityMap (Rq_SpecHard q)),
      Rqi_Used = quantityMap (Rq_StatusUsed q), Rqi_Scopes = sort_slice (<) (Rq_Scopes q)\<rparr>"

definition limitRangesIn :: "'s policyListers \<Rightarrow> string \<Rightarrow> LimitRangeInfo list" where
  "limitRangesIn L namespace =
     (case Pl_limitRanges L namespace of
        None \<Rightarrow> []
      | Some ranges \<Rightarrow> sort_slice (\<lambda>a b. Lri_Name a < Lri_Name b) (map describeLimitRange ranges))"

definition quotasIn :: "'s policyListers \<Rightarrow> string \<Rightarrow> ResourceQuotaInfo list" where
  "quotasIn L namespace =
     (case Pl_quotas L namespace of
        None \<Rightarrow> []
      | Some quotas \<Rightarrow> sort_slice (\<lambda>a b. Rqi_Name a < Rqi_Name b) (map describeQuota quotas))"

definition priorityClasses :: "'s policyListers \<Rightarrow> PriorityClassInfo list" where
  "priorityClasses L =
     (case Pl_priorityClasses L of
        None \<Rightarrow> []
      | Some classes \<Rightarrow>
          sort_slice (\<lambda>a b. Pci_Name a < Pci_Name b)
            (map (\<lambda>c. \<lparr>Pci_Name = Pcl_Name c, Pci_Value = Pcl_Value c, Pci_GlobalDefault = Pcl_GlobalDefault c,
                       Pci_PreemptionPolicy = Deref [] (Pcl_PreemptionPolicy c)\<rparr>)
              (filter (\<lambda>c. fits (Pcl_Name c)) classes)))"

definition describe_storage :: "StorageClass \<Rightarrow> StorageClassInfo" where
  "describe_storage c =
     \<lparr>Sci_Name = Scl_Name c, Sci_Provisioner = Scl_Provisioner c, Sci_ReclaimPolicy = Deref [] (Scl_ReclaimPolicy c),
      Sci_VolumeBindingMode = Deref [] (Scl_VolumeBindingMode c), Sci_AllowVolumeExpansion = Deref False (Scl_AllowVolumeExpansion c)\<rparr>"

definition storageClasses :: "'s policyListers \<Rightarrow> StorageClassInfo list" where
  "storageClasses L =
     (case Pl_storageClasses L of
        None \<Rightarrow> []
      | Some classes \<Rightarrow>
          sort_slice (\<lambda>a b. Sci_Name a < Sci_Name b)
            (map describe_storage (filter (\<lambda>c. fits (Scl_Name c) \<and> fits (Scl_Provisioner c)) classes)))"

definition namespace_policy :: "'s policyListers \<Rightarrow> string \<Rightarrow> NamespacePolicy" where
  "namespace_policy L ns = \<lparr>Np_Namespace = ns, Np_LimitRanges = limitRangesIn L ns, Np_Quotas = quotasIn L ns\<rparr>"

definition ClusterPolicy_of :: "'s policyListers \<Rightarrow> watchLimits \<Rightarrow> time \<Rightarrow> policySource list \<Rightarrow> PodWatcher \<Rightarrow> ClusterPolicy \<times> string list" where
  "ClusterPolicy_of L limits now sources w =
     (\<lparr>Cp_Namespaces = filter (\<lambda>p. \<not> (Np_LimitRanges p = [] \<and> Np_Quotas p = [])) (map (namespace_policy L) (collectedNamespaces w)),
       Cp_PriorityClasses = priorityClasses L, Cp_StorageClasses = storageClasses L\<rparr>,
      unavailablePolicySources limits now clusterPolicySources sources)"

section \<open>What is attached\<close>

lemma mget_attach_to: "mget (attach_to add k m) k' = (if k' = k then map_option add (mget m k') else mget m k')"
  by (simp add: attach_to_def split: option.splits)

lemma mget_fold_attach_to:
  "distinct ks \<Longrightarrow> mget (fold (attach_to add) ks m) k = (if k \<in> set ks then map_option add (mget m k) else mget m k)"
  by (induction ks arbitrary: m) (auto simp: mget_attach_to)

lemma mget_fold_mput_via:
  assumes "distinct (map fst es)"
  shows "mget (fold (\<lambda>(k, v). mput k (f k v)) es m) k = (case map_of es k of None \<Rightarrow> mget m k | Some v \<Rightarrow> Some (f k v))"
  using assms
proof (induction es arbitrary: m)
  case (Cons e es)
  then have "map_of es (fst e) = None" by (simp add: map_of_eq_None_iff)
  with Cons show ?case by (cases e) (auto split: option.splits)
qed simp

lemma mget_each_policy: "mget (each_policy f m) k = map_option f (mget m k)"
  unfolding each_policy_def mget_fold_mput_via [OF entries_distinct, of "\<lambda>_. f"]
  by (simp add: mget.rep_eq split: option.splits)

lemma mget_attach_each:
  assumes "\<And>obj. obj \<in> set os \<Longrightarrow> distinct (keys obj)"
  shows "mget (attach_each keys add os m) k = map_option (fold add (filter (\<lambda>obj. k \<in> set (keys obj)) os)) (mget m k)"
  unfolding attach_each_def using assms
proof (induction os arbitrary: m)
  case (Cons obj os)
  then show ?case by (simp add: mget_fold_attach_to option.map_comp comp_def)
qed (simp add: option.map_id0 option.map_id)

text \<open>A pod the selector matches and the index holds, under the workload's key.\<close>

definition selected :: "'s policyListers \<Rightarrow> PodWatcher \<Rightarrow> string \<Rightarrow> 's \<Rightarrow> workloadKey \<Rightarrow> bool" where
  "selected L w ns selector k \<longleftrightarrow>
     (\<exists>pods pod uid e. Pl_pods L ns selector = Some pods \<and> pod \<in> set pods \<and> mget (W_nameIndex w) (name_key ns pod) = Some uid \<and>
        mget (W_index w) uid = Some e \<and> k = entry_key e)"

definition found :: "PodWatcher \<Rightarrow> string \<Rightarrow> string \<Rightarrow> podIndexEntry option" where
  "found w ns pod = (case mget (W_nameIndex w) (name_key ns pod) of None \<Rightarrow> None | Some uid \<Rightarrow> mget (W_index w) uid)"

lemma found_iff: "found w ns pod = Some e \<longleftrightarrow> (\<exists>uid. mget (W_nameIndex w) (name_key ns pod) = Some uid \<and> mget (W_index w) uid = Some e)"
  by (simp add: found_def split: option.splits)

lemma workloadsSelecting_found:
  "workloadsSelecting L w ns sel = (case Pl_pods L ns sel of None \<Rightarrow> [] | Some pods \<Rightarrow>
     fold (\<lambda>k out. if k \<in> set out then out else out @ [k]) (map entry_key (List.map_filter (found w ns) pods)) [])"
proof -
  have step: "fold (\<lambda>pod out. case mget (W_nameIndex w) (name_key ns pod) of None \<Rightarrow> out
       | Some uid \<Rightarrow> case mget (W_index w) uid of None \<Rightarrow> out
         | Some entry \<Rightarrow> if entry_key entry \<in> set out then out else out @ [entry_key entry]) pods out =
     fold (\<lambda>k out. if k \<in> set out then out else out @ [k]) (map entry_key (List.map_filter (found w ns) pods)) out" for pods out
    by (induction pods arbitrary: out) (simp_all add: found_def List.map_filter_simps split: option.splits)
  show ?thesis unfolding workloadsSelecting_def step ..
qed

lemma fold_once:
  "set (fold (\<lambda>k out. if k \<in> set out then out else out @ [k]) ks out) = set out \<union> set ks"
  "distinct out \<Longrightarrow> distinct (fold (\<lambda>k out. if k \<in> set out then out else out @ [k]) ks out)"
  by (induction ks arbitrary: out) auto

lemma map_filter_set: "y \<in> set (List.map_filter f xs) \<longleftrightarrow> (\<exists>x \<in> set xs. f x = Some y)"
  by (force simp: List.map_filter_def)

lemma workloadsSelecting_set: "k \<in> set (workloadsSelecting L w ns sel) \<longleftrightarrow> selected L w ns sel k"
proof (cases "Pl_pods L ns sel")
  case None
  then show ?thesis by (simp add: workloadsSelecting_found selected_def)
next
  case (Some pods)
  have "k \<in> set (workloadsSelecting L w ns sel) \<longleftrightarrow> (\<exists>e. (\<exists>pod \<in> set pods. found w ns pod = Some e) \<and> k = entry_key e)"
    unfolding workloadsSelecting_found Some option.case fold_once set_map by (auto simp: map_filter_set intro!: imageI)
  also have "\<dots> \<longleftrightarrow> selected L w ns sel k"
    unfolding selected_def found_iff Some by blast
  finally show ?thesis .
qed

lemma workloadsSelecting_distinct [simp]: "distinct (workloadsSelecting L w ns sel)"
  by (simp add: workloadsSelecting_found fold_once split: option.splits)

lemma keys_distinct [simp]: "distinct (budget_keys L w pdb)" "distinct (service_keys L w svc)"
  by (simp_all add: budget_keys_def service_keys_def split: option.splits)

text \<open>What the index says of a key: the workload its record will name, and the claims its pods mount.\<close>

definition workload_under :: "PodWatcher \<Rightarrow> workloadKey \<Rightarrow> WorkloadRef option" where
  "workload_under w k = map_option E_workload (List.find (\<lambda>e. entry_key e = k) (rev (mvalues (W_index w))))"

definition claims_under :: "PodWatcher \<Rightarrow> workloadKey \<Rightarrow> string list" where
  "claims_under w k = fold add_claim (concat (map (\<lambda>e. PI_Claims (E_info e)) (filter (\<lambda>e. entry_key e = k) (mvalues (W_index w))))) []"

lemma mget_or_fold_claims:
  "mget_or [] (fold (\<lambda>c. mupd [] (add_claim c) k) cs m) k' = (if k' = k then fold add_claim cs (mget_or [] m k) else mget_or [] m k')"
  by (induction cs arbitrary: m) simp_all

lemma fold_collect_entry:
  "mget (fst (fold collect_entry es wc)) k =
     (case List.find (\<lambda>e. entry_key e = k) (rev es) of None \<Rightarrow> mget (fst wc) k | Some e \<Rightarrow> Some (E_workload e))" (is "?A es wc")
  "mget_or [] (snd (fold collect_entry es wc)) k =
     fold add_claim (concat (map (\<lambda>e. PI_Claims (E_info e)) (filter (\<lambda>e. entry_key e = k) es))) (mget_or [] (snd wc) k)" (is "?B es wc")
proof -
  show "?A es wc"
  proof (induction es arbitrary: wc rule: rev_induct)
    case (snoc e es)
    then show ?case by (simp add: collect_entry_def split: option.splits)
  qed simp
  show "?B es wc"
    by (induction es arbitrary: wc) (simp_all add: collect_entry_def mget_or_fold_claims)
qed

lemma mget_collected: "mget (fst (collectedWorkloads w)) k = workload_under w k"
  by (simp add: collectedWorkloads_def fold_collect_entry workload_under_def split: option.splits)

lemma mget_claims: "mget_or [] (snd (collectedWorkloads w)) k = claims_under w k"
  by (simp add: collectedWorkloads_def fold_collect_entry claims_under_def)

lemma workload_underE:
  assumes "workload_under w k = Some ref"
  obtains uid e where "mget (W_index w) uid = Some e" "entry_key e = k" "E_workload e = ref"
proof -
  obtain e where e: "List.find (\<lambda>e. entry_key e = k) (rev (mvalues (W_index w))) = Some e" "E_workload e = ref"
    using assms by (auto simp: workload_under_def)
  then have "e \<in> set (mvalues (W_index w))" "entry_key e = k"
    by (auto simp: find_Some_iff) (metis nth_mem set_rev length_rev)
  then show ?thesis using that e(2) unfolding mvalues_iff by blast
qed

lemma claims_underE:
  assumes "c \<in> set (claims_under w k)"
  obtains uid e where "mget (W_index w) uid = Some e" "entry_key e = k" "c \<in> set (PI_Claims (E_info e))"
proof -
  have "set (fold add_claim cs out) = set out \<union> set cs" for cs out
    by (induction cs arbitrary: out) (auto simp: add_claim_def)
  with assms obtain e where "e \<in> set (mvalues (W_index w))" "entry_key e = k" "c \<in> set (PI_Claims (E_info e))"
    by (auto simp: claims_under_def)
  then show ?thesis using that unfolding mvalues_iff by blast
qed

text \<open>The record of a workload, object by object.\<close>

definition policy_of :: "'s policyListers \<Rightarrow> PodWatcher \<Rightarrow> workloadKey \<Rightarrow> WorkloadRef \<Rightarrow> WorkloadPolicy" where
  "policy_of L w k ref =
     \<lparr>WP_Namespace = fst k, WP_Workload = ref,
      WP_Budgets = sort_slice (\<lambda>a b. Db_Name a < Db_Name b)
        (map describeBudget (filter (\<lambda>pdb. k \<in> set (budget_keys L w pdb)) (Deref [] (Pl_pdbs L)))),
      WP_Autoscalers = sort_slice (\<lambda>a b. As_Name a < As_Name b)
        (map describeAutoscaler (filter (\<lambda>hpa. Hpa_Namespace hpa = fst k \<and> Ref_Name (Hpa_Target hpa) = snd k \<and> Ref_Kind (Hpa_Target hpa) = Ref_Kind ref)
          (Deref [] (Pl_hpas L)))),
      WP_Claims = sort_slice (\<lambda>a b. Vc_Name a < Vc_Name b) (claims_of (Deref (\<lambda>_ _. None) (Pl_pvcs L)) k (claims_under w k)),
      WP_Services = sort_slice (\<lambda>a b. Se_Name a < Se_Name b)
        (map (expose L) (filter (\<lambda>svc. k \<in> set (service_keys L w svc)) (Deref [] (Pl_services L))))\<rparr>"

lemma sort_slice_Nil [simp]: "sort_slice lt [] = []"
  using length_sort_slice [of lt "[]"] by simp

lemma fold_add_budget: "fold add_budget bs p = p\<lparr>WP_Budgets := WP_Budgets p @ map describeBudget bs\<rparr>"
  by (induction bs arbitrary: p) (simp_all add: add_budget_def)

lemma fold_add_service: "fold (add_service L) ss p = p\<lparr>WP_Services := WP_Services p @ map (expose L) ss\<rparr>"
  by (induction ss arbitrary: p) (simp_all add: add_service_def)

lemma fold_add_autoscaler:
  "fold add_autoscaler hs p =
     p\<lparr>WP_Autoscalers := WP_Autoscalers p @ map describeAutoscaler (filter (\<lambda>h. Ref_Kind (Hpa_Target h) = Ref_Kind (WP_Workload p)) hs)\<rparr>"
  by (induction hs arbitrary: p) (auto simp: add_autoscaler_def)

lemma mget_attachBudgets:
  "mget (attachBudgets L w m) k = map_option (\<lambda>p. if Pl_pdbs L = None then p else p\<lparr>WP_Budgets := sort_slice (\<lambda>a b. Db_Name a < Db_Name b)
     (WP_Budgets p @ map describeBudget (filter (\<lambda>pdb. k \<in> set (budget_keys L w pdb)) (Deref [] (Pl_pdbs L))))\<rparr>) (mget m k)"
  by (cases "Pl_pdbs L"; cases "mget m k")
    (simp_all add: attachBudgets_def mget_each_policy mget_attach_each fold_add_budget Deref_def)

lemma mget_attachServices:
  "mget (attachServices L w m) k = map_option (\<lambda>p. if Pl_services L = None then p else p\<lparr>WP_Services := sort_slice (\<lambda>a b. Se_Name a < Se_Name b)
     (WP_Services p @ map (expose L) (filter (\<lambda>svc. k \<in> set (service_keys L w svc)) (Deref [] (Pl_services L))))\<rparr>) (mget m k)"
  by (cases "Pl_services L"; cases "mget m k")
    (simp_all add: attachServices_def mget_each_policy mget_attach_each fold_add_service Deref_def)

lemma mget_attachAutoscalers:
  "mget (attachAutoscalers L m) k = map_option (\<lambda>p. if Pl_hpas L = None then p else p\<lparr>WP_Autoscalers := sort_slice (\<lambda>a b. As_Name a < As_Name b)
     (WP_Autoscalers p @ map describeAutoscaler (filter (\<lambda>h. Hpa_Namespace h = fst k \<and> Ref_Name (Hpa_Target h) = snd k \<and>
        Ref_Kind (Hpa_Target h) = Ref_Kind (WP_Workload p)) (Deref [] (Pl_hpas L))))\<rparr>) (mget m k)"
proof -
  have split: "filter (\<lambda>h. Ref_Kind (Hpa_Target h) = rk) (filter (\<lambda>h. k \<in> set [(Hpa_Namespace h, Ref_Name (Hpa_Target h))]) hs) =
      filter (\<lambda>h. Hpa_Namespace h = fst k \<and> Ref_Name (Hpa_Target h) = snd k \<and> Ref_Kind (Hpa_Target h) = rk) hs" for rk hs
    by (cases k) (auto intro!: filter_cong)
  show ?thesis
    by (cases "Pl_hpas L"; cases "mget m k")
      (simp_all add: attachAutoscalers_def mget_each_policy mget_attach_each fold_add_autoscaler split [simplified] Deref_def)
qed

lemma mget_fold_attach_entries:
  assumes "distinct (map fst es)"
  shows "mget (fold (\<lambda>(k, v). attach_to (f k v) k) es m) k =
    (case map_of es k of None \<Rightarrow> mget m k | Some v \<Rightarrow> map_option (f k v) (mget m k))"
  using assms
proof (induction es arbitrary: m)
  case (Cons e es)
  then have "map_of es (fst e) = None" by (simp add: map_of_eq_None_iff)
  with Cons show ?case by (cases e) (auto simp: mget_attach_to split: option.splits)
qed simp

lemma mget_attachClaims:
  assumes "\<And>p. mget m k = Some p \<Longrightarrow> WP_Claims p = []"
  shows "mget (attachClaims L cs m) k = map_option (\<lambda>p. p\<lparr>WP_Claims := sort_slice (\<lambda>a b. Vc_Name a < Vc_Name b)
     (claims_of (Deref (\<lambda>_ _. None) (Pl_pvcs L)) k (mget_or [] cs k))\<rparr>) (mget m k)"
proof (cases "Pl_pvcs L")
  case None
  have "claims_of (\<lambda>_ _. None) k names = []" for names by (induction names) (simp_all add: claims_of_def List.map_filter_simps)
  then show ?thesis using assms None by (cases "mget m k") (simp_all add: attachClaims_def Deref_def)
next
  case (Some pvcs)
  show ?thesis
    using assms unfolding attachClaims_def Some option.case
    by (subst mget_fold_attach_entries [OF entries_distinct])
      (cases "mget m k"; cases "mget cs k"; simp add: mget.rep_eq [symmetric] mget_or_def Deref_def claims_of_def List.map_filter_simps)
qed

lemma mget_attached: "mget (attached L w) k = map_option (policy_of L w k) (workload_under w k)"
proof -
  define m where "m = fold (\<lambda>(k, ref). mput k (bare_policy k ref)) (entries (fst (collectedWorkloads w))) mempty"
  have m: "mget m k = map_option (bare_policy k) (workload_under w k)"
    unfolding m_def mget_fold_mput_via [OF entries_distinct, of bare_policy] mget_collected [symmetric]
    by (simp add: mget.rep_eq split: option.splits)
  have at: "attached L w = attachServices L w (attachClaims L (snd (collectedWorkloads w)) (attachAutoscalers L (attachBudgets L w m)))"
    by (simp add: attached_def m_def case_prod_beta Let_def)
  show ?thesis
  proof (cases "workload_under w k")
    case None
    have "mget (attachClaims L cs (attachAutoscalers L (attachBudgets L w m))) k = None" for cs
      by (subst mget_attachClaims) (simp_all add: mget_attachAutoscalers mget_attachBudgets m None)
    then show ?thesis unfolding at by (simp add: mget_attachServices None)
  next
    case (Some ref)
    have auto: "mget (attachAutoscalers L (attachBudgets L w m)) k = Some ((policy_of L w k ref)\<lparr>WP_Claims := [], WP_Services := []\<rparr>)"
      by (cases "Pl_pdbs L"; cases "Pl_hpas L")
        (simp_all add: mget_attachAutoscalers mget_attachBudgets m Some bare_policy_def policy_of_def Deref_def)
    have "mget (attachClaims L (snd (collectedWorkloads w)) (attachAutoscalers L (attachBudgets L w m))) k =
        Some ((policy_of L w k ref)\<lparr>WP_Services := []\<rparr>)"
      by (subst mget_attachClaims) (simp_all add: auto mget_claims policy_of_def)
    then show ?thesis unfolding at
      by (cases "Pl_services L") (simp_all add: mget_attachServices Some policy_of_def Deref_def)
  qed
qed

lemma WorkloadPolicies_iff:
  "p \<in> set (fst (WorkloadPolicies L limits now sources w)) \<longleftrightarrow>
     \<not> unconstrained p \<and> (\<exists>k ref. workload_under w k = Some ref \<and> p = policy_of L w k ref)"
proof (cases "mlen (fst (collectedWorkloads w)) = 0")
  case True
  then have "workload_under w k = None" for k
    unfolding mget_collected [symmetric] by (simp add: mlen_def mget_None_iff)
  then show ?thesis using True by (simp add: WorkloadPolicies_def Let_def)
next
  case False
  have "p \<in> set (fst (WorkloadPolicies L limits now sources w)) \<longleftrightarrow> \<not> unconstrained p \<and> (\<exists>k. mget (attached L w) k = Some p)"
    using False by (auto simp: WorkloadPolicies_def Let_def mvalues_iff)
  then show ?thesis unfolding mget_attached map_option_eq_Some by blast
qed

lemma policy_of_sel [simp]: "WP_Namespace (policy_of L w k ref) = fst k" "WP_Workload (policy_of L w k ref) = ref"
  by (simp_all add: policy_of_def)

lemma policy_of_members:
  "b \<in> set (WP_Budgets (policy_of L w k ref)) \<longleftrightarrow> (\<exists>pdb \<in> set (Deref [] (Pl_pdbs L)). k \<in> set (budget_keys L w pdb) \<and> b = describeBudget pdb)"
  "a \<in> set (WP_Autoscalers (policy_of L w k ref)) \<longleftrightarrow> (\<exists>hpa \<in> set (Deref [] (Pl_hpas L)). a = describeAutoscaler hpa \<and>
     Hpa_Namespace hpa = fst k \<and> Ref_Name (Hpa_Target hpa) = snd k \<and> Ref_Kind (Hpa_Target hpa) = Ref_Kind ref)"
  "c \<in> set (WP_Claims (policy_of L w k ref)) \<longleftrightarrow> (\<exists>name \<in> set (claims_under w k).
     map_option describeClaim (Deref (\<lambda>_ _. None) (Pl_pvcs L) (fst k) name) = Some c)"
  "s \<in> set (WP_Services (policy_of L w k ref)) \<longleftrightarrow> (\<exists>svc \<in> set (Deref [] (Pl_services L)). k \<in> set (service_keys L w svc) \<and> s = expose L svc)"
  by (auto simp: policy_of_def claims_of_def map_filter_set)

section \<open>Policy follows admission\<close>

lemma budget_keys_iff:
  "k \<in> set (budget_keys L w pdb) \<longleftrightarrow>
     (\<exists>sel. Pdb_Selector pdb = Some sel \<and> \<not> Pl_selectorEmpty L sel \<and> selected L w (Pdb_Namespace pdb) sel k)"
  by (cases "Pdb_Selector pdb") (auto simp: budget_keys_def workloadsSelecting_set)

lemma service_keys_iff:
  "k \<in> set (service_keys L w svc) \<longleftrightarrow>
     mlen (Svc_Selector svc) \<noteq> 0 \<and> selected L w (Svc_Namespace svc) (Pl_selectorFromSet L (Svc_Selector svc)) k"
  by (auto simp: service_keys_def workloadsSelecting_set)

lemma selected_admitted:
  assumes "w = runPods tr (NewPodWatcher f cbs)" and "selected L w ns sel k"
  shows "\<exists>entry. admitted_by f tr entry \<and> entry_key entry = k"
  using assms indexed_admitted unfolding selected_def by blast

text \<open>Where each kind of object in a record comes from, in terms of the record's key.\<close>

lemma budget_origin:
  assumes "w = runPods tr (NewPodWatcher f cbs)" and "b \<in> set (WP_Budgets (policy_of L w k ref))"
  shows "\<exists>pdb \<in> set (Deref [] (Pl_pdbs L)). b = describeBudget pdb \<and>
    (\<exists>sel. Pdb_Selector pdb = Some sel \<and> selected L w (Pdb_Namespace pdb) sel k) \<and> (\<exists>entry. admitted_by f tr entry \<and> entry_key entry = k)"
proof -
  obtain pdb sel where b: "pdb \<in> set (Deref [] (Pl_pdbs L))" "b = describeBudget pdb" "Pdb_Selector pdb = Some sel"
      "selected L w (Pdb_Namespace pdb) sel k"
    using assms(2) unfolding policy_of_members budget_keys_iff by blast
  then show ?thesis using selected_admitted [OF assms(1) b(4)] by blast
qed

lemma service_origin:
  assumes "w = runPods tr (NewPodWatcher f cbs)" and "s \<in> set (WP_Services (policy_of L w k ref))"
  shows "\<exists>svc \<in> set (Deref [] (Pl_services L)). s = expose L svc \<and>
    selected L w (Svc_Namespace svc) (Pl_selectorFromSet L (Svc_Selector svc)) k \<and> (\<exists>entry. admitted_by f tr entry \<and> entry_key entry = k)"
proof -
  obtain svc where s: "svc \<in> set (Deref [] (Pl_services L))" "s = expose L svc"
      "selected L w (Svc_Namespace svc) (Pl_selectorFromSet L (Svc_Selector svc)) k"
    using assms(2) unfolding policy_of_members service_keys_iff by blast
  then show ?thesis using selected_admitted [OF assms(1) s(3)] by blast
qed

lemma autoscaler_origin:
  assumes "a \<in> set (WP_Autoscalers (policy_of L w k ref))" and "k = (ns, Ref_Name ref)"
  shows "\<exists>hpa \<in> set (Deref [] (Pl_hpas L)). a = describeAutoscaler hpa \<and> Hpa_Namespace hpa = ns \<and> Hpa_Target hpa = ref"
proof -
  obtain hpa where a: "hpa \<in> set (Deref [] (Pl_hpas L))" "a = describeAutoscaler hpa" "Hpa_Namespace hpa = fst k"
      "Ref_Name (Hpa_Target hpa) = snd k" "Ref_Kind (Hpa_Target hpa) = Ref_Kind ref"
    using assms(1) unfolding policy_of_members by blast
  moreover have "Hpa_Target hpa = ref" using a(4,5) assms(2) by (intro WorkloadRef.expand) simp
  ultimately show ?thesis using assms(2) by auto
qed

lemma claim_origin:
  assumes "w = runPods tr (NewPodWatcher f cbs)" and "c \<in> set (WP_Claims (policy_of L w k ref))"
  shows "\<exists>entry name. admitted_by f tr entry \<and> entry_key entry = k \<and> name \<in> set (PI_Claims (E_info entry)) \<and>
    map_option describeClaim (Deref (\<lambda>_ _. None) (Pl_pvcs L) (fst k) name) = Some c"
proof -
  obtain name where name: "name \<in> set (claims_under w k)" "map_option describeClaim (Deref (\<lambda>_ _. None) (Pl_pvcs L) (fst k) name) = Some c"
    using assms(2) unfolding policy_of_members by blast
  obtain uid e where "mget (W_index w) uid = Some e" "entry_key e = k" "name \<in> set (PI_Claims (E_info e))" using name(1) by (rule claims_underE)
  then show ?thesis using name(2) indexed_admitted [of tr f cbs uid e] assms(1) by blast
qed

text \<open>
  C25. No policy object leads to a workload that is not admitted. Take any run of informer events and
  any content of the policy caches. A reported record names a workload of a pod whose last word
  admitted it; every budget and every service in it is the reduction of an object whose selector
  matches an admitted pod of a workload of that name in that namespace, every autoscaler targets that
  very workload, and every claim is mounted by such a pod. So an object that only concerns excluded
  pods is never named.
\<close>

theorem policies_follow_admission:
  assumes "w = runPods tr (NewPodWatcher f cbs)" and "p \<in> set (fst (WorkloadPolicies L limits now sources w))"
  defines "here \<equiv> \<lambda>entry. admitted_by f tr entry \<and> E_namespace entry = WP_Namespace p \<and> Ref_Name (E_workload entry) = Ref_Name (WP_Workload p)"
  shows "(\<exists>entry. here entry \<and> E_workload entry = WP_Workload p) \<and>
    (\<forall>b \<in> set (WP_Budgets p). \<exists>pdb \<in> set (Deref [] (Pl_pdbs L)). b = describeBudget pdb \<and>
       (\<exists>sel k. Pdb_Selector pdb = Some sel \<and> selected L w (Pdb_Namespace pdb) sel k \<and> (\<exists>entry. here entry \<and> entry_key entry = k))) \<and>
    (\<forall>a \<in> set (WP_Autoscalers p). \<exists>hpa \<in> set (Deref [] (Pl_hpas L)). a = describeAutoscaler hpa \<and>
       Hpa_Namespace hpa = WP_Namespace p \<and> Hpa_Target hpa = WP_Workload p) \<and>
    (\<forall>c \<in> set (WP_Claims p). \<exists>entry name. here entry \<and> name \<in> set (PI_Claims (E_info entry)) \<and>
       map_option describeClaim (Deref (\<lambda>_ _. None) (Pl_pvcs L) (WP_Namespace p) name) = Some c) \<and>
    (\<forall>s \<in> set (WP_Services p). \<exists>svc \<in> set (Deref [] (Pl_services L)). s = expose L svc \<and>
       (\<exists>k. selected L w (Svc_Namespace svc) (Pl_selectorFromSet L (Svc_Selector svc)) k \<and> (\<exists>entry. here entry \<and> entry_key entry = k)))"
proof -
  obtain k ref where k: "workload_under w k = Some ref" and p: "p = policy_of L w k ref"
    using assms(2) unfolding WorkloadPolicies_iff by blast
  obtain uid e where e: "mget (W_index w) uid = Some e" "entry_key e = k" "E_workload e = ref" using k by (rule workload_underE)
  have ref: "WP_Workload p = ref" and kk: "k = (WP_Namespace p, Ref_Name ref)" using e(2,3) p by (auto simp: entry_key_def)
  have here: "here entry \<longleftrightarrow> admitted_by f tr entry \<and> entry_key entry = k" for entry
    unfolding here_def kk entry_key_def ref by auto
  have "\<exists>entry. here entry \<and> E_workload entry = WP_Workload p"
    using e p indexed_admitted [of tr f cbs uid e] assms(1) unfolding here by auto
  moreover have "\<exists>pdb \<in> set (Deref [] (Pl_pdbs L)). b = describeBudget pdb \<and>
      (\<exists>sel k. Pdb_Selector pdb = Some sel \<and> selected L w (Pdb_Namespace pdb) sel k \<and> (\<exists>entry. here entry \<and> entry_key entry = k))"
    if "b \<in> set (WP_Budgets p)" for b
    using budget_origin [OF assms(1) that [unfolded p]] unfolding here by blast
  moreover have "\<exists>hpa \<in> set (Deref [] (Pl_hpas L)). a = describeAutoscaler hpa \<and> Hpa_Namespace hpa = WP_Namespace p \<and> Hpa_Target hpa = WP_Workload p"
    if "a \<in> set (WP_Autoscalers p)" for a
    using autoscaler_origin [OF that [unfolded p] kk] p by simp
  moreover have "\<exists>entry name. here entry \<and> name \<in> set (PI_Claims (E_info entry)) \<and>
      map_option describeClaim (Deref (\<lambda>_ _. None) (Pl_pvcs L) (WP_Namespace p) name) = Some c" if "c \<in> set (WP_Claims p)" for c
    using claim_origin [OF assms(1) that [unfolded p]] p unfolding here by auto
  moreover have "\<exists>svc \<in> set (Deref [] (Pl_services L)). s = expose L svc \<and>
      (\<exists>k. selected L w (Svc_Namespace svc) (Pl_selectorFromSet L (Svc_Selector svc)) k \<and> (\<exists>entry. here entry \<and> entry_key entry = k))"
    if "s \<in> set (WP_Services p)" for s
    using service_origin [OF assms(1) that [unfolded p]] unfolding here by blast
  ultimately show ?thesis by (intro conjI ballI)
qed

section \<open>Workloads of one name\<close>

text \<open>
  Two workloads of one namespace that share a name and differ in kind cannot both have a policy
  record, because the join is keyed by namespace and name: one of the two is never reported, whatever
  constrains it, and an autoscaler that targets it is dropped.
\<close>

theorem same_name_loses_a_workload:
  assumes "mget (W_index w) u1 = Some e1" and "mget (W_index w) u2 = Some e2" and "E_namespace e1 = E_namespace e2"
    and "Ref_Name (E_workload e1) = Ref_Name (E_workload e2)" and "E_workload e1 \<noteq> E_workload e2"
  shows "\<exists>e \<in> {e1, e2}. list_all (\<lambda>p. \<not> (WP_Namespace p = E_namespace e \<and> WP_Workload p = E_workload e))
    (fst (WorkloadPolicies L limits now sources w))"
proof -
  have key: "workload_under w (E_namespace e, Ref_Name (E_workload e)) = Some (E_workload e)"
    if p: "p \<in> set (fst (WorkloadPolicies L limits now sources w))" "WP_Namespace p = E_namespace e" "WP_Workload p = E_workload e" for p e
  proof -
    obtain k ref where k: "workload_under w k = Some ref" "p = policy_of L w k ref" using p(1) unfolding WorkloadPolicies_iff by blast
    obtain uid e' where "entry_key e' = k" "E_workload e' = ref" using k(1) by (rule workload_underE)
    then have "k = (E_namespace e, Ref_Name (E_workload e))" using k(2) p(2,3) by (auto simp: entry_key_def)
    then show ?thesis using k p(3) by simp
  qed
  show ?thesis using key [of _ e1] key [of _ e2] assms(3-5) unfolding list_all_iff by (metis insertI1 insertI2 option.inject singletonI)
qed

text \<open>A watcher that holds a pod of the StatefulSet and one of a Rollout of the same name.\<close>

definition twins :: PodWatcher where
  "twins = runPods [(no_caches, 5, PodAdded (web_pod plain_container)),
     (no_caches, 6, PodAdded ((web_pod plain_container)\<lparr>Pod_UID := ''u2'', Pod_Name := ''web-2'',
        Pod_Controller := Some (WorkloadRef ''Rollout'' ''web'')\<rparr>))] new_watcher"

definition budget_caches :: "unit policyListers" where
  "budget_caches = \<lparr>Pl_selectorEmpty = (\<lambda>_. False), Pl_selectorFromSet = (\<lambda>_. ()), Pl_pods = (\<lambda>_ _. Some [''web-1'', ''web-2'']),
     Pl_pdbs = Some [\<lparr>Pdb_Namespace = ''shop'', Pdb_Name = ''keep-one'', Pdb_Selector = Some (), Pdb_MinAvailable = Some ''1'',
       Pdb_MaxUnavailable = None, Pdb_DisruptionsAllowed = 0, Pdb_CurrentHealthy = 1, Pdb_DesiredHealthy = 1, Pdb_ExpectedPods = 1\<rparr>],
     Pl_services = None, Pl_endpointSlices = (\<lambda>_ _. None), Pl_hpas = None, Pl_pvcs = None, Pl_limitRanges = (\<lambda>_. None),
     Pl_quotas = (\<lambda>_. None), Pl_priorityClasses = None, Pl_storageClasses = None\<rparr>"

definition entry_at :: "PodWatcher \<Rightarrow> string \<Rightarrow> podIndexEntry" where
  "entry_at w uid = the (mget (W_index w) uid)"

lemma twins_index:
  "\<exists>b. mget (W_index twins) ''u1'' = Some (entry_of no_caches (web_pod plain_container) b)"
  "\<exists>b. mget (W_index twins) ''u2'' = Some (entry_of no_caches ((web_pod plain_container)\<lparr>Pod_UID := ''u2'', Pod_Name := ''web-2'', Pod_Controller := Some (WorkloadRef ''Rollout'' ''web'')\<rparr>) b)"
proof -
  have "A_collect (decide no_caches (NewFilter [] []) (web_pod plain_container))" "A_collect (decide no_caches (NewFilter [] []) ((web_pod plain_container)\<lparr>Pod_UID := ''u2'', Pod_Name := ''web-2'', Pod_Controller := Some (WorkloadRef ''Rollout'' ''web'')\<rparr>))"
    by code_simp+
  moreover have "Pod_UID (web_pod plain_container) = ''u1''" by (simp add: web_pod_def)
  ultimately show "\<exists>b. mget (W_index twins) ''u1'' = Some (entry_of no_caches (web_pod plain_container) b)"
    "\<exists>b. mget (W_index twins) ''u2'' = Some (entry_of no_caches ((web_pod plain_container)\<lparr>Pod_UID := ''u2'', Pod_Name := ''web-2'', Pod_Controller := Some (WorkloadRef ''Rollout'' ''web'')\<rparr>) b)"
    unfolding twins_def new_watcher_def index_after_run by (auto simp: speaks_of_def left_by_def Let_def)
qed

theorem same_name_loses_a_workload_witness:
  "\<exists>e \<in> {entry_at twins ''u1'', entry_at twins ''u2''}. list_all (\<lambda>p. \<not> (WP_Namespace p = E_namespace e \<and> WP_Workload p = E_workload e))
    (fst (WorkloadPolicies budget_caches defaultWatchLimits 9 [] twins))"
proof -
  obtain b1 b2 where e: "mget (W_index twins) ''u1'' = Some (entry_of no_caches (web_pod plain_container) b1)"
      "mget (W_index twins) ''u2'' = Some (entry_of no_caches ((web_pod plain_container)\<lparr>Pod_UID := ''u2'', Pod_Name := ''web-2'', Pod_Controller := Some (WorkloadRef ''Rollout'' ''web'')\<rparr>) b2)"
    using twins_index by blast
  then have "entry_at twins ''u1'' = entry_of no_caches (web_pod plain_container) b1"
      "entry_at twins ''u2'' = entry_of no_caches ((web_pod plain_container)\<lparr>Pod_UID := ''u2'', Pod_Name := ''web-2'', Pod_Controller := Some (WorkloadRef ''Rollout'' ''web'')\<rparr>) b2"
    by (simp_all add: entry_at_def)
  then show ?thesis
    using same_name_loses_a_workload [OF e, of budget_caches defaultWatchLimits 9 "[]"]
    by (simp add: entry_of_def resolveWorkload_def Let_def) (simp add: web_pod_def)
qed

theorem policies_follow_admission_witness:
  "let w = runPods [(no_caches, 5, PodAdded (web_pod plain_container))]
         (NewPodWatcher (NewFilter [] []) \<lparr>Cb_oom = True, Cb_restart = True, Cb_disruption = True, Cb_job = True\<rparr>);
       p = hd (fst (WorkloadPolicies budget_caches defaultWatchLimits 9 [] w))
   in \<exists>entry. admitted_by (NewFilter [] []) [(no_caches, 5, PodAdded (web_pod plain_container))] entry \<and>
        E_namespace entry = WP_Namespace p \<and> E_workload entry = WP_Workload p"
proof -
  define w where "w = runPods [(no_caches, 5, PodAdded (web_pod plain_container))]
         (NewPodWatcher (NewFilter [] []) \<lparr>Cb_oom = True, Cb_restart = True, Cb_disruption = True, Cb_job = True\<rparr>)"
  have "\<not> List.null (fst (WorkloadPolicies budget_caches defaultWatchLimits 9 [] w))" unfolding w_def by code_simp
  then have "hd (fst (WorkloadPolicies budget_caches defaultWatchLimits 9 [] w)) \<in> set (fst (WorkloadPolicies budget_caches defaultWatchLimits 9 [] w))"
    by simp
  from policies_follow_admission [OF w_def this] show ?thesis unfolding Let_def w_def [symmetric] by blast
qed

section \<open>Endpoints by zone\<close>

definition zones_account :: "EndpointZones \<Rightarrow> bool" where
  "zones_account z \<longleftrightarrow> Ez_Ready z = sum_list (mvalues (Ez_Zones z)) + Ez_Unzoned z \<and> Ez_Hinted z \<le> Ez_Ready z \<and>
     list_all (\<lambda>zone. zone \<noteq> []) (mkeys (Ez_Zones z))"

definition ready_endpoints :: "Endpoint list \<Rightarrow> nat" where
  "ready_endpoints es = length (filter (\<lambda>e. Ep_Ready e \<noteq> Some False) es)"

lemma Deref_True: "Deref True b \<longleftrightarrow> b \<noteq> Some False"
  by (cases b) (auto simp: Deref_def)

lemma sum_mvalues_Suc: "sum_list (mvalues (mupd 0 Suc k m)) = Suc (sum_list (mvalues m))"
  using sum_upd_sorted [OF entries_sorted [of m], of k "Suc (mget_or 0 m k)"]
  by (simp add: mvalues_def mupd_def mget_or_def mget.rep_eq)

lemma count_endpoint_ok:
  assumes "zones_account z"
  shows "zones_account (count_endpoint e z)" "Ez_AddressType (count_endpoint e z) = Ez_AddressType z"
    "Ez_Ready (count_endpoint e z) = Ez_Ready z + (if Ep_Ready e \<noteq> Some False then 1 else 0)"
proof -
  have keys: "list_all (\<lambda>zone. zone \<noteq> []) (mkeys (mupd 0 Suc k (Ez_Zones z)))" if "k \<noteq> []" for k
    using assms that unfolding zones_account_def list_all_iff Ball_def mkeys_iff by simp
  show "zones_account (count_endpoint e z)"
    using assms keys [of "Deref [] (Ep_Zone e)"]
    by (auto simp: zones_account_def count_endpoint_def Let_def sum_mvalues_Suc split: option.splits list.splits)
qed (auto simp: count_endpoint_def Deref_True Let_def split: option.splits list.splits)

lemma fold_count_endpoint:
  assumes "zones_account z"
  shows "zones_account (fold count_endpoint es z) \<and> Ez_AddressType (fold count_endpoint es z) = Ez_AddressType z \<and>
    Ez_Ready (fold count_endpoint es z) = Ez_Ready z + ready_endpoints es"
  using assms
proof (induction es arbitrary: z)
  case (Cons e es)
  then show ?case using count_endpoint_ok [OF Cons.prems] Cons.IH [of "count_endpoint e z"] by (auto simp: ready_endpoints_def)
qed (simp add: ready_endpoints_def)

text \<open>The endpoints of one address family.\<close>

definition of_family :: "string \<Rightarrow> EndpointSlice list \<Rightarrow> Endpoint list" where
  "of_family family slices = concat (map Es_Endpoints (filter (\<lambda>sl. Es_AddressType sl = family) slices))"

lemma fold_count_slice:
  "case mget (fold count_slice slices mempty) family of
     None \<Rightarrow> family \<notin> Es_AddressType ` set slices
   | Some z \<Rightarrow> family \<in> Es_AddressType ` set slices \<and> zones_account z \<and> Ez_AddressType z = family \<and>
       Ez_Ready z = ready_endpoints (of_family family slices)"
proof (induction slices rule: rev_induct)
  case (snoc sl slices)
  have empty: "zones_account (emptyZones family)" "Ez_AddressType (emptyZones family) = family" "Ez_Ready (emptyZones family) = 0"
    by (simp_all add: emptyZones_def zones_account_def mvalues_def mkeys_def)
  have more: "ready_endpoints (of_family family (slices @ [sl])) =
      ready_endpoints (of_family family slices) + (if Es_AddressType sl = family then ready_endpoints (Es_Endpoints sl) else 0)"
    by (simp add: of_family_def ready_endpoints_def)
  have none: "of_family family slices = []" if "family \<notin> Es_AddressType ` set slices"
    using that by (auto simp: of_family_def)
  show ?case
  proof (cases "Es_AddressType sl = family")
    case True
    define z where "z = mget_or (emptyZones family) (fold count_slice slices mempty) family"
    have "zones_account z" "Ez_AddressType z = family" "Ez_Ready z = ready_endpoints (of_family family slices)"
      using snoc.IH empty none unfolding z_def mget_or_def by (auto simp: ready_endpoints_def split: option.splits)
    moreover have "mget (fold count_slice (slices @ [sl]) mempty) family = Some (fold count_endpoint (Es_Endpoints sl) z)"
      using True by (simp add: count_slice_def z_def Let_def)
    ultimately show ?thesis using True fold_count_endpoint [of z "Es_Endpoints sl"] more by simp
  next
    case False
    then show ?thesis using snoc.IH more by (auto simp: count_slice_def Let_def split: option.splits)
  qed
qed simp

interpretation by_family: sort_order "\<lambda>a b. Ez_AddressType a < Ez_AddressType b" Ez_AddressType
  by unfold_locales simp

text \<open>
  The endpoints reported for a service account for what its slices hold: one entry for each address
  family that occurs, in order, its ready count being the number of endpoints of that family that are
  not marked unready, every one of them either in a named zone or counted as unzoned, and no more of
  them hinted than ready.
\<close>

theorem endpoint_zones_account:
  fixes L :: "'s policyListers" and ns service :: string
  defines "slices \<equiv> Deref [] (Pl_endpointSlices L ns service)"
  shows "map Ez_AddressType (endpointZones L ns service) = sorted_list_of_set (Es_AddressType ` set slices) \<and>
    list_all (\<lambda>z. zones_account z \<and> Ez_Ready z = ready_endpoints (of_family (Ez_AddressType z) slices)) (endpointZones L ns service)"
proof -
  define m where "m = fold count_slice slices mempty"
  have eq: "endpointZones L ns service = sort_slice (\<lambda>a b. Ez_AddressType a < Ez_AddressType b) (mvalues m)"
    by (cases "Pl_endpointSlices L ns service") (simp_all add: endpointZones_def m_def slices_def Deref_def mvalues_def)
  have m: "zones_account z \<and> Ez_AddressType z = family \<and> Ez_Ready z = ready_endpoints (of_family family slices)"
    if "mget m family = Some z" for family z
    using fold_count_slice [of family slices] that by (simp add: m_def)
  have addr: "map Ez_AddressType (mvalues m) = mkeys m"
    unfolding mvalues_def mkeys_def using m by (auto simp: mget_entries)
  have sorted: "sorted (mkeys m)" "distinct (mkeys m)" by (simp_all add: mkeys_def strict_sorted_imp_sorted)
  have "set (mkeys m) = Es_AddressType ` set slices"
    using fold_count_slice [of _ slices] by (force simp: m_def mkeys_iff split: option.splits)
  then have keys: "mkeys m = sorted_list_of_set (Es_AddressType ` set slices)"
    using sorted sorted_list_of_set.idem_if_sorted_distinct by metis
  have "endpointZones L ns service = mvalues m"
    unfolding eq by_family.sort_slice_sort_key by (rule sort_key_id_if_sorted) (simp add: addr sorted)
  then show ?thesis using m addr keys by (auto simp: list_all_iff mvalues_iff)
qed

section \<open>The cluster's catalogs\<close>

text \<open>
  What an operator wrote into the parameters of a storage class has no influence on the payload, and
  the namespaces it names are those of admitted pods: two states of the caches that differ only in
  the parameters of their storage classes give the same cluster policy, for any run of informer
  events, and every namespace in it is the namespace of a pod whose last word admitted it.
\<close>

theorem cluster_policy_discloses_no_parameters:
  assumes "w = runPods tr (NewPodWatcher f cbs)" and "map_option (map (Scl_Parameters_update (\<lambda>_. mempty))) (Pl_storageClasses L) =
      map_option (map (Scl_Parameters_update (\<lambda>_. mempty))) scs"
  shows "ClusterPolicy_of (L\<lparr>Pl_storageClasses := scs\<rparr>) limits now sources w = ClusterPolicy_of L limits now sources w \<and>
    list_all (\<lambda>np. \<exists>entry. admitted_by f tr entry \<and> E_namespace entry = Np_Namespace np) (Cp_Namespaces (fst (ClusterPolicy_of L limits now sources w)))"
proof
  define bare :: "StorageClass \<Rightarrow> StorageClass" where "bare = Scl_Parameters_update (\<lambda>_. mempty)"
  have desc: "describe_storage (bare c) = describe_storage c" "Scl_Name (bare c) = Scl_Name c" "Scl_Provisioner (bare c) = Scl_Provisioner c" for c
    by (simp_all add: bare_def describe_storage_def)
  define kept where "kept cs = map describe_storage (filter (\<lambda>c. fits (Scl_Name c) \<and> fits (Scl_Provisioner c)) cs)" for cs
  have kept: "kept (map bare cs) = kept cs" for cs by (induction cs) (simp_all add: kept_def desc)
  have "map_option kept scs = map_option kept (Pl_storageClasses L)"
    using arg_cong [OF assms(2), of "map_option kept"] by (simp add: option.map_comp comp_def bare_def [symmetric] kept)
  then have "storageClasses (L\<lparr>Pl_storageClasses := scs\<rparr>) = storageClasses L"
    by (cases scs; cases "Pl_storageClasses L") (simp_all add: storageClasses_def kept_def)
  moreover have "namespace_policy (L\<lparr>Pl_storageClasses := scs\<rparr>) = namespace_policy L"
    by (simp add: fun_eq_iff namespace_policy_def limitRangesIn_def quotasIn_def)
  ultimately show "ClusterPolicy_of (L\<lparr>Pl_storageClasses := scs\<rparr>) limits now sources w = ClusterPolicy_of L limits now sources w"
    by (simp add: ClusterPolicy_of_def priorityClasses_def)
  have "\<exists>entry. admitted_by f tr entry \<and> E_namespace entry = ns" if "ns \<in> set (collectedNamespaces w)" for ns
    using that indexed_admitted [of tr f cbs] assms(1) by (force simp: collectedNamespaces_def mvalues_iff)
  then show "list_all (\<lambda>np. \<exists>entry. admitted_by f tr entry \<and> E_namespace entry = Np_Namespace np) (Cp_Namespaces (fst (ClusterPolicy_of L limits now sources w)))"
    by (auto simp: ClusterPolicy_of_def list_all_iff namespace_policy_def)
qed

definition cluster_caches :: "string \<Rightarrow> unit policyListers" where
  "cluster_caches secret = budget_caches\<lparr>Pl_storageClasses := Some [\<lparr>Scl_Name = ''fast'', Scl_Provisioner = ''disk'',
     Scl_Parameters = mput ''key'' secret mempty, Scl_ReclaimPolicy = None, Scl_VolumeBindingMode = None, Scl_AllowVolumeExpansion = Some True\<rparr>]\<rparr>"

theorem cluster_policy_discloses_no_parameters_witness:
  "let w = runPods [(no_caches, 5, PodAdded (web_pod plain_container))]
         (NewPodWatcher (NewFilter [] []) \<lparr>Cb_oom = True, Cb_restart = True, Cb_disruption = True, Cb_job = True\<rparr>)
   in ClusterPolicy_of (cluster_caches ''hunter2'') defaultWatchLimits 9 [] w = ClusterPolicy_of (cluster_caches ''other'') defaultWatchLimits 9 [] w"
proof -
  have "map_option (map (Scl_Parameters_update (\<lambda>_. mempty))) (Pl_storageClasses (cluster_caches ''other'')) =
      map_option (map (Scl_Parameters_update (\<lambda>_. mempty))) (Pl_storageClasses (cluster_caches ''hunter2''))"
    by (simp add: cluster_caches_def)
  moreover have "(cluster_caches ''other'')\<lparr>Pl_storageClasses := Pl_storageClasses (cluster_caches ''hunter2'')\<rparr> = cluster_caches ''hunter2''"
    by (simp add: cluster_caches_def)
  ultimately show ?thesis unfolding Let_def
    using cluster_policy_discloses_no_parameters [OF refl, of "cluster_caches ''other''" "Pl_storageClasses (cluster_caches ''hunter2'')", THEN conjunct1]
    by (simp only:)
qed

end
