(* ===== verification/WorkloadShape.thy ===== *)
theory WorkloadShape
  imports PodWatcher
begin

text \<open>
  The workload metadata and revision payloads: how a workload updates itself
  (\<open>internal/collector/updatestrategy.go\<close>), which ReplicaSets are revisions of a collected workload
  (\<open>internal/collector/revisions.go\<close>, \<open>internal/revisions\<close>), and the reduction of the pod index to one
  record per container and build (\<open>internal/metadata\<close>).

  The informer caches are arguments, as in the pod watcher; an \<open>IntOrString\<close> is the string it prints.
\<close>

section \<open>Update strategies\<close>

type_synonym WorkloadKey = "string \<times> string \<times> string"

definition workload_key :: "podIndexEntry \<Rightarrow> WorkloadKey" where
  "workload_key e = (E_namespace e, Ref_Kind (E_workload e), Ref_Name (E_workload e))"

record UpdateStrategy =
  US_Type :: string
  US_MaxUnavailable :: string
  US_MaxSurge :: string
  US_Partition :: "int option"
  US_MinReadySeconds :: int

definition noStrategy :: UpdateStrategy where
  "noStrategy = \<lparr>US_Type = [], US_MaxUnavailable = [], US_MaxSurge = [], US_Partition = None, US_MinReadySeconds = 0\<rparr>"

record rollingUpdate =
  Ru_MaxUnavailable :: "string option"
  Ru_MaxSurge :: "string option"
  Ru_Partition :: "int option"

record strategySpec =
  Ss_Type :: string
  Ss_MinReadySeconds :: int
  Ss_RollingUpdate :: "rollingUpdate option"

type_synonym spec_lister = "(string \<Rightarrow> string \<Rightarrow> strategySpec option) option"

record strategyListers =
  Sl_deployments :: spec_lister
  Sl_statefulSets :: spec_lister
  Sl_daemonSets :: spec_lister

definition intOrString :: "string option \<Rightarrow> string" where
  "intOrString v = (case v of None \<Rightarrow> [] | Some s \<Rightarrow> s)"

definition declared :: "spec_lister \<Rightarrow> WorkloadKey \<Rightarrow> strategySpec option" where
  "declared lister key = (case lister of None \<Rightarrow> None | Some get \<Rightarrow> get (fst key) (snd (snd key)))"

definition bare_strategy :: "strategySpec \<Rightarrow> UpdateStrategy" where
  "bare_strategy spec = noStrategy\<lparr>US_Type := Ss_Type spec, US_MinReadySeconds := Ss_MinReadySeconds spec\<rparr>"

text \<open>The rolling update of a Deployment or DaemonSet, and that of a StatefulSet.\<close>

definition surge_strategy :: "strategySpec \<Rightarrow> UpdateStrategy" where
  "surge_strategy spec =
     (case Ss_RollingUpdate spec of
        None \<Rightarrow> bare_strategy spec
      | Some u \<Rightarrow> (bare_strategy spec)\<lparr>US_MaxUnavailable := intOrString (Ru_MaxUnavailable u), US_MaxSurge := intOrString (Ru_MaxSurge u)\<rparr>)"

definition partition_strategy :: "strategySpec \<Rightarrow> UpdateStrategy" where
  "partition_strategy spec =
     (case Ss_RollingUpdate spec of
        None \<Rightarrow> bare_strategy spec
      | Some u \<Rightarrow> (bare_strategy spec)\<lparr>US_Partition := Ru_Partition u, US_MaxUnavailable := intOrString (Ru_MaxUnavailable u)\<rparr>)"

definition strategyOf :: "strategyListers \<Rightarrow> WorkloadKey \<Rightarrow> UpdateStrategy option" where
  "strategyOf L key =
     (let kind = fst (snd key) in
      if kind = ''Deployment'' then map_option surge_strategy (declared (Sl_deployments L) key)
      else if kind = ''StatefulSet'' then map_option partition_strategy (declared (Sl_statefulSets L) key)
      else if kind = ''DaemonSet'' then map_option surge_strategy (declared (Sl_daemonSets L) key)
      else None)"

definition collectedWorkloadKeys :: "PodWatcher \<Rightarrow> (WorkloadKey, unit) gomap" where
  "collectedWorkloadKeys w = fold (\<lambda>e. mput (workload_key e) ()) (mvalues (W_index w)) mempty"

definition UpdateStrategies :: "strategyListers \<Rightarrow> PodWatcher \<Rightarrow> (WorkloadKey, UpdateStrategy) gomap" where
  "UpdateStrategies L w =
     fold (\<lambda>key m. case strategyOf L key of None \<Rightarrow> m | Some s \<Rightarrow> mput key s m) (mkeys (collectedWorkloadKeys w)) mempty"

section \<open>Revisions\<close>

record templateContainer =
  Tc_Name :: string
  Tc_Image :: string
  Tc_Env :: "envVar list"
  Tc_Args :: "string list"

record ReplicaSet =
  RSet_Namespace :: string
  RSet_Name :: string
  RSet_Annotations :: annotations
  RSet_Controller :: "WorkloadRef option"
  RSet_CreatedAt :: time
  RSet_SpecReplicas :: "int option"
  RSet_Replicas :: int
  RSet_ReadyReplicas :: int
  RSet_InitContainers :: "templateContainer list"
  RSet_Containers :: "templateContainer list"

record RevisionContainer =
  Rvc_Name :: string
  Rvc_Image :: string
  Rvc_Init :: bool

record ReplicaSetInfo =
  Rsi_Namespace :: string
  Rsi_Workload :: WorkloadRef
  Rsi_Name :: string
  Rsi_Revision :: "int option"
  Rsi_CreatedAt :: time
  Rsi_DesiredReplicas :: int
  Rsi_CurrentReplicas :: int
  Rsi_ReadyReplicas :: int
  Rsi_Containers :: "RevisionContainer list"

definition revisionAnnotation :: string where "revisionAnnotation = ''deployment.kubernetes.io/revision''"

definition revisionOf :: "ReplicaSet \<Rightarrow> string \<Rightarrow> int option" where
  "revisionOf rs kind =
     (if kind \<noteq> ''Deployment'' then None
      else case mget (RSet_Annotations rs) revisionAnnotation of None \<Rightarrow> None | Some raw \<Rightarrow> ParseInt raw)"

definition describeReplicaSet :: "ReplicaSet \<Rightarrow> WorkloadKey \<Rightarrow> ReplicaSetInfo" where
  "describeReplicaSet rs owner =
     \<lparr>Rsi_Namespace = RSet_Namespace rs, Rsi_Workload = WorkloadRef (fst (snd owner)) (snd (snd owner)), Rsi_Name = RSet_Name rs,
      Rsi_Revision = revisionOf rs (fst (snd owner)), Rsi_CreatedAt = RSet_CreatedAt rs,
      Rsi_DesiredReplicas = (case RSet_SpecReplicas rs of None \<Rightarrow> 0 | Some n \<Rightarrow> n),
      Rsi_CurrentReplicas = RSet_Replicas rs, Rsi_ReadyReplicas = RSet_ReadyReplicas rs,
      Rsi_Containers = map (\<lambda>c. \<lparr>Rvc_Name = Tc_Name c, Rvc_Image = Tc_Image c, Rvc_Init = True\<rparr>) (RSet_InitContainers rs) @
        map (\<lambda>c. \<lparr>Rvc_Name = Tc_Name c, Rvc_Image = Tc_Image c, Rvc_Init = False\<rparr>) (RSet_Containers rs)\<rparr>"

definition replicaSetOwners :: "PodWatcher \<Rightarrow> (WorkloadKey, bool) gomap" where
  "replicaSetOwners w = fold (\<lambda>e. mput (workload_key e) True) (mvalues (W_index w)) mempty"

text \<open>\<open>ReplicaSets\<close>; the lister's answer is \<^const>\<open>None\<close> where it fails.\<close>

definition ReplicaSets :: "ReplicaSet list option \<Rightarrow> PodWatcher \<Rightarrow> ReplicaSetInfo list" where
  "ReplicaSets lister w =
     (let owners = replicaSetOwners w in
      if mlen owners = 0 then []
      else case lister of
        None \<Rightarrow> []
      | Some sets \<Rightarrow>
          List.map_filter (\<lambda>rs. case RSet_Controller rs of
              None \<Rightarrow> None
            | Some owner \<Rightarrow>
                let key = (RSet_Namespace rs, Ref_Kind owner, Ref_Name owner) in
                if \<not> mget_or False owners key then None else Some (describeReplicaSet rs key)) sets)"

record Replicas =
  Rep_Desired :: int
  Rep_Current :: int
  Rep_Ready :: int

record RevisionRecord =
  Rv_Namespace :: string
  Rv_Workload :: WorkloadRef
  Rv_Name :: string
  Rv_Revision :: "int option"
  Rv_CreatedAt :: time
  Rv_Replicas :: Replicas
  Rv_Containers :: "RevisionContainer list"

definition revisionOrZero :: "int option \<Rightarrow> int" where
  "revisionOrZero r = (case r of None \<Rightarrow> - 1 | Some n \<Rightarrow> n)"

definition revision_record :: "ReplicaSetInfo \<Rightarrow> RevisionRecord" where
  "revision_record rs =
     \<lparr>Rv_Namespace = Rsi_Namespace rs, Rv_Workload = Rsi_Workload rs, Rv_Name = Rsi_Name rs, Rv_Revision = Rsi_Revision rs,
      Rv_CreatedAt = Rsi_CreatedAt rs,
      Rv_Replicas = \<lparr>Rep_Desired = Rsi_DesiredReplicas rs, Rep_Current = Rsi_CurrentReplicas rs, Rep_Ready = Rsi_ReadyReplicas rs\<rparr>,
      Rv_Containers = Rsi_Containers rs\<rparr>"

definition less_revision :: "RevisionRecord \<Rightarrow> RevisionRecord \<Rightarrow> bool" where
  "less_revision a b =
     (if Rv_Namespace a \<noteq> Rv_Namespace b then Rv_Namespace a < Rv_Namespace b
      else if Ref_Kind (Rv_Workload a) \<noteq> Ref_Kind (Rv_Workload b) then Ref_Kind (Rv_Workload a) < Ref_Kind (Rv_Workload b)
      else if Ref_Name (Rv_Workload a) \<noteq> Ref_Name (Rv_Workload b) then Ref_Name (Rv_Workload a) < Ref_Name (Rv_Workload b)
      else if revisionOrZero (Rv_Revision a) \<noteq> revisionOrZero (Rv_Revision b) then revisionOrZero (Rv_Revision a) < revisionOrZero (Rv_Revision b)
      else if Rv_CreatedAt a \<noteq> Rv_CreatedAt b then Rv_CreatedAt a < Rv_CreatedAt b
      else Rv_Name a < Rv_Name b)"

definition Revisions_Aggregate :: "ReplicaSetInfo list \<Rightarrow> RevisionRecord list" where
  "Revisions_Aggregate sets = sort_slice less_revision (map revision_record sets)"

section \<open>Metadata\<close>

type_synonym MetaKey = "string \<times> string \<times> string \<times> string \<times> string"

record PodScope =
  Pd_QOSClass :: string
  Pd_Replicas :: nat
  Pd_Phases :: "(string, nat) gomap"
  Pd_Nodes :: "(string, nat) gomap"
  Pd_Unscheduled :: "(string, nat) gomap"
  Pd_Placement :: Placement

record MetaRecord =
  Mr_Key :: MetaKey
  Mr_Image :: string
  Mr_Init :: bool
  Mr_Resources :: Resources
  Mr_Ports :: "ContainerPort list"
  Mr_Probes :: Probes
  Mr_RuntimeEnv :: "(string, string) gomap"
  Mr_Pod :: PodScope
  Mr_UpdateStrategy :: UpdateStrategy

definition meta_key :: "PodInfo \<Rightarrow> Container \<Rightarrow> MetaKey" where
  "meta_key pod c = (PI_Namespace pod, Ref_Kind (PI_Workload pod), Ref_Name (PI_Workload pod), C_Name c, C_ImageDigest c)"

definition new_record :: "(WorkloadKey, UpdateStrategy) gomap \<Rightarrow> PodInfo \<Rightarrow> Container \<Rightarrow> MetaRecord" where
  "new_record strategies pod c =
     \<lparr>Mr_Key = meta_key pod c, Mr_Image = C_Image c, Mr_Init = C_Init c, Mr_Resources = C_Resources c, Mr_Ports = C_Ports c,
      Mr_Probes = C_Probes c, Mr_RuntimeEnv = C_RuntimeEnv c,
      Mr_Pod = \<lparr>Pd_QOSClass = PI_QOSClass pod, Pd_Replicas = 0, Pd_Phases = mempty, Pd_Nodes = mempty, Pd_Unscheduled = mempty,
                Pd_Placement = PI_Placement pod\<rparr>,
      Mr_UpdateStrategy = mget_or noStrategy strategies (PI_Namespace pod, Ref_Kind (PI_Workload pod), Ref_Name (PI_Workload pod))\<rparr>"

definition tally_at :: "string \<Rightarrow> (string, nat) gomap \<Rightarrow> (string, nat) gomap" where
  "tally_at s m = (if s \<noteq> [] then mupd 0 Suc s m else m)"

definition count_pod :: "PodInfo \<Rightarrow> PodScope \<Rightarrow> PodScope" where
  "count_pod pod p =
     p\<lparr>Pd_Replicas := Pd_Replicas p + 1, Pd_Phases := tally_at (PI_Phase pod) (Pd_Phases p), Pd_Nodes := tally_at (PI_Node pod) (Pd_Nodes p),
       Pd_Unscheduled := tally_at (PI_Unscheduled pod) (Pd_Unscheduled p)\<rparr>"

definition add_container :: "(WorkloadKey, UpdateStrategy) gomap \<Rightarrow> PodInfo \<times> Container \<Rightarrow> (MetaKey, MetaRecord) gomap \<Rightarrow> (MetaKey, MetaRecord) gomap" where
  "add_container strategies pc byKey =
     (let key = meta_key (fst pc) (snd pc); r = mget_or (new_record strategies (fst pc) (snd pc)) byKey key
      in mput key (r\<lparr>Mr_Pod := count_pod (fst pc) (Mr_Pod r)\<rparr>) byKey)"

definition lessMetaKey :: "MetaRecord \<Rightarrow> MetaRecord \<Rightarrow> bool" where
  "lessMetaKey ra rb =
     (case (Mr_Key ra, Mr_Key rb) of ((an, ak, aw, ac, ad), (bn, bk, bw, bc, bd)) \<Rightarrow>
        if an \<noteq> bn then an < bn else if ak \<noteq> bk then ak < bk else if aw \<noteq> bw then aw < bw else if ac \<noteq> bc then ac < bc else ad < bd)"

text \<open>The pairs the two loops visit, in their order.\<close>

definition pod_containers :: "PodInfo list \<Rightarrow> (PodInfo \<times> Container) list" where
  "pod_containers pods = concat (map (\<lambda>pod. map (Pair pod) (PI_Containers pod)) pods)"

definition Metadata_Aggregate :: "PodInfo list \<Rightarrow> (WorkloadKey, UpdateStrategy) gomap \<Rightarrow> MetaRecord list" where
  "Metadata_Aggregate pods strategies =
     sort_slice lessMetaKey (mvalues (fold (add_container strategies) (pod_containers pods) mempty))"
section \<open>Revisions of admitted workloads\<close>

lemma mget_fold_const: "mget (fold (\<lambda>e. mput (key e) v) es m) k = (if k \<in> key ` set es then Some v else mget m k)"
  by (induction es arbitrary: m) auto

lemma owners_iff: "mget_or False (replicaSetOwners w) k \<longleftrightarrow> (\<exists>uid e. mget (W_index w) uid = Some e \<and> workload_key e = k)"
  unfolding replicaSetOwners_def mget_or_def mget_fold_const image_iff Bex_def mvalues_iff by auto

lemma ReplicaSets_iff:
  "i \<in> set (ReplicaSets lister w) \<longleftrightarrow>
     (\<exists>sets rs owner. lister = Some sets \<and> rs \<in> set sets \<and> RSet_Controller rs = Some owner \<and>
        mget_or False (replicaSetOwners w) (RSet_Namespace rs, Ref_Kind owner, Ref_Name owner) \<and>
        i = describeReplicaSet rs (RSet_Namespace rs, Ref_Kind owner, Ref_Name owner))"
proof -
  have none: "\<not> mget_or False (replicaSetOwners w) k" if "mlen (replicaSetOwners w) = 0" for k
    using that by (simp add: mlen_def mget_or_def mget.rep_eq)
  show ?thesis
    by (cases lister) (auto simp: ReplicaSets_def Let_def List.map_filter_def none split: option.splits if_splits, force+)
qed

text \<open>
  Revisions are those of admitted workloads, kind and name. After any run of informer events, every
  revision record is of a ReplicaSet whose controller is, with its kind, the workload of a pod whose
  last word admitted it; the record repeats the set's counts and, of its template, names and images
  only; and a revision number is reported for a Deployment alone.
\<close>

theorem revisions_of_admitted:
  assumes "w = runPods tr (NewPodWatcher f cbs)" and "r \<in> set (Revisions_Aggregate (ReplicaSets lister w))"
  shows "\<exists>sets rs entry. lister = Some sets \<and> rs \<in> set sets \<and> admitted_by f tr entry \<and>
    RSet_Controller rs = Some (E_workload entry) \<and> E_namespace entry = RSet_Namespace rs \<and>
    Rv_Workload r = E_workload entry \<and> Rv_Namespace r = RSet_Namespace rs \<and> Rv_Name r = RSet_Name rs \<and>
    Rv_Replicas r = \<lparr>Rep_Desired = (case RSet_SpecReplicas rs of None \<Rightarrow> 0 | Some n \<Rightarrow> n), Rep_Current = RSet_Replicas rs, Rep_Ready = RSet_ReadyReplicas rs\<rparr> \<and>
    map (\<lambda>c. (Rvc_Name c, Rvc_Image c, Rvc_Init c)) (Rv_Containers r) =
      map (\<lambda>c. (Tc_Name c, Tc_Image c, True)) (RSet_InitContainers rs) @ map (\<lambda>c. (Tc_Name c, Tc_Image c, False)) (RSet_Containers rs) \<and>
    (Rv_Revision r = None \<or> Ref_Kind (E_workload entry) = ''Deployment'')"
proof -
  obtain i where i: "i \<in> set (ReplicaSets lister w)" "r = revision_record i"
    using assms(2) by (auto simp: Revisions_Aggregate_def)
  obtain sets rs owner where rs: "lister = Some sets" "rs \<in> set sets" "RSet_Controller rs = Some owner"
      "mget_or False (replicaSetOwners w) (RSet_Namespace rs, Ref_Kind owner, Ref_Name owner)"
      "i = describeReplicaSet rs (RSet_Namespace rs, Ref_Kind owner, Ref_Name owner)"
    using i(1) unfolding ReplicaSets_iff by blast
  obtain uid e where e: "mget (W_index w) uid = Some e" "workload_key e = (RSet_Namespace rs, Ref_Kind owner, Ref_Name owner)"
    using rs(4) unfolding owners_iff by blast
  have "E_workload e = owner" "E_namespace e = RSet_Namespace rs"
    using e(2) by (auto simp: workload_key_def intro: WorkloadRef.expand)
  moreover have "admitted_by f tr e" using e(1) assms(1) indexed_admitted by blast
  ultimately show ?thesis using rs i(2)
    by (intro exI [of _ sets] exI [of _ rs] exI [of _ e]) (auto simp: revision_record_def describeReplicaSet_def revisionOf_def comp_def)
qed

text \<open>The order of the records is total: a list of revisions of distinct names has one order only.\<close>

definition revision_order :: "RevisionRecord \<Rightarrow> string \<times> string \<times> string \<times> int \<times> time \<times> string" where
  "revision_order r = (Rv_Namespace r, Ref_Kind (Rv_Workload r), Ref_Name (Rv_Workload r), revisionOrZero (Rv_Revision r), Rv_CreatedAt r, Rv_Name r)"

interpretation revisions: sort_order less_revision revision_order
  by unfold_locales (auto simp: less_revision_def revision_order_def)

text \<open>
  The revision payload does not depend on the order in which the cache lists the ReplicaSets, as
  long as their names are distinct within a namespace, which the API server ensures; and it is sorted
  by namespace, workload, revision and age.
\<close>

theorem revisions_deterministic:
  assumes "mset sets = mset sets'" and "inj_on (\<lambda>i. (Rsi_Namespace i, Rsi_Name i)) (set sets)"
  shows "Revisions_Aggregate sets = Revisions_Aggregate sets' \<and> sorted (map revision_order (Revisions_Aggregate sets))"
proof -
  have "inj_on revision_order (set (map revision_record sets))"
    using assms(2) by (auto simp: inj_on_def revision_order_def revision_record_def)
  then have "Revisions_Aggregate sets = Revisions_Aggregate sets'"
    unfolding Revisions_Aggregate_def using assms(1) by (intro revisions.sort_slice_perm) simp_all
  then show ?thesis using revisions.sorted_sort_slice by (simp add: Revisions_Aggregate_def)
qed

text \<open>Two ReplicaSets of one Deployment, one of a Deployment nobody admitted.\<close>

definition web_set :: "string \<Rightarrow> string \<Rightarrow> string \<Rightarrow> ReplicaSet" where
  "web_set name kind owner = \<lparr>RSet_Namespace = ''shop'', RSet_Name = name, RSet_Annotations = mput revisionAnnotation ''47'' mempty,
     RSet_Controller = Some (WorkloadRef kind owner), RSet_CreatedAt = 3, RSet_SpecReplicas = Some 2, RSet_Replicas = 2, RSet_ReadyReplicas = 1,
     RSet_InitContainers = [], RSet_Containers = [\<lparr>Tc_Name = ''app'', Tc_Image = ''web:1'', Tc_Env = [], Tc_Args = [''--password=x'']\<rparr>]\<rparr>"

theorem revisions_of_admitted_witness:
  "let w = runPods [(no_caches, 5, PodAdded (web_pod plain_container))]
         (NewPodWatcher (NewFilter [] []) \<lparr>Cb_oom = True, Cb_restart = True, Cb_disruption = True, Cb_job = True\<rparr>);
       lister = Some [web_set ''web-a'' ''StatefulSet'' ''web'', web_set ''web-b'' ''Deployment'' ''web'']
   in \<exists>entry. admitted_by (NewFilter [] []) [(no_caches, 5, PodAdded (web_pod plain_container))] entry \<and>
        Rv_Workload (hd (Revisions_Aggregate (ReplicaSets lister w))) = E_workload entry"
proof -
  define w where "w = runPods [(no_caches, 5, PodAdded (web_pod plain_container))]
         (NewPodWatcher (NewFilter [] []) \<lparr>Cb_oom = True, Cb_restart = True, Cb_disruption = True, Cb_job = True\<rparr>)"
  define rs where "rs = Revisions_Aggregate (ReplicaSets (Some [web_set ''web-a'' ''StatefulSet'' ''web'', web_set ''web-b'' ''Deployment'' ''web'']) w)"
  have "\<not> List.null rs" unfolding rs_def w_def by code_simp
  then have "hd rs \<in> set rs" by simp
  from revisions_of_admitted [OF w_def this [unfolded rs_def]] show ?thesis unfolding Let_def w_def [symmetric] rs_def by blast
qed

theorem revisions_deterministic_witness:
  "let a = describeReplicaSet (web_set ''web-a'' ''Deployment'' ''web'') (''shop'', ''Deployment'', ''web'');
       b = describeReplicaSet (web_set ''web-b'' ''Deployment'' ''web'') (''shop'', ''Deployment'', ''web'')
   in Revisions_Aggregate [a, b] = Revisions_Aggregate [b, a]"
  unfolding Let_def
  by (rule revisions_deterministic [THEN conjunct1]) (simp_all add: describeReplicaSet_def web_set_def)

section \<open>One record per container and build\<close>

definition pair_key :: "PodInfo \<times> Container \<Rightarrow> MetaKey" where
  "pair_key pc = meta_key (fst pc) (snd pc)"

text \<open>The pods that carry a container of a build, in the order they are visited.\<close>

definition carriers :: "PodInfo list \<Rightarrow> MetaKey \<Rightarrow> (PodInfo \<times> Container) list" where
  "carriers pods k = filter (\<lambda>pc. pair_key pc = k) (pod_containers pods)"

definition record_of :: "(WorkloadKey, UpdateStrategy) gomap \<Rightarrow> (PodInfo \<times> Container) list \<Rightarrow> MetaRecord option" where
  "record_of st pcs =
     (case pcs of [] \<Rightarrow> None
      | pc # _ \<Rightarrow> let r = new_record st (fst pc) (snd pc) in Some (r\<lparr>Mr_Pod := fold count_pod (map fst pcs) (Mr_Pod r)\<rparr>))"

lemma record_of_None: "record_of st pcs = None \<longleftrightarrow> pcs = []"
  by (cases pcs) (simp_all add: record_of_def Let_def)

lemma new_record_sel:
  "Mr_Key (new_record st pod c) = meta_key pod c" "Mr_Image (new_record st pod c) = C_Image c" "Mr_Init (new_record st pod c) = C_Init c"
  "Mr_Resources (new_record st pod c) = C_Resources c" "Mr_Ports (new_record st pod c) = C_Ports c"
  "Mr_Probes (new_record st pod c) = C_Probes c" "Mr_RuntimeEnv (new_record st pod c) = C_RuntimeEnv c"
  "Mr_UpdateStrategy (new_record st pod c) = mget_or noStrategy st (PI_Namespace pod, Ref_Kind (PI_Workload pod), Ref_Name (PI_Workload pod))"
  "Mr_Pod (new_record st pod c) = \<lparr>Pd_QOSClass = PI_QOSClass pod, Pd_Replicas = 0, Pd_Phases = mempty, Pd_Nodes = mempty,
     Pd_Unscheduled = mempty, Pd_Placement = PI_Placement pod\<rparr>"
  by (simp_all add: new_record_def)

lemma record_of_snoc:
  "pcs \<noteq> [] \<Longrightarrow> record_of st (pcs @ [pc]) = map_option (\<lambda>r. r\<lparr>Mr_Pod := count_pod (fst pc) (Mr_Pod r)\<rparr>) (record_of st pcs)"
  by (cases pcs) (simp_all add: record_of_def Let_def)

lemma mget_add_containers:
  "mget (fold (add_container st) pcs mempty) k = record_of st (filter (\<lambda>pc. pair_key pc = k) pcs)"
proof (induction pcs arbitrary: k rule: rev_induct)
  case (snoc pc pcs)
  define m where "m = fold (add_container st) pcs mempty"
  have step: "fold (add_container st) (pcs @ [pc]) mempty = add_container st pc m" by (simp add: m_def)
  show ?case
  proof (cases "pair_key pc = k")
    case False
    then have "mget (add_container st pc m) k = mget m k" by (auto simp: add_container_def Let_def pair_key_def)
    then show ?thesis unfolding step m_def using snoc.IH [of k] False by simp
  next
    case True
    define before where "before = filter (\<lambda>pc. pair_key pc = k) pcs"
    have get: "mget m k = record_of st before" using snoc.IH [of k] by (simp add: m_def before_def)
    have now: "filter (\<lambda>pc. pair_key pc = k) (pcs @ [pc]) = before @ [pc]" using True by (simp add: before_def)
    have "mget (add_container st pc m) k =
        (let r = mget_or (new_record st (fst pc) (snd pc)) m k in Some (r\<lparr>Mr_Pod := count_pod (fst pc) (Mr_Pod r)\<rparr>))"
      using True by (simp add: add_container_def pair_key_def Let_def)
    then show ?thesis unfolding step now
      by (cases "before = []"; cases "record_of st before")
        (auto simp: record_of_snoc get mget_or_def Let_def record_of_def split: list.splits)
  qed
qed (simp add: record_of_def)

definition counted :: "(PodInfo \<Rightarrow> string) \<Rightarrow> PodInfo list \<Rightarrow> (string, nat) gomap \<Rightarrow> bool" where
  "counted what ps m \<longleftrightarrow> (\<forall>s. mget_or 0 m s = (if s = [] then 0 else length (filter (\<lambda>p. what p = s) ps)))"

lemma counted_tally: "counted what ps m \<Longrightarrow> counted what (ps @ [p]) (tally_at (what p) m)"
  by (auto simp: counted_def tally_at_def)

lemma fold_count_pod:
  fixes p0 :: PodScope
  assumes "p0 = \<lparr>Pd_QOSClass = q, Pd_Replicas = 0, Pd_Phases = mempty, Pd_Nodes = mempty, Pd_Unscheduled = mempty, Pd_Placement = pl\<rparr>"
  shows "let p = fold count_pod ps p0 in Pd_QOSClass p = q \<and> Pd_Placement p = pl \<and> Pd_Replicas p = length ps \<and>
    counted PI_Phase ps (Pd_Phases p) \<and> counted PI_Node ps (Pd_Nodes p) \<and> counted PI_Unscheduled ps (Pd_Unscheduled p)"
proof (induction ps rule: rev_induct)
  case Nil
  then show ?case by (simp add: assms counted_def)
next
  case (snoc p ps)
  then show ?case by (simp add: Let_def count_pod_def counted_tally)
qed

definition shape_of :: "PodInfo list \<Rightarrow> (WorkloadKey, UpdateStrategy) gomap \<Rightarrow> MetaRecord \<Rightarrow> bool" where
  "shape_of pods st r \<longleftrightarrow>
     (case carriers pods (Mr_Key r) of [] \<Rightarrow> False
      | (pod, c) # rest \<Rightarrow>
          Mr_Image r = C_Image c \<and> Mr_Init r = C_Init c \<and> Mr_Resources r = C_Resources c \<and> Mr_Ports r = C_Ports c \<and>
          Mr_Probes r = C_Probes c \<and> Mr_RuntimeEnv r = C_RuntimeEnv c \<and> Pd_QOSClass (Mr_Pod r) = PI_QOSClass pod \<and>
          Pd_Placement (Mr_Pod r) = PI_Placement pod \<and>
          Mr_UpdateStrategy r = mget_or noStrategy st (PI_Namespace pod, Ref_Kind (PI_Workload pod), Ref_Name (PI_Workload pod)) \<and>
          Pd_Replicas (Mr_Pod r) = Suc (length rest) \<and>
          counted PI_Phase (pod # map fst rest) (Pd_Phases (Mr_Pod r)) \<and> counted PI_Node (pod # map fst rest) (Pd_Nodes (Mr_Pod r)) \<and>
          counted PI_Unscheduled (pod # map fst rest) (Pd_Unscheduled (Mr_Pod r)))"

lemma record_of_shape:
  assumes "record_of st (carriers pods k) = Some r"
  shows "Mr_Key r = k \<and> shape_of pods st r"
proof (cases "carriers pods k")
  case (Cons pc rest)
  obtain pod c where pc: "pc = (pod, c)" by force
  have "pc \<in> set (carriers pods k)" using Cons by simp
  then have "pair_key pc = k" unfolding carriers_def by simp
  then have key: "meta_key pod c = k" by (simp add: pair_key_def pc)
  have r: "r = (new_record st pod c)\<lparr>Mr_Pod := fold count_pod (pod # map fst rest) (Mr_Pod (new_record st pod c))\<rparr>"
    using assms by (simp add: Cons pc record_of_def Let_def)
  define p where "p = fold count_pod (pod # map fst rest) (Mr_Pod (new_record st pod c))"
  have p: "Pd_QOSClass p = PI_QOSClass pod \<and> Pd_Placement p = PI_Placement pod \<and> Pd_Replicas p = length (pod # map fst rest) \<and>
      counted PI_Phase (pod # map fst rest) (Pd_Phases p) \<and> counted PI_Node (pod # map fst rest) (Pd_Nodes p) \<and>
      counted PI_Unscheduled (pod # map fst rest) (Pd_Unscheduled p)"
    using fold_count_pod [OF new_record_sel(9), of "pod # map fst rest" st pod c] unfolding p_def [symmetric] Let_def .
  have r: "r = (new_record st pod c)\<lparr>Mr_Pod := p\<rparr>" using r unfolding p_def .
  have k: "Mr_Key r = k" using key unfolding r by (simp add: new_record_sel)
  show ?thesis unfolding shape_of_def k Cons pc list.case prod.case using p unfolding r by (simp add: new_record_sel)
qed (use assms in \<open>simp add: record_of_def\<close>)

interpretation meta_records: sort_order lessMetaKey Mr_Key
  by unfold_locales (auto simp: lessMetaKey_def split: prod.splits)

lemma metadata_records:
  "map Mr_Key (Metadata_Aggregate pods st) = sorted_list_of_set (pair_key ` set (pod_containers pods)) \<and>
   list_all (shape_of pods st) (Metadata_Aggregate pods st)"
proof -
  define m where "m = fold (add_container st) (pod_containers pods) mempty"
  have m: "mget m k = record_of st (carriers pods k)" for k
    by (simp add: m_def mget_add_containers carriers_def)
  have keys: "map Mr_Key (mvalues m) = mkeys m"
    unfolding mvalues_def mkeys_def using m record_of_shape by (auto simp: mget_entries [symmetric])
  have sorted: "sorted (mkeys m)" "distinct (mkeys m)" by (simp_all add: mkeys_def strict_sorted_imp_sorted)
  have "set (mkeys m) = pair_key ` set (pod_containers pods)"
    unfolding set_eq_iff mkeys_iff m record_of_None carriers_def filter_empty_conv image_iff by metis
  then have "mkeys m = sorted_list_of_set (pair_key ` set (pod_containers pods))"
    using sorted sorted_list_of_set.idem_if_sorted_distinct by metis
  moreover have "Metadata_Aggregate pods st = mvalues m"
    unfolding Metadata_Aggregate_def m_def [symmetric] meta_records.sort_slice_sort_key
    by (rule sort_key_id_if_sorted) (simp add: keys sorted)
  ultimately show ?thesis using keys m record_of_shape by (auto simp: list_all_iff mvalues_iff)
qed

lemmas metadata_shape = metadata_records [THEN conjunct2]

text \<open>
  C35. The metadata payload is exact: its records are one for each container of each build that some pod
  carries, in the order of their keys; a record's replicas, phases, nodes and scheduling reasons are
  the counts over the pods that carry it, and what it says of the container's declaration is what the
  first of those pods declares.
\<close>

theorem metadata_exact:
  "map Mr_Key (Metadata_Aggregate pods st) = sorted_list_of_set (pair_key ` set (pod_containers pods)) \<and>
   list_all (shape_of pods st) (Metadata_Aggregate pods st)"
  by (rule metadata_records)

text \<open>
  The payload follows the order of the pods where two of one build declare differently: the first one
  wins, so the same two pods in the other order give other bytes.
\<close>

definition sized_pod :: "string \<Rightarrow> int \<Rightarrow> PodInfo" where
  "sized_pod name milli = \<lparr>PI_Namespace = ''shop'', PI_Name = name, PI_Node = ''n1'', PI_Phase = ''Running'', PI_Unscheduled = [],
     PI_QOSClass = ''Burstable'', PI_Workload = WorkloadRef ''Deployment'' ''web'', PI_Placement = fst (reducePlacement arm_spec), PI_Claims = [],
     PI_Containers = [\<lparr>C_Name = ''app'', C_Image = ''web:1'', C_ImageDigest = ''sha256:0f'', C_Init = False,
       C_Resources = \<lparr>CPURequestMilli = Some milli, CPULimitMilli = None, MemoryRequestBytes = None, MemoryLimitBytes = None\<rparr>,
       C_Ports = [], C_Probes = \<lparr>Probes_Liveness = None, Probes_Readiness = None, Probes_Startup = None\<rparr>, C_RuntimeEnv = mempty\<rparr>]\<rparr>"

lemma metadata_order_matters:
  "Metadata_Aggregate [sized_pod ''a'' 100, sized_pod ''b'' 200] mempty \<noteq> Metadata_Aggregate [sized_pod ''b'' 200, sized_pod ''a'' 100] mempty"
proof -
  have "CPURequestMilli (Mr_Resources (hd (Metadata_Aggregate [sized_pod ''a'' 100, sized_pod ''b'' 200] mempty))) = Some 100"
    "CPURequestMilli (Mr_Resources (hd (Metadata_Aggregate [sized_pod ''b'' 200, sized_pod ''a'' 100] mempty))) = Some 200"
    by code_simp+
  then show ?thesis by auto
qed

section \<open>Strategies\<close>

lemma UpdateStrategies_iff:
  "mget (UpdateStrategies L w) k = (if \<exists>uid e. mget (W_index w) uid = Some e \<and> workload_key e = k then strategyOf L k else None)"
proof -
  have "mget (fold (\<lambda>key m. case strategyOf L key of None \<Rightarrow> m | Some s \<Rightarrow> mput key s m) ks m) k =
      (if k \<in> set ks \<and> strategyOf L k \<noteq> None then strategyOf L k else mget m k)" for ks m
  proof (induction ks arbitrary: m)
    case (Cons key ks)
    then show ?case by (cases "strategyOf L key"; cases "key = k") auto
  qed simp
  moreover have "k \<in> set (mkeys (collectedWorkloadKeys w)) \<longleftrightarrow> (\<exists>uid e. mget (W_index w) uid = Some e \<and> workload_key e = k)"
    unfolding mkeys_iff collectedWorkloadKeys_def mget_fold_const image_iff Bex_def mvalues_iff by auto
  ultimately show ?thesis by (auto simp: UpdateStrategies_def)
qed

lemma admitted_info: "admitted_by f tr e \<Longrightarrow> PI_Namespace (E_info e) = E_namespace e \<and> PI_Workload (E_info e) = E_workload e"
proof -
  assume "admitted_by f tr e"
  then obtain ev where "left_by f ev = Some e" by (auto simp: admitted_by_def)
  then show ?thesis by (auto simp: left_by_def entry_of_def describe_sel Let_def split: pod_event.splits if_splits)
qed

text \<open>
  The strategy a metadata record carries is the one its own workload declares: after any run of
  informer events, the record of an indexed pod's container has the strategy read from the cache of
  that workload's kind, and none for a kind that is not read.
\<close>

theorem metadata_strategy:
  assumes "w = runPods tr (NewPodWatcher f cbs)" and "r \<in> set (Metadata_Aggregate (Pods w) (UpdateStrategies L w))"
  shows "\<exists>entry. admitted_by f tr entry \<and> fst (Mr_Key r) = E_namespace entry \<and>
    Mr_UpdateStrategy r = (case strategyOf L (workload_key entry) of None \<Rightarrow> noStrategy | Some s \<Rightarrow> s)"
proof -
  have "shape_of (Pods w) (UpdateStrategies L w) r" using metadata_shape assms(2) unfolding list_all_iff by blast
  then obtain pod c rest where cs: "carriers (Pods w) (Mr_Key r) = (pod, c) # rest"
      and st: "Mr_UpdateStrategy r = mget_or noStrategy (UpdateStrategies L w) (PI_Namespace pod, Ref_Kind (PI_Workload pod), Ref_Name (PI_Workload pod))"
    unfolding shape_of_def by (auto split: list.splits)
  have mem: "(pod, c) \<in> set (carriers (Pods w) (Mr_Key r))" using cs by simp
  then have "pod \<in> set (Pods w)" "Mr_Key r = meta_key pod c" by (auto simp: carriers_def pod_containers_def pair_key_def)
  then obtain uid e where e: "mget (W_index w) uid = Some e" "pod = E_info e" by (auto simp: Pods_def mvalues_iff)
  have adm: "admitted_by f tr e" using e(1) assms(1) indexed_admitted by blast
  then have info: "PI_Namespace pod = E_namespace e" "PI_Workload pod = E_workload e" using e(2) admitted_info by auto
  then have "workload_key e = (PI_Namespace pod, Ref_Kind (PI_Workload pod), Ref_Name (PI_Workload pod))" by (simp add: workload_key_def)
  then have "Mr_UpdateStrategy r = (case strategyOf L (workload_key e) of None \<Rightarrow> noStrategy | Some s \<Rightarrow> s)"
    using st e(1) UpdateStrategies_iff [of L w "workload_key e"] by (auto simp: mget_or_def)
  then show ?thesis using adm info(1) \<open>Mr_Key r = meta_key pod c\<close> by (auto simp: meta_key_def)
qed

definition strategy_caches :: strategyListers where
  "strategy_caches = \<lparr>Sl_deployments = None, Sl_statefulSets = Some (\<lambda>_ _. Some \<lparr>Ss_Type = ''RollingUpdate'', Ss_MinReadySeconds = 0,
     Ss_RollingUpdate = Some \<lparr>Ru_MaxUnavailable = None, Ru_MaxSurge = None, Ru_Partition = Some 2\<rparr>\<rparr>), Sl_daemonSets = None\<rparr>"

theorem metadata_strategy_witness:
  "let w = runPods [(no_caches, 5, PodAdded (web_pod plain_container))]
         (NewPodWatcher (NewFilter [] []) \<lparr>Cb_oom = True, Cb_restart = True, Cb_disruption = True, Cb_job = True\<rparr>);
       r = hd (Metadata_Aggregate (Pods w) (UpdateStrategies strategy_caches w))
   in \<exists>entry. admitted_by (NewFilter [] []) [(no_caches, 5, PodAdded (web_pod plain_container))] entry \<and>
        Mr_UpdateStrategy r = (case strategyOf strategy_caches (workload_key entry) of None \<Rightarrow> noStrategy | Some s \<Rightarrow> s)"
proof -
  define w where "w = runPods [(no_caches, 5, PodAdded (web_pod plain_container))]
         (NewPodWatcher (NewFilter [] []) \<lparr>Cb_oom = True, Cb_restart = True, Cb_disruption = True, Cb_job = True\<rparr>)"
  define rs where "rs = Metadata_Aggregate (Pods w) (UpdateStrategies strategy_caches w)"
  have "\<not> List.null rs" unfolding rs_def w_def by code_simp
  then have "hd rs \<in> set rs" by simp
  from metadata_strategy [OF w_def this [unfolded rs_def]] show ?thesis unfolding Let_def w_def [symmetric] rs_def by blast
qed

end
