(* ===== verification/PprofFunnel.thy ===== *)
theory PprofFunnel
  imports NodeProfile AgentFlow
begin

text \<open>
  The controller's contact with workloads that serve \<open>/debug/pprof\<close>: the prober that asks each build's
  port once (\<open>internal/pprofprobe/probe.go\<close>), the counter that reads the goroutine count off the index
  page (\<open>count.go\<close>), and the puller that fetches profiles in turn (\<open>internal/pprofpull/pull.go\<close>).

  One HTTP exchange is a \<open>response\<close>: none where the request could not be made or was not answered, else
  the status and the body, which is \<^const>\<open>None\<close> where reading it failed. What the clock and the address
  resolver answer during one iteration of a loop is a record indexed by the iteration.
\<close>

section \<open>The prober\<close>

datatype response = NoResponse | Response int "string option"

definition indexPath :: string where "indexPath = ''/debug/pprof/''"
definition indexTitle :: string where "indexTitle = ''<title>/debug/pprof/</title>''"
definition maxIndexBytes :: int where "maxIndexBytes = 65536"
definition maxProbesPerTick :: nat where "maxProbesPerTick = 20"
definition unreachableRetry :: duration where "unreachableRetry = 30 * minute"

datatype State = StateUnknown | StateConfirmed | StateAbsent | StateUnreachable

fun State_String :: "State \<Rightarrow> string" where
  "State_String StateConfirmed = ''confirmed''"
| "State_String StateAbsent = ''absent''"
| "State_String StateUnreachable = ''unreachable''"
| "State_String StateUnknown = ''unknown''"

type_synonym ProbeTarget = "string \<times> int"

record Candidate =
  Cd_Target :: ProbeTarget
  Cd_Namespace :: string
  Cd_WorkloadKind :: string
  Cd_WorkloadName :: string
  Cd_Container :: string
  Cd_OwnModules :: "string list"

record probe_answer =
  An_state :: State
  An_retryAt :: time

type_synonym Prober = "(ProbeTarget, probe_answer) gomap"

definition NewProber :: Prober where "NewProber = mempty"

definition probe_due :: "time \<Rightarrow> ProbeTarget \<Rightarrow> Prober \<Rightarrow> bool" where
  "probe_due now t p =
     (case mget p t of None \<Rightarrow> True | Some a \<Rightarrow> \<not> IsZero (An_retryAt a) \<and> \<not> now < An_retryAt a)"

definition probe_record :: "time \<Rightarrow> ProbeTarget \<Rightarrow> State \<Rightarrow> Prober \<Rightarrow> Prober" where
  "probe_record now t state p =
     mput t \<lparr>An_state = state, An_retryAt = (if state = StateUnreachable then now + unreachableRetry else 0)\<rparr> p"

definition ask :: "response \<Rightarrow> State" where
  "ask r =
     (case r of
        NoResponse \<Rightarrow> StateUnreachable
      | Response status body \<Rightarrow>
          if status \<noteq> 200 then StateAbsent
          else case body of
            None \<Rightarrow> StateUnreachable
          | Some b \<Rightarrow> if \<not> contains (limited maxIndexBytes b) indexTitle then StateAbsent else StateConfirmed)"

record probe_env =
  Pe_dueAt :: time
  Pe_address :: "string option"
  Pe_response :: response
  Pe_recordedAt :: time
  Pe_cancelled :: bool

text \<open>A request that was made: the target, the address, when it was found due, and the answer recorded for it.\<close>

record probe_request =
  Qr_target :: ProbeTarget
  Qr_addr :: string
  Qr_dueAt :: time
  Qr_recordedAt :: time
  Qr_state :: State

fun probe_loop :: "(nat \<Rightarrow> probe_env) \<Rightarrow> nat \<Rightarrow> nat \<Rightarrow> Candidate list \<Rightarrow> Prober \<Rightarrow> Prober \<times> probe_request list" where
  "probe_loop env i asked [] p = (p, [])"
| "probe_loop env i asked (c # cs) p =
     (if asked \<ge> maxProbesPerTick then (p, [])
      else if \<not> probe_due (Pe_dueAt (env i)) (Cd_Target c) p then probe_loop env (Suc i) asked cs p
      else case Pe_address (env i) of
        None \<Rightarrow> probe_loop env (Suc i) asked cs p
      | Some addr \<Rightarrow>
          let state = ask (Pe_response (env i));
              p = probe_record (Pe_recordedAt (env i)) (Cd_Target c) state p;
              rq = \<lparr>Qr_target = Cd_Target c, Qr_addr = addr, Qr_dueAt = Pe_dueAt (env i), Qr_recordedAt = Pe_recordedAt (env i), Qr_state = state\<rparr>
          in if Pe_cancelled (env i) then (p, [rq])
             else let (p, rqs) = probe_loop env (Suc i) (Suc asked) cs p in (p, rq # rqs))"

definition probe_round :: "(nat \<Rightarrow> probe_env) \<Rightarrow> Candidate list \<Rightarrow> Prober \<Rightarrow> Prober \<times> probe_request list" where
  "probe_round env candidates p = probe_loop env 0 0 candidates p"

definition Endpoints :: "Prober \<Rightarrow> ProbeTarget list" where
  "Endpoints p = map fst (filter (\<lambda>e. An_state (snd e) = StateConfirmed) (entries p))"

definition Confirmed :: "Candidate list \<Rightarrow> Prober \<Rightarrow> Candidate list" where
  "Confirmed candidates p =
     filter (\<lambda>c. case mget p (Cd_Target c) of None \<Rightarrow> False | Some a \<Rightarrow> An_state a = StateConfirmed) candidates"

definition stamp_port :: "string \<Rightarrow> Prober \<Rightarrow> Port \<Rightarrow> Port" where
  "stamp_port digest p port =
     (case mget p (digest, Port_Port port) of
        None \<Rightarrow> port
      | Some a \<Rightarrow> if An_state a = StateUnknown then port else port\<lparr>Port_Pprof := State_String (An_state a)\<rparr>)"

definition Stamp :: "PortRecord list \<Rightarrow> Prober \<Rightarrow> PortRecord list" where
  "Stamp records p = map (\<lambda>r. r\<lparr>Pt_Ports := map (stamp_port (snd (Pt_Key r)) p) (Pt_Ports r)\<rparr>) records"

record ProbeCoverage =
  Pv_Confirmed :: int
  Pv_Absent :: int
  Pv_Unreachable :: int
  Pv_ExcludedByAnnotation :: int

definition count_answer :: "probe_answer \<Rightarrow> ProbeCoverage \<Rightarrow> ProbeCoverage" where
  "count_answer a c =
     (case An_state a of
        StateConfirmed \<Rightarrow> c\<lparr>Pv_Confirmed := Pv_Confirmed c + 1\<rparr>
      | StateAbsent \<Rightarrow> c\<lparr>Pv_Absent := Pv_Absent c + 1\<rparr>
      | StateUnreachable \<Rightarrow> c\<lparr>Pv_Unreachable := Pv_Unreachable c + 1\<rparr>
      | StateUnknown \<Rightarrow> c)"

definition Prober_Snapshot :: "Prober \<Rightarrow> ProbeCoverage" where
  "Prober_Snapshot p = fold count_answer (mvalues p) \<lparr>Pv_Confirmed = 0, Pv_Absent = 0, Pv_Unreachable = 0, Pv_ExcludedByAnnotation = 0\<rparr>"

definition Candidates :: "PortRecord list \<Rightarrow> (string, string list) gomap \<Rightarrow> Candidate list" where
  "Candidates ports builds =
     concat (map (\<lambda>rec. case mget builds (snd (Pt_Key rec)) of
         None \<Rightarrow> []
       | Some ownModules \<Rightarrow>
           (case fst (Pt_Key rec) of (ns, kind, name, container) \<Rightarrow>
              map (\<lambda>port. \<lparr>Cd_Target = (snd (Pt_Key rec), Port_Port port), Cd_Namespace = ns, Cd_WorkloadKind = kind, Cd_WorkloadName = name,
                           Cd_Container = container, Cd_OwnModules = ownModules\<rparr>)
                (filter (\<lambda>port. \<not> Port_Loopback port) (Pt_Ports rec)))) ports)"

definition Admitted :: "Candidate list \<Rightarrow> (string \<Rightarrow> string \<Rightarrow> string \<Rightarrow> bool) \<Rightarrow> Candidate list \<times> nat" where
  "Admitted candidates optedOut =
     (let out = (\<lambda>c. optedOut (Cd_Namespace c) (Cd_WorkloadKind c) (Cd_WorkloadName c))
      in (filter (\<lambda>c. \<not> out c) candidates, length (remdups (map Cd_Target (filter out candidates)))))"

section \<open>The counter\<close>

definition maxReadingsPerRound :: nat where "maxReadingsPerRound = 200"
definition heldAfterFailure :: duration where "heldAfterFailure = 5 * minute"

record CountCoverage =
  Cc_Sampled :: int
  Cc_Unreachable :: int
  Cc_Unreadable :: int

record Counter =
  Ct_cover :: CountCoverage
  Ct_held :: "(ProbeTarget, time) gomap"

definition NewCounter :: Counter where
  "NewCounter = \<lparr>Ct_cover = \<lparr>Cc_Sampled = 0, Cc_Unreachable = 0, Cc_Unreadable = 0\<rparr>, Ct_held = mempty\<rparr>"

definition heldOff :: "time \<Rightarrow> ProbeTarget \<Rightarrow> Counter \<Rightarrow> bool" where
  "heldOff now t c = (case mget (Ct_held c) t of None \<Rightarrow> False | Some until \<Rightarrow> now < until)"

definition Counter_hold :: "time \<Rightarrow> ProbeTarget \<Rightarrow> duration \<Rightarrow> Counter \<Rightarrow> Counter" where
  "Counter_hold now t d c = (if d = 0 then c\<lparr>Ct_held := mdel t (Ct_held c)\<rparr> else c\<lparr>Ct_held := mput t (now + d) (Ct_held c)\<rparr>)"

type_synonym process_key = "string \<times> string \<times> string \<times> string \<times> string"

definition process_key :: "Candidate \<Rightarrow> process_key" where
  "process_key c = (Cd_Namespace c, Cd_WorkloadKind c, Cd_WorkloadName c, Cd_Container c, fst (Cd_Target c))"

definition lowest_port :: "Candidate \<Rightarrow> (process_key, Candidate) gomap \<Rightarrow> (process_key, Candidate) gomap" where
  "lowest_port c lowest =
     (case mget lowest (process_key c) of
        Some held \<Rightarrow> if snd (Cd_Target held) \<le> snd (Cd_Target c) then lowest else mput (process_key c) c lowest
      | None \<Rightarrow> mput (process_key c) c lowest)"

definition less_process :: "Candidate \<Rightarrow> Candidate \<Rightarrow> bool" where
  "less_process a b =
     (if Cd_Namespace a \<noteq> Cd_Namespace b then Cd_Namespace a < Cd_Namespace b
      else if Cd_WorkloadName a \<noteq> Cd_WorkloadName b then Cd_WorkloadName a < Cd_WorkloadName b
      else if Cd_Container a \<noteq> Cd_Container b then Cd_Container a < Cd_Container b
      else snd (Cd_Target a) < snd (Cd_Target b))"

definition processes :: "Candidate list \<Rightarrow> Candidate list" where
  "processes candidates = sort_slice less_process (mvalues (fold lowest_port candidates mempty))"

definition is_digit :: "char \<Rightarrow> bool" where
  "is_digit c \<longleftrightarrow> 48 \<le> (of_char c :: nat) \<and> (of_char c :: nat) \<le> 57"

text \<open>\<open>stripTags\<close>: the characters outside every tag, trimmed.\<close>

fun strip_from :: "nat \<Rightarrow> string \<Rightarrow> string" where
  "strip_from depth [] = []"
| "strip_from depth (b # bs) =
     (if b = CHR ''<'' then strip_from (Suc depth) bs
      else if b = CHR ''>'' then strip_from (depth - 1) bs
      else if depth = 0 then b # strip_from depth bs
      else strip_from depth bs)"

definition stripTags :: "string \<Rightarrow> string" where
  "stripTags line = TrimSpace (strip_from 0 line)"

text \<open>\<open>parseCount\<close>, with the products and sums of \<open>int64\<close> wrapping.\<close>

fun parse_count_from :: "int \<Rightarrow> string \<Rightarrow> int option" where
  "parse_count_from n [] = Some n"
| "parse_count_from n (d # ds) =
     (let next = wrap64 (n * 10 + (int (of_char d) - 48)) in if next < n then None else parse_count_from next ds)"

definition parseCount :: "string \<Rightarrow> int option" where
  "parseCount digits = parse_count_from 0 digits"

definition count_in :: "string \<Rightarrow> int option" where
  "count_in line =
     (if \<not> contains line ''>goroutine<'' then None
      else
        let text = stripTags line; digits = takeWhile is_digit text in
        if digits = [] \<or> dropWhile is_digit text \<noteq> ''goroutine'' then None else parseCount digits)"

definition goroutineCount :: "string \<Rightarrow> int option" where
  "goroutineCount body =
     (case List.find (\<lambda>line. count_in line \<noteq> None) (Split body (CHR 10)) of None \<Rightarrow> None | Some line \<Rightarrow> count_in line)"

datatype count_result = CountRead int | CountUnreadable | CountFailed

definition read_count :: "response \<Rightarrow> count_result" where
  "read_count r =
     (case r of
        NoResponse \<Rightarrow> CountFailed
      | Response status body \<Rightarrow>
          if status \<noteq> 200 then CountUnreadable
          else case body of
            None \<Rightarrow> CountFailed
          | Some b \<Rightarrow>
              let b = limited maxIndexBytes b in
              if \<not> contains b indexTitle then CountUnreadable
              else case goroutineCount b of None \<Rightarrow> CountUnreadable | Some n \<Rightarrow> CountRead n)"

record count_env =
  Ce_cancelled :: bool
  Ce_now :: time
  Ce_replica :: "(string \<times> string) option"
  Ce_observedAt :: time
  Ce_response :: response
  Ce_holdAt :: time

definition count_sampled :: "Counter \<Rightarrow> Counter" where
  "count_sampled c = c\<lparr>Ct_cover := (Ct_cover c)\<lparr>Cc_Sampled := Cc_Sampled (Ct_cover c) + 1\<rparr>\<rparr>"

definition count_no_answer :: "Counter \<Rightarrow> Counter" where
  "count_no_answer c = c\<lparr>Ct_cover := (Ct_cover c)\<lparr>Cc_Unreachable := Cc_Unreachable (Ct_cover c) + 1\<rparr>\<rparr>"

definition count_bad_answer :: "Counter \<Rightarrow> Counter" where
  "count_bad_answer c = c\<lparr>Ct_cover := (Ct_cover c)\<lparr>Cc_Unreadable := Cc_Unreadable (Ct_cover c) + 1\<rparr>\<rparr>"

text \<open>\<open>Counter.visit\<close>, with the sample handed to the sink.\<close>

definition Counter_visit :: "count_env \<Rightarrow> Candidate \<Rightarrow> Counter \<Rightarrow> Counter \<times> GoroutineCount list" where
  "Counter_visit env cand c =
     (case Ce_replica env of
        None \<Rightarrow> (count_no_answer c, [])
      | Some (addr, pod) \<Rightarrow>
          case read_count (Ce_response env) of
            CountUnreadable \<Rightarrow> (count_bad_answer (Counter_hold (Ce_holdAt env) (Cd_Target cand) heldAfterFailure c), [])
          | CountFailed \<Rightarrow> (count_no_answer (Counter_hold (Ce_holdAt env) (Cd_Target cand) heldAfterFailure c), [])
          | CountRead n \<Rightarrow>
              (count_sampled (Counter_hold (Ce_holdAt env) (Cd_Target cand) 0 c),
               [\<lparr>GC_Namespace = Cd_Namespace cand, GC_Pod = pod, GC_Container = Cd_Container cand,
                 GC_Workload = WorkloadRef (Cd_WorkloadKind cand) (Cd_WorkloadName cand), GC_ImageDigest = fst (Cd_Target cand),
                 GC_ObservedAt = Ce_observedAt env, GC_Goroutines = n\<rparr>]))"

text \<open>The round: its last component lists the visits made, as the candidate and when it was found not held.\<close>

fun count_loop :: "(nat \<Rightarrow> count_env) \<Rightarrow> nat \<Rightarrow> nat \<Rightarrow> Candidate list \<Rightarrow> Counter \<Rightarrow> Counter \<times> GoroutineCount list \<times> (Candidate \<times> time) list" where
  "count_loop env i done [] c = (c, [], [])"
| "count_loop env i done (cand # cands) c =
     (if done \<ge> maxReadingsPerRound \<or> Ce_cancelled (env i) then (c, [], [])
      else if heldOff (Ce_now (env i)) (Cd_Target cand) c then count_loop env (Suc i) done cands c
      else
        let (c, out) = Counter_visit (env i) cand c;
            (c, outs, visits) = count_loop env (Suc i) (Suc done) cands c
        in (c, out @ outs, (cand, Ce_now (env i)) # visits))"

definition count_round :: "(nat \<Rightarrow> count_env) \<Rightarrow> Candidate list \<Rightarrow> Counter \<Rightarrow> Counter \<times> GoroutineCount list \<times> (Candidate \<times> time) list" where
  "count_round env candidates c = count_loop env 0 0 (processes candidates) c"

section \<open>The puller\<close>

definition profilePath :: string where "profilePath = ''/debug/pprof/profile''"
definition maxProfileBytes :: int where "maxProfileBytes = 16777216"
definition maxPullsPerCycle :: nat where "maxPullsPerCycle = 10"
definition refusedFor :: duration where "refusedFor = 6 * hour"
definition unreachableFor :: duration where "unreachableFor = 30 * minute"

record Pulled =
  Pu_Namespace :: string
  Pu_WorkloadKind :: string
  Pu_WorkloadName :: string
  Pu_Container :: string
  Pu_ImageDigest :: string
  Pu_Start :: time
  Pu_End :: time
  Pu_Pprof :: string
  Pu_Dropped :: FilterCounters

record targetState =
  Ts_lastPulled :: time
  Ts_holdUntil :: time

record Puller =
  Pr_filter :: SymbolFilter
  Pr_allowed :: "string list"
  Pr_thirdParty :: ThirdPartyPolicy
  Pr_state :: "(ProbeTarget, targetState) gomap"
  Pr_cover :: pullCoverage

definition NewPuller :: "string list \<Rightarrow> ThirdPartyPolicy \<Rightarrow> Puller" where
  "NewPuller allowed thirdParty =
     \<lparr>Pr_filter = NewSymbolFilter allowed thirdParty, Pr_allowed = allowed, Pr_thirdParty = thirdParty, Pr_state = mempty,
      Pr_cover = \<lparr>Pull_Shipped = 0, Pull_Refused = 0, Pull_Unreachable = 0, Pull_Invalid = 0\<rparr>\<rparr>"

definition lastLocked :: "Puller \<Rightarrow> ProbeTarget \<Rightarrow> time" where
  "lastLocked p t = (case mget (Pr_state p) t of None \<Rightarrow> 0 | Some st \<Rightarrow> Ts_lastPulled st)"

definition pull_due :: "time \<Rightarrow> Candidate list \<Rightarrow> Puller \<Rightarrow> Candidate list" where
  "pull_due now candidates p =
     sort_slice (\<lambda>a b. lastLocked p (Cd_Target a) < lastLocked p (Cd_Target b))
       (filter (\<lambda>c. case mget (Pr_state p) (Cd_Target c) of None \<Rightarrow> True | Some st \<Rightarrow> \<not> now < Ts_holdUntil st) candidates)"

record pull_env =
  Ue_cancelled :: bool
  Ue_address :: "string option"
  Ue_start :: time
  Ue_response :: response
  Ue_end :: time
  Ue_pulledAt :: time
  Ue_holdAt :: time

definition Puller_hold :: "pull_env \<Rightarrow> ProbeTarget \<Rightarrow> duration \<Rightarrow> Puller \<Rightarrow> Puller" where
  "Puller_hold env t d p = p\<lparr>Pr_state := mput t \<lparr>Ts_lastPulled = Ue_pulledAt env, Ts_holdUntil = Ue_holdAt env + d\<rparr> (Pr_state p)\<rparr>"

definition Puller_count :: "(pullCoverage \<Rightarrow> pullCoverage) \<Rightarrow> Puller \<Rightarrow> Puller" where
  "Puller_count f p = p\<lparr>Pr_cover := f (Pr_cover p)\<rparr>"

definition Puller_filterFor :: "Puller \<Rightarrow> Candidate \<Rightarrow> SymbolFilter" where
  "Puller_filterFor p c =
     (if Cd_OwnModules c = [] then Pr_filter p else NewSymbolFilter (Pr_allowed p @ Cd_OwnModules c) (Pr_thirdParty p))"

datatype fetched = FetchError | FetchStatus int | Fetched string

definition fetch :: "response \<Rightarrow> fetched" where
  "fetch r =
     (case r of
        NoResponse \<Rightarrow> FetchError
      | Response status body \<Rightarrow>
          if status \<noteq> 200 then FetchStatus status
          else case body of None \<Rightarrow> FetchError | Some b \<Rightarrow> Fetched (limited maxProfileBytes b))"

datatype outcome = OutcomeShipped | OutcomeRefused | OutcomeUnreachable | OutcomeInvalid | OutcomeUnspooled

definition pulled_of :: "pull_env \<Rightarrow> Candidate \<Rightarrow> string \<Rightarrow> FilterCounters \<Rightarrow> Pulled" where
  "pulled_of env c filtered dr =
     \<lparr>Pu_Namespace = Cd_Namespace c, Pu_WorkloadKind = Cd_WorkloadKind c, Pu_WorkloadName = Cd_WorkloadName c, Pu_Container = Cd_Container c,
      Pu_ImageDigest = fst (Cd_Target c), Pu_Start = Ue_start env, Pu_End = Ue_end env, Pu_Pprof = filtered, Pu_Dropped = dr\<rparr>"

text \<open>The bytes of a fetched profile that survive the filter and the validation.\<close>

definition reduce_profile :: "pprof_library \<Rightarrow> SymbolFilter \<Rightarrow> string \<Rightarrow> (string \<times> FilterCounters) option" where
  "reduce_profile pp f raw =
     (case FilterPulled pp f raw of
        None \<Rightarrow> None
      | Some (filtered, dr) \<Rightarrow> if Validate pp filtered then Some (filtered, dr) else None)"

text \<open>\<open>Puller.visit\<close>; the sink threads its own state and says whether it took the profile.\<close>

definition Puller_visit ::
    "pprof_library \<Rightarrow> (Pulled \<Rightarrow> 's \<Rightarrow> 's \<times> bool) \<Rightarrow> pull_env \<Rightarrow> Candidate \<Rightarrow> Puller \<times> 's \<Rightarrow> (Puller \<times> 's) \<times> outcome option" where
  "Puller_visit pp sink env c ps =
     (let p = fst ps; s = snd ps; t = Cd_Target c in
      case Ue_address env of
        None \<Rightarrow> (ps, None)
      | Some addr \<Rightarrow>
          case fetch (Ue_response env) of
            FetchError \<Rightarrow> ((Puller_count (Pull_Unreachable_update (\<lambda>n. n + 1)) (Puller_hold env t unreachableFor p), s), Some OutcomeUnreachable)
          | FetchStatus _ \<Rightarrow> ((Puller_count (Pull_Refused_update (\<lambda>n. n + 1)) (Puller_hold env t refusedFor p), s), Some OutcomeRefused)
          | Fetched raw \<Rightarrow>
              case reduce_profile pp (Puller_filterFor p c) raw of
                None \<Rightarrow> ((Puller_count (Pull_Invalid_update (\<lambda>n. n + 1)) (Puller_hold env t unreachableFor p), s), Some OutcomeInvalid)
              | Some (filtered, dr) \<Rightarrow>
                  let p = Puller_hold env t 0 p; (s, ok) = sink (pulled_of env c filtered dr) s
                  in if \<not> ok then ((p, s), Some OutcomeUnspooled)
                     else ((Puller_count (Pull_Shipped_update (\<lambda>n. n + 1)) p, s), Some OutcomeShipped))"

text \<open>The cycle, with the candidates it visited and what came of each.\<close>

fun pull_loop ::
    "pprof_library \<Rightarrow> (Pulled \<Rightarrow> 's \<Rightarrow> 's \<times> bool) \<Rightarrow> (nat \<Rightarrow> pull_env) \<Rightarrow> nat \<Rightarrow> Candidate list \<Rightarrow> Puller \<times> 's \<Rightarrow>
     (Puller \<times> 's) \<times> (Candidate \<times> outcome option) list" where
  "pull_loop pp sink env i [] ps = (ps, [])"
| "pull_loop pp sink env i (c # cs) ps =
     (if i \<ge> maxPullsPerCycle \<or> Ue_cancelled (env i) then (ps, [])
      else
        let (ps, r) = Puller_visit pp sink (env i) c ps; (ps, rs) = pull_loop pp sink env (Suc i) cs ps
        in (ps, (c, r) # rs))"

definition cycle ::
    "pprof_library \<Rightarrow> (Pulled \<Rightarrow> 's \<Rightarrow> 's \<times> bool) \<Rightarrow> time \<Rightarrow> (nat \<Rightarrow> pull_env) \<Rightarrow> Candidate list \<Rightarrow> Puller \<times> 's \<Rightarrow>
     (Puller \<times> 's) \<times> (Candidate \<times> outcome option) list" where
  "cycle pp sink now env candidates ps = pull_loop pp sink env 0 (pull_due now candidates (fst ps)) ps"
section \<open>What the prober asks\<close>

text \<open>Rounds one after the other, each with its environment and its candidates; the requests they make.\<close>

fun probe_rounds :: "((nat \<Rightarrow> probe_env) \<times> Candidate list) list \<Rightarrow> Prober \<Rightarrow> Prober \<times> probe_request list" where
  "probe_rounds [] p = (p, [])"
| "probe_rounds (r # rs) p = (let (p, q) = probe_round (fst r) (snd r) p; (p, qs) = probe_rounds rs p in (p, q @ qs))"

definition record_request :: "probe_request \<Rightarrow> Prober \<Rightarrow> Prober" where
  "record_request rq = probe_record (Qr_recordedAt rq) (Qr_target rq) (Qr_state rq)"

text \<open>A log each of whose requests was due in the state the earlier ones left.\<close>

fun due_log :: "Prober \<Rightarrow> probe_request list \<Rightarrow> bool" where
  "due_log p [] = True"
| "due_log p (rq # rqs) = (probe_due (Qr_dueAt rq) (Qr_target rq) p \<and> due_log (record_request rq p) rqs)"

lemma due_log_append: "due_log p (xs @ ys) \<longleftrightarrow> due_log p xs \<and> due_log (fold record_request xs p) ys"
  by (induction xs arbitrary: p) auto

lemma probe_loop_log:
  "fst (probe_loop env i asked cs p) = fold record_request (snd (probe_loop env i asked cs p)) p \<and>
   due_log p (snd (probe_loop env i asked cs p)) \<and> length (snd (probe_loop env i asked cs p)) \<le> maxProbesPerTick - asked \<and>
   Qr_target ` set (snd (probe_loop env i asked cs p)) \<subseteq> Cd_Target ` set cs"
proof (induction env i asked cs p rule: probe_loop.induct)
  case (2 env i asked c cs p)
  show ?case
  proof (cases "asked < maxProbesPerTick \<and> probe_due (Pe_dueAt (env i)) (Cd_Target c) p")
    case False
    then show ?thesis using "2.IH"(1) by auto
  next
    case due: True
    show ?thesis
    proof (cases "Pe_address (env i)")
      case None
      then show ?thesis using due "2.IH"(2) by auto
    next
      case (Some addr)
      define state where "state = ask (Pe_response (env i))"
      define p' where "p' = probe_record (Pe_recordedAt (env i)) (Cd_Target c) state p"
      define rq where "rq = \<lparr>Qr_target = Cd_Target c, Qr_addr = addr, Qr_dueAt = Pe_dueAt (env i), Qr_recordedAt = Pe_recordedAt (env i), Qr_state = state\<rparr>"
      have rec: "record_request rq p = p'" by (simp add: record_request_def rq_def p'_def)
      have rq: "probe_due (Qr_dueAt rq) (Qr_target rq) p" "Qr_target rq = Cd_Target c" using due by (simp_all add: rq_def)
      have out: "probe_loop env i asked (c # cs) p =
          (if Pe_cancelled (env i) then (p', [rq]) else let (q, rqs) = probe_loop env (Suc i) (Suc asked) cs p' in (q, rq # rqs))"
        using due Some by (simp add: state_def p'_def rq_def Let_def)
      have IH: "fst (probe_loop env (Suc i) (Suc asked) cs p') = fold record_request (snd (probe_loop env (Suc i) (Suc asked) cs p')) p' \<and>
         due_log p' (snd (probe_loop env (Suc i) (Suc asked) cs p')) \<and>
         length (snd (probe_loop env (Suc i) (Suc asked) cs p')) \<le> maxProbesPerTick - Suc asked \<and>
         Qr_target ` set (snd (probe_loop env (Suc i) (Suc asked) cs p')) \<subseteq> Cd_Target ` set cs" if "\<not> Pe_cancelled (env i)"
        using "2.IH"(3) [OF _ _ Some state_def p'_def rq_def that] due by simp
      show ?thesis
        using IH rec rq due unfolding out by (auto simp: case_prod_beta Let_def)
    qed
  qed
qed simp_all

lemma probe_rounds_log:
  "fst (probe_rounds rs p) = fold record_request (snd (probe_rounds rs p)) p \<and> due_log p (snd (probe_rounds rs p))"
proof (induction rs arbitrary: p)
  case (Cons r rs)
  then show ?case using probe_loop_log [of "fst r" 0 0 "snd r" p] by (simp add: probe_round_def case_prod_beta Let_def due_log_append)
qed simp

lemma mget_fold_record:
  "list_all (\<lambda>q. Qr_target q \<noteq> t) rqs \<Longrightarrow> mget (fold record_request rqs p) t = mget p t"
  by (induction rqs arbitrary: p) (auto simp: record_request_def probe_record_def)

text \<open>
  A port is asked about once. Over any sequence of rounds, with any candidates and any answers, if two
  requests are about the same build and port and none between them is, then the first one got no
  answer about the endpoint, and the second was made no sooner than thirty minutes after it was
  recorded: a port that was confirmed or found to serve something else is never asked about again.
\<close>

theorem settled_ports_left_alone:
  assumes "snd (probe_rounds rounds NewProber) = xs @ a # ys @ b # zs" and "Qr_target b = Qr_target a"
    and "list_all (\<lambda>q. Qr_target q \<noteq> Qr_target a) ys"
  shows "Qr_state a = StateUnreachable \<and> Qr_recordedAt a + unreachableRetry \<le> Qr_dueAt b"
proof -
  define p where "p = fold record_request ys (record_request a (fold record_request xs NewProber))"
  have "due_log NewProber (xs @ a # ys @ b # zs)" using probe_rounds_log [of rounds NewProber] unfolding assms(1) by simp
  then have "probe_due (Qr_dueAt b) (Qr_target a) p" by (simp add: due_log_append p_def assms(2))
  moreover have "mget p (Qr_target a) = Some \<lparr>An_state = Qr_state a, An_retryAt = (if Qr_state a = StateUnreachable then Qr_recordedAt a + unreachableRetry else 0)\<rparr>"
    using mget_fold_record [OF assms(3)] unfolding p_def by (simp add: record_request_def probe_record_def)
  ultimately show ?thesis by (auto simp: probe_due_def split: if_splits)
qed

definition webs :: "Candidate list" where
  "webs = [\<lparr>Cd_Target = (''sha256:0f'', 6060), Cd_Namespace = ''shop'', Cd_WorkloadKind = ''Deployment'', Cd_WorkloadName = ''web'', Cd_Container = ''app'', Cd_OwnModules = []\<rparr>]"

definition answers_at :: "time \<Rightarrow> response \<Rightarrow> nat \<Rightarrow> probe_env" where
  "answers_at t r i = \<lparr>Pe_dueAt = t, Pe_address = Some ''10.0.0.1:6060'', Pe_response = r, Pe_recordedAt = t + 1, Pe_cancelled = False\<rparr>"

theorem settled_ports_left_alone_witness:
  "let rqs = snd (probe_rounds [(answers_at 5 NoResponse, webs), (answers_at (hour + 5) (Response 200 (Some indexTitle)), webs), (answers_at (2 * hour) NoResponse, webs)] NewProber)
   in Qr_state (hd rqs) = StateUnreachable \<and> Qr_recordedAt (hd rqs) + unreachableRetry \<le> Qr_dueAt (hd (tl rqs))"
proof -
  define rqs where "rqs = snd (probe_rounds [(answers_at 5 NoResponse, webs), (answers_at (hour + 5) (Response 200 (Some indexTitle)), webs), (answers_at (2 * hour) NoResponse, webs)] NewProber)"
  have "length rqs = 2" "Qr_target (hd (tl rqs)) = Qr_target (hd rqs)" unfolding rqs_def by code_simp+
  then obtain a b where ab: "rqs = [a, b]" "Qr_target b = Qr_target a" by (auto simp: length_Suc_conv numeral_2_eq_2)
  have "snd (probe_rounds [(answers_at 5 NoResponse, webs), (answers_at (hour + 5) (Response 200 (Some indexTitle)), webs), (answers_at (2 * hour) NoResponse, webs)] NewProber) =
      [] @ a # [] @ b # []" using ab(1) unfolding rqs_def by simp
  from settled_ports_left_alone [OF this ab(2)] show ?thesis unfolding rqs_def [symmetric] Let_def ab(1) by simp
qed

lemma last_answer:
  "mget (fold record_request rqs q) t = mget q t \<or>
     (\<exists>rq \<in> set rqs. Qr_target rq = t \<and> map_option An_state (mget (fold record_request rqs q) t) = Some (Qr_state rq))"
proof (induction rqs arbitrary: q rule: rev_induct)
  case (snoc rq rqs)
  then show ?case by (auto simp: record_request_def probe_record_def)
qed simp

lemma Endpoints_iff: "t \<in> set (Endpoints p) \<longleftrightarrow> (\<exists>a. mget p t = Some a \<and> An_state a = StateConfirmed)"
  by (force simp: Endpoints_def mget_entries)

lemma CandidatesD:
  assumes "c \<in> set (Candidates ports builds)"
  shows "\<exists>rec \<in> set ports. \<exists>port \<in> set (Pt_Ports rec). \<not> Port_Loopback port \<and> Port_Port port = snd (Cd_Target c) \<and>
    Pt_Key rec = ((Cd_Namespace c, Cd_WorkloadKind c, Cd_WorkloadName c, Cd_Container c), fst (Cd_Target c)) \<and>
    mget builds (fst (Cd_Target c)) = Some (Cd_OwnModules c)"
proof -
  obtain rec where rec: "rec \<in> set ports" and c: "c \<in> set (case mget builds (snd (Pt_Key rec)) of None \<Rightarrow> []
       | Some own \<Rightarrow> (case fst (Pt_Key rec) of (ns, kind, name, container) \<Rightarrow>
           map (\<lambda>port. \<lparr>Cd_Target = (snd (Pt_Key rec), Port_Port port), Cd_Namespace = ns, Cd_WorkloadKind = kind, Cd_WorkloadName = name,
                        Cd_Container = container, Cd_OwnModules = own\<rparr>) (filter (\<lambda>port. \<not> Port_Loopback port) (Pt_Ports rec))))"
    using assms unfolding Candidates_def set_concat set_map by blast
  obtain ns kind name container digest where k: "Pt_Key rec = ((ns, kind, name, container), digest)" by (metis surj_pair)
  obtain own where "mget builds digest = Some own" using c k by (cases "mget builds digest") simp_all
  with c k rec show ?thesis by (intro bexI [OF _ rec]) auto
qed

text \<open>
  What the funnel lets through. Every request of a round is about a build that links the package, on a
  port that a process of one of its containers was seen to bind beyond loopback, for a workload that
  did not opt out; at most twenty are made; and a target that is then confirmed answered a request
  with the title of the index page.
\<close>

theorem probe_round_within_funnel:
  fixes ports :: "PortRecord list" and env builds optedOut p
  defines "out \<equiv> probe_round env (fst (Admitted (Candidates ports builds) optedOut)) p"
  shows "length (snd out) \<le> 20 \<and>
    list_all (\<lambda>rq. \<exists>rec \<in> set ports. \<exists>port \<in> set (Pt_Ports rec). \<exists>ns kind name container.
       Pt_Key rec = ((ns, kind, name, container), fst (Qr_target rq)) \<and> Port_Port port = snd (Qr_target rq) \<and> \<not> Port_Loopback port \<and>
       mget builds (fst (Qr_target rq)) \<noteq> None \<and> \<not> optedOut ns kind name) (snd out) \<and>
    list_all (\<lambda>t. mget p t = mget (fst out) t \<or> t \<in> Qr_target ` {rq \<in> set (snd out). Qr_state rq = StateConfirmed}) (Endpoints (fst out))"
proof -
  define cs where "cs = fst (Admitted (Candidates ports builds) optedOut)"
  have log: "fst out = fold record_request (snd out) p" "length (snd out) \<le> maxProbesPerTick" "Qr_target ` set (snd out) \<subseteq> Cd_Target ` set cs"
    using probe_loop_log [of env 0 0 cs p] by (simp_all add: out_def cs_def probe_round_def)
  have cand: "\<exists>rec \<in> set ports. \<exists>port \<in> set (Pt_Ports rec). \<exists>ns kind name container.
       Pt_Key rec = ((ns, kind, name, container), fst (Cd_Target c)) \<and> Port_Port port = snd (Cd_Target c) \<and> \<not> Port_Loopback port \<and>
       mget builds (fst (Cd_Target c)) \<noteq> None \<and> \<not> optedOut ns kind name" if "c \<in> set cs" for c
  proof -
    have c: "c \<in> set (Candidates ports builds)" "\<not> optedOut (Cd_Namespace c) (Cd_WorkloadKind c) (Cd_WorkloadName c)"
      using that by (auto simp: cs_def Admitted_def Let_def)
    obtain rec port where "rec \<in> set ports" "port \<in> set (Pt_Ports rec)" "\<not> Port_Loopback port" "Port_Port port = snd (Cd_Target c)"
        "Pt_Key rec = ((Cd_Namespace c, Cd_WorkloadKind c, Cd_WorkloadName c, Cd_Container c), fst (Cd_Target c))"
        "mget builds (fst (Cd_Target c)) = Some (Cd_OwnModules c)"
      using CandidatesD [OF c(1)] by blast
    then show ?thesis using c(2) by fastforce
  qed
  have "mget p t = mget (fst out) t \<or> t \<in> Qr_target ` {rq \<in> set (snd out). Qr_state rq = StateConfirmed}" if t: "t \<in> set (Endpoints (fst out))" for t
    using last_answer [of "snd out" p t] t unfolding log(1) Endpoints_iff by auto
  then have "list_all (\<lambda>t. mget p t = mget (fst out) t \<or> t \<in> Qr_target ` {rq \<in> set (snd out). Qr_state rq = StateConfirmed}) (Endpoints (fst out))"
    unfolding list_all_iff by blast
  moreover have "list_all (\<lambda>rq. \<exists>rec \<in> set ports. \<exists>port \<in> set (Pt_Ports rec). \<exists>ns kind name container.
       Pt_Key rec = ((ns, kind, name, container), fst (Qr_target rq)) \<and> Port_Port port = snd (Qr_target rq) \<and> \<not> Port_Loopback port \<and>
       mget builds (fst (Qr_target rq)) \<noteq> None \<and> \<not> optedOut ns kind name) (snd out)"
    unfolding list_all_iff
  proof
    fix rq
    assume "rq \<in> set (snd out)"
    then obtain c where "c \<in> set cs" "Qr_target rq = Cd_Target c" using log(3) by auto
    then show "\<exists>rec \<in> set ports. \<exists>port \<in> set (Pt_Ports rec). \<exists>ns kind name container.
       Pt_Key rec = ((ns, kind, name, container), fst (Qr_target rq)) \<and> Port_Port port = snd (Qr_target rq) \<and> \<not> Port_Loopback port \<and>
       mget builds (fst (Qr_target rq)) \<noteq> None \<and> \<not> optedOut ns kind name" using cand [of c] by simp
  qed
  ultimately show ?thesis using log(2) by (simp add: maxProbesPerTick_def)
qed

section \<open>The goroutine count of an index page\<close>

text \<open>The row of the index page for the goroutine profile; its link may carry any attributes.\<close>

definition goroutine_row :: "string \<Rightarrow> nat \<Rightarrow> string" where
  "goroutine_row attrs n = ''<tr><td>'' @ FormatUint n @ ''</td><td><a'' @ attrs @ ''>goroutine</a></td></tr>''"

definition plain_text :: "string \<Rightarrow> bool" where
  "plain_text s \<longleftrightarrow> CHR ''<'' \<notin> set s \<and> CHR ''>'' \<notin> set s"

lemma parse_digits_mono: "parse_digits n ds = Some v \<Longrightarrow> n \<le> v"
proof (induction n ds rule: parse_digits.induct)
  case (2 n d ds)
  then obtain k where "digit_value d = Some k" by (cases "digit_value d") simp_all
  with 2 show ?case by fastforce
qed simp

lemma parse_count_exact:
  "parse_digits n ds = Some v \<Longrightarrow> int v \<le> maxInt64 \<Longrightarrow> parse_count_from (int n) ds = Some (int v)"
proof (induction n ds rule: parse_digits.induct)
  case (2 n d ds)
  obtain k where k: "digit_value d = Some k" using 2(2) by (cases "digit_value d") simp_all
  have d: "int (of_char d) - 48 = int k" using k by (auto simp: digit_value_def of_nat_diff split: if_splits)
  define m where "m = 10 * n + k"
  have "parse_digits m ds = Some v" using 2(2) k by (simp add: m_def)
  then have "int m \<le> maxInt64" using 2(3) parse_digits_mono by fastforce
  then have "wrap64 (int m) = int m" by (intro wrap64_id) (simp add: int64_def minInt64_def)
  moreover have "int n * 10 + (int (of_char d) - 48) = int m" unfolding d m_def by simp
  moreover have "\<not> int m < int n" by (simp add: m_def)
  ultimately show ?case using 2(1) [OF k] \<open>parse_digits m ds = Some v\<close> 2(3) by (simp add: m_def [symmetric])
qed simp

lemma strip_plain: "plain_text s \<Longrightarrow> strip_from depth (s @ t) = (if depth = 0 then s else []) @ strip_from depth t"
  by (induction s) (auto simp: plain_text_def)

lemma digits_plain: "plain_text (FormatUint n)"
proof -
  have "digit d \<noteq> CHR ''<'' \<and> digit d \<noteq> CHR ''>''" if "d < 10" for d
  proof -
    have "(of_char (CHR ''<'') :: nat) \<noteq> 48 + d" "(of_char (CHR ''>'') :: nat) \<noteq> 48 + d" using that by simp_all
    then show ?thesis using of_char_digit [OF that] by metis
  qed
  then show ?thesis unfolding plain_text_def by (metis FormatUint_digits)
qed

lemma strip_row: "plain_text attrs \<Longrightarrow> strip_from 0 (goroutine_row attrs n) = FormatUint n @ ''goroutine''"
proof -
  assume a: "plain_text attrs"
  have "strip_from 0 (goroutine_row attrs n) = strip_from 0 (FormatUint n @ ''</td><td><a'' @ attrs @ ''>goroutine</a></td></tr>'')"
    by (simp add: goroutine_row_def)
  also have "\<dots> = FormatUint n @ strip_from 0 (''</td><td><a'' @ attrs @ ''>goroutine</a></td></tr>'')"
    using strip_plain [OF digits_plain] by simp
  also have "strip_from 0 (''</td><td><a'' @ attrs @ ''>goroutine</a></td></tr>'') = strip_from 1 (attrs @ ''>goroutine</a></td></tr>'')"
    by simp
  also have "\<dots> = ''goroutine''" using strip_plain [OF a, of 1] by simp
  finally show ?thesis .
qed

lemma digit_props:
  assumes "c \<in> set (FormatUint n)"
  shows "is_digit c" "\<not> is_space c" "c \<noteq> CHR 10"
proof -
  obtain d where d: "d < 10" "c = digit d" using FormatUint_digits [OF assms] by blast
  then have c: "(of_char c :: nat) = 48 + d" using of_char_digit by simp
  then show "is_digit c" "\<not> is_space c" using d(1) by (auto simp: is_digit_def is_space_def)
  have "(of_char (CHR 10) :: nat) \<noteq> 48 + d" by simp
  then show "c \<noteq> CHR 10" using c by metis
qed

lemma TrimSpace_id: "s \<noteq> [] \<Longrightarrow> \<not> is_space (hd s) \<Longrightarrow> \<not> is_space (last s) \<Longrightarrow> TrimSpace s = s"
proof -
  assume s: "s \<noteq> []" "\<not> is_space (hd s)" "\<not> is_space (last s)"
  have "dropWhile is_space s = s" using s(1,2) by (cases s) simp_all
  moreover have "dropWhile is_space (rev s) = rev s" using s(1,3) by (cases s rule: rev_cases) simp_all
  ultimately show ?thesis by (simp add: TrimSpace_def)
qed

lemma count_in_row:
  assumes "plain_text attrs" and "int n \<le> maxInt64"
  shows "count_in (goroutine_row attrs n) = Some (int n)"
proof -
  let ?w = "FormatUint n @ ''goroutine''"
  have hd: "hd (FormatUint n) \<in> set (FormatUint n)" by simp
  have "TrimSpace ?w = ?w"
    using digit_props(2) [OF hd] by (intro TrimSpace_id) (simp_all add: is_space_def)
  then have rendered: "stripTags (goroutine_row attrs n) = ?w" using strip_row [OF assms(1)] by (simp add: stripTags_def)
  have "takeWhile is_digit ?w = FormatUint n" "dropWhile is_digit ?w = ''goroutine''"
    using digit_props(1) by (simp_all add: takeWhile_append2 dropWhile_append2 is_digit_def)
  moreover have "contains (goroutine_row attrs n) ''>goroutine<''"
    unfolding contains_iff goroutine_row_def by (rule exI [of _ "''<tr><td>'' @ FormatUint n @ ''</td><td><a'' @ attrs"], rule exI [of _ "''/a></td></tr>''"]) simp
  ultimately show ?thesis
    using rendered parse_count_exact [OF parse_digits_FormatUint assms(2)] by (simp add: count_in_def parseCount_def Let_def)
qed

lemma Split_around: "Split (a @ sep # b) sep = Split a sep @ Split b sep"
  by (induction a) (auto split: list.splits)

text \<open>
  The count of a rendered page is read back. On any page in which the row of the goroutine profile
  stands on a line of its own, whatever attributes its link carries, and no earlier line holds the
  text the reader looks for, the number read is the number the page shows, up to the largest \<open>int64\<close>.
\<close>

theorem goroutine_count_reads_back:
  assumes "list_all (\<lambda>line. \<not> contains line ''>goroutine<'') (Split before (CHR 10))" and "plain_text attrs"
    and "CHR 10 \<notin> set attrs" and "int n \<le> maxInt64"
  shows "goroutineCount (before @ [CHR 10] @ goroutine_row attrs n @ [CHR 10] @ after) = Some (int n)"
proof -
  have "CHR 10 \<notin> set (goroutine_row attrs n)"
    using assms(3) digit_props(3) by (auto simp: goroutine_row_def)
  then have "Split (before @ [CHR 10] @ goroutine_row attrs n @ [CHR 10] @ after) (CHR 10) =
      Split before (CHR 10) @ goroutine_row attrs n # Split after (CHR 10)"
    using Split_around [of before "CHR 10" "goroutine_row attrs n @ [CHR 10] @ after"] by (simp add: Split_append)
  moreover have "List.find P (xs @ y # ys) = Some y" if "list_all (\<lambda>x. \<not> P x) xs" "P y" for P :: "string \<Rightarrow> bool" and xs y ys
    using that by (induction xs) auto
  moreover have "list_all (\<lambda>line. \<not> count_in line \<noteq> None) (Split before (CHR 10))"
    using assms(1) by (auto simp: list_all_iff count_in_def)
  ultimately show ?thesis using count_in_row [OF assms(2,4)] by (simp add: goroutineCount_def)
qed

theorem goroutine_count_reads_back_witness:
  "goroutineCount (indexTitle @ [CHR 10] @ goroutine_row '' href=goroutine'' 42 @ [CHR 10] @ ''</table>'') = Some 42"
proof -
  have "list_all (\<lambda>line. \<not> contains line ''>goroutine<'') (Split indexTitle (CHR 10))" "plain_text '' href=goroutine''"
    "CHR 10 \<notin> set '' href=goroutine''" "int 42 \<le> maxInt64" by code_simp+
  from goroutine_count_reads_back [OF this] show ?thesis by simp
qed

text \<open>
  A count that does not fit is not always refused: the test for a product that wrapped compares with the
  previous value only, and a product can wrap past it. A page that shows 25000000000000000000
  goroutines, more than an \<open>int64\<close> holds, is read as 6553255926290448384.
\<close>

theorem oversized_count_misread: "parseCount ''25000000000000000000'' = Some 6553255926290448384"
  by code_simp

section \<open>What the counter reads\<close>

definition readings :: "Counter \<Rightarrow> int" where
  "readings c = Cc_Sampled (Ct_cover c) + Cc_Unreachable (Ct_cover c) + Cc_Unreadable (Ct_cover c)"

lemma Counter_hold_cover [simp]: "Ct_cover (Counter_hold now t d c) = Ct_cover c"
  by (simp add: Counter_hold_def)

lemma Counter_visit_accounts:
  "readings (fst (Counter_visit env cand c)) = readings c + 1 \<and>
   Cc_Sampled (Ct_cover (fst (Counter_visit env cand c))) = Cc_Sampled (Ct_cover c) + int (length (snd (Counter_visit env cand c)))"
  by (simp add: Counter_visit_def readings_def count_no_answer_def count_bad_answer_def count_sampled_def split: option.splits count_result.splits)

lemma count_loop_accounts:
  "case count_loop env i k cands c of (c', samples, visits) \<Rightarrow>
     readings c' = readings c + int (length visits) \<and> Cc_Sampled (Ct_cover c') = Cc_Sampled (Ct_cover c) + int (length samples) \<and>
     length visits \<le> maxReadingsPerRound - k \<and> set (map fst visits) \<subseteq> set cands \<and> (distinct (map g cands) \<longrightarrow> distinct (map (g \<circ> fst) visits))"
proof (induction env i k cands c rule: count_loop.induct)
  case (2 env i k cand cands c)
  define v where "v = Counter_visit (env i) cand c"
  show ?case
  proof (cases "k \<ge> maxReadingsPerRound \<or> Ce_cancelled (env i)")
    case stop: False
    show ?thesis
    proof (cases "heldOff (Ce_now (env i)) (Cd_Target cand) c")
      case True
      then show ?thesis using "2.IH"(1) [OF stop True] stop by (auto split: prod.splits)
    next
      case False
      obtain c' samples visits where l: "count_loop env (Suc i) (Suc k) cands (fst v) = (c', samples, visits)" by (metis prod.exhaust)
      have IH: "readings c' = readings (fst v) + int (length visits)" "Cc_Sampled (Ct_cover c') = Cc_Sampled (Ct_cover (fst v)) + int (length samples)"
        "length visits \<le> maxReadingsPerRound - Suc k" "set (map fst visits) \<subseteq> set cands" "distinct (map g cands) \<Longrightarrow> distinct (map (g \<circ> fst) visits)"
        using "2.IH"(2) [OF stop False, of v "fst v" "snd v"] l by (simp_all add: v_def comp_def)
      have out: "count_loop env i k (cand # cands) c = (c', snd v @ samples, (cand, Ce_now (env i)) # visits)"
        using stop False l by (simp add: v_def case_prod_beta Let_def)
      show ?thesis unfolding out using IH stop Counter_visit_accounts [of "env i" cand c] by (auto simp: v_def comp_def)
    qed
  qed auto
qed auto

lemma processes_keyed: "distinct (map process_key (processes cands))"
proof -
  define m where "m = fold lowest_port cands mempty"
  have "process_key c = k" if "mget m k = Some c" for k c
  proof -
    have "\<forall>k c. mget (fold lowest_port cands (mempty :: (process_key, Candidate) gomap)) k = Some c \<longrightarrow> process_key c = k"
      by (rule fold_invariant [where Q = "\<lambda>_. True"]) (auto simp: lowest_port_def split: option.splits if_splits)
    then show ?thesis using that unfolding m_def by blast
  qed
  then have "map process_key (mvalues m) = mkeys m" by (auto simp: mvalues_def mkeys_def mget_entries)
  then have "distinct (map process_key (mvalues m))" by (simp add: mkeys_def)
  moreover have "mset (map process_key (processes cands)) = mset (map process_key (mvalues m))"
    unfolding processes_def m_def mset_map mset_sort_slice ..
  ultimately show ?thesis by (metis mset_eq_imp_distinct_iff)
qed

text \<open>
  A round of the counter reads every process at most once, at most two hundred in all, and accounts for
  each reading: it ends as a sample that is handed on, as an answer that could not be read or as none.
\<close>

theorem count_round_accounts:
  "case count_round env cands c of (c', samples, visits) \<Rightarrow>
     readings c' = readings c + int (length visits) \<and> Cc_Sampled (Ct_cover c') = Cc_Sampled (Ct_cover c) + int (length samples) \<and>
     length visits \<le> 200 \<and> distinct (map (process_key \<circ> fst) visits) \<and> set (map fst visits) \<subseteq> set (processes cands)"
  using count_loop_accounts [where env = env and i = 0 and k = 0 and cands = "processes cands" and c = c and g = process_key] processes_keyed [of cands]
  by (auto simp: count_round_def maxReadingsPerRound_def split: prod.splits)

section \<open>Whom the puller visits\<close>

lemma pull_loop_visits:
  "\<exists>k \<le> maxPullsPerCycle - i. map fst (snd (pull_loop pp sink env i cs ps)) = take k cs"
proof (induction pp sink env i cs ps rule: pull_loop.induct)
  case (2 pp sink env i c cs ps)
  show ?case
  proof (cases "i \<ge> maxPullsPerCycle \<or> Ue_cancelled (env i)")
    case False
    then obtain k where "k \<le> maxPullsPerCycle - Suc i"
        "map fst (snd (pull_loop pp sink env (Suc i) cs (fst (Puller_visit pp sink (env i) c ps)))) = take k cs"
      using "2.IH" [OF False _ refl] by (metis prod.collapse)
    then show ?thesis using False by (intro exI [of _ "Suc k"]) (auto simp: case_prod_beta Let_def)
  qed (auto intro: exI [of _ 0])
qed (auto intro: exI [of _ 0])

lemma pull_loop_full:
  "\<forall>i. \<not> Ue_cancelled (env i) \<Longrightarrow> map fst (snd (pull_loop pp sink env i cs ps)) = take (maxPullsPerCycle - i) cs"
proof (induction pp sink env i cs ps rule: pull_loop.induct)
  case (2 pp sink env i c cs ps)
  show ?case
  proof (cases "i \<ge> maxPullsPerCycle")
    case False
    then have "map fst (snd (pull_loop pp sink env (Suc i) cs (fst (Puller_visit pp sink (env i) c ps)))) = take (maxPullsPerCycle - Suc i) cs"
      using "2.IH" [OF _ _ refl "2.prems"] "2.prems" by (metis prod.collapse)
    then show ?thesis using False "2.prems" by (simp add: case_prod_beta Let_def take_Cons')
  qed (use "2.prems" in auto)
qed simp

lemma Puller_visit_state:
  "lastLocked (fst (fst (Puller_visit pp sink env c ps))) t =
     (if Ue_address env \<noteq> None \<and> t = Cd_Target c then Ue_pulledAt env else lastLocked (fst ps) t)"
  by (simp add: Puller_visit_def Let_def lastLocked_def Puller_hold_def Puller_count_def case_prod_beta split: option.splits fetched.splits)

lemma pull_loop_state:
  assumes "\<forall>i. \<not> Ue_cancelled (env i) \<and> Ue_address (env i) \<noteq> None \<and> T < Ue_pulledAt (env i)"
  shows "lastLocked (fst (fst (pull_loop pp sink env i cs ps))) t = lastLocked (fst ps) t \<and> t \<notin> Cd_Target ` set (take (maxPullsPerCycle - i) cs) \<or>
    T < lastLocked (fst (fst (pull_loop pp sink env i cs ps))) t \<and> (t \<in> Cd_Target ` set (take (maxPullsPerCycle - i) cs))"
  using assms
proof (induction pp sink env i cs ps rule: pull_loop.induct)
  case (2 pp sink env i c cs ps)
  define v where "v = fst (Puller_visit pp sink (env i) c ps)"
  show ?case
  proof (cases "i \<ge> maxPullsPerCycle")
    case False
    define rest where "rest = pull_loop pp sink env (Suc i) cs v"
    have IH: "lastLocked (fst (fst rest)) t = lastLocked (fst v) t \<and> t \<notin> Cd_Target ` set (take (maxPullsPerCycle - Suc i) cs) \<or>
        T < lastLocked (fst (fst rest)) t \<and> t \<in> Cd_Target ` set (take (maxPullsPerCycle - Suc i) cs)"
      using "2.IH" [of "(v, snd (Puller_visit pp sink (env i) c ps))" v "snd (Puller_visit pp sink (env i) c ps)"] False "2.prems"
      by (auto simp: v_def rest_def)
    have "fst (pull_loop pp sink env i (c # cs) ps) = fst rest" using False "2.prems" by (simp add: v_def rest_def case_prod_beta Let_def)
    moreover have "take (maxPullsPerCycle - i) (c # cs) = c # take (maxPullsPerCycle - Suc i) cs" using False by (simp add: take_Cons')
    moreover have "lastLocked (fst v) t = (if t = Cd_Target c then Ue_pulledAt (env i) else lastLocked (fst ps) t)"
      using "2.prems" by (simp add: v_def Puller_visit_state)
    ultimately show ?thesis using IH "2.prems" by auto
  qed (use "2.prems" in auto)
qed simp

text \<open>Cycles one after the other over the same candidates, and all the visits they make.\<close>

fun pull_cycles ::
    "pprof_library \<Rightarrow> (Pulled \<Rightarrow> 's \<Rightarrow> 's \<times> bool) \<Rightarrow> (time \<times> (nat \<Rightarrow> pull_env)) list \<Rightarrow> Candidate list \<Rightarrow> Puller \<times> 's \<Rightarrow>
     (Puller \<times> 's) \<times> (Candidate \<times> outcome option) list" where
  "pull_cycles pp sink [] cs ps = (ps, [])"
| "pull_cycles pp sink (ne # rest) cs ps =
     (let (ps, v) = cycle pp sink (fst ne) (snd ne) cs ps; (ps, vs) = pull_cycles pp sink rest cs ps in (ps, v @ vs))"

text \<open>Whether every candidate is due at every cycle: none is held off when its turn may come.\<close>

fun never_held ::
    "pprof_library \<Rightarrow> (Pulled \<Rightarrow> 's \<Rightarrow> 's \<times> bool) \<Rightarrow> (time \<times> (nat \<Rightarrow> pull_env)) list \<Rightarrow> Candidate list \<Rightarrow> Puller \<times> 's \<Rightarrow> bool" where
  "never_held pp sink [] cs ps = True"
| "never_held pp sink (ne # rest) cs ps =
     (length (pull_due (fst ne) cs (fst ps)) = length cs \<and> never_held pp sink rest cs (fst (cycle pp sink (fst ne) (snd ne) cs ps)))"

text \<open>The candidates of a set that the first ones of a list sorted by age leave over.\<close>

lemma oldest_first:
  fixes key :: "'c \<Rightarrow> int"
  assumes "sorted (map key D)" and "distinct D" and "U = {c \<in> set D. key c \<le> T}"
  shows "card (U - set (take n D)) \<le> card U - n"
proof (cases "U \<subseteq> set (take n D)")
  case False
  then obtain u where u: "u \<in> U" "u \<notin> set (take n D)" by blast
  then have drop: "u \<in> set (drop n D)" using assms(3) by (metis (mono_tags, lifting) Un_iff append_take_drop_id mem_Collect_eq set_append)
  have "key x \<le> key u" if "x \<in> set (take n D)" for x
  proof -
    have "sorted (map key (take n D) @ map key (drop n D))" using assms(1) by (metis append_take_drop_id map_append)
    then show ?thesis using that drop by (auto simp: sorted_append)
  qed
  then have sub: "set (take n D) \<subseteq> U" using u(1) assms(3) by (force dest: in_set_takeD)
  have "n < length D" using drop by (metis drop_eq_Nil empty_iff empty_set not_le)
  then have "card (set (take n D)) = n" using assms(2) by (simp add: distinct_card)
  moreover have "finite U" using assms(3) by simp
  ultimately show ?thesis using sub by (simp add: card_Diff_subset)
next
  case True
  then have "U - set (take n D) = {}" by blast
  then show ?thesis by (metis card.empty le0)
qed

interpretation oldest: sort_order "\<lambda>a b. lastLocked p (Cd_Target a) < lastLocked p (Cd_Target b)" "\<lambda>c. lastLocked p (Cd_Target c)" for p
  by unfold_locales simp

definition unvisited :: "time \<Rightarrow> Candidate list \<Rightarrow> Puller \<Rightarrow> Candidate set" where
  "unvisited T cs p = {c \<in> set cs. lastLocked p (Cd_Target c) \<le> T}"

lemma cycle_progress:
  fixes pp :: pprof_library and sink :: "Pulled \<Rightarrow> 's \<Rightarrow> 's \<times> bool" and ps :: "Puller \<times> 's" and now T :: time
    and env :: "nat \<Rightarrow> pull_env" and cs :: "Candidate list"
  assumes "distinct (map Cd_Target cs)" and "length (pull_due now cs (fst ps)) = length cs"
    and "\<forall>i. \<not> Ue_cancelled (env i) \<and> Ue_address (env i) \<noteq> None \<and> T < Ue_pulledAt (env i)"
  defines "out \<equiv> cycle pp sink now env cs ps"
  shows "card (unvisited T cs (fst (fst out))) \<le> card (unvisited T cs (fst ps)) - 10"
    and "unvisited T cs (fst ps) - unvisited T cs (fst (fst out)) \<subseteq> fst ` set (snd out)"
proof -
  define D where "D = pull_due now cs (fst ps)"
  define P :: "Candidate \<Rightarrow> bool" where "P = (\<lambda>c. case mget (Pr_state (fst ps)) (Cd_Target c) of None \<Rightarrow> True | Some st \<Rightarrow> \<not> now < Ts_holdUntil st)"
  have "length (filter P cs) = length cs" using assms(2) by (simp add: pull_due_def P_def)
  then have "filter P cs = cs" by (metis filter_id_conv length_filter_less linorder_neq_iff)
  then have D: "D = sort_slice (\<lambda>a b. lastLocked (fst ps) (Cd_Target a) < lastLocked (fst ps) (Cd_Target b)) cs"
    by (simp add: D_def pull_due_def P_def [symmetric])
  have set_D: "set D = set cs" and sorted_D: "sorted (map (\<lambda>c. lastLocked (fst ps) (Cd_Target c)) D)"
    unfolding D using oldest.sorted_sort_slice by simp_all
  have "distinct cs" using assms(1) by (simp add: distinct_map)
  then have dist_D: "distinct D" unfolding D by (metis mset_eq_imp_distinct_iff mset_sort_slice)
  have visits: "map fst (snd out) = take 10 D"
    using pull_loop_full [of env pp sink 0 D ps] assms(3) by (simp add: out_def cycle_def D_def maxPullsPerCycle_def)
  have "unvisited T cs (fst (fst out)) = unvisited T cs (fst ps) - set (take 10 D)"
  proof (rule set_eqI)
    fix c
    have tgt: "Cd_Target c \<in> Cd_Target ` set (take 10 D) \<longleftrightarrow> c \<in> set (take 10 D)" if "c \<in> set cs"
      using assms(1) that set_D by (auto simp: distinct_map inj_on_def dest: in_set_takeD)
    then show "c \<in> unvisited T cs (fst (fst out)) \<longleftrightarrow> c \<in> unvisited T cs (fst ps) - set (take 10 D)"
      using pull_loop_state [OF assms(3), of pp sink 0 D ps "Cd_Target c"]
      by (auto simp: unvisited_def out_def cycle_def D_def [symmetric] maxPullsPerCycle_def)
  qed
  moreover have "card (unvisited T cs (fst ps) - set (take 10 D)) \<le> card (unvisited T cs (fst ps)) - 10"
    by (rule oldest_first [OF sorted_D dist_D]) (auto simp: unvisited_def set_D)
  ultimately show "card (unvisited T cs (fst (fst out))) \<le> card (unvisited T cs (fst ps)) - 10"
    "unvisited T cs (fst ps) - unvisited T cs (fst (fst out)) \<subseteq> fst ` set (snd out)"
    using visits by (auto simp flip: set_map)
qed

lemma cycles_progress:
  assumes "distinct (map Cd_Target cs)" and "never_held pp sink cyc cs ps"
    and "list_all (\<lambda>ne. \<forall>i. \<not> Ue_cancelled (snd ne i) \<and> Ue_address (snd ne i) \<noteq> None \<and> T < Ue_pulledAt (snd ne i)) cyc"
  shows "\<exists>U. unvisited T cs (fst ps) \<subseteq> U \<union> fst ` set (snd (pull_cycles pp sink cyc cs ps)) \<and> finite U \<and>
    card U \<le> card (unvisited T cs (fst ps)) - 10 * length cyc"
  using assms(2,3)
proof (induction cyc arbitrary: ps)
  case Nil
  then show ?case by (intro exI [of _ "unvisited T cs (fst ps)"]) (simp add: unvisited_def)
next
  case (Cons ne cyc)
  define out where "out = cycle pp sink (fst ne) (snd ne) cs ps"
  have env: "\<forall>i. \<not> Ue_cancelled (snd ne i) \<and> Ue_address (snd ne i) \<noteq> None \<and> T < Ue_pulledAt (snd ne i)" using Cons.prems(2) by simp
  have due: "length (pull_due (fst ne) cs (fst ps)) = length cs" using Cons.prems(1) by simp
  note step = cycle_progress [OF assms(1) due env, of pp sink, folded out_def]
  obtain U where U: "unvisited T cs (fst (fst out)) \<subseteq> U \<union> fst ` set (snd (pull_cycles pp sink cyc cs (fst out)))" "finite U"
      "card U \<le> card (unvisited T cs (fst (fst out))) - 10 * length cyc"
    using Cons.IH [of "fst out"] Cons.prems by (auto simp: out_def)
  have "snd (pull_cycles pp sink (ne # cyc) cs ps) = snd out @ snd (pull_cycles pp sink cyc cs (fst out))"
    by (simp add: out_def case_prod_beta Let_def)
  then show ?case using U step by (intro exI [of _ U]) (auto simp: image_Un)
qed


definition eleven_ports :: "Candidate list" where
  "eleven_ports = map (\<lambda>p. (hd webs)\<lparr>Cd_Target := (''sha256:0f'', p)\<rparr>) [6060, 6061, 6062, 6063, 6064, 6065, 6066, 6067, 6068, 6069, 6070]"

definition silent_at :: "time \<Rightarrow> time \<times> (nat \<Rightarrow> pull_env)" where
  "silent_at t =
     (t, \<lambda>_. \<lparr>Ue_cancelled = False, Ue_address = Some ''10.0.0.1:6060'', Ue_start = t, Ue_response = NoResponse, Ue_end = t, Ue_pulledAt = t, Ue_holdAt = t\<rparr>)"


end
