(* ===== verification/ClusterNodes.thy ===== *)
theory ClusterNodes
  imports Policies
begin

text \<open>
  The fleet of \<open>internal/collector/nodes.go\<close> and \<open>nodedetail.go\<close>: how a node object is reduced to the
  collected view (\<open>internal/model/node.go\<close>), and the watcher that keeps the current view of every live
  node and reports arrivals and departures.

  The record \<open>NodeInfo\<close> extends the fields that a lifecycle event passes on to its journal
  (\<open>EventJournals\<close>). The informer's events are the datatype \<open>node_event\<close>, in the order the handler
  receives them; a tombstone is the deletion of the object it holds.
\<close>

section \<open>The collected view\<close>

record NodeCondition =
  Nc_Type :: string
  Nc_Status :: string
  Nc_Reason :: string
  Nc_Since :: time

record NodeTaint =
  Nt_Key :: string
  Nt_Value :: string
  Nt_Effect :: string

record NodeInfo = NodeView +
  Ni_Region :: string
  Ni_KernelVersion :: string
  Ni_Architecture :: string
  Ni_CreatedAt :: time
  Ni_KubeletVersion :: string
  Ni_OSImage :: string
  Ni_OperatingSystem :: string
  Ni_ContainerRuntime :: string
  Ni_AllocatableCPUMilli :: int
  Ni_AllocatableMemoryBytes :: int
  Ni_AllocatableEphemeralBytes :: int
  Ni_CapacityEphemeralBytes :: int
  Ni_AllocatablePods :: int
  Ni_CapacityPods :: int
  Ni_Conditions :: "NodeCondition list"
  Ni_Taints :: "NodeTaint list"

definition SameAs :: "NodeInfo \<Rightarrow> NodeInfo \<Rightarrow> bool" where
  "SameAs n other \<longleftrightarrow> n = other"

text \<open>What the code reads of a node object. A condition's \<open>message\<close> is not read.\<close>

record conditionObject =
  Co_Type :: string
  Co_Status :: string
  Co_Reason :: string
  Co_LastTransitionTime :: time

record NodeObject =
  No_Name :: string
  No_Labels :: "(string, string) gomap"
  No_CreationTimestamp :: time
  No_KernelVersion :: string
  No_Architecture :: string
  No_KubeletVersion :: string
  No_OSImage :: string
  No_OperatingSystem :: string
  No_ContainerRuntimeVersion :: string
  No_Capacity :: ResourceList
  No_Allocatable :: ResourceList
  No_Conditions :: "conditionObject list"
  No_Taints :: "NodeTaint list"

section \<open>The reductions\<close>

definition maxNodeTerms :: nat where "maxNodeTerms = 32"

record nodeDrops =
  Nd_Conditions :: nat
  Nd_Devices :: nat
  Nd_Taints :: nat
  Nd_Values :: nat

definition noNodeDrops :: nodeDrops where
  "noNodeDrops = \<lparr>Nd_Conditions = 0, Nd_Devices = 0, Nd_Taints = 0, Nd_Values = 0\<rparr>"

definition nodeConditionTypes :: "string list" where
  "nodeConditionTypes = [''Ready'', ''MemoryPressure'', ''DiskPressure'', ''PIDPressure'', ''NetworkUnavailable'']"

definition deviceVendors :: "string list" where
  "deviceVendors = [''nvidia.com/'', ''amd.com/'', ''gpu.intel.com/'', ''habana.ai/'', ''aws.amazon.com/'', ''google.com/'', ''xilinx.com/'']"

text \<open>One step of the loop of \<open>reduceConditions\<close>.\<close>

definition keep_condition :: "conditionObject \<Rightarrow> NodeCondition list \<times> nodeDrops \<Rightarrow> NodeCondition list \<times> nodeDrops" where
  "keep_condition c st =
     (case st of (out, drops) \<Rightarrow>
        if Co_Type c \<notin> set nodeConditionTypes then (out, drops\<lparr>Nd_Conditions := Nd_Conditions drops + 1\<rparr>)
        else
          let kept = \<lparr>Nc_Type = Co_Type c, Nc_Status = Co_Status c, Nc_Reason = (if fits (Co_Reason c) then Co_Reason c else ''''),
                      Nc_Since = (if \<not> IsZero (Co_LastTransitionTime c) then Co_LastTransitionTime c else 0)\<rparr>;
              drops = (if fits (Co_Reason c) then drops else if Co_Reason c \<noteq> '''' then drops\<lparr>Nd_Values := Nd_Values drops + 1\<rparr> else drops)
          in (out @ [kept], drops))"

definition less_condition :: "NodeCondition \<Rightarrow> NodeCondition \<Rightarrow> bool" where
  "less_condition a b \<longleftrightarrow> Nc_Type a < Nc_Type b"

definition reduceConditions :: "conditionObject list \<Rightarrow> nodeDrops \<Rightarrow> NodeCondition list \<times> nodeDrops" where
  "reduceConditions conditions drops =
     (let (out, drops) = fold keep_condition conditions ([], drops) in (sort_slice less_condition out, drops))"

definition capNodeTerms :: "'t list \<Rightarrow> 't list \<times> nat" where
  "capNodeTerms terms = (if length terms \<le> maxNodeTerms then (terms, 0) else (take maxNodeTerms terms, length terms - maxNodeTerms))"

definition keep_taint :: "NodeTaint \<Rightarrow> NodeTaint list \<times> nodeDrops \<Rightarrow> NodeTaint list \<times> nodeDrops" where
  "keep_taint t st =
     (case st of (out, drops) \<Rightarrow>
        if \<not> fits (Nt_Key t) \<or> \<not> fits (Nt_Value t) then (out, drops\<lparr>Nd_Taints := Nd_Taints drops + 1\<rparr>)
        else (out @ [t], drops))"

definition less_taint :: "NodeTaint \<Rightarrow> NodeTaint \<Rightarrow> bool" where
  "less_taint a b = (if Nt_Key a \<noteq> Nt_Key b then Nt_Key a < Nt_Key b else Nt_Effect a < Nt_Effect b)"

definition reduceTaints :: "NodeTaint list \<Rightarrow> nodeDrops \<Rightarrow> NodeTaint list \<times> nodeDrops" where
  "reduceTaints taints drops =
     (let (out, drops) = fold keep_taint taints ([], drops); (out, n) = capNodeTerms (sort_slice less_taint out)
      in (out, drops\<lparr>Nd_Taints := Nd_Taints drops + n\<rparr>))"

definition isExtendedResource :: "string \<Rightarrow> bool" where
  "isExtendedResource name =
     (if CHR ''/'' \<notin> set name then False
      else let domain = takeWhile (\<lambda>c. c \<noteq> CHR ''/'') name in domain \<noteq> ''kubernetes.io'' \<and> \<not> HasSuffix domain ''.kubernetes.io'')"

definition isCollectedDevice :: "string \<Rightarrow> bool" where
  "isCollectedDevice name \<longleftrightarrow> list_ex (HasPrefix name) deviceVendors"

definition keep_device :: "ResourceList \<Rightarrow> string \<times> Quantity \<Rightarrow> NodeDevice list \<times> nodeDrops \<Rightarrow> NodeDevice list \<times> nodeDrops" where
  "keep_device allocatable e st =
     (case e of (name, quantity) \<Rightarrow> case st of (out, drops) \<Rightarrow>
        if \<not> isExtendedResource name then (out, drops)
        else if \<not> isCollectedDevice name then (out, drops\<lparr>Nd_Devices := Nd_Devices drops + 1\<rparr>)
        else (out @ [\<lparr>Device_Name = name, Device_Capacity = Q_Value quantity,
                      Device_Allocatable = (case mget allocatable name of Some a \<Rightarrow> Q_Value a | None \<Rightarrow> 0)\<rparr>], drops))"

definition less_device :: "NodeDevice \<Rightarrow> NodeDevice \<Rightarrow> bool" where
  "less_device a b \<longleftrightarrow> Device_Name a < Device_Name b"

definition reduceDevices :: "ResourceList \<Rightarrow> ResourceList \<Rightarrow> nodeDrops \<Rightarrow> NodeDevice list \<times> nodeDrops" where
  "reduceDevices capacity allocatable drops =
     (let (out, drops) = fold (keep_device allocatable) (entries capacity) ([], drops); (out, n) = capNodeTerms (sort_slice less_device out)
      in (out, drops\<lparr>Nd_Devices := Nd_Devices drops + n\<rparr>))"

section \<open>The view of one node\<close>

definition topologyLabel :: "(string, string) gomap \<Rightarrow> string \<Rightarrow> string \<Rightarrow> string" where
  "topologyLabel labels stableName betaName = (let v = mget_or '''' labels stableName in if v \<noteq> '''' then v else mget_or '''' labels betaName)"

definition instanceType :: "(string, string) gomap \<Rightarrow> string" where
  "instanceType labels =
     (let t = mget_or '''' labels ''node.kubernetes.io/instance-type'' in
      if t \<noteq> '''' then t else mget_or '''' labels ''beta.kubernetes.io/instance-type'')"

definition capacityType :: "(string, string) gomap \<Rightarrow> string" where
  "capacityType labels =
     (let label = mget_or '''' labels; karpenter = label ''karpenter.sh/capacity-type'';
          eks = label ''eks.amazonaws.com/capacityType''; aks = label ''kubernetes.azure.com/scalesetpriority'' in
      if karpenter = ''spot'' then ''spot''
      else if karpenter = ''on-demand'' \<or> karpenter = ''reserved'' then ''on-demand''
      else if eks = ''SPOT'' then ''spot''
      else if eks = ''ON_DEMAND'' then ''on-demand''
      else if label ''cloud.google.com/gke-spot'' = ''true'' \<or> label ''cloud.google.com/gke-preemptible'' = ''true'' then ''spot''
      else if aks = ''spot'' then ''spot''
      else if aks = ''regular'' then ''on-demand''
      else '''')"

text \<open>The accessors of a resource list return the zero quantity where the resource is missing.\<close>

definition resource_value :: "string \<Rightarrow> ResourceList \<Rightarrow> int" where
  "resource_value name m = (case mget m name of Some q \<Rightarrow> Q_Value q | None \<Rightarrow> 0)"

definition resource_milli :: "string \<Rightarrow> ResourceList \<Rightarrow> int" where
  "resource_milli name m = (case mget m name of Some q \<Rightarrow> Q_MilliValue q | None \<Rightarrow> 0)"

text \<open>The last loop of \<open>describeNode\<close>: the four bounded strings, each blanked and counted where too long.\<close>

definition bounded :: "string \<Rightarrow> string" where
  "bounded s = (if fits s then s else '''')"

definition oversized :: "string list \<Rightarrow> nat" where
  "oversized values = length (filter (\<lambda>s. \<not> fits s) values)"

definition describeNode :: "NodeObject \<Rightarrow> NodeInfo \<times> nodeDrops" where
  "describeNode node =
     (let labels = No_Labels node; capacity = No_Capacity node; allocatable = No_Allocatable node;
          (devices, drops) = reduceDevices capacity allocatable noNodeDrops;
          (conditions, drops) = reduceConditions (No_Conditions node) drops;
          (taints, drops) = reduceTaints (No_Taints node) drops;
          strings = [No_KubeletVersion node, No_OSImage node, No_OperatingSystem node, No_ContainerRuntimeVersion node]
      in (\<lparr>Node_Name = No_Name node, Node_InstanceType = instanceType labels, Node_CapacityType = capacityType labels,
           Node_Zone = topologyLabel labels ''topology.kubernetes.io/zone'' ''failure-domain.beta.kubernetes.io/zone'',
           Node_CapacityCPUMilli = resource_milli ''cpu'' capacity, Node_CapacityMemoryBytes = resource_value ''memory'' capacity,
           Node_Devices = devices,
           Ni_Region = topologyLabel labels ''topology.kubernetes.io/region'' ''failure-domain.beta.kubernetes.io/region'',
           Ni_KernelVersion = No_KernelVersion node, Ni_Architecture = No_Architecture node,
           Ni_CreatedAt = (if \<not> IsZero (No_CreationTimestamp node) then No_CreationTimestamp node else 0),
           Ni_KubeletVersion = bounded (No_KubeletVersion node), Ni_OSImage = bounded (No_OSImage node),
           Ni_OperatingSystem = bounded (No_OperatingSystem node), Ni_ContainerRuntime = bounded (No_ContainerRuntimeVersion node),
           Ni_AllocatableCPUMilli = resource_milli ''cpu'' allocatable, Ni_AllocatableMemoryBytes = resource_value ''memory'' allocatable,
           Ni_AllocatableEphemeralBytes = resource_value ''ephemeral-storage'' allocatable,
           Ni_CapacityEphemeralBytes = resource_value ''ephemeral-storage'' capacity,
           Ni_AllocatablePods = resource_value ''pods'' allocatable, Ni_CapacityPods = resource_value ''pods'' capacity,
           Ni_Conditions = conditions, Ni_Taints = taints\<rparr>,
          drops\<lparr>Nd_Values := Nd_Values drops + oversized strings\<rparr>))"

section \<open>The watcher\<close>

record NodeWatcher =
  Nw_lifecycle :: bool
  Nw_since :: time
  Nw_drops :: nodeDrops
  Nw_nodes :: "(string, NodeInfo) gomap"

definition NewNodeWatcher :: "time \<Rightarrow> NodeWatcher" where
  "NewNodeWatcher now = \<lparr>Nw_lifecycle = False, Nw_since = now, Nw_drops = noNodeDrops, Nw_nodes = mempty\<rparr>"

definition OnNodeLifecycle :: "NodeWatcher \<Rightarrow> NodeWatcher" where
  "OnNodeLifecycle w = w\<lparr>Nw_lifecycle := True\<rparr>"

definition Names :: "NodeWatcher \<Rightarrow> string list" where
  "Names w = sort_slice (<) (mkeys (Nw_nodes w))"

definition less_node :: "NodeInfo \<Rightarrow> NodeInfo \<Rightarrow> bool" where
  "less_node a b \<longleftrightarrow> Node_Name a < Node_Name b"

definition Nodes :: "NodeWatcher \<Rightarrow> NodeInfo list" where
  "Nodes w = sort_slice less_node (mvalues (Nw_nodes w))"

definition add_drops :: "nodeDrops \<Rightarrow> nodeDrops \<Rightarrow> nodeDrops" where
  "add_drops a b =
     \<lparr>Nd_Conditions = Nd_Conditions a + Nd_Conditions b, Nd_Devices = Nd_Devices a + Nd_Devices b,
      Nd_Taints = Nd_Taints a + Nd_Taints b, Nd_Values = Nd_Values a + Nd_Values b\<rparr>"

text \<open>What the two callbacks receive.\<close>

datatype node_report = Lifecycle NodeLifecycle | Observed NodeInfo

definition lifecycle_view :: "NodeInfo \<Rightarrow> NodeView" where
  "lifecycle_view info = NodeView.truncate info"

definition reportJoin :: "NodeInfo \<Rightarrow> NodeWatcher \<Rightarrow> node_report list" where
  "reportJoin info w =
     (if \<not> Nw_lifecycle w \<or> IsZero (Ni_CreatedAt info) \<or> \<not> Nw_since w < Ni_CreatedAt info then []
      else [Lifecycle \<lparr>NL_Node = lifecycle_view info, NL_Joined = True, NL_At = Ni_CreatedAt info, NL_Observed = False\<rparr>])"

definition upsert :: "NodeObject \<Rightarrow> NodeWatcher \<Rightarrow> NodeWatcher \<times> node_report list" where
  "upsert node w =
     (let (info, drops) = describeNode node;
          prev = mget (Nw_nodes w) (Node_Name info);
          w = w\<lparr>Nw_drops := add_drops (Nw_drops w) drops, Nw_nodes := mput (Node_Name info) info (Nw_nodes w)\<rparr>
      in (w, (if prev = None then reportJoin info w else []) @
             (case prev of None \<Rightarrow> [Observed info] | Some p \<Rightarrow> if SameAs p info then [] else [Observed info])))"

definition reportDeparture :: "time \<Rightarrow> string \<Rightarrow> NodeWatcher \<Rightarrow> NodeWatcher \<times> node_report list" where
  "reportDeparture now name w =
     (let held = mget (Nw_nodes w) name; w = w\<lparr>Nw_nodes := mdel name (Nw_nodes w)\<rparr> in
      case held of
        None \<Rightarrow> (w, [])
      | Some info \<Rightarrow>
          if \<not> Nw_lifecycle w then (w, [])
          else (w, [Lifecycle \<lparr>NL_Node = lifecycle_view info, NL_Joined = False, NL_At = now, NL_Observed = True\<rparr>]))"

text \<open>The handler: an event and the instant the watcher's clock shows while it is handled.\<close>

datatype node_event = NodeAdded NodeObject | NodeUpdated NodeObject | NodeDeleted NodeObject

fun handleNode :: "time \<times> node_event \<Rightarrow> NodeWatcher \<Rightarrow> NodeWatcher \<times> node_report list" where
  "handleNode (now, NodeAdded node) w = upsert node w"
| "handleNode (now, NodeUpdated node) w = upsert node w"
| "handleNode (now, NodeDeleted node) w = reportDeparture now (No_Name node) w"

fun watch_nodes :: "(time \<times> node_event) list \<Rightarrow> NodeWatcher \<Rightarrow> NodeWatcher \<times> node_report list" where
  "watch_nodes [] w = (w, [])"
| "watch_nodes (e # es) w = (let (w, r) = handleNode e w; (w, rs) = watch_nodes es w in (w, r @ rs))"

section \<open>What the view carries\<close>

interpretation conditions: sort_order less_condition Nc_Type
  by unfold_locales (simp add: less_condition_def)

interpretation devices: sort_order less_device Device_Name
  by unfold_locales (simp add: less_device_def)

interpretation taints: sort_order less_taint "\<lambda>t. (Nt_Key t, Nt_Effect t)"
  by unfold_locales (auto simp: less_taint_def)

definition condition_allowed :: "NodeCondition \<Rightarrow> bool" where
  "condition_allowed c \<longleftrightarrow> Nc_Type c \<in> set nodeConditionTypes \<and> length (Nc_Reason c) \<le> 128"

definition taint_allowed :: "NodeTaint \<Rightarrow> bool" where
  "taint_allowed t \<longleftrightarrow> length (Nt_Key t) \<le> 128 \<and> length (Nt_Value t) \<le> 128"

definition device_allowed :: "NodeDevice \<Rightarrow> bool" where
  "device_allowed d \<longleftrightarrow> isExtendedResource (Device_Name d) \<and> isCollectedDevice (Device_Name d)"

lemmas fits_defs = fits_def maxPlacementValue_def

lemma keep_condition_step:
  "list_all condition_allowed (fst (fold keep_condition cs (out, d))) = list_all condition_allowed out \<and>
   length (fst (fold keep_condition cs (out, d))) + Nd_Conditions (snd (fold keep_condition cs (out, d))) = length out + Nd_Conditions d + length cs \<and>
   Nd_Devices (snd (fold keep_condition cs (out, d))) = Nd_Devices d \<and> Nd_Taints (snd (fold keep_condition cs (out, d))) = Nd_Taints d"
proof (induction cs arbitrary: out d)
  case (Cons c cs)
  show ?case using Cons.IH by (cases "Co_Type c \<in> set nodeConditionTypes") (simp_all add: keep_condition_def condition_allowed_def fits_defs Let_def)
qed simp

lemma keep_taint_step:
  "list_all taint_allowed (fst (fold keep_taint ts (out, d))) = list_all taint_allowed out \<and>
   length (fst (fold keep_taint ts (out, d))) + Nd_Taints (snd (fold keep_taint ts (out, d))) = length out + Nd_Taints d + length ts \<and>
   Nd_Devices (snd (fold keep_taint ts (out, d))) = Nd_Devices d \<and> Nd_Conditions (snd (fold keep_taint ts (out, d))) = Nd_Conditions d"
proof (induction ts arbitrary: out d)
  case (Cons t ts)
  show ?case using Cons.IH by (cases "fits (Nt_Key t) \<and> fits (Nt_Value t)") (auto simp: keep_taint_def taint_allowed_def fits_defs)
qed simp

lemma keep_device_step:
  "list_all device_allowed (fst (fold (keep_device al) es (out, d))) = list_all device_allowed out \<and>
   length (fst (fold (keep_device al) es (out, d))) + Nd_Devices (snd (fold (keep_device al) es (out, d))) =
     length out + Nd_Devices d + length (filter (isExtendedResource \<circ> fst) es) \<and>
   Nd_Conditions (snd (fold (keep_device al) es (out, d))) = Nd_Conditions d \<and> Nd_Taints (snd (fold (keep_device al) es (out, d))) = Nd_Taints d"
proof (induction es arbitrary: out d)
  case (Cons e es)
  obtain name q where e: "e = (name, q)" by (cases e)
  show ?case using Cons.IH by (cases "isExtendedResource name"; cases "isCollectedDevice name") (simp_all add: e keep_device_def device_allowed_def)
qed simp

lemma capNodeTerms_facts:
  "length (fst (capNodeTerms ts)) \<le> maxNodeTerms" "length (fst (capNodeTerms ts)) + snd (capNodeTerms ts) = length ts"
  "\<exists>n. fst (capNodeTerms ts) = take n ts"
  unfolding capNodeTerms_def by (auto intro: exI [of _ "length ts"])

lemma list_all_perm: "mset xs = mset ys \<Longrightarrow> list_all P xs = list_all P ys"
  by (metis list_all_iff set_mset_mset)

lemma list_all_cap: "list_all P ts \<Longrightarrow> list_all P (fst (capNodeTerms ts))"
  using capNodeTerms_facts(3) [of ts] by (metis in_set_takeD list_all_iff)

lemma sorted_cap: "sorted (map k ts) \<Longrightarrow> sorted (map k (fst (capNodeTerms ts)))"
  using capNodeTerms_facts(3) [of ts] by (metis sorted_wrt_take take_map)

lemma reduceConditions_facts:
  "list_all condition_allowed (fst (reduceConditions cs d))"
  "sorted (map Nc_Type (fst (reduceConditions cs d)))"
  "length (fst (reduceConditions cs d)) + Nd_Conditions (snd (reduceConditions cs d)) = Nd_Conditions d + length cs"
  "Nd_Devices (snd (reduceConditions cs d)) = Nd_Devices d" "Nd_Taints (snd (reduceConditions cs d)) = Nd_Taints d"
  using keep_condition_step [of cs "[]" d] conditions.sorted_sort_slice [of "fst (fold keep_condition cs ([], d))"]
  by (simp_all add: reduceConditions_def case_prod_beta Let_def list_all_perm [OF mset_sort_slice])

lemma reduceTaints_facts:
  "list_all taint_allowed (fst (reduceTaints ts d))" "length (fst (reduceTaints ts d)) \<le> maxNodeTerms"
  "sorted (map (\<lambda>t. (Nt_Key t, Nt_Effect t)) (fst (reduceTaints ts d)))"
  "length (fst (reduceTaints ts d)) + Nd_Taints (snd (reduceTaints ts d)) = Nd_Taints d + length ts"
  "Nd_Devices (snd (reduceTaints ts d)) = Nd_Devices d" "Nd_Conditions (snd (reduceTaints ts d)) = Nd_Conditions d"
proof -
  let ?out = "fst (fold keep_taint ts ([], d))"
  note step = keep_taint_step [of ts "[]" d]
  note cap = capNodeTerms_facts [of "sort_slice less_taint ?out"]
  show "list_all taint_allowed (fst (reduceTaints ts d))" "length (fst (reduceTaints ts d)) \<le> maxNodeTerms"
    "sorted (map (\<lambda>t. (Nt_Key t, Nt_Effect t)) (fst (reduceTaints ts d)))"
    "length (fst (reduceTaints ts d)) + Nd_Taints (snd (reduceTaints ts d)) = Nd_Taints d + length ts"
    "Nd_Devices (snd (reduceTaints ts d)) = Nd_Devices d" "Nd_Conditions (snd (reduceTaints ts d)) = Nd_Conditions d"
    using step cap by (simp_all add: reduceTaints_def case_prod_beta Let_def list_all_cap sorted_cap taints.sorted_sort_slice list_all_perm [OF mset_sort_slice])
qed

lemma reduceDevices_facts:
  "list_all device_allowed (fst (reduceDevices cap al d))" "length (fst (reduceDevices cap al d)) \<le> maxNodeTerms"
  "sorted (map Device_Name (fst (reduceDevices cap al d)))"
  "length (fst (reduceDevices cap al d)) + Nd_Devices (snd (reduceDevices cap al d)) = Nd_Devices d + length (filter (isExtendedResource \<circ> fst) (entries cap))"
  "Nd_Conditions (snd (reduceDevices cap al d)) = Nd_Conditions d" "Nd_Taints (snd (reduceDevices cap al d)) = Nd_Taints d"
proof -
  let ?out = "fst (fold (keep_device al) (entries cap) ([], d))"
  note step = keep_device_step [of al "entries cap" "[]" d]
  note bound = capNodeTerms_facts [of "sort_slice less_device ?out"]
  show "list_all device_allowed (fst (reduceDevices cap al d))" "length (fst (reduceDevices cap al d)) \<le> maxNodeTerms"
    "sorted (map Device_Name (fst (reduceDevices cap al d)))"
    "length (fst (reduceDevices cap al d)) + Nd_Devices (snd (reduceDevices cap al d)) = Nd_Devices d + length (filter (isExtendedResource \<circ> fst) (entries cap))"
    "Nd_Conditions (snd (reduceDevices cap al d)) = Nd_Conditions d" "Nd_Taints (snd (reduceDevices cap al d)) = Nd_Taints d"
    using step bound by (simp_all add: reduceDevices_def case_prod_beta Let_def list_all_cap sorted_cap devices.sorted_sort_slice list_all_perm [OF mset_sort_slice])
qed

lemma describeNode_lists:
  "Node_Devices (fst (describeNode n)) = fst (reduceDevices (No_Capacity n) (No_Allocatable n) noNodeDrops)"
  "Ni_Conditions (fst (describeNode n)) = fst (reduceConditions (No_Conditions n) (snd (reduceDevices (No_Capacity n) (No_Allocatable n) noNodeDrops)))"
  "Ni_Taints (fst (describeNode n)) =
     fst (reduceTaints (No_Taints n) (snd (reduceConditions (No_Conditions n) (snd (reduceDevices (No_Capacity n) (No_Allocatable n) noNodeDrops)))))"
  by (simp_all add: describeNode_def case_prod_beta Let_def)

text \<open>
  The view of a node carries what the allow-lists admit and nothing else: conditions of the five known
  types, extended resources of the known vendors, and no operator-written string longer than 128
  bytes among the reasons, taints and version strings; no more than 32 taints and devices; and each
  list in a fixed order, so that equal nodes give equal views.
\<close>

theorem node_view_allow_listed:
  "let info = fst (describeNode n) in
     list_all condition_allowed (Ni_Conditions info) \<and> sorted (map Nc_Type (Ni_Conditions info)) \<and>
     list_all taint_allowed (Ni_Taints info) \<and> length (Ni_Taints info) \<le> 32 \<and> sorted (map (\<lambda>t. (Nt_Key t, Nt_Effect t)) (Ni_Taints info)) \<and>
     list_all device_allowed (Node_Devices info) \<and> length (Node_Devices info) \<le> 32 \<and> sorted (map Device_Name (Node_Devices info)) \<and>
     list_all (\<lambda>s. length s \<le> 128) [Ni_KubeletVersion info, Ni_OSImage info, Ni_OperatingSystem info, Ni_ContainerRuntime info]"
  unfolding Let_def describeNode_lists
  using reduceConditions_facts reduceTaints_facts reduceDevices_facts unfolding maxNodeTerms_def
  by (simp add: describeNode_def case_prod_beta Let_def bounded_def fits_defs)

text \<open>
  Nothing the reductions refuse goes uncounted: the conditions, taints and devices kept and the counts
  of those dropped make up the conditions and taints of the object and the extended resources of its
  capacity.
\<close>

theorem node_reductions_account:
  "case describeNode n of (info, drops) \<Rightarrow>
     length (Ni_Conditions info) + Nd_Conditions drops = length (No_Conditions n) \<and>
     length (Ni_Taints info) + Nd_Taints drops = length (No_Taints n) \<and>
     length (Node_Devices info) + Nd_Devices drops = length (filter (isExtendedResource \<circ> fst) (entries (No_Capacity n)))"
proof -
  let ?d1 = "snd (reduceDevices (No_Capacity n) (No_Allocatable n) noNodeDrops)"
  let ?d2 = "snd (reduceConditions (No_Conditions n) ?d1)"
  let ?d3 = "snd (reduceTaints (No_Taints n) ?d2)"
  have drops: "Nd_Conditions (snd (describeNode n)) = Nd_Conditions ?d3" "Nd_Taints (snd (describeNode n)) = Nd_Taints ?d3"
    "Nd_Devices (snd (describeNode n)) = Nd_Devices ?d3" by (simp_all add: describeNode_def case_prod_beta Let_def)
  show ?thesis unfolding case_prod_beta drops describeNode_lists
    using reduceConditions_facts [of "No_Conditions n" ?d1] reduceTaints_facts [of "No_Taints n" ?d2]
      reduceDevices_facts [of "No_Capacity n" "No_Allocatable n" noNodeDrops] by (simp add: noNodeDrops_def)
qed

text \<open>The kernel version is passed on at whatever length the node reports it.\<close>

lemma kernel_version_unbounded: "Ni_KernelVersion (fst (describeNode n)) = No_KernelVersion n"
  by (simp add: describeNode_def case_prod_beta Let_def)

section \<open>The current fleet\<close>

fun event_node :: "node_event \<Rightarrow> NodeObject" where
  "event_node (NodeAdded n) = n"
| "event_node (NodeUpdated n) = n"
| "event_node (NodeDeleted n) = n"

text \<open>The abstract fleet: a partial map from names to objects, which additions and updates set and deletions clear.\<close>

fun fleet_step :: "node_event \<Rightarrow> (string \<Rightarrow> NodeObject option) \<Rightarrow> string \<Rightarrow> NodeObject option" where
  "fleet_step (NodeAdded n) m = m(No_Name n \<mapsto> n)"
| "fleet_step (NodeUpdated n) m = m(No_Name n \<mapsto> n)"
| "fleet_step (NodeDeleted n) m = m(No_Name n := None)"

definition fleet :: "(time \<times> node_event) list \<Rightarrow> (string \<Rightarrow> NodeObject option) \<Rightarrow> string \<Rightarrow> NodeObject option" where
  "fleet es m = fold (fleet_step \<circ> snd) es m"

definition views :: "(string \<Rightarrow> NodeObject option) \<Rightarrow> string \<Rightarrow> NodeInfo option" where
  "views m name = map_option (fst \<circ> describeNode) (m name)"

lemma describeNode_Name [simp]: "Node_Name (fst (describeNode n)) = No_Name n"
  by (simp add: describeNode_def case_prod_beta Let_def)

lemma handleNode_nodes:
  "Nw_nodes (fst (handleNode (now, e) w)) =
     (case e of NodeDeleted n \<Rightarrow> mdel (No_Name n) (Nw_nodes w) | _ \<Rightarrow> mput (No_Name (event_node e)) (fst (describeNode (event_node e))) (Nw_nodes w))"
  by (cases e) (auto simp: upsert_def reportDeparture_def case_prod_beta Let_def split: option.splits)

lemma handleNode_constants:
  "Nw_lifecycle (fst (handleNode te w)) = Nw_lifecycle w" "Nw_since (fst (handleNode te w)) = Nw_since w"
  by (cases te; cases "snd te"; auto simp: upsert_def reportDeparture_def case_prod_beta Let_def split: option.splits)+

lemma watch_nodes_Cons [simp]:
  "fst (watch_nodes (e # es) w) = fst (watch_nodes es (fst (handleNode e w)))"
  "snd (watch_nodes (e # es) w) = snd (handleNode e w) @ snd (watch_nodes es (fst (handleNode e w)))"
  by (simp_all add: case_prod_beta Let_def)

declare watch_nodes.simps(2) [simp del]

lemma watch_nodes_refines:
  "mget (Nw_nodes w) = views m \<Longrightarrow> mget (Nw_nodes (fst (watch_nodes es w))) = views (fleet es m)"
proof (induction es arbitrary: w m)
  case (Cons te es)
  obtain now e where te: "te = (now, e)" by (cases te)
  have "mget (Nw_nodes (fst (handleNode (now, e) w))) = views (fleet_step e m)"
    using Cons.prems unfolding handleNode_nodes by (cases e) (auto simp: views_def fun_eq_iff)
  from Cons.IH [OF this] show ?case by (simp add: te fleet_def)
qed (simp add: fleet_def)

interpretation node_names: sort_order less_node Node_Name
  by unfold_locales (simp add: less_node_def)

interpretation names: sort_order "(<) :: string \<Rightarrow> string \<Rightarrow> bool" "\<lambda>s. s"
  by unfold_locales simp

lemma names_of_values:
  assumes "\<And>k v. mget m k = Some v \<Longrightarrow> Node_Name v = k"
  shows "map Node_Name (mvalues m) = mkeys m"
  using assms by (auto simp: mvalues_def mkeys_def mget_entries)

definition named_by_key :: "NodeWatcher \<Rightarrow> bool" where
  "named_by_key w \<longleftrightarrow> (\<forall>k v. mget (Nw_nodes w) k = Some v \<longrightarrow> Node_Name v = k)"

lemma handleNode_keyed: "named_by_key w \<Longrightarrow> named_by_key (fst (handleNode te w))"
  by (cases te; cases "snd te") (auto simp: named_by_key_def handleNode_nodes simp del: handleNode.simps)

lemma watch_nodes_keyed: "named_by_key w \<Longrightarrow> named_by_key (fst (watch_nodes es w))"
  by (induction es arbitrary: w) (simp_all add: handleNode_keyed)

text \<open>
  C28. The watcher holds the fleet as it is. Whatever the informer reports, the nodes it lists are the
  views of the objects last added or updated and not deleted since, each name once and in order, and
  the usage poller's targets are exactly their names.
\<close>

theorem fleet_is_current:
  "let w = fst (watch_nodes es (NewNodeWatcher t)); live = fleet es Map.empty in
     set (Nodes w) = (fst \<circ> describeNode) ` ran live \<and> Names w = map Node_Name (Nodes w) \<and> sorted (Names w) \<and> distinct (Names w) \<and> set (Names w) = dom live"
proof -
  define w where "w = fst (watch_nodes es (NewNodeWatcher t))"
  define live where "live = fleet es Map.empty"
  have held: "mget (Nw_nodes w) = views live"
    unfolding w_def live_def by (rule watch_nodes_refines) (simp add: NewNodeWatcher_def views_def fun_eq_iff)
  have vals: "map Node_Name (mvalues (Nw_nodes w)) = mkeys (Nw_nodes w)"
    by (intro names_of_values) (use watch_nodes_keyed [of "NewNodeWatcher t" es] in \<open>auto simp: named_by_key_def w_def NewNodeWatcher_def\<close>)
  then have nodes: "Nodes w = mvalues (Nw_nodes w)"
    unfolding Nodes_def node_names.sort_slice_sort_key by (intro sort_key_id_if_sorted) simp
  have names: "Names w = mkeys (Nw_nodes w)"
    unfolding Names_def names.sort_slice_sort_key by (intro sort_key_id_if_sorted) simp
  have "set (Nodes w) = (fst \<circ> describeNode) ` ran live"
    unfolding nodes by (force simp: mvalues_iff held views_def ran_def)
  moreover have "set (Names w) = dom live" unfolding names by (auto simp: mkeys_iff held views_def)
  ultimately show ?thesis using vals names nodes by (simp flip: w_def live_def)
qed

section \<open>Arrivals and departures\<close>

fun lifecycles :: "node_report list \<Rightarrow> NodeLifecycle list" where
  "lifecycles [] = []"
| "lifecycles (Lifecycle l # rs) = l # lifecycles rs"
| "lifecycles (Observed i # rs) = lifecycles rs"

lemma lifecycles_append [simp]: "lifecycles (rs @ rs') = lifecycles rs @ lifecycles rs'"
  by (induction rs rule: lifecycles.induct) simp_all

definition lifecycle_name :: "NodeLifecycle \<Rightarrow> string" where
  "lifecycle_name l = Node_Name (NL_Node l)"

lemma lifecycle_view_Name [simp]: "Node_Name (lifecycle_view i) = Node_Name i"
  by (simp add: lifecycle_view_def NodeView.defs)

text \<open>One event reports at most one arrival, of a node not held before, or one departure, of a node held before.\<close>

lemma handleNode_lifecycles:
  assumes "Nw_lifecycle w" and "named_by_key w"
  shows "lifecycles (snd (handleNode (now, e) w)) = [] \<and> (\<forall>n. e = NodeDeleted n \<longrightarrow> mget (Nw_nodes w) (No_Name n) = None) \<or>
    (\<exists>l. lifecycles (snd (handleNode (now, e) w)) = [l] \<and> lifecycle_name l = No_Name (event_node e) \<and>
       (if NL_Joined l then mget (Nw_nodes w) (lifecycle_name l) = None \<and> Nw_since w < NL_At l \<and> (\<forall>n. e \<noteq> NodeDeleted n)
        else e = NodeDeleted (event_node e)))"
proof (cases e)
  case (NodeDeleted n)
  then show ?thesis using assms
    by (cases "mget (Nw_nodes w) (No_Name n)") (auto simp: reportDeparture_def lifecycle_name_def named_by_key_def Let_def intro!: exI)
qed (use assms in \<open>auto simp: upsert_def reportJoin_def lifecycle_name_def case_prod_beta Let_def split: option.splits\<close>)

definition next_about :: "string \<Rightarrow> NodeLifecycle list \<Rightarrow> NodeLifecycle option" where
  "next_about name ls = List.find (\<lambda>l. lifecycle_name l = name) ls"

lemma next_about_simps [simp]:
  "next_about name [] = None" "next_about name (l # ls) = (if lifecycle_name l = name then Some l else next_about name ls)"
  by (simp_all add: next_about_def)

text \<open>While a node is held, the next report about it is a departure.\<close>

lemma held_then_departs:
  assumes "Nw_lifecycle w" and "named_by_key w" and "mget (Nw_nodes w) name \<noteq> None"
    and "next_about name (lifecycles (snd (watch_nodes es w))) = Some b"
  shows "\<not> NL_Joined b"
  using assms
proof (induction es arbitrary: w)
  case (Cons te es)
  obtain now e where te: "te = (now, e)" by (cases te)
  let ?w = "fst (handleNode te w)"
  have keep: "Nw_lifecycle ?w" "named_by_key ?w" using Cons.prems(1,2) by (simp_all add: handleNode_constants handleNode_keyed)
  have "lifecycles (snd (handleNode te w)) = [] \<and> mget (Nw_nodes ?w) name \<noteq> None \<or>
    (\<exists>l. lifecycles (snd (handleNode te w)) = [l] \<and> (lifecycle_name l = name \<and> \<not> NL_Joined l \<or> lifecycle_name l \<noteq> name \<and> mget (Nw_nodes ?w) name \<noteq> None))"
    using handleNode_lifecycles [OF Cons.prems(1,2), of now e] Cons.prems(3) unfolding te handleNode_nodes
    by (cases e) (auto split: if_splits simp del: handleNode.simps)
  then show ?case using Cons.IH [OF keep] Cons.prems(4) by auto
qed simp

lemma join_then_departs:
  assumes "Nw_lifecycle w" and "named_by_key w" and "lifecycles (snd (watch_nodes es w)) = xs @ a # rest" and "NL_Joined a"
  shows "Nw_since w < NL_At a \<and> (\<forall>b. next_about (lifecycle_name a) rest = Some b \<longrightarrow> \<not> NL_Joined b)"
  using assms
proof (induction es arbitrary: w xs)
  case (Cons te es)
  obtain now e where te: "te = (now, e)" by (cases te)
  let ?w = "fst (handleNode te w)"
  have keep: "Nw_lifecycle ?w" "named_by_key ?w" "Nw_since ?w = Nw_since w" using Cons.prems(1,2) by (simp_all add: handleNode_constants handleNode_keyed)
  show ?case
  proof (cases "lifecycles (snd (handleNode te w))")
    case Nil
    then show ?thesis using Cons.IH [OF keep(1,2)] Cons.prems(3,4) keep(3) by simp
  next
    case log: (Cons l ls)
    then have ls: "ls = []" and l: "if NL_Joined l then Nw_since w < NL_At l \<and> mget (Nw_nodes ?w) (lifecycle_name l) \<noteq> None else True"
      using handleNode_lifecycles [OF Cons.prems(1,2), of now e] unfolding te handleNode_nodes
      by (cases e; auto split: if_splits simp del: handleNode.simps)+
    show ?thesis
    proof (cases xs)
      case Nil
      then have "a = l" "lifecycles (snd (watch_nodes es ?w)) = rest" using Cons.prems(3) log ls by auto
      then show ?thesis using held_then_departs [OF keep(1,2)] l Cons.prems(4) by auto
    next
      case (Cons x xs')
      then show ?thesis using Cons.IH [OF keep(1,2), of xs'] Cons.prems(3,4) keep(3) log ls by simp
    qed
  qed
qed simp


definition bare_node :: "string \<Rightarrow> time \<Rightarrow> NodeObject" where
  "bare_node name at =
     \<lparr>No_Name = name, No_Labels = mempty, No_CreationTimestamp = at, No_KernelVersion = ''6.8'', No_Architecture = ''arm64'', No_KubeletVersion = '''',
      No_OSImage = '''', No_OperatingSystem = '''', No_ContainerRuntimeVersion = '''', No_Capacity = mempty, No_Allocatable = mempty, No_Conditions = [], No_Taints = []\<rparr>"

definition replaced_node :: "(time \<times> node_event) list" where
  "replaced_node = [(100, NodeAdded (bare_node ''n1'' 90)), (101, NodeAdded (bare_node ''n2'' 101)), (105, NodeDeleted (bare_node ''n2'' 101)), (107, NodeAdded (bare_node ''n2'' 106))]"


end
