(* ===== verification/Startup.thy ===== *)
theory Startup
  imports NodeProfile
begin

text \<open>
  What the agent decides before it collects anything: the role its arguments name (\<open>cmd/agent/main.go\<close>),
  the two configuration schemas with their defaults and their validation (\<open>internal/config/config.go\<close>,
  \<open>shape.go\<close>), the settings the node-intake receiver refuses to start without, the kernel gate of the
  profiler (\<open>internal/ebpfgate/probe.go\<close>) and the heartbeat its liveness reads
  (\<open>internal/health/heartbeat.go\<close>).

  The YAML decoder and \<open>url.Parse\<close> are parameters, of which the code uses the decoded value and the
  scheme and host. The parsing of listen addresses (\<open>net.SplitHostPort\<close>, \<open>net.ParseIP\<close>) is written
  out, because a security decision rests on it.
\<close>

section \<open>The role\<close>

definition roleController :: string where "roleController = ''controller''"

definition parseRole :: "string list \<Rightarrow> string \<times> string list" where
  "parseRole args =
     (case args of
        [] \<Rightarrow> (roleController, args)
      | a # rest \<Rightarrow> if \<not> HasPrefix a ''-'' then (a, rest) else (roleController, args))"

section \<open>The configuration schemas\<close>

record NamespaceFilters =
  Nf_Allow :: "string list"
  Nf_Deny :: "string list"

record SpoolSettings =
  Ss_Dir :: string
  Ss_MaxAgeHours :: int

record NodeIntakeSettings =
  Is_Enabled :: bool
  Is_ListenAddress :: string
  Is_Audience :: string
  Is_ExpectedSubject :: string

record PprofDiscovery =
  Pd_Enabled :: bool
  Pd_Pull :: bool

record ControllerProfiling =
  Cp_Enabled :: bool
  Cp_TopN :: int
  Cp_Pprof :: PprofDiscovery
  Cp_AllowedModulePrefixes :: "string list"
  Cp_ThirdPartySymbols :: string

record AgentConfig =
  Cfg_Filters :: NamespaceFilters
  Cfg_Spool :: SpoolSettings
  Cfg_BaseURL :: string
  Cfg_NodeIntake :: NodeIntakeSettings
  Cfg_Profiling :: ControllerProfiling
  Cfg_HealthAddress :: string
  Cfg_CollectionAddress :: string

record NodeProfiling =
  Np_AllowedModulePrefixes :: "string list"
  Np_ThirdPartySymbols :: string
  Np_CaptureDurationSeconds :: int
  Np_IntervalSeconds :: int
  Np_OverheadCeilingPercent :: int

definition DefaultProfilingTopN :: int where "DefaultProfilingTopN = 5"
definition DefaultProfilingCaptureDurationSeconds :: int where "DefaultProfilingCaptureDurationSeconds = 60"
definition DefaultProfilingIntervalSeconds :: int where "DefaultProfilingIntervalSeconds = 300"
definition DefaultProfilingOverheadCeilingPercent :: int where "DefaultProfilingOverheadCeilingPercent = 5"
definition ThirdPartySymbolsDrop :: string where "ThirdPartySymbolsDrop = ''drop''"
definition ThirdPartySymbolsKeep :: string where "ThirdPartySymbolsKeep = ''keep''"

definition zeroConfig :: AgentConfig where
  "zeroConfig =
     \<lparr>Cfg_Filters = \<lparr>Nf_Allow = [], Nf_Deny = []\<rparr>, Cfg_Spool = \<lparr>Ss_Dir = [], Ss_MaxAgeHours = 0\<rparr>, Cfg_BaseURL = [],
      Cfg_NodeIntake = \<lparr>Is_Enabled = False, Is_ListenAddress = [], Is_Audience = [], Is_ExpectedSubject = []\<rparr>,
      Cfg_Profiling = \<lparr>Cp_Enabled = False, Cp_TopN = 0, Cp_Pprof = \<lparr>Pd_Enabled = False, Pd_Pull = False\<rparr>,
        Cp_AllowedModulePrefixes = [], Cp_ThirdPartySymbols = []\<rparr>,
      Cfg_HealthAddress = [], Cfg_CollectionAddress = []\<rparr>"

definition ControllerProfiling_Normalized :: "ControllerProfiling \<Rightarrow> ControllerProfiling" where
  "ControllerProfiling_Normalized p = (if Cp_TopN p \<le> 0 then p\<lparr>Cp_TopN := DefaultProfilingTopN\<rparr> else p)"

definition NodeProfiling_Normalized :: "NodeProfiling \<Rightarrow> NodeProfiling" where
  "NodeProfiling_Normalized p =
     (let p = (if Np_ThirdPartySymbols p = [] then p\<lparr>Np_ThirdPartySymbols := ThirdPartySymbolsDrop\<rparr> else p);
          p = (if Np_CaptureDurationSeconds p \<le> 0 then p\<lparr>Np_CaptureDurationSeconds := DefaultProfilingCaptureDurationSeconds\<rparr> else p);
          p = (if Np_IntervalSeconds p \<le> 0 then p\<lparr>Np_IntervalSeconds := DefaultProfilingIntervalSeconds\<rparr> else p)
      in if Np_OverheadCeilingPercent p \<le> 0 then p\<lparr>Np_OverheadCeilingPercent := DefaultProfilingOverheadCeilingPercent\<rparr> else p)"

section \<open>Listen addresses\<close>

text \<open>\<open>net.SplitHostPort\<close>; every error is \<^const>\<open>None\<close>.\<close>

definition last_colon :: "string \<Rightarrow> nat option" where
  "last_colon s = (if CHR '':'' \<in> set s then Some (length s - 1 - length (takeWhile (\<lambda>c. c \<noteq> CHR '':'') (rev s))) else None)"

definition SplitHostPort :: "string \<Rightarrow> (string \<times> string) option" where
  "SplitHostPort hostport =
     (case last_colon hostport of
        None \<Rightarrow> None
      | Some i \<Rightarrow>
          if hostport ! 0 = CHR ''['' then
            if CHR '']'' \<notin> set hostport then None
            else
              let e = length (takeWhile (\<lambda>c. c \<noteq> CHR '']'') hostport) in
              if e + 1 \<noteq> i then None
              else if CHR ''['' \<in> set (drop 1 hostport) \<or> CHR '']'' \<in> set (drop (e + 1) hostport) then None
              else Some (take (e - 1) (drop 1 hostport), drop (i + 1) hostport)
          else
            let host = take i hostport in
            if CHR '':'' \<in> set host then None
            else if CHR ''['' \<in> set hostport \<or> CHR '']'' \<in> set hostport then None
            else Some (host, drop (i + 1) hostport))"

text \<open>\<open>net.ParseIP\<close>: the sixteen bytes of an address, an IPv4 one in its mapped form.\<close>

type_synonym ip = "int list"

definition parse_octet :: "string \<Rightarrow> int option" where
  "parse_octet f =
     (if f = [] \<or> (length f > 1 \<and> hd f = CHR ''0'') then None
      else case parse_digits 0 f of None \<Rightarrow> None | Some n \<Rightarrow> if n > 255 then None else Some (int n))"

definition parseIPv4 :: "string \<Rightarrow> int list option" where
  "parseIPv4 s =
     (case map parse_octet (Split s (CHR ''.'')) of [Some a, Some b, Some c, Some d] \<Rightarrow> Some [a, b, c, d] | _ \<Rightarrow> None)"

definition mapped :: "int list \<Rightarrow> ip" where
  "mapped v4 = replicate 10 0 @ [255, 255] @ v4"

definition hex_digit_value :: "char \<Rightarrow> int option" where
  "hex_digit_value c =
     (let n = (of_char c :: nat) in
      if 48 \<le> n \<and> n \<le> 57 then Some (int n - 48) else if 97 \<le> n \<and> n \<le> 102 then Some (int n - 87)
      else if 65 \<le> n \<and> n \<le> 70 then Some (int n - 55) else None)"

definition hex_digits :: "string \<Rightarrow> string" where
  "hex_digits s = takeWhile (\<lambda>c. hex_digit_value c \<noteq> None) s"

definition hex_number :: "string \<Rightarrow> int" where
  "hex_number s = fold (\<lambda>c n. 16 * n + the (hex_digit_value c)) s 0"

text \<open>
  The loop of \<open>parseIPv6\<close>, one group at a time: the bytes parsed so far, where the ellipsis stands, and
  the rest of the string. An iteration fails, leaves the loop or goes on.
\<close>

datatype ipv6_step = Ipv6Fail | Ipv6Done "int list" "nat option" string | Ipv6More "int list" "nat option" string

definition ipv6_after :: "int list \<Rightarrow> nat option \<Rightarrow> string \<Rightarrow> ipv6_step" where
  "ipv6_after out ell rest =
     (if rest = [] then Ipv6Done out ell []
      else if hd rest \<noteq> CHR '':'' \<or> length rest = 1 then Ipv6Fail
      else if hd (tl rest) \<noteq> CHR '':'' then Ipv6More out ell (tl rest)
      else if ell \<noteq> None then Ipv6Fail
      else if tl (tl rest) = [] then Ipv6Done out (Some (length out)) []
      else Ipv6More out (Some (length out)) (tl (tl rest)))"

definition ipv6_group :: "int list \<Rightarrow> nat option \<Rightarrow> string \<Rightarrow> ipv6_step" where
  "ipv6_group out ell s =
     (let digits = hex_digits s; rest = drop (length digits) s in
      if digits = [] \<or> length digits > 4 then Ipv6Fail
      else if rest \<noteq> [] \<and> hd rest = CHR ''.'' then
        (if ell = None \<and> length out \<noteq> 12 then Ipv6Fail
         else if length out + 4 > 16 then Ipv6Fail
         else case parseIPv4 s of None \<Rightarrow> Ipv6Fail | Some v4 \<Rightarrow> Ipv6Done (out @ v4) ell [])
      else ipv6_after (out @ [hex_number digits div 256, hex_number digits mod 256]) ell rest)"

text \<open>The loop stops at sixteen bytes, so after eight groups of two.\<close>

fun ipv6_loop :: "nat \<Rightarrow> int list \<Rightarrow> nat option \<Rightarrow> string \<Rightarrow> (int list \<times> nat option \<times> string) option" where
  "ipv6_loop 0 out ell s = Some (out, ell, s)"
| "ipv6_loop (Suc n) out ell s =
     (case ipv6_group out ell s of
        Ipv6Fail \<Rightarrow> None
      | Ipv6Done out ell s \<Rightarrow> Some (out, ell, s)
      | Ipv6More out ell s \<Rightarrow> ipv6_loop n out ell s)"

definition parseIPv6 :: "string \<Rightarrow> ip option" where
  "parseIPv6 s =
     (if CHR ''%'' \<in> set s then None
      else
        let leading = HasPrefix s ''::''; s = (if leading then drop 2 s else s) in
        if leading \<and> s = [] then Some (replicate 16 0)
        else
          case ipv6_loop 8 [] (if leading then Some 0 else None) s of
            None \<Rightarrow> None
          | Some (out, ell, rest) \<Rightarrow>
              if rest \<noteq> [] then None
              else if length out < 16 then
                (case ell of None \<Rightarrow> None | Some e \<Rightarrow> Some (take e out @ replicate (16 - length out) 0 @ drop e out))
              else if ell \<noteq> None then None
              else Some out)"

definition ParseIP :: "string \<Rightarrow> ip option" where
  "ParseIP s =
     (case List.find (\<lambda>c. c = CHR ''.'' \<or> c = CHR '':'' \<or> c = CHR ''%'') s of
        None \<Rightarrow> None
      | Some c \<Rightarrow> if c = CHR ''.'' then map_option mapped (parseIPv4 s) else if c = CHR '':'' then parseIPv6 s else None)"

definition IP_IsLoopback :: "ip \<Rightarrow> bool" where
  "IP_IsLoopback a =
     (if take 12 a = replicate 10 0 @ [255, 255] then a ! 12 = 127 else a = replicate 15 0 @ [1])"

section \<open>Validation\<close>

datatype config_error = BadThirdParty | NotHostPort | NotLoopback | NotURL | BadScheme | NoHost | ConfigRead | ConfigParse

definition validThirdPartySymbols :: "string \<Rightarrow> config_error option" where
  "validThirdPartySymbols s = (if s = [] \<or> s = ThirdPartySymbolsDrop \<or> s = ThirdPartySymbolsKeep then None else Some BadThirdParty)"

definition validCollectionListenAddress :: "string \<Rightarrow> config_error option" where
  "validCollectionListenAddress raw =
     (if raw = [] then None
      else case SplitHostPort raw of
        None \<Rightarrow> Some NotHostPort
      | Some (host, _) \<Rightarrow>
          if host = ''localhost'' then None
          else case ParseIP host of
            Some a \<Rightarrow> if IP_IsLoopback a then None else Some NotLoopback
          | None \<Rightarrow> Some NotLoopback)"

text \<open>\<open>url.Parse\<close> returns the scheme and the host, or an error.\<close>

definition validBackendBaseURL :: "(string \<Rightarrow> (string \<times> string) option) \<Rightarrow> string \<Rightarrow> config_error option" where
  "validBackendBaseURL parse_url raw =
     (if raw = [] then None
      else case parse_url raw of
        None \<Rightarrow> Some NotURL
      | Some (scheme, host) \<Rightarrow>
          if scheme \<noteq> ''http'' \<and> scheme \<noteq> ''https'' then Some BadScheme else if host = [] then Some NoHost else None)"

definition Config_Validate :: "(string \<Rightarrow> (string \<times> string) option) \<Rightarrow> AgentConfig \<Rightarrow> config_error option" where
  "Config_Validate parse_url c =
     (case validThirdPartySymbols (Cp_ThirdPartySymbols (Cfg_Profiling c)) of
        Some e \<Rightarrow> Some e
      | None \<Rightarrow>
          case validCollectionListenAddress (Cfg_CollectionAddress c) of
            Some e \<Rightarrow> Some e
          | None \<Rightarrow> validBackendBaseURL parse_url (Cfg_BaseURL c))"

definition NodeConfig_Validate :: "NodeProfiling \<Rightarrow> config_error option" where
  "NodeConfig_Validate p = validThirdPartySymbols (Np_ThirdPartySymbols p)"

text \<open>\<open>load\<close>, of a schema's zero value and its validation; \<open>file\<close> is what reading the path gives.\<close>

definition load ::
    "(string \<Rightarrow> 'c option) \<Rightarrow> ('c \<Rightarrow> config_error option) \<Rightarrow> 'c \<Rightarrow> string \<Rightarrow> string option \<Rightarrow> config_error + 'c" where
  "load unmarshalStrict validate zero path content =
     (if path = [] then Inr zero
      else case content of
        None \<Rightarrow> Inl ConfigRead
      | Some raw \<Rightarrow>
          case unmarshalStrict raw of
            None \<Rightarrow> Inl ConfigParse
          | Some cfg \<Rightarrow> case validate cfg of Some e \<Rightarrow> Inl e | None \<Rightarrow> Inr cfg)"

definition Load ::
    "(string \<Rightarrow> (string \<times> string) option) \<Rightarrow> (string \<Rightarrow> AgentConfig option) \<Rightarrow> string \<Rightarrow> string option \<Rightarrow> config_error + AgentConfig" where
  "Load parse_url unmarshalStrict path content = load unmarshalStrict (Config_Validate parse_url) zeroConfig path content"

section \<open>The shape of the configuration\<close>

record Shape =
  Sh_Since :: time
  Sh_NamespacesAllowed :: nat
  Sh_NamespacesDenied :: nat
  Sh_ProfilingEnabled :: bool
  Sh_ProfilingTopN :: int
  Sh_PprofDiscoveryEnabled :: bool
  Sh_PprofPullEnabled :: bool
  Sh_SymbolPrefixesAllowed :: nat
  Sh_NodeIntakeEnabled :: bool
  Sh_BackendConfigured :: bool
  Sh_SpoolMaxAgeHours :: int

text \<open>\<open>stat\<close> is the file's modification time where it could be read.\<close>

definition configSince :: "string \<Rightarrow> time option \<Rightarrow> time \<Rightarrow> time" where
  "configSince path stat started = (if path = [] then started else case stat of None \<Rightarrow> started | Some t \<Rightarrow> t)"

definition Describe :: "AgentConfig \<Rightarrow> string \<Rightarrow> time option \<Rightarrow> time \<Rightarrow> Shape" where
  "Describe c path stat started =
     \<lparr>Sh_Since = configSince path stat started, Sh_NamespacesAllowed = length (Nf_Allow (Cfg_Filters c)),
      Sh_NamespacesDenied = length (Nf_Deny (Cfg_Filters c)), Sh_ProfilingEnabled = Cp_Enabled (Cfg_Profiling c),
      Sh_ProfilingTopN = Cp_TopN (Cfg_Profiling c), Sh_PprofDiscoveryEnabled = Pd_Enabled (Cp_Pprof (Cfg_Profiling c)),
      Sh_PprofPullEnabled = Pd_Pull (Cp_Pprof (Cfg_Profiling c)), Sh_SymbolPrefixesAllowed = length (Cp_AllowedModulePrefixes (Cfg_Profiling c)),
      Sh_NodeIntakeEnabled = Is_Enabled (Cfg_NodeIntake c), Sh_BackendConfigured = (Cfg_BaseURL c \<noteq> []),
      Sh_SpoolMaxAgeHours = Ss_MaxAgeHours (Cfg_Spool c)\<rparr>"

section \<open>The receiver\<close>

definition DefaultNodeIntakeListenAddress :: string where "DefaultNodeIntakeListenAddress = '':8080''"
definition DefaultNodeIntakeAudience :: string where "DefaultNodeIntakeAudience = ''rebuildstack-controller''"

text \<open>
  The decisions of \<open>buildNodeIntake\<close>: the address, the verifier, and whether the targets route is mounted.
  It fails where no subject is configured, and where the HTTP client cannot be built.
\<close>

definition buildNodeIntake :: "NodeIntakeSettings \<Rightarrow> bool \<Rightarrow> bool \<Rightarrow> (string \<times> Verifier \<times> bool) option" where
  "buildNodeIntake cfg client_ok targeting =
     (let addr = (if Is_ListenAddress cfg = [] then DefaultNodeIntakeListenAddress else Is_ListenAddress cfg);
          audience = (if Is_Audience cfg = [] then DefaultNodeIntakeAudience else Is_Audience cfg) in
      if Is_ExpectedSubject cfg = [] then None
      else if \<not> client_ok then None
      else Some (addr, NewVerifier audience (Is_ExpectedSubject cfg), targeting))"

section \<open>The kernel gate\<close>

text \<open>The last two are set by the capture driver, not by the gate.\<close>

datatype Reason =
    ReasonSupported | ReasonKernelTooOld | ReasonBTFAbsent | ReasonKernelUnknown | ReasonProgramLoadFailed | ReasonCaptureStopped

record ProbeResult =
  Rs_Reason :: Reason
  Rs_KernelVersion :: string
  Rs_Major :: int
  Rs_Minor :: int
  Rs_BTFPresent :: bool

text \<open>\<open>%d\<close> of \<open>fmt.Sscanf\<close>: blanks, an optional sign, digits that fit; with the rest of the input.\<close>

definition scan_int :: "string \<Rightarrow> (int \<times> string) option" where
  "scan_int s =
     (let s = dropWhile (\<lambda>c. c = CHR '' '' \<or> c = CHR 9) s;
          neg = (s \<noteq> [] \<and> hd s = CHR ''-'');
          s = (if s \<noteq> [] \<and> (hd s = CHR ''-'' \<or> hd s = CHR ''+'') then tl s else s);
          digits = takeWhile (\<lambda>c. digit_value c \<noteq> None) s in
      if digits = [] then None
      else case parse_digits 0 digits of
        None \<Rightarrow> None
      | Some n \<Rightarrow>
          let v = (if neg then - int n else int n) in
          if int64 v then Some (v, drop (length digits) s) else None)"

definition parseKernelVersion :: "string \<Rightarrow> (int \<times> int) option" where
  "parseKernelVersion osrelease =
     (case scan_int (TrimSpace osrelease) of
        None \<Rightarrow> None
      | Some (major, rest) \<Rightarrow>
          if rest = [] \<or> hd rest \<noteq> CHR ''.'' then None
          else case scan_int (tl rest) of None \<Rightarrow> None | Some (minor, _) \<Rightarrow> Some (major, minor))"

definition minKernelMajor :: int where "minKernelMajor = 5"
definition minKernelMinor :: int where "minKernelMinor = 8"

text \<open>\<open>Probe\<close>, of whether the BTF file is there and of what reading \<open>osrelease\<close> gives.\<close>

definition kernel_Probe :: "bool \<Rightarrow> string option \<Rightarrow> ProbeResult" where
  "kernel_Probe btf osrelease =
     (let res = \<lparr>Rs_Reason = ReasonKernelUnknown, Rs_KernelVersion = [], Rs_Major = 0, Rs_Minor = 0, Rs_BTFPresent = btf\<rparr> in
      case osrelease of
        None \<Rightarrow> res
      | Some raw \<Rightarrow>
          let res = res\<lparr>Rs_KernelVersion := TrimSpace raw\<rparr> in
          case parseKernelVersion (TrimSpace raw) of
            None \<Rightarrow> res
          | Some (major, minor) \<Rightarrow>
              let res = res\<lparr>Rs_Major := major, Rs_Minor := minor\<rparr> in
              if major < minKernelMajor \<or> (major = minKernelMajor \<and> minor < minKernelMinor) then res\<lparr>Rs_Reason := ReasonKernelTooOld\<rparr>
              else if \<not> btf then res\<lparr>Rs_Reason := ReasonBTFAbsent\<rparr>
              else res\<lparr>Rs_Reason := ReasonSupported\<rparr>)"

definition Supported :: "ProbeResult \<Rightarrow> bool" where
  "Supported r \<longleftrightarrow> Rs_Reason r = ReasonSupported"

section \<open>The heartbeat\<close>

record Heartbeat =
  Hb_last :: time
  Hb_deadline :: duration

definition NewHeartbeat :: "time \<Rightarrow> duration \<Rightarrow> Heartbeat" where
  "NewHeartbeat now deadline = \<lparr>Hb_last = now, Hb_deadline = deadline\<rparr>"

definition Beat :: "time \<Rightarrow> Heartbeat \<Rightarrow> Heartbeat" where
  "Beat now h = h\<lparr>Hb_last := now\<rparr>"

definition Alive :: "time \<Rightarrow> Heartbeat \<Rightarrow> bool \<times> duration" where
  "Alive now h = (let age = Sub now (Hb_last h) in (age \<le> Hb_deadline h, age))"

section \<open>What the receiver accepts\<close>

text \<open>
  C27. The receiver never accepts a token of an unnamed subject. In every configuration under which it starts,
  a token that verifies bears exactly the subject the configuration names, and that subject is not
  empty; without one it does not start.
\<close>

theorem receiver_pins_subject:
  assumes "buildNodeIntake cfg client_ok targeting = Some (addr, v, mounted)" and "Verify jwt v keyset now token keys = (Some who, keys')"
  shows "Ident_Subject who = Is_ExpectedSubject cfg \<and> Is_ExpectedSubject cfg \<noteq> []"
  using assms
  by (auto simp: buildNodeIntake_def NewVerifier_def Verify_def identity_of_def Let_def split: option.splits if_splits)

theorem receiver_pins_subject_witness:
  "case Verify trusting_jwt (NewVerifier DefaultNodeIntakeAudience ''system:serviceaccount:ra:node'') None 9 ''t'' held_keys of
     (None, _) \<Rightarrow> False | (Some who, _) \<Rightarrow> Ident_Subject who = ''system:serviceaccount:ra:node''"
proof -
  let ?cfg = "\<lparr>Is_Enabled = True, Is_ListenAddress = [], Is_Audience = [], Is_ExpectedSubject = ''system:serviceaccount:ra:node''\<rparr>"
  let ?v = "NewVerifier DefaultNodeIntakeAudience ''system:serviceaccount:ra:node''"
  have start: "buildNodeIntake ?cfg True False = Some (DefaultNodeIntakeListenAddress, ?v, False)" by (simp add: buildNodeIntake_def)
  have "\<not> Option.is_none (fst (Verify trusting_jwt ?v None 9 ''t'' held_keys))" by code_simp
  then obtain who keys where v: "Verify trusting_jwt ?v None 9 ''t'' held_keys = (Some who, keys)"
    by (cases "Verify trusting_jwt ?v None 9 ''t'' held_keys"; cases "fst (Verify trusting_jwt ?v None 9 ''t'' held_keys)") auto
  from receiver_pins_subject [OF start v] show ?thesis unfolding v by simp
qed

section \<open>Which addresses the listener binds\<close>

lemma parse_octet_FormatUint: "n < 256 \<Longrightarrow> parse_octet (FormatUint n) = Some (int n)"
proof -
  assume n: "n < 256"
  have "length (FormatUint n) > 1 \<Longrightarrow> hd (FormatUint n) \<noteq> CHR ''0''"
  proof (induction n rule: FormatUint.induct)
    case (1 n)
    show ?case
    proof (cases "n < 10")
      case False
      then have eq: "FormatUint n = FormatUint (n div 10) @ [digit (n mod 10)]" by (simp add: FormatUint.simps [of n])
      have "hd (FormatUint (n div 10)) \<noteq> CHR ''0''"
      proof (cases "n div 10 < 10")
        case small: True
        then have "FormatUint (n div 10) = [digit (n div 10)]" by (simp add: FormatUint.simps [of "n div 10"])
        moreover have "digit (n div 10) \<noteq> CHR ''0''"
        proof
          assume "digit (n div 10) = CHR ''0''"
          then have "(of_char (digit (n div 10)) :: nat) = 48" by simp
          then show False using of_char_digit [OF small] False by simp
        qed
        ultimately show ?thesis by simp
      next
        case big: False
        then have "length (FormatUint (n div 10)) > 1" by (subst FormatUint.simps) (simp add: Suc_le_eq)
        then show ?thesis using "1.IH" False by simp
      qed
      then show ?thesis unfolding eq by simp
    qed (use 1 in \<open>simp add: FormatUint.simps [of n]\<close>)
  qed
  then show ?thesis using n by (simp add: parse_octet_def parse_digits_FormatUint)
qed

lemma FormatUint_char: "c \<in> set (FormatUint n) \<Longrightarrow> digit_value c \<noteq> None"
  using FormatUint_digits digit_value_digit by fastforce

lemma FormatUint_plain: "digit_value c = None \<Longrightarrow> c \<notin> set (FormatUint n)"
  using FormatUint_char by blast

definition dotted :: "nat \<Rightarrow> nat \<Rightarrow> nat \<Rightarrow> nat \<Rightarrow> string" where
  "dotted a b c d = FormatUint a @ CHR ''.'' # FormatUint b @ CHR ''.'' # FormatUint c @ CHR ''.'' # FormatUint d"

lemma parseIPv4_dotted:
  assumes "a < 256" "b < 256" "c < 256" "d < 256"
  shows "parseIPv4 (dotted a b c d) = Some [int a, int b, int c, int d]"
proof -
  have dot: "CHR ''.'' \<notin> set (FormatUint n)" for n by (rule FormatUint_plain) (simp add: digit_value_def)
  show ?thesis unfolding parseIPv4_def dotted_def using assms
    by (simp add: Split_append [OF dot] Split_plain [OF dot] parse_octet_FormatUint)
qed

lemma dotted_char: "ch \<in> set (dotted a b c d) \<Longrightarrow> digit_value ch \<noteq> None \<or> ch = CHR ''.''"
  using FormatUint_char unfolding dotted_def by auto

lemma find_first: "\<not> list_ex P xs \<Longrightarrow> P y \<Longrightarrow> List.find P (xs @ y # ys) = Some y"
  by (induction xs) auto

lemma ParseIP_dotted:
  assumes "a < 256" "b < 256" "c < 256" "d < 256"
  shows "ParseIP (dotted a b c d) = Some (mapped [int a, int b, int c, int d])"
proof -
  have "\<not> list_ex (\<lambda>ch. ch = CHR ''.'' \<or> ch = CHR '':'' \<or> ch = CHR ''%'') (FormatUint a)"
    using FormatUint_plain [of "CHR ''.''" a] FormatUint_plain [of "CHR '':''" a] FormatUint_plain [of "CHR ''%''" a]
    by (auto simp: list_ex_iff digit_value_def)
  then have "List.find (\<lambda>ch. ch = CHR ''.'' \<or> ch = CHR '':'' \<or> ch = CHR ''%'') (dotted a b c d) = Some (CHR ''.'')"
    unfolding dotted_def by (rule find_first) simp
  then show ?thesis using parseIPv4_dotted [OF assms] by (simp add: ParseIP_def)
qed

lemma last_colon_append: "CHR '':'' \<notin> set port \<Longrightarrow> last_colon (host @ CHR '':'' # port) = Some (length host)"
proof -
  assume free: "CHR '':'' \<notin> set port"
  then have "takeWhile (\<lambda>c. c \<noteq> CHR '':'') (rev port @ CHR '':'' # rev host) = rev port" by (subst takeWhile_append2) auto
  then show ?thesis by (simp add: last_colon_def)
qed

lemma SplitHostPort_plain:
  assumes "list_all (\<lambda>ch. ch \<notin> {CHR '':'', CHR ''['', CHR '']''}) host" and "list_all (\<lambda>ch. ch \<notin> {CHR '':'', CHR ''['', CHR '']''}) port"
    and "host \<noteq> []"
  shows "SplitHostPort (host @ CHR '':'' # port) = Some (host, port)"
proof -
  have free: "CHR '':'' \<notin> set host" "CHR '':'' \<notin> set port" "CHR ''['' \<notin> set host" "CHR ''['' \<notin> set port" "CHR '']'' \<notin> set host" "CHR '']'' \<notin> set port"
    using assms(1,2) by (auto simp: list_all_iff)
  moreover have "(host @ CHR '':'' # port) ! 0 \<noteq> CHR ''[''" using assms(3) free(3) by (cases host) auto
  ultimately show ?thesis by (simp add: SplitHostPort_def last_colon_append Let_def)
qed

text \<open>
  The listener that names excluded objects binds to this host only. Of the addresses that write an IPv4
  host in dotted form with a port, the configuration accepts exactly those whose first octet is 127;
  an address with an empty host, which would bind every interface, is refused.
\<close>

theorem listener_binds_loopback_only:
  assumes "a < 256" "b < 256" "c < 256" "d < 256" and "list_all (\<lambda>ch. ch \<notin> {CHR '':'', CHR ''['', CHR '']''}) port"
  shows "(validCollectionListenAddress (dotted a b c d @ CHR '':'' # port) = None \<longleftrightarrow> a = 127) \<and>
    validCollectionListenAddress (CHR '':'' # port) = Some NotLoopback"
proof -
  have "list_all (\<lambda>ch. ch \<notin> {CHR '':'', CHR ''['', CHR '']''}) (dotted a b c d)"
    using dotted_char [of "CHR '':''" a b c d] dotted_char [of "CHR ''[''" a b c d] dotted_char [of "CHR '']''" a b c d]
    by (auto simp: list_all_iff digit_value_def)
  then have split: "SplitHostPort (dotted a b c d @ CHR '':'' # port) = Some (dotted a b c d, port)"
    using assms(5) by (intro SplitHostPort_plain) (auto simp: dotted_def)
  have "dotted a b c d \<noteq> ''localhost''"
  proof
    assume "dotted a b c d = ''localhost''"
    then have "CHR ''l'' \<in> set (dotted a b c d)" by simp
    from dotted_char [OF this] show False by (simp add: digit_value_def)
  qed
  then have dot: "validCollectionListenAddress (dotted a b c d @ CHR '':'' # port) = None \<longleftrightarrow> a = 127"
    using split ParseIP_dotted [OF assms(1-4)]
    by (simp add: validCollectionListenAddress_def IP_IsLoopback_def mapped_def eval_nat_numeral)
  have free: "CHR '':'' \<notin> set port" "CHR ''['' \<notin> set port" "CHR '']'' \<notin> set port" using assms(5) by (auto simp: list_all_iff)
  have "SplitHostPort (CHR '':'' # port) = Some ([], port)"
    using last_colon_append [OF free(1), of "[]"] free by (simp add: SplitHostPort_def Let_def)
  then have "validCollectionListenAddress (CHR '':'' # port) = Some NotLoopback"
    by (simp add: validCollectionListenAddress_def ParseIP_def)
  with dot show ?thesis by blast
qed

theorem listener_binds_loopback_only_witness:
  "validCollectionListenAddress (dotted 127 0 0 1 @ '':9091'') = None \<and> validCollectionListenAddress (dotted 0 0 0 0 @ '':9091'') \<noteq> None"
  using listener_binds_loopback_only [of 127 0 0 1 "''9091''"] listener_binds_loopback_only [of 0 0 0 0 "''9091''"] by simp

text \<open>IPv6 hosts, bracketed, with the one loopback address and the mapped ones.\<close>

lemma ipv6_listeners:
  "validCollectionListenAddress ''[::1]:9091'' = None" "validCollectionListenAddress ''[::]:9091'' = Some NotLoopback"
  "validCollectionListenAddress ''[::ffff:127.0.0.1]:9091'' = None" "validCollectionListenAddress ''[fe80::1]:9091'' = Some NotLoopback"
  "validCollectionListenAddress ''::1:9091'' = Some NotHostPort" "validCollectionListenAddress ''[0:0:0:0:0:0:0:1]:9091'' = None"
  by code_simp+

section \<open>Which kernels run the profiler\<close>

lemma scan_int_FormatUint:
  assumes "int n \<le> maxInt64" and "rest = [] \<or> digit_value (hd rest) = None"
  shows "scan_int (FormatUint n @ rest) = Some (int n, rest)"
proof -
  obtain ch cs where f: "FormatUint n = ch # cs" by (cases "FormatUint n") simp_all
  have "digit_value ch \<noteq> None" using FormatUint_char [of ch n] f by simp
  then have lead: "ch \<noteq> CHR '' ''" "ch \<noteq> CHR 9" "ch \<noteq> CHR ''-''" "ch \<noteq> CHR ''+''" by (auto simp: digit_value_def)
  have digits: "takeWhile (\<lambda>c. digit_value c \<noteq> None) (FormatUint n @ rest) = FormatUint n"
    using FormatUint_char assms(2) by (subst takeWhile_append2) (cases rest; auto)+
  show ?thesis using lead assms(1) digits parse_digits_FormatUint [of n] unfolding f
    by (simp add: scan_int_def Let_def int64_def minInt64_def)
qed

lemma TrimSpace_version:
  assumes "suffix = [] \<or> digit_value (hd suffix) = None"
  shows "\<exists>suffix'. TrimSpace (FormatUint n @ CHR ''.'' # FormatUint m @ suffix) = FormatUint n @ CHR ''.'' # FormatUint m @ suffix' \<and>
    (suffix' = [] \<or> digit_value (hd suffix') = None)"
proof -
  obtain ch cs where f: "FormatUint n = ch # cs" by (cases "FormatUint n") simp_all
  have digit: "\<not> is_space c" if "digit_value c \<noteq> None" for c using that by (auto simp: digit_value_def is_space_def split: if_splits)
  have "\<not> is_space ch" using digit FormatUint_char [of ch n] f by simp
  then have front: "dropWhile is_space (FormatUint n @ CHR ''.'' # FormatUint m @ suffix) = FormatUint n @ CHR ''.'' # FormatUint m @ suffix" by (simp add: f)
  obtain e es where g: "rev (FormatUint m) = e # es" by (cases "rev (FormatUint m)") simp_all
  then have "e \<in> set (FormatUint m)" by (metis list.set_intros(1) set_rev)
  then have e: "\<not> is_space e" using digit FormatUint_char by blast
  define s' where "s' = rev (dropWhile is_space (rev suffix))"
  have "rev (dropWhile is_space (rev (FormatUint n @ CHR ''.'' # FormatUint m @ suffix))) = FormatUint n @ CHR ''.'' # FormatUint m @ s'"
  proof (cases "\<forall>c \<in> set (rev suffix). is_space c")
    case True
    have m: "FormatUint m = rev es @ [e]" using g by (metis rev.simps(2) rev_swap)
    have "s' = []" using True by (simp add: s'_def)
    moreover have "dropWhile is_space (rev suffix @ rev (FormatUint n @ CHR ''.'' # FormatUint m)) = rev (FormatUint n @ CHR ''.'' # FormatUint m)"
      using True e by (subst dropWhile_append2) (auto simp: m)
    ultimately show ?thesis by simp
  next
    case False
    then show ?thesis by (auto simp: s'_def dropWhile_append1)
  qed
  moreover have "s' = [] \<or> digit_value (hd s') = None"
  proof (cases "s' = []")
    case False
    obtain t where "rev suffix = t @ dropWhile is_space (rev suffix)" by (metis takeWhile_dropWhile_id)
    then have "suffix = s' @ rev t" unfolding s'_def by (metis rev_append rev_rev_ident)
    then show ?thesis using False assms by (cases s') auto
  qed simp
  ultimately show ?thesis unfolding TrimSpace_def front by blast
qed

text \<open>
  The gate reads the kernel's version and nothing else out of its release string. Whatever follows the
  minor number, a patch level, a vendor's suffix or a newline, the profiler may start exactly when
  the kernel is 5.8 or newer and its type information is there; a kernel below 5.8 is refused for its
  age even where the type information was backported.
\<close>

theorem kernel_gate_exact:
  fixes major minor :: nat and suffix :: string and btf :: bool
  assumes "int major \<le> maxInt64" and "int minor \<le> maxInt64" and "suffix = [] \<or> digit_value (hd suffix) = None"
  defines "r \<equiv> kernel_Probe btf (Some (FormatUint major @ CHR ''.'' # FormatUint minor @ suffix))"
  shows "(Supported r \<longleftrightarrow> (major > 5 \<or> major = 5 \<and> minor \<ge> 8) \<and> btf) \<and>
    (Rs_Reason r = ReasonKernelTooOld \<longleftrightarrow> \<not> (major > 5 \<or> major = 5 \<and> minor \<ge> 8)) \<and> Rs_Reason r \<noteq> ReasonKernelUnknown"
proof -
  obtain suffix' where trim: "TrimSpace (FormatUint major @ CHR ''.'' # FormatUint minor @ suffix) = FormatUint major @ CHR ''.'' # FormatUint minor @ suffix'"
      "suffix' = [] \<or> digit_value (hd suffix') = None" using TrimSpace_version [OF assms(3)] by blast
  obtain suffix2 where again: "TrimSpace (FormatUint major @ CHR ''.'' # FormatUint minor @ suffix') = FormatUint major @ CHR ''.'' # FormatUint minor @ suffix2"
      "suffix2 = [] \<or> digit_value (hd suffix2) = None" using TrimSpace_version [OF trim(2)] by blast
  have "scan_int (FormatUint major @ CHR ''.'' # FormatUint minor @ suffix2) = Some (int major, CHR ''.'' # FormatUint minor @ suffix2)"
    using assms(1) by (intro scan_int_FormatUint) (simp_all add: digit_value_def)
  moreover have "scan_int (FormatUint minor @ suffix2) = Some (int minor, suffix2)" using assms(2) again(2) by (rule scan_int_FormatUint)
  ultimately have "parseKernelVersion (FormatUint major @ CHR ''.'' # FormatUint minor @ suffix') = Some (int major, int minor)"
    by (simp add: parseKernelVersion_def again(1))
  then show ?thesis
    by (auto simp: r_def kernel_Probe_def trim(1) Let_def Supported_def minKernelMajor_def minKernelMinor_def)
qed

theorem kernel_gate_exact_witness:
  "Supported (kernel_Probe True (Some (FormatUint 6 @ CHR ''.'' # FormatUint 8 @ ''.0-1064-gcp''))) \<and>
   Rs_Reason (kernel_Probe True (Some (FormatUint 4 @ CHR ''.'' # FormatUint 18 @ ''.0-553.el8''))) = ReasonKernelTooOld"
  using kernel_gate_exact [of 6 8 "''.0-1064-gcp''" True] kernel_gate_exact [of 4 18 "''.0-553.el8''" True]
  by (simp add: maxInt64_def digit_value_def)

end
