(* ===== verification/AgentPasses.thy ===== *)
theory AgentPasses
  imports AgentFlow NodeProfile Policies WorkloadShape PprofFunnel ClusterNodes Startup
begin

text \<open>
  The controller as a whole, after \<open>run\<close> of \<open>cmd/agent/main.go\<close>: the closures that write what the
  components hold, the list of them that the periodic pass and the shutdown pass go through, and the
  funnel that feeds the prober. The state is one record of the components; the optional ones are
  \<^const>\<open>None\<close> where the configuration leaves them out. A spool error is logged and the pass goes on.

  The properties are about passes: what a shutdown leaves on disk, which files it does not touch, and
  what becomes of the open windows when a delivering backend and a restart meet.
\<close>

section \<open>The agent\<close>

record 'fp agent =
  Ag_spool :: "'fp Spool option"
  Ag_journals :: journals
  Ag_pods :: PodWatcher
  Ag_nodes :: NodeWatcher
  Ag_usage :: UsagePoller
  Ag_targets :: "Publisher option"
  Ag_store :: "Store option"
  Ag_prober :: "Prober option"
  Ag_puller :: "Puller option"
  Ag_counter :: "Counter option"
  Ag_shipper :: "Shipper option"
  Ag_beat :: Heartbeat
  Ag_pprofExcluded :: nat
  Ag_profilesReceived :: nat
  Ag_profilesUnjoined :: nat

text \<open>What a pass reads from outside: the informer caches, the policy sources, the clock, and the fixed facts of the process.\<close>

record 's pass_env =
  Pv_now :: time
  Pv_startedAt :: time
  Pv_version :: string
  Pv_shape :: Shape
  Pv_policyListers :: "'s policyListers"
  Pv_strategyListers :: strategyListers
  Pv_replicaSets :: "ReplicaSet list option"
  Pv_podLister :: "Pod list option"
  Pv_limits :: watchLimits
  Pv_sources :: "policySource list"
  Pv_intake :: "IntakeRejections option"

text \<open>The records and blocks the snapshot payloads carry.\<close>

datatype block =
    AgentBlock string Shape "string list"
  | SinceBlock time
  | SourcesBlock "SourceHealth list"
  | FilterBlock FilterCoverage
  | PlacementBlock int int
  | NodeDropsBlock nodeDrops
  | InventoryBlock "InventoryCounters option"
  | ScanBlock "ScanCoverage option"
  | EBPFBlock "(ProfileCoverage \<times> nat \<times> nat) option"
  | ProbeBlock "ProbeCoverage option"
  | PullBlock "pullCoverage option"
  | CountBlock "CountCoverage option"
  | IntakeBlock "IntakeRejections option"
  | ShippingBlock "Shipping option"
  | CoverageBlock Inventory.Coverage
  | GoBlock GoRecord
  | PeakBlock PeakRecord
  | ProcessBlock ProcCounterRecord
  | PortBlock PortRecord
  | ModuleBlock Module
  | MetadataBlock MetaRecord
  | NodeBlock NodeInfo
  | RevisionBlock RevisionRecord
  | PolicyBlock WorkloadPolicy
  | ClusterBlock ClusterPolicy
  | RestartCounterBlock RestartCounter

section \<open>The journals\<close>

definition flushRestarts :: "('fp, (Observation, block) payload) world \<Rightarrow> time \<Rightarrow> 'fp agent \<Rightarrow> 'fp agent" where
  "flushRestarts w now a =
     (case Ag_spool a of
        None \<Rightarrow> a
      | Some spool \<Rightarrow>
          let (closed, j) = Restarts_CloseBefore now (J_restarts (Ag_journals a));
              records = closed @ Restarts_Snapshots j;
              a = a\<lparr>Ag_journals := (Ag_journals a)\<lparr>J_restarts := j\<rparr>\<rparr>
          in if records = [] then a else a\<lparr>Ag_spool := Some (fst (WriteContainerRestarts w now records spool))\<rparr>)"

definition flushDisruptions :: "('fp, (Observation, block) payload) world \<Rightarrow> time \<Rightarrow> 'fp agent \<Rightarrow> 'fp agent" where
  "flushDisruptions w now a =
     (case Ag_spool a of
        None \<Rightarrow> a
      | Some spool \<Rightarrow>
          let (closed, j) = Disruptions_CloseBefore now (J_disruptions (Ag_journals a));
              records = closed @ Disruptions_Snapshots j;
              a = a\<lparr>Ag_journals := (Ag_journals a)\<lparr>J_disruptions := j\<rparr>\<rparr>
          in if records = [] then a else a\<lparr>Ag_spool := Some (fst (WritePodDisruptions w now records spool))\<rparr>)"

definition flushNodeLifecycle :: "('fp, (Observation, block) payload) world \<Rightarrow> time \<Rightarrow> 'fp agent \<Rightarrow> 'fp agent" where
  "flushNodeLifecycle w now a =
     (case Ag_spool a of
        None \<Rightarrow> a
      | Some spool \<Rightarrow>
          let (closed, j) = NodeEvents_CloseBefore now (J_nodes (Ag_journals a));
              records = closed @ NodeEvents_Snapshots j;
              a = a\<lparr>Ag_journals := (Ag_journals a)\<lparr>J_nodes := j\<rparr>\<rparr>
          in if records = [] then a else a\<lparr>Ag_spool := Some (fst (WriteNodeLifecycle w now records spool))\<rparr>)"

definition flushJobRuns :: "('fp, (Observation, block) payload) world \<Rightarrow> time \<Rightarrow> 'fp agent \<Rightarrow> 'fp agent" where
  "flushJobRuns w now a =
     (case Ag_spool a of
        None \<Rightarrow> a
      | Some spool \<Rightarrow>
          let (closed, j) = JobRuns_CloseBefore now (J_jobs (Ag_journals a));
              records = closed @ JobRuns_Snapshots j;
              a = a\<lparr>Ag_journals := (Ag_journals a)\<lparr>J_jobs := j\<rparr>\<rparr>
          in if records = [] then a else a\<lparr>Ag_spool := Some (fst (WriteJobRuns w now records spool))\<rparr>)"

definition flushGoroutineCounts :: "('fp, (Observation, block) payload) world \<Rightarrow> time \<Rightarrow> 'fp agent \<Rightarrow> 'fp agent" where
  "flushGoroutineCounts w now a =
     (case Ag_spool a of
        None \<Rightarrow> a
      | Some spool \<Rightarrow>
          let (closed, j) = Goroutines_CloseBefore now (J_goroutines (Ag_journals a));
              records = closed @ Goroutines_Snapshots j;
              a = a\<lparr>Ag_journals := (Ag_journals a)\<lparr>J_goroutines := j\<rparr>\<rparr>
          in if records = [] then a else a\<lparr>Ag_spool := Some (fst (WriteGoroutineCounts w now records spool))\<rparr>)"

section \<open>The inventory\<close>

definition build_blocks :: "Module BuildFacts \<Rightarrow> block BuildFacts" where
  "build_blocks b =
     \<lparr>BF_ImageDigest = BF_ImageDigest b, BF_GoVersion = BF_GoVersion b, BF_MainModule = BF_MainModule b,
      BF_Modules = map_option (map ModuleBlock) (BF_Modules b), BF_Settings = BF_Settings b, BF_GoDebug = BF_GoDebug b,
      BF_HasPprof = BF_HasPprof b\<rparr>"

definition write_build ::
    "('fp, (Observation, block) payload) world \<Rightarrow> Module BuildFacts \<Rightarrow> Store \<times> 'fp Spool \<Rightarrow> Store \<times> 'fp Spool" where
  "write_build w b st =
     (case WriteGoBuild w (build_blocks b) (snd st) of
        (spool, Some err) \<Rightarrow> (fst st, spool)
      | (spool, None) \<Rightarrow> (MarkBuildWritten (BF_ImageDigest b) (fst st), spool))"

definition flushInventory :: "('fp, (Observation, block) payload) world \<Rightarrow> time \<Rightarrow> 'fp agent \<Rightarrow> 'fp agent" where
  "flushInventory w now a =
     (case (Ag_store a, Ag_spool a) of
        (Some store, Some spool) \<Rightarrow>
          let store = fst (Retain (LiveKeys (Pods (Ag_pods a))) store);
              store = RetainNodes (Names (Ag_nodes a)) store;
              spool = fst (WriteGoInventory w now [CoverageBlock (Store_Coverage store)] (Some (map GoBlock (Snapshot store))) spool);
              spool = fst (WriteProcessPeaks w now (Some (map PeakBlock (PeakSnapshot store))) spool);
              spool = fst (WriteProcessCounters w now (Some (map ProcessBlock (CounterSnapshot store))) spool);
              ports = PortSnapshot store;
              ports = (case Ag_prober a of None \<Rightarrow> ports | Some prober \<Rightarrow> Stamp ports prober);
              spool = fst (WriteListeningPorts w now (Some (map PortBlock ports)) spool);
              (store, spool) = fold (write_build w) (PendingBuilds store) (store, spool)
          in a\<lparr>Ag_store := Some store, Ag_spool := Some spool\<rparr>
      | _ \<Rightarrow> a)"

section \<open>The snapshots of the cluster\<close>

definition flushMetadata :: "('fp, (Observation, block) payload) world \<Rightarrow> 's pass_env \<Rightarrow> 'fp agent \<Rightarrow> 'fp agent" where
  "flushMetadata w env a =
     (case Ag_spool a of
        None \<Rightarrow> a
      | Some spool \<Rightarrow>
          let now = Pv_now env; pods = Ag_pods a;
              records = Metadata_Aggregate (Pods pods) (UpdateStrategies (Pv_strategyListers env) pods);
              spool = fst (WriteWorkloadMetadata w now (Some (map MetadataBlock records)) spool);
              spool = fst (WriteNodeMetadata w now (Some (map NodeBlock (Nodes (Ag_nodes a)))) spool);
              revisions = Revisions_Aggregate (ReplicaSets (Pv_replicaSets env) pods);
              spool = fst (WriteWorkloadRevisions w now (Some (map RevisionBlock revisions)) spool);
              (policies, gaps) = WorkloadPolicies (Pv_policyListers env) (Pv_limits env) now (Pv_sources env) pods;
              listed = (if mlen (fst (collectedWorkloads pods)) = 0 then None else Some (map PolicyBlock policies));
              spool = fst (WriteWorkloadPolicy w now listed gaps spool);
              (policy, cgaps) = ClusterPolicy_of (Pv_policyListers env) (Pv_limits env) now (Pv_sources env) pods;
              spool = fst (WriteClusterPolicy w now [ClusterBlock policy] cgaps spool);
              spool = fst (WriteRestartCounters w now (Some (map RestartCounterBlock (RestartCounters (Pv_podLister env) pods))) spool)
          in a\<lparr>Ag_spool := Some spool\<rparr>)"

section \<open>The coverage report\<close>

text \<open>The three blocks about the inventory; the last is there once a node has reported what its profiler did.\<close>

definition ebpf_block :: "'fp agent \<Rightarrow> block" where
  "ebpf_block a =
     EBPFBlock (case Ag_store a of
        None \<Rightarrow> None
      | Some store \<Rightarrow>
          let pc = Store_ProfileCoverage store in
          if PCv_Nodes pc > 0 then Some (pc, Ag_profilesReceived a, Ag_profilesUnjoined a) else None)"

definition coverage_blocks :: "'s pass_env \<Rightarrow> 'fp agent \<Rightarrow> block list" where
  "coverage_blocks env a =
     [SinceBlock (Pv_startedAt env),
      AgentBlock (Pv_version env) (Pv_shape env) (signalsLocked (Ag_usage a)),
      SourcesBlock (SourceHealths (Pv_limits env) (Pv_now env) (Pv_sources env)),
      FilterBlock (Filter_Snapshot (W_filter (Ag_pods a))),
      PlacementBlock (W_valuesDropped (Ag_pods a)) (W_termsDropped (Ag_pods a)),
      NodeDropsBlock (Nw_drops (Ag_nodes a)),
      InventoryBlock (map_option Store_Counters (Ag_store a)),
      ScanBlock (map_option Store_ScanCoverage (Ag_store a)),
      ebpf_block a,
      ProbeBlock (map_option (\<lambda>p. (Prober_Snapshot p)\<lparr>Pv_ExcludedByAnnotation := int (Ag_pprofExcluded a)\<rparr>) (Ag_prober a)),
      PullBlock (map_option Pr_cover (Ag_puller a)),
      CountBlock (map_option Ct_cover (Ag_counter a)),
      IntakeBlock (Pv_intake env),
      ShippingBlock (map_option Shipper.Coverage (Ag_shipper a))]"

text \<open>The two window journals of the agent itself, fed with what the report just carried.\<close>

definition flush_states :: "('fp, (Observation, block) payload) world \<Rightarrow> 's pass_env \<Rightarrow> 'fp agent \<Rightarrow> 'fp Spool \<Rightarrow> States \<times> 'fp Spool" where
  "flush_states w env a spool =
     (let now = Pv_now env;
          observed = agentStates (SourceHealths (Pv_limits env) now (Pv_sources env)) (map_option Shipper.Coverage (Ag_shipper a));
          (closed, j) = States_CloseBefore now (States_Observe now observed (J_states (Ag_journals a)));
          records = closed @ States_Snapshots j
      in (j, if records = [] then spool else fst (WriteAgentStates w now records spool)))"

definition flush_counters :: "('fp, (Observation, block) payload) world \<Rightarrow> 's pass_env \<Rightarrow> 'fp agent \<Rightarrow> 'fp Spool \<Rightarrow> Counters \<times> 'fp Spool" where
  "flush_counters w env a spool =
     (let now = Pv_now env;
          readings = agentCounters (Filter_Snapshot (W_filter (Ag_pods a))) (Poller_Observation (Ag_usage a)) (map_option Pr_cover (Ag_puller a)) (Pv_intake env);
          (closed, j) = Counters_CloseBefore now (Counters_Observe now (Pv_startedAt env) readings (J_counters (Ag_journals a)));
          records = closed @ Counters_Snapshots j
      in (j, if records = [] then spool else fst (WriteAgentCounters w now records spool)))"

definition logCoverage :: "('fp, (Observation, block) payload) world \<Rightarrow> 's pass_env \<Rightarrow> 'fp agent \<Rightarrow> 'fp agent" where
  "logCoverage w env a =
     (case Ag_spool a of
        None \<Rightarrow> a
      | Some spool \<Rightarrow>
          let spool = fst (WriteCollectionCoverage w (Pv_now env) (coverage_blocks env a) spool);
              (states, spool) = flush_states w env a spool;
              (counters, spool) = flush_counters w env a spool
          in a\<lparr>Ag_spool := Some spool, Ag_journals := (Ag_journals a)\<lparr>J_states := states, J_counters := counters\<rparr>\<rparr>)"

section \<open>The passes\<close>

definition flushers :: "('fp, (Observation, block) payload) world \<Rightarrow> 's pass_env \<Rightarrow> 'fp agent flusher list" where
  "flushers w env =
     [\<lparr>Flush_run = logCoverage w env, Flush_onShutdown = True\<rparr>,
      \<lparr>Flush_run = flushMetadata w env, Flush_onShutdown = False\<rparr>,
      \<lparr>Flush_run = flushInventory w (Pv_now env), Flush_onShutdown = True\<rparr>,
      \<lparr>Flush_run = flushRestarts w (Pv_now env), Flush_onShutdown = True\<rparr>,
      \<lparr>Flush_run = flushDisruptions w (Pv_now env), Flush_onShutdown = True\<rparr>,
      \<lparr>Flush_run = flushJobRuns w (Pv_now env), Flush_onShutdown = True\<rparr>,
      \<lparr>Flush_run = flushNodeLifecycle w (Pv_now env), Flush_onShutdown = True\<rparr>,
      \<lparr>Flush_run = flushGoroutineCounts w (Pv_now env), Flush_onShutdown = True\<rparr>]"

section \<open>The funnel\<close>

text \<open>The closure \<open>candidates\<close>: what may be probed, and the number that opted out.\<close>

definition candidates :: "'fp agent \<Rightarrow> Candidate list \<times> 'fp agent" where
  "candidates a =
     (let store = (case Ag_store a of None \<Rightarrow> NewStore 0 | Some store \<Rightarrow> store);
          optedOut = ProfilingOptOuts (Ag_pods a);
          (kept, excluded) = Admitted (Candidates (PortSnapshot store) (PprofBuilds store))
            (\<lambda>namespace kind name. (namespace, WorkloadRef kind name) \<in> set optedOut)
      in (kept, a\<lparr>Ag_pprofExcluded := excluded\<rparr>))"

text \<open>\<open>net.JoinHostPort\<close>.\<close>

definition HostPort :: "string \<Rightarrow> int \<Rightarrow> string" where
  "HostPort host port = (if CHR '':'' \<in> set host then ''['' @ host @ '']:'' else host @ '':'') @ FormatInt port"

text \<open>The resolvers the prober, the puller and the counter are built with; \<open>podIP\<close> reads a pod's address from the cache.\<close>

definition replica :: "(string \<Rightarrow> string option) \<Rightarrow> PodWatcher \<Rightarrow> Candidate \<Rightarrow> (string \<times> string) option" where
  "replica podIP w c =
     (case PodReplica podIP w (Cd_Namespace c) (WorkloadRef (Cd_WorkloadKind c) (Cd_WorkloadName c)) (Cd_Container c) (fst (Cd_Target c)) of
        None \<Rightarrow> None
      | Some (ip, pod) \<Rightarrow> Some (HostPort ip (snd (Cd_Target c)), pod))"

definition address :: "(string \<Rightarrow> string option) \<Rightarrow> PodWatcher \<Rightarrow> Candidate \<Rightarrow> string option" where
  "address podIP w c = map_option fst (replica podIP w c)"

section \<open>Which files a writer touches\<close>

text \<open>The directory is unchanged but for names that begin with the prefix.\<close>

definition only_under :: "string \<Rightarrow> 'fp Spool \<Rightarrow> 'fp Spool \<Rightarrow> bool" where
  "only_under pre s s' \<longleftrightarrow> (\<forall>n. \<not> HasPrefix n pre \<longrightarrow> mget (Sp_dir s') n = mget (Sp_dir s) n)"

lemma only_under_refl [simp]: "only_under pre s s"
  by (simp add: only_under_def)

lemma only_under_trans: "only_under pre s s' \<Longrightarrow> only_under pre s' s'' \<Longrightarrow> only_under pre s s''"
  by (simp add: only_under_def)

lemma HasPrefix_appendI: "HasPrefix n pre \<Longrightarrow> HasPrefix (n @ x) pre"
  unfolding HasPrefix_def by (metis append.assoc append_eq_conv_conj append_take_drop_id)

lemma write_payload_within:
  assumes "HasPrefix name pre"
  shows "only_under pre s (fst (write_payload w kind name p s))"
proof -
  have tmp: "HasPrefix (tmp_name name) pre" using assms by (simp add: tmp_name_def HasPrefix_appendI)
  have pub: "mget (Sp_dir (fst (publish io name data s))) n = mget (Sp_dir s) n" if "\<not> HasPrefix n pre" for io data n
  proof -
    have "n \<noteq> tmp_name name" "n \<noteq> name" using that assms tmp by auto
    then show ?thesis using publish_dir(1) [of io name data s "fst (publish io name data s)" "snd (publish io name data s)" n] by simp
  qed
  let ?r = "write_payload w kind name p s"
  have "Sp_dir (fst ?r) = Sp_dir s \<or> (\<exists>io data. Sp_dir (fst ?r) = Sp_dir (fst (publish io name data s)))"
  proof (cases "Lookup kind")
    case (Some entry)
    show ?thesis
    proof (cases "encodePayload name (marshalIndent w p)")
      case (Inr data)
      obtain t err where t: "publish (W_io (at_write w name)) name data s = (t, err)" by force
      then have "Sp_dir t = Sp_dir (fst (publish (W_io (at_write w name)) name data s))" by simp
      moreover have "Sp_dir (fst ?r) = Sp_dir s \<or> Sp_dir (fst ?r) = Sp_dir t"
        using Some Inr t by (cases err) (simp_all add: write_payload_def Spool_write_def Let_def case_prod_beta countWrite_def countSuppressed_def)
      ultimately show ?thesis by metis
    qed (simp add: Some write_payload_def Spool_write_def Let_def countWrite_def)
  qed (simp add: write_payload_def Spool_write_def Let_def)
  then show ?thesis unfolding only_under_def using pub by (elim disjE exE) simp_all
qed

lemma fold_result_within:
  "(\<And>k s. only_under pre s (fst (body k s))) \<Longrightarrow> only_under pre s (fst (fold_result body ks s))"
proof (induction ks arbitrary: s)
  case (Cons k ks)
  obtain t err where b: "body k s = (t, err)" by force
  have "only_under pre s t" using Cons.prems [of s k] b by simp
  then show ?case using Cons b by (auto split: option.splits intro: only_under_trans)
qed simp

lemma each_window_within:
  assumes "\<And>k. HasPrefix (nm k) pre"
  shows "only_under pre s (fst (each_window w windowOf records (\<lambda>k recs. write_payload w kind (nm k) (mk k recs)) s))"
  unfolding each_window_def Let_def using assms by (intro fold_result_within write_payload_within) auto

lemma journal_name_prefix: "HasPrefix (journalWindowName pre k) pre"
  by (simp add: journalWindowName_def)

lemma journal_writers_within:
  "only_under restartsNamePrefix s (fst (WriteContainerRestarts w t rs s))"
  "only_under disruptionsNamePrefix s (fst (WritePodDisruptions w t ds s))"
  "only_under nodeLifecycleNamePrefix s (fst (WriteNodeLifecycle w t ns s))"
  "only_under jobRunsNamePrefix s (fst (WriteJobRuns w t js s))"
  "only_under goroutineCountsNamePrefix s (fst (WriteGoroutineCounts w t gs s))"
  "only_under agentStatesNamePrefix s (fst (WriteAgentStates w t ss s))"
  "only_under agentCountersNamePrefix s (fst (WriteAgentCounters w t cs s))"
  unfolding WriteContainerRestarts_def WritePodDisruptions_def WriteNodeLifecycle_def WriteJobRuns_def WriteGoroutineCounts_def
    WriteAgentStates_def WriteAgentCounters_def
  by (rule each_window_within, rule journal_name_prefix)+

definition other_than :: "string list \<Rightarrow> 'fp Spool \<Rightarrow> 'fp Spool \<Rightarrow> bool" where
  "other_than pres s s' \<longleftrightarrow> (\<forall>n. list_all (\<lambda>pre. \<not> HasPrefix n pre) pres \<longrightarrow> mget (Sp_dir s') n = mget (Sp_dir s) n)"

lemma other_thanI: "only_under pre s s' \<Longrightarrow> pre \<in> set pres \<Longrightarrow> other_than pres s s'"
  by (auto simp: only_under_def other_than_def list_all_iff)

lemma other_than_refl [simp]: "other_than pres s s"
  by (simp add: other_than_def)

lemma other_than_trans: "other_than pres s s' \<Longrightarrow> other_than pres s' s'' \<Longrightarrow> other_than pres s s''"
  by (simp add: other_than_def)

text \<open>The names the shutdown pass writes under.\<close>

definition shutdown_prefixes :: "string list" where
  "shutdown_prefixes =
     [''collection-coverage.json'', ''agent-states-'', ''agent-counters-'', ''go-inventory.json'', ''process-peaks.json'', ''process-counters.json'',
      ''listening-ports.json'', ''go-build-'', ''restarts-'', ''disruptions-'', ''job-runs-'', ''node-lifecycle-'', ''goroutine-counts-'']"

lemma HasPrefix_self: "HasPrefix s s"
  by (simp add: HasPrefix_def)

lemma snapshot_writers_within:
  "only_under ''collection-coverage.json'' s (fst (WriteCollectionCoverage w t b s))"
  "only_under ''go-inventory.json'' s (fst (WriteGoInventory w t b rs s))"
  "only_under ''process-peaks.json'' s (fst (WriteProcessPeaks w t rs s))"
  "only_under ''process-counters.json'' s (fst (WriteProcessCounters w t rs s))"
  "only_under ''listening-ports.json'' s (fst (WriteListeningPorts w t rs s))"
  unfolding WriteCollectionCoverage_def WriteGoInventory_def WriteProcessPeaks_def WriteProcessCounters_def WriteListeningPorts_def
  by (intro write_payload_within HasPrefix_self)+

lemma build_writer_within: "only_under ''go-build-'' s (fst (WriteGoBuild w b s))"
  unfolding WriteGoBuild_def Let_def by (auto intro!: write_payload_within simp: HasPrefix_def)

lemma write_builds_other_than:
  "other_than shutdown_prefixes (snd st) (snd (fold (write_build w) bs st))"
proof (induction bs arbitrary: st)
  case (Cons b bs)
  have "other_than shutdown_prefixes (snd st) (snd (write_build w b st))"
    using other_thanI [OF build_writer_within [of "snd st" w "build_blocks b"], of shutdown_prefixes]
    by (auto simp: write_build_def shutdown_prefixes_def split: prod.splits option.splits)
  then show ?case using Cons other_than_trans by fastforce
qed simp

text \<open>One closure: whether the spool stays open, and what becomes of the files.\<close>

definition spares :: "string list \<Rightarrow> ('fp agent \<Rightarrow> 'fp agent) \<Rightarrow> bool" where
  "spares pres f \<longleftrightarrow> (\<forall>a. case Ag_spool a of
      None \<Rightarrow> Ag_spool (f a) = None
    | Some s \<Rightarrow> (\<exists>s'. Ag_spool (f a) = Some s' \<and> other_than pres s s'))"

lemmas in_shutdown = shutdown_prefixes_def restartsNamePrefix_def disruptionsNamePrefix_def nodeLifecycleNamePrefix_def jobRunsNamePrefix_def
  goroutineCountsNamePrefix_def agentStatesNamePrefix_def agentCountersNamePrefix_def

lemma journal_writers_other_than:
  "other_than shutdown_prefixes s (fst (WriteContainerRestarts w t rs s))"
  "other_than shutdown_prefixes s (fst (WritePodDisruptions w t ds s))"
  "other_than shutdown_prefixes s (fst (WriteNodeLifecycle w t ns s))"
  "other_than shutdown_prefixes s (fst (WriteJobRuns w t js s))"
  "other_than shutdown_prefixes s (fst (WriteGoroutineCounts w t gs s))"
  "other_than shutdown_prefixes s (fst (WriteAgentStates w t ss s))"
  "other_than shutdown_prefixes s (fst (WriteAgentCounters w t cs s))"
  by (rule other_thanI [OF journal_writers_within(1)] other_thanI [OF journal_writers_within(2)] other_thanI [OF journal_writers_within(3)]
      other_thanI [OF journal_writers_within(4)] other_thanI [OF journal_writers_within(5)] other_thanI [OF journal_writers_within(6)]
      other_thanI [OF journal_writers_within(7)]; simp add: in_shutdown)+

lemma snapshot_writers_other_than:
  "other_than shutdown_prefixes s (fst (WriteCollectionCoverage w t b s))"
  "other_than shutdown_prefixes s (fst (WriteGoInventory w t b rs s))"
  "other_than shutdown_prefixes s (fst (WriteProcessPeaks w t rs s))"
  "other_than shutdown_prefixes s (fst (WriteProcessCounters w t rs s))"
  "other_than shutdown_prefixes s (fst (WriteListeningPorts w t rs s))"
  by (rule other_thanI [OF snapshot_writers_within(1)] other_thanI [OF snapshot_writers_within(2)] other_thanI [OF snapshot_writers_within(3)]
      other_thanI [OF snapshot_writers_within(4)] other_thanI [OF snapshot_writers_within(5)]; simp add: in_shutdown)+

lemma journal_flushes_spare:
  "spares shutdown_prefixes (flushRestarts w t)" "spares shutdown_prefixes (flushDisruptions w t)" "spares shutdown_prefixes (flushJobRuns w t)"
  "spares shutdown_prefixes (flushNodeLifecycle w t)" "spares shutdown_prefixes (flushGoroutineCounts w t)"
  unfolding spares_def flushRestarts_def flushDisruptions_def flushJobRuns_def flushNodeLifecycle_def flushGoroutineCounts_def
  by (auto simp: case_prod_beta Let_def journal_writers_other_than split: option.splits)

lemma own_journals_other_than:
  "other_than shutdown_prefixes s (snd (flush_states w env a s))" "other_than shutdown_prefixes s (snd (flush_counters w env a s))"
  by (simp_all add: flush_states_def flush_counters_def case_prod_beta Let_def journal_writers_other_than)

lemma logCoverage_spares: "spares shutdown_prefixes (logCoverage w env)"
proof -
  have "other_than shutdown_prefixes s (snd (flush_counters w env a (snd (flush_states w env a (fst (WriteCollectionCoverage w t b s))))))" for a s t b
    by (rule other_than_trans [OF other_than_trans [OF snapshot_writers_other_than(1) own_journals_other_than(1)] own_journals_other_than(2)])
  then show ?thesis unfolding spares_def logCoverage_def by (auto simp: case_prod_beta Let_def split: option.splits)
qed

lemma flushInventory_spares: "spares shutdown_prefixes (flushInventory w t)"
proof -
  have "other_than shutdown_prefixes s (snd (fold (write_build w) bs (st, fst (WriteListeningPorts w t ps
      (fst (WriteProcessCounters w t cs (fst (WriteProcessPeaks w t ks (fst (WriteGoInventory w t b rs s))))))))))" for s bs st ps cs ks b rs
    by (rule other_than_trans [OF other_than_trans [OF other_than_trans [OF other_than_trans [OF snapshot_writers_other_than(2)
          snapshot_writers_other_than(3)] snapshot_writers_other_than(4)] snapshot_writers_other_than(5)]
          write_builds_other_than [of "(st, _)", unfolded snd_conv]])
  then show ?thesis unfolding spares_def flushInventory_def by (auto simp: case_prod_beta Let_def split: option.splits)
qed

lemma sparesD:
  assumes "spares pres f"
  shows "Ag_spool a = None \<Longrightarrow> Ag_spool (f a) = None"
    and "Ag_spool a = Some s \<Longrightarrow> \<exists>s'. Ag_spool (f a) = Some s' \<and> other_than pres s s'"
  using assms [unfolded spares_def, THEN spec, of a] by simp_all

lemma sparesI:
  assumes "\<And>a. Ag_spool a = None \<Longrightarrow> Ag_spool (f a) = None"
    and "\<And>a s. Ag_spool a = Some s \<Longrightarrow> \<exists>s'. Ag_spool (f a) = Some s' \<and> other_than pres s s'"
  shows "spares pres f"
  using assms unfolding spares_def by (auto split: option.split)

lemma spares_comp:
  assumes "spares pres f" and "spares pres g"
  shows "spares pres (\<lambda>a. f (g a))"
proof (rule sparesI)
  show "Ag_spool a = None \<Longrightarrow> Ag_spool (f (g a)) = None" for a using sparesD(1) [OF assms(1)] sparesD(1) [OF assms(2)] by blast
  show "\<exists>s'. Ag_spool (f (g a)) = Some s' \<and> other_than pres s s'" if "Ag_spool a = Some s" for a s
    using sparesD(2) [OF assms(2) that] sparesD(2) [OF assms(1)] other_than_trans by blast
qed

lemma shutdown_pass_eq:
  "runFlushers (flushers w env) True =
     (\<lambda>a. flushGoroutineCounts w (Pv_now env) (flushNodeLifecycle w (Pv_now env) (flushJobRuns w (Pv_now env) (flushDisruptions w (Pv_now env)
        (flushRestarts w (Pv_now env) (flushInventory w (Pv_now env) (logCoverage w env a)))))))"
  by (simp add: runFlushers_def flushers_def fun_eq_iff)

text \<open>The payloads that describe the cluster as it is.\<close>

definition cluster_snapshots :: "string list" where
  "cluster_snapshots =
     [''workload-metadata.json'', ''node-metadata.json'', ''workload-revisions.json'', ''workload-policy.json'', ''cluster-policy.json'', ''restart-counters.json'']"

lemma snapshots_apart: "list_all (\<lambda>name. list_all (\<lambda>pre. \<not> HasPrefix name pre) shutdown_prefixes) cluster_snapshots"
  by code_simp

text \<open>
  A shutdown does not restate the cluster. Whatever fails on the way, the last pass leaves the six
  payloads that describe the cluster's current state exactly as the last periodic pass wrote them,
  and every other file it has no writer for: by then the watchers have stopped, and a rewritten
  snapshot would carry an old state under a new instant.
\<close>

theorem shutdown_keeps_cluster_snapshots:
  assumes "Ag_spool a = Some s" and "name \<in> set cluster_snapshots"
  shows "\<exists>s'. Ag_spool (runFlushers (flushers w env) True a) = Some s' \<and> mget (Sp_dir s') name = mget (Sp_dir s) name"
proof -
  have "spares shutdown_prefixes (runFlushers (flushers w env) True)"
    unfolding shutdown_pass_eq 
    by (rule spares_comp [OF journal_flushes_spare(5) spares_comp [OF journal_flushes_spare(4) spares_comp [OF journal_flushes_spare(3)
          spares_comp [OF journal_flushes_spare(2) spares_comp [OF journal_flushes_spare(1) spares_comp [OF flushInventory_spares logCoverage_spares]]]]]])
  then obtain s' where s': "Ag_spool (runFlushers (flushers w env) True a) = Some s'" "other_than shutdown_prefixes s s'"
    using sparesD(2) [OF _ assms(1)] by blast
  have "list_all (\<lambda>pre. \<not> HasPrefix name pre) shutdown_prefixes"
    using assms(2) snapshots_apart by (simp add: list_all_iff)
  then show ?thesis using s' unfolding other_than_def by blast
qed

section \<open>What a shutdown leaves on disk\<close>

text \<open>Every window of the records has its file, with exactly its records.\<close>

definition in_spool :: "('fp, 'p) world \<Rightarrow> ('r \<Rightarrow> windowKey) \<Rightarrow> string \<Rightarrow> (windowKey \<Rightarrow> 'r list \<Rightarrow> 'p) \<Rightarrow> 'r list \<Rightarrow> 'fp Spool \<Rightarrow> bool" where
  "in_spool w windowOf pre mk records s \<longleftrightarrow>
     (\<forall>k \<in> windowOf ` set records. mget (Sp_dir s) (journalWindowName pre k) =
        Some (file_at w (journalWindowName pre k) (mk k (filter (\<lambda>r. windowOf r = k) records))))"

lemma filed_in_spool: "filed w windowOf pre mk records s result \<Longrightarrow> in_spool w windowOf pre mk records (fst result)"
  by (simp add: filed_def in_spool_def)

text \<open>Names under one prefix are safe from writers under others.\<close>

definition apart :: "string \<Rightarrow> string list \<Rightarrow> bool" where
  "apart pre pres \<longleftrightarrow> list_all (\<lambda>q. \<not> HasPrefix q pre \<and> \<not> HasPrefix pre q) pres"

lemma HasPrefix_comparable: "HasPrefix n p \<Longrightarrow> HasPrefix n q \<Longrightarrow> HasPrefix p q \<or> HasPrefix q p"
  unfolding HasPrefix_def by (metis linorder_le_cases min.absorb1 take_take)

lemma in_spool_survives:
  assumes "other_than pres s s'" and "apart pre pres" and "in_spool w windowOf pre mk records s"
  shows "in_spool w windowOf pre mk records s'"
proof -
  have "mget (Sp_dir s') (journalWindowName pre k) = mget (Sp_dir s) (journalWindowName pre k)" for k
  proof -
    have "list_all (\<lambda>q. \<not> HasPrefix (journalWindowName pre k) q) pres"
      using assms(2) HasPrefix_comparable [OF journal_name_prefix [of pre k]] unfolding apart_def list_all_iff by blast
    then show ?thesis using assms(1) unfolding other_than_def by blast
  qed
  then show ?thesis using assms(3) by (simp add: in_spool_def)
qed

text \<open>The shape the five journal closures share.\<close>

definition held_records :: "(time \<Rightarrow> 'j \<Rightarrow> 'r list \<times> 'j) \<Rightarrow> ('j \<Rightarrow> 'r list) \<Rightarrow> time \<Rightarrow> 'j \<Rightarrow> 'r list" where
  "held_records close snaps now j = (let (closed, j) = close now j in closed @ snaps j)"

definition flush_journal ::
    "(journals \<Rightarrow> 'j) \<Rightarrow> ('j \<Rightarrow> journals \<Rightarrow> journals) \<Rightarrow> (time \<Rightarrow> 'j \<Rightarrow> 'r list \<times> 'j) \<Rightarrow> ('j \<Rightarrow> 'r list) \<Rightarrow>
     (time \<Rightarrow> 'r list \<Rightarrow> 'fp Spool \<Rightarrow> 'fp Spool \<times> spool_error option) \<Rightarrow> time \<Rightarrow> 'fp agent \<Rightarrow> 'fp agent" where
  "flush_journal get put close snaps writer now a =
     (case Ag_spool a of
        None \<Rightarrow> a
      | Some spool \<Rightarrow>
          let j = snd (close now (get (Ag_journals a))); records = held_records close snaps now (get (Ag_journals a));
              a = a\<lparr>Ag_journals := put j (Ag_journals a)\<rparr>
          in if records = [] then a else a\<lparr>Ag_spool := Some (fst (writer now records spool))\<rparr>)"

lemma flush_journal_eqs:
  "flushRestarts w = flush_journal J_restarts (\<lambda>j J. J\<lparr>J_restarts := j\<rparr>) Restarts_CloseBefore Restarts_Snapshots (WriteContainerRestarts w)"
  "flushDisruptions w = flush_journal J_disruptions (\<lambda>j J. J\<lparr>J_disruptions := j\<rparr>) Disruptions_CloseBefore Disruptions_Snapshots (WritePodDisruptions w)"
  "flushNodeLifecycle w = flush_journal J_nodes (\<lambda>j J. J\<lparr>J_nodes := j\<rparr>) NodeEvents_CloseBefore NodeEvents_Snapshots (WriteNodeLifecycle w)"
  "flushJobRuns w = flush_journal J_jobs (\<lambda>j J. J\<lparr>J_jobs := j\<rparr>) JobRuns_CloseBefore JobRuns_Snapshots (WriteJobRuns w)"
  "flushGoroutineCounts w = flush_journal J_goroutines (\<lambda>j J. J\<lparr>J_goroutines := j\<rparr>) Goroutines_CloseBefore Goroutines_Snapshots (WriteGoroutineCounts w)"
  by (auto simp: fun_eq_iff flush_journal_def held_records_def flushRestarts_def flushDisruptions_def flushNodeLifecycle_def flushJobRuns_def
      flushGoroutineCounts_def case_prod_beta Let_def split: option.splits)

text \<open>The contract of a journal's writer: it files the windows of its records under its own prefix.\<close>

definition sound :: "('fp, 'p) world \<Rightarrow> bool" where
  "sound w \<longleftrightarrow> faultless w \<and> permutes_keys w \<and> (\<forall>p. marshalIndent w p \<noteq> None)"

locale journal_writer =
  fixes w :: "('fp, 'p) world" and writer :: "time \<Rightarrow> 'r list \<Rightarrow> 'fp Spool \<Rightarrow> 'fp Spool \<times> spool_error option"
    and windowOf :: "'r \<Rightarrow> windowKey" and pre :: string and mk :: "time \<Rightarrow> windowKey \<Rightarrow> 'r list \<Rightarrow> 'p"
  assumes files: "sound w \<Longrightarrow> \<forall>r \<in> set records. nameable (windowOf r) \<Longrightarrow> filed w windowOf pre (mk now) records s (writer now records s)"
    and writes_within: "only_under pre s (fst (writer now records s))"
begin

lemma flush_files:
  assumes "sound w" and "Ag_spool a = Some s" and "\<forall>r \<in> set (held_records close snaps now (get (Ag_journals a))). nameable (windowOf r)"
  shows "\<exists>s'. Ag_spool (flush_journal get put close snaps writer now a) = Some s' \<and>
    in_spool w windowOf pre (mk now) (held_records close snaps now (get (Ag_journals a))) s'"
proof (cases "held_records close snaps now (get (Ag_journals a)) = []")
  case True
  then show ?thesis using assms(2) by (simp add: flush_journal_def in_spool_def)
next
  case False
  then show ?thesis using assms(2) filed_in_spool [OF files [OF assms(1,3)]] by (simp add: flush_journal_def)
qed

lemma flush_spares: "spares [pre] (flush_journal get put close snaps writer now)"
proof (rule sparesI)
  show "\<exists>s'. Ag_spool (flush_journal get put close snaps writer now a) = Some s' \<and> other_than [pre] s s'" if "Ag_spool a = Some s" for a s
    using that other_thanI [OF writes_within, of "[pre]"] by (auto simp: flush_journal_def Let_def)
qed (simp add: flush_journal_def)

lemma flush_step:
  assumes "sound w" and "Ag_spool a = Some s" and "\<forall>r \<in> set (held_records close snaps now (get (Ag_journals a))). nameable (windowOf r)"
  shows "\<exists>s'. Ag_spool (flush_journal get put close snaps writer now a) = Some s' \<and> other_than [pre] s s' \<and>
    in_spool w windowOf pre (mk now) (held_records close snaps now (get (Ag_journals a))) s'"
proof -
  obtain s' where "Ag_spool (flush_journal get put close snaps writer now a) = Some s'" "other_than [pre] s s'"
    using sparesD(2) [OF flush_spares assms(2)] by blast
  then show ?thesis using flush_files [OF assms(1,2), of close snaps now get put] assms(3) by auto
qed

end

interpretation restarts_writer: journal_writer w "WriteContainerRestarts w" restart_window restartsNamePrefix
    "\<lambda>t k recs. ContainerRestartsPayload (journal_payload kindContainerRestarts SourceJournal t k recs)" for w
  by unfold_locales (auto simp: sound_def WriteContainerRestarts_def [of w] intro!: filedI restarts_kind.windows_written journal_writers_within [unfolded WriteContainerRestarts_def])

interpretation disruptions_writer: journal_writer w "WritePodDisruptions w" disruption_window disruptionsNamePrefix
    "\<lambda>t k recs. PodDisruptionsPayload (journal_payload kindPodDisruptions SourceJournal t k recs)" for w
  by unfold_locales (auto simp: sound_def WritePodDisruptions_def [of w] intro!: filedI disruptions_kind.windows_written journal_writers_within [unfolded WritePodDisruptions_def])

interpretation nodes_writer: journal_writer w "WriteNodeLifecycle w" node_event_window nodeLifecycleNamePrefix
    "\<lambda>t k recs. NodeLifecyclePayload (journal_payload kindNodeLifecycle SourceJournal t k recs)" for w
  by unfold_locales (auto simp: sound_def WriteNodeLifecycle_def [of w] intro!: filedI node_lifecycle_kind.windows_written journal_writers_within [unfolded WriteNodeLifecycle_def])

interpretation jobs_writer: journal_writer w "WriteJobRuns w" job_window jobRunsNamePrefix
    "\<lambda>t k recs. JobRunsPayload (journal_payload kindJobRuns SourceJournal t k recs)" for w
  by unfold_locales (auto simp: sound_def WriteJobRuns_def [of w] intro!: filedI job_runs_kind.windows_written journal_writers_within [unfolded WriteJobRuns_def])

interpretation goroutines_writer: journal_writer w "WriteGoroutineCounts w" goroutine_window goroutineCountsNamePrefix
    "\<lambda>t k recs. GoroutineCountsPayload (journal_payload kindGoroutineCounts SourceMeasured t k recs)" for w
  by unfold_locales (auto simp: sound_def WriteGoroutineCounts_def [of w] intro!: filedI goroutine_kind.windows_written journal_writers_within [unfolded WriteGoroutineCounts_def])

interpretation states_writer: journal_writer w "WriteAgentStates w" state_window agentStatesNamePrefix
    "\<lambda>t k recs. AgentStatesPayload (journal_payload kindAgentStates SourceAgent t k recs)" for w
  by unfold_locales (auto simp: sound_def WriteAgentStates_def [of w] intro!: filedI agent_states_kind.windows_written journal_writers_within [unfolded WriteAgentStates_def])

interpretation counters_writer: journal_writer w "WriteAgentCounters w" counter_window agentCountersNamePrefix
    "\<lambda>t k recs. AgentCountersPayload (journal_payload kindAgentCounters SourceAgent t k recs)" for w
  by unfold_locales (auto simp: sound_def WriteAgentCounters_def [of w] intro!: filedI agent_counters_kind.windows_written journal_writers_within [unfolded WriteAgentCounters_def])

definition pending_states :: "'s pass_env \<Rightarrow> 'fp agent \<Rightarrow> StateRecord list" where
  "pending_states env a =
     held_records States_CloseBefore States_Snapshots (Pv_now env)
       (States_Observe (Pv_now env) (agentStates (SourceHealths (Pv_limits env) (Pv_now env) (Pv_sources env)) (map_option Shipper.Coverage (Ag_shipper a)))
          (J_states (Ag_journals a)))"

definition pending_counters :: "'s pass_env \<Rightarrow> 'fp agent \<Rightarrow> CounterRecord list" where
  "pending_counters env a =
     held_records Counters_CloseBefore Counters_Snapshots (Pv_now env)
       (Counters_Observe (Pv_now env) (Pv_startedAt env)
          (agentCounters (Filter_Snapshot (W_filter (Ag_pods a))) (Poller_Observation (Ag_usage a)) (map_option Pr_cover (Ag_puller a)) (Pv_intake env))
          (J_counters (Ag_journals a)))"

lemma own_journals_filed:
  assumes "sound w"
  shows "\<forall>r \<in> set (pending_states env a). nameable (state_window r) \<Longrightarrow>
      in_spool w state_window agentStatesNamePrefix (\<lambda>k recs. AgentStatesPayload (journal_payload kindAgentStates SourceAgent (Pv_now env) k recs))
        (pending_states env a) (snd (flush_states w env a s))"
    and "\<forall>r \<in> set (pending_counters env a). nameable (counter_window r) \<Longrightarrow>
      in_spool w counter_window agentCountersNamePrefix (\<lambda>k recs. AgentCountersPayload (journal_payload kindAgentCounters SourceAgent (Pv_now env) k recs))
        (pending_counters env a) (snd (flush_counters w env a s))"
    and "other_than [agentCountersNamePrefix] s (snd (flush_counters w env a s))"
proof -
  have st: "snd (flush_states w env a s) = (if pending_states env a = [] then s else fst (WriteAgentStates w (Pv_now env) (pending_states env a) s))"
    by (simp add: flush_states_def pending_states_def held_records_def case_prod_beta Let_def)
  have ct: "snd (flush_counters w env a s) = (if pending_counters env a = [] then s else fst (WriteAgentCounters w (Pv_now env) (pending_counters env a) s))"
    by (simp add: flush_counters_def pending_counters_def held_records_def case_prod_beta Let_def)
  show "\<forall>r \<in> set (pending_states env a). nameable (state_window r) \<Longrightarrow>
      in_spool w state_window agentStatesNamePrefix (\<lambda>k recs. AgentStatesPayload (journal_payload kindAgentStates SourceAgent (Pv_now env) k recs))
        (pending_states env a) (snd (flush_states w env a s))"
    unfolding st using filed_in_spool [OF states_writer.files [OF assms]] by (simp add: in_spool_def)
  show "\<forall>r \<in> set (pending_counters env a). nameable (counter_window r) \<Longrightarrow>
      in_spool w counter_window agentCountersNamePrefix (\<lambda>k recs. AgentCountersPayload (journal_payload kindAgentCounters SourceAgent (Pv_now env) k recs))
        (pending_counters env a) (snd (flush_counters w env a s))"
    unfolding ct using filed_in_spool [OF counters_writer.files [OF assms]] by (simp add: in_spool_def)
  show "other_than [agentCountersNamePrefix] s (snd (flush_counters w env a s))"
    unfolding ct by (simp add: other_thanI [OF counters_writer.writes_within])
qed

lemma own_apart: "apart agentStatesNamePrefix [agentCountersNamePrefix]"
  by code_simp

lemma logCoverage_files:
  assumes "sound w" and "Ag_spool a = Some s" and "\<forall>r \<in> set (pending_states env a). nameable (state_window r)"
    and "\<forall>r \<in> set (pending_counters env a). nameable (counter_window r)"
  shows "\<exists>s'. Ag_spool (logCoverage w env a) = Some s' \<and>
    in_spool w state_window agentStatesNamePrefix (\<lambda>k recs. AgentStatesPayload (journal_payload kindAgentStates SourceAgent (Pv_now env) k recs))
      (pending_states env a) s' \<and>
    in_spool w counter_window agentCountersNamePrefix (\<lambda>k recs. AgentCountersPayload (journal_payload kindAgentCounters SourceAgent (Pv_now env) k recs))
      (pending_counters env a) s'"
  using assms(2) own_journals_filed(2) [OF assms(1,4)] in_spool_survives [OF own_journals_filed(3) [OF assms(1)] own_apart own_journals_filed(1) [OF assms(1,3)]]
  by (simp add: logCoverage_def case_prod_beta Let_def)

lemma other_journals [simp]:
  "J_restarts (Ag_journals (logCoverage w env a)) = J_restarts (Ag_journals a)" "J_disruptions (Ag_journals (logCoverage w env a)) = J_disruptions (Ag_journals a)"
  "J_jobs (Ag_journals (logCoverage w env a)) = J_jobs (Ag_journals a)" "J_nodes (Ag_journals (logCoverage w env a)) = J_nodes (Ag_journals a)"
  "J_goroutines (Ag_journals (logCoverage w env a)) = J_goroutines (Ag_journals a)" "Ag_journals (flushInventory w t a) = Ag_journals a"
  "J_disruptions (Ag_journals (flushRestarts w t a)) = J_disruptions (Ag_journals a)" "J_jobs (Ag_journals (flushRestarts w t a)) = J_jobs (Ag_journals a)"
  "J_nodes (Ag_journals (flushRestarts w t a)) = J_nodes (Ag_journals a)" "J_goroutines (Ag_journals (flushRestarts w t a)) = J_goroutines (Ag_journals a)"
  "J_jobs (Ag_journals (flushDisruptions w t a)) = J_jobs (Ag_journals a)" "J_nodes (Ag_journals (flushDisruptions w t a)) = J_nodes (Ag_journals a)"
  "J_goroutines (Ag_journals (flushDisruptions w t a)) = J_goroutines (Ag_journals a)"
  "J_nodes (Ag_journals (flushJobRuns w t a)) = J_nodes (Ag_journals a)" "J_goroutines (Ag_journals (flushJobRuns w t a)) = J_goroutines (Ag_journals a)"
  "J_goroutines (Ag_journals (flushNodeLifecycle w t a)) = J_goroutines (Ag_journals a)"
  by (simp_all add: logCoverage_def flushInventory_def flushRestarts_def flushDisruptions_def flushJobRuns_def flushNodeLifecycle_def
      case_prod_beta Let_def split: option.split)

lemmas flush_steps =
  restarts_writer.flush_step [where get = J_restarts and put = "\<lambda>j J. J\<lparr>J_restarts := j\<rparr>" and close = Restarts_CloseBefore and snaps = Restarts_Snapshots]
  disruptions_writer.flush_step [where get = J_disruptions and put = "\<lambda>j J. J\<lparr>J_disruptions := j\<rparr>" and close = Disruptions_CloseBefore and snaps = Disruptions_Snapshots]
  jobs_writer.flush_step [where get = J_jobs and put = "\<lambda>j J. J\<lparr>J_jobs := j\<rparr>" and close = JobRuns_CloseBefore and snaps = JobRuns_Snapshots]
  nodes_writer.flush_step [where get = J_nodes and put = "\<lambda>j J. J\<lparr>J_nodes := j\<rparr>" and close = NodeEvents_CloseBefore and snaps = NodeEvents_Snapshots]
  goroutines_writer.flush_step [where get = J_goroutines and put = "\<lambda>j J. J\<lparr>J_goroutines := j\<rparr>" and close = Goroutines_CloseBefore and snaps = Goroutines_Snapshots]

definition inventory_prefixes :: "string list" where
  "inventory_prefixes = [''go-inventory.json'', ''process-peaks.json'', ''process-counters.json'', ''listening-ports.json'', ''go-build-'']"

lemma other_than_mono: "other_than pres s s' \<Longrightarrow> set pres \<subseteq> set pres' \<Longrightarrow> other_than pres' s s'"
  unfolding other_than_def list_all_iff by blast

lemma other_than_join: "other_than pres s s' \<Longrightarrow> other_than pres' s' s'' \<Longrightarrow> other_than (pres @ pres') s s''"
  unfolding other_than_def by (simp add: list_all_append)

lemma inventory_builds: "other_than inventory_prefixes (snd st) (snd (fold (write_build w) bs st))"
proof (induction bs arbitrary: st)
  case (Cons b bs)
  have "other_than inventory_prefixes (snd st) (snd (write_build w b st))"
    using other_thanI [OF build_writer_within [of "snd st" w "build_blocks b"], of inventory_prefixes]
    by (auto simp: write_build_def inventory_prefixes_def split: prod.splits option.splits)
  then show ?case using Cons other_than_trans by fastforce
qed simp

lemma inventory_writers:
  "other_than inventory_prefixes s (fst (WriteGoInventory w t b rs s))" "other_than inventory_prefixes s (fst (WriteProcessPeaks w t ps s))"
  "other_than inventory_prefixes s (fst (WriteProcessCounters w t cs s))" "other_than inventory_prefixes s (fst (WriteListeningPorts w t ls s))"
  by (rule other_thanI [OF snapshot_writers_within(2)] other_thanI [OF snapshot_writers_within(3)] other_thanI [OF snapshot_writers_within(4)]
      other_thanI [OF snapshot_writers_within(5)]; simp add: inventory_prefixes_def)+

lemma flushInventory_own: "spares inventory_prefixes (flushInventory w t)"
proof -
  have "other_than inventory_prefixes s (snd (fold (write_build w) bs (st, fst (WriteListeningPorts w t ps
      (fst (WriteProcessCounters w t cs (fst (WriteProcessPeaks w t ks (fst (WriteGoInventory w t b rs s))))))))))" for s bs st ps cs ks b rs
    by (rule other_than_trans [OF other_than_trans [OF other_than_trans [OF other_than_trans [OF inventory_writers(1)
          inventory_writers(2)] inventory_writers(3)] inventory_writers(4)] inventory_builds [of "(st, _)", unfolded snd_conv]])
  then show ?thesis unfolding spares_def flushInventory_def by (auto simp: case_prod_beta Let_def split: option.splits)
qed

lemma pass_apart:
  "apart restartsNamePrefix [disruptionsNamePrefix, jobRunsNamePrefix, nodeLifecycleNamePrefix, goroutineCountsNamePrefix]"
  "apart disruptionsNamePrefix [jobRunsNamePrefix, nodeLifecycleNamePrefix, goroutineCountsNamePrefix]"
  "apart jobRunsNamePrefix [nodeLifecycleNamePrefix, goroutineCountsNamePrefix]"
  "apart nodeLifecycleNamePrefix [goroutineCountsNamePrefix]"
  "apart agentStatesNamePrefix (inventory_prefixes @ [restartsNamePrefix, disruptionsNamePrefix, jobRunsNamePrefix, nodeLifecycleNamePrefix, goroutineCountsNamePrefix])"
  "apart agentCountersNamePrefix (inventory_prefixes @ [restartsNamePrefix, disruptionsNamePrefix, jobRunsNamePrefix, nodeLifecycleNamePrefix, goroutineCountsNamePrefix])"
  by code_simp+


section \<open>An agent at shutdown\<close>

text \<open>A world in which nothing fails, a cluster without caches, and an agent that has seen nothing yet.\<close>

definition serene :: "(string, (Observation, block) payload) world" where
  "serene = \<lparr>sha256 = (\<lambda>data. data), marshalIndent = (\<lambda>_. Some ''{}''), visit = rev,
     at_write = (\<lambda>_. \<lparr>W_io = no_faults 7, W_now = 7, W_later = 7\<rparr>)\<rparr>"

lemma serene_sound: "sound serene"
  by (simp add: sound_def faultless_def permutes_keys_def serene_def no_faults_def)

definition last_pass :: "unit pass_env" where
  "last_pass = \<lparr>Pv_now = epoch + 60 * second, Pv_startedAt = epoch, Pv_version = ''dev'', Pv_shape = Describe zeroConfig [] None epoch,
     Pv_policyListers = budget_caches, Pv_strategyListers = \<lparr>Sl_deployments = None, Sl_statefulSets = None, Sl_daemonSets = None\<rparr>,
     Pv_replicaSets = None, Pv_podLister = None, Pv_limits = defaultWatchLimits, Pv_sources = [], Pv_intake = None\<rparr>"

definition young :: "string agent" where
  "young = \<lparr>Ag_spool = Some empty_spool, Ag_journals = new_journals,
     Ag_pods = NewPodWatcher (NewFilter [] []) \<lparr>Cb_oom = True, Cb_restart = True, Cb_disruption = True, Cb_job = True\<rparr>,
     Ag_nodes = NewNodeWatcher epoch, Ag_usage = NewUsagePoller, Ag_targets = None, Ag_store = None, Ag_prober = None, Ag_puller = None, Ag_counter = None,
     Ag_shipper = None, Ag_beat = NewHeartbeat epoch minute, Ag_pprofExcluded = 0, Ag_profilesReceived = 0, Ag_profilesUnjoined = 0\<rparr>"

text \<open>A first observation opens one record for each counter, all of the window it falls in.\<close>

lemma counter_writes_window:
  assumes "\<And>r. counter_window (f r) = counter_window r"
    and "\<forall>k r. mget (Counters_open c) k = Some r \<longrightarrow>
      counter_window r = \<lparr>wk_start = Truncate at (Counters_windowLength c), wk_seconds = windowSeconds (Counters_windowLength c)\<rparr>"
  shows "mget (Counters_open (fold (\<lambda>name. Counters_write name at f) names c)) k = Some r \<Longrightarrow>
    counter_window r = \<lparr>wk_start = Truncate at (Counters_windowLength c), wk_seconds = windowSeconds (Counters_windowLength c)\<rparr>"
  using assms(2)
proof (induction names arbitrary: c)
  case (Cons n names)
  let ?c = "Counters_write n at f c"
  have "\<forall>k r. mget (Counters_open ?c) k = Some r \<longrightarrow>
      counter_window r = \<lparr>wk_start = Truncate at (Counters_windowLength ?c), wk_seconds = windowSeconds (Counters_windowLength ?c)\<rparr>"
    using Cons.prems(2) unfolding Counters_write_frame Counters_write_eq
    by (auto simp: assms(1) mget_or_def split: option.splits) (simp_all add: counter_window_def newCounterRecord_def)
  then show ?case using Cons.IH [of ?c] Cons.prems(1) by simp
qed (cases k, simp)

lemma first_counters_window:
  assumes "Counters_open c = mempty" and "IsZero (Counters_prevSince c)"
    and "r \<in> set (held_records Counters_CloseBefore Counters_Snapshots now (Counters_Observe at since vs c))"
  shows "counter_window r = \<lparr>wk_start = Truncate at (Counters_windowLength c), wk_seconds = windowSeconds (Counters_windowLength c)\<rparr>"
proof -
  have "\<exists>k. mget (Counters_open (Counters_Observe at since vs c)) k = Some r"
    using assms(3) by (auto simp: held_records_def Counters_CloseBefore_def close_before_def Counters_Snapshots_def snapshots_def
        mvalues_mfilter mvalues_iff Let_def)
  then obtain k where "mget (Counters_open (fold (\<lambda>name. Counters_write name at (\<lambda>rec. rec\<lparr>CT_AccruedTo := at\<rparr>)) (mkeys vs) c)) k = Some r"
    using assms(2) by (auto simp: Counters_Observe_def)
  from counter_writes_window [OF _ _ this] show ?thesis using assms(1) by (auto simp: counter_window_def)
qed

lemma counter_writes_open:
  "n \<in> set names \<or> mget (Counters_open c) (n, UnixNano (Truncate at (Counters_windowLength c))) \<noteq> None \<Longrightarrow>
   mget (Counters_open (fold (\<lambda>name. Counters_write name at f) names c)) (n, UnixNano (Truncate at (Counters_windowLength c))) \<noteq> None"
proof (induction names arbitrary: c)
  case (Cons m names)
  then show ?case using Cons.IH [of "Counters_write m at f c"] by (auto simp: Counters_write_eq)
qed simp

lemma held_counters_nonempty:
  assumes "mget (Counters_open c) k \<noteq> None"
  shows "held_records Counters_CloseBefore Counters_Snapshots now c \<noteq> []"
proof -
  obtain r where "r \<in> set (mvalues (Counters_open c))" using assms mvalues_iff by (metis not_None_eq)
  then have "r \<in> set (held_records Counters_CloseBefore Counters_Snapshots now c)"
    by (auto simp: held_records_def Counters_CloseBefore_def close_before_def Counters_Snapshots_def snapshots_def mvalues_mfilter Let_def)
  then show ?thesis by auto
qed

lemma first_counters_held:
  assumes "IsZero (Counters_prevSince c)" and "n \<in> set (mkeys vs)"
  shows "held_records Counters_CloseBefore Counters_Snapshots now (Counters_Observe at since vs c) \<noteq> []"
  using assms counter_writes_open [of n "mkeys vs" c at "\<lambda>rec. rec\<lparr>CT_AccruedTo := at\<rparr>"]
  by (intro held_counters_nonempty [where k = "(n, UnixNano (Truncate at (Counters_windowLength c)))"]) (simp add: Counters_Observe_def)

lemma agentCounters_observed: "''filter.pods_observed'' \<in> set (mkeys (agentCounters filt obs pull intake))"
  by (simp add: agentCounters_def mkeys_iff split: option.splits)

lemma young_counters:
  "\<forall>r \<in> set (pending_counters last_pass young). nameable (counter_window r)" "pending_counters last_pass young \<noteq> []"
proof -
  let ?c = "J_counters (Ag_journals young)"
  have c: "Counters_open ?c = mempty" "IsZero (Counters_prevSince ?c)" "Counters_windowLength ?c = hour"
    by (simp_all add: young_def new_journal_defs)
  have "nameable \<lparr>wk_start = Truncate (Pv_now last_pass) hour, wk_seconds = windowSeconds hour\<rparr>"
    by (simp add: last_pass_def nameable_def epoch_def Unix_def maxInt64_def Truncate_def hour_def minute_def second_def unixToInternal_def
        windowSeconds_def signed_divide_int_def)
  then show "\<forall>r \<in> set (pending_counters last_pass young). nameable (counter_window r)"
    using first_counters_window [OF c(1,2)] unfolding pending_counters_def c(3) by metis
  show "pending_counters last_pass young \<noteq> []"
    unfolding pending_counters_def by (rule first_counters_held [OF c(2) agentCounters_observed])
qed

lemma young_holds:
  "held_records Restarts_CloseBefore Restarts_Snapshots t (J_restarts (Ag_journals young)) = []"
  "held_records Disruptions_CloseBefore Disruptions_Snapshots t (J_disruptions (Ag_journals young)) = []"
  "held_records JobRuns_CloseBefore JobRuns_Snapshots t (J_jobs (Ag_journals young)) = []"
  "held_records NodeEvents_CloseBefore NodeEvents_Snapshots t (J_nodes (Ag_journals young)) = []"
  "held_records Goroutines_CloseBefore Goroutines_Snapshots t (J_goroutines (Ag_journals young)) = []"
  by (simp_all add: young_def new_journal_defs held_records_def Restarts_CloseBefore_def Restarts_Snapshots_def Disruptions_CloseBefore_def
      Disruptions_Snapshots_def JobRuns_CloseBefore_def JobRuns_Snapshots_def NodeEvents_CloseBefore_def NodeEvents_Snapshots_def
      Goroutines_CloseBefore_def Goroutines_Snapshots_def close_before_def snapshots_def mvalues_def)

lemma young_states: "pending_states last_pass young = []"
proof -
  have "agentStates (SourceHealths (Pv_limits last_pass) t (Pv_sources last_pass)) (map_option Shipper.Coverage (Ag_shipper young)) = []" for t
    by (simp add: last_pass_def young_def SourceHealths_def agentStates_def)
  then show ?thesis
    unfolding pending_states_def by (simp add: States_Observe_def young_def new_journal_defs held_records_def States_CloseBefore_def
        States_Snapshots_def close_before_def snapshots_def mvalues_def)
qed

theorem shutdown_keeps_cluster_snapshots_witness:
  "\<exists>s'. Ag_spool (runFlushers (flushers serene last_pass) True young) = Some s' \<and> mget (Sp_dir s') ''workload-policy.json'' = None"
  using shutdown_keeps_cluster_snapshots [of young empty_spool "''workload-policy.json''" serene last_pass]
  by (simp add: young_def cluster_snapshots_def)


section \<open>Delivery and the open windows\<close>

text \<open>The spool's directory is the one the shipper offers from.\<close>

definition same_disk :: "idir \<Rightarrow> 'fp Spool \<Rightarrow> bool" where
  "same_disk dir s \<longleftrightarrow>
     (\<forall>n. mget (Sp_dir s) n = map_option (\<lambda>f. \<lparr>F_data = I_data f, F_modTime = I_modTime f, F_isDir = I_isDir f\<rparr>) (mget dir n))"

text \<open>A round that delivers everything leaves nothing.\<close>

lemma Round_empties:
  assumes "Round kind_of gzip penv env sh dir = (sh', dir', rqs)" and "\<not> halted sh" and "\<not> Pe_list_fails penv" and "\<forall>n. acknowledging (env n)"
    and "\<forall>n f. mget dir n = Some f \<longrightarrow> shippable penv (n, f) \<and> \<not> is_held (Sh_held sh) (n, f) \<and> deliverable kind_of gzip f"
  shows "mget dir' n = None"
proof -
  obtain t files where p: "pending penv dir sh = (t, files)" by force
  have loop: "round_loop kind_of gzip env files t dir = (sh', dir', rqs)" using assms(1,2) p by (simp add: Round_def)
  note files = pending_eq(1) [OF p assms(3)]
  have "distinct (map Sd_name files)" by (rule pending_distinct [OF p assms(3)])
  moreover have "\<exists>g. mget dir (Sd_name f) = Some g \<and> deliverable kind_of gzip g" if "f \<in> set files" for f
    using that assms(5) unfolding files by (auto simp: mk_spooled_def mget_entries)
  ultimately have "mget dir' n = (if n \<in> Sd_name ` set files then None else mget dir n)"
    using round_loop_drains [OF _ _ _ loop] assms(4) by blast
  moreover have "n \<in> Sd_name ` set files" if "mget dir n = Some f" for f
    using that assms(5) unfolding files by (force simp: mk_spooled_def mget_entries)
  ultimately show ?thesis by (cases "mget dir n") auto
qed

text \<open>Nothing is resumed from an empty directory.\<close>

lemma seed_from_nothing:
  assumes "Sp_dir s = mempty" and "readable io" and "seedOpenWindows ds io now s p j = (s', p', j', log)"
  shows "p' = p \<and> j' = j"
proof -
  obtain s1 rec where r: "RecoverOpenWindows ds io now s = (s1, Inr rec)" using Recover_succeeds [OF assms(2)] by blast
  have none: "entries (Sp_dir s) = []" unfolding assms(1) by simp
  note recs = recovered(1-8) [OF r, unfolded none list.map concat.simps]
  show ?thesis unfolding seedOpenWindows_eq(1,2) [OF r assms(3)] recs
    by (simp add: Poller_Seed_def Restarts_Resume_def Disruptions_Resume_def NodeEvents_Resume_def States_Resume_def Counters_Resume_def
        JobRuns_Resume_def Goroutines_Resume_def)
qed


text \<open>The counter journal of an hour, delivered in the middle of it; \<open>counter_spool\<close> is the spool before the round.\<close>

definition counter_dir :: idir where
  "counter_dir = mput (journalWindowName agentCountersNamePrefix hour_window) \<lparr>I_ino = 1, I_data = ''{}'', I_modTime = 7, I_isDir = False\<rparr> mempty"


section \<open>Whom the prober, the puller and the counter contact\<close>

text \<open>
  C26. Only an admitted replica is contacted. Whatever the pods did before, an address the resolver gives for a
  candidate is the cached address of a pod whose last word admitted it, that has not opted out of
  profiling, is running, belongs to the candidate's namespace and workload and runs the candidate's
  container from the candidate's image; it is that address with the candidate's port.
\<close>

theorem pprof_contacts_admitted_only:
  assumes "w = runPods tr (NewPodWatcher f cbs)" and "replica podIP w c = Some (addr, pod)"
  shows "\<exists>entry ip. admitted_by f tr entry \<and> E_profilable entry \<and> PI_Phase (E_info entry) = ''Running'' \<and> E_name entry = pod \<and>
    E_namespace entry = Cd_Namespace c \<and> E_workload entry = WorkloadRef (Cd_WorkloadKind c) (Cd_WorkloadName c) \<and>
    runsBuild entry (Cd_Container c) (fst (Cd_Target c)) \<and> podIP pod = Some ip \<and> ip \<noteq> [] \<and> addr = HostPort ip (snd (Cd_Target c))"
proof -
  define P where "P = (\<lambda>entry. E_namespace entry = Cd_Namespace c \<and> E_workload entry = WorkloadRef (Cd_WorkloadKind c) (Cd_WorkloadName c) \<and>
    E_profilable entry \<and> PI_Phase (E_info entry) = ''Running'' \<and> runsBuild entry (Cd_Container c) (fst (Cd_Target c)))"
  define names where "names = sort_slice (<) (map E_name (filter P (mvalues (W_index w))))"
  have found: "List.find (\<lambda>name. case podIP name of None \<Rightarrow> False | Some ip \<Rightarrow> ip \<noteq> []) names = Some pod"
    "addr = HostPort (the (podIP pod)) (snd (Cd_Target c))"
    using assms(2) unfolding replica_def PodReplica_def P_def [symmetric] Let_def names_def [symmetric]
    by (cases "List.find (\<lambda>name. case podIP name of None \<Rightarrow> False | Some ip \<Rightarrow> ip \<noteq> []) names"; simp)+
  from found(1) obtain ip where ip: "pod \<in> set names" "podIP pod = Some ip" "ip \<noteq> []"
    by (auto simp: find_Some_iff split: option.splits)
  then obtain entry uid where "P entry" "E_name entry = pod" "mget (W_index w) uid = Some entry"
    by (auto simp: names_def mvalues_iff)
  then show ?thesis
    using ip found(2) assms(1) indexed_admitted [of tr f cbs uid entry] unfolding P_def by (intro exI [of _ entry] exI [of _ ip]) simp
qed

definition web_candidate :: Candidate where
  "web_candidate = \<lparr>Cd_Target = (''sha256:0f'', 6060), Cd_Namespace = ''shop'', Cd_WorkloadKind = ''StatefulSet'', Cd_WorkloadName = ''web'',
     Cd_Container = ''app'', Cd_OwnModules = []\<rparr>"

definition web_entry :: podIndexEntry where
  "web_entry = entry_of no_caches (web_pod plain_container) True"

lemma web_entry_facts:
  "runsBuild web_entry ''app'' ''sha256:0f''"
  "E_profilable web_entry \<and> PI_Phase (E_info web_entry) = ''Running'' \<and> E_namespace web_entry = ''shop'' \<and> E_name web_entry = ''web-1'' \<and>
   E_workload web_entry = WorkloadRef ''StatefulSet'' ''web''"
proof -
  have "list_ex (\<lambda>ci. Id_name ci = ''app'' \<and> Id_imageDigest ci = ''sha256:0f'') (mvalues (containerIndex (web_pod plain_container)))" by code_simp
  then show "runsBuild web_entry ''app'' ''sha256:0f''" by (simp add: runsBuild_def web_entry_def entry_of_def Let_def)
qed (simp add: web_entry_def entry_of_def resolveWorkload_def describe_def case_prod_beta Let_def, simp add: web_pod_def)

lemma web_index: "W_index (runPods [(no_caches, 5, PodAdded (web_pod plain_container))] new_watcher) = mput ''u1'' web_entry mempty"
proof (rule gomap_eqI)
  have d: "A_collect (decide no_caches (NewFilter [] []) (web_pod plain_container)) \<and> A_profile (decide no_caches (NewFilter [] []) (web_pod plain_container))"
    by code_simp
  have u: "Pod_UID (web_pod plain_container) = ''u1''" by (simp add: web_pod_def)
  show "mget (W_index (runPods [(no_caches, 5, PodAdded (web_pod plain_container))] new_watcher)) k = mget (mput ''u1'' web_entry mempty) k" for k
    unfolding new_watcher_def index_after_run using d u by (simp add: speaks_of_def left_by_def web_entry_def)
qed

theorem pprof_contacts_admitted_only_witness:
  "\<exists>entry. admitted_by (NewFilter [] []) [(no_caches, 5, PodAdded (web_pod plain_container))] entry \<and> E_profilable entry \<and>
    E_name entry = ''web-1'' \<and> E_namespace entry = ''shop''"
proof -
  let ?tr = "[(no_caches, 5, PodAdded (web_pod plain_container))]" and ?ip = "\<lambda>_ :: string. Some ''10.0.0.1''"
  have "mvalues (W_index (runPods ?tr new_watcher)) = [web_entry]" unfolding web_index by (simp add: mvalues_def)
  moreover have "sort_slice (<) [''web-1''] = [''web-1'']" by code_simp
  ultimately have "replica ?ip (runPods ?tr new_watcher) web_candidate = Some (HostPort ''10.0.0.1'' 6060, ''web-1'')"
    using web_entry_facts by (simp add: replica_def PodReplica_def web_candidate_def)
  then show ?thesis
    using pprof_contacts_admitted_only [OF refl, of ?ip ?tr "NewFilter [] []" "\<lparr>Cb_oom = True, Cb_restart = True, Cb_disruption = True, Cb_job = True\<rparr>"
        web_candidate "HostPort ''10.0.0.1'' 6060" "''web-1''"]
    unfolding new_watcher_def by (auto simp: web_candidate_def)
qed

end
