(* ===== verification/AgentEvents.thy ===== *)
theory AgentEvents
  imports AgentPasses
begin

text \<open>
  The controller at work, after \<open>run\<close> of \<open>cmd/agent/main.go\<close>: what the callbacks of the watchers and the
  poller do with what they are given, the periodic pass, and runs of the agent as sequences of these
  steps in any order. A step that would panic is \<^const>\<open>None\<close>.

  The property is an invariant of all runs: what the journals hold of pods and Jobs was admitted.
\<close>

section \<open>Callbacks\<close>

definition on_emission ::
    "('fp, (Observation, block) payload) world \<Rightarrow> emission \<Rightarrow> 'fp agent \<Rightarrow> 'fp agent option" where
  "on_emission w e a =
     (let j = Ag_journals a in
      case e of
        OnPod _ \<Rightarrow> Some a
      | OnOOM kill \<Rightarrow> Some (a\<lparr>Ag_spool := map_option (\<lambda>spool. fst (WriteOOMKill w kill spool)) (Ag_spool a)\<rparr>)
      | OnRestart r \<Rightarrow> map_option (\<lambda>restarts. a\<lparr>Ag_journals := j\<lparr>J_restarts := restarts\<rparr>\<rparr>) (Restarts_Observe r (J_restarts j))
      | OnDisruption d \<Rightarrow> Some (a\<lparr>Ag_journals := j\<lparr>J_disruptions := Disruptions_Observe d (J_disruptions j)\<rparr>\<rparr>)
      | OnJobFinished r \<Rightarrow> Some (a\<lparr>Ag_journals := j\<lparr>J_jobs := JobRuns_Observe r (J_jobs j)\<rparr>\<rparr>))"

fun on_emissions ::
    "('fp, (Observation, block) payload) world \<Rightarrow> emission list \<Rightarrow> 'fp agent \<Rightarrow> 'fp agent option" where
  "on_emissions w [] a = Some a"
| "on_emissions w (e # es) a = (case on_emission w e a of None \<Rightarrow> None | Some a \<Rightarrow> on_emissions w es a)"

definition on_node_report :: "node_report \<Rightarrow> 'fp agent \<Rightarrow> 'fp agent" where
  "on_node_report r a =
     (case r of
        Observed _ \<Rightarrow> a
      | Lifecycle e \<Rightarrow> a\<lparr>Ag_journals := (Ag_journals a)\<lparr>J_nodes := NodeEvents_Observe e (J_nodes (Ag_journals a))\<rparr>\<rparr>)"

text \<open>The three callbacks of the poller, in the order its flush calls them; an empty list calls none.\<close>

definition optedOutTargets :: "PodWatcher \<Rightarrow> Target list" where
  "optedOutTargets w = map (\<lambda>(namespace, workload). (namespace, Ref_Kind workload, Ref_Name workload)) (ProfilingOptOuts w)"

definition onClosed :: "('fp, (Observation, block) payload) world \<Rightarrow> Histogram Record list \<Rightarrow> 'fp agent \<Rightarrow> 'fp agent" where
  "onClosed w records a =
     a\<lparr>Ag_spool := map_option (\<lambda>spool. fst (WriteClosedWindows w records (Poller_Observation (Ag_usage a)) spool)) (Ag_spool a)\<rparr>"

definition onSnapshot :: "('fp, (Observation, block) payload) world \<Rightarrow> Histogram Record list \<Rightarrow> 'fp agent \<Rightarrow> 'fp agent" where
  "onSnapshot w records a =
     a\<lparr>Ag_targets := map_option (Publish (optedOutTargets (Ag_pods a)) records) (Ag_targets a),
       Ag_spool := map_option (\<lambda>spool. fst (WriteUsageSnapshot w records (Poller_Observation (Ag_usage a)) spool)) (Ag_spool a)\<rparr>"

definition onNetwork :: "('fp, (Observation, block) payload) world \<Rightarrow> NetworkRecord list \<Rightarrow> 'fp agent \<Rightarrow> 'fp agent" where
  "onNetwork w records a =
     a\<lparr>Ag_spool := map_option (\<lambda>spool. fst (WriteNetworkWindows w records (Poller_Observation (Ag_usage a)) spool)) (Ag_spool a)\<rparr>"

definition on_flush :: "('fp, (Observation, block) payload) world \<Rightarrow> time \<Rightarrow> 'fp agent \<Rightarrow> 'fp agent" where
  "on_flush w now a =
     (let (fl, usage) = poller_flush now (Ag_usage a);
          a = a\<lparr>Ag_usage := usage\<rparr>;
          a = (if Fl_closed fl = [] then a else onClosed w (Fl_closed fl) a);
          a = (if Fl_snapshots fl = [] then a else onSnapshot w (Fl_snapshots fl) a)
      in if Fl_network fl = [] then a else onNetwork w (Fl_network fl) a)"

section \<open>Runs\<close>

text \<open>One tick of the periodic pass: the heartbeat, the writers, then the sweep.\<close>

definition periodic_pass ::
    "('fp, (Observation, block) payload) world \<Rightarrow> 's pass_env \<Rightarrow> io \<Rightarrow> time \<Rightarrow> 'fp agent \<Rightarrow> 'fp agent" where
  "periodic_pass w env io now a =
     (let a = runFlushers (flushers w env) False (a\<lparr>Ag_beat := Beat (Pv_now env) (Ag_beat a)\<rparr>)
      in a\<lparr>Ag_spool := map_option (\<lambda>spool. fst (Sweep io now spool)) (Ag_spool a)\<rparr>)"

datatype 's step_event =
    PodEvent listers time pod_event
  | JobEvent listers time job_event
  | NodeEvent time node_event
  | Poll "nodeReads list" bool time
  | Flush time
  | Pass "'s pass_env" io time

fun agent_step ::
    "('fp, (Observation, block) payload) world \<times> 's step_event \<Rightarrow> 'fp agent \<Rightarrow> 'fp agent option" where
  "agent_step (w, PodEvent L now ev) a =
     (let (pods, out) = handlePod L now ev (Ag_pods a) in on_emissions w out (a\<lparr>Ag_pods := pods\<rparr>))"
| "agent_step (w, JobEvent L now ev) a =
     (let (pods, out) = handleJob L now ev (Ag_pods a) in on_emissions w out (a\<lparr>Ag_pods := pods\<rparr>))"
| "agent_step (w, NodeEvent now ev) a =
     (let (nodes, out) = handleNode (now, ev) (Ag_nodes a) in Some (fold on_node_report out (a\<lparr>Ag_nodes := nodes\<rparr>)))"
| "agent_step (w, Poll answers cancelled now) a =
     Some (a\<lparr>Ag_usage := pollOnce (resolver_of (Ag_pods a)) answers cancelled now (Ag_usage a)\<rparr>)"
| "agent_step (w, Flush now) a = Some (on_flush w now a)"
| "agent_step (w, Pass env io now) a = Some (periodic_pass w env io now a)"

fun agent_run ::
    "(('fp, (Observation, block) payload) world \<times> 's step_event) list \<Rightarrow> 'fp agent \<Rightarrow> 'fp agent option" where
  "agent_run [] a = Some a"
| "agent_run (s # tr) a = (case agent_step s a of None \<Rightarrow> None | Some a \<Rightarrow> agent_run tr a)"

section \<open>What an event may report\<close>

fun pod_deleted :: "pod_event \<Rightarrow> bool" where
  "pod_deleted (PodDeleted _) = True"
| "pod_deleted _ = False"

text \<open>The reports that are about the pod, by its namespace and name.\<close>

fun about_pod :: "Pod \<Rightarrow> emission \<Rightarrow> bool" where
  "about_pod pod (OnPod info) = True"
| "about_pod pod (OnOOM kill) \<longleftrightarrow> OOM_Namespace kill = Pod_Namespace pod \<and> OOM_Pod kill = Pod_Name pod"
| "about_pod pod (OnRestart r) \<longleftrightarrow> CR_Namespace r = Pod_Namespace pod \<and> CR_Pod r = Pod_Name pod"
| "about_pod pod (OnDisruption d) \<longleftrightarrow> PD_Namespace d = Pod_Namespace pod \<and> PD_Pod d = Pod_Name pod"
| "about_pod pod (OnJobFinished r) = False"

lemma fold_reports_about:
  assumes "\<And>x w out. (\<forall>e \<in> set out. P e) \<Longrightarrow> \<forall>e \<in> set (snd (f x (w, out))). P e"
  shows "(\<forall>e \<in> set out. P e) \<Longrightarrow> \<forall>e \<in> set (snd (fold f xs (w, out))). P e"
proof (induction xs arbitrary: w out)
  case (Cons x xs)
  then show ?case using assms [OF Cons.prems, of x w] by (cases "f x (w, out)") simp
qed simp

lemma reports_about:
  "\<forall>e \<in> set (snd (reportOOMKills L pod w)). about_pod pod e"
  "\<forall>e \<in> set (snd (reportRestarts L now pod w)). about_pod pod e"
  "\<forall>e \<in> set (snd (reportDisruptions L now pod w)). about_pod pod e"
  "\<forall>e \<in> set (snd (reportPodIfChanged u i w)). about_pod pod e"
proof -
  show "\<forall>e \<in> set (snd (reportOOMKills L pod w)). about_pod pod e"
  proof (cases "Cb_oom (W_callbacks w)")
    case True
    have "\<forall>e \<in> set (snd (fold (report_termination L pod) (terminations pod) (w, []))). about_pod pod e"
      by (rule fold_reports_about) (auto simp: report_termination_def oom_kill_def Let_def split: prod.splits if_splits)
    then show ?thesis using True by (simp add: reportOOMKills_def)
  qed (simp add: reportOOMKills_def)
  show "\<forall>e \<in> set (snd (reportRestarts L now pod w)). about_pod pod e"
    unfolding reportRestarts_def
    by (rule fold_reports_about)
      (auto simp: report_restart_def Let_def split: prod.splits if_splits option.splits)
  show "\<forall>e \<in> set (snd (reportDisruptions L now pod w)). about_pod pod e"
    by (auto simp: reportDisruptions_def Let_def split: option.splits if_splits)
  show "\<forall>e \<in> set (snd (reportPodIfChanged u i w)). about_pod pod e"
    by (auto simp: reportPodIfChanged_def Let_def)
qed

lemma collectPod_about: "\<forall>e \<in> set (snd (collectPod L now pod profile w)). about_pod pod e"
  unfolding collectPod_def using reports_about by (simp add: case_prod_beta Let_def ball_Un)

lemma handlePod_reports:
  assumes "e \<in> set (snd (handlePod L now ev w))"
  shows "\<not> pod_deleted ev" and "A_collect (decide L (W_filter w) (event_pod ev))" and "about_pod (event_pod ev) e"
  using assms collectPod_about
  by (cases ev; auto simp: case_prod_beta Let_def admit_def split: if_splits)+

lemma handleJob_reports:
  assumes "e \<in> set (snd (handleJob L now ev w))"
  shows "\<exists>job r. ev = JobSeen job \<and> fst (admitJob L job False w) \<and> e = OnJobFinished r \<and>
    JR_Namespace r = Job_Namespace job \<and> JR_Name r = Job_Name job"
  using assms by (cases ev) (auto simp: reportJobRun_def admitJob_def Let_def split: option.splits if_splits)

section \<open>What the journals hold\<close>

text \<open>A pod that an event of the run presented while the filter admitted it, and a Job likewise.\<close>

fun shows_pod :: "Filter \<Rightarrow> string \<Rightarrow> string \<Rightarrow> 's step_event \<Rightarrow> bool" where
  "shows_pod f ns name (PodEvent L now ev) \<longleftrightarrow>
     \<not> pod_deleted ev \<and> A_collect (decide L f (event_pod ev)) \<and> Pod_Namespace (event_pod ev) = ns \<and> Pod_Name (event_pod ev) = name"
| "shows_pod f ns name _ = False"

fun shows_job :: "Filter \<Rightarrow> string \<Rightarrow> string \<Rightarrow> 's step_event \<Rightarrow> bool" where
  "shows_job f ns name (JobEvent L now (JobSeen job)) \<longleftrightarrow>
     AdmitJob f (Job_Namespace job) (Job_Annotations job) (Job_TemplateAnnotations job) (namespaceAnnotations L (Job_Namespace job))
       (jobWorkloadAnnotations L job) = None \<and> Job_Namespace job = ns \<and> Job_Name job = name"
| "shows_job f ns name _ = False"

text \<open>The invariant: the filter's lists are those of \<open>f\<close>, the restart journal is sound, and what the journals name satisfies \<open>P\<close> or \<open>Q\<close>.\<close>

definition journals_name :: "(string \<Rightarrow> string \<Rightarrow> bool) \<Rightarrow> (string \<Rightarrow> string \<Rightarrow> bool) \<Rightarrow> journals \<Rightarrow> bool" where
  "journals_name P Q j \<longleftrightarrow> restarts_ok (J_restarts j) \<and>
     (\<forall>k r. mget (Restarts_open (J_restarts j)) k = Some r \<longrightarrow> P (PK_Namespace (RR_Key r)) (PK_Pod (RR_Key r))) \<and>
     (\<forall>k r. mget (Disruptions_open (J_disruptions j)) k = Some r \<longrightarrow> P (DR_Namespace r) (DR_Pod r)) \<and>
     (\<forall>k r. mget (JobRuns_open (J_jobs j)) k = Some r \<longrightarrow> Q (JRR_Namespace r) (JRR_Name r))"

definition same_lists :: "Filter \<Rightarrow> PodWatcher \<Rightarrow> bool" where
  "same_lists f w \<longleftrightarrow> F_allow (W_filter w) = F_allow f \<and> F_deny (W_filter w) = F_deny f"

fun reportable :: "(string \<Rightarrow> string \<Rightarrow> bool) \<Rightarrow> (string \<Rightarrow> string \<Rightarrow> bool) \<Rightarrow> emission \<Rightarrow> bool" where
  "reportable P Q (OnRestart r) \<longleftrightarrow> P (CR_Namespace r) (CR_Pod r)"
| "reportable P Q (OnDisruption d) \<longleftrightarrow> P (PD_Namespace d) (PD_Pod d)"
| "reportable P Q (OnJobFinished r) \<longleftrightarrow> Q (JR_Namespace r) (JR_Name r)"
| "reportable P Q _ \<longleftrightarrow> True"

lemma fold_restart_key: "fold_restart e rec = Some rec' \<Longrightarrow> RR_Key rec' = RR_Key rec"
  by (auto simp: fold_restart_def Let_def split: if_splits option.splits)

lemma Restarts_Observe_names:
  assumes "Restarts_Observe e r = Some r'" and "restarts_ok r" and "mget (Restarts_open r') k = Some rec"
  shows "mget (Restarts_open r) k = Some rec \<or> PK_Namespace (RR_Key rec) = CR_Namespace e \<and> PK_Pod (RR_Key rec) = CR_Pod e"
proof -
  let ?key = "(PodKey (CR_Namespace e) (CR_Pod e) (CR_Container e), UnixNano (Truncate (CR_ObservedAt e) (Restarts_windowLength r)))"
  have old: "RR_Key old = fst ?key" if "mget (Restarts_open r) ?key = Some old" for old
    using assms(2) that unfolding restarts_ok_iff restart_key_def by (metis fst_conv)
  show ?thesis
    using assms(1,3) old by (auto simp: Restarts_Observe_def Let_def mget_or_def newRestartRecord_def dest!: fold_restart_key
        split: if_splits option.splits)
qed

lemma on_emission_names:
  assumes "journals_name P Q (Ag_journals a)" and "reportable P Q e"
  shows "\<exists>a'. on_emission w e a = Some a' \<and> journals_name P Q (Ag_journals a') \<and> Ag_pods a' = Ag_pods a"
proof (cases e)
  case (OnRestart r)
  obtain j where j: "Restarts_Observe r (J_restarts (Ag_journals a)) = Some j" "restarts_ok j"
    using Restarts_Observe_ok assms(1) unfolding journals_name_def by blast
  then show ?thesis
    using OnRestart assms Restarts_Observe_names [OF j(1)] by (fastforce simp: on_emission_def journals_name_def)
next
  case (OnDisruption d)
  then show ?thesis using assms
    by (auto simp: on_emission_def Let_def journals_name_def Disruptions_Observe_def file_event_def disruption_record_def)
next
  case (OnJobFinished r)
  then show ?thesis using assms
    by (auto simp: on_emission_def Let_def journals_name_def JobRuns_Observe_def file_event_def job_record_def)
qed (use assms in \<open>simp_all add: on_emission_def\<close>)

lemma on_emissions_names:
  "journals_name P Q (Ag_journals a) \<Longrightarrow> \<forall>e \<in> set es. reportable P Q e \<Longrightarrow>
   \<exists>a'. on_emissions w es a = Some a' \<and> journals_name P Q (Ag_journals a') \<and> Ag_pods a' = Ag_pods a"
proof (induction es arbitrary: a)
  case (Cons e es)
  obtain a1 where a1: "on_emission w e a = Some a1" "journals_name P Q (Ag_journals a1)" "Ag_pods a1 = Ag_pods a"
    using on_emission_names [of P Q a e w] Cons.prems by auto
  then show ?case using Cons.IH [of a1] Cons.prems(2) by auto
qed simp

text \<open>A pass takes records out of the journals and puts none in.\<close>

lemma Restarts_CloseBefore_shrinks:
  "mget (Restarts_open (snd (Restarts_CloseBefore now r))) k = Some rec \<Longrightarrow> mget (Restarts_open r) k = Some rec"
  "restarts_ok r \<Longrightarrow> restarts_ok (snd (Restarts_CloseBefore now r))"
  by (auto simp: Restarts_CloseBefore_def close_before_def restarts_ok_iff mget_mfilter split: option.splits if_splits)

lemma CloseBefore_shrinks:
  "mget (Disruptions_open (snd (Disruptions_CloseBefore now d))) k = Some r \<Longrightarrow> mget (Disruptions_open d) k = Some r"
  "mget (JobRuns_open (snd (JobRuns_CloseBefore now j))) k = Some s \<Longrightarrow> mget (JobRuns_open j) k = Some s"
  by (auto simp: Disruptions_CloseBefore_def JobRuns_CloseBefore_def close_before_def mget_mfilter split: option.splits if_splits)

definition harmless :: "('fp agent \<Rightarrow> 'fp agent) \<Rightarrow> bool" where
  "harmless run \<longleftrightarrow> (\<forall>a P Q. Ag_pods (run a) = Ag_pods a \<and> (journals_name P Q (Ag_journals a) \<longrightarrow> journals_name P Q (Ag_journals (run a))))"

lemma harmlessI:
  assumes "\<And>a. Ag_pods (run a) = Ag_pods a"
    and "\<And>a. J_restarts (Ag_journals (run a)) = J_restarts (Ag_journals a) \<or> (\<exists>t. J_restarts (Ag_journals (run a)) = snd (Restarts_CloseBefore t (J_restarts (Ag_journals a))))"
    and "\<And>a. J_disruptions (Ag_journals (run a)) = J_disruptions (Ag_journals a) \<or>
      (\<exists>t. J_disruptions (Ag_journals (run a)) = snd (Disruptions_CloseBefore t (J_disruptions (Ag_journals a))))"
    and "\<And>a. J_jobs (Ag_journals (run a)) = J_jobs (Ag_journals a) \<or> (\<exists>t. J_jobs (Ag_journals (run a)) = snd (JobRuns_CloseBefore t (J_jobs (Ag_journals a))))"
  shows "harmless run"
proof -
  have "journals_name P Q (Ag_journals (run a))" if j: "journals_name P Q (Ag_journals a)" for a P Q
  proof -
    have "restarts_ok (J_restarts (Ag_journals (run a)))"
      using assms(2) [of a] j Restarts_CloseBefore_shrinks(2) unfolding journals_name_def by (elim disjE exE) simp_all
    moreover have "mget (Restarts_open (J_restarts (Ag_journals (run a)))) k = Some r \<Longrightarrow> mget (Restarts_open (J_restarts (Ag_journals a))) k = Some r" for k r
      using assms(2) [of a] by (elim disjE exE) (simp, metis Restarts_CloseBefore_shrinks(1))
    moreover have "mget (Disruptions_open (J_disruptions (Ag_journals (run a)))) k = Some r \<Longrightarrow>
        mget (Disruptions_open (J_disruptions (Ag_journals a))) k = Some r" for k r
      using assms(3) [of a] by (elim disjE exE) (simp, metis CloseBefore_shrinks(1))
    moreover have "mget (JobRuns_open (J_jobs (Ag_journals (run a)))) k = Some r \<Longrightarrow> mget (JobRuns_open (J_jobs (Ag_journals a))) k = Some r" for k r
      using assms(4) [of a] by (elim disjE exE) (simp, metis CloseBefore_shrinks(2))
    ultimately show ?thesis using j unfolding journals_name_def by blast
  qed
  then show ?thesis using assms(1) unfolding harmless_def by blast
qed

lemma harmless_fold: "list_all (\<lambda>x. harmless (g x)) xs \<Longrightarrow> harmless (fold g xs)"
  by (induction xs) (simp_all add: harmless_def)

lemma flush_pods [simp]:
  "Ag_pods (flushRestarts w t a) = Ag_pods a" "Ag_pods (flushDisruptions w t a) = Ag_pods a" "Ag_pods (flushJobRuns w t a) = Ag_pods a"
  "Ag_pods (flushNodeLifecycle w t a) = Ag_pods a" "Ag_pods (flushGoroutineCounts w t a) = Ag_pods a" "Ag_pods (flushInventory w t a) = Ag_pods a"
  "Ag_pods (flushMetadata w env a) = Ag_pods a" "Ag_pods (logCoverage w env a) = Ag_pods a"
  by (simp_all add: flushRestarts_def flushDisruptions_def flushJobRuns_def flushNodeLifecycle_def flushGoroutineCounts_def flushInventory_def
      flushMetadata_def logCoverage_def case_prod_beta Let_def split: option.split)

lemma flush_own_journal:
  "J_restarts (Ag_journals (flushRestarts w t a)) = (if Ag_spool a = None then J_restarts (Ag_journals a) else snd (Restarts_CloseBefore t (J_restarts (Ag_journals a))))"
  "J_disruptions (Ag_journals (flushDisruptions w t a)) =
     (if Ag_spool a = None then J_disruptions (Ag_journals a) else snd (Disruptions_CloseBefore t (J_disruptions (Ag_journals a))))"
  "J_jobs (Ag_journals (flushJobRuns w t a)) = (if Ag_spool a = None then J_jobs (Ag_journals a) else snd (JobRuns_CloseBefore t (J_jobs (Ag_journals a))))"
  by (auto simp: flushRestarts_def flushDisruptions_def flushJobRuns_def case_prod_beta Let_def split: option.split)

lemma flush_other_journals [simp]:
  "J_restarts (Ag_journals (flushDisruptions w t a)) = J_restarts (Ag_journals a)"
  "J_restarts (Ag_journals (flushJobRuns w t a)) = J_restarts (Ag_journals a)" "J_disruptions (Ag_journals (flushJobRuns w t a)) = J_disruptions (Ag_journals a)"
  "J_restarts (Ag_journals (flushNodeLifecycle w t a)) = J_restarts (Ag_journals a)"
  "J_disruptions (Ag_journals (flushNodeLifecycle w t a)) = J_disruptions (Ag_journals a)" "J_jobs (Ag_journals (flushNodeLifecycle w t a)) = J_jobs (Ag_journals a)"
  "J_restarts (Ag_journals (flushGoroutineCounts w t a)) = J_restarts (Ag_journals a)"
  "J_disruptions (Ag_journals (flushGoroutineCounts w t a)) = J_disruptions (Ag_journals a)"
  "J_jobs (Ag_journals (flushGoroutineCounts w t a)) = J_jobs (Ag_journals a)" "Ag_journals (flushMetadata w env a) = Ag_journals a"
  by (simp_all add: flushDisruptions_def flushJobRuns_def flushNodeLifecycle_def flushGoroutineCounts_def flushMetadata_def case_prod_beta Let_def
      split: option.split)

lemma flushes_harmless:
  "harmless (flushRestarts w t)" "harmless (flushDisruptions w t)" "harmless (flushJobRuns w t)" "harmless (flushNodeLifecycle w t)"
  "harmless (flushGoroutineCounts w t)" "harmless (flushInventory w t)" "harmless (flushMetadata w env)" "harmless (logCoverage w env)"
  by (rule harmlessI; auto simp: flush_own_journal)+

lemma periodic_pass_harmless: "harmless (periodic_pass w env io now)"
proof -
  have "harmless (fold Flush_run (flushers w env))"
    by (rule harmless_fold) (simp add: flushers_def flushes_harmless)
  then show ?thesis by (simp add: harmless_def periodic_pass_def runFlushers_def Let_def)
qed

text \<open>What the other steps do to the journals and the pods.\<close>

lemma node_reports_names:
  "Ag_pods (fold on_node_report rs a) = Ag_pods a \<and> (journals_name P Q (Ag_journals a) \<longrightarrow> journals_name P Q (Ag_journals (fold on_node_report rs a)))"
proof (induction rs arbitrary: a)
  case (Cons r rs)
  have "Ag_pods (on_node_report r a) = Ag_pods a" "journals_name P Q (Ag_journals (on_node_report r a)) = journals_name P Q (Ag_journals a)"
    by (simp_all add: on_node_report_def journals_name_def split: node_report.split)
  then show ?case using Cons [of "on_node_report r a"] by simp
qed simp

lemma on_flush_keeps [simp]: "Ag_pods (on_flush w now a) = Ag_pods a" "Ag_journals (on_flush w now a) = Ag_journals a"
  by (simp_all add: on_flush_def onClosed_def onSnapshot_def onNetwork_def case_prod_beta Let_def)

lemma same_lists_handlers:
  "same_lists f w \<Longrightarrow> same_lists f (fst (handlePod L now ev w))" "same_lists f w \<Longrightarrow> same_lists f (fst (handleJob L now je w))"
proof -
  show "same_lists f w \<Longrightarrow> same_lists f (fst (handlePod L now ev w))"
    using runPods_lists [of "[(L, now, ev)]" w] by (simp add: runPods_def same_lists_def)
  show "same_lists f w \<Longrightarrow> same_lists f (fst (handleJob L now je w))"
    by (cases je) (auto simp: same_lists_def forgetJobRun_def reportJobRun_def admitJob_def count_unresolved_def on_filter_def countJobObserved_def
        countJobExcluded_def Let_def case_prod_beta split: option.splits ExclusionReason.splits)
qed

lemma shown_reports:
  assumes "same_lists f w"
  shows "e \<in> set (snd (handlePod L now ev w)) \<Longrightarrow> \<forall>ns name. shows_pod f ns name (PodEvent L now ev) \<longrightarrow> P ns name \<Longrightarrow> reportable P Q e"
    and "e \<in> set (snd (handleJob L now je w)) \<Longrightarrow> \<forall>ns name. shows_job f ns name (JobEvent L now je) \<longrightarrow> Q ns name \<Longrightarrow> reportable P Q e"
proof -
  have same: "decide L (W_filter w) pod = decide L f pod" for L pod
    using assms by (intro decide_cong) (simp_all add: same_lists_def)
  show "reportable P Q e" if e: "e \<in> set (snd (handlePod L now ev w))" and P: "\<forall>ns name. shows_pod f ns name (PodEvent L now ev) \<longrightarrow> P ns name"
    using handlePod_reports [OF e] P unfolding same by (cases e) auto
  have job: "AdmitJob (W_filter w) = AdmitJob f"
    using assms by (intro ext) (simp add: same_lists_def AdmitJob_def namespaceAllowed_def)
  show "reportable P Q e" if e: "e \<in> set (snd (handleJob L now je w))" and Q: "\<forall>ns name. shows_job f ns name (JobEvent L now je) \<longrightarrow> Q ns name"
    using handleJob_reports [OF e] Q by (auto simp: admitJob_def Let_def job)
qed

lemma agent_step_names:
  assumes "same_lists f (Ag_pods a)" and "journals_name P Q (Ag_journals a)"
    and "\<forall>ns name. shows_pod f ns name (snd s) \<longrightarrow> P ns name" and "\<forall>ns name. shows_job f ns name (snd s) \<longrightarrow> Q ns name"
  shows "\<exists>a'. agent_step s a = Some a' \<and> same_lists f (Ag_pods a') \<and> journals_name P Q (Ag_journals a')"
proof -
  obtain w ev where s: "s = (w, ev)" by force
  show ?thesis
  proof (cases ev)
    case (PodEvent L now pe)
    have "\<forall>e \<in> set (snd (handlePod L now pe (Ag_pods a))). reportable P Q e"
      using shown_reports(1) [OF assms(1)] assms(3) s PodEvent by auto
    then show ?thesis
      using on_emissions_names [of P Q "a\<lparr>Ag_pods := fst (handlePod L now pe (Ag_pods a))\<rparr>" "snd (handlePod L now pe (Ag_pods a))" w]
        assms(1,2) same_lists_handlers(1) s PodEvent by (auto simp: case_prod_beta Let_def)
  next
    case (JobEvent L now je)
    have "\<forall>e \<in> set (snd (handleJob L now je (Ag_pods a))). reportable P Q e"
      using shown_reports(2) [OF assms(1)] assms(4) s JobEvent by auto
    then show ?thesis
      using on_emissions_names [of P Q "a\<lparr>Ag_pods := fst (handleJob L now je (Ag_pods a))\<rparr>" "snd (handleJob L now je (Ag_pods a))" w]
        assms(1,2) same_lists_handlers(2) s JobEvent by (auto simp: case_prod_beta Let_def)
  next
    case (NodeEvent now ne)
    then show ?thesis
      using node_reports_names [of "snd (handleNode (now, ne) (Ag_nodes a))" "a\<lparr>Ag_nodes := fst (handleNode (now, ne) (Ag_nodes a))\<rparr>" P Q]
        assms(1,2) s by (auto simp: case_prod_beta Let_def)
  next
    case (Pass env io now)
    then show ?thesis using periodic_pass_harmless [of w env io now] assms(1,2) s unfolding harmless_def by auto
  qed (use assms(1,2) s in simp_all)
qed

lemma agent_run_names:
  assumes "\<forall>s \<in> set tr. \<forall>ns name. (shows_pod f ns name (snd s) \<longrightarrow> P ns name) \<and> (shows_job f ns name (snd s) \<longrightarrow> Q ns name)"
  shows "same_lists f (Ag_pods a) \<Longrightarrow> journals_name P Q (Ag_journals a) \<Longrightarrow>
    \<exists>a'. agent_run tr a = Some a' \<and> journals_name P Q (Ag_journals a')"
  using assms
proof (induction tr arbitrary: a)
  case (Cons s tr)
  obtain a1 where a1: "agent_step s a = Some a1" "same_lists f (Ag_pods a1)" "journals_name P Q (Ag_journals a1)"
    using agent_step_names [OF Cons.prems(1,2), of s] Cons.prems(3) by auto
  then show ?case using Cons.IH [of a1] Cons.prems(3) by auto
qed simp


text \<open>The pod of the example is killed and restarts, and a pass writes what the journals hold.\<close>

definition busy_hour :: "((string, (Observation, block) payload) world \<times> unit step_event) list" where
  "busy_hour = [(serene, PodEvent no_caches (epoch + 5) (PodAdded (web_pod plain_container))),
     (serene, PodEvent no_caches (epoch + 9) (PodUpdated (killed_pod 3))), (serene, Flush (epoch + 10)), (serene, Pass last_pass (no_faults 7) (epoch + 11))]"


end
