(* ===== verification/SpoolSweep.thy ===== *)
theory SpoolSweep
  imports Spool
begin

text \<open>
  The bounds of the spool: what \<open>Sweep\<close> removes and what it leaves, in an environment where
  the listing and the removals succeed. The first loop removes what is too old and the
  temporary files a crash left; the second evicts oldest first until both budgets hold.
\<close>

section \<open>The first loop\<close>

definition swept :: "time \<Rightarrow> time \<Rightarrow> string \<times> sfile \<Rightarrow> bool" where
  "swept now cutoff e \<longleftrightarrow> \<not> F_isDir (snd e) \<and>
     (F_modTime (snd e) < cutoff \<or> HasSuffix (fst e) ''.tmp'' \<and> F_modTime (snd e) < now - minute)"

definition survivor :: "time \<Rightarrow> time \<Rightarrow> string \<times> sfile \<Rightarrow> bool" where
  "survivor now cutoff e \<longleftrightarrow> \<not> F_isDir (snd e) \<and> \<not> swept now cutoff e"

definition mk_kept :: "string \<times> sfile \<Rightarrow> kept_file" where
  "mk_kept e = \<lparr>K_name = fst e, K_size = int (length (F_data (snd e))), K_modTime = F_modTime (snd e)\<rparr>"

definition sizes :: "kept_file list \<Rightarrow> int" where
  "sizes fs = sum_list (map K_size fs)"

definition quiet :: "io \<Rightarrow> bool" where
  "quiet io \<longleftrightarrow> \<not> io_list_fails io \<and> (\<forall>n. \<not> io_info_fails io n) \<and> (\<forall>n. \<not> io_remove_fails io n)"

text \<open>What the two loops leave of the fields they do not write.\<close>

definition same_setup :: "'fp Spool \<Rightarrow> 'fp Spool \<Rightarrow> bool" where
  "same_setup s s' \<longleftrightarrow> Sp_maxBytes s' = Sp_maxBytes s \<and> Sp_maxFiles s' = Sp_maxFiles s \<and>
     Sp_maxAge s' = Sp_maxAge s \<and> Sp_cadence s' = Sp_cadence s"

definition without :: "string set \<Rightarrow> spool_dir \<Rightarrow> spool_dir" where
  "without ns d = mfilter (\<lambda>n _. n \<notin> ns) d"

lemma without_mdel: "mdel n (without ns d) = without (insert n ns) d"
  unfolding without_def by (rule gomap_eqI) (auto simp: mget_mfilter split: option.splits)

lemma without_without: "without ns (without ms d) = without (ms \<union> ns) d"
  unfolding without_def by (rule gomap_eqI) (auto simp: mget_mfilter split: option.splits)

lemma without_empty [simp]: "without {} d = d"
  unfolding without_def by (rule gomap_eqI) (auto simp: mget_mfilter split: option.splits)

lemma Spool_remove_quiet:
  "quiet io \<Longrightarrow> Spool_remove io n s = (s\<lparr>Sp_dir := mdel n (Sp_dir s)\<rparr>, None)"
  by (simp add: Spool_remove_def quiet_def)

lemma scan_result:
  assumes "quiet io"
  shows "\<exists>st'. fold_result (sweep_entry io now cutoff) es st = (st', None) \<and>
    Sp_dir (scan_spool st') = without (fst ` {e \<in> set es. swept now cutoff e}) (Sp_dir (scan_spool st)) \<and>
    scan_kept st' = scan_kept st @ map mk_kept (filter (survivor now cutoff) es) \<and>
    scan_total st' = scan_total st + sizes (map mk_kept (filter (survivor now cutoff) es)) \<and>
    same_setup (scan_spool st) (scan_spool st')"
proof (induction es arbitrary: st)
  case Nil
  then show ?case by (simp add: sizes_def same_setup_def)
next
  case (Cons e es)
  show ?case
  proof (cases "swept now cutoff e")
    case True
    define reason where "reason = (if F_modTime (snd e) < cutoff then EvictedAge else EvictedOrphanTemp)"
    let ?s = "countEviction reason ((scan_spool st)\<lparr>Sp_dir := mdel (fst e) (Sp_dir (scan_spool st))\<rparr>)"
    have "sweep_entry io now cutoff e st = (st\<lparr>scan_spool := ?s\<rparr>, None)"
      using True assms by (auto simp: sweep_entry_def swept_def quiet_def Spool_remove_def Let_def reason_def)
    moreover have "{x \<in> set (e # es). swept now cutoff x} = insert e {x \<in> set es. swept now cutoff x}"
      using True by auto
    moreover have "\<not> survivor now cutoff e" using True by (simp add: survivor_def)
    moreover have "without ns (mdel (fst e) d) = without (insert (fst e) ns) d" for ns d
      unfolding without_def by (rule gomap_eqI) (auto simp: mget_mfilter split: option.splits)
    ultimately show ?thesis
      using Cons.IH [of "st\<lparr>scan_spool := ?s\<rparr>"] by (auto simp: same_setup_def countEviction_def)
  next
    case False
    then have keep: "{x \<in> set (e # es). swept now cutoff x} = {x \<in> set es. swept now cutoff x}" by auto
    show ?thesis
    proof (cases "F_isDir (snd e)")
      case True
      then have "sweep_entry io now cutoff e st = (st, None)" by (simp add: sweep_entry_def Let_def)
      then show ?thesis using Cons.IH [of st] keep True by (simp add: survivor_def)
    next
      case dir: False
      let ?t = "st\<lparr>scan_kept := scan_kept st @ [mk_kept e], scan_total := scan_total st + K_size (mk_kept e)\<rparr>"
      have "sweep_entry io now cutoff e st = (?t, None)"
        using False dir assms by (auto simp: sweep_entry_def swept_def quiet_def Let_def mk_kept_def)
      moreover have "survivor now cutoff e" using False dir by (simp add: survivor_def)
      ultimately show ?thesis
        using Cons.IH [of ?t] keep by (auto simp: sizes_def)
    qed
  qed
qed

section \<open>The second loop\<close>

definition within :: "'fp Spool \<Rightarrow> int \<Rightarrow> int \<Rightarrow> bool" where
  "within s tot cnt \<longleftrightarrow> tot \<le> Sp_maxBytes s \<and> cnt \<le> Sp_maxFiles s"

lemma evict_result:
  assumes "quiet io"
  shows "\<exists>s' n. evict io fs tot cnt s = ((s', tot - sizes (take n fs), cnt - int n), None) \<and> n \<le> length fs \<and>
    Sp_dir s' = without (K_name ` set (take n fs)) (Sp_dir s) \<and> same_setup s s' \<and>
    (n < length fs \<longrightarrow> within s (tot - sizes (take n fs)) (cnt - int n)) \<and>
    (0 < n \<longrightarrow> \<not> within s tot cnt)"
proof (induction fs arbitrary: tot cnt s)
  case Nil
  then show ?case by (simp add: sizes_def same_setup_def)
next
  case (Cons f fs)
  show ?case
  proof (cases "within s tot cnt")
    case True
    then show ?thesis by (intro exI [of _ s] exI [of _ 0]) (simp add: within_def sizes_def same_setup_def)
  next
    case False
    define reason where "reason = (if tot > Sp_maxBytes s then EvictedBytes else EvictedFiles)"
    let ?s = "countEviction reason (s\<lparr>Sp_dir := mdel (K_name f) (Sp_dir s)\<rparr>)"
    have step: "evict io (f # fs) tot cnt s = evict io fs (tot - K_size f) (cnt - 1) ?s"
      using False assms by (auto simp: within_def Spool_remove_quiet Let_def reason_def)
    obtain s' n where IH: "evict io fs (tot - K_size f) (cnt - 1) ?s =
        ((s', tot - K_size f - sizes (take n fs), cnt - 1 - int n), None)" "n \<le> length fs"
      "Sp_dir s' = without (K_name ` set (take n fs)) (Sp_dir ?s)" "same_setup ?s s'"
      "n < length fs \<longrightarrow> within ?s (tot - K_size f - sizes (take n fs)) (cnt - 1 - int n)"
      using Cons.IH [of "tot - K_size f" "cnt - 1" ?s] by blast
    have "without ns (mdel m d) = without (insert m ns) d" for ns m d
      unfolding without_def by (rule gomap_eqI) (auto simp: mget_mfilter split: option.splits)
    then show ?thesis
      using IH step False
      by (intro exI [of _ s'] exI [of _ "Suc n"])
        (simp add: sizes_def same_setup_def within_def countEviction_def algebra_simps)
  qed
qed

section \<open>The whole sweep\<close>

interpretation kept_order: sort_order less_kept "\<lambda>f. (K_modTime f, K_name f)"
  by unfold_locales (auto simp: less_kept_def less_prod_def)

definition survivors :: "time \<Rightarrow> time \<Rightarrow> spool_dir \<Rightarrow> kept_file list" where
  "survivors now cutoff d = map mk_kept (filter (survivor now cutoff) (entries d))"

definition files_of :: "spool_dir \<Rightarrow> kept_file list" where
  "files_of d = map mk_kept (filter (\<lambda>e. \<not> F_isDir (snd e)) (entries d))"

lemma mk_kept_name [simp]: "K_name (mk_kept e) = fst e"
  by (simp add: mk_kept_def)

lemma distinct_names: "distinct (map K_name (map mk_kept (filter P (entries d))))"
proof -
  have "distinct (map fst (filter P (entries d)))"
    using entries_distinct [of d] by (rule distinct_map_filter)
  then show ?thesis by (simp add: comp_def)
qed

lemma name_in:
  assumes "e \<in> set (entries d)"
  shows "fst e \<in> fst ` {x \<in> set (entries d). P x} \<longleftrightarrow> P e"
proof -
  have "x = e" if "x \<in> set (entries d)" "fst x = fst e" for x
    using that assms entries_distinct [of d] by (metis distinct_map inj_on_def)
  note uniq = this
  show ?thesis
  proof
    assume "fst e \<in> fst ` {x \<in> set (entries d). P x}"
    then obtain x where "x \<in> set (entries d)" "P x" "fst x = fst e" by auto
    with uniq show "P e" by blast
  qed (use assms in blast)
qed

lemma files_without:
  "files_of (without (fst ` {e \<in> set (entries d). swept now cutoff e} \<union> ns) d) =
    filter (\<lambda>f. K_name f \<notin> ns) (survivors now cutoff d)"
proof -
  let ?A = "fst ` {e \<in> set (entries d). swept now cutoff e}"
  have "(\<not> F_isDir (snd e) \<and> fst e \<notin> ?A \<union> ns) \<longleftrightarrow> survivor now cutoff e \<and> fst e \<notin> ns" if "e \<in> set (entries d)" for e
    using name_in [OF that, of "swept now cutoff"] by (simp only: survivor_def Un_iff) blast
  then have "filter (\<lambda>e. \<not> F_isDir (snd e) \<and> fst e \<notin> ?A \<union> ns) (entries d) =
      filter (\<lambda>e. survivor now cutoff e \<and> fst e \<notin> ns) (entries d)"
    by (rule filter_cong [OF refl])
  then show ?thesis
    unfolding files_of_def survivors_def without_def entries_mfilter filter_map
    by (simp add: case_prod_unfold comp_def conj_commute)
qed

lemma filter_not_taken:
  assumes "distinct (map K_name fs)"
  shows "filter (\<lambda>f. K_name f \<notin> K_name ` set (take n fs)) fs = drop n fs"
proof -
  have d: "distinct (map K_name (take n fs) @ map K_name (drop n fs))"
    using assms by (metis append_take_drop_id map_append)
  have "filter (\<lambda>f. K_name f \<notin> K_name ` set (take n fs)) (take n fs) = []"
    by (auto simp: filter_empty_conv)
  moreover have "filter (\<lambda>f. K_name f \<notin> K_name ` set (take n fs)) (drop n fs) = drop n fs"
    using d by (auto simp: filter_id_conv)
  ultimately show ?thesis by (metis append_Nil append_take_drop_id filter_append)
qed

lemma Sweep_result:
  assumes "quiet io" and "0 \<le> Sp_maxBytes s" and "0 \<le> Sp_maxFiles s"
  shows "\<exists>s' n. Sweep io now s = (s', None) \<and>
    (let S = sort_slice less_kept (survivors now (now - Sp_maxAge s) (Sp_dir s)) in
      Sp_dir s' = without (fst ` {e \<in> set (entries (Sp_dir s)). swept now (now - Sp_maxAge s) e} \<union> K_name ` set (take n S)) (Sp_dir s) \<and>
      Sp_bytes s' = sizes (drop n S) \<and> Sp_files s' = int (length (drop n S)) \<and>
      within s (sizes (drop n S)) (int (length (drop n S))) \<and>
      (0 < n \<longrightarrow> \<not> within s (sizes S) (int (length S))) \<and>
      Sp_cadence s' = prune (now - Sp_maxAge s) (Sp_cadence s))"
proof -
  let ?cutoff = "now - Sp_maxAge s" and ?K = "survivors now (now - Sp_maxAge s) (Sp_dir s)"
  let ?s = "s\<lparr>Sp_cadence := prune ?cutoff (Sp_cadence s)\<rparr>"
  let ?swept = "fst ` {e \<in> set (entries (Sp_dir s)). swept now ?cutoff e}"
  define S where "S = sort_slice less_kept ?K"
  have S: "sizes S = sizes ?K" "length S = length ?K"
    unfolding S_def sizes_def by (metis mset_map mset_sort_slice sum_mset_sum_list) simp
  obtain st where scan: "fold_result (sweep_entry io now ?cutoff) (entries (Sp_dir s))
        \<lparr>scan_spool = ?s, scan_kept = [], scan_total = 0\<rparr> = (st, None)"
    and st: "Sp_dir (scan_spool st) = without ?swept (Sp_dir s)" "scan_kept st = ?K" "scan_total st = sizes ?K"
      "same_setup ?s (scan_spool st)"
    using scan_result [OF assms(1), of now ?cutoff "entries (Sp_dir s)" "\<lparr>scan_spool = ?s, scan_kept = [], scan_total = 0\<rparr>"]
    by (auto simp: survivors_def)
  show ?thesis
  proof (cases "within s (sizes ?K) (int (length ?K))")
    case True
    then have "Sweep io now s = (recordSweep (sizes ?K) (int (length ?K)) (scan_spool st), None)"
      using assms(1) scan st by (simp add: Sweep_def quiet_def Let_def within_def same_setup_def)
    then show ?thesis
      unfolding S_def [symmetric] Let_def using True st S
      by (intro exI [of _ "recordSweep (sizes ?K) (int (length ?K)) (scan_spool st)"] exI [of _ 0])
        (simp add: recordSweep_def same_setup_def)
  next
    case False
    obtain s' n where ev: "evict io S (sizes ?K) (int (length ?K)) (scan_spool st) =
        ((s', sizes ?K - sizes (take n S), int (length ?K) - int n), None)" "n \<le> length S"
      "Sp_dir s' = without (K_name ` set (take n S)) (Sp_dir (scan_spool st))" "same_setup (scan_spool st) s'"
      "n < length S \<longrightarrow> within (scan_spool st) (sizes ?K - sizes (take n S)) (int (length ?K) - int n)"
      using evict_result [OF assms(1), of S "sizes ?K" "int (length ?K)" "scan_spool st"] by blast
    have rest: "sizes ?K - sizes (take n S) = sizes (drop n S)" "int (length ?K) - int n = int (length (drop n S))"
      using S ev(2) append_take_drop_id [of n S] unfolding sizes_def
      by (metis add_diff_cancel_left' map_append sum_list_append)
        (use S(2) ev(2) in \<open>simp add: of_nat_diff\<close>)
    have fin: "within s (sizes (drop n S)) (int (length (drop n S)))"
      using ev(2,5) st(4) assms(2,3) rest by (cases "n < length S") (auto simp: within_def same_setup_def sizes_def)
    have "Sweep io now s = (recordSweep (sizes (drop n S)) (int (length (drop n S))) s', None)"
      using assms(1) scan st False ev(1) rest
      by (auto simp: Sweep_def quiet_def Let_def within_def same_setup_def S_def [symmetric])
    then show ?thesis
      unfolding S_def [symmetric] Let_def using False st S ev fin
      by (intro exI [of _ "recordSweep (sizes (drop n S)) (int (length (drop n S))) s'"] exI [of _ n])
        (simp add: recordSweep_def same_setup_def without_without)
  qed
qed

section \<open>Properties\<close>



text \<open>
  Eviction is oldest first: a file the age cutoff spares and the sweep removes for space
  is older than every file it leaves, names deciding between equal times.
\<close>

theorem Sweep_oldest_first:
  assumes "quiet io" and "0 \<le> Sp_maxBytes s" and "0 \<le> Sp_maxFiles s" and "Sweep io now s = (s', err)"
    and "f \<in> set (survivors now (now - Sp_maxAge s) (Sp_dir s))" and "mget (Sp_dir s') (K_name f) = None"
    and "g \<in> set (files_of (Sp_dir s'))"
  shows "less_kept f g"
proof -
  let ?K = "survivors now (now - Sp_maxAge s) (Sp_dir s)"
  let ?swept = "fst ` {e \<in> set (entries (Sp_dir s)). swept now (now - Sp_maxAge s) e}"
  define S where "S = sort_slice less_kept ?K"
  obtain n where dir: "Sp_dir s' = without (?swept \<union> K_name ` set (take n S)) (Sp_dir s)"
    using Sweep_result [OF assms(1,2,3), of now] assms(4) unfolding S_def [symmetric] Let_def by auto
  have mS: "mset S = mset ?K" by (simp add: S_def)
  have dK: "distinct (map K_name ?K)" unfolding survivors_def by (rule distinct_names)
  then have dS: "distinct (map K_name S)" using mS by (metis mset_map mset_eq_imp_distinct_iff)
  have "set (files_of (Sp_dir s')) = set (filter (\<lambda>f. K_name f \<notin> K_name ` set (take n S)) S)"
    unfolding dir files_without using mS by (metis mset_filter set_mset_mset)
  then have g: "g \<in> set (drop n S)" using assms(7) by (simp only: filter_not_taken [OF dS])
  have fS: "f \<in> set S" using assms(5) mS by (metis set_mset_mset)
  obtain e where e: "f = mk_kept e" "e \<in> set (entries (Sp_dir s))" "survivor now (now - Sp_maxAge s) e"
    using assms(5) by (auto simp: survivors_def)
  have "fst e \<notin> ?swept" using name_in [OF e(2)] e(3) by (simp add: survivor_def)
  moreover have "mget (Sp_dir s) (fst e) = Some (snd e)" using e(2) by (simp add: mget_entries)
  ultimately have "fst e \<in> K_name ` set (take n S)"
    using assms(6) e(1) unfolding dir without_def by (auto simp: mget_mfilter split: if_splits)
  then obtain f' where "f' \<in> set (take n S)" "K_name f' = K_name f" using e(1) by auto
  then have f: "f \<in> set (take n S)" using fS dS by (metis distinct_map in_set_takeD inj_onD)
  have "sorted (map (\<lambda>f. (K_modTime f, K_name f)) (take n S @ drop n S))"
    unfolding append_take_drop_id S_def by (rule kept_order.sorted_sort_slice)
  then have "(K_modTime f, K_name f) \<le> (K_modTime g, K_name g)"
    using f g unfolding map_append sorted_append by auto
  moreover have "distinct (map K_name (take n S @ drop n S))" using dS by simp
  then have "K_name f \<noteq> K_name g" using f g unfolding map_append distinct_append by auto
  ultimately show ?thesis by (auto simp: kept_order.lt_key)
qed

definition two_files :: "string Spool" where
  "two_files = \<lparr>Sp_maxAge = 100, Sp_maxBytes = 10, Sp_maxFiles = 1, Sp_cadence = mempty,
     Sp_dir = mput ''a'' \<lparr>F_data = ''x'', F_modTime = 5, F_isDir = False\<rparr>
       (mput ''b'' \<lparr>F_data = ''y'', F_modTime = 3, F_isDir = False\<rparr> mempty),
     Sp_written = mempty, Sp_writeFailures = mempty, Sp_suppressed = mempty, Sp_evicted = mempty,
     Sp_bytes = 0, Sp_files = 0, Sp_recovered = zeroRecovered\<rparr>"

theorem Sweep_oldest_first_witness:
  "less_kept \<lparr>K_name = ''b'', K_size = 1, K_modTime = 3\<rparr> \<lparr>K_name = ''a'', K_size = 1, K_modTime = 5\<rparr> \<and>
   mget (Sp_dir (fst (Sweep (no_faults 9) 9 two_files))) ''b'' = None"
proof -
  have gone: "mget (Sp_dir (fst (Sweep (no_faults 9) 9 two_files))) ''b'' = None" by code_simp
  have left: "files_of (Sp_dir (fst (Sweep (no_faults 9) 9 two_files))) = [\<lparr>K_name = ''a'', K_size = 1, K_modTime = 5\<rparr>]"
    by code_simp
  have were: "survivors 9 (9 - Sp_maxAge two_files) (Sp_dir two_files) =
      [\<lparr>K_name = ''a'', K_size = 1, K_modTime = 5\<rparr>, \<lparr>K_name = ''b'', K_size = 1, K_modTime = 3\<rparr>]" by code_simp
  have q: "quiet (no_faults 9)" by (simp add: quiet_def no_faults_def)
  obtain s' err where w: "Sweep (no_faults 9) 9 two_files = (s', err)" by force
  have budgets: "0 \<le> Sp_maxBytes two_files" "0 \<le> Sp_maxFiles two_files" by (simp_all add: two_files_def)
  have "less_kept \<lparr>K_name = ''b'', K_size = 1, K_modTime = 3\<rparr> \<lparr>K_name = ''a'', K_size = 1, K_modTime = 5\<rparr>"
    by (rule Sweep_oldest_first [OF q budgets w]) (use gone left were in \<open>simp_all add: w\<close>)
  then show ?thesis using gone by simp
qed

end
