(* ===== verification/Spec2Isabelle.thy ===== *)
theory Spec2Isabelle
  imports AgentEvents SpoolSweep
begin

text \<open>
  A verification development of the runtime agent (\<open>src/\<close>): a Kubernetes agent in Go that measures
  workloads, reduces what it sees to windows, snapshots and journals, queues the payloads in a directory
  and ships them to a backend.

  \<^bold>\<open>The program and its parts.\<close> One binary runs in two roles. The \<^emph>\<open>controller\<close> (\<open>cmd/agent/main.go\<close>)
  watches pods, Jobs, nodes and policy objects through informers, decides with one filter what may be
  collected, polls the kubelets, accumulates usage into hourly windows, keeps seven journals of events,
  writes payloads to the spool, and offers the spool to the backend. The \<^emph>\<open>node role\<close> (\<open>cmd/agent/node.go\<close>)
  scans the processes of its node and profiles some of them, within a scope the controller grants, and
  reports to the controller over an authenticated channel. Components interact by calls: the watcher's
  index answers the poller, the inventory, the policy reports and the pprof funnel; every component's
  state reaches the outside only through the spool, and only the shipper removes a payload that was
  delivered. A restarted controller reads its open windows back from the spool.

  \<^bold>\<open>Conventions.\<close> A struct is a record, a method a function from the state to the state, a tuple of results
  a tuple, an \<open>error\<close> a value of an error datatype or \<^const>\<open>None\<close>, a callback the list of what it was
  called with. A Go map is a \<open>gomap\<close> of \<^theory_text>\<open>Prelude\<close>: a finite map with a canonical representation. Where Go
  iterates over a map in an arbitrary order, either the result is shown not to depend on it, or the order
  is a parameter (\<open>visit\<close> of \<open>world\<close>). An \<open>int64\<close> is an \<^typ>\<open>int\<close> and every operation that may overflow wraps
  explicitly (\<open>add64\<close>, \<open>sub64\<close>, \<open>wrap64\<close>; \<open>addu64\<close> for \<open>uint64\<close>); the 128-bit product and quotient of
  \<open>math/bits\<close> are computed on 64-bit words. An instant is the number of nanoseconds since Go's zero time.
  Operations are atomic: the mutexes make them so in the code, and the order in which goroutines take
  them is the order of the steps in a run. Definitions keep the source's names, with the receiver's type in
  front where two methods share one.

  \<^bold>\<open>Parameters.\<close> Code outside the repository is an argument of the definitions that use it: \<open>encoding/json\<close>
  and \<open>sha256\<close> (\<open>world\<close>), the decoders of recovered payloads (\<open>decoders\<close>), file-system faults (\<open>io\<close>, \<open>read_io\<close>) and
  what other writers do while a request is in flight (\<open>offer_env\<close>), HTTP answers, \<open>compress/gzip\<close>, the JWT library,
  the YAML decoder and \<open>url.Parse\<close>, \<open>debug/buildinfo\<close>, the pprof library's wire format, the informer caches with
  label selectors and quantities (\<open>listers\<close>, \<open>policyListers\<close>), the eBPF tracer's samples, and clocks. Hypotheses
  on them say what their documentation says: a world without faults is \<open>faultless\<close>, iteration visits the keys it was
  given (\<open>permutes_keys\<close>), a payload is decoded to what was encoded.

  \<^bold>\<open>The theories.\<close>

  \<^item> \<^theory_text>\<open>Prelude\<close>, \<^theory_text>\<open>GoTime\<close>, \<^theory_text>\<open>GoStrings\<close>: integers, maps, \<open>sort.Slice\<close>, package \<open>time\<close>, and \<open>strings\<close>,
    \<open>strconv\<close> and UTF-8. The locale \<open>sort_order\<close> gives every comparison of the code that is a strict
    order by a key its sorted, unique result.

  \<^item> \<^theory_text>\<open>Windowing\<close>, \<^theory_text>\<open>Histogram\<close>, \<^theory_text>\<open>RollupRecord\<close>, \<^theory_text>\<open>WindowStore\<close>, \<^theory_text>\<open>SplitStore\<close>, \<^theory_text>\<open>Accumulator\<close>,
    \<^theory_text>\<open>Network\<close>: \<open>internal/rollup\<close>. A counter's delta is split over windows without losing a unit, the
    histogram's index is the bucket that encloses the value, merging records is observing both, and closing
    partitions the store. The locale \<open>window_store\<close> is the contract of all stores of open windows.

  \<^item> \<^theory_text>\<open>JournalBase\<close>, \<^theory_text>\<open>RestartJournal\<close>, \<^theory_text>\<open>EventJournals\<close>, \<^theory_text>\<open>GoroutineJournal\<close>, \<^theory_text>\<open>StateJournal\<close>,
    \<^theory_text>\<open>CounterJournal\<close>: \<open>internal/journal\<close>. Invariants over the reachable states of each journal, bounds on
    occupancy, and deltas that telescope.

  \<^item> \<^theory_text>\<open>Registry\<close>, \<^theory_text>\<open>CadenceGate\<close>, \<^theory_text>\<open>SpoolNames\<close>, \<^theory_text>\<open>Spool\<close>, \<^theory_text>\<open>SpoolSweep\<close>, \<^theory_text>\<open>SpoolWriters\<close>,
    \<^theory_text>\<open>WindowFiles\<close>, \<^theory_text>\<open>Recover\<close>: \<open>internal/sink\<close>. Under any fault a payload's file is whole, old or new; the sweep
    meets its three bounds; each window is one file with exactly its records (locale \<open>window_kind\<close>); the
    startup read returns open windows only.

  \<^item> \<^theory_text>\<open>Shipper\<close>: \<open>internal/shipper\<close>. What is removed was acknowledged and not replaced; a backend that accepts
    drains the spool; a refused credential halts.

  \<^item> \<^theory_text>\<open>PolicyFilter\<close>, \<^theory_text>\<open>Placement\<close>, \<^theory_text>\<open>PodView\<close>, \<^theory_text>\<open>PodWatcher\<close>, \<^theory_text>\<open>WatchHealth\<close>, \<^theory_text>\<open>UsagePoller\<close>, \<^theory_text>\<open>Policies\<close>,
    \<^theory_text>\<open>WorkloadShape\<close>, \<^theory_text>\<open>ClusterNodes\<close>: \<open>internal/collector\<close>, \<open>internal/metadata\<close>, \<open>internal/revisions\<close>. The
    index is exactly what the filter admits after any run of events; what is not admitted is not measured and
    no policy object leads to it; the description of a pod does not depend on its environment or arguments;
    readings of a counter telescope; the view of the nodes is the current fleet. The locales \<open>reduction\<close> and
    \<open>pod_resolver\<close> are the contracts of the nine reductions of a placement and of the poller's resolver.

  \<^item> \<^theory_text>\<open>ProcFiles\<close>, \<^theory_text>\<open>NodeScan\<close>, \<^theory_text>\<open>NodeProfile\<close>: \<open>internal/nodescan\<close>, \<open>internal/nodeprofile\<close>, \<open>internal/targeting\<close>
    and the pipeline of \<open>cmd/agent\<close>. Nothing outside the scope is opened, nothing outside the allow list is
    disclosed, and a serialised profile reads back.

  \<^item> \<^theory_text>\<open>Inventory\<close>, \<^theory_text>\<open>NodeIntake\<close>, \<^theory_text>\<open>PprofFunnel\<close>: \<open>internal/inventory\<close>, \<open>internal/nodeauth\<close>,
    \<open>internal/nodeintake\<close>, \<open>internal/pprofprobe\<close>, \<open>internal/pprofpull\<close>. The store refines the latest report
    of each node (locale \<open>measurement\<close>); a report speaks for the node of its token; every endpoint is visited.

  \<^item> \<^theory_text>\<open>Startup\<close>: \<open>internal/config\<close>, \<open>internal/ebpfgate\<close>, the heartbeat of \<open>internal/health\<close>, and the
    settings without which the receiver does not start.

  \<^item> \<^theory_text>\<open>AgentFlow\<close>, \<^theory_text>\<open>AgentPasses\<close>, \<^theory_text>\<open>AgentEvents\<close>: \<open>cmd/agent\<close>. The composition: seeding after a restart, the passes over all
    writers, the shutdown, what delivery and a restart do to the open windows, and runs of the whole controller as
    interleavings of events, polls, flushes and passes, in which no journal ever holds what was not admitted. The locale \<open>journal_writer\<close>
    is what the passes rely on in the seven journal writers.

  \<^bold>\<open>Loops, bounds and fuel.\<close> No definition has fuel. Loops over data are structural recursion or folds; the two
  that step through windows, which the code does not bound, are partial functions into \<^typ>\<open>'a option\<close>
  (\<open>split_loop\<close>, \<open>spans_loop\<close>) with lemmas that they return for every positive window length and equal the
  total functions (\<open>split_segs\<close>, \<open>spans\<close>) the other definitions use. Constants (the caps of the goroutine series, the
  spool's budgets, the recovery and payload limits, the backoff) are the source's.

  \<^bold>\<open>What is not modelled.\<close> The start and cancellation of goroutines, command-line flags and the Kubernetes
  client; HTTP servers as such, their timeouts and the text of the health, decisions and metrics endpoints
  (\<open>internal/decisions\<close>, \<open>internal/metrics\<close>, the server of \<open>internal/health\<close>): they render readings of components that
  are modelled. The parsing of the kubelet's exposition text and of a JWKS document: what they return
  is an argument. The eBPF programs and their loader. Generated code (\<open>internal/pb\<close>), the chart and its
  rendering for tests. Log lines. A pass reads the clock at several points within moments of each other; the model
  of a pass reads it once.
\<close>

end
